(* ===== verification/VB_Prelude.thy ===== *)
theory VB_Prelude
  imports Main "HOL-Library.Word" "HOL-Library.State_Monad"
begin

text \<open>
  Types and generic lemmas shared by every component of the development: the machine
  integer widths of the C++ code, the bit patterns that stand for its floating-point
  fields on the wire, list and word facts, and the collections of rules the wire
  codec proofs are carried by.
\<close>

unbundle bit_operations_syntax

section \<open>Machine integers\<close>

type_synonym byte = "8 word"
type_synonym u8 = "8 word"
type_synonym u16 = "16 word"
type_synonym u32 = "32 word"
type_synonym u64 = "64 word"

text \<open>
  A signed integer is the word of its width, read with \<open>sint\<close> where the code compares or
  divides it. A \<open>float\<close> or \<open>double\<close> field that the code only stores, copies and puts on the
  wire with \<open>memcpy\<close> is its IEEE bit pattern.
\<close>

type_synonym i32 = "32 word"
type_synonym i64 = "64 word"
type_synonym f32 = "32 word"
type_synonym f64 = "64 word"

text \<open>A \<open>std::string\<close> is its bytes; nothing in the wire code assumes UTF-8.\<close>

type_synonym bstring = "byte list"

text \<open>A string literal of the code.\<close>

definition lit :: "string \<Rightarrow> bstring" where
  "lit s = map of_char s"

section \<open>Collections of rules\<close>

named_theorems appends_intros \<open>writers that only append to the output vector\<close>
named_theorems robust_intros \<open>readers that stay in bounds and keep the first error\<close>
named_theorems field_reads \<open>what the helper of a nested field reads back\<close>
named_theorems field_readers \<open>the helpers of nested fields are well behaved\<close>
named_theorems codec_defs \<open>the definitions a message's codec proof unfolds\<close>

section \<open>Lists\<close>

lemma nth_append_middle [simp]: "(pre @ x # rest) ! length pre = x"
  by simp

lemma nth_append_offset: "i < length bs \<Longrightarrow> (pre @ bs @ rest) ! (length pre + i) = bs ! i"
  by (simp add: nth_append)

lemma take_drop_middle: "take (length bs) (drop (length pre) (pre @ bs @ rest)) = bs"
  by simp

lemma nth_take_eq:
  assumes "take n xs = take n ys" and "i < n"
  shows "xs ! i = ys ! i"
  using assms by (metis nth_take)

lemma map_upt_cong: "(\<And>i. i < n \<Longrightarrow> f i = g i) \<Longrightarrow> map f [0..<n] = map g [0..<n]"
  by simp

lemma replicate_plus_append: "replicate (m + n) x = replicate m x @ replicate n x"
  by (simp add: replicate_add)

section \<open>Words\<close>

text \<open>
  The numeral masks of the code, bit by bit. The rules of the library reduce a bit of a
  word numeral to a bit of the integer numeral, so they are stated there.
\<close>

lemma bit_low_masks_int:
  "bit (127 :: int) n \<longleftrightarrow> n < 7" "bit (255 :: int) n \<longleftrightarrow> n < 8" "bit (15 :: int) n \<longleftrightarrow> n < 4"
proof -
  have "bit (mask k :: int) n \<longleftrightarrow> n < k" for k
    by (simp only: bit_mask_iff possible_bit_int simp_thms)
  from this [of 7] this [of 8] this [of 4]
  show "bit (127 :: int) n \<longleftrightarrow> n < 7" "bit (255 :: int) n \<longleftrightarrow> n < 8" "bit (15 :: int) n \<longleftrightarrow> n < 4"
    by (simp_all add: mask_eq_exp_minus_1)
qed

lemma bit_128_int: "bit (128 :: int) n \<longleftrightarrow> n = 7"
proof -
  have "bit (2 ^ 7 :: int) n \<longleftrightarrow> n = 7"
    by (auto simp only: bit_exp_iff possible_bit_int)
  then show ?thesis by simp
qed

lemma bit_240_int: "bit (240 :: int) n \<longleftrightarrow> 4 \<le> n \<and> n < 8"
proof -
  have "bit (push_bit 4 (15 :: int)) n \<longleftrightarrow> 4 \<le> n \<and> n < 8"
    by (auto simp only: bit_push_bit_iff possible_bit_int bit_low_masks_int)
  then show ?thesis by (simp add: push_bit_eq_mult)
qed

lemmas bit_const_simps = bit_low_masks_int bit_128_int bit_240_int

lemma bit_of_less_exp:
  fixes w :: "'a::len word"
  assumes "w < 2 ^ n" and "bit w k"
  shows "k < n"
proof -
  have "w AND mask n = w" using assms(1) by (rule less_mask_eq)
  then have "bit (w AND mask n) k" using assms(2) by simp
  then show ?thesis by (simp add: bit_simps)
qed

lemma unat_less_2p64: "unat (w :: 64 word) < 2 ^ 64"
  using unsigned_less [of w] by simp

lemma unat_of_nat_u64 [simp]: "n < 2 ^ 64 \<Longrightarrow> unat (of_nat n :: u64) = n"
  by (simp add: unsigned_of_nat take_bit_nat_eq_self)

lemma of_nat_le_u64:
  assumes "n \<le> m" and "m < 2 ^ 64"
  shows "(of_nat n :: u64) \<le> of_nat m"
  using assms by (simp add: word_le_nat_alt unat_of_nat_u64)

end
