(* ===== verification/Byte_Buffer.thy ===== *)
theory Byte_Buffer
  imports VB_Prelude
begin

text \<open>
  The little-endian wire codec primitives of \<open>inc/vb/protocol/byte_buffer.hpp\<close>: the
  \<open>ProtocolError\<close> enum of \<open>inc/vb/core/error.hpp\<close>, the \<open>ByteWriter\<close> (a state monad over the
  output vector) and the \<open>ByteReader\<close> (a state monad over the input span, the cursor and the
  first error). \<open>std::size_t\<close> cursors are \<open>nat\<close>: the cursor never passes the end of the data
  (\<open>robust\<close> in \<open>Wire_Laws\<close>), so \<open>remaining()\<close> never wraps.
\<close>

section \<open>Errors\<close>

datatype protocol_error =
    kNone
  | kShortBuffer
  | kOverlongVarint
  | kTrailingBytes
  | kBadEnum
  | kLengthExceeded
  | kVersionMismatch
  | kMalformed

text \<open>\<open>Decoded<T>\<close>: the error on the left, the message on the right.\<close>

type_synonym 'm decoded = "protocol_error + 'm"

definition kMaxDecodedLength :: nat where [codec_defs]:
  "kMaxDecodedLength = 64 * 1024 * 1024"

section \<open>ByteWriter\<close>

type_synonym writer = "(byte list, unit) state"

definition push_back :: "byte \<Rightarrow> writer" where
  "push_back b = State_Monad.update (\<lambda>out. out @ [b])"

definition w_bytes :: "byte list \<Rightarrow> writer" where
  "w_bytes bs = State_Monad.update (\<lambda>out. out @ bs)"

definition w_u8 :: "u8 \<Rightarrow> writer" where
  "w_u8 v = push_back v"

text \<open>\<open>put_le\<close> pushes \<open>sizeof(T)\<close> bytes, the \<open>i\<close>-th being \<open>(v >> (8 * i)) & 0xFF\<close>.\<close>

definition le_byte :: "'a::len word \<Rightarrow> nat \<Rightarrow> byte" where
  "le_byte v i = ucast (drop_bit (8 * i) v AND 0xFF)"

primrec push_le :: "'a::len word \<Rightarrow> nat list \<Rightarrow> writer" where
  "push_le v [] = State_Monad.return ()"
| "push_le v (i # is) = do { push_back (le_byte v i); push_le v is }"

definition put_le :: "nat \<Rightarrow> 'a::len word \<Rightarrow> writer" where
  "put_le sz v = push_le v [0..<sz]"

definition w_u16 :: "u16 \<Rightarrow> writer" where
  "w_u16 v = put_le 2 v"

definition w_u32 :: "u32 \<Rightarrow> writer" where
  "w_u32 v = put_le 4 v"

definition w_u64 :: "u64 \<Rightarrow> writer" where
  "w_u64 v = put_le 8 v"

definition w_i32 :: "i32 \<Rightarrow> writer" where
  "w_i32 v = w_u32 v"

definition w_boolean :: "bool \<Rightarrow> writer" where
  "w_boolean v = w_u8 (if v then 1 else 0)"

definition w_f32 :: "f32 \<Rightarrow> writer" where
  "w_f32 bits = w_u32 bits"

definition w_f64 :: "f64 \<Rightarrow> writer" where
  "w_f64 bits = w_u64 bits"

text \<open>Unsigned LEB128: seven bits a byte, the high bit set on all but the last.\<close>

lemma drop_bit7_less:
  assumes "\<not> (v :: u64) < 0x80"
  shows "unat (drop_bit 7 v) < unat v"
proof -
  have "unat v \<noteq> 0" using assms by (auto simp: word_less_nat_alt)
  then show ?thesis by (simp add: unat_drop_bit_eq drop_bit_eq_div unat_div)
qed

function w_varint :: "u64 \<Rightarrow> writer" where
  "w_varint v =
     (if v \<ge> 0x80
      then do { push_back (ucast ((v AND 0x7F) OR 0x80)); w_varint (drop_bit 7 v) }
      else push_back (ucast v))"
  by pat_completeness auto
termination
  by (relation "measure unat") (auto simp: drop_bit7_less not_less)

declare w_varint.simps [simp del]

text \<open>Zig-zag: \<open>(v << 1) ^ (v >> 63)\<close> with the arithmetic shift of \<open>std::int64_t\<close>.\<close>

definition zigzag :: "i64 \<Rightarrow> u64" where
  "zigzag v = push_bit 1 v XOR signed_drop_bit 63 v"

definition w_svarint :: "i64 \<Rightarrow> writer" where
  "w_svarint v = w_varint (zigzag v)"

definition w_string :: "bstring \<Rightarrow> writer" where
  "w_string s = do { w_varint (of_nat (length s)); w_bytes s }"

section \<open>ByteReader\<close>

record byte_reader =
  br_data :: "byte list"
  br_pos :: nat
  br_err :: protocol_error

type_synonym 'a reader = "(byte_reader, 'a) state"

definition reader_on :: "byte list \<Rightarrow> byte_reader" where
  "reader_on bs = \<lparr>br_data = bs, br_pos = 0, br_err = kNone\<rparr>"

definition r_failed :: "bool reader" where
  "r_failed = do { s \<leftarrow> State_Monad.get; State_Monad.return (br_err s \<noteq> kNone) }"

definition r_error :: "protocol_error reader" where
  "r_error = do { s \<leftarrow> State_Monad.get; State_Monad.return (br_err s) }"

definition r_remaining :: "nat reader" where
  "r_remaining = do { s \<leftarrow> State_Monad.get; State_Monad.return (length (br_data s) - br_pos s) }"

definition r_at_end :: "bool reader" where
  "r_at_end = do { s \<leftarrow> State_Monad.get; State_Monad.return (br_pos s \<ge> length (br_data s)) }"

definition r_fail :: "protocol_error \<Rightarrow> unit reader" where
  "r_fail e = State_Monad.update (\<lambda>s. if br_err s = kNone then s\<lparr>br_err := e\<rparr> else s)"

definition r_expect_consumed :: "unit reader" where
  "r_expect_consumed = do {
     failed \<leftarrow> r_failed;
     ended \<leftarrow> r_at_end;
     if \<not> failed \<and> \<not> ended
     then State_Monad.update (\<lambda>s. s\<lparr>br_err := kTrailingBytes\<rparr>)
     else State_Monad.return () }"

definition r_ensure :: "nat \<Rightarrow> bool reader" where
  "r_ensure n = do {
     failed \<leftarrow> r_failed;
     if failed then State_Monad.return False
     else do {
       rem \<leftarrow> r_remaining;
       if rem < n
       then do { r_fail kShortBuffer; State_Monad.return False }
       else State_Monad.return True } }"

text \<open>\<open>data_[pos_++]\<close> and the reads at \<open>pos_ + i\<close>, always behind \<open>ensure\<close>.\<close>

definition r_next :: "byte reader" where
  "r_next = do {
     s \<leftarrow> State_Monad.get;
     State_Monad.set (s\<lparr>br_pos := br_pos s + 1\<rparr>);
     State_Monad.return (br_data s ! br_pos s) }"

definition r_u8 :: "u8 reader" where
  "r_u8 = do { ok \<leftarrow> r_ensure 1; if \<not> ok then State_Monad.return 0 else r_next }"

definition le_value :: "nat \<Rightarrow> (nat \<Rightarrow> byte) \<Rightarrow> u64" where
  "le_value sz at = fold (\<lambda>i acc. acc OR push_bit (8 * i) (ucast (at i))) [0..<sz] 0"

definition get_le :: "nat \<Rightarrow> 'a::len word reader" where
  "get_le sz = do {
     ok \<leftarrow> r_ensure sz;
     if \<not> ok then State_Monad.return 0
     else do {
       s \<leftarrow> State_Monad.get;
       State_Monad.set (s\<lparr>br_pos := br_pos s + sz\<rparr>);
       State_Monad.return (ucast (le_value sz (\<lambda>i. br_data s ! (br_pos s + i)))) } }"

definition r_u16 :: "u16 reader" where
  "r_u16 = get_le 2"

definition r_u32 :: "u32 reader" where
  "r_u32 = get_le 4"

definition r_u64 :: "u64 reader" where
  "r_u64 = get_le 8"

definition r_i32 :: "i32 reader" where
  "r_i32 = r_u32"

definition r_f32 :: "f32 reader" where
  "r_f32 = r_u32"

definition r_f64 :: "f64 reader" where
  "r_f64 = r_u64"

definition r_boolean :: "bool reader" where
  "r_boolean = do {
     v \<leftarrow> r_u8;
     (if v > 1 then r_fail kMalformed else State_Monad.return ());
     State_Monad.return (v \<noteq> 0) }"

function r_varint_loop :: "nat \<Rightarrow> u64 \<Rightarrow> u64 reader" where
  "r_varint_loop shift result =
     (if shift < 64
      then do {
        ok \<leftarrow> r_ensure 1;
        if \<not> ok then State_Monad.return 0
        else do {
          b \<leftarrow> r_next;
          let result' = result OR push_bit shift (ucast (b AND 0x7F));
          if b AND 0x80 = 0 then State_Monad.return result'
          else r_varint_loop (shift + 7) result' } }
      else do { r_fail kOverlongVarint; State_Monad.return 0 })"
  by pat_completeness auto
termination
  by (relation "measure (\<lambda>(shift, result). 64 - shift)") auto

declare r_varint_loop.simps [simp del]

definition r_varint :: "u64 reader" where
  "r_varint = r_varint_loop 0 0"

definition unzigzag :: "u64 \<Rightarrow> i64" where
  "unzigzag v = drop_bit 1 v XOR (NOT (v AND 1) + 1)"

definition r_svarint :: "i64 reader" where
  "r_svarint = do { v \<leftarrow> r_varint; State_Monad.return (unzigzag v) }"

definition r_bytes :: "nat \<Rightarrow> byte list reader" where
  "r_bytes n = do {
     ok \<leftarrow> r_ensure n;
     if \<not> ok then State_Monad.return []
     else do {
       s \<leftarrow> State_Monad.get;
       State_Monad.set (s\<lparr>br_pos := br_pos s + n\<rparr>);
       State_Monad.return (take n (drop (br_pos s) (br_data s))) } }"

definition r_string :: "nat \<Rightarrow> bstring reader" where
  "r_string max_len = do {
     len \<leftarrow> r_varint;
     failed \<leftarrow> r_failed;
     if failed then State_Monad.return []
     else if unat len > max_len \<or> unat len > kMaxDecodedLength
     then do { r_fail kLengthExceeded; State_Monad.return [] }
     else do {
       b \<leftarrow> r_bytes (unat len);
       failed \<leftarrow> r_failed;
       if failed then State_Monad.return [] else State_Monad.return b } }"

text \<open>\<open>string()\<close> with its default argument.\<close>

abbreviation r_str :: "bstring reader" where
  "r_str \<equiv> r_string kMaxDecodedLength"

section \<open>Shared decoder shapes\<close>

text \<open>\<open>finish\<close> of \<open>handshake.cpp\<close>, \<open>world.cpp\<close>, \<open>chat.cpp\<close> and \<open>assetsync.cpp\<close>.\<close>

definition finish :: "'m \<Rightarrow> 'm decoded reader" where
  "finish m = do {
     r_expect_consumed;
     failed \<leftarrow> r_failed;
     if failed then do { e \<leftarrow> r_error; State_Monad.return (Inl e) }
     else State_Monad.return (Inr m) }"

text \<open>\<open>for (i = 0; i < n && !r.failed(); ++i) v.push_back(read(r))\<close>.\<close>

primrec read_loop :: "nat \<Rightarrow> 'a reader \<Rightarrow> 'a list reader" where
  "read_loop 0 p = State_Monad.return []"
| "read_loop (Suc n) p = do {
     failed \<leftarrow> r_failed;
     if failed then State_Monad.return []
     else do { x \<leftarrow> p; xs \<leftarrow> read_loop n p; State_Monad.return (x # xs) } }"

text \<open>\<open>for (const auto &x : v) write(w, x)\<close>.\<close>

primrec write_each :: "('a \<Rightarrow> writer) \<Rightarrow> 'a list \<Rightarrow> writer" where
  "write_each f [] = State_Monad.return ()"
| "write_each f (x # xs) = do { f x; write_each f xs }"

definition run_writer :: "writer \<Rightarrow> byte list" where
  "run_writer w = snd (run_state w [])"

definition run_decoder :: "'m decoded reader \<Rightarrow> byte list \<Rightarrow> 'm decoded" where
  "run_decoder d bs = fst (run_state d (reader_on bs))"

end
