(* ===== verification/Wire_Laws.thy ===== *)
theory Wire_Laws
  imports Byte_Buffer
begin

text \<open>
  The laws the wire codec rests on. \<open>appends w\<close>: a writer only appends to the output vector.
  \<open>reads p bs x\<close>: wherever the bytes \<open>bs\<close> stand in the input, the reader \<open>p\<close> returns \<open>x\<close> and
  moves past exactly them. \<open>reader_ok p Y\<close>: \<open>p\<close> stays inside the input, changes nothing once an
  error is recorded, depends only on the bytes it consumes, runs out with \<open>kShortBuffer\<close> on
  any shorter input, and then returns a value of \<open>Y\<close>. \<open>wire_decoder d\<close>: a decoder built from
  such readers that ends in \<open>finish\<close> rejects every strict prefix and every extension of an
  input it accepts. The collections of rules let the message theories prove these by \<open>auto\<close>.
\<close>

section \<open>Writers\<close>

definition appends :: "writer \<Rightarrow> bool" where
  "appends w \<longleftrightarrow> (\<forall>out. run_state w out = ((), out @ run_writer w))"

lemma appendsI: "(\<And>out. run_state w out = ((), out @ bs)) \<Longrightarrow> appends w"
  by (simp add: appends_def run_writer_def)

lemma appendsD: "appends w \<Longrightarrow> run_state w out = ((), out @ run_writer w)"
  by (simp add: appends_def)

lemma run_state_update [simp]: "run_state (State_Monad.update f) s = ((), f s)"
  by (simp add: State_Monad.update_def)

lemma appends_return [appends_intros, simp]: "appends (State_Monad.return ())"
  by (rule appendsI [of _ "[]"]) simp

lemma run_writer_return [simp]: "run_writer (State_Monad.return ()) = []"
  by (simp add: run_writer_def)

lemma appends_bind [appends_intros, simp]:
  assumes "appends v" and "appends w"
  shows "appends (State_Monad.bind v (\<lambda>_. w))"
  by (rule appendsI [of _ "run_writer v @ run_writer w"])
    (simp add: appendsD [OF assms(1)] appendsD [OF assms(2)])

lemma run_writer_bind [simp]:
  assumes "appends v" and "appends w"
  shows "run_writer (State_Monad.bind v (\<lambda>_. w)) = run_writer v @ run_writer w"
  using appendsD [OF assms(1), of "[]"] appendsD [OF assms(2), of "run_writer v"]
  by (simp add: run_writer_def case_prod_unfold)

lemma appends_push_back [appends_intros, simp]: "appends (push_back b)"
  by (rule appendsI [of _ "[b]"]) (simp add: push_back_def)

lemma run_writer_push_back [simp]: "run_writer (push_back b) = [b]"
  by (simp add: run_writer_def push_back_def)

lemma appends_bytes [appends_intros, simp]: "appends (w_bytes bs)"
  by (rule appendsI [of _ bs]) (simp add: w_bytes_def)

lemma run_writer_bytes [simp]: "run_writer (w_bytes bs) = bs"
  by (simp add: run_writer_def w_bytes_def)

lemma appends_u8 [appends_intros, simp]: "appends (w_u8 v)"
  by (simp add: w_u8_def)

lemma run_writer_u8: "run_writer (w_u8 v) = [v]"
  by (simp add: w_u8_def)

lemma appends_push_le [simp]: "appends (push_le v is)"
  by (induction "is") simp_all

lemma run_writer_push_le: "run_writer (push_le v is) = map (le_byte v) is"
  by (induction "is") simp_all

lemma appends_put_le [simp]: "appends (put_le sz v)"
  by (simp add: put_le_def)

lemma run_writer_put_le: "run_writer (put_le sz v) = map (le_byte v) [0..<sz]"
  by (simp add: put_le_def run_writer_push_le)

lemma appends_fixed [appends_intros, simp]:
  "appends (w_u16 a)" "appends (w_u32 b)" "appends (w_u64 c)" "appends (w_i32 b)"
  "appends (w_boolean t)" "appends (w_f32 b)" "appends (w_f64 c)"
  by (simp_all add: w_u16_def w_u32_def w_u64_def w_i32_def w_boolean_def w_f32_def w_f64_def)

lemma appends_varint [appends_intros, simp]: "appends (w_varint v)"
proof (induction v rule: w_varint.induct)
  case (1 v)
  then show ?case by (subst w_varint.simps) simp
qed

lemma run_writer_varint:
  "run_writer (w_varint v) =
     (if v \<ge> 0x80 then ucast ((v AND 0x7F) OR 0x80) # run_writer (w_varint (drop_bit 7 v))
      else [ucast v])"
  by (subst w_varint.simps) simp

lemma appends_svarint [appends_intros, simp]: "appends (w_svarint v)"
  by (simp add: w_svarint_def)

lemma appends_string [appends_intros, simp]: "appends (w_string s)"
  by (simp add: w_string_def)

lemma run_writer_string:
  "run_writer (w_string s) = run_writer (w_varint (of_nat (length s))) @ s"
  by (simp add: w_string_def)

lemma appends_each [appends_intros, simp]:
  "(\<And>x. x \<in> set xs \<Longrightarrow> appends (f x)) \<Longrightarrow> appends (write_each f xs)"
  by (induction xs) simp_all

lemma run_writer_each:
  "(\<And>x. x \<in> set xs \<Longrightarrow> appends (f x)) \<Longrightarrow>
     run_writer (write_each f xs) = concat (map (\<lambda>x. run_writer (f x)) xs)"
  by (induction xs) simp_all

lemma appends_if [appends_intros, simp]:
  "appends v \<Longrightarrow> appends w \<Longrightarrow> appends (if c then v else w)"
  by simp

section \<open>Reader states\<close>

definition ok_at :: "byte list \<Rightarrow> nat \<Rightarrow> byte_reader" where
  "ok_at bs n = \<lparr>br_data = bs, br_pos = n, br_err = kNone\<rparr>"

lemma ok_at_simps [simp]:
  "br_data (ok_at bs n) = bs" "br_pos (ok_at bs n) = n" "br_err (ok_at bs n) = kNone"
  "(ok_at bs n)\<lparr>br_pos := m\<rparr> = ok_at bs m"
  by (simp_all add: ok_at_def)

lemma ok_at_inject [simp]: "ok_at bs n = ok_at cs m \<longleftrightarrow> bs = cs \<and> n = m"
  by (auto simp: ok_at_def)

lemma ok_at_eqI: "br_err s = kNone \<Longrightarrow> s = ok_at (br_data s) (br_pos s)"
  by (cases s) (simp add: ok_at_def)

lemma reader_on_ok_at: "reader_on bs = ok_at bs 0"
  by (simp add: reader_on_def ok_at_def)

lemma run_failed [simp]: "run_state r_failed s = (br_err s \<noteq> kNone, s)"
  by (simp add: r_failed_def)

lemma run_error [simp]: "run_state r_error s = (br_err s, s)"
  by (simp add: r_error_def)

lemma run_remaining [simp]: "run_state r_remaining s = (length (br_data s) - br_pos s, s)"
  by (simp add: r_remaining_def)

lemma run_at_end [simp]: "run_state r_at_end s = (br_pos s \<ge> length (br_data s), s)"
  by (simp add: r_at_end_def)

lemma run_fail [simp]:
  "run_state (r_fail e) s = ((), if br_err s = kNone then s\<lparr>br_err := e\<rparr> else s)"
  by (simp add: r_fail_def)

lemma run_ensure:
  "run_state (r_ensure n) s =
     (if br_err s \<noteq> kNone then (False, s)
      else if length (br_data s) - br_pos s < n then (False, s\<lparr>br_err := kShortBuffer\<rparr>)
      else (True, s))"
  by (simp add: r_ensure_def)

lemma run_next [simp]:
  "run_state r_next s = (br_data s ! br_pos s, s\<lparr>br_pos := br_pos s + 1\<rparr>)"
  by (simp add: r_next_def)

lemma run_get_le:
  "run_state (get_le sz) s =
     (if br_err s \<noteq> kNone then (0, s)
      else if length (br_data s) - br_pos s < sz then (0, s\<lparr>br_err := kShortBuffer\<rparr>)
      else (ucast (le_value sz (\<lambda>i. br_data s ! (br_pos s + i))), s\<lparr>br_pos := br_pos s + sz\<rparr>))"
  by (simp add: get_le_def run_ensure)

lemma run_u8:
  "run_state r_u8 s =
     (if br_err s \<noteq> kNone then (0, s)
      else if length (br_data s) - br_pos s < 1 then (0, s\<lparr>br_err := kShortBuffer\<rparr>)
      else (br_data s ! br_pos s, s\<lparr>br_pos := br_pos s + 1\<rparr>))"
  by (simp add: r_u8_def run_ensure)

lemma run_bytes:
  "run_state (r_bytes n) s =
     (if br_err s \<noteq> kNone then ([], s)
      else if length (br_data s) - br_pos s < n then ([], s\<lparr>br_err := kShortBuffer\<rparr>)
      else (take n (drop (br_pos s) (br_data s)), s\<lparr>br_pos := br_pos s + n\<rparr>))"
  by (simp add: r_bytes_def run_ensure)

lemma run_varint_loop:
  "run_state (r_varint_loop shift acc) s =
     (if shift < 64
      then if br_err s \<noteq> kNone then (0, s)
        else if length (br_data s) - br_pos s < 1 then (0, s\<lparr>br_err := kShortBuffer\<rparr>)
        else
          (let b = br_data s ! br_pos s; s' = s\<lparr>br_pos := br_pos s + 1\<rparr>;
               acc' = acc OR push_bit shift (ucast (b AND 0x7F))
           in if b AND 0x80 = 0 then (acc', s') else run_state (r_varint_loop (shift + 7) acc') s')
      else (0, if br_err s = kNone then s\<lparr>br_err := kOverlongVarint\<rparr> else s))"
  by (subst r_varint_loop.simps) (simp add: run_ensure Let_def)

section \<open>What a reader returns on its writer's bytes\<close>

definition reads :: "'a reader \<Rightarrow> byte list \<Rightarrow> 'a \<Rightarrow> bool" where
  "reads p bs x \<longleftrightarrow>
     (\<forall>pre rest. run_state p (ok_at (pre @ bs @ rest) (length pre)) =
        (x, ok_at (pre @ bs @ rest) (length pre + length bs)))"

lemma readsI:
  "(\<And>pre rest. run_state p (ok_at (pre @ bs @ rest) (length pre)) =
      (x, ok_at (pre @ bs @ rest) (length pre + length bs))) \<Longrightarrow> reads p bs x"
  by (simp add: reads_def)

lemma readsD:
  "reads p bs x \<Longrightarrow> run_state p (ok_at (pre @ bs @ rest) (length pre)) =
      (x, ok_at (pre @ bs @ rest) (length pre + length bs))"
  by (simp add: reads_def)

lemma reads_return: "reads (State_Monad.return x) [] x"
  by (rule readsI) simp

lemma reads_bind:
  assumes p: "reads p bs x" and f: "reads (f x) cs y"
  shows "reads (State_Monad.bind p f) (bs @ cs) y"
proof (rule readsI)
  fix pre rest
  have "run_state p (ok_at (pre @ bs @ (cs @ rest)) (length pre)) =
      (x, ok_at (pre @ bs @ (cs @ rest)) (length pre + length bs))"
    by (rule readsD [OF p])
  moreover have "run_state (f x) (ok_at ((pre @ bs) @ cs @ rest) (length (pre @ bs))) =
      (y, ok_at ((pre @ bs) @ cs @ rest) (length (pre @ bs) + length cs))"
    by (rule readsD [OF f])
  ultimately show "run_state (State_Monad.bind p f)
        (ok_at (pre @ (bs @ cs) @ rest) (length pre)) =
      (y, ok_at (pre @ (bs @ cs) @ rest) (length pre + length (bs @ cs)))"
    by (simp add: add.assoc)
qed

lemma reads_bind_return:
  "reads p bs x \<Longrightarrow> reads (State_Monad.bind p (\<lambda>x. State_Monad.return (g x))) bs (g x)"
  using reads_bind [of p bs x "\<lambda>x. State_Monad.return (g x)" "[]" "g x"] reads_return [of "g x"]
  by simp

lemma reads_then: "reads p [] y \<Longrightarrow> reads (f y) bs x \<Longrightarrow> reads (State_Monad.bind p f) bs x"
  using reads_bind [of p "[]" y f bs x] by simp

lemma reads_if_not: "\<not> c \<Longrightarrow> reads q bs x \<Longrightarrow> reads (if c then p else q) bs x"
  by simp

lemma reads_if: "c \<Longrightarrow> reads p bs x \<Longrightarrow> reads (if c then p else q) bs x"
  by simp

lemma reads_failed: "reads r_failed [] False"
  by (rule readsI) simp

lemma reads_u8: "reads r_u8 (run_writer (w_u8 v)) v"
  by (rule readsI) (simp add: run_u8 run_writer_u8)

subsection \<open>Fixed-width integers\<close>

lemma bit_le_fold:
  "bit (fold (\<lambda>i acc. acc OR push_bit (8 * i) (ucast (at i))) is (acc :: u64)) n \<longleftrightarrow>
     bit acc n \<or> (\<exists>i \<in> set is. 8 * i \<le> n \<and> n < 64 \<and> bit (at i :: byte) (n - 8 * i))"
  by (induction "is" arbitrary: acc) (auto simp: bit_simps)

lemma bit_le_byte: "bit (le_byte v i) n \<longleftrightarrow> n < 8 \<and> bit v (8 * i + n)"
  by (auto simp: le_byte_def bit_simps bit_const_simps ac_simps dest: bit_imp_possible_bit)

lemma le_value_le_byte:
  fixes v :: "'a::len word"
  assumes "LENGTH('a) \<le> 8 * sz" and "LENGTH('a) \<le> 64"
  shows "ucast (le_value sz (le_byte v)) = v"
proof (rule bit_word_eqI)
  fix n assume n: "n < LENGTH('a)"
  have "(\<exists>i \<in> {0..<sz}. 8 * i \<le> n \<and> n < 64 \<and> n - 8 * i < 8 \<and> bit v (8 * i + (n - 8 * i)))
      \<longleftrightarrow> bit v n" (is "?L \<longleftrightarrow> _")
  proof
    assume "bit v n"
    with n assms have "n div 8 \<in> {0..<sz} \<and> 8 * (n div 8) \<le> n \<and> n < 64 \<and>
        n - 8 * (n div 8) < 8 \<and> bit v (8 * (n div 8) + (n - 8 * (n div 8)))"
      by auto
    then show ?L by blast
  qed auto
  with n show "bit (ucast (le_value sz (le_byte v)) :: 'a word) n = bit v n"
    by (simp add: le_value_def bit_le_fold bit_le_byte bit_simps)
qed

lemma le_value_cong: "(\<And>i. i < sz \<Longrightarrow> f i = g i) \<Longrightarrow> le_value sz f = le_value sz g"
  unfolding le_value_def by (rule fold_cong) auto

lemma reads_get_le:
  fixes v :: "'a::len word"
  assumes "LENGTH('a) \<le> 8 * sz" and "LENGTH('a) \<le> 64"
  shows "reads (get_le sz) (run_writer (put_le sz v)) v"
proof (rule readsI)
  fix pre rest
  let ?D = "pre @ map (le_byte v) [0..<sz] @ rest"
  have "le_value sz (\<lambda>i. ?D ! (length pre + i)) = le_value sz (le_byte v)"
    by (rule le_value_cong) (simp add: nth_append)
  then show "run_state (get_le sz) (ok_at (pre @ run_writer (put_le sz v) @ rest) (length pre)) =
      (v, ok_at (pre @ run_writer (put_le sz v) @ rest)
        (length pre + length (run_writer (put_le sz v))))"
    by (simp add: run_get_le run_writer_put_le le_value_le_byte [OF assms])
qed

lemma reads_fixed:
  "reads r_u16 (run_writer (w_u16 a)) a" "reads r_u32 (run_writer (w_u32 b)) b"
  "reads r_u64 (run_writer (w_u64 c)) c" "reads r_i32 (run_writer (w_i32 b)) b"
  "reads r_f32 (run_writer (w_f32 b)) b" "reads r_f64 (run_writer (w_f64 c)) c"
  by (simp_all add: r_u16_def r_u32_def r_u64_def r_i32_def r_f32_def r_f64_def
      w_u16_def w_u32_def w_u64_def w_i32_def w_f32_def w_f64_def reads_get_le)

lemma reads_boolean: "reads r_boolean (run_writer (w_boolean b)) b"
  by (rule readsI) (simp add: r_boolean_def w_boolean_def run_u8 run_writer_u8)

subsection \<open>Varints and strings\<close>

lemma varint_byte_more:
  fixes v :: u64
  defines "b \<equiv> ucast ((v AND 0x7F) OR 0x80) :: byte"
  shows "b AND 0x80 \<noteq> 0" and "(ucast (b AND 0x7F) :: u64) = v AND 0x7F"
proof -
  have "bit (b AND 0x80) 7" by (simp add: b_def bit_simps bit_const_simps)
  then show "b AND 0x80 \<noteq> 0" by auto
  show "(ucast (b AND 0x7F) :: u64) = v AND 0x7F"
    unfolding b_def by (rule bit_word_eqI) (auto simp: bit_simps bit_const_simps)
qed

lemma varint_byte_last:
  fixes v :: u64
  assumes "\<not> v \<ge> 0x80"
  shows "(ucast v :: byte) AND 0x80 = 0" and "(ucast ((ucast v :: byte) AND 0x7F) :: u64) = v"
proof -
  have high: "n < 7" if "bit v n" for n
    using bit_of_less_exp [of v 7 n] that assms by simp
  show "(ucast v :: byte) AND 0x80 = 0"
    by (rule bit_word_eqI) (auto simp: bit_simps bit_const_simps dest: high)
  show "(ucast ((ucast v :: byte) AND 0x7F) :: u64) = v"
    by (rule bit_word_eqI) (auto simp: bit_simps bit_const_simps dest: high)
qed

lemma varint_or_split:
  "(acc OR push_bit shift (v AND 0x7F)) OR push_bit (shift + 7) (drop_bit 7 v)
     = acc OR push_bit shift (v :: u64)"
proof (rule bit_word_eqI)
  fix n assume "n < LENGTH(64)"
  moreover have "7 + (n - (shift + 7)) = n - shift" if "shift + 7 \<le> n" using that by simp
  ultimately show "bit ((acc OR push_bit shift (v AND 0x7F)) OR push_bit (shift + 7) (drop_bit 7 v)) n
      = bit (acc OR push_bit shift v) n"
    by (cases "shift + 7 \<le> n") (auto simp: bit_simps bit_const_simps)
qed

lemma reads_varint_loop:
  "unat v < 2 ^ (64 - shift) \<Longrightarrow> shift < 64 \<Longrightarrow>
     reads (r_varint_loop shift acc) (run_writer (w_varint v)) (acc OR push_bit shift v)"
proof (induction v arbitrary: shift acc rule: w_varint.induct)
  case (1 v)
  show ?case
  proof (cases "v \<ge> 0x80")
    case False
    then show ?thesis
      by (intro readsI, subst run_varint_loop)
        (simp add: "1.prems" run_writer_varint [of v] varint_byte_last Let_def)
  next
    case True
    then have ge: "2 ^ 7 \<le> unat v" by (simp add: word_le_nat_alt)
    have shift: "shift + 7 < 64"
    proof (rule ccontr)
      assume "\<not> shift + 7 < 64"
      then have "(2::nat) ^ (64 - shift) \<le> 2 ^ 7" by (intro power_increasing) simp_all
      with ge "1.prems"(1) show False by linarith
    qed
    have "unat (drop_bit 7 v) < 2 ^ (64 - (shift + 7))"
    proof -
      have "64 - shift = (64 - (shift + 7)) + 7" using shift by simp
      then have "(2::nat) ^ (64 - shift) = 2 ^ (64 - (shift + 7)) * 2 ^ 7"
        by (metis power_add)
      then show ?thesis
        using "1.prems"(1)
        by (simp add: unat_drop_bit_eq drop_bit_eq_div unat_div less_mult_imp_div_less)
    qed
    from "1.IH" [OF True this shift, of "acc OR push_bit shift (v AND 0x7F)"]
    have IH: "reads (r_varint_loop (shift + 7) (acc OR push_bit shift (v AND 0x7F)))
        (run_writer (w_varint (drop_bit 7 v))) (acc OR push_bit shift v)"
      by (simp only: varint_or_split)
    let ?b = "ucast ((v AND 0x7F) OR 0x80) :: byte"
    show ?thesis
    proof (rule readsI)
      fix pre rest
      let ?D = "pre @ (?b # run_writer (w_varint (drop_bit 7 v))) @ rest"
      have "run_state (r_varint_loop (shift + 7) (acc OR push_bit shift (v AND 0x7F)))
          (ok_at ?D (Suc (length pre))) = (acc OR push_bit shift v,
            ok_at ?D (length pre + length (?b # run_writer (w_varint (drop_bit 7 v)))))"
        using readsD [OF IH, of "pre @ [?b]" rest] by simp
      then show "run_state (r_varint_loop shift acc)
          (ok_at (pre @ run_writer (w_varint v) @ rest) (length pre)) =
          (acc OR push_bit shift v,
            ok_at (pre @ run_writer (w_varint v) @ rest)
              (length pre + length (run_writer (w_varint v))))"
        by (subst run_varint_loop)
          (use True in \<open>simp add: "1.prems" run_writer_varint [of v] varint_byte_more Let_def\<close>)
    qed
  qed
qed

lemma reads_varint: "reads r_varint (run_writer (w_varint v)) v"
  using reads_varint_loop [of v 0 0] unat_less_2p64 [of v] by (simp add: r_varint_def)


lemma length_varint: "unat v < 2 ^ (7 * k) \<Longrightarrow> 0 < k \<Longrightarrow> length (run_writer (w_varint v)) \<le> k"
proof (induction v arbitrary: k rule: w_varint.induct)
  case (1 v)
  show ?case
  proof (cases "v \<ge> 0x80")
    case False
    with "1.prems" show ?thesis by (simp add: run_writer_varint [of v])
  next
    case True
    then have ge: "2 ^ 7 \<le> unat v" by (simp add: word_le_nat_alt)
    with "1.prems" obtain j where k: "k = Suc j" "0 < j"
      by (cases k; cases "k - 1") auto
    have "unat (drop_bit 7 v) < 2 ^ (7 * j)"
      using "1.prems"(1) k
      by (simp add: unat_drop_bit_eq drop_bit_eq_div unat_div less_mult_imp_div_less power_add
          mult.commute)
    with "1.IH" [OF True this k(2)] True k show ?thesis
      by (simp add: run_writer_varint [of v])
  qed
qed

lemma length_varint_le_10: "length (run_writer (w_varint v)) \<le> 10"
proof (rule length_varint)
  have "(2::nat) ^ 64 \<le> 2 ^ (7 * 10)" by (intro power_increasing) simp_all
  then show "unat v < 2 ^ (7 * 10)" using unat_less_2p64 [of v] by linarith
qed simp

subsection \<open>Zig-zag\<close>

lemma word_not_plus_1: "NOT (x :: 'a::len word) + 1 = - x"
  by (simp add: not_eq_complement)

lemma signed_drop_63: "signed_drop_bit 63 (v :: i64) = (if bit v 63 then - 1 else 0)"
proof (rule bit_word_eqI)
  fix n assume "n < LENGTH(64)"
  then show "bit (signed_drop_bit 63 v) n = bit (if bit v 63 then - 1 else 0 :: i64) n"
    by (cases "n = 0") (auto simp: bit_signed_drop_bit_iff)
qed

lemma bit_zigzag:
  assumes "n < 64"
  shows "bit (zigzag v) n \<longleftrightarrow> (if n = 0 then bit v 63 else bit v (n - 1) \<noteq> bit v 63)"
proof -
  have "bit (push_bit 1 v) n \<longleftrightarrow> n \<noteq> 0 \<and> bit v (n - 1)"
    using assms by (auto simp only: bit_push_bit_iff possible_bit_word len_num0 len_bit0 len_num1)
  with assms show ?thesis
    unfolding zigzag_def signed_drop_63 bit_xor_iff by auto
qed

lemma zigzag_sign: "zigzag v AND 1 = of_bool (bit v 63)"
proof (rule bit_word_eqI)
  fix n assume "n < LENGTH(64)"
  then show "bit (zigzag v AND 1) n = bit (of_bool (bit v 63) :: u64) n"
    by (cases "n = 0") (auto simp: bit_and_iff bit_1_iff bit_zigzag simp del: bit_0)
qed

lemma unzigzag_zigzag: "unzigzag (zigzag v) = v"
proof (rule bit_word_eqI)
  fix n assume n: "n < LENGTH(64)"
  have "bit (drop_bit 1 (zigzag v)) n \<longleftrightarrow> n < 63 \<and> bit v n \<noteq> bit v 63"
    using n by (cases "n = 63") (auto simp: bit_drop_bit_eq bit_zigzag dest: bit_imp_le_length)
  then show "bit (unzigzag (zigzag v)) n = bit v n"
    using n unfolding unzigzag_def zigzag_sign word_not_plus_1
    by (cases "bit v 63"; cases "n = 63") (auto simp: bit_xor_iff bit_simps)
qed

lemma reads_svarint: "reads r_svarint (run_writer (w_svarint v)) v"
  using reads_bind_return [OF reads_varint [of "zigzag v"], of unzigzag]
  by (simp add: r_svarint_def w_svarint_def unzigzag_zigzag)

subsection \<open>Byte runs and strings\<close>

lemma reads_bytes: "n = length bs \<Longrightarrow> reads (r_bytes n) bs bs"
  by (rule readsI) (simp add: run_bytes)

lemma unat_length_u64:
  "length s \<le> kMaxDecodedLength \<Longrightarrow> unat (of_nat (length s) :: u64) = length s"
  by (rule unat_of_nat_u64) (simp add: kMaxDecodedLength_def)

lemma reads_string:
  assumes "length s \<le> max_len" and "length s \<le> kMaxDecodedLength"
  shows "reads (r_string max_len) (run_writer (w_string s)) s"
proof -
  have "reads (do { b \<leftarrow> r_bytes (length s); failed \<leftarrow> r_failed;
      if failed then State_Monad.return [] else State_Monad.return b }) s s"
    using reads_bind [OF reads_bytes [OF refl],
        of "\<lambda>b. do { failed \<leftarrow> r_failed;
          if failed then State_Monad.return [] else State_Monad.return b }" s "[]" s]
    by (simp add: reads_then [OF reads_failed] reads_return)
  then show ?thesis
    unfolding r_string_def run_writer_string
    by (intro reads_bind [OF reads_varint] reads_then [OF reads_failed])
      (use assms in \<open>simp add: unat_length_u64\<close>)
qed

subsection \<open>Loops\<close>

lemma reads_loop:
  assumes "n = length xs" and "\<And>x. x \<in> set xs \<Longrightarrow> appends (f x)"
    and "\<And>x. x \<in> set xs \<Longrightarrow> reads p (run_writer (f x)) x"
  shows "reads (read_loop n p) (run_writer (write_each f xs)) xs"
  using assms
proof (induction xs arbitrary: n)
  case Nil
  then show ?case by (simp add: reads_return)
next
  case (Cons x xs)
  have "reads (read_loop (length xs) p) (run_writer (write_each f xs)) xs"
    using Cons by simp
  then have "reads (do { xs \<leftarrow> read_loop (length xs) p; State_Monad.return (x # xs) })
      (run_writer (write_each f xs)) (x # xs)"
    by (rule reads_bind_return)
  moreover have "reads p (run_writer (f x)) x" using Cons.prems(3) by simp
  ultimately show ?case
    using Cons.prems(1,2) by (auto intro!: reads_then [OF reads_failed] intro: reads_bind)
qed

section \<open>Decoders on their encoder's output\<close>

definition decodes :: "'m decoded reader \<Rightarrow> byte list \<Rightarrow> 'm \<Rightarrow> bool" where
  "decodes d bs m \<longleftrightarrow>
     (\<forall>pre. fst (run_state d (ok_at (pre @ bs) (length pre))) = Inr m)"

lemma decodes_run: "decodes d bs m \<Longrightarrow> run_decoder d bs = Inr m"
  unfolding decodes_def run_decoder_def reader_on_ok_at
  by (metis append_Nil list.size(3))

lemma decodes_finish: "m' = m \<Longrightarrow> decodes (finish m') [] m"
  by (simp add: decodes_def finish_def r_expect_consumed_def)

lemma decodes_bind:
  assumes p: "reads p bs x" and f: "decodes (f x) cs m"
  shows "decodes (State_Monad.bind p f) (bs @ cs) m"
  unfolding decodes_def
proof
  fix pre
  have "run_state p (ok_at (pre @ bs @ cs) (length pre)) =
      (x, ok_at (pre @ bs @ cs) (length pre + length bs))"
    by (rule readsD [OF p])
  moreover have "fst (run_state (f x) (ok_at ((pre @ bs) @ cs) (length (pre @ bs)))) = Inr m"
    using f unfolding decodes_def by blast
  ultimately show "fst (run_state (State_Monad.bind p f) (ok_at (pre @ bs @ cs) (length pre)))
      = Inr m"
    by simp
qed

lemma decodes_bind_last:
  assumes "reads p bs x" and "decodes (f x) [] m"
  shows "decodes (State_Monad.bind p f) bs m"
  using decodes_bind [of p bs x f "[]" m] assms by simp

lemma decodes_then:
  assumes "reads p [] x" and "decodes (f x) bs m"
  shows "decodes (State_Monad.bind p f) bs m"
  using decodes_bind [of p "[]" x f bs m] assms by simp

lemma decodes_if_not: "\<not> c \<Longrightarrow> decodes e bs m \<Longrightarrow> decodes (if c then d else e) bs m"
  by simp

text \<open>
  The rules for one step of a decoder or of a record reader on its encoder's output, in the
  order they are to be tried: a test of \<open>failed()\<close>, a \<open>fail\<close> that does not fire, a read
  followed by more bytes, the last read.
\<close>

lemma decodes_failed: "decodes (f False) bs m \<Longrightarrow> decodes (State_Monad.bind r_failed f) bs m"
  by (rule decodes_then [OF reads_failed])

lemma decodes_fail_if:
  "\<not> c \<Longrightarrow> decodes (f ()) bs m \<Longrightarrow>
     decodes (State_Monad.bind (if c then r_fail e else State_Monad.return ()) f) bs m"
  by (rule decodes_then) (simp_all add: reads_return)

lemma reads_check_failed: "reads (f False) bs x \<Longrightarrow> reads (State_Monad.bind r_failed f) bs x"
  by (rule reads_then [OF reads_failed])

lemma reads_fail_if:
  "\<not> c \<Longrightarrow> reads (f ()) bs x \<Longrightarrow>
     reads (State_Monad.bind (if c then r_fail e else State_Monad.return ()) f) bs x"
  by (rule reads_then) (simp_all add: reads_return)

lemma reads_bind_last:
  "reads p bs x \<Longrightarrow> reads (f x) [] y \<Longrightarrow> reads (State_Monad.bind p f) bs y"
  using reads_bind [of p bs x f "[]" y] by simp

lemma reads_return_eq: "x = y \<Longrightarrow> reads (State_Monad.return x) [] y"
  by (simp add: reads_return)

lemmas primitive_reads =
  reads_u8 reads_fixed reads_boolean reads_varint reads_svarint reads_string

lemmas decode_steps =
  decodes_finish decodes_failed decodes_fail_if decodes_if_not decodes_bind decodes_bind_last
  reads_return_eq reads_check_failed reads_fail_if reads_if_not primitive_reads reads_loop
  reads_bind reads_bind_last

end
