(* ===== verification/Reader_Safety.thy ===== *)
theory Reader_Safety
  imports Wire_Laws
begin

text \<open>
  What holds of every reader on every input, hostile ones included: it never reads outside
  the span, it is a no-op once an error is recorded, and it depends only on the bytes it
  consumes. From these, a decoder that ends in \<open>finish\<close> rejects every strict prefix of an
  input it accepts with \<open>kShortBuffer\<close>, and every extension with \<open>kTrailingBytes\<close>.
\<close>

section \<open>Well-behaved readers\<close>

definition in_bounds :: "'a reader \<Rightarrow> bool" where
  "in_bounds p \<longleftrightarrow> (\<forall>s. br_pos s \<le> length (br_data s) \<longrightarrow>
     br_data (snd (run_state p s)) = br_data s \<and>
     br_pos s \<le> br_pos (snd (run_state p s)) \<and>
     br_pos (snd (run_state p s)) \<le> length (br_data s))"

definition sticky :: "'a reader \<Rightarrow> 'a set \<Rightarrow> bool" where
  "sticky p Y \<longleftrightarrow> (\<forall>s. br_err s \<noteq> kNone \<longrightarrow>
     snd (run_state p s) = s \<and> fst (run_state p s) \<in> Y)"

definition prefix_local :: "'a reader \<Rightarrow> 'a set \<Rightarrow> bool" where
  "prefix_local p Y \<longleftrightarrow> (\<forall>D n x n'. n \<le> length D \<longrightarrow> run_state p (ok_at D n) = (x, ok_at D n') \<longrightarrow>
     (\<forall>E. run_state p (ok_at (take n' D @ E) n) = (x, ok_at (take n' D @ E) n')) \<and>
     (\<forall>k. n \<le> k \<and> k < n' \<longrightarrow>
        fst (run_state p (ok_at (take k D) n)) \<in> Y \<and>
        br_err (snd (run_state p (ok_at (take k D) n))) = kShortBuffer))"

definition reader_ok :: "'a reader \<Rightarrow> 'a set \<Rightarrow> bool" where
  "reader_ok p Y \<longleftrightarrow> in_bounds p \<and> sticky p Y \<and> prefix_local p Y"

lemma reader_okI: "in_bounds p \<Longrightarrow> sticky p Y \<Longrightarrow> prefix_local p Y \<Longrightarrow> reader_ok p Y"
  by (simp add: reader_ok_def)

lemma reader_okD:
  assumes "reader_ok p Y"
  shows "in_bounds p" and "sticky p Y" and "prefix_local p Y"
  using assms by (simp_all add: reader_ok_def)

lemma in_boundsD:
  assumes "in_bounds p" and "br_pos s \<le> length (br_data s)" and "run_state p s = (x, t)"
  shows "br_data t = br_data s" and "br_pos s \<le> br_pos t" and "br_pos t \<le> length (br_data s)"
  using assms unfolding in_bounds_def by (metis snd_conv)+

lemma stickyD:
  assumes "sticky p Y" and "br_err s \<noteq> kNone"
  shows "snd (run_state p s) = s" and "fst (run_state p s) \<in> Y"
  using assms by (simp_all add: sticky_def)

lemma prefix_localD:
  assumes "prefix_local p Y" and "n \<le> length D" and "run_state p (ok_at D n) = (x, ok_at D n')"
  shows "run_state p (ok_at (take n' D @ E) n) = (x, ok_at (take n' D @ E) n')"
    and "n \<le> k \<Longrightarrow> k < n' \<Longrightarrow> fst (run_state p (ok_at (take k D) n)) \<in> Y"
    and "n \<le> k \<Longrightarrow> k < n' \<Longrightarrow> br_err (snd (run_state p (ok_at (take k D) n))) = kShortBuffer"
  using assms unfolding prefix_local_def by blast+

lemma prefix_localI:
  assumes "\<And>D n x n' E. n \<le> length D \<Longrightarrow> run_state p (ok_at D n) = (x, ok_at D n') \<Longrightarrow>
      run_state p (ok_at (take n' D @ E) n) = (x, ok_at (take n' D @ E) n')"
    and "\<And>D n x n' k. n \<le> length D \<Longrightarrow> run_state p (ok_at D n) = (x, ok_at D n') \<Longrightarrow>
      n \<le> k \<Longrightarrow> k < n' \<Longrightarrow> fst (run_state p (ok_at (take k D) n)) \<in> Y \<and>
        br_err (snd (run_state p (ok_at (take k D) n))) = kShortBuffer"
  shows "prefix_local p Y"
  using assms unfolding prefix_local_def by blast

lemma reader_ok_mono: "reader_ok p Y \<Longrightarrow> Y \<subseteq> Z \<Longrightarrow> reader_ok p Z"
  unfolding reader_ok_def sticky_def prefix_local_def by blast

section \<open>Composition\<close>

lemma in_bounds_bind:
  assumes "in_bounds p" and "\<And>y. in_bounds (f y)"
  shows "in_bounds (State_Monad.bind p f)"
  unfolding in_bounds_def
proof (intro allI impI)
  fix s :: byte_reader
  assume s: "br_pos s \<le> length (br_data s)"
  obtain y t where t: "run_state p s = (y, t)" by fastforce
  obtain x u where u: "run_state (f y) t = (x, u)" by fastforce
  from t u have run: "run_state (State_Monad.bind p f) s = (x, u)" by simp
  from in_boundsD [OF assms(1) s t] in_boundsD [OF assms(2) _ u]
  show "br_data (snd (run_state (State_Monad.bind p f) s)) = br_data s \<and>
      br_pos s \<le> br_pos (snd (run_state (State_Monad.bind p f) s)) \<and>
      br_pos (snd (run_state (State_Monad.bind p f) s)) \<le> length (br_data s)"
    unfolding run by auto
qed

lemma sticky_bind:
  assumes "sticky p Y" and "\<And>y. sticky (f y) Z"
  shows "sticky (State_Monad.bind p f) Z"
  using assms unfolding sticky_def by (simp add: case_prod_unfold)

text \<open>If a run ends without an error then so did its first part.\<close>

lemma bind_ok_split:
  assumes "reader_ok p Y" and "\<And>y. sticky (f y) Z" and n: "n \<le> length D"
    and run: "run_state (State_Monad.bind p f) (ok_at D n) = (x, ok_at D n')"
  obtains y m where "run_state p (ok_at D n) = (y, ok_at D m)" and "n \<le> m" and "m \<le> length D"
    and "run_state (f y) (ok_at D m) = (x, ok_at D n')"
proof -
  obtain y t where t: "run_state p (ok_at D n) = (y, t)" by fastforce
  note b = in_boundsD [OF reader_okD(1) [OF assms(1)] _ t]
  have "br_err t = kNone"
  proof (rule ccontr)
    assume err: "br_err t \<noteq> kNone"
    then have "snd (run_state (f y) t) = t" using stickyD(1) [OF assms(2)] by blast
    with run t err show False by auto
  qed
  with b n have "t = ok_at D (br_pos t)" by (metis ok_at_eqI ok_at_simps(1,2))
  with t run b n show thesis
    by (intro that [of y "br_pos t"]) (auto simp: case_prod_unfold)
qed

lemma prefix_local_bind:
  assumes p: "reader_ok p Y" and f: "\<And>y. reader_ok (f y) U"
    and st: "\<And>y. y \<in> Y \<Longrightarrow> sticky (f y) Z" and loc: "\<And>y. prefix_local (f y) Z"
  shows "prefix_local (State_Monad.bind p f) Z"
proof (rule prefix_localI)
  fix D n x n' E
  assume n: "n \<le> length D"
    and run: "run_state (State_Monad.bind p f) (ok_at D n) = (x, ok_at D n')"
  from bind_ok_split [OF p reader_okD(2) [OF f] n run] obtain y m
    where m: "run_state p (ok_at D n) = (y, ok_at D m)" "n \<le> m" "m \<le> length D"
      and y: "run_state (f y) (ok_at D m) = (x, ok_at D n')" .
  have "m \<le> n'" using in_boundsD(2) [OF reader_okD(1) [OF f] _ y] m(3) by simp
  then have D: "take n' D @ E = take m D @ (drop m (take n' D) @ E)"
    by (metis append.assoc append_take_drop_id min.absorb1 take_take)
  have "run_state p (ok_at (take n' D @ E) n) = (y, ok_at (take n' D @ E) m)"
    unfolding D by (rule prefix_localD(1) [OF reader_okD(3) [OF p] n m(1)])
  moreover have "run_state (f y) (ok_at (take n' D @ E) m) = (x, ok_at (take n' D @ E) n')"
    by (rule prefix_localD(1) [OF loc m(3) y])
  ultimately show "run_state (State_Monad.bind p f) (ok_at (take n' D @ E) n) =
      (x, ok_at (take n' D @ E) n')" by simp
next
  fix D n x n' k
  assume n: "n \<le> length D"
    and run: "run_state (State_Monad.bind p f) (ok_at D n) = (x, ok_at D n')"
    and k: "n \<le> k" "k < n'"
  from bind_ok_split [OF p reader_okD(2) [OF f] n run] obtain y m
    where m: "run_state p (ok_at D n) = (y, ok_at D m)" "n \<le> m" "m \<le> length D"
      and y: "run_state (f y) (ok_at D m) = (x, ok_at D n')" .
  show "fst (run_state (State_Monad.bind p f) (ok_at (take k D) n)) \<in> Z \<and>
      br_err (snd (run_state (State_Monad.bind p f) (ok_at (take k D) n))) = kShortBuffer"
  proof (cases "m \<le> k")
    case True
    then have D: "take k D = take m D @ drop m (take k D)"
      by (metis append_take_drop_id min.absorb1 take_take)
    have "run_state p (ok_at (take k D) n) = (y, ok_at (take k D) m)"
      by (subst (1 2) D) (rule prefix_localD(1) [OF reader_okD(3) [OF p] n m(1)])
    with prefix_localD(2,3) [OF loc m(3) y True k(2)] show ?thesis by simp
  next
    case False
    then have e: "br_err (snd (run_state p (ok_at (take k D) n))) = kShortBuffer"
      and "fst (run_state p (ok_at (take k D) n)) \<in> Y"
      using prefix_localD(2,3) [OF reader_okD(3) [OF p] n m(1) k(1)] by simp_all
    with stickyD [OF st, of _ "snd (run_state p (ok_at (take k D) n))"]
    show ?thesis by (simp add: case_prod_unfold)
  qed
qed

text \<open>The value may be narrowed to \<open>Z\<close> when only the defaults of \<open>p\<close> reach the rest.\<close>

lemma reader_ok_bind_default:
  assumes "reader_ok p Y" and "\<And>y. reader_ok (f y) U"
    and "\<And>y. y \<in> Y \<Longrightarrow> sticky (f y) Z" and "\<And>y. prefix_local (f y) Z"
  shows "reader_ok (State_Monad.bind p f) Z"
proof (rule reader_okI)
  show "in_bounds (State_Monad.bind p f)"
    using assms(1,2) by (intro in_bounds_bind) (auto dest: reader_okD)
  show "sticky (State_Monad.bind p f) Z"
    using reader_okD(2) [OF assms(1)] assms(3) unfolding sticky_def
    by (simp add: case_prod_unfold)
  show "prefix_local (State_Monad.bind p f) Z"
    using assms by (rule prefix_local_bind)
qed

lemma reader_ok_bind:
  assumes "reader_ok p Y" and "\<And>y. reader_ok (f y) Z"
  shows "reader_ok (State_Monad.bind p f) Z"
  using assms by (auto intro: reader_ok_bind_default dest: reader_okD)

lemma prefix_local_return: "prefix_local (State_Monad.return x) Z"
  by (simp add: prefix_local_def)

lemma reader_ok_return [robust_intros]: "x \<in> Y \<Longrightarrow> reader_ok (State_Monad.return x) Y"
  by (simp add: reader_ok_def in_bounds_def sticky_def prefix_local_def)

lemma reader_ok_if:
  "(c \<Longrightarrow> reader_ok p Y) \<Longrightarrow> (\<not> c \<Longrightarrow> reader_ok q Y) \<Longrightarrow> reader_ok (if c then p else q) Y"
  by simp

section \<open>The primitives\<close>

lemma reader_ok_failed: "reader_ok r_failed {True}"
  by (simp add: reader_ok_def in_bounds_def sticky_def prefix_local_def)

lemma reader_ok_fail: "e \<noteq> kNone \<Longrightarrow> reader_ok (r_fail e) {()}"
  by (auto simp: reader_ok_def in_bounds_def sticky_def prefix_local_def ok_at_def)

lemma reader_ok_u8: "reader_ok r_u8 {0}"
  by (auto simp: reader_ok_def in_bounds_def sticky_def prefix_local_def run_u8 nth_append
      ok_at_def split: if_splits)

lemma reader_ok_get_le: "reader_ok (get_le sz) {0}"
proof (rule reader_okI)
  show "prefix_local (get_le sz) {0}"
  proof (rule prefix_localI)
    fix D n x n' E
    assume n: "n \<le> length D" and "run_state (get_le sz) (ok_at D n) = (x, ok_at D n')"
    then have n': "n' = n + sz" "sz \<le> length D - n"
      and x: "x = ucast (le_value sz (\<lambda>i. D ! (n + i)))"
      by (auto simp: run_get_le ok_at_def split: if_splits)
    have "le_value sz (\<lambda>i. (take n' D @ E) ! (n + i)) = le_value sz (\<lambda>i. D ! (n + i))"
      by (rule le_value_cong) (use n n' in \<open>simp add: nth_append\<close>)
    with n n' x show "run_state (get_le sz) (ok_at (take n' D @ E) n) =
        (x, ok_at (take n' D @ E) n')"
      by (simp add: run_get_le)
  qed (auto simp: run_get_le ok_at_def split: if_splits)
qed (auto simp: in_bounds_def sticky_def run_get_le)

lemma reader_ok_fixed:
  "reader_ok r_u16 {0}" "reader_ok r_u32 {0}" "reader_ok r_u64 {0}" "reader_ok r_i32 {0}"
  "reader_ok r_f32 {0}" "reader_ok r_f64 {0}"
  by (simp_all add: r_u16_def r_u32_def r_u64_def r_i32_def r_f32_def r_f64_def reader_ok_get_le)

lemma reader_ok_bytes: "reader_ok (r_bytes k) {[]}"
proof (rule reader_okI)
  show "prefix_local (r_bytes k) {[]}"
    by (rule prefix_localI) (auto simp: run_bytes ok_at_def take_drop split: if_splits)
qed (auto simp: in_bounds_def sticky_def run_bytes)

text \<open>A value that only differs from the default where the run ends without an error.\<close>

lemma reader_ok_default:
  assumes "reader_ok p Y"
    and d: "\<And>s. br_err (snd (run_state p s)) \<noteq> kNone \<Longrightarrow> fst (run_state p s) = d"
  shows "reader_ok p {d}"
proof (rule reader_okI)
  show "in_bounds p" by (rule reader_okD(1) [OF assms(1)])
  show "sticky p {d}" using stickyD(1) [OF reader_okD(2) [OF assms(1)]] d
    by (simp add: sticky_def)
  show "prefix_local p {d}"
    using prefix_localD(1,3) [OF reader_okD(3) [OF assms(1)]] d
    by (intro prefix_localI) (simp_all add: protocol_error.distinct)
qed

lemma varint_loop_reader_ok: "reader_ok (r_varint_loop shift acc) UNIV"
proof (induction shift acc rule: r_varint_loop.induct)
  case (1 shift acc)
  show ?case
  proof (cases "shift < 64")
    case False
    then show ?thesis
      by (subst r_varint_loop.simps) (auto intro!: reader_ok_bind reader_ok_fail reader_ok_return)
  next
    case True
    have "reader_ok (do { b \<leftarrow> r_u8;
        failed \<leftarrow> r_failed;
        if failed then State_Monad.return 0
        else if b AND 0x80 = 0 then State_Monad.return (acc OR push_bit shift (ucast (b AND 0x7F)))
        else r_varint_loop (shift + 7) (acc OR push_bit shift (ucast (b AND 0x7F))) }) UNIV"
      using "1.IH" [OF True _ refl]
      by (auto intro!: reader_ok_bind [OF reader_ok_u8] reader_ok_bind [OF reader_ok_failed]
          reader_ok_if reader_ok_return)
    moreover have "r_varint_loop shift acc = (do { b \<leftarrow> r_u8;
        failed \<leftarrow> r_failed;
        if failed then State_Monad.return 0
        else if b AND 0x80 = 0 then State_Monad.return (acc OR push_bit shift (ucast (b AND 0x7F)))
        else r_varint_loop (shift + 7) (acc OR push_bit shift (ucast (b AND 0x7F))) })"
      by (rule state_ext, subst run_varint_loop) (simp add: True run_u8 Let_def)
    ultimately show ?thesis by simp
  qed
qed

lemma varint_loop_default:
  "br_err (snd (run_state (r_varint_loop shift acc) s)) \<noteq> kNone \<Longrightarrow>
     fst (run_state (r_varint_loop shift acc) s) = 0"
proof (induction shift acc arbitrary: s rule: r_varint_loop.induct)
  case (1 shift acc)
  then show ?case
    by (subst (asm) (2) run_varint_loop, subst run_varint_loop)
      (auto simp: Let_def split: if_splits)
qed

lemma reader_ok_varint: "reader_ok r_varint {0}"
  unfolding r_varint_def
  by (rule reader_ok_default [OF varint_loop_reader_ok varint_loop_default])

lemma reader_ok_svarint: "reader_ok r_svarint {0}"
proof -
  have "reader_ok r_svarint UNIV"
    unfolding r_svarint_def by (intro reader_ok_bind [OF reader_ok_varint] reader_ok_return UNIV_I)
  then show ?thesis
    by (rule reader_ok_default)
      (simp add: r_svarint_def r_varint_def case_prod_unfold varint_loop_default unzigzag_def)
qed

lemma reader_ok_boolean: "reader_ok r_boolean UNIV"
  unfolding r_boolean_def
  by (intro reader_ok_bind [OF reader_ok_u8] reader_ok_bind [where Y = "{()}"] reader_ok_if
      reader_ok_fail reader_ok_return UNIV_I) auto

lemma reader_ok_string: "reader_ok (r_string m) {[]}"
proof (rule reader_ok_default)
  show "reader_ok (r_string m) UNIV"
    unfolding r_string_def
    by (intro reader_ok_bind [OF reader_ok_varint] reader_ok_bind [OF reader_ok_failed]
        reader_ok_bind [OF reader_ok_bytes] reader_ok_bind [OF reader_ok_fail] reader_ok_if
        reader_ok_return UNIV_I) simp
  show "fst (run_state (r_string m) s) = []" if "br_err (snd (run_state (r_string m) s)) \<noteq> kNone"
    for s
    using that by (auto simp: r_string_def run_bytes case_prod_unfold split: if_splits)
qed


lemma reader_ok_loop: "reader_ok p Y \<Longrightarrow> reader_ok (read_loop n p) UNIV"
proof (induction n)
  case 0
  then show ?case by (simp add: reader_ok_return)
next
  case (Suc n)
  then show ?case
    by (auto intro!: reader_ok_bind [OF reader_ok_failed] reader_ok_if reader_ok_bind [of p Y]
        reader_ok_bind [of "read_loop n p" UNIV] reader_ok_return)
qed

section \<open>Decoders\<close>

definition rejects :: "'m decoded reader \<Rightarrow> bool" where
  "rejects d \<longleftrightarrow> (\<forall>s. br_err s \<noteq> kNone \<longrightarrow> (\<exists>e. fst (run_state d s) = Inl e))"

definition reports :: "'m decoded reader \<Rightarrow> bool" where
  "reports d \<longleftrightarrow> (\<forall>s. br_err s \<noteq> kNone \<longrightarrow> fst (run_state d s) = Inl (br_err s))"

definition exact :: "'m decoded reader \<Rightarrow> bool" where
  "exact d \<longleftrightarrow> (\<forall>D n m. n \<le> length D \<longrightarrow> fst (run_state d (ok_at D n)) = Inr m \<longrightarrow>
     (\<forall>k. n \<le> k \<and> k < length D \<longrightarrow> fst (run_state d (ok_at (take k D) n)) = Inl kShortBuffer) \<and>
     (\<forall>E. E \<noteq> [] \<longrightarrow> fst (run_state d (ok_at (D @ E) n)) = Inl kTrailingBytes))"

definition wire_decoder :: "'m decoded reader \<Rightarrow> bool" where
  "wire_decoder d \<longleftrightarrow> rejects d \<and> exact d"

lemma reports_rejects: "reports d \<Longrightarrow> rejects d"
  by (auto simp: reports_def rejects_def)

lemma run_finish:
  "fst (run_state (finish m) s) =
     (if br_err s \<noteq> kNone then Inl (br_err s)
      else if br_pos s < length (br_data s) then Inl kTrailingBytes else Inr m)"
  by (simp add: finish_def r_expect_consumed_def)

lemma reports_finish: "reports (finish m)"
  by (simp add: reports_def run_finish)

lemma rejects_finish: "rejects (finish m)"
  by (rule reports_rejects) (rule reports_finish)

lemma exact_finish: "exact (finish m)"
  by (auto simp: exact_def run_finish split: if_splits)

lemma rejects_error: "rejects (State_Monad.return (Inl e))"
  by (simp add: rejects_def)

lemma exact_error: "exact (State_Monad.return (Inl e))"
  by (simp add: exact_def)

lemma reports_bind:
  assumes "reader_ok p Y" and "\<And>y. y \<in> Y \<Longrightarrow> reports (f y)"
  shows "reports (State_Monad.bind p f)"
  using assms stickyD [OF reader_okD(2) [OF assms(1)]]
  by (simp add: reports_def case_prod_unfold)

lemma rejects_bind:
  assumes "reader_ok p Y" and "\<And>y. rejects (f y)"
  shows "rejects (State_Monad.bind p f)"
  using assms stickyD [OF reader_okD(2) [OF assms(1)]]
  by (simp add: rejects_def case_prod_unfold)

lemma exact_bind:
  assumes p: "reader_ok p Y" and rep: "\<And>y. y \<in> Y \<Longrightarrow> reports (f y)"
    and rej: "\<And>y. rejects (f y)" and f: "\<And>y. exact (f y)"
  shows "exact (State_Monad.bind p f)"
  unfolding exact_def
proof (intro allI impI)
  fix D n m
  assume n: "n \<le> length D" and run: "fst (run_state (State_Monad.bind p f) (ok_at D n)) = Inr m"
  obtain y t where t: "run_state p (ok_at D n) = (y, t)" by fastforce
  note b = in_boundsD [OF reader_okD(1) [OF p] _ t]
  have "br_err t = kNone"
  proof (rule ccontr)
    assume "br_err t \<noteq> kNone"
    with rej [of y] run t show False by (auto simp: rejects_def)
  qed
  with b n obtain j where j: "t = ok_at D j" "n \<le> j" "j \<le> length D"
    by (metis ok_at_eqI ok_at_simps(1,2))
  from run t j have y: "fst (run_state (f y) (ok_at D j)) = Inr m" by simp
  have same: "run_state p (ok_at (take j D @ E) n) = (y, ok_at (take j D @ E) j)" for E
    using prefix_localD(1) [OF reader_okD(3) [OF p] n] t j(1) by simp
  have ex: "(\<forall>k. j \<le> k \<and> k < length D \<longrightarrow>
        fst (run_state (f y) (ok_at (take k D) j)) = Inl kShortBuffer)"
      "(\<forall>E. E \<noteq> [] \<longrightarrow> fst (run_state (f y) (ok_at (D @ E) j)) = Inl kTrailingBytes)"
    using f [of y] j(3) y unfolding exact_def by metis+
  show "(\<forall>k. n \<le> k \<and> k < length D \<longrightarrow>
        fst (run_state (State_Monad.bind p f) (ok_at (take k D) n)) = Inl kShortBuffer) \<and>
      (\<forall>E. E \<noteq> [] \<longrightarrow>
        fst (run_state (State_Monad.bind p f) (ok_at (D @ E) n)) = Inl kTrailingBytes)"
  proof (intro conjI allI impI)
    fix k assume k: "n \<le> k \<and> k < length D"
    show "fst (run_state (State_Monad.bind p f) (ok_at (take k D) n)) = Inl kShortBuffer"
    proof (cases "j \<le> k")
      case True
      then have "take k D = take j D @ drop j (take k D)"
        by (metis append_take_drop_id min.absorb1 take_take)
      then have "run_state p (ok_at (take k D) n) = (y, ok_at (take k D) j)"
        using same by metis
      with ex(1) True k show ?thesis by simp
    next
      case False
      with prefix_localD(2,3) [OF reader_okD(3) [OF p] n] t j(1) k
      have "fst (run_state p (ok_at (take k D) n)) \<in> Y"
        and "br_err (snd (run_state p (ok_at (take k D) n))) = kShortBuffer"
        by (simp_all add: not_le)
      with rep show ?thesis by (simp add: reports_def case_prod_unfold)
    qed
  next
    fix E :: "byte list" assume "E \<noteq> []"
    moreover have "run_state p (ok_at (D @ E) n) = (y, ok_at (D @ E) j)"
      using same [of "drop j D @ E"] by (simp only: append_assoc [symmetric] append_take_drop_id)
    ultimately show "fst (run_state (State_Monad.bind p f) (ok_at (D @ E) n)) = Inl kTrailingBytes"
      using ex(2) by simp
  qed
qed

text \<open>The early \<open>return Err\<close> on a declared length and on a decoded value.\<close>

lemma decoder_if:
  "(c \<Longrightarrow> exact d) \<Longrightarrow> (\<not> c \<Longrightarrow> exact e) \<Longrightarrow> exact (if c then d else e)"
  "(c \<Longrightarrow> rejects d) \<Longrightarrow> (\<not> c \<Longrightarrow> rejects e) \<Longrightarrow> rejects (if c then d else e)"
  "(c \<Longrightarrow> reports d) \<Longrightarrow> (\<not> c \<Longrightarrow> reports e) \<Longrightarrow> reports (if c then d else e)"
  by simp_all

lemma decoder_case_sum:
  "(\<And>e. v = Inl e \<Longrightarrow> exact (d e)) \<Longrightarrow> (\<And>x. v = Inr x \<Longrightarrow> exact (f x)) \<Longrightarrow>
     exact (case v of Inl e \<Rightarrow> d e | Inr x \<Rightarrow> f x)"
  "(\<And>e. v = Inl e \<Longrightarrow> rejects (d e)) \<Longrightarrow> (\<And>x. v = Inr x \<Longrightarrow> rejects (f x)) \<Longrightarrow>
     rejects (case v of Inl e \<Rightarrow> d e | Inr x \<Rightarrow> f x)"
  "(\<And>e. v = Inl e \<Longrightarrow> reports (d e)) \<Longrightarrow> (\<And>x. v = Inr x \<Longrightarrow> reports (f x)) \<Longrightarrow>
     reports (case v of Inl e \<Rightarrow> d e | Inr x \<Rightarrow> f x)"
  by (cases v; simp)+

lemma wire_decoder_bind:
  assumes "reader_ok p Y" and "\<And>y. y \<in> Y \<Longrightarrow> reports (f y)" and "\<And>y. wire_decoder (f y)"
  shows "wire_decoder (State_Monad.bind p f)"
  using assms by (auto simp: wire_decoder_def intro: rejects_bind exact_bind)

lemma wire_decoder_finish: "wire_decoder (finish m)"
  by (simp add: wire_decoder_def rejects_finish exact_finish)

lemma wire_decoder_error: "wire_decoder (State_Monad.return (Inl e))"
  by (simp add: wire_decoder_def rejects_error exact_error)

lemma wire_decoder_if:
  "(c \<Longrightarrow> wire_decoder d) \<Longrightarrow> (\<not> c \<Longrightarrow> wire_decoder e) \<Longrightarrow> wire_decoder (if c then d else e)"
  by simp

lemma wire_decoder_case_sum:
  "(\<And>e. v = Inl e \<Longrightarrow> wire_decoder (d e)) \<Longrightarrow> (\<And>x. v = Inr x \<Longrightarrow> wire_decoder (f x)) \<Longrightarrow>
     wire_decoder (case v of Inl e \<Rightarrow> d e | Inr x \<Rightarrow> f x)"
  by (cases v) simp_all

lemmas primitive_readers =
  reader_ok_failed reader_ok_u8 reader_ok_fixed reader_ok_varint reader_ok_svarint
  reader_ok_boolean reader_ok_string reader_ok_bytes

lemmas reader_intros =
  primitive_readers reader_ok_fail reader_ok_bind reader_ok_return reader_ok_if reader_ok_loop

text \<open>All the rules of a codec proof, for one pass of \<open>rule\<close>.\<close>

lemmas decoder_intros =
  wire_decoder_finish wire_decoder_error wire_decoder_bind wire_decoder_if wire_decoder_case_sum
  reports_finish reports_bind decoder_if(3) decoder_case_sum(3)

lemma exactD:
  assumes "exact d" and "n \<le> length D" and "fst (run_state d (ok_at D n)) = Inr m"
  shows "n \<le> k \<Longrightarrow> k < length D \<Longrightarrow> fst (run_state d (ok_at (take k D) n)) = Inl kShortBuffer"
    and "E \<noteq> [] \<Longrightarrow> fst (run_state d (ok_at (D @ E) n)) = Inl kTrailingBytes"
  using assms unfolding exact_def by metis+

lemma run_decoder_prefix:
  assumes "wire_decoder d" and "run_decoder d bs = Inr m" and "k < length bs"
  shows "run_decoder d (take k bs) = Inl kShortBuffer"
  using exactD(1) [of d 0 bs m k] assms
  by (simp add: wire_decoder_def run_decoder_def reader_on_ok_at)

lemma run_decoder_trailing:
  assumes "wire_decoder d" and "run_decoder d bs = Inr m" and "extra \<noteq> []"
  shows "run_decoder d (bs @ extra) = Inl kTrailingBytes"
  using exactD(2) [of d 0 bs m extra] assms
  by (simp add: wire_decoder_def run_decoder_def reader_on_ok_at)

lemmas codec_steps = decode_steps decoder_intros reader_intros

section \<open>Loops with an early error\<close>

text \<open>
  A loop body that returns \<open>Err{ kMalformed }\<close> from the decoder for an entry it rejects: the
  loop's value is that error, or the list. A truncated input must still end in
  \<open>kShortBuffer\<close>, so a reader that is cut off must not invent an entry the loop rejects.
\<close>

primrec read_checked_loop :: "nat \<Rightarrow> 'a reader \<Rightarrow> ('a \<Rightarrow> bool) \<Rightarrow> 'a list decoded reader" where
  "read_checked_loop 0 p bad = State_Monad.return (Inr [])"
| "read_checked_loop (Suc n) p bad = do {
     failed \<leftarrow> r_failed;
     if failed then State_Monad.return (Inr [])
     else do {
       x \<leftarrow> p;
       if bad x then State_Monad.return (Inl kMalformed)
       else do {
         rest \<leftarrow> read_checked_loop n p bad;
         State_Monad.return (case rest of Inl e \<Rightarrow> Inl e | Inr xs \<Rightarrow> Inr (x # xs)) } } }"

definition step_ok :: "'a decoded reader \<Rightarrow> bool" where
  "step_ok p \<longleftrightarrow> in_bounds p \<and> sticky p (range Inr) \<and>
     (\<forall>D n x n'. n \<le> length D \<longrightarrow> run_state p (ok_at D n) = (Inr x, ok_at D n') \<longrightarrow>
       (\<forall>E. run_state p (ok_at (take n' D @ E) n) = (Inr x, ok_at (take n' D @ E) n')) \<and>
       (\<forall>k. n \<le> k \<and> k < n' \<longrightarrow>
          fst (run_state p (ok_at (take k D) n)) \<in> range Inr \<and>
          br_err (snd (run_state p (ok_at (take k D) n))) = kShortBuffer))"

definition keeps_good :: "'a reader \<Rightarrow> ('a \<Rightarrow> bool) \<Rightarrow> bool" where
  "keeps_good p bad \<longleftrightarrow> (\<forall>D n x n' k. n \<le> length D \<longrightarrow>
     run_state p (ok_at D n) = (x, ok_at D n') \<longrightarrow> \<not> bad x \<longrightarrow> n \<le> k \<longrightarrow> k < n' \<longrightarrow>
     \<not> bad (fst (run_state p (ok_at (take k D) n))))"

lemma step_okD:
  assumes "step_ok p"
  shows "in_bounds p" and "sticky p (range Inr)"
    and "n \<le> length D \<Longrightarrow> run_state p (ok_at D n) = (Inr x, ok_at D n') \<Longrightarrow>
      run_state p (ok_at (take n' D @ E) n) = (Inr x, ok_at (take n' D @ E) n')"
    and "n \<le> length D \<Longrightarrow> run_state p (ok_at D n) = (Inr x, ok_at D n') \<Longrightarrow> n \<le> k \<Longrightarrow> k < n' \<Longrightarrow>
      fst (run_state p (ok_at (take k D) n)) \<in> range Inr \<and>
      br_err (snd (run_state p (ok_at (take k D) n))) = kShortBuffer"
  using assms unfolding step_ok_def by blast+

lemma run_checked_loop_Suc:
  "run_state (read_checked_loop (Suc n) p bad) (ok_at D i) =
     (let (x, t) = run_state p (ok_at D i) in
      if bad x then (Inl kMalformed, t)
      else let (rest, u) = run_state (read_checked_loop n p bad) t in
        (case rest of Inl e \<Rightarrow> Inl e | Inr xs \<Rightarrow> Inr (x # xs), u))"
  by (simp add: case_prod_unfold Let_def)

lemma checked_loop_failed:
  "br_err s \<noteq> kNone \<Longrightarrow> run_state (read_checked_loop n p bad) s = (Inr [], s)"
  by (cases n) simp_all

lemma in_bounds_checked_loop:
  assumes "reader_ok p Y"
  shows "in_bounds (read_checked_loop n p bad)"
proof (induction n)
  case 0
  then show ?case by (simp add: in_bounds_def)
next
  case (Suc n)
  have ret: "in_bounds (State_Monad.return v :: 'x reader)" for v :: 'x
    by (simp add: in_bounds_def)
  show ?case
    using reader_okD(1) [OF assms] Suc ret reader_okD(1) [OF reader_ok_failed]
    by (auto intro!: in_bounds_bind)
qed

lemma step_ok_checked_loop:
  assumes p: "reader_ok p Y" and good: "keeps_good p bad"
  shows "step_ok (read_checked_loop n p bad)"
proof (induction n)
  case 0
  then show ?case by (simp add: step_ok_def in_bounds_def sticky_def)
next
  case (Suc n)
  let ?L = "read_checked_loop n p bad" and ?S = "read_checked_loop (Suc n) p bad"
  have main: "(\<forall>E. run_state ?S (ok_at (take j D @ E) i) = (Inr xs, ok_at (take j D @ E) j)) \<and>
      (\<forall>k. i \<le> k \<and> k < j \<longrightarrow> fst (run_state ?S (ok_at (take k D) i)) \<in> range Inr \<and>
          br_err (snd (run_state ?S (ok_at (take k D) i))) = kShortBuffer)"
    if i: "i \<le> length D" and run: "run_state ?S (ok_at D i) = (Inr xs, ok_at D j)" for D i xs j
  proof -
    obtain x t where t: "run_state p (ok_at D i) = (x, t)" by fastforce
    note b = in_boundsD [OF reader_okD(1) [OF p] _ t]
    from run t have ok: "\<not> bad x"
      by (auto simp: run_checked_loop_Suc split: if_splits)
    with run t obtain ys where ys: "run_state ?L t = (Inr ys, ok_at D j)" "xs = x # ys"
      by (cases "run_state ?L t") (auto simp: run_checked_loop_Suc split: sum.splits)
    have "br_err t = kNone"
      using checked_loop_failed [of t n p bad] ys(1) by (metis ok_at_simps(3) prod.inject)
    with b i obtain m where m: "t = ok_at D m" "i \<le> m" "m \<le> length D"
      by (metis ok_at_eqI ok_at_simps(1,2))
    have "m \<le> j"
      using in_boundsD(2) [OF step_okD(1) [OF Suc] _ ys(1)] m by simp
    have same: "run_state p (ok_at (take m D @ E) i) = (x, ok_at (take m D @ E) m)" for E
      using prefix_localD(1) [OF reader_okD(3) [OF p] i] t m(1) by simp
    show ?thesis
    proof (rule conjI; intro allI impI)
      fix E
      have "take j D @ E = take m D @ (drop m (take j D) @ E)"
        using \<open>m \<le> j\<close> by (metis append.assoc append_take_drop_id min.absorb1 take_take)
      then have "run_state p (ok_at (take j D @ E) i) = (x, ok_at (take j D @ E) m)"
        using same by metis
      moreover have "run_state ?L (ok_at (take j D @ E) m) = (Inr ys, ok_at (take j D @ E) j)"
        using step_okD(3) [OF Suc m(3)] ys(1) m(1) by simp
      ultimately show "run_state ?S (ok_at (take j D @ E) i) = (Inr xs, ok_at (take j D @ E) j)"
        using ok ys(2) by (simp add: run_checked_loop_Suc)
    next
      fix k assume k: "i \<le> k \<and> k < j"
      show "fst (run_state ?S (ok_at (take k D) i)) \<in> range Inr \<and>
          br_err (snd (run_state ?S (ok_at (take k D) i))) = kShortBuffer"
      proof (cases "m \<le> k")
        case True
        then have "take k D = take m D @ drop m (take k D)"
          by (metis append_take_drop_id min.absorb1 take_take)
        then have "run_state p (ok_at (take k D) i) = (x, ok_at (take k D) m)"
          using same by metis
        moreover have "fst (run_state ?L (ok_at (take k D) m)) \<in> range Inr \<and>
            br_err (snd (run_state ?L (ok_at (take k D) m))) = kShortBuffer"
          using step_okD(4) [OF Suc m(3)] ys(1) m(1) True k by simp
        ultimately show ?thesis using ok
          by (auto simp: run_checked_loop_Suc case_prod_unfold)
      next
        case False
        with prefix_localD(3) [OF reader_okD(3) [OF p] i] t m(1) k
        have "br_err (snd (run_state p (ok_at (take k D) i))) = kShortBuffer" by simp
        moreover have "\<not> bad (fst (run_state p (ok_at (take k D) i)))"
          using good i t m(1) ok k False unfolding keeps_good_def by (meson not_le)
        ultimately show ?thesis
          by (auto simp: run_checked_loop_Suc case_prod_unfold checked_loop_failed)
      qed
    qed
  qed
  have "sticky ?S (range Inr)"
    by (auto simp: sticky_def)
  with main in_bounds_checked_loop [OF p] show ?case
    unfolding step_ok_def by blast
qed

text \<open>The entry is rejected on a key read first, whose default is not rejected.\<close>

lemma keeps_good_bind:
  assumes p: "reader_ok p Y" and f: "\<And>y. reader_ok (f y) U"
    and key: "\<And>y s. bad (fst (run_state (f y) s)) = badk y" and Y: "\<And>y. y \<in> Y \<Longrightarrow> \<not> badk y"
  shows "keeps_good (State_Monad.bind p f) bad"
  unfolding keeps_good_def
proof (intro allI impI)
  fix D n x n' k
  assume n: "n \<le> length D" and run: "run_state (State_Monad.bind p f) (ok_at D n) = (x, ok_at D n')"
    and good: "\<not> bad x" and k: "n \<le> k" "k < n'"
  from bind_ok_split [OF p reader_okD(2) [OF f] n run] obtain y m
    where m: "run_state p (ok_at D n) = (y, ok_at D m)" "n \<le> m" "m \<le> length D"
      and y: "run_state (f y) (ok_at D m) = (x, ok_at D n')" .
  have "\<not> badk (fst (run_state p (ok_at (take k D) n)))"
  proof (cases "m \<le> k")
    case True
    then have "take k D = take m D @ drop m (take k D)"
      by (metis append_take_drop_id min.absorb1 take_take)
    then have "run_state p (ok_at (take k D) n) = (y, ok_at (take k D) m)"
      using prefix_localD(1) [OF reader_okD(3) [OF p] n m(1)] by metis
    with key [of y "ok_at D m"] y good show ?thesis by simp
  next
    case False
    then show ?thesis
      using prefix_localD(2) [OF reader_okD(3) [OF p] n m(1) k(1)] Y by simp
  qed
  then show "\<not> bad (fst (run_state (State_Monad.bind p f) (ok_at (take k D) n)))"
    by (simp add: case_prod_unfold key)
qed

lemma reports_step:
  assumes "step_ok p" and "\<And>x. reports (f x)"
  shows "reports (State_Monad.bind p
    (\<lambda>v. case v of Inl e \<Rightarrow> State_Monad.return (Inl e) | Inr x \<Rightarrow> f x))"
  unfolding reports_def
proof (intro allI impI)
  fix s :: byte_reader assume s: "br_err s \<noteq> kNone"
  from s step_okD(2) [OF assms(1)] obtain x where "run_state p s = (Inr x, s)"
    by (metis prod.collapse rangeE sticky_def)
  with s assms(2) [of x] show "fst (run_state (State_Monad.bind p
      (\<lambda>v. case v of Inl e \<Rightarrow> State_Monad.return (Inl e) | Inr x \<Rightarrow> f x)) s) = Inl (br_err s)"
    by (simp add: reports_def)
qed

lemma exact_step:
  assumes p: "step_ok p" and rep: "\<And>x. reports (f x)" and f: "\<And>x. exact (f x)"
  shows "exact (State_Monad.bind p
    (\<lambda>v. case v of Inl e \<Rightarrow> State_Monad.return (Inl e) | Inr x \<Rightarrow> f x))" (is "exact ?d")
  unfolding exact_def
proof (intro allI impI)
  fix D n m
  assume n: "n \<le> length D" and run: "fst (run_state ?d (ok_at D n)) = Inr m"
  obtain v t where vt: "run_state p (ok_at D n) = (v, t)" by fastforce
  with run obtain x where t: "run_state p (ok_at D n) = (Inr x, t)" by (cases v) simp_all
  note b = in_boundsD [OF step_okD(1) [OF p] _ t]
  have "br_err t = kNone"
    using rep [of x] run t by (auto simp: reports_def)
  with b n obtain j where j: "t = ok_at D j" "n \<le> j" "j \<le> length D"
    by (metis ok_at_eqI ok_at_simps(1,2))
  from run t j have y: "fst (run_state (f x) (ok_at D j)) = Inr m" by simp
  have same: "run_state p (ok_at (take j D @ E) n) = (Inr x, ok_at (take j D @ E) j)" for E
    using step_okD(3) [OF p n] t j(1) by simp
  show "(\<forall>k. n \<le> k \<and> k < length D \<longrightarrow> fst (run_state ?d (ok_at (take k D) n)) = Inl kShortBuffer) \<and>
      (\<forall>E. E \<noteq> [] \<longrightarrow> fst (run_state ?d (ok_at (D @ E) n)) = Inl kTrailingBytes)"
  proof (intro conjI allI impI)
    fix k assume k: "n \<le> k \<and> k < length D"
    show "fst (run_state ?d (ok_at (take k D) n)) = Inl kShortBuffer"
    proof (cases "j \<le> k")
      case True
      then have "take k D = take j D @ drop j (take k D)"
        by (metis append_take_drop_id min.absorb1 take_take)
      then have "run_state p (ok_at (take k D) n) = (Inr x, ok_at (take k D) j)"
        using same by metis
      with exactD(1) [OF f j(3) y True] k show ?thesis by simp
    next
      case False
      with step_okD(4) [OF p n, of x j k] t j(1) k
      obtain z where "fst (run_state p (ok_at (take k D) n)) = Inr z"
        and "br_err (snd (run_state p (ok_at (take k D) n))) = kShortBuffer"
        by auto
      with rep [of z] show ?thesis by (simp add: reports_def case_prod_unfold)
    qed
  next
    fix E :: "byte list" assume "E \<noteq> []"
    moreover have "run_state p (ok_at (D @ E) n) = (Inr x, ok_at (D @ E) j)"
      using same [of "drop j D @ E"] by (simp only: append_assoc [symmetric] append_take_drop_id)
    ultimately show "fst (run_state ?d (ok_at (D @ E) n)) = Inl kTrailingBytes"
      using exactD(2) [OF f j(3) y] by simp
  qed
qed

lemma wire_decoder_step:
  assumes "step_ok p" and "\<And>x. reports (f x)" and "\<And>x. wire_decoder (f x)"
  shows "wire_decoder (State_Monad.bind p
    (\<lambda>v. case v of Inl e \<Rightarrow> State_Monad.return (Inl e) | Inr x \<Rightarrow> f x))"
  using assms exact_step [of p f] reports_rejects [OF reports_step [of p f]]
  by (simp add: wire_decoder_def)

lemma reads_checked_loop:
  assumes "n = length xs" and "\<And>x. x \<in> set xs \<Longrightarrow> appends (f x)"
    and "\<And>x. x \<in> set xs \<Longrightarrow> reads p (run_writer (f x)) x" and "\<And>x. x \<in> set xs \<Longrightarrow> \<not> bad x"
  shows "reads (read_checked_loop n p bad) (run_writer (write_each f xs)) (Inr xs)"
  using assms
proof (induction xs arbitrary: n)
  case Nil
  then show ?case by (simp add: reads_return)
next
  case (Cons x xs)
  have "reads (read_checked_loop (length xs) p bad) (run_writer (write_each f xs)) (Inr xs)"
    using Cons by simp
  from reads_bind_return [OF this, of "\<lambda>rest. case rest of Inl e \<Rightarrow> Inl e | Inr ys \<Rightarrow> Inr (x # ys)"]
  have "reads (do { rest \<leftarrow> read_checked_loop (length xs) p bad;
        State_Monad.return (case rest of Inl e \<Rightarrow> Inl e | Inr xs \<Rightarrow> Inr (x # xs)) })
      (run_writer (write_each f xs)) (Inr (x # xs))" by simp
  then have "reads (if bad x then State_Monad.return (Inl kMalformed)
      else do {
        rest \<leftarrow> read_checked_loop (length xs) p bad;
        State_Monad.return (case rest of Inl e \<Rightarrow> Inl e | Inr xs \<Rightarrow> Inr (x # xs)) })
      (run_writer (write_each f xs)) (Inr (x # xs))"
    using Cons.prems(4) by (intro reads_if_not) simp_all
  moreover have "reads p (run_writer (f x)) x" using Cons.prems(3) by simp
  ultimately have "reads (do { x \<leftarrow> p;
      if bad x then State_Monad.return (Inl kMalformed)
      else do {
        rest \<leftarrow> read_checked_loop (length xs) p bad;
        State_Monad.return (case rest of Inl e \<Rightarrow> Inl e | Inr xs \<Rightarrow> Inr (x # xs)) } })
      (run_writer (f x) @ run_writer (write_each f xs)) (Inr (x # xs))"
    by (rule reads_bind [rotated])
  with Cons.prems(1,2) show ?case
    by (simp add: reads_check_failed)
qed

section \<open>Optional fields\<close>

text \<open>
  \<open>w.boolean(v.has_value()); if (v) write(*v)\<close> and \<open>if (r.boolean()) v = read(r)\<close>, the shape of
  every optional field on the wire.
\<close>

definition w_opt :: "('a \<Rightarrow> writer) \<Rightarrow> 'a option \<Rightarrow> writer" where
  "w_opt f v = do {
     w_boolean (v \<noteq> None);
     (case v of None \<Rightarrow> State_Monad.return () | Some x \<Rightarrow> f x) }"

definition r_opt :: "'a reader \<Rightarrow> 'a option reader" where
  "r_opt p = do {
     has \<leftarrow> r_boolean;
     if has then do { x \<leftarrow> p; State_Monad.return (Some x) } else State_Monad.return None }"

lemma appends_opt [appends_intros, simp]:
  "(\<And>x. v = Some x \<Longrightarrow> appends (f x)) \<Longrightarrow> appends (w_opt f v)"
  by (cases v) (simp_all add: w_opt_def)

lemma reads_opt:
  assumes "\<And>x. v = Some x \<Longrightarrow> appends (f x)"
    and "\<And>x. v = Some x \<Longrightarrow> reads p (run_writer (f x)) x"
  shows "reads (r_opt p) (run_writer (w_opt f v)) v"
proof (cases v)
  case None
  have "reads (r_opt p) (run_writer (w_boolean False)) None"
    unfolding r_opt_def by (rule reads_bind_last [OF reads_boolean]) (simp add: reads_return)
  then show ?thesis by (simp add: None w_opt_def)
next
  case (Some x)
  have "reads (r_opt p) (run_writer (w_boolean True) @ run_writer (f x)) (Some x)"
    unfolding r_opt_def
    by (rule reads_bind [OF reads_boolean]) (simp add: reads_bind_return assms(2) [OF Some])
  then show ?thesis by (simp add: Some w_opt_def assms(1) [OF Some])
qed

lemma reader_ok_opt: "reader_ok p Y \<Longrightarrow> reader_ok (r_opt p) UNIV"
  unfolding r_opt_def
  by (auto intro!: reader_ok_bind [OF reader_ok_boolean] reader_ok_if reader_ok_return
      reader_ok_bind [of p Y])

section \<open>The interface a message type provides\<close>

text \<open>
  Every message of the protocol has an \<open>encode\<close> that appends its payload and a \<open>decode\<close> of a
  whole payload. What the session layer relies on is stated once here, proved from the three
  laws, and interpreted for every message type.
\<close>

definition wire_contract ::
    "('m \<Rightarrow> writer) \<Rightarrow> (byte list \<Rightarrow> 'm decoded) \<Rightarrow> ('m \<Rightarrow> bool) \<Rightarrow> bool" where
  "wire_contract encode decode valid \<longleftrightarrow>
     (\<forall>m out. run_state (encode m) out = ((), out @ run_writer (encode m))) \<and>
     (\<forall>m. valid m \<longrightarrow> decode (run_writer (encode m)) = Inr m) \<and>
     (\<forall>bs m k. decode bs = Inr m \<longrightarrow> k < length bs \<longrightarrow> decode (take k bs) = Inl kShortBuffer) \<and>
     (\<forall>bs m extra. decode bs = Inr m \<longrightarrow> extra \<noteq> [] \<longrightarrow>
        decode (bs @ extra) = Inl kTrailingBytes)"

locale message_codec =
  fixes encode :: "'m \<Rightarrow> writer"
    and decode :: "byte list \<Rightarrow> 'm decoded"
    and valid :: "'m \<Rightarrow> bool"
  assumes encode_appends: "appends (encode m)"
    and decode_encode: "valid m \<Longrightarrow> decode (run_writer (encode m)) = Inr m"
    and decode_prefix: "decode bs = Inr m \<Longrightarrow> k < length bs \<Longrightarrow> decode (take k bs) = Inl kShortBuffer"
    and decode_trailing: "decode bs = Inr m \<Longrightarrow> extra \<noteq> [] \<Longrightarrow> decode (bs @ extra) = Inl kTrailingBytes"
begin

lemma encode_out: "run_state (encode m) out = ((), out @ run_writer (encode m))"
  by (rule appendsD) (rule encode_appends)

lemma encode_injective:
  assumes "valid m" and "valid m'" and "run_writer (encode m) = run_writer (encode m')"
  shows "m = m'"
proof -
  have "decode (run_writer (encode m)) = Inr m'"
    unfolding assms(3) by (rule decode_encode [OF assms(2)])
  with decode_encode [OF assms(1)] show ?thesis by simp
qed

lemma accepted_prefix_free:
  assumes "decode bs = Inr m" and "decode (bs @ extra) = Inr m'"
  shows "extra = []"
  using decode_trailing [OF assms(1)] assms(2) by fastforce

lemma truncated_encoding:
  assumes "valid m" and "k < length (run_writer (encode m))"
  shows "decode (take k (run_writer (encode m))) = Inl kShortBuffer"
  using decode_prefix [OF decode_encode [OF assms(1)] assms(2)] .

lemma contract: "wire_contract encode decode valid"
  using encode_out decode_encode decode_prefix decode_trailing
  by (auto simp: wire_contract_def)

end

section \<open>The interface a field of a message provides\<close>

text \<open>
  A nested structure (a coordinate, a hash, a list entry) is written and read by a pair of
  helpers with no \<open>finish\<close> of their own. The list lemmas serve every counted list.
\<close>

locale field_codec =
  fixes "write" :: "'a \<Rightarrow> writer"
    and read :: "'a reader"
    and ok :: "'a \<Rightarrow> bool"
  assumes write_appends: "appends (write x)"
    and read_write: "ok x \<Longrightarrow> reads read (run_writer (write x)) x"
    and read_reader: "reader_ok read UNIV"
begin

lemma list_appends: "appends (write_each write xs)"
  by (rule appends_each) (rule write_appends)

lemma list_read:
  assumes "n = length xs" and "\<forall>x \<in> set xs. ok x"
  shows "reads (read_loop n read) (run_writer (write_each write xs)) xs"
  using assms by (intro reads_loop) (auto intro: write_appends read_write)

lemma list_reader: "reader_ok (read_loop n read) UNIV"
  by (rule reader_ok_loop) (rule read_reader)

end

lemma message_codecI:
  assumes "\<And>m. appends (encode m)"
    and "\<And>m. valid m \<Longrightarrow> decodes body (run_writer (encode m)) m"
    and "wire_decoder body"
  shows "message_codec encode (run_decoder body) valid"
proof
  show "appends (encode m)" for m by (rule assms(1))
  show "run_decoder body (run_writer (encode m)) = Inr m" if "valid m" for m
    using that by (intro decodes_run assms(2))
  show "run_decoder body (take k bs) = Inl kShortBuffer"
    if "run_decoder body bs = Inr m" "k < length bs" for bs m k
    using assms(3) that by (rule run_decoder_prefix)
  show "run_decoder body (bs @ extra) = Inl kTrailingBytes"
    if "run_decoder body bs = Inr m" "extra \<noteq> []" for bs m extra
    using assms(3) that by (rule run_decoder_trailing)
qed

end
