(* ===== verification/Message_Frame.thy ===== *)
theory Message_Frame
  imports Reader_Safety
begin

text \<open>
  The message envelope of \<open>inc/vb/protocol/message.hpp\<close>: the wire identifiers, the lane each
  travels on, \<open>write_frame\<close> and \<open>read_frame\<close>. A \<open>MessageType\<close> read from the wire may have no
  enumerator (the code casts any \<open>uint16\<close> to the enum); such a value is \<open>kOther\<close>.
\<close>

section \<open>Message types and lanes\<close>

datatype message_type =
    kInvalid
  | kC2SHello
  | kS2CServerInfo
  | kC2SAuth
  | kS2CAuthResult
  | kC2SReady
  | kS2CJoinAccept
  | kS2CDisconnect
  | kS2CAuthChallenge
  | kS2CReauthRequest
  | kC2SReauth
  | kC2SAssetManifestRequest
  | kS2CAssetManifest
  | kC2SAssetRequest
  | kS2CAssetData
  | kS2CBlockRegistry
  | kS2CChunkAdd
  | kS2CChunkDelta
  | kS2CChunkRemove
  | kC2SBlockEdit
  | kS2CBlockEditResult
  | kS2CTimeOfDay
  | kS2CKeybindRegistry
  | kC2SBlockBreakBegin
  | kC2SBlockBreakStop
  | kS2CMoveParams
  | kS2CDayNightCurve
  | kS2CFogParams
  | kS2CEntityKindRegistry
  | kS2CBlockDamage
  | kS2CEntitySnapshot
  | kC2SInputBatch
  | kC2SChat
  | kS2CChat
  | kC2SUiEvent
  | kS2COpenUi
  | kS2CPlayerJoin
  | kS2CPlayerLeave
  | kS2CPlayerList
  | kS2CInventory
  | kS2CPlayerStatus
  | kOther u16

definition message_table :: "(u16 \<times> message_type) list" where
  "message_table = [
     (0, kInvalid), (1, kC2SHello), (2, kS2CServerInfo), (3, kC2SAuth), (4, kS2CAuthResult), 
     (5, kC2SReady), (6, kS2CJoinAccept), (7, kS2CDisconnect), (8, kS2CAuthChallenge), 
     (9, kS2CReauthRequest), (10, kC2SReauth), (20, kC2SAssetManifestRequest), 
     (21, kS2CAssetManifest), (22, kC2SAssetRequest), (23, kS2CAssetData), 
     (40, kS2CBlockRegistry), (41, kS2CChunkAdd), (42, kS2CChunkDelta), (43, kS2CChunkRemove), 
     (44, kC2SBlockEdit), (45, kS2CBlockEditResult), (46, kS2CTimeOfDay), 
     (47, kS2CKeybindRegistry), (48, kC2SBlockBreakBegin), (49, kC2SBlockBreakStop), 
     (50, kS2CMoveParams), (51, kS2CDayNightCurve), (52, kS2CFogParams), 
     (53, kS2CEntityKindRegistry), (54, kS2CBlockDamage), (60, kS2CEntitySnapshot), 
     (80, kC2SInputBatch), (100, kC2SChat), (101, kS2CChat), (102, kC2SUiEvent), 
     (103, kS2COpenUi), (104, kS2CPlayerJoin), (105, kS2CPlayerLeave), (106, kS2CPlayerList), 
     (107, kS2CInventory), (108, kS2CPlayerStatus)]"

primrec message_value :: "message_type \<Rightarrow> u16" where
  "message_value kInvalid = 0"
| "message_value kC2SHello = 1"
| "message_value kS2CServerInfo = 2"
| "message_value kC2SAuth = 3"
| "message_value kS2CAuthResult = 4"
| "message_value kC2SReady = 5"
| "message_value kS2CJoinAccept = 6"
| "message_value kS2CDisconnect = 7"
| "message_value kS2CAuthChallenge = 8"
| "message_value kS2CReauthRequest = 9"
| "message_value kC2SReauth = 10"
| "message_value kC2SAssetManifestRequest = 20"
| "message_value kS2CAssetManifest = 21"
| "message_value kC2SAssetRequest = 22"
| "message_value kS2CAssetData = 23"
| "message_value kS2CBlockRegistry = 40"
| "message_value kS2CChunkAdd = 41"
| "message_value kS2CChunkDelta = 42"
| "message_value kS2CChunkRemove = 43"
| "message_value kC2SBlockEdit = 44"
| "message_value kS2CBlockEditResult = 45"
| "message_value kS2CTimeOfDay = 46"
| "message_value kS2CKeybindRegistry = 47"
| "message_value kC2SBlockBreakBegin = 48"
| "message_value kC2SBlockBreakStop = 49"
| "message_value kS2CMoveParams = 50"
| "message_value kS2CDayNightCurve = 51"
| "message_value kS2CFogParams = 52"
| "message_value kS2CEntityKindRegistry = 53"
| "message_value kS2CBlockDamage = 54"
| "message_value kS2CEntitySnapshot = 60"
| "message_value kC2SInputBatch = 80"
| "message_value kC2SChat = 100"
| "message_value kS2CChat = 101"
| "message_value kC2SUiEvent = 102"
| "message_value kS2COpenUi = 103"
| "message_value kS2CPlayerJoin = 104"
| "message_value kS2CPlayerLeave = 105"
| "message_value kS2CPlayerList = 106"
| "message_value kS2CInventory = 107"
| "message_value kS2CPlayerStatus = 108"
| "message_value (kOther v) = v"

text \<open>\<open>static_cast<MessageType>(uint16)\<close>.\<close>

definition message_type_of :: "u16 \<Rightarrow> message_type" where
  "message_type_of v = (case map_of message_table v of Some t \<Rightarrow> t | None \<Rightarrow> kOther v)"

datatype lane = kControl | kWorld | kSnapshot | kAssets | kInput | kFeedback

fun lane_for :: "message_type \<Rightarrow> lane" where
  "lane_for kS2CChunkAdd = kWorld"
| "lane_for kS2CChunkDelta = kWorld"
| "lane_for kS2CChunkRemove = kWorld"
| "lane_for kC2SBlockEdit = kWorld"
| "lane_for kS2CBlockEditResult = kWorld"
| "lane_for kS2CBlockRegistry = kWorld"
| "lane_for kS2CTimeOfDay = kWorld"
| "lane_for kS2CKeybindRegistry = kWorld"
| "lane_for kC2SBlockBreakBegin = kWorld"
| "lane_for kC2SBlockBreakStop = kWorld"
| "lane_for kS2CMoveParams = kWorld"
| "lane_for kS2CDayNightCurve = kWorld"
| "lane_for kS2CFogParams = kWorld"
| "lane_for kS2CEntityKindRegistry = kWorld"
| "lane_for kS2CBlockDamage = kFeedback"
| "lane_for kS2CEntitySnapshot = kSnapshot"
| "lane_for kC2SAssetManifestRequest = kAssets"
| "lane_for kS2CAssetManifest = kAssets"
| "lane_for kC2SAssetRequest = kAssets"
| "lane_for kS2CAssetData = kAssets"
| "lane_for kC2SInputBatch = kInput"
| "lane_for _ = kControl"

section \<open>Envelopes\<close>

definition kEnvelopeBytes :: nat where
  "kEnvelopeBytes = 8"

definition kMaxPayloadBytes :: nat where
  "kMaxPayloadBytes = 16 * 1024 * 1024"

definition kCompressed :: u16 where
  "kCompressed = 1"

record message_header =
  mh_type :: message_type
  mh_flags :: u16
  mh_payload_len :: u32

record frame =
  fr_header :: message_header
  fr_payload :: "byte list"

definition write_frame :: "message_type \<Rightarrow> byte list \<Rightarrow> u16 \<Rightarrow> writer" where
  "write_frame type payload flags = do {
     w_u16 (message_value type);
     w_u16 flags;
     w_u32 (of_nat (length payload));
     w_bytes payload }"

text \<open>The three header fields are read from a buffer already known to hold them.\<close>

definition read_header :: "(u16 \<times> u16 \<times> u32) reader" where
  "read_header = do {
     type \<leftarrow> r_u16;
     flags \<leftarrow> r_u16;
     len \<leftarrow> r_u32;
     State_Monad.return (type, flags, len) }"

text \<open>The result, and the value left in the out parameter \<open>consumed\<close>.\<close>

definition read_frame :: "byte list \<Rightarrow> frame decoded \<times> nat" where
  "read_frame buffer =
     (if length buffer < kEnvelopeBytes then (Inl kShortBuffer, 0)
      else
        let (type, flags, len) = fst (run_state read_header (reader_on buffer)) in
        if unat len > kMaxPayloadBytes then (Inl kLengthExceeded, 0)
        else if length buffer < kEnvelopeBytes + unat len then (Inl kShortBuffer, 0)
        else (Inr \<lparr>fr_header = \<lparr>mh_type = message_type_of type, mh_flags = flags, mh_payload_len = len\<rparr>,
                   fr_payload = take (unat len) (drop kEnvelopeBytes buffer)\<rparr>,
              kEnvelopeBytes + unat len))"

section \<open>Laws\<close>

lemma message_table_value: "(v, t) \<in> set message_table \<Longrightarrow> message_value t = v"
  by (auto simp: message_table_def)

lemma message_value_of: "message_value (message_type_of v) = v"
proof (cases "map_of message_table v")
  case None
  then show ?thesis by (simp add: message_type_of_def)
next
  case (Some t)
  then have "(v, t) \<in> set message_table" by (rule map_of_SomeD)
  then show ?thesis using Some by (simp add: message_type_of_def message_table_value)
qed

text \<open>An enumerator survives the wire; \<open>kOther\<close> does when it names no enumerator.\<close>

lemma message_type_of_value:
  "(\<And>v. t = kOther v \<Longrightarrow> map_of message_table v = None) \<Longrightarrow> message_type_of (message_value t) = t"
  by (cases t) (simp_all add: message_type_of_def message_table_def)

lemma run_writer_frame:
  "run_writer (write_frame type payload flags) =
     run_writer (w_u16 (message_value type)) @ run_writer (w_u16 flags) @
     run_writer (w_u32 (of_nat (length payload))) @ payload"
  by (simp add: write_frame_def)

lemma length_put_le: "length (run_writer (put_le sz v)) = sz"
  by (simp add: run_writer_put_le)

lemma length_fixed [simp]:
  "length (run_writer (w_u16 a)) = 2" "length (run_writer (w_u32 b)) = 4"
  "length (run_writer (w_u64 c)) = 8"
  by (simp_all add: w_u16_def w_u32_def w_u64_def length_put_le)

lemma reads_header:
  "reads read_header
     (run_writer (w_u16 a) @ run_writer (w_u16 b) @ run_writer (w_u32 c)) (a, b, c)"
  unfolding read_header_def
  by (intro reads_bind [OF reads_fixed(1)] reads_bind_return [OF reads_fixed(2)])

lemma run_header:
  "fst (run_state read_header (reader_on (run_writer (w_u16 a) @ run_writer (w_u16 b) @
      run_writer (w_u32 c) @ rest))) = (a, b, c)"
  using readsD [OF reads_header, of "[]" a b c rest] by (simp add: reader_on_ok_at)

text \<open>Reading the front of a stream that starts with one written frame.\<close>

lemma read_frame_of_write:
  assumes "length payload < 2 ^ 32"
  shows "read_frame (run_writer (write_frame type payload flags) @ rest) =
     (if length payload > kMaxPayloadBytes then (Inl kLengthExceeded, 0)
      else (Inr \<lparr>fr_header = \<lparr>mh_type = message_type_of (message_value type), mh_flags = flags,
                    mh_payload_len = of_nat (length payload)\<rparr>,
                 fr_payload = payload\<rparr>, kEnvelopeBytes + length payload))"
proof -
  have len: "unat (of_nat (length payload) :: u32) = length payload"
    using assms by (simp add: unsigned_of_nat take_bit_nat_eq_self)
  show ?thesis
    unfolding read_frame_def run_writer_frame append_assoc run_header
    by (simp add: len kEnvelopeBytes_def)
qed

text \<open>\<open>read_frame\<close> never reports more bytes than the buffer holds, and none on an error.\<close>

lemma read_frame_consumed:
  "snd (read_frame buffer) \<le> length buffer"
  "fst (read_frame buffer) = Inl e \<Longrightarrow> snd (read_frame buffer) = 0"
  by (auto simp: read_frame_def Let_def case_prod_unfold split: if_splits)

lemma read_frame_payload:
  assumes "fst (read_frame buffer) = Inr f"
  shows "length (fr_payload f) = unat (mh_payload_len (fr_header f))"
    and "length (fr_payload f) \<le> kMaxPayloadBytes"
    and "fr_payload f = take (length (fr_payload f)) (drop kEnvelopeBytes buffer)"
    and "snd (read_frame buffer) = kEnvelopeBytes + length (fr_payload f)"
  using assms by (auto simp: read_frame_def Let_def case_prod_unfold split: if_splits)

end
