(* ===== verification/Core_Types.thy ===== *)
theory Core_Types
  imports Reader_Safety "HOL-Library.Signed_Division"
begin

text \<open>
  The integer vectors and identifiers of \<open>core/math.hpp\<close> and \<open>core/ids.hpp\<close>: \<open>IVec3\<close>,
  \<open>ChunkCoord\<close>, \<open>AssetHash\<close>, the floor division that splits a world voxel into its chunk and its
  local position, and the packed hash of a coordinate. \<open>std::int32_t\<close> components are 32-bit
  words read with \<open>sint\<close>; \<open>BlockId\<close>, \<open>NetId\<close> and \<open>EntityKindId\<close> are their underlying words.
\<close>

type_synonym block_id = u16
type_synonym net_id = u32
type_synonym entity_kind_id = u16

definition kAir :: block_id where
  "kAir = 0"

definition kChunkDim :: int where
  "kChunkDim = 32"

record ivec3 =
  iv_x :: i32
  iv_y :: i32
  iv_z :: i32

record chunk_coord =
  cc_x :: i32
  cc_y :: i32
  cc_z :: i32

record asset_hash =
  ah_lo :: u64
  ah_hi :: u64

section \<open>Floor division\<close>

text \<open>C++ \<open>/\<close> and \<open>%\<close> truncate towards zero: \<open>sdiv\<close> and \<open>smod\<close>.\<close>

definition floor_div :: "int \<Rightarrow> int \<Rightarrow> int" where
  "floor_div a b =
     (let q = a sdiv b; r = a smod b
      in if r \<noteq> 0 \<and> ((r < 0) \<noteq> (b < 0)) then q - 1 else q)"

definition floor_mod :: "int \<Rightarrow> int \<Rightarrow> int" where
  "floor_mod a b =
     (let r = a smod b in if r \<noteq> 0 \<and> ((r < 0) \<noteq> (b < 0)) then r + b else r)"

definition chunk_of :: "ivec3 \<Rightarrow> chunk_coord" where
  "chunk_of v = \<lparr>cc_x = word_of_int (floor_div (sint (iv_x v)) kChunkDim),
                 cc_y = word_of_int (floor_div (sint (iv_y v)) kChunkDim),
                 cc_z = word_of_int (floor_div (sint (iv_z v)) kChunkDim)\<rparr>"

definition local_of :: "ivec3 \<Rightarrow> ivec3" where
  "local_of v = \<lparr>iv_x = word_of_int (floor_mod (sint (iv_x v)) kChunkDim),
                 iv_y = word_of_int (floor_mod (sint (iv_y v)) kChunkDim),
                 iv_z = word_of_int (floor_mod (sint (iv_z v)) kChunkDim)\<rparr>"

definition chunk_origin :: "chunk_coord \<Rightarrow> ivec3" where
  "chunk_origin c = \<lparr>iv_x = cc_x c * word_of_int kChunkDim, iv_y = cc_y c * word_of_int kChunkDim,
                     iv_z = cc_z c * word_of_int kChunkDim\<rparr>"

definition ivec3_add :: "ivec3 \<Rightarrow> ivec3 \<Rightarrow> ivec3" where
  "ivec3_add a b = \<lparr>iv_x = iv_x a + iv_x b, iv_y = iv_y a + iv_y b, iv_z = iv_z a + iv_z b\<rparr>"

lemma floor_div_pos: "0 < b \<Longrightarrow> floor_div a b = a div b"
proof -
  assume b: "0 < b"
  show ?thesis
  proof (cases "0 \<le> a")
    case True
    with b show ?thesis
      by (auto simp: floor_div_def signed_divide_int_def signed_modulo_int_def sgn_if Let_def
          not_less dest: leD)
  next
    case False
    then obtain c where c: "a = - c" "0 < c" by (metis minus_minus neg_0_less_iff_less not_le)
    have m: "\<not> 0 < c mod b \<Longrightarrow> c mod b = 0" using pos_mod_sign [OF b, of c] by linarith
    from b c show ?thesis
      by (auto dest: m simp: floor_div_def signed_divide_int_def signed_modulo_int_def sgn_if
          Let_def zdiv_zminus1_eq_if)
  qed
qed

lemma floor_mod_pos: "0 < b \<Longrightarrow> floor_mod a b = a mod b"
proof -
  assume b: "0 < b"
  have "floor_mod a b = a - floor_div a b * b"
    using sdiv_mult_smod_eq [of a b] by (auto simp: floor_mod_def floor_div_def Let_def algebra_simps)
  with b show ?thesis by (simp add: floor_div_pos minus_div_mult_eq_mod)
qed

lemma kChunkDim_pos: "0 < kChunkDim"
  by (simp add: kChunkDim_def)

text \<open>A voxel is its chunk's origin plus its local position, negative coordinates included.\<close>

lemma word_of_floor_split:
  "word_of_int (floor_div (sint (w :: i32)) kChunkDim) * word_of_int kChunkDim +
     word_of_int (floor_mod (sint w) kChunkDim) = w"
proof -
  have "word_of_int (floor_div (sint w) kChunkDim * kChunkDim + floor_mod (sint w) kChunkDim) =
      (word_of_int (sint w) :: i32)"
    by (simp add: floor_div_pos floor_mod_pos kChunkDim_pos)
  then show ?thesis by simp
qed

lemma chunk_split: "ivec3_add (chunk_origin (chunk_of v)) (local_of v) = v"
  by (simp add: ivec3_add_def chunk_origin_def chunk_of_def local_of_def word_of_floor_split)

lemma sint_small:
  assumes "0 \<le> k" and "k < 2 ^ 31"
  shows "sint (word_of_int k :: i32) = k"
  using assms by (simp add: sint_sbintrunc' signed_take_bit_int_eq_self)

lemma sint_local:
  "sint (word_of_int (floor_mod (sint (w :: i32)) kChunkDim) :: i32) = sint w mod kChunkDim"
  by (subst sint_small) (auto simp: floor_mod_pos kChunkDim_def intro: order_less_trans
      [OF pos_mod_bound])

lemma local_of_bounds:
  "0 \<le> sint (iv_x (local_of v)) \<and> sint (iv_x (local_of v)) < kChunkDim"
  "0 \<le> sint (iv_y (local_of v)) \<and> sint (iv_y (local_of v)) < kChunkDim"
  "0 \<le> sint (iv_z (local_of v)) \<and> sint (iv_z (local_of v)) < kChunkDim"
  by (simp_all add: local_of_def sint_local kChunkDim_pos)

section \<open>The hash of a coordinate\<close>

text \<open>
  \<open>(c.x & 0x1FFFFF) | (c.y & 0x1FFFFF) << 21 | (c.z & 0x1FFFFF) << 42\<close>, before the library's own
  hash of the 64-bit value.
\<close>

definition axis_bits :: "i32 \<Rightarrow> u64" where
  "axis_bits w = ucast (w AND 0x1FFFFF)"

definition pack_coord :: "chunk_coord \<Rightarrow> u64" where
  "pack_coord c = axis_bits (cc_x c) OR push_bit 21 (axis_bits (cc_y c)) OR
     push_bit 42 (axis_bits (cc_z c))"

lemma bit_axis_bits: "bit (axis_bits w) n \<longleftrightarrow> n < 21 \<and> bit w n"
proof -
  have "(0x1FFFFF :: i32) = mask 21" by (simp add: mask_eq_exp_minus_1)
  then show ?thesis
    unfolding axis_bits_def by (simp only: bit_unsigned_iff bit_and_iff bit_mask_iff) auto
qed

text \<open>A string field's bound: the general cap of \<open>string()\<close>.\<close>

abbreviation str_ok :: "bstring \<Rightarrow> bool" where
  "str_ok s \<equiv> length s \<le> kMaxDecodedLength"

section \<open>Wire helpers of the coordinates\<close>

definition write_coord :: "chunk_coord \<Rightarrow> writer" where
  "write_coord c = do { w_i32 (cc_x c); w_i32 (cc_y c); w_i32 (cc_z c) }"

definition read_coord :: "chunk_coord reader" where
  "read_coord = do { x \<leftarrow> r_i32; y \<leftarrow> r_i32; z \<leftarrow> r_i32;
     State_Monad.return \<lparr>cc_x = x, cc_y = y, cc_z = z\<rparr> }"

text \<open>A component is widened to \<open>int64\<close> with its sign and cut back with a \<open>static_cast\<close>.\<close>

definition write_ivec3 :: "ivec3 \<Rightarrow> writer" where
  "write_ivec3 v = do { w_svarint (scast (iv_x v)); w_svarint (scast (iv_y v));
     w_svarint (scast (iv_z v)) }"

definition read_ivec3 :: "ivec3 reader" where
  "read_ivec3 = do { x \<leftarrow> r_svarint; y \<leftarrow> r_svarint; z \<leftarrow> r_svarint;
     State_Monad.return \<lparr>iv_x = ucast x, iv_y = ucast y, iv_z = ucast z\<rparr> }"

definition write_hash :: "asset_hash \<Rightarrow> writer" where
  "write_hash h = do { w_u64 (ah_lo h); w_u64 (ah_hi h) }"

definition read_hash :: "asset_hash reader" where
  "read_hash = do { lo \<leftarrow> r_u64; hi \<leftarrow> r_u64;
     State_Monad.return \<lparr>ah_lo = lo, ah_hi = hi\<rparr> }"

lemma ucast_scast [simp]: "(ucast (scast (w :: i32) :: i64) :: i32) = w"
  by (rule bit_word_eqI) (auto simp: bit_simps)

interpretation coord: field_codec write_coord read_coord "\<lambda>_. True"
proof (unfold_locales, goal_cases)
  case (2 x)
  then show ?case
    by (simp add: write_coord_def) ((simp only: read_coord_def)?, (rule decode_steps | simp)+)
qed (simp_all add: write_coord_def read_coord_def, (rule reader_intros | simp)+)

interpretation ivec3: field_codec write_ivec3 read_ivec3 "\<lambda>_. True"
proof (unfold_locales, goal_cases)
  case (2 x)
  then show ?case
    by (simp add: write_ivec3_def) ((simp only: read_ivec3_def)?, (rule decode_steps | simp)+)
qed (simp_all add: write_ivec3_def read_ivec3_def, (rule reader_intros | simp)+)

interpretation asset_hash: field_codec write_hash read_hash "\<lambda>_. True"
proof (unfold_locales, goal_cases)
  case (2 x)
  then show ?case
    by (simp add: write_hash_def) ((simp only: read_hash_def)?, (rule decode_steps | simp)+)
qed (simp_all add: write_hash_def read_hash_def, (rule reader_intros | simp)+)

declare coord.write_appends [simp] ivec3.write_appends [simp] asset_hash.write_appends [simp]

lemmas [field_reads] = coord.read_write ivec3.read_write asset_hash.read_write
lemmas [field_readers] = coord.read_reader ivec3.read_reader asset_hash.read_reader

end
