(* ===== verification/Handshake_Messages.thy ===== *)
theory Handshake_Messages
  imports Message_Frame Core_Types
begin

text \<open>
  The connection handshake payloads of \<open>protocol/handshake.hpp\<close> and \<open>protocol/handshake.cpp\<close>.
  For each message: its record, \<open>encode_<name>\<close> and \<open>decode_<name>\<close> as the code has them, the
  predicate \<open>valid_<name>\<close> that says which values its own bounds accept, and an interpretation
  of \<open>message_codec\<close>.
\<close>

section \<open>Enums and bounds\<close>

datatype auth_mode = kAuthNone | kAuthToken | kAuthExternal | kAuthOther u8

definition auth_mode_of :: "u8 \<Rightarrow> auth_mode" where
  "auth_mode_of v = (if v = 0 then kAuthNone else if v = 1 then kAuthToken
     else if v = 2 then kAuthExternal else kAuthOther v)"

primrec auth_mode_value :: "auth_mode \<Rightarrow> u8" where
  "auth_mode_value kAuthNone = 0"
| "auth_mode_value kAuthToken = 1"
| "auth_mode_value kAuthExternal = 2"
| "auth_mode_value (kAuthOther v) = v"

definition valid_auth_mode :: "auth_mode \<Rightarrow> bool" where
  "valid_auth_mode m \<longleftrightarrow> m = kAuthNone \<or> m = kAuthToken \<or> m = kAuthExternal"

definition kMaxAuthTokenBytes :: nat where [codec_defs]:
  "kMaxAuthTokenBytes = 16 * 1024"

definition kMaxAuthFieldBytes :: nat where [codec_defs]:
  "kMaxAuthFieldBytes = 2048"

definition kMaxAuthNonceBytes :: nat where [codec_defs]:
  "kMaxAuthNonceBytes = 256"

definition kMaxAuthListEntries :: nat where [codec_defs]:
  "kMaxAuthListEntries = 16"

definition kMaxEngineVersionReqBytes :: nat where [codec_defs]:
  "kMaxEngineVersionReqBytes = 128"

text \<open>\<open>DisconnectReason\<close> is kept as its \<open>uint8\<close> value; \<open>kBadHandshake\<close> is the last one.\<close>

datatype disconnect_reason =
    kUnknown
  | kServerFull
  | kProtocolMismatch
  | kAuthFailed
  | kServerShutdown
  | kKicked
  | kTimeout
  | kProtocolError
  | kBadHandshake
  | kReasonOther u8

primrec disconnect_reason_value :: "disconnect_reason \<Rightarrow> u8" where
  "disconnect_reason_value kUnknown = 0"
| "disconnect_reason_value kServerFull = 1"
| "disconnect_reason_value kProtocolMismatch = 2"
| "disconnect_reason_value kAuthFailed = 3"
| "disconnect_reason_value kServerShutdown = 4"
| "disconnect_reason_value kKicked = 5"
| "disconnect_reason_value kTimeout = 6"
| "disconnect_reason_value kProtocolError = 7"
| "disconnect_reason_value kBadHandshake = 8"
| "disconnect_reason_value (kReasonOther v) = v"

definition disconnect_reason_of :: "u8 \<Rightarrow> disconnect_reason" where
  "disconnect_reason_of v =
     (if v = 0 then kUnknown else if v = 1 then kServerFull else if v = 2 then kProtocolMismatch
      else if v = 3 then kAuthFailed else if v = 4 then kServerShutdown else if v = 5 then kKicked
      else if v = 6 then kTimeout else if v = 7 then kProtocolError
      else if v = 8 then kBadHandshake else kReasonOther v)"

definition valid_disconnect_reason :: "disconnect_reason \<Rightarrow> bool" where
  "valid_disconnect_reason r \<longleftrightarrow> disconnect_reason_value r \<le> disconnect_reason_value kBadHandshake"

lemma auth_mode_of_value [simp]: "valid_auth_mode m \<Longrightarrow> auth_mode_of (auth_mode_value m) = m"
  by (auto simp: valid_auth_mode_def auth_mode_of_def)

definition is_reason :: "disconnect_reason \<Rightarrow> bool" where
  "is_reason r \<longleftrightarrow> disconnect_reason_of (disconnect_reason_value r) = r"

lemma auth_bounds_le:
  "length s \<le> kMaxAuthTokenBytes \<Longrightarrow> str_ok s" "length s \<le> kMaxAuthFieldBytes \<Longrightarrow> str_ok s"
  "length s \<le> kMaxAuthNonceBytes \<Longrightarrow> str_ok s"
  "length s \<le> kMaxEngineVersionReqBytes \<Longrightarrow> str_ok s"
  by (simp_all add: kMaxAuthTokenBytes_def kMaxAuthFieldBytes_def kMaxAuthNonceBytes_def
      kMaxEngineVersionReqBytes_def kMaxDecodedLength_def)

section \<open>C2SHello\<close>

record c2s_hello =
  hello_engine_protocol_version :: u16
  hello_client_nonce :: u64
  hello_client_version :: bstring
  hello_client_flags :: u8

definition encode_C2SHello :: "c2s_hello \<Rightarrow> writer" where [codec_defs]:
  "encode_C2SHello m = do {
     w_u16 (hello_engine_protocol_version m);
     w_u64 (hello_client_nonce m);
     w_string (hello_client_version m);
     w_u8 (hello_client_flags m) }"

definition decode_C2SHello :: "byte list \<Rightarrow> c2s_hello decoded" where
  "decode_C2SHello = run_decoder (do {
     engine_protocol_version \<leftarrow> r_u16;
     client_nonce \<leftarrow> r_u64;
     client_version \<leftarrow> r_str;
     client_flags \<leftarrow> r_u8;
     finish \<lparr>hello_engine_protocol_version = engine_protocol_version,
             hello_client_nonce = client_nonce, hello_client_version = client_version,
             hello_client_flags = client_flags\<rparr> })"

definition valid_C2SHello :: "c2s_hello \<Rightarrow> bool" where [codec_defs]:
  "valid_C2SHello m \<longleftrightarrow> str_ok (hello_client_version m)"

interpretation hello_codec: message_codec encode_C2SHello decode_C2SHello valid_C2SHello
  unfolding decode_C2SHello_def
  by (rule message_codecI)
    (simp add: codec_defs, simp add: codec_defs,
      (rule codec_steps field_reads field_readers | simp add: codec_defs)+)

section \<open>S2CServerInfo\<close>

record s2c_server_info =
  info_pack_name :: bstring
  info_pack_version :: bstring
  info_engine_protocol_version :: u16
  info_tick_rate :: u16
  info_view_distance :: u32
  info_motd :: bstring
  info_auth_mode :: auth_mode
  info_engine_version_req :: bstring

definition encode_S2CServerInfo :: "s2c_server_info \<Rightarrow> writer" where [codec_defs]:
  "encode_S2CServerInfo m = do {
     w_string (info_pack_name m);
     w_string (info_pack_version m);
     w_u16 (info_engine_protocol_version m);
     w_u16 (info_tick_rate m);
     w_u32 (info_view_distance m);
     w_string (info_motd m);
     w_u8 (auth_mode_value (info_auth_mode m));
     w_string (info_engine_version_req m) }"

definition decode_S2CServerInfo :: "byte list \<Rightarrow> s2c_server_info decoded" where
  "decode_S2CServerInfo = run_decoder (do {
     pack_name \<leftarrow> r_str;
     pack_version \<leftarrow> r_str;
     engine_protocol_version \<leftarrow> r_u16;
     tick_rate \<leftarrow> r_u16;
     view_distance \<leftarrow> r_u32;
     motd \<leftarrow> r_str;
     mode \<leftarrow> r_u8;
     failed \<leftarrow> r_failed;
     (if \<not> failed \<and> \<not> valid_auth_mode (auth_mode_of mode)
      then r_fail kBadEnum else State_Monad.return ());
     engine_version_req \<leftarrow> r_str;
     failed \<leftarrow> r_failed;
     (if \<not> failed \<and> length engine_version_req > kMaxEngineVersionReqBytes
      then r_fail kLengthExceeded else State_Monad.return ());
     finish \<lparr>info_pack_name = pack_name, info_pack_version = pack_version,
             info_engine_protocol_version = engine_protocol_version, info_tick_rate = tick_rate,
             info_view_distance = view_distance, info_motd = motd,
             info_auth_mode = auth_mode_of mode, info_engine_version_req = engine_version_req\<rparr> })"

definition valid_S2CServerInfo :: "s2c_server_info \<Rightarrow> bool" where [codec_defs]:
  "valid_S2CServerInfo m \<longleftrightarrow> str_ok (info_pack_name m) \<and> str_ok (info_pack_version m) \<and>
     str_ok (info_motd m) \<and> valid_auth_mode (info_auth_mode m) \<and>
     length (info_engine_version_req m) \<le> kMaxEngineVersionReqBytes \<and>
     str_ok (info_engine_version_req m)"

interpretation info_codec: message_codec encode_S2CServerInfo decode_S2CServerInfo valid_S2CServerInfo
  unfolding decode_S2CServerInfo_def
  by (rule message_codecI)
    (simp add: codec_defs, simp add: codec_defs,
      (rule codec_steps field_reads field_readers | simp add: codec_defs)+)

section \<open>C2SAuth\<close>

record c2s_auth =
  auth_player_name :: bstring
  auth_token :: bstring

definition encode_C2SAuth :: "c2s_auth \<Rightarrow> writer" where [codec_defs]:
  "encode_C2SAuth m = do {
     w_string (auth_player_name m);
     w_string (auth_token m) }"

definition decode_C2SAuth :: "byte list \<Rightarrow> c2s_auth decoded" where
  "decode_C2SAuth = run_decoder (do {
     player_name \<leftarrow> r_str;
     token \<leftarrow> r_string kMaxAuthTokenBytes;
     finish \<lparr>auth_player_name = player_name, auth_token = token\<rparr> })"

definition valid_C2SAuth :: "c2s_auth \<Rightarrow> bool" where [codec_defs]:
  "valid_C2SAuth m \<longleftrightarrow> str_ok (auth_player_name m) \<and>
     length (auth_token m) \<le> kMaxAuthTokenBytes"

interpretation auth_codec: message_codec encode_C2SAuth decode_C2SAuth valid_C2SAuth
  unfolding decode_C2SAuth_def
  by (rule message_codecI)
    (simp add: codec_defs, simp add: codec_defs,
      (rule codec_steps field_reads field_readers | simp add: codec_defs)+)

section \<open>S2CAuthChallenge\<close>

record s2c_auth_challenge =
  chal_provider :: bstring
  chal_display_name :: bstring
  chal_issuer :: bstring
  chal_client_id :: bstring
  chal_scopes :: "bstring list"
  chal_params :: "(bstring \<times> bstring) list"
  chal_nonce :: bstring

definition write_param :: "bstring \<times> bstring \<Rightarrow> writer" where [codec_defs]:
  "write_param kv = do { w_string (fst kv); w_string (snd kv) }"

definition read_param :: "(bstring \<times> bstring) reader" where [codec_defs]:
  "read_param = do {
     k \<leftarrow> r_string kMaxAuthFieldBytes;
     v \<leftarrow> r_string kMaxAuthFieldBytes;
     State_Monad.return (k, v) }"

definition encode_S2CAuthChallenge :: "s2c_auth_challenge \<Rightarrow> writer" where [codec_defs]:
  "encode_S2CAuthChallenge m = do {
     w_string (chal_provider m);
     w_string (chal_display_name m);
     w_string (chal_issuer m);
     w_string (chal_client_id m);
     w_varint (of_nat (length (chal_scopes m)));
     write_each w_string (chal_scopes m);
     w_varint (of_nat (length (chal_params m)));
     write_each write_param (chal_params m);
     w_string (chal_nonce m) }"

definition decode_S2CAuthChallenge :: "byte list \<Rightarrow> s2c_auth_challenge decoded" where
  "decode_S2CAuthChallenge = run_decoder (do {
     provider \<leftarrow> r_string kMaxAuthFieldBytes;
     display_name \<leftarrow> r_string kMaxAuthFieldBytes;
     issuer \<leftarrow> r_string kMaxAuthFieldBytes;
     client_id \<leftarrow> r_string kMaxAuthFieldBytes;
     ns \<leftarrow> r_varint;
     failed \<leftarrow> r_failed;
     if \<not> failed \<and> unat ns > kMaxAuthListEntries then State_Monad.return (Inl kLengthExceeded)
     else do {
       scopes \<leftarrow> read_loop (unat ns) (r_string kMaxAuthFieldBytes);
       np \<leftarrow> r_varint;
       failed \<leftarrow> r_failed;
       if \<not> failed \<and> unat np > kMaxAuthListEntries then State_Monad.return (Inl kLengthExceeded)
       else do {
         params \<leftarrow> read_loop (unat np) read_param;
         nonce \<leftarrow> r_string kMaxAuthNonceBytes;
         finish \<lparr>chal_provider = provider, chal_display_name = display_name,
                 chal_issuer = issuer, chal_client_id = client_id, chal_scopes = scopes,
                 chal_params = params, chal_nonce = nonce\<rparr> } } })"

definition valid_param :: "bstring \<times> bstring \<Rightarrow> bool" where [codec_defs]:
  "valid_param kv \<longleftrightarrow> length (fst kv) \<le> kMaxAuthFieldBytes \<and> length (snd kv) \<le> kMaxAuthFieldBytes"

definition valid_S2CAuthChallenge :: "s2c_auth_challenge \<Rightarrow> bool" where [codec_defs]:
  "valid_S2CAuthChallenge m \<longleftrightarrow>
     length (chal_provider m) \<le> kMaxAuthFieldBytes \<and>
     length (chal_display_name m) \<le> kMaxAuthFieldBytes \<and>
     length (chal_issuer m) \<le> kMaxAuthFieldBytes \<and>
     length (chal_client_id m) \<le> kMaxAuthFieldBytes \<and>
     length (chal_scopes m) \<le> kMaxAuthListEntries \<and>
     (\<forall>s \<in> set (chal_scopes m). length s \<le> kMaxAuthFieldBytes \<and> str_ok s) \<and>
     length (chal_params m) \<le> kMaxAuthListEntries \<and>
     (\<forall>kv \<in> set (chal_params m). valid_param kv) \<and>
     length (chal_nonce m) \<le> kMaxAuthNonceBytes"

interpretation param: field_codec write_param read_param "valid_param"
  by (unfold_locales)
    (simp add: codec_defs, simp add: codec_defs,
      (rule codec_steps field_reads field_readers | simp add: codec_defs)+)

declare param.write_appends [simp]
lemmas [field_reads] = param.read_write
lemmas [field_readers] = param.read_reader

interpretation challenge_codec: message_codec encode_S2CAuthChallenge decode_S2CAuthChallenge valid_S2CAuthChallenge
  unfolding decode_S2CAuthChallenge_def
  by (rule message_codecI)
    (simp add: codec_defs, simp add: codec_defs,
      (rule codec_steps field_reads field_readers | simp add: codec_defs)+)

section \<open>S2CReauthRequest\<close>

record s2c_reauth_request =
  reauth_request_nonce :: bstring
  reauth_request_grace_seconds :: u16

definition encode_S2CReauthRequest :: "s2c_reauth_request \<Rightarrow> writer" where [codec_defs]:
  "encode_S2CReauthRequest m = do {
     w_string (reauth_request_nonce m);
     w_u16 (reauth_request_grace_seconds m) }"

definition decode_S2CReauthRequest :: "byte list \<Rightarrow> s2c_reauth_request decoded" where
  "decode_S2CReauthRequest = run_decoder (do {
     nonce \<leftarrow> r_string kMaxAuthNonceBytes;
     grace_seconds \<leftarrow> r_u16;
     finish \<lparr>reauth_request_nonce = nonce, reauth_request_grace_seconds = grace_seconds\<rparr> })"

definition valid_S2CReauthRequest :: "s2c_reauth_request \<Rightarrow> bool" where [codec_defs]:
  "valid_S2CReauthRequest m \<longleftrightarrow> length (reauth_request_nonce m) \<le> kMaxAuthNonceBytes"

interpretation reauth_request_codec: message_codec encode_S2CReauthRequest decode_S2CReauthRequest valid_S2CReauthRequest
  unfolding decode_S2CReauthRequest_def
  by (rule message_codecI)
    (simp add: codec_defs, simp add: codec_defs,
      (rule codec_steps field_reads field_readers | simp add: codec_defs)+)

section \<open>C2SReauth\<close>

record c2s_reauth =
  reauth_token :: bstring

definition encode_C2SReauth :: "c2s_reauth \<Rightarrow> writer" where [codec_defs]:
  "encode_C2SReauth m = do {
     w_string (reauth_token m) }"

definition decode_C2SReauth :: "byte list \<Rightarrow> c2s_reauth decoded" where
  "decode_C2SReauth = run_decoder (do {
     token \<leftarrow> r_string kMaxAuthTokenBytes;
     finish \<lparr>reauth_token = token\<rparr> })"

definition valid_C2SReauth :: "c2s_reauth \<Rightarrow> bool" where [codec_defs]:
  "valid_C2SReauth m \<longleftrightarrow> length (reauth_token m) \<le> kMaxAuthTokenBytes"

interpretation reauth_codec: message_codec encode_C2SReauth decode_C2SReauth valid_C2SReauth
  unfolding decode_C2SReauth_def
  by (rule message_codecI)
    (simp add: codec_defs, simp add: codec_defs,
      (rule codec_steps field_reads field_readers | simp add: codec_defs)+)

section \<open>S2CAuthResult\<close>

record s2c_auth_result =
  auth_result_ok :: bool
  auth_result_reason :: bstring
  auth_result_resolved_name :: bstring

definition encode_S2CAuthResult :: "s2c_auth_result \<Rightarrow> writer" where [codec_defs]:
  "encode_S2CAuthResult m = do {
     w_boolean (auth_result_ok m);
     w_string (auth_result_reason m);
     w_string (auth_result_resolved_name m) }"

definition decode_S2CAuthResult :: "byte list \<Rightarrow> s2c_auth_result decoded" where
  "decode_S2CAuthResult = run_decoder (do {
     ok \<leftarrow> r_boolean;
     reason \<leftarrow> r_str;
     resolved_name \<leftarrow> r_str;
     finish \<lparr>auth_result_ok = ok, auth_result_reason = reason,
             auth_result_resolved_name = resolved_name\<rparr> })"

definition valid_S2CAuthResult :: "s2c_auth_result \<Rightarrow> bool" where [codec_defs]:
  "valid_S2CAuthResult m \<longleftrightarrow> str_ok (auth_result_reason m) \<and>
     str_ok (auth_result_resolved_name m)"

interpretation auth_result_codec: message_codec encode_S2CAuthResult decode_S2CAuthResult valid_S2CAuthResult
  unfolding decode_S2CAuthResult_def
  by (rule message_codecI)
    (simp add: codec_defs, simp add: codec_defs,
      (rule codec_steps field_reads field_readers | simp add: codec_defs)+)

section \<open>C2SReady\<close>

text \<open>A message with no fields.\<close>

definition encode_C2SReady :: "unit \<Rightarrow> writer" where [codec_defs]:
  "encode_C2SReady m = State_Monad.return ()"

definition decode_C2SReady :: "byte list \<Rightarrow> unit decoded" where
  "decode_C2SReady = run_decoder (finish ())"

definition valid_C2SReady :: "unit \<Rightarrow> bool" where [codec_defs]:
  "valid_C2SReady m \<longleftrightarrow> True"

interpretation ready_codec: message_codec encode_C2SReady decode_C2SReady valid_C2SReady
  unfolding decode_C2SReady_def
  by (rule message_codecI)
    (simp add: codec_defs, simp add: codec_defs,
      (rule codec_steps field_reads field_readers | simp add: codec_defs)+)

section \<open>S2CJoinAccept\<close>

record s2c_join_accept =
  join_your_net_id :: u32
  join_spawn_x :: f64
  join_spawn_y :: f64
  join_spawn_z :: f64
  join_world_seed :: u64
  join_time_of_day :: u32

definition encode_S2CJoinAccept :: "s2c_join_accept \<Rightarrow> writer" where [codec_defs]:
  "encode_S2CJoinAccept m = do {
     w_u32 (join_your_net_id m);
     w_f64 (join_spawn_x m);
     w_f64 (join_spawn_y m);
     w_f64 (join_spawn_z m);
     w_u64 (join_world_seed m);
     w_u32 (join_time_of_day m) }"

definition decode_S2CJoinAccept :: "byte list \<Rightarrow> s2c_join_accept decoded" where
  "decode_S2CJoinAccept = run_decoder (do {
     your_net_id \<leftarrow> r_u32;
     spawn_x \<leftarrow> r_f64;
     spawn_y \<leftarrow> r_f64;
     spawn_z \<leftarrow> r_f64;
     world_seed \<leftarrow> r_u64;
     time_of_day \<leftarrow> r_u32;
     finish \<lparr>join_your_net_id = your_net_id, join_spawn_x = spawn_x, join_spawn_y = spawn_y,
             join_spawn_z = spawn_z, join_world_seed = world_seed,
             join_time_of_day = time_of_day\<rparr> })"

definition valid_S2CJoinAccept :: "s2c_join_accept \<Rightarrow> bool" where [codec_defs]:
  "valid_S2CJoinAccept m \<longleftrightarrow> True"

interpretation join_codec: message_codec encode_S2CJoinAccept decode_S2CJoinAccept valid_S2CJoinAccept
  unfolding decode_S2CJoinAccept_def
  by (rule message_codecI)
    (simp add: codec_defs, simp add: codec_defs,
      (rule codec_steps field_reads field_readers | simp add: codec_defs)+)

section \<open>S2CDisconnect\<close>

record s2c_disconnect =
  disc_reason :: disconnect_reason
  disc_message :: bstring

definition encode_S2CDisconnect :: "s2c_disconnect \<Rightarrow> writer" where [codec_defs]:
  "encode_S2CDisconnect m = do {
     w_u8 (disconnect_reason_value (disc_reason m));
     w_string (disc_message m) }"

definition decode_S2CDisconnect :: "byte list \<Rightarrow> s2c_disconnect decoded" where
  "decode_S2CDisconnect = run_decoder (do {
     reason \<leftarrow> r_u8;
     msg \<leftarrow> r_str;
     failed \<leftarrow> r_failed;
     (if \<not> failed \<and> \<not> valid_disconnect_reason (disconnect_reason_of reason)
      then r_fail kBadEnum else State_Monad.return ());
     finish \<lparr>disc_reason = disconnect_reason_of reason, disc_message = msg\<rparr> })"

definition valid_S2CDisconnect :: "s2c_disconnect \<Rightarrow> bool" where [codec_defs]:
  "valid_S2CDisconnect m \<longleftrightarrow> is_reason (disc_reason m) \<and>
     valid_disconnect_reason (disc_reason m) \<and> str_ok (disc_message m)"

lemma disconnect_reason_of_value [simp]:
  "is_reason r \<Longrightarrow> disconnect_reason_of (disconnect_reason_value r) = r"
  by (simp add: is_reason_def)

interpretation disconnect_codec: message_codec encode_S2CDisconnect decode_S2CDisconnect valid_S2CDisconnect
  unfolding decode_S2CDisconnect_def
  by (rule message_codecI)
    (simp add: codec_defs, simp add: codec_defs,
      (rule codec_steps field_reads field_readers | simp add: codec_defs)+)

end
