(* ===== verification/World_Messages.thy ===== *)
theory World_Messages
  imports Message_Frame Core_Types
begin

text \<open>
  The world replication payloads of \<open>protocol/world.hpp\<close> and \<open>protocol/world.cpp\<close>: registries,
  engine parameters, chunks and their deltas, block edits, block damage and the clock. The
  chunk payload itself is opaque here (\<open>Chunk_Codec\<close> models it). \<open>float\<close> and \<open>double\<close> fields
  are their bit patterns: the code moves them with \<open>memcpy\<close>.
\<close>

section \<open>Caps on untrusted lengths\<close>

definition kMaxChunkBytes :: nat where [codec_defs]:
  "kMaxChunkBytes = 8 * 1024 * 1024"

definition kMaxBlockRegistryRecords :: nat where [codec_defs]:
  "kMaxBlockRegistryRecords = 4096"

definition kMaxDayNightKeyframes :: nat where [codec_defs]:
  "kMaxDayNightKeyframes = 256"

definition kMaxEntityKindRegistryRecords :: nat where [codec_defs]:
  "kMaxEntityKindRegistryRecords = 4096"

definition kMaxEntityClips :: nat where [codec_defs]:
  "kMaxEntityClips = 64"

definition chunk_volume :: nat where [codec_defs]:
  "chunk_volume = 32 * 32 * 32"

section \<open>S2CBlockRegistry\<close>

record block_registry_record =
  brr_name :: bstring
  brr_solid :: bool
  brr_opaque :: bool
  brr_liquid :: bool
  brr_light_emission :: u8
  brr_texture :: bstring
  brr_max_damage :: u16
  brr_crack_texture :: bstring

definition write_block_record :: "block_registry_record \<Rightarrow> writer" where [codec_defs]:
  "write_block_record m = do {
     w_string (brr_name m);
     w_boolean (brr_solid m);
     w_boolean (brr_opaque m);
     w_boolean (brr_liquid m);
     w_u8 (brr_light_emission m);
     w_string (brr_texture m);
     w_u16 (brr_max_damage m);
     w_string (brr_crack_texture m) }"

definition read_block_record :: "block_registry_record reader" where [codec_defs]:
  "read_block_record = do {
     name \<leftarrow> r_str;
     solid \<leftarrow> r_boolean;
     opaque \<leftarrow> r_boolean;
     liquid \<leftarrow> r_boolean;
     light_emission \<leftarrow> r_u8;
     texture \<leftarrow> r_str;
     max_damage \<leftarrow> r_u16;
     crack_texture \<leftarrow> r_str;
     State_Monad.return \<lparr>brr_name = name, brr_solid = solid, brr_opaque = opaque,
                         brr_liquid = liquid, brr_light_emission = light_emission,
                         brr_texture = texture, brr_max_damage = max_damage,
                         brr_crack_texture = crack_texture\<rparr> }"

definition valid_block_registry_record :: "block_registry_record \<Rightarrow> bool" where [codec_defs]:
  "valid_block_registry_record m \<longleftrightarrow> str_ok (brr_name m) \<and> str_ok (brr_texture m) \<and> str_ok (brr_crack_texture m)"

interpretation block_record: field_codec write_block_record read_block_record "valid_block_registry_record"
  by (unfold_locales)
    (simp add: codec_defs, simp add: codec_defs,
      (rule codec_steps field_reads field_readers | simp add: codec_defs)+)

declare block_record.write_appends [simp]
lemmas [field_reads] = block_record.read_write
lemmas [field_readers] = block_record.read_reader

record s2c_block_registry =
  breg_blocks :: "block_registry_record list"

definition encode_S2CBlockRegistry :: "s2c_block_registry \<Rightarrow> writer" where [codec_defs]:
  "encode_S2CBlockRegistry m = do {
     w_varint (of_nat (length (breg_blocks m)));
     write_each write_block_record (breg_blocks m) }"

definition decode_S2CBlockRegistry :: "byte list \<Rightarrow> s2c_block_registry decoded" where
  "decode_S2CBlockRegistry = run_decoder (do {
     n \<leftarrow> r_varint;
     if unat n > kMaxBlockRegistryRecords then State_Monad.return (Inl kLengthExceeded)
     else do {
       blocks \<leftarrow> read_loop (unat n) read_block_record;
       finish \<lparr>breg_blocks = blocks\<rparr> } })"

definition valid_S2CBlockRegistry :: "s2c_block_registry \<Rightarrow> bool" where [codec_defs]:
  "valid_S2CBlockRegistry m \<longleftrightarrow> length (breg_blocks m) \<le> kMaxBlockRegistryRecords \<and>
     (\<forall>x \<in> set (breg_blocks m). valid_block_registry_record x)"

interpretation breg_codec: message_codec encode_S2CBlockRegistry decode_S2CBlockRegistry valid_S2CBlockRegistry
  unfolding decode_S2CBlockRegistry_def
  by (rule message_codecI)
    (simp add: codec_defs, simp add: codec_defs,
      (rule codec_steps field_reads field_readers | simp add: codec_defs)+)

section \<open>S2CMoveParams\<close>

record s2c_move_params =
  move_half_width :: f64
  move_height :: f64
  move_eye_height :: f64
  move_walk_speed :: f64
  move_sprint_speed :: f64
  move_accel :: f64
  move_air_accel :: f64
  move_friction :: f64
  move_gravity :: f64
  move_jump_speed :: f64
  move_terminal_velocity :: f64
  move_step_height :: f64
  move_fly_speed :: f64
  move_fly :: bool

definition encode_S2CMoveParams :: "s2c_move_params \<Rightarrow> writer" where [codec_defs]:
  "encode_S2CMoveParams m = do {
     w_f64 (move_half_width m);
     w_f64 (move_height m);
     w_f64 (move_eye_height m);
     w_f64 (move_walk_speed m);
     w_f64 (move_sprint_speed m);
     w_f64 (move_accel m);
     w_f64 (move_air_accel m);
     w_f64 (move_friction m);
     w_f64 (move_gravity m);
     w_f64 (move_jump_speed m);
     w_f64 (move_terminal_velocity m);
     w_f64 (move_step_height m);
     w_f64 (move_fly_speed m);
     w_boolean (move_fly m) }"

definition decode_S2CMoveParams :: "byte list \<Rightarrow> s2c_move_params decoded" where
  "decode_S2CMoveParams = run_decoder (do {
     half_width \<leftarrow> r_f64;
     height \<leftarrow> r_f64;
     eye_height \<leftarrow> r_f64;
     walk_speed \<leftarrow> r_f64;
     sprint_speed \<leftarrow> r_f64;
     accel \<leftarrow> r_f64;
     air_accel \<leftarrow> r_f64;
     friction \<leftarrow> r_f64;
     gravity \<leftarrow> r_f64;
     jump_speed \<leftarrow> r_f64;
     terminal_velocity \<leftarrow> r_f64;
     step_height \<leftarrow> r_f64;
     fly_speed \<leftarrow> r_f64;
     fly \<leftarrow> r_boolean;
     finish \<lparr>move_half_width = half_width, move_height = height,
             move_eye_height = eye_height, move_walk_speed = walk_speed,
             move_sprint_speed = sprint_speed, move_accel = accel,
             move_air_accel = air_accel, move_friction = friction, move_gravity = gravity,
             move_jump_speed = jump_speed, move_terminal_velocity = terminal_velocity,
             move_step_height = step_height, move_fly_speed = fly_speed, move_fly = fly\<rparr> })"

definition valid_S2CMoveParams :: "s2c_move_params \<Rightarrow> bool" where [codec_defs]:
  "valid_S2CMoveParams m \<longleftrightarrow> True"

interpretation move_codec: message_codec encode_S2CMoveParams decode_S2CMoveParams valid_S2CMoveParams
  unfolding decode_S2CMoveParams_def
  by (rule message_codecI)
    (simp add: codec_defs, simp add: codec_defs,
      (rule codec_steps field_reads field_readers | simp add: codec_defs)+)

section \<open>S2CDayNightCurve\<close>

record day_night_keyframe_record =
  dnk_tick :: u32
  dnk_brightness :: f64
  dnk_r :: u8
  dnk_g :: u8
  dnk_b :: u8

definition write_keyframe :: "day_night_keyframe_record \<Rightarrow> writer" where [codec_defs]:
  "write_keyframe m = do {
     w_u32 (dnk_tick m);
     w_f64 (dnk_brightness m);
     w_u8 (dnk_r m);
     w_u8 (dnk_g m);
     w_u8 (dnk_b m) }"

definition read_keyframe :: "day_night_keyframe_record reader" where [codec_defs]:
  "read_keyframe = do {
     tick \<leftarrow> r_u32;
     brightness \<leftarrow> r_f64;
     r \<leftarrow> r_u8;
     g \<leftarrow> r_u8;
     b \<leftarrow> r_u8;
     State_Monad.return \<lparr>dnk_tick = tick, dnk_brightness = brightness, dnk_r = r, dnk_g = g,
                         dnk_b = b\<rparr> }"

definition valid_day_night_keyframe_record :: "day_night_keyframe_record \<Rightarrow> bool" where [codec_defs]:
  "valid_day_night_keyframe_record m \<longleftrightarrow> True"

interpretation keyframe: field_codec write_keyframe read_keyframe "valid_day_night_keyframe_record"
  by (unfold_locales)
    (simp add: codec_defs, simp add: codec_defs,
      (rule codec_steps field_reads field_readers | simp add: codec_defs)+)

declare keyframe.write_appends [simp]
lemmas [field_reads] = keyframe.read_write
lemmas [field_readers] = keyframe.read_reader

record s2c_day_night_curve =
  curve_keyframes :: "day_night_keyframe_record list"

definition encode_S2CDayNightCurve :: "s2c_day_night_curve \<Rightarrow> writer" where [codec_defs]:
  "encode_S2CDayNightCurve m = do {
     w_varint (of_nat (length (curve_keyframes m)));
     write_each write_keyframe (curve_keyframes m) }"

definition decode_S2CDayNightCurve :: "byte list \<Rightarrow> s2c_day_night_curve decoded" where
  "decode_S2CDayNightCurve = run_decoder (do {
     n \<leftarrow> r_varint;
     if unat n > kMaxDayNightKeyframes then State_Monad.return (Inl kLengthExceeded)
     else do {
       keyframes \<leftarrow> read_loop (unat n) read_keyframe;
       finish \<lparr>curve_keyframes = keyframes\<rparr> } })"

definition valid_S2CDayNightCurve :: "s2c_day_night_curve \<Rightarrow> bool" where [codec_defs]:
  "valid_S2CDayNightCurve m \<longleftrightarrow> length (curve_keyframes m) \<le> kMaxDayNightKeyframes \<and>
     (\<forall>x \<in> set (curve_keyframes m). valid_day_night_keyframe_record x)"

interpretation curve_codec: message_codec encode_S2CDayNightCurve decode_S2CDayNightCurve valid_S2CDayNightCurve
  unfolding decode_S2CDayNightCurve_def
  by (rule message_codecI)
    (simp add: codec_defs, simp add: codec_defs,
      (rule codec_steps field_reads field_readers | simp add: codec_defs)+)

section \<open>S2CFogParams\<close>

text \<open>The tint bytes are on the wire only when there is a tint; a reader leaves them 0.\<close>

record s2c_fog_params =
  fog_start :: f32
  fog_end :: f32
  fog_has_underwater_tint :: bool
  fog_underwater_tint_r :: u8
  fog_underwater_tint_g :: u8
  fog_underwater_tint_b :: u8

definition encode_S2CFogParams :: "s2c_fog_params \<Rightarrow> writer" where [codec_defs]:
  "encode_S2CFogParams m = do {
     w_f32 (fog_start m);
     w_f32 (fog_end m);
     w_boolean (fog_has_underwater_tint m);
     (if fog_has_underwater_tint m
      then do {
        w_u8 (fog_underwater_tint_r m);
        w_u8 (fog_underwater_tint_g m);
        w_u8 (fog_underwater_tint_b m) }
      else State_Monad.return ()) }"

definition decode_S2CFogParams :: "byte list \<Rightarrow> s2c_fog_params decoded" where
  "decode_S2CFogParams = run_decoder (do {
     fs \<leftarrow> r_f32;
     fe \<leftarrow> r_f32;
     has \<leftarrow> r_boolean;
     if has
     then do {
       r \<leftarrow> r_u8;
       g \<leftarrow> r_u8;
       b \<leftarrow> r_u8;
       finish \<lparr>fog_start = fs, fog_end = fe, fog_has_underwater_tint = has,
         fog_underwater_tint_r = r, fog_underwater_tint_g = g, fog_underwater_tint_b = b\<rparr> }
     else finish \<lparr>fog_start = fs, fog_end = fe, fog_has_underwater_tint = has,
         fog_underwater_tint_r = 0, fog_underwater_tint_g = 0, fog_underwater_tint_b = 0\<rparr> })"

definition valid_S2CFogParams :: "s2c_fog_params \<Rightarrow> bool" where [codec_defs]:
  "valid_S2CFogParams m \<longleftrightarrow> (\<not> fog_has_underwater_tint m \<longrightarrow>
     fog_underwater_tint_r m = 0 \<and> fog_underwater_tint_g m = 0 \<and> fog_underwater_tint_b m = 0)"

interpretation fog_codec: message_codec encode_S2CFogParams decode_S2CFogParams valid_S2CFogParams
  unfolding decode_S2CFogParams_def
proof (rule message_codecI, goal_cases)
  case (2 m)
  show ?case
  proof (cases "fog_has_underwater_tint m")
    case True
    then show ?thesis unfolding encode_S2CFogParams_def
      by simp (rule decodes_finish decodes_bind decodes_bind_last primitive_reads | simp)+
  next
    case False
    have "\<lparr>fog_start = fog_start m, fog_end = fog_end m, fog_has_underwater_tint = False,
        fog_underwater_tint_r = 0, fog_underwater_tint_g = 0, fog_underwater_tint_b = 0\<rparr> = m"
      using 2 False by (simp add: valid_S2CFogParams_def)
    with False show ?thesis unfolding encode_S2CFogParams_def
      by simp ((rule decodes_bind decodes_bind_last primitive_reads)+, simp add: decodes_finish)
  qed
qed (simp add: codec_defs, (rule codec_steps | simp)+)

section \<open>S2CEntityKindRegistry\<close>

record entity_clip_def =
  clip_name :: bstring
  clip_frames :: u16
  clip_fps :: f32

definition write_clip :: "entity_clip_def \<Rightarrow> writer" where [codec_defs]:
  "write_clip m = do {
     w_string (clip_name m);
     w_u16 (clip_frames m);
     w_f32 (clip_fps m) }"

definition read_clip :: "entity_clip_def reader" where [codec_defs]:
  "read_clip = do {
     name \<leftarrow> r_str;
     frames \<leftarrow> r_u16;
     fps \<leftarrow> r_f32;
     State_Monad.return \<lparr>clip_name = name, clip_frames = frames, clip_fps = fps\<rparr> }"

definition valid_entity_clip_def :: "entity_clip_def \<Rightarrow> bool" where [codec_defs]:
  "valid_entity_clip_def m \<longleftrightarrow> str_ok (clip_name m)"

interpretation clip: field_codec write_clip read_clip "valid_entity_clip_def"
  by (unfold_locales)
    (simp add: codec_defs, simp add: codec_defs,
      (rule codec_steps field_reads field_readers | simp add: codec_defs)+)

declare clip.write_appends [simp]
lemmas [field_reads] = clip.read_write
lemmas [field_readers] = clip.read_reader

record entity_visual_def =
  vis_texture :: bstring
  vis_frame_width :: u16
  vis_frame_height :: u16
  vis_facings :: u8
  vis_origin_x :: f32
  vis_origin_y :: f32
  vis_mirror :: bool
  vis_clips :: "entity_clip_def list"

definition write_visual_def :: "entity_visual_def \<Rightarrow> writer" where [codec_defs]:
  "write_visual_def v = do {
     w_string (vis_texture v);
     w_u16 (vis_frame_width v);
     w_u16 (vis_frame_height v);
     w_u8 (vis_facings v);
     w_f32 (vis_origin_x v);
     w_f32 (vis_origin_y v);
     w_boolean (vis_mirror v);
     w_varint (of_nat (length (vis_clips v)));
     write_each write_clip (vis_clips v) }"

definition write_entity_visual :: "entity_visual_def option \<Rightarrow> writer" where
  "write_entity_visual v = w_opt write_visual_def v"

definition read_visual_def :: "entity_visual_def reader" where [codec_defs]:
  "read_visual_def = do {
     texture \<leftarrow> r_str;
     frame_width \<leftarrow> r_u16;
     frame_height \<leftarrow> r_u16;
     facings \<leftarrow> r_u8;
     origin_x \<leftarrow> r_f32;
     origin_y \<leftarrow> r_f32;
     mirror \<leftarrow> r_boolean;
     n \<leftarrow> r_varint;
     if unat n > kMaxEntityClips
     then do {
       r_fail kLengthExceeded;
       State_Monad.return \<lparr>vis_texture = texture, vis_frame_width = frame_width,
         vis_frame_height = frame_height, vis_facings = facings, vis_origin_x = origin_x,
         vis_origin_y = origin_y, vis_mirror = mirror, vis_clips = []\<rparr> }
     else do {
       clips \<leftarrow> read_loop (unat n) read_clip;
       State_Monad.return \<lparr>vis_texture = texture, vis_frame_width = frame_width,
         vis_frame_height = frame_height, vis_facings = facings, vis_origin_x = origin_x,
         vis_origin_y = origin_y, vis_mirror = mirror, vis_clips = clips\<rparr> } }"

definition read_entity_visual :: "entity_visual_def option reader" where
  "read_entity_visual = r_opt read_visual_def"

definition valid_visual_def :: "entity_visual_def \<Rightarrow> bool" where [codec_defs]:
  "valid_visual_def v \<longleftrightarrow> str_ok (vis_texture v) \<and> length (vis_clips v) \<le> kMaxEntityClips \<and>
     (\<forall>c \<in> set (vis_clips v). valid_entity_clip_def c)"

interpretation visual_def: field_codec write_visual_def read_visual_def "valid_visual_def"
  by (unfold_locales)
    (simp add: codec_defs, simp add: codec_defs,
      (rule codec_steps field_reads field_readers | simp add: codec_defs)+)

declare visual_def.write_appends [simp]

interpretation entity_visual: field_codec write_entity_visual read_entity_visual
    "pred_option valid_visual_def"
proof (unfold_locales, goal_cases)
  case (2 v)
  then show ?case
    unfolding write_entity_visual_def read_entity_visual_def
    by (intro reads_opt visual_def.read_write) (simp_all add: option.pred_set)
qed (simp_all add: write_entity_visual_def read_entity_visual_def
    reader_ok_opt [OF visual_def.read_reader])

declare entity_visual.write_appends [simp]
lemmas [field_reads] = entity_visual.read_write
lemmas [field_readers] = entity_visual.read_reader

record entity_kind_registry_record =
  ekr_name :: bstring
  ekr_width :: f32
  ekr_height :: f32
  ekr_visual :: "entity_visual_def option"

definition write_kind :: "entity_kind_registry_record \<Rightarrow> writer" where [codec_defs]:
  "write_kind k = do {
     w_string (ekr_name k);
     w_f32 (ekr_width k);
     w_f32 (ekr_height k);
     write_entity_visual (ekr_visual k) }"

definition read_kind :: "entity_kind_registry_record reader" where [codec_defs]:
  "read_kind = do {
     name \<leftarrow> r_str;
     width \<leftarrow> r_f32;
     height \<leftarrow> r_f32;
     visual \<leftarrow> read_entity_visual;
     State_Monad.return \<lparr>ekr_name = name, ekr_width = width, ekr_height = height,
                         ekr_visual = visual\<rparr> }"

definition valid_kind :: "entity_kind_registry_record \<Rightarrow> bool" where
  "valid_kind k \<longleftrightarrow> str_ok (ekr_name k) \<and> pred_option valid_visual_def (ekr_visual k)"

interpretation kind: field_codec write_kind read_kind valid_kind
  by (unfold_locales)
    (simp add: write_kind_def, simp add: write_kind_def read_kind_def valid_kind_def,
      (rule codec_steps field_reads field_readers | simp add: read_kind_def)+)

declare kind.write_appends [simp]
lemmas [field_reads] = kind.read_write
lemmas [field_readers] = kind.read_reader

record s2c_entity_kind_registry =
  kinds_list :: "entity_kind_registry_record list"

definition encode_S2CEntityKindRegistry :: "s2c_entity_kind_registry \<Rightarrow> writer" where [codec_defs]:
  "encode_S2CEntityKindRegistry m = do {
     w_varint (of_nat (length (kinds_list m)));
     write_each write_kind (kinds_list m) }"

definition decode_S2CEntityKindRegistry :: "byte list \<Rightarrow> s2c_entity_kind_registry decoded" where
  "decode_S2CEntityKindRegistry = run_decoder (do {
     n \<leftarrow> r_varint;
     if unat n > kMaxEntityKindRegistryRecords then State_Monad.return (Inl kLengthExceeded)
     else do {
       list \<leftarrow> read_loop (unat n) read_kind;
       finish \<lparr>kinds_list = list\<rparr> } })"

definition valid_S2CEntityKindRegistry :: "s2c_entity_kind_registry \<Rightarrow> bool" where [codec_defs]:
  "valid_S2CEntityKindRegistry m \<longleftrightarrow> length (kinds_list m) \<le> kMaxEntityKindRegistryRecords \<and>
     (\<forall>x \<in> set (kinds_list m). valid_kind x)"

interpretation kinds_codec: message_codec encode_S2CEntityKindRegistry decode_S2CEntityKindRegistry valid_S2CEntityKindRegistry
  unfolding decode_S2CEntityKindRegistry_def
  by (rule message_codecI)
    (simp add: codec_defs, simp add: codec_defs,
      (rule codec_steps field_reads field_readers | simp add: codec_defs)+)

section \<open>S2CChunkAdd\<close>

record s2c_chunk_add =
  add_coord :: chunk_coord
  add_revision :: u64
  add_payload :: "byte list"

definition encode_S2CChunkAdd :: "s2c_chunk_add \<Rightarrow> writer" where [codec_defs]:
  "encode_S2CChunkAdd m = do {
     write_coord (add_coord m);
     w_u64 (add_revision m);
     w_varint (of_nat (length (add_payload m)));
     w_bytes (add_payload m) }"

definition decode_S2CChunkAdd :: "byte list \<Rightarrow> s2c_chunk_add decoded" where
  "decode_S2CChunkAdd = run_decoder (do {
     coord \<leftarrow> read_coord;
     revision \<leftarrow> r_u64;
     len \<leftarrow> r_varint;
     if unat len > kMaxChunkBytes then State_Monad.return (Inl kLengthExceeded)
     else do {
       bs \<leftarrow> r_bytes (unat len);
       finish \<lparr>add_coord = coord, add_revision = revision, add_payload = bs\<rparr> } })"

definition valid_S2CChunkAdd :: "s2c_chunk_add \<Rightarrow> bool" where [codec_defs]:
  "valid_S2CChunkAdd m \<longleftrightarrow> length (add_payload m) \<le> kMaxChunkBytes"

interpretation chunk_add_codec: message_codec encode_S2CChunkAdd decode_S2CChunkAdd valid_S2CChunkAdd
  unfolding decode_S2CChunkAdd_def
  by (rule message_codecI)
    (simp add: codec_defs, simp add: codec_defs,
      (rule codec_steps reads_bytes field_reads field_readers | simp add: codec_defs)+)

section \<open>S2CChunkDelta\<close>

record block_change =
  bc_local_index :: u32
  bc_block :: block_id

record light_change =
  lc_local_index :: u32
  lc_packed :: u8

record s2c_chunk_delta =
  delta_coord :: chunk_coord
  delta_base_revision :: u64
  delta_new_revision :: u64
  delta_blocks :: "block_change list"
  delta_light :: "light_change list"

definition write_block_change :: "block_change \<Rightarrow> writer" where
  "write_block_change c = do { w_varint (ucast (bc_local_index c)); w_u16 (bc_block c) }"

definition read_block_change :: "block_change reader" where
  "read_block_change = do { index \<leftarrow> r_varint; block \<leftarrow> r_u16;
     State_Monad.return \<lparr>bc_local_index = ucast index, bc_block = block\<rparr> }"

definition write_light_change :: "light_change \<Rightarrow> writer" where
  "write_light_change c = do { w_varint (ucast (lc_local_index c)); w_u8 (lc_packed c) }"

definition read_light_change :: "light_change reader" where
  "read_light_change = do { index \<leftarrow> r_varint; packed \<leftarrow> r_u8;
     State_Monad.return \<lparr>lc_local_index = ucast index, lc_packed = packed\<rparr> }"

definition encode_S2CChunkDelta :: "s2c_chunk_delta \<Rightarrow> writer" where [codec_defs]:
  "encode_S2CChunkDelta m = do {
     write_coord (delta_coord m);
     w_u64 (delta_base_revision m);
     w_u64 (delta_new_revision m);
     w_varint (of_nat (length (delta_blocks m)));
     write_each write_block_change (delta_blocks m);
     w_varint (of_nat (length (delta_light m)));
     write_each write_light_change (delta_light m) }"

definition decode_S2CChunkDelta :: "byte list \<Rightarrow> s2c_chunk_delta decoded" where
  "decode_S2CChunkDelta = run_decoder (do {
     coord \<leftarrow> read_coord;
     base_revision \<leftarrow> r_u64;
     new_revision \<leftarrow> r_u64;
     nblocks \<leftarrow> r_varint;
     if unat nblocks > chunk_volume then State_Monad.return (Inl kLengthExceeded)
     else do {
       blocks \<leftarrow> read_checked_loop (unat nblocks) read_block_change
         (\<lambda>c. unat (bc_local_index c) \<ge> chunk_volume);
       case blocks of Inl e \<Rightarrow> State_Monad.return (Inl e)
       | Inr bs \<Rightarrow> do {
           nlight \<leftarrow> r_varint;
           if unat nlight > chunk_volume then State_Monad.return (Inl kLengthExceeded)
           else do {
             light \<leftarrow> read_checked_loop (unat nlight) read_light_change
               (\<lambda>c. unat (lc_local_index c) \<ge> chunk_volume);
             case light of Inl e \<Rightarrow> State_Monad.return (Inl e)
             | Inr ls \<Rightarrow> finish \<lparr>delta_coord = coord, delta_base_revision = base_revision,
                 delta_new_revision = new_revision, delta_blocks = bs, delta_light = ls\<rparr> } } } })"

definition valid_S2CChunkDelta :: "s2c_chunk_delta \<Rightarrow> bool" where [codec_defs]:
  "valid_S2CChunkDelta m \<longleftrightarrow>
     length (delta_blocks m) \<le> chunk_volume \<and> length (delta_light m) \<le> chunk_volume \<and>
     (\<forall>c \<in> set (delta_blocks m). unat (bc_local_index c) < chunk_volume) \<and>
     (\<forall>c \<in> set (delta_light m). unat (lc_local_index c) < chunk_volume)"

lemma ucast_u32_u64 [simp]: "(ucast (ucast (w :: u32) :: u64) :: u32) = w"
  by (rule bit_word_eqI) (auto simp: bit_simps)

interpretation block_change: field_codec write_block_change read_block_change "\<lambda>_. True"
  by (unfold_locales)
    (simp add: write_block_change_def, simp add: write_block_change_def read_block_change_def,
      (rule codec_steps | simp add: read_block_change_def)+)

interpretation light_change: field_codec write_light_change read_light_change "\<lambda>_. True"
  by (unfold_locales)
    (simp add: write_light_change_def, simp add: write_light_change_def read_light_change_def,
      (rule codec_steps | simp add: read_light_change_def)+)

declare block_change.write_appends [simp] light_change.write_appends [simp]

lemma index_default: "unat (ucast (0 :: u64) :: u32) < chunk_volume"
  by (simp add: chunk_volume_def)

lemma step_ok_block_changes [simp]:
  "step_ok (read_checked_loop n read_block_change (\<lambda>c. unat (bc_local_index c) \<ge> chunk_volume))"
  unfolding read_block_change_def
  by (rule step_ok_checked_loop [where Y = UNIV])
    ((rule reader_intros UNIV_I)+,
      rule keeps_good_bind [where Y = "{0}" and U = UNIV
        and badk = "\<lambda>i. unat (ucast (i :: u64) :: u32) \<ge> chunk_volume"],
      (rule reader_intros UNIV_I)+, simp add: case_prod_unfold, simp add: chunk_volume_def)

lemma step_ok_light_changes [simp]:
  "step_ok (read_checked_loop n read_light_change (\<lambda>c. unat (lc_local_index c) \<ge> chunk_volume))"
  unfolding read_light_change_def
  by (rule step_ok_checked_loop [where Y = UNIV])
    ((rule reader_intros UNIV_I)+,
      rule keeps_good_bind [where Y = "{0}" and U = UNIV
        and badk = "\<lambda>i. unat (ucast (i :: u64) :: u32) \<ge> chunk_volume"],
      (rule reader_intros UNIV_I)+, simp add: case_prod_unfold, simp add: chunk_volume_def)

interpretation delta_codec: message_codec encode_S2CChunkDelta decode_S2CChunkDelta valid_S2CChunkDelta
  unfolding decode_S2CChunkDelta_def
  by (rule message_codecI)
    (simp add: codec_defs, simp add: codec_defs not_le,
      (rule codec_steps field_reads field_readers block_change.read_write light_change.read_write
        reads_checked_loop wire_decoder_step reports_step
        step_ok_block_changes step_ok_light_changes | simp add: codec_defs not_le)+)

section \<open>S2CChunkRemove\<close>

record s2c_chunk_remove =
  remove_coord :: chunk_coord

definition encode_S2CChunkRemove :: "s2c_chunk_remove \<Rightarrow> writer" where [codec_defs]:
  "encode_S2CChunkRemove m = do {
     write_coord (remove_coord m) }"

definition decode_S2CChunkRemove :: "byte list \<Rightarrow> s2c_chunk_remove decoded" where
  "decode_S2CChunkRemove = run_decoder (do {
     coord \<leftarrow> read_coord;
     finish \<lparr>remove_coord = coord\<rparr> })"

definition valid_S2CChunkRemove :: "s2c_chunk_remove \<Rightarrow> bool" where [codec_defs]:
  "valid_S2CChunkRemove m \<longleftrightarrow> True"

interpretation remove_codec: message_codec encode_S2CChunkRemove decode_S2CChunkRemove valid_S2CChunkRemove
  unfolding decode_S2CChunkRemove_def
  by (rule message_codecI)
    (simp add: codec_defs, simp add: codec_defs,
      (rule codec_steps field_reads field_readers | simp add: codec_defs)+)

section \<open>C2SBlockEdit\<close>

datatype block_edit_action = kBreak | kPlace | kActionOther u8

definition block_edit_action_of :: "u8 \<Rightarrow> block_edit_action" where
  "block_edit_action_of v = (if v = 0 then kBreak else if v = 1 then kPlace else kActionOther v)"

primrec block_edit_action_value :: "block_edit_action \<Rightarrow> u8" where
  "block_edit_action_value kBreak = 0"
| "block_edit_action_value kPlace = 1"
| "block_edit_action_value (kActionOther v) = v"

definition valid_block_edit_action :: "block_edit_action \<Rightarrow> bool" where
  "valid_block_edit_action a \<longleftrightarrow> a = kBreak \<or> a = kPlace"

lemma block_edit_action_of_value [simp]:
  "valid_block_edit_action a \<Longrightarrow> block_edit_action_of (block_edit_action_value a) = a"
  by (auto simp: valid_block_edit_action_def block_edit_action_of_def)

lemma valid_action_default [simp]: "valid_block_edit_action (block_edit_action_of 0)"
  by (simp add: valid_block_edit_action_def block_edit_action_of_def)

record c2s_block_edit =
  edit_predicted_seq :: u32
  edit_action :: block_edit_action
  edit_pos :: ivec3
  edit_block :: block_id

definition encode_C2SBlockEdit :: "c2s_block_edit \<Rightarrow> writer" where [codec_defs]:
  "encode_C2SBlockEdit m = do {
     w_u32 (edit_predicted_seq m);
     w_u8 (block_edit_action_value (edit_action m));
     write_ivec3 (edit_pos m);
     w_u16 (edit_block m) }"

definition decode_C2SBlockEdit :: "byte list \<Rightarrow> c2s_block_edit decoded" where
  "decode_C2SBlockEdit = run_decoder (do {
     predicted_seq \<leftarrow> r_u32;
     action \<leftarrow> r_u8;
     if \<not> valid_block_edit_action (block_edit_action_of action)
     then State_Monad.return (Inl kBadEnum)
     else do {
       pos \<leftarrow> read_ivec3;
       block \<leftarrow> r_u16;
       finish \<lparr>edit_predicted_seq = predicted_seq, edit_action = block_edit_action_of action,
               edit_pos = pos, edit_block = block\<rparr> } })"

definition valid_C2SBlockEdit :: "c2s_block_edit \<Rightarrow> bool" where [codec_defs]:
  "valid_C2SBlockEdit m \<longleftrightarrow> valid_block_edit_action (edit_action m)"

interpretation edit_codec: message_codec encode_C2SBlockEdit decode_C2SBlockEdit valid_C2SBlockEdit
  unfolding decode_C2SBlockEdit_def
  by (rule message_codecI)
    (simp add: codec_defs, simp add: codec_defs,
      (rule codec_steps field_reads field_readers | simp add: codec_defs)+)

section \<open>S2CBlockEditResult\<close>

record s2c_block_edit_result =
  eres_predicted_seq :: u32
  eres_accepted :: bool
  eres_pos :: ivec3

definition encode_S2CBlockEditResult :: "s2c_block_edit_result \<Rightarrow> writer" where [codec_defs]:
  "encode_S2CBlockEditResult m = do {
     w_u32 (eres_predicted_seq m);
     w_boolean (eres_accepted m);
     write_ivec3 (eres_pos m) }"

definition decode_S2CBlockEditResult :: "byte list \<Rightarrow> s2c_block_edit_result decoded" where
  "decode_S2CBlockEditResult = run_decoder (do {
     predicted_seq \<leftarrow> r_u32;
     accepted \<leftarrow> r_boolean;
     pos \<leftarrow> read_ivec3;
     finish \<lparr>eres_predicted_seq = predicted_seq, eres_accepted = accepted, eres_pos = pos\<rparr> })"

definition valid_S2CBlockEditResult :: "s2c_block_edit_result \<Rightarrow> bool" where [codec_defs]:
  "valid_S2CBlockEditResult m \<longleftrightarrow> True"

interpretation eres_codec: message_codec encode_S2CBlockEditResult decode_S2CBlockEditResult valid_S2CBlockEditResult
  unfolding decode_S2CBlockEditResult_def
  by (rule message_codecI)
    (simp add: codec_defs, simp add: codec_defs,
      (rule codec_steps field_reads field_readers | simp add: codec_defs)+)

section \<open>S2CBlockDamage\<close>

record s2c_block_damage =
  bdmg_pos :: ivec3
  bdmg_punches :: u16
  bdmg_revision :: u64

definition encode_S2CBlockDamage :: "s2c_block_damage \<Rightarrow> writer" where [codec_defs]:
  "encode_S2CBlockDamage m = do {
     write_ivec3 (bdmg_pos m);
     w_u16 (bdmg_punches m);
     w_u64 (bdmg_revision m) }"

definition decode_S2CBlockDamage :: "byte list \<Rightarrow> s2c_block_damage decoded" where
  "decode_S2CBlockDamage = run_decoder (do {
     pos \<leftarrow> read_ivec3;
     punches \<leftarrow> r_u16;
     revision \<leftarrow> r_u64;
     finish \<lparr>bdmg_pos = pos, bdmg_punches = punches, bdmg_revision = revision\<rparr> })"

definition valid_S2CBlockDamage :: "s2c_block_damage \<Rightarrow> bool" where [codec_defs]:
  "valid_S2CBlockDamage m \<longleftrightarrow> True"

interpretation bdmg_codec: message_codec encode_S2CBlockDamage decode_S2CBlockDamage valid_S2CBlockDamage
  unfolding decode_S2CBlockDamage_def
  by (rule message_codecI)
    (simp add: codec_defs, simp add: codec_defs,
      (rule codec_steps field_reads field_readers | simp add: codec_defs)+)

section \<open>C2SBlockBreakBegin\<close>

record c2s_block_break_begin =
  bbeg_pos :: ivec3
  bbeg_face :: ivec3

definition encode_C2SBlockBreakBegin :: "c2s_block_break_begin \<Rightarrow> writer" where [codec_defs]:
  "encode_C2SBlockBreakBegin m = do {
     write_ivec3 (bbeg_pos m);
     write_ivec3 (bbeg_face m) }"

definition decode_C2SBlockBreakBegin :: "byte list \<Rightarrow> c2s_block_break_begin decoded" where
  "decode_C2SBlockBreakBegin = run_decoder (do {
     pos \<leftarrow> read_ivec3;
     face \<leftarrow> read_ivec3;
     finish \<lparr>bbeg_pos = pos, bbeg_face = face\<rparr> })"

definition valid_C2SBlockBreakBegin :: "c2s_block_break_begin \<Rightarrow> bool" where [codec_defs]:
  "valid_C2SBlockBreakBegin m \<longleftrightarrow> True"

interpretation bbeg_codec: message_codec encode_C2SBlockBreakBegin decode_C2SBlockBreakBegin valid_C2SBlockBreakBegin
  unfolding decode_C2SBlockBreakBegin_def
  by (rule message_codecI)
    (simp add: codec_defs, simp add: codec_defs,
      (rule codec_steps field_reads field_readers | simp add: codec_defs)+)

section \<open>C2SBlockBreakStop\<close>

record c2s_block_break_stop =
  bstop_pos :: ivec3

definition encode_C2SBlockBreakStop :: "c2s_block_break_stop \<Rightarrow> writer" where [codec_defs]:
  "encode_C2SBlockBreakStop m = do {
     write_ivec3 (bstop_pos m) }"

definition decode_C2SBlockBreakStop :: "byte list \<Rightarrow> c2s_block_break_stop decoded" where
  "decode_C2SBlockBreakStop = run_decoder (do {
     pos \<leftarrow> read_ivec3;
     finish \<lparr>bstop_pos = pos\<rparr> })"

definition valid_C2SBlockBreakStop :: "c2s_block_break_stop \<Rightarrow> bool" where [codec_defs]:
  "valid_C2SBlockBreakStop m \<longleftrightarrow> True"

interpretation bstop_codec: message_codec encode_C2SBlockBreakStop decode_C2SBlockBreakStop valid_C2SBlockBreakStop
  unfolding decode_C2SBlockBreakStop_def
  by (rule message_codecI)
    (simp add: codec_defs, simp add: codec_defs,
      (rule codec_steps field_reads field_readers | simp add: codec_defs)+)

section \<open>S2CTimeOfDay\<close>

record s2c_time_of_day =
  tod_time_of_day :: u32

definition encode_S2CTimeOfDay :: "s2c_time_of_day \<Rightarrow> writer" where [codec_defs]:
  "encode_S2CTimeOfDay m = do {
     w_u32 (tod_time_of_day m) }"

definition decode_S2CTimeOfDay :: "byte list \<Rightarrow> s2c_time_of_day decoded" where
  "decode_S2CTimeOfDay = run_decoder (do {
     time_of_day \<leftarrow> r_u32;
     finish \<lparr>tod_time_of_day = time_of_day\<rparr> })"

definition valid_S2CTimeOfDay :: "s2c_time_of_day \<Rightarrow> bool" where [codec_defs]:
  "valid_S2CTimeOfDay m \<longleftrightarrow> True"

interpretation tod_codec: message_codec encode_S2CTimeOfDay decode_S2CTimeOfDay valid_S2CTimeOfDay
  unfolding decode_S2CTimeOfDay_def
  by (rule message_codecI)
    (simp add: codec_defs, simp add: codec_defs,
      (rule codec_steps field_reads field_readers | simp add: codec_defs)+)

end
