(* ===== verification/Entity_Messages.thy ===== *)
theory Entity_Messages
  imports World_Messages
begin

text \<open>
  The payloads of the simulation loop: \<open>C2SInputBatch\<close> and \<open>S2CKeybindRegistry\<close>
  (\<open>protocol/input.cpp\<close>) and the entity snapshot with its visual overrides
  (\<open>protocol/snapshot.cpp\<close>). Floats are bit patterns.
\<close>

record vec3f =
  vf_x :: f32
  vf_y :: f32
  vf_z :: f32

record vec3d =
  vd_x :: f64
  vd_y :: f64
  vd_z :: f64

record vec2f =
  v2_x :: f32
  v2_y :: f32

section \<open>C2SInputBatch\<close>

definition kMaxCmds :: nat where [codec_defs]:
  "kMaxCmds = 64"

record input_cmd =
  cmd_seq :: u32
  cmd_dt :: f32
  cmd_move :: vec3f
  cmd_yaw :: f32
  cmd_pitch :: f32
  cmd_buttons :: u8
  cmd_keybinds :: u32
  cmd_selected_slot :: u8

definition write_cmd :: "input_cmd \<Rightarrow> writer" where [codec_defs]:
  "write_cmd c = do {
     w_u32 (cmd_seq c);
     w_f32 (cmd_dt c);
     w_f32 (vf_x (cmd_move c));
     w_f32 (vf_y (cmd_move c));
     w_f32 (vf_z (cmd_move c));
     w_f32 (cmd_yaw c);
     w_f32 (cmd_pitch c);
     w_u8 (cmd_buttons c);
     w_u32 (cmd_keybinds c);
     w_u8 (cmd_selected_slot c) }"

definition read_cmd :: "input_cmd reader" where [codec_defs]:
  "read_cmd = do {
     seq \<leftarrow> r_u32;
     dt \<leftarrow> r_f32;
     x \<leftarrow> r_f32;
     y \<leftarrow> r_f32;
     z \<leftarrow> r_f32;
     yaw \<leftarrow> r_f32;
     pitch \<leftarrow> r_f32;
     buttons \<leftarrow> r_u8;
     keybinds \<leftarrow> r_u32;
     slot \<leftarrow> r_u8;
     State_Monad.return \<lparr>cmd_seq = seq, cmd_dt = dt, cmd_move = \<lparr>vf_x = x, vf_y = y, vf_z = z\<rparr>,
       cmd_yaw = yaw, cmd_pitch = pitch, cmd_buttons = buttons, cmd_keybinds = keybinds,
       cmd_selected_slot = slot\<rparr> }"

definition valid_input_cmd :: "input_cmd \<Rightarrow> bool" where [codec_defs]:
  "valid_input_cmd c \<longleftrightarrow> True"

interpretation cmd: field_codec write_cmd read_cmd "valid_input_cmd"
  by (unfold_locales)
    (simp add: codec_defs, simp add: codec_defs,
      (rule codec_steps field_reads field_readers | simp add: codec_defs)+)

declare cmd.write_appends [simp]
lemmas [field_reads] = cmd.read_write
lemmas [field_readers] = cmd.read_reader

record c2s_input_batch =
  batch_cmds :: "input_cmd list"

definition encode_C2SInputBatch :: "c2s_input_batch \<Rightarrow> writer" where [codec_defs]:
  "encode_C2SInputBatch m = do {
     w_varint (of_nat (length (batch_cmds m)));
     write_each write_cmd (batch_cmds m) }"

definition decode_C2SInputBatch :: "byte list \<Rightarrow> c2s_input_batch decoded" where
  "decode_C2SInputBatch = run_decoder (do {
     n \<leftarrow> r_varint;
     if unat n > kMaxCmds then State_Monad.return (Inl kLengthExceeded)
     else do {
       cmds \<leftarrow> read_loop (unat n) read_cmd;
       finish \<lparr>batch_cmds = cmds\<rparr> } })"

definition valid_C2SInputBatch :: "c2s_input_batch \<Rightarrow> bool" where [codec_defs]:
  "valid_C2SInputBatch m \<longleftrightarrow> length (batch_cmds m) \<le> kMaxCmds \<and>
     (\<forall>x \<in> set (batch_cmds m). valid_input_cmd x)"

interpretation batch_codec: message_codec encode_C2SInputBatch decode_C2SInputBatch valid_C2SInputBatch
  unfolding decode_C2SInputBatch_def
  by (rule message_codecI)
    (simp add: codec_defs, simp add: codec_defs,
      (rule codec_steps field_reads field_readers | simp add: codec_defs)+)

section \<open>S2CKeybindRegistry\<close>

definition kMaxKeybinds :: nat where [codec_defs]:
  "kMaxKeybinds = 32"

abbreviation valid_keybind_name :: "bstring \<Rightarrow> bool" where
  "valid_keybind_name s \<equiv> str_ok s"

record s2c_keybind_registry =
  keys_names :: "bstring list"

definition encode_S2CKeybindRegistry :: "s2c_keybind_registry \<Rightarrow> writer" where [codec_defs]:
  "encode_S2CKeybindRegistry m = do {
     w_varint (of_nat (length (keys_names m)));
     write_each w_string (keys_names m) }"

definition decode_S2CKeybindRegistry :: "byte list \<Rightarrow> s2c_keybind_registry decoded" where
  "decode_S2CKeybindRegistry = run_decoder (do {
     n \<leftarrow> r_varint;
     if unat n > kMaxKeybinds then State_Monad.return (Inl kLengthExceeded)
     else do {
       names \<leftarrow> read_loop (unat n) r_str;
       finish \<lparr>keys_names = names\<rparr> } })"

definition valid_S2CKeybindRegistry :: "s2c_keybind_registry \<Rightarrow> bool" where [codec_defs]:
  "valid_S2CKeybindRegistry m \<longleftrightarrow> length (keys_names m) \<le> kMaxKeybinds \<and>
     (\<forall>x \<in> set (keys_names m). valid_keybind_name x)"

interpretation keys_codec: message_codec encode_S2CKeybindRegistry decode_S2CKeybindRegistry valid_S2CKeybindRegistry
  unfolding decode_S2CKeybindRegistry_def
  by (rule message_codecI)
    (simp add: codec_defs, simp add: codec_defs,
      (rule codec_steps field_reads field_readers | simp add: codec_defs)+)

section \<open>Visual overrides\<close>

definition kMaxRecords :: nat where [codec_defs]:
  "kMaxRecords = 65536"

definition kMaxVisualOverrideClips :: nat where [codec_defs]:
  "kMaxVisualOverrideClips = 64"

record entity_visual_override =
  vo_texture :: "bstring option"
  vo_frame_width :: "u16 option"
  vo_frame_height :: "u16 option"
  vo_facings :: "u8 option"
  vo_origin_x :: "f32 option"
  vo_origin_y :: "f32 option"
  vo_mirror :: "bool option"
  vo_clips :: "entity_clip_def list option"

text \<open>
  \<open>a.has_value() && b.has_value()\<close> gates the pair: a half-set pair is written as absent.
\<close>

definition both :: "'a option \<Rightarrow> 'b option \<Rightarrow> ('a \<times> 'b) option" where
  "both a b = (case (a, b) of (Some x, Some y) \<Rightarrow> Some (x, y) | _ \<Rightarrow> None)"

definition w_pair :: "('a \<Rightarrow> writer) \<Rightarrow> ('b \<Rightarrow> writer) \<Rightarrow> 'a \<times> 'b \<Rightarrow> writer" where
  "w_pair f g p = do { f (fst p); g (snd p) }"

definition r_pair :: "'a reader \<Rightarrow> 'b reader \<Rightarrow> ('a \<times> 'b) reader" where
  "r_pair p q = do { x \<leftarrow> p; y \<leftarrow> q; State_Monad.return (x, y) }"

definition write_clips :: "entity_clip_def list \<Rightarrow> writer" where [codec_defs]:
  "write_clips cs = do { w_varint (of_nat (length cs)); write_each write_clip cs }"

text \<open>Over the cap the reader fails and returns the override built so far, without clips.\<close>

definition read_override_clips :: "entity_clip_def list option reader" where
  "read_override_clips = do {
     has \<leftarrow> r_boolean;
     if \<not> has then State_Monad.return None
     else do {
       n \<leftarrow> r_varint;
       if unat n > kMaxVisualOverrideClips
       then do { r_fail kLengthExceeded; State_Monad.return None }
       else do {
         clips \<leftarrow> read_loop (unat n) read_clip;
         State_Monad.return (Some clips) } } }"

definition write_visual_override :: "entity_visual_override \<Rightarrow> writer" where
  "write_visual_override v = do {
     w_opt w_string (vo_texture v);
     w_opt (w_pair w_u16 w_u16) (both (vo_frame_width v) (vo_frame_height v));
     w_opt w_u8 (vo_facings v);
     w_opt w_boolean (vo_mirror v);
     w_opt (w_pair w_f32 w_f32) (both (vo_origin_x v) (vo_origin_y v));
     w_opt write_clips (vo_clips v) }"

definition read_visual_override :: "entity_visual_override reader" where
  "read_visual_override = do {
     texture \<leftarrow> r_opt r_str;
     frame \<leftarrow> r_opt (r_pair r_u16 r_u16);
     facings \<leftarrow> r_opt r_u8;
     mirror \<leftarrow> r_opt r_boolean;
     origin \<leftarrow> r_opt (r_pair r_f32 r_f32);
     clips \<leftarrow> read_override_clips;
     State_Monad.return \<lparr>vo_texture = texture, vo_frame_width = map_option fst frame,
       vo_frame_height = map_option snd frame, vo_facings = facings,
       vo_origin_x = map_option fst origin, vo_origin_y = map_option snd origin,
       vo_mirror = mirror, vo_clips = clips\<rparr> }"

definition valid_clips :: "entity_clip_def list \<Rightarrow> bool" where
  "valid_clips cs \<longleftrightarrow> length cs \<le> kMaxVisualOverrideClips \<and>
     (\<forall>c \<in> set cs. valid_entity_clip_def c)"

definition valid_visual_override :: "entity_visual_override \<Rightarrow> bool" where
  "valid_visual_override v \<longleftrightarrow> pred_option (\<lambda>s. str_ok s) (vo_texture v) \<and>
     (vo_frame_width v = None \<longleftrightarrow> vo_frame_height v = None) \<and>
     (vo_origin_x v = None \<longleftrightarrow> vo_origin_y v = None) \<and>
     pred_option valid_clips (vo_clips v)"

lemma appends_pair [simp]:
  "appends (f x) \<Longrightarrow> appends (g y) \<Longrightarrow> appends (w_pair f g (x, y))"
  by (simp add: w_pair_def)

lemma reads_pair:
  assumes "appends (f x)" and "appends (g y)"
    and p: "reads p (run_writer (f x)) x" and q: "reads q (run_writer (g y)) y"
  shows "reads (r_pair p q) (run_writer (w_pair f g (x, y))) (x, y)"
  using reads_bind [OF p, of "\<lambda>x. do { y \<leftarrow> q; State_Monad.return (x, y) }", OF reads_bind_return [OF q]]
    assms(1,2) by (simp add: r_pair_def w_pair_def)

lemma reads_pair_bits [field_reads]:
  "reads (r_pair r_u16 r_u16) (run_writer (w_pair w_u16 w_u16 (x :: u16 \<times> u16))) x"
  "reads (r_pair r_f32 r_f32) (run_writer (w_pair w_f32 w_f32 (y :: f32 \<times> f32))) y"
  by (cases x, cases y, simp add: reads_pair primitive_reads)+

lemma appends_pair_bits [simp]:
  "appends (w_pair w_u16 w_u16 x)" "appends (w_pair w_f32 w_f32 y)"
  by (cases x, cases y, simp)+

lemma reader_ok_pair: "reader_ok p Y \<Longrightarrow> reader_ok q Z \<Longrightarrow> reader_ok (r_pair p q) UNIV"
  unfolding r_pair_def by (auto intro!: reader_ok_bind reader_ok_return)

lemma both_fst_snd [simp]:
  "(a = None \<longleftrightarrow> b = None) \<Longrightarrow> map_option fst (both a b) = a"
  "(a = None \<longleftrightarrow> b = None) \<Longrightarrow> map_option snd (both a b) = b"
  by (auto simp: both_def split: option.splits)

lemma appends_clips [simp]: "appends (write_clips cs)"
  by (simp add: write_clips_def)

lemma reads_override_clips:
  assumes "pred_option valid_clips v"
  shows "reads read_override_clips (run_writer (w_opt write_clips v)) v"
proof (cases v)
  case None
  have "reads read_override_clips (run_writer (w_boolean False)) None"
    unfolding read_override_clips_def
    by (rule reads_bind_last [OF reads_boolean]) (simp add: reads_return)
  then show ?thesis by (simp add: None w_opt_def)
next
  case (Some cs)
  with assms have "reads read_override_clips
      (run_writer (w_boolean True) @ run_writer (w_varint (of_nat (length cs))) @
       run_writer (write_each write_clip cs)) (Some cs)"
    unfolding read_override_clips_def
    by (intro reads_bind [OF reads_boolean] )
      (simp add: valid_clips_def kMaxVisualOverrideClips_def,
        (rule codec_steps field_reads | simp add: valid_clips_def kMaxVisualOverrideClips_def)+)
  then show ?thesis by (simp add: Some w_opt_def write_clips_def)
qed

lemma reader_ok_override_clips: "reader_ok read_override_clips UNIV"
  unfolding read_override_clips_def by (rule reader_intros field_readers UNIV_I | simp)+

lemma valid_visual_overrideD:
  assumes "valid_visual_override v"
  shows "vo_texture v = Some s \<Longrightarrow> str_ok s"
    and "vo_frame_width v = None \<longleftrightarrow> vo_frame_height v = None"
    and "vo_origin_x v = None \<longleftrightarrow> vo_origin_y v = None"
    and "pred_option valid_clips (vo_clips v)"
  using assms by (auto simp: valid_visual_override_def)

interpretation visual_override: field_codec write_visual_override read_visual_override
    valid_visual_override
proof (unfold_locales, goal_cases)
  case (2 v)
  note ok = valid_visual_overrideD [OF 2]
  show ?case
    unfolding write_visual_override_def read_visual_override_def
    by simp
      (rule reads_bind reads_bind_last reads_opt reads_override_clips primitive_reads field_reads
        reads_return_eq | simp add: ok)+
next
  case 3
  show ?case unfolding read_visual_override_def
    by (rule reader_intros reader_ok_opt reader_ok_pair reader_ok_override_clips UNIV_I)+
qed (simp add: write_visual_override_def)

declare visual_override.write_appends [simp]

section \<open>S2CEntitySnapshot\<close>

record entity_record =
  er_net_id :: net_id
  er_kind :: entity_kind_id
  er_pos :: vec3d
  er_rot :: vec2f
  er_vel :: vec3f
  er_flags :: u8
  er_visual_override :: "entity_visual_override option"
  er_item :: "u16 option"

definition write_record :: "entity_record \<Rightarrow> writer" where
  "write_record r = do {
     w_u32 (er_net_id r);
     w_u16 (er_kind r);
     w_f64 (vd_x (er_pos r));
     w_f64 (vd_y (er_pos r));
     w_f64 (vd_z (er_pos r));
     w_f32 (v2_x (er_rot r));
     w_f32 (v2_y (er_rot r));
     w_f32 (vf_x (er_vel r));
     w_f32 (vf_y (er_vel r));
     w_f32 (vf_z (er_vel r));
     w_u8 (er_flags r);
     w_opt write_visual_override (er_visual_override r);
     w_opt w_u16 (er_item r) }"

definition read_record :: "entity_record reader" where
  "read_record = do {
     net_id \<leftarrow> r_u32;
     kind \<leftarrow> r_u16;
     px \<leftarrow> r_f64;
     py \<leftarrow> r_f64;
     pz \<leftarrow> r_f64;
     rx \<leftarrow> r_f32;
     ry \<leftarrow> r_f32;
     vx \<leftarrow> r_f32;
     vy \<leftarrow> r_f32;
     vz \<leftarrow> r_f32;
     flags \<leftarrow> r_u8;
     visual_override \<leftarrow> r_opt read_visual_override;
     item \<leftarrow> r_opt r_u16;
     State_Monad.return \<lparr>er_net_id = net_id, er_kind = kind,
       er_pos = \<lparr>vd_x = px, vd_y = py, vd_z = pz\<rparr>, er_rot = \<lparr>v2_x = rx, v2_y = ry\<rparr>,
       er_vel = \<lparr>vf_x = vx, vf_y = vy, vf_z = vz\<rparr>, er_flags = flags,
       er_visual_override = visual_override, er_item = item\<rparr> }"

definition valid_record :: "entity_record \<Rightarrow> bool" where
  "valid_record r \<longleftrightarrow> pred_option valid_visual_override (er_visual_override r)"

definition default_record :: entity_record where
  "default_record = \<lparr>er_net_id = 0, er_kind = 0, er_pos = \<lparr>vd_x = 0, vd_y = 0, vd_z = 0\<rparr>,
     er_rot = \<lparr>v2_x = 0, v2_y = 0\<rparr>, er_vel = \<lparr>vf_x = 0, vf_y = 0, vf_z = 0\<rparr>, er_flags = 0,
     er_visual_override = None, er_item = None\<rparr>"

lemma valid_recordD: "valid_record r \<Longrightarrow> er_visual_override r = Some v \<Longrightarrow> valid_visual_override v"
  by (simp add: valid_record_def)

interpretation entity_record: field_codec write_record read_record valid_record
proof (unfold_locales, goal_cases)
  case (2 r)
  show ?case
    unfolding write_record_def read_record_def
    by simp
      (rule reads_bind reads_bind_last reads_opt visual_override.read_write primitive_reads
        reads_return_eq valid_recordD [OF 2] | simp)+
next
  case 3
  show ?case unfolding read_record_def
    by (rule reader_intros reader_ok_opt visual_override.read_reader UNIV_I)+
qed (simp add: write_record_def)

declare entity_record.write_appends [simp]

record s2c_entity_snapshot =
  snap_server_tick :: u32
  snap_last_acked_input_seq :: u32
  snap_entered :: "entity_record list"
  snap_updated :: "entity_record list"
  snap_removed :: "net_id list"
  snap_has_local :: bool
  snap_local :: entity_record

definition encode_S2CEntitySnapshot :: "s2c_entity_snapshot \<Rightarrow> writer" where
  "encode_S2CEntitySnapshot m = do {
     w_u32 (snap_server_tick m);
     w_u32 (snap_last_acked_input_seq m);
     w_varint (of_nat (length (snap_entered m)));
     write_each write_record (snap_entered m);
     w_varint (of_nat (length (snap_updated m)));
     write_each write_record (snap_updated m);
     w_varint (of_nat (length (snap_removed m)));
     write_each w_u32 (snap_removed m);
     w_boolean (snap_has_local m);
     (if snap_has_local m then write_record (snap_local m) else State_Monad.return ()) }"

definition decode_S2CEntitySnapshot :: "byte list \<Rightarrow> s2c_entity_snapshot decoded" where
  "decode_S2CEntitySnapshot = run_decoder (do {
     server_tick \<leftarrow> r_u32;
     last_acked \<leftarrow> r_u32;
     n_entered \<leftarrow> r_varint;
     if unat n_entered > kMaxRecords then State_Monad.return (Inl kLengthExceeded)
     else do {
       entered \<leftarrow> read_loop (unat n_entered) read_record;
       n_updated \<leftarrow> r_varint;
       if unat n_updated > kMaxRecords then State_Monad.return (Inl kLengthExceeded)
       else do {
         updated \<leftarrow> read_loop (unat n_updated) read_record;
         n_removed \<leftarrow> r_varint;
         if unat n_removed > kMaxRecords then State_Monad.return (Inl kLengthExceeded)
         else do {
           removed \<leftarrow> read_loop (unat n_removed) r_u32;
           has_local \<leftarrow> r_boolean;
           failed \<leftarrow> r_failed;
           local \<leftarrow> (if has_local \<and> \<not> failed then read_record
                    else State_Monad.return default_record);
           finish \<lparr>snap_server_tick = server_tick, snap_last_acked_input_seq = last_acked,
             snap_entered = entered, snap_updated = updated, snap_removed = removed,
             snap_has_local = has_local, snap_local = local\<rparr> } } } })"

definition valid_S2CEntitySnapshot :: "s2c_entity_snapshot \<Rightarrow> bool" where
  "valid_S2CEntitySnapshot m \<longleftrightarrow>
     length (snap_entered m) \<le> kMaxRecords \<and> (\<forall>r \<in> set (snap_entered m). valid_record r) \<and>
     length (snap_updated m) \<le> kMaxRecords \<and> (\<forall>r \<in> set (snap_updated m). valid_record r) \<and>
     length (snap_removed m) \<le> kMaxRecords \<and>
     (if snap_has_local m then valid_record (snap_local m) else snap_local m = default_record)"

definition write_local :: "bool \<Rightarrow> entity_record \<Rightarrow> writer" where
  "write_local has r = (if has then write_record r else State_Monad.return ())"

lemma appends_local [simp]: "appends (write_local has r)"
  by (simp add: write_local_def)

lemma reads_local:
  assumes "if has then valid_record r else r = default_record"
  shows "reads (if has \<and> \<not> False then read_record else State_Monad.return default_record)
    (run_writer (write_local has r)) r"
  using assms by (auto simp: write_local_def intro: entity_record.read_write reads_return)

interpretation snapshot_codec: message_codec encode_S2CEntitySnapshot decode_S2CEntitySnapshot
    valid_S2CEntitySnapshot
  unfolding decode_S2CEntitySnapshot_def
proof (rule message_codecI, goal_cases)
  case (1 m)
  show ?case by (simp add: encode_S2CEntitySnapshot_def)
next
  case (2 m)
  then show ?case
    unfolding encode_S2CEntitySnapshot_def write_local_def [symmetric]
    by (simp add: valid_S2CEntitySnapshot_def kMaxRecords_def)
      (rule decodes_finish decodes_failed decodes_if_not decodes_bind decodes_bind_last
        primitive_reads reads_loop entity_record.read_write reads_local
       | simp add: kMaxRecords_def)+
next
  case 3
  show ?case
    by (rule decoder_intros reader_intros entity_record.read_reader | simp)+
qed

end
