(* ===== verification/Session_Messages.thy ===== *)
theory Session_Messages
  imports World_Messages
begin

text \<open>
  The chat, UI and player-list payloads of \<open>protocol/chat.cpp\<close>, the inventory payloads of
  \<open>protocol/inventory.cpp\<close> and the asset sync payloads of \<open>protocol/assetsync.cpp\<close>.
\<close>

section \<open>C2SChat\<close>

record c2s_chat =
  cchat_text :: bstring

definition encode_C2SChat :: "c2s_chat \<Rightarrow> writer" where [codec_defs]:
  "encode_C2SChat m = do {
     w_string (cchat_text m) }"

definition decode_C2SChat :: "byte list \<Rightarrow> c2s_chat decoded" where
  "decode_C2SChat = run_decoder (do {
     text \<leftarrow> r_str;
     finish \<lparr>cchat_text = text\<rparr> })"

definition valid_C2SChat :: "c2s_chat \<Rightarrow> bool" where [codec_defs]:
  "valid_C2SChat m \<longleftrightarrow> str_ok (cchat_text m)"

interpretation cchat_codec: message_codec encode_C2SChat decode_C2SChat valid_C2SChat
  unfolding decode_C2SChat_def
  by (rule message_codecI)
    (simp add: codec_defs, simp add: codec_defs,
      (rule codec_steps field_reads field_readers | simp add: codec_defs)+)

section \<open>S2CChat\<close>

record s2c_chat =
  schat_text :: bstring

definition encode_S2CChat :: "s2c_chat \<Rightarrow> writer" where [codec_defs]:
  "encode_S2CChat m = do {
     w_string (schat_text m) }"

definition decode_S2CChat :: "byte list \<Rightarrow> s2c_chat decoded" where
  "decode_S2CChat = run_decoder (do {
     text \<leftarrow> r_str;
     finish \<lparr>schat_text = text\<rparr> })"

definition valid_S2CChat :: "s2c_chat \<Rightarrow> bool" where [codec_defs]:
  "valid_S2CChat m \<longleftrightarrow> str_ok (schat_text m)"

interpretation schat_codec: message_codec encode_S2CChat decode_S2CChat valid_S2CChat
  unfolding decode_S2CChat_def
  by (rule message_codecI)
    (simp add: codec_defs, simp add: codec_defs,
      (rule codec_steps field_reads field_readers | simp add: codec_defs)+)

section \<open>S2COpenUi\<close>

record s2c_open_ui =
  oui_ui_name :: bstring
  oui_ctx_json :: bstring

definition encode_S2COpenUi :: "s2c_open_ui \<Rightarrow> writer" where [codec_defs]:
  "encode_S2COpenUi m = do {
     w_string (oui_ui_name m);
     w_string (oui_ctx_json m) }"

definition decode_S2COpenUi :: "byte list \<Rightarrow> s2c_open_ui decoded" where
  "decode_S2COpenUi = run_decoder (do {
     ui_name \<leftarrow> r_str;
     ctx_json \<leftarrow> r_str;
     finish \<lparr>oui_ui_name = ui_name, oui_ctx_json = ctx_json\<rparr> })"

definition valid_S2COpenUi :: "s2c_open_ui \<Rightarrow> bool" where [codec_defs]:
  "valid_S2COpenUi m \<longleftrightarrow> str_ok (oui_ui_name m) \<and>
     str_ok (oui_ctx_json m)"

interpretation oui_codec: message_codec encode_S2COpenUi decode_S2COpenUi valid_S2COpenUi
  unfolding decode_S2COpenUi_def
  by (rule message_codecI)
    (simp add: codec_defs, simp add: codec_defs,
      (rule codec_steps field_reads field_readers | simp add: codec_defs)+)

section \<open>C2SUiEvent\<close>

record c2s_ui_event =
  uie_ui_name :: bstring
  uie_widget_id :: bstring
  uie_event_kind :: bstring
  uie_value_json :: bstring

definition encode_C2SUiEvent :: "c2s_ui_event \<Rightarrow> writer" where [codec_defs]:
  "encode_C2SUiEvent m = do {
     w_string (uie_ui_name m);
     w_string (uie_widget_id m);
     w_string (uie_event_kind m);
     w_string (uie_value_json m) }"

definition decode_C2SUiEvent :: "byte list \<Rightarrow> c2s_ui_event decoded" where
  "decode_C2SUiEvent = run_decoder (do {
     ui_name \<leftarrow> r_str;
     widget_id \<leftarrow> r_str;
     event_kind \<leftarrow> r_str;
     value_json \<leftarrow> r_str;
     finish \<lparr>uie_ui_name = ui_name, uie_widget_id = widget_id, uie_event_kind = event_kind,
             uie_value_json = value_json\<rparr> })"

definition valid_C2SUiEvent :: "c2s_ui_event \<Rightarrow> bool" where [codec_defs]:
  "valid_C2SUiEvent m \<longleftrightarrow> str_ok (uie_ui_name m) \<and>
     str_ok (uie_widget_id m) \<and>
     str_ok (uie_event_kind m) \<and>
     str_ok (uie_value_json m)"

interpretation uie_codec: message_codec encode_C2SUiEvent decode_C2SUiEvent valid_C2SUiEvent
  unfolding decode_C2SUiEvent_def
  by (rule message_codecI)
    (simp add: codec_defs, simp add: codec_defs,
      (rule codec_steps field_reads field_readers | simp add: codec_defs)+)

section \<open>S2CPlayerJoin\<close>

record s2c_player_join =
  pjoin_net_id :: u32
  pjoin_name :: bstring

definition encode_S2CPlayerJoin :: "s2c_player_join \<Rightarrow> writer" where [codec_defs]:
  "encode_S2CPlayerJoin m = do {
     w_u32 (pjoin_net_id m);
     w_string (pjoin_name m) }"

definition decode_S2CPlayerJoin :: "byte list \<Rightarrow> s2c_player_join decoded" where
  "decode_S2CPlayerJoin = run_decoder (do {
     net_id \<leftarrow> r_u32;
     name \<leftarrow> r_str;
     finish \<lparr>pjoin_net_id = net_id, pjoin_name = name\<rparr> })"

definition valid_S2CPlayerJoin :: "s2c_player_join \<Rightarrow> bool" where [codec_defs]:
  "valid_S2CPlayerJoin m \<longleftrightarrow> str_ok (pjoin_name m)"

interpretation pjoin_codec: message_codec encode_S2CPlayerJoin decode_S2CPlayerJoin valid_S2CPlayerJoin
  unfolding decode_S2CPlayerJoin_def
  by (rule message_codecI)
    (simp add: codec_defs, simp add: codec_defs,
      (rule codec_steps field_reads field_readers | simp add: codec_defs)+)

section \<open>S2CPlayerLeave\<close>

record s2c_player_leave =
  pleave_net_id :: u32

definition encode_S2CPlayerLeave :: "s2c_player_leave \<Rightarrow> writer" where [codec_defs]:
  "encode_S2CPlayerLeave m = do {
     w_u32 (pleave_net_id m) }"

definition decode_S2CPlayerLeave :: "byte list \<Rightarrow> s2c_player_leave decoded" where
  "decode_S2CPlayerLeave = run_decoder (do {
     net_id \<leftarrow> r_u32;
     finish \<lparr>pleave_net_id = net_id\<rparr> })"

definition valid_S2CPlayerLeave :: "s2c_player_leave \<Rightarrow> bool" where [codec_defs]:
  "valid_S2CPlayerLeave m \<longleftrightarrow> True"

interpretation pleave_codec: message_codec encode_S2CPlayerLeave decode_S2CPlayerLeave valid_S2CPlayerLeave
  unfolding decode_S2CPlayerLeave_def
  by (rule message_codecI)
    (simp add: codec_defs, simp add: codec_defs,
      (rule codec_steps field_reads field_readers | simp add: codec_defs)+)

section \<open>S2CPlayerList\<close>

definition kMaxPlayerListEntries :: nat where [codec_defs]:
  "kMaxPlayerListEntries = 4096"

record player_list_entry =
  ple_net_id :: u32
  ple_name :: bstring

definition write_player :: "player_list_entry \<Rightarrow> writer" where [codec_defs]:
  "write_player m = do {
     w_u32 (ple_net_id m);
     w_string (ple_name m) }"

definition read_player :: "player_list_entry reader" where [codec_defs]:
  "read_player = do {
     net_id \<leftarrow> r_u32;
     name \<leftarrow> r_str;
     State_Monad.return \<lparr>ple_net_id = net_id, ple_name = name\<rparr> }"

definition valid_player_list_entry :: "player_list_entry \<Rightarrow> bool" where [codec_defs]:
  "valid_player_list_entry m \<longleftrightarrow> str_ok (ple_name m)"

interpretation player: field_codec write_player read_player "valid_player_list_entry"
  by (unfold_locales)
    (simp add: codec_defs, simp add: codec_defs,
      (rule codec_steps field_reads field_readers | simp add: codec_defs)+)

declare player.write_appends [simp]
lemmas [field_reads] = player.read_write
lemmas [field_readers] = player.read_reader

record s2c_player_list =
  plist_players :: "player_list_entry list"

definition encode_S2CPlayerList :: "s2c_player_list \<Rightarrow> writer" where [codec_defs]:
  "encode_S2CPlayerList m = do {
     w_varint (of_nat (length (plist_players m)));
     write_each write_player (plist_players m) }"

definition decode_S2CPlayerList :: "byte list \<Rightarrow> s2c_player_list decoded" where
  "decode_S2CPlayerList = run_decoder (do {
     n \<leftarrow> r_varint;
     if unat n > kMaxPlayerListEntries then State_Monad.return (Inl kLengthExceeded)
     else do {
       players \<leftarrow> read_loop (unat n) read_player;
       finish \<lparr>plist_players = players\<rparr> } })"

definition valid_S2CPlayerList :: "s2c_player_list \<Rightarrow> bool" where [codec_defs]:
  "valid_S2CPlayerList m \<longleftrightarrow> length (plist_players m) \<le> kMaxPlayerListEntries \<and>
     (\<forall>x \<in> set (plist_players m). valid_player_list_entry x)"

interpretation plist_codec: message_codec encode_S2CPlayerList decode_S2CPlayerList valid_S2CPlayerList
  unfolding decode_S2CPlayerList_def
  by (rule message_codecI)
    (simp add: codec_defs, simp add: codec_defs,
      (rule codec_steps field_reads field_readers | simp add: codec_defs)+)

section \<open>S2CInventory\<close>

definition kMaxInventorySlots :: nat where [codec_defs]:
  "kMaxInventorySlots = 4096"

record inventory_slot =
  slot_item :: u16
  slot_count :: u16

definition write_slot :: "inventory_slot \<Rightarrow> writer" where [codec_defs]:
  "write_slot m = do {
     w_u16 (slot_item m);
     w_u16 (slot_count m) }"

definition read_slot :: "inventory_slot reader" where [codec_defs]:
  "read_slot = do {
     item \<leftarrow> r_u16;
     count \<leftarrow> r_u16;
     State_Monad.return \<lparr>slot_item = item, slot_count = count\<rparr> }"

definition valid_inventory_slot :: "inventory_slot \<Rightarrow> bool" where [codec_defs]:
  "valid_inventory_slot m \<longleftrightarrow> True"

interpretation inventory_slot_wire: field_codec write_slot read_slot "valid_inventory_slot"
  by (unfold_locales)
    (simp add: codec_defs, simp add: codec_defs,
      (rule codec_steps field_reads field_readers | simp add: codec_defs)+)

declare inventory_slot_wire.write_appends [simp]
lemmas [field_reads] = inventory_slot_wire.read_write
lemmas [field_readers] = inventory_slot_wire.read_reader

record s2c_inventory =
  inv_slots :: "inventory_slot list"

definition encode_S2CInventory :: "s2c_inventory \<Rightarrow> writer" where [codec_defs]:
  "encode_S2CInventory m = do {
     w_varint (of_nat (length (inv_slots m)));
     write_each write_slot (inv_slots m) }"

definition decode_S2CInventory :: "byte list \<Rightarrow> s2c_inventory decoded" where
  "decode_S2CInventory = run_decoder (do {
     n \<leftarrow> r_varint;
     if unat n > kMaxInventorySlots then State_Monad.return (Inl kLengthExceeded)
     else do {
       slots \<leftarrow> read_loop (unat n) read_slot;
       finish \<lparr>inv_slots = slots\<rparr> } })"

definition valid_S2CInventory :: "s2c_inventory \<Rightarrow> bool" where [codec_defs]:
  "valid_S2CInventory m \<longleftrightarrow> length (inv_slots m) \<le> kMaxInventorySlots \<and>
     (\<forall>x \<in> set (inv_slots m). valid_inventory_slot x)"

interpretation inv_codec: message_codec encode_S2CInventory decode_S2CInventory valid_S2CInventory
  unfolding decode_S2CInventory_def
  by (rule message_codecI)
    (simp add: codec_defs, simp add: codec_defs,
      (rule codec_steps field_reads field_readers | simp add: codec_defs)+)

section \<open>S2CPlayerStatus\<close>

record s2c_player_status =
  stat_health :: f32
  stat_max_health :: f32
  stat_hunger :: f32
  stat_max_hunger :: f32

definition encode_S2CPlayerStatus :: "s2c_player_status \<Rightarrow> writer" where [codec_defs]:
  "encode_S2CPlayerStatus m = do {
     w_f32 (stat_health m);
     w_f32 (stat_max_health m);
     w_f32 (stat_hunger m);
     w_f32 (stat_max_hunger m) }"

definition decode_S2CPlayerStatus :: "byte list \<Rightarrow> s2c_player_status decoded" where
  "decode_S2CPlayerStatus = run_decoder (do {
     health \<leftarrow> r_f32;
     max_health \<leftarrow> r_f32;
     hunger \<leftarrow> r_f32;
     max_hunger \<leftarrow> r_f32;
     finish \<lparr>stat_health = health, stat_max_health = max_health, stat_hunger = hunger,
             stat_max_hunger = max_hunger\<rparr> })"

definition valid_S2CPlayerStatus :: "s2c_player_status \<Rightarrow> bool" where [codec_defs]:
  "valid_S2CPlayerStatus m \<longleftrightarrow> True"

interpretation stat_codec: message_codec encode_S2CPlayerStatus decode_S2CPlayerStatus valid_S2CPlayerStatus
  unfolding decode_S2CPlayerStatus_def
  by (rule message_codecI)
    (simp add: codec_defs, simp add: codec_defs,
      (rule codec_steps field_reads field_readers | simp add: codec_defs)+)

definition kMaxManifestEntries :: nat where [codec_defs]:
  "kMaxManifestEntries = 65536"

definition kMaxRequestedHashes :: nat where [codec_defs]:
  "kMaxRequestedHashes = 65536"

definition kMaxAssetChunkBytes :: nat where [codec_defs]:
  "kMaxAssetChunkBytes = 1024 * 1024"

section \<open>C2SAssetManifestRequest\<close>

record c2s_asset_manifest_request =
  amreq_known_manifest_hash :: asset_hash

definition encode_C2SAssetManifestRequest :: "c2s_asset_manifest_request \<Rightarrow> writer" where [codec_defs]:
  "encode_C2SAssetManifestRequest m = do {
     write_hash (amreq_known_manifest_hash m) }"

definition decode_C2SAssetManifestRequest :: "byte list \<Rightarrow> c2s_asset_manifest_request decoded" where
  "decode_C2SAssetManifestRequest = run_decoder (do {
     known_manifest_hash \<leftarrow> read_hash;
     finish \<lparr>amreq_known_manifest_hash = known_manifest_hash\<rparr> })"

definition valid_C2SAssetManifestRequest :: "c2s_asset_manifest_request \<Rightarrow> bool" where [codec_defs]:
  "valid_C2SAssetManifestRequest m \<longleftrightarrow> True"

interpretation amreq_codec: message_codec encode_C2SAssetManifestRequest decode_C2SAssetManifestRequest valid_C2SAssetManifestRequest
  unfolding decode_C2SAssetManifestRequest_def
  by (rule message_codecI)
    (simp add: codec_defs, simp add: codec_defs,
      (rule codec_steps field_reads field_readers | simp add: codec_defs)+)

section \<open>S2CAssetManifest\<close>

datatype asset_kind = kScript | kTexture | kModel | kUi | kSound | kData | kKindOther u8

definition asset_kind_of :: "u8 \<Rightarrow> asset_kind" where
  "asset_kind_of v = (if v = 0 then kScript else if v = 1 then kTexture else if v = 2 then kModel
     else if v = 3 then kUi else if v = 4 then kSound else if v = 5 then kData else kKindOther v)"

primrec asset_kind_value :: "asset_kind \<Rightarrow> u8" where
  "asset_kind_value kScript = 0"
| "asset_kind_value kTexture = 1"
| "asset_kind_value kModel = 2"
| "asset_kind_value kUi = 3"
| "asset_kind_value kSound = 4"
| "asset_kind_value kData = 5"
| "asset_kind_value (kKindOther v) = v"

definition valid_asset_kind :: "asset_kind \<Rightarrow> bool" where
  "valid_asset_kind k \<longleftrightarrow> asset_kind_value k \<le> 5"

record asset_entry_record =
  aer_path :: bstring
  aer_hash :: asset_hash
  aer_size :: u64
  aer_kind :: asset_kind

definition write_asset_entry :: "asset_entry_record \<Rightarrow> writer" where [codec_defs]:
  "write_asset_entry e = do {
     w_string (aer_path e);
     write_hash (aer_hash e);
     w_u64 (aer_size e);
     w_u8 (asset_kind_value (aer_kind e)) }"

definition read_asset_entry :: "asset_entry_record reader" where [codec_defs]:
  "read_asset_entry = do {
     path \<leftarrow> r_str;
     hash \<leftarrow> read_hash;
     size \<leftarrow> r_u64;
     kind \<leftarrow> r_u8;
     failed \<leftarrow> r_failed;
     (if \<not> failed \<and> \<not> valid_asset_kind (asset_kind_of kind)
      then r_fail kBadEnum else State_Monad.return ());
     State_Monad.return \<lparr>aer_path = path, aer_hash = hash, aer_size = size,
       aer_kind = asset_kind_of kind\<rparr> }"

text \<open>A named enumerator: \<open>kKindOther\<close> holds only values that name none.\<close>

definition named_kind :: "asset_kind \<Rightarrow> bool" where
  "named_kind k \<longleftrightarrow> (\<forall>v. k \<noteq> kKindOther v)"

definition valid_asset_entry :: "asset_entry_record \<Rightarrow> bool" where [codec_defs]:
  "valid_asset_entry e \<longleftrightarrow> str_ok (aer_path e) \<and> named_kind (aer_kind e)"

lemma asset_kind_of_value [simp]:
  "named_kind k \<Longrightarrow> asset_kind_of (asset_kind_value k) = k"
  "named_kind k \<Longrightarrow> valid_asset_kind k"
  by (cases k; simp add: named_kind_def asset_kind_of_def valid_asset_kind_def)+

interpretation asset_entry: field_codec write_asset_entry read_asset_entry "valid_asset_entry"
  by (unfold_locales)
    (simp add: codec_defs, simp add: codec_defs,
      (rule codec_steps field_reads field_readers | simp add: codec_defs)+)

declare asset_entry.write_appends [simp]
lemmas [field_reads] = asset_entry.read_write
lemmas [field_readers] = asset_entry.read_reader

record s2c_asset_manifest =
  aman_manifest_hash :: asset_hash
  aman_total_bytes :: u64
  aman_entries :: "asset_entry_record list"

definition encode_S2CAssetManifest :: "s2c_asset_manifest \<Rightarrow> writer" where [codec_defs]:
  "encode_S2CAssetManifest m = do {
     write_hash (aman_manifest_hash m);
     w_u64 (aman_total_bytes m);
     w_varint (of_nat (length (aman_entries m)));
     write_each write_asset_entry (aman_entries m) }"

definition decode_S2CAssetManifest :: "byte list \<Rightarrow> s2c_asset_manifest decoded" where
  "decode_S2CAssetManifest = run_decoder (do {
     manifest_hash \<leftarrow> read_hash;
     total_bytes \<leftarrow> r_u64;
     n \<leftarrow> r_varint;
     if unat n > kMaxManifestEntries then State_Monad.return (Inl kLengthExceeded)
     else do {
       entries \<leftarrow> read_loop (unat n) read_asset_entry;
       finish \<lparr>aman_manifest_hash = manifest_hash, aman_total_bytes = total_bytes,
               aman_entries = entries\<rparr> } })"

definition valid_S2CAssetManifest :: "s2c_asset_manifest \<Rightarrow> bool" where [codec_defs]:
  "valid_S2CAssetManifest m \<longleftrightarrow> length (aman_entries m) \<le> kMaxManifestEntries \<and>
     (\<forall>e \<in> set (aman_entries m). valid_asset_entry e)"

interpretation aman_codec: message_codec encode_S2CAssetManifest decode_S2CAssetManifest valid_S2CAssetManifest
  unfolding decode_S2CAssetManifest_def
  by (rule message_codecI)
    (simp add: codec_defs, simp add: codec_defs,
      (rule codec_steps field_reads field_readers | simp add: codec_defs)+)

section \<open>C2SAssetRequest\<close>

abbreviation any_hash :: "asset_hash \<Rightarrow> bool" where
  "any_hash h \<equiv> True"

record c2s_asset_request =
  areq_missing :: "asset_hash list"

definition encode_C2SAssetRequest :: "c2s_asset_request \<Rightarrow> writer" where [codec_defs]:
  "encode_C2SAssetRequest m = do {
     w_varint (of_nat (length (areq_missing m)));
     write_each write_hash (areq_missing m) }"

definition decode_C2SAssetRequest :: "byte list \<Rightarrow> c2s_asset_request decoded" where
  "decode_C2SAssetRequest = run_decoder (do {
     n \<leftarrow> r_varint;
     if unat n > kMaxRequestedHashes then State_Monad.return (Inl kLengthExceeded)
     else do {
       missing \<leftarrow> read_loop (unat n) read_hash;
       finish \<lparr>areq_missing = missing\<rparr> } })"

definition valid_C2SAssetRequest :: "c2s_asset_request \<Rightarrow> bool" where [codec_defs]:
  "valid_C2SAssetRequest m \<longleftrightarrow> length (areq_missing m) \<le> kMaxRequestedHashes \<and>
     (\<forall>x \<in> set (areq_missing m). any_hash x)"

interpretation areq_codec: message_codec encode_C2SAssetRequest decode_C2SAssetRequest valid_C2SAssetRequest
  unfolding decode_C2SAssetRequest_def
  by (rule message_codecI)
    (simp add: codec_defs, simp add: codec_defs,
      (rule codec_steps field_reads field_readers | simp add: codec_defs)+)

section \<open>S2CAssetData\<close>

record s2c_asset_data =
  adat_hash :: asset_hash
  adat_seq :: u32
  adat_total_chunks :: u32
  adat_bytes :: "byte list"

definition encode_S2CAssetData :: "s2c_asset_data \<Rightarrow> writer" where [codec_defs]:
  "encode_S2CAssetData m = do {
     write_hash (adat_hash m);
     w_u32 (adat_seq m);
     w_u32 (adat_total_chunks m);
     w_varint (of_nat (length (adat_bytes m)));
     w_bytes (adat_bytes m) }"

definition decode_S2CAssetData :: "byte list \<Rightarrow> s2c_asset_data decoded" where
  "decode_S2CAssetData = run_decoder (do {
     hash \<leftarrow> read_hash;
     seq \<leftarrow> r_u32;
     total_chunks \<leftarrow> r_u32;
     len \<leftarrow> r_varint;
     if unat len > kMaxAssetChunkBytes then State_Monad.return (Inl kLengthExceeded)
     else do {
       b \<leftarrow> r_bytes (unat len);
       failed \<leftarrow> r_failed;
       finish \<lparr>adat_hash = hash, adat_seq = seq, adat_total_chunks = total_chunks,
               adat_bytes = (if failed then [] else b)\<rparr> } })"

definition valid_S2CAssetData :: "s2c_asset_data \<Rightarrow> bool" where [codec_defs]:
  "valid_S2CAssetData m \<longleftrightarrow> length (adat_bytes m) \<le> kMaxAssetChunkBytes"

interpretation adat_codec: message_codec encode_S2CAssetData decode_S2CAssetData valid_S2CAssetData
  unfolding decode_S2CAssetData_def
  by (rule message_codecI)
    (simp add: codec_defs, simp add: codec_defs,
      (rule codec_steps reads_bytes field_reads field_readers | simp add: codec_defs)+)

end
