(* ===== verification/Decoder_Bounds.thy ===== *)
theory Decoder_Bounds
  imports Handshake_Messages World_Messages Entity_Messages Session_Messages
begin

text \<open>
  What a decoder can return on input nobody vouches for: the lists of an accepted message are
  within the decoder's caps and the voxel indices of a chunk delta are inside a chunk. A small
  logic of partial correctness for decoders carries the proofs.
\<close>

definition yields :: "'m decoded reader \<Rightarrow> ('m \<Rightarrow> bool) \<Rightarrow> bool" where
  "yields d P \<longleftrightarrow> (\<forall>s m. fst (run_state d s) = Inr m \<longrightarrow> P m)"

lemma yields_finish: "P m \<Longrightarrow> yields (finish m) P"
  by (auto simp: yields_def run_finish split: if_splits)

lemma yields_error: "yields (State_Monad.return (Inl e)) P"
  by (simp add: yields_def)

lemma yields_if: "(c \<Longrightarrow> yields d P) \<Longrightarrow> (\<not> c \<Longrightarrow> yields e P) \<Longrightarrow> yields (if c then d else e) P"
  by simp

lemma yields_bind_where:
  assumes "\<And>s. Q (fst (run_state p s))" and "\<And>y. Q y \<Longrightarrow> yields (f y) P"
  shows "yields (State_Monad.bind p f) P"
  unfolding yields_def
proof (intro allI impI)
  fix s m assume "fst (run_state (State_Monad.bind p f) s) = Inr m"
  then have "fst (run_state (f (fst (run_state p s))) (snd (run_state p s))) = Inr m"
    by (simp add: case_prod_unfold)
  with assms(2) [OF assms(1)] show "P m" unfolding yields_def by blast
qed

lemma yields_bind: "(\<And>y. yields (f y) P) \<Longrightarrow> yields (State_Monad.bind p f) P"
  by (rule yields_bind_where [where Q = "\<lambda>_. True"]) simp_all

lemma length_read_loop: "length (fst (run_state (read_loop n p) s)) \<le> n"
  by (induction n arbitrary: s) (simp_all add: case_prod_unfold)

lemma yields_loop:
  "(\<And>xs. length xs \<le> n \<Longrightarrow> yields (f xs) P) \<Longrightarrow> yields (State_Monad.bind (read_loop n p) f) P"
  by (rule yields_bind_where [where Q = "\<lambda>xs. length xs \<le> n"]) (rule length_read_loop)

lemma checked_loop_value:
  "fst (run_state (read_checked_loop n p bad) s) = Inr xs \<Longrightarrow>
     length xs \<le> n \<and> (\<forall>x \<in> set xs. \<not> bad x)"
  by (induction n arbitrary: s xs) (force simp: case_prod_unfold split: if_splits sum.splits)+

lemma yields_checked_loop:
  assumes "\<And>xs. length xs \<le> n \<Longrightarrow> \<forall>x \<in> set xs. \<not> bad x \<Longrightarrow> yields (f xs) P"
  shows "yields (State_Monad.bind (read_checked_loop n p bad)
    (\<lambda>v. case v of Inl e \<Rightarrow> State_Monad.return (Inl e) | Inr xs \<Rightarrow> f xs)) P"
  by (rule yields_bind_where [where Q = "\<lambda>v. \<forall>xs. v = Inr xs \<longrightarrow> length xs \<le> n \<and> (\<forall>x \<in> set xs. \<not> bad x)"])
    (auto dest: checked_loop_value intro: assms yields_error split: sum.split)

lemma length_r_bytes: "length (fst (run_state (r_bytes n) s)) \<le> n"
  by (simp add: run_bytes)

lemma yields_bytes:
  "(\<And>xs. length xs \<le> n \<Longrightarrow> yields (f xs) P) \<Longrightarrow> yields (State_Monad.bind (r_bytes n) f) P"
  by (rule yields_bind_where [where Q = "\<lambda>xs. length xs \<le> n"]) (rule length_r_bytes)

lemmas yields_rules = yields_finish yields_error yields_if yields_checked_loop yields_loop
  yields_bytes yields_bind

lemma yields_run: "yields d P \<Longrightarrow> run_decoder d bs = Inr m \<Longrightarrow> P m"
  by (simp add: yields_def run_decoder_def)

section \<open>The caps\<close>

lemma input_batch_cap: "decode_C2SInputBatch bs = Inr m \<Longrightarrow> length (batch_cmds m) \<le> kMaxCmds"
  unfolding decode_C2SInputBatch_def by (erule yields_run [rotated]) (rule yields_rules | simp)+

lemma keybind_cap: "decode_S2CKeybindRegistry bs = Inr m \<Longrightarrow> length (keys_names m) \<le> kMaxKeybinds"
  unfolding decode_S2CKeybindRegistry_def by (erule yields_run [rotated]) (rule yields_rules | simp)+

lemma player_list_cap: "decode_S2CPlayerList bs = Inr m \<Longrightarrow> length (plist_players m) \<le> kMaxPlayerListEntries"
  unfolding decode_S2CPlayerList_def by (erule yields_run [rotated]) (rule yields_rules | simp)+

lemma inventory_cap: "decode_S2CInventory bs = Inr m \<Longrightarrow> length (inv_slots m) \<le> kMaxInventorySlots"
  unfolding decode_S2CInventory_def by (erule yields_run [rotated]) (rule yields_rules | simp)+

lemma asset_request_cap: "decode_C2SAssetRequest bs = Inr m \<Longrightarrow> length (areq_missing m) \<le> kMaxRequestedHashes"
  unfolding decode_C2SAssetRequest_def by (erule yields_run [rotated]) (rule yields_rules | simp)+

lemma asset_manifest_cap: "decode_S2CAssetManifest bs = Inr m \<Longrightarrow> length (aman_entries m) \<le> kMaxManifestEntries"
  unfolding decode_S2CAssetManifest_def by (erule yields_run [rotated]) (rule yields_rules | simp)+

lemma asset_data_cap: "decode_S2CAssetData bs = Inr m \<Longrightarrow> length (adat_bytes m) \<le> kMaxAssetChunkBytes"
  unfolding decode_S2CAssetData_def by (erule yields_run [rotated]) (rule yields_rules | simp)+

lemma snapshot_caps: "decode_S2CEntitySnapshot bs = Inr m \<Longrightarrow>
    length (snap_entered m) \<le> kMaxRecords \<and> length (snap_updated m) \<le> kMaxRecords \<and>
    length (snap_removed m) \<le> kMaxRecords"
  unfolding decode_S2CEntitySnapshot_def by (erule yields_run [rotated]) (rule yields_rules | simp)+

lemma chunk_add_cap: "decode_S2CChunkAdd bs = Inr m \<Longrightarrow> length (add_payload m) \<le> kMaxChunkBytes"
  unfolding decode_S2CChunkAdd_def by (erule yields_run [rotated]) (rule yields_rules | simp)+

lemma chunk_delta_caps: "decode_S2CChunkDelta bs = Inr m \<Longrightarrow>
    length (delta_blocks m) \<le> chunk_volume \<and> length (delta_light m) \<le> chunk_volume \<and>
    (\<forall>c \<in> set (delta_blocks m). unat (bc_local_index c) < chunk_volume) \<and>
    (\<forall>c \<in> set (delta_light m). unat (lc_local_index c) < chunk_volume)"
  unfolding decode_S2CChunkDelta_def
  by (erule yields_run [rotated]) (rule yields_rules | simp add: not_le)+

text \<open>Everything a delta decoder accepts can be encoded again to a message it accepts.\<close>

lemma chunk_delta_valid: "decode_S2CChunkDelta bs = Inr m \<Longrightarrow> valid_S2CChunkDelta m"
  using chunk_delta_caps by (simp add: valid_S2CChunkDelta_def)

end
