(* ===== verification/Compression.thy ===== *)
theory Compression
  imports Message_Frame
begin

text \<open>
  \<open>protocol/compression.cpp\<close>, the shared helper \<open>frame_message\<close> of \<open>net/handshake.hpp\<close> and its
  inverse \<open>decompress_frame_payload\<close> of \<open>net/session.cpp\<close>. The LZ4 library is a parameter:
  \<open>lz_compress\<close> is \<open>LZ4_compress_default\<close> into a buffer of \<open>LZ4_compressBound\<close> bytes and
  \<open>lz_decompress\<close> is \<open>LZ4_decompress_safe\<close> with the capacity of the output buffer, \<open>None\<close>
  for a negative return. \<open>None\<close> as the library stands for a build without
  \<open>VB_WITH_COMPRESSION\<close>. Inputs are below \<open>2 ^ 31\<close> bytes, so that the casts to \<open>int\<close> keep them.
\<close>

record lz4_api =
  lz_compress :: "byte list \<Rightarrow> byte list"
  lz_decompress :: "byte list \<Rightarrow> nat \<Rightarrow> byte list option"

text \<open>What the library documents of the pair.\<close>

definition lz4_ok :: "lz4_api \<Rightarrow> bool" where
  "lz4_ok lz \<longleftrightarrow> (\<forall>bs. bs \<noteq> [] \<longrightarrow> length bs < 2 ^ 31 \<longrightarrow>
     lz_compress lz bs \<noteq> [] \<and> lz_decompress lz (lz_compress lz bs) (length bs) = Some bs)"

definition compress_lz4 :: "lz4_api \<Rightarrow> byte list \<Rightarrow> byte list" where
  "compress_lz4 lz bs = run_writer (do {
     w_u32 (of_nat (length bs));
     (if bs = [] then State_Monad.return () else w_bytes (lz_compress lz bs)) })"

definition decompress_lz4 :: "lz4_api \<Rightarrow> byte list \<Rightarrow> byte list decoded" where
  "decompress_lz4 lz = run_decoder (do {
     original_size \<leftarrow> r_u32;
     failed \<leftarrow> r_failed;
     if failed then State_Monad.return (Inl kShortBuffer)
     else if unat original_size > kMaxDecodedLength then State_Monad.return (Inl kLengthExceeded)
     else if original_size = 0 then State_Monad.return (Inr [])
     else do {
       n \<leftarrow> r_remaining;
       compressed \<leftarrow> r_bytes n;
       failed \<leftarrow> r_failed;
       if failed \<or> compressed = [] then State_Monad.return (Inl kShortBuffer)
       else State_Monad.return (case lz_decompress lz compressed (unat original_size) of
           None \<Rightarrow> Inl kMalformed
         | Some out \<Rightarrow> if length out \<noteq> unat original_size then Inl kMalformed else Inr out) } })"

definition kCompressionThresholdBytes :: nat where
  "kCompressionThresholdBytes = 128"

record outgoing_frame =
  of_lane :: lane
  of_bytes :: "byte list"

definition frame_message :: "lz4_api option \<Rightarrow> message_type \<Rightarrow> writer \<Rightarrow> u16 \<Rightarrow> outgoing_frame" where
  "frame_message lz type encode flags = (
     let payload = run_writer encode;
         (payload, flags) = (case lz of
           None \<Rightarrow> (payload, flags)
         | Some lz \<Rightarrow>
             if length payload \<ge> kCompressionThresholdBytes
             then let compressed = compress_lz4 lz payload in
               if length compressed < length payload then (compressed, flags OR kCompressed)
               else (payload, flags)
             else (payload, flags)) in
     \<lparr>of_lane = lane_for type, of_bytes = run_writer (write_frame type payload flags)\<rparr>)"

text \<open>The receiver's side: the payload handed to \<open>decode\<close>, or \<open>None\<close> with the frame dropped.\<close>

definition decompress_frame_payload :: "lz4_api option \<Rightarrow> frame \<Rightarrow> byte list option" where
  "decompress_frame_payload lz fr =
     (if mh_flags (fr_header fr) AND kCompressed = 0 then Some (fr_payload fr)
      else case lz of
        None \<Rightarrow> None
      | Some lz \<Rightarrow> (case decompress_lz4 lz (fr_payload fr) of Inl e \<Rightarrow> None | Inr out \<Rightarrow> Some out))"

section \<open>Round trips\<close>

lemma run_compress: "compress_lz4 lz bs = run_writer (w_u32 (of_nat (length bs))) @
    (if bs = [] then [] else lz_compress lz bs)"
  by (simp add: compress_lz4_def)

lemma lz4_roundtrip:
  assumes "lz4_ok lz" and "length bs \<le> kMaxDecodedLength"
  shows "decompress_lz4 lz (compress_lz4 lz bs) = Inr bs"
proof -
  let ?n = "run_writer (w_u32 (of_nat (length bs)))" and ?D = "compress_lz4 lz bs"
  let ?rest = "if bs = [] then [] else lz_compress lz bs"
  have len: "length bs < 2 ^ 31" using assms(2) by (simp add: kMaxDecodedLength_def)
  have u: "unat (of_nat (length bs) :: u32) = length bs"
    using len by (simp add: unsigned_of_nat take_bit_nat_eq_self)
  have 1: "run_state r_u32 (ok_at ?D 0) = (of_nat (length bs), ok_at ?D (length ?n))"
    using readsD [OF reads_fixed(2) [of "of_nat (length bs)"], of "[]" ?rest] by (simp add: run_compress)
  have z: "(of_nat (length bs) :: u32) = 0 \<longleftrightarrow> bs = []" using u by (metis length_0_conv unsigned_eq_0_iff)
  have D: "?D = ?n @ ?rest" by (rule run_compress)
  show ?thesis
  proof (cases "bs = []")
    case True
    with 1 u show ?thesis by (simp add: decompress_lz4_def run_decoder_def reader_on_ok_at)
  next
    case False
    with assms(1) len have lz: "lz_compress lz bs \<noteq> []"
      "lz_decompress lz (lz_compress lz bs) (length bs) = Some bs" by (auto simp: lz4_ok_def)
    have 2: "run_state (r_bytes (length ?D - length ?n)) (ok_at ?D (length ?n)) =
        (lz_compress lz bs, ok_at ?D (length ?D))"
      using readsD [OF reads_bytes [OF refl, of "lz_compress lz bs"], of ?n "[]"] False D by simp
    show ?thesis
      using False 1 2 u z lz assms(2)
      by (simp add: decompress_lz4_def run_decoder_def reader_on_ok_at)
  qed
qed

text \<open>No declared size makes the receiver allocate more than the cap.\<close>

lemma decompressed_size: "decompress_lz4 lz bs = Inr out \<Longrightarrow> length out \<le> kMaxDecodedLength"
  by (auto simp: decompress_lz4_def run_decoder_def case_prod_unfold split: if_splits option.splits)

lemma message_type_cast_back:
  "t = message_type_of v \<Longrightarrow> message_type_of (message_value t) = t"
  by (simp add: message_value_of)

text \<open>Small payload and decompression: what one side frames, the other hands to \<open>decode\<close>.\<close>

lemma flag_set: "(flags OR kCompressed) AND kCompressed \<noteq> (0 :: u16)"
proof
  assume "(flags OR kCompressed) AND kCompressed = 0"
  then have "bit ((flags OR kCompressed) AND kCompressed) 0 = bit (0 :: u16) 0" by simp
  then show False by (simp add: kCompressed_def bit_simps)
qed

lemma frame_delivered:
  assumes "\<And>l. lz = Some l \<Longrightarrow> lz4_ok l" and "length (run_writer encode) \<le> kMaxPayloadBytes"
    and "type = message_type_of v"
  shows "\<exists>fr. read_frame (of_bytes (frame_message lz type encode 0) @ rest) =
      (Inr fr, length (of_bytes (frame_message lz type encode 0))) \<and>
    mh_type (fr_header fr) = type \<and> decompress_frame_payload lz fr = Some (run_writer encode)"
proof -
  let ?p = "run_writer encode"
  have direct: ?thesis if "of_bytes (frame_message lz type encode 0) = run_writer (write_frame type q flags)"
    and q: "length q \<le> kMaxPayloadBytes"
    and dec: "\<And>h. mh_flags h = flags \<Longrightarrow> decompress_frame_payload lz \<lparr>fr_header = h, fr_payload = q\<rparr> = Some ?p"
    for q flags
  proof -
    have "length q < 2 ^ 32" using q by (simp add: kMaxPayloadBytes_def)
    from read_frame_of_write [OF this, of type flags rest] q that(1) dec
    show ?thesis
      by (auto simp: run_writer_frame kEnvelopeBytes_def message_type_cast_back [OF assms(3)])
  qed
  show ?thesis
  proof (cases "\<exists>l. lz = Some l \<and> kCompressionThresholdBytes \<le> length ?p \<and>
      length (compress_lz4 l ?p) < length ?p")
    case True
    then obtain l where l: "lz = Some l" "kCompressionThresholdBytes \<le> length ?p"
      "length (compress_lz4 l ?p) < length ?p" by blast
    have "length ?p \<le> kMaxDecodedLength"
      using assms(2) by (simp add: kMaxPayloadBytes_def kMaxDecodedLength_def)
    from lz4_roundtrip [OF assms(1) [OF l(1)] this] l assms(2) show ?thesis
      using flag_set [of 0]
      by (intro direct [of "compress_lz4 l ?p" "0 OR kCompressed"])
        (simp_all add: frame_message_def decompress_frame_payload_def Let_def)
  next
    case False
    then have "of_bytes (frame_message lz type encode 0) = run_writer (write_frame type ?p 0)"
      by (auto simp: frame_message_def Let_def split: option.split)
    then show ?thesis
      using assms(2) by (rule direct) (simp add: decompress_frame_payload_def)
  qed
qed

end
