(* ===== verification/Server_Handshake.thy ===== *)
theory Server_Handshake
  imports Compression Handshake_Messages Entity_Messages Session_Messages
begin

text \<open>
  \<open>ServerHandshake\<close> of \<open>net/handshake.hpp\<close> and \<open>net/handshake.cpp\<close>: one state machine per inbound
  connection, fed with frames, ticks and a timeout. The hooks of \<open>HandshakeServerHost\<close> are the
  fields of a record that every operation takes: what they answer may differ from one event to
  the next. An \<open>AuthTicket\<close> is a value of a type the host chooses, polled through the host; an
  empty \<open>std::function\<close> is \<open>None\<close>. Configuration times in seconds are \<open>double\<close> bit patterns.
\<close>

definition kEngineProtocolVersion :: u16 where
  "kEngineProtocolVersion = 31"

definition kAssetChunkBytes :: nat where
  "kAssetChunkBytes = 48 * 1024"

definition kClientFlagAutomation :: u8 where
  "kClientFlagAutomation = 1"

datatype server_state =
    kAwaitingHello
  | kAwaitingAuth
  | kVerifyingAuth
  | kAwaitingAssetManifestRequest
  | kAwaitingAssetRequest
  | kStreamingAssets
  | kAwaitingReady
  | kPlaying
  | kClosed

record server_config =
  sc_pack_name :: bstring
  sc_pack_version :: bstring
  sc_tick_rate :: u16
  sc_view_distance :: u32
  sc_motd :: bstring
  sc_engine_version_req :: bstring
  sc_auth_mode :: auth_mode
  sc_max_players :: u32
  sc_handshake_timeout_seconds :: f64
  sc_auth_timeout_seconds :: f64
  sc_reauth_interval_seconds :: u32
  sc_reauth_grace_seconds :: u32
  sc_world_seed :: u64
  sc_accept_automation_clients :: bool

record login_data =
  ld_provider :: bstring
  ld_issuer :: bstring
  ld_subject :: bstring
  ld_name :: bstring
  ld_claims_json :: bstring
  ld_issued_at :: i64
  ld_expires_at :: i64

record auth_outcome =
  ao_ok :: bool
  ao_reason :: bstring
  ao_resolved_name :: bstring
  ao_login :: "login_data option"

record join_grant =
  jg_net_id :: net_id
  jg_spawn_pos :: vec3d
  jg_world_seed :: u64
  jg_time_of_day :: u32

record pack_manifest =
  pm_entries :: "asset_entry_record list"
  pm_manifest_hash :: asset_hash
  pm_total_bytes :: u64

record 't server_host =
  sh_current_player_count :: u32
  sh_authenticate :: "bstring \<Rightarrow> bstring \<Rightarrow> auth_outcome"
  sh_auth_challenge :: "s2c_auth_challenge option"
  sh_begin_authenticate :: "(bstring \<Rightarrow> bstring \<Rightarrow> 't option) option"
  sh_poll :: "'t \<Rightarrow> auth_outcome option"
  sh_resolve_name :: "bstring \<Rightarrow> login_data \<Rightarrow> bstring"
  sh_join_veto :: "bstring \<Rightarrow> login_data \<Rightarrow> bool"
  sh_on_ready :: "bstring \<Rightarrow> join_grant"
  sh_block_registry :: "block_registry_record list option"
  sh_move_params :: "s2c_move_params option"
  sh_day_night_curve :: "day_night_keyframe_record list option"
  sh_fog_params :: "s2c_fog_params option"
  sh_keybind_registry :: "bstring list option"
  sh_entity_kind_registry :: "entity_kind_registry_record list option"
  sh_asset_manifest :: "pack_manifest option"
  sh_asset_file_bytes :: "asset_hash \<Rightarrow> byte list option"

record server_step =
  ss_send :: "outgoing_frame list"
  ss_completed :: bool
  ss_disconnect :: bool
  ss_disconnect_reason :: disconnect_reason
  ss_player_name :: bstring

record asset_stream =
  as_pending :: "asset_hash list"
  as_pending_idx :: nat
  as_current_bytes :: "byte list"
  as_current_chunk_idx :: u32
  as_current_total_chunks :: u32
  as_current_loaded :: bool

record 't server_handshake =
  sv_state :: server_state
  sv_player_name :: bstring
  sv_requested_name :: bstring
  sv_auth_nonce :: bstring
  sv_auth_ticket :: "'t option"
  sv_login :: "login_data option"
  sv_grant :: join_grant
  sv_manifest :: "pack_manifest option"
  sv_asset_stream :: asset_stream

definition empty_step :: server_step where
  "empty_step = \<lparr>ss_send = [], ss_completed = False, ss_disconnect = False,
     ss_disconnect_reason = kUnknown, ss_player_name = []\<rparr>"

definition send_step :: "outgoing_frame list \<Rightarrow> server_step" where
  "send_step fs = empty_step\<lparr>ss_send := fs\<rparr>"

definition new_stream :: "asset_hash list \<Rightarrow> asset_stream" where
  "new_stream missing = \<lparr>as_pending = missing, as_pending_idx = 0, as_current_bytes = [],
     as_current_chunk_idx = 0, as_current_total_chunks = 0, as_current_loaded = False\<rparr>"

definition default_grant :: join_grant where
  "default_grant = \<lparr>jg_net_id = 0,
     jg_spawn_pos = \<lparr>vd_x = 0, vd_y = 0x4050000000000000, vd_z = 0\<rparr>,
     jg_world_seed = 0, jg_time_of_day = 0\<rparr>"

definition new_server :: "'t server_handshake" where
  "new_server = \<lparr>sv_state = kAwaitingHello, sv_player_name = [], sv_requested_name = [],
     sv_auth_nonce = [], sv_auth_ticket = None, sv_login = None, sv_grant = default_grant,
     sv_manifest = None, sv_asset_stream = new_stream []\<rparr>"

section \<open>Failing and authentication\<close>

definition disconnect_frame :: "lz4_api option \<Rightarrow> disconnect_reason \<Rightarrow> bstring \<Rightarrow> outgoing_frame" where
  "disconnect_frame lz reason message =
     frame_message lz kS2CDisconnect (encode_S2CDisconnect \<lparr>disc_reason = reason, disc_message = message\<rparr>) 0"

definition srv_fail :: "lz4_api option \<Rightarrow> disconnect_reason \<Rightarrow> bstring \<Rightarrow> 't server_handshake \<Rightarrow>
    server_step \<times> 't server_handshake" where
  "srv_fail lz reason human_message st =
     (empty_step\<lparr>ss_send := [disconnect_frame lz reason human_message], ss_disconnect := True,
        ss_disconnect_reason := reason\<rparr>,
      st\<lparr>sv_state := kClosed\<rparr>)"

definition on_timeout :: "lz4_api option \<Rightarrow> 't server_handshake \<Rightarrow> server_step \<times> 't server_handshake" where
  "on_timeout lz st =
     (if sv_state st = kPlaying \<or> sv_state st = kClosed then (empty_step, st)
      else srv_fail lz kTimeout (lit ''handshake timed out'') st)"

definition timeout_seconds :: "server_config \<Rightarrow> 't server_handshake \<Rightarrow> f64" where
  "timeout_seconds cfg st =
     (if sc_auth_mode cfg = kAuthExternal \<and>
         (sv_state st = kAwaitingAuth \<or> sv_state st = kVerifyingAuth)
      then sc_auth_timeout_seconds cfg else sc_handshake_timeout_seconds cfg)"

definition finish_auth :: "lz4_api option \<Rightarrow> auth_outcome \<Rightarrow> 't server_handshake \<Rightarrow>
    server_step \<times> 't server_handshake" where
  "finish_auth lz outcome st = (
     let name = (if ao_ok outcome \<and> ao_resolved_name outcome \<noteq> [] then ao_resolved_name outcome
                 else sv_requested_name st);
         result = frame_message lz kS2CAuthResult (encode_S2CAuthResult
           \<lparr>auth_result_ok = ao_ok outcome, auth_result_reason = ao_reason outcome,
            auth_result_resolved_name = name\<rparr>) 0 in
     if \<not> ao_ok outcome
     then (empty_step\<lparr>ss_send := [result, disconnect_frame lz kAuthFailed
              (if ao_reason outcome = [] then lit ''authentication failed'' else ao_reason outcome)],
             ss_disconnect := True, ss_disconnect_reason := kAuthFailed\<rparr>,
           st\<lparr>sv_state := kClosed\<rparr>)
     else (send_step [result],
           st\<lparr>sv_player_name := name, sv_state := kAwaitingAssetManifestRequest\<rparr>))"

definition denied :: "bstring \<Rightarrow> auth_outcome" where
  "denied reason = \<lparr>ao_ok = False, ao_reason = reason, ao_resolved_name = [], ao_login = None\<rparr>"

definition finish_external_auth :: "lz4_api option \<Rightarrow> 't server_host \<Rightarrow> auth_outcome \<Rightarrow>
    't server_handshake \<Rightarrow> server_step \<times> 't server_handshake" where
  "finish_external_auth lz host outcome st =
     (if ao_ok outcome
      then case ao_login outcome of
          None \<Rightarrow> finish_auth lz (denied (lit ''authentication failed'')) st
        | Some l \<Rightarrow>
            let name = sh_resolve_name host
                  (if ao_resolved_name outcome = [] then ld_name l else ao_resolved_name outcome) l;
                login = l\<lparr>ld_name := name\<rparr> in
            if \<not> sh_join_veto host name login
            then finish_auth lz (denied (lit ''denied by pack'')) st
            else finish_auth lz (outcome\<lparr>ao_resolved_name := name\<rparr>) (st\<lparr>sv_login := Some login\<rparr>)
      else finish_auth lz outcome st)"

definition poll_auth :: "lz4_api option \<Rightarrow> 't server_host \<Rightarrow> 't server_handshake \<Rightarrow>
    server_step \<times> 't server_handshake" where
  "poll_auth lz host st = (
     if sv_state st \<noteq> kVerifyingAuth then (empty_step, st)
     else case sv_auth_ticket st of
         None \<Rightarrow> (empty_step, st)
       | Some ticket \<Rightarrow> (case sh_poll host ticket of
             None \<Rightarrow> (empty_step, st)
           | Some outcome \<Rightarrow> finish_external_auth lz host outcome (st\<lparr>sv_auth_ticket := None\<rparr>)))"

section \<open>Streaming assets\<close>

definition load_file :: "byte list \<Rightarrow> asset_stream \<Rightarrow> asset_stream" where
  "load_file bytes s = s\<lparr>as_current_bytes := bytes, as_current_chunk_idx := 0,
     as_current_total_chunks := of_nat (if length bytes = 0 then 1
       else (length bytes + kAssetChunkBytes - 1) div kAssetChunkBytes),
     as_current_loaded := True\<rparr>"

definition current_chunk :: "asset_hash \<Rightarrow> asset_stream \<Rightarrow> s2c_asset_data" where
  "current_chunk hash s = (
     let offset = unat (as_current_chunk_idx s) * kAssetChunkBytes;
         remaining = length (as_current_bytes s) - offset;
         chunk_len = min remaining kAssetChunkBytes in
     \<lparr>adat_hash = hash, adat_seq = as_current_chunk_idx s,
      adat_total_chunks = as_current_total_chunks s,
      adat_bytes = take chunk_len (drop offset (as_current_bytes s))\<rparr>)"

definition data_frame :: "lz4_api option \<Rightarrow> s2c_asset_data \<Rightarrow> outgoing_frame" where
  "data_frame lz d = frame_message lz kS2CAssetData (encode_S2CAssetData d) 0"

text \<open>After a chunk: the next chunk of the file, or the next file.\<close>

definition advance :: "asset_stream \<Rightarrow> asset_stream" where
  "advance s = (
     let s = s\<lparr>as_current_chunk_idx := as_current_chunk_idx s + 1\<rparr> in
     if as_current_chunk_idx s \<ge> as_current_total_chunks s
     then s\<lparr>as_pending_idx := as_pending_idx s + 1, as_current_bytes := [], as_current_loaded := False\<rparr>
     else s)"

primrec pump_loop :: "nat \<Rightarrow> lz4_api option \<Rightarrow> 't server_host \<Rightarrow> outgoing_frame list \<Rightarrow>
    't server_handshake \<Rightarrow> server_step \<times> 't server_handshake" where
  "pump_loop 0 lz host sent st = (send_step sent, st)"
| "pump_loop (Suc n) lz host sent st = (
     let s = sv_asset_stream st in
     if as_pending_idx s \<ge> length (as_pending s)
     then (send_step sent, st\<lparr>sv_state := kAwaitingReady\<rparr>)
     else
       let hash = as_pending s ! as_pending_idx s in
       case (if as_current_loaded s then Some s
             else map_option (\<lambda>bytes. load_file bytes s) (sh_asset_file_bytes host hash)) of
         None \<Rightarrow> srv_fail lz kProtocolError (lit ''requested asset hash not found'') st
       | Some s \<Rightarrow>
           let sent = sent @ [data_frame lz (current_chunk hash s)];
               s' = advance s;
               st = st\<lparr>sv_asset_stream := s'\<rparr> in
           if as_pending_idx s' \<noteq> as_pending_idx s \<and> as_pending_idx s' \<ge> length (as_pending s')
           then (send_step sent, st\<lparr>sv_state := kAwaitingReady\<rparr>)
           else pump_loop n lz host sent st)"

definition pump_assets :: "int \<Rightarrow> lz4_api option \<Rightarrow> 't server_host \<Rightarrow> 't server_handshake \<Rightarrow>
    server_step \<times> 't server_handshake" where
  "pump_assets max_chunks lz host st =
     (if sv_state st \<noteq> kStreamingAssets then (empty_step, st)
      else pump_loop (nat max_chunks) lz host [] st)"

section \<open>Frames\<close>

definition on_hello :: "server_config \<Rightarrow> lz4_api option \<Rightarrow> 't server_host \<Rightarrow> frame \<Rightarrow>
    't server_handshake \<Rightarrow> server_step \<times> 't server_handshake" where
  "on_hello cfg lz host fr st = (
     if mh_type (fr_header fr) \<noteq> kC2SHello then srv_fail lz kBadHandshake (lit ''expected Hello'') st
     else case decode_C2SHello (fr_payload fr) of
       Inl e \<Rightarrow> srv_fail lz kProtocolError (lit ''malformed Hello'') st
     | Inr hello \<Rightarrow>
         if hello_engine_protocol_version hello \<noteq> kEngineProtocolVersion
         then srv_fail lz kProtocolMismatch (lit ''engine protocol version mismatch'') st
         else if hello_client_flags hello AND kClientFlagAutomation \<noteq> 0 \<and>
           \<not> sc_accept_automation_clients cfg
         then srv_fail lz kBadHandshake (lit ''automation clients are not accepted by this server'') st
         else
           let info = frame_message lz kS2CServerInfo (encode_S2CServerInfo
                 \<lparr>info_pack_name = sc_pack_name cfg, info_pack_version = sc_pack_version cfg,
                  info_engine_protocol_version = kEngineProtocolVersion,
                  info_tick_rate = sc_tick_rate cfg, info_view_distance = sc_view_distance cfg,
                  info_motd = sc_motd cfg, info_auth_mode = sc_auth_mode cfg,
                  info_engine_version_req = sc_engine_version_req cfg\<rparr>) 0 in
           if sc_auth_mode cfg = kAuthExternal
           then (case sh_auth_challenge host of
               None \<Rightarrow> srv_fail lz kAuthFailed (lit ''server cannot authenticate players right now'') st
             | Some challenge \<Rightarrow>
                 if chal_nonce challenge = []
                 then srv_fail lz kAuthFailed (lit ''server cannot authenticate players right now'') st
                 else (send_step [info, frame_message lz kS2CAuthChallenge (encode_S2CAuthChallenge challenge) 0],
                       st\<lparr>sv_auth_nonce := chal_nonce challenge, sv_state := kAwaitingAuth\<rparr>))
           else (send_step [info], st\<lparr>sv_state := kAwaitingAuth\<rparr>))"

definition on_auth :: "server_config \<Rightarrow> lz4_api option \<Rightarrow> 't server_host \<Rightarrow> frame \<Rightarrow>
    't server_handshake \<Rightarrow> server_step \<times> 't server_handshake" where
  "on_auth cfg lz host fr st = (
     if mh_type (fr_header fr) \<noteq> kC2SAuth then srv_fail lz kBadHandshake (lit ''expected Auth'') st
     else case decode_C2SAuth (fr_payload fr) of
       Inl e \<Rightarrow> srv_fail lz kProtocolError (lit ''malformed Auth'') st
     | Inr auth \<Rightarrow>
         if sh_current_player_count host \<ge> sc_max_players cfg
         then srv_fail lz kServerFull (lit ''server is full'') st
         else
           let st = st\<lparr>sv_requested_name := auth_player_name auth\<rparr> in
           if sc_auth_mode cfg = kAuthExternal
           then (case sh_begin_authenticate host of
               None \<Rightarrow> srv_fail lz kAuthFailed (lit ''server cannot authenticate players right now'') st
             | Some begin_auth \<Rightarrow> (case begin_auth (auth_token auth) (sv_auth_nonce st) of
                   None \<Rightarrow> srv_fail lz kAuthFailed (lit ''server cannot authenticate players right now'')
                     (st\<lparr>sv_auth_ticket := None\<rparr>)
                 | Some ticket \<Rightarrow>
                     poll_auth lz host (st\<lparr>sv_auth_ticket := Some ticket, sv_state := kVerifyingAuth\<rparr>)))
           else finish_auth lz (sh_authenticate host (auth_player_name auth) (auth_token auth)) st)"

definition on_manifest_request :: "lz4_api option \<Rightarrow> 't server_host \<Rightarrow> frame \<Rightarrow>
    't server_handshake \<Rightarrow> server_step \<times> 't server_handshake" where
  "on_manifest_request lz host fr st = (
     if mh_type (fr_header fr) \<noteq> kC2SAssetManifestRequest
     then srv_fail lz kBadHandshake (lit ''expected AssetManifestRequest'') st
     else case decode_C2SAssetManifestRequest (fr_payload fr) of
       Inl e \<Rightarrow> srv_fail lz kProtocolError (lit ''malformed AssetManifestRequest'') st
     | Inr req \<Rightarrow>
         let manifest = sh_asset_manifest host;
             reply = (case manifest of
                 None \<Rightarrow> \<lparr>aman_manifest_hash = \<lparr>ah_lo = 0, ah_hi = 0\<rparr>, aman_total_bytes = 0, aman_entries = []\<rparr>
               | Some m \<Rightarrow> \<lparr>aman_manifest_hash = pm_manifest_hash m, aman_total_bytes = pm_total_bytes m,
                   aman_entries = (if amreq_known_manifest_hash req \<noteq> pm_manifest_hash m
                     then pm_entries m else [])\<rparr>) in
         (send_step [frame_message lz kS2CAssetManifest (encode_S2CAssetManifest reply) 0],
          st\<lparr>sv_manifest := manifest, sv_state := kAwaitingAssetRequest\<rparr>))"

definition on_asset_request :: "lz4_api option \<Rightarrow> frame \<Rightarrow> 't server_handshake \<Rightarrow>
    server_step \<times> 't server_handshake" where
  "on_asset_request lz fr st = (
     if mh_type (fr_header fr) \<noteq> kC2SAssetRequest
     then srv_fail lz kBadHandshake (lit ''expected AssetRequest'') st
     else case decode_C2SAssetRequest (fr_payload fr) of
       Inl e \<Rightarrow> srv_fail lz kProtocolError (lit ''malformed AssetRequest'') st
     | Inr req \<Rightarrow>
         (empty_step, st\<lparr>sv_asset_stream := new_stream (areq_missing req),
           sv_state := (if areq_missing req = [] then kAwaitingReady else kStreamingAssets)\<rparr>))"

definition opt_frame :: "lz4_api option \<Rightarrow> message_type \<Rightarrow> ('m \<Rightarrow> writer) \<Rightarrow> 'm option \<Rightarrow> outgoing_frame list" where
  "opt_frame lz type encode v = (case v of None \<Rightarrow> [] | Some m \<Rightarrow> [frame_message lz type (encode m) 0])"

definition registry_frames :: "lz4_api option \<Rightarrow> 't server_host \<Rightarrow> outgoing_frame list" where
  "registry_frames lz host =
     opt_frame lz kS2CBlockRegistry (\<lambda>v. encode_S2CBlockRegistry \<lparr>breg_blocks = v\<rparr>) (sh_block_registry host) @
     opt_frame lz kS2CKeybindRegistry (\<lambda>v. encode_S2CKeybindRegistry \<lparr>keys_names = v\<rparr>) (sh_keybind_registry host) @
     opt_frame lz kS2CEntityKindRegistry (\<lambda>v. encode_S2CEntityKindRegistry \<lparr>kinds_list = v\<rparr>)
       (sh_entity_kind_registry host) @
     opt_frame lz kS2CMoveParams encode_S2CMoveParams (sh_move_params host) @
     opt_frame lz kS2CDayNightCurve (\<lambda>v. encode_S2CDayNightCurve \<lparr>curve_keyframes = v\<rparr>) (sh_day_night_curve host) @
     opt_frame lz kS2CFogParams encode_S2CFogParams (sh_fog_params host)"

definition join_frame :: "lz4_api option \<Rightarrow> join_grant \<Rightarrow> outgoing_frame" where
  "join_frame lz grant = frame_message lz kS2CJoinAccept (encode_S2CJoinAccept
     \<lparr>join_your_net_id = jg_net_id grant, join_spawn_x = vd_x (jg_spawn_pos grant),
      join_spawn_y = vd_y (jg_spawn_pos grant), join_spawn_z = vd_z (jg_spawn_pos grant),
      join_world_seed = jg_world_seed grant, join_time_of_day = jg_time_of_day grant\<rparr>) 0"

definition on_ready :: "lz4_api option \<Rightarrow> 't server_host \<Rightarrow> frame \<Rightarrow> 't server_handshake \<Rightarrow>
    server_step \<times> 't server_handshake" where
  "on_ready lz host fr st = (
     if mh_type (fr_header fr) \<noteq> kC2SReady then srv_fail lz kBadHandshake (lit ''expected Ready'') st
     else case decode_C2SReady (fr_payload fr) of
       Inl e \<Rightarrow> srv_fail lz kProtocolError (lit ''malformed Ready'') st
     | Inr _ \<Rightarrow>
         let grant = sh_on_ready host (sv_player_name st) in
         (empty_step\<lparr>ss_send := registry_frames lz host @ [join_frame lz grant], ss_completed := True,
            ss_player_name := sv_player_name st\<rparr>,
          st\<lparr>sv_grant := grant, sv_state := kPlaying\<rparr>))"

definition srv_on_frame :: "server_config \<Rightarrow> lz4_api option \<Rightarrow> 't server_host \<Rightarrow> frame \<Rightarrow>
    't server_handshake \<Rightarrow> server_step \<times> 't server_handshake" where
  "srv_on_frame cfg lz host fr st = (case sv_state st of
       kAwaitingHello \<Rightarrow> on_hello cfg lz host fr st
     | kAwaitingAuth \<Rightarrow> on_auth cfg lz host fr st
     | kVerifyingAuth \<Rightarrow> srv_fail lz kBadHandshake (lit ''unexpected message while verifying sign-in'') st
     | kAwaitingAssetManifestRequest \<Rightarrow> on_manifest_request lz host fr st
     | kAwaitingAssetRequest \<Rightarrow> on_asset_request lz fr st
     | kStreamingAssets \<Rightarrow> srv_fail lz kBadHandshake (lit ''unexpected message while streaming assets'') st
     | kAwaitingReady \<Rightarrow> on_ready lz host fr st
     | kPlaying \<Rightarrow> srv_fail lz kBadHandshake (lit ''unexpected message after handshake'') st
     | kClosed \<Rightarrow> srv_fail lz kBadHandshake (lit ''unexpected message after handshake'') st)"

section \<open>Events\<close>

datatype server_event = Got_Frame frame | Timed_Out | Auth_Tick | Asset_Tick int

primrec srv_handle :: "server_config \<Rightarrow> lz4_api option \<Rightarrow> 't server_host \<Rightarrow> server_event \<Rightarrow>
    't server_handshake \<Rightarrow> server_step \<times> 't server_handshake" where
  "srv_handle cfg lz host (Got_Frame fr) st = srv_on_frame cfg lz host fr st"
| "srv_handle cfg lz host Timed_Out st = on_timeout lz st"
| "srv_handle cfg lz host Auth_Tick st = poll_auth lz host st"
| "srv_handle cfg lz host (Asset_Tick n) st = pump_assets n lz host st"

inductive srv_reachable :: "server_config \<Rightarrow> lz4_api option \<Rightarrow> 't server_handshake \<Rightarrow> bool"
  for cfg :: server_config and lz :: "lz4_api option" where
  reach_new: "srv_reachable cfg lz new_server"
| reach_step: "srv_reachable cfg lz st \<Longrightarrow> srv_reachable cfg lz (snd (srv_handle cfg lz host ev st))"

section \<open>The shape of a step\<close>

lemma step_simps [simp]:
  "ss_send empty_step = []" "ss_completed empty_step = False" "ss_disconnect empty_step = False"
  "ss_send (send_step fs) = fs" "ss_completed (send_step fs) = False" "ss_disconnect (send_step fs) = False"
  by (simp_all add: empty_step_def send_step_def)

text \<open>
  What holds of every step of every operation: a step that disconnects closes the machine and
  ends with the disconnect frame that carries the reported reason; a step that closes it
  disconnects.
\<close>

definition good_step :: "lz4_api option \<Rightarrow> 't server_handshake \<Rightarrow> server_step \<times> 't server_handshake \<Rightarrow> bool" where
  "good_step lz st r \<longleftrightarrow>
     (ss_disconnect (fst r) \<longrightarrow> sv_state (snd r) = kClosed \<and> \<not> ss_completed (fst r) \<and>
        (\<exists>fs msg. ss_send (fst r) = fs @ [disconnect_frame lz (ss_disconnect_reason (fst r)) msg])) \<and>
     (sv_state (snd r) = kClosed \<longrightarrow> sv_state st \<noteq> kClosed \<longrightarrow> ss_disconnect (fst r)) \<and>
     (ss_completed (fst r) \<longrightarrow> sv_state st = kAwaitingReady \<and> sv_state (snd r) = kPlaying \<and>
        ss_player_name (fst r) = sv_player_name st \<and> last (ss_send (fst r)) = join_frame lz (sv_grant (snd r)))"

lemma good_fail: "good_step lz st' (srv_fail lz reason msg st)"
  by (auto simp: good_step_def srv_fail_def empty_step_def)

lemma good_noop: "good_step lz st (empty_step, st)"
  by (simp add: good_step_def)

lemma good_silent: "sv_state st' \<noteq> kClosed \<Longrightarrow> good_step lz st (send_step fs, st')"
  by (simp add: good_step_def)

lemma good_finish_auth: "good_step lz st' (finish_auth lz outcome st)"
  by (auto simp: good_step_def finish_auth_def Let_def empty_step_def send_step_def)

lemma good_external: "good_step lz st' (finish_external_auth lz host outcome st)"
  by (auto simp: finish_external_auth_def Let_def good_finish_auth split: option.split)

lemma good_quiet: "sv_state s \<noteq> kClosed \<Longrightarrow> good_step lz st (empty_step, s)"
  by (simp add: good_step_def)

lemma good_poll:
  "sv_state st \<noteq> kClosed \<Longrightarrow> good_step lz st' (poll_auth lz host st)"
  by (auto simp: poll_auth_def intro: good_external good_quiet split: option.split)

lemma good_pump: "sv_state st = kStreamingAssets \<Longrightarrow> good_step lz st' (pump_loop n lz host sent st)"
  by (induction n arbitrary: sent st)
    (auto simp: Let_def intro!: good_silent good_fail split: option.split)

lemma good_on_hello: "good_step lz st' (on_hello cfg lz host fr st)"
  by (auto simp: on_hello_def Let_def intro!: good_silent good_fail split: sum.split option.split)

lemma good_on_auth: "good_step lz st' (on_auth cfg lz host fr st)"
  by (auto simp: on_auth_def Let_def intro!: good_fail good_finish_auth good_poll
      split: sum.split option.split)

lemma good_on_manifest_request: "good_step lz st' (on_manifest_request lz host fr st)"
  by (auto simp: on_manifest_request_def Let_def intro!: good_silent good_fail split: sum.split)

lemma good_on_asset_request: "good_step lz st' (on_asset_request lz fr st)"
  by (auto simp: on_asset_request_def intro!: good_quiet good_fail split: sum.split)

lemma good_on_ready:
  "sv_state st = kAwaitingReady \<Longrightarrow> good_step lz st (on_ready lz host fr st)"
  by (auto simp: on_ready_def Let_def intro!: good_fail split: sum.split)
    (simp add: good_step_def empty_step_def)

lemma good_on_frame: "good_step lz st (srv_on_frame cfg lz host fr st)"
  by (cases "sv_state st")
    (simp_all add: srv_on_frame_def good_fail good_on_hello good_on_auth good_on_manifest_request
      good_on_asset_request good_on_ready)

lemma good_handle: "good_step lz st (srv_handle cfg lz host ev st)"
proof (cases ev)
  case (Got_Frame fr)
  then show ?thesis by (simp add: good_on_frame)
next
  case Timed_Out
  then show ?thesis by (simp add: on_timeout_def good_noop good_fail)
next
  case Auth_Tick
  have "good_step lz st (poll_auth lz host st)"
    by (cases "sv_state st = kClosed") (simp_all add: good_poll, simp add: poll_auth_def good_noop)
  with Auth_Tick show ?thesis by simp
next
  case (Asset_Tick n)
  then show ?thesis by (simp add: pump_assets_def good_noop good_pump)
qed

section \<open>The order of the states\<close>

text \<open>Where one event may take the machine, besides staying or closing.\<close>

fun srv_next :: "server_state \<Rightarrow> server_state set" where
  "srv_next kAwaitingHello = {kAwaitingAuth}"
| "srv_next kAwaitingAuth = {kVerifyingAuth, kAwaitingAssetManifestRequest}"
| "srv_next kVerifyingAuth = {kAwaitingAssetManifestRequest}"
| "srv_next kAwaitingAssetManifestRequest = {kAwaitingAssetRequest}"
| "srv_next kAwaitingAssetRequest = {kStreamingAssets, kAwaitingReady}"
| "srv_next kStreamingAssets = {kAwaitingReady}"
| "srv_next kAwaitingReady = {kPlaying}"
| "srv_next kPlaying = {}"
| "srv_next kClosed = {}"

definition moves :: "server_state \<Rightarrow> 'a \<times> 't server_handshake \<Rightarrow> bool" where
  "moves s r \<longleftrightarrow> sv_state (snd r) \<in> insert s (insert kClosed (srv_next s))"

lemma moves_fail: "moves s (srv_fail lz reason msg st)"
  by (simp add: moves_def srv_fail_def)

lemma moves_finish:
  "kAwaitingAssetManifestRequest \<in> srv_next s \<Longrightarrow> moves s (finish_auth lz outcome st)"
  by (simp add: moves_def finish_auth_def Let_def)

lemma moves_external:
  "kAwaitingAssetManifestRequest \<in> srv_next s \<Longrightarrow> moves s (finish_external_auth lz host outcome st)"
  by (auto simp: finish_external_auth_def Let_def moves_finish split: option.split)

lemma moves_poll:
  assumes "kAwaitingAssetManifestRequest \<in> srv_next s" and "sv_state st \<in> insert s (srv_next s)"
  shows "moves s (poll_auth lz host st)"
proof -
  have "moves s (empty_step, st)" using assms(2) by (auto simp: moves_def)
  with moves_external [OF assms(1)] show ?thesis by (auto simp: poll_auth_def split: option.split)
qed

lemma moves_pump:
  "sv_state st = kStreamingAssets \<Longrightarrow> moves kStreamingAssets (pump_loop n lz host sent st)"
  by (induction n arbitrary: sent st)
    (auto simp: Let_def moves_fail split: option.split, simp_all add: moves_def)

lemma moves_handle: "moves (sv_state st) (srv_handle cfg lz host ev st)"
proof (cases ev)
  case (Got_Frame fr)
  then show ?thesis
    by (cases "sv_state st")
      (auto simp: srv_on_frame_def on_hello_def on_auth_def on_manifest_request_def on_asset_request_def
        on_ready_def Let_def moves_fail intro!: moves_finish moves_poll split: sum.split option.split,
        simp_all add: moves_def)
next
  case Timed_Out
  then show ?thesis by (simp add: on_timeout_def moves_fail, simp add: moves_def)
next
  case Auth_Tick
  show ?thesis
  proof (cases "sv_state st = kVerifyingAuth")
    case True
    then show ?thesis using Auth_Tick by (simp add: moves_poll)
  qed (simp add: Auth_Tick poll_auth_def moves_def)
next
  case (Asset_Tick n)
  then show ?thesis by (simp add: pump_assets_def moves_pump, simp add: moves_def)
qed

section \<open>Who is admitted\<close>

definition admitted :: "server_state set" where
  "admitted = {kAwaitingAssetManifestRequest, kAwaitingAssetRequest, kStreamingAssets,
     kAwaitingReady, kPlaying}"

text \<open>
  Under external authentication an admitted connection has a verified login, under the name
  the player carries (a resolved name that is empty falls back to the requested one); a
  challenge nonce is never empty; a verifying connection has a ticket to poll.
\<close>

definition srv_inv :: "server_config \<Rightarrow> 't server_handshake \<Rightarrow> bool" where
  "srv_inv cfg st \<longleftrightarrow>
     (sc_auth_mode cfg = kAuthExternal \<longrightarrow> sv_state st \<in> admitted \<longrightarrow>
        (\<exists>l. sv_login st = Some l \<and> (ld_name l = sv_player_name st \<or> ld_name l = []))) \<and>
     (sc_auth_mode cfg = kAuthExternal \<longrightarrow> sv_state st \<in> {kAwaitingAuth, kVerifyingAuth} \<longrightarrow>
        sv_auth_nonce st \<noteq> []) \<and>
     (sv_state st = kVerifyingAuth \<longrightarrow>
        sc_auth_mode cfg = kAuthExternal \<and> sv_auth_ticket st \<noteq> None)"

lemma inv_new: "srv_inv cfg new_server"
  by (simp add: srv_inv_def new_server_def admitted_def)

lemma inv_fail: "srv_inv cfg (snd (srv_fail lz reason msg st))"
  by (simp add: srv_inv_def srv_fail_def admitted_def)

lemma inv_denied: "srv_inv cfg (snd (finish_auth lz (denied reason) st))"
  by (simp add: srv_inv_def finish_auth_def denied_def Let_def admitted_def)

lemma inv_external: "srv_inv cfg (snd (finish_external_auth lz host outcome st))"
proof (cases "ao_ok outcome")
  case True
  then show ?thesis
    by (auto simp: finish_external_auth_def Let_def inv_denied split: option.split)
      (auto simp: srv_inv_def finish_auth_def Let_def admitted_def)
next
  case False
  then show ?thesis
    by (simp add: finish_external_auth_def finish_auth_def Let_def srv_inv_def admitted_def)
qed

lemma inv_internal:
  "sc_auth_mode cfg \<noteq> kAuthExternal \<Longrightarrow> srv_inv cfg (snd (finish_auth lz outcome st))"
  by (simp add: srv_inv_def finish_auth_def Let_def)

lemma inv_poll: "srv_inv cfg st \<Longrightarrow> srv_inv cfg (snd (poll_auth lz host st))"
  by (auto simp: poll_auth_def inv_external split: option.split)

lemma inv_pump:
  "srv_inv cfg st \<Longrightarrow> sv_state st = kStreamingAssets \<Longrightarrow> srv_inv cfg (snd (pump_loop n lz host sent st))"
proof (induction n arbitrary: sent st)
  case 0
  then show ?case by simp
next
  case (Suc n)
  have "srv_inv cfg (st\<lparr>sv_state := kAwaitingReady\<rparr>)"
    and "\<And>s. srv_inv cfg (st\<lparr>sv_asset_stream := s\<rparr>)"
    and "\<And>s. srv_inv cfg (st\<lparr>sv_asset_stream := s, sv_state := kAwaitingReady\<rparr>)"
    using Suc.prems by (simp_all add: srv_inv_def admitted_def)
  with Suc show ?case
    by (auto simp: Let_def inv_fail split: option.split)
qed

lemma inv_on_auth:
  assumes "srv_inv cfg st" and "sv_state st = kAwaitingAuth"
  shows "srv_inv cfg (snd (on_auth cfg lz host fr st))"
proof -
  have "srv_inv cfg (st\<lparr>sv_requested_name := n, sv_auth_ticket := Some t, sv_state := kVerifyingAuth\<rparr>)"
    if "sc_auth_mode cfg = kAuthExternal" for n t
    using assms that by (simp add: srv_inv_def admitted_def)
  then show ?thesis
    by (auto simp: on_auth_def Let_def inv_fail inv_internal intro!: inv_poll
        split: sum.split option.split)
qed

lemma inv_on_frame:
  assumes "srv_inv cfg st"
  shows "srv_inv cfg (snd (srv_on_frame cfg lz host fr st))"
proof (cases "sv_state st")
  case kAwaitingAuth
  with assms show ?thesis by (simp add: srv_on_frame_def inv_on_auth)
next
  case kAwaitingHello
  then show ?thesis
    by (auto simp: srv_on_frame_def on_hello_def Let_def inv_fail split: sum.split option.split)
      (simp_all add: srv_inv_def admitted_def)
qed (use assms in \<open>auto simp: srv_on_frame_def on_manifest_request_def on_asset_request_def on_ready_def
      Let_def inv_fail split: sum.split\<close>, (simp add: srv_inv_def admitted_def)+)

lemma inv_handle: "srv_inv cfg st \<Longrightarrow> srv_inv cfg (snd (srv_handle cfg lz host ev st))"
  by (cases ev) (simp_all add: inv_on_frame on_timeout_def inv_fail inv_poll pump_assets_def inv_pump)

lemma reachable_inv: "srv_reachable cfg lz st \<Longrightarrow> srv_inv cfg st"
  by (induction rule: srv_reachable.induct) (simp_all add: inv_new inv_handle)

text \<open>How an external login gets in: the verifier said so and the pack did not object.\<close>

definition verified_by :: "'t server_host \<Rightarrow> 't server_handshake \<Rightarrow> bool" where
  "verified_by host st \<longleftrightarrow> (\<exists>ticket outcome l name.
     sh_poll host ticket = Some outcome \<and> ao_ok outcome \<and> ao_login outcome = Some l \<and>
     sh_join_veto host name (l\<lparr>ld_name := name\<rparr>) \<and> sv_login st = Some (l\<lparr>ld_name := name\<rparr>))"

lemma external_verified:
  assumes "sh_poll host ticket = Some outcome"
    and "sv_state (snd (finish_external_auth lz host outcome st)) \<in> admitted"
  shows "verified_by host (snd (finish_external_auth lz host outcome st))"
  using assms
  by (auto simp: finish_external_auth_def finish_auth_def denied_def Let_def admitted_def verified_by_def
      split: if_splits option.splits)

lemma poll_verified:
  assumes "sv_state (snd (poll_auth lz host st)) \<in> admitted" and "sv_state st \<notin> admitted"
  shows "verified_by host (snd (poll_auth lz host st))"
  using assms external_verified [of host]
  by (auto simp: poll_auth_def split: if_splits option.splits)

lemma not_admitted [simp]:
  "sv_state (snd (srv_fail lz reason msg st)) \<notin> admitted"
  "sv_state (snd (finish_auth lz (denied why) st)) \<notin> admitted"
  by (simp_all add: srv_fail_def finish_auth_def denied_def Let_def admitted_def)

lemma auth_verified:
  assumes "sc_auth_mode cfg = kAuthExternal" and "sv_state (snd (on_auth cfg lz host fr st)) \<in> admitted"
  shows "verified_by host (snd (on_auth cfg lz host fr st))"
proof -
  have "sv_state (snd (poll_auth lz host (st\<lparr>sv_requested_name := n, sv_auth_ticket := Some t,
      sv_state := kVerifyingAuth\<rparr>))) \<in> admitted \<Longrightarrow>
    verified_by host (snd (poll_auth lz host (st\<lparr>sv_requested_name := n, sv_auth_ticket := Some t,
      sv_state := kVerifyingAuth\<rparr>)))" for n t
    by (rule poll_verified) (simp_all add: admitted_def)
  with assms show ?thesis
    by (auto simp: on_auth_def Let_def split: if_splits sum.splits option.splits)
qed

lemma verified_on_frame:
  assumes "sc_auth_mode cfg = kAuthExternal" and "sv_state st \<notin> admitted"
    and "sv_state (snd (srv_on_frame cfg lz host fr st)) \<in> admitted"
  shows "verified_by host (snd (srv_on_frame cfg lz host fr st))"
proof (cases "sv_state st = kAwaitingAuth")
  case True
  with assms auth_verified show ?thesis by (simp add: srv_on_frame_def)
next
  case False
  have "sv_state (snd (srv_on_frame cfg lz host fr st)) \<notin> srv_next (sv_state st)" if "sv_state st = kVerifyingAuth"
    using that by (simp add: srv_on_frame_def srv_fail_def)
  with False moves_handle [of st cfg lz host "Got_Frame fr"] assms show ?thesis
    by (cases "sv_state st") (auto simp: moves_def admitted_def)
qed

lemma admission_verified:
  assumes "sc_auth_mode cfg = kAuthExternal" and "sv_state st \<notin> admitted"
    and "sv_state (snd (srv_handle cfg lz host ev st)) \<in> admitted"
  shows "verified_by host (snd (srv_handle cfg lz host ev st))"
proof (cases ev)
  case (Got_Frame fr)
  with assms verified_on_frame show ?thesis by simp
next
  case Timed_Out
  with assms show ?thesis by (simp add: on_timeout_def split: if_splits)
next
  case Auth_Tick
  with assms poll_verified show ?thesis by simp
next
  case (Asset_Tick n)
  with assms show ?thesis by (auto simp: pump_assets_def admitted_def split: if_splits)
qed

end
