(* ===== verification/Asset_Stream.thy ===== *)
theory Asset_Stream
  imports Server_Handshake
begin

text \<open>
  What \<open>pump_assets\<close> is for: the canonical list of chunks of every requested file, in the order
  of the request, and the refinement of the paced stream to that list. A tick of budget \<open>n\<close> sends
  exactly the next \<open>n\<close> chunks of it, whatever the budgets of the ticks before were.
\<close>

section \<open>The chunks of a file\<close>

definition chunk_count :: "nat \<Rightarrow> nat" where
  "chunk_count n = (if n = 0 then 1 else (n + kAssetChunkBytes - 1) div kAssetChunkBytes)"

definition file_chunk :: "asset_hash \<Rightarrow> byte list \<Rightarrow> nat \<Rightarrow> s2c_asset_data" where
  "file_chunk hash bytes i = \<lparr>adat_hash = hash, adat_seq = of_nat i,
     adat_total_chunks = of_nat (chunk_count (length bytes)),
     adat_bytes = take kAssetChunkBytes (drop (i * kAssetChunkBytes) bytes)\<rparr>"

definition file_chunks :: "asset_hash \<Rightarrow> byte list \<Rightarrow> s2c_asset_data list" where
  "file_chunks hash bytes = map (file_chunk hash bytes) [0..<chunk_count (length bytes)]"

lemma chunk_bytes_pos [simp]: "0 < kAssetChunkBytes"
  by (simp add: kAssetChunkBytes_def)

lemma chunk_count_pos [simp]: "0 < chunk_count n"
  by (auto simp: chunk_count_def kAssetChunkBytes_def)

lemma length_file_chunks [simp]: "length (file_chunks hash bytes) = chunk_count (length bytes)"
  by (simp add: file_chunks_def)

lemma chunk_count_covers: "n \<le> chunk_count n * kAssetChunkBytes"
  by (auto simp: chunk_count_def kAssetChunkBytes_def)

lemma take_min_length: "take (min (length xs - i) n) (drop i xs) = take n (drop i xs)"
  by (cases "n \<le> length xs - i") (simp_all add: min_def)

lemma unat_of_nat_u32: "n < 2 ^ 32 \<Longrightarrow> unat (of_nat n :: u32) = n"
  by (simp add: unat_of_nat)

lemma concat_pieces:
  "concat (map (\<lambda>i. take c (drop (i * c) xs)) [0..<n]) = take (n * c) xs"
proof (induction n)
  case (Suc n)
  then show ?case using take_add [of "n * c" c xs] by (simp add: add.commute)
qed simp

lemma file_chunks_bytes: "concat (map adat_bytes (file_chunks hash bytes)) = bytes"
proof -
  have "concat (map adat_bytes (file_chunks hash bytes)) = take (chunk_count (length bytes) * kAssetChunkBytes) bytes"
    by (simp add: file_chunks_def file_chunk_def comp_def concat_pieces)
  then show ?thesis by (simp add: chunk_count_covers)
qed

lemma file_chunk_small: "c \<in> set (file_chunks hash bytes) \<Longrightarrow> length (adat_bytes c) \<le> kAssetChunkBytes"
  by (auto simp: file_chunks_def file_chunk_def)

section \<open>The stream\<close>

text \<open>What is left to send, and what the stream's own fields must say for it.\<close>

definition all_chunks :: "(asset_hash \<Rightarrow> byte list) \<Rightarrow> asset_hash list \<Rightarrow> s2c_asset_data list" where
  "all_chunks files hashes = concat (map (\<lambda>h. file_chunks h (files h)) hashes)"

definition remaining :: "(asset_hash \<Rightarrow> byte list) \<Rightarrow> asset_stream \<Rightarrow> s2c_asset_data list" where
  "remaining files s = drop (if as_current_loaded s then unat (as_current_chunk_idx s) else 0)
     (all_chunks files (drop (as_pending_idx s) (as_pending s)))"

definition loaded_ok :: "byte list \<Rightarrow> asset_stream \<Rightarrow> bool" where
  "loaded_ok bytes s \<longleftrightarrow> as_current_bytes s = bytes \<and>
     as_current_total_chunks s = of_nat (chunk_count (length bytes)) \<and>
     as_current_chunk_idx s < as_current_total_chunks s"

definition stream_ok :: "(asset_hash \<Rightarrow> byte list) \<Rightarrow> asset_stream \<Rightarrow> bool" where
  "stream_ok files s \<longleftrightarrow> as_pending_idx s < length (as_pending s) \<and>
     (as_current_loaded s \<longrightarrow> loaded_ok (files (as_pending s ! as_pending_idx s)) s)"

text \<open>The files the host serves: every requested one, none of more than \<open>2 ^ 32 - 1\<close> chunks.\<close>

definition serves :: "'t server_host \<Rightarrow> (asset_hash \<Rightarrow> byte list) \<Rightarrow> asset_hash list \<Rightarrow> bool" where
  "serves host files hashes \<longleftrightarrow> (\<forall>h \<in> set hashes. sh_asset_file_bytes host h = Some (files h) \<and>
     chunk_count (length (files h)) < 2 ^ 32)"

lemma load_file_total: "as_current_total_chunks (load_file bytes s) = of_nat (chunk_count (length bytes))"
  by (simp add: load_file_def chunk_count_def)

lemma load_file_ok:
  assumes "chunk_count (length bytes) < 2 ^ 32"
  shows "loaded_ok bytes (load_file bytes s)"
proof -
  have "(0 :: u32) < of_nat (chunk_count (length bytes))"
    using assms chunk_count_pos [of "length bytes"] by (simp add: word_less_nat_alt unat_of_nat_u32)
  then show ?thesis
    unfolding loaded_ok_def load_file_total by (simp add: load_file_def)
qed

lemma load_file_remaining:
  "\<not> as_current_loaded s \<Longrightarrow> remaining files (load_file bytes s) = remaining files s"
  by (simp add: remaining_def load_file_def)

lemma load_file_simps [simp]:
  "as_pending (load_file bytes s) = as_pending s"
  "as_pending_idx (load_file bytes s) = as_pending_idx s"
  "as_current_loaded (load_file bytes s)"
  by (simp_all add: load_file_def)

lemma current_chunk_is:
  assumes "loaded_ok bytes s"
  shows "current_chunk hash s = file_chunk hash bytes (unat (as_current_chunk_idx s))"
  using assms by (simp add: current_chunk_def file_chunk_def loaded_ok_def Let_def take_min_length)

lemma advance_simps [simp]: "as_pending (advance s) = as_pending s"
  by (simp add: advance_def Let_def)

text \<open>One chunk: the head of what remains goes out, its tail stays.\<close>

lemma advance_remaining:
  assumes "as_pending_idx s < length (as_pending s)" and "as_current_loaded s"
    and "chunk_count (length (files hash)) < 2 ^ 32" and "hash = as_pending s ! as_pending_idx s"
    and "loaded_ok (files hash) s"
  shows "remaining files s = current_chunk hash s # remaining files (advance s)"
    and "as_pending_idx (advance s) \<noteq> as_pending_idx s \<Longrightarrow> as_pending_idx (advance s) = Suc (as_pending_idx s)
       \<and> \<not> as_current_loaded (advance s)"
    and "as_pending_idx (advance s) = as_pending_idx s \<Longrightarrow> as_current_loaded (advance s) \<and>
       loaded_ok (files hash) (advance s)"
proof -
  let ?k = "unat (as_current_chunk_idx s)" and ?n = "chunk_count (length (files hash))"
  let ?F = "file_chunks hash (files hash)"
  have total: "unat (as_current_total_chunks s) = ?n"
    using assms(3,5) by (simp add: loaded_ok_def unat_of_nat_u32)
  have k: "?k < ?n" using assms(5) total by (simp add: loaded_ok_def word_less_nat_alt)
  have succ: "unat (as_current_chunk_idx s + 1) = Suc ?k"
    using k assms(3) by (simp add: unat_word_ariths(1))
  have pending: "drop (as_pending_idx s) (as_pending s) = hash # drop (Suc (as_pending_idx s)) (as_pending s)"
    using assms(1,4) by (simp add: Cons_nth_drop_Suc)
  have last: "as_current_total_chunks s \<le> as_current_chunk_idx s + 1 \<longleftrightarrow> ?n \<le> Suc ?k"
    by (simp add: word_le_nat_alt total succ)
  have piece: "drop ?k ?F = current_chunk hash s # drop (Suc ?k) ?F"
    using k by (subst Cons_nth_drop_Suc [symmetric])
      (simp_all add: current_chunk_is [OF assms(5)] file_chunks_def)
  show "remaining files s = current_chunk hash s # remaining files (advance s)"
    using k piece by (simp add: remaining_def all_chunks_def advance_def Let_def last succ pending assms(2))
  show "as_pending_idx (advance s) \<noteq> as_pending_idx s \<Longrightarrow> as_pending_idx (advance s) = Suc (as_pending_idx s)
       \<and> \<not> as_current_loaded (advance s)"
    by (simp add: advance_def Let_def split: if_splits)
  show "as_pending_idx (advance s) = as_pending_idx s \<Longrightarrow> as_current_loaded (advance s) \<and>
       loaded_ok (files hash) (advance s)"
    using assms(2,5) by (auto simp: advance_def Let_def loaded_ok_def split: if_splits)
qed

section \<open>The pump\<close>

text \<open>The file in hand: the one loaded, or the next one read from the host.\<close>

definition in_hand :: "(asset_hash \<Rightarrow> byte list) \<Rightarrow> asset_stream \<Rightarrow> asset_stream" where
  "in_hand files s = (if as_current_loaded s then s
     else load_file (files (as_pending s ! as_pending_idx s)) s)"

lemma in_hand_simps [simp]:
  "as_pending (in_hand files s) = as_pending s"
  "as_pending_idx (in_hand files s) = as_pending_idx s"
  "as_current_loaded (in_hand files s)"
  by (simp_all add: in_hand_def)

lemma in_hand_ok:
  assumes "stream_ok files s" and "serves host files (as_pending s)"
  shows "loaded_ok (files (as_pending s ! as_pending_idx s)) (in_hand files s)"
    and "chunk_count (length (files (as_pending s ! as_pending_idx s))) < 2 ^ 32"
    and "sh_asset_file_bytes host (as_pending s ! as_pending_idx s) = Some (files (as_pending s ! as_pending_idx s))"
    and "remaining files (in_hand files s) = remaining files s"
  using assms
  by (auto simp: in_hand_def stream_ok_def serves_def load_file_remaining intro!: load_file_ok)

lemma stream_step:
  assumes "stream_ok files s" and "serves host files (as_pending s)"
  shows "remaining files s =
      current_chunk (as_pending s ! as_pending_idx s) (in_hand files s) # remaining files (advance (in_hand files s))"
    and "as_pending_idx (advance (in_hand files s)) = as_pending_idx s \<or>
      as_pending_idx (advance (in_hand files s)) < length (as_pending s) \<Longrightarrow>
      stream_ok files (advance (in_hand files s))"
    and "as_pending_idx (advance (in_hand files s)) \<noteq> as_pending_idx s \<Longrightarrow>
      length (as_pending s) \<le> as_pending_idx (advance (in_hand files s)) \<Longrightarrow>
      remaining files (advance (in_hand files s)) = []"
proof -
  have idx: "as_pending_idx s < length (as_pending s)" using assms(1) by (simp add: stream_ok_def)
  let ?t = "in_hand files s" and ?h = "as_pending s ! as_pending_idx s"
  have hand: "as_pending_idx ?t < length (as_pending ?t)" "as_current_loaded ?t"
    "chunk_count (length (files ?h)) < 2 ^ 32" "?h = as_pending ?t ! as_pending_idx ?t"
    using idx in_hand_ok(2) [OF assms] by simp_all
  note step = advance_remaining [of ?t files ?h, OF hand in_hand_ok(1) [OF assms], unfolded in_hand_simps]
  show "remaining files s =
      current_chunk (as_pending s ! as_pending_idx s) (in_hand files s) # remaining files (advance (in_hand files s))"
    using step(1) by (simp add: in_hand_ok(4) [OF assms])
  show "as_pending_idx (advance (in_hand files s)) = as_pending_idx s \<or>
      as_pending_idx (advance (in_hand files s)) < length (as_pending s) \<Longrightarrow>
      stream_ok files (advance (in_hand files s))"
    using step(2,3) idx by (cases "as_pending_idx (advance (in_hand files s)) = as_pending_idx s")
      (simp_all add: stream_ok_def)
  show "as_pending_idx (advance (in_hand files s)) \<noteq> as_pending_idx s \<Longrightarrow>
      length (as_pending s) \<le> as_pending_idx (advance (in_hand files s)) \<Longrightarrow>
      remaining files (advance (in_hand files s)) = []"
    using step(2) by (simp add: remaining_def all_chunks_def)
qed

lemma remaining_nonempty:
  "stream_ok files s \<Longrightarrow> serves host files (as_pending s) \<Longrightarrow> remaining files s \<noteq> []"
  by (simp add: stream_step(1))

lemma pump_loop_Suc:
  assumes "stream_ok files (sv_asset_stream st)" and "serves host files (as_pending (sv_asset_stream st))"
  defines "s \<equiv> sv_asset_stream st" and "s' \<equiv> advance (in_hand files (sv_asset_stream st))"
  shows "pump_loop (Suc n) lz host sent st = (
    let out = sent @ [data_frame lz (current_chunk (as_pending s ! as_pending_idx s) (in_hand files s))] in
    if as_pending_idx s' \<noteq> as_pending_idx s \<and> length (as_pending s) \<le> as_pending_idx s'
    then (send_step out, st\<lparr>sv_asset_stream := s', sv_state := kAwaitingReady\<rparr>)
    else pump_loop n lz host out (st\<lparr>sv_asset_stream := s'\<rparr>))"
  using assms(1) in_hand_ok(3) [OF assms(1,2)]
  by (simp add: s_def s'_def Let_def stream_ok_def in_hand_def)

definition pumped :: "lz4_api option \<Rightarrow> (asset_hash \<Rightarrow> byte list) \<Rightarrow> nat \<Rightarrow> outgoing_frame list \<Rightarrow>
    't server_handshake \<Rightarrow> server_step \<times> 't server_handshake \<Rightarrow> bool" where
  "pumped lz files n sent st r \<longleftrightarrow> (\<exists>s'. r = (
       send_step (sent @ map (data_frame lz) (take n (remaining files (sv_asset_stream st)))),
       st\<lparr>sv_asset_stream := s', sv_state :=
         (if length (remaining files (sv_asset_stream st)) \<le> n then kAwaitingReady else kStreamingAssets)\<rparr>) \<and>
     as_pending s' = as_pending (sv_asset_stream st) \<and>
     remaining files s' = drop n (remaining files (sv_asset_stream st)) \<and>
     (n < length (remaining files (sv_asset_stream st)) \<longrightarrow> stream_ok files s'))"

lemma pump_loop_refines:
  assumes "stream_ok files (sv_asset_stream st)" and "serves host files (as_pending (sv_asset_stream st))"
    and "sv_state st = kStreamingAssets"
  shows "pumped lz files n sent st (pump_loop n lz host sent st)"
  using assms
proof (induction n arbitrary: sent st)
  case 0
  have "st\<lparr>sv_asset_stream := sv_asset_stream st, sv_state := kStreamingAssets\<rparr> = st"
    using "0.prems"(3) by (cases st) simp
  with 0 remaining_nonempty [OF "0.prems"(1,2)] show ?case
    by (auto simp: pumped_def intro!: exI [of _ "sv_asset_stream st"])
next
  case (Suc n)
  define s where "s = sv_asset_stream st"
  define s' where "s' = advance (in_hand files s)"
  have ok: "stream_ok files s" "serves host files (as_pending s)"
    using Suc.prems by (simp_all add: s_def)
  note step = stream_step [OF ok, folded s'_def]
  note loop = pump_loop_Suc [OF Suc.prems(1,2), folded s_def, folded s'_def]
  have pending: "as_pending s' = as_pending s" by (simp add: s'_def)
  show ?case
  proof (cases "as_pending_idx s' \<noteq> as_pending_idx s \<and> length (as_pending s) \<le> as_pending_idx s'")
    case True
    then show ?thesis
      unfolding loop pumped_def s_def [symmetric] using step(1,3) pending
      by (auto simp: Let_def intro!: exI [of _ s'])
  next
    case False
    let ?out = "sent @ [data_frame lz (current_chunk (as_pending s ! as_pending_idx s) (in_hand files s))]"
    have "pumped lz files n ?out (st\<lparr>sv_asset_stream := s'\<rparr>) (pump_loop n lz host ?out (st\<lparr>sv_asset_stream := s'\<rparr>))"
      by (rule Suc.IH) (use False step(2) pending ok Suc.prems in auto)
    with False show ?thesis
      unfolding loop pumped_def s_def [symmetric] using step(1) pending
      by (auto simp: Let_def)
  qed
qed

text \<open>A run of ticks with the given budgets, and all it sends.\<close>

primrec pump_ticks :: "lz4_api option \<Rightarrow> 't server_host \<Rightarrow> int list \<Rightarrow> 't server_handshake \<Rightarrow>
    outgoing_frame list \<times> 't server_handshake" where
  "pump_ticks lz host [] st = ([], st)"
| "pump_ticks lz host (n # ns) st = (
     let r = pump_assets n lz host st; rest = pump_ticks lz host ns (snd r) in
     (ss_send (fst r) @ fst rest, snd rest))"

lemma pump_ticks_ready:
  "sv_state st \<noteq> kStreamingAssets \<Longrightarrow> pump_ticks lz host ns st = ([], st)"
  by (induction ns) (simp_all add: pump_assets_def Let_def)

lemma pump_ticks_refines:
  assumes "stream_ok files (sv_asset_stream st)" and "serves host files (as_pending (sv_asset_stream st))"
    and "sv_state st = kStreamingAssets"
  shows "fst (pump_ticks lz host ns st) =
      map (data_frame lz) (take (sum_list (map nat ns)) (remaining files (sv_asset_stream st)))"
    and "sv_state (snd (pump_ticks lz host ns st)) =
      (if length (remaining files (sv_asset_stream st)) \<le> sum_list (map nat ns) then kAwaitingReady
       else kStreamingAssets)"
  using assms
proof (induction ns arbitrary: st)
  case Nil
  {
    case 1
    show ?case by simp
  next
    case 2
    then show ?case using remaining_nonempty [of files "sv_asset_stream st" host] by simp
  }
next
  case (Cons n ns)
  {
    fix st :: "'a server_handshake"
    assume ok: "stream_ok files (sv_asset_stream st)" "serves host files (as_pending (sv_asset_stream st))"
      "sv_state st = kStreamingAssets"
    define rem where "rem = remaining files (sv_asset_stream st)"
    have "pumped lz files (nat n) [] st (pump_assets n lz host st)"
      using pump_loop_refines [OF ok, of lz "nat n" "[]"] ok(3) by (simp add: pump_assets_def)
    then obtain s' where r: "pump_assets n lz host st = (send_step (map (data_frame lz) (take (nat n) rem)),
        st\<lparr>sv_asset_stream := s', sv_state := (if length rem \<le> nat n then kAwaitingReady else kStreamingAssets)\<rparr>)"
      and s': "as_pending s' = as_pending (sv_asset_stream st)" "remaining files s' = drop (nat n) rem"
        "nat n < length rem \<Longrightarrow> stream_ok files s'"
      by (auto simp: pumped_def rem_def)
    have "fst (pump_ticks lz host (n # ns) st) = map (data_frame lz) (take (sum_list (map nat (n # ns))) rem) \<and>
      sv_state (snd (pump_ticks lz host (n # ns) st)) =
        (if length rem \<le> sum_list (map nat (n # ns)) then kAwaitingReady else kStreamingAssets)"
    proof (cases "length rem \<le> nat n")
      case True
      then show ?thesis by (simp add: r Let_def pump_ticks_ready)
    next
      case False
      have "stream_ok files (sv_asset_stream (snd (pump_assets n lz host st)))"
        "serves host files (as_pending (sv_asset_stream (snd (pump_assets n lz host st))))"
        "sv_state (snd (pump_assets n lz host st)) = kStreamingAssets"
        using False s' ok by (simp_all add: r)
      note IH = Cons.IH [OF this]
      show ?thesis using False IH s'
        by (simp add: r Let_def take_add) linarith
    qed
  }
  note step = this
  {
    case 1
    then show ?case using step by blast
  next
    case 2
    then show ?case using step by blast
  }
qed

text \<open>The stream an \<open>AssetRequest\<close> starts.\<close>

lemma new_stream_ok: "missing \<noteq> [] \<Longrightarrow> stream_ok files (new_stream missing)"
  by (simp add: stream_ok_def new_stream_def)

lemma new_stream_remaining: "remaining files (new_stream missing) = all_chunks files missing"
  by (simp add: remaining_def new_stream_def)

lemma length_all_chunks: "length (all_chunks files hs) = (\<Sum>h\<leftarrow>hs. chunk_count (length (files h)))"
  by (simp add: all_chunks_def length_concat comp_def)

end
