(* ===== verification/Version_Req.thy ===== *)
theory Version_Req
  imports VB_Prelude "HOL-Library.Char_ord"
begin

text \<open>
  \<open>core/version_req.hpp\<close> and \<open>core/version_req.cpp\<close>: semantic versions, the requirement language
  of a content pack (\<open>*\<close>, comparators, caret and tilde, comma for and), its parser with every
  error message, matching, printing and the check of a pack against an engine version. Text is
  a HOL \<open>string\<close>; \<open>find\<close> and \<open>substr\<close> from a position are \<open>takeWhile\<close> and \<open>dropWhile\<close> on the
  rest of the text. A version part has at most six characters, so \<open>int\<close> never overflows
  (\<open>parse_part_bounds\<close>). The build's own version is generated and stays an argument.
\<close>

section \<open>Versions\<close>

datatype semver = SemVer (major: int) (minor: int) (patch: int)

instantiation semver :: linorder
begin

definition less_eq_semver :: "semver \<Rightarrow> semver \<Rightarrow> bool" where
  "less_eq_semver v w \<longleftrightarrow> major v < major w \<or> major v = major w \<and>
     (minor v < minor w \<or> minor v = minor w \<and> patch v \<le> patch w)"

definition less_semver :: "semver \<Rightarrow> semver \<Rightarrow> bool" where
  "less_semver v w \<longleftrightarrow> major v < major w \<or> major v = major w \<and>
     (minor v < minor w \<or> minor v = minor w \<and> patch v < patch w)"

instance
  by standard (auto simp: less_eq_semver_def less_semver_def intro: semver.expand)

end

definition is_digit :: "char \<Rightarrow> bool" where
  "is_digit c \<longleftrightarrow> 48 \<le> (of_char c :: nat) \<and> (of_char c :: nat) \<le> 57"

definition digit_value :: "char \<Rightarrow> nat" where
  "digit_value c = of_char c - 48"

definition decimal :: "string \<Rightarrow> nat" where
  "decimal s = foldl (\<lambda>n c. 10 * n + digit_value c) 0 s"

text \<open>\<open>std::from_chars\<close> in base ten: an optional minus sign, then the longest run of digits.\<close>

definition from_chars :: "string \<Rightarrow> (int \<times> string) option" where
  "from_chars s = (
     let neg = (s \<noteq> [] \<and> hd s = CHR ''-'');
         ds = (if neg then tl s else s);
         run = takeWhile is_digit ds in
     if run = [] then None
     else Some (if neg then - int (decimal run) else int (decimal run), dropWhile is_digit ds))"

definition parse_part :: "string \<Rightarrow> int option" where
  "parse_part s = (
     if s = [] \<or> length s > 6 then None
     else case from_chars s of None \<Rightarrow> None | Some (n, rest) \<Rightarrow> if rest = [] then Some n else None)"

definition is_blank :: "char \<Rightarrow> bool" where
  "is_blank c \<longleftrightarrow> c = CHR '' '' \<or> c = CHR 0x09"

definition trim :: "string \<Rightarrow> string" where
  "trim s = rev (dropWhile is_blank (rev (dropWhile is_blank s)))"

lemma rest_shorter: "dropWhile P xs = y # ys \<Longrightarrow> length ys < length xs"
  by (metis Suc_le_lessD length_Cons length_dropWhile_le)

text \<open>The parts of a dotted version: at most three.\<close>

function parse_slots :: "int list \<Rightarrow> string \<Rightarrow> int list option" where
  "parse_slots slots text = (
     if length slots = 3 then None
     else case parse_part (takeWhile (\<lambda>c. c \<noteq> CHR ''.'') text) of
         None \<Rightarrow> None
       | Some n \<Rightarrow> (case dropWhile (\<lambda>c. c \<noteq> CHR ''.'') text of
             [] \<Rightarrow> Some (slots @ [n])
           | dot # rest \<Rightarrow> parse_slots (slots @ [n]) rest))"
  by pat_completeness auto
termination
  by (relation "measure (\<lambda>(slots, text). length text)")
    (auto dest!: rest_shorter)

declare parse_slots.simps [simp del]

record partial =
  pa_v :: semver
  pa_parts :: nat

definition parse_partial :: "string \<Rightarrow> partial option" where
  "parse_partial text = (
     let text = trim text;
         text = (if text \<noteq> [] \<and> hd text = CHR ''v'' then tl text else text) in
     if text = [] then None
     else case parse_slots [] text of
         None \<Rightarrow> None
       | Some slots \<Rightarrow>
           let part = (\<lambda>i. if i < length slots then slots ! i else 0) in
           Some \<lparr>pa_v = SemVer (part 0) (part 1) (part 2), pa_parts = length slots\<rparr>)"

definition parse_semver :: "string \<Rightarrow> semver option" where
  "parse_semver text = map_option pa_v (parse_partial text)"

definition engine_version :: "string \<Rightarrow> semver" where
  "engine_version kVersionNumeric = (case parse_semver kVersionNumeric of None \<Rightarrow> SemVer 0 0 0 | Some v \<Rightarrow> v)"

definition digit_char :: "nat \<Rightarrow> char" where
  "digit_char d = char_of (48 + d)"

function show_nat :: "nat \<Rightarrow> string" where
  "show_nat n = (if n < 10 then [digit_char n] else show_nat (n div 10) @ [digit_char (n mod 10)])"
  by pat_completeness auto
termination
  by (relation "measure id") auto

declare show_nat.simps [simp del]

definition show_int :: "int \<Rightarrow> string" where
  "show_int i = (if i < 0 then ''-'' @ show_nat (nat (- i)) else show_nat (nat i))"

definition show_semver :: "semver \<Rightarrow> string" where
  "show_semver v = show_int (major v) @ ''.'' @ show_int (minor v) @ ''.'' @ show_int (patch v)"

section \<open>Requirements\<close>

datatype op = kGe | kGt | kLe | kLt | kEq

record comparator =
  co_op :: op
  co_version :: semver

type_synonym version_req = "comparator list"

text \<open>\<open>^\<close> and \<open>~\<close>: the first version above what they admit.\<close>

definition caret_upper :: "partial \<Rightarrow> semver" where
  "caret_upper p = (
     let v = pa_v p in
     if major v > 0 \<or> pa_parts p = 1 then SemVer (major v + 1) 0 0
     else if minor v > 0 \<or> pa_parts p = 2 then SemVer 0 (minor v + 1) 0
     else SemVer 0 0 (patch v + 1))"

definition tilde_upper :: "partial \<Rightarrow> semver" where
  "tilde_upper p = (if pa_parts p = 1 then SemVer (major (pa_v p) + 1) 0 0
     else SemVer (major (pa_v p)) (minor (pa_v p) + 1) 0)"

datatype item_kind = Plain op | Caret | Tilde

definition item_kind :: "string \<Rightarrow> (item_kind \<times> string) option" where
  "item_kind item = (
     if take 2 item = ''>='' then Some (Plain kGe, drop 2 item)
     else if take 2 item = ''<='' then Some (Plain kLe, drop 2 item)
     else if hd item = CHR ''>'' then Some (Plain kGt, drop 1 item)
     else if hd item = CHR ''<'' then Some (Plain kLt, drop 1 item)
     else if hd item = CHR ''='' then Some (Plain kEq, drop 1 item)
     else if hd item = CHR ''^'' then Some (Caret, drop 1 item)
     else if hd item = CHR ''~'' then Some (Tilde, drop 1 item)
     else None)"

definition parse_item :: "string \<Rightarrow> string + comparator list" where
  "parse_item item = (case item_kind item of
       None \<Rightarrow> Inl (''expected a comparator (>=, >, <=, <, =, ^, ~) in '' @ [CHR 0x22] @ item @ [CHR 0x22])
     | Some (kind, rest) \<Rightarrow> (case parse_partial rest of
           None \<Rightarrow> Inl (''invalid version '' @ [CHR 0x22] @ trim rest @ [CHR 0x22] @
                      '' (expected MAJOR[.MINOR[.PATCH]])'')
         | Some p \<Rightarrow> Inr (case kind of
               Plain op \<Rightarrow> [\<lparr>co_op = op, co_version = pa_v p\<rparr>]
             | Caret \<Rightarrow> [\<lparr>co_op = kGe, co_version = pa_v p\<rparr>, \<lparr>co_op = kLt, co_version = caret_upper p\<rparr>]
             | Tilde \<Rightarrow> [\<lparr>co_op = kGe, co_version = pa_v p\<rparr>, \<lparr>co_op = kLt, co_version = tilde_upper p\<rparr>])))"

function parse_items :: "string \<Rightarrow> string \<Rightarrow> string + version_req" where
  "parse_items text rest = (
     let item = trim (takeWhile (\<lambda>c. c \<noteq> CHR '','') rest) in
     if item = [] then Inl (''empty comparator in '' @ [CHR 0x22] @ text @ [CHR 0x22])
     else case parse_item item of
         Inl e \<Rightarrow> Inl e
       | Inr cs \<Rightarrow> (case dropWhile (\<lambda>c. c \<noteq> CHR '','') rest of
             [] \<Rightarrow> Inr cs
           | comma # rest' \<Rightarrow> map_sum id (\<lambda>more. cs @ more) (parse_items text rest')))"
  by pat_completeness auto
termination
  by (relation "measure (\<lambda>(text, rest). length rest)")
    (auto dest!: rest_shorter)

declare parse_items.simps [simp del]

definition parse_req :: "string \<Rightarrow> string + version_req" where
  "parse_req text = (
     let text = trim text in
     if text = [] then Inl (''empty version requirement (use '' @ [CHR 0x22] @ ''*'' @ [CHR 0x22] @ '' for any version)'')
     else if text = ''*'' then Inr []
     else parse_items text text)"

fun admits :: "comparator \<Rightarrow> semver \<Rightarrow> bool" where
  "admits c v = (case co_op c of
       kGe \<Rightarrow> v \<ge> co_version c
     | kGt \<Rightarrow> v > co_version c
     | kLe \<Rightarrow> v \<le> co_version c
     | kLt \<Rightarrow> v < co_version c
     | kEq \<Rightarrow> v = co_version c)"

primrec matches :: "version_req \<Rightarrow> semver \<Rightarrow> bool" where
  "matches [] v = True"
| "matches (c # cs) v = (if \<not> admits c v then False else matches cs v)"

fun show_op :: "op \<Rightarrow> string" where
  "show_op kGe = ''>=''"
| "show_op kGt = ''>''"
| "show_op kLe = ''<=''"
| "show_op kLt = ''<''"
| "show_op kEq = ''=''"

definition show_comparator :: "comparator \<Rightarrow> string" where
  "show_comparator c = show_op (co_op c) @ show_semver (co_version c)"

primrec show_more :: "string \<Rightarrow> version_req \<Rightarrow> string" where
  "show_more out [] = out"
| "show_more out (c # cs) = show_more ((if out \<noteq> [] then out @ '', '' else out) @ show_comparator c) cs"

definition show_req :: "version_req \<Rightarrow> string" where
  "show_req req = (if req = [] then ''*'' else show_more [] req)"

primrec lower_bound :: "version_req \<Rightarrow> semver option" where
  "lower_bound [] = None"
| "lower_bound (c # cs) =
     (if co_op c = kGe \<or> co_op c = kEq \<or> co_op c = kGt then Some (co_version c) else lower_bound cs)"

record engine_req_check =
  rc_ok :: bool
  rc_warning :: bool
  rc_message :: string

definition check_engine_req :: "string \<Rightarrow> string option \<Rightarrow> semver \<Rightarrow> engine_req_check" where
  "check_engine_req pack_name req_text engine = (case req_text of
       None \<Rightarrow> \<lparr>rc_ok = True, rc_warning = True, rc_message =
           ''pack '' @ [CHR 0x27] @ pack_name @ [CHR 0x27] @ '' has no engine_version_req in pack.toml; treating it as '' @
           [CHR 0x22] @ ''*'' @ [CHR 0x22] @ '' (add e.g. engine_version_req = '' @ [CHR 0x22] @ ''>='' @
           show_semver engine @ [CHR 0x22] @ '')''\<rparr>
     | Some t \<Rightarrow> (case parse_req t of
           Inl err \<Rightarrow> \<lparr>rc_ok = False, rc_warning = False, rc_message =
               ''pack '' @ [CHR 0x27] @ pack_name @ [CHR 0x27] @ '': invalid engine_version_req '' @ [CHR 0x22] @ t @
               [CHR 0x22] @ '' in pack.toml: '' @ err\<rparr>
         | Inr req \<Rightarrow>
             if \<not> matches req engine
             then \<lparr>rc_ok = False, rc_warning = False, rc_message =
               ''pack '' @ [CHR 0x27] @ pack_name @ [CHR 0x27] @ '' requires engine '' @ show_req req @
               '' (pack.toml engine_version_req); this build is '' @ show_semver engine\<rparr>
             else \<lparr>rc_ok = True, rc_warning = False, rc_message = []\<rparr>))"

section \<open>Decimal text\<close>

lemma is_digit_char [simp]: "d < 10 \<Longrightarrow> is_digit (digit_char d)" "d < 10 \<Longrightarrow> digit_value (digit_char d) = d"
  by (simp_all add: is_digit_def digit_char_def digit_value_def)

lemma show_nat_nonempty [simp]: "show_nat n \<noteq> []"
  by (subst show_nat.simps) simp

lemma decimal_append: "decimal (s @ [c]) = 10 * decimal s + digit_value c"
  by (simp add: decimal_def)

lemma show_nat_digits: "c \<in> set (show_nat n) \<Longrightarrow> is_digit c"
  by (induction n rule: show_nat.induct) (subst (asm) (2) show_nat.simps, auto split: if_splits)

lemma decimal_show_nat: "decimal (show_nat n) = n"
proof (induction n rule: show_nat.induct)
  case (1 n)
  show ?case
  proof (cases "n < 10")
    case True
    then show ?thesis by (subst show_nat.simps) (simp add: decimal_def)
  next
    case False
    then show ?thesis using 1 by (subst show_nat.simps) (simp add: decimal_append)
  qed
qed

lemma length_show_nat: "n < 10 ^ k \<Longrightarrow> 0 < k \<Longrightarrow> length (show_nat n) \<le> k"
proof (induction n arbitrary: k rule: show_nat.induct)
  case (1 n)
  show ?case
  proof (cases "n < 10")
    case True
    then show ?thesis using 1(3) by (subst show_nat.simps) simp
  next
    case False
    then obtain j where k: "k = Suc j" "0 < j"
      using 1(2,3) by (cases k; cases "k - 1") auto
    have "n div 10 < 10 ^ j" using 1(2) k by (simp add: div_less_iff_less_mult mult.commute)
    then have "length (show_nat (n div 10)) \<le> j" using 1(1) [OF False] k by simp
    then show ?thesis using False k by (subst show_nat.simps) simp
  qed
qed

lemma digit_plain: "is_digit c \<Longrightarrow> c \<noteq> CHR ''.''" "is_digit c \<Longrightarrow> c \<noteq> CHR '',''" "is_digit c \<Longrightarrow> c \<noteq> CHR ''-''"
  "is_digit c \<Longrightarrow> \<not> is_blank c" "is_digit c \<Longrightarrow> c \<noteq> CHR ''v''" "is_digit c \<Longrightarrow> c \<noteq> CHR ''=''"
  by (auto simp: is_digit_def is_blank_def)

lemma from_chars_show: "from_chars (show_nat n) = Some (int n, [])"
proof -
  have "takeWhile is_digit (show_nat n) = show_nat n" "dropWhile is_digit (show_nat n) = []"
    by (simp_all add: takeWhile_eq_all_conv dropWhile_eq_Nil_conv show_nat_digits)
  moreover have "hd (show_nat n) \<noteq> CHR ''-''"
    using digit_plain(3) [OF show_nat_digits [OF hd_in_set]] show_nat_nonempty by blast
  ultimately show ?thesis
    by (simp add: from_chars_def Let_def decimal_show_nat
        del: takeWhile_eq_all_conv dropWhile_eq_Nil_conv)
qed

lemma parse_part_show: "n < 10 ^ 6 \<Longrightarrow> parse_part (show_nat n) = Some (int n)"
  using length_show_nat [of n 6] by (simp add: parse_part_def from_chars_show)

text \<open>The numbers of a parsed version: at most six digits, a minus sign included.\<close>

lemma digit_value_le: "is_digit c \<Longrightarrow> digit_value c \<le> 9"
  unfolding is_digit_def digit_value_def by linarith

lemma decimal_less: "(\<And>c. c \<in> set s \<Longrightarrow> is_digit c) \<Longrightarrow> decimal s < 10 ^ length s"
proof (induction s rule: rev_induct)
  case Nil
  then show ?case by (simp add: decimal_def)
next
  case (snoc c s)
  then have "decimal s < 10 ^ length s" "digit_value c \<le> 9" by (auto intro: digit_value_le)
  then show ?case by (simp add: decimal_append)
qed

lemma parse_part_bounds:
  assumes "parse_part s = Some n"
  shows "\<bar>n\<bar> < 10 ^ 6"
proof -
  let ?d = "if s \<noteq> [] \<and> hd s = CHR ''-'' then tl s else s"
  let ?run = "takeWhile is_digit ?d"
  have "length ?run \<le> 6"
    using assms by (auto simp: parse_part_def split: if_splits intro: order.trans [OF length_takeWhile_le])
  then have "(10 :: nat) ^ length ?run \<le> 10 ^ 6" by (rule power_increasing) simp
  moreover have "decimal ?run < 10 ^ length ?run"
    by (rule decimal_less) (blast dest: set_takeWhileD)
  ultimately have "decimal ?run < 10 ^ 6" by linarith
  moreover have "\<bar>n\<bar> = int (decimal ?run)"
    using assms by (auto simp: parse_part_def from_chars_def Let_def split: if_splits)
  ultimately show ?thesis by simp
qed

section \<open>Versions as text\<close>

lemma takeWhile_stop: "(\<And>c. c \<in> set s \<Longrightarrow> P c) \<Longrightarrow> \<not> P d \<Longrightarrow> takeWhile P (s @ d # t) = s"
  by (simp add: takeWhile_append2)

lemma dropWhile_stop: "(\<And>c. c \<in> set s \<Longrightarrow> P c) \<Longrightarrow> \<not> P d \<Longrightarrow> dropWhile P (s @ d # t) = d # t"
  by (simp add: dropWhile_append2)

lemma parse_slots_dot:
  assumes "n < 10 ^ 6" and "length slots < 3"
  shows "parse_slots slots (show_nat n @ CHR ''.'' # rest) = parse_slots (slots @ [int n]) rest"
proof -
  have "takeWhile (\<lambda>c. c \<noteq> CHR ''.'') (show_nat n @ CHR ''.'' # rest) = show_nat n"
    and "dropWhile (\<lambda>c. c \<noteq> CHR ''.'') (show_nat n @ CHR ''.'' # rest) = CHR ''.'' # rest"
    by (rule takeWhile_stop dropWhile_stop; use digit_plain(1) [OF show_nat_digits] in blast)+
  then show ?thesis
    using assms by (subst parse_slots.simps) (simp add: parse_part_show)
qed

lemma parse_slots_last:
  assumes "n < 10 ^ 6" and "length slots < 3"
  shows "parse_slots slots (show_nat n) = Some (slots @ [int n])"
proof -
  have "takeWhile (\<lambda>c. c \<noteq> CHR ''.'') (show_nat n) = show_nat n"
    and "dropWhile (\<lambda>c. c \<noteq> CHR ''.'') (show_nat n) = []"
    using digit_plain(1) [OF show_nat_digits] by (auto simp: takeWhile_eq_all_conv dropWhile_eq_Nil_conv)
  then show ?thesis
    using assms by (subst parse_slots.simps)
      (simp add: parse_part_show del: takeWhile_eq_all_conv dropWhile_eq_Nil_conv)
qed

lemma trim_plain:
  assumes "s \<noteq> []" and "\<not> is_blank (hd s)" and "\<not> is_blank (last s)"
  shows "trim s = s"
proof -
  have "dropWhile is_blank s = s" using assms(1,2) by (cases s) simp_all
  moreover have "dropWhile is_blank (rev s) = rev s" using assms(1,3) by (cases s rule: rev_cases) simp_all
  ultimately show ?thesis by (simp add: trim_def)
qed

definition small_version :: "semver \<Rightarrow> bool" where
  "small_version v \<longleftrightarrow> 0 \<le> major v \<and> major v < 10 ^ 6 \<and> 0 \<le> minor v \<and> minor v < 10 ^ 6 \<and>
     0 \<le> patch v \<and> patch v < 10 ^ 6"

text \<open>A version written with one to three parts.\<close>

fun dotted :: "nat list \<Rightarrow> string" where
  "dotted [] = []"
| "dotted [n] = show_nat n"
| "dotted (n # ns) = show_nat n @ CHR ''.'' # dotted ns"

definition version_of :: "nat list \<Rightarrow> semver" where
  "version_of ns = (let part = (\<lambda>i. if i < length ns then int (ns ! i) else 0) in SemVer (part 0) (part 1) (part 2))"

definition version_parts :: "nat list \<Rightarrow> bool" where
  "version_parts ns \<longleftrightarrow> ns \<noteq> [] \<and> length ns \<le> 3 \<and> (\<forall>n \<in> set ns. n < 10 ^ 6)"

lemma parse_slots_dotted:
  "ns \<noteq> [] \<Longrightarrow> length slots + length ns \<le> 3 \<Longrightarrow> \<forall>n \<in> set ns. n < 10 ^ 6 \<Longrightarrow>
   parse_slots slots (dotted ns) = Some (slots @ map int ns)"
  by (induction ns arbitrary: slots rule: dotted.induct) (simp_all add: parse_slots_dot parse_slots_last)

lemma dotted_nonempty: "ns \<noteq> [] \<Longrightarrow> dotted ns \<noteq> []"
  by (cases ns rule: dotted.cases) simp_all

lemma dotted_ends:
  assumes "ns \<noteq> []"
  shows "is_digit (hd (dotted ns))" and "is_digit (last (dotted ns))"
  using assms show_nat_digits [OF hd_in_set] show_nat_digits [OF last_in_set]
  by (induction ns rule: dotted.induct) (simp_all add: hd_append last_append dotted_nonempty)

lemma dotted_chars: "c \<in> set (dotted ns) \<Longrightarrow> is_digit c \<or> c = CHR ''.''"
  by (induction ns rule: dotted.induct) (auto dest: show_nat_digits)

lemma trim_dotted:
  assumes "ns \<noteq> []"
  shows "trim (dotted ns) = dotted ns"
  using dotted_nonempty [OF assms] dotted_ends [OF assms] digit_plain(4) by (intro trim_plain) blast+

lemma parse_partial_dotted:
  assumes "version_parts ns"
  shows "parse_partial (dotted ns) = Some \<lparr>pa_v = version_of ns, pa_parts = length ns\<rparr>"
proof -
  have ns: "ns \<noteq> []" "length ns \<le> 3" "\<forall>n \<in> set ns. n < 10 ^ 6"
    using assms by (simp_all add: version_parts_def)
  have "hd (dotted ns) \<noteq> CHR ''v''" using dotted_ends [OF ns(1)] digit_plain(5) by blast
  moreover have "parse_slots [] (dotted ns) = Some (map int ns)"
    using parse_slots_dotted [of ns "[]"] ns by simp
  ultimately show ?thesis
    using dotted_nonempty [OF ns(1)] trim_dotted [OF ns(1)]
    by (simp add: parse_partial_def version_of_def Let_def)
qed

lemma small_dotted:
  assumes "small_version v"
  obtains ns where "version_parts ns" and "show_semver v = dotted ns" and "version_of ns = v" and "length ns = 3"
proof
  let ?ns = "[nat (major v), nat (minor v), nat (patch v)]"
  show "version_parts ?ns" "show_semver v = dotted ?ns" "version_of ?ns = v" "length ?ns = 3"
    using assms
    by (simp_all add: small_version_def version_parts_def show_semver_def show_int_def version_of_def nat_less_iff
        Let_def)
qed

section \<open>One requirement\<close>

lemma dotted_head:
  assumes "version_parts ns"
  obtains c cs where "dotted ns = c # cs" and "is_digit c" and "c \<noteq> CHR ''=''"
proof -
  have "ns \<noteq> []" using assms by (simp add: version_parts_def)
  then show ?thesis
    using that dotted_nonempty dotted_ends(1) digit_plain(6) by (metis list.exhaust_sel)
qed

lemma item_kind_ops:
  assumes "version_parts ns"
  shows "item_kind (show_op op @ dotted ns) = Some (Plain op, dotted ns)"
    and "item_kind (CHR ''^'' # dotted ns) = Some (Caret, dotted ns)"
    and "item_kind (CHR ''~'' # dotted ns) = Some (Tilde, dotted ns)"
proof -
  obtain c cs where "dotted ns = c # cs" "c \<noteq> CHR ''=''" using assms by (rule dotted_head)
  then show "item_kind (show_op op @ dotted ns) = Some (Plain op, dotted ns)"
    and "item_kind (CHR ''^'' # dotted ns) = Some (Caret, dotted ns)"
    and "item_kind (CHR ''~'' # dotted ns) = Some (Tilde, dotted ns)"
    by (cases op; simp add: item_kind_def numeral_2_eq_2)+
qed

lemma takeWhile_all: "(\<And>c. c \<in> set s \<Longrightarrow> P c) \<Longrightarrow> takeWhile P s = s \<and> dropWhile P s = []"
  by (simp add: takeWhile_eq_all_conv dropWhile_eq_Nil_conv)

lemma parse_req_single:
  assumes "version_parts ns" and "\<not> is_blank p" and "p \<noteq> CHR '',''" and "parse_item (p # dotted ns) = Inr cs"
  shows "parse_req (p # dotted ns) = Inr cs"
proof -
  let ?t = "p # dotted ns"
  have ns: "ns \<noteq> []" using assms(1) by (simp add: version_parts_def)
  have no_comma: "c \<noteq> CHR '',''" if "c \<in> set ?t" for c
    using that assms(3) dotted_chars digit_plain(2) by fastforce
  have trim: "trim ?t = ?t"
    using assms(2) dotted_nonempty [OF ns] dotted_ends(2) [OF ns] digit_plain(4)
    by (intro trim_plain) auto
  have whole: "takeWhile (\<lambda>c. c \<noteq> CHR '','') ?t = ?t" "dropWhile (\<lambda>c. c \<noteq> CHR '','') ?t = []"
    using takeWhile_all [of ?t "\<lambda>c. c \<noteq> CHR '',''"] no_comma by blast+
  have "parse_items ?t ?t = Inr cs"
    unfolding parse_items.simps [of ?t ?t] whole trim Let_def using assms(4) by simp
  then show ?thesis
    unfolding parse_req_def trim Let_def using dotted_nonempty [OF ns] by simp
qed

definition nonneg_version :: "semver \<Rightarrow> bool" where
  "nonneg_version v \<longleftrightarrow> 0 \<le> major v \<and> 0 \<le> minor v \<and> 0 \<le> patch v"

text \<open>What \<open>^\<close> means: the leftmost part that is not zero must not change.\<close>

definition caret_admits :: "nat list \<Rightarrow> semver \<Rightarrow> bool" where
  "caret_admits ns w = (let v = version_of ns in v \<le> w \<and>
     (if major v \<noteq> 0 \<or> length ns = 1 then major w = major v
      else if minor v \<noteq> 0 \<or> length ns = 2 then major w = 0 \<and> minor w = minor v
      else w = v))"

definition tilde_admits :: "nat list \<Rightarrow> semver \<Rightarrow> bool" where
  "tilde_admits ns w = (let v = version_of ns in v \<le> w \<and> major w = major v \<and>
     (length ns = 1 \<or> minor w = minor v))"

lemma version_of_nonneg: "nonneg_version (version_of ns)"
  by (simp add: nonneg_version_def version_of_def Let_def)

lemma version_of_short:
  "length ns = 1 \<Longrightarrow> minor (version_of ns) = 0 \<and> patch (version_of ns) = 0"
  "length ns = 2 \<Longrightarrow> patch (version_of ns) = 0"
  by (simp_all add: version_of_def Let_def)

lemma below_major:
  "nonneg_version w \<Longrightarrow> w < SemVer (a + 1) 0 0 \<longleftrightarrow> major w \<le> a"
  by (auto simp: less_semver_def nonneg_version_def)

lemma below_minor:
  "nonneg_version w \<Longrightarrow> w < SemVer a (b + 1) 0 \<longleftrightarrow> major w < a \<or> major w = a \<and> minor w \<le> b"
  by (auto simp: less_semver_def nonneg_version_def)

lemma below_patch: "w < SemVer a b (c + 1) \<longleftrightarrow> w \<le> SemVer a b c"
  by (simp add: less_semver_def less_eq_semver_def zle_add1_eq_le)

lemma above_parts: "v \<le> w \<Longrightarrow> major v \<le> major w" "v \<le> w \<Longrightarrow> major v = major w \<Longrightarrow> minor v \<le> minor w"
  by (auto simp: less_eq_semver_def)

lemma caret_matches:
  assumes "nonneg_version w"
  shows "matches [\<lparr>co_op = kGe, co_version = version_of ns\<rparr>,
    \<lparr>co_op = kLt, co_version = caret_upper \<lparr>pa_v = version_of ns, pa_parts = length ns\<rparr>\<rparr>] w = caret_admits ns w"
proof -
  obtain a b c where v: "version_of ns = SemVer a b c" by (cases "version_of ns")
  have pos: "0 \<le> a" "0 \<le> b" using version_of_nonneg [of ns] by (simp_all add: v nonneg_version_def)
  note above = above_parts [of "SemVer a b c" w]
  consider "0 < a \<or> length ns = 1" | "a = 0" "0 < b \<or> length ns = 2" "length ns \<noteq> 1"
    | "a = 0" "b = 0" "length ns \<noteq> 1" "length ns \<noteq> 2"
    using pos by fastforce
  then show ?thesis
  proof cases
    case 1
    then show ?thesis using above by (auto simp: caret_upper_def caret_admits_def v below_major [OF assms])
  next
    case 2
    then show ?thesis using above by (auto simp: caret_upper_def caret_admits_def v below_minor [OF assms])
  next
    case 3
    then show ?thesis
      using below_patch [of w 0 0 c] by (auto simp: caret_upper_def caret_admits_def v)
  qed
qed

lemma tilde_matches:
  assumes "nonneg_version w"
  shows "matches [\<lparr>co_op = kGe, co_version = version_of ns\<rparr>,
    \<lparr>co_op = kLt, co_version = tilde_upper \<lparr>pa_v = version_of ns, pa_parts = length ns\<rparr>\<rparr>] w = tilde_admits ns w"
proof -
  obtain a b c where v: "version_of ns = SemVer a b c" by (cases "version_of ns")
  note above = above_parts [of "SemVer a b c" w]
  show ?thesis
    using above
    by (auto simp: tilde_upper_def tilde_admits_def v below_major [OF assms] below_minor [OF assms])
qed

lemma caret_parses:
  assumes "version_parts ns"
  shows "parse_req (CHR ''^'' # dotted ns) = Inr [\<lparr>co_op = kGe, co_version = version_of ns\<rparr>,
    \<lparr>co_op = kLt, co_version = caret_upper \<lparr>pa_v = version_of ns, pa_parts = length ns\<rparr>\<rparr>]"
  by (rule parse_req_single [OF assms])
    (simp_all add: is_blank_def parse_item_def item_kind_ops [OF assms] parse_partial_dotted [OF assms])

lemma tilde_parses:
  assumes "version_parts ns"
  shows "parse_req (CHR ''~'' # dotted ns) = Inr [\<lparr>co_op = kGe, co_version = version_of ns\<rparr>,
    \<lparr>co_op = kLt, co_version = tilde_upper \<lparr>pa_v = version_of ns, pa_parts = length ns\<rparr>\<rparr>]"
  by (rule parse_req_single [OF assms])
    (simp_all add: is_blank_def parse_item_def item_kind_ops [OF assms] parse_partial_dotted [OF assms])

section \<open>Printing and reading back\<close>

lemma show_more_is: "out \<noteq> [] \<Longrightarrow> show_more out cs = out @ concat (map (\<lambda>c. '', '' @ show_comparator c) cs)"
  by (induction cs arbitrary: out) simp_all

lemma show_op_facts [simp]:
  "show_op op \<noteq> []" "hd (show_op op) \<noteq> CHR ''*''" "\<not> is_blank (hd (show_op op))"
  "CHR '','' \<notin> set (show_op op)"
  by (cases op; simp add: is_blank_def)+

definition small_comparator :: "comparator \<Rightarrow> bool" where
  "small_comparator c \<longleftrightarrow> small_version (co_version c)"

lemma comparator_text:
  assumes "small_comparator c"
  shows "show_comparator c \<noteq> []" and "trim (show_comparator c) = show_comparator c"
    and "trim (CHR '' '' # show_comparator c) = show_comparator c"
    and "CHR '','' \<notin> set (show_comparator c)" and "parse_item (show_comparator c) = Inr [c]"
    and "hd (show_comparator c) = hd (show_op (co_op c))" and "is_digit (last (show_comparator c))"
proof -
  obtain ns where ns: "version_parts ns" "show_semver (co_version c) = dotted ns" "version_of ns = co_version c"
    using assms small_dotted unfolding small_comparator_def by blast
  have ne: "ns \<noteq> []" using ns(1) by (simp add: version_parts_def)
  show nonempty: "show_comparator c \<noteq> []" and first: "hd (show_comparator c) = hd (show_op (co_op c))"
    by (simp_all add: show_comparator_def)
  show last: "is_digit (last (show_comparator c))"
    using ne by (simp add: show_comparator_def ns(2) dotted_nonempty dotted_ends)
  show trim: "trim (show_comparator c) = show_comparator c"
    using nonempty first last digit_plain(4) by (intro trim_plain) auto
  then show "trim (CHR '' '' # show_comparator c) = show_comparator c"
    by (simp add: trim_def is_blank_def)
  show "CHR '','' \<notin> set (show_comparator c)"
    using dotted_chars [of "CHR '',''" ns] digit_plain(2) by (auto simp: show_comparator_def ns(2))
  show "parse_item (show_comparator c) = Inr [c]"
    by (simp add: parse_item_def show_comparator_def ns item_kind_ops [OF ns(1)] parse_partial_dotted [OF ns(1)])
qed

lemma parse_items_shown:
  assumes "\<forall>c \<in> set (c # cs). small_comparator c" and "pre = [] \<or> pre = '' ''"
  shows "parse_items t (pre @ show_comparator c @ concat (map (\<lambda>c. '', '' @ show_comparator c) cs)) = Inr (c # cs)"
  using assms
proof (induction cs arbitrary: c pre)
  case Nil
  let ?s = "pre @ show_comparator c"
  note c = comparator_text [of c]
  have whole: "takeWhile (\<lambda>c. c \<noteq> CHR '','') ?s = ?s \<and> dropWhile (\<lambda>c. c \<noteq> CHR '','') ?s = []"
    using Nil c(4) by (intro takeWhile_all) auto
  have "trim ?s = show_comparator c" using Nil c(2,3) by auto
  then have "parse_items t ?s = Inr [c]"
    unfolding parse_items.simps [of t ?s] whole [THEN conjunct1] whole [THEN conjunct2] Let_def
    using Nil c(1,5) by simp
  then show ?case by simp
next
  case (Cons d cs)
  let ?s = "pre @ show_comparator c"
  let ?more = "'' '' @ show_comparator d @ concat (map (\<lambda>c. '', '' @ show_comparator c) cs)"
  note c = comparator_text [of c]
  have no_comma: "x \<noteq> CHR '',''" if "x \<in> set ?s" for x using that Cons.prems c(4) by auto
  have parts: "takeWhile (\<lambda>c. c \<noteq> CHR '','') (?s @ CHR '','' # ?more) = ?s"
    "dropWhile (\<lambda>c. c \<noteq> CHR '','') (?s @ CHR '','' # ?more) = CHR '','' # ?more"
    by (rule takeWhile_stop dropWhile_stop; use no_comma in blast)+
  have "trim ?s = show_comparator c" using Cons.prems c(2,3) by auto
  moreover have "parse_items t ?more = Inr (d # cs)" using Cons.IH [of d "'' ''"] Cons.prems by simp
  ultimately have "parse_items t (?s @ CHR '','' # ?more) = Inr (c # d # cs)"
    unfolding parse_items.simps [of t "?s @ CHR '','' # ?more"] parts Let_def
    using Cons.prems c(1,5) by simp
  then show ?case by simp
qed

lemma req_roundtrip:
  assumes "\<forall>c \<in> set req. small_comparator c"
  shows "parse_req (show_req req) = Inr req"
proof (cases req)
  case Nil
  have "trim ''*'' = ''*''" by (intro trim_plain) (simp_all add: is_blank_def)
  with Nil show ?thesis by (simp add: show_req_def parse_req_def)
next
  case (Cons c cs)
  let ?s = "show_comparator c @ concat (map (\<lambda>c. '', '' @ show_comparator c) cs)"
  have shown: "show_req req = ?s" and c: "small_comparator c"
    using comparator_text(1) assms by (simp_all add: show_req_def Cons show_more_is)
  have nonempty: "?s \<noteq> []" using comparator_text(1) [OF c] by simp
  have first: "hd ?s = hd (show_op (co_op c))" using comparator_text(1,6) [OF c] by simp
  have "is_digit (last ?s)"
  proof (cases cs rule: rev_cases)
    case Nil
    then show ?thesis using comparator_text(7) [OF c] by simp
  next
    case (snoc ds d)
    then have "small_comparator d" using assms by (simp add: Cons)
    then show ?thesis using comparator_text(1,7) [of d] by (simp add: snoc last_append)
  qed
  then have trim: "trim ?s = ?s"
    using nonempty first digit_plain(4) by (intro trim_plain) auto
  have "?s \<noteq> ''*''" using first show_op_facts(2) [of "co_op c"] by (metis list.sel(1))
  moreover have "parse_items ?s ?s = Inr (c # cs)"
    using parse_items_shown [of c cs "[]" ?s] assms by (simp add: Cons)
  ultimately show ?thesis
    unfolding shown parse_req_def trim Let_def using nonempty by (simp add: Cons)
qed

text \<open>\<open>lower_bound\<close> bounds what is admitted; a requirement passes the check exactly when it parses and matches.\<close>

lemma matches_iff: "matches req v \<longleftrightarrow> (\<forall>c \<in> set req. admits c v)"
  by (induction req) auto

lemma lower_bound_le: "matches req v \<Longrightarrow> lower_bound req = Some b \<Longrightarrow> b \<le> v"
  by (induction req) (auto split: if_splits op.splits)

lemma check_ok_iff:
  "rc_ok (check_engine_req name text engine) \<longleftrightarrow>
     (case text of None \<Rightarrow> True | Some t \<Rightarrow> \<exists>req. parse_req t = Inr req \<and> matches req engine)"
  by (auto simp: check_engine_req_def split: option.split sum.split)

text \<open>A minus sign is read as part of a number.\<close>

lemma negative_minor_parses: "parse_semver ''0.-3'' = Some (SemVer 0 (-3) 0)"
  by code_simp

end
