(* ===== verification/Client_Handshake.thy ===== *)
theory Client_Handshake
  imports Server_Handshake Version_Req
begin

text \<open>
  \<open>ClientHandshake\<close> of \<open>net/handshake.hpp\<close> and \<open>net/handshake.cpp\<close>: the other end of the join. As
  on the server side the hooks are fields of a record every operation takes, a ticket is a value
  polled through the host and an empty \<open>std::function\<close> is \<open>None\<close>. What the build fixes - LZ4,
  \<open>VB_WITH_AUTOMATION\<close> and the generated version text - is a record of its own.
\<close>

definition unlit :: "bstring \<Rightarrow> string" where
  "unlit s = map (\<lambda>b. char_of (unat b)) s"

record client_build =
  cb_lz4 :: "lz4_api option"
  cb_with_automation :: bool
  cb_version_numeric :: string

datatype client_status =
    cConnecting
  | cAwaitingChallenge
  | cSigningIn
  | cAuthenticating
  | cAwaitingAssetManifest
  | cSyncingAssets
  | cSyncing
  | cJoined
  | cFailed

record token_poll =
  tp_done :: bool
  tp_token :: bstring
  tp_error :: bstring

record 't client_host =
  ch_last_known_manifest_hash :: asset_hash
  ch_assets_missing :: "s2c_asset_manifest \<Rightarrow> asset_hash list"
  ch_on_asset_chunk :: "s2c_asset_data \<Rightarrow> bool"
  ch_assets_all_received :: "s2c_asset_data \<Rightarrow> bool"
  ch_obtain_token :: "(s2c_auth_challenge \<Rightarrow> bstring option) option"
  ch_begin_sign_in :: "(s2c_auth_challenge \<Rightarrow> 't option) option"
  ch_poll :: "'t \<Rightarrow> token_poll"

definition default_client_host :: "'t client_host" where
  "default_client_host = \<lparr>ch_last_known_manifest_hash = \<lparr>ah_lo = 0, ah_hi = 0\<rparr>,
     ch_assets_missing = (\<lambda>_. []), ch_on_asset_chunk = (\<lambda>_. True), ch_assets_all_received = (\<lambda>_. True),
     ch_obtain_token = None, ch_begin_sign_in = None,
     ch_poll = (\<lambda>_. \<lparr>tp_done = False, tp_token = [], tp_error = []\<rparr>)\<rparr>"

record client_config =
  cc_player_name :: bstring
  cc_token :: bstring
  cc_client_version :: bstring
  cc_client_nonce :: u64
  cc_client_flags :: u8

record client_step =
  cs_send :: "outgoing_frame list"
  cs_completed :: bool
  cs_failed :: bool
  cs_failure_reason :: bstring

record 't client_handshake =
  cl_status :: client_status
  cl_server_info :: "s2c_server_info option"
  cl_join_accept :: "s2c_join_accept option"
  cl_resolved_name :: bstring
  cl_challenge :: "s2c_auth_challenge option"
  cl_sign_in_ticket :: "'t option"

definition quiet :: client_step where
  "quiet = \<lparr>cs_send = [], cs_completed = False, cs_failed = False, cs_failure_reason = []\<rparr>"

definition sends :: "outgoing_frame list \<Rightarrow> client_step" where
  "sends fs = quiet\<lparr>cs_send := fs\<rparr>"

definition new_client :: "'t client_handshake" where
  "new_client = \<lparr>cl_status = cConnecting, cl_server_info = None, cl_join_accept = None,
     cl_resolved_name = [], cl_challenge = None, cl_sign_in_ticket = None\<rparr>"

definition cl_fail :: "bstring \<Rightarrow> 't client_handshake \<Rightarrow> client_step \<times> 't client_handshake" where
  "cl_fail reason cl = (quiet\<lparr>cs_failed := True, cs_failure_reason := reason\<rparr>, cl\<lparr>cl_status := cFailed\<rparr>)"

definition auth_frame :: "client_build \<Rightarrow> bstring \<Rightarrow> bstring \<Rightarrow> outgoing_frame" where
  "auth_frame bld name token =
     frame_message (cb_lz4 bld) kC2SAuth (encode_C2SAuth \<lparr>auth_player_name = name, auth_token = token\<rparr>) 0"

definition send_auth :: "client_build \<Rightarrow> client_config \<Rightarrow> bstring \<Rightarrow> 't client_handshake \<Rightarrow>
    client_step \<times> 't client_handshake" where
  "send_auth bld cfg token cl =
     (if length token > kMaxAuthTokenBytes then cl_fail (lit ''sign-in token too large'') cl
      else (sends [auth_frame bld (cc_player_name cfg) token], cl\<lparr>cl_status := cAuthenticating\<rparr>))"

definition poll_sign_in :: "client_build \<Rightarrow> client_config \<Rightarrow> 't client_host \<Rightarrow> 't client_handshake \<Rightarrow>
    client_step \<times> 't client_handshake" where
  "poll_sign_in bld cfg host cl = (
     if cl_status cl \<noteq> cSigningIn then (quiet, cl)
     else case cl_sign_in_ticket cl of
         None \<Rightarrow> (quiet, cl)
       | Some ticket \<Rightarrow>
           let p = ch_poll host ticket in
           if \<not> tp_done p then (quiet, cl)
           else
             let cl = cl\<lparr>cl_sign_in_ticket := None\<rparr> in
             if tp_error p \<noteq> [] \<or> tp_token p = []
             then cl_fail (if tp_error p = [] then lit ''sign-in cancelled'' else tp_error p) cl
             else send_auth bld cfg (tp_token p) cl)"

definition cancel_sign_in :: "'t client_handshake \<Rightarrow> client_step \<times> 't client_handshake" where
  "cancel_sign_in cl =
     (if cl_status cl \<noteq> cSigningIn then (quiet, cl)
      else cl_fail (lit ''sign-in cancelled'') (cl\<lparr>cl_sign_in_ticket := None\<rparr>))"

definition start :: "client_build \<Rightarrow> client_config \<Rightarrow> 't client_handshake \<Rightarrow>
    client_step \<times> 't client_handshake" where
  "start bld cfg cl = (
     let flags = (if cb_with_automation bld then cc_client_flags cfg OR kClientFlagAutomation
                  else cc_client_flags cfg) in
     (sends [frame_message (cb_lz4 bld) kC2SHello (encode_C2SHello
        \<lparr>hello_engine_protocol_version = kEngineProtocolVersion, hello_client_nonce = cc_client_nonce cfg,
         hello_client_version = cc_client_version cfg, hello_client_flags = flags\<rparr>) 0],
      cl\<lparr>cl_status := cConnecting\<rparr>))"

text \<open>The engine requirement of the server's pack: the reason to refuse it, if there is one.\<close>

definition engine_req_error :: "client_build \<Rightarrow> bstring \<Rightarrow> bstring option" where
  "engine_req_error bld req_text = (
     if req_text = [] then None
     else
       let mine = engine_version (cb_version_numeric bld) in
       case parse_req (unlit req_text) of
         Inl req_error \<Rightarrow>
           Some (lit (''this server'' @ [CHR 0x27] @ ''s pack has an invalid engine_version_req ('' @ req_error @ '')''))
       | Inr req \<Rightarrow>
           if \<not> matches req mine
           then Some (lit (''this server'' @ [CHR 0x27] @ ''s pack needs Voxel Browser '' @ show_req req @
             ''; you have '' @ show_semver mine @
             (case lower_bound req of None \<Rightarrow> [] | Some _ \<Rightarrow> '' -- run `vb update`'')))
           else None)"

definition on_server_info :: "client_build \<Rightarrow> client_config \<Rightarrow> frame \<Rightarrow> 't client_handshake \<Rightarrow>
    client_step \<times> 't client_handshake" where
  "on_server_info bld cfg fr cl = (
     if mh_type (fr_header fr) \<noteq> kS2CServerInfo then cl_fail (lit ''expected ServerInfo'') cl
     else case decode_S2CServerInfo (fr_payload fr) of
       Inl e \<Rightarrow> cl_fail (lit ''malformed ServerInfo'') cl
     | Inr info \<Rightarrow>
         if info_engine_protocol_version info \<noteq> kEngineProtocolVersion
         then cl_fail (lit ''engine protocol version mismatch'') cl
         else case engine_req_error bld (info_engine_version_req info) of
           Some reason \<Rightarrow> cl_fail reason cl
         | None \<Rightarrow>
             let cl = cl\<lparr>cl_server_info := Some info\<rparr> in
             if info_auth_mode info = kAuthExternal then (quiet, cl\<lparr>cl_status := cAwaitingChallenge\<rparr>)
             else (sends [auth_frame bld (cc_player_name cfg) (cc_token cfg)],
                   cl\<lparr>cl_status := cAuthenticating\<rparr>))"

definition on_challenge :: "client_build \<Rightarrow> client_config \<Rightarrow> 't client_host \<Rightarrow> frame \<Rightarrow>
    't client_handshake \<Rightarrow> client_step \<times> 't client_handshake" where
  "on_challenge bld cfg host fr cl = (
     if mh_type (fr_header fr) \<noteq> kS2CAuthChallenge then cl_fail (lit ''expected AuthChallenge'') cl
     else case decode_S2CAuthChallenge (fr_payload fr) of
       Inl e \<Rightarrow> cl_fail (lit ''malformed AuthChallenge'') cl
     | Inr challenge \<Rightarrow>
         let cl = cl\<lparr>cl_challenge := Some challenge\<rparr> in
         (case ch_begin_sign_in host of
           Some begin_sign_in \<Rightarrow> (case begin_sign_in challenge of
               None \<Rightarrow> cl_fail (lit ''sign-in is unavailable'') (cl\<lparr>cl_sign_in_ticket := None\<rparr>)
             | Some ticket \<Rightarrow>
                 poll_sign_in bld cfg host (cl\<lparr>cl_sign_in_ticket := Some ticket, cl_status := cSigningIn\<rparr>))
         | None \<Rightarrow>
             let token = (case ch_obtain_token host of
                 Some obtain_token \<Rightarrow> obtain_token challenge
               | None \<Rightarrow> if cc_token cfg \<noteq> [] then Some (cc_token cfg) else None) in
             (case token of
               None \<Rightarrow> cl_fail (lit ''sign-in required but cancelled or unavailable'') cl
             | Some token \<Rightarrow>
                 if token = [] then cl_fail (lit ''sign-in required but cancelled or unavailable'') cl
                 else send_auth bld cfg token cl)))"

definition on_auth_result :: "client_build \<Rightarrow> 't client_host \<Rightarrow> frame \<Rightarrow> 't client_handshake \<Rightarrow>
    client_step \<times> 't client_handshake" where
  "on_auth_result bld host fr cl = (
     if mh_type (fr_header fr) \<noteq> kS2CAuthResult then cl_fail (lit ''expected AuthResult'') cl
     else case decode_S2CAuthResult (fr_payload fr) of
       Inl e \<Rightarrow> cl_fail (lit ''malformed AuthResult'') cl
     | Inr result \<Rightarrow>
         if \<not> auth_result_ok result
         then cl_fail (if auth_result_reason result = [] then lit ''authentication rejected''
                       else auth_result_reason result) cl
         else (sends [frame_message (cb_lz4 bld) kC2SAssetManifestRequest (encode_C2SAssetManifestRequest
                 \<lparr>amreq_known_manifest_hash = ch_last_known_manifest_hash host\<rparr>) 0],
               cl\<lparr>cl_resolved_name := auth_result_resolved_name result, cl_status := cAwaitingAssetManifest\<rparr>))"

definition ready_frame :: "client_build \<Rightarrow> outgoing_frame" where
  "ready_frame bld = frame_message (cb_lz4 bld) kC2SReady (encode_C2SReady ()) 0"

definition on_asset_manifest :: "client_build \<Rightarrow> 't client_host \<Rightarrow> frame \<Rightarrow> 't client_handshake \<Rightarrow>
    client_step \<times> 't client_handshake" where
  "on_asset_manifest bld host fr cl = (
     if mh_type (fr_header fr) \<noteq> kS2CAssetManifest then cl_fail (lit ''expected AssetManifest'') cl
     else case decode_S2CAssetManifest (fr_payload fr) of
       Inl e \<Rightarrow> cl_fail (lit ''malformed AssetManifest'') cl
     | Inr m \<Rightarrow>
         let missing = ch_assets_missing host m;
             request = frame_message (cb_lz4 bld) kC2SAssetRequest (encode_C2SAssetRequest \<lparr>areq_missing = missing\<rparr>) 0 in
         if missing = [] then (sends [request, ready_frame bld], cl\<lparr>cl_status := cSyncing\<rparr>)
         else (sends [request], cl\<lparr>cl_status := cSyncingAssets\<rparr>))"

definition on_asset_data :: "client_build \<Rightarrow> 't client_host \<Rightarrow> frame \<Rightarrow> 't client_handshake \<Rightarrow>
    client_step \<times> 't client_handshake" where
  "on_asset_data bld host fr cl = (
     if mh_type (fr_header fr) \<noteq> kS2CAssetData then cl_fail (lit ''expected AssetData'') cl
     else case decode_S2CAssetData (fr_payload fr) of
       Inl e \<Rightarrow> cl_fail (lit ''malformed AssetData'') cl
     | Inr d \<Rightarrow>
         if \<not> ch_on_asset_chunk host d
         then cl_fail (lit ''asset transfer failed (hash mismatch or size cap)'') cl
         else if \<not> ch_assets_all_received host d then (quiet, cl)
         else (sends [ready_frame bld], cl\<lparr>cl_status := cSyncing\<rparr>))"

definition on_join_accept :: "frame \<Rightarrow> 't client_handshake \<Rightarrow> client_step \<times> 't client_handshake" where
  "on_join_accept fr cl = (
     if mh_type (fr_header fr) \<noteq> kS2CJoinAccept then cl_fail (lit ''expected JoinAccept'') cl
     else case decode_S2CJoinAccept (fr_payload fr) of
       Inl e \<Rightarrow> cl_fail (lit ''malformed JoinAccept'') cl
     | Inr accept \<Rightarrow>
         (quiet\<lparr>cs_completed := True\<rparr>, cl\<lparr>cl_join_accept := Some accept, cl_status := cJoined\<rparr>))"

definition cl_on_frame :: "client_build \<Rightarrow> client_config \<Rightarrow> 't client_host \<Rightarrow> frame \<Rightarrow>
    't client_handshake \<Rightarrow> client_step \<times> 't client_handshake" where
  "cl_on_frame bld cfg host fr cl = (
     if mh_type (fr_header fr) = kS2CDisconnect
     then cl_fail (case decode_S2CDisconnect (fr_payload fr) of
         Inl e \<Rightarrow> lit ''disconnected'' | Inr msg \<Rightarrow> disc_message msg) cl
     else case cl_status cl of
         cConnecting \<Rightarrow> on_server_info bld cfg fr cl
       | cAwaitingChallenge \<Rightarrow> on_challenge bld cfg host fr cl
       | cSigningIn \<Rightarrow> cl_fail (lit ''unexpected message while signing in'') cl
       | cAuthenticating \<Rightarrow> on_auth_result bld host fr cl
       | cAwaitingAssetManifest \<Rightarrow> on_asset_manifest bld host fr cl
       | cSyncingAssets \<Rightarrow> on_asset_data bld host fr cl
       | cSyncing \<Rightarrow> on_join_accept fr cl
       | cJoined \<Rightarrow> (quiet, cl)
       | cFailed \<Rightarrow> (quiet, cl))"

datatype client_event = Frame_In frame | Sign_In_Tick | Cancel_Sign_In

primrec cl_handle :: "client_build \<Rightarrow> client_config \<Rightarrow> 't client_host \<Rightarrow> client_event \<Rightarrow>
    't client_handshake \<Rightarrow> client_step \<times> 't client_handshake" where
  "cl_handle bld cfg host (Frame_In fr) cl = cl_on_frame bld cfg host fr cl"
| "cl_handle bld cfg host Sign_In_Tick cl = poll_sign_in bld cfg host cl"
| "cl_handle bld cfg host Cancel_Sign_In cl = cancel_sign_in cl"

inductive cl_reachable :: "client_build \<Rightarrow> client_config \<Rightarrow> 't client_handshake \<Rightarrow> bool"
  for bld :: client_build and cfg :: client_config where
  cl_started: "cl_reachable bld cfg (snd (start bld cfg new_client))"
| cl_stepped: "cl_reachable bld cfg cl \<Longrightarrow> cl_reachable bld cfg (snd (cl_handle bld cfg host ev cl))"

section \<open>The shape of a step\<close>

lemma quiet_simps [simp]:
  "cs_send quiet = []" "\<not> cs_completed quiet" "\<not> cs_failed quiet"
  "cs_send (sends fs) = fs" "\<not> cs_completed (sends fs)" "\<not> cs_failed (sends fs)"
  by (simp_all add: quiet_def sends_def)

lemma fail_simps [simp]:
  "cl_status (snd (cl_fail reason cl)) = cFailed" "cs_failed (fst (cl_fail reason cl))"
  "cs_send (fst (cl_fail reason cl)) = []" "\<not> cs_completed (fst (cl_fail reason cl))"
  "cl_server_info (snd (cl_fail reason cl)) = cl_server_info cl"
  "cl_join_accept (snd (cl_fail reason cl)) = cl_join_accept cl"
  by (simp_all add: cl_fail_def)

fun cl_next :: "client_status \<Rightarrow> client_status set" where
  "cl_next cConnecting = {cAwaitingChallenge, cAuthenticating}"
| "cl_next cAwaitingChallenge = {cSigningIn, cAuthenticating}"
| "cl_next cSigningIn = {cAuthenticating}"
| "cl_next cAuthenticating = {cAwaitingAssetManifest}"
| "cl_next cAwaitingAssetManifest = {cSyncingAssets, cSyncing}"
| "cl_next cSyncingAssets = {cSyncing}"
| "cl_next cSyncing = {cJoined}"
| "cl_next cJoined = {}"
| "cl_next cFailed = {}"

text \<open>
  A step of the client: it fails exactly when it enters \<open>cFailed\<close>, and then sends nothing; it
  completes exactly when it enters \<open>cJoined\<close>, with the server's \<open>JoinAccept\<close> kept; otherwise the
  status stays or moves along the order of the protocol.
\<close>

definition cl_good :: "'t client_handshake \<Rightarrow> client_step \<times> 't client_handshake \<Rightarrow> bool" where
  "cl_good cl r \<longleftrightarrow>
     (if cs_failed (fst r)
      then cl_status (snd r) = cFailed \<and> cs_send (fst r) = [] \<and> \<not> cs_completed (fst r)
      else if cs_completed (fst r)
      then cl_status cl = cSyncing \<and> cl_status (snd r) = cJoined \<and> cl_join_accept (snd r) \<noteq> None \<and>
        cs_send (fst r) = []
      else cl_status (snd r) \<in> insert (cl_status cl) (cl_next (cl_status cl) - {cJoined}))"

lemma cl_good_fail: "cl_good cl (cl_fail reason cl')"
  by (simp add: cl_good_def)

lemma cl_good_noop: "cl_good cl (quiet, cl)"
  by (simp add: cl_good_def)

lemma cl_good_sends:
  "cl_status cl' \<in> insert (cl_status cl) (cl_next (cl_status cl) - {cJoined}) \<Longrightarrow> cl_good cl (sends fs, cl')"
  by (simp add: cl_good_def)

lemma cl_good_quiet:
  "cl_status cl' \<in> insert (cl_status cl) (cl_next (cl_status cl) - {cJoined}) \<Longrightarrow> cl_good cl (quiet, cl')"
  by (simp add: cl_good_def)

lemma cl_good_send_auth:
  "cAuthenticating \<in> cl_next (cl_status cl) \<Longrightarrow> cl_good cl (send_auth bld cfg token cl')"
  by (auto simp: send_auth_def intro: cl_good_fail cl_good_sends)

lemma cl_good_poll:
  assumes "cl_status cl' \<in> insert (cl_status cl) (cl_next (cl_status cl) - {cJoined})"
    and "cl_status cl' = cSigningIn \<Longrightarrow> cAuthenticating \<in> cl_next (cl_status cl)"
  shows "cl_good cl (poll_sign_in bld cfg host cl')"
  using assms by (auto simp: poll_sign_in_def Let_def cl_good_fail cl_good_quiet cl_good_send_auth
      split: option.split)

lemma cl_good_on_frame: "cl_good cl (cl_on_frame bld cfg host fr cl)"
proof (cases "cl_status cl")
  case cAwaitingChallenge
  then show ?thesis
    by (auto simp: cl_on_frame_def on_challenge_def Let_def intro!: cl_good_fail cl_good_send_auth cl_good_poll
        split: sum.split option.split)
next
  case cSyncing
  then show ?thesis
    by (auto simp: cl_on_frame_def on_join_accept_def cl_good_fail split: sum.split) (simp add: cl_good_def)
qed (auto simp: cl_on_frame_def on_server_info_def on_auth_result_def on_asset_manifest_def on_asset_data_def
    Let_def cl_good_noop intro!: cl_good_fail cl_good_quiet cl_good_sends split: sum.split option.split)

lemma cl_good_handle: "cl_good cl (cl_handle bld cfg host ev cl)"
proof (cases ev)
  case Sign_In_Tick
  then show ?thesis by (simp add: cl_good_poll)
next
  case Cancel_Sign_In
  then show ?thesis by (simp add: cancel_sign_in_def cl_good_noop cl_good_fail)
qed (simp add: cl_good_on_frame)

section \<open>What a joined client has checked\<close>

definition engine_fits :: "client_build \<Rightarrow> bstring \<Rightarrow> bool" where
  "engine_fits bld req_text \<longleftrightarrow> req_text = [] \<or>
     (\<exists>req. parse_req (unlit req_text) = Inr req \<and> matches req (engine_version (cb_version_numeric bld)))"

lemma engine_req_error_none: "engine_req_error bld t = None \<longleftrightarrow> engine_fits bld t"
  by (auto simp: engine_req_error_def engine_fits_def Let_def split: sum.split)

definition server_ok :: "client_build \<Rightarrow> s2c_server_info \<Rightarrow> bool" where
  "server_ok bld info \<longleftrightarrow> info_engine_protocol_version info = kEngineProtocolVersion \<and>
     engine_fits bld (info_engine_version_req info)"

definition cl_inv :: "client_build \<Rightarrow> 't client_handshake \<Rightarrow> bool" where
  "cl_inv bld cl \<longleftrightarrow>
     (\<forall>info. cl_server_info cl = Some info \<longrightarrow> server_ok bld info) \<and>
     (cl_status cl \<notin> {cConnecting, cFailed} \<longrightarrow> cl_server_info cl \<noteq> None) \<and>
     (cl_status cl \<in> {cAwaitingChallenge, cSigningIn} \<longrightarrow>
        (\<exists>info. cl_server_info cl = Some info \<and> info_auth_mode info = kAuthExternal)) \<and>
     (cl_status cl = cSigningIn \<longrightarrow> cl_sign_in_ticket cl \<noteq> None) \<and>
     (cl_status cl = cJoined \<longrightarrow> cl_join_accept cl \<noteq> None)"

lemma cl_inv_fail: "cl_inv bld cl \<Longrightarrow> cl_inv bld (snd (cl_fail reason cl))"
  by (simp add: cl_inv_def cl_fail_def)

lemma cl_inv_send_auth:
  "cl_inv bld cl \<Longrightarrow> cl_server_info cl \<noteq> None \<Longrightarrow> cl_inv bld (snd (send_auth bld cfg token cl))"
  by (simp add: send_auth_def cl_inv_fail) (simp add: cl_inv_def)

lemma cl_inv_settled: "cl_inv bld cl \<Longrightarrow> cl_status cl = cSigningIn \<Longrightarrow>
    cl_inv bld (snd (cl_fail reason (cl\<lparr>cl_sign_in_ticket := None\<rparr>))) \<and>
    cl_inv bld (snd (send_auth bld cfg token (cl\<lparr>cl_sign_in_ticket := None\<rparr>)))"
  by (auto simp: cl_inv_def send_auth_def cl_fail_def)

lemma cl_inv_poll: "cl_inv bld cl \<Longrightarrow> cl_inv bld (snd (poll_sign_in bld cfg host cl))"
  using cl_inv_settled [of bld cl]
  by (auto simp: poll_sign_in_def Let_def split: option.split)

lemma cl_inv_on_challenge:
  assumes "cl_inv bld cl" and "cl_status cl = cAwaitingChallenge"
  shows "cl_inv bld (snd (on_challenge bld cfg host fr cl))"
proof -
  have "cl_inv bld (cl\<lparr>cl_challenge := c\<rparr>)" "cl_inv bld (cl\<lparr>cl_challenge := c, cl_sign_in_ticket := None\<rparr>)"
    "cl_inv bld (cl\<lparr>cl_challenge := c, cl_sign_in_ticket := Some t, cl_status := cSigningIn\<rparr>)"
    "cl_server_info cl \<noteq> None" for c t
    using assms by (auto simp: cl_inv_def)
  then show ?thesis using assms(1)
    by (auto simp: on_challenge_def Let_def intro!: cl_inv_fail cl_inv_send_auth cl_inv_poll
        split: sum.split option.split)
qed

lemma cl_inv_on_server_info:
  assumes "cl_inv bld cl" and "cl_status cl = cConnecting"
  shows "cl_inv bld (snd (on_server_info bld cfg fr cl))"
proof -
  have "cl_inv bld (cl\<lparr>cl_server_info := Some info, cl_status := cAuthenticating\<rparr>)"
    "info_auth_mode info = kAuthExternal \<Longrightarrow>
      cl_inv bld (cl\<lparr>cl_server_info := Some info, cl_status := cAwaitingChallenge\<rparr>)"
    if "info_engine_protocol_version info = kEngineProtocolVersion"
      "engine_req_error bld (info_engine_version_req info) = None" for info
    using that by (simp_all add: cl_inv_def server_ok_def engine_req_error_none)
  with assms(1) show ?thesis
    by (auto simp: on_server_info_def Let_def cl_inv_fail split: sum.split option.split)
qed

lemma cl_inv_on_frame:
  assumes "cl_inv bld cl"
  shows "cl_inv bld (snd (cl_on_frame bld cfg host fr cl))"
proof (cases "cl_status cl")
  case cConnecting
  with assms show ?thesis by (simp add: cl_on_frame_def cl_inv_fail cl_inv_on_server_info)
next
  case cAwaitingChallenge
  with assms show ?thesis by (simp add: cl_on_frame_def cl_inv_fail cl_inv_on_challenge)
qed (use assms in \<open>auto simp: cl_on_frame_def on_auth_result_def on_asset_manifest_def on_asset_data_def
    on_join_accept_def Let_def cl_inv_fail split: sum.split\<close>, (simp add: cl_inv_def)+)

lemma cl_inv_handle: "cl_inv bld cl \<Longrightarrow> cl_inv bld (snd (cl_handle bld cfg host ev cl))"
  using cl_inv_settled [of bld cl]
  by (cases ev) (auto simp: cl_inv_on_frame cl_inv_poll cancel_sign_in_def)

lemma cl_reachable_inv: "cl_reachable bld cfg cl \<Longrightarrow> cl_inv bld cl"
proof (induction rule: cl_reachable.induct)
  case cl_started
  show ?case by (simp add: start_def new_client_def Let_def cl_inv_def)
qed (rule cl_inv_handle)

section \<open>Tokens\<close>

text \<open>On an authenticating server only a token that is not empty and not too long is ever sent.\<close>

definition token_sent :: "client_build \<Rightarrow> client_config \<Rightarrow> client_step \<Rightarrow> bool" where
  "token_sent bld cfg s \<longleftrightarrow> (\<exists>token. cs_send s = [auth_frame bld (cc_player_name cfg) token] \<and>
     token \<noteq> [] \<and> length token \<le> kMaxAuthTokenBytes)"

definition asked :: "client_status set" where
  "asked = {cAwaitingChallenge, cSigningIn}"

definition guarded :: "client_build \<Rightarrow> client_config \<Rightarrow> client_step \<times> 't client_handshake \<Rightarrow> bool" where
  "guarded bld cfg r \<longleftrightarrow> cs_send (fst r) = [] \<and> cl_status (snd r) \<in> insert cFailed asked \<or>
     token_sent bld cfg (fst r) \<and> cl_status (snd r) = cAuthenticating"

lemma guarded_send: "token \<noteq> [] \<Longrightarrow> guarded bld cfg (send_auth bld cfg token cl)"
  by (auto simp: send_auth_def guarded_def token_sent_def not_less)

lemma guarded_fail: "guarded bld cfg (cl_fail reason cl)"
  by (simp add: guarded_def)

lemma guarded_poll: "cl_status cl \<in> asked \<Longrightarrow> guarded bld cfg (poll_sign_in bld cfg host cl)"
  by (auto simp: poll_sign_in_def Let_def guarded_fail guarded_send split: option.split)
    (simp_all add: guarded_def)

lemma guarded_handle:
  assumes "cl_status cl \<in> asked"
  shows "guarded bld cfg (cl_handle bld cfg host ev cl)"
proof (cases ev)
  case (Frame_In fr)
  have "guarded bld cfg (poll_sign_in bld cfg host (cl'\<lparr>cl_status := cSigningIn\<rparr>))" for cl' :: "'a client_handshake"
    by (rule guarded_poll) (simp add: asked_def)
  then show ?thesis using assms
    by (auto simp: Frame_In asked_def cl_on_frame_def on_challenge_def Let_def intro!: guarded_fail guarded_send
        split: sum.split option.split)
next
  case Sign_In_Tick
  with assms show ?thesis by (simp add: guarded_poll)
next
  case Cancel_Sign_In
  have "guarded bld cfg (quiet, cl)" using assms by (simp add: guarded_def)
  then show ?thesis by (simp add: Cancel_Sign_In cancel_sign_in_def guarded_fail)
qed

end
