(* ===== verification/Handshake_Defaults.thy ===== *)
theory Handshake_Defaults
  imports Asset_Stream Client_Handshake
begin

text \<open>
  The default member values of \<open>HandshakeServerConfig\<close>, \<open>HandshakeServerHost\<close>, \<open>AuthOutcome\<close> and
  \<open>HandshakeClientConfig\<close> of \<open>net/handshake.hpp\<close>, and small concrete hosts, frames and states that
  the instances of the properties run on.
\<close>

definition default_server_config :: server_config where
  "default_server_config = \<lparr>sc_pack_name = lit ''base'', sc_pack_version = lit ''0.0.0'', sc_tick_rate = 20,
     sc_view_distance = 8, sc_motd = [], sc_engine_version_req = [], sc_auth_mode = kAuthNone,
     sc_max_players = 16, sc_handshake_timeout_seconds = 0x4024000000000000,
     sc_auth_timeout_seconds = 0x4072C00000000000, sc_reauth_interval_seconds = 0,
     sc_reauth_grace_seconds = 120, sc_world_seed = 0, sc_accept_automation_clients = False\<rparr>"

definition default_authenticate :: "bstring \<Rightarrow> bstring \<Rightarrow> auth_outcome" where
  "default_authenticate name token =
     (if name = [] \<or> length name > 32 then denied (lit ''invalid player name'')
      else \<lparr>ao_ok = True, ao_reason = [], ao_resolved_name = [], ao_login = None\<rparr>)"

definition default_server_host :: "'t server_host" where
  "default_server_host = \<lparr>sh_current_player_count = 0, sh_authenticate = default_authenticate,
     sh_auth_challenge = None, sh_begin_authenticate = None, sh_poll = (\<lambda>_. None),
     sh_resolve_name = (\<lambda>name login. name), sh_join_veto = (\<lambda>name login. True),
     sh_on_ready = (\<lambda>name. default_grant), sh_block_registry = None, sh_move_params = None,
     sh_day_night_curve = None, sh_fog_params = None, sh_keybind_registry = None,
     sh_entity_kind_registry = None, sh_asset_manifest = None, sh_asset_file_bytes = (\<lambda>_. None)\<rparr>"

definition default_client_config :: client_config where
  "default_client_config = \<lparr>cc_player_name = lit ''Player'', cc_token = [],
     cc_client_version = lit ''voxel_browser'', cc_client_nonce = 0, cc_client_flags = 0\<rparr>"

section \<open>Instances\<close>

definition demo_login :: login_data where
  "demo_login = \<lparr>ld_provider = lit ''oidc'', ld_issuer = lit ''i'', ld_subject = lit ''s'',
     ld_name = lit ''alex'', ld_claims_json = [], ld_issued_at = 0, ld_expires_at = 1\<rparr>"

definition accepting_host :: "unit server_host" where
  "accepting_host = default_server_host
     \<lparr>sh_auth_challenge := Some \<lparr>chal_provider = lit ''oidc'', chal_display_name = [], chal_issuer = [],
        chal_client_id = [], chal_scopes = [], chal_params = [], chal_nonce = lit ''n''\<rparr>,
      sh_begin_authenticate := Some (\<lambda>token nonce. Some ()),
      sh_poll := (\<lambda>_. Some \<lparr>ao_ok = True, ao_reason = [], ao_resolved_name = [], ao_login = Some demo_login\<rparr>),
      sh_asset_file_bytes := (\<lambda>_. Some [1, 2, 3])\<rparr>"

definition external_config :: server_config where
  "external_config = default_server_config\<lparr>sc_auth_mode := kAuthExternal\<rparr>"

definition verifying :: "unit server_handshake" where
  "verifying = new_server\<lparr>sv_state := kVerifyingAuth, sv_auth_ticket := Some ()\<rparr>"

definition streaming :: "unit server_handshake" where
  "streaming = new_server\<lparr>sv_state := kStreamingAssets,
     sv_asset_stream := new_stream [\<lparr>ah_lo = 5, ah_hi = 6\<rparr>]\<rparr>"

definition frame_of :: "message_type \<Rightarrow> writer \<Rightarrow> frame" where
  "frame_of type encode = \<lparr>fr_header = \<lparr>mh_type = type, mh_flags = 0, mh_payload_len = 0\<rparr>,
     fr_payload = run_writer encode\<rparr>"

definition demo_hello :: c2s_hello where
  "demo_hello = \<lparr>hello_engine_protocol_version = kEngineProtocolVersion, hello_client_nonce = 0,
     hello_client_version = lit ''v'', hello_client_flags = 0\<rparr>"

definition challenged :: "unit server_handshake" where
  "challenged = snd (srv_handle external_config None accepting_host
     (Got_Frame (frame_of kC2SHello (encode_C2SHello demo_hello))) new_server)"

lemma challenged_reachable: "srv_reachable external_config None challenged"
  unfolding challenged_def by (intro reach_step reach_new)

lemma challenged_state: "sv_state challenged = kAwaitingAuth"
proof -
  have "valid_C2SHello demo_hello" by (simp add: codec_defs demo_hello_def lit_def)
  from hello_codec.decode_encode [OF this] show ?thesis
    by (simp add: challenged_def srv_on_frame_def on_hello_def frame_of_def demo_hello_def external_config_def
        default_server_config_def accepting_host_def new_server_def Let_def lit_def)
qed

definition demo_build :: client_build where
  "demo_build = \<lparr>cb_lz4 = None, cb_with_automation = False, cb_version_numeric = ''0.5.2''\<rparr>"

definition demo_info :: s2c_server_info where
  "demo_info = \<lparr>info_pack_name = lit ''base'', info_pack_version = lit ''0.0.0'',
     info_engine_protocol_version = kEngineProtocolVersion, info_tick_rate = 20, info_view_distance = 8,
     info_motd = [], info_auth_mode = kAuthExternal, info_engine_version_req = []\<rparr>"

definition greeted :: "unit client_handshake" where
  "greeted = snd (cl_handle demo_build default_client_config default_client_host
     (Frame_In (frame_of kS2CServerInfo (encode_S2CServerInfo demo_info)))
     (snd (start demo_build default_client_config new_client)))"

lemma greeted_reachable: "cl_reachable demo_build default_client_config greeted"
  unfolding greeted_def by (intro cl_stepped cl_started)

lemma greeted_status: "cl_status greeted = cAwaitingChallenge"
proof -
  have "valid_S2CServerInfo demo_info" by (simp add: codec_defs demo_info_def lit_def valid_auth_mode_def)
  from info_codec.decode_encode [OF this] show ?thesis
    by (simp add: greeted_def start_def new_client_def cl_on_frame_def on_server_info_def frame_of_def
        demo_info_def engine_req_error_def Let_def)
qed

text \<open>A stand-in for the LZ4 library that stores its input behind a marker byte.\<close>

definition stored_lz4 :: lz4_api where
  "stored_lz4 = \<lparr>lz_compress = (\<lambda>bs. 0 # bs), lz_decompress = (\<lambda>c n. Some (tl c))\<rparr>"

lemma stored_lz4_ok: "lz4_ok stored_lz4"
  by (simp add: lz4_ok_def stored_lz4_def)

lemma message_type_back: "message_type_of (message_value kC2SReady) = kC2SReady"
  by (simp add: message_type_of_def message_table_def)

end
