(* ===== verification/Asset_Cache.thy ===== *)
theory Asset_Cache
  imports Asset_Stream "HOL-Library.AList"
begin

text \<open>
  \<open>ClientAssetCache\<close> of \<open>assetsync/cache.hpp\<close> and \<open>assetsync/cache.cpp\<close>: the index of cached files
  with its eviction, the bookkeeping of one transfer and the in-memory pack file system. An
  \<open>unordered_map\<close> that the code iterates is an association list in some order, the others are
  maps. The cache directory is a map from relative paths to contents on which writes succeed;
  anything may happen to it between two operations. The clock and \<open>hash_bytes\<close> (xxHash) are
  arguments.
\<close>

definition kMaxAssetFileBytes :: nat where
  "kMaxAssetFileBytes = 32 * 1024 * 1024"

record index_entry =
  ie_size :: u64
  ie_last_used_unix :: i64

type_synonym cache_index = "(asset_hash \<times> index_entry) list"

record pending_file =
  pf_paths :: "bstring list"
  pf_expected_size :: u64
  pf_buffer :: "byte list"
  pf_chunks_received :: u32
  pf_total_chunks :: u32
  pf_done :: bool

record asset_cache =
  ac_cap_bytes :: u64
  ac_disk :: "string \<rightharpoonup> byte list"
  ac_index :: cache_index
  ac_last_manifest_hash :: "bstring \<rightharpoonup> asset_hash"
  ac_manifests :: "asset_hash \<rightharpoonup> asset_entry_record list"
  ac_pending :: "(asset_hash \<times> pending_file) list"
  ac_virtual_fs :: "bstring \<rightharpoonup> byte list"

section \<open>File names\<close>

definition hex_digit :: "u64 \<Rightarrow> char" where
  "hex_digit d = ''0123456789abcdef'' ! unat d"

primrec hex_loop :: "nat \<Rightarrow> u64 \<Rightarrow> string" where
  "hex_loop 0 v = []"
| "hex_loop (Suc i) v = hex_loop i (drop_bit 4 v) @ [hex_digit (v AND 0xF)]"

definition hex :: "u64 \<Rightarrow> string" where
  "hex v = hex_loop 16 v"

definition hash_hex :: "asset_hash \<Rightarrow> string" where
  "hash_hex h = hex (ah_hi h) @ hex (ah_lo h)"

definition file_path :: "asset_hash \<Rightarrow> string" where
  "file_path h = take 2 (hex (ah_hi h)) @ ''/'' @ hash_hex h"

section \<open>The index file\<close>

definition w_i64 :: "i64 \<Rightarrow> writer" where
  "w_i64 v = w_u64 v"

definition r_i64 :: "i64 reader" where
  "r_i64 = r_u64"

definition write_index_entry :: "asset_hash \<times> index_entry \<Rightarrow> writer" where
  "write_index_entry he = do {
     w_u64 (ah_hi (fst he));
     w_u64 (ah_lo (fst he));
     w_u64 (ie_size (snd he));
     w_i64 (ie_last_used_unix (snd he)) }"

definition save_index_bytes :: "cache_index \<Rightarrow> byte list" where
  "save_index_bytes idx = run_writer (do {
     w_varint (of_nat (length idx));
     write_each write_index_entry idx })"

definition read_index_entry :: "(asset_hash \<times> index_entry) option reader" where
  "read_index_entry = do {
     hi \<leftarrow> r_u64;
     lo \<leftarrow> r_u64;
     size \<leftarrow> r_u64;
     last_used \<leftarrow> r_i64;
     failed \<leftarrow> r_failed;
     State_Monad.return (if failed then None
       else Some (\<lparr>ah_lo = lo, ah_hi = hi\<rparr>, \<lparr>ie_size = size, ie_last_used_unix = last_used\<rparr>)) }"

primrec index_put_all :: "(asset_hash \<times> index_entry) option list \<Rightarrow> cache_index \<Rightarrow> cache_index" where
  "index_put_all [] idx = idx"
| "index_put_all (x # xs) idx = index_put_all xs
     (case x of None \<Rightarrow> idx | Some he \<Rightarrow> AList.update (fst he) (snd he) idx)"

definition load_index_bytes :: "byte list \<Rightarrow> cache_index" where
  "load_index_bytes raw = (
     if raw = [] then []
     else fst (run_state (do {
       n \<leftarrow> r_varint;
       xs \<leftarrow> read_loop (unat n) read_index_entry;
       State_Monad.return (index_put_all xs []) }) (reader_on raw)))"

definition save_index :: "asset_cache \<Rightarrow> asset_cache" where
  "save_index c = c\<lparr>ac_disk := (ac_disk c)(''index.bin'' \<mapsto> save_index_bytes (ac_index c))\<rparr>"

definition new_cache :: "u64 \<Rightarrow> (string \<rightharpoonup> byte list) \<Rightarrow> asset_cache" where
  "new_cache cap disk = \<lparr>ac_cap_bytes = cap, ac_disk = disk,
     ac_index = (case disk ''index.bin'' of None \<Rightarrow> [] | Some raw \<Rightarrow> load_index_bytes raw),
     ac_last_manifest_hash = Map.empty, ac_manifests = Map.empty, ac_pending = [],
     ac_virtual_fs = Map.empty\<rparr>"

section \<open>Eviction\<close>

definition touch :: "i64 \<Rightarrow> asset_hash \<Rightarrow> asset_cache \<Rightarrow> asset_cache" where
  "touch now h c = (case map_of (ac_index c) h of
       None \<Rightarrow> c
     | Some e \<Rightarrow> c\<lparr>ac_index := AList.update h (e\<lparr>ie_last_used_unix := now\<rparr>) (ac_index c)\<rparr>)"

definition total_cached_bytes :: "cache_index \<Rightarrow> u64" where
  "total_cached_bytes idx = fold (\<lambda>he total. total + ie_size (snd he)) idx 0"

primrec oldest_of :: "asset_hash \<times> index_entry \<Rightarrow> cache_index \<Rightarrow> asset_hash \<times> index_entry" where
  "oldest_of oldest [] = oldest"
| "oldest_of oldest (it # its) = oldest_of
     (if sint (ie_last_used_unix (snd it)) < sint (ie_last_used_unix (snd oldest)) then it else oldest) its"

lemma oldest_of_in: "oldest_of b xs \<in> insert b (set xs)"
  by (induction xs arbitrary: b) auto

lemma oldest_key: "xs \<noteq> [] \<Longrightarrow> fst (oldest_of (hd xs) xs) \<in> fst ` set xs"
  using oldest_of_in [of "hd xs" xs] by (cases xs) auto

lemma delete_shorter: "k \<in> fst ` set xs \<Longrightarrow> length (AList.delete k xs) < length xs"
  unfolding AList.delete_eq using length_filter_less [of _ xs "\<lambda>(k', _). k \<noteq> k'"] by auto

function evict_loop :: "u64 \<Rightarrow> asset_cache \<Rightarrow> asset_cache" where
  "evict_loop incoming_size c = (
     if total_cached_bytes (ac_index c) + incoming_size > ac_cap_bytes c \<and> ac_index c \<noteq> []
     then
       let oldest = fst (oldest_of (hd (ac_index c)) (ac_index c)) in
       evict_loop incoming_size (c\<lparr>ac_disk := (ac_disk c)(file_path oldest := None),
         ac_index := AList.delete oldest (ac_index c)\<rparr>)
     else c)"
  by pat_completeness auto
termination
  by (relation "measure (\<lambda>(n, c). length (ac_index c))")
    (auto simp: Let_def intro!: delete_shorter oldest_key)

declare evict_loop.simps [simp del]

definition evict_until_fits :: "u64 \<Rightarrow> asset_cache \<Rightarrow> asset_cache" where
  "evict_until_fits incoming_size c =
     (if incoming_size > ac_cap_bytes c then c else evict_loop incoming_size c)"

definition commit_file :: "i64 \<Rightarrow> asset_hash \<Rightarrow> byte list \<Rightarrow> asset_cache \<Rightarrow> asset_cache" where
  "commit_file now h bytes c = (
     let c = evict_until_fits (of_nat (length bytes)) c;
         c = c\<lparr>ac_disk := (ac_disk c)(file_path h \<mapsto> bytes)\<rparr>;
         c = c\<lparr>ac_index := AList.update h \<lparr>ie_size = of_nat (length bytes), ie_last_used_unix = now\<rparr> (ac_index c)\<rparr> in
     save_index c)"

section \<open>One transfer\<close>

definition last_known_manifest_hash_for :: "bstring \<Rightarrow> asset_cache \<Rightarrow> asset_hash" where
  "last_known_manifest_hash_for server_key c = (case ac_last_manifest_hash c server_key of
       None \<Rightarrow> \<lparr>ah_lo = 0, ah_hi = 0\<rparr>
     | Some h \<Rightarrow> if ac_manifests c h = None then \<lparr>ah_lo = 0, ah_hi = 0\<rparr> else h)"

definition remember_manifest_hash :: "bstring \<Rightarrow> asset_hash \<Rightarrow> asset_cache \<Rightarrow> asset_cache" where
  "remember_manifest_hash server_key h c = c\<lparr>ac_last_manifest_hash := (ac_last_manifest_hash c)(server_key \<mapsto> h)\<rparr>"

definition request :: "asset_entry_record \<Rightarrow> asset_cache \<times> asset_hash list \<Rightarrow> asset_cache \<times> asset_hash list" where
  "request e cm = (
     let (c, missing) = cm in
     case map_of (ac_pending c) (aer_hash e) of
       Some pf \<Rightarrow> (c\<lparr>ac_pending := AList.update (aer_hash e) (pf\<lparr>pf_paths := pf_paths pf @ [aer_path e]\<rparr>) (ac_pending c)\<rparr>,
          missing)
     | None \<Rightarrow> (c\<lparr>ac_pending := AList.update (aer_hash e)
            \<lparr>pf_paths = [aer_path e], pf_expected_size = aer_size e, pf_buffer = [], pf_chunks_received = 0,
             pf_total_chunks = 0, pf_done = False\<rparr> (ac_pending c)\<rparr>,
          missing @ [aer_hash e]))"

definition scan_entry :: "i64 \<Rightarrow> asset_entry_record \<Rightarrow> asset_cache \<times> asset_hash list \<Rightarrow>
    asset_cache \<times> asset_hash list" where
  "scan_entry now e cm = (
     let (c, missing) = cm in
     if map_of (ac_pending c) (aer_hash e) \<noteq> None then request e (c, missing)
     else case map_of (ac_index c) (aer_hash e) of
         None \<Rightarrow> request e (c, missing)
       | Some _ \<Rightarrow>
           let c = touch now (aer_hash e) c in
           (case ac_disk c (file_path (aer_hash e)) of
             Some bytes \<Rightarrow> (c\<lparr>ac_virtual_fs := (ac_virtual_fs c)(aer_path e \<mapsto> bytes)\<rparr>, missing)
           | None \<Rightarrow> request e (c\<lparr>ac_index := AList.delete (aer_hash e) (ac_index c)\<rparr>, missing)))"

definition manifest_list :: "asset_entry_record list \<Rightarrow> asset_hash \<Rightarrow> asset_cache \<Rightarrow>
    asset_entry_record list \<times> asset_cache" where
  "manifest_list entries manifest_hash c = (
     if manifest_hash = \<lparr>ah_lo = 0, ah_hi = 0\<rparr> then (entries, c)
     else if entries \<noteq> [] then (entries, c\<lparr>ac_manifests := (ac_manifests c)(manifest_hash \<mapsto> entries)\<rparr>)
     else (case ac_manifests c manifest_hash of None \<Rightarrow> entries | Some es \<Rightarrow> es, c))"

definition compute_missing :: "i64 \<Rightarrow> asset_entry_record list \<Rightarrow> asset_hash \<Rightarrow> asset_cache \<Rightarrow>
    asset_hash list \<times> asset_cache" where
  "compute_missing now entries manifest_hash c = (
     let (es, c) = manifest_list entries manifest_hash (c\<lparr>ac_pending := [], ac_virtual_fs := Map.empty\<rparr>);
         (c, missing) = fold (scan_entry now) es (c, []) in
     (missing, save_index c))"

definition finish_file :: "(byte list \<Rightarrow> asset_hash) \<Rightarrow> i64 \<Rightarrow> asset_hash \<Rightarrow> pending_file \<Rightarrow> asset_cache \<Rightarrow>
    bool \<times> asset_cache" where
  "finish_file hash_bytes now h pf c = (
     if hash_bytes (pf_buffer pf) \<noteq> h then (False, c\<lparr>ac_pending := AList.delete h (ac_pending c)\<rparr>)
     else
       let c = commit_file now h (pf_buffer pf) c;
           c = c\<lparr>ac_virtual_fs := fold (\<lambda>path fs. fs(path \<mapsto> pf_buffer pf)) (pf_paths pf) (ac_virtual_fs c)\<rparr> in
       (True, c\<lparr>ac_pending := AList.update h (pf\<lparr>pf_done := True\<rparr>) (ac_pending c)\<rparr>))"

definition ingest_chunk :: "(byte list \<Rightarrow> asset_hash) \<Rightarrow> i64 \<Rightarrow> s2c_asset_data \<Rightarrow> asset_cache \<Rightarrow>
    bool \<times> asset_cache" where
  "ingest_chunk hash_bytes now chunk c = (case map_of (ac_pending c) (adat_hash chunk) of
       None \<Rightarrow> (False, c)
     | Some pf \<Rightarrow>
         if pf_done pf then (False, c)
         else if adat_seq chunk \<noteq> pf_chunks_received pf then (False, c)
         else if unat (pf_expected_size pf) > kMaxAssetFileBytes then (False, c)
         else
           let pf = pf\<lparr>pf_buffer := pf_buffer pf @ adat_bytes chunk\<rparr>;
               put = (\<lambda>pf. c\<lparr>ac_pending := AList.update (adat_hash chunk) pf (ac_pending c)\<rparr>) in
           if length (pf_buffer pf) > kMaxAssetFileBytes then (False, put pf)
           else
             let pf = pf\<lparr>pf_total_chunks := adat_total_chunks chunk,
                        pf_chunks_received := pf_chunks_received pf + 1\<rparr> in
             if pf_chunks_received pf < pf_total_chunks pf then (True, put pf)
             else finish_file hash_bytes now (adat_hash chunk) pf (put pf))"

definition all_received :: "asset_cache \<Rightarrow> bool" where
  "all_received c \<longleftrightarrow> list_all (\<lambda>hp. pf_done (snd hp)) (ac_pending c)"

definition sync_total_bytes :: "asset_cache \<Rightarrow> u64" where
  "sync_total_bytes c = fold (\<lambda>hp total. total + pf_expected_size (snd hp)) (ac_pending c) 0"

definition sync_received_bytes :: "asset_cache \<Rightarrow> u64" where
  "sync_received_bytes c = fold (\<lambda>hp total. total + (if pf_done (snd hp) then pf_expected_size (snd hp)
     else of_nat (length (pf_buffer (snd hp))))) (ac_pending c) 0"

declare map_of_eq_Some_iff [simp del]

section \<open>File names do not collide\<close>

lemma hex_digit_inj:
  assumes "hex_digit (v AND 0xF) = hex_digit (w AND 0xF)"
  shows "v AND 0xF = (w AND 0xF :: u64)"
proof -
  have small: "unat (x AND 0xF) < 16" for x :: u64
    using word_and_le1 [of x "0xF"] by (simp add: word_le_nat_alt)
  have "distinct ''0123456789abcdef''" by simp
  from nth_eq_iff_index_eq [OF this] assms small [of v] small [of w]
  have "unat (v AND 0xF) = unat (w AND 0xF)" by (simp add: hex_digit_def)
  then show ?thesis by (rule unsigned_word_eqI)
qed

lemma nibble_bits: "v AND 0xF = (w AND 0xF :: u64) \<Longrightarrow> i < 4 \<Longrightarrow> bit v i = bit w i"
proof -
  assume eq: "v AND 0xF = w AND 0xF" and i: "i < 4"
  have "(0xF :: u64) = mask 4" by (simp add: mask_eq_exp_minus_1)
  with eq have "take_bit 4 v = take_bit 4 w" by (simp add: take_bit_eq_mask)
  then have "bit (take_bit 4 v) i = bit (take_bit 4 w) i" by simp
  with i show "bit v i = bit w i" by (simp add: bit_take_bit_iff)
qed

lemma hex_loop_bits:
  "hex_loop n v = hex_loop n w \<Longrightarrow> i < 4 * n \<Longrightarrow> bit v i = bit w i"
proof (induction n arbitrary: v w i)
  case (Suc n)
  show ?case
  proof (cases "i < 4")
    case True
    with Suc.prems hex_digit_inj [of v w] nibble_bits [of v w i] show ?thesis by simp
  next
    case False
    have "bit (drop_bit 4 v) (i - 4) = bit (drop_bit 4 w) (i - 4)"
      using Suc.prems False by (intro Suc.IH) auto
    with False show ?thesis by (simp add: bit_drop_bit_eq)
  qed
qed simp

lemma hex_inj: "hex v = hex w \<Longrightarrow> v = w"
proof (rule bit_word_eqI)
  fix i
  assume "hex v = hex w" and "i < LENGTH(64)"
  then show "bit v i = bit w i" by (intro hex_loop_bits [of 16]) (simp_all add: hex_def)
qed

lemma length_hex [simp]: "length (hex v) = 16"
proof -
  have "length (hex_loop n v) = n" for n v by (induction n arbitrary: v) simp_all
  then show ?thesis by (simp add: hex_def)
qed

lemma file_path_inj: "file_path g = file_path h \<longleftrightarrow> g = h"
proof
  assume "file_path g = file_path h"
  then have "hash_hex g = hash_hex h" by (simp add: file_path_def)
  then have "hex (ah_hi g) = hex (ah_hi h)" "hex (ah_lo g) = hex (ah_lo h)"
    by (simp_all add: hash_hex_def)
  then show "g = h" using hex_inj by (cases g; cases h) simp
qed simp

lemma file_path_index [simp]: "file_path h \<noteq> ''index.bin''" "''index.bin'' \<noteq> file_path h"
proof -
  have "CHR ''/'' \<in> set (file_path h)" by (simp add: file_path_def)
  moreover have "CHR ''/'' \<notin> set ''index.bin''" by simp
  ultimately show "file_path h \<noteq> ''index.bin''" "''index.bin'' \<noteq> file_path h" by fastforce+
qed

section \<open>The index survives a restart\<close>

lemma appends_index_entry [simp]: "appends (write_index_entry he)"
  by (simp add: write_index_entry_def w_i64_def)

lemma reads_index_entry: "reads read_index_entry (run_writer (write_index_entry he)) (Some he)"
proof -
  have "reads read_index_entry (run_writer (write_index_entry he))
    (Some (\<lparr>ah_lo = ah_lo (fst he), ah_hi = ah_hi (fst he)\<rparr>,
      \<lparr>ie_size = ie_size (snd he), ie_last_used_unix = ie_last_used_unix (snd he)\<rparr>))"
    unfolding read_index_entry_def write_index_entry_def r_i64_def w_i64_def
    by (simp, intro reads_bind [OF reads_fixed(3)] reads_bind_last [OF reads_fixed(3)]
        reads_then [OF reads_failed] reads_return_eq) simp
  then show ?thesis by (cases "fst he"; cases "snd he"; cases he) simp
qed

lemma update_new: "k \<notin> fst ` set al \<Longrightarrow> AList.update k v al = al @ [(k, v)]"
  by (induction al) auto

lemma index_put_all_fresh:
  "distinct (map fst (idx @ xs)) \<Longrightarrow> index_put_all (map Some xs) idx = idx @ xs"
proof (induction xs arbitrary: idx)
  case (Cons x xs)
  have "AList.update (fst x) (snd x) idx = idx @ [x]"
    using Cons.prems by (simp add: update_new)
  with Cons show ?case by simp
qed simp

lemma index_roundtrip:
  assumes "distinct (map fst idx)" and "length idx < 2 ^ 64"
  shows "load_index_bytes (save_index_bytes idx) = idx"
proof -
  have n: "unat (of_nat (length idx) :: u64) = length (map Some idx)"
    using assms(2) by (simp add: unat_of_nat)
  have "reads (read_loop (length (map Some idx)) read_index_entry)
      (run_writer (write_each (\<lambda>x. write_index_entry (the x)) (map Some idx))) (map Some idx)"
    by (rule reads_loop) (auto simp: reads_index_entry)
  moreover have "write_each (\<lambda>x. write_index_entry (the x)) (map Some idx) = write_each write_index_entry idx"
    by (induction idx) simp_all
  ultimately have each: "reads (read_loop (unat (of_nat (length idx) :: u64)) read_index_entry)
      (run_writer (write_each write_index_entry idx)) (map Some idx)"
    using n by simp
  have all: "reads (do { n \<leftarrow> r_varint; xs \<leftarrow> read_loop (unat n) read_index_entry;
      State_Monad.return (index_put_all xs []) }) (save_index_bytes idx) idx"
    using index_put_all_fresh [of "[]" idx] assms(1)
    by (simp add: save_index_bytes_def)
      (intro reads_bind [OF reads_varint] reads_bind_last [OF each] reads_return_eq, simp)
  have "save_index_bytes idx \<noteq> []"
    by (subst save_index_bytes_def) (simp add: run_writer_varint)
  with readsD [OF all, of "[]" "[]"] show ?thesis
    by (simp add: load_index_bytes_def reader_on_ok_at)
qed

section \<open>Eviction keeps the cap\<close>

text \<open>The sum of the sizes as a number; it is the code's 64-bit sum while it stays below \<open>2 ^ 64\<close>.\<close>

definition cached_size :: "cache_index \<Rightarrow> nat" where
  "cached_size idx = (\<Sum>he\<leftarrow>idx. unat (ie_size (snd he)))"

lemma total_is_cached_size:
  assumes "cached_size idx < 2 ^ 64"
  shows "unat (total_cached_bytes idx) = cached_size idx"
proof -
  have "unat a + cached_size xs < 2 ^ 64 \<Longrightarrow>
    unat (fold (\<lambda>he total. total + ie_size (snd he)) xs a) = unat a + cached_size xs" for xs :: cache_index and a
  proof (induction xs arbitrary: a)
    case (Cons x xs)
    have "unat (a + ie_size (snd x)) = unat a + unat (ie_size (snd x))"
      using Cons.prems by (intro unat_add_lem [THEN iffD1]) (simp add: cached_size_def)
    with Cons show ?case by (simp add: cached_size_def)
  qed (simp add: cached_size_def)
  from this [of 0 idx] assms show ?thesis by (simp add: total_cached_bytes_def)
qed

lemma cached_size_delete: "cached_size (AList.delete k idx) \<le> cached_size idx"
  by (induction idx) (auto simp: cached_size_def AList.delete_eq)

lemma cached_size_update:
  "cached_size (AList.update k e idx) \<le> cached_size idx + unat (ie_size e)"
  by (induction idx) (auto simp: cached_size_def)

lemma evict_loop_fits:
  assumes "cached_size (ac_index c) + unat n < 2 ^ 64" and "n \<le> ac_cap_bytes c"
  shows "cached_size (ac_index (evict_loop n c)) + unat n \<le> unat (ac_cap_bytes c) \<and>
    ac_cap_bytes (evict_loop n c) = ac_cap_bytes c"
  using assms
proof (induction n c rule: evict_loop.induct)
  case (1 n c)
  let ?idx = "ac_index c"
  have total: "unat (total_cached_bytes ?idx + n) = cached_size ?idx + unat n"
    using "1.prems"(1) unat_add_lem [of "total_cached_bytes ?idx" n] total_is_cached_size [of ?idx] by simp
  show ?case
  proof (cases "total_cached_bytes ?idx + n > ac_cap_bytes c \<and> ?idx \<noteq> []")
    case True
    define k where "k = fst (oldest_of (hd ?idx) ?idx)"
    have "cached_size (AList.delete k ?idx) + unat n < 2 ^ 64"
      using "1.prems"(1) cached_size_delete [of k ?idx] by linarith
    with "1.IH" [OF True k_def] "1.prems"(2) True show ?thesis
      by (subst evict_loop.simps, subst (2) evict_loop.simps) (simp add: k_def [symmetric] Let_def)
  next
    case False
    then have "cached_size ?idx + unat n \<le> unat (ac_cap_bytes c)"
      using total "1.prems"(2) by (auto simp: word_less_nat_alt word_le_nat_alt cached_size_def not_less)
    with False show ?thesis by (subst evict_loop.simps, subst (2) evict_loop.simps) auto
  qed
qed

text \<open>A file within the cap never takes the cache over it; a larger one is stored all the same.\<close>

lemma commit_keeps_cap:
  assumes "cached_size (ac_index c) + length bytes < 2 ^ 64" and "length bytes \<le> unat (ac_cap_bytes c)"
  shows "cached_size (ac_index (commit_file now h bytes c)) \<le> unat (ac_cap_bytes c)"
proof -
  let ?n = "of_nat (length bytes) :: u64"
  have n: "unat ?n = length bytes" using assms(1) by (simp add: unat_of_nat)
  have le: "?n \<le> ac_cap_bytes c" using assms(2) n by (simp add: word_le_nat_alt)
  have fits: "cached_size (ac_index (evict_loop ?n c)) + length bytes \<le> unat (ac_cap_bytes c)"
    using evict_loop_fits [of c ?n] assms(1) le n by simp
  have "cached_size (AList.update h \<lparr>ie_size = ?n, ie_last_used_unix = now\<rparr> (ac_index (evict_loop ?n c)))
      \<le> cached_size (ac_index (evict_loop ?n c)) + unat ?n"
    using cached_size_update [of h "\<lparr>ie_size = ?n, ie_last_used_unix = now\<rparr>"
      "ac_index (evict_loop ?n c)"]
    by simp
  moreover have "evict_until_fits ?n c = evict_loop ?n c" using le by (auto simp: evict_until_fits_def)
  ultimately show ?thesis using fits n
    by (simp add: commit_file_def save_index_def Let_def)
qed

lemma commit_over_cap:
  assumes "ac_index c = []" and "unat (ac_cap_bytes c) < length bytes" and "length bytes < 2 ^ 64"
  shows "cached_size (ac_index (commit_file now h bytes c)) > unat (ac_cap_bytes c)"
  using assms
  by (simp add: commit_file_def evict_until_fits_def save_index_def Let_def cached_size_def unat_of_nat
      word_less_nat_alt)

section \<open>What a transfer commits has been verified\<close>

definition index_name :: string where
  "index_name = ''index.bin''"

lemma evict_keeps:
  "ac_pending (evict_loop n c) = ac_pending c \<and> ac_virtual_fs (evict_loop n c) = ac_virtual_fs c \<and>
   ac_manifests (evict_loop n c) = ac_manifests c"
proof (induction n c rule: evict_loop.induct)
  case (1 n c)
  then show ?case by (subst evict_loop.simps, subst (2) evict_loop.simps, subst (3) evict_loop.simps) (simp add: Let_def)
qed

lemma evict_disk: "ac_disk (evict_loop n c) p = ac_disk c p \<or> ac_disk (evict_loop n c) p = None"
proof (induction n c rule: evict_loop.induct)
  case (1 n c)
  then show ?case by (subst (1 2) evict_loop.simps) (auto simp: Let_def split: if_splits)
qed

lemma commit_keeps [simp]:
  "ac_pending (commit_file now h bytes c) = ac_pending c"
  "ac_virtual_fs (commit_file now h bytes c) = ac_virtual_fs c"
  by (simp_all add: commit_file_def save_index_def evict_until_fits_def Let_def evict_keeps)

lemma commit_disk:
  "ac_disk (commit_file now h bytes c) p =
     (if p = ''index.bin'' then Some (save_index_bytes (ac_index (commit_file now h bytes c)))
      else if p = file_path h then Some bytes else ac_disk (evict_until_fits (of_nat (length bytes)) c) p)"
  by (simp add: commit_file_def save_index_def Let_def)

lemma put_paths:
  "fold (\<lambda>path fs. fs(path \<mapsto> b)) ps fs p = (if p \<in> set ps then Some b else fs p)"
  by (induction ps arbitrary: fs) auto

definition verified_change :: "(byte list \<Rightarrow> asset_hash) \<Rightarrow> asset_hash \<Rightarrow> asset_cache \<Rightarrow> asset_cache \<Rightarrow> bool" where
  "verified_change hash_bytes h c c' \<longleftrightarrow>
     (\<forall>p. ac_virtual_fs c' p = ac_virtual_fs c p \<or>
        (\<exists>bytes pf. ac_virtual_fs c' p = Some bytes \<and> hash_bytes bytes = h \<and>
           map_of (ac_pending c) h = Some pf \<and> p \<in> set (pf_paths pf))) \<and>
     (\<forall>p. p \<noteq> ''index.bin'' \<longrightarrow> ac_disk c' p = ac_disk c p \<or> ac_disk c' p = None \<or>
        p = file_path h \<and> (\<exists>bytes. ac_disk c' p = Some bytes \<and> hash_bytes bytes = h))"

lemma ingest_verified: "verified_change hash_bytes (adat_hash chunk) c (snd (ingest_chunk hash_bytes now chunk c))"
proof -
  have "verified_change hash_bytes h c (snd (finish_file hash_bytes now h pf (c\<lparr>ac_pending := q\<rparr>)))"
    if "map_of (ac_pending c) h = Some pf0" "pf_paths pf = pf_paths pf0" for h pf pf0 q
    using that evict_disk [of "of_nat (length (pf_buffer pf))" "c\<lparr>ac_pending := q\<rparr>"]
    by (auto simp: finish_file_def verified_change_def Let_def put_paths commit_disk evict_until_fits_def)
  moreover have "verified_change hash_bytes h c (c\<lparr>ac_pending := q\<rparr>)" "verified_change hash_bytes h c c" for h q
    by (simp_all add: verified_change_def)
  ultimately show ?thesis
    by (auto simp: ingest_chunk_def Let_def split: option.split)
qed

section \<open>Receiving the chunks of a file\<close>

primrec ingest_all :: "(byte list \<Rightarrow> asset_hash) \<Rightarrow> i64 \<Rightarrow> s2c_asset_data list \<Rightarrow> asset_cache \<Rightarrow>
    bool \<times> asset_cache" where
  "ingest_all hash_bytes now [] c = (True, c)"
| "ingest_all hash_bytes now (x # xs) c = (
     let r = ingest_chunk hash_bytes now x c in
     if fst r then ingest_all hash_bytes now xs (snd r) else r)"

lemma ingest_all_append:
  "ingest_all hash_bytes now (xs @ ys) c = (
     let r = ingest_all hash_bytes now xs c in
     if fst r then ingest_all hash_bytes now ys (snd r) else r)"
  by (induction xs arbitrary: c) (auto simp: Let_def)

definition receiving :: "asset_hash \<Rightarrow> byte list \<Rightarrow> nat \<Rightarrow> pending_file \<Rightarrow> bool" where
  "receiving h f k pf \<longleftrightarrow> \<not> pf_done pf \<and> pf_chunks_received pf = of_nat k \<and>
     pf_buffer pf = take (k * kAssetChunkBytes) f \<and> unat (pf_expected_size pf) \<le> kMaxAssetFileBytes"

definition received :: "asset_hash \<Rightarrow> byte list \<Rightarrow> pending_file \<Rightarrow> asset_cache \<Rightarrow> asset_cache \<Rightarrow> bool" where
  "received h f pf c c' \<longleftrightarrow>
     (\<exists>pf'. map_of (ac_pending c') = (map_of (ac_pending c))(h \<mapsto> pf') \<and> pf_done pf' \<and> pf_paths pf' = pf_paths pf) \<and>
     ac_virtual_fs c' = fold (\<lambda>p fs. fs(p \<mapsto> f)) (pf_paths pf) (ac_virtual_fs c) \<and>
     (distinct (map fst (ac_pending c)) \<longrightarrow> distinct (map fst (ac_pending c')))"

lemma small_chunk_count:
  assumes "length f \<le> kMaxAssetFileBytes"
  shows "chunk_count (length f) < 2 ^ 32"
proof -
  have "chunk_count (length f) \<le> length f + kAssetChunkBytes"
    by (auto simp: chunk_count_def Suc_le_eq intro: order.trans [OF div_le_dividend])
  with assms show ?thesis by (simp add: kMaxAssetFileBytes_def kAssetChunkBytes_def)
qed

lemma ingest_next:
  assumes "map_of (ac_pending c) h = Some pf" and "receiving h f k pf" and "length f \<le> kMaxAssetFileBytes"
    and "Suc k < chunk_count (length f)"
  obtains pf' where "ingest_chunk hash_bytes now (file_chunk h f k) c =
      (True, c\<lparr>ac_pending := AList.update h pf' (ac_pending c)\<rparr>)"
    and "receiving h f (Suc k) pf'" and "pf_paths pf' = pf_paths pf"
proof
  let ?pf = "pf\<lparr>pf_buffer := take (Suc k * kAssetChunkBytes) f,
    pf_total_chunks := of_nat (chunk_count (length f)), pf_chunks_received := of_nat (Suc k)\<rparr>"
  have "(of_nat (Suc k) :: u32) < of_nat (chunk_count (length f))"
    using assms(4) small_chunk_count [OF assms(3)]
    by (simp only: word_less_nat_alt unat_of_nat_u32 less_trans [OF assms(4)])
  moreover have "take (k * kAssetChunkBytes) f @ take kAssetChunkBytes (drop (k * kAssetChunkBytes) f)
      = take (Suc k * kAssetChunkBytes) f"
    using take_add [of "k * kAssetChunkBytes" kAssetChunkBytes f] by (simp add: add.commute)
  ultimately show "ingest_chunk hash_bytes now (file_chunk h f k) c =
      (True, c\<lparr>ac_pending := AList.update h ?pf (ac_pending c)\<rparr>)"
    using assms(1-3) by (simp add: ingest_chunk_def receiving_def file_chunk_def Let_def add.commute not_less)
  show "receiving h f (Suc k) ?pf" "pf_paths ?pf = pf_paths pf"
    using assms(2) by (simp_all add: receiving_def)
qed

lemma ingest_last:
  assumes "map_of (ac_pending c) h = Some pf" and "receiving h f k pf" and "length f \<le> kMaxAssetFileBytes"
    and "Suc k = chunk_count (length f)" and "hash_bytes f = h"
  obtains c' where "ingest_chunk hash_bytes now (file_chunk h f k) c = (True, c')"
    and "received h f pf c c'"
proof -
  let ?pf = "pf\<lparr>pf_buffer := f, pf_total_chunks := of_nat (chunk_count (length f)),
    pf_chunks_received := of_nat (Suc k)\<rparr>"
  have buffer: "take (k * kAssetChunkBytes) f @ take kAssetChunkBytes (drop (k * kAssetChunkBytes) f) = f"
    using take_add [of "k * kAssetChunkBytes" kAssetChunkBytes f] chunk_count_covers [of "length f", folded assms(4)]
    by (simp add: add.commute)
  have "pf_chunks_received pf + 1 = of_nat (Suc k)" using assms(2) by (simp add: receiving_def add.commute)
  then have step: "ingest_chunk hash_bytes now (file_chunk h f k) c =
      finish_file hash_bytes now h ?pf (c\<lparr>ac_pending := AList.update h ?pf (ac_pending c)\<rparr>)"
    using assms(1-4) buffer
    by (simp add: ingest_chunk_def receiving_def file_chunk_def Let_def not_less)
  show ?thesis
  proof
    show "ingest_chunk hash_bytes now (file_chunk h f k) c = (True,
        snd (finish_file hash_bytes now h ?pf (c\<lparr>ac_pending := AList.update h ?pf (ac_pending c)\<rparr>)))"
      unfolding step using assms(5) by (simp add: finish_file_def Let_def)
    show "received h f pf c
        (snd (finish_file hash_bytes now h ?pf (c\<lparr>ac_pending := AList.update h ?pf (ac_pending c)\<rparr>)))"
      using assms(5) by (auto simp: received_def finish_file_def Let_def update_conv' distinct_update
          intro!: exI [of _ "?pf\<lparr>pf_done := True\<rparr>"])
  qed
qed

lemma received_via:
  assumes "received h f pf' (c\<lparr>ac_pending := AList.update h pf' (ac_pending c)\<rparr>) c'" and "pf_paths pf' = pf_paths pf"
  shows "received h f pf c c'"
  using assms by (simp add: received_def update_conv' distinct_update)

lemma ingest_from:
  assumes "map_of (ac_pending c) h = Some pf" and "receiving h f k pf" and "length f \<le> kMaxAssetFileBytes"
    and "hash_bytes f = h" and "k < chunk_count (length f)"
  shows "\<exists>c'. ingest_all hash_bytes now (map (file_chunk h f) [k..<chunk_count (length f)]) c = (True, c') \<and>
    received h f pf c c'"
  using assms
proof (induction "chunk_count (length f) - Suc k" arbitrary: k pf c)
  case 0
  then have last: "Suc k = chunk_count (length f)" by simp
  obtain c' where "ingest_chunk hash_bytes now (file_chunk h f k) c = (True, c')" "received h f pf c c'"
    by (rule ingest_last [where hash_bytes = hash_bytes and now = now, OF "0.prems"(1-3) last "0.prems"(4)])
  moreover have "[k..<chunk_count (length f)] = [k]" by (simp flip: last)
  ultimately show ?case by (simp add: Let_def)
next
  case (Suc d)
  then have more: "Suc k < chunk_count (length f)" by simp
  obtain pf' where
    step: "ingest_chunk hash_bytes now (file_chunk h f k) c = (True, c\<lparr>ac_pending := AList.update h pf' (ac_pending c)\<rparr>)"
    and pf': "receiving h f (Suc k) pf'" "pf_paths pf' = pf_paths pf"
    by (rule ingest_next [where hash_bytes = hash_bytes and now = now, OF Suc.prems(1-3) more])
  let ?c = "c\<lparr>ac_pending := AList.update h pf' (ac_pending c)\<rparr>"
  have "map_of (ac_pending ?c) h = Some pf'" by (simp add: update_conv')
  have "d = chunk_count (length f) - Suc (Suc k)" using Suc.hyps(2) by simp
  from Suc.hyps(1) [OF this \<open>map_of (ac_pending ?c) h = Some pf'\<close> pf'(1) Suc.prems(3,4) more] obtain c' where
    "ingest_all hash_bytes now (map (file_chunk h f) [Suc k..<chunk_count (length f)]) ?c = (True, c')"
    "received h f pf' ?c c'" by blast
  with step received_via [OF _ pf'(2)] more show ?case
    by (simp add: upt_conv_Cons Let_def)
qed

lemma ingest_file:
  assumes "map_of (ac_pending c) h = Some pf" and "receiving h f 0 pf" and "length f \<le> kMaxAssetFileBytes"
    and "hash_bytes f = h"
  shows "\<exists>c'. ingest_all hash_bytes now (file_chunks h f) c = (True, c') \<and> received h f pf c c'"
  using ingest_from [OF assms(1-3), of hash_bytes now] assms(4) by (simp add: file_chunks_def)

section \<open>A whole transfer\<close>

text \<open>The entries the client may be asked to hold: distinct paths, sizes within the cap, content as the hashes say.\<close>

definition good_entries :: "(byte list \<Rightarrow> asset_hash) \<Rightarrow> (asset_hash \<Rightarrow> byte list) \<Rightarrow> asset_entry_record list \<Rightarrow> bool" where
  "good_entries hash_bytes files es \<longleftrightarrow> distinct (map aer_path es) \<and>
     (\<forall>e \<in> set es. unat (aer_size e) \<le> kMaxAssetFileBytes \<and> length (files (aer_hash e)) \<le> kMaxAssetFileBytes \<and>
        hash_bytes (files (aer_hash e)) = aer_hash e)"

text \<open>A cache directory holds, under the name of a hash, nothing but the file of that hash.\<close>

definition disk_good :: "(asset_hash \<Rightarrow> byte list) \<Rightarrow> asset_cache \<Rightarrow> bool" where
  "disk_good files c \<longleftrightarrow> (\<forall>h bytes. ac_disk c (file_path h) = Some bytes \<longrightarrow> bytes = files h)"

definition held :: "(asset_hash \<Rightarrow> byte list) \<Rightarrow> asset_hash set \<Rightarrow> asset_cache \<Rightarrow> asset_entry_record \<Rightarrow> bool" where
  "held files waiting c e \<longleftrightarrow> ac_virtual_fs c (aer_path e) = Some (files (aer_hash e)) \<or>
     aer_hash e \<in> waiting \<and> (\<exists>pf. map_of (ac_pending c) (aer_hash e) = Some pf \<and> aer_path e \<in> set (pf_paths pf))"

definition waits :: "(asset_hash \<Rightarrow> byte list) \<Rightarrow> asset_entry_record list \<Rightarrow> asset_cache \<Rightarrow> asset_hash \<Rightarrow> bool" where
  "waits files es c h \<longleftrightarrow> (\<exists>pf. map_of (ac_pending c) h = Some pf \<and> receiving h (files h) 0 pf \<and>
     pf_paths pf \<noteq> [] \<and> (\<forall>p \<in> set (pf_paths pf). \<exists>e \<in> set es. aer_path e = p \<and> aer_hash e = h))"

definition transfer_ok :: "(asset_hash \<Rightarrow> byte list) \<Rightarrow> asset_entry_record list \<Rightarrow> asset_hash list \<Rightarrow>
    asset_cache \<Rightarrow> bool" where
  "transfer_ok files es hs c \<longleftrightarrow> distinct (map fst (ac_pending c)) \<and> distinct hs \<and>
     (\<forall>e \<in> set es. held files (set hs) c e) \<and> (\<forall>h \<in> set hs. waits files es c h) \<and>
     (\<forall>h pf. map_of (ac_pending c) h = Some pf \<longrightarrow> h \<notin> set hs \<longrightarrow> pf_done pf)"

lemma transfer_okI:
  assumes "distinct (map fst (ac_pending c))" and "distinct hs"
    and "\<And>e. e \<in> set es \<Longrightarrow> held files (set hs) c e" and "\<And>h. h \<in> set hs \<Longrightarrow> waits files es c h"
    and "\<And>h pf. map_of (ac_pending c) h = Some pf \<Longrightarrow> h \<notin> set hs \<Longrightarrow> pf_done pf"
  shows "transfer_ok files es hs c"
  using assms by (auto simp: transfer_ok_def)

lemma transfer_ok_held: "transfer_ok files es hs c \<Longrightarrow> x \<in> set es \<Longrightarrow> held files (set hs) c x"
  by (simp add: transfer_ok_def)

lemma transfer_ok_waits: "transfer_ok files es hs c \<Longrightarrow> h \<in> set hs \<Longrightarrow> waits files es c h"
  by (simp add: transfer_ok_def)

text \<open>Asking for one more entry.\<close>

lemma request_ok:
  assumes "transfer_ok files es hs c" and "unat (aer_size e) \<le> kMaxAssetFileBytes"
    and "request e (c, hs) = (c', hs')" and "\<forall>h pf. map_of (ac_pending c) h = Some pf \<longrightarrow> h \<in> set hs"
  shows "transfer_ok files (es @ [e]) hs' c' \<and> ac_disk c' = ac_disk c \<and>
    (\<forall>h pf. map_of (ac_pending c') h = Some pf \<longrightarrow> h \<in> set hs')"
proof (cases "map_of (ac_pending c) (aer_hash e)")
  case None
  then have new: "aer_hash e \<notin> set hs" using assms(1) by (auto simp: transfer_ok_def waits_def)
  have "transfer_ok files (es @ [e]) hs' c'"
  proof (rule transfer_okI)
    show "distinct (map fst (ac_pending c'))" "distinct hs'"
      using assms(1,3) None new by (auto simp: request_def transfer_ok_def distinct_update)
    show "held files (set hs') c' x" if "x \<in> set (es @ [e])" for x
      using that assms(3) None new transfer_ok_held [OF assms(1), of x]
      by (auto simp: request_def held_def update_conv')
    show "waits files (es @ [e]) c' h" if "h \<in> set hs'" for h
      using that assms(2,3) None new transfer_ok_waits [OF assms(1), of h]
      by (auto simp: request_def waits_def update_conv' receiving_def)
    show "pf_done pf" if "map_of (ac_pending c') h = Some pf" "h \<notin> set hs'" for h pf
      using that assms(1,3) None by (auto simp: request_def transfer_ok_def update_conv' split: if_splits)
  qed
  then show ?thesis using assms(3,4) None by (auto simp: request_def update_conv' split: if_splits)
next
  case (Some pf)
  then have old: "aer_hash e \<in> set hs" using assms(4) by blast
  have "transfer_ok files (es @ [e]) hs' c'"
  proof (rule transfer_okI)
    show "distinct (map fst (ac_pending c'))" "distinct hs'"
      using assms(1,3) Some by (auto simp: request_def transfer_ok_def distinct_update)
    show "held files (set hs') c' x" if "x \<in> set (es @ [e])" for x
      using that assms(3) Some old transfer_ok_held [OF assms(1), of x]
      by (auto simp: request_def held_def update_conv')
    show "waits files (es @ [e]) c' h" if "h \<in> set hs'" for h
      using that assms(2,3) Some transfer_ok_waits [OF assms(1), of h]
      by (auto simp: request_def waits_def update_conv' receiving_def)
    show "pf_done pf'" if "map_of (ac_pending c') h = Some pf'" "h \<notin> set hs'" for h pf'
      using that assms(1,3) Some old by (auto simp: request_def transfer_ok_def update_conv' split: if_splits)
  qed
  then show ?thesis using assms(3,4) Some old by (auto simp: request_def update_conv' split: if_splits)
qed

lemma scan_ok:
  assumes "transfer_ok files es hs c" and "\<forall>h pf. map_of (ac_pending c) h = Some pf \<longrightarrow> h \<in> set hs"
    and "disk_good files c" and "unat (aer_size e) \<le> kMaxAssetFileBytes" and "aer_path e \<notin> aer_path ` set es"
    and "scan_entry now e (c, hs) = (c', hs')"
  shows "transfer_ok files (es @ [e]) hs' c' \<and> disk_good files c' \<and>
    (\<forall>h pf. map_of (ac_pending c') h = Some pf \<longrightarrow> h \<in> set hs')"
proof -
  have via: ?thesis if "request e (d, hs) = (c', hs')" "ac_pending d = ac_pending c"
    "ac_virtual_fs d = ac_virtual_fs c" "ac_disk d = ac_disk c" for d
  proof -
    have "transfer_ok files es hs d"
      using assms(1) that(2,3) by (simp add: transfer_ok_def held_def waits_def)
    with request_ok [OF this assms(4) that(1)] assms(2,3) that(2,4) show ?thesis
      by (simp add: disk_good_def)
  qed
  show ?thesis
  proof (cases "map_of (ac_pending c) (aer_hash e) \<noteq> None \<or> map_of (ac_index c) (aer_hash e) = None")
    case True
    then have "request e (c, hs) = (c', hs')" using assms(6) by (auto simp: scan_entry_def split: if_splits)
    with via show ?thesis by blast
  next
    case False
    define d where "d = touch now (aer_hash e) c"
    have same: "ac_pending d = ac_pending c" "ac_virtual_fs d = ac_virtual_fs c" "ac_disk d = ac_disk c"
      by (auto simp: d_def touch_def split: option.split)
    show ?thesis
    proof (cases "ac_disk c (file_path (aer_hash e))")
      case None
      then have "request e (d\<lparr>ac_index := AList.delete (aer_hash e) (ac_index d)\<rparr>, hs) = (c', hs')"
        using False assms(6) same by (auto simp: scan_entry_def d_def [symmetric] Let_def)
      with via same show ?thesis by auto
    next
      case (Some bytes)
      then have c': "c' = d\<lparr>ac_virtual_fs := (ac_virtual_fs d)(aer_path e \<mapsto> bytes)\<rparr>" "hs' = hs"
        using False assms(6) same by (auto simp: scan_entry_def d_def [symmetric] Let_def)
      have "bytes = files (aer_hash e)" using Some assms(3) by (simp add: disk_good_def)
      moreover have "aer_path x \<noteq> aer_path e" if "x \<in> set es" for x using that assms(5) by (metis imageI)
      ultimately have "transfer_ok files (es @ [e]) hs c'"
        using assms(1) same
        by (auto simp: transfer_ok_def held_def waits_def c'(1))
      then show ?thesis using assms(2,3) same by (simp add: c' disk_good_def)
    qed
  qed
qed

lemma scan_all_ok:
  assumes "transfer_ok files done hs c" and "\<forall>h pf. map_of (ac_pending c) h = Some pf \<longrightarrow> h \<in> set hs"
    and "disk_good files c" and "\<forall>e \<in> set es. unat (aer_size e) \<le> kMaxAssetFileBytes"
    and "distinct (map aer_path (done @ es))" and "fold (scan_entry now) es (c, hs) = (c', hs')"
  shows "transfer_ok files (done @ es) hs' c'"
  using assms
proof (induction es arbitrary: c hs "done")
  case (Cons e es)
  obtain d gs where step: "scan_entry now e (c, hs) = (d, gs)" by fastforce
  have "aer_path e \<notin> aer_path ` set done" using Cons.prems(5) by auto
  from scan_ok [OF Cons.prems(1-3) _ this step] Cons.prems(4)
  have "transfer_ok files (done @ [e]) gs d" "disk_good files d"
    "\<forall>h pf. map_of (ac_pending d) h = Some pf \<longrightarrow> h \<in> set gs" by simp_all
  with Cons.IH [of "done @ [e]" gs d] Cons.prems(4-6) step show ?case by simp
qed simp

text \<open>One file more.\<close>

lemma good_entries_inj: "good_entries hash_bytes files es \<Longrightarrow> inj_on aer_path (set es)"
  unfolding good_entries_def distinct_map by blast

lemma receive_one:
  assumes "transfer_ok files es (h # hs) c" and "good_entries hash_bytes files es"
  shows "\<exists>c'. ingest_all hash_bytes now (file_chunks h (files h)) c = (True, c') \<and> transfer_ok files es hs c'"
proof -
  from assms(1) obtain pf where pf: "map_of (ac_pending c) h = Some pf" "receiving h (files h) 0 pf"
    "pf_paths pf \<noteq> []" "\<forall>p \<in> set (pf_paths pf). \<exists>e \<in> set es. aer_path e = p \<and> aer_hash e = h"
    by (auto simp: transfer_ok_def waits_def)
  then obtain e where "e \<in> set es" "aer_hash e = h" by (cases "pf_paths pf") auto
  then have sized: "length (files h) \<le> kMaxAssetFileBytes" "hash_bytes (files h) = h"
    using assms(2) by (auto simp: good_entries_def)
  from ingest_file [where hash_bytes = hash_bytes and now = now, OF pf(1,2) sized] obtain c' where
    c': "ingest_all hash_bytes now (file_chunks h (files h)) c = (True, c')" "received h (files h) pf c c'" by blast
  then obtain pf' where pending: "map_of (ac_pending c') = (map_of (ac_pending c))(h \<mapsto> pf')" "pf_done pf'"
    and keys: "distinct (map fst (ac_pending c'))"
    and fs: "ac_virtual_fs c' = fold (\<lambda>p fs. fs(p \<mapsto> files h)) (pf_paths pf) (ac_virtual_fs c)"
    using assms(1) by (auto simp: received_def transfer_ok_def)
  have h: "h \<notin> set hs" "distinct hs" using assms(1) by (simp_all add: transfer_ok_def)
  have "transfer_ok files es hs c'"
  proof (rule transfer_okI [OF keys h(2)])
    fix x assume x: "x \<in> set es"
    have same: "aer_hash x = h" if "aer_path x \<in> set (pf_paths pf)"
    proof -
      from bspec [OF pf(4) that] obtain y where y: "y \<in> set es" "aer_path y = aer_path x" "aer_hash y = h"
        by (elim bexE conjE)
      from inj_onD [OF good_entries_inj [OF assms(2)] y(2,1) x] y(3) show ?thesis by simp
    qed
    show "held files (set hs) c' x"
      using transfer_ok_held [OF assms(1) x] same pf(1) pending(1) h(1)
      by (auto simp: held_def fs put_paths)
  next
    fix g assume "g \<in> set hs"
    then show "waits files es c' g"
      using transfer_ok_waits [OF assms(1), of g] h(1) pending(1) by (auto simp: waits_def)
  next
    fix g pf'' assume "map_of (ac_pending c') g = Some pf''" "g \<notin> set hs"
    then show "pf_done pf''"
      using assms(1) pending by (auto simp: transfer_ok_def split: if_splits)
  qed
  with c'(1) show ?thesis by blast
qed

lemma receive_all:
  assumes "transfer_ok files es hs c" and "good_entries hash_bytes files es"
  shows "\<exists>c'. ingest_all hash_bytes now (all_chunks files hs) c = (True, c') \<and> transfer_ok files es [] c'"
  using assms(1)
proof (induction hs arbitrary: c)
  case (Cons h hs)
  from receive_one [OF Cons.prems assms(2)] obtain d where
    d: "ingest_all hash_bytes now (file_chunks h (files h)) c = (True, d)" "transfer_ok files es hs d" by blast
  from Cons.IH [OF d(2)] d(1) show ?case
    by (auto simp: all_chunks_def ingest_all_append Let_def)
qed (simp add: all_chunks_def)

lemma done_is_assembled:
  assumes "transfer_ok files es [] c"
  shows "all_received c" and "e \<in> set es \<Longrightarrow> ac_virtual_fs c (aer_path e) = Some (files (aer_hash e))"
  using assms
  by (auto simp: all_received_def list_all_iff transfer_ok_def held_def dest: map_of_is_SomeI)

text \<open>Starting a transfer.\<close>

definition transfer_list :: "asset_entry_record list \<Rightarrow> asset_hash \<Rightarrow> asset_cache \<Rightarrow> asset_entry_record list" where
  "transfer_list entries h c = fst (manifest_list entries h c)"

lemma compute_missing_ok:
  assumes "disk_good files c" and "good_entries hash_bytes files (transfer_list entries h c)"
    and "compute_missing now entries h c = (missing, c')"
  shows "transfer_ok files (transfer_list entries h c) missing c' \<and> distinct missing"
proof -
  let ?c = "c\<lparr>ac_pending := [], ac_virtual_fs := Map.empty\<rparr>"
  obtain es d where list: "manifest_list entries h ?c = (es, d)" by fastforce
  have es: "transfer_list entries h c = es"
    using list by (auto simp: transfer_list_def manifest_list_def split: if_splits option.splits)
  have d: "ac_pending d = []" "ac_disk d = ac_disk c"
    using list by (auto simp: manifest_list_def split: if_splits option.splits)
  obtain d' hs where scan: "fold (scan_entry now) es (d, []) = (d', hs)" by fastforce
  have "transfer_ok files [] [] d" using d by (simp add: transfer_ok_def)
  from scan_all_ok [OF this _ _ _ _ scan] assms(1,2) d es have "transfer_ok files es hs d'"
    by (simp add: good_entries_def disk_good_def)
  moreover have "missing = hs" "c' = save_index d'"
    using assms(3) list scan by (simp_all add: compute_missing_def)
  ultimately show ?thesis
    by (simp add: es transfer_ok_def held_def waits_def save_index_def)
qed

end
