(* ===== verification/Client_Session.thy ===== *)
theory Client_Session
  imports Client_Handshake Asset_Cache
begin

text \<open>
  The joining half of \<open>ClientSession\<close> (\<open>net/session.cpp\<close>): its tick over the transport's events,
  the frames it handles around the handshake, the gameplay frames it holds back until the
  \<open>JoinAccept\<close> arrives, and the asset cache wired into the handshake's hooks. What a registry or
  a gameplay frame does to the client's world is an argument of the operations.
\<close>

definition kMaxEarlyGameplayFrames :: nat where
  "kMaxEarlyGameplayFrames = 8192"

datatype transport_event = Connected | Message "byte list" | Disconnected bstring

record 'w session_apply =
  sa_registry :: "frame \<Rightarrow> 'w \<Rightarrow> 'w"
  sa_gameplay :: "frame \<Rightarrow> 'w \<Rightarrow> 'w"
  sa_advance :: "'w \<Rightarrow> 'w"

record ('t, 'w) client_session =
  cse_handshake :: "'t client_handshake"
  cse_cache :: "asset_cache option"
  cse_early :: "frame list"
  cse_world :: 'w
  cse_failure_reason :: bstring
  cse_started :: bool
  cse_reauth_ticket :: "'t option"

record 't session_env =
  se_build :: client_build
  se_config :: client_config
  se_host :: "'t client_host"
  se_hash_bytes :: "byte list \<Rightarrow> asset_hash"
  se_now :: i64
  se_reauth_provider :: "(s2c_reauth_request \<Rightarrow> 't option) option"
  se_reauth_poll :: "'t \<Rightarrow> token_poll"

text \<open>
  \<open>make_asset_host\<close>: the hooks a session with a cache gives its handshake, the default ones without.
  Its sign-in hooks are those of the session's setters.
\<close>

definition make_asset_host :: "(byte list \<Rightarrow> asset_hash) \<Rightarrow> i64 \<Rightarrow> asset_cache option \<Rightarrow> 't client_host \<Rightarrow>
    't client_host" where
  "make_asset_host hash_bytes now cache host = (case cache of
       None \<Rightarrow> host
         \<lparr>ch_last_known_manifest_hash := ch_last_known_manifest_hash (default_client_host :: 't client_host),
          ch_assets_missing := ch_assets_missing (default_client_host :: 't client_host),
          ch_on_asset_chunk := ch_on_asset_chunk (default_client_host :: 't client_host),
          ch_assets_all_received := ch_assets_all_received (default_client_host :: 't client_host)\<rparr>
     | Some c \<Rightarrow> host
         \<lparr>ch_last_known_manifest_hash := ch_last_known_manifest_hash (default_client_host :: 't client_host),
          ch_assets_missing := (\<lambda>m. fst (compute_missing now (aman_entries m) (aman_manifest_hash m) c)),
          ch_on_asset_chunk := (\<lambda>d. fst (ingest_chunk hash_bytes now d c)),
          ch_assets_all_received := (\<lambda>d. all_received (snd (ingest_chunk hash_bytes now d c)))\<rparr>)"

text \<open>What the hooks that a frame calls leave in the cache.\<close>

definition cache_after :: "(byte list \<Rightarrow> asset_hash) \<Rightarrow> i64 \<Rightarrow> client_status \<Rightarrow> frame \<Rightarrow> asset_cache \<Rightarrow>
    asset_cache" where
  "cache_after hash_bytes now status fr c = (
     if status = cAwaitingAssetManifest \<and> mh_type (fr_header fr) = kS2CAssetManifest
     then (case decode_S2CAssetManifest (fr_payload fr) of
         Inl _ \<Rightarrow> c
       | Inr m \<Rightarrow> snd (compute_missing now (aman_entries m) (aman_manifest_hash m) c))
     else if status = cSyncingAssets \<and> mh_type (fr_header fr) = kS2CAssetData
     then (case decode_S2CAssetData (fr_payload fr) of
         Inl _ \<Rightarrow> c
       | Inr d \<Rightarrow> snd (ingest_chunk hash_bytes now d c))
     else c)"

definition registry_type :: "message_type \<Rightarrow> bool" where
  "registry_type t \<longleftrightarrow> t = kS2CBlockRegistry \<or> t = kS2CKeybindRegistry \<or> t = kS2CEntityKindRegistry \<or>
     t = kS2CMoveParams \<or> t = kS2CDayNightCurve \<or> t = kS2CFogParams"

text \<open>The cases of \<open>apply_gameplay_frame\<close>.\<close>

definition gameplay_type :: "message_type \<Rightarrow> bool" where
  "gameplay_type t \<longleftrightarrow> t = kS2CEntitySnapshot \<or> t = kS2CChunkAdd \<or> t = kS2CChunkDelta \<or>
     t = kS2CBlockEditResult \<or> t = kS2CChunkRemove \<or> t = kS2COpenUi \<or> t = kS2CChat \<or>
     t = kS2CTimeOfDay \<or> t = kS2CPlayerList \<or> t = kS2CPlayerJoin \<or> t = kS2CInventory \<or>
     t = kS2CPlayerStatus \<or> t = kS2CBlockDamage \<or> t = kS2CPlayerLeave"

definition apply_gameplay_frame :: "'w session_apply \<Rightarrow> frame \<Rightarrow> 'w \<Rightarrow> 'w" where
  "apply_gameplay_frame ap fr w =
     (if gameplay_type (mh_type (fr_header fr)) then sa_gameplay ap fr w else w)"

definition ftype :: "frame \<Rightarrow> message_type" where
  "ftype fr = mh_type (fr_header fr)"

text \<open>The handshake's turn, and the held frames once it has joined.\<close>

definition session_handshake :: "'t session_env \<Rightarrow> 'w session_apply \<Rightarrow> frame \<Rightarrow> ('t, 'w) client_session \<Rightarrow>
    outgoing_frame list \<times> ('t, 'w) client_session" where
  "session_handshake env ap fr cs = (
     let host = make_asset_host (se_hash_bytes env) (se_now env) (cse_cache cs) (se_host env);
         (step, hs) = cl_on_frame (se_build env) (se_config env) host fr (cse_handshake cs);
         cs = cs\<lparr>cse_handshake := hs, cse_cache := map_option
           (cache_after (se_hash_bytes env) (se_now env) (cl_status (cse_handshake cs)) fr) (cse_cache cs)\<rparr>;
         cs = (if cs_failed step then cs\<lparr>cse_failure_reason := cs_failure_reason step\<rparr> else cs) in
     (cs_send step,
      if cl_status hs = cJoined \<and> cse_early cs \<noteq> []
      then cs\<lparr>cse_world := fold (apply_gameplay_frame ap) (cse_early cs) (cse_world cs), cse_early := []\<rparr>
      else cs))"

text \<open>A new sign-in the server asks for while playing.\<close>

definition reauth_request :: "'t session_env \<Rightarrow> frame \<Rightarrow> ('t, 'w) client_session \<Rightarrow> ('t, 'w) client_session" where
  "reauth_request env fr cs = (case decode_S2CReauthRequest (fr_payload fr) of
       Inl _ \<Rightarrow> cs
     | Inr m \<Rightarrow> (case se_reauth_provider env of
           None \<Rightarrow> cs
         | Some provide \<Rightarrow> cs\<lparr>cse_reauth_ticket := provide m\<rparr>))"

definition poll_reauth :: "'t session_env \<Rightarrow> ('t, 'w) client_session \<Rightarrow>
    outgoing_frame list \<times> ('t, 'w) client_session" where
  "poll_reauth env cs = (case cse_reauth_ticket cs of
       None \<Rightarrow> ([], cs)
     | Some ticket \<Rightarrow>
         let p = se_reauth_poll env ticket in
         if \<not> tp_done p then ([], cs)
         else
           (if tp_error p = [] \<and> tp_token p \<noteq> [] \<and> length (tp_token p) \<le> kMaxAuthTokenBytes
            then [frame_message (cb_lz4 (se_build env)) kC2SReauth (encode_C2SReauth \<lparr>reauth_token = tp_token p\<rparr>) 0]
            else [],
            cs\<lparr>cse_reauth_ticket := None\<rparr>))"

text \<open>One received frame; \<open>False\<close> ends the tick.\<close>

definition session_frame :: "'t session_env \<Rightarrow> 'w session_apply \<Rightarrow> frame \<Rightarrow> ('t, 'w) client_session \<Rightarrow>
    bool \<times> outgoing_frame list \<times> ('t, 'w) client_session" where
  "session_frame env ap fr cs = (
     let status = cl_status (cse_handshake cs) in
     if registry_type (ftype fr) then (True, [], cs\<lparr>cse_world := sa_registry ap fr (cse_world cs)\<rparr>)
     else if ftype fr = kS2CReauthRequest \<and> status = cJoined
     then (True, [], reauth_request env fr cs)
     else if status = cJoined \<and> gameplay_type (ftype fr)
     then (True, [], cs\<lparr>cse_world := apply_gameplay_frame ap fr (cse_world cs)\<rparr>)
     else if status = cSyncing \<and> ftype fr \<noteq> kS2CJoinAccept
     then (if length (cse_early cs) \<ge> kMaxEarlyGameplayFrames
           then (False, [], cs\<lparr>cse_failure_reason := lit ''too many messages before JoinAccept''\<rparr>)
           else (True, [], cs\<lparr>cse_early := cse_early cs @ [fr]\<rparr>))
     else (True, session_handshake env ap fr cs))"

definition session_event :: "'t session_env \<Rightarrow> 'w session_apply \<Rightarrow> transport_event \<Rightarrow> ('t, 'w) client_session \<Rightarrow>
    bool \<times> outgoing_frame list \<times> ('t, 'w) client_session" where
  "session_event env ap ev cs = (case ev of
       Connected \<Rightarrow>
         if cse_started cs then (True, [], cs)
         else (let (step, hs) = start (se_build env) (se_config env) (cse_handshake cs) in
               (True, cs_send step, cs\<lparr>cse_started := True, cse_handshake := hs\<rparr>))
     | Message bytes \<Rightarrow> (case fst (read_frame bytes) of
           Inl _ \<Rightarrow> (False, [], cs\<lparr>cse_failure_reason := lit ''malformed frame from server''\<rparr>)
         | Inr fr \<Rightarrow> (case decompress_frame_payload (cb_lz4 (se_build env)) fr of
               None \<Rightarrow> (False, [], cs\<lparr>cse_failure_reason :=
                   (if cb_lz4 (se_build env) = None
                    then lit ''received a compressed frame but built without VB_WITH_COMPRESSION''
                    else lit ''malformed compressed frame'')\<rparr>)
             | Some p \<Rightarrow> session_frame env ap (fr\<lparr>fr_payload := p\<rparr>) cs))
     | Disconnected reason \<Rightarrow>
         (True, [], if cl_status (cse_handshake cs) \<noteq> cJoined \<and> cse_failure_reason cs = []
            then cs\<lparr>cse_failure_reason := (if reason = [] then lit ''connection closed'' else reason)\<rparr>
            else cs))"

text \<open>The events of one \<open>poll\<close>, in order, up to the one that ends the tick.\<close>

primrec session_events :: "'t session_env \<Rightarrow> 'w session_apply \<Rightarrow> transport_event list \<Rightarrow>
    ('t, 'w) client_session \<Rightarrow> outgoing_frame list \<times> ('t, 'w) client_session" where
  "session_events env ap [] cs = ([], cs)"
| "session_events env ap (ev # evs) cs = (
     let (go_on, sent, cs) = session_event env ap ev cs in
     if \<not> go_on then (sent, cs)
     else let (more, cs) = session_events env ap evs cs in (sent @ more, cs))"

definition session_tick :: "'t session_env \<Rightarrow> 'w session_apply \<Rightarrow> transport_event list \<Rightarrow>
    ('t, 'w) client_session \<Rightarrow> outgoing_frame list \<times> ('t, 'w) client_session" where
  "session_tick env ap evs cs = (
     let cs = cs\<lparr>cse_world := sa_advance ap (cse_world cs)\<rparr>;
         (step, hs) = (if cl_status (cse_handshake cs) = cSigningIn
                       then poll_sign_in (se_build env) (se_config env) (se_host env) (cse_handshake cs)
                       else (quiet, cse_handshake cs));
         cs = cs\<lparr>cse_handshake := hs\<rparr> in
     if cs_failed step then (cs_send step, cs\<lparr>cse_failure_reason := cs_failure_reason step\<rparr>)
     else
       let (again, cs) = poll_reauth env cs;
           (sent, cs) = session_events env ap evs cs in
       (cs_send step @ again @ sent, cs))"

definition session_cancel_sign_in :: "('t, 'w) client_session \<Rightarrow> ('t, 'w) client_session" where
  "session_cancel_sign_in cs = (
     let (step, hs) = cancel_sign_in (cse_handshake cs);
         cs = cs\<lparr>cse_handshake := hs\<rparr> in
     if cs_failed step then cs\<lparr>cse_failure_reason := cs_failure_reason step\<rparr> else cs)"

definition session_joined :: "('t, 'w) client_session \<Rightarrow> bool" where
  "session_joined cs \<longleftrightarrow> cl_status (cse_handshake cs) = cJoined"

definition session_failed :: "('t, 'w) client_session \<Rightarrow> bool" where
  "session_failed cs \<longleftrightarrow> cl_status (cse_handshake cs) = cFailed \<or> cse_failure_reason cs \<noteq> []"

definition new_session :: "asset_cache option \<Rightarrow> 'w \<Rightarrow> ('t, 'w) client_session" where
  "new_session cache w = \<lparr>cse_handshake = new_client, cse_cache = cache, cse_early = [], cse_world = w,
     cse_failure_reason = [], cse_started = False, cse_reauth_ticket = None\<rparr>"

section \<open>Opening a message\<close>

definition opened :: "lz4_api option \<Rightarrow> byte list \<Rightarrow> frame option" where
  "opened lz bytes = (case fst (read_frame bytes) of
       Inl _ \<Rightarrow> None
     | Inr fr \<Rightarrow> map_option (\<lambda>p. fr\<lparr>fr_payload := p\<rparr>) (decompress_frame_payload lz fr))"

lemma message_event:
  "opened (cb_lz4 (se_build env)) bytes = Some fr \<Longrightarrow>
   session_event env ap (Message bytes) cs = session_frame env ap fr cs"
  by (auto simp: opened_def session_event_def split: sum.splits)

section \<open>A late JoinAccept\<close>

lemma gameplay_excludes:
  assumes "gameplay_type t"
  shows "\<not> registry_type t" and "t \<noteq> kS2CJoinAccept" and "t \<noteq> kS2CReauthRequest" and "t \<noteq> kS2CDisconnect"
  using assms by (auto simp: gameplay_type_def registry_type_def)

abbreviation syncing :: "('t, 'w) client_session \<Rightarrow> bool" where
  "syncing cs \<equiv> cl_status (cse_handshake cs) = cSyncing"

abbreviation opens_to :: "'t session_env \<Rightarrow> byte list list \<Rightarrow> frame list \<Rightarrow> bool" where
  "opens_to env bs frs \<equiv> map (opened (cb_lz4 (se_build env))) bs = map Some frs"

lemma held_back:
  assumes "syncing cs" and "gameplay_type (ftype fr)" and "length (cse_early cs) < kMaxEarlyGameplayFrames"
  shows "session_frame env ap fr cs = (True, [], cs\<lparr>cse_early := cse_early cs @ [fr]\<rparr>)"
  using assms gameplay_excludes [OF assms(2)] by (simp add: session_frame_def Let_def)

lemma events_held_back:
  assumes "syncing cs" and "opens_to env bs frs" and "\<forall>fr \<in> set frs. gameplay_type (ftype fr)"
    and "length (cse_early cs) + length frs \<le> kMaxEarlyGameplayFrames"
  shows "session_events env ap (map Message bs @ evs) cs =
    session_events env ap evs (cs\<lparr>cse_early := cse_early cs @ frs\<rparr>)"
  using assms
proof (induction frs arbitrary: bs cs)
  case (Cons fr frs)
  then obtain b bs' where bs: "bs = b # bs'" "opened (cb_lz4 (se_build env)) b = Some fr" "opens_to env bs' frs"
    by (cases bs) auto
  have "session_event env ap (Message b) cs = (True, [], cs\<lparr>cse_early := cse_early cs @ [fr]\<rparr>)"
    using Cons.prems by (simp add: message_event [OF bs(2)] held_back)
  with Cons.IH [of "cs\<lparr>cse_early := cse_early cs @ [fr]\<rparr>" bs'] Cons.prems bs show ?case by simp
qed simp

lemma events_applied:
  assumes "session_joined cs" and "opens_to env bs frs" and "\<forall>fr \<in> set frs. gameplay_type (ftype fr)"
  shows "session_events env ap (map Message bs) cs =
    ([], cs\<lparr>cse_world := fold (apply_gameplay_frame ap) frs (cse_world cs)\<rparr>)"
  using assms
proof (induction frs arbitrary: bs cs)
  case (Cons fr frs)
  then obtain b bs' where bs: "bs = b # bs'" "opened (cb_lz4 (se_build env)) b = Some fr" "opens_to env bs' frs"
    by (cases bs) auto
  let ?cs = "cs\<lparr>cse_world := apply_gameplay_frame ap fr (cse_world cs)\<rparr>"
  have "session_event env ap (Message b) cs = (True, [], ?cs)"
    using Cons.prems gameplay_excludes [of "ftype fr"]
    by (simp add: message_event [OF bs(2)] session_frame_def session_joined_def Let_def)
  with Cons.IH [of ?cs bs'] Cons.prems bs show ?case by (simp add: session_joined_def)
qed simp

text \<open>The session after a \<open>JoinAccept\<close>.\<close>

definition accepted_session :: "'w session_apply \<Rightarrow> s2c_join_accept \<Rightarrow> ('t, 'w) client_session \<Rightarrow>
    ('t, 'w) client_session" where
  "accepted_session ap accept cs = cs
     \<lparr>cse_handshake := (cse_handshake cs)\<lparr>cl_join_accept := Some accept, cl_status := cJoined\<rparr>,
      cse_world := fold (apply_gameplay_frame ap) (cse_early cs) (cse_world cs), cse_early := []\<rparr>"

lemma accepting_event:
  assumes "syncing cs" and "opened (cb_lz4 (se_build env)) b = Some fr" and "ftype fr = kS2CJoinAccept"
    and "decode_S2CJoinAccept (fr_payload fr) = Inr accept"
  shows "session_event env ap (Message b) cs = (True, [], accepted_session ap accept cs)"
proof -
  have "map_option (cache_after (se_hash_bytes env) (se_now env) cSyncing fr) (cse_cache cs) = cse_cache cs"
    by (cases "cse_cache cs") (simp_all add: cache_after_def)
  with assms show ?thesis
    by (cases cs) (simp add: message_event [OF assms(2)] session_frame_def session_handshake_def cl_on_frame_def
        on_join_accept_def registry_type_def gameplay_type_def accepted_session_def ftype_def Let_def)
qed

lemma accept_order:
  assumes "syncing cs" and "cse_early cs = []" and "opened (cb_lz4 (se_build env)) j = Some jf"
    and "ftype jf = kS2CJoinAccept" and "decode_S2CJoinAccept (fr_payload jf) = Inr accept"
    and "opens_to env bs frs" and "\<forall>fr \<in> set frs. gameplay_type (ftype fr)"
    and "length frs \<le> kMaxEarlyGameplayFrames"
  shows "session_events env ap (map Message bs @ [Message j]) cs =
    session_events env ap (Message j # map Message bs) cs"
proof -
  have "session_events env ap (map Message bs @ [Message j]) cs =
      ([], accepted_session ap accept (cs\<lparr>cse_early := frs\<rparr>))"
    using events_held_back [OF assms(1,6,7), of ap "[Message j]"] assms(2,8)
      accepting_event [OF _ assms(3-5), of "cs\<lparr>cse_early := frs\<rparr>" ap] assms(1)
    by simp
  moreover have "session_events env ap (Message j # map Message bs) cs =
      ([], accepted_session ap accept (cs\<lparr>cse_early := frs\<rparr>))"
    using accepting_event [OF assms(1,3-5), of ap]
      events_applied [OF _ assms(6,7), of "accepted_session ap accept cs" ap] assms(2)
    by (simp add: session_joined_def accepted_session_def)
  ultimately show ?thesis by simp
qed

text \<open>Whatever arrives, the buffer of held frames stays bounded.\<close>

lemma early_bounded:
  "length (cse_early cs) \<le> kMaxEarlyGameplayFrames \<Longrightarrow>
   length (cse_early (snd (snd (session_event env ap ev cs)))) \<le> kMaxEarlyGameplayFrames"
  by (auto simp: session_event_def session_frame_def session_handshake_def reauth_request_def Let_def
      case_prod_unfold split: transport_event.split sum.split option.split)

lemma early_bounded_tick:
  "length (cse_early cs) \<le> kMaxEarlyGameplayFrames \<Longrightarrow>
   length (cse_early (snd (session_tick env ap evs cs))) \<le> kMaxEarlyGameplayFrames"
proof -
  have "length (cse_early cs) \<le> kMaxEarlyGameplayFrames \<Longrightarrow>
    length (cse_early (snd (session_events env ap evs cs))) \<le> kMaxEarlyGameplayFrames"
    for cs :: "('a, 'b) client_session"
    by (induction evs arbitrary: cs) (auto simp: Let_def case_prod_unfold early_bounded)
  moreover have "cse_early (snd (poll_reauth env cs)) = cse_early cs" for cs :: "('a, 'b) client_session"
    by (simp add: poll_reauth_def Let_def split: option.split)
  ultimately show "length (cse_early cs) \<le> kMaxEarlyGameplayFrames \<Longrightarrow> ?thesis"
    by (simp add: session_tick_def Let_def case_prod_unfold)
qed

text \<open>A \<open>Disconnect\<close> that overtakes nothing is held back all the same: its message is lost.\<close>

lemma disconnect_withheld:
  assumes "syncing cs" and "ftype fr = kS2CDisconnect" and "length (cse_early cs) < kMaxEarlyGameplayFrames"
  shows "session_frame env ap fr cs = (True, [], cs\<lparr>cse_early := cse_early cs @ [fr]\<rparr>)"
  using assms by (simp add: session_frame_def registry_type_def gameplay_type_def Let_def)

end
