(* ===== verification/Paletted_Store.thy ===== *)
theory Paletted_Store
  imports Core_Types
begin

text \<open>
  \<open>PalettedChunkStore\<close> of \<open>world/paletted_chunk_store.hpp\<close> and \<open>.cpp\<close>: a palette of block ids
  and bit-packed palette indices, 0, 1, 2, 4, 8 or 16 bits per voxel in 64-bit words. The
  abstract view is the plain list of the chunk's \<open>kChunkVolume\<close> blocks; the store refines list
  update under its invariant.
\<close>

definition kChunkVolume :: nat where
  "kChunkVolume = 32 * 32 * 32"

definition index_of :: "nat \<Rightarrow> nat \<Rightarrow> nat \<Rightarrow> nat" where
  "index_of x y z = x + 32 * (z + 32 * y)"

record paletted_store =
  ps_palette :: "block_id list"
  ps_data :: "u64 list"
  ps_bits :: nat

definition words_for :: "nat \<Rightarrow> nat" where
  "words_for bits = (if bits = 0 then 0 else (kChunkVolume * bits + 63) div 64)"

definition new_store :: "block_id \<Rightarrow> paletted_store" where
  "new_store fill_block = \<lparr>ps_palette = [fill_block], ps_data = [], ps_bits = 0\<rparr>"

definition width_for :: "nat \<Rightarrow> nat" where
  "width_for palette_size =
     (if palette_size \<le> 1 then 0
      else if palette_size \<le> 2 then 1
      else if palette_size \<le> 4 then 2
      else if palette_size \<le> 16 then 4
      else if palette_size \<le> 256 then 8
      else 16)"

text \<open>The two word accesses, on the data vector and the width.\<close>

definition raw_at :: "nat \<Rightarrow> u64 list \<Rightarrow> nat \<Rightarrow> u64" where
  "raw_at bits data index = drop_bit (index * bits mod 64) (data ! (index * bits div 64)) AND
     (push_bit bits 1 - 1)"

definition read_raw :: "paletted_store \<Rightarrow> nat \<Rightarrow> u64" where
  "read_raw st index = (if ps_bits st = 0 then 0
     else drop_bit (index * ps_bits st mod 64) (ps_data st ! (index * ps_bits st div 64)) AND
       (if ps_bits st = 64 then NOT 0 else push_bit (ps_bits st) 1 - 1))"

definition write_raw :: "paletted_store \<Rightarrow> nat \<Rightarrow> u64 \<Rightarrow> paletted_store" where
  "write_raw st index value = (
     let bit = index * ps_bits st;
         word = bit div 64;
         shift = bit mod 64;
         mask = push_bit shift (push_bit (ps_bits st) 1 - 1) in
     st\<lparr>ps_data := (ps_data st)[word :=
       (ps_data st ! word AND NOT mask) OR (push_bit shift value AND mask)]\<rparr>)"

definition repack :: "nat \<Rightarrow> u64 list \<Rightarrow> nat \<Rightarrow> paletted_store \<Rightarrow> paletted_store" where
  "repack old_bits old_data i st = (let v = raw_at old_bits old_data i in
     if v \<noteq> 0 then write_raw st i v else st)"

definition set_width :: "nat \<Rightarrow> paletted_store \<Rightarrow> paletted_store" where
  "set_width new_bits st = (
     if new_bits = ps_bits st then st
     else let st' = st\<lparr>ps_data := replicate (words_for new_bits) 0, ps_bits := new_bits\<rparr> in
       if ps_bits st = 0 then st'
       else fold (repack (ps_bits st) (ps_data st)) [0..<kChunkVolume] st')"

primrec find_block :: "block_id list \<Rightarrow> block_id \<Rightarrow> nat option" where
  "find_block [] b = None"
| "find_block (p # ps) b = (if p = b then Some 0 else map_option Suc (find_block ps b))"

definition palette_index_of :: "block_id \<Rightarrow> paletted_store \<Rightarrow> nat \<times> paletted_store" where
  "palette_index_of block st = (case find_block (ps_palette st) block of
     Some i \<Rightarrow> (i, st)
   | None \<Rightarrow>
       let st' = st\<lparr>ps_palette := ps_palette st @ [block]\<rparr>;
           needed = width_for (length (ps_palette st'));
           st'' = (if needed > ps_bits st' then set_width needed st' else st') in
       (length (ps_palette st'') - 1, st''))"

definition ps_get :: "paletted_store \<Rightarrow> nat \<Rightarrow> block_id" where
  "ps_get st index = (if ps_bits st = 0 then ps_palette st ! 0
     else let idx = unat (read_raw st index) in
       if idx < length (ps_palette st) then ps_palette st ! idx else ps_palette st ! 0)"

definition ps_set :: "nat \<Rightarrow> block_id \<Rightarrow> paletted_store \<Rightarrow> bool \<times> paletted_store" where
  "ps_set index block st = (
     if ps_get st index = block then (False, st)
     else let (idx, st') = palette_index_of block st in
       (True, write_raw st' index (of_nat idx)))"

definition ps_fill :: "block_id \<Rightarrow> paletted_store \<Rightarrow> paletted_store" where
  "ps_fill block st = st\<lparr>ps_palette := [block], ps_data := [], ps_bits := 0\<rparr>"

definition is_homogeneous :: "paletted_store \<Rightarrow> bool" where
  "is_homogeneous st \<longleftrightarrow> ps_bits st = 0"

definition packed_bytes :: "paletted_store \<Rightarrow> nat" where
  "packed_bytes st = length (ps_data st) * 8"

definition uniform_value :: "paletted_store \<Rightarrow> block_id option" where
  "uniform_value st = (if ps_bits st = 0 then Some (ps_palette st ! 0)
     else let first = ps_get st 0 in
       if \<forall>i \<in> set [1..<kChunkVolume]. ps_get st i = first then Some first else None)"

section \<open>compact\<close>

definition used_slots :: "paletted_store \<Rightarrow> bool list" where
  "used_slots st = fold (\<lambda>i used. used[unat (read_raw st i) := True]) [0..<kChunkVolume]
     (replicate (length (ps_palette st)) False)"

text \<open>The loop over the palette that builds the new palette and the remap table.\<close>

primrec build_remap :: "block_id list \<Rightarrow> bool list \<Rightarrow> block_id list \<Rightarrow> nat list \<Rightarrow>
    block_id list \<times> nat list" where
  "build_remap [] used new_palette remap = (new_palette, remap)"
| "build_remap (p # ps) used new_palette remap =
     (if hd used then build_remap ps (tl used) (new_palette @ [p]) (remap @ [length new_palette])
      else build_remap ps (tl used) new_palette (remap @ [0]))"

definition write_index :: "nat list \<Rightarrow> nat \<Rightarrow> paletted_store \<Rightarrow> paletted_store" where
  "write_index indices i st = (if indices ! i \<noteq> 0 then write_raw st i (of_nat (indices ! i)) else st)"

definition compact :: "paletted_store \<Rightarrow> paletted_store" where
  "compact st = (
     if ps_bits st = 0 then st
     else case uniform_value st of
       Some uniform \<Rightarrow> ps_fill uniform st
     | None \<Rightarrow>
         let used = used_slots st in
         if list_all (\<lambda>b. b) used then set_width (width_for (length (ps_palette st))) st
         else
           let (new_palette, remap) = build_remap (ps_palette st) used [] [];
               indices = map (\<lambda>i. remap ! unat (read_raw st i)) [0..<kChunkVolume];
               st' = st\<lparr>ps_palette := new_palette, ps_bits := 0, ps_data := []\<rparr>;
               st'' = set_width (width_for (length new_palette)) st' in
           fold (write_index indices) [0..<kChunkVolume] st'')"

section \<open>Packed words\<close>

definition widths :: "nat set" where
  "widths = {1, 2, 4, 8, 16}"

lemma widths_simps:
  assumes "b \<in> widths"
  shows "0 < b" and "b \<le> 16" and "b dvd 64" and "(2 :: nat) ^ b \<le> 65536" and "b \<noteq> 64"
  using assms by (auto simp: widths_def)

lemma width_for_widths: "1 < n \<Longrightarrow> width_for n \<in> widths"
  by (simp add: width_for_def widths_def)

lemma width_for_fits: "n \<le> 65536 \<Longrightarrow> n \<le> 2 ^ width_for n"
  by (simp add: width_for_def)

text \<open>One bit of the packed array, by its global position.\<close>

definition packed_bit :: "u64 list \<Rightarrow> nat \<Rightarrow> bool" where
  "packed_bit data p = bit (data ! (p div 64)) (p mod 64)"

lemma low_mask: "(2 :: u64) ^ b - 1 = mask b" "push_bit b 1 - 1 = (mask b :: u64)"
  by (simp_all add: mask_eq_exp_minus_1)

lemma slot_position:
  assumes "b \<in> widths" and "n < b"
  shows "(i * b + n) div 64 = i * b div 64" and "(i * b + n) mod 64 = i * b mod 64 + n"
    and "i * b mod 64 + n < 64"
proof -
  obtain k where k: "64 = b * k" using widths_simps(3) [OF assms(1)] by (elim dvdE)
  have b: "0 < b" by (rule widths_simps(1) [OF assms(1)])
  have d: "(i * b + n) div b = i" using assms(2) by simp
  have m: "(i * b + n) mod b = n" using assms(2) by simp
  show "(i * b + n) div 64 = i * b div 64"
    unfolding k div_mult2_eq d using b by simp
  have "(i * b + n) mod 64 = b * (i mod k) + n"
    unfolding k mod_mult2_eq d m by simp
  moreover have "i * b mod 64 = b * (i mod k)"
    unfolding k by (metis mult.commute mult_mod_right)
  ultimately show "(i * b + n) mod 64 = i * b mod 64 + n" by simp
  then show "i * b mod 64 + n < 64" by (metis mod_less_divisor zero_less_numeral)
qed

lemma bit_raw_at:
  assumes "b \<in> widths"
  shows "bit (raw_at b data i) n \<longleftrightarrow> n < b \<and> packed_bit data (i * b + n)"
proof (cases "n < b")
  case True
  with slot_position [OF assms True, of i] show ?thesis
    by (simp add: raw_at_def packed_bit_def low_mask bit_simps)
next
  case False
  then show ?thesis by (simp add: raw_at_def low_mask bit_simps)
qed

lemma raw_at_less: "b \<in> widths \<Longrightarrow> unat (raw_at b data i) < 2 ^ b"
proof -
  assume b: "b \<in> widths"
  have "raw_at b data i = take_bit b (raw_at b data i)"
    by (rule bit_word_eqI) (auto simp: bit_simps bit_raw_at [OF b])
  then have "unat (raw_at b data i) = take_bit b (unat (raw_at b data i))"
    by (metis unsigned_take_bit_eq)
  then show ?thesis by (metis take_bit_nat_less_exp)
qed

lemma read_raw_at: "ps_bits st \<in> widths \<Longrightarrow> read_raw st i = raw_at (ps_bits st) (ps_data st) i"
  using widths_simps(1,5) [of "ps_bits st"] by (simp add: read_raw_def raw_at_def)

definition put_raw :: "nat \<Rightarrow> u64 list \<Rightarrow> nat \<Rightarrow> u64 \<Rightarrow> u64 list" where
  "put_raw b data i v = (let m = push_bit (i * b mod 64) (push_bit b 1 - 1) in
     data[i * b div 64 := (data ! (i * b div 64) AND NOT m) OR (push_bit (i * b mod 64) v AND m)])"

lemma write_raw_put: "write_raw st i v = st\<lparr>ps_data := put_raw (ps_bits st) (ps_data st) i v\<rparr>"
  by (simp add: write_raw_def put_raw_def Let_def)

lemma length_put_raw [simp]: "length (put_raw b data i v) = length data"
  by (simp add: put_raw_def Let_def)

lemma packed_bit_put_same:
  assumes b: "b \<in> widths" and n: "n < b" and i: "i * b div 64 < length data"
  shows "packed_bit (put_raw b data i v) (i * b + n) \<longleftrightarrow> bit v n"
  using slot_position [OF b n, of i] i n
  by (auto simp: packed_bit_def put_raw_def Let_def low_mask bit_simps)

lemma packed_bit_put_other:
  assumes b: "b \<in> widths" and n: "n < b" and ij: "i \<noteq> j"
    and i: "i * b div 64 < length data"
  shows "packed_bit (put_raw b data i v) (j * b + n) \<longleftrightarrow> packed_bit data (j * b + n)"
proof (cases "j * b div 64 = i * b div 64")
  case False
  with slot_position [OF b n, of j] show ?thesis
    by (simp add: packed_bit_def put_raw_def Let_def)
next
  case True
  let ?q = "j * b mod 64 + n" and ?s = "i * b mod 64"
  have "\<not> (?s \<le> ?q \<and> ?q - ?s < b)"
  proof
    assume "?s \<le> ?q \<and> ?q - ?s < b"
    then have "?s \<le> ?q" and lt: "?q - ?s < b" by simp_all
    have "j * b = j * b div 64 * 64 + j * b mod 64" "i * b = j * b div 64 * 64 + ?s"
      using div_mult_mod_eq [of "j * b" 64] div_mult_mod_eq [of "i * b" 64] True by simp_all
    then have "j * b + n = i * b + (?q - ?s)"
      using \<open>?s \<le> ?q\<close> by linarith
    moreover have "(j * b + n) div b = j" "(i * b + (?q - ?s)) div b = i"
      using n lt by simp_all
    ultimately show False using ij by simp
  qed
  with slot_position [OF b n, of j] i True show ?thesis
    by (auto simp: packed_bit_def put_raw_def Let_def low_mask bit_simps)
qed

lemma raw_at_put:
  assumes b: "b \<in> widths" and i: "i * b div 64 < length data" and v: "unat v < 2 ^ b"
  shows "raw_at b (put_raw b data i v) j = (if j = i then v else raw_at b data j)"
proof (rule bit_word_eqI)
  fix n assume "n < LENGTH(64)"
  have "take_bit b v = v"
    using v by (metis take_bit_nat_eq_self unsigned_take_bit_eq unsigned_word_eqI)
  then have "n < b" if "bit v n" using that by (metis bit_take_bit_iff)
  with packed_bit_put_same [OF b _ i] packed_bit_put_other [OF b _ _ i]
  show "bit (raw_at b (put_raw b data i v) j) n = bit (if j = i then v else raw_at b data j) n"
    by (auto simp: bit_raw_at [OF b])
qed

section \<open>The invariant\<close>

definition packed_ok :: "paletted_store \<Rightarrow> bool" where
  "packed_ok st \<longleftrightarrow> ps_bits st \<in> widths \<and> length (ps_data st) = words_for (ps_bits st)"

definition store_inv :: "paletted_store \<Rightarrow> bool" where
  "store_inv st \<longleftrightarrow> ps_palette st \<noteq> [] \<and> distinct (ps_palette st) \<and>
     (if ps_bits st = 0 then length (ps_palette st) = 1 \<and> ps_data st = []
      else packed_ok st \<and> length (ps_palette st) \<le> 2 ^ ps_bits st \<and>
        (\<forall>i < kChunkVolume. unat (read_raw st i) < length (ps_palette st)))"

definition voxels :: "paletted_store \<Rightarrow> block_id list" where
  "voxels st = map (ps_get st) [0..<kChunkVolume]"

lemma words_for_widths: "b \<in> widths \<Longrightarrow> words_for b = 512 * b"
  by (auto simp: widths_def words_for_def kChunkVolume_def)

lemma slot_in_data:
  assumes "b \<in> widths" and "i < kChunkVolume"
  shows "i * b div 64 < words_for b"
proof -
  have "i * b < 512 * b * 64"
    using assms widths_simps(1) [OF assms(1)] by (simp add: kChunkVolume_def)
  then show ?thesis by (simp add: words_for_widths [OF assms(1)] less_mult_imp_div_less)
qed

lemma palette_length: "distinct (ps :: block_id list) \<Longrightarrow> length ps \<le> 65536"
  using card_mono [OF finite subset_UNIV, of "set ps"]
  by (simp add: distinct_card card_word)

lemma unat_small_index: "x < 65536 \<Longrightarrow> unat (of_nat x :: u64) = x"
  by (simp add: unat_of_nat take_bit_nat_eq_self)

section \<open>Writes and repacking\<close>

lemma write_raw_simps [simp]:
  "ps_palette (write_raw st i v) = ps_palette st" "ps_bits (write_raw st i v) = ps_bits st"
  "packed_ok (write_raw st i v) = packed_ok st"
  by (simp_all add: write_raw_put packed_ok_def)

lemma read_write_raw:
  assumes "packed_ok st" and "i < kChunkVolume" and "unat v < 2 ^ ps_bits st"
  shows "read_raw (write_raw st i v) j = (if j = i then v else read_raw st j)"
  using raw_at_put [of "ps_bits st" i "ps_data st" v j] slot_in_data [of "ps_bits st" i] assms
  by (simp add: packed_ok_def read_raw_at write_raw_put)

text \<open>The loop shape of \<open>set_width\<close> and \<open>compact\<close>: write the values that are not 0.\<close>

definition put_nonzero :: "(nat \<Rightarrow> u64) \<Rightarrow> nat \<Rightarrow> paletted_store \<Rightarrow> paletted_store" where
  "put_nonzero v i st = (if v i \<noteq> 0 then write_raw st i (v i) else st)"

lemma repack_put: "repack ob od = put_nonzero (raw_at ob od)"
  by (simp add: fun_eq_iff repack_def put_nonzero_def Let_def)

lemma write_index_put:
  "indices ! i < 65536 \<Longrightarrow> write_index indices i = put_nonzero (\<lambda>i. of_nat (indices ! i)) i"
proof -
  assume "indices ! i < 65536"
  then have "(of_nat (indices ! i) :: u64) = 0 \<longleftrightarrow> indices ! i = 0"
    by (metis unat_small_index unsigned_eq_0_iff)
  then show ?thesis by (simp add: fun_eq_iff write_index_def put_nonzero_def)
qed

lemma put_nonzero_simps [simp]:
  "ps_palette (put_nonzero v i st) = ps_palette st" "ps_bits (put_nonzero v i st) = ps_bits st"
  "packed_ok (put_nonzero v i st) = packed_ok st"
  by (simp_all add: put_nonzero_def)

lemma fold_put_simps [simp]:
  "ps_palette (fold (put_nonzero v) is st) = ps_palette st"
  "ps_bits (fold (put_nonzero v) is st) = ps_bits st"
  "packed_ok (fold (put_nonzero v) is st) = packed_ok st"
  by (induction "is" arbitrary: st) simp_all

lemma read_fold_put:
  assumes "packed_ok st" and "distinct is" and "\<forall>i \<in> set is. i < kChunkVolume"
    and "\<forall>i \<in> set is. unat (v i) < 2 ^ ps_bits st" and "\<forall>i \<in> set is. read_raw st i = 0"
  shows "read_raw (fold (put_nonzero v) is st) j = (if j \<in> set is then v j else read_raw st j)"
  using assms
proof (induction "is" arbitrary: st)
  case Nil
  then show ?case by simp
next
  case (Cons i "is")
  have put: "read_raw (put_nonzero v i st) k = (if k = i then v i else read_raw st k)" for k
    using Cons.prems read_write_raw [of st i "v i" k] by (auto simp: put_nonzero_def)
  have "read_raw (fold (put_nonzero v) is (put_nonzero v i st)) j =
      (if j \<in> set is then v j else read_raw (put_nonzero v i st) j)"
    using Cons.prems by (intro Cons.IH) (auto simp: put)
  with Cons.prems(2) show ?case by (auto simp: put)
qed

lemma read_raw_zero:
  assumes "ps_bits st \<in> widths" and "ps_data st = replicate (words_for (ps_bits st)) 0"
    and "i < kChunkVolume"
  shows "read_raw st i = 0"
  using assms slot_in_data [OF assms(1,3)] by (simp add: read_raw_at raw_at_def)

lemma read_raw_less: "packed_ok st \<Longrightarrow> unat (read_raw st i) < 2 ^ ps_bits st"
  by (simp add: packed_ok_def read_raw_at raw_at_less)

lemma set_width_palette [simp]: "ps_palette (set_width b st) = ps_palette st"
  by (simp add: set_width_def Let_def repack_put)

lemma set_width_ok:
  assumes b: "b \<in> widths" and st: "ps_bits st = 0 \<or> packed_ok st"
    and fits: "\<forall>i < kChunkVolume. unat (read_raw st i) < 2 ^ b"
  shows "ps_bits (set_width b st) = b" and "packed_ok (set_width b st)"
    and "i < kChunkVolume \<Longrightarrow> read_raw (set_width b st) i = read_raw st i"
proof -
  let ?st' = "st\<lparr>ps_data := replicate (words_for b) 0, ps_bits := b\<rparr>"
  have ok: "packed_ok ?st'" using b by (simp add: packed_ok_def)
  have zero: "read_raw ?st' i = 0" if "i < kChunkVolume" for i
    using b that by (intro read_raw_zero) simp_all
  show "ps_bits (set_width b st) = b"
    by (simp add: set_width_def Let_def repack_put)
  show "packed_ok (set_width b st)"
    using ok st b widths_simps(1) [OF b]
    by (auto simp: set_width_def Let_def repack_put)
  show "read_raw (set_width b st) i = read_raw st i" if i: "i < kChunkVolume"
  proof (cases "ps_bits st = b \<or> ps_bits st = 0")
    case True
    with zero [OF i] show ?thesis
      by (auto simp: set_width_def Let_def) (simp_all add: read_raw_def)
  next
    case False
    with st have p: "ps_bits st \<in> widths" by (simp add: packed_ok_def)
    have raw: "raw_at (ps_bits st) (ps_data st) = read_raw st"
      by (simp add: fun_eq_iff read_raw_at [OF p])
    have "read_raw (fold (put_nonzero (read_raw st)) [0..<kChunkVolume] ?st') i = read_raw st i"
      using fits zero i by (subst read_fold_put [OF ok]) auto
    with False show ?thesis
      by (simp add: set_width_def Let_def repack_put raw)
  qed
qed

section \<open>Palette lookup\<close>

lemma find_block_Some: "find_block ps b = Some i \<Longrightarrow> i < length ps \<and> ps ! i = b"
  by (induction ps arbitrary: i) (auto split: if_splits)

lemma find_block_None: "find_block ps b = None \<longleftrightarrow> b \<notin> set ps"
  by (induction ps) auto

lemma get_packed:
  assumes "store_inv st" and "ps_bits st \<noteq> 0" and "i < kChunkVolume"
  shows "ps_get st i = ps_palette st ! unat (read_raw st i)"
  using assms by (simp add: ps_get_def store_inv_def)

lemma get_homogeneous: "ps_bits st = 0 \<Longrightarrow> ps_get st i = ps_palette st ! 0"
  by (simp add: ps_get_def)

lemma read_raw_homogeneous: "ps_bits st = 0 \<Longrightarrow> read_raw st i = 0"
  by (simp add: read_raw_def)

lemma get_raw:
  assumes "store_inv st" and "i < kChunkVolume"
  shows "ps_get st i = ps_palette st ! unat (read_raw st i)"
    and "unat (read_raw st i) < length (ps_palette st)"
  using assms by (auto simp: get_packed get_homogeneous read_raw_homogeneous store_inv_def split: if_splits)

lemma read_raw_palette [simp]: "read_raw (st\<lparr>ps_palette := ps\<rparr>) i = read_raw st i"
  by (simp add: read_raw_def)

lemma packed_ok_palette [simp]: "packed_ok (st\<lparr>ps_palette := ps\<rparr>) = packed_ok st"
  by (simp add: packed_ok_def)

definition grow_palette :: "block_id \<Rightarrow> paletted_store \<Rightarrow> paletted_store" where
  "grow_palette block st = (
     let st' = st\<lparr>ps_palette := ps_palette st @ [block]\<rparr>;
         needed = width_for (length (ps_palette st')) in
     if needed > ps_bits st' then set_width needed st' else st')"

lemma palette_index_of_grow:
  "palette_index_of block st = (case find_block (ps_palette st) block of
     Some i \<Rightarrow> (i, st)
   | None \<Rightarrow> (length (ps_palette st), grow_palette block st))"
  by (simp add: palette_index_of_def grow_palette_def Let_def split: option.split)

lemma grow_palette_ok:
  assumes inv: "store_inv st" and new: "block \<notin> set (ps_palette st)"
  shows "ps_palette (grow_palette block st) = ps_palette st @ [block]"
    and "packed_ok (grow_palette block st)"
    and "length (ps_palette st) + 1 \<le> 2 ^ ps_bits (grow_palette block st)"
    and "i < kChunkVolume \<Longrightarrow> read_raw (grow_palette block st) i = read_raw st i"
proof -
  let ?ps = "ps_palette st @ [block]"
  let ?st = "st\<lparr>ps_palette := ?ps\<rparr>" and ?w = "width_for (length ?ps)"
  have "1 < length ?ps" using inv by (cases "ps_palette st") (simp_all add: store_inv_def)
  then have w: "?w \<in> widths" by (rule width_for_widths)
  have "distinct ?ps" using inv new by (simp add: store_inv_def)
  then have fits: "length ?ps \<le> 2 ^ ?w"
    by (intro width_for_fits palette_length)
  have packed: "ps_bits st = 0 \<or> packed_ok st" using inv by (auto simp: store_inv_def split: if_splits)
  have less: "\<forall>i < kChunkVolume. unat (read_raw ?st i) < 2 ^ ?w"
    using get_raw(2) [OF inv] fits by (metis Suc_leI length_append_singleton less_SucI order.strict_trans2 read_raw_palette)
  note sw = set_width_ok [of ?w ?st, OF w _ less]
  show "ps_palette (grow_palette block st) = ?ps"
    by (simp add: grow_palette_def Let_def)
  show "packed_ok (grow_palette block st)"
    using packed sw(2) w widths_simps(1) [OF w] by (auto simp: grow_palette_def Let_def)
  show "read_raw (grow_palette block st) i = read_raw st i" if "i < kChunkVolume"
    using packed sw(3) [OF _ that] by (auto simp: grow_palette_def Let_def)
  have "?w \<le> ps_bits (grow_palette block st)"
    using packed sw(1) by (auto simp: grow_palette_def Let_def)
  then have "(2 :: nat) ^ ?w \<le> 2 ^ ps_bits (grow_palette block st)"
    by (rule power_increasing) simp
  from order_trans [OF fits this] show "length (ps_palette st) + 1 \<le> 2 ^ ps_bits (grow_palette block st)" by simp
qed

lemma grow_palette_inv:
  assumes inv: "store_inv st" and new: "block \<notin> set (ps_palette st)"
  shows "store_inv (grow_palette block st)"
    and "i < kChunkVolume \<Longrightarrow> ps_get (grow_palette block st) i = ps_get st i"
    and "ps_bits (grow_palette block st) \<noteq> 0"
proof -
  note g = grow_palette_ok [OF assms]
  show bits: "ps_bits (grow_palette block st) \<noteq> 0"
    using g(2) widths_simps(1) by (auto simp: packed_ok_def)
  show inv': "store_inv (grow_palette block st)"
    using inv new bits g get_raw(2) [OF inv] by (auto simp: store_inv_def less_Suc_eq)
  show "ps_get (grow_palette block st) i = ps_get st i" if i: "i < kChunkVolume"
    using get_raw [OF inv i] get_raw(1) [OF inv' i] g(1) g(4) [OF i] by (simp add: nth_append)
qed

lemma palette_index_of_ok:
  assumes inv: "store_inv st" and "palette_index_of block st = (idx, st')"
  shows "store_inv st'" and "idx < length (ps_palette st')" and "ps_palette st' ! idx = block"
    and "i < kChunkVolume \<Longrightarrow> ps_get st' i = ps_get st i"
    and "ps_bits st' = 0 \<Longrightarrow> ps_get st i = block"
proof -
  have one: "ps_bits st = 0 \<Longrightarrow> length (ps_palette st) = 1" using inv by (simp add: store_inv_def)
  note facts = assms grow_palette_inv [OF inv, of block] grow_palette_ok(1) [OF inv, of block]
    find_block_Some [of "ps_palette st" block] find_block_None [of "ps_palette st" block]
  show "store_inv st'" "idx < length (ps_palette st')" "ps_palette st' ! idx = block"
    "i < kChunkVolume \<Longrightarrow> ps_get st' i = ps_get st i"
    using facts by (auto simp: palette_index_of_grow split: option.splits)
  show "ps_bits st' = 0 \<Longrightarrow> ps_get st i = block"
    using facts one by (auto simp: palette_index_of_grow get_homogeneous split: option.splits)
qed

section \<open>Operations\<close>

lemma new_store_ok: "store_inv (new_store b)" "i < kChunkVolume \<Longrightarrow> ps_get (new_store b) i = b"
  by (simp_all add: store_inv_def new_store_def ps_get_def)

lemma fill_ok: "store_inv (ps_fill b st)" "ps_get (ps_fill b st) i = b"
  by (simp_all add: store_inv_def ps_fill_def ps_get_def)

lemma write_index_ok:
  assumes inv: "store_inv st" and "ps_bits st \<noteq> 0" and "idx < length (ps_palette st)"
    and i: "i < kChunkVolume"
  shows "store_inv (write_raw st i (of_nat idx))"
    and "j < kChunkVolume \<Longrightarrow>
      ps_get (write_raw st i (of_nat idx)) j = (if j = i then ps_palette st ! idx else ps_get st j)"
proof -
  have ok: "packed_ok st" and len: "length (ps_palette st) \<le> 2 ^ ps_bits st"
    and d: "distinct (ps_palette st)"
    using assms by (auto simp: store_inv_def)
  have idx: "unat (of_nat idx :: u64) = idx"
    using palette_length [OF d] assms(3) by (intro unat_small_index) simp
  have read: "read_raw (write_raw st i (of_nat idx)) j = (if j = i then of_nat idx else read_raw st j)"
    for j using ok i assms(3) len idx by (intro read_write_raw) simp_all
  show inv': "store_inv (write_raw st i (of_nat idx))"
    using inv assms(2,3) idx by (auto simp: store_inv_def read)
  show "ps_get (write_raw st i (of_nat idx)) j = (if j = i then ps_palette st ! idx else ps_get st j)"
    if j: "j < kChunkVolume"
    using get_raw(1) [OF inv' j] get_raw(1) [OF inv j] idx by (simp add: read)
qed

lemma set_ok:
  assumes inv: "store_inv st" and i: "i < kChunkVolume"
  shows "store_inv (snd (ps_set i b st))"
    and "j < kChunkVolume \<Longrightarrow> ps_get (snd (ps_set i b st)) j = (if j = i then b else ps_get st j)"
    and "fst (ps_set i b st) \<longleftrightarrow> ps_get st i \<noteq> b"
proof -
  obtain idx st' where p: "palette_index_of b st = (idx, st')" by fastforce
  note ok = palette_index_of_ok [OF inv p]
  have bits: "ps_bits st' \<noteq> 0" if "ps_get st i \<noteq> b" using ok(5) [of i] that by blast
  show "store_inv (snd (ps_set i b st))"
    using inv write_index_ok(1) [OF ok(1) bits ok(2) i] p by (simp add: ps_set_def)
  show "ps_get (snd (ps_set i b st)) j = (if j = i then b else ps_get st j)"
    if j: "j < kChunkVolume"
    using write_index_ok(2) [OF ok(1) bits ok(2) i j] ok(3) ok(4) [OF j] p
    by (auto simp: ps_set_def)
  show "fst (ps_set i b st) \<longleftrightarrow> ps_get st i \<noteq> b"
    by (simp add: ps_set_def p)
qed

lemma length_voxels [simp]: "length (voxels st) = kChunkVolume"
  by (simp add: voxels_def)

lemma voxels_nth: "i < kChunkVolume \<Longrightarrow> voxels st ! i = ps_get st i"
  by (simp add: voxels_def)

lemma voxels_eqI: "(\<And>i. i < kChunkVolume \<Longrightarrow> ps_get st i = ps_get st' i) \<Longrightarrow> voxels st = voxels st'"
  by (simp add: voxels_def)

lemma uniform_value_iff:
  "store_inv st \<Longrightarrow> uniform_value st = Some b \<longleftrightarrow> (\<forall>i < kChunkVolume. ps_get st i = b)"
proof -
  have "0 < kChunkVolume" by (simp add: kChunkVolume_def)
  then have "(\<forall>i < kChunkVolume. P i) \<longleftrightarrow> P 0 \<and> (\<forall>i \<in> set [1..<kChunkVolume]. P i)" for P
    by (auto simp: Suc_le_eq)
  from this [of "\<lambda>i. ps_get st i = b"] \<open>0 < kChunkVolume\<close> show ?thesis
    by (auto simp: uniform_value_def Let_def get_homogeneous)
qed

section \<open>compact\<close>

lemma length_fold_used [simp]:
  "length (fold (\<lambda>i used. used[f i := True]) is used) = length used"
  by (induction "is" arbitrary: used) simp_all

lemma fold_used_nth:
  "k < length used \<Longrightarrow> fold (\<lambda>i used. used[f i := True]) is used ! k \<longleftrightarrow>
     used ! k \<or> (\<exists>i \<in> set is. f i = k)"
proof (induction "is" arbitrary: used)
  case (Cons i "is")
  from Cons.IH [of "used[f i := True]"] Cons.prems show ?case
    by (cases "f i = k") simp_all
qed simp

lemma used_slots_nth:
  "k < length (ps_palette st) \<Longrightarrow> used_slots st ! k \<longleftrightarrow>
     (\<exists>i < kChunkVolume. unat (read_raw st i) = k)"
  by (auto simp: used_slots_def fold_used_nth)

lemma length_used_slots [simp]: "length (used_slots st) = length (ps_palette st)"
  by (simp add: used_slots_def)

lemma build_remap_palette:
  "length us = length ps \<Longrightarrow>
     fst (build_remap ps us np rm) = np @ map fst (filter snd (zip ps us))"
  by (induction ps arbitrary: us np rm) (auto simp: length_Suc_conv)

lemma build_remap_prefix:
  "length us = length ps \<Longrightarrow> k < length rm \<Longrightarrow> snd (build_remap ps us np rm) ! k = rm ! k"
  by (induction ps arbitrary: us np rm) (auto simp: length_Suc_conv nth_append)

lemma build_remap_slot:
  assumes "length us = length ps" and "k < length ps" and "us ! k"
  shows "snd (build_remap ps us np rm) ! (length rm + k) < length (fst (build_remap ps us np rm)) \<and>
    fst (build_remap ps us np rm) ! (snd (build_remap ps us np rm) ! (length rm + k)) = ps ! k"
  using assms
proof (induction ps arbitrary: us np rm k)
  case Nil
  then show ?case by simp
next
  case (Cons p ps)
  then obtain u us' where us: "us = u # us'" "length us' = length ps" by (cases us) simp_all
  show ?case
  proof (cases k)
    case 0
    with Cons.prems us have u by simp
    moreover have "snd (build_remap ps us' (np @ [p]) (rm @ [length np])) ! length rm = length np"
      using build_remap_prefix [OF us(2), of "length rm" "rm @ [length np]"] by simp
    ultimately show ?thesis
      using 0 us build_remap_palette [OF us(2), of "np @ [p]" "rm @ [length np]"]
      by (simp add: nth_append)
  next
    case (Suc j)
    have "j < length ps" "us' ! j" using Cons.prems Suc us by simp_all
    note IH = Cons.IH [OF us(2) this]
    show ?thesis
      using IH [of "np @ [p]" "rm @ [length np]"] IH [of np "rm @ [0]"] us Suc by simp
  qed
qed

lemma set_filter_zip:
  "length us = length ps \<Longrightarrow> set (map fst (filter snd (zip ps us))) = {ps ! k | k. k < length ps \<and> us ! k}"
  by (induction us ps rule: list_induct2)
    (auto simp: nth_Cons' less_Suc_eq_0_disj split: if_splits)

lemma distinct_filter_zip:
  "length us = length ps \<Longrightarrow> distinct ps \<Longrightarrow> distinct (map fst (filter snd (zip ps us)))"
  by (induction us ps rule: list_induct2) (auto dest: set_zip_leftD)

lemma voxels_used:
  assumes inv: "store_inv st"
  shows "set (voxels st) = {ps_palette st ! k | k. k < length (ps_palette st) \<and> used_slots st ! k}"
proof (rule set_eqI, rule iffI)
  fix b assume "b \<in> set (voxels st)"
  then obtain i where i: "i < kChunkVolume" "b = ps_get st i" by (auto simp: voxels_def)
  with get_raw [OF inv i(1)] used_slots_nth [of "unat (read_raw st i)" st]
  show "b \<in> {ps_palette st ! k | k. k < length (ps_palette st) \<and> used_slots st ! k}" by auto
next
  fix b assume "b \<in> {ps_palette st ! k | k. k < length (ps_palette st) \<and> used_slots st ! k}"
  then obtain i where "i < kChunkVolume" "b = ps_palette st ! unat (read_raw st i)"
    by (auto simp: used_slots_nth)
  with get_raw(1) [OF inv, of i] have "b = ps_get st i" "i \<in> set [0..<kChunkVolume]" by simp_all
  then show "b \<in> set (voxels st)" unfolding voxels_def by (metis image_eqI set_map)
qed

text \<open>What \<open>compact\<close> promises: the same voxels, a palette of exactly the blocks in use.\<close>

definition compacted :: "paletted_store \<Rightarrow> paletted_store \<Rightarrow> bool" where
  "compacted st st' \<longleftrightarrow> store_inv st' \<and> voxels st' = voxels st \<and>
     set (ps_palette st') = set (voxels st) \<and> ps_bits st' = width_for (length (ps_palette st'))"

lemma voxels_const: "(\<And>i. i < kChunkVolume \<Longrightarrow> ps_get st i = b) \<Longrightarrow> set (voxels st) = {b}"
proof -
  assume "\<And>i. i < kChunkVolume \<Longrightarrow> ps_get st i = b"
  then have "voxels st = replicate kChunkVolume b"
    by (intro nth_equalityI) (simp_all add: voxels_nth)
  then show ?thesis by (simp add: kChunkVolume_def)
qed

lemma compact_homogeneous:
  assumes inv: "store_inv st" and "ps_bits st = 0"
  shows "compacted st st"
proof -
  have "length (ps_palette st) = 1" using assms by (simp add: store_inv_def)
  then obtain b where "ps_palette st = [b]" by (auto simp: length_Suc_conv)
  with assms voxels_const [of st b] show ?thesis
    by (simp add: compacted_def get_homogeneous width_for_def)
qed

lemma compact_uniform:
  assumes "store_inv st" and "uniform_value st = Some b"
  shows "compacted st (ps_fill b st)"
proof -
  have get: "ps_get st i = b" if "i < kChunkVolume" for i
    using assms that by (simp add: uniform_value_iff)
  have "voxels (ps_fill b st) = voxels st"
    by (rule voxels_eqI) (simp add: fill_ok get)
  moreover have "set (voxels st) = {b}" by (rule voxels_const) (rule get)
  moreover have "ps_palette (ps_fill b st) = [b]" "ps_bits (ps_fill b st) = 0"
    by (simp_all add: ps_fill_def)
  ultimately show ?thesis by (simp add: compacted_def fill_ok width_for_def)
qed

lemma not_uniform_palette:
  assumes inv: "store_inv st" and "uniform_value st = None"
  shows "\<not> (\<exists>b. set (voxels st) \<subseteq> {b})"
proof
  assume "\<exists>b. set (voxels st) \<subseteq> {b}"
  then obtain b where "set (voxels st) \<subseteq> {b}" ..
  then have "\<forall>i < kChunkVolume. ps_get st i = b"
    by (metis length_voxels nth_mem singletonD subsetD voxels_nth)
  with uniform_value_iff [OF inv, of b] assms(2) show False by simp
qed

lemma many_blocks_width:
  assumes "\<not> (\<exists>b. A \<subseteq> {b})" and "A = set ps"
  shows "width_for (length ps) \<in> widths"
proof -
  have "\<not> length ps \<le> 1" using assms by (cases ps) auto
  then show ?thesis by (intro width_for_widths) simp
qed

lemma store_invI:
  assumes "distinct (ps_palette st)" and "packed_ok st" and "length (ps_palette st) \<le> 2 ^ ps_bits st"
    and "\<And>i. i < kChunkVolume \<Longrightarrow> unat (read_raw st i) < length (ps_palette st)"
  shows "store_inv st"
proof -
  have "0 < kChunkVolume" by (simp add: kChunkVolume_def)
  then have "ps_palette st \<noteq> []" using assms(4) [of 0] by auto
  moreover have "ps_bits st \<noteq> 0" using assms(2) widths_simps(1) by (auto simp: packed_ok_def)
  ultimately show ?thesis using assms by (simp add: store_inv_def)
qed

lemma compact_shrink:
  assumes inv: "store_inv st" and b: "ps_bits st \<noteq> 0" and u: "uniform_value st = None"
    and all: "list_all (\<lambda>b. b) (used_slots st)"
  shows "compacted st (set_width (width_for (length (ps_palette st))) st)"
proof -
  let ?w = "width_for (length (ps_palette st))"
  have used: "set (voxels st) = set (ps_palette st)"
    using all by (force simp: voxels_used [OF inv] list_all_length in_set_conv_nth)
  have w: "?w \<in> widths"
    by (rule many_blocks_width [OF not_uniform_palette [OF inv u] used])
  have d: "distinct (ps_palette st)" and ok: "packed_ok st" using inv b by (simp_all add: store_inv_def)
  have fits: "length (ps_palette st) \<le> 2 ^ ?w" by (rule width_for_fits [OF palette_length [OF d]])
  note sw = set_width_ok [OF w disjI2 [OF ok]]
  have less: "\<forall>i < kChunkVolume. unat (read_raw st i) < 2 ^ ?w"
    using get_raw(2) [OF inv] fits by (meson order.strict_trans2)
  have inv': "store_inv (set_width ?w st)"
    using d fits get_raw(2) [OF inv] sw [OF less] by (intro store_invI) simp_all
  have "voxels (set_width ?w st) = voxels st"
    using get_raw(1) [OF inv] get_raw(1) [OF inv'] sw(3) [OF less]
    by (intro voxels_eqI) simp
  with inv' used sw(1) [OF less] show ?thesis by (simp add: compacted_def)
qed

lemma compact_remap:
  assumes inv: "store_inv st" and b: "ps_bits st \<noteq> 0" and u: "uniform_value st = None"
    and remap: "build_remap (ps_palette st) (used_slots st) [] [] = (np, rm)"
    and indices: "indices = map (\<lambda>i. rm ! unat (read_raw st i)) [0..<kChunkVolume]"
    and st': "st' = st\<lparr>ps_palette := np, ps_bits := 0, ps_data := []\<rparr>"
  shows "compacted st (fold (write_index indices) [0..<kChunkVolume] (set_width (width_for (length np)) st'))"
    (is "compacted st ?res")
proof -
  let ?w = "width_for (length np)"
  have d: "distinct (ps_palette st)" using inv by (simp add: store_inv_def)
  have np: "np = map fst (filter snd (zip (ps_palette st) (used_slots st)))"
    using build_remap_palette [of "used_slots st" "ps_palette st" "[]" "[]"] remap by simp
  have set_np: "set (voxels st) = set np"
    by (simp only: voxels_used [OF inv] np set_filter_zip length_used_slots)
  have dn: "distinct np" unfolding np by (rule distinct_filter_zip) (simp_all add: d)
  have w: "?w \<in> widths"
    by (rule many_blocks_width [OF not_uniform_palette [OF inv u] set_np])
  have fits: "length np \<le> 2 ^ ?w" by (rule width_for_fits [OF palette_length [OF dn]])
  have slot: "rm ! unat (read_raw st i) < length np \<and>
      np ! (rm ! unat (read_raw st i)) = ps_get st i" if i: "i < kChunkVolume" for i
    using build_remap_slot [of "used_slots st" "ps_palette st" "unat (read_raw st i)" "[]" "[]"]
      get_raw [OF inv i] used_slots_nth [of "unat (read_raw st i)" st] i remap by auto
  have zero: "read_raw st' i = 0" for i by (simp add: st' read_raw_def)
  have sw: "ps_bits (set_width ?w st') = ?w" "packed_ok (set_width ?w st')"
    "\<And>i. i < kChunkVolume \<Longrightarrow> read_raw (set_width ?w st') i = 0"
    using set_width_ok [OF w, of st'] by (simp_all add: st' zero [unfolded st'])
  define v where "v = (\<lambda>i. of_nat (indices ! i) :: u64)"
  have small: "indices ! i < length np" if "i < kChunkVolume" for i
    using slot [OF that] that by (simp add: indices)
  then have small16: "indices ! i < 65536" if "i < kChunkVolume" for i
    using palette_length [OF dn] that by (meson order.strict_trans2)
  have v: "unat (v i) = indices ! i" if "i < kChunkVolume" for i
    using small16 [OF that] by (simp add: v_def unat_small_index)
  have "?res = fold (put_nonzero v) [0..<kChunkVolume] (set_width ?w st')"
    unfolding v_def by (rule fold_cong) (simp_all add: write_index_put small16)
  moreover have "read_raw (fold (put_nonzero v) [0..<kChunkVolume] (set_width ?w st')) i = v i"
    if "i < kChunkVolume" for i
    using sw less_le_trans [OF small fits] v that by (subst read_fold_put) auto
  ultimately have res: "ps_palette ?res = np" "ps_bits ?res = ?w" "packed_ok ?res"
    "\<And>i. i < kChunkVolume \<Longrightarrow> read_raw ?res i = v i"
    using sw by (simp_all add: st')
  have inv': "store_inv ?res"
    using dn res fits v small by (intro store_invI) simp_all
  have "voxels ?res = voxels st"
    using get_raw(1) [OF inv'] res v slot by (intro voxels_eqI) (simp add: indices)
  with inv' res set_np show ?thesis by (simp add: compacted_def)
qed

theorem compact_correct:
  assumes inv: "store_inv st"
  shows "compacted st (compact st)"
proof (cases "ps_bits st = 0")
  case True
  with compact_homogeneous [OF inv] show ?thesis by (simp add: compact_def)
next
  case b: False
  show ?thesis
  proof (cases "uniform_value st")
    case (Some u)
    with b compact_uniform [OF inv] show ?thesis by (simp add: compact_def)
  next
    case None
    then show ?thesis
      using b compact_shrink [OF inv b None] compact_remap [OF inv b None _ refl refl]
      by (auto simp: compact_def Let_def split: prod.split)
  qed
qed

section \<open>The interface of a voxel volume\<close>

text \<open>
  What the chunk and its codec rely on: a volume indexed below its size whose \<open>set\<close> is a
  point update and reports whether the voxel changed.
\<close>

locale voxel_volume =
  fixes size_of :: nat
    and get :: "'s \<Rightarrow> nat \<Rightarrow> 'b"
    and put :: "nat \<Rightarrow> 'b \<Rightarrow> 's \<Rightarrow> bool \<times> 's"
    and inv :: "'s \<Rightarrow> bool"
  assumes put_inv: "inv s \<Longrightarrow> i < size_of \<Longrightarrow> inv (snd (put i b s))"
    and get_put: "inv s \<Longrightarrow> i < size_of \<Longrightarrow> j < size_of \<Longrightarrow>
      get (snd (put i b s)) j = (if j = i then b else get s j)"
    and put_changed: "inv s \<Longrightarrow> i < size_of \<Longrightarrow> fst (put i b s) \<longleftrightarrow> get s i \<noteq> b"
begin

definition view :: "'s \<Rightarrow> 'b list" where
  "view s = map (get s) [0..<size_of]"

lemma view_put:
  assumes "inv s" and "i < size_of"
  shows "view (snd (put i b s)) = (view s)[i := b]"
  using assms by (intro nth_equalityI) (simp_all add: view_def get_put nth_list_update)

lemma put_unchanged:
  assumes "inv s" and "i < size_of" and "\<not> fst (put i b s)"
  shows "view (snd (put i b s)) = view s"
  using assms put_changed [OF assms(1,2)]
  by (intro nth_equalityI) (simp_all add: view_def get_put)

lemma put_run:
  assumes "inv s" and "\<forall>k \<in> set ks. k < size_of"
  shows "inv (fold (\<lambda>k s. snd (put k b s)) ks s)"
    and "j < size_of \<Longrightarrow> get (fold (\<lambda>k s. snd (put k b s)) ks s) j = (if j \<in> set ks then b else get s j)"
  using assms by (induction ks arbitrary: s) (auto simp: put_inv get_put)

end

interpretation paletted: voxel_volume kChunkVolume ps_get ps_set store_inv
  by unfold_locales (simp_all add: set_ok)

lemma voxels_view: "voxels st = paletted.view st"
  by (simp add: voxels_def paletted.view_def)

end
