(* ===== verification/Chunk_Model.thy ===== *)
theory Chunk_Model
  imports Paletted_Store
begin

text \<open>
  \<open>Chunk\<close> of \<open>world/chunk.hpp\<close>: the block store, the packed light bytes and the bookkeeping of
  one 32 by 32 by 32 chunk. \<open>light_[index]\<close> is one byte, sky light in the high nibble.
\<close>

datatype gen_state = kUngenerated | kGenerating | kGenerated | kPopulated

record dirty_flags =
  df_terrain :: bool
  df_light :: bool
  df_mesh :: bool

definition mark_edited :: "dirty_flags \<Rightarrow> dirty_flags" where
  "mark_edited d = d\<lparr>df_terrain := True, df_light := True, df_mesh := True\<rparr>"

definition any_dirty :: "dirty_flags \<Rightarrow> bool" where
  "any_dirty d \<longleftrightarrow> df_terrain d \<or> df_light d \<or> df_mesh d"

section \<open>Light\<close>

definition light_sky :: "u8 \<Rightarrow> u8" where
  "light_sky p = drop_bit 4 p"

definition light_block :: "u8 \<Rightarrow> u8" where
  "light_block p = p AND 0x0F"

definition set_sky :: "u8 \<Rightarrow> u8 \<Rightarrow> u8" where
  "set_sky v p = (p AND 0x0F) OR push_bit 4 (v AND 0x0F)"

definition set_block :: "u8 \<Rightarrow> u8 \<Rightarrow> u8" where
  "set_block v p = (p AND 0xF0) OR (v AND 0x0F)"

definition light_max :: "u8 \<Rightarrow> u8" where
  "light_max p = (if light_sky p > light_block p then light_sky p else light_block p)"

lemmas light_defs = light_sky_def light_block_def set_sky_def set_block_def

lemma light_nibbles:
  "light_sky (set_sky v p) = v AND 0x0F" "light_block (set_sky v p) = light_block p"
  "light_block (set_block v p) = v AND 0x0F" "light_sky (set_block v p) = light_sky p"
  by (rule bit_word_eqI; auto simp: light_defs bit_simps bit_const_simps dest: bit_imp_le_length)+

lemma light_ext: "light_sky p = light_sky q \<Longrightarrow> light_block p = light_block q \<Longrightarrow> p = q"
proof -
  assume "light_sky p = light_sky q" "light_block p = light_block q"
  moreover have "w = push_bit 4 (light_sky w) OR light_block w" for w
    by (rule bit_word_eqI) (auto simp: light_defs bit_simps bit_const_simps dest: bit_imp_le_length)
  ultimately show "p = q" by metis
qed

lemma light_sky_bound: "light_sky p \<le> 15"
proof -
  have "light_sky p = light_sky p AND 15"
    by (rule bit_word_eqI) (auto simp: light_defs bit_simps bit_const_simps dest: bit_imp_le_length)
  then show ?thesis by (metis word_and_le1)
qed

section \<open>Chunk\<close>

record chunk =
  ch_coord :: chunk_coord
  ch_blocks :: paletted_store
  ch_light :: "u8 list"
  ch_gen_state :: gen_state
  ch_dirty :: dirty_flags
  ch_revision :: u64

definition new_chunk :: "chunk_coord \<Rightarrow> chunk" where
  "new_chunk c = \<lparr>ch_coord = c, ch_blocks = new_store kAir, ch_light = replicate kChunkVolume 0,
     ch_gen_state = kUngenerated, ch_dirty = \<lparr>df_terrain = False, df_light = False, df_mesh = False\<rparr>,
     ch_revision = 0\<rparr>"

definition chunk_get :: "chunk \<Rightarrow> nat \<Rightarrow> block_id" where
  "chunk_get c index = ps_get (ch_blocks c) index"

definition chunk_set :: "nat \<Rightarrow> block_id \<Rightarrow> chunk \<Rightarrow> bool \<times> chunk" where
  "chunk_set index b c = (let (changed, blocks) = ps_set index b (ch_blocks c);
       c' = c\<lparr>ch_blocks := blocks\<rparr> in
     (changed, if changed then c'\<lparr>ch_dirty := mark_edited (ch_dirty c), ch_revision := ch_revision c + 1\<rparr>
       else c'))"

definition set_light :: "nat \<Rightarrow> u8 \<Rightarrow> chunk \<Rightarrow> chunk" where
  "set_light index packed c = c\<lparr>ch_light := (ch_light c)[index := packed]\<rparr>"

definition chunk_inv :: "chunk \<Rightarrow> bool" where
  "chunk_inv c \<longleftrightarrow> store_inv (ch_blocks c) \<and> length (ch_light c) = kChunkVolume"

lemma index_of_bound: "x < 32 \<Longrightarrow> y < 32 \<Longrightarrow> z < 32 \<Longrightarrow> index_of x y z < kChunkVolume"
  by (simp add: index_of_def kChunkVolume_def)

lemma index_of_inject:
  assumes "x < 32" and "z < 32" and "x' < 32" and "z' < 32" and "index_of x y z = index_of x' y' z'"
  shows "x = x' \<and> y = y' \<and> z = z'"
proof -
  have "index_of a b c mod 32 = a \<and> index_of a b c div 32 mod 32 = c \<and> index_of a b c div 32 div 32 = b"
    if "a < 32" "c < 32" for a b c
  proof -
    have "(a + 32 * (c + 32 * b)) mod 32 = a" "(a + 32 * (c + 32 * b)) div 32 = c + 32 * b"
      using that by (simp_all only: mod_mult_self2 mod_less div_mult_self2 div_less
          zero_neq_numeral not_False_eq_True add_0_right)
    then show ?thesis using that by (simp add: index_of_def)
  qed
  with assms show ?thesis by metis
qed

lemma new_chunk_inv: "chunk_inv (new_chunk c)"
  by (simp add: chunk_inv_def new_chunk_def new_store_ok)

lemma chunk_set_simps:
  "ch_coord (snd (chunk_set i b c)) = ch_coord c" "ch_light (snd (chunk_set i b c)) = ch_light c"
  "ch_blocks (snd (chunk_set i b c)) = snd (ps_set i b (ch_blocks c))"
  "fst (chunk_set i b c) = fst (ps_set i b (ch_blocks c))"
  by (simp_all add: chunk_set_def case_prod_unfold Let_def)

interpretation chunk: voxel_volume kChunkVolume chunk_get chunk_set chunk_inv
  by unfold_locales (simp_all add: chunk_get_def chunk_set_simps chunk_inv_def set_ok)

text \<open>A revision counts the edits that changed a voxel, and marks the chunk dirty.\<close>

lemma chunk_set_revision:
  assumes "chunk_inv c" and "i < kChunkVolume"
  shows "ch_revision (snd (chunk_set i b c)) =
      (if chunk_get c i = b then ch_revision c else ch_revision c + 1)"
    and "ch_dirty (snd (chunk_set i b c)) =
      (if chunk_get c i = b then ch_dirty c
       else \<lparr>df_terrain = True, df_light = True, df_mesh = True\<rparr>)"
  using chunk.put_changed [OF assms, of b]
  by (simp_all add: chunk_set_def case_prod_unfold Let_def mark_edited_def)

end
