(* ===== verification/Light_Flood.thy ===== *)
theory Light_Flood
  imports Chunk_Model
begin

text \<open>
  The breadth-first floods of \<open>LightEngine::relight_chunk\<close> (\<open>world/lighting.cpp\<close>): a queue of
  voxels whose light was raised, each spreading to its six neighbours inside the chunk. Sky and
  block light differ only in how a step attenuates, so the loop takes the attenuation as an
  argument. A \<open>std::array\<close> of the chunk's bytes is a function of the index, a level \<open>None\<close> is a
  \<open>continue\<close> of the loop. The \<open>attenuation\<close> locale shows what a flood computes, whatever the
  order of the queue: the least light that holds the seeds and is closed under every step.
\<close>

definition kMaxLight :: u8 where
  "kMaxLight = 15"

datatype light_node = Node int int int u8

definition in_chunk :: "int \<Rightarrow> int \<Rightarrow> int \<Rightarrow> bool" where
  "in_chunk x y z \<longleftrightarrow> 0 \<le> x \<and> x < 32 \<and> 0 \<le> y \<and> y < 32 \<and> 0 \<le> z \<and> z < 32"

definition kNeighbours :: "(int \<times> int \<times> int) list" where
  "kNeighbours = [(1, 0, 0), (-1, 0, 0), (0, 1, 0), (0, -1, 0), (0, 0, 1), (0, 0, -1)]"

definition voxel_at :: "int \<Rightarrow> int \<Rightarrow> int \<Rightarrow> nat" where
  "voxel_at x y z = index_of (nat x) (nat y) (nat z)"

type_synonym light_map = "nat \<Rightarrow> u8"
type_synonym attenuation = "int \<Rightarrow> u8 \<Rightarrow> u8 \<Rightarrow> u8 option"

text \<open>What arrives one step away: the direction's \<open>y\<close>, the level at the start, the voxel's transmittance.\<close>

definition sky_step :: attenuation where
  "sky_step dy level pass =
     (if pass = 0 then None
      else
        let straight_down = dy = -1 \<and> level = kMaxLight \<and> pass = kMaxLight;
            step = (if straight_down then 0 else 1);
            drop = kMaxLight - pass + step in
        if level \<le> drop then None else Some (level - drop))"

definition block_step :: attenuation where
  "block_step dy level pass =
     (if pass = 0 then None else if level \<le> 1 then None else Some (level - 1))"

definition flood_try :: "attenuation \<Rightarrow> light_map \<Rightarrow> light_node \<Rightarrow> int \<times> int \<times> int \<Rightarrow>
    light_map \<times> light_node list \<Rightarrow> light_map \<times> light_node list" where
  "flood_try att pass n d acc = (case n of Node x y z level \<Rightarrow> (case d of (dx, dy, dz) \<Rightarrow> (case acc of (light, q) \<Rightarrow>
     let nx = x + dx; ny = y + dy; nz = z + dz in
     if \<not> in_chunk nx ny nz then (light, q)
     else
       let ni = voxel_at nx ny nz in
       case att dy level (pass ni) of
         None \<Rightarrow> (light, q)
       | Some nl \<Rightarrow> if nl > light ni then (light(ni := nl), q @ [Node nx ny nz nl]) else (light, q))))"

definition flood_visit :: "attenuation \<Rightarrow> light_map \<Rightarrow> light_node \<Rightarrow> light_map \<times> light_node list \<Rightarrow>
    light_map \<times> light_node list" where
  "flood_visit att pass n acc = fold (flood_try att pass n) kNeighbours acc"

section \<open>Termination\<close>

text \<open>Every push raises a level, so the levels left to gain pay for the queue.\<close>

definition headroom :: "light_map \<Rightarrow> nat" where
  "headroom light = (\<Sum>i<kChunkVolume. 255 - unat (light i))"

definition flood_size :: "light_map \<times> light_node list \<Rightarrow> nat" where
  "flood_size acc = headroom (fst acc) + length (snd acc)"

lemma voxel_at_bound: "in_chunk x y z \<Longrightarrow> voxel_at x y z < kChunkVolume"
  by (simp add: in_chunk_def voxel_at_def index_of_bound nat_less_iff)

lemma voxel_at_inject:
  assumes "in_chunk x y z" and "in_chunk x' y' z'" and "voxel_at x y z = voxel_at x' y' z'"
  shows "x = x' \<and> y = y' \<and> z = z'"
  using index_of_inject [of "nat x" "nat z" "nat x'" "nat z'" "nat y" "nat y'"] assms
  by (simp add: in_chunk_def voxel_at_def nat_less_iff) (metis nat_0_le)

lemma unat_u8_bound: "unat (w :: u8) \<le> 255"
proof -
  have "unat w < 2 ^ LENGTH(8)" by (rule unsigned_less)
  then show ?thesis by simp
qed

lemma headroom_raise:
  assumes "i < kChunkVolume" and "nl > light i"
  shows "headroom (light(i := nl)) < headroom light"
proof -
  have "unat (light i) < unat nl" using assms(2) by (simp add: word_less_nat_alt)
  then have "255 - unat nl < 255 - unat (light i)" using unat_u8_bound [of nl] by linarith
  then have "\<exists>j\<in>{..<kChunkVolume}. 255 - unat ((light(i := nl)) j) < 255 - unat (light j)"
    using assms(1) by (intro bexI [of _ i]) simp_all
  moreover have "\<forall>j\<in>{..<kChunkVolume}. 255 - unat ((light(i := nl)) j) \<le> 255 - unat (light j)"
    using \<open>unat (light i) < unat nl\<close> by auto
  ultimately show ?thesis unfolding headroom_def by (intro sum_strict_mono_ex1) simp_all
qed

lemma flood_try_cases:
  "flood_try att pass (Node x y z l) (dx, dy, dz) (light, q) = (light, q) \<or>
   (\<exists>nl. in_chunk (x + dx) (y + dy) (z + dz) \<and>
     flood_try att pass (Node x y z l) (dx, dy, dz) (light, q) =
       (light(voxel_at (x + dx) (y + dy) (z + dz) := nl), q @ [Node (x + dx) (y + dy) (z + dz) nl]))"
  by (auto simp: flood_try_def Let_def split: option.split)

lemma flood_try_size: "flood_size (flood_try att pass n d acc) \<le> flood_size acc"
  using headroom_raise [OF voxel_at_bound]
  by (auto simp: flood_try_def flood_size_def Let_def Suc_le_eq split: light_node.split prod.split option.split)

lemma flood_visit_size: "flood_size (flood_visit att pass n acc) \<le> flood_size acc"
proof -
  have "flood_size (fold (flood_try att pass n) ds acc) \<le> flood_size acc" for ds
  proof (induction ds arbitrary: acc)
    case (Cons d ds)
    from order_trans [OF Cons.IH flood_try_size] show ?case by simp
  qed simp
  then show ?thesis by (simp add: flood_visit_def)
qed

function flood_loop :: "attenuation \<Rightarrow> light_map \<Rightarrow> light_node list \<Rightarrow> light_map \<Rightarrow> light_map" where
  "flood_loop att pass [] light = light"
| "flood_loop att pass (n # q) light = (
     let (light, q) = flood_visit att pass n (light, q) in flood_loop att pass q light)"
  by pat_completeness auto
termination
proof (relation "measure (\<lambda>(att, pass, q, light). flood_size (light, q))", goal_cases)
  case (2 att pass n q light x light' q')
  then have "flood_visit att pass n (light, q) = (light', q')" by simp
  then have "flood_size (light', q') \<le> flood_size (light, q)"
    using flood_visit_size [of att pass n "(light, q)"] by simp
  then show ?case by (simp add: flood_size_def)
qed simp

section \<open>What a flood computes\<close>

text \<open>Light \<open>f\<close> at a voxel has reached its neighbour in direction \<open>d\<close>.\<close>

definition reaches :: "attenuation \<Rightarrow> light_map \<Rightarrow> light_map \<Rightarrow> int \<times> int \<times> int \<Rightarrow> u8 \<Rightarrow>
    int \<times> int \<times> int \<Rightarrow> bool" where
  "reaches att pass f p level d \<longleftrightarrow> (case p of (x, y, z) \<Rightarrow> (case d of (dx, dy, dz) \<Rightarrow>
     in_chunk (x + dx) (y + dy) (z + dz) \<longrightarrow>
     (case att dy level (pass (voxel_at (x + dx) (y + dy) (z + dz))) of
        None \<Rightarrow> True
      | Some l \<Rightarrow> l \<le> f (voxel_at (x + dx) (y + dy) (z + dz)))))"

definition settled :: "attenuation \<Rightarrow> light_map \<Rightarrow> light_map \<Rightarrow> int \<times> int \<times> int \<Rightarrow> bool" where
  "settled att pass f p \<longleftrightarrow> (case p of (x, y, z) \<Rightarrow>
     \<forall>d \<in> set kNeighbours. reaches att pass f p (f (voxel_at x y z)) d)"

text \<open>Light that has spread everywhere it can.\<close>

definition spread :: "attenuation \<Rightarrow> light_map \<Rightarrow> light_map \<Rightarrow> bool" where
  "spread att pass f \<longleftrightarrow> (\<forall>x y z. in_chunk x y z \<longrightarrow> settled att pass f (x, y, z))"

definition dominates :: "light_map \<Rightarrow> light_map \<Rightarrow> bool" where
  "dominates f g \<longleftrightarrow> (\<forall>i < kChunkVolume. g i \<le> f i)"

definition least_spread :: "attenuation \<Rightarrow> light_map \<Rightarrow> light_map \<Rightarrow> light_map \<Rightarrow> bool" where
  "least_spread att pass seeds f \<longleftrightarrow> spread att pass f \<and> dominates f seeds \<and>
     (\<forall>g. spread att pass g \<longrightarrow> dominates g seeds \<longrightarrow> dominates g f)"

lemma dominates_refl: "dominates f f"
  by (simp add: dominates_def)

lemma dominates_trans: "dominates f g \<Longrightarrow> dominates g h \<Longrightarrow> dominates f h"
  by (meson dominates_def order_trans)

lemma least_spread_unique:
  "least_spread att pass seeds f \<Longrightarrow> least_spread att pass seeds g \<Longrightarrow> i < kChunkVolume \<Longrightarrow> f i = g i"
  unfolding least_spread_def dominates_def by (meson order_antisym)

text \<open>The queue covers what has not spread yet.\<close>

definition queued :: "light_node list \<Rightarrow> light_map \<Rightarrow> int \<times> int \<times> int \<Rightarrow> bool" where
  "queued q f p \<longleftrightarrow> (case p of (x, y, z) \<Rightarrow> Node x y z (f (voxel_at x y z)) \<in> set q)"

definition node_ok :: "light_map \<Rightarrow> light_node \<Rightarrow> bool" where
  "node_ok f n \<longleftrightarrow> (case n of Node x y z level \<Rightarrow> in_chunk x y z \<and> level \<le> f (voxel_at x y z))"

definition covered :: "attenuation \<Rightarrow> light_map \<Rightarrow> light_node list \<Rightarrow> light_map \<Rightarrow> bool" where
  "covered att pass q f \<longleftrightarrow> (\<forall>n \<in> set q. node_ok f n) \<and>
     (\<forall>x y z. in_chunk x y z \<longrightarrow> queued q f (x, y, z) \<or> settled att pass f (x, y, z))"

text \<open>Seeding: the light that enters, one voxel at a time, each raised and queued.\<close>

definition raise :: "light_node \<Rightarrow> light_map \<times> light_node list \<Rightarrow> light_map \<times> light_node list" where
  "raise n acc = (case n of Node x y z l \<Rightarrow> (case acc of (light, q) \<Rightarrow>
     if l > light (voxel_at x y z) then (light(voxel_at x y z := l), q @ [n]) else (light, q)))"

definition node_in_chunk :: "light_node \<Rightarrow> bool" where
  "node_in_chunk n \<longleftrightarrow> (case n of Node x y z l \<Rightarrow> in_chunk x y z)"

definition enters :: "light_node list \<Rightarrow> light_map \<Rightarrow> bool" where
  "enters ns f \<longleftrightarrow> (\<forall>x y z l. Node x y z l \<in> set ns \<longrightarrow> l \<le> f (voxel_at x y z))"

lemma enters_mono: "enters ns f \<Longrightarrow> (\<And>i. f i \<le> g i) \<Longrightarrow> enters ns g"
  unfolding enters_def by (meson order_trans)

text \<open>The light of a chunk that \<open>ns\<close> enters: the least that holds it and has spread.\<close>

definition lit_by :: "attenuation \<Rightarrow> light_map \<Rightarrow> light_node list \<Rightarrow> light_map \<Rightarrow> bool" where
  "lit_by att pass ns f \<longleftrightarrow> spread att pass f \<and> enters ns f \<and>
     (\<forall>g. spread att pass g \<longrightarrow> enters ns g \<longrightarrow> dominates g f)"

lemma lit_by_unique:
  "lit_by att pass ns f \<Longrightarrow> lit_by att pass ns g \<Longrightarrow> i < kChunkVolume \<Longrightarrow> f i = g i"
  unfolding lit_by_def dominates_def by (meson order_antisym)

definition seeded :: "light_node list \<Rightarrow> light_map \<times> light_node list \<Rightarrow> bool" where
  "seeded ns acc \<longleftrightarrow> (\<forall>n \<in> set (snd acc). node_ok (fst acc) n) \<and> enters ns (fst acc) \<and>
     (\<forall>x y z. in_chunk x y z \<longrightarrow> fst acc (voxel_at x y z) = 0 \<or> queued (snd acc) (fst acc) (x, y, z)) \<and>
     (\<forall>g. enters ns g \<longrightarrow> dominates g (fst acc))"

lemma seeded_start: "seeded [] (\<lambda>_. 0, [])"
  by (simp add: seeded_def enters_def dominates_def)

lemma seeded_raise:
  assumes "seeded ns acc" and "node_in_chunk n"
  shows "seeded (ns @ [n]) (raise n acc)"
proof -
  obtain x y z l where n: "n = Node x y z l" by (cases n)
  obtain f q where acc: "acc = (f, q)" by fastforce
  let ?v = "voxel_at x y z"
  have inb: "in_chunk x y z" using assms(2) by (simp add: node_in_chunk_def n)
  show ?thesis
  proof (cases "l > f ?v")
    case False
    then show ?thesis using assms(1) by (auto simp: seeded_def raise_def n acc enters_def not_less)
  next
    case True
    let ?g = "f(?v := l)"
    have up: "f i \<le> ?g i" for i using True by (auto simp: less_imp_le)
    have nodes: "node_ok ?g m" if "m \<in> set (q @ [n])" for m
    proof (cases "m = n")
      case True
      then show ?thesis using inb by (simp add: node_ok_def n)
    next
      case False
      then have "node_ok f m" using that assms(1) by (simp add: seeded_def acc)
      then show ?thesis using up by (cases m) (auto simp: node_ok_def intro: order_trans simp del: fun_upd_apply)
    qed
    have "enters ns ?g" using assms(1) up enters_mono by (simp only: seeded_def acc fst_conv) blast
    then have enter: "enters (ns @ [n]) ?g" by (auto simp: enters_def n)
    have dark: "?g (voxel_at a b c) = 0 \<or> queued (q @ [n]) ?g (a, b, c)" if "in_chunk a b c" for a b c
      using assms(1) that voxel_at_inject [OF that inb] by (auto simp: seeded_def acc queued_def n)
    have low: "dominates g ?g" if "enters (ns @ [n]) g" for g
      using that assms(1) by (auto simp: seeded_def acc enters_def dominates_def n)
    show ?thesis using True nodes enter dark low by (simp add: seeded_def raise_def n acc)
  qed
qed

lemma seeded_fold:
  "seeded ms acc \<Longrightarrow> \<forall>n \<in> set ns. node_in_chunk n \<Longrightarrow> seeded (ms @ ns) (fold raise ns acc)"
proof (induction ns arbitrary: ms acc)
  case (Cons n ns)
  from Cons.IH [OF seeded_raise [OF Cons.prems(1)], of n] Cons.prems(2) show ?case by simp
qed simp

text \<open>A loop that overwrites voxels it visits once raises them.\<close>

definition overwrite :: "(int \<times> int \<times> int \<Rightarrow> u8 option) \<Rightarrow> int \<times> int \<times> int \<Rightarrow>
    light_map \<times> light_node list \<Rightarrow> light_map \<times> light_node list" where
  "overwrite level p acc = (case p of (x, y, z) \<Rightarrow> (case level (x, y, z) of
       None \<Rightarrow> acc
     | Some l \<Rightarrow> ((fst acc)(voxel_at x y z := l), snd acc @ [Node x y z l])))"

definition nodes_of :: "(int \<times> int \<times> int \<Rightarrow> u8 option) \<Rightarrow> (int \<times> int \<times> int) list \<Rightarrow> light_node list" where
  "nodes_of level ps = concat (map (\<lambda>p. case p of (x, y, z) \<Rightarrow> (case level p of
       None \<Rightarrow> [] | Some l \<Rightarrow> [Node x y z l])) ps)"

lemma fold_overwrite:
  assumes "distinct ps" and "\<forall>(x, y, z) \<in> set ps. in_chunk x y z \<and> fst acc (voxel_at x y z) = 0"
    and "\<And>p. level p \<noteq> Some 0"
  shows "fold (overwrite level) ps acc = fold raise (nodes_of level ps) acc"
  using assms(1,2)
proof (induction ps arbitrary: acc)
  case (Cons p ps)
  obtain x y z where p: "p = (x, y, z)" by (metis prod_cases3)
  obtain f q where acc: "acc = (f, q)" by fastforce
  have here: "in_chunk x y z" "f (voxel_at x y z) = 0" using Cons.prems(2) by (simp_all add: p acc)
  have rest: "\<forall>(a, b, c) \<in> set ps. in_chunk a b c \<and> (f(voxel_at x y z := l)) (voxel_at a b c) = 0" for l
  proof (clarify, rule conjI)
    fix a b c assume abc: "(a, b, c) \<in> set ps"
    then show inb: "in_chunk a b c" using Cons.prems(2) by auto
    have "voxel_at a b c \<noteq> voxel_at x y z"
      using voxel_at_inject [OF inb here(1)] abc Cons.prems(1) by (auto simp: p)
    then show "(f(voxel_at x y z := l)) (voxel_at a b c) = 0"
      using abc Cons.prems(2) by (auto simp: acc)
  qed
  show ?case
  proof (cases "level p")
    case None
    with Cons show ?thesis by (simp add: overwrite_def nodes_of_def p)
  next
    case (Some l)
    then have "l > 0" using assms(3) [of p] by (metis word_neq_0_conv)
    then have step: "overwrite level p acc = raise (Node x y z l) acc"
      using Some here(2) by (simp add: overwrite_def raise_def p acc)
    have "raise (Node x y z l) acc = (f(voxel_at x y z := l), q @ [Node x y z l])"
      using here(2) \<open>l > 0\<close> by (simp add: raise_def acc)
    with Cons.IH [of "raise (Node x y z l) acc"] Cons.prems(1) rest step Some show ?thesis
      by (simp add: nodes_of_def p)
  qed
qed (simp add: nodes_of_def)

locale attenuation =
  fixes att :: attenuation
  assumes att_mono: "k \<le> l \<Longrightarrow> att dy k p = Some a \<Longrightarrow> \<exists>b. att dy l p = Some b \<and> a \<le> b"
    and att_dark: "att dy 0 p = None"
begin

lemma reaches_mono:
  assumes "reaches att pass f p l d" and "k \<le> l" and "dominates g f"
  shows "reaches att pass g p k d"
proof -
  obtain x y z dx dy dz where pd: "p = (x, y, z)" "d = (dx, dy, dz)" by (metis prod_cases3)
  let ?v = "voxel_at (x + dx) (y + dy) (z + dz)"
  have "case att dy k (pass ?v) of None \<Rightarrow> True | Some a \<Rightarrow> a \<le> g ?v"
    if inb: "in_chunk (x + dx) (y + dy) (z + dz)"
  proof (cases "att dy k (pass ?v)")
    case (Some a)
    with att_mono [OF assms(2)] obtain b where b: "att dy l (pass ?v) = Some b" "a \<le> b" by blast
    then have "b \<le> f ?v" using assms(1) inb by (simp add: reaches_def pd)
    also have "\<dots> \<le> g ?v" using assms(3) voxel_at_bound [OF inb] by (simp add: dominates_def)
    finally show ?thesis using Some b(2) by simp
  qed simp
  then show ?thesis by (simp add: reaches_def pd)
qed

text \<open>One try: the light only grows, never past a spread light above it, and arrives.\<close>

lemma try_dominates: "dominates (fst (flood_try att pass n d acc)) (fst acc)"
  by (auto simp: flood_try_def dominates_def Let_def split: light_node.split prod.split option.split)

lemma try_reaches:
  "reaches att pass (fst (flood_try att pass (Node x y z l) d acc)) (x, y, z) l d"
  by (auto simp: flood_try_def reaches_def Let_def not_less split: prod.split option.split)

lemma try_below:
  assumes "spread att pass g" and "dominates g (fst acc)" and "node_ok g n" and "d \<in> set kNeighbours"
  shows "dominates g (fst (flood_try att pass n d acc))"
proof -
  obtain x y z l where n: "n = Node x y z l" by (cases n)
  obtain dx dy dz where d: "d = (dx, dy, dz)" by (metis prod_cases3)
  obtain light q where acc: "acc = (light, q)" by fastforce
  have inb: "in_chunk x y z" "l \<le> g (voxel_at x y z)" using assms(3) by (simp_all add: node_ok_def n)
  then have "reaches att pass g (x, y, z) (g (voxel_at x y z)) d"
    using assms(1,4) unfolding spread_def settled_def by fastforce
  then have "reaches att pass g (x, y, z) l d"
    using inb(2) dominates_refl by (rule reaches_mono)
  then show ?thesis using assms(2)
    by (auto simp: flood_try_def n d acc reaches_def dominates_def Let_def split: option.split)
qed

text \<open>A try of a queued node keeps the queue's promise for every other voxel.\<close>

lemma try_nodes:
  assumes "\<forall>m \<in> set (snd acc). node_ok (fst acc) m"
  shows "\<forall>m \<in> set (snd (flood_try att pass n d acc)). node_ok (fst (flood_try att pass n d acc)) m"
proof -
  obtain x y z l where n: "n = Node x y z l" by (cases n)
  obtain dx dy dz where d: "d = (dx, dy, dz)" by (metis prod_cases3)
  obtain light q where acc: "acc = (light, q)" by fastforce
  have "node_ok f m \<Longrightarrow> dominates g f \<Longrightarrow> node_ok g m" for f g m
    by (cases m) (auto simp: node_ok_def dominates_def intro: order_trans dest: voxel_at_bound)
  with try_dominates [of pass n d acc] assms
  have "\<forall>m \<in> set q. node_ok (fst (flood_try att pass n d acc)) m" by (auto simp: acc)
  then show ?thesis
    using flood_try_cases [of att pass x y z l dx dy dz light q] by (auto simp: n d acc node_ok_def)
qed

lemma try_queued:
  assumes "queued (snd acc) (fst acc) p \<or> settled att pass (fst acc) p" and "in_chunk (fst p) (fst (snd p)) (snd (snd p))"
  shows "queued (snd (flood_try att pass n d acc)) (fst (flood_try att pass n d acc)) p \<or>
    settled att pass (fst (flood_try att pass n d acc)) p"
proof -
  obtain x y z l where n: "n = Node x y z l" by (cases n)
  obtain dx dy dz where d: "d = (dx, dy, dz)" by (metis prod_cases3)
  obtain light q where acc: "acc = (light, q)" by fastforce
  obtain px py pz where p: "p = (px, py, pz)" by (metis prod_cases3)
  let ?acc' = "flood_try att pass n d acc" and ?v = "voxel_at px py pz"
  show ?thesis
  proof (cases "fst ?acc' ?v = light ?v")
    case True
    have "set q \<subseteq> set (snd ?acc')"
      using flood_try_cases [of att pass x y z l dx dy dz light q] unfolding n d acc by auto
    moreover have "settled att pass (fst ?acc') p" if "settled att pass light p"
      using that True try_dominates [of pass n d acc]
      by (auto simp: settled_def p acc intro: reaches_mono)
    ultimately show ?thesis using assms(1) True by (auto simp: queued_def p acc)
  next
    case False
    then have "?acc' \<noteq> (light, q)" by auto
    with flood_try_cases [of att pass x y z l dx dy dz light q] obtain nl where
      raised: "?acc' = (light(voxel_at (x + dx) (y + dy) (z + dz) := nl), q @ [Node (x + dx) (y + dy) (z + dz) nl])"
      "in_chunk (x + dx) (y + dy) (z + dz)" unfolding n d acc by blast
    with False have "voxel_at (x + dx) (y + dy) (z + dz) = ?v" by (auto split: if_splits)
    with raised have step: "?acc' = (light(?v := nl), q @ [Node (x + dx) (y + dy) (z + dz) nl])"
      "in_chunk (x + dx) (y + dy) (z + dz)" "voxel_at (x + dx) (y + dy) (z + dz) = ?v" by (simp_all only:)
    have "x + dx = px \<and> y + dy = py \<and> z + dz = pz"
      using voxel_at_inject [OF step(2) _ step(3)] assms(2) by (simp add: p)
    then have "?acc' = (light(?v := nl), q @ [Node px py pz nl])" using step(1) by simp
    then show ?thesis by (simp add: queued_def p)
  qed
qed

lemma neighbour_moves: "(dx, dy, dz) \<in> set kNeighbours \<Longrightarrow> (x + dx, y + dy, z + dz) \<noteq> (x, y, z)"
  by (auto simp: kNeighbours_def)

lemma try_keeps_self:
  assumes "d \<in> set kNeighbours" and "in_chunk x y z"
  shows "fst (flood_try att pass (Node x y z l) d acc) (voxel_at x y z) = fst acc (voxel_at x y z)"
proof -
  obtain dx dy dz where d: "d = (dx, dy, dz)" by (metis prod_cases3)
  have "voxel_at (x + dx) (y + dy) (z + dz) \<noteq> voxel_at x y z" if "in_chunk (x + dx) (y + dy) (z + dz)"
    using voxel_at_inject [OF that assms(2)] neighbour_moves [of dx dy dz x y z] assms(1) by (auto simp: d)
  then show ?thesis
    by (auto simp: flood_try_def d Let_def split: prod.split option.split)
qed

text \<open>A whole visit.\<close>

lemma visit_spec:
  assumes "set ds \<subseteq> set kNeighbours" and "in_chunk x y z"
    and "\<forall>m \<in> set (snd acc). node_ok (fst acc) m"
    and "fold (flood_try att pass (Node x y z l)) ds acc = acc'"
  shows "dominates (fst acc') (fst acc) \<and> (\<forall>m \<in> set (snd acc'). node_ok (fst acc') m) \<and>
    (\<forall>d \<in> set ds. reaches att pass (fst acc') (x, y, z) l d) \<and>
    fst acc' (voxel_at x y z) = fst acc (voxel_at x y z)"
  using assms(1,3,4)
proof (induction ds arbitrary: acc)
  case (Cons d ds)
  let ?mid = "flood_try att pass (Node x y z l) d acc"
  have d: "d \<in> set kNeighbours" "set ds \<subseteq> set kNeighbours" using Cons.prems(1) by auto
  have out: "fold (flood_try att pass (Node x y z l)) ds ?mid = acc'" using Cons.prems(3) by simp
  have rest: "dominates (fst acc') (fst ?mid)" "\<forall>m \<in> set (snd acc'). node_ok (fst acc') m"
    "\<forall>d \<in> set ds. reaches att pass (fst acc') (x, y, z) l d"
    "fst acc' (voxel_at x y z) = fst ?mid (voxel_at x y z)"
    using Cons.IH [OF d(2) try_nodes [OF Cons.prems(2)] out] by blast+
  have "reaches att pass (fst acc') (x, y, z) l d"
    using try_reaches order_refl rest(1) by (rule reaches_mono)
  moreover have "dominates (fst acc') (fst acc)" using rest(1) try_dominates by (rule dominates_trans)
  ultimately show ?case
    using rest try_keeps_self [OF d(1) assms(2), of pass l acc] by simp
qed (simp add: dominates_refl)

lemma visit_queued:
  assumes "queued (snd acc) (fst acc) p \<or> settled att pass (fst acc) p"
    and "in_chunk (fst p) (fst (snd p)) (snd (snd p))"
  shows "queued (snd (fold (flood_try att pass n) ds acc)) (fst (fold (flood_try att pass n) ds acc)) p \<or>
    settled att pass (fst (fold (flood_try att pass n) ds acc)) p"
  using assms(1)
proof (induction ds arbitrary: acc)
  case (Cons d ds)
  from Cons.IH [OF try_queued [OF Cons.prems assms(2)]] show ?case by simp
qed simp

lemma visit_covered:
  assumes "covered att pass (n # q) light" and "flood_visit att pass n (light, q) = (light', q')"
  shows "covered att pass q' light' \<and> dominates light' light"
proof -
  obtain x y z l where n: "n = Node x y z l" by (cases n)
  have ok: "in_chunk x y z" "l \<le> light (voxel_at x y z)" "\<forall>m \<in> set q. node_ok light m"
    using assms(1) by (simp_all add: covered_def n node_ok_def)
  have out: "fold (flood_try att pass (Node x y z l)) kNeighbours (light, q) = (light', q')"
    using assms(2) by (simp add: flood_visit_def n)
  from visit_spec [OF subset_refl ok(1) _ out] ok(3)
  have spec: "dominates light' light" "\<forall>m \<in> set q'. node_ok light' m"
    "\<forall>d \<in> set kNeighbours. reaches att pass light' (x, y, z) l d"
    "light' (voxel_at x y z) = light (voxel_at x y z)" by simp_all
  have "queued q' light' (a, b, c) \<or> settled att pass light' (a, b, c)" if inb: "in_chunk a b c" for a b c
  proof (cases "queued q light (a, b, c) \<or> settled att pass light (a, b, c)")
    case True
    from visit_queued [of "(light, q)" "(a, b, c)" pass "Node x y z l" kNeighbours] True inb out
    show ?thesis by simp
  next
    case False
    then have "Node a b c (light (voxel_at a b c)) = n"
      using assms(1) inb by (auto simp: covered_def queued_def)
    then show ?thesis using spec(3,4) by (auto simp: n settled_def)
  qed
  then show ?thesis using spec(1,2) by (simp add: covered_def)
qed

lemma visit_below:
  assumes "spread att pass g" and "dominates g (fst acc)" and "node_ok g n" and "set ds \<subseteq> set kNeighbours"
  shows "dominates g (fst (fold (flood_try att pass n) ds acc))"
  using assms(2,4)
proof (induction ds arbitrary: acc)
  case (Cons d ds)
  from try_below [OF assms(1) Cons.prems(1) assms(3), of d] Cons show ?case by simp
qed simp

theorem flood_least:
  assumes "covered att pass q light"
  shows "least_spread att pass light (flood_loop att pass q light)"
  using assms
proof (induction "flood_size (light, q)" arbitrary: q light rule: less_induct)
  case less
  show ?case
  proof (cases q)
    case Nil
    with less.prems show ?thesis
      by (simp add: least_spread_def spread_def covered_def queued_def dominates_refl)
  next
    case (Cons n q1)
    obtain light' q' where visit: "flood_visit att pass n (light, q1) = (light', q')" by fastforce
    have "flood_size (light', q') < flood_size (light, q)"
      using flood_visit_size [of att pass n "(light, q1)"] visit by (simp add: flood_size_def Cons)
    from less.hyps [OF this] visit_covered [of pass n q1 light, OF _ visit] less.prems
    have least: "least_spread att pass light' (flood_loop att pass q' light')" and up: "dominates light' light"
      by (simp_all add: Cons)
    have "dominates g light'" if g: "spread att pass g" "dominates g light" for g
    proof -
      have "node_ok light n" using less.prems by (simp add: covered_def Cons)
      then have "node_ok g n"
        using g(2) by (cases n) (auto simp: node_ok_def dominates_def intro: order_trans dest: voxel_at_bound)
      with visit_below [OF g(1), of "(light, q1)" n kNeighbours] g(2) visit show ?thesis
        by (simp add: flood_visit_def)
    qed
    with least up show ?thesis
      by (auto simp: Cons visit least_spread_def intro: dominates_trans)
  qed
qed

text \<open>A flood from seeds.\<close>

lemma flood_seeds:
  assumes "seeded ns (light, q)" and "\<forall>n \<in> set ns. node_in_chunk n"
  shows "lit_by att pass ns (flood_loop att pass q light)"
proof -
  have "settled att pass light (x, y, z)" if "light (voxel_at x y z) = 0" for x y z
    using that att_dark by (auto simp: settled_def reaches_def)
  then have "covered att pass q light" using assms(1) unfolding seeded_def covered_def by (metis fst_conv snd_conv)
  then have least: "least_spread att pass light (flood_loop att pass q light)" by (rule flood_least)
  have "l \<le> flood_loop att pass q light (voxel_at x y z)" if n: "Node x y z l \<in> set ns" for x y z l
  proof -
    have "l \<le> light (voxel_at x y z)" using assms(1) n by (simp add: seeded_def enters_def)
    also have "\<dots> \<le> flood_loop att pass q light (voxel_at x y z)"
      using least assms(2) n voxel_at_bound by (fastforce simp: least_spread_def dominates_def node_in_chunk_def)
    finally show ?thesis .
  qed
  with least assms(1) show ?thesis
    by (simp add: least_spread_def lit_by_def seeded_def enters_def)
qed

end

lemma drop_mono:
  fixes k l d :: u8
  assumes "k \<le> l" and "\<not> k \<le> d"
  shows "\<not> l \<le> d" and "k - d \<le> l - d"
  using assms by (auto simp: word_le_nat_alt unat_sub)

interpretation sky: attenuation sky_step
proof unfold_locales
  fix k l :: u8 and dy p a
  assume le: "k \<le> l" and a: "sky_step dy k p = Some a"
  let ?straight = "\<lambda>l. dy = -1 \<and> l = 15 \<and> p = (15 :: u8)"
  have p: "p \<noteq> 0" using a by (auto simp: sky_step_def)
  consider "l = k" | "?straight k" "15 < l" | "?straight l" "k < 15" | "\<not> ?straight k" "\<not> ?straight l"
    using le by (metis order_neq_le_trans)
  then show "\<exists>b. sky_step dy l p = Some b \<and> a \<le> b"
  proof cases
    case 2
    then have "\<not> l \<le> 1" "15 \<le> l - 1" by (auto simp: word_le_nat_alt word_less_nat_alt unat_sub)
    with a 2 show ?thesis by (auto simp: sky_step_def kMaxLight_def)
  next
    case 3
    then have "\<not> ?straight k" by auto
    with a p have "\<not> k \<le> 1" "a = k - 1" using 3 by (auto simp: sky_step_def kMaxLight_def Let_def split: if_splits)
    moreover have "k - 1 \<le> 15" using 3 \<open>\<not> k \<le> 1\<close> by (auto simp: word_le_nat_alt word_less_nat_alt unat_sub)
    ultimately show ?thesis using 3 by (auto simp: sky_step_def kMaxLight_def)
  next
    case 4
    then have "sky_step dy k p = (if k \<le> 16 - p then None else Some (k - (16 - p)))"
      "sky_step dy l p = (if l \<le> 16 - p then None else Some (l - (16 - p)))"
      using p by (auto simp: sky_step_def kMaxLight_def Let_def)
    with a drop_mono [OF le, of "16 - p"] show ?thesis by (auto split: if_splits)
  qed (use a in simp)
qed (simp add: sky_step_def kMaxLight_def Let_def)

interpretation blk: attenuation block_step
proof unfold_locales
  fix k l :: u8 and dy p a
  assume "k \<le> l" and "block_step dy k p = Some a"
  then show "\<exists>b. block_step dy l p = Some b \<and> a \<le> b"
    using drop_mono [of k l 1] by (auto simp: block_step_def split: if_splits)
qed (simp add: block_step_def)

end
