(* ===== verification/Block_Registry.thy ===== *)
theory Block_Registry
  imports Core_Types
begin

text \<open>
  \<open>BlockType\<close> and \<open>BlockRegistry\<close> of \<open>world/block.hpp\<close> and \<open>world/block.cpp\<close>: block ids are positions
  in the list of registered types, id 0 is air, an unknown id reads as air and a name is registered
  once. A new id is the list's length cast to sixteen bits, as the code casts it.
\<close>

definition kDefaultMaxStackSize :: u16 where
  "kDefaultMaxStackSize = 64"

record block_type =
  bt_name :: bstring
  bt_solid :: bool
  bt_opaque :: bool
  bt_liquid :: bool
  bt_light_emission :: u8
  bt_texture :: bstring
  bt_max_damage :: u16
  bt_crack_texture :: bstring
  bt_max_stack :: u16
  bt_pickup_radius :: f64
  bt_drop_lifetime_seconds :: f64
  bt_region :: bool
  bt_replaceable :: bool

text \<open>The member initialisers; \<open>-1.0\<close> is its IEEE bit pattern.\<close>

definition default_block_type :: block_type where
  "default_block_type = \<lparr>bt_name = [], bt_solid = True, bt_opaque = True, bt_liquid = False,
     bt_light_emission = 0, bt_texture = [], bt_max_damage = 0, bt_crack_texture = [],
     bt_max_stack = kDefaultMaxStackSize, bt_pickup_radius = 0xBFF0000000000000,
     bt_drop_lifetime_seconds = 0xBFF0000000000000, bt_region = False, bt_replaceable = False\<rparr>"

definition kAirType :: block_type where
  "kAirType = default_block_type\<lparr>bt_name := lit ''base:air'', bt_solid := False, bt_opaque := False\<rparr>"

type_synonym block_registry = "block_type list"

definition br_add :: "block_type \<Rightarrow> block_registry \<Rightarrow> block_id \<times> block_registry" where
  "br_add t r = (of_nat (length r), r @ [t])"

primrec br_index_of :: "bstring \<Rightarrow> block_registry \<Rightarrow> nat option" where
  "br_index_of name [] = None"
| "br_index_of name (t # ts) = (if bt_name t = name then Some 0 else map_option Suc (br_index_of name ts))"

definition br_add_or_get :: "bstring \<Rightarrow> block_type \<Rightarrow> block_registry \<Rightarrow> block_id \<times> block_registry" where
  "br_add_or_get name t r = (case br_index_of name r of
       Some i \<Rightarrow> (of_nat i, r)
     | None \<Rightarrow> br_add (t\<lparr>bt_name := name\<rparr>) r)"

definition set_texture :: "block_id \<Rightarrow> bstring \<Rightarrow> block_registry \<Rightarrow> block_registry" where
  "set_texture b texture r =
     (if unat b < length r then r[unat b := (r ! unat b)\<lparr>bt_texture := texture\<rparr>] else r)"

definition set_replaceable :: "block_id \<Rightarrow> bool \<Rightarrow> block_registry \<Rightarrow> block_registry" where
  "set_replaceable b replaceable r =
     (if unat b < length r then r[unat b := (r ! unat b)\<lparr>bt_replaceable := replaceable\<rparr>] else r)"

definition set_crack_texture :: "block_id \<Rightarrow> bstring \<Rightarrow> block_registry \<Rightarrow> block_registry" where
  "set_crack_texture b crack_texture r =
     (if unat b < length r then r[unat b := (r ! unat b)\<lparr>bt_crack_texture := crack_texture\<rparr>] else r)"

definition br_contains :: "block_id \<Rightarrow> block_registry \<Rightarrow> bool" where
  "br_contains b r \<longleftrightarrow> unat b < length r"

definition type_of_block :: "block_registry \<Rightarrow> block_id \<Rightarrow> block_type" where
  "type_of_block r b = (if unat b < length r then r ! unat b else kAirType)"

definition br_find :: "bstring \<Rightarrow> block_registry \<Rightarrow> block_id" where
  "br_find name r = (case br_index_of name r of Some i \<Rightarrow> of_nat i | None \<Rightarrow> kAir)"

definition is_solid :: "block_registry \<Rightarrow> block_id \<Rightarrow> bool" where
  "is_solid r b = bt_solid (type_of_block r b)"

definition is_opaque :: "block_registry \<Rightarrow> block_id \<Rightarrow> bool" where
  "is_opaque r b = bt_opaque (type_of_block r b)"

definition is_liquid :: "block_registry \<Rightarrow> block_id \<Rightarrow> bool" where
  "is_liquid r b = bt_liquid (type_of_block r b)"

definition is_region :: "block_registry \<Rightarrow> block_id \<Rightarrow> bool" where
  "is_region r b = bt_region (type_of_block r b)"

definition light_emission :: "block_registry \<Rightarrow> block_id \<Rightarrow> u8" where
  "light_emission r b = bt_light_emission (type_of_block r b)"

definition base_registry :: block_registry where
  "base_registry =
     [kAirType,
      default_block_type\<lparr>bt_name := lit ''base:stone''\<rparr>,
      default_block_type\<lparr>bt_name := lit ''base:dirt''\<rparr>,
      default_block_type\<lparr>bt_name := lit ''base:grass''\<rparr>,
      default_block_type\<lparr>bt_name := lit ''base:sand''\<rparr>,
      default_block_type\<lparr>bt_name := lit ''base:water'', bt_solid := False, bt_opaque := False,
        bt_liquid := True, bt_region := True\<rparr>,
      default_block_type\<lparr>bt_name := lit ''base:wood''\<rparr>,
      default_block_type\<lparr>bt_name := lit ''base:leaves'', bt_opaque := False\<rparr>]"

section \<open>Names and ids\<close>

lemma br_index_of_Some:
  "br_index_of name r = Some i \<Longrightarrow> i < length r \<and> bt_name (r ! i) = name \<and> (\<forall>j < i. bt_name (r ! j) \<noteq> name)"
proof (induction r arbitrary: i)
  case (Cons t ts)
  show ?case
  proof (cases "bt_name t = name")
    case False
    with Cons.prems obtain k where "br_index_of name ts = Some k" "i = Suc k" by auto
    with Cons.IH False show ?thesis by (auto simp: nth_Cons split: nat.split)
  qed (use Cons.prems in auto)
qed simp

lemma br_index_of_None: "br_index_of name r = None \<longleftrightarrow> name \<notin> bt_name ` set r"
  by (induction r) auto

lemma br_index_of_append:
  "br_index_of name (r @ s) = (case br_index_of name r of
     Some i \<Rightarrow> Some i | None \<Rightarrow> map_option (\<lambda>i. length r + i) (br_index_of name s))"
proof (induction r)
  case Nil
  then show ?case by (cases "br_index_of name s") simp_all
qed (auto simp: option.map_comp comp_def split: option.split intro!: option.map_cong)

text \<open>A registry whose names are distinct, as \<open>add_or_get\<close> keeps it, and whose ids fit their type.\<close>

definition registry_ok :: "block_registry \<Rightarrow> bool" where
  "registry_ok r \<longleftrightarrow> distinct (map bt_name r) \<and> length r \<le> 2 ^ 16"

lemma registry_ok_base: "registry_ok base_registry"
  by (simp add: registry_ok_def base_registry_def kAirType_def default_block_type_def lit_def)

lemma add_or_get_ok:
  assumes "registry_ok r" and "length r < 2 ^ 16"
  shows "registry_ok (snd (br_add_or_get name t r))"
  using assms
  by (auto simp: br_add_or_get_def br_add_def registry_ok_def br_index_of_None split: option.split)

text \<open>The id names the type it was registered under; a second registration is a no-op with the same id.\<close>

lemma add_or_get_find:
  assumes "length r < 2 ^ 16" and "br_add_or_get name t r = (b, r')"
  shows "br_find name r' = b \<and> br_contains b r' \<and> bt_name (type_of_block r' b) = name \<and>
    (\<forall>t'. br_add_or_get name t' r' = (b, r'))"
proof (cases "br_index_of name r")
  case None
  then have r': "r' = r @ [t\<lparr>bt_name := name\<rparr>]" "b = of_nat (length r)"
    using assms(2) by (auto simp: br_add_or_get_def br_add_def)
  then have "br_index_of name r' = Some (length r)" by (simp add: br_index_of_append None)
  with r' assms(1) show ?thesis
    by (simp add: br_find_def br_contains_def type_of_block_def br_add_or_get_def unat_of_nat nth_append)
next
  case (Some i)
  with br_index_of_Some [OF Some] assms show ?thesis
    by (auto simp: br_add_or_get_def br_find_def br_contains_def type_of_block_def unat_of_nat)
qed

text \<open>Ids handed out before stay what they were.\<close>

lemma add_or_get_stable:
  "br_contains i r \<Longrightarrow> type_of_block (snd (br_add_or_get name t r)) i = type_of_block r i"
  by (auto simp: br_add_or_get_def br_add_def br_contains_def type_of_block_def nth_append split: option.split)

text \<open>The setters change one field of one block.\<close>

lemma setters_keep:
  "is_solid (set_texture i tx r) = is_solid r" "is_opaque (set_texture i tx r) = is_opaque r"
  "is_liquid (set_texture i tx r) = is_liquid r" "light_emission (set_texture i tx r) = light_emission r"
  "is_solid (set_crack_texture i tx r) = is_solid r" "is_opaque (set_crack_texture i tx r) = is_opaque r"
  "is_liquid (set_crack_texture i tx r) = is_liquid r"
  "light_emission (set_crack_texture i tx r) = light_emission r"
  "is_solid (set_replaceable i b r) = is_solid r" "is_opaque (set_replaceable i b r) = is_opaque r"
  "is_liquid (set_replaceable i b r) = is_liquid r" "light_emission (set_replaceable i b r) = light_emission r"
  by (rule ext; simp add: set_texture_def set_crack_texture_def set_replaceable_def is_solid_def
      is_opaque_def is_liquid_def light_emission_def type_of_block_def nth_list_update)+

text \<open>
  \<open>add\<close> does not check the id type: registering a 65537th block returns id 0, which is air.
\<close>

lemma add_wraps: "length r = 2 ^ 16 \<Longrightarrow> fst (br_add t r) = kAir"
  by (simp add: br_add_def kAir_def word_of_nat_eq_0_iff)

end
