(* ===== verification/World_Store.thy ===== *)
theory World_Store
  imports Block_Registry Chunk_Model
begin

text \<open>
  \<open>World\<close> of \<open>world/world.hpp\<close> and \<open>world/world.cpp\<close>: the loaded chunks by coordinate and the
  accessors in world-voxel coordinates. A voxel of the world is a chunk and an index in it; no two
  voxels share an address, so the world behaves as one map from voxels to blocks. The
  \<open>voxel_space\<close> locale is that contract.
\<close>

record voxel_address =
  va_chunk :: chunk_coord
  va_lx :: nat
  va_ly :: nat
  va_lz :: nat

definition address_of :: "ivec3 \<Rightarrow> voxel_address" where
  "address_of v = \<lparr>
     va_chunk = \<lparr>cc_x = word_of_int (floor_div (sint (iv_x v)) kChunkDim),
                 cc_y = word_of_int (floor_div (sint (iv_y v)) kChunkDim),
                 cc_z = word_of_int (floor_div (sint (iv_z v)) kChunkDim)\<rparr>,
     va_lx = nat (floor_mod (sint (iv_x v)) kChunkDim),
     va_ly = nat (floor_mod (sint (iv_y v)) kChunkDim),
     va_lz = nat (floor_mod (sint (iv_z v)) kChunkDim)\<rparr>"

definition va_index :: "voxel_address \<Rightarrow> nat" where
  "va_index a = index_of (va_lx a) (va_ly a) (va_lz a)"

record world =
  wo_registry :: block_registry
  wo_chunks :: "chunk_coord \<rightharpoonup> chunk"

definition has_chunk :: "world \<Rightarrow> chunk_coord \<Rightarrow> bool" where
  "has_chunk w c \<longleftrightarrow> wo_chunks w c \<noteq> None"

definition find_chunk :: "world \<Rightarrow> chunk_coord \<Rightarrow> chunk option" where
  "find_chunk w c = wo_chunks w c"

definition get_or_create_chunk :: "chunk_coord \<Rightarrow> world \<Rightarrow> chunk \<times> world" where
  "get_or_create_chunk c w = (case wo_chunks w c of
       Some ch \<Rightarrow> (ch, w)
     | None \<Rightarrow> (new_chunk c, w\<lparr>wo_chunks := (wo_chunks w)(c \<mapsto> new_chunk c)\<rparr>))"

definition insert_chunk :: "chunk \<Rightarrow> world \<Rightarrow> world" where
  "insert_chunk ch w = w\<lparr>wo_chunks := (wo_chunks w)(ch_coord ch \<mapsto> ch)\<rparr>"

definition unload_chunk :: "chunk_coord \<Rightarrow> world \<Rightarrow> bool \<times> world" where
  "unload_chunk c w = (has_chunk w c, w\<lparr>wo_chunks := (wo_chunks w)(c := None)\<rparr>)"

definition get_block :: "world \<Rightarrow> ivec3 \<Rightarrow> block_id" where
  "get_block w v = (case find_chunk w (va_chunk (address_of v)) of
       None \<Rightarrow> kAir
     | Some ch \<Rightarrow> chunk_get ch (va_index (address_of v)))"

definition world_set_block :: "ivec3 \<Rightarrow> block_id \<Rightarrow> world \<Rightarrow> bool \<times> world" where
  "world_set_block v b w = (
     let a = address_of v;
         (ch, w) = get_or_create_chunk (va_chunk a) w;
         (changed, ch) = chunk_set (va_index a) b ch in
     (changed, w\<lparr>wo_chunks := (wo_chunks w)(va_chunk a \<mapsto> ch)\<rparr>))"

definition solid_at :: "world \<Rightarrow> ivec3 \<Rightarrow> bool" where
  "solid_at w v = is_solid (wo_registry w) (get_block w v)"

section \<open>Addresses\<close>

lemma address_chunk [simp]: "va_chunk (address_of v) = chunk_of v"
  by (simp add: address_of_def chunk_of_def)

lemma address_local:
  "va_lx (address_of v) = nat (sint (iv_x v) mod 32)" "va_ly (address_of v) = nat (sint (iv_y v) mod 32)"
  "va_lz (address_of v) = nat (sint (iv_z v) mod 32)"
  by (simp_all add: address_of_def floor_mod_pos kChunkDim_def)

lemma address_bounds: "va_lx (address_of v) < 32" "va_ly (address_of v) < 32" "va_lz (address_of v) < 32"
  by (simp_all add: address_local nat_less_iff)

lemma va_index_bound [simp]: "va_index (address_of v) < kChunkVolume"
  by (simp add: va_index_def index_of_bound address_bounds)

lemma div_word_inject:
  fixes u v :: i32
  assumes "(word_of_int (floor_div (sint u) kChunkDim) :: i32) = word_of_int (floor_div (sint v) kChunkDim)"
    and "nat (floor_mod (sint u) kChunkDim) = nat (floor_mod (sint v) kChunkDim)"
  shows "u = v"
proof -
  have "0 \<le> floor_mod (sint w) kChunkDim" for w :: i32
    by (simp add: floor_mod_pos kChunkDim_def)
  with assms(2) have "floor_mod (sint u) kChunkDim = floor_mod (sint v) kChunkDim"
    by (metis nat_0_le)
  with assms(1) show ?thesis by (metis word_of_floor_split)
qed

lemma address_inject:
  assumes "chunk_of u = chunk_of v" and "va_index (address_of u) = va_index (address_of v)"
  shows "u = v"
proof -
  have "va_lx (address_of u) = va_lx (address_of v) \<and> va_ly (address_of u) = va_ly (address_of v) \<and>
      va_lz (address_of u) = va_lz (address_of v)"
    by (rule index_of_inject [OF _ _ _ _ assms(2) [unfolded va_index_def]]) (rule address_bounds)+
  then have "iv_x u = iv_x v \<and> iv_y u = iv_y v \<and> iv_z u = iv_z v"
    using assms(1) by (simp add: address_of_def chunk_of_def div_word_inject)
  then show ?thesis by simp
qed

section \<open>One space of voxels\<close>

text \<open>What the callers of a voxel store rely on.\<close>

locale voxel_space =
  fixes block_of :: "'s \<Rightarrow> ivec3 \<Rightarrow> block_id"
    and put_block :: "ivec3 \<Rightarrow> block_id \<Rightarrow> 's \<Rightarrow> bool \<times> 's"
    and good :: "'s \<Rightarrow> bool"
  assumes put_good: "good s \<Longrightarrow> good (snd (put_block v b s))"
    and block_put: "good s \<Longrightarrow> block_of (snd (put_block v b s)) u = (if u = v then b else block_of s u)"
    and changed_iff: "good s \<Longrightarrow> fst (put_block v b s) \<longleftrightarrow> block_of s v \<noteq> b"
begin

definition put_all :: "(ivec3 \<times> block_id) list \<Rightarrow> 's \<Rightarrow> 's" where
  "put_all edits s = fold (\<lambda>(v, b) s. snd (put_block v b s)) edits s"

lemma put_all_good: "good s \<Longrightarrow> good (put_all edits s)"
  by (induction edits arbitrary: s) (auto simp: put_all_def put_good)

text \<open>The last edit of a voxel wins, whatever lies between.\<close>

lemma put_all_block:
  "good s \<Longrightarrow> block_of (put_all edits s) u = (case map_of (rev edits) u of Some b \<Rightarrow> b | None \<Rightarrow> block_of s u)"
proof (induction edits arbitrary: s)
  case (Cons e edits)
  obtain v b where e: "e = (v, b)" by fastforce
  have "put_all (e # edits) s = put_all edits (snd (put_block v b s))" by (simp add: put_all_def e)
  with Cons.IH [OF put_good [OF Cons.prems]] show ?case
    by (simp add: e block_put Cons.prems map_add_def split: option.split)
qed (simp add: put_all_def)

text \<open>Edits of different voxels commute.\<close>

lemma put_commute:
  assumes "good s" and "u \<noteq> v"
  shows "block_of (snd (put_block u a (snd (put_block v b s)))) = block_of (snd (put_block v b (snd (put_block u a s))))"
  using assms by (intro ext) (simp add: block_put put_good)

end

definition world_ok :: "world \<Rightarrow> bool" where
  "world_ok w \<longleftrightarrow> (\<forall>c ch. wo_chunks w c = Some ch \<longrightarrow> chunk_inv ch \<and> ch_coord ch = c)"

lemma world_okD: "world_ok w \<Longrightarrow> wo_chunks w c = Some ch \<Longrightarrow> chunk_inv ch \<and> ch_coord ch = c"
  by (simp add: world_ok_def)

lemma get_new_chunk: "i < kChunkVolume \<Longrightarrow> chunk_get (new_chunk c) i = kAir"
  by (simp add: chunk_get_def new_chunk_def new_store_ok)

lemma world_set_block_chunks:
  "wo_chunks (snd (world_set_block v b w)) = (wo_chunks w)(chunk_of v \<mapsto>
     snd (chunk_set (va_index (address_of v)) b (fst (get_or_create_chunk (chunk_of v) w))))"
  by (auto simp: world_set_block_def get_or_create_chunk_def Let_def case_prod_unfold split: option.split)

lemma get_or_create_ok:
  "world_ok w \<Longrightarrow> chunk_inv (fst (get_or_create_chunk c w)) \<and> ch_coord (fst (get_or_create_chunk c w)) = c"
  by (auto simp: get_or_create_chunk_def new_chunk_inv world_okD split: option.split)
    (simp_all add: new_chunk_def)

interpretation ws: voxel_space get_block world_set_block world_ok
proof unfold_locales
  fix w v b u
  assume w: "world_ok w"
  let ?c = "chunk_of v" and ?i = "va_index (address_of v)"
  let ?ch = "fst (get_or_create_chunk ?c w)"
  have inv: "chunk_inv ?ch" "ch_coord ?ch = ?c" using get_or_create_ok [OF w] by blast+
  have inv': "chunk_inv (snd (chunk_set ?i b ?ch))" using chunk.put_inv [OF inv(1)] by simp
  show "world_ok (snd (world_set_block v b w))"
    using w inv inv' by (auto simp: world_ok_def world_set_block_chunks chunk_set_simps)
  have old: "chunk_get ?ch (va_index (address_of x)) = get_block w x" if "chunk_of x = ?c" for x
    using that by (auto simp: get_or_create_chunk_def get_block_def find_chunk_def get_new_chunk split: option.split)
  show "get_block (snd (world_set_block v b w)) u = (if u = v then b else get_block w u)"
  proof (cases "chunk_of u = ?c")
    case True
    then have "get_block (snd (world_set_block v b w)) u = chunk_get (snd (chunk_set ?i b ?ch)) (va_index (address_of u))"
      by (simp add: get_block_def find_chunk_def world_set_block_chunks)
    also have "\<dots> = (if va_index (address_of u) = ?i then b else chunk_get ?ch (va_index (address_of u)))"
      using chunk.get_put [OF inv(1)] by simp
    finally show ?thesis using old [OF True] address_inject [OF True] by auto
  next
    case False
    then show ?thesis by (auto simp: get_block_def find_chunk_def world_set_block_chunks)
  qed
  show "fst (world_set_block v b w) \<longleftrightarrow> get_block w v \<noteq> b"
    using chunk.put_changed [OF inv(1), of ?i b] old [OF refl]
    by (simp add: world_set_block_def Let_def case_prod_unfold)
qed

lemma insert_chunk_ok: "world_ok w \<Longrightarrow> chunk_inv ch \<Longrightarrow> world_ok (insert_chunk ch w)"
  by (auto simp: world_ok_def insert_chunk_def)

lemma unload_chunk_ok: "world_ok w \<Longrightarrow> world_ok (snd (unload_chunk c w))"
  by (auto simp: world_ok_def unload_chunk_def)

lemma unloaded_is_air: "chunk_of v = c \<Longrightarrow> get_block (snd (unload_chunk c w)) v = kAir"
  by (simp add: get_block_def unload_chunk_def find_chunk_def)

end
