(* ===== verification/Lighting.thy ===== *)
theory Lighting
  imports Light_Flood World_Store
begin

text \<open>
  \<open>LightEngine\<close> of \<open>world/lighting.hpp\<close> and \<open>world/lighting.cpp\<close>: sky and block light of one chunk
  from its blocks and its loaded neighbours, with the closed forms for a chunk of one block. The
  closed forms compute what the floods would: in every case the sky light is the least that the
  open sky and the neighbours give, and the block light the least that the emitters give.
\<close>

record light_engine =
  le_pass_by_id :: "u8 list"
  le_emit_by_id :: "u8 list"
  le_registry :: block_registry

definition transmittance :: "block_registry \<Rightarrow> block_id \<Rightarrow> u8" where
  "transmittance r b = (let t = type_of_block r b in
     if \<not> bt_opaque t \<and> \<not> bt_liquid t then kMaxLight
     else if bt_liquid t then kMaxLight - 2
     else 0)"

definition new_light_engine :: "block_registry \<Rightarrow> light_engine" where
  "new_light_engine r = \<lparr>le_pass_by_id = map (\<lambda>i. transmittance r (of_nat i)) [0..<length r],
     le_emit_by_id = map (\<lambda>i. light_emission r (of_nat i)) [0..<length r], le_registry = r\<rparr>"

definition pass_of :: "light_engine \<Rightarrow> block_id \<Rightarrow> u8" where
  "pass_of e b = (if unat b < length (le_pass_by_id e) then le_pass_by_id e ! unat b
     else transmittance (le_registry e) b)"

definition emit_of :: "light_engine \<Rightarrow> block_id \<Rightarrow> u8" where
  "emit_of e b = (if unat b < length (le_pass_by_id e) then le_emit_by_id e ! unat b
     else light_emission (le_registry e) b)"

record neighbours =
  nb_above :: "chunk option"
  nb_north :: "chunk option"
  nb_south :: "chunk option"
  nb_east :: "chunk option"
  nb_west :: "chunk option"

definition no_neighbours :: neighbours where
  "no_neighbours = \<lparr>nb_above = None, nb_north = None, nb_south = None, nb_east = None, nb_west = None\<rparr>"

definition sky_of :: "chunk \<Rightarrow> int \<Rightarrow> int \<Rightarrow> int \<Rightarrow> u8" where
  "sky_of c x y z = light_sky (ch_light c ! voxel_at x y z)"

definition write_back :: "light_map \<Rightarrow> light_map \<Rightarrow> chunk \<Rightarrow> chunk" where
  "write_back sky blk c = c
     \<lparr>ch_light := map (\<lambda>i. set_block (blk i) (set_sky (sky i) (ch_light c ! i))) [0..<kChunkVolume],
      ch_dirty := (ch_dirty c)\<lparr>df_light := False, df_mesh := True\<rparr>\<rparr>"

definition full_sky_from_above :: "neighbours \<Rightarrow> bool" where
  "full_sky_from_above nb \<longleftrightarrow> (case nb_above nb of
       None \<Rightarrow> True
     | Some a \<Rightarrow> list_all (\<lambda>z. list_all (\<lambda>x. sky_of a x 0 z = kMaxLight) [0..31]) [0..31])"

text \<open>The top face: every transparent voxel of it, in the order of the two loops.\<close>

definition seed_top :: "chunk option \<Rightarrow> light_map \<Rightarrow> int \<times> int \<Rightarrow> light_map \<times> light_node list \<Rightarrow>
    light_map \<times> light_node list" where
  "seed_top above_chunk pass xz acc = (case xz of (x, z) \<Rightarrow> (case acc of (sky, q) \<Rightarrow>
     let i = voxel_at x 31 z in
     if pass i = 0 then (sky, q)
     else case above_chunk of
       None \<Rightarrow> (sky(i := kMaxLight), q @ [Node x 31 z kMaxLight])
     | Some a \<Rightarrow>
         let incoming = sky_of a x 0 z in
         if incoming = 0 then (sky, q)
         else
           let straight_down = incoming = kMaxLight \<and> pass i = kMaxLight;
               step = (if straight_down then 0 else 1);
               drop = kMaxLight - pass i + step in
           if incoming \<le> drop then (sky, q)
           else (sky(i := incoming - drop), q @ [Node x 31 z (incoming - drop)])))"

text \<open>A vertical face: only ever raises a voxel.\<close>

definition seed_side :: "chunk \<Rightarrow> light_map \<Rightarrow> int \<Rightarrow> bool \<Rightarrow> int \<Rightarrow> int \<times> int \<Rightarrow> light_map \<times> light_node list \<Rightarrow>
    light_map \<times> light_node list" where
  "seed_side neighbour pass fixed_a a_is_x neighbour_a yb acc = (case yb of (y, b) \<Rightarrow> (case acc of (sky, q) \<Rightarrow>
     let x = (if a_is_x then fixed_a else b);
         z = (if a_is_x then b else fixed_a);
         i = voxel_at x y z in
     if pass i = 0 then (sky, q)
     else
       let nx = (if a_is_x then neighbour_a else b);
           nz = (if a_is_x then b else neighbour_a);
           incoming = sky_of neighbour nx y nz in
       if incoming = 0 then (sky, q)
       else
         let drop = kMaxLight - pass i + 1 in
         if incoming \<le> drop then (sky, q)
         else
           let seeded = incoming - drop in
           if seeded > sky i then (sky(i := seeded), q @ [Node x y z seeded]) else (sky, q)))"

definition seed_horizontal :: "light_map \<Rightarrow> chunk option \<Rightarrow> int \<Rightarrow> bool \<Rightarrow> int \<Rightarrow>
    light_map \<times> light_node list \<Rightarrow> light_map \<times> light_node list" where
  "seed_horizontal pass neighbour fixed_a a_is_x neighbour_a acc = (case neighbour of
       None \<Rightarrow> acc
     | Some c \<Rightarrow> fold (seed_side c pass fixed_a a_is_x neighbour_a) (List.product [0..31] [0..31]) acc)"

definition sky_seeds :: "light_map \<Rightarrow> neighbours \<Rightarrow> light_map \<times> light_node list" where
  "sky_seeds pass nb = (
     let acc = fold (\<lambda>(z, x). seed_top (nb_above nb) pass (x, z)) (List.product [0..31] [0..31]) (\<lambda>_. 0, []);
         acc = seed_horizontal pass (nb_east nb) 31 True 0 acc;
         acc = seed_horizontal pass (nb_west nb) 0 True 31 acc;
         acc = seed_horizontal pass (nb_north nb) 31 False 0 acc in
     seed_horizontal pass (nb_south nb) 0 False 31 acc)"

definition block_seeds :: "light_map \<Rightarrow> light_map \<times> light_node list" where
  "block_seeds emit = fold (\<lambda>(y, z, x) (blk, q).
       let i = voxel_at x y z; e = emit i in
       if e > 0 then (blk(i := e), q @ [Node x y z e]) else (blk, q))
     (List.product [0..31] (List.product [0..31] [0..31])) (\<lambda>_. 0, [])"

definition flood_light :: "light_map \<Rightarrow> light_map \<Rightarrow> neighbours \<Rightarrow> chunk \<Rightarrow> chunk" where
  "flood_light pass emit nb c = (
     let (sky, q) = sky_seeds pass nb;
         sky = flood_loop sky_step pass q sky;
         (blk, q) = block_seeds emit;
         blk = flood_loop block_step pass q blk in
     write_back sky blk c)"

definition relight_chunk :: "light_engine \<Rightarrow> neighbours \<Rightarrow> chunk \<Rightarrow> chunk" where
  "relight_chunk e nb c = (
     let pass = (\<lambda>i. pass_of e (ps_get (ch_blocks c) i));
         emit = (\<lambda>i. emit_of e (ps_get (ch_blocks c) i)) in
     case uniform_value (ch_blocks c) of
       None \<Rightarrow> flood_light pass emit nb c
     | Some only \<Rightarrow>
         if pass_of e only = 0 then write_back (\<lambda>_. 0) (\<lambda>_. emit_of e only) c
         else if pass_of e only = kMaxLight \<and> emit_of e only = 0 \<and> full_sky_from_above nb
         then write_back (\<lambda>_. kMaxLight) (\<lambda>_. 0) c
         else flood_light pass emit nb c)"

section \<open>The tables are the registry\<close>

definition engine_ok :: "light_engine \<Rightarrow> bool" where
  "engine_ok e \<longleftrightarrow> e = new_light_engine (le_registry e)"

lemma engine_ok_new [simp]: "engine_ok (new_light_engine r)"
  by (simp add: engine_ok_def new_light_engine_def)

lemma tables:
  assumes "engine_ok e"
  shows "pass_of e b = transmittance (le_registry e) b" and "emit_of e b = light_emission (le_registry e) b"
proof -
  have e: "le_pass_by_id e = map (\<lambda>i. transmittance (le_registry e) (of_nat i)) [0..<length (le_registry e)]"
    "le_emit_by_id e = map (\<lambda>i. light_emission (le_registry e) (of_nat i)) [0..<length (le_registry e)]"
    using assms unfolding engine_ok_def new_light_engine_def by (metis light_engine.select_convs)+
  show "pass_of e b = transmittance (le_registry e) b" "emit_of e b = light_emission (le_registry e) b"
    by (simp_all add: pass_of_def emit_of_def e)
qed

lemma transmittance_values: "transmittance r b \<in> {0, 13, 15}"
  by (simp add: transmittance_def kMaxLight_def Let_def)

section \<open>What enters a chunk\<close>

text \<open>
  The light that comes in: full sky at a transparent voxel of the top face under no loaded chunk, one
  step of the light of the chunk above or beside otherwise.
\<close>

definition top_level :: "light_map \<Rightarrow> chunk option \<Rightarrow> int \<times> int \<times> int \<Rightarrow> u8 option" where
  "top_level pass above_chunk p = (case p of (x, y, z) \<Rightarrow> (case above_chunk of
       None \<Rightarrow> if pass (voxel_at x y z) = 0 then None else Some kMaxLight
     | Some a \<Rightarrow> sky_step (-1) (sky_of a x 0 z) (pass (voxel_at x y z))))"

definition side_level :: "light_map \<Rightarrow> chunk \<Rightarrow> bool \<Rightarrow> int \<Rightarrow> int \<times> int \<times> int \<Rightarrow> u8 option" where
  "side_level pass neighbour a_is_x neighbour_a p = (case p of (x, y, z) \<Rightarrow>
     sky_step 0 (sky_of neighbour (if a_is_x then neighbour_a else x) y (if a_is_x then z else neighbour_a))
       (pass (voxel_at x y z)))"

definition face_top :: "(int \<times> int \<times> int) list" where
  "face_top = map (\<lambda>(z, x). (x, 31, z)) (List.product [0..31] [0..31])"

definition face_side :: "int \<Rightarrow> bool \<Rightarrow> (int \<times> int \<times> int) list" where
  "face_side fixed_a a_is_x = map (\<lambda>(y, b). if a_is_x then (fixed_a, y, b) else (b, y, fixed_a))
     (List.product [0..31] [0..31])"

definition entering_side :: "light_map \<Rightarrow> chunk option \<Rightarrow> int \<Rightarrow> bool \<Rightarrow> int \<Rightarrow> light_node list" where
  "entering_side pass neighbour fixed_a a_is_x neighbour_a = (case neighbour of
       None \<Rightarrow> []
     | Some c \<Rightarrow> nodes_of (side_level pass c a_is_x neighbour_a) (face_side fixed_a a_is_x))"

definition entering_sky :: "light_map \<Rightarrow> neighbours \<Rightarrow> light_node list" where
  "entering_sky pass nb = nodes_of (top_level pass (nb_above nb)) face_top @
     entering_side pass (nb_east nb) 31 True 0 @ entering_side pass (nb_west nb) 0 True 31 @
     entering_side pass (nb_north nb) 31 False 0 @ entering_side pass (nb_south nb) 0 False 31"

definition all_voxels :: "(int \<times> int \<times> int) list" where
  "all_voxels = map (\<lambda>(y, z, x). (x, y, z)) (List.product [0..31] (List.product [0..31] [0..31]))"

definition emitted :: "light_map \<Rightarrow> light_node list" where
  "emitted emit = nodes_of (\<lambda>(x, y, z). if emit (voxel_at x y z) > 0 then Some (emit (voxel_at x y z)) else None)
     all_voxels"

text \<open>The loops that seed are these lists, raised in order.\<close>

lemma not_le_zero_drop: "sky_step dy 0 p = None"
  by (rule sky.att_dark)

lemma sky_step_pos: "sky_step dy l p \<noteq> Some 0"
  by (auto simp: sky_step_def Let_def split: if_splits)

lemma seed_top_overwrite:
  "seed_top above_chunk pass (x, z) acc = overwrite (top_level pass above_chunk) (x, 31, z) acc"
  using not_le_zero_drop [of "-1"]
  by (cases acc) (auto simp: seed_top_def overwrite_def top_level_def sky_step_def Let_def split: option.split)

lemma seed_side_raise:
  "seed_side c pass fixed_a a_is_x na (y, b) acc =
    (case side_level pass c a_is_x na (if a_is_x then (fixed_a, y, b) else (b, y, fixed_a)) of
       None \<Rightarrow> acc
     | Some l \<Rightarrow> raise (if a_is_x then Node fixed_a y b l else Node b y fixed_a l) acc)"
  using not_le_zero_drop [of 0]
  by (cases acc) (auto simp: seed_side_def raise_def side_level_def sky_step_def Let_def)

lemma seed_horizontal_raise:
  "seed_horizontal pass nb fixed_a a_is_x na acc = fold raise (entering_side pass nb fixed_a a_is_x na) acc"
proof (cases nb)
  case (Some c)
  have "fold (seed_side c pass fixed_a a_is_x na) ybs acc =
    fold raise (nodes_of (side_level pass c a_is_x na)
      (map (\<lambda>(y, b). if a_is_x then (fixed_a, y, b) else (b, y, fixed_a)) ybs)) acc" for ybs
    by (induction ybs arbitrary: acc)
      (auto simp: seed_side_raise nodes_of_def split: option.split simp del: fun_upd_apply)
  then show ?thesis
    by (simp add: seed_horizontal_def entering_side_def face_side_def Some)
qed (simp add: seed_horizontal_def entering_side_def)

lemma distinct_faces: "distinct face_top" "distinct all_voxels"
  unfolding face_top_def all_voxels_def by (auto simp: distinct_map distinct_product inj_on_def)

lemma faces_in_chunk:
  "(x, y, z) \<in> set face_top \<Longrightarrow> in_chunk x y z"
  "(x, y, z) \<in> set (face_side 0 t) \<Longrightarrow> in_chunk x y z" "(x, y, z) \<in> set (face_side 31 t) \<Longrightarrow> in_chunk x y z"
  by (auto simp: face_top_def face_side_def in_chunk_def split: if_splits)

lemma all_voxels_iff: "(x, y, z) \<in> set all_voxels \<longleftrightarrow> in_chunk x y z"
  by (auto simp: all_voxels_def in_chunk_def image_iff)

lemma nodes_in_chunk:
  "(\<And>x y z. (x, y, z) \<in> set ps \<Longrightarrow> in_chunk x y z) \<Longrightarrow> n \<in> set (nodes_of level ps) \<Longrightarrow> node_in_chunk n"
  by (fastforce simp: nodes_of_def node_in_chunk_def split: option.splits)

lemma nodes_entering: "n \<in> set (entering_sky pass nb) \<Longrightarrow> node_in_chunk n"
  using faces_in_chunk
  by (auto simp: entering_sky_def entering_side_def split: option.splits dest: nodes_in_chunk [rotated])

lemma nodes_emitted: "n \<in> set (emitted emit) \<Longrightarrow> node_in_chunk n"
  using all_voxels_iff unfolding emitted_def by (auto dest: nodes_in_chunk [rotated])

lemma sky_seeds_seeded: "seeded (entering_sky pass nb) (sky_seeds pass nb)"
proof -
  have top: "fold (\<lambda>(z, x). seed_top (nb_above nb) pass (x, z)) zxs acc =
    fold (overwrite (top_level pass (nb_above nb))) (map (\<lambda>(z, x). (x, 31, z)) zxs) acc" for zxs acc
    by (induction zxs arbitrary: acc) (auto simp: seed_top_overwrite)
  have "top_level pass a p \<noteq> Some 0" for a p
    using sky_step_pos by (auto simp: top_level_def kMaxLight_def split: option.split prod.split)
  then have "fold (overwrite (top_level pass (nb_above nb))) face_top (\<lambda>_. 0, []) =
      fold raise (nodes_of (top_level pass (nb_above nb)) face_top) (\<lambda>_. 0, [])"
    using faces_in_chunk(1) by (intro fold_overwrite distinct_faces) auto
  then have "sky_seeds pass nb = fold raise (entering_sky pass nb) (\<lambda>_. 0, [])"
    by (simp add: sky_seeds_def top face_top_def [symmetric] seed_horizontal_raise entering_sky_def Let_def)
  then show ?thesis using seeded_fold [OF seeded_start, of "entering_sky pass nb"] nodes_entering by simp
qed

lemma block_seeds_seeded: "seeded (emitted emit) (block_seeds emit)"
proof -
  let ?level = "\<lambda>(x, y, z). if emit (voxel_at x y z) > 0 then Some (emit (voxel_at x y z)) else None"
  have "fold (\<lambda>(y, z, x) (blk, q).
       let i = voxel_at x y z; e = emit i in
       if e > 0 then (blk(i := e), q @ [Node x y z e]) else (blk, q)) yzxs acc =
    fold (overwrite ?level) (map (\<lambda>(y, z, x). (x, y, z)) yzxs) acc" for yzxs acc
    by (induction yzxs arbitrary: acc) (auto simp: overwrite_def Let_def)
  then have "block_seeds emit = fold (overwrite ?level) all_voxels (\<lambda>_. 0, [])"
    by (simp add: block_seeds_def all_voxels_def)
  also have "\<dots> = fold raise (emitted emit) (\<lambda>_. 0, [])"
    unfolding emitted_def using all_voxels_iff by (intro fold_overwrite distinct_faces) (auto split: if_splits)
  finally show ?thesis using seeded_fold [OF seeded_start, of "emitted emit"] nodes_emitted by simp
qed

section \<open>The closed forms compute the same\<close>

text \<open>What \<open>relight_chunk\<close> promises, whichever way it computes it.\<close>

definition relit :: "light_engine \<Rightarrow> neighbours \<Rightarrow> chunk \<Rightarrow> chunk \<Rightarrow> bool" where
  "relit e nb c c' \<longleftrightarrow> (\<exists>sky blk.
     lit_by sky_step (\<lambda>i. pass_of e (ps_get (ch_blocks c) i))
       (entering_sky (\<lambda>i. pass_of e (ps_get (ch_blocks c) i)) nb) sky \<and>
     lit_by block_step (\<lambda>i. pass_of e (ps_get (ch_blocks c) i))
       (emitted (\<lambda>i. emit_of e (ps_get (ch_blocks c) i))) blk \<and>
     c' = write_back sky blk c)"

lemma nodes_of_iff: "Node x y z l \<in> set (nodes_of level ps) \<longleftrightarrow> (x, y, z) \<in> set ps \<and> level (x, y, z) = Some l"
  by (auto simp: nodes_of_def split: option.splits intro!: bexI [of _ "(x, y, z)"])

lemma entering_side_iff: "Node x y z l \<in> set (entering_side pass nb a t na) \<longleftrightarrow>
  (\<exists>c. nb = Some c \<and> (x, y, z) \<in> set (face_side a t) \<and> side_level pass c t na (x, y, z) = Some l)"
  by (cases nb) (auto simp: entering_side_def nodes_of_iff)

lemma entering_skyD:
  assumes "Node x y z l \<in> set (entering_sky pass nb)"
  shows "in_chunk x y z"
    and "top_level pass (nb_above nb) (x, y, z) = Some l \<or> (\<exists>c t na. side_level pass c t na (x, y, z) = Some l)"
proof -
  show "in_chunk x y z" using nodes_entering [OF assms] by (simp add: node_in_chunk_def)
  have side: "\<exists>c t na. side_level pass c t na (x, y, z) = Some l"
    if "Node x y z l \<in> set (entering_side pass n a t na)" for n a t na
    using that unfolding entering_side_iff by blast
  from assms show "top_level pass (nb_above nb) (x, y, z) = Some l \<or>
      (\<exists>c t na. side_level pass c t na (x, y, z) = Some l)"
    unfolding entering_sky_def set_append Un_iff nodes_of_iff using side by blast
qed

lemma entering_topI:
  "(x, y, z) \<in> set face_top \<Longrightarrow> top_level pass (nb_above nb) (x, y, z) = Some l \<Longrightarrow>
   Node x y z l \<in> set (entering_sky pass nb)"
  unfolding entering_sky_def set_append Un_iff nodes_of_iff by blast

lemma enters_emitted: "enters (emitted emit) f \<longleftrightarrow> (\<forall>x y z. in_chunk x y z \<longrightarrow> emit (voxel_at x y z) \<le> f (voxel_at x y z))"
  by (auto simp: enters_def emitted_def nodes_of_iff all_voxels_iff split: if_splits)
    (metis word_coorder.not_eq_extremum word_zero_le)

lemma every_voxel:
  assumes "i < kChunkVolume"
  shows "\<exists>x y z. in_chunk x y z \<and> voxel_at x y z = i"
proof (intro exI conjI)
  let ?x = "int (i mod 32)" and ?z = "int (i div 32 mod 32)" and ?y = "int (i div 32 div 32)"
  show "in_chunk ?x ?y ?z" using assms by (simp add: in_chunk_def kChunkVolume_def less_mult_imp_div_less)
  show "voxel_at ?x ?y ?z = i" by (simp add: voxel_at_def index_of_def)
qed

lemma opaque_sky:
  assumes "\<And>i. i < kChunkVolume \<Longrightarrow> pass i = 0"
  shows "lit_by sky_step pass (entering_sky pass nb) (\<lambda>_. 0)"
proof -
  have "top_level pass a (x, y, z) = None" "side_level pass c t na (x, y, z) = None" if "in_chunk x y z" for a c t na x y z
    using assms [OF voxel_at_bound [OF that]]
    by (auto simp: top_level_def side_level_def sky_step_def split: option.split)
  then have "Node x y z l \<notin> set (entering_sky pass nb)" for x y z l
    using entering_skyD [of x y z l pass nb] by fastforce
  then show ?thesis
    by (simp add: lit_by_def enters_def dominates_def spread_def settled_def reaches_def not_le_zero_drop)
qed

lemma opaque_block:
  assumes "\<And>i. i < kChunkVolume \<Longrightarrow> pass i = 0" and "\<And>i. i < kChunkVolume \<Longrightarrow> emit i = k"
  shows "lit_by block_step pass (emitted emit) (\<lambda>_. k)"
proof -
  have "k \<le> g i" if "\<forall>x y z. in_chunk x y z \<longrightarrow> emit (voxel_at x y z) \<le> g (voxel_at x y z)" "i < kChunkVolume" for g i
    using that every_voxel [OF that(2)] assms(2) by metis
  moreover have "block_step dy k (pass (voxel_at x y z)) = None" if "in_chunk x y z" for dy x y z
    using assms(1) [OF voxel_at_bound [OF that]] by (simp add: block_step_def)
  ultimately show ?thesis
    using assms(2) voxel_at_bound
    by (auto simp: lit_by_def enters_emitted dominates_def spread_def settled_def reaches_def)
qed

lemma dark_block:
  assumes "\<And>i. i < kChunkVolume \<Longrightarrow> emit i = 0"
  shows "lit_by block_step pass (emitted emit) (\<lambda>_. 0)"
  using assms voxel_at_bound
  by (auto simp: lit_by_def enters_emitted dominates_def spread_def settled_def reaches_def blk.att_dark)

text \<open>Full sky through open air: every voxel keeps 15, straight down from the top face.\<close>

lemma full_sky_down:
  assumes pass: "\<And>i. i < kChunkVolume \<Longrightarrow> pass i = kMaxLight" and g: "spread sky_step pass g"
    and top: "\<And>x z. in_chunk x 31 z \<Longrightarrow> kMaxLight \<le> g (voxel_at x 31 z)"
    and "in_chunk x y z"
  shows "kMaxLight \<le> g (voxel_at x y z)"
proof -
  have "n \<le> 31 \<Longrightarrow> kMaxLight \<le> g (voxel_at x (31 - int n) z)" for n
  proof (induction n)
    case 0
    then show ?case using assms(4) top by (simp add: in_chunk_def)
  next
    case (Suc n)
    let ?y = "31 - int n"
    have inb: "in_chunk x ?y z" "in_chunk (x + 0) (?y + - 1) (z + 0)"
      using assms(4) Suc.prems by (simp_all add: in_chunk_def)
    have "settled sky_step pass g (x, ?y, z)" using g inb(1) unfolding spread_def by blast
    then have "reaches sky_step pass g (x, ?y, z) (g (voxel_at x ?y z)) (0, -1, 0)"
      by (simp add: settled_def kNeighbours_def)
    moreover have "kMaxLight \<le> g (voxel_at x ?y z)" using Suc by simp
    ultimately have "reaches sky_step pass g (x, ?y, z) kMaxLight (0, -1, 0)"
      by (rule sky.reaches_mono [OF _ _ dominates_refl])
    moreover have "sky_step (-1) kMaxLight kMaxLight = Some kMaxLight"
      by (simp add: sky_step_def kMaxLight_def)
    moreover have "?y + - 1 = 31 - int (Suc n)" by simp
    ultimately show ?case
      using inb(2) pass [OF voxel_at_bound [OF inb(2)]] by (simp add: reaches_def)
  qed
  moreover have "nat (31 - y) \<le> 31" "31 - int (nat (31 - y)) = y"
    using assms(4) unfolding in_chunk_def by linarith+
  ultimately show ?thesis by metis
qed

lemma open_sky:
  assumes pass: "\<And>i. i < kChunkVolume \<Longrightarrow> pass i = kMaxLight" and full: "full_sky_from_above nb"
  shows "lit_by sky_step pass (entering_sky pass nb) (\<lambda>_. kMaxLight)"
proof -
  have step: "sky_step dy l kMaxLight = Some b \<Longrightarrow> l \<le> kMaxLight \<Longrightarrow> b \<le> kMaxLight" for dy l b
    by (auto simp: sky_step_def Let_def kMaxLight_def word_le_nat_alt unat_sub split: if_splits)
  have sky: "sky_of c x y z \<le> kMaxLight" for c x y z
    using light_sky_bound by (simp add: sky_of_def kMaxLight_def)
  have "spread sky_step pass (\<lambda>_. kMaxLight)"
    using pass voxel_at_bound step
    by (auto simp: spread_def settled_def reaches_def split: option.split)
  moreover have "enters (entering_sky pass nb) (\<lambda>_. kMaxLight)"
    unfolding enters_def
  proof (intro allI impI)
    fix x y z l assume n: "Node x y z l \<in> set (entering_sky pass nb)"
    have p: "pass (voxel_at x y z) = kMaxLight" using entering_skyD(1) [OF n] voxel_at_bound pass by blast
    from entering_skyD(2) [OF n] show "l \<le> kMaxLight"
    proof (elim disjE exE)
      assume "top_level pass (nb_above nb) (x, y, z) = Some l"
      then show ?thesis
        using step [OF _ sky] by (auto simp: top_level_def p split: option.splits if_splits)
    next
      fix c t na assume "side_level pass c t na (x, y, z) = Some l"
      then show ?thesis unfolding side_level_def split p by (rule step) (rule sky)
    qed
  qed
  moreover have "dominates g (\<lambda>_. kMaxLight)"
    if g: "spread sky_step pass g" "enters (entering_sky pass nb) g" for g
  proof -
    have top: "kMaxLight \<le> g (voxel_at x 31 z)" if inb: "in_chunk x 31 z" for x z
    proof -
      have "sky_of a x 0 z = kMaxLight" if "nb_above nb = Some a" for a
        using full that inb by (simp add: full_sky_from_above_def list_all_iff in_chunk_def)
      then have "top_level pass (nb_above nb) (x, 31, z) = Some kMaxLight"
        using pass [OF voxel_at_bound [OF inb]]
        by (auto simp: top_level_def sky_step_def kMaxLight_def split: option.split)
      moreover have "(x, 31, z) \<in> set face_top" using inb by (auto simp: face_top_def in_chunk_def)
      ultimately have "Node x 31 z kMaxLight \<in> set (entering_sky pass nb)" by (intro entering_topI)
      then show ?thesis using g(2) by (simp add: enters_def)
    qed
    show ?thesis
      unfolding dominates_def using every_voxel full_sky_down [OF pass g(1) top] by metis
  qed
  ultimately show ?thesis by (simp add: lit_by_def)
qed

lemma relight_is_relit:
  assumes "chunk_inv c"
  shows "relit e nb c (relight_chunk e nb c)"
proof -
  let ?pass = "\<lambda>i. pass_of e (ps_get (ch_blocks c) i)" and ?emit = "\<lambda>i. emit_of e (ps_get (ch_blocks c) i)"
  have flood: "relit e nb c (flood_light ?pass ?emit nb c)"
  proof -
    obtain sky q where s: "sky_seeds ?pass nb = (sky, q)" by fastforce
    obtain blk r where b: "block_seeds ?emit = (blk, r)" by fastforce
    have "lit_by sky_step ?pass (entering_sky ?pass nb) (flood_loop sky_step ?pass q sky)"
      using sky_seeds_seeded [of ?pass nb] s nodes_entering by (intro sky.flood_seeds) auto
    moreover have "lit_by block_step ?pass (emitted ?emit) (flood_loop block_step ?pass r blk)"
      using block_seeds_seeded [of ?emit] b nodes_emitted by (intro blk.flood_seeds) auto
    ultimately show ?thesis unfolding relit_def flood_light_def s b Let_def split by blast
  qed
  show ?thesis
  proof (cases "uniform_value (ch_blocks c)")
    case (Some only)
    then have same: "ps_get (ch_blocks c) i = only" if "i < kChunkVolume" for i
      using that assms by (simp add: chunk_inv_def uniform_value_iff)
    consider "pass_of e only = 0" | "pass_of e only = kMaxLight" "emit_of e only = 0" "full_sky_from_above nb"
      | "relight_chunk e nb c = flood_light ?pass ?emit nb c"
      unfolding relight_chunk_def Some Let_def option.case by metis
    then show ?thesis
    proof cases
      case 1
      then have "relight_chunk e nb c = write_back (\<lambda>_. 0) (\<lambda>_. emit_of e only) c"
        by (simp add: relight_chunk_def Some Let_def)
      moreover have "lit_by sky_step ?pass (entering_sky ?pass nb) (\<lambda>_. 0)"
        "lit_by block_step ?pass (emitted ?emit) (\<lambda>_. emit_of e only)"
        using same 1 by (auto intro!: opaque_sky opaque_block)
      ultimately show ?thesis unfolding relit_def by blast
    next
      case 2
      then have "relight_chunk e nb c = write_back (\<lambda>_. kMaxLight) (\<lambda>_. 0) c"
        by (simp add: relight_chunk_def Some Let_def kMaxLight_def)
      moreover have "lit_by sky_step ?pass (entering_sky ?pass nb) (\<lambda>_. kMaxLight)"
        "lit_by block_step ?pass (emitted ?emit) (\<lambda>_. 0)"
        using same 2 by (auto intro!: open_sky dark_block)
      ultimately show ?thesis unfolding relit_def by blast
    qed (simp add: flood)
  qed (simp add: relight_chunk_def flood)
qed

section \<open>What a relight leaves alone\<close>

lemma write_back_simps [simp]:
  "ch_coord (write_back sky blk c) = ch_coord c" "ch_blocks (write_back sky blk c) = ch_blocks c"
  "ch_revision (write_back sky blk c) = ch_revision c" "ch_gen_state (write_back sky blk c) = ch_gen_state c"
  "length (ch_light (write_back sky blk c)) = kChunkVolume"
  by (simp_all add: write_back_def)

lemma relit_unique:
  assumes "relit e nb c a" and "relit e nb c b"
  shows "ch_light a = ch_light b"
proof -
  let ?pass = "\<lambda>i. pass_of e (ps_get (ch_blocks c) i)" and ?emit = "\<lambda>i. emit_of e (ps_get (ch_blocks c) i)"
  from assms obtain s1 b1 s2 b2 where
    "lit_by sky_step ?pass (entering_sky ?pass nb) s1" "lit_by block_step ?pass (emitted ?emit) b1" "a = write_back s1 b1 c"
    "lit_by sky_step ?pass (entering_sky ?pass nb) s2" "lit_by block_step ?pass (emitted ?emit) b2" "b = write_back s2 b2 c"
    unfolding relit_def by blast
  then show ?thesis
    using lit_by_unique [of sky_step ?pass _ s1 s2] lit_by_unique [of block_step ?pass _ b1 b2]
    by (simp add: write_back_def cong: map_cong)
qed

lemma relight_keeps:
  "ch_coord (relight_chunk e nb c) = ch_coord c" "ch_blocks (relight_chunk e nb c) = ch_blocks c"
  "ch_revision (relight_chunk e nb c) = ch_revision c" "ch_gen_state (relight_chunk e nb c) = ch_gen_state c"
  "length (ch_light (relight_chunk e nb c)) = kChunkVolume"
  by (simp_all add: relight_chunk_def flood_light_def Let_def case_prod_unfold split: option.split)

lemma relight_inv: "chunk_inv c \<Longrightarrow> chunk_inv (relight_chunk e nb c)"
  by (simp add: chunk_inv_def relight_keeps)

text \<open>The bytes it writes are the two levels of the voxel, whatever light was there before.\<close>

lemma sky_at_most_15:
  assumes "lit_by sky_step pass (entering_sky pass nb) sky" and "i < kChunkVolume"
    and "\<And>i. pass i \<in> {0, 13, 15}"
  shows "sky i \<le> 15"
proof -
  have step: "sky_step dy l p = Some b \<Longrightarrow> l \<le> 15 \<Longrightarrow> p \<in> {0, 13, 15} \<Longrightarrow> b \<le> 15" for dy l p b
    by (auto simp: sky_step_def Let_def kMaxLight_def word_le_nat_alt unat_sub split: if_splits)
  have low: "sky_of c x y z \<le> 15" for c x y z
    using light_sky_bound by (simp add: sky_of_def)
  have "spread sky_step pass (\<lambda>_. 15)"
    using step [OF _ order_refl assms(3)] by (auto simp: spread_def settled_def reaches_def split: option.split)
  moreover have "enters (entering_sky pass nb) (\<lambda>_. 15)"
    unfolding enters_def
  proof (intro allI impI)
    fix x y z l assume n: "Node x y z l \<in> set (entering_sky pass nb)"
    from entering_skyD(2) [OF n] show "l \<le> 15"
    proof (elim disjE exE)
      assume "top_level pass (nb_above nb) (x, y, z) = Some l"
      then show ?thesis
        using step [OF _ low assms(3)] by (auto simp: top_level_def kMaxLight_def split: option.splits if_splits)
    next
      fix c t na assume "side_level pass c t na (x, y, z) = Some l"
      then show ?thesis unfolding side_level_def split using step low assms(3) by blast
    qed
  qed
  ultimately have "dominates (\<lambda>_. 15) sky" using assms(1) unfolding lit_by_def by blast
  then show ?thesis using assms(2) by (simp add: dominates_def)
qed

lemma write_back_levels:
  "i < kChunkVolume \<Longrightarrow> light_sky (ch_light (write_back sky blk c) ! i) = sky i AND 15"
  "i < kChunkVolume \<Longrightarrow> light_block (ch_light (write_back sky blk c) ! i) = blk i AND 15"
  by (simp_all add: write_back_def light_nibbles)

end
