(* ===== verification/Light_Column.thy ===== *)
theory Light_Column
  imports Lighting
begin

text \<open>
  \<open>relight_column\<close> of \<open>world/lighting.hpp\<close>: relight a chunk with its real neighbours, then every
  chunk loaded below it, then the columns beside whose light may have changed. The callback only
  reports, so it is the list of reports: the coordinate, the light before and the chunk after. The
  code computes \<open>cur.y - 1\<close> in a signed 32-bit integer; at the least one, where that is undefined,
  the column ends.
\<close>

type_synonym chunk_map = "chunk_coord \<rightharpoonup> chunk"
type_synonym relit_event = "chunk_coord \<times> u8 list \<times> chunk"

definition offset_coord :: "chunk_coord \<Rightarrow> i32 \<Rightarrow> i32 \<Rightarrow> i32 \<Rightarrow> chunk_coord" where
  "offset_coord c dx dy dz = \<lparr>cc_x = cc_x c + dx, cc_y = cc_y c + dy, cc_z = cc_z c + dz\<rparr>"

definition bump_revision :: "chunk \<Rightarrow> chunk" where
  "bump_revision c = c\<lparr>ch_revision := ch_revision c + 1\<rparr>"

definition neighbours_at :: "chunk option \<Rightarrow> chunk_coord \<Rightarrow> chunk_map \<Rightarrow> neighbours" where
  "neighbours_at over cur chunks = \<lparr>nb_above = over,
     nb_north = chunks (offset_coord cur 0 0 1), nb_south = chunks (offset_coord cur 0 0 (-1)),
     nb_east = chunks (offset_coord cur 1 0 0), nb_west = chunks (offset_coord cur (-1) 0 0)\<rparr>"

text \<open>Which horizontal neighbours a change may reach.\<close>

record pushes =
  pu_east :: bool
  pu_west :: bool
  pu_north :: bool
  pu_south :: bool

definition no_pushes :: pushes where
  "no_pushes = \<lparr>pu_east = False, pu_west = False, pu_north = False, pu_south = False\<rparr>"

definition add_pushes :: "neighbours \<Rightarrow> pushes \<Rightarrow> pushes" where
  "add_pushes n p = \<lparr>pu_east = pu_east p \<or> nb_east n \<noteq> None, pu_west = pu_west p \<or> nb_west n \<noteq> None,
     pu_north = pu_north p \<or> nb_north n \<noteq> None, pu_south = pu_south p \<or> nb_south n \<noteq> None\<rparr>"

definition relight_one :: "light_engine \<Rightarrow> neighbours \<Rightarrow> chunk \<Rightarrow> bool \<times> chunk" where
  "relight_one e n c = (
     let c' = relight_chunk e n c;
         changed = ch_light c' \<noteq> ch_light c in
     (changed, if changed then bump_revision c' else c'))"

lemma sint_below:
  fixes y :: i32
  assumes "sint y \<noteq> - (2 ^ 31)"
  shows "sint (y + -1) = sint y - 1" and "- (2 ^ 31) < sint y"
proof -
  have "- (2 ^ 31) \<le> sint y" using sint_greater_eq [of y] by simp
  with assms show low: "- (2 ^ 31) < sint y" by simp
  have "sint (y + -1) = signed_take_bit 31 (sint y - 1)"
    using sint_word_ariths(1) [of y "-1"] by simp
  also have "\<dots> = sint y - 1"
    using low sint_less [of y] by (intro signed_take_bit_int_eq_self) simp_all
  finally show "sint (y + -1) = sint y - 1" .
qed

function column_loop :: "light_engine \<Rightarrow> chunk option \<Rightarrow> chunk_coord \<Rightarrow> chunk \<Rightarrow> chunk_map \<Rightarrow> pushes \<Rightarrow>
    pushes \<times> chunk_map \<times> relit_event list" where
  "column_loop e over cur c chunks p = (
     let n = neighbours_at over cur chunks;
         (changed, c') = relight_one e n c;
         p = (if changed then add_pushes n p else p);
         chunks = chunks(cur \<mapsto> c');
         below = offset_coord cur 0 (-1) 0 in
     if sint (cc_y cur) = - (2 ^ 31) then (p, chunks, [(cur, ch_light c, c')])
     else case chunks below of
         None \<Rightarrow> (p, chunks, [(cur, ch_light c, c')])
       | Some b \<Rightarrow>
           let (p, chunks, evs) = column_loop e (Some c') below b chunks p in
           (p, chunks, (cur, ch_light c, c') # evs))"
  by pat_completeness auto
termination
proof (relation "measure (\<lambda>(e, over, cur, c, chunks, p). nat (sint (cc_y cur) + 2 ^ 31))", goal_cases)
  case (2 e over cur)
  then show ?case using sint_below [of "cc_y cur"] by (simp add: offset_coord_def)
qed simp

definition relight_stack :: "light_engine \<Rightarrow> chunk_coord \<Rightarrow> chunk_map \<Rightarrow> pushes \<times> chunk_map \<times> relit_event list" where
  "relight_stack e coord chunks = (case chunks coord of
       None \<Rightarrow> (no_pushes, chunks, [])
     | Some c \<Rightarrow> column_loop e (chunks (offset_coord coord 0 1 0)) coord c chunks no_pushes)"

text \<open>A pushed column does not push further.\<close>

definition push_one :: "light_engine \<Rightarrow> bool \<Rightarrow> chunk_coord \<Rightarrow> chunk_map \<times> relit_event list \<Rightarrow>
    chunk_map \<times> relit_event list" where
  "push_one e flag coord acc = (
     if \<not> flag then acc
     else let (_, chunks, evs) = relight_stack e coord (fst acc) in (chunks, snd acc @ evs))"

definition relight_column :: "light_engine \<Rightarrow> chunk_coord \<Rightarrow> chunk_map \<Rightarrow> chunk_map \<times> relit_event list" where
  "relight_column e coord chunks = (
     let (p, chunks, evs) = relight_stack e coord chunks;
         acc = (chunks, evs);
         acc = push_one e (pu_east p) (offset_coord coord 1 0 0) acc;
         acc = push_one e (pu_west p) (offset_coord coord (-1) 0 0) acc;
         acc = push_one e (pu_north p) (offset_coord coord 0 0 1) acc in
     push_one e (pu_south p) (offset_coord coord 0 0 (-1)) acc)"

declare column_loop.simps [simp del]

section \<open>What the reports say\<close>

text \<open>A relit chunk keeps all but its light, and has a new revision exactly when its light changed.\<close>

definition relit_from :: "chunk \<Rightarrow> chunk \<Rightarrow> bool" where
  "relit_from c c' \<longleftrightarrow> ch_coord c' = ch_coord c \<and> ch_blocks c' = ch_blocks c \<and> ch_gen_state c' = ch_gen_state c \<and>
     length (ch_light c') = kChunkVolume \<and>
     ch_revision c' = (if ch_light c' = ch_light c then ch_revision c else ch_revision c + 1)"

definition reported :: "chunk_map \<Rightarrow> chunk_map \<Rightarrow> relit_event list \<Rightarrow> bool" where
  "reported cs cs' evs \<longleftrightarrow> distinct (map fst evs) \<and> (\<forall>c. c \<notin> fst ` set evs \<longrightarrow> cs' c = cs c) \<and>
     (\<forall>c before after. (c, before, after) \<in> set evs \<longrightarrow>
        (\<exists>old. cs c = Some old \<and> before = ch_light old \<and> cs' c = Some after \<and> relit_from old after))"

lemma reported_refl: "reported cs cs []"
  by (simp add: reported_def)

lemma reportedD:
  "reported cs cs' evs \<Longrightarrow> (c, before, after) \<in> set evs \<Longrightarrow>
   \<exists>old. cs c = Some old \<and> before = ch_light old \<and> cs' c = Some after \<and> relit_from old after"
  by (simp add: reported_def)

lemma reported_append:
  assumes "reported cs cs1 evs" and "reported cs1 cs2 evs'" and "fst ` set evs \<inter> fst ` set evs' = {}"
  shows "reported cs cs2 (evs @ evs')"
  unfolding reported_def
proof (intro conjI allI impI)
  show "distinct (map fst (evs @ evs'))" using assms by (simp add: reported_def)
next
  fix c assume "c \<notin> fst ` set (evs @ evs')"
  then show "cs2 c = cs c" using assms(1,2) by (simp add: reported_def image_Un)
next
  fix c before after assume "(c, before, after) \<in> set (evs @ evs')"
  then consider "(c, before, after) \<in> set evs" | "(c, before, after) \<in> set evs'" by auto
  then show "\<exists>old. cs c = Some old \<and> before = ch_light old \<and> cs2 c = Some after \<and> relit_from old after"
  proof cases
    case 1
    then have "c \<in> fst ` set evs" by (metis fst_conv imageI)
    then have "c \<notin> fst ` set evs'" using assms(3) by blast
    with reportedD [OF assms(1) 1] assms(2) show ?thesis by (simp add: reported_def)
  next
    case 2
    then have "c \<in> fst ` set evs'" by (metis fst_conv imageI)
    then have "c \<notin> fst ` set evs" using assms(3) by blast
    with reportedD [OF assms(2) 2] assms(1) show ?thesis by (simp add: reported_def)
  qed
qed

lemma relight_one_from: "relit_from c (snd (relight_one e n c))"
proof -
  have "ch_light (relight_chunk e n c) = ch_light c \<Longrightarrow> length (ch_light c) = kChunkVolume"
    using relight_keeps(5) [of e n c] by metis
  then show ?thesis
    by (simp add: relit_from_def relight_one_def relight_keeps bump_revision_def Let_def)
qed

lemma reported_one:
  "chunks cur = Some c \<Longrightarrow> reported chunks (chunks(cur \<mapsto> snd (relight_one e n c)))
     [(cur, ch_light c, snd (relight_one e n c))]"
  by (simp add: reported_def relight_one_from)

definition in_column :: "i32 \<Rightarrow> i32 \<Rightarrow> int \<Rightarrow> relit_event list \<Rightarrow> bool" where
  "in_column x z y evs \<longleftrightarrow> (\<forall>ev \<in> set evs. cc_x (fst ev) = x \<and> cc_z (fst ev) = z \<and> sint (cc_y (fst ev)) \<le> y)"

lemma column_loop_reported:
  assumes "chunks cur = Some c" and "column_loop e over cur c chunks p = (p', chunks', evs)"
  shows "reported chunks chunks' evs \<and> in_column (cc_x cur) (cc_z cur) (sint (cc_y cur)) evs \<and>
    (\<exists>rest. evs = (cur, ch_light c, snd (relight_one e (neighbours_at over cur chunks) c)) # rest)"
  using assms
proof (induction e over cur c chunks p arbitrary: p' chunks' evs rule: column_loop.induct)
  case (1 e over cur c chunks p)
  define n where "n = neighbours_at over cur chunks"
  obtain changed c1 where one: "relight_one e n c = (changed, c1)" by fastforce
  then have c1_def: "c1 = snd (relight_one e n c)" by simp
  define below where "below = offset_coord cur 0 (-1) 0"
  define q where "q = (if changed then add_pushes n p else p)"
  have head: "reported chunks (chunks(cur \<mapsto> c1)) [(cur, ch_light c, c1)]"
    using reported_one [of chunks cur c e n] "1.prems"(1) by (simp only: c1_def simp_thms)
  have unfold: "column_loop e over cur c chunks p =
    (if sint (cc_y cur) = - (2 ^ 31) then (q, chunks(cur \<mapsto> c1), [(cur, ch_light c, c1)])
     else case (chunks(cur \<mapsto> c1)) below of
         None \<Rightarrow> (q, chunks(cur \<mapsto> c1), [(cur, ch_light c, c1)])
       | Some b \<Rightarrow> let (p, chunks, evs) = column_loop e (Some c1) below b (chunks(cur \<mapsto> c1)) q in
           (p, chunks, (cur, ch_light c, c1) # evs))"
    unfolding column_loop.simps [of e over cur c chunks p] Let_def n_def [symmetric] one split
      below_def [symmetric] q_def [symmetric] by (rule refl)
  show ?case
  proof (cases "sint (cc_y cur) = - (2 ^ 31) \<or> (chunks(cur \<mapsto> c1)) below = None")
    case True
    then have "chunks' = chunks(cur \<mapsto> c1)" "evs = [(cur, ch_light c, c1)]"
      using "1.prems"(2) unfolding unfold by (auto split: if_splits)
    with head show ?thesis by (simp add: in_column_def c1_def n_def del: fun_upd_apply)
  next
    case False
    then obtain b where b: "(chunks(cur \<mapsto> c1)) below = Some b" and y: "sint (cc_y cur) \<noteq> - (2 ^ 31)" by auto
    obtain p2 chunks2 evs2 where rec: "column_loop e (Some c1) below b (chunks(cur \<mapsto> c1)) q = (p2, chunks2, evs2)"
      using prod_cases3 by blast
    have out: "chunks' = chunks2" "evs = (cur, ch_light c, c1) # evs2"
      using "1.prems"(2) y b rec unfolding unfold by auto
    from "1.IH" [OF n_def refl one [symmetric] q_def refl below_def y b b rec]
    have rest: "reported (chunks(cur \<mapsto> c1)) chunks2 evs2"
      "in_column (cc_x below) (cc_z below) (sint (cc_y below)) evs2" by blast+
    have below: "cc_x below = cc_x cur" "cc_z below = cc_z cur" "sint (cc_y below) = sint (cc_y cur) - 1"
      using sint_below(1) [OF y] by (simp_all add: below_def offset_coord_def)
    have "cur \<notin> fst ` set evs2" using rest(2) below(3) by (auto simp: in_column_def)
    with reported_append [OF head rest(1)] rest(2) below show ?thesis
      by (auto simp: out in_column_def c1_def n_def)
  qed
qed

lemma relight_stack_reported:
  assumes "relight_stack e coord chunks = (p, chunks', evs)"
  shows "reported chunks chunks' evs" and "in_column (cc_x coord) (cc_z coord) (sint (cc_y coord)) evs"
    and "chunks coord = Some c \<Longrightarrow> \<exists>after rest. evs = (coord, ch_light c, after) # rest"
proof (atomize (full), cases "chunks coord")
  case None
  then show "reported chunks chunks' evs \<and> in_column (cc_x coord) (cc_z coord) (sint (cc_y coord)) evs \<and>
      (chunks coord = Some c \<longrightarrow> (\<exists>after rest. evs = (coord, ch_light c, after) # rest))"
    using assms by (simp add: relight_stack_def in_column_def reported_refl)
next
  case (Some d)
  then have "column_loop e (chunks (offset_coord coord 0 1 0)) coord d chunks no_pushes = (p, chunks', evs)"
    using assms by (simp add: relight_stack_def)
  note loop = column_loop_reported [OF Some this]
  show "reported chunks chunks' evs \<and> in_column (cc_x coord) (cc_z coord) (sint (cc_y coord)) evs \<and>
      (chunks coord = Some c \<longrightarrow> (\<exists>after rest. evs = (coord, ch_light c, after) # rest))"
    using loop Some by fastforce
qed

definition columns :: "relit_event list \<Rightarrow> (i32 \<times> i32) set" where
  "columns evs = (\<lambda>ev. (cc_x (fst ev), cc_z (fst ev))) ` set evs"

lemma columnsI: "ev \<in> set evs \<Longrightarrow> (cc_x (fst ev), cc_z (fst ev)) \<in> columns evs"
  unfolding columns_def by (rule imageI)

lemma push_one_reported:
  assumes "reported cs (fst acc) (snd acc)" and "(cc_x coord, cc_z coord) \<notin> columns (snd acc)"
  shows "reported cs (fst (push_one e flag coord acc)) (snd (push_one e flag coord acc))"
    and "columns (snd (push_one e flag coord acc)) \<subseteq> insert (cc_x coord, cc_z coord) (columns (snd acc))"
    and "\<exists>more. snd (push_one e flag coord acc) = snd acc @ more"
proof (atomize (full), cases flag)
  case True
  obtain p chunks evs where stack: "relight_stack e coord (fst acc) = (p, chunks, evs)"
    using prod_cases3 by blast
  have out: "push_one e flag coord acc = (chunks, snd acc @ evs)"
    using True stack by (simp add: push_one_def)
  have cols: "columns evs \<subseteq> {(cc_x coord, cc_z coord)}"
    using relight_stack_reported(2) [OF stack] by (auto simp: columns_def in_column_def)
  have "fst ` set (snd acc) \<inter> fst ` set evs = {}"
  proof (rule ccontr)
    assume "fst ` set (snd acc) \<inter> fst ` set evs \<noteq> {}"
    then obtain a b where ab: "a \<in> set (snd acc)" "b \<in> set evs" "fst a = fst b" by blast
    have left: "(cc_x (fst a), cc_z (fst a)) \<in> columns (snd acc)" using ab(1) by (rule columnsI)
    have "(cc_x (fst a), cc_z (fst a)) \<in> columns evs" using ab(2) unfolding ab(3) by (rule columnsI)
    then have "(cc_x (fst a), cc_z (fst a)) = (cc_x coord, cc_z coord)" using cols by (rule singletonD [OF subsetD, rotated])
    with left assms(2) show False by (simp only:)
  qed
  with reported_append [OF assms(1) relight_stack_reported(1) [OF stack]] cols
  show "reported cs (fst (push_one e flag coord acc)) (snd (push_one e flag coord acc)) \<and>
    columns (snd (push_one e flag coord acc)) \<subseteq> insert (cc_x coord, cc_z coord) (columns (snd acc)) \<and>
    (\<exists>more. snd (push_one e flag coord acc) = snd acc @ more)"
    by (auto simp: out columns_def)
qed (use assms in \<open>simp add: push_one_def subset_insertI\<close>)

lemma relight_column_reported:
  assumes "relight_column e coord chunks = (chunks', evs)"
  shows "reported chunks chunks' evs"
    and "chunks coord = Some c \<Longrightarrow> \<exists>after rest. evs = (coord, ch_light c, after) # rest"
proof -
  obtain p chunks0 evs0 where stack: "relight_stack e coord chunks = (p, chunks0, evs0)"
    using prod_cases3 by blast
  define a1 where "a1 = push_one e (pu_east p) (offset_coord coord 1 0 0) (chunks0, evs0)"
  define a2 where "a2 = push_one e (pu_west p) (offset_coord coord (-1) 0 0) a1"
  define a3 where "a3 = push_one e (pu_north p) (offset_coord coord 0 0 1) a2"
  define a4 where "a4 = push_one e (pu_south p) (offset_coord coord 0 0 (-1)) a3"
  have out: "(chunks', evs) = a4"
    using assms by (simp add: relight_column_def stack a1_def a2_def a3_def a4_def Let_def)
  let ?c0 = "(cc_x coord, cc_z coord)" and ?c1 = "(cc_x coord + 1, cc_z coord)"
    and ?c2 = "(cc_x coord - 1, cc_z coord)" and ?c3 = "(cc_x coord, cc_z coord + 1)"
    and ?c4 = "(cc_x coord, cc_z coord - 1)"
  have apart: "x + 1 \<noteq> x" "x - 1 \<noteq> x" "x + 1 \<noteq> x - 1" for x :: i32
    by (simp_all add: eq_diff_eq)
  have step: "reported chunks (fst b) (snd b) \<and> columns (snd b) \<subseteq> insert k S \<and> (\<exists>more. snd b = evs0 @ more)"
    if "b = push_one e flag c a" "(cc_x c, cc_z c) = k" "k \<notin> S"
      and a: "reported chunks (fst a) (snd a) \<and> columns (snd a) \<subseteq> S \<and> (\<exists>more. snd a = evs0 @ more)"
    for a b flag c k S
  proof -
    have new: "(cc_x c, cc_z c) \<notin> columns (snd a)" using that by blast
    from a have "reported chunks (fst a) (snd a)" by blast
    note pushed = push_one_reported [OF this new, of e flag, folded that(1)]
    have "columns (snd b) \<subseteq> insert k S" using pushed(2) a unfolding that(2) by blast
    moreover have "\<exists>more. snd b = evs0 @ more" using pushed(3) a by force
    ultimately show ?thesis using pushed(1) by blast
  qed
  have r0: "reported chunks chunks0 evs0 \<and> columns evs0 \<subseteq> {?c0} \<and> (\<exists>more. evs0 = evs0 @ more)"
    using relight_stack_reported(1,2) [OF stack] by (auto simp: columns_def in_column_def)
  note r1 = step [OF a1_def, of ?c1 "{?c0}"] and r2 = step [OF a2_def, of ?c2 "{?c1, ?c0}"]
    and r3 = step [OF a3_def, of ?c3 "{?c2, ?c1, ?c0}"] and r4 = step [OF a4_def, of ?c4 "{?c3, ?c2, ?c1, ?c0}"]
  have "reported chunks (fst a4) (snd a4) \<and> columns (snd a4) \<subseteq> {?c4, ?c3, ?c2, ?c1, ?c0} \<and>
      (\<exists>more. snd a4 = evs0 @ more)"
    by (intro r4 r3 r2 r1) (use r0 apart apart [symmetric] in \<open>auto simp: offset_coord_def\<close>)
  then have r4: "reported chunks (fst a4) (snd a4)" "\<exists>more. snd a4 = evs0 @ more" by blast+
  show "reported chunks chunks' evs" using r4(1) out by (metis fst_conv snd_conv)
  show "\<exists>after rest. evs = (coord, ch_light c, after) # rest" if "chunks coord = Some c"
    using relight_stack_reported(3) [OF stack that] r4(2) out by (metis append_Cons snd_conv)
qed

lemma relight_column_none: "chunks coord = None \<Longrightarrow> relight_column e coord chunks = (chunks, [])"
  by (simp add: relight_column_def relight_stack_def push_one_def no_pushes_def)

lemma relight_column_all:
  "reported chunks (fst (relight_column e coord chunks)) (snd (relight_column e coord chunks)) \<and>
   map fst (take 1 (snd (relight_column e coord chunks))) = (if chunks coord = None then [] else [coord])"
proof (cases "chunks coord")
  case (Some c)
  obtain cs evs where r: "relight_column e coord chunks = (cs, evs)" by fastforce
  from relight_column_reported(1) [OF r] relight_column_reported(2) [OF r Some] show ?thesis by (auto simp: r Some)
qed (simp add: relight_column_none reported_refl)

lemma reported_blocks:
  assumes "reported cs cs' evs"
  shows "map_option ch_blocks (cs' c) = map_option ch_blocks (cs c)"
proof (cases "c \<in> fst ` set evs")
  case True
  then obtain before after where "(c, before, after) \<in> set evs" by force
  from reportedD [OF assms this] show ?thesis by (auto simp: relit_from_def)
qed (use assms in \<open>simp add: reported_def\<close>)

end
