(* ===== verification/Run_Length.thy ===== *)
theory Run_Length
  imports Reader_Safety
begin

text \<open>
  \<open>rle_encode\<close> and \<open>rle_decode\<close> of \<open>world/chunk_codec.cpp\<close>. A run is a varint length and a
  byte. The decoder's value is \<open>None\<close> where \<open>std::vector::insert\<close> throws \<open>std::length_error\<close>,
  which nothing catches.
\<close>

text \<open>The inner \<open>while\<close> counts the bytes that repeat the first.\<close>

function runs_of :: "'a list \<Rightarrow> (nat \<times> 'a) list" where
  "runs_of [] = []"
| "runs_of (x # xs) = (let run = 1 + length (takeWhile (\<lambda>y. y = x) xs) in
     (run, x) # runs_of (drop run (x # xs)))"
  by pat_completeness auto
termination by (relation "measure length") auto

definition write_run :: "nat \<times> u8 \<Rightarrow> writer" where
  "write_run r = do { w_varint (of_nat (fst r)); w_u8 (snd r) }"

definition rle_encode :: "byte list \<Rightarrow> byte list" where
  "rle_encode bs = run_writer (write_each write_run (runs_of bs))"

text \<open>\<open>std::vector<std::byte>::max_size()\<close> is the largest \<open>ptrdiff_t\<close>.\<close>

definition max_vector_bytes :: nat where
  "max_vector_bytes = 2 ^ 63 - 1"

lemma varint_progress:
  assumes "br_err (snd (run_state r_varint s)) = kNone"
  shows "br_pos s < br_pos (snd (run_state r_varint s))"
    and "br_pos (snd (run_state r_varint s)) \<le> length (br_data s)"
    and "br_data (snd (run_state r_varint s)) = br_data s"
proof -
  let ?b = "br_data s ! br_pos s" and ?s = "s\<lparr>br_pos := br_pos s + 1\<rparr>"
  let ?acc = "0 OR push_bit 0 (ucast (?b AND 0x7F))"
  note run = run_varint_loop [of 0 0 s]
  from assms have ok: "br_err s = kNone" "\<not> length (br_data s) - br_pos s < 1"
    by (auto simp: r_varint_def run split: if_splits)
  obtain v t where t: "run_state (r_varint_loop 7 ?acc) ?s = (v, t)" by fastforce
  have "br_pos ?s \<le> length (br_data ?s)" using ok by simp
  from in_boundsD [OF reader_okD(1) [OF varint_loop_reader_ok] this t]
  have "br_data t = br_data s" "br_pos s < br_pos t" "br_pos t \<le> length (br_data s)" by simp_all
  with run ok t have *: "br_pos s < br_pos (snd (run_state r_varint s)) \<and>
    br_pos (snd (run_state r_varint s)) \<le> length (br_data s) \<and>
    br_data (snd (run_state r_varint s)) = br_data s"
    by (auto simp: r_varint_def Let_def split: if_splits)
  then show "br_pos s < br_pos (snd (run_state r_varint s))"
    and "br_pos (snd (run_state r_varint s)) \<le> length (br_data s)"
    and "br_data (snd (run_state r_varint s)) = br_data s" by simp_all
qed

text \<open>A pair of reads that did not fail moved the position forward, within the data.\<close>

lemma u8_progress:
  assumes "br_err (snd (run_state r_u8 s)) = kNone" and "br_pos s \<le> length (br_data s)"
  shows "br_err s = kNone" and "br_pos (snd (run_state r_u8 s)) = br_pos s + 1"
    and "br_pos s < length (br_data s)" and "br_data (snd (run_state r_u8 s)) = br_data s"
  using assms by (auto simp: run_u8 split: if_splits)

lemma varint_failed: "br_err s \<noteq> kNone \<Longrightarrow> br_err (snd (run_state r_varint s)) \<noteq> kNone"
  using stickyD(1) [OF reader_okD(2) [OF reader_ok_varint], of s] by simp

lemma varint_in_data: "br_pos s \<le> length (br_data s) \<Longrightarrow>
    br_pos (snd (run_state r_varint s)) \<le> length (br_data (snd (run_state r_varint s))) \<and>
    br_data (snd (run_state r_varint s)) = br_data s"
  using in_boundsD [OF reader_okD(1) [OF reader_ok_varint], of s] by (metis prod.collapse)

text \<open>
  The decoder's loop. \<open>out.size() + run > expected_size\<close> is evaluated in 64 bits; the insert
  that follows needs \<open>run\<close> elements of room.
\<close>

function rle_loop :: "nat \<Rightarrow> byte list \<Rightarrow> byte_reader \<Rightarrow>
    ((protocol_error + byte list) \<times> byte_reader) option" where
  "rle_loop expected out r =
     (if br_pos r \<ge> length (br_data r) \<or> br_err r \<noteq> kNone then Some (Inr out, r)
      else
        let (run, r1) = run_state r_varint r;
            (value, r2) = run_state r_u8 r1 in
        if br_err r2 \<noteq> kNone then Some (Inr out, r2)
        else if (of_nat (length out) + run :: u64) > of_nat expected then Some (Inl kLengthExceeded, r2)
        else if unat run > max_vector_bytes - length out then None
        else rle_loop expected (out @ replicate (unat run) value) r2)"
  by pat_completeness auto

termination
proof (relation "measure (\<lambda>(expected, out, r). length (br_data r) - br_pos r)", simp)
  fix expected :: nat and out :: "byte list" and r run r1 "value" r2 x y
  assume a: "\<not> (br_pos r \<ge> length (br_data r) \<or> br_err r \<noteq> kNone)"
    and x: "x = run_state r_varint r" "(run, r1) = x"
    and y: "y = run_state r_u8 r1" "(value, r2) = y" and ok: "\<not> br_err r2 \<noteq> kNone"
  from x y have r: "r1 = snd (run_state r_varint r)" "r2 = snd (run_state r_u8 r1)"
    by (metis snd_conv)+
  from a have pos: "br_pos r \<le> length (br_data r)" by simp
  have r1: "br_pos r1 \<le> length (br_data r1)" "br_data r1 = br_data r"
    using varint_in_data [OF pos] r by metis+
  note u = u8_progress [of r1, OF _ r1(1)]
  have "br_pos r < br_pos r1" using varint_progress(1) [of r] u(1) ok r by simp
  with u(2-4) ok r r1 show "((expected, out @ replicate (unat run) value, r2), expected, out, r)
      \<in> measure (\<lambda>(expected, out, r). length (br_data r) - br_pos r)"
    by simp
qed

declare rle_loop.simps [simp del]

definition rle_decode :: "byte list \<Rightarrow> nat \<Rightarrow> (protocol_error + byte list) option" where
  "rle_decode bs expected = (case rle_loop expected [] (reader_on bs) of
     None \<Rightarrow> None
   | Some (Inl e, r) \<Rightarrow> Some (Inl e)
   | Some (Inr out, r) \<Rightarrow>
       Some (if br_err r \<noteq> kNone then Inl (br_err r)
             else if length out \<noteq> expected then Inl kMalformed else Inr out))"

section \<open>Runs\<close>

definition expand :: "(nat \<times> 'a) list \<Rightarrow> 'a list" where
  "expand rs = concat (map (\<lambda>(n, x). replicate n x) rs)"

lemma expand_simps [simp]: "expand [] = []" "expand ((n, x) # rs) = replicate n x @ expand rs"
  by (simp_all add: expand_def)

lemma takeWhile_replicate: "takeWhile (\<lambda>y. y = x) xs = replicate (length (takeWhile (\<lambda>y. y = x) xs)) x"
  by (induction xs) simp_all

lemma expand_runs [simp]: "expand (runs_of xs) = xs"
proof (induction xs rule: runs_of.induct)
  case (2 x xs)
  have "replicate (length (takeWhile (\<lambda>y. y = x) xs)) x @ drop (length (takeWhile (\<lambda>y. y = x) xs)) xs = xs"
    by (metis dropWhile_eq_drop takeWhile_dropWhile_id takeWhile_replicate)
  with 2 show ?case by (simp add: Let_def)
qed simp

lemma runs_positive: "\<forall>(n, x) \<in> set (runs_of xs). 0 < n"
  by (induction xs rule: runs_of.induct) (auto simp: Let_def)

text \<open>Neighbouring runs differ: the encoder's runs are maximal.\<close>

lemma hd_runs_of: "xs \<noteq> [] \<Longrightarrow> runs_of xs \<noteq> [] \<and> snd (hd (runs_of xs)) = hd xs"
  by (cases xs) (simp_all add: Let_def)

lemma runs_maximal: "Suc i < length (runs_of xs) \<Longrightarrow> snd (runs_of xs ! i) \<noteq> snd (runs_of xs ! Suc i)"
proof (induction xs arbitrary: i rule: runs_of.induct)
  case (2 x xs)
  let ?k = "length (takeWhile (\<lambda>y. y = x) xs)"
  have run: "runs_of (x # xs) = (1 + ?k, x) # runs_of (drop ?k xs)" by (simp add: Let_def)
  show ?case
  proof (cases i)
    case 0
    with 2 run have ne: "drop ?k xs \<noteq> []" by (metis Suc_lessD Suc_less_eq length_Cons less_nat_zero_code list.size(3) runs_of.simps(1))
    then have "hd (drop ?k xs) \<noteq> x"
      by (metis (mono_tags) dropWhile_eq_drop hd_dropWhile)
    with hd_runs_of [OF ne] run 0 show ?thesis by (auto simp: hd_conv_nth)
  next
    case (Suc j)
    with 2 run show ?thesis by simp
  qed
qed simp

section \<open>Round trip and safety\<close>

lemma appends_run [simp]: "appends (write_run r)"
  by (simp add: write_run_def)

lemma rle_loop_encoded:
  assumes "length out + length (expand rs) = expected" and "expected \<le> max_vector_bytes"
    and "\<forall>(n, x) \<in> set rs. 0 < n"
  shows "rle_loop expected out (ok_at (pre @ run_writer (write_each write_run rs)) (length pre)) =
    Some (Inr (out @ expand rs),
      ok_at (pre @ run_writer (write_each write_run rs)) (length (pre @ run_writer (write_each write_run rs))))"
  using assms
proof (induction rs arbitrary: out pre)
  case Nil
  then show ?case by (simp add: rle_loop.simps)
next
  case (Cons nx rs)
  obtain n x where nx: "nx = (n, x)" by fastforce
  let ?v = "run_writer (w_varint (of_nat n))" and ?b = "run_writer (w_u8 x)"
  let ?rest = "run_writer (write_each write_run rs)"
  let ?D = "pre @ ?v @ ?b @ ?rest"
  have D: "pre @ run_writer (write_each write_run (nx # rs)) = ?D"
    by (simp add: nx write_run_def)
  have lt: "length out + n \<le> expected" "expected < 2 ^ 63"
    using Cons.prems nx by (simp_all add: max_vector_bytes_def)
  have v: "run_state r_varint (ok_at ?D (length pre)) = (of_nat n, ok_at ?D (length pre + length ?v))"
    by (rule readsD [OF reads_varint])
  have b: "run_state r_u8 (ok_at ?D (length pre + length ?v)) =
      (x, ok_at ?D (length (pre @ ?v @ ?b)))"
    using readsD [OF reads_u8 [of x], of "pre @ ?v" ?rest] by simp
  have len: "length ?b = 1" by (simp add: run_writer_u8)
  have n: "unat (of_nat n :: u64) = n" using lt by simp
  have "(of_nat (length out) + of_nat n :: u64) \<le> of_nat expected"
    using lt by (simp add: of_nat_add [symmetric] of_nat_le_u64 del: of_nat_add)
  moreover have room: "\<not> max_vector_bytes - length out < n" using lt(1) Cons.prems(2) by simp
  ultimately have guard: "\<not> of_nat expected < (of_nat (length out) + of_nat n :: u64)" by simp
  have "rle_loop expected out (ok_at ?D (length pre)) =
      rle_loop expected (out @ replicate n x) (ok_at ?D (length (pre @ ?v @ ?b)))"
    using guard room len by (subst rle_loop.simps) (simp add: v b n)
  also have "\<dots> = Some (Inr ((out @ replicate n x) @ expand rs), ok_at ?D (length ?D))"
    using Cons.IH [of "out @ replicate n x" "pre @ ?v @ ?b"] Cons.prems nx by simp
  finally show ?case unfolding D by (simp add: nx)
qed

theorem rle_roundtrip:
  assumes "length bs \<le> max_vector_bytes"
  shows "rle_decode (rle_encode bs) (length bs) = Some (Inr bs)"
proof -
  have "rle_loop (length bs) [] (reader_on (rle_encode bs)) =
      Some (Inr bs, ok_at (rle_encode bs) (length (rle_encode bs)))"
    using rle_loop_encoded [of "[]" "runs_of bs" "length bs" "[]"] assms runs_positive [of bs]
    by (simp add: rle_encode_def reader_on_ok_at)
  then show ?thesis by (simp add: rle_decode_def)
qed

lemma rle_decode_length: "rle_decode bs n = Some (Inr out) \<Longrightarrow> length out = n"
  by (auto simp: rle_decode_def split: option.splits sum.splits if_splits)

text \<open>
  The guard's addition wraps: a first run of one byte and a second run of \<open>2 ^ 64 - 1\<close> pass it
  and reach the insert.
\<close>

definition wrapping_rle :: "byte list" where
  "wrapping_rle = run_writer (do { w_varint 1; w_u8 0; w_varint (- 1); w_u8 0 })"

lemma rle_wraps:
  assumes "1 \<le> expected" and "expected < 2 ^ 63"
  shows "rle_decode wrapping_rle expected = None"
proof -
  let ?a = "run_writer (w_varint 1)" and ?z = "run_writer (w_u8 0)" and ?w = "run_writer (w_varint (- 1))"
  let ?D = "?a @ ?z @ ?w @ ?z"
  have D: "wrapping_rle = ?D" by (simp add: wrapping_rle_def)
  have 1: "run_state r_varint (ok_at ?D 0) = (1, ok_at ?D (length ?a))"
    using readsD [OF reads_varint [of 1], of "[]" "?z @ ?w @ ?z"] by simp
  have 2: "run_state r_u8 (ok_at ?D (length ?a)) = (0, ok_at ?D (length (?a @ ?z)))"
    using readsD [OF reads_u8 [of 0], of ?a "?w @ ?z"] by simp
  have 3: "run_state r_varint (ok_at ?D (length (?a @ ?z))) = (- 1, ok_at ?D (length (?a @ ?z @ ?w)))"
    using readsD [OF reads_varint [of "- 1"], of "?a @ ?z" ?z] by simp
  have 4: "run_state r_u8 (ok_at ?D (length (?a @ ?z @ ?w))) = (0, ok_at ?D (length ?D))"
    using readsD [OF reads_u8 [of 0], of "?a @ ?z @ ?w" "[]"] by simp
  have u: "unat (1 :: u64) = 1" "unat (- 1 :: u64) = 2 ^ 64 - 1"
    by (simp_all add: unsigned_minus_1_eq_mask mask_eq_exp_minus_1)
  have len: "length ?z = 1" by (simp add: run_writer_u8)
  have "(of_nat 1 :: u64) \<le> of_nat expected"
    using assms by (intro of_nat_le_u64) simp_all
  then have g: "(of_nat expected :: u64) \<noteq> 0" by auto
  have "rle_loop expected [] (ok_at ?D 0) = rle_loop expected [0] (ok_at ?D (length (?a @ ?z)))"
    using g len by (subst rle_loop.simps) (simp add: 1 2 u max_vector_bytes_def)
  also have "\<dots> = None"
    by (subst rle_loop.simps) (use 3 4 u len in \<open>simp add: max_vector_bytes_def\<close>)
  finally show ?thesis by (simp add: rle_decode_def D reader_on_ok_at)
qed

end
