(* ===== verification/Chunk_Codec.thy ===== *)
theory Chunk_Codec
  imports Run_Length Chunk_Model
begin

text \<open>
  \<open>encode_chunk_payload\<close> and \<open>decode_chunk_payload\<close> of \<open>world/chunk_codec.cpp\<close>: palette, runs
  of palette indices over the linear voxel order, run-length coded light. \<open>None\<close> stands for a
  store past the end of the voxel array or an uncaught exception: the guard's
  \<open>written + run > kChunkVolume\<close> is a 64-bit addition. Otherwise the value is the error, if
  any, and the \<open>Chunk &out\<close> argument as the call leaves it.
\<close>

definition index_in :: "block_id list \<Rightarrow> block_id \<Rightarrow> nat" where
  "index_in palette block = (case find_block palette block of Some i \<Rightarrow> i | None \<Rightarrow> 0)"

definition block_indices :: "paletted_store \<Rightarrow> nat list" where
  "block_indices st = map (\<lambda>i. index_in (ps_palette st) (ps_get st i)) [0..<kChunkVolume]"

definition write_index_run :: "nat \<times> nat \<Rightarrow> writer" where
  "write_index_run r = do { w_varint (of_nat (fst r)); w_varint (of_nat (snd r)) }"

definition encode_chunk_payload :: "chunk \<Rightarrow> byte list" where
  "encode_chunk_payload c = (let palette = ps_palette (ch_blocks c) in run_writer (do {
     w_varint (of_nat (length palette));
     write_each w_u16 palette;
     write_each write_index_run (runs_of (block_indices (ch_blocks c)));
     w_varint (of_nat (length (rle_encode (ch_light c))));
     w_bytes (rle_encode (ch_light c)) }))"

text \<open>The palette loop has no test of \<open>r.failed()\<close>: the check follows it.\<close>

primrec read_all :: "nat \<Rightarrow> 'a reader \<Rightarrow> 'a list reader" where
  "read_all 0 p = State_Monad.return []"
| "read_all (Suc n) p = do { x \<leftarrow> p; xs \<leftarrow> read_all n p; State_Monad.return (x # xs) }"

definition set_run :: "u64 \<Rightarrow> u64 \<Rightarrow> block_id \<Rightarrow> paletted_store \<Rightarrow> paletted_store" where
  "set_run written run b st =
     fold (\<lambda>k s. snd (ps_set k b s)) [unat written..<unat written + unat run] st"

function blocks_loop :: "block_id list \<Rightarrow> u64 \<Rightarrow> paletted_store \<Rightarrow> byte_reader \<Rightarrow>
    ((protocol_error + u64) \<times> paletted_store \<times> byte_reader) option" where
  "blocks_loop palette written st r =
     (if unat written \<ge> kChunkVolume \<or> br_err r \<noteq> kNone then Some (Inr written, st, r)
      else
        let (run, r1) = run_state r_varint r;
            (idx, r2) = run_state r_varint r1 in
        if br_err r2 \<noteq> kNone then Some (Inr written, st, r2)
        else if unat idx \<ge> length palette \<or> unat (written + run) > kChunkVolume
        then Some (Inl kMalformed, st, r2)
        else if idx \<noteq> 0 \<and> unat written + unat run > kChunkVolume then None
        else blocks_loop palette (written + run)
          (if idx \<noteq> 0 then set_run written run (palette ! unat idx) st else st) r2)"
  by pat_completeness auto

termination
proof (relation "measure (\<lambda>(palette, written, st, r). length (br_data r) - br_pos r)", simp)
  fix palette and written :: u64 and st :: paletted_store and r run r1 idx r2 x y
  assume a: "\<not> (unat written \<ge> kChunkVolume \<or> br_err r \<noteq> kNone)"
    and x: "x = run_state r_varint r" "(run, r1) = x"
    and y: "y = run_state r_varint r1" "(idx, r2) = y" and ok: "\<not> br_err r2 \<noteq> kNone"
  from x y have r: "r1 = snd (run_state r_varint r)" "r2 = snd (run_state r_varint r1)"
    by (metis snd_conv)+
  have ok1: "br_err r1 = kNone" using ok r varint_failed [of r1] by auto
  show "((palette, written + run, if idx \<noteq> 0 then set_run written run (palette ! unat idx) st else st, r2),
      palette, written, st, r)
      \<in> measure (\<lambda>(palette, written, st, r). length (br_data r) - br_pos r)"
    using varint_progress [of r] varint_progress [of r1] ok ok1 r by simp
qed

declare blocks_loop.simps [simp del]

definition decode_chunk_payload :: "byte list \<Rightarrow> chunk \<Rightarrow> (protocol_error option \<times> chunk) option" where
  "decode_chunk_payload payload out = (
     let (palette_len, r1) = run_state r_varint (reader_on payload) in
     if br_err r1 \<noteq> kNone \<or> palette_len = 0 \<or> unat palette_len > 65536 then Some (Some kMalformed, out)
     else
     let (palette, r2) = run_state (read_all (unat palette_len) r_u16) r1 in
     if br_err r2 \<noteq> kNone then Some (Some (br_err r2), out)
     else
     case blocks_loop palette 0 (ps_fill (palette ! 0) (ch_blocks out)) r2 of
       None \<Rightarrow> None
     | Some (res, store, r3) \<Rightarrow>
         let out = out\<lparr>ch_blocks := store\<rparr> in
         (case res of
           Inl e \<Rightarrow> Some (Some e, out)
         | Inr written \<Rightarrow>
             if br_err r3 \<noteq> kNone then Some (Some (br_err r3), out)
             else if unat written \<noteq> kChunkVolume then Some (Some kMalformed, out)
             else
             let (light_len, r4) = run_state r_varint r3 in
             if br_err r4 \<noteq> kNone then Some (Some (br_err r4), out)
             else
             let (light_rle, r5) = run_state (r_bytes (unat light_len)) r4 in
             if br_err r5 \<noteq> kNone then Some (Some (br_err r5), out)
             else
             (case rle_decode light_rle kChunkVolume of
               None \<Rightarrow> None
             | Some (Inl e) \<Rightarrow> Some (Some e, out)
             | Some (Inr light) \<Rightarrow>
                 let out = out\<lparr>ch_light := light\<rparr>;
                     (_, r6) = run_state r_expect_consumed r5 in
                 Some (if br_err r6 \<noteq> kNone then Some (br_err r6) else None, out))))"

section \<open>Lookup in the palette\<close>

lemma index_in_palette:
  "b \<in> set palette \<Longrightarrow> index_in palette b < length palette \<and> palette ! index_in palette b = b"
  using find_block_Some [of palette b] find_block_None [of palette b]
  by (auto simp: index_in_def split: option.split)

lemma block_indices_nth:
  assumes "store_inv st" and "i < kChunkVolume"
  shows "block_indices st ! i < length (ps_palette st)"
    and "ps_palette st ! (block_indices st ! i) = ps_get st i"
proof -
  have "ps_get st i \<in> set (ps_palette st)" using get_raw [OF assms] by simp
  from index_in_palette [OF this] assms(2)
  show "block_indices st ! i < length (ps_palette st)"
    and "ps_palette st ! (block_indices st ! i) = ps_get st i"
    by (simp_all add: block_indices_def)
qed

lemma length_block_indices [simp]: "length (block_indices st) = kChunkVolume"
  by (simp add: block_indices_def)

section \<open>Round trip\<close>

lemma appends_index_run [simp]: "appends (write_index_run r)"
  by (simp add: write_index_run_def)

lemma run_index_run: "run_writer (write_index_run (n, x)) =
    run_writer (w_varint (of_nat n)) @ run_writer (w_varint (of_nat x))"
  by (simp add: write_index_run_def)

lemma reads_all:
  assumes "n = length xs" and "\<And>x. appends (f x)" and "\<And>x. reads p (run_writer (f x)) x"
  shows "reads (read_all n p) (run_writer (write_each f xs)) xs"
  using assms(1)
proof (induction xs arbitrary: n)
  case Nil
  then show ?case by (simp add: reads_return)
next
  case (Cons x xs)
  have "reads (do { y \<leftarrow> p; ys \<leftarrow> read_all (length xs) p; State_Monad.return (y # ys) })
      (run_writer (f x) @ run_writer (write_each f xs)) (x # xs)"
    by (rule reads_bind [OF assms(3)]) (rule reads_bind_return [OF Cons.IH [OF refl]])
  with Cons.prems show ?case by (simp add: assms(2))
qed

lemma set_run_ok:
  assumes "store_inv st" and "unat written + unat run \<le> kChunkVolume"
  shows "store_inv (set_run written run b st)"
    and "j < kChunkVolume \<Longrightarrow> ps_get (set_run written run b st) j =
      (if unat written \<le> j \<and> j < unat written + unat run then b else ps_get st j)"
  unfolding set_run_def
  using paletted.put_run [OF assms(1), where ks = "[unat written..<unat written + unat run]" and b = b]
    assms(2)
  by auto

lemma blocks_loop_encoded:
  assumes "store_inv st" and "w + length (expand rs) = kChunkVolume"
    and "\<forall>(n, x) \<in> set rs. 0 < n \<and> x < length palette" and "length palette \<le> 65536"
    and "\<forall>j < kChunkVolume. w \<le> j \<longrightarrow> ps_get st j = palette ! 0"
  shows "\<exists>st'. blocks_loop palette (of_nat w) st
      (ok_at (pre @ run_writer (write_each write_index_run rs) @ rest) (length pre)) =
    Some (Inr (of_nat kChunkVolume), st', ok_at (pre @ run_writer (write_each write_index_run rs) @ rest)
      (length (pre @ run_writer (write_each write_index_run rs)))) \<and> store_inv st' \<and>
    (\<forall>j < kChunkVolume. ps_get st' j = (if j < w then ps_get st j else palette ! (expand rs ! (j - w))))"
  using assms(1,2,3,5)
proof (induction rs arbitrary: w st pre)
  case Nil
  then show ?case by (simp add: blocks_loop.simps kChunkVolume_def) 
next
  case (Cons nx rs)
  obtain n x where nx: "nx = (n, x)" by fastforce
  let ?v = "run_writer (w_varint (of_nat n))" and ?x = "run_writer (w_varint (of_nat x))"
  let ?rest = "run_writer (write_each write_index_run rs) @ rest"
  let ?D = "pre @ ?v @ ?x @ ?rest"
  have D: "pre @ run_writer (write_each write_index_run (nx # rs)) @ rest = ?D"
    by (simp add: nx write_index_run_def)
  have n: "0 < n" "w + n \<le> kChunkVolume" "x < length palette" using Cons.prems nx by simp_all
  then have small: "w < 2 ^ 64" "n < 2 ^ 64" "x < 2 ^ 64" "w + n < 2 ^ 64"
    using assms(4) by (simp_all add: kChunkVolume_def)
  have u: "unat (of_nat w :: u64) = w" "unat (of_nat n :: u64) = n" "unat (of_nat x :: u64) = x"
    "unat (of_nat (w + n) :: u64) = w + n"
    using small by (simp_all only: unat_of_nat_u64)
  have v: "run_state r_varint (ok_at ?D (length pre)) = (of_nat n, ok_at ?D (length pre + length ?v))"
    by (rule readsD [OF reads_varint])
  have x: "run_state r_varint (ok_at ?D (length pre + length ?v)) =
      (of_nat x, ok_at ?D (length (pre @ ?v @ ?x)))"
    using readsD [OF reads_varint [of "of_nat x"], of "pre @ ?v" ?rest] by simp
  have x0: "(of_nat x :: u64) = 0 \<longleftrightarrow> x = 0" using u(3) by (metis unsigned_eq_0_iff)
  define st1 where "st1 = (if x \<noteq> 0 then set_run (of_nat w) (of_nat n) (palette ! x) st else st)"
  have step: "blocks_loop palette (of_nat w) st (ok_at ?D (length pre)) =
      blocks_loop palette (of_nat (w + n)) st1 (ok_at ?D (length (pre @ ?v @ ?x)))"
    using n u by (subst blocks_loop.simps) (simp add: v x x0 st1_def)
  have run: "store_inv (set_run (of_nat w) (of_nat n) b st)"
    "\<And>j. j < kChunkVolume \<Longrightarrow> ps_get (set_run (of_nat w) (of_nat n) b st) j =
      (if w \<le> j \<and> j < w + n then b else ps_get st j)" for b
    using set_run_ok [OF Cons.prems(1), of "of_nat w" "of_nat n", where b = b] n(2) u by simp_all
  have st1: "store_inv st1"
    "\<And>j. j < kChunkVolume \<Longrightarrow> ps_get st1 j =
      (if w \<le> j \<and> j < w + n then palette ! x else ps_get st j)"
    using run Cons.prems(1,4) by (auto simp: st1_def)
  have "\<exists>st'. blocks_loop palette (of_nat (w + n)) st1 (ok_at ((pre @ ?v @ ?x) @ ?rest) (length (pre @ ?v @ ?x))) =
      Some (Inr (of_nat kChunkVolume), st', ok_at ((pre @ ?v @ ?x) @ ?rest)
        (length ((pre @ ?v @ ?x) @ run_writer (write_each write_index_run rs)))) \<and> store_inv st' \<and>
      (\<forall>j < kChunkVolume. ps_get st' j =
        (if j < w + n then ps_get st1 j else palette ! (expand rs ! (j - (w + n)))))"
    using Cons.prems st1 nx by (intro Cons.IH) auto
  then obtain st' where st': "blocks_loop palette (of_nat (w + n)) st1 (ok_at ?D (length (pre @ ?v @ ?x))) =
      Some (Inr (of_nat kChunkVolume), st', ok_at ?D
        (length (pre @ ?v @ ?x @ run_writer (write_each write_index_run rs))))"
    "store_inv st'" "\<forall>j < kChunkVolume. ps_get st' j =
        (if j < w + n then ps_get st1 j else palette ! (expand rs ! (j - (w + n))))"
    by auto
  have "\<forall>j < kChunkVolume. ps_get st' j =
      (if j < w then ps_get st j else palette ! (expand (nx # rs) ! (j - w)))"
    using st'(3) st1(2) by (auto simp: nx nth_append)
  with step st'(1,2) show ?case unfolding D by (simp add: nx run_index_run)
qed

lemma length_run_list:
  assumes "\<And>r. length (run_writer (f r)) \<le> k" and "\<And>r. appends (f r)" and "\<forall>(n, x) \<in> set rs. 0 < n"
  shows "length (run_writer (write_each f rs)) \<le> k * length (expand rs)"
  using assms(3)
proof (induction rs)
  case (Cons r rs)
  obtain n x where r: "r = (n, x)" by fastforce
  with Cons.prems have "0 < n" by simp
  then have "k \<le> k * n" by simp
  with assms(1) [of r] have "length (run_writer (f r)) \<le> k * n" by linarith
  with Cons assms(2) show ?case by (auto simp: r algebra_simps)
qed simp

lemma length_rle_encode:
  assumes "length bs = kChunkVolume"
  shows "length (rle_encode bs) \<le> 11 * kChunkVolume"
proof -
  have run: "length (run_writer (write_run r)) \<le> 11" for r
    using length_varint_le_10 [of "of_nat (fst r)"] by (simp add: write_run_def run_writer_u8)
  have "appends (write_run r)" for r by (simp add: write_run_def)
  from length_run_list [OF run this runs_positive [of bs]] assms show ?thesis by (simp add: rle_encode_def)
qed

text \<open>A whole payload: below any cap on its way.\<close>

lemma length_chunk_payload:
  assumes "chunk_inv c"
  shows "length (encode_chunk_payload c) \<le> 1200000"
proof -
  let ?ps = "ps_palette (ch_blocks c)"
  have ps: "length ?ps \<le> 65536" using assms palette_length by (auto simp: chunk_inv_def store_inv_def)
  have light: "length (rle_encode (ch_light c)) \<le> 11 * kChunkVolume"
    using assms by (intro length_rle_encode) (simp add: chunk_inv_def)
  have pal: "length (run_writer (write_each w_u16 xs)) \<le> 2 * length xs" for xs
  proof (induction xs)
    case (Cons x xs)
    have "length (run_writer (w_u16 x)) = 2" by (simp add: w_u16_def run_writer_put_le)
    with Cons show ?case by simp
  qed simp
  have run: "length (run_writer (write_index_run r)) \<le> 20" for r
    using length_varint_le_10 [of "of_nat (fst r)"] length_varint_le_10 [of "of_nat (snd r)"]
    by (cases r) (simp add: write_index_run_def)
  have "appends (write_index_run r)" for r by (simp add: write_index_run_def)
  from length_run_list [OF run this runs_positive [of "block_indices (ch_blocks c)"]]
  have "length (run_writer (write_each write_index_run (runs_of (block_indices (ch_blocks c))))) \<le> 20 * kChunkVolume"
    by simp
  with ps light pal [of ?ps] length_varint_le_10 [of "of_nat (length ?ps)"]
    length_varint_le_10 [of "of_nat (length (rle_encode (ch_light c)))"]
  show ?thesis by (simp add: encode_chunk_payload_def Let_def kChunkVolume_def)
qed

lemma run_expect_end: "run_state r_expect_consumed (ok_at D (length D)) = ((), ok_at D (length D))"
  by (simp add: r_expect_consumed_def)

theorem chunk_payload_roundtrip:
  assumes "chunk_inv c"
  shows "\<exists>c'. decode_chunk_payload (encode_chunk_payload c) out = Some (None, c') \<and> chunk_inv c' \<and>
    voxels (ch_blocks c') = voxels (ch_blocks c) \<and> ch_light c' = ch_light c \<and>
    ch_coord c' = ch_coord out \<and> ch_revision c' = ch_revision out"
proof -
  let ?st = "ch_blocks c"
  let ?ps = "ps_palette ?st" and ?light = "rle_encode (ch_light c)"
  have inv: "store_inv ?st" and light: "length (ch_light c) = kChunkVolume"
    using assms by (simp_all add: chunk_inv_def)
  have ps: "length ?ps \<le> 65536" "0 < length ?ps"
    using inv palette_length by (auto simp: store_inv_def)
  define a where "a = run_writer (w_varint (of_nat (length ?ps)))"
  define b where "b = run_writer (write_each w_u16 ?ps)"
  define d where "d = run_writer (write_each write_index_run (runs_of (block_indices ?st)))"
  define e where "e = run_writer (w_varint (of_nat (length ?light)))"
  let ?D = "a @ b @ d @ e @ ?light"
  have enc: "encode_chunk_payload c = ?D"
    by (simp add: encode_chunk_payload_def Let_def a_def b_def d_def e_def)
  have n: "unat (of_nat (length ?ps) :: u64) = length ?ps" using ps by simp
  have 1: "run_state r_varint (ok_at ?D 0) = (of_nat (length ?ps), ok_at ?D (length a))"
    using readsD [OF reads_varint [of "of_nat (length ?ps)"], of "[]"] by (simp add: a_def)
  have 2: "run_state (read_all (length ?ps) r_u16) (ok_at ?D (length a)) = (?ps, ok_at ?D (length (a @ b)))"
    using readsD [OF reads_all [OF refl appends_fixed(1) reads_fixed(1), where xs = ?ps], of a "d @ e @ ?light"]
    by (simp add: b_def)
  let ?fill = "ps_fill (?ps ! 0) (ch_blocks out)"
  have runs: "\<forall>(n, x) \<in> set (runs_of (block_indices ?st)). 0 < n \<and> x < length ?ps"
  proof -
    have "x \<in> set (expand rs)" if "(n, x) \<in> set rs" "0 < n" for n and x :: nat and rs
      using that by (induction rs) auto
    from this [of _ _ "runs_of (block_indices ?st)"] block_indices_nth(1) [OF inv]
      runs_positive [of "block_indices ?st"]
    show ?thesis by (fastforce simp: in_set_conv_nth)
  qed
  from blocks_loop_encoded [of ?fill 0 "runs_of (block_indices ?st)" ?ps "a @ b" "e @ ?light"] ps(1) runs
  obtain st' where 3: "blocks_loop ?ps 0 ?fill (ok_at ?D (length (a @ b))) =
      Some (Inr (of_nat kChunkVolume), st', ok_at ?D (length (a @ b @ d)))"
    and st': "store_inv st'" "\<forall>j < kChunkVolume. ps_get st' j = ?ps ! (block_indices ?st ! j)"
    by (auto simp: fill_ok d_def)
  have 4: "run_state r_varint (ok_at ?D (length (a @ b @ d))) =
      (of_nat (length ?light), ok_at ?D (length (a @ b @ d @ e)))"
    using readsD [OF reads_varint [of "of_nat (length ?light)"], of "a @ b @ d" ?light] by (simp add: e_def)
  have 5: "run_state (r_bytes (length ?light)) (ok_at ?D (length (a @ b @ d @ e))) =
      (?light, ok_at ?D (length ?D))"
    using readsD [OF reads_bytes [OF refl, of ?light], of "a @ b @ d @ e" "[]"] by simp
  have 6: "rle_decode ?light kChunkVolume = Some (Inr (ch_light c))"
    using rle_roundtrip [of "ch_light c"] light by (simp add: max_vector_bytes_def kChunkVolume_def)
  have m: "unat (of_nat (length ?light) :: u64) = length ?light"
    using length_rle_encode [OF light] by (intro unat_of_nat_u64) (simp add: kChunkVolume_def)
  have v: "unat (of_nat kChunkVolume :: u64) = kChunkVolume" by (simp add: kChunkVolume_def)
  have p0: "(of_nat (length ?ps) :: u64) \<noteq> 0" using n ps(2) by (metis unat_0 less_numeral_extra(3))
  let ?c' = "out\<lparr>ch_blocks := st', ch_light := ch_light c\<rparr>"
  have "decode_chunk_payload ?D out = Some (None, ?c')"
    using ps p0 by (simp only: decode_chunk_payload_def reader_on_ok_at 1 2 3 4 5 6 n m v prod.case Let_def
        ok_at_simps run_expect_end option.case sum.case split_conv) simp
  moreover have "voxels st' = voxels ?st"
    using st'(2) block_indices_nth(2) [OF inv] by (intro voxels_eqI) simp
  ultimately show ?thesis using st'(1) light enc by (auto simp: chunk_inv_def)
qed

section \<open>Hostile payloads\<close>

lemma blocks_loop_inv:
  assumes "store_inv st" and "blocks_loop palette written st r = Some (res, st', r')"
  shows "store_inv st'"
  using assms
proof (induction palette written st r rule: blocks_loop.induct)
  case (1 palette written st r)
  obtain run r1 where v: "run_state r_varint r = (run, r1)" by fastforce
  obtain idx r2 where x: "run_state r_varint r1 = (idx, r2)" by fastforce
  let ?st = "if idx \<noteq> 0 then set_run written run (palette ! unat idx) st else st"
  show ?case
  proof (cases "unat written \<ge> kChunkVolume \<or> br_err r \<noteq> kNone \<or> br_err r2 \<noteq> kNone \<or>
      unat idx \<ge> length palette \<or> unat (written + run) > kChunkVolume")
    case True
    with 1(2,3) show ?thesis
      by (subst (asm) blocks_loop.simps) (auto simp: v x split: if_splits)
  next
    case False
    with 1(3) have "\<not> (idx \<noteq> 0 \<and> unat written + unat run > kChunkVolume)"
      and run: "blocks_loop palette (written + run) ?st r2 = Some (res, st', r')"
      by (subst (asm) blocks_loop.simps, simp add: v x split: if_splits)+
    then have "store_inv ?st" using 1(2) set_run_ok(1) [of st written run] by auto
    with 1(1) [OF _ v [symmetric] refl x [symmetric] refl] False run
      \<open>\<not> (idx \<noteq> 0 \<and> unat written + unat run > kChunkVolume)\<close>
    show ?thesis by auto
  qed
qed

lemma decode_chunk_inv:
  assumes "chunk_inv out" and "decode_chunk_payload payload out = Some (res, c')"
  shows "chunk_inv c'"
  using assms blocks_loop_inv [OF fill_ok(1)] rle_decode_length
  by (auto simp: decode_chunk_payload_def chunk_inv_def Let_def case_prod_unfold
      split: if_splits option.splits sum.splits) 

text \<open>
  A payload whose second run is \<open>2 ^ 64 - 1\<close> voxels of palette entry 1: the guard adds it to
  \<open>written = 1\<close>, gets 0 and lets the stores run past the array.
\<close>

definition wrapping_payload :: "byte list" where
  "wrapping_payload = run_writer (do { w_varint 2; w_u16 0; w_u16 1;
     w_varint 1; w_varint 1; w_varint (- 1); w_varint 1 })"

lemma wrapping_payload_unchecked: "decode_chunk_payload wrapping_payload out = None"
proof -
  let ?two = "run_writer (w_varint 2)" and ?one = "run_writer (w_varint 1)"
    and ?max = "run_writer (w_varint (- 1))"
    and ?ps = "run_writer (write_each w_u16 [0, 1])"
  let ?D = "?two @ ?ps @ ?one @ ?one @ ?max @ ?one"
  have D: "wrapping_payload = ?D" by (simp add: wrapping_payload_def)
  have 1: "run_state r_varint (ok_at ?D 0) = (2, ok_at ?D (length ?two))"
    using readsD [OF reads_varint [of 2], of "[]"] by simp
  have 2: "run_state (read_all 2 r_u16) (ok_at ?D (length ?two)) = ([0, 1], ok_at ?D (length (?two @ ?ps)))"
    using readsD [OF reads_all [OF _ appends_fixed(1) reads_fixed(1), where xs = "[0, 1]"], of 2 ?two]
    by simp
  have 3: "run_state r_varint (ok_at ?D (length (?two @ ?ps))) = (1, ok_at ?D (length (?two @ ?ps @ ?one)))"
    using readsD [OF reads_varint [of 1], of "?two @ ?ps"] by simp
  have 4: "run_state r_varint (ok_at ?D (length (?two @ ?ps @ ?one))) =
      (1, ok_at ?D (length (?two @ ?ps @ ?one @ ?one)))"
    using readsD [OF reads_varint [of 1], of "?two @ ?ps @ ?one"] by simp
  have 5: "run_state r_varint (ok_at ?D (length (?two @ ?ps @ ?one @ ?one))) =
      (- 1, ok_at ?D (length (?two @ ?ps @ ?one @ ?one @ ?max)))"
    using readsD [OF reads_varint [of "- 1"], of "?two @ ?ps @ ?one @ ?one"] by simp
  have 6: "run_state r_varint (ok_at ?D (length (?two @ ?ps @ ?one @ ?one @ ?max))) =
      (1, ok_at ?D (length ?D))"
    using readsD [OF reads_varint [of 1], of "?two @ ?ps @ ?one @ ?one @ ?max" "[]"] by simp
  have u: "unat (- 1 :: u64) = 2 ^ 64 - 1"
    by (simp add: unsigned_minus_1_eq_mask mask_eq_exp_minus_1)
  have loop: "blocks_loop [0, 1] 0 st (ok_at ?D (length (?two @ ?ps))) = None" for st
    by (subst blocks_loop.simps, simp only: 3 4 prod.case Let_def ok_at_simps,
        subst blocks_loop.simps, simp only: 5 6 prod.case Let_def ok_at_simps)
      (simp add: kChunkVolume_def u)
  show ?thesis
    by (simp only: D decode_chunk_payload_def reader_on_ok_at 1 prod.case Let_def ok_at_simps)
      (simp add: 2 [simplified] loop [simplified])
qed

end
