(* ===== verification/Client_Chunks.thy ===== *)
theory Client_Chunks
  imports Light_Column Chunk_Codec World_Messages
begin

text \<open>
  \<open>ClientChunkStore\<close> of \<open>world/client_chunk_store.hpp\<close> and \<open>.cpp\<close>: the client's mirror of the
  chunks the server has sent it, the predicted edit of one voxel, and the revision bumps that make
  a neighbour mesh again. \<open>apply_add\<close> is \<open>None\<close> where the payload's decoding has no defined result.
\<close>

record client_chunks =
  cst_registry :: block_registry
  cst_chunks :: chunk_map

text \<open>\<open>bump_all_neighbor_revisions\<close>: the three loops, the chunk itself left out.\<close>

definition neighbour_offsets :: "(i32 \<times> i32 \<times> i32) list" where
  "neighbour_offsets = filter (\<lambda>d. d \<noteq> (0, 0, 0))
     (map (\<lambda>(dz, dy, dx). (dx, dy, dz)) (List.product [-1, 0, 1] (List.product [-1, 0, 1] [-1, 0, 1])))"

definition bump_at :: "chunk_coord \<Rightarrow> chunk_map \<Rightarrow> chunk_map" where
  "bump_at c chunks = (case chunks c of None \<Rightarrow> chunks | Some ch \<Rightarrow> chunks(c \<mapsto> bump_revision ch))"

definition bump_all_neighbours :: "chunk_coord \<Rightarrow> chunk_map \<Rightarrow> chunk_map" where
  "bump_all_neighbours c chunks = fold (\<lambda>(dx, dy, dz). bump_at (offset_coord c dx dy dz)) neighbour_offsets chunks"

definition apply_add :: "s2c_chunk_add \<Rightarrow> client_chunks \<Rightarrow> (protocol_error option \<times> client_chunks) option" where
  "apply_add m st = (case decode_chunk_payload (add_payload m) (new_chunk (add_coord m)) of
       None \<Rightarrow> None
     | Some (Some e, _) \<Rightarrow> Some (Some e, st)
     | Some (None, ch) \<Rightarrow>
         let ch = ch\<lparr>ch_gen_state := kGenerated, ch_revision := add_revision m,
                     ch_dirty := (ch_dirty ch)\<lparr>df_mesh := True\<rparr>\<rparr> in
         Some (None, st\<lparr>cst_chunks := bump_all_neighbours (add_coord m) ((cst_chunks st)(add_coord m \<mapsto> ch))\<rparr>))"

text \<open>The two loops of a delta: the chunk is changed in place up to the first bad index.\<close>

primrec set_blocks :: "block_change list \<Rightarrow> chunk \<Rightarrow> protocol_error option \<times> chunk" where
  "set_blocks [] ch = (None, ch)"
| "set_blocks (c # cs) ch = (
     if unat (bc_local_index c) \<ge> kChunkVolume then (Some kMalformed, ch)
     else set_blocks cs (ch\<lparr>ch_blocks := snd (ps_set (unat (bc_local_index c)) (bc_block c) (ch_blocks ch))\<rparr>))"

primrec set_lights :: "light_change list \<Rightarrow> chunk \<Rightarrow> protocol_error option \<times> chunk" where
  "set_lights [] ch = (None, ch)"
| "set_lights (c # cs) ch = (
     if unat (lc_local_index c) \<ge> kChunkVolume then (Some kMalformed, ch)
     else set_lights cs (set_light (unat (lc_local_index c)) (lc_packed c) ch))"

definition apply_delta :: "s2c_chunk_delta \<Rightarrow> client_chunks \<Rightarrow> protocol_error option \<times> client_chunks" where
  "apply_delta m st = (case cst_chunks st (delta_coord m) of
       None \<Rightarrow> (Some kMalformed, st)
     | Some ch \<Rightarrow>
         let put = (\<lambda>ch. st\<lparr>cst_chunks := (cst_chunks st)(delta_coord m \<mapsto> ch)\<rparr>);
             (e, ch) = set_blocks (delta_blocks m) ch in
         if e \<noteq> None then (e, put ch)
         else
           let (e, ch) = set_lights (delta_light m) ch in
           if e \<noteq> None then (e, put ch)
           else
             let ch = bump_revision (ch\<lparr>ch_dirty := (ch_dirty ch)\<lparr>df_mesh := True\<rparr>\<rparr>) in
             (None, st\<lparr>cst_chunks := bump_all_neighbours (delta_coord m)
                ((cst_chunks st)(delta_coord m \<mapsto> ch))\<rparr>))"

definition apply_remove :: "s2c_chunk_remove \<Rightarrow> client_chunks \<Rightarrow> client_chunks" where
  "apply_remove m st = st\<lparr>cst_chunks := bump_all_neighbours (remove_coord m)
     ((cst_chunks st)(remove_coord m := None))\<rparr>"

text \<open>The faces of the chunk that the voxel touches.\<close>

definition border_offsets :: "voxel_address \<Rightarrow> (i32 \<times> i32 \<times> i32) list" where
  "border_offsets a =
     (if va_lx a = 0 then [(-1, 0, 0)] else []) @ (if va_lx a = 31 then [(1, 0, 0)] else []) @
     (if va_ly a = 0 then [(0, -1, 0)] else []) @ (if va_ly a = 31 then [(0, 1, 0)] else []) @
     (if va_lz a = 0 then [(0, 0, -1)] else []) @ (if va_lz a = 31 then [(0, 0, 1)] else [])"

definition edit_block :: "ivec3 \<Rightarrow> block_id \<Rightarrow> client_chunks \<Rightarrow> block_id \<times> client_chunks" where
  "edit_block v b st = (
     let a = address_of v in
     case cst_chunks st (va_chunk a) of
       None \<Rightarrow> (kAir, st)
     | Some ch \<Rightarrow>
         let prev = chunk_get ch (va_index a);
             (changed, ch) = chunk_set (va_index a) b ch;
             chunks = (cst_chunks st)(va_chunk a \<mapsto> ch) in
         if \<not> changed then (prev, st\<lparr>cst_chunks := chunks\<rparr>)
         else
           let chunks = fst (relight_column (new_light_engine (cst_registry st)) (va_chunk a) chunks);
               chunks = fold (\<lambda>(dx, dy, dz). bump_at (offset_coord (va_chunk a) dx dy dz)) (border_offsets a) chunks in
           (prev, st\<lparr>cst_chunks := chunks\<rparr>))"

definition set_registry :: "block_registry \<Rightarrow> client_chunks \<Rightarrow> client_chunks" where
  "set_registry r st = st\<lparr>cst_registry := r\<rparr>"

definition client_block_at :: "client_chunks \<Rightarrow> ivec3 \<Rightarrow> block_id" where
  "client_block_at st v = (case cst_chunks st (va_chunk (address_of v)) of
       None \<Rightarrow> kAir
     | Some ch \<Rightarrow> chunk_get ch (va_index (address_of v)))"

definition client_solid_at :: "client_chunks \<Rightarrow> ivec3 \<Rightarrow> bool" where
  "client_solid_at st v = is_solid (cst_registry st) (client_block_at st v)"

definition client_light_at :: "client_chunks \<Rightarrow> ivec3 \<Rightarrow> u8" where
  "client_light_at st v = (case cst_chunks st (va_chunk (address_of v)) of
       None \<Rightarrow> set_sky 15 0
     | Some ch \<Rightarrow> ch_light ch ! va_index (address_of v))"

section \<open>What a chunk shows\<close>

text \<open>Two chunks show the same: the same blocks and the same light.\<close>

definition same_content :: "chunk \<Rightarrow> chunk \<Rightarrow> bool" where
  "same_content a b \<longleftrightarrow> voxels (ch_blocks a) = voxels (ch_blocks b) \<and> ch_light a = ch_light b"

lemma same_content_refl [simp]: "same_content a a"
  by (simp add: same_content_def)

lemma same_content_trans: "same_content a b \<Longrightarrow> same_content b c \<Longrightarrow> same_content a c"
  by (simp add: same_content_def)

lemma same_content_sym: "same_content a b \<Longrightarrow> same_content b a"
  by (simp add: same_content_def)

definition chunks_ok :: "chunk_map \<Rightarrow> bool" where
  "chunks_ok cs \<longleftrightarrow> (\<forall>c ch. cs c = Some ch \<longrightarrow> chunk_inv ch)"

text \<open>Stores that show the same everywhere.\<close>

definition same_show :: "chunk_map \<Rightarrow> chunk_map \<Rightarrow> bool" where
  "same_show cs cs' \<longleftrightarrow> (\<forall>c. case cs c of None \<Rightarrow> cs' c = None
     | Some a \<Rightarrow> (case cs' c of None \<Rightarrow> False
       | Some b \<Rightarrow> same_content a b \<and> (chunk_inv a \<longrightarrow> chunk_inv b)))"

lemma same_show_refl: "same_show cs cs"
  by (simp add: same_show_def split: option.split)

lemma same_show_trans: "same_show a b \<Longrightarrow> same_show b c \<Longrightarrow> same_show a c"
  unfolding same_show_def by (fastforce split: option.splits intro: same_content_trans)

lemma bump_at_show: "same_show cs (bump_at c cs)"
  by (auto simp: same_show_def bump_at_def same_content_def bump_revision_def chunk_inv_def split: option.split)

lemma fold_bump_show: "same_show cs (fold (\<lambda>(dx, dy, dz). bump_at (offset_coord c dx dy dz)) ds cs)"
proof (induction ds arbitrary: cs)
  case (Cons d ds)
  obtain dx dy dz where d: "d = (dx, dy, dz)" by (metis prod_cases3)
  from same_show_trans [OF bump_at_show Cons] show ?case by (simp add: d)
qed (simp add: same_show_refl)

lemma bump_all_show: "same_show cs (bump_all_neighbours c cs)"
  unfolding bump_all_neighbours_def by (rule fold_bump_show)

lemma same_showD:
  assumes "same_show cs cs'"
  shows "cs c = None \<Longrightarrow> cs' c = None"
    and "cs c = Some a \<Longrightarrow> \<exists>b. cs' c = Some b \<and> same_content a b \<and> (chunk_inv a \<longrightarrow> chunk_inv b)"
  using spec [OF assms [unfolded same_show_def], of c] by (simp_all split: option.splits)

lemma same_show_ok: "same_show cs cs' \<Longrightarrow> chunks_ok cs \<Longrightarrow> chunks_ok cs'"
  unfolding chunks_ok_def by (metis option.exhaust option.inject same_showD)

section \<open>Adds\<close>

text \<open>What the server encodes, the client shows.\<close>

lemma apply_add_shows:
  assumes "chunk_inv ch"
  shows "\<exists>st'. apply_add \<lparr>add_coord = c, add_revision = r, add_payload = encode_chunk_payload ch\<rparr> st = Some (None, st') \<and>
    cst_registry st' = cst_registry st \<and>
    (\<exists>b. chunk_inv b \<and> same_content ch b \<and> same_show ((cst_chunks st)(c \<mapsto> b)) (cst_chunks st'))"
proof -
  obtain d where d: "decode_chunk_payload (encode_chunk_payload ch) (new_chunk c) = Some (None, d)"
    "chunk_inv d" "voxels (ch_blocks d) = voxels (ch_blocks ch)" "ch_light d = ch_light ch"
    using chunk_payload_roundtrip [OF assms, of "new_chunk c"] by blast
  let ?b = "d\<lparr>ch_gen_state := kGenerated, ch_revision := r, ch_dirty := (ch_dirty d)\<lparr>df_mesh := True\<rparr>\<rparr>"
  have "chunk_inv ?b" "same_content ch ?b" using d by (simp_all add: chunk_inv_def same_content_def)
  moreover have "same_show ((cst_chunks st)(c \<mapsto> ?b)) (bump_all_neighbours c ((cst_chunks st)(c \<mapsto> ?b)))"
    by (rule bump_all_show)
  ultimately show ?thesis
    by (auto simp: apply_add_def d(1) Let_def simp del: fun_upd_apply)
qed

text \<open>Whatever the bytes, an add keeps every loaded chunk well formed.\<close>

lemma chunks_ok_put: "chunks_ok cs \<Longrightarrow> chunk_inv ch \<Longrightarrow> chunks_ok (cs(c \<mapsto> ch))"
  by (simp add: chunks_ok_def)

lemma apply_add_ok:
  assumes "chunks_ok (cst_chunks st)" and "apply_add m st = Some (e, st')"
  shows "chunks_ok (cst_chunks st')"
proof -
  have "chunk_inv (snd r)" if "decode_chunk_payload (add_payload m) (new_chunk (add_coord m)) = Some r" for r
    using that decode_chunk_inv [OF new_chunk_inv] by (metis prod.collapse)
  with assms show ?thesis
    by (auto simp: apply_add_def Let_def split: option.splits
        intro!: same_show_ok [OF bump_all_show] chunks_ok_put simp: chunk_inv_def)
qed

section \<open>Deltas\<close>

text \<open>The effect of the two loops, when every index is in the chunk.\<close>

definition put_blocks :: "block_change list \<Rightarrow> block_id list \<Rightarrow> block_id list" where
  "put_blocks cs bs = fold (\<lambda>c bs. bs[unat (bc_local_index c) := bc_block c]) cs bs"

definition put_lights :: "light_change list \<Rightarrow> u8 list \<Rightarrow> u8 list" where
  "put_lights cs ls = fold (\<lambda>c ls. ls[unat (lc_local_index c) := lc_packed c]) cs ls"

lemma voxels_set: "store_inv st \<Longrightarrow> i < kChunkVolume \<Longrightarrow> voxels (snd (ps_set i b st)) = (voxels st)[i := b]"
  by (rule nth_equalityI) (simp_all add: voxels_nth set_ok nth_list_update)

lemma set_blocks_inv: "chunk_inv ch \<Longrightarrow> chunk_inv (snd (set_blocks cs ch))"
  by (induction cs arbitrary: ch) (auto simp: chunk_inv_def set_ok)

lemma set_blocks_light [simp]: "ch_light (snd (set_blocks cs ch)) = ch_light ch"
  by (induction cs arbitrary: ch) auto

lemma set_blocks_all:
  assumes "chunk_inv ch" and "\<forall>c \<in> set cs. unat (bc_local_index c) < kChunkVolume"
  shows "fst (set_blocks cs ch) = None"
    and "voxels (ch_blocks (snd (set_blocks cs ch))) = put_blocks cs (voxels (ch_blocks ch))"
  using assms
proof (induction cs arbitrary: ch)
  case (Cons c cs)
  case 1
  let ?ch = "ch\<lparr>ch_blocks := snd (ps_set (unat (bc_local_index c)) (bc_block c) (ch_blocks ch))\<rparr>"
  have "chunk_inv ?ch" using 1 by (auto simp: chunk_inv_def intro: set_ok(1))
  with Cons(1) [of ?ch] 1 show ?case by simp
next
  case (Cons c cs)
  case 2
  let ?ch = "ch\<lparr>ch_blocks := snd (ps_set (unat (bc_local_index c)) (bc_block c) (ch_blocks ch))\<rparr>"
  have "chunk_inv ?ch" using 2 by (auto simp: chunk_inv_def intro: set_ok(1))
  with Cons(2) [of ?ch] 2 show ?case by (simp add: put_blocks_def voxels_set chunk_inv_def)
qed (simp_all add: put_blocks_def)

lemma set_lights_all:
  assumes "\<forall>c \<in> set cs. unat (lc_local_index c) < kChunkVolume"
  shows "fst (set_lights cs ch) = None" and "ch_light (snd (set_lights cs ch)) = put_lights cs (ch_light ch)"
  using assms by (induction cs arbitrary: ch) (auto simp: put_lights_def set_light_def)

lemma set_lights_blocks [simp]: "ch_blocks (snd (set_lights cs ch)) = ch_blocks ch"
  "length (ch_light (snd (set_lights cs ch))) = length (ch_light ch)"
  by (induction cs arbitrary: ch) (auto simp: set_light_def)

lemma set_lights_inv: "chunk_inv ch \<Longrightarrow> chunk_inv (snd (set_lights cs ch))"
  by (simp add: chunk_inv_def)

lemma apply_delta_ok: "chunks_ok (cst_chunks st) \<Longrightarrow> chunks_ok (cst_chunks (snd (apply_delta m st)))"
  using set_blocks_inv set_lights_inv
  by (auto simp: apply_delta_def Let_def case_prod_unfold bump_revision_def split: option.splits
      intro!: same_show_ok [OF bump_all_show] chunks_ok_put simp: chunk_inv_def)
    (simp_all add: chunks_ok_def chunk_inv_def)

lemma apply_remove_ok: "chunks_ok (cst_chunks st) \<Longrightarrow> chunks_ok (cst_chunks (apply_remove m st))"
proof -
  assume "chunks_ok (cst_chunks st)"
  then have "chunks_ok ((cst_chunks st)(remove_coord m := None))" by (simp add: chunks_ok_def)
  from same_show_ok [OF bump_all_show this] show ?thesis by (simp add: apply_remove_def)
qed

text \<open>A delta of valid indices on a loaded chunk.\<close>

lemma apply_delta_shows:
  assumes "cst_chunks st (delta_coord m) = Some ch" and "chunk_inv ch" and "valid_S2CChunkDelta m"
  shows "\<exists>st' b. apply_delta m st = (None, st') \<and> cst_registry st' = cst_registry st \<and> chunk_inv b \<and>
    voxels (ch_blocks b) = put_blocks (delta_blocks m) (voxels (ch_blocks ch)) \<and>
    ch_light b = put_lights (delta_light m) (ch_light ch) \<and>
    same_show ((cst_chunks st)(delta_coord m \<mapsto> b)) (cst_chunks st')"
proof -
  have idx: "\<forall>c \<in> set (delta_blocks m). unat (bc_local_index c) < kChunkVolume"
    "\<forall>c \<in> set (delta_light m). unat (lc_local_index c) < kChunkVolume"
    using assms(3) by (simp_all add: valid_S2CChunkDelta_def chunk_volume_def kChunkVolume_def)
  let ?ch1 = "snd (set_blocks (delta_blocks m) ch)"
  let ?ch2 = "snd (set_lights (delta_light m) ?ch1)"
  let ?b = "bump_revision (?ch2\<lparr>ch_dirty := (ch_dirty ?ch2)\<lparr>df_mesh := True\<rparr>\<rparr>)"
  have "chunk_inv ?b"
    using set_lights_inv [OF set_blocks_inv [OF assms(2)]] by (simp add: bump_revision_def chunk_inv_def)
  moreover have "voxels (ch_blocks ?b) = put_blocks (delta_blocks m) (voxels (ch_blocks ch))"
    "ch_light ?b = put_lights (delta_light m) (ch_light ch)"
    using set_blocks_all(2) [OF assms(2) idx(1)] set_lights_all(2) [OF idx(2), of ?ch1]
    by (simp_all add: bump_revision_def)
  moreover have "apply_delta m st = (None, st\<lparr>cst_chunks := bump_all_neighbours (delta_coord m)
      ((cst_chunks st)(delta_coord m \<mapsto> ?b))\<rparr>)"
    using set_blocks_all(1) [OF assms(2) idx(1)] set_lights_all(1) [OF idx(2), of ?ch1]
    by (simp add: apply_delta_def assms(1) Let_def case_prod_unfold)
  ultimately show ?thesis
    using bump_all_show [of "(cst_chunks st)(delta_coord m \<mapsto> ?b)" "delta_coord m"]
    by (auto simp del: fun_upd_apply)
qed

lemma apply_delta_missing: "cst_chunks st (delta_coord m) = None \<Longrightarrow> apply_delta m st = (Some kMalformed, st)"
  by (simp add: apply_delta_def)

section \<open>The predicted edit\<close>

lemma reported_ok:
  assumes "reported cs cs' evs" and "chunks_ok cs"
  shows "chunks_ok cs'"
  unfolding chunks_ok_def
proof (intro allI impI)
  fix c ch assume ch: "cs' c = Some ch"
  show "chunk_inv ch"
  proof (cases "c \<in> fst ` set evs")
    case True
    then obtain before after where "(c, before, after) \<in> set evs" by force
    from reportedD [OF assms(1) this] ch assms(2) show ?thesis
      by (auto simp: chunks_ok_def relit_from_def chunk_inv_def)
  next
    case False
    with assms ch show ?thesis by (auto simp: reported_def chunks_ok_def)
  qed
qed

lemma chunk_get_blocks: "voxels (ch_blocks a) = voxels (ch_blocks b) \<Longrightarrow> i < kChunkVolume \<Longrightarrow> chunk_get a i = chunk_get b i"
  by (metis chunk_get_def voxels_nth)

lemma edit_block_spec:
  assumes "chunks_ok (cst_chunks st)" and "edit_block v b st = (prev, st')"
  shows "prev = client_block_at st v" and "chunks_ok (cst_chunks st')"
    and "client_block_at st' u =
      (if u = v \<and> cst_chunks st (chunk_of v) \<noteq> None then b else client_block_at st u)"
proof (atomize (full), cases "cst_chunks st (chunk_of v)")
  case None
  then show "prev = client_block_at st v \<and> chunks_ok (cst_chunks st') \<and> client_block_at st' u =
      (if u = v \<and> cst_chunks st (chunk_of v) \<noteq> None then b else client_block_at st u)"
    using assms by (simp add: edit_block_def client_block_at_def)
next
  case (Some ch)
  let ?i = "va_index (address_of v)"
  have inv: "chunk_inv ch" using assms(1) Some by (simp add: chunks_ok_def)
  define ch1 where "ch1 = snd (chunk_set ?i b ch)"
  define cs1 where "cs1 = (cst_chunks st)(chunk_of v \<mapsto> ch1)"
  obtain cs2 evs where relight: "relight_column (new_light_engine (cst_registry st)) (chunk_of v) cs1 = (cs2, evs)"
    by fastforce
  define cs3 where "cs3 = fold (\<lambda>(dx, dy, dz). bump_at (offset_coord (chunk_of v) dx dy dz))
    (border_offsets (address_of v)) cs2"
  have inv1: "chunk_inv ch1" using chunk.put_inv [OF inv] by (simp add: ch1_def)
  then have ok1: "chunks_ok cs1" using assms(1) by (simp add: cs1_def chunks_ok_def)
  note rep = relight_column_reported(1) [OF relight]
  have show3: "same_show cs2 cs3" unfolding cs3_def by (rule fold_bump_show)
  have st': "cst_chunks st' = (if fst (chunk_set ?i b ch) then cs3 else cs1)" and prev: "prev = chunk_get ch ?i"
    using assms(2) Some relight
    by (auto simp: edit_block_def Let_def case_prod_unfold cs1_def [symmetric] ch1_def [symmetric]
        cs3_def split: if_splits)
  have ok': "chunks_ok (cst_chunks st')"
    using ok1 same_show_ok [OF show3 reported_ok [OF rep ok1]] by (simp add: st')
  have at: "client_block_at st' u = client_block_at (st\<lparr>cst_chunks := cs1\<rparr>) u"
  proof (cases "fst (chunk_set ?i b ch)")
    case True
    then show ?thesis
      using same_showD [OF show3, of "chunk_of u"] reported_blocks [OF rep, of "chunk_of u"] st'
      by (cases "cs2 (chunk_of u)"; cases "cs1 (chunk_of u)")
        (auto simp: client_block_at_def same_content_def chunk_get_def dest: arg_cong [of _ _ "\<lambda>xs. xs ! va_index (address_of u)"]
          simp: voxels_nth)
  qed (simp add: st' client_block_at_def)
  have "client_block_at (st\<lparr>cst_chunks := cs1\<rparr>) u = (if u = v then b else client_block_at st u)"
    using chunk.get_put [OF inv, of ?i "va_index (address_of u)" b] address_inject [of u v] Some
    by (auto simp: client_block_at_def cs1_def ch1_def)
  with at prev ok' Some show "prev = client_block_at st v \<and> chunks_ok (cst_chunks st') \<and> client_block_at st' u =
      (if u = v \<and> cst_chunks st (chunk_of v) \<noteq> None then b else client_block_at st u)"
    by (simp add: client_block_at_def)
qed

end
