(* ===== verification/Region_Store.thy ===== *)
theory Region_Store
  imports Chunk_Codec Compression Version_Req "HOL-Library.AList"
begin

text \<open>
  \<open>RegionStore\<close> of \<open>world/region_store.hpp\<close> and \<open>.cpp\<close>: chunks saved by region of 16 by 16 columns,
  one file a region. The save directory is a map from file names to contents on which a write
  succeeds; the regions read so far are an association list, as are a region's entries, whose order
  is that of an \<open>unordered_map\<close>. \<open>None\<close> as the library is a build without \<open>VB_WITH_COMPRESSION\<close>.
\<close>

definition kRegionChunks :: int where
  "kRegionChunks = 16"

definition kMagic :: u32 where
  "kMagic = 0x47524256"

definition kVersionNoFlags :: u32 where
  "kVersionNoFlags = 1"

definition kVersion :: u32 where
  "kVersion = 2"

definition kEntryCompressed :: u8 where
  "kEntryCompressed = 1"

record region_entry =
  ren_payload :: "byte list"
  ren_revision :: u64

record region =
  rg_entries :: "(chunk_coord \<times> region_entry) list"
  rg_dirty :: bool

record region_store =
  rst_lz4 :: "lz4_api option"
  rst_disk :: "string \<rightharpoonup> byte list"
  rst_regions :: "(i64 \<times> region) list"

definition new_region_store :: "lz4_api option \<Rightarrow> (string \<rightharpoonup> byte list) \<Rightarrow> region_store" where
  "new_region_store lz disk = \<lparr>rst_lz4 = lz, rst_disk = disk, rst_regions = []\<rparr>"

definition compress_for_disk :: "lz4_api option \<Rightarrow> byte list \<Rightarrow> byte list \<times> bool" where
  "compress_for_disk lz payload = (case lz of
       None \<Rightarrow> (payload, False)
     | Some lz \<Rightarrow>
         if length payload \<ge> kCompressionThresholdBytes
         then let compressed = compress_lz4 lz payload in
           if length compressed < length payload then (compressed, True) else (payload, False)
         else (payload, False))"

definition region_key :: "chunk_coord \<Rightarrow> i64" where
  "region_key c = (
     let rx = word_of_int (floor_div (sint (cc_x c)) kRegionChunks) :: i32;
         rz = word_of_int (floor_div (sint (cc_z c)) kRegionChunks) :: i32 in
     push_bit 32 (scast rx) OR ucast rz)"

definition region_path :: "i64 \<Rightarrow> string" where
  "region_path key = (
     let rx = ucast (drop_bit 32 key) :: i32;
         rz = ucast (key AND 0xFFFFFFFF) :: i32 in
     ''r.'' @ show_int (sint rx) @ ''.'' @ show_int (sint rz) @ ''.vbr'')"

section \<open>A region file\<close>

text \<open>What one turn of the reading loop does: \<open>break\<close>, \<open>break\<close> with a corrupt entry, or one entry.\<close>

datatype entry_read = Stop | Corrupt | Entry chunk_coord region_entry

definition read_entry :: "lz4_api option \<Rightarrow> u32 \<Rightarrow> entry_read reader" where
  "read_entry lz version = do {
     c \<leftarrow> read_coord;
     revision \<leftarrow> r_u64;
     flags \<leftarrow> (if version = kVersion then r_u8 else State_Monad.return 0);
     len \<leftarrow> r_varint;
     payload \<leftarrow> r_bytes (unat len);
     failed \<leftarrow> r_failed;
     State_Monad.return (
       if failed then Stop
       else if flags AND kEntryCompressed \<noteq> 0
       then (case lz of
           None \<Rightarrow> Corrupt
         | Some l \<Rightarrow> (case decompress_lz4 l payload of
               Inl _ \<Rightarrow> Corrupt
             | Inr p \<Rightarrow> Entry c \<lparr>ren_payload = p, ren_revision = revision\<rparr>))
       else Entry c \<lparr>ren_payload = payload, ren_revision = revision\<rparr>) }"

primrec read_entries :: "lz4_api option \<Rightarrow> u32 \<Rightarrow> nat \<Rightarrow> (chunk_coord \<times> region_entry) list \<Rightarrow>
    (bool \<times> (chunk_coord \<times> region_entry) list) reader" where
  "read_entries lz version 0 es = State_Monad.return (False, es)"
| "read_entries lz version (Suc n) es = do {
     failed \<leftarrow> r_failed;
     if failed then State_Monad.return (False, es)
     else do {
       e \<leftarrow> read_entry lz version;
       (case e of
          Stop \<Rightarrow> State_Monad.return (False, es)
        | Corrupt \<Rightarrow> State_Monad.return (True, es)
        | Entry c en \<Rightarrow> read_entries lz version n (AList.update c en es)) } }"

definition parse_region :: "lz4_api option \<Rightarrow> byte list \<Rightarrow> (chunk_coord \<times> region_entry) list" where
  "parse_region lz raw = fst (run_state (do {
     magic \<leftarrow> r_u32;
     version \<leftarrow> r_u32;
     count \<leftarrow> r_varint;
     failed \<leftarrow> r_failed;
     ces \<leftarrow> (if \<not> failed \<and> magic = kMagic \<and> (version = kVersion \<or> version = kVersionNoFlags)
       then read_entries lz version (unat count) []
       else State_Monad.return (False, []));
     failed \<leftarrow> r_failed;
     State_Monad.return (if failed \<or> fst ces \<or> magic \<noteq> kMagic \<or> (version \<noteq> kVersion \<and> version \<noteq> kVersionNoFlags)
       then [] else snd ces) }) (reader_on raw))"

definition write_entry :: "lz4_api option \<Rightarrow> chunk_coord \<times> region_entry \<Rightarrow> writer" where
  "write_entry lz ce = (
     let (disk_payload, compressed) = compress_for_disk lz (ren_payload (snd ce)) in do {
     w_i32 (cc_x (fst ce));
     w_i32 (cc_y (fst ce));
     w_i32 (cc_z (fst ce));
     w_u64 (ren_revision (snd ce));
     w_u8 (if compressed then kEntryCompressed else 0);
     w_varint (of_nat (length disk_payload));
     w_bytes disk_payload })"

definition print_region :: "lz4_api option \<Rightarrow> (chunk_coord \<times> region_entry) list \<Rightarrow> byte list" where
  "print_region lz es = run_writer (do {
     w_u32 kMagic;
     w_u32 kVersion;
     w_varint (of_nat (length es));
     write_each (write_entry lz) es })"

section \<open>Operations\<close>

definition region_for :: "chunk_coord \<Rightarrow> region_store \<Rightarrow> region \<times> region_store" where
  "region_for c st = (
     let key = region_key c in
     case map_of (rst_regions st) key of
       Some r \<Rightarrow> (r, st)
     | None \<Rightarrow>
         let raw = (case rst_disk st (region_path key) of None \<Rightarrow> [] | Some bs \<Rightarrow> bs);
             r = \<lparr>rg_entries = (if raw = [] then [] else parse_region (rst_lz4 st) raw), rg_dirty = False\<rparr> in
         (r, st\<lparr>rst_regions := rst_regions st @ [(key, r)]\<rparr>))"

definition put_region :: "chunk_coord \<Rightarrow> region \<Rightarrow> region_store \<Rightarrow> region_store" where
  "put_region c r st = st\<lparr>rst_regions := AList.update (region_key c) r (rst_regions st)\<rparr>"

text \<open>\<open>None\<close> as the whole result: the payload's decoding has no defined result.\<close>

definition rs_load :: "chunk_coord \<Rightarrow> region_store \<Rightarrow> (chunk option \<times> region_store) option" where
  "rs_load c st = (
     let (r, st) = region_for c st in
     case map_of (rg_entries r) c of
       None \<Rightarrow> Some (None, st)
     | Some en \<Rightarrow> (case decode_chunk_payload (ren_payload en) (new_chunk c) of
           None \<Rightarrow> None
         | Some (Some _, _) \<Rightarrow> Some (None, put_region c
             (r\<lparr>rg_entries := AList.delete c (rg_entries r), rg_dirty := True\<rparr>) st)
         | Some (None, ch) \<Rightarrow> Some (Some (ch\<lparr>ch_revision := ren_revision en\<rparr>), st)))"

definition save_if_dirty :: "chunk \<Rightarrow> region_store \<Rightarrow> region_store" where
  "save_if_dirty ch st = (
     if ch_revision ch = 0 then st
     else
       let c = ch_coord ch;
           (r, st) = region_for c st in
       if (case map_of (rg_entries r) c of None \<Rightarrow> False | Some en \<Rightarrow> ren_revision en = ch_revision ch) then st
       else put_region c (r\<lparr>rg_entries := AList.update c
           \<lparr>ren_payload = encode_chunk_payload ch, ren_revision = ch_revision ch\<rparr> (rg_entries r),
           rg_dirty := True\<rparr>) st)"

definition flush_region :: "i64 \<times> region \<Rightarrow> region_store \<Rightarrow> region_store" where
  "flush_region kr st =
     (if \<not> rg_dirty (snd kr) then st
      else st\<lparr>rst_disk := (rst_disk st)(region_path (fst kr) \<mapsto> print_region (rst_lz4 st) (rg_entries (snd kr))),
           rst_regions := AList.update (fst kr) ((snd kr)\<lparr>rg_dirty := False\<rparr>) (rst_regions st)\<rparr>)"

definition rs_flush :: "region_store \<Rightarrow> region_store" where
  "rs_flush st = fold flush_region (rst_regions st) st"

section \<open>A region file reads back\<close>

definition lz_trusted :: "lz4_api option \<Rightarrow> bool" where
  "lz_trusted lz \<longleftrightarrow> (\<forall>l. lz = Some l \<longrightarrow> lz4_ok l)"

definition entries_ok :: "(chunk_coord \<times> region_entry) list \<Rightarrow> bool" where
  "entries_ok es \<longleftrightarrow> distinct (map fst es) \<and> length es < 2 ^ 64 \<and>
     (\<forall>ce \<in> set es. length (ren_payload (snd ce)) \<le> kMaxDecodedLength)"

lemma appends_write_entry [simp]: "appends (write_entry lz ce)"
  by (simp add: write_entry_def case_prod_unfold Let_def)

lemma compress_for_disk_cases:
  "compress_for_disk lz payload = (payload, False) \<or>
   (\<exists>l. lz = Some l \<and> compress_for_disk lz payload = (compress_lz4 l payload, True) \<and>
      length (compress_lz4 l payload) < length payload)"
  by (auto simp: compress_for_disk_def Let_def split: option.split)

lemma reads_entry:
  assumes "lz_trusted lz" and "length (ren_payload (snd ce)) \<le> kMaxDecodedLength"
  shows "reads (read_entry lz kVersion) (run_writer (write_entry lz ce)) (Entry (fst ce) (snd ce))"
proof -
  let ?p = "ren_payload (snd ce)"
  obtain d b where d: "compress_for_disk lz ?p = (d, b)" by fastforce
  then have len: "length d \<le> kMaxDecodedLength" using compress_for_disk_cases [of lz ?p] assms(2) by auto
  then have n: "length d = unat (of_nat (length d) :: u64)" by (simp add: kMaxDecodedLength_def)
  have bytes: "reads (r_bytes (unat (of_nat (length d) :: u64))) d d" by (rule reads_bytes [OF n [symmetric]])
  define fl where "fl = (if b then kEntryCompressed else 0)"
  have flags: "reads (if kVersion = kVersion then r_u8 else State_Monad.return 0) (run_writer (w_u8 fl)) fl"
    by (simp add: reads_u8)
  have out: "(if fl AND kEntryCompressed \<noteq> 0
      then (case lz of None \<Rightarrow> Corrupt
         | Some l \<Rightarrow> (case decompress_lz4 l d of Inl _ \<Rightarrow> Corrupt
             | Inr p \<Rightarrow> Entry (fst ce) \<lparr>ren_payload = p, ren_revision = ren_revision (snd ce)\<rparr>))
      else Entry (fst ce) \<lparr>ren_payload = d, ren_revision = ren_revision (snd ce)\<rparr>) = Entry (fst ce) (snd ce)"
    using compress_for_disk_cases [of lz ?p] d assms lz4_roundtrip
    by (auto simp: lz_trusted_def kEntryCompressed_def fl_def)
  have "run_writer (write_entry lz ce) = run_writer (write_coord (fst ce)) @ run_writer (w_u64 (ren_revision (snd ce))) @
      run_writer (w_u8 fl) @ run_writer (w_varint (of_nat (length d))) @ d"
    by (simp add: write_entry_def d write_coord_def fl_def)
  moreover have "reads (read_entry lz kVersion) \<dots> (Entry (fst ce) (snd ce))"
    unfolding read_entry_def
    by (intro reads_bind [OF coord.read_write [OF TrueI]] reads_bind [OF reads_fixed(3)] reads_bind [OF flags]
        reads_bind [OF reads_varint] reads_bind_last [OF bytes] reads_then [OF reads_failed] reads_return_eq)
      (simp add: out)
  ultimately show ?thesis by simp
qed

lemma update_fresh: "k \<notin> fst ` set al \<Longrightarrow> AList.update k v al = al @ [(k, v)]"
  by (induction al) auto

lemma reads_entries:
  assumes "lz_trusted lz" and "entries_ok (es0 @ es)"
  shows "reads (read_entries lz kVersion (length es) es0) (run_writer (write_each (write_entry lz) es)) (False, es0 @ es)"
  using assms(2)
proof (induction es arbitrary: es0)
  case Nil
  then show ?case by (simp add: reads_return)
next
  case (Cons ce es)
  have fresh: "AList.update (fst ce) (snd ce) es0 = es0 @ [ce]"
    using Cons.prems by (simp add: entries_ok_def update_fresh)
  have "reads (read_entries lz kVersion (length es) (es0 @ [ce])) (run_writer (write_each (write_entry lz) es))
      (False, es0 @ ce # es)"
    using Cons.IH [of "es0 @ [ce]"] Cons.prems by simp
  moreover have "reads (read_entry lz kVersion) (run_writer (write_entry lz ce)) (Entry (fst ce) (snd ce))"
    using assms(1) Cons.prems by (intro reads_entry) (auto simp: entries_ok_def)
  ultimately show ?case
    by (simp, intro reads_then [OF reads_failed]) (auto intro!: reads_bind simp: fresh)
qed

lemma print_region_nonempty: "print_region lz es \<noteq> []"
proof -
  have "length (run_writer (w_u32 kMagic)) = 4" by (simp add: w_u32_def run_writer_put_le)
  then show ?thesis by (auto simp: print_region_def simp flip: length_greater_0_conv)
qed

lemma region_roundtrip:
  assumes "lz_trusted lz" and "entries_ok es"
  shows "parse_region lz (print_region lz es) = es"
proof -
  have n: "unat (of_nat (length es) :: u64) = length es" using assms(2) by (simp add: entries_ok_def)
  have entries: "reads (if \<not> False \<and> kMagic = kMagic \<and> (kVersion = kVersion \<or> kVersion = kVersionNoFlags)
      then read_entries lz kVersion (unat (of_nat (length es) :: u64)) [] else State_Monad.return (False, []))
      (run_writer (write_each (write_entry lz) es)) (False, es)"
    using reads_entries [OF assms(1), of "[]" es] assms(2) by (simp add: n)
  define p where "p = do {
     magic \<leftarrow> r_u32;
     version \<leftarrow> r_u32;
     count \<leftarrow> r_varint;
     failed \<leftarrow> r_failed;
     ces \<leftarrow> (if \<not> failed \<and> magic = kMagic \<and> (version = kVersion \<or> version = kVersionNoFlags)
       then read_entries lz version (unat count) []
       else State_Monad.return (False, []));
     failed \<leftarrow> r_failed;
     State_Monad.return (if failed \<or> fst ces \<or> magic \<noteq> kMagic \<or> (version \<noteq> kVersion \<and> version \<noteq> kVersionNoFlags)
       then [] else snd ces) }"
  have "print_region lz es = run_writer (w_u32 kMagic) @ run_writer (w_u32 kVersion) @
      run_writer (w_varint (of_nat (length es))) @ run_writer (write_each (write_entry lz) es)"
    by (simp add: print_region_def)
  moreover have "reads p \<dots> es"
    unfolding p_def
    by (intro reads_bind [OF reads_fixed(2)] reads_bind [OF reads_varint] reads_then [OF reads_failed]
        reads_bind_last [OF entries] reads_return_eq) simp
  ultimately have "reads p (print_region lz es) es" by simp
  from readsD [OF this, of "[]" "[]"] show ?thesis
    unfolding parse_region_def p_def [symmetric] by (simp add: reader_on_ok_at)
qed

section \<open>One file a region\<close>

lemma show_nat_inj: "show_nat m = show_nat n \<longleftrightarrow> m = n"
  by (metis decimal_show_nat)

lemma show_nat_no_minus: "show_nat n \<noteq> CHR ''-'' # s"
  using show_nat_digits [of "CHR ''-''" n] digit_plain(3) by (metis list.set_intros(1))

lemma show_int_inj: "show_int i = show_int j \<longleftrightarrow> i = j"
  by (auto simp: show_int_def show_nat_inj show_nat_no_minus show_nat_no_minus [symmetric] dest: sym split: if_splits)

lemma show_int_no_dot: "CHR ''.'' \<notin> set (show_int i)"
  using show_nat_digits [of "CHR ''.''"] digit_plain(1) by (auto simp: show_int_def)

lemma append_sep_inj:
  "x \<notin> set a \<Longrightarrow> x \<notin> set b \<Longrightarrow> a @ x # s = b @ x # t \<Longrightarrow> a = b \<and> s = t"
proof (induction a arbitrary: b)
  case Nil
  then show ?case by (cases b) auto
next
  case (Cons y a)
  then show ?case by (cases b) auto
qed

lemma key_halves:
  fixes k l :: i64
  assumes "(ucast (drop_bit 32 k) :: i32) = ucast (drop_bit 32 l)"
    and "(ucast (k AND 0xFFFFFFFF) :: i32) = ucast (l AND 0xFFFFFFFF)"
  shows "k = l"
proof (rule bit_word_eqI)
  fix n assume n: "n < LENGTH(64)"
  have mask: "(0xFFFFFFFF :: i64) = mask 32" by (simp add: mask_eq_exp_minus_1)
  show "bit k n = bit l n"
  proof (cases "n < 32")
    case True
    have "bit (ucast (k AND 0xFFFFFFFF) :: i32) n = bit (ucast (l AND 0xFFFFFFFF) :: i32) n" using assms(2) by simp
    with True show ?thesis unfolding mask by (simp add: bit_simps)
  next
    case False
    have "bit (ucast (drop_bit 32 k) :: i32) (n - 32) = bit (ucast (drop_bit 32 l) :: i32) (n - 32)" using assms(1) by simp
    moreover have "n - 32 < 32" using n by simp
    ultimately show ?thesis using False by (simp add: bit_simps)
  qed
qed

lemma region_path_inj: "region_path k = region_path l \<longleftrightarrow> k = l"
proof
  let ?rx = "\<lambda>k. sint (ucast (drop_bit 32 k) :: i32)" and ?rz = "\<lambda>k. sint (ucast (k AND 0xFFFFFFFF) :: i32)"
  assume "region_path k = region_path l"
  then have "show_int (?rx k) @ CHR ''.'' # show_int (?rz k) @ ''.vbr'' = show_int (?rx l) @ CHR ''.'' # show_int (?rz l) @ ''.vbr''"
    by (simp add: region_path_def Let_def)
  from append_sep_inj [OF show_int_no_dot show_int_no_dot this]
  have "?rx k = ?rx l" "?rz k = ?rz l" by (simp_all add: show_int_inj)
  then show "k = l" by (intro key_halves signed_word_eqI)
qed simp

section \<open>What a store holds\<close>

text \<open>
  The entry a load of a coordinate would find, in the regions read so far or on disk: a flush and
  a restart do not change it, and a save changes it for its own chunk alone.
\<close>

definition on_disk :: "region_store \<Rightarrow> i64 \<Rightarrow> (chunk_coord \<times> region_entry) list" where
  "on_disk st key = (case rst_disk st (region_path key) of None \<Rightarrow> []
     | Some raw \<Rightarrow> if raw = [] then [] else parse_region (rst_lz4 st) raw)"

lemma on_disk_regions [simp]: "on_disk (st\<lparr>rst_regions := rs\<rparr>) = on_disk st"
  by (rule ext) (simp add: on_disk_def split: option.split)

definition region_view :: "region_store \<Rightarrow> i64 \<Rightarrow> (chunk_coord \<times> region_entry) list" where
  "region_view st key = (case map_of (rst_regions st) key of
       Some r \<Rightarrow> rg_entries r
     | None \<Rightarrow> on_disk st key)"

definition saved :: "region_store \<Rightarrow> chunk_coord \<Rightarrow> region_entry option" where
  "saved st c = map_of (region_view st (region_key c)) c"

definition region_store_ok :: "region_store \<Rightarrow> bool" where
  "region_store_ok st \<longleftrightarrow> lz_trusted (rst_lz4 st) \<and> distinct (map fst (rst_regions st)) \<and>
     (\<forall>key r. map_of (rst_regions st) key = Some r \<longrightarrow>
        (if rg_dirty r then entries_ok (rg_entries r) else rg_entries r = on_disk st key))"

lemma new_region_store_ok: "lz_trusted lz \<Longrightarrow> region_store_ok (new_region_store lz disk)"
  by (simp add: region_store_ok_def new_region_store_def)

lemma region_for_view:
  assumes "region_for c st = (r, st')"
  shows "rg_entries r = region_view st (region_key c)" and "region_view st' = region_view st"
    and "map_of (rst_regions st') (region_key c) = Some r" and "rst_disk st' = rst_disk st"
    and "rst_lz4 st' = rst_lz4 st" and "region_store_ok st \<Longrightarrow> region_store_ok st'"
proof -
  let ?key = "region_key c"
  consider (read) "st' = st" "map_of (rst_regions st) ?key = Some r"
    | (new) "st' = st\<lparr>rst_regions := rst_regions st @ [(?key, r)]\<rparr>" "map_of (rst_regions st) ?key = None"
      "\<not> rg_dirty r" "rg_entries r = on_disk st ?key"
    using assms by (auto simp: region_for_def on_disk_def Let_def split: option.splits)
  note cases = this
  from cases show "rg_entries r = region_view st ?key" "map_of (rst_regions st') ?key = Some r"
    "rst_disk st' = rst_disk st" "rst_lz4 st' = rst_lz4 st"
    by (cases; simp add: region_view_def map_add_def)+
  from cases show "region_view st' = region_view st"
  proof cases
    case new
    then show ?thesis by (auto simp: region_view_def map_add_def fun_eq_iff split: option.split)
  qed simp
  from cases show "region_store_ok st'" if "region_store_ok st"
  proof cases
    case new
    then have "?key \<notin> fst ` set (rst_regions st)" by (simp add: map_of_eq_None_iff)
    with new that show ?thesis
      by (auto simp: region_store_ok_def map_add_def split: option.splits if_splits)
  qed (use that in simp)
qed

lemma put_region_view:
  "region_view (put_region c r st) key = (if key = region_key c then rg_entries r else region_view st key)"
  by (simp add: region_view_def put_region_def update_conv' cong: option.case_cong)

lemma put_region_ok:
  assumes "region_store_ok st" and "rg_dirty r" and "entries_ok (rg_entries r)"
  shows "region_store_ok (put_region c r st)"
  using assms by (auto simp: region_store_ok_def put_region_def distinct_update update_conv')

lemma saved_save:
  assumes "ch_revision ch \<noteq> 0"
    and "\<And>en. saved st (ch_coord ch) = Some en \<Longrightarrow> ren_revision en \<noteq> ch_revision ch"
  shows "saved (save_if_dirty ch st) = (saved st)(ch_coord ch \<mapsto>
    \<lparr>ren_payload = encode_chunk_payload ch, ren_revision = ch_revision ch\<rparr>)"
proof -
  obtain r st' where r: "region_for (ch_coord ch) st = (r, st')" by fastforce
  note view = region_for_view [OF r]
  have "\<not> (case map_of (rg_entries r) (ch_coord ch) of None \<Rightarrow> False | Some en \<Rightarrow> ren_revision en = ch_revision ch)"
    using assms(2) view(1) by (auto simp: saved_def split: option.split)
  then have save: "save_if_dirty ch st = put_region (ch_coord ch) (r\<lparr>rg_entries := AList.update (ch_coord ch)
      \<lparr>ren_payload = encode_chunk_payload ch, ren_revision = ch_revision ch\<rparr> (rg_entries r), rg_dirty := True\<rparr>) st'"
    using assms(1) by (simp add: save_if_dirty_def r Let_def)
  show ?thesis
    by (rule ext) (auto simp: save saved_def put_region_view view(1,2) update_conv')
qed

lemma saved_skip:
  "ch_revision ch = 0 \<or> (\<exists>en. saved st (ch_coord ch) = Some en \<and> ren_revision en = ch_revision ch) \<Longrightarrow>
   saved (save_if_dirty ch st) = saved st"
  using region_for_view [of "ch_coord ch" st "fst (region_for (ch_coord ch) st)" "snd (region_for (ch_coord ch) st)"]
  by (auto simp: save_if_dirty_def saved_def case_prod_unfold Let_def)

text \<open>Entries of a region below the caps of a file.\<close>

lemma save_ok:
  assumes "region_store_ok st" and "chunk_inv ch" and "entries_ok (region_view st (region_key (ch_coord ch)))"
    and "length (region_view st (region_key (ch_coord ch))) + 1 < 2 ^ 64"
  shows "region_store_ok (save_if_dirty ch st)"
proof -
  obtain r st' where r: "region_for (ch_coord ch) st = (r, st')" by fastforce
  note view = region_for_view [OF r]
  let ?en = "\<lparr>ren_payload = encode_chunk_payload ch, ren_revision = ch_revision ch\<rparr>"
  let ?es = "AList.update (ch_coord ch) ?en (rg_entries r)"
  have "length (AList.update k v al) \<le> length al + 1" for k :: chunk_coord and v :: region_entry and al
    by (induction al) auto
  from this [of "ch_coord ch" ?en "rg_entries r"] have "length ?es \<le> length (rg_entries r) + 1" .
  moreover have "set (AList.update k v al) \<subseteq> insert (k, v) (set al)" for k :: chunk_coord and v :: region_entry and al
    by (induction al) auto
  from this [of "ch_coord ch" ?en "rg_entries r"] have "set ?es \<subseteq> insert (ch_coord ch, ?en) (set (rg_entries r))" .
  moreover have "length (encode_chunk_payload ch) \<le> kMaxDecodedLength"
    using length_chunk_payload [OF assms(2)] by (simp add: kMaxDecodedLength_def)
  ultimately have "entries_ok ?es"
    using assms(3,4) view(1) unfolding entries_ok_def by (force simp: distinct_update)
  then show ?thesis
    using assms(1) view(6) by (auto simp: save_if_dirty_def r Let_def intro!: put_region_ok)
qed

lemma flush_fold:
  assumes "lz_trusted (rst_lz4 st)" and "distinct (map fst krs)"
    and "\<forall>kr \<in> set krs. rg_dirty (snd kr) \<longrightarrow> entries_ok (rg_entries (snd kr))"
  shows "rst_lz4 (fold flush_region krs st) = rst_lz4 st \<and>
    on_disk (fold flush_region krs st) key = (case map_of krs key of
       None \<Rightarrow> on_disk st key
     | Some r \<Rightarrow> if rg_dirty r then rg_entries r else on_disk st key)"
  using assms
proof (induction krs arbitrary: st)
  case (Cons kr krs)
  obtain k r where kr: "kr = (k, r)" by fastforce
  let ?st = "flush_region kr st"
  have lz: "rst_lz4 ?st = rst_lz4 st" by (simp add: flush_region_def)
  have disk: "on_disk ?st key = (if key = k \<and> rg_dirty r then rg_entries r else on_disk st key)"
    using Cons.prems(1,3) print_region_nonempty region_roundtrip [of "rst_lz4 st" "rg_entries r"]
    by (simp add: flush_region_def on_disk_def kr region_path_inj split: option.split)
  have fresh: "map_of krs k = None" using Cons.prems(2) by (simp add: kr map_of_eq_None_iff)
  from Cons.IH [of ?st] Cons.prems lz disk fresh show ?case
    by (auto simp: kr split: option.split)
qed simp

theorem reopen_after_flush:
  assumes "region_store_ok st"
  shows "saved (new_region_store (rst_lz4 st) (rst_disk (rs_flush st))) = saved st"
proof (rule ext)
  fix c
  let ?key = "region_key c" and ?new = "new_region_store (rst_lz4 st) (rst_disk (rs_flush st))"
  have regions: "map_of (rst_regions st) k = Some r" if "(k, r) \<in> set (rst_regions st)" for k r
    using assms that by (simp add: region_store_ok_def)
  have "\<forall>kr \<in> set (rst_regions st). rg_dirty (snd kr) \<longrightarrow> entries_ok (rg_entries (snd kr))"
    using assms regions by (fastforce simp: region_store_ok_def)
  with flush_fold [of st "rst_regions st" ?key] assms
  have disk: "rst_lz4 (rs_flush st) = rst_lz4 st" "on_disk (rs_flush st) ?key = (case map_of (rst_regions st) ?key of
       None \<Rightarrow> on_disk st ?key
     | Some r \<Rightarrow> if rg_dirty r then rg_entries r else on_disk st ?key)"
    by (simp_all add: region_store_ok_def rs_flush_def)
  have "on_disk ?new = on_disk (rs_flush st)"
    by (rule ext) (simp add: on_disk_def new_region_store_def disk(1) split: option.split)
  then have "region_view ?new ?key = on_disk (rs_flush st) ?key"
    by (simp add: region_view_def new_region_store_def)
  also have "\<dots> = region_view st ?key"
    using disk(2) assms by (auto simp: region_view_def region_store_ok_def split: option.splits)
  finally show "saved ?new c = saved st c" by (simp add: saved_def)
qed

text \<open>A saved chunk is the chunk that loads: its blocks, its light and its revision.\<close>

lemma load_saved:
  assumes "saved st c = Some \<lparr>ren_payload = encode_chunk_payload ch, ren_revision = r\<rparr>" and "chunk_inv ch"
  shows "\<exists>d st'. rs_load c st = Some (Some d, st') \<and> saved st' = saved st \<and> chunk_inv d \<and> ch_coord d = c \<and>
    voxels (ch_blocks d) = voxels (ch_blocks ch) \<and> ch_light d = ch_light ch \<and> ch_revision d = r"
proof -
  obtain rg st' where rg: "region_for c st = (rg, st')" by fastforce
  obtain d where d: "decode_chunk_payload (encode_chunk_payload ch) (new_chunk c) = Some (None, d)"
    "chunk_inv d" "voxels (ch_blocks d) = voxels (ch_blocks ch)" "ch_light d = ch_light ch" "ch_coord d = c"
    using chunk_payload_roundtrip [OF assms(2), of "new_chunk c"] by (auto simp: new_chunk_def)
  have "map_of (rg_entries rg) c = Some \<lparr>ren_payload = encode_chunk_payload ch, ren_revision = r\<rparr>"
    using assms(1) region_for_view(1) [OF rg] by (simp add: saved_def)
  then have "rs_load c st = Some (Some (d\<lparr>ch_revision := r\<rparr>), st')"
    by (simp add: rs_load_def rg d(1))
  moreover have "saved st' = saved st" using region_for_view(2) [OF rg] by (simp add: saved_def fun_eq_iff)
  ultimately show ?thesis using d by (auto simp: chunk_inv_def)
qed

end
