(* ===== verification/Chunk_Lifecycle.thy ===== *)
theory Chunk_Lifecycle
  imports Light_Column Region_Store
begin

text \<open>
  \<open>WorldGenWorkerPool\<close> of \<open>worldgen/worker_pool.hpp\<close> and \<open>.cpp\<close> and \<open>ChunkLifecycleSystem\<close> of
  \<open>world/chunk_lifecycle.hpp\<close> and \<open>.cpp\<close>: the queue of chunks to generate, and the update that
  inserts and lights finished chunks, requests missing ones and unloads the rest. The generator
  (noise) is an argument; a worker thread takes and finishes chunks in steps of its own between two
  calls. What the clock answers is an argument too: \<open>late k\<close> is the \<open>k\<close>-th reading of
  \<open>over_time\<close> in an update. \<open>order\<close> is the order in which the world's hash map lists its chunks.
\<close>

section \<open>The worker pool\<close>

record worker_pool =
  wp_generate :: "chunk \<Rightarrow> chunk"
  wp_synchronous :: bool
  wp_queue :: "chunk_coord list"
  wp_in_flight :: "chunk_coord list"
  wp_completed :: "chunk list"

definition submit :: "chunk_coord \<Rightarrow> worker_pool \<Rightarrow> bool \<times> worker_pool" where
  "submit c p = (
     if c \<in> set (wp_in_flight p) then (False, p)
     else if c \<in> set (wp_queue p) then (False, p)
     else if wp_synchronous p then (True, p\<lparr>wp_completed := wp_completed p @ [wp_generate p (new_chunk c)]\<rparr>)
     else (True, p\<lparr>wp_queue := wp_queue p @ [c]\<rparr>))"

definition poll_completed :: "worker_pool \<Rightarrow> chunk list \<times> worker_pool" where
  "poll_completed p = (wp_completed p, p\<lparr>wp_completed := []\<rparr>)"

definition pending_chunks :: "worker_pool \<Rightarrow> nat" where
  "pending_chunks p = length (wp_queue p) + length (wp_in_flight p)"

text \<open>The two critical sections of a worker's turn.\<close>

inductive worker_step :: "worker_pool \<Rightarrow> worker_pool \<Rightarrow> bool" where
  take: "wp_queue p = c # cs \<Longrightarrow>
    worker_step p (p\<lparr>wp_queue := cs, wp_in_flight := c # wp_in_flight p\<rparr>)"
| finish: "c \<in> set (wp_in_flight p) \<Longrightarrow>
    worker_step p (p\<lparr>wp_in_flight := removeAll c (wp_in_flight p),
      wp_completed := wp_completed p @ [wp_generate p (new_chunk c)]\<rparr>)"

section \<open>The lifecycle\<close>

definition kIngestBatch :: nat where
  "kIngestBatch = 4"

record lifecycle =
  lc_light :: light_engine
  lc_region_store :: "region_store option"
  lc_ingest_budget :: nat
  lc_requested :: "chunk_coord set"
  lc_newly_ready :: "chunk_coord list"
  lc_unloaded :: "chunk_coord list"
  lc_backlog :: "chunk list"

definition new_lifecycle :: "block_registry \<Rightarrow> lifecycle" where
  "new_lifecycle r = \<lparr>lc_light = new_light_engine r, lc_region_store = None, lc_ingest_budget = 32,
     lc_requested = {}, lc_newly_ready = [], lc_unloaded = [], lc_backlog = []\<rparr>"

text \<open>What one update works on: the lifecycle, the world, the pool and the update's own locals.\<close>

record update_state =
  us_life :: lifecycle
  us_world :: world
  us_pool :: worker_pool
  us_progressed :: bool
  us_queries :: nat
  us_disk_loads :: nat

definition over_time :: "(nat \<Rightarrow> bool) \<Rightarrow> update_state \<Rightarrow> bool \<times> update_state" where
  "over_time late s = (us_progressed s \<and> late (us_queries s), s\<lparr>us_queries := us_queries s + 1\<rparr>)"

text \<open>Insert and light one chunk, as both ways in do after \<open>insert_chunk\<close>.\<close>

definition relight_at :: "chunk_coord \<Rightarrow> update_state \<Rightarrow> update_state" where
  "relight_at c s = s
     \<lparr>us_world := (us_world s)\<lparr>wo_chunks := fst (relight_column (lc_light (us_life s)) c (wo_chunks (us_world s)))\<rparr>,
      us_life := (us_life s)\<lparr>lc_newly_ready := lc_newly_ready (us_life s) @ [c]\<rparr>\<rparr>"

text \<open>At most \<open>n\<close> chunks off the backlog; the wanted ones are inserted, unlit.\<close>

primrec take_batch :: "chunk_coord set \<Rightarrow> nat \<Rightarrow> update_state \<Rightarrow> nat \<times> chunk_coord list \<times> update_state" where
  "take_batch wanted 0 s = (0, [], s)"
| "take_batch wanted (Suc n) s = (case lc_backlog (us_life s) of
       [] \<Rightarrow> (0, [], s)
     | ch # rest \<Rightarrow>
         let c = ch_coord ch;
             s = s\<lparr>us_life := (us_life s)\<lparr>lc_backlog := rest, lc_requested := lc_requested (us_life s) - {c}\<rparr>\<rparr>;
             s = (if c \<in> wanted then s\<lparr>us_world := insert_chunk (ch\<lparr>ch_gen_state := kGenerated\<rparr>) (us_world s)\<rparr> else s);
             (taken, just_inserted, s) = take_batch wanted n s in
         (Suc taken, (if c \<in> wanted then c # just_inserted else just_inserted), s))"

lemma take_batch_backlog:
  "lc_backlog (us_life (snd (snd (take_batch wanted n s)))) = drop n (lc_backlog (us_life s))"
  by (induction n arbitrary: s) (auto simp: Let_def case_prod_unfold split: list.split)

function ingest_loop :: "(nat \<Rightarrow> bool) \<Rightarrow> chunk_coord set \<Rightarrow> nat \<Rightarrow> update_state \<Rightarrow> update_state" where
  "ingest_loop late wanted taken s = (
     if \<not> taken < lc_ingest_budget (us_life s) \<or> lc_backlog (us_life s) = [] then s
     else
       let (over, s) = over_time late s in
       if over then s
       else
         let (n, just_inserted, s) = take_batch wanted (min kIngestBatch (lc_ingest_budget (us_life s) - taken))
               (s\<lparr>us_progressed := True\<rparr>) in
         ingest_loop late wanted (taken + n) (fold relight_at just_inserted s))"
  by pat_completeness auto
termination
proof (relation "measure (\<lambda>(late, wanted, taken, s). length (lc_backlog (us_life s)))", goal_cases)
  case (2 late wanted taken s x over s1 y n z just_inserted s2)
  have keep: "lc_backlog (us_life (fold relight_at cs t)) = lc_backlog (us_life t)" for cs t
    by (induction cs arbitrary: t) (simp_all add: relight_at_def)
  have s1: "lc_backlog (us_life s1) = lc_backlog (us_life s)" "lc_ingest_budget (us_life s1) = lc_ingest_budget (us_life s)"
    using 2(2,3) by (auto simp: over_time_def)
  have "take_batch wanted (min kIngestBatch (lc_ingest_budget (us_life s1) - taken)) (s1\<lparr>us_progressed := True\<rparr>) =
      (n, just_inserted, s2)" using 2(5-7) by simp
  from arg_cong [OF this, of "\<lambda>r. lc_backlog (us_life (snd (snd r)))"]
  have "lc_backlog (us_life s2) = drop (min kIngestBatch (lc_ingest_budget (us_life s1) - taken)) (lc_backlog (us_life s1))"
    by (simp add: take_batch_backlog)
  with 2(1) s1 show ?case by (simp add: keep kIngestBatch_def)
qed simp

declare ingest_loop.simps [simp del]

definition ingest :: "(nat \<Rightarrow> bool) \<Rightarrow> chunk_coord set \<Rightarrow> update_state \<Rightarrow> update_state" where
  "ingest late wanted s = (
     let (completed, pool) = poll_completed (us_pool s);
         s = s\<lparr>us_pool := pool, us_life := (us_life s)\<lparr>lc_backlog := lc_backlog (us_life s) @ completed\<rparr>\<rparr> in
     ingest_loop late wanted 0 s)"

definition submit_missing :: "chunk_coord \<Rightarrow> update_state \<Rightarrow> update_state" where
  "submit_missing c s = (
     let (fresh, pool) = submit c (us_pool s);
         s = s\<lparr>us_pool := pool\<rparr> in
     if fresh then s\<lparr>us_life := (us_life s)\<lparr>lc_requested := insert c (lc_requested (us_life s))\<rparr>\<rparr> else s)"

text \<open>Ask for one desired chunk. \<open>None\<close>: the saved payload's decoding has no defined result.\<close>

definition request_one :: "(nat \<Rightarrow> bool) \<Rightarrow> chunk_coord \<Rightarrow> update_state \<Rightarrow> update_state option" where
  "request_one late c s = (
     if has_chunk (us_world s) c \<or> c \<in> lc_requested (us_life s) then Some s
     else case lc_region_store (us_life s) of
       None \<Rightarrow> Some (submit_missing c s)
     | Some rs \<Rightarrow> (case rs_load c rs of
           None \<Rightarrow> None
         | Some (loaded, rs) \<Rightarrow>
             let s = s\<lparr>us_life := (us_life s)\<lparr>lc_region_store := Some rs\<rparr>\<rparr> in
             (case loaded of
               None \<Rightarrow> Some (submit_missing c s)
             | Some ch \<Rightarrow>
                 if us_disk_loads s \<ge> lc_ingest_budget (us_life s) then Some s
                 else
                   let (over, s) = over_time late s in
                   if over then Some s
                   else
                     let s = s\<lparr>us_disk_loads := us_disk_loads s + 1, us_progressed := True,
                              us_world := insert_chunk (ch\<lparr>ch_gen_state := kGenerated\<rparr>) (us_world s)\<rparr> in
                     Some (relight_at c s))))"

primrec request_all :: "(nat \<Rightarrow> bool) \<Rightarrow> chunk_coord list \<Rightarrow> update_state \<Rightarrow> update_state option" where
  "request_all late [] s = Some s"
| "request_all late (c # cs) s = Option.bind (request_one late c s) (request_all late cs)"

definition unload_one :: "chunk_coord set \<Rightarrow> chunk_coord \<Rightarrow> update_state \<Rightarrow> update_state" where
  "unload_one wanted c s = (
     if c \<in> wanted then s
     else
       let life = us_life s;
           life = (case lc_region_store life of
               None \<Rightarrow> life
             | Some rs \<Rightarrow> (case find_chunk (us_world s) c of
                   None \<Rightarrow> life
                 | Some ch \<Rightarrow> life\<lparr>lc_region_store := Some (save_if_dirty ch rs)\<rparr>)) in
       s\<lparr>us_world := snd (unload_chunk c (us_world s)), us_life := life\<lparr>lc_unloaded := lc_unloaded life @ [c]\<rparr>\<rparr>)"

definition update_world :: "(nat \<Rightarrow> bool) \<Rightarrow> (world \<Rightarrow> chunk_coord list) \<Rightarrow> chunk_coord list \<Rightarrow>
    lifecycle \<times> world \<times> worker_pool \<Rightarrow> (lifecycle \<times> world \<times> worker_pool) option" where
  "update_world late order desired lwp = (case lwp of (life, w, p) \<Rightarrow>
     let wanted = set desired;
         s = \<lparr>us_life = life\<lparr>lc_newly_ready := [], lc_unloaded := []\<rparr>, us_world = w, us_pool = p,
              us_progressed = False, us_queries = 0, us_disk_loads = 0\<rparr> in
     (case request_all late desired (ingest late wanted s) of
        None \<Rightarrow> None
      | Some s \<Rightarrow>
          let s = ingest late wanted s;
              s = fold (unload_one wanted) (order (us_world s)) s;
              life = us_life s in
          Some (life\<lparr>lc_requested := lc_requested life \<inter> wanted\<rparr>, us_world s, us_pool s)))"

end
