(* ===== verification/Lifecycle_Laws.thy ===== *)
theory Lifecycle_Laws
  imports Chunk_Lifecycle
begin

text \<open>
  What \<open>ChunkLifecycleSystem::update\<close> promises: only wanted chunks stay loaded, every loaded chunk is
  well formed and under its own coordinate, a loaded chunk is not disturbed, and streaming always
  advances: whatever the clock answers and whatever is on disk, the work left falls in every round
  in which the workers are idle or finish a step, until every wanted chunk is loaded.
\<close>

section \<open>The state of an update\<close>

definition gen_ok :: "(chunk \<Rightarrow> chunk) \<Rightarrow> bool" where
  "gen_ok g \<longleftrightarrow> (\<forall>c. chunk_inv (g (new_chunk c)) \<and> ch_coord (g (new_chunk c)) = c)"

definition busy :: "worker_pool \<Rightarrow> chunk_coord set" where
  "busy p = set (wp_queue p) \<union> set (wp_in_flight p)"

definition made :: "update_state \<Rightarrow> chunk list" where
  "made s = lc_backlog (us_life s) @ wp_completed (us_pool s)"

definition is_loaded :: "update_state \<Rightarrow> chunk_coord \<Rightarrow> bool" where
  "is_loaded s = has_chunk (us_world s)"

definition state_ok :: "update_state \<Rightarrow> bool" where
  "state_ok s \<longleftrightarrow> world_ok (us_world s) \<and> finite (Collect (is_loaded s)) \<and> gen_ok (wp_generate (us_pool s)) \<and>
     (\<forall>ch \<in> set (made s). chunk_inv ch) \<and>
     lc_requested (us_life s) \<subseteq> busy (us_pool s) \<union> ch_coord ` set (made s)"

text \<open>Wanted chunks that are neither loaded nor asked for, and the work left.\<close>

definition unasked :: "chunk_coord set \<Rightarrow> update_state \<Rightarrow> chunk_coord set" where
  "unasked D s = {c \<in> D. \<not> is_loaded s c \<and> c \<notin> lc_requested (us_life s)}"

definition work :: "chunk_coord set \<Rightarrow> update_state \<Rightarrow> nat" where
  "work D s = 3 * length (wp_queue (us_pool s)) + 2 * length (wp_in_flight (us_pool s)) + length (made s) +
     4 * card (unasked D s)"

text \<open>A step of an update that loses nothing.\<close>

definition keeps :: "chunk_coord set \<Rightarrow> update_state \<Rightarrow> update_state \<Rightarrow> bool" where
  "keeps D s t \<longleftrightarrow> (state_ok s \<longrightarrow> state_ok t \<and> work D t \<le> work D s) \<and>
     (\<forall>c \<in> D. is_loaded s c \<longrightarrow> is_loaded t c) \<and>
     lc_ingest_budget (us_life t) = lc_ingest_budget (us_life s)"

lemma keeps_refl: "keeps D s s"
  by (simp add: keeps_def)

lemma keeps_trans: "keeps D s t \<Longrightarrow> keeps D t u \<Longrightarrow> keeps D s u"
  by (auto simp: keeps_def)

lemma keepsD: "keeps D s t \<Longrightarrow> state_ok s \<Longrightarrow> state_ok t \<and> work D t \<le> work D s"
  by (simp add: keeps_def)

lemma card_mono_unasked: "finite D \<Longrightarrow> unasked D t \<subseteq> unasked D s \<Longrightarrow> card (unasked D t) \<le> card (unasked D s)"
  by (intro card_mono) (auto simp: unasked_def)

lemma card_less_unasked:
  assumes "finite D" and "unasked D t \<subseteq> unasked D s - {c}" and "c \<in> unasked D s"
  shows "card (unasked D t) < card (unasked D s)"
  using assms by (intro psubset_card_mono) (auto simp: unasked_def)

section \<open>Lighting an inserted chunk\<close>

lemma relight_world_ok:
  assumes "world_ok w" and "wo_chunks w' = fst (relight_column e c (wo_chunks w))"
  shows "world_ok w'"
  unfolding world_ok_def
proof (intro allI impI)
  fix d ch assume ch: "wo_chunks w' d = Some ch"
  obtain cs evs where r: "relight_column e c (wo_chunks w) = (cs, evs)" by fastforce
  note rep = relight_column_reported(1) [OF r]
  have cs: "cs d = Some ch" using ch assms(2) r by simp
  show "chunk_inv ch \<and> ch_coord ch = d"
  proof (cases "d \<in> fst ` set evs")
    case True
    then obtain before after where "(d, before, after) \<in> set evs" by force
    from reportedD [OF rep this] cs world_okD [OF assms(1)] show ?thesis
      by (auto simp: relit_from_def chunk_inv_def)
  next
    case False
    with rep cs assms(1) show ?thesis by (auto simp: reported_def world_ok_def)
  qed
qed

lemma relight_blocks:
  assumes "wo_chunks w' = fst (relight_column e c (wo_chunks w))"
  shows "map_option ch_blocks (wo_chunks w' d) = map_option ch_blocks (wo_chunks w d)"
  using reported_blocks [OF relight_column_reported(1), of e c "wo_chunks w"] assms
  by (metis prod.collapse)

lemma relight_at_blocks [simp]:
  "map_option ch_blocks (wo_chunks (us_world (relight_at c s)) d) = map_option ch_blocks (wo_chunks (us_world s) d)"
  by (rule relight_blocks) (simp add: relight_at_def)

lemma relight_at_loaded [simp]: "is_loaded (relight_at c s) d = is_loaded s d"
  using relight_at_blocks [of c s d] unfolding is_loaded_def has_chunk_def
  by (metis map_option_is_None)

lemma relight_at_same [simp]:
  "us_pool (relight_at c s) = us_pool s" "lc_backlog (us_life (relight_at c s)) = lc_backlog (us_life s)"
  "lc_requested (us_life (relight_at c s)) = lc_requested (us_life s)"
  "lc_ingest_budget (us_life (relight_at c s)) = lc_ingest_budget (us_life s)"
  "lc_region_store (us_life (relight_at c s)) = lc_region_store (us_life s)"
  "us_progressed (relight_at c s) = us_progressed s" "us_disk_loads (relight_at c s) = us_disk_loads s"
  by (simp_all add: relight_at_def)

lemma relight_at_keeps: "keeps D s (relight_at c s)"
proof -
  have "state_ok (relight_at c s)" if "state_ok s"
  proof -
    have "world_ok (us_world (relight_at c s))"
      by (rule relight_world_ok [of "us_world s" _ "lc_light (us_life s)" c])
        (use that in \<open>simp_all add: state_ok_def relight_at_def\<close>)
    moreover have "is_loaded (relight_at c s) = is_loaded s" by (rule ext) simp
    ultimately show ?thesis using that by (simp add: state_ok_def made_def)
  qed
  then show ?thesis by (simp add: keeps_def work_def unasked_def made_def)
qed

lemma relight_all_keeps: "keeps D s (fold relight_at cs s)"
  by (induction cs arbitrary: s) (auto intro: keeps_refl keeps_trans [OF relight_at_keeps])

lemma relight_all_same [simp]: "us_progressed (fold relight_at cs s) = us_progressed s"
  by (induction cs arbitrary: s) simp_all


section \<open>Ingestion\<close>

text \<open>Taking the first chunk off the backlog.\<close>

definition take_one :: "chunk_coord set \<Rightarrow> update_state \<Rightarrow> update_state" where
  "take_one wanted s = (case lc_backlog (us_life s) of
       [] \<Rightarrow> s
     | ch # rest \<Rightarrow>
         let c = ch_coord ch;
             s = s\<lparr>us_life := (us_life s)\<lparr>lc_backlog := rest, lc_requested := lc_requested (us_life s) - {c}\<rparr>\<rparr> in
         if c \<in> wanted then s\<lparr>us_world := insert_chunk (ch\<lparr>ch_gen_state := kGenerated\<rparr>) (us_world s)\<rparr> else s)"

lemma take_batch_one:
  "snd (snd (take_batch wanted (Suc n) s)) =
     (if lc_backlog (us_life s) = [] then s else snd (snd (take_batch wanted n (take_one wanted s))))"
  by (simp add: take_one_def Let_def case_prod_unfold split: list.split)

lemma inserted_ok: "world_ok w \<Longrightarrow> chunk_inv ch \<Longrightarrow> world_ok (insert_chunk (ch\<lparr>ch_gen_state := g\<rparr>) w)"
  by (rule insert_chunk_ok) (simp_all add: chunk_inv_def)

lemma loaded_insert [simp]: "has_chunk (insert_chunk ch w) c \<longleftrightarrow> c = ch_coord ch \<or> has_chunk w c"
  by (auto simp: has_chunk_def insert_chunk_def)

lemma take_one_keeps:
  assumes "finite D"
  shows "keeps D s (take_one D s)"
    and "state_ok s \<Longrightarrow> lc_backlog (us_life s) \<noteq> [] \<Longrightarrow> work D (take_one D s) < work D s"
proof -
  have step: "keeps D s (take_one D s) \<and> (state_ok s \<longrightarrow> work D (take_one D s) < work D s)"
    if q: "lc_backlog (us_life s) = ch # rest" for ch rest
  proof -
    let ?t = "take_one D s" and ?c = "ch_coord ch"
    have made: "made s = ch # made ?t" by (simp add: made_def q take_one_def Let_def)
    have life: "lc_requested (us_life ?t) = lc_requested (us_life s) - {?c}" "us_pool ?t = us_pool s"
      "lc_ingest_budget (us_life ?t) = lc_ingest_budget (us_life s)"
      by (simp_all add: q take_one_def Let_def)
    have loaded: "is_loaded ?t d \<longleftrightarrow> (d = ?c \<and> ?c \<in> D) \<or> is_loaded s d" for d
      by (auto simp: is_loaded_def q take_one_def Let_def)
    have "unasked D ?t \<subseteq> unasked D s" by (auto simp: unasked_def loaded life)
    with card_mono_unasked [OF assms this] have less: "work D ?t < work D s" by (simp add: work_def made life)
    have "state_ok ?t" if "state_ok s"
    proof -
      have "world_ok (us_world ?t)"
        using that made by (auto simp: state_ok_def q take_one_def Let_def intro: inserted_ok)
      moreover have "finite (Collect (is_loaded ?t))"
        by (rule finite_subset [of _ "insert ?c (Collect (is_loaded s))"]) (use that loaded in \<open>auto simp: state_ok_def\<close>)
      ultimately show ?thesis using that by (auto simp: state_ok_def made life)
    qed
    with less loaded life show ?thesis by (auto simp: keeps_def)
  qed
  show "keeps D s (take_one D s)"
  proof (cases "lc_backlog (us_life s)")
    case Nil
    then show ?thesis by (simp add: take_one_def keeps_refl)
  qed (use step in blast)
  show "work D (take_one D s) < work D s" if "state_ok s" "lc_backlog (us_life s) \<noteq> []"
    using step that by (cases "lc_backlog (us_life s)") auto
qed

lemma take_batch_keeps:
  assumes "finite D"
  shows "keeps D s (snd (snd (take_batch D n s)))"
proof (induction n arbitrary: s)
  case (Suc n)
  show ?case unfolding take_batch_one
    using keeps_trans [OF take_one_keeps(1) [OF assms] Suc] by (simp add: keeps_refl)
qed (simp add: keeps_refl)

lemma take_batch_progress:
  assumes "finite D" and "state_ok s" and "lc_backlog (us_life s) \<noteq> []" and "0 < n"
  shows "work D (snd (snd (take_batch D n s))) < work D s"
proof -
  obtain m where n: "n = Suc m" using assms(4) by (cases n) simp_all
  note one = take_one_keeps [OF assms(1), of s]
  have "state_ok (take_one D s)" using one(1) assms(2) by (simp add: keeps_def)
  from keepsD [OF take_batch_keeps [OF assms(1)] this, of m] one(2) assms(2,3)
  show ?thesis by (simp add: n take_batch_one del: take_batch.simps)
qed

lemma note_keeps:
  "keeps D s (snd (over_time late s))" "keeps D s (s\<lparr>us_progressed := b\<rparr>)"
  by (simp_all add: keeps_def over_time_def state_ok_def made_def work_def unasked_def is_loaded_def)

lemma ingest_loop_keeps:
  assumes "finite D"
  shows "keeps D s (ingest_loop late D taken s)"
  using assms
proof (induction late D taken s rule: ingest_loop.induct)
  case (1 late D taken s)
  show ?case
  proof (cases "\<not> taken < lc_ingest_budget (us_life s) \<or> lc_backlog (us_life s) = []")
    case True
    then show ?thesis by (simp add: ingest_loop.simps [of late D taken s] keeps_refl)
  next
    case more: False
    obtain over s1 where o: "over_time late s = (over, s1)" by fastforce
    obtain n just s2 where b: "take_batch D (min kIngestBatch (lc_ingest_budget (us_life s1) - taken))
        (s1\<lparr>us_progressed := True\<rparr>) = (n, just, s2)" using prod_cases3 by blast
    have k1: "keeps D s s1" using note_keeps(1) [of D s late] by (simp add: o)
    show ?thesis
    proof (cases over)
      case True
      with more k1 show ?thesis by (simp add: ingest_loop.simps [of late D taken s] o)
    next
      case False
      have "keeps D (s1\<lparr>us_progressed := True\<rparr>) s2"
        using take_batch_keeps [OF 1(2), of "s1\<lparr>us_progressed := True\<rparr>"] b by (metis snd_conv)
      note k2 = keeps_trans [OF keeps_trans [OF k1 note_keeps(2)] this]
      have "keeps D (fold relight_at just s2) (ingest_loop late D (taken + n) (fold relight_at just s2))"
        using 1(1) [OF more o [symmetric] refl False b [symmetric] refl refl] 1(2) by simp
      from keeps_trans [OF k2 keeps_trans [OF relight_all_keeps this]] show ?thesis
        using more False by (simp add: ingest_loop.simps [of late D taken s] o b)
    qed
  qed
qed


lemma ingest_loop_progress:
  assumes "finite D" and "state_ok s" and "lc_backlog (us_life s) \<noteq> []" and "0 < lc_ingest_budget (us_life s)"
    and "\<not> us_progressed s"
  shows "work D (ingest_loop late D 0 s) < work D s"
proof -
  let ?s1 = "snd (over_time late s)"
  obtain n just s2 where b: "take_batch D (min kIngestBatch (lc_ingest_budget (us_life ?s1) - 0))
      (?s1\<lparr>us_progressed := True\<rparr>) = (n, just, s2)" using prod_cases3 by blast
  have out: "ingest_loop late D 0 s = ingest_loop late D (0 + n) (fold relight_at just s2)"
    using assms(3-5) b by (simp add: ingest_loop.simps [of late D 0 s] over_time_def)
  have k1: "keeps D s (?s1\<lparr>us_progressed := True\<rparr>)" by (rule keeps_trans [OF note_keeps])
  note ok1 = keepsD [OF k1 assms(2)]
  have s1: "lc_backlog (us_life ?s1) = lc_backlog (us_life s)" "lc_ingest_budget (us_life ?s1) = lc_ingest_budget (us_life s)"
    by (simp_all add: over_time_def)
  have "work D s2 < work D (?s1\<lparr>us_progressed := True\<rparr>)"
    using take_batch_progress [OF assms(1), of "?s1\<lparr>us_progressed := True\<rparr>" "min kIngestBatch (lc_ingest_budget (us_life ?s1) - 0)"]
      ok1 b assms(3,4) by (simp add: kIngestBatch_def s1)
  moreover have "state_ok s2"
    using take_batch_keeps [OF assms(1), of "?s1\<lparr>us_progressed := True\<rparr>" "min kIngestBatch (lc_ingest_budget (us_life ?s1) - 0)"]
      ok1 b keepsD by fastforce
  note keepsD [OF keeps_trans [OF relight_all_keeps ingest_loop_keeps [OF assms(1)]] this, of late "0 + n" just]
  ultimately show ?thesis unfolding out using ok1 by simp
qed

definition polled :: "update_state \<Rightarrow> update_state" where
  "polled s = s\<lparr>us_pool := snd (poll_completed (us_pool s)),
     us_life := (us_life s)\<lparr>lc_backlog := lc_backlog (us_life s) @ fst (poll_completed (us_pool s))\<rparr>\<rparr>"

lemma ingest_polled: "ingest late D s = ingest_loop late D 0 (polled s)"
  by (simp add: ingest_def polled_def Let_def case_prod_unfold)

lemma polled_same:
  "made (polled s) = made s" "busy (us_pool (polled s)) = busy (us_pool s)" "lc_backlog (us_life (polled s)) = made s"
  "us_progressed (polled s) = us_progressed s" "lc_ingest_budget (us_life (polled s)) = lc_ingest_budget (us_life s)"
  "us_world (polled s) = us_world s" "lc_requested (us_life (polled s)) = lc_requested (us_life s)"
  "wp_generate (us_pool (polled s)) = wp_generate (us_pool s)" "wp_queue (us_pool (polled s)) = wp_queue (us_pool s)"
  "wp_in_flight (us_pool (polled s)) = wp_in_flight (us_pool s)"
  by (simp_all add: polled_def made_def poll_completed_def busy_def)

lemma polled_keeps: "keeps D s (polled s)" "work D (polled s) = work D s"
  by (simp_all add: keeps_def state_ok_def polled_same work_def unasked_def is_loaded_def)

lemma ingest_keeps: "finite D \<Longrightarrow> keeps D s (ingest late D s)"
  unfolding ingest_polled by (rule keeps_trans [OF polled_keeps(1) ingest_loop_keeps])

lemma ingest_progress:
  assumes "finite D" and "state_ok s" and "made s \<noteq> []" and "0 < lc_ingest_budget (us_life s)" and "\<not> us_progressed s"
  shows "work D (ingest late D s) < work D s"
  using ingest_loop_progress [OF assms(1), of "polled s" late] assms keepsD [OF polled_keeps(1) [of D s] assms(2)]
  by (simp add: ingest_polled polled_same polled_keeps(2))

lemma ingest_idle: "made s = [] \<Longrightarrow> ingest late D s = s"
  by (simp add: ingest_polled ingest_loop.simps [of late D 0] polled_same)
    (simp add: polled_def made_def poll_completed_def)


section \<open>Requests\<close>

lemma decode_keeps_coord:
  "decode_chunk_payload payload out = Some (res, c') \<Longrightarrow> ch_coord c' = ch_coord out"
  by (auto simp: decode_chunk_payload_def Let_def case_prod_unfold split: if_splits option.splits sum.splits)

lemma rs_load_chunk:
  "rs_load c st = Some (Some ch, st') \<Longrightarrow> chunk_inv ch \<and> ch_coord ch = c"
proof -
  assume load: "rs_load c st = Some (Some ch, st')"
  obtain r st1 where rf: "region_for c st = (r, st1)" by fastforce
  have "\<exists>(en :: region_entry) d. decode_chunk_payload (ren_payload en) (new_chunk c) = Some (None, d) \<and>
      ch = d\<lparr>ch_revision := ren_revision en\<rparr>"
    using load by (simp add: rs_load_def rf split: option.splits prod.splits) blast
  then obtain en :: region_entry and d where d: "decode_chunk_payload (ren_payload en) (new_chunk c) = Some (None, d)"
      "ch = d\<lparr>ch_revision := ren_revision en\<rparr>" by blast
  from decode_chunk_inv [OF new_chunk_inv d(1)] decode_keeps_coord [OF d(1)] show ?thesis
    by (simp add: d(2) chunk_inv_def new_chunk_def)
qed

lemma submit_missing_cases:
  obtains (waits) "c \<in> busy (us_pool s)" "submit_missing c s = s"
  | (sent) "c \<notin> busy (us_pool s)" "us_life (submit_missing c s) = (us_life s)\<lparr>lc_requested := insert c (lc_requested (us_life s))\<rparr>"
      "us_world (submit_missing c s) = us_world s"
      "us_pool (submit_missing c s) = (us_pool s)\<lparr>wp_completed := wp_completed (us_pool s) @ [wp_generate (us_pool s) (new_chunk c)]\<rparr> \<or>
       us_pool (submit_missing c s) = (us_pool s)\<lparr>wp_queue := wp_queue (us_pool s) @ [c]\<rparr>"
  by (cases "c \<in> busy (us_pool s)") (auto simp: submit_missing_def submit_def busy_def split: if_splits)

lemma submit_missing_keeps:
  assumes "finite D" and "\<not> is_loaded s c" and "c \<notin> lc_requested (us_life s)" and "c \<in> D"
  shows "keeps D s (submit_missing c s)"
    and "c \<notin> busy (us_pool s) \<Longrightarrow> work D (submit_missing c s) < work D s"
proof -
  let ?t = "submit_missing c s"
  have *: "keeps D s ?t \<and> (c \<notin> busy (us_pool s) \<longrightarrow> work D ?t < work D s)"
  proof (cases c s rule: submit_missing_cases)
    case waits
    then show ?thesis by (simp add: keeps_refl)
  next
    case sent
    have un: "unasked D ?t = unasked D s - {c}" "c \<in> unasked D s" "finite (unasked D s)"
      using assms by (auto simp: unasked_def is_loaded_def sent)
    have "4 * card (unasked D s) = 4 + 4 * card (unasked D ?t)"
      using card_Suc_Diff1 [OF un(3,2)] unfolding un(1) by linarith
    moreover have "3 * length (wp_queue (us_pool ?t)) + 2 * length (wp_in_flight (us_pool ?t)) + length (made ?t) \<le>
        3 + 3 * length (wp_queue (us_pool s)) + 2 * length (wp_in_flight (us_pool s)) + length (made s)"
      using sent(4) by (elim disjE) (simp_all add: made_def sent(2))
    ultimately have less: "work D ?t < work D s" unfolding work_def by linarith
    have "is_loaded ?t = is_loaded s" by (simp add: is_loaded_def sent(3) fun_eq_iff)
    then have "state_ok ?t" if "state_ok s"
      using sent(4) that by (auto simp: state_ok_def made_def sent(2,3) busy_def gen_ok_def)
    with less sent show ?thesis by (auto simp: keeps_def is_loaded_def)
  qed
  then show "keeps D s ?t" "c \<notin> busy (us_pool s) \<Longrightarrow> work D ?t < work D s" by blast+
qed

lemma set_store_keeps: "keeps D s (s\<lparr>us_life := (us_life s)\<lparr>lc_region_store := r\<rparr>\<rparr>)"
  by (simp add: keeps_def state_ok_def made_def work_def unasked_def is_loaded_def)

definition disk_insert :: "chunk \<Rightarrow> update_state \<Rightarrow> update_state" where
  "disk_insert ch s = s\<lparr>us_disk_loads := us_disk_loads s + 1, us_progressed := True,
     us_world := insert_chunk (ch\<lparr>ch_gen_state := kGenerated\<rparr>) (us_world s)\<rparr>"

lemma disk_insert_keeps:
  assumes "finite D" and "\<not> is_loaded s c" and "c \<notin> lc_requested (us_life s)" and "c \<in> D"
    and "chunk_inv ch" and "ch_coord ch = c"
  shows "keeps D s (disk_insert ch s)" and "work D (disk_insert ch s) < work D s"
proof -
  let ?t = "disk_insert ch s"
  have same: "us_pool ?t = us_pool s" "us_life ?t = us_life s" "made ?t = made s"
    "is_loaded ?t d \<longleftrightarrow> d = c \<or> is_loaded s d" for d
    by (simp_all add: disk_insert_def made_def is_loaded_def assms(6))
  have "card (unasked D ?t) < card (unasked D s)"
    by (rule card_less_unasked [OF assms(1), of _ _ c]) (use assms in \<open>auto simp: unasked_def same\<close>)
  then show less: "work D ?t < work D s" by (simp add: work_def same)
  have "Collect (is_loaded ?t) = insert c (Collect (is_loaded s))" by (auto simp: same)
  then have "state_ok ?t" if "state_ok s"
    using that inserted_ok assms(5) by (simp add: state_ok_def same) (simp add: disk_insert_def)
  with less show "keeps D s ?t" by (auto simp: keeps_def same)
qed

text \<open>One request, in the words of the steps above.\<close>

lemma request_one_cases:
  assumes "request_one late c s = Some t"
  obtains (skip) "is_loaded s c \<or> c \<in> lc_requested (us_life s)" "t = s"
  | (ask) r where "\<not> is_loaded s c" "c \<notin> lc_requested (us_life s)"
      "t = submit_missing c (s\<lparr>us_life := (us_life s)\<lparr>lc_region_store := r\<rparr>\<rparr>)"
  | (full) rs where "\<not> is_loaded s c" "c \<notin> lc_requested (us_life s)"
      "t = s\<lparr>us_life := (us_life s)\<lparr>lc_region_store := Some rs\<rparr>\<rparr>" "lc_ingest_budget (us_life s) \<le> us_disk_loads s"
  | (late) rs where "\<not> is_loaded s c" "c \<notin> lc_requested (us_life s)"
      "t = snd (over_time late (s\<lparr>us_life := (us_life s)\<lparr>lc_region_store := Some rs\<rparr>\<rparr>))" "us_progressed s"
  | (disk) rs ch where "\<not> is_loaded s c" "c \<notin> lc_requested (us_life s)" "chunk_inv ch" "ch_coord ch = c"
      "t = relight_at c (disk_insert ch (snd (over_time late (s\<lparr>us_life := (us_life s)\<lparr>lc_region_store := Some rs\<rparr>\<rparr>))))"
proof -
  consider "is_loaded s c \<or> c \<in> lc_requested (us_life s)"
    | "\<not> is_loaded s c" "c \<notin> lc_requested (us_life s)" "lc_region_store (us_life s) = None"
    | rs where "\<not> is_loaded s c" "c \<notin> lc_requested (us_life s)" "lc_region_store (us_life s) = Some rs"
    by blast
  then show thesis
  proof cases
    case 1
    then have "t = s" using assms by (auto simp: request_one_def is_loaded_def)
    from skip [OF 1 this] show ?thesis .
  next
    case 2
    have "s = s\<lparr>us_life := (us_life s)\<lparr>lc_region_store := None\<rparr>\<rparr>" using 2(3) by simp
    with 2 assms ask [of None] show ?thesis by (simp add: request_one_def is_loaded_def)
  next
    case 3
    then obtain loaded rs' where l: "rs_load c rs = Some (loaded, rs')"
      using assms by (auto simp: request_one_def is_loaded_def split: option.splits)
    show ?thesis
    proof (cases loaded)
      case None
      with 3 l assms ask [of "Some rs'"] show ?thesis by (simp add: request_one_def is_loaded_def)
    next
      case (Some ch)
      have t: "Some t = (if us_disk_loads s \<ge> lc_ingest_budget (us_life s)
          then Some (s\<lparr>us_life := (us_life s)\<lparr>lc_region_store := Some rs'\<rparr>\<rparr>)
        else if fst (over_time late (s\<lparr>us_life := (us_life s)\<lparr>lc_region_store := Some rs'\<rparr>\<rparr>))
          then Some (snd (over_time late (s\<lparr>us_life := (us_life s)\<lparr>lc_region_store := Some rs'\<rparr>\<rparr>)))
        else Some (relight_at c (disk_insert ch (snd (over_time late (s\<lparr>us_life := (us_life s)\<lparr>lc_region_store := Some rs'\<rparr>\<rparr>))))))"
        using assms 3 l Some unfolding request_one_def is_loaded_def Let_def disk_insert_def
        by (simp add: case_prod_unfold cong: option.case_cong if_cong)
      show ?thesis
      proof (cases "us_disk_loads s \<ge> lc_ingest_budget (us_life s)")
        case True
        with t full [OF 3(1,2)] show ?thesis by simp
      next
        case False
        show ?thesis
        proof (cases "fst (over_time late (s\<lparr>us_life := (us_life s)\<lparr>lc_region_store := Some rs'\<rparr>\<rparr>))")
          case True
          with t False late [OF 3(1,2)] show ?thesis by (simp add: over_time_def)
        next
          case no: False
          have ch: "chunk_inv ch" "ch_coord ch = c" using rs_load_chunk [of c rs ch rs'] l Some by simp_all
          show ?thesis by (rule disk [OF 3(1,2) ch, of rs']) (use t False no in simp)
        qed
      qed
    qed
  qed
qed


lemma request_one_keeps:
  assumes "finite D" and "c \<in> D" and "request_one late c s = Some t"
  shows "keeps D s t"
  using assms(3)
proof (cases rule: request_one_cases)
  case skip
  then show ?thesis by (simp add: keeps_refl)
next
  case (ask r)
  let ?s = "s\<lparr>us_life := (us_life s)\<lparr>lc_region_store := r\<rparr>\<rparr>"
  have "keeps D ?s (submit_missing c ?s)"
    by (rule submit_missing_keeps) (use ask assms in \<open>auto simp: is_loaded_def\<close>)
  with keeps_trans [OF set_store_keeps] ask(3) show ?thesis by blast
next
  case full
  then show ?thesis using set_store_keeps by blast
next
  case late
  then show ?thesis using keeps_trans [OF set_store_keeps note_keeps(1)] by simp
next
  case (disk rs ch)
  let ?s = "snd (over_time late (s\<lparr>us_life := (us_life s)\<lparr>lc_region_store := Some rs\<rparr>\<rparr>))"
  have "keeps D ?s (disk_insert ch ?s)"
    by (rule disk_insert_keeps) (use disk assms in \<open>auto simp: is_loaded_def over_time_def\<close>)
  from keeps_trans [OF keeps_trans [OF set_store_keeps note_keeps(1)] keeps_trans [OF this relight_at_keeps]]
  show ?thesis using disk(5) by simp
qed

text \<open>The first wanted chunk that is missing is asked for or read from disk.\<close>

lemma request_one_progress:
  assumes "finite D" and "c \<in> D" and "request_one late c s = Some t" and "state_ok s"
    and "\<not> is_loaded s c" and "c \<notin> lc_requested (us_life s)" and "c \<notin> busy (us_pool s)"
    and "us_disk_loads s < lc_ingest_budget (us_life s)" and "\<not> us_progressed s"
  shows "work D t < work D s"
  using assms(3)
proof (cases rule: request_one_cases)
  case (ask r)
  let ?s = "s\<lparr>us_life := (us_life s)\<lparr>lc_region_store := r\<rparr>\<rparr>"
  have "work D (submit_missing c ?s) < work D ?s"
    by (rule submit_missing_keeps) (use ask assms in \<open>auto simp: is_loaded_def\<close>)
  with keepsD [OF set_store_keeps assms(4)] ask(3) show ?thesis by (metis order_less_le_trans)
next
  case (disk rs ch)
  let ?s = "snd (over_time late (s\<lparr>us_life := (us_life s)\<lparr>lc_region_store := Some rs\<rparr>\<rparr>))"
  note kept = keepsD [OF keeps_trans [OF set_store_keeps note_keeps(1)] assms(4)]
  have "work D (disk_insert ch ?s) < work D ?s"
    by (rule disk_insert_keeps) (use disk assms in \<open>auto simp: is_loaded_def over_time_def\<close>)
  moreover have "state_ok (disk_insert ch ?s)"
    by (rule keepsD [OF disk_insert_keeps(1), THEN conjunct1])
      (use disk assms kept in \<open>auto simp: is_loaded_def over_time_def\<close>)
  ultimately show ?thesis
    using keepsD [OF relight_at_keeps [of D "disk_insert ch ?s" c]] kept disk(5)
    by (metis order_less_le_trans order_le_less_trans)
qed (use assms in auto)

lemma request_all_keeps:
  assumes "finite D" and "set cs \<subseteq> D" and "request_all late cs s = Some t"
  shows "keeps D s t"
  using assms(2,3)
proof (induction cs arbitrary: s)
  case (Cons c cs)
  then obtain u where u: "request_one late c s = Some u" "request_all late cs u = Some t"
    by (auto simp: bind_eq_Some_conv)
  have "keeps D s u" using request_one_keeps [OF assms(1) _ u(1)] Cons.prems(1) by simp
  moreover have "keeps D u t" using Cons.IH [OF _ u(2)] Cons.prems(1) by simp
  ultimately show ?case by (rule keeps_trans)
qed (simp add: keeps_refl)

lemma request_all_progress:
  assumes "finite D" and "set cs \<subseteq> D" and "request_all late cs s = Some t" and "state_ok s"
    and "made s = []" and "busy (us_pool s) = {}" and "c \<in> set cs" and "\<not> is_loaded s c"
    and "us_disk_loads s < lc_ingest_budget (us_life s)" and "\<not> us_progressed s"
  shows "work D t < work D s"
  using assms(2-)
proof (induction cs arbitrary: s)
  case (Cons d cs)
  then obtain u where u: "request_one late d s = Some u" "request_all late cs u = Some t"
    by (auto simp: bind_eq_Some_conv)
  have none: "lc_requested (us_life s) = {}" using Cons.prems(3-5) by (simp add: state_ok_def)
  show ?case
  proof (cases "is_loaded s d")
    case True
    then have "u = s" using u(1) by (simp add: request_one_def is_loaded_def)
    with Cons u(2) True show ?thesis by auto
  next
    case False
    have "work D u < work D s"
      by (rule request_one_progress [OF assms(1) _ u(1)]) (use Cons.prems False none in auto)
    moreover have "state_ok u"
      using keepsD [OF request_one_keeps [OF assms(1) _ u(1)]] Cons.prems(1,3) by simp
    moreover note keepsD [OF request_all_keeps [OF assms(1) _ u(2)] this]
    ultimately show ?thesis using Cons.prems(1) by simp
  qed
qed simp


section \<open>A whole update\<close>

lemma unload_one_keeps: "keeps D s (unload_one D c s)"
proof (cases "c \<in> D")
  case True
  then show ?thesis by (simp add: unload_one_def keeps_refl)
next
  case False
  let ?t = "unload_one D c s"
  have life: "lc_backlog (us_life ?t) = lc_backlog (us_life s)" "lc_requested (us_life ?t) = lc_requested (us_life s)"
    "lc_ingest_budget (us_life ?t) = lc_ingest_budget (us_life s)"
    using False by (auto simp: unload_one_def Let_def split: option.split)
  have rest: "us_pool ?t = us_pool s" "us_world ?t = snd (unload_chunk c (us_world s))"
    using False by (simp_all add: unload_one_def Let_def)
  have "\<forall>d \<in> D. is_loaded ?t d = is_loaded s d"
    using False by (auto simp: is_loaded_def has_chunk_def unload_chunk_def rest)
  moreover have "finite (Collect (is_loaded ?t))" if "finite (Collect (is_loaded s))"
    by (rule finite_subset [OF _ that]) (auto simp: is_loaded_def has_chunk_def unload_chunk_def rest split: if_splits)
  ultimately show ?thesis
    using unload_chunk_ok by (auto simp: keeps_def state_ok_def made_def life rest work_def unasked_def cong: conj_cong)
qed

lemma unload_all_keeps: "keeps D s (fold (unload_one D) cs s)"
  by (induction cs arbitrary: s) (auto intro: keeps_refl keeps_trans [OF unload_one_keeps])

type_synonym streaming = "lifecycle \<times> world \<times> worker_pool"

definition at_start :: "streaming \<Rightarrow> update_state" where
  "at_start t = (case t of (life, w, p) \<Rightarrow>
     \<lparr>us_life = life\<lparr>lc_newly_ready := [], lc_unloaded := []\<rparr>, us_world = w, us_pool = p,
      us_progressed = False, us_queries = 0, us_disk_loads = 0\<rparr>)"

lemma update_world_steps:
  assumes "update_world late order desired t = Some t'"
  obtains u v where
    "request_all late desired (ingest late (set desired) (at_start t)) = Some u"
    "v = fold (unload_one (set desired)) (order (us_world (ingest late (set desired) u))) (ingest late (set desired) u)"
    "t' = ((us_life v)\<lparr>lc_requested := lc_requested (us_life v) \<inter> set desired\<rparr>, us_world v, us_pool v)"
  using assms by (cases t) (auto simp: update_world_def at_start_def Let_def split: option.splits)

lemma at_start_finished:
  "keeps D s (at_start ((us_life s)\<lparr>lc_requested := lc_requested (us_life s) \<inter> D\<rparr>, us_world s, us_pool s))"
proof -
  let ?t = "at_start ((us_life s)\<lparr>lc_requested := lc_requested (us_life s) \<inter> D\<rparr>, us_world s, us_pool s)"
  have "made ?t = made s" "unasked D ?t = unasked D s" "is_loaded ?t = is_loaded s"
    by (auto simp: made_def unasked_def is_loaded_def at_start_def)
  then show ?thesis by (auto simp: keeps_def state_ok_def work_def) (auto simp: at_start_def)
qed

lemma update_keeps:
  assumes "update_world late order desired t = Some t'"
  shows "keeps (set desired) (at_start t) (at_start t')"
  using assms
proof (rule update_world_steps)
  fix u v
  let ?D = "set desired"
  assume u: "request_all late desired (ingest late ?D (at_start t)) = Some u"
    and v: "v = fold (unload_one ?D) (order (us_world (ingest late ?D u))) (ingest late ?D u)"
    and t': "t' = ((us_life v)\<lparr>lc_requested := lc_requested (us_life v) \<inter> ?D\<rparr>, us_world v, us_pool v)"
  have "keeps ?D (at_start t) u"
    by (rule keeps_trans [OF ingest_keeps request_all_keeps [OF _ _ u]]) simp_all
  moreover have "keeps ?D u v" unfolding v by (rule keeps_trans [OF ingest_keeps unload_all_keeps]) simp
  moreover have "keeps ?D v (at_start t')" unfolding t' by (rule at_start_finished)
  ultimately show ?thesis by (blast intro: keeps_trans)
qed

lemma update_progress:
  assumes "update_world late order desired t = Some t'" and "state_ok (at_start t)"
    and "0 < lc_ingest_budget (us_life (at_start t))" and "busy (us_pool (at_start t)) = {}"
    and "c \<in> set desired" and "\<not> is_loaded (at_start t) c"
  shows "work (set desired) (at_start t') < work (set desired) (at_start t)"
  using assms(1)
proof (rule update_world_steps)
  fix u v
  let ?D = "set desired" and ?s = "at_start t"
  let ?i = "ingest late ?D ?s"
  assume u: "request_all late desired ?i = Some u"
    and v: "v = fold (unload_one ?D) (order (us_world (ingest late ?D u))) (ingest late ?D u)"
    and t': "t' = ((us_life v)\<lparr>lc_requested := lc_requested (us_life v) \<inter> ?D\<rparr>, us_world v, us_pool v)"
  have idle: "\<not> us_progressed ?s" "us_disk_loads ?s = 0" by (simp_all add: at_start_def split: prod.split)
  note ki = keepsD [OF ingest_keeps assms(2), of ?D late, simplified]
  note ku = keepsD [OF request_all_keeps [OF _ _ u, of ?D, simplified] ki [THEN conjunct1]]
  have "work ?D u < work ?D ?s"
  proof (cases "made ?s = []")
    case True
    then have i: "?i = ?s" by (rule ingest_idle)
    show ?thesis
      using request_all_progress [OF _ _ u, of ?D c] True assms(2-6) idle by (simp add: i)
  next
    case False
    from ingest_progress [OF _ assms(2) False assms(3) idle(1), of ?D late] ku show ?thesis by simp
  qed
  moreover have "keeps ?D u (at_start t')"
    unfolding t' by (rule keeps_trans [OF _ at_start_finished])
      (simp add: v keeps_trans [OF ingest_keeps unload_all_keeps])
  from keepsD [OF this ku [THEN conjunct1]] have "work ?D (at_start t') \<le> work ?D u" by simp
  ultimately show ?thesis by simp
qed

section \<open>The workers\<close>

lemma worker_step_work:
  assumes "worker_step p p'" and "state_ok (at_start (life, w, p))"
  shows "state_ok (at_start (life, w, p'))" and "work D (at_start (life, w, p')) < work D (at_start (life, w, p))"
    and "is_loaded (at_start (life, w, p')) = is_loaded (at_start (life, w, p))"
proof -
  show loaded: "is_loaded (at_start (life, w, p')) = is_loaded (at_start (life, w, p))"
    by (simp add: is_loaded_def at_start_def fun_eq_iff)
  then have un: "unasked D (at_start (life, w, p')) = unasked D (at_start (life, w, p))"
    by (simp add: unasked_def) (simp add: at_start_def)
  show "state_ok (at_start (life, w, p'))"
    using assms by cases (auto simp: state_ok_def at_start_def made_def busy_def gen_ok_def is_loaded_def)
  show "work D (at_start (life, w, p')) < work D (at_start (life, w, p))"
    using assms(1)
  proof cases
    case (take c cs)
    then show ?thesis using un by (simp add: work_def at_start_def made_def)
  next
    case (finish c)
    have "length (removeAll c (wp_in_flight p)) < length (wp_in_flight p)"
      using finish(2) by (rule length_removeAll_less)
    then show ?thesis using un finish by (simp add: work_def at_start_def made_def)
  qed
qed

lemma workers_work:
  assumes "tranclp worker_step p p'" and "state_ok (at_start (life, w, p))"
  shows "state_ok (at_start (life, w, p')) \<and> work D (at_start (life, w, p')) < work D (at_start (life, w, p)) \<and>
    is_loaded (at_start (life, w, p')) = is_loaded (at_start (life, w, p))"
  using assms
proof (induction rule: tranclp_induct)
  case (base q)
  then show ?case using worker_step_work by simp
next
  case (step q r)
  then have "state_ok (at_start (life, w, q))" by blast
  from step worker_step_work(1,3) [OF step.hyps(2) this] worker_step_work(2) [OF step.hyps(2) this, of D]
  show ?case by simp
qed

text \<open>A round: the workers finish a step or are idle, then the update runs.\<close>

inductive fair_round :: "(world \<Rightarrow> chunk_coord list) \<Rightarrow> chunk_coord list \<Rightarrow> streaming \<Rightarrow> streaming \<Rightarrow> bool"
  for order desired where
  idle: "busy p = {} \<Longrightarrow> update_world late order desired (life, w, p) = Some t \<Longrightarrow>
    fair_round order desired (life, w, p) t"
| working: "tranclp worker_step p p' \<Longrightarrow> update_world late order desired (life, w, p') = Some t \<Longrightarrow>
    fair_round order desired (life, w, p) t"

definition all_loaded :: "chunk_coord list \<Rightarrow> streaming \<Rightarrow> bool" where
  "all_loaded desired t \<longleftrightarrow> (\<forall>c \<in> set desired. has_chunk (fst (snd t)) c)"

definition streaming_ok :: "streaming \<Rightarrow> bool" where
  "streaming_ok t \<longleftrightarrow> state_ok (at_start t) \<and> 0 < lc_ingest_budget (fst t)"

definition work_left :: "chunk_coord list \<Rightarrow> streaming \<Rightarrow> nat" where
  "work_left desired t = work (set desired) (at_start t)"

lemma loaded_at_start: "is_loaded (at_start t) c = has_chunk (fst (snd t)) c"
  by (simp add: is_loaded_def at_start_def split: prod.split)

lemma budget_at_start: "lc_ingest_budget (us_life (at_start t)) = lc_ingest_budget (fst t)"
  by (simp add: at_start_def split: prod.split)

lemma fair_round_step:
  assumes "fair_round order desired t t'" and "streaming_ok t"
  shows "streaming_ok t'" and "all_loaded desired t \<Longrightarrow> all_loaded desired t'"
    and "all_loaded desired t \<or> work_left desired t' < work_left desired t"
proof -
  have *: "streaming_ok t' \<and> (all_loaded desired t \<longrightarrow> all_loaded desired t') \<and>
      (all_loaded desired t \<or> work_left desired t' < work_left desired t)"
    using assms(1)
  proof cases
    case (idle p late life w)
    note k = update_keeps [OF idle(3)]
    have "lc_ingest_budget (fst t') = lc_ingest_budget (fst t)"
      using k idle(1) by (simp add: keeps_def budget_at_start)
    moreover have "\<not> all_loaded desired t \<longrightarrow> work_left desired t' < work_left desired t"
      using update_progress [OF idle(3)] idle(1,2) assms(2)
      by (auto simp: all_loaded_def work_left_def streaming_ok_def loaded_at_start budget_at_start)
        (auto simp: at_start_def)
    ultimately show ?thesis
      using k idle(1) assms(2) by (auto simp: keeps_def streaming_ok_def all_loaded_def loaded_at_start)
  next
    case (working p p' late life w)
    note k = update_keeps [OF working(3)] and ww = workers_work [OF working(2), of life w "set desired"]
    have "lc_ingest_budget (fst t') = lc_ingest_budget (fst t)"
      using k working(1) by (simp add: keeps_def budget_at_start)
    moreover have "work_left desired t' < work_left desired t"
      using keepsD [OF k] ww assms(2) working(1) by (simp add: work_left_def streaming_ok_def)
    ultimately show ?thesis
      using k ww working(1) assms(2) by (auto simp: keeps_def streaming_ok_def all_loaded_def loaded_at_start)
  qed
  then show "streaming_ok t'" "all_loaded desired t \<Longrightarrow> all_loaded desired t'"
    "all_loaded desired t \<or> work_left desired t' < work_left desired t" by blast+
qed

theorem rounds_complete:
  assumes "(fair_round order desired ^^ n) t t'" and "streaming_ok t" and "work_left desired t < n"
  shows "all_loaded desired t'"
proof -
  have "streaming_ok t' \<and> (all_loaded desired t' \<or> work_left desired t' + n \<le> work_left desired t)"
    using assms(1,2)
  proof (induction n arbitrary: t')
    case (Suc n)
    then obtain u where u: "(fair_round order desired ^^ n) t u" "fair_round order desired u t'" by auto
    from Suc.IH [OF u(1) Suc.prems(2)] fair_round_step [OF u(2)] show ?case by auto
  qed auto
  with assms(3) show ?thesis by linarith
qed


text \<open>Without a store of saved chunks an update always returns, so there are rounds without end.\<close>

lemma request_all_returns:
  "lc_region_store (us_life s) = None \<Longrightarrow>
   \<exists>t. request_all late cs s = Some t \<and> lc_region_store (us_life t) = None"
proof (induction cs arbitrary: s)
  case (Cons c cs)
  have "lc_region_store (us_life (submit_missing c s)) = None"
    using Cons.prems by (simp add: submit_missing_def submit_def)
  then have "\<exists>u. request_one late c s = Some u \<and> lc_region_store (us_life u) = None"
    using Cons.prems by (simp add: request_one_def)
  with Cons.IH show ?case by (metis bind.bind_lunit request_all.simps(2))
qed simp

lemma ingest_store: "lc_region_store (us_life (ingest late D s)) = lc_region_store (us_life s)"
proof -
  have one: "lc_region_store (us_life (take_one E s)) = lc_region_store (us_life s)" for E s
    by (simp add: take_one_def Let_def split: list.split)
  have batch: "lc_region_store (us_life (snd (snd (take_batch E n s)))) = lc_region_store (us_life s)" for E n s
    by (induction n arbitrary: s) (simp_all add: take_batch_one one del: take_batch.simps(2))
  have lit: "lc_region_store (us_life (fold relight_at cs s)) = lc_region_store (us_life s)" for cs s
    by (induction cs arbitrary: s) simp_all
  have "lc_region_store (us_life (ingest_loop late D taken s)) = lc_region_store (us_life s)" for taken s
  proof (induction late D taken s rule: ingest_loop.induct)
    case (1 late D taken s)
    show ?case
    proof (cases "\<not> taken < lc_ingest_budget (us_life s) \<or> lc_backlog (us_life s) = [] \<or> fst (over_time late s)")
      case True
      then show ?thesis by (auto simp: ingest_loop.simps [of late D taken s] over_time_def)
    next
      case False
      let ?b = "take_batch D (min kIngestBatch (lc_ingest_budget (us_life s) - taken))
          ((snd (over_time late s))\<lparr>us_progressed := True\<rparr>)"
      obtain n just s2 where b: "?b = (n, just, s2)" using prod_cases3 by blast
      have "lc_region_store (us_life s2) = lc_region_store (us_life s)"
        using batch [of D "min kIngestBatch (lc_ingest_budget (us_life s) - taken)" "(snd (over_time late s))\<lparr>us_progressed := True\<rparr>"]
        unfolding b by (simp add: over_time_def)
      moreover have "ingest_loop late D taken s = ingest_loop late D (taken + n) (fold relight_at just s2)"
        using False b by (auto simp: ingest_loop.simps [of late D taken s] over_time_def)
      moreover have "lc_region_store (us_life (ingest_loop late D (taken + n) (fold relight_at just s2))) =
          lc_region_store (us_life (fold relight_at just s2))"
        by (rule 1 [OF _ refl prod.collapse _ refl]) (use False b in \<open>simp_all add: over_time_def\<close>)
      ultimately show ?thesis by (simp add: lit)
    qed
  qed
  then show ?thesis by (simp add: ingest_polled) (simp add: polled_def)
qed

lemma update_returns:
  assumes "lc_region_store life = None"
  shows "\<exists>t. update_world late order desired (life, w, p) = Some t \<and> lc_region_store (fst t) = None"
proof -
  let ?D = "set desired" and ?s = "at_start (life, w, p)"
  have "lc_region_store (us_life (ingest late ?D ?s)) = None"
    using assms by (simp add: ingest_store) (simp add: at_start_def)
  then obtain u where u: "request_all late desired (ingest late ?D ?s) = Some u" "lc_region_store (us_life u) = None"
    using request_all_returns by blast
  have un: "lc_region_store (us_life (fold (unload_one ?D) cs s)) = None" if "lc_region_store (us_life s) = None" for cs s
    using that by (induction cs arbitrary: s) (simp_all add: unload_one_def Let_def)
  from u un [of "ingest late ?D u"] show ?thesis
    by (simp add: update_world_def at_start_def Let_def ingest_store)
qed

lemma loaded_dom: "Collect (has_chunk w) = dom (wo_chunks w)"
  by (auto simp: has_chunk_def)

lemma fresh_streaming_ok:
  assumes "world_ok w" and "finite (dom (wo_chunks w))" and "gen_ok (wp_generate p)" and "wp_completed p = []"
  shows "streaming_ok (new_lifecycle r, w, p)"
  using assms by (simp add: streaming_ok_def state_ok_def at_start_def new_lifecycle_def made_def is_loaded_def loaded_dom)

lemma gen_ok_id: "gen_ok (\<lambda>c. c)"
  by (simp add: gen_ok_def new_chunk_inv) (simp add: new_chunk_def)

lemma lifecycle_without_store: "lc_region_store (new_lifecycle r) = None"
  by (simp add: new_lifecycle_def)

lemma fair_round_exists:
  assumes "lc_region_store (fst t) = None"
  shows "\<exists>t'. fair_round order desired t t' \<and> lc_region_store (fst t') = None"
proof -
  obtain life w p where t: "t = (life, w, p)" by (cases t)
  show ?thesis
  proof (cases "busy p = {}")
    case True
    then show ?thesis using update_returns [of life] assms fair_round.idle by (fastforce simp: t)
  next
    case False
    have "\<exists>p'. worker_step p p'"
    proof (cases "wp_queue p")
      case Nil
      with False obtain c cs where "wp_in_flight p = c # cs"
        by (cases "wp_in_flight p") (simp_all add: busy_def)
      then have "c \<in> set (wp_in_flight p)" by simp
      then show ?thesis by (blast intro: worker_step.finish)
    qed (blast intro: worker_step.take)
    then obtain p' where "tranclp worker_step p p'" by blast
    then show ?thesis using update_returns [of life] assms fair_round.working by (fastforce simp: t)
  qed
qed

lemma rounds_exist:
  assumes "lc_region_store (fst t) = None"
  shows "\<exists>t'. (fair_round order desired ^^ n) t t' \<and> lc_region_store (fst t') = None"
proof (induction n)
  case (Suc n)
  then show ?case using fair_round_exists by (metis relpowp_Suc_I)
qed (use assms in auto)


section \<open>What stays and what goes\<close>

lemma unload_one_chunks:
  "wo_chunks (us_world (unload_one D c s)) = (if c \<in> D then wo_chunks (us_world s) else (wo_chunks (us_world s))(c := None))"
  by (simp add: unload_one_def Let_def unload_chunk_def)

lemma unload_all_chunks:
  "wo_chunks (us_world (fold (unload_one D) cs s)) d = (if d \<in> set cs \<and> d \<notin> D then None else wo_chunks (us_world s) d)"
  by (induction cs arbitrary: s) (auto simp: unload_one_chunks)

text \<open>\<open>order\<close> lists every loaded chunk.\<close>

definition lists_loaded :: "(world \<Rightarrow> chunk_coord list) \<Rightarrow> bool" where
  "lists_loaded order \<longleftrightarrow> (\<forall>w. finite {c. has_chunk w c} \<longrightarrow> {c. has_chunk w c} \<subseteq> set (order w))"

lemma lists_loaded_exists: "\<exists>order. lists_loaded order"
  unfolding lists_loaded_def
  by (rule choice_iff [THEN iffD1]) (metis finite_list order_refl)

lemma update_only_wanted:
  assumes "update_world late order desired t = Some (life, w, p)" and "lists_loaded order"
    and "state_ok (at_start t)" and "has_chunk w c"
  shows "c \<in> set desired"
  using assms(1)
proof (rule update_world_steps)
  fix u v
  assume u: "request_all late desired (ingest late (set desired) (at_start t)) = Some u"
  have "keeps (set desired) (at_start t) (ingest late (set desired) u)"
    by (rule keeps_trans [OF ingest_keeps keeps_trans [OF request_all_keeps [OF _ _ u] ingest_keeps]]) simp_all
  from keepsD [OF this assms(3)] have fin: "finite {c. has_chunk (us_world (ingest late (set desired) u)) c}"
    by (simp add: state_ok_def is_loaded_def)
  assume v: "v = fold (unload_one (set desired)) (order (us_world (ingest late (set desired) u))) (ingest late (set desired) u)"
    and t': "(life, w, p) = ((us_life v)\<lparr>lc_requested := lc_requested (us_life v) \<inter> set desired\<rparr>, us_world v, us_pool v)"
  show ?thesis
  proof (rule ccontr)
    assume c: "c \<notin> set desired"
    have "wo_chunks (us_world v) c \<noteq> None" using t' assms(4) by (simp add: has_chunk_def)
    then have "c \<notin> set (order (us_world (ingest late (set desired) u)))"
        "has_chunk (us_world (ingest late (set desired) u)) c"
      using c unfolding v unload_all_chunks by (auto simp: has_chunk_def split: if_splits)
    with assms(2) fin show False unfolding lists_loaded_def by blast
  qed
qed

text \<open>A loaded, wanted chunk no copy of which is waiting keeps its blocks.\<close>

definition undisturbed :: "chunk_coord \<Rightarrow> paletted_store option \<Rightarrow> update_state \<Rightarrow> bool" where
  "undisturbed c blocks s \<longleftrightarrow> map_option ch_blocks (wo_chunks (us_world s) c) = blocks \<and> is_loaded s c \<and>
     c \<notin> ch_coord ` set (made s) \<and> gen_ok (wp_generate (us_pool s))"

lemma undisturbed_lit: "undisturbed c bs s \<Longrightarrow> undisturbed c bs (fold relight_at cs s)"
  by (induction cs arbitrary: s) (simp_all add: undisturbed_def made_def)

lemma undisturbed_take_one: "undisturbed c bs s \<Longrightarrow> undisturbed c bs (take_one D s)"
  by (cases "lc_backlog (us_life s)")
    (auto simp: undisturbed_def take_one_def Let_def made_def is_loaded_def insert_chunk_def has_chunk_def)

lemma undisturbed_take_batch: "undisturbed c bs s \<Longrightarrow> undisturbed c bs (snd (snd (take_batch D n s)))"
proof (induction n arbitrary: s)
  case (Suc n)
  show ?case unfolding take_batch_one using Suc.IH [OF undisturbed_take_one [OF Suc.prems]] Suc.prems by simp
qed simp

lemma undisturbed_note:
  "undisturbed c bs s \<Longrightarrow> undisturbed c bs (snd (over_time late s))"
  "undisturbed c bs s \<Longrightarrow> undisturbed c bs (s\<lparr>us_progressed := b\<rparr>)"
  "undisturbed c bs s \<Longrightarrow> undisturbed c bs (s\<lparr>us_life := (us_life s)\<lparr>lc_region_store := r\<rparr>\<rparr>)"
  by (simp_all add: undisturbed_def over_time_def made_def is_loaded_def)

lemma undisturbed_ingest_loop: "undisturbed c bs s \<Longrightarrow> undisturbed c bs (ingest_loop late D taken s)"
proof (induction late D taken s rule: ingest_loop.induct)
  case (1 late D taken s)
  show ?case
  proof (cases "\<not> taken < lc_ingest_budget (us_life s) \<or> lc_backlog (us_life s) = [] \<or> fst (over_time late s)")
    case True
    then show ?thesis
      using 1(2) undisturbed_note(1) [OF 1(2), of late]
      by (auto simp: ingest_loop.simps [of late D taken s] case_prod_unfold)
  next
    case False
    let ?b = "take_batch D (min kIngestBatch (lc_ingest_budget (us_life (snd (over_time late s))) - taken))
        ((snd (over_time late s))\<lparr>us_progressed := True\<rparr>)"
    obtain n just s2 where b: "?b = (n, just, s2)" using prod_cases3 by blast
    have "undisturbed c bs (snd (snd ?b))"
      by (rule undisturbed_take_batch) (rule undisturbed_note(2) [OF undisturbed_note(1) [OF 1(2)]])
    then have "undisturbed c bs (fold relight_at just s2)" using b undisturbed_lit by simp
    with 1(1) [OF _ refl prod.collapse _ refl, of n "(just, s2)" just s2] False b
    show ?thesis by (auto simp: ingest_loop.simps [of late D taken s] case_prod_unfold)
  qed
qed

lemma undisturbed_ingest: "undisturbed c bs s \<Longrightarrow> undisturbed c bs (ingest late D s)"
  unfolding ingest_polled
  by (rule undisturbed_ingest_loop) (simp add: undisturbed_def polled_same is_loaded_def)

lemma undisturbed_request: "undisturbed c bs s \<Longrightarrow> request_one late d s = Some t \<Longrightarrow> undisturbed c bs t"
proof (erule request_one_cases)
  fix r
  let ?s = "s\<lparr>us_life := (us_life s)\<lparr>lc_region_store := r\<rparr>\<rparr>"
  assume s: "undisturbed c bs s" and d: "\<not> is_loaded s d" and t: "t = submit_missing d ?s"
  from s d have "c \<noteq> d" by (auto simp: undisturbed_def)
  with undisturbed_note(3) [OF s] show "undisturbed c bs t" unfolding t
    by (cases d ?s rule: submit_missing_cases) (auto simp: undisturbed_def made_def is_loaded_def gen_ok_def)
next
  fix rs ch
  let ?s = "snd (over_time late (s\<lparr>us_life := (us_life s)\<lparr>lc_region_store := Some rs\<rparr>\<rparr>))"
  assume s: "undisturbed c bs s" and d: "\<not> is_loaded s d" "ch_coord ch = d"
    and t: "t = relight_at d (disk_insert ch ?s)"
  from s d have "c \<noteq> d" by (auto simp: undisturbed_def)
  then have "undisturbed c bs (disk_insert ch ?s)"
    using undisturbed_note(1) [OF undisturbed_note(3) [OF s]] d(2)
    by (simp add: undisturbed_def disk_insert_def made_def is_loaded_def) (simp add: insert_chunk_def)
  from undisturbed_lit [OF this, of "[d]"] show "undisturbed c bs t" by (simp add: t)
qed (simp_all add: undisturbed_note)

lemma undisturbed_requests: "undisturbed c bs s \<Longrightarrow> request_all late cs s = Some t \<Longrightarrow> undisturbed c bs t"
  by (induction cs arbitrary: s) (auto simp: bind_eq_Some_conv dest: undisturbed_request)

theorem update_undisturbed:
  assumes "update_world late order desired t = Some t'" and "undisturbed c bs (at_start t)" and "c \<in> set desired"
  shows "map_option ch_blocks (wo_chunks (fst (snd t')) c) = bs"
  using assms(1)
proof (rule update_world_steps)
  fix u v
  assume u: "request_all late desired (ingest late (set desired) (at_start t)) = Some u"
    and v: "v = fold (unload_one (set desired)) (order (us_world (ingest late (set desired) u))) (ingest late (set desired) u)"
    and t': "t' = ((us_life v)\<lparr>lc_requested := lc_requested (us_life v) \<inter> set desired\<rparr>, us_world v, us_pool v)"
  have "undisturbed c bs (ingest late (set desired) u)"
    by (rule undisturbed_ingest [OF undisturbed_requests [OF undisturbed_ingest [OF assms(2)] u]])
  then show ?thesis using assms(3) by (simp add: t' v unload_all_chunks undisturbed_def)
qed


text \<open>A copy that waits in the backlog replaces whatever the world holds, edits included.\<close>

lemma ingest_loop_first:
  assumes "lc_backlog (us_life s) \<noteq> []" and "0 < lc_ingest_budget (us_life s)" and "\<not> us_progressed s"
    and "undisturbed c bs (take_one D ((snd (over_time late s))\<lparr>us_progressed := True\<rparr>))"
  shows "undisturbed c bs (ingest_loop late D 0 s)"
proof -
  let ?s1 = "(snd (over_time late s))\<lparr>us_progressed := True\<rparr>"
  have "0 < min kIngestBatch (lc_ingest_budget (us_life (snd (over_time late s))) - 0)"
    using assms(2) by (simp add: kIngestBatch_def over_time_def)
  then obtain m where m: "min kIngestBatch (lc_ingest_budget (us_life (snd (over_time late s))) - 0) = Suc m"
    by (metis Suc_pred)
  obtain n just s2 where b: "take_batch D (Suc m) ?s1 = (n, just, s2)" using prod_cases3 by blast
  have "lc_backlog (us_life ?s1) \<noteq> []" using assms(1) by (simp add: over_time_def)
  then have "undisturbed c bs (snd (snd (take_batch D (Suc m) ?s1)))"
    unfolding take_batch_one using undisturbed_take_batch [OF assms(4)] by simp
  then have "undisturbed c bs (fold relight_at just s2)" using b undisturbed_lit by simp
  moreover have "ingest_loop late D 0 s = ingest_loop late D (0 + n) (fold relight_at just s2)"
    using assms(1-3) b m by (simp add: ingest_loop.simps [of late D 0 s] over_time_def)
  ultimately show ?thesis using undisturbed_ingest_loop by metis
qed

theorem waiting_copy_replaces:
  assumes "update_world late order desired (life, w, p) = Some t'" and "lc_backlog life = ch # rest"
    and "ch_coord ch \<in> set desired" and "ch_coord ch \<notin> ch_coord ` set (rest @ wp_completed p)"
    and "gen_ok (wp_generate p)" and "0 < lc_ingest_budget life"
  shows "map_option ch_blocks (wo_chunks (fst (snd t')) (ch_coord ch)) = Some (ch_blocks ch)"
  using assms(1)
proof (rule update_world_steps)
  fix u v
  let ?D = "set desired" and ?c = "ch_coord ch" and ?s = "polled (at_start (life, w, p))"
  assume u: "request_all late desired (ingest late ?D (at_start (life, w, p))) = Some u"
    and v: "v = fold (unload_one ?D) (order (us_world (ingest late ?D u))) (ingest late ?D u)"
    and t': "t' = ((us_life v)\<lparr>lc_requested := lc_requested (us_life v) \<inter> ?D\<rparr>, us_world v, us_pool v)"
  have "undisturbed ?c (Some (ch_blocks ch)) (take_one ?D ((snd (over_time late ?s))\<lparr>us_progressed := True\<rparr>))"
    using assms(2-5)
    by (auto simp: undisturbed_def take_one_def Let_def over_time_def polled_def at_start_def poll_completed_def made_def
        is_loaded_def insert_chunk_def has_chunk_def)
  then have "undisturbed ?c (Some (ch_blocks ch)) (ingest late ?D (at_start (life, w, p)))"
    unfolding ingest_polled using assms(2,6)
    by (intro ingest_loop_first) (simp_all add: polled_def at_start_def poll_completed_def)
  from undisturbed_ingest [OF undisturbed_requests [OF this u]] show ?thesis
    using assms(3) by (simp add: t' v unload_all_chunks undisturbed_def)
qed

section \<open>Evicted edits\<close>

lemma saved_other: "d \<noteq> ch_coord ch \<Longrightarrow> saved (save_if_dirty ch st) d = saved st d"
  using saved_save [of ch st] saved_skip [of ch st] by (metis fun_upd_other)

lemma unload_one_saves:
  assumes "lc_region_store (us_life s) = Some rs" and "world_ok (us_world s)"
  shows "\<exists>rs'. lc_region_store (us_life (unload_one D c s)) = Some rs' \<and>
    (\<forall>d. d \<noteq> c \<longrightarrow> saved rs' d = saved rs d) \<and>
    (\<forall>ch. c \<notin> D \<and> wo_chunks (us_world s) c = Some ch \<and> ch_revision ch \<noteq> 0 \<and>
        (\<forall>en. saved rs c = Some en \<longrightarrow> ren_revision en \<noteq> ch_revision ch) \<longrightarrow>
      saved rs' c = Some \<lparr>ren_payload = encode_chunk_payload ch, ren_revision = ch_revision ch\<rparr>)"
proof (cases "c \<notin> D \<and> has_chunk (us_world s) c")
  case True
  then obtain ch where ch: "wo_chunks (us_world s) c = Some ch" by (auto simp: has_chunk_def)
  with assms(2) have "ch_coord ch = c" by (simp add: world_ok_def)
  with True assms(1) ch saved_other [of _ ch rs] saved_save [of ch rs] show ?thesis
    by (simp add: unload_one_def Let_def find_chunk_def)
next
  case False
  with assms(1) show ?thesis
    by (auto simp: unload_one_def Let_def find_chunk_def has_chunk_def)
qed

lemma unload_one_ok: "world_ok (us_world s) \<Longrightarrow> world_ok (us_world (unload_one D c s))"
  using unload_chunk_ok by (simp add: unload_one_def Let_def)

lemma unload_all_saved_other:
  assumes "lc_region_store (us_life s) = Some rs" and "world_ok (us_world s)" and "c \<notin> set cs"
  shows "world_ok (us_world (fold (unload_one D) cs s)) \<and>
    (\<exists>rs'. lc_region_store (us_life (fold (unload_one D) cs s)) = Some rs' \<and> saved rs' c = saved rs c)"
  using assms
proof (induction cs arbitrary: s rs)
  case (Cons k cs)
  from unload_one_saves [OF Cons.prems(1,2), of D k] Cons.prems(3)
  obtain r where "lc_region_store (us_life (unload_one D k s)) = Some r" "saved r c = saved rs c" by auto
  with Cons.IH [OF this(1) unload_one_ok [OF Cons.prems(2)]] Cons.prems(3) show ?case by simp
qed simp

theorem eviction_saves:
  assumes "lc_region_store (us_life s) = Some rs" and "world_ok (us_world s)" and "distinct cs"
    and "c \<in> set cs" and "c \<notin> D" and "wo_chunks (us_world s) c = Some ch" and "ch_revision ch \<noteq> 0"
    and "\<And>en. saved rs c = Some en \<Longrightarrow> ren_revision en \<noteq> ch_revision ch"
  shows "\<exists>rs' d rs''. lc_region_store (us_life (fold (unload_one D) cs s)) = Some rs' \<and>
    \<not> has_chunk (us_world (fold (unload_one D) cs s)) c \<and> rs_load c rs' = Some (Some d, rs'') \<and> ch_coord d = c \<and>
    voxels (ch_blocks d) = voxels (ch_blocks ch) \<and> ch_light d = ch_light ch \<and> ch_revision d = ch_revision ch"
proof -
  obtain before rest where cs: "cs = before @ c # rest" using assms(4) by (meson split_list)
  let ?s = "fold (unload_one D) before s"
  from unload_all_saved_other [OF assms(1,2), of c before D] assms(3)
  obtain r where r: "lc_region_store (us_life ?s) = Some r" "saved r c = saved rs c" and ok: "world_ok (us_world ?s)"
    by (auto simp: cs)
  have "wo_chunks (us_world ?s) c = Some ch" using assms(3,6) by (simp add: unload_all_chunks cs)
  then obtain r' where r': "lc_region_store (us_life (unload_one D c ?s)) = Some r'"
      "saved r' c = Some \<lparr>ren_payload = encode_chunk_payload ch, ren_revision = ch_revision ch\<rparr>"
    using unload_one_saves [OF r(1) ok, of D c] assms(5,7,8) r(2) by auto
  from unload_all_saved_other [OF r'(1) unload_one_ok [OF ok], of c rest D] assms(3)
  obtain rs' where rs': "lc_region_store (us_life (fold (unload_one D) cs s)) = Some rs'" "saved rs' c = saved r' c"
    by (auto simp: cs)
  have "chunk_inv ch" using assms(2,6) by (simp add: world_ok_def)
  from load_saved [OF rs'(2) [unfolded r'(2)] this] rs'(1) assms(4,5) show ?thesis
    by (fastforce simp: has_chunk_def unload_all_chunks)
qed

end
