(* ===== verification/Float_Math.thy ===== *)
theory Float_Math
  imports Entity_Messages
begin

text \<open>
  Floating point of \<open>core/math.hpp\<close>. A \<open>double\<close> is its 64 bits, as on the wire; the arithmetic of the
  language is the record \<open>float_ops\<close>, an argument of the definitions that compute with it, so that
  what is proved of them holds for every rounding. Literals are their bit patterns.
\<close>

record float_ops =
  fo_add :: "f64 \<Rightarrow> f64 \<Rightarrow> f64"
  fo_sub :: "f64 \<Rightarrow> f64 \<Rightarrow> f64"
  fo_mul :: "f64 \<Rightarrow> f64 \<Rightarrow> f64"
  fo_div :: "f64 \<Rightarrow> f64 \<Rightarrow> f64"
  fo_neg :: "f64 \<Rightarrow> f64"
  fo_abs :: "f64 \<Rightarrow> f64"
  fo_sqrt :: "f64 \<Rightarrow> f64"
  fo_sin :: "f64 \<Rightarrow> f64"
  fo_cos :: "f64 \<Rightarrow> f64"
  fo_lt :: "f64 \<Rightarrow> f64 \<Rightarrow> bool"
  fo_le :: "f64 \<Rightarrow> f64 \<Rightarrow> bool"
  fo_eq :: "f64 \<Rightarrow> f64 \<Rightarrow> bool"
  fo_floor_int :: "f64 \<Rightarrow> i32"
  fo_ceil_int :: "f64 \<Rightarrow> i32"
  fo_of_int :: "i32 \<Rightarrow> f64"
  fo_of_u32 :: "u32 \<Rightarrow> f64"
  fo_of_f32 :: "f32 \<Rightarrow> f64"
  fo_to_f32 :: "f64 \<Rightarrow> f32"
  fo_to_u32 :: "f64 \<Rightarrow> u32"
  fo_floor :: "f64 \<Rightarrow> f64"
  fo_floor_i64 :: "f64 \<Rightarrow> i64"
  fo_mod :: "f64 \<Rightarrow> f64 \<Rightarrow> f64"
  fo_to_u8 :: "f64 \<Rightarrow> u8"
  fs_add :: "f32 \<Rightarrow> f32 \<Rightarrow> f32"
  fs_sub :: "f32 \<Rightarrow> f32 \<Rightarrow> f32"
  fs_mul :: "f32 \<Rightarrow> f32 \<Rightarrow> f32"
  fs_lt :: "f32 \<Rightarrow> f32 \<Rightarrow> bool"
  fs_le :: "f32 \<Rightarrow> f32 \<Rightarrow> bool"
  fs_eq :: "f32 \<Rightarrow> f32 \<Rightarrow> bool"
  fs_of_u16 :: "u16 \<Rightarrow> f32"

section \<open>Literals\<close>

definition f_zero :: f64 where "f_zero = 0"
definition f_one :: f64 where "f_one = 0x3FF0000000000000"
definition f_half :: f64 where "f_half = 0x3FE0000000000000"
definition f_inf :: f64 where "f_inf = 0x7FF0000000000000"

section \<open>Vectors\<close>

definition vd_add :: "float_ops \<Rightarrow> vec3d \<Rightarrow> vec3d \<Rightarrow> vec3d" where
  "vd_add F a b = \<lparr>vd_x = fo_add F (vd_x a) (vd_x b), vd_y = fo_add F (vd_y a) (vd_y b), vd_z = fo_add F (vd_z a) (vd_z b)\<rparr>"

definition vd_sub :: "float_ops \<Rightarrow> vec3d \<Rightarrow> vec3d \<Rightarrow> vec3d" where
  "vd_sub F a b = \<lparr>vd_x = fo_sub F (vd_x a) (vd_x b), vd_y = fo_sub F (vd_y a) (vd_y b), vd_z = fo_sub F (vd_z a) (vd_z b)\<rparr>"

definition vd_scale :: "float_ops \<Rightarrow> vec3d \<Rightarrow> f64 \<Rightarrow> vec3d" where
  "vd_scale F a s = \<lparr>vd_x = fo_mul F (vd_x a) s, vd_y = fo_mul F (vd_y a) s, vd_z = fo_mul F (vd_z a) s\<rparr>"

definition vd_dot :: "float_ops \<Rightarrow> vec3d \<Rightarrow> vec3d \<Rightarrow> f64" where
  "vd_dot F a b = fo_add F (fo_add F (fo_mul F (vd_x a) (vd_x b)) (fo_mul F (vd_y a) (vd_y b))) (fo_mul F (vd_z a) (vd_z b))"

definition vd_length :: "float_ops \<Rightarrow> vec3d \<Rightarrow> f64" where
  "vd_length F a = fo_sqrt F (vd_dot F a a)"

definition vd_zero :: vec3d where
  "vd_zero = \<lparr>vd_x = f_zero, vd_y = f_zero, vd_z = f_zero\<rparr>"

definition f_clamp :: "float_ops \<Rightarrow> f64 \<Rightarrow> f64 \<Rightarrow> f64 \<Rightarrow> f64" where
  "f_clamp F v lo hi = (if fo_lt F v lo then lo else if fo_lt F hi v then hi else v)"

text \<open>\<open>std::max\<close> over an initializer list: the first of the greatest.\<close>

primrec f_max :: "float_ops \<Rightarrow> f64 \<Rightarrow> f64 list \<Rightarrow> f64" where
  "f_max F m [] = m"
| "f_max F m (x # xs) = f_max F (if fo_lt F m x then x else m) xs"

text \<open>\<open>std::max\<close> and \<open>std::min\<close> of two: the first unless the second is strictly beyond it.\<close>

definition f_max2 :: "float_ops \<Rightarrow> f64 \<Rightarrow> f64 \<Rightarrow> f64" where
  "f_max2 F a b = (if fo_lt F a b then b else a)"

definition f_min2 :: "float_ops \<Rightarrow> f64 \<Rightarrow> f64 \<Rightarrow> f64" where
  "f_min2 F a b = (if fo_lt F b a then b else a)"

text \<open>The same of \<open>float\<close>.\<close>

definition fs_max :: "float_ops \<Rightarrow> f32 \<Rightarrow> f32 \<Rightarrow> f32" where
  "fs_max F a b = (if fs_lt F a b then b else a)"

definition fs_clamp :: "float_ops \<Rightarrow> f32 \<Rightarrow> f32 \<Rightarrow> f32 \<Rightarrow> f32" where
  "fs_clamp F v lo hi = (if fs_lt F v lo then lo else if fs_lt F hi v then hi else v)"

text \<open>The voxel a point lies in.\<close>

definition voxel_of :: "float_ops \<Rightarrow> vec3d \<Rightarrow> ivec3" where
  "voxel_of F p = \<lparr>iv_x = fo_floor_int F (vd_x p), iv_y = fo_floor_int F (vd_y p), iv_z = fo_floor_int F (vd_z p)\<rparr>"

text \<open>The centre of a voxel.\<close>

definition voxel_centre :: "float_ops \<Rightarrow> ivec3 \<Rightarrow> vec3d" where
  "voxel_centre F v = \<lparr>vd_x = fo_add F (fo_of_int F (iv_x v)) f_half, vd_y = fo_add F (fo_of_int F (iv_y v)) f_half,
     vd_z = fo_add F (fo_of_int F (iv_z v)) f_half\<rparr>"

text \<open>\<open>AABB\<close>: a box, half open.\<close>

record aabb =
  bx_min :: vec3d
  bx_max :: vec3d

definition forward_from_yaw_pitch :: "float_ops \<Rightarrow> f64 \<Rightarrow> f64 \<Rightarrow> vec3d" where
  "forward_from_yaw_pitch F yaw_deg pitch_deg = (
     let rad = fo_div F 0x400921FB54442D18 0x4066800000000000;
         yaw = fo_mul F yaw_deg rad;
         pitch = fo_mul F pitch_deg rad;
         cy = fo_cos F yaw; sy = fo_sin F yaw; cp = fo_cos F pitch; sp = fo_sin F pitch in
     \<lparr>vd_x = fo_mul F sy cp, vd_y = sp, vd_z = fo_mul F (fo_neg F cy) cp\<rparr>)"

text \<open>
  An arithmetic to evaluate examples in: the bits as signed integers. The theorems hold for every
  arithmetic; this one is no model of IEEE doubles.
\<close>

definition integer_ops :: float_ops where
  "integer_ops = \<lparr>fo_add = (+), fo_sub = (-), fo_mul = (*), fo_div = (\<lambda>a b. word_of_int (sint a sdiv sint b)),
     fo_neg = uminus, fo_abs = (\<lambda>a. word_of_int \<bar>sint a\<bar>), fo_sqrt = (\<lambda>a. a), fo_sin = (\<lambda>_. 0), fo_cos = (\<lambda>_. 1),
     fo_lt = (\<lambda>a b. sint a < sint b), fo_le = (\<lambda>a b. sint a \<le> sint b), fo_eq = (=),
     fo_floor_int = (\<lambda>a. word_of_int (sint a)), fo_ceil_int = (\<lambda>a. word_of_int (sint a)),
     fo_of_int = (\<lambda>i. word_of_int (sint i)), fo_of_u32 = ucast, fo_of_f32 = ucast,
     fo_to_f32 = ucast, fo_to_u32 = ucast, fo_floor = (\<lambda>a. a), fo_floor_i64 = (\<lambda>a. a),
     fo_mod = (\<lambda>a b. word_of_int (sint a smod sint b)), fo_to_u8 = ucast,
     fs_add = (+), fs_sub = (-), fs_mul = (*), fs_lt = (\<lambda>a b. sint a < sint b), fs_le = (\<lambda>a b. sint a \<le> sint b),
     fs_eq = (=), fs_of_u16 = ucast\<rparr>"

end
