(* ===== verification/Block_Damage_Tracker.thy ===== *)
theory Block_Damage_Tracker
  imports Float_Math Core_Types
begin

text \<open>
  \<open>BlockDamageTracker\<close> of \<open>net/block_damage_tracker.hpp\<close> and \<open>.cpp\<close>: the cracks a client shows, from
  damage messages and block changes that arrive on lanes with no order between them.
\<close>

definition kForgetAfterSeconds :: f64 where "kForgetAfterSeconds = 0x403E000000000000"

record damage_change =
  dc_revision :: u64
  dc_at :: f64

record damage_tracker =
  dt_punches :: "ivec3 \<rightharpoonup> u16"
  dt_damage_revision :: "ivec3 \<rightharpoonup> u64"
  dt_changes :: "ivec3 \<rightharpoonup> damage_change"
  dt_now :: f64
  dt_next_prune :: f64

definition new_damage_tracker :: damage_tracker where
  "new_damage_tracker = \<lparr>dt_punches = Map.empty, dt_damage_revision = Map.empty, dt_changes = Map.empty,
     dt_now = f_zero, dt_next_prune = kForgetAfterSeconds\<rparr>"

definition on_damage :: "ivec3 \<Rightarrow> u16 \<Rightarrow> u64 \<Rightarrow> damage_tracker \<Rightarrow> damage_tracker" where
  "on_damage pos punches revision t = (
     if (case dt_changes t pos of None \<Rightarrow> False | Some c \<Rightarrow> revision < dc_revision c) then t
     else if (case dt_damage_revision t pos of None \<Rightarrow> False | Some r \<Rightarrow> revision < r) then t
     else if punches = 0 then t\<lparr>dt_punches := (dt_punches t)(pos := None),
       dt_damage_revision := (dt_damage_revision t)(pos := None)\<rparr>
     else t\<lparr>dt_punches := (dt_punches t)(pos \<mapsto> punches),
       dt_damage_revision := (dt_damage_revision t)(pos \<mapsto> revision)\<rparr>)"

definition on_block_changed :: "ivec3 \<Rightarrow> u64 \<Rightarrow> damage_tracker \<Rightarrow> damage_tracker" where
  "on_block_changed pos revision t = (
     let change = (case dt_changes t pos of None \<Rightarrow> \<lparr>dc_revision = 0, dc_at = f_zero\<rparr> | Some c \<Rightarrow> c);
         change = (if dc_revision change \<le> revision then \<lparr>dc_revision = revision, dc_at = dt_now t\<rparr> else change);
         t = t\<lparr>dt_changes := (dt_changes t)(pos \<mapsto> change)\<rparr> in
     if (case dt_damage_revision t pos of None \<Rightarrow> False | Some r \<Rightarrow> r < revision)
     then t\<lparr>dt_punches := (dt_punches t)(pos := None), dt_damage_revision := (dt_damage_revision t)(pos := None)\<rparr>
     else t)"

definition on_chunk_removed :: "chunk_coord \<Rightarrow> damage_tracker \<Rightarrow> damage_tracker" where
  "on_chunk_removed c t = t\<lparr>
     dt_punches := (\<lambda>p. if chunk_of p = c then None else dt_punches t p),
     dt_damage_revision := (\<lambda>p. if chunk_of p = c \<and> dt_punches t p \<noteq> None then None else dt_damage_revision t p),
     dt_changes := (\<lambda>p. if chunk_of p = c then None else dt_changes t p)\<rparr>"

definition advance_damage :: "float_ops \<Rightarrow> f64 \<Rightarrow> damage_tracker \<Rightarrow> damage_tracker" where
  "advance_damage F dt t = (
     let t = t\<lparr>dt_now := fo_add F (dt_now t) dt\<rparr> in
     if fo_lt F (dt_now t) (dt_next_prune t) then t
     else t\<lparr>dt_next_prune := fo_add F (dt_now t) kForgetAfterSeconds,
            dt_changes := (\<lambda>p. case dt_changes t p of None \<Rightarrow> None
              | Some c \<Rightarrow> if fo_lt F kForgetAfterSeconds (fo_sub F (dt_now t) (dc_at c)) then None else Some c)\<rparr>)"

section \<open>The lanes and their order\<close>

datatype lane_event = Damaged ivec3 u16 u64 | Changed ivec3 u64

definition tracker_event :: "lane_event \<Rightarrow> damage_tracker \<Rightarrow> damage_tracker" where
  "tracker_event ev = (case ev of Damaged p n r \<Rightarrow> on_damage p n r | Changed p r \<Rightarrow> on_block_changed p r)"

lemma tracker_event_simps [simp]:
  "tracker_event (Damaged p n r) = on_damage p n r"
  "tracker_event (Changed p r) = on_block_changed p r"
  by (simp_all add: tracker_event_def)

fun damages_at :: "ivec3 \<Rightarrow> lane_event list \<Rightarrow> (u16 \<times> u64) list" where
  "damages_at p [] = []"
| "damages_at p (Damaged q n r # evs) = (if p = q then (n, r) # damages_at p evs else damages_at p evs)"
| "damages_at p (Changed q r # evs) = damages_at p evs"

fun changes_at :: "ivec3 \<Rightarrow> lane_event list \<Rightarrow> u64 list" where
  "changes_at p [] = []"
| "changes_at p (Damaged q n r # evs) = changes_at p evs"
| "changes_at p (Changed q r # evs) = (if p = q then r # changes_at p evs else changes_at p evs)"

text \<open>
  What a position shows: the last damage message, unless it cleared the position or was about a block
  that a change has replaced.
\<close>

definition last_change :: "u64 list \<Rightarrow> u64" where
  "last_change cs = (if cs = [] then 0 else last cs)"

definition live_damage :: "(u16 \<times> u64) list \<Rightarrow> u64 list \<Rightarrow> (u16 \<times> u64) option" where
  "live_damage ds cs =
     (if ds = [] \<or> fst (last ds) = 0 \<or> snd (last ds) < last_change cs then None else Some (last ds))"

lemma lanes_append [simp]:
  "damages_at p (evs @ [ev]) = damages_at p evs @ damages_at p [ev]"
  "changes_at p (evs @ [ev]) = changes_at p evs @ changes_at p [ev]"
proof (induction evs)
  case (Cons e es)
  case 1 show ?case using Cons(1) by (cases e) auto
  case 2 show ?case using Cons(2) by (cases e) auto
qed simp_all

text \<open>The tracker at a position, in terms of what the two lanes have brought.\<close>

definition tracks :: "damage_tracker \<Rightarrow> ivec3 \<Rightarrow> (u16 \<times> u64) list \<Rightarrow> u64 list \<Rightarrow> bool" where
  "tracks t p ds cs \<longleftrightarrow> dt_punches t p = map_option fst (live_damage ds cs) \<and>
     dt_damage_revision t p = map_option snd (live_damage ds cs) \<and>
     map_option dc_revision (dt_changes t p) = (if cs = [] then None else Some (last cs))"

lemma tracks_damage:
  assumes "tracks t p ds cs" and "sorted (map snd (ds @ [(n, r)]))"
  shows "tracks (on_damage p n r t) p (ds @ [(n, r)]) cs"
proof -
  have "snd d \<le> r" if "d \<in> set ds" for d using assms(2) that by (auto simp: sorted_append)
  then have "ds \<noteq> [] \<Longrightarrow> \<not> r < snd (last ds)" by (simp add: leD)
  with assms(1) show ?thesis
    by (auto simp: tracks_def on_damage_def live_damage_def last_change_def split: option.splits if_splits)
qed

lemma tracks_change:
  assumes "tracks t p ds cs" and "sorted (cs @ [r])"
  shows "tracks (on_block_changed p r t) p ds (cs @ [r])"
proof -
  have "cs \<noteq> [] \<Longrightarrow> last cs \<le> r" using assms(2) by (simp add: sorted_append)
  with assms(1) show ?thesis
    by (cases "last ds")
      (auto simp: tracks_def on_block_changed_def live_damage_def last_change_def Let_def split: option.splits if_splits)
qed

lemma tracks_other:
  "p \<noteq> q \<Longrightarrow> tracks (on_damage q n r t) p ds cs = tracks t p ds cs"
  "p \<noteq> q \<Longrightarrow> tracks (on_block_changed q r t) p ds cs = tracks t p ds cs"
  by (auto simp: tracks_def on_damage_def on_block_changed_def Let_def)

lemma tracks_events:
  assumes "sorted (map snd (damages_at p evs))" and "sorted (changes_at p evs)"
  shows "tracks (fold tracker_event evs new_damage_tracker) p (damages_at p evs) (changes_at p evs)"
  using assms
proof (induction evs rule: rev_induct)
  case Nil
  then show ?case by (simp add: tracks_def new_damage_tracker_def live_damage_def)
next
  case (snoc ev evs)
  then have "tracks (fold tracker_event evs new_damage_tracker) p (damages_at p evs) (changes_at p evs)"
    by (auto simp: sorted_append)
  with snoc.prems show ?case
    by (cases ev) (auto simp: tracks_other tracks_damage tracks_change simp del: map_append)
qed

text \<open>
  Each lane alone is in order. Then the cracks shown do not depend on how the two lanes interleave,
  and a crack never outlives its block nor lands on a later one.
\<close>

theorem damage_lanes:
  assumes "\<forall>p. sorted (map snd (damages_at p evs)) \<and> sorted (changes_at p evs)"
  shows "dt_punches (fold tracker_event evs new_damage_tracker) =
    (\<lambda>p. map_option fst (live_damage (damages_at p evs) (changes_at p evs)))"
  using tracks_events assms by (auto simp: tracks_def)

corollary lanes_interleave:
  assumes "\<forall>p. sorted (map snd (damages_at p evs)) \<and> sorted (changes_at p evs)"
    and "\<forall>p. damages_at p evs' = damages_at p evs \<and> changes_at p evs' = changes_at p evs"
  shows "dt_punches (fold tracker_event evs' new_damage_tracker) = dt_punches (fold tracker_event evs new_damage_tracker)"
  using assms by (simp add: damage_lanes)

end
