(* ===== verification/Movement.thy ===== *)
theory Movement
  imports Float_Math
begin

text \<open>
  Player movement of \<open>physics/movement.hpp\<close> and \<open>movement.cpp\<close>, over any arithmetic. \<open>solid\<close> is
  \<open>BlockSolidQuery::solid_at\<close>. Whatever the rounding, a move never puts a free player box into a
  solid voxel.
\<close>

record move_params =
  mp_half_width :: f64
  mp_height :: f64
  mp_eye_height :: f64
  mp_walk_speed :: f64
  mp_sprint_speed :: f64
  mp_accel :: f64
  mp_air_accel :: f64
  mp_friction :: f64
  mp_gravity :: f64
  mp_jump_speed :: f64
  mp_terminal_velocity :: f64
  mp_step_height :: f64
  mp_fly_speed :: f64
  mp_fly :: bool

definition default_move_params :: move_params where
  "default_move_params = \<lparr>mp_half_width = 0x3FD999999999999A, mp_height = 0x3FFCCCCCCCCCCCCD,
     mp_eye_height = 0x3FF9EB851EB851EC, mp_walk_speed = 0x4012000000000000, mp_sprint_speed = 0x401C000000000000,
     mp_accel = 0x4046800000000000, mp_air_accel = 0x4024000000000000, mp_friction = 0x4028000000000000,
     mp_gravity = 0x4040000000000000, mp_jump_speed = 0x4022000000000000, mp_terminal_velocity = 0x404E000000000000,
     mp_step_height = 0x3FF0CCCCCCCCCCCD, mp_fly_speed = 0x4028000000000000, mp_fly = False\<rparr>"

record move_state =
  ms_position :: vec3d
  ms_velocity :: vec3d
  ms_on_ground :: bool

definition default_move_state :: move_state where
  "default_move_state = \<lparr>ms_position = vd_zero, ms_velocity = vd_zero, ms_on_ground = False\<rparr>"

record move_input =
  mi_wish_dir :: vec3d
  mi_jump :: bool
  mi_sprint :: bool
  mi_fly_up :: bool
  mi_fly_down :: bool
  mi_dt :: f64

definition kFallGravityScale :: f64 where "kFallGravityScale = 0x3FF6666666666666"
definition kSkin :: f64 where "kSkin = 0x3F1A36E2EB1C432D"
definition kMaxStepDist :: f64 where "kMaxStepDist = 0x3FD999999999999A"
definition kMaxDt :: f64 where "kMaxDt = 0x3FB999999999999A"

section \<open>Boxes and solid voxels\<close>

definition player_box :: "float_ops \<Rightarrow> vec3d \<Rightarrow> move_params \<Rightarrow> aabb" where
  "player_box F feet p = \<lparr>
     bx_min = \<lparr>vd_x = fo_sub F (vd_x feet) (mp_half_width p), vd_y = vd_y feet,
               vd_z = fo_sub F (vd_z feet) (mp_half_width p)\<rparr>,
     bx_max = \<lparr>vd_x = fo_add F (vd_x feet) (mp_half_width p), vd_y = fo_add F (vd_y feet) (mp_height p),
               vd_z = fo_add F (vd_z feet) (mp_half_width p)\<rparr>\<rparr>"

definition box_hits_solid :: "float_ops \<Rightarrow> aabb \<Rightarrow> (ivec3 \<Rightarrow> bool) \<Rightarrow> bool" where
  "box_hits_solid F box solid = (
     let x0 = fo_floor_int F (fo_add F (vd_x (bx_min box)) kSkin); x1 = fo_floor_int F (fo_sub F (vd_x (bx_max box)) kSkin);
         y0 = fo_floor_int F (fo_add F (vd_y (bx_min box)) kSkin); y1 = fo_floor_int F (fo_sub F (vd_y (bx_max box)) kSkin);
         z0 = fo_floor_int F (fo_add F (vd_z (bx_min box)) kSkin); z1 = fo_floor_int F (fo_sub F (vd_z (bx_max box)) kSkin) in
     list_ex (\<lambda>x. list_ex (\<lambda>y. list_ex (\<lambda>z. solid \<lparr>iv_x = word_of_int x, iv_y = word_of_int y, iv_z = word_of_int z\<rparr>)
       [sint z0..sint z1]) [sint y0..sint y1]) [sint x0..sint x1])"

definition hits :: "float_ops \<Rightarrow> move_params \<Rightarrow> (ivec3 \<Rightarrow> bool) \<Rightarrow> vec3d \<Rightarrow> bool" where
  "hits F p solid feet = box_hits_solid F (player_box F feet p) solid"

section \<open>Sweeping along an axis\<close>

primrec bisect :: "float_ops \<Rightarrow> move_params \<Rightarrow> (ivec3 \<Rightarrow> bool) \<Rightarrow> nat \<Rightarrow> vec3d \<Rightarrow> vec3d \<Rightarrow> vec3d" where
  "bisect F p solid 0 lo hi = lo"
| "bisect F p solid (Suc k) lo hi = (
     let mid = vd_scale F (vd_add F lo hi) f_half in
     if hits F p solid mid then bisect F p solid k lo mid else bisect F p solid k mid hi)"

definition sweep :: "float_ops \<Rightarrow> move_params \<Rightarrow> (ivec3 \<Rightarrow> bool) \<Rightarrow> vec3d \<Rightarrow> vec3d \<Rightarrow> vec3d \<times> bool" where
  "sweep F p solid pos delta = (
     let np = vd_add F pos delta in
     if \<not> hits F p solid np then (np, False)
     else (bisect F p solid 16 pos np, True))"

definition stop_axes :: "float_ops \<Rightarrow> vec3d \<Rightarrow> move_state \<Rightarrow> move_state" where
  "stop_axes F delta s = (
     let s = (if \<not> fo_eq F (vd_x delta) f_zero then s\<lparr>ms_velocity := (ms_velocity s)\<lparr>vd_x := f_zero\<rparr>\<rparr> else s) in
     if \<not> fo_eq F (vd_z delta) f_zero then s\<lparr>ms_velocity := (ms_velocity s)\<lparr>vd_z := f_zero\<rparr>\<rparr> else s)"

definition resolve_horizontal :: "float_ops \<Rightarrow> move_params \<Rightarrow> (ivec3 \<Rightarrow> bool) \<Rightarrow> vec3d \<Rightarrow> bool \<Rightarrow> move_state \<Rightarrow> move_state" where
  "resolve_horizontal F p solid delta can_step s = (
     let flat = sweep F p solid (ms_position s) delta;
         lifted = (ms_position s)\<lparr>vd_y := fo_add F (vd_y (ms_position s)) (mp_step_height p)\<rparr>;
         over = sweep F p solid lifted delta in
     if \<not> snd flat then s\<lparr>ms_position := fst flat\<rparr>
     else if can_step \<and> \<not> hits F p solid lifted \<and> \<not> snd over
     then s\<lparr>ms_position := fst (sweep F p solid (fst over)
              \<lparr>vd_x = f_zero, vd_y = fo_neg F (fo_add F (mp_step_height p) 0x3FA999999999999A), vd_z = f_zero\<rparr>),
            ms_on_ground := True\<rparr>
     else stop_axes F delta (s\<lparr>ms_position := fst flat\<rparr>))"

section \<open>One step\<close>

definition length_xz :: "float_ops \<Rightarrow> vec3d \<Rightarrow> f64" where
  "length_xz F v = fo_sqrt F (fo_add F (fo_mul F (vd_x v) (vd_x v)) (fo_mul F (vd_z v) (vd_z v)))"

definition wish_dir_from_local :: "float_ops \<Rightarrow> vec3f \<Rightarrow> f32 \<Rightarrow> vec3d" where
  "wish_dir_from_local F local_move yaw_degrees = (
     let yaw = fo_div F (fo_mul F (fo_of_f32 F yaw_degrees) 0x400921FB54442D18) 0x4066800000000000;
         sy = fo_sin F yaw; cy = fo_cos F yaw;
         strafe = fo_of_f32 F (vf_x local_move); fwd = fo_of_f32 F (vf_z local_move);
         d = \<lparr>vd_x = fo_add F (fo_mul F cy strafe) (fo_mul F sy fwd), vd_y = f_zero,
              vd_z = fo_sub F (fo_mul F sy strafe) (fo_mul F cy fwd)\<rparr>;
         len = length_xz F d in
     if fo_lt F f_one len then d\<lparr>vd_x := fo_div F (vd_x d) len, vd_z := fo_div F (vd_z d) len\<rparr> else d)"

text \<open>The velocity of the step: flying, or friction, acceleration, gravity and the jump.\<close>

definition fly_velocity :: "float_ops \<Rightarrow> move_params \<Rightarrow> move_input \<Rightarrow> vec3d \<Rightarrow> move_state \<Rightarrow> move_state" where
  "fly_velocity F p i wish s = s\<lparr>ms_velocity := \<lparr>
       vd_x = fo_mul F (vd_x wish) (mp_fly_speed p),
       vd_y = fo_mul F (fo_sub F (if mi_fly_up i then f_one else f_zero) (if mi_fly_down i then f_one else f_zero)) (mp_fly_speed p),
       vd_z = fo_mul F (vd_z wish) (mp_fly_speed p)\<rparr>,
     ms_on_ground := False\<rparr>"

definition apply_friction :: "float_ops \<Rightarrow> move_params \<Rightarrow> f64 \<Rightarrow> vec3d \<Rightarrow> vec3d" where
  "apply_friction F p dt v = (
     let sp = length_xz F v in
     if fo_lt F f_zero sp then
       let ns = fo_sub F sp (fo_mul F (fo_mul F sp (mp_friction p)) dt);
           ns = (if fo_lt F ns f_zero then f_zero else ns) in
       v\<lparr>vd_x := fo_mul F (vd_x v) (fo_div F ns sp), vd_z := fo_mul F (vd_z v) (fo_div F ns sp)\<rparr>
     else v)"

definition accelerate :: "float_ops \<Rightarrow> f64 \<Rightarrow> vec3d \<Rightarrow> vec3d \<Rightarrow> vec3d" where
  "accelerate F maxd wish_vel v = (
     let dv = \<lparr>vd_x = fo_sub F (vd_x wish_vel) (vd_x v), vd_y = f_zero, vd_z = fo_sub F (vd_z wish_vel) (vd_z v)\<rparr>;
         dvlen = length_xz F dv;
         dv = (if fo_lt F maxd dvlen \<and> fo_lt F f_zero dvlen
               then dv\<lparr>vd_x := fo_mul F (vd_x dv) (fo_div F maxd dvlen), vd_z := fo_mul F (vd_z dv) (fo_div F maxd dvlen)\<rparr>
               else dv) in
     v\<lparr>vd_x := fo_add F (vd_x v) (vd_x dv), vd_z := fo_add F (vd_z v) (vd_z dv)\<rparr>)"

definition apply_gravity :: "float_ops \<Rightarrow> move_params \<Rightarrow> f64 \<Rightarrow> vec3d \<Rightarrow> vec3d" where
  "apply_gravity F p dt v = (
     let vy = fo_sub F (vd_y v) (fo_mul F (fo_mul F (mp_gravity p)
           (if fo_lt F (vd_y v) f_zero then kFallGravityScale else f_one)) dt) in
     v\<lparr>vd_y := if fo_lt F vy (fo_neg F (mp_terminal_velocity p)) then fo_neg F (mp_terminal_velocity p) else vy\<rparr>)"

definition walk_velocity :: "float_ops \<Rightarrow> move_params \<Rightarrow> move_input \<Rightarrow> f64 \<Rightarrow> bool \<Rightarrow> vec3d \<Rightarrow> move_state \<Rightarrow> move_state" where
  "walk_velocity F p i dt has_wish wish s = (
     let target_speed = (if mi_sprint i then mp_sprint_speed p else mp_walk_speed p);
         wish_vel = \<lparr>vd_x = if has_wish then fo_mul F (vd_x wish) target_speed else f_zero, vd_y = f_zero,
                     vd_z = if has_wish then fo_mul F (vd_z wish) target_speed else f_zero\<rparr>;
         v = ms_velocity s;
         v = (if ms_on_ground s \<and> \<not> has_wish then apply_friction F p dt v else v);
         a = (if ms_on_ground s then mp_accel p else mp_air_accel p);
         v = accelerate F (fo_mul F a dt) wish_vel v;
         v = apply_gravity F p dt v in
     if mi_jump i \<and> ms_on_ground s
     then s\<lparr>ms_velocity := v\<lparr>vd_y := mp_jump_speed p\<rparr>, ms_on_ground := False\<rparr>
     else s\<lparr>ms_velocity := v\<rparr>)"

text \<open>The substeps: the vertical sweep, then both horizontal axes.\<close>

definition vertical_sweep :: "float_ops \<Rightarrow> move_params \<Rightarrow> (ivec3 \<Rightarrow> bool) \<Rightarrow> move_state \<times> vec3d \<times> bool \<Rightarrow>
    move_state \<times> vec3d \<times> bool" where
  "vertical_sweep F p solid acc = (case acc of (s, step_disp, grounded) \<Rightarrow>
     if fo_eq F (vd_y step_disp) f_zero then (s, step_disp, grounded)
     else
       let r = sweep F p solid (ms_position s) \<lparr>vd_x = f_zero, vd_y = vd_y step_disp, vd_z = f_zero\<rparr>;
           s = s\<lparr>ms_position := fst r\<rparr> in
       if snd r then (s\<lparr>ms_velocity := (ms_velocity s)\<lparr>vd_y := f_zero\<rparr>\<rparr>, step_disp\<lparr>vd_y := f_zero\<rparr>,
           grounded \<or> fo_le F (vd_y (ms_velocity s)) f_zero)
       else (s, step_disp, grounded))"

primrec substeps :: "float_ops \<Rightarrow> move_params \<Rightarrow> (ivec3 \<Rightarrow> bool) \<Rightarrow> nat \<Rightarrow> move_state \<times> vec3d \<times> bool \<Rightarrow> move_state \<times> bool" where
  "substeps F p solid 0 acc = (fst acc, snd (snd acc))"
| "substeps F p solid (Suc n) acc = (
     let (s, step_disp, grounded) = vertical_sweep F p solid acc;
         can_step = (ms_on_ground s \<or> grounded);
         s = resolve_horizontal F p solid \<lparr>vd_x = vd_x step_disp, vd_y = f_zero, vd_z = f_zero\<rparr> can_step s;
         s = resolve_horizontal F p solid \<lparr>vd_x = f_zero, vd_y = f_zero, vd_z = vd_z step_disp\<rparr> can_step s in
     substeps F p solid n (s, step_disp, grounded))"

definition integrate :: "float_ops \<Rightarrow> move_params \<Rightarrow> (ivec3 \<Rightarrow> bool) \<Rightarrow> f64 \<Rightarrow> move_state \<Rightarrow> move_state" where
  "integrate F p solid dt s = (
     let disp = vd_scale F (ms_velocity s) dt;
         biggest = f_max F (fo_abs F (vd_x disp)) [fo_abs F (vd_y disp), fo_abs F (vd_z disp)];
         steps = nat (max 1 (sint (fo_ceil_int F (fo_div F biggest kMaxStepDist))));
         n = fo_of_int F (of_nat steps);
         step_disp = \<lparr>vd_x = fo_div F (vd_x disp) n, vd_y = fo_div F (vd_y disp) n, vd_z = fo_div F (vd_z disp) n\<rparr>;
         (s, grounded) = substeps F p solid steps (s, step_disp, False);
         probe = (ms_position s)\<lparr>vd_y := fo_sub F (vd_y (ms_position s)) 0x3F947AE147AE147B\<rparr>;
         grounded = (grounded \<or> fo_le F (vd_y (ms_velocity s)) f_zero \<and> hits F p solid probe) in
     s\<lparr>ms_on_ground := (if mp_fly p then False else grounded)\<rparr>)"

definition step_movement :: "float_ops \<Rightarrow> move_params \<Rightarrow> (ivec3 \<Rightarrow> bool) \<Rightarrow> move_input \<Rightarrow> move_state \<Rightarrow> move_state" where
  "step_movement F p solid i s = (
     let dt = f_clamp F (mi_dt i) f_zero kMaxDt in
     if fo_le F dt f_zero then s
     else
       let wish = mi_wish_dir i;
           wlen = length_xz F wish;
           has_wish = fo_lt F 0x3EB0C6F7A0B5ED8D wlen;
           wish = (if fo_lt F f_one wlen then wish\<lparr>vd_x := fo_div F (vd_x wish) wlen, vd_z := fo_div F (vd_z wish) wlen\<rparr>
                   else wish) in
       integrate F p solid dt
         (if mp_fly p then fly_velocity F p i wish s else walk_velocity F p i dt has_wish wish s))"

text \<open>Enough of the column below is loaded.\<close>

definition ground_area_loaded :: "float_ops \<Rightarrow> vec3d \<Rightarrow> (chunk_coord \<Rightarrow> bool) \<Rightarrow> bool" where
  "ground_area_loaded F feet has = (
     let base = chunk_of (voxel_of F feet) in
     list_all (\<lambda>dy. has \<lparr>cc_x = cc_x base, cc_y = cc_y base + dy, cc_z = cc_z base\<rparr>) [0, -1, -2])"

section \<open>No new penetration\<close>

lemma bisect_free: "\<not> hits F p solid lo \<Longrightarrow> \<not> hits F p solid (bisect F p solid k lo hi)"
  by (induction k arbitrary: lo hi) (simp_all add: Let_def)

lemma sweep_free: "\<not> hits F p solid pos \<Longrightarrow> \<not> hits F p solid (fst (sweep F p solid pos delta))"
  by (simp add: sweep_def Let_def bisect_free)

lemma sweep_unblocked: "\<not> snd (sweep F p solid pos delta) \<Longrightarrow> \<not> hits F p solid (fst (sweep F p solid pos delta))"
  by (simp add: sweep_def Let_def split: if_splits)

lemma stop_axes_position [simp]: "ms_position (stop_axes F delta s) = ms_position s"
  by (simp add: stop_axes_def Let_def)

lemma resolve_horizontal_free:
  "\<not> hits F p solid (ms_position s) \<Longrightarrow> \<not> hits F p solid (ms_position (resolve_horizontal F p solid delta can_step s))"
  by (simp add: resolve_horizontal_def Let_def sweep_free sweep_unblocked)

lemma vertical_sweep_free:
  "\<not> hits F p solid (ms_position (fst acc)) \<Longrightarrow> \<not> hits F p solid (ms_position (fst (vertical_sweep F p solid acc)))"
  by (cases acc) (auto simp: vertical_sweep_def Let_def sweep_free)

lemma substeps_free:
  "\<not> hits F p solid (ms_position (fst acc)) \<Longrightarrow> \<not> hits F p solid (ms_position (fst (substeps F p solid n acc)))"
proof (induction n arbitrary: acc)
  case (Suc n)
  obtain s d g where v: "vertical_sweep F p solid acc = (s, d, g)" using prod_cases3 by blast
  have "\<not> hits F p solid (ms_position s)" using vertical_sweep_free [OF Suc.prems] v by simp
  then show ?case by (simp add: v Let_def Suc.IH resolve_horizontal_free)
qed simp

lemma velocity_position [simp]:
  "ms_position (fly_velocity F p i wish s) = ms_position s"
  "ms_position (walk_velocity F p i dt has_wish wish s) = ms_position s"
  by (simp_all add: fly_velocity_def walk_velocity_def Let_def)

lemma step_movement_free:
  assumes "\<not> hits F p solid (ms_position s)"
  shows "\<not> hits F p solid (ms_position (step_movement F p solid i s))"
proof -
  have "\<not> hits F p solid (ms_position (integrate F p solid dt t))" if "\<not> hits F p solid (ms_position t)" for dt t
    using substeps_free [of F p solid "(t, d, False)" n for d n] that
    by (simp add: integrate_def Let_def case_prod_unfold)
  with assms show ?thesis by (simp add: step_movement_def Let_def)
qed

lemma step_movement_no_time: "fo_le F (f_clamp F (mi_dt i) f_zero kMaxDt) f_zero \<Longrightarrow> step_movement F p solid i s = s"
  by (simp add: step_movement_def Let_def)

lemma fly_never_grounded:
  "mp_fly p \<Longrightarrow> \<not> fo_le F (f_clamp F (mi_dt i) f_zero kMaxDt) f_zero \<Longrightarrow> \<not> ms_on_ground (step_movement F p solid i s)"
  by (simp add: step_movement_def integrate_def Let_def case_prod_unfold)

end
