(* ===== verification/Client_World.thy ===== *)
theory Client_World
  imports Client_Session Client_Chunks Block_Damage_Tracker Movement World_Messages Session_Messages Entity_Messages
begin

text \<open>
  The playing half of \<open>ClientSession\<close> (\<open>net/session.cpp\<close>): every gameplay message and registry it
  applies, the server-time estimate, the interpolation samples of remote entities, input prediction
  with its reconciliation, and predicted block edits with their rollback. \<open>None\<close> stands for a chunk
  payload that decodes past the end of an array.
\<close>

section \<open>The server's clock\<close>

text \<open>\<open>ServerTimeEstimator\<close> of \<open>net/server_time_estimator.hpp\<close>.\<close>

record server_time =
  st_estimate_seconds :: f64
  st_primed :: bool

definition new_server_time :: server_time where
  "new_server_time = \<lparr>st_estimate_seconds = f_zero, st_primed = False\<rparr>"

definition advance_server_time :: "float_ops \<Rightarrow> f64 \<Rightarrow> server_time \<Rightarrow> server_time" where
  "advance_server_time F dt t = t\<lparr>st_estimate_seconds := fo_add F (st_estimate_seconds t) dt\<rparr>"

definition kSnapThresholdSeconds :: f64 where "kSnapThresholdSeconds = f_one"
definition kSmoothing :: f64 where "kSmoothing = 0x3FC3333333333333"

definition on_snapshot :: "float_ops \<Rightarrow> f64 \<Rightarrow> f64 \<Rightarrow> server_time \<Rightarrow> server_time" where
  "on_snapshot F server_seconds one_way_latency_seconds t = (
     let implied = fo_add F server_seconds one_way_latency_seconds in
     if \<not> st_primed t \<or> fo_lt F kSnapThresholdSeconds (fo_abs F (fo_sub F implied (st_estimate_seconds t)))
     then \<lparr>st_estimate_seconds = implied, st_primed = True\<rparr>
     else t\<lparr>st_estimate_seconds := fo_add F (st_estimate_seconds t)
            (fo_mul F (fo_sub F implied (st_estimate_seconds t)) kSmoothing)\<rparr>)"

section \<open>The state\<close>

text \<open>\<open>InterpBuffer\<close> of \<open>ecs/components.hpp\<close>: the last two samples of an entity.\<close>

record interp_buffer =
  ib_prev_pos :: vec3d
  ib_cur_pos :: vec3d
  ib_prev_yaw :: f32
  ib_cur_yaw :: f32
  ib_prev_tick :: u32
  ib_cur_tick :: u32

definition new_interp_buffer :: interp_buffer where
  "new_interp_buffer = \<lparr>ib_prev_pos = vd_zero, ib_cur_pos = vd_zero, ib_prev_yaw = 0, ib_cur_yaw = 0,
     ib_prev_tick = 0, ib_cur_tick = 0\<rparr>"

record pending_edit =
  pe_seq :: u32
  pe_pos :: ivec3
  pe_prev :: block_id
  pe_coord :: chunk_coord

record client_world =
  cw_chunks :: client_chunks
  cw_remote :: "net_id \<rightharpoonup> entity_record"
  cw_entities :: "net_id \<rightharpoonup> entity_kind_id \<times> interp_buffer"
  cw_last_server_tick :: u32
  cw_server_time :: server_time
  cw_pending_open_ui :: "s2c_open_ui option"
  cw_pending_chat :: "bstring list"
  cw_players :: "net_id \<rightharpoonup> bstring"
  cw_time_of_day_override :: "u32 option"
  cw_inventory :: "inventory_slot list"
  cw_player_status :: "s2c_player_status option"
  cw_keybind_names :: "bstring list"
  cw_entity_kinds :: "entity_kind_registry_record list"
  cw_visual_overrides :: "net_id \<rightharpoonup> entity_visual_override"
  cw_entity_items :: "net_id \<rightharpoonup> u16"
  cw_day_night_curve :: "day_night_keyframe_record list"
  cw_fog_override :: "s2c_fog_params option"
  cw_block_damage :: damage_tracker
  cw_predicted :: move_state
  cw_move_params :: move_params
  cw_history :: "input_cmd list"
  cw_last_acked_seq :: u32
  cw_pending_edits :: "pending_edit list"

definition new_client_world :: client_world where
  "new_client_world = \<lparr>cw_chunks = \<lparr>cst_registry = base_registry, cst_chunks = Map.empty\<rparr>, cw_remote = Map.empty,
     cw_entities = Map.empty, cw_last_server_tick = 0, cw_server_time = new_server_time,
     cw_pending_open_ui = None, cw_pending_chat = [], cw_players = Map.empty, cw_time_of_day_override = None,
     cw_inventory = [], cw_player_status = None, cw_keybind_names = [], cw_entity_kinds = [],
     cw_visual_overrides = Map.empty, cw_entity_items = Map.empty, cw_day_night_curve = [],
     cw_fog_override = None, cw_block_damage = new_damage_tracker, cw_predicted = default_move_state,
     cw_move_params = default_move_params, cw_history = [], cw_last_acked_seq = 0, cw_pending_edits = []\<rparr>"

text \<open>What a tick reads from outside the world: the arithmetic, the framing, the server's info and the round trip.\<close>

record client_env =
  ce_floats :: float_ops
  ce_lz4 :: "lz4_api option"
  ce_server_info :: "s2c_server_info option"
  ce_round_trip :: "f64 option"

definition tick_rate :: "client_env \<Rightarrow> f64" where
  "tick_rate env = (case ce_server_info env of
       Some i \<Rightarrow> if 0 < info_tick_rate i then fo_of_u32 (ce_floats env) (ucast (info_tick_rate i)) else 0x4034000000000000
     | None \<Rightarrow> 0x4034000000000000)"

section \<open>Registries\<close>

definition apply_block_registry :: "s2c_block_registry \<Rightarrow> client_world \<Rightarrow> client_world" where
  "apply_block_registry m w = w\<lparr>cw_chunks := set_registry (fold (\<lambda>b r. snd (br_add
     (default_block_type\<lparr>bt_name := brr_name b, bt_solid := brr_solid b, bt_opaque := brr_opaque b,
        bt_liquid := brr_liquid b, bt_light_emission := brr_light_emission b, bt_texture := brr_texture b,
        bt_max_damage := brr_max_damage b, bt_crack_texture := brr_crack_texture b\<rparr>) r)) (breg_blocks m) []) (cw_chunks w)\<rparr>"

definition apply_keybind_registry :: "s2c_keybind_registry \<Rightarrow> client_world \<Rightarrow> client_world" where
  "apply_keybind_registry m w = w\<lparr>cw_keybind_names := keys_names m\<rparr>"

definition apply_entity_kind_registry :: "s2c_entity_kind_registry \<Rightarrow> client_world \<Rightarrow> client_world" where
  "apply_entity_kind_registry m w = w\<lparr>cw_entity_kinds := kinds_list m\<rparr>"

definition apply_move_params :: "s2c_move_params \<Rightarrow> client_world \<Rightarrow> client_world" where
  "apply_move_params m w = w\<lparr>cw_move_params := \<lparr>mp_half_width = move_half_width m, mp_height = move_height m,
     mp_eye_height = move_eye_height m, mp_walk_speed = move_walk_speed m, mp_sprint_speed = move_sprint_speed m,
     mp_accel = move_accel m, mp_air_accel = move_air_accel m, mp_friction = move_friction m,
     mp_gravity = move_gravity m, mp_jump_speed = move_jump_speed m, mp_terminal_velocity = move_terminal_velocity m,
     mp_step_height = move_step_height m, mp_fly_speed = move_fly_speed m, mp_fly = move_fly m\<rparr>\<rparr>"

definition apply_day_night_curve :: "s2c_day_night_curve \<Rightarrow> client_world \<Rightarrow> client_world" where
  "apply_day_night_curve m w = w\<lparr>cw_day_night_curve := curve_keyframes m\<rparr>"

definition apply_fog_params :: "s2c_fog_params \<Rightarrow> client_world \<Rightarrow> client_world" where
  "apply_fog_params m w = w\<lparr>cw_fog_override := Some m\<rparr>"

text \<open>The registry branches of the session's tick: a payload that does not decode is logged.\<close>

definition apply_registry :: "frame \<Rightarrow> client_world \<Rightarrow> client_world" where
  "apply_registry fr w = (let p = fr_payload fr; t = ftype fr in
     if t = kS2CBlockRegistry then (case decode_S2CBlockRegistry p of Inl _ \<Rightarrow> w | Inr m \<Rightarrow> apply_block_registry m w)
     else if t = kS2CKeybindRegistry then (case decode_S2CKeybindRegistry p of Inl _ \<Rightarrow> w | Inr m \<Rightarrow> apply_keybind_registry m w)
     else if t = kS2CEntityKindRegistry then (case decode_S2CEntityKindRegistry p of Inl _ \<Rightarrow> w | Inr m \<Rightarrow> apply_entity_kind_registry m w)
     else if t = kS2CMoveParams then (case decode_S2CMoveParams p of Inl _ \<Rightarrow> w | Inr m \<Rightarrow> apply_move_params m w)
     else if t = kS2CDayNightCurve then (case decode_S2CDayNightCurve p of Inl _ \<Rightarrow> w | Inr m \<Rightarrow> apply_day_night_curve m w)
     else if t = kS2CFogParams then (case decode_S2CFogParams p of Inl _ \<Rightarrow> w | Inr m \<Rightarrow> apply_fog_params m w)
     else w)"

section \<open>Prediction\<close>

definition kInputJump :: u8 where "kInputJump = 1"
definition kInputSprint :: u8 where "kInputSprint = 2"
definition kInputFlyUp :: u8 where "kInputFlyUp = 16"
definition kInputFlyDown :: u8 where "kInputFlyDown = 32"

definition to_move_input :: "float_ops \<Rightarrow> input_cmd \<Rightarrow> move_input" where
  "to_move_input F c = \<lparr>mi_wish_dir = wish_dir_from_local F (cmd_move c) (cmd_yaw c),
     mi_jump = cmd_buttons c AND kInputJump \<noteq> 0, mi_sprint = cmd_buttons c AND kInputSprint \<noteq> 0,
     mi_fly_up = cmd_buttons c AND kInputFlyUp \<noteq> 0, mi_fly_down = cmd_buttons c AND kInputFlyDown \<noteq> 0,
     mi_dt = f_clamp F (fo_of_f32 F (cmd_dt c)) f_zero 0x3FB999999999999A\<rparr>"

definition predict :: "float_ops \<Rightarrow> client_world \<Rightarrow> input_cmd \<Rightarrow> move_state \<Rightarrow> move_state" where
  "predict F w c s = step_movement F (cw_move_params w) (client_solid_at (cw_chunks w)) (to_move_input F c) s"

definition reconcile :: "float_ops \<Rightarrow> entity_record \<Rightarrow> u32 \<Rightarrow> client_world \<Rightarrow> client_world" where
  "reconcile F auth acked w = (
     let s = \<lparr>ms_position = er_pos auth,
              ms_velocity = \<lparr>vd_x = fo_of_f32 F (vf_x (er_vel auth)), vd_y = fo_of_f32 F (vf_y (er_vel auth)),
                            vd_z = fo_of_f32 F (vf_z (er_vel auth))\<rparr>,
              ms_on_ground = er_flags auth AND 1 \<noteq> 0\<rparr>;
         history = filter (\<lambda>c. \<not> cmd_seq c \<le> acked) (cw_history w) in
     w\<lparr>cw_last_acked_seq := acked, cw_history := history, cw_predicted := fold (predict F w) history s\<rparr>)"

definition push_input :: "client_env \<Rightarrow> bool \<Rightarrow> input_cmd \<Rightarrow> client_world \<Rightarrow> outgoing_frame list \<times> client_world" where
  "push_input env joined cmd w = (
     if \<not> joined then ([], w)
     else
       let F = ce_floats env;
           w = (if ground_area_loaded F (ms_position (cw_predicted w)) (\<lambda>c. cst_chunks (cw_chunks w) c \<noteq> None)
                then w\<lparr>cw_predicted := predict F w cmd (cw_predicted w)\<rparr> else w);
           history = cw_history w @ [cmd];
           history = drop (length history - kMaxCmds) history in
       ([frame_message (ce_lz4 env) kC2SInputBatch (encode_C2SInputBatch \<lparr>batch_cmds = history\<rparr>) 0],
        w\<lparr>cw_history := history\<rparr>))"

section \<open>Predicted block edits\<close>

definition push_block_edit :: "client_env \<Rightarrow> bool \<Rightarrow> c2s_block_edit \<Rightarrow> client_world \<Rightarrow> outgoing_frame list \<times> client_world" where
  "push_block_edit env joined e w = (
     if \<not> joined then ([], w)
     else
       let applied = (if edit_action e = kBreak then kAir else c2s_block_edit.edit_block e);
           (prev, chunks) = Client_Chunks.edit_block (edit_pos e) applied (cw_chunks w) in
       ([frame_message (ce_lz4 env) kC2SBlockEdit (encode_C2SBlockEdit e) 0],
        w\<lparr>cw_chunks := chunks, cw_pending_edits := cw_pending_edits w @
          [\<lparr>pe_seq = edit_predicted_seq e, pe_pos = edit_pos e, pe_prev = prev, pe_coord = chunk_of (edit_pos e)\<rparr>]\<rparr>))"

text \<open>\<open>handle_block_edit_result\<close>: the first pending edit of that number.\<close>

definition handle_block_edit_result :: "s2c_block_edit_result \<Rightarrow> client_world \<Rightarrow> client_world" where
  "handle_block_edit_result res w = (case find (\<lambda>e. pe_seq e = eres_predicted_seq res) (cw_pending_edits w) of
       None \<Rightarrow> w
     | Some e \<Rightarrow> w\<lparr>cw_chunks := (if eres_accepted res then cw_chunks w
                      else snd (Client_Chunks.edit_block (pe_pos e) (pe_prev e) (cw_chunks w))),
                   cw_pending_edits := remove1 e (cw_pending_edits w)\<rparr>)"

definition forget_pending_edits_for :: "chunk_coord \<Rightarrow> client_world \<Rightarrow> client_world" where
  "forget_pending_edits_for c w = w\<lparr>cw_pending_edits := filter (\<lambda>e. pe_coord e \<noteq> c) (cw_pending_edits w)\<rparr>"

section \<open>Snapshots\<close>

definition kind_and_samples :: "net_id \<Rightarrow> client_world \<Rightarrow> interp_buffer" where
  "kind_and_samples n w = (case cw_entities w n of None \<Rightarrow> new_interp_buffer | Some (_, s) \<Rightarrow> s)"

definition add_sample :: "u32 \<Rightarrow> entity_record \<Rightarrow> interp_buffer \<Rightarrow> interp_buffer" where
  "add_sample server_tick r s = (
     let s = (if ib_cur_tick s = 0
              then s\<lparr>ib_prev_pos := er_pos r, ib_prev_yaw := v2_x (er_rot r), ib_prev_tick := server_tick\<rparr>
              else if ib_cur_tick s \<noteq> server_tick
              then s\<lparr>ib_prev_pos := ib_cur_pos s, ib_prev_yaw := ib_cur_yaw s, ib_prev_tick := ib_cur_tick s\<rparr>
              else s) in
     s\<lparr>ib_cur_pos := er_pos r, ib_cur_yaw := v2_x (er_rot r), ib_cur_tick := server_tick\<rparr>)"

definition ingest_record :: "u32 \<Rightarrow> entity_record \<Rightarrow> client_world \<Rightarrow> client_world" where
  "ingest_record server_tick r w = (let n = er_net_id r in w\<lparr>
     cw_remote := (cw_remote w)(n \<mapsto> r),
     cw_visual_overrides := (case er_visual_override r of None \<Rightarrow> cw_visual_overrides w | Some v \<Rightarrow> (cw_visual_overrides w)(n \<mapsto> v)),
     cw_entity_items := (case er_item r of None \<Rightarrow> cw_entity_items w | Some i \<Rightarrow> (cw_entity_items w)(n \<mapsto> i)),
     cw_entities := (cw_entities w)(n \<mapsto> (er_kind r, add_sample server_tick r (kind_and_samples n w)))\<rparr>)"

definition remove_entity :: "net_id \<Rightarrow> client_world \<Rightarrow> client_world" where
  "remove_entity n w = w\<lparr>cw_remote := (cw_remote w)(n := None),
     cw_visual_overrides := (cw_visual_overrides w)(n := None), cw_entity_items := (cw_entity_items w)(n := None),
     cw_entities := (cw_entities w)(n := None)\<rparr>"

definition apply_snapshot :: "client_env \<Rightarrow> s2c_entity_snapshot \<Rightarrow> client_world \<Rightarrow> client_world" where
  "apply_snapshot env snap w = (
     let F = ce_floats env; tick = snap_server_tick snap;
         one_way_latency = fo_div F (case ce_round_trip env of None \<Rightarrow> f_zero | Some t \<Rightarrow> t) 0x4000000000000000;
         w = w\<lparr>cw_last_server_tick := tick,
               cw_server_time := on_snapshot F (fo_div F (fo_of_u32 F tick) (tick_rate env)) one_way_latency (cw_server_time w)\<rparr>;
         w = fold (ingest_record tick) (snap_entered snap) w;
         w = fold (ingest_record tick) (snap_updated snap) w;
         w = fold remove_entity (snap_removed snap) w in
     if snap_has_local snap then reconcile F (snap_local snap) (snap_last_acked_input_seq snap) w else w)"

definition interpolated_pos :: "client_env \<Rightarrow> net_id \<Rightarrow> client_world \<Rightarrow> vec3d" where
  "interpolated_pos env n w = (
     let F = ce_floats env in
     case cw_entities w n of
       None \<Rightarrow> (case cw_remote w n of None \<Rightarrow> vd_zero | Some r \<Rightarrow> er_pos r)
     | Some (_, s) \<Rightarrow>
         if ib_cur_tick s \<le> ib_prev_tick s then ib_cur_pos s
         else
           let span = fo_of_u32 F (ib_cur_tick s - ib_prev_tick s);
               now_ticks = (if st_primed (cw_server_time w)
                            then fo_mul F (st_estimate_seconds (cw_server_time w)) (tick_rate env)
                            else fo_of_u32 F (cw_last_server_tick w));
               target = fo_sub F (fo_sub F now_ticks f_one) (fo_of_u32 F (ib_prev_tick s));
               a = f_clamp F (if fo_lt F f_zero span then fo_div F target span else f_one) f_zero f_one in
           vd_add F (ib_prev_pos s) (vd_scale F (vd_sub F (ib_cur_pos s) (ib_prev_pos s)) a))"

section \<open>Chunks\<close>

text \<open>Inverse of \<open>index_of\<close>: x fastest, then z, then y.\<close>

definition world_voxel_of :: "chunk_coord \<Rightarrow> nat \<Rightarrow> ivec3" where
  "world_voxel_of c i = (let origin = chunk_origin c in
     \<lparr>iv_x = iv_x origin + of_nat (i mod 32), iv_y = iv_y origin + of_nat (i div (32 * 32)),
      iv_z = iv_z origin + of_nat ((i div 32) mod 32)\<rparr>)"

text \<open>A chunk sent again may have changed blocks that damage refers to.\<close>

definition replaced_voxels :: "chunk option \<Rightarrow> chunk option \<Rightarrow> nat list" where
  "replaced_voxels prior now = (case (prior, now) of
       (Some b, Some a) \<Rightarrow> filter (\<lambda>i. chunk_get a i \<noteq> chunk_get b i) [0..<kChunkVolume]
     | _ \<Rightarrow> [])"

definition on_chunk_add :: "s2c_chunk_add \<Rightarrow> client_world \<Rightarrow> client_world option" where
  "on_chunk_add m w = (case apply_add m (cw_chunks w) of
       None \<Rightarrow> None
     | Some (e, chunks) \<Rightarrow> Some (
         if e \<noteq> None then w\<lparr>cw_chunks := chunks\<rparr>
         else w\<lparr>cw_chunks := chunks, cw_block_damage :=
           fold (\<lambda>i. on_block_changed (world_voxel_of (add_coord m) i) (add_revision m))
             (replaced_voxels (cst_chunks (cw_chunks w) (add_coord m)) (cst_chunks chunks (add_coord m)))
             (cw_block_damage w)\<rparr>))"

definition on_chunk_delta :: "s2c_chunk_delta \<Rightarrow> client_world \<Rightarrow> client_world" where
  "on_chunk_delta m w = (
     let (e, chunks) = apply_delta m (cw_chunks w);
         w = w\<lparr>cw_chunks := chunks\<rparr>;
         w = (if e \<noteq> None then w
              else w\<lparr>cw_block_damage := fold (\<lambda>c. on_block_changed
                (world_voxel_of (delta_coord m) (unat (bc_local_index c))) (delta_new_revision m))
                (delta_blocks m) (cw_block_damage w)\<rparr>) in
     forget_pending_edits_for (delta_coord m) w)"

definition on_chunk_remove :: "s2c_chunk_remove \<Rightarrow> client_world \<Rightarrow> client_world" where
  "on_chunk_remove m w = w\<lparr>cw_chunks := apply_remove m (cw_chunks w),
     cw_block_damage := on_chunk_removed (remove_coord m) (cw_block_damage w)\<rparr>"

section \<open>Players\<close>

definition on_player_join :: "s2c_player_join \<Rightarrow> client_world \<Rightarrow> client_world" where
  "on_player_join m w = w\<lparr>cw_pending_chat := cw_pending_chat w @ [lit ''* '' @ pjoin_name m @ lit '' joined the game''],
     cw_players := (cw_players w)(pjoin_net_id m \<mapsto> pjoin_name m)\<rparr>"

definition on_player_leave :: "s2c_player_leave \<Rightarrow> client_world \<Rightarrow> client_world" where
  "on_player_leave m w = (
     let name = (case cw_players w (pleave_net_id m) of None \<Rightarrow> lit ''player'' | Some n \<Rightarrow> n) in
     w\<lparr>cw_players := (cw_players w)(pleave_net_id m := None),
       cw_pending_chat := cw_pending_chat w @ [lit ''* '' @ name @ lit '' left the game'']\<rparr>)"

definition on_player_list :: "s2c_player_list \<Rightarrow> client_world \<Rightarrow> client_world" where
  "on_player_list m w = w\<lparr>cw_players :=
     fold (\<lambda>p players. players(ple_net_id p \<mapsto> ple_name p)) (plist_players m) Map.empty\<rparr>"

definition take_open_ui :: "client_world \<Rightarrow> s2c_open_ui option \<times> client_world" where
  "take_open_ui w = (cw_pending_open_ui w, w\<lparr>cw_pending_open_ui := None\<rparr>)"

definition take_chat_messages :: "client_world \<Rightarrow> bstring list \<times> client_world" where
  "take_chat_messages w = (cw_pending_chat w, w\<lparr>cw_pending_chat := []\<rparr>)"

definition entity_kind :: "entity_kind_id \<Rightarrow> client_world \<Rightarrow> entity_kind_registry_record option" where
  "entity_kind k w = (if k = 0 then None
     else if unat k - 1 < length (cw_entity_kinds w) then Some (cw_entity_kinds w ! (unat k - 1)) else None)"

definition time_of_day :: "s2c_join_accept option \<Rightarrow> client_world \<Rightarrow> u32" where
  "time_of_day accept w = (case cw_time_of_day_override w of
       Some t \<Rightarrow> t
     | None \<Rightarrow> (case accept of Some a \<Rightarrow> join_time_of_day a | None \<Rightarrow> 0))"

section \<open>The gameplay messages\<close>

definition world_frame :: "client_env \<Rightarrow> frame \<Rightarrow> client_world \<Rightarrow> client_world option" where
  "world_frame env fr w = (let p = fr_payload fr; t = ftype fr in
     if t = kS2CEntitySnapshot then (case decode_S2CEntitySnapshot p of Inl _ \<Rightarrow> Some w | Inr m \<Rightarrow> Some (apply_snapshot env m w))
     else if t = kS2CChunkAdd then (case decode_S2CChunkAdd p of Inl _ \<Rightarrow> Some w | Inr m \<Rightarrow> on_chunk_add m w)
     else if t = kS2CChunkDelta then (case decode_S2CChunkDelta p of Inl _ \<Rightarrow> Some w | Inr m \<Rightarrow> Some (on_chunk_delta m w))
     else if t = kS2CBlockEditResult then (case decode_S2CBlockEditResult p of Inl _ \<Rightarrow> Some w | Inr m \<Rightarrow> Some (handle_block_edit_result m w))
     else if t = kS2CChunkRemove then (case decode_S2CChunkRemove p of Inl _ \<Rightarrow> Some w | Inr m \<Rightarrow> Some (on_chunk_remove m w))
     else if t = kS2COpenUi then (case decode_S2COpenUi p of Inl _ \<Rightarrow> Some w | Inr m \<Rightarrow> Some (w\<lparr>cw_pending_open_ui := Some m\<rparr>))
     else if t = kS2CChat then (case decode_S2CChat p of Inl _ \<Rightarrow> Some w
       | Inr m \<Rightarrow> Some (w\<lparr>cw_pending_chat := cw_pending_chat w @ [schat_text m]\<rparr>))
     else if t = kS2CTimeOfDay then (case decode_S2CTimeOfDay p of Inl _ \<Rightarrow> Some w
       | Inr m \<Rightarrow> Some (w\<lparr>cw_time_of_day_override := Some (tod_time_of_day m)\<rparr>))
     else if t = kS2CPlayerList then (case decode_S2CPlayerList p of Inl _ \<Rightarrow> Some w | Inr m \<Rightarrow> Some (on_player_list m w))
     else if t = kS2CPlayerJoin then (case decode_S2CPlayerJoin p of Inl _ \<Rightarrow> Some w | Inr m \<Rightarrow> Some (on_player_join m w))
     else if t = kS2CInventory then (case decode_S2CInventory p of Inl _ \<Rightarrow> Some w | Inr m \<Rightarrow> Some (w\<lparr>cw_inventory := inv_slots m\<rparr>))
     else if t = kS2CPlayerStatus then (case decode_S2CPlayerStatus p of Inl _ \<Rightarrow> Some w | Inr m \<Rightarrow> Some (w\<lparr>cw_player_status := Some m\<rparr>))
     else if t = kS2CBlockDamage then (case decode_S2CBlockDamage p of Inl _ \<Rightarrow> Some w
       | Inr m \<Rightarrow> Some (w\<lparr>cw_block_damage := on_damage (bdmg_pos m) (bdmg_punches m) (bdmg_revision m) (cw_block_damage w)\<rparr>))
     else if t = kS2CPlayerLeave then (case decode_S2CPlayerLeave p of Inl _ \<Rightarrow> Some w | Inr m \<Rightarrow> Some (on_player_leave m w))
     else Some w)"

text \<open>The session over this world.\<close>

definition world_apply :: "client_env \<Rightarrow> f64 \<Rightarrow> client_world option session_apply" where
  "world_apply env dt = \<lparr>
     sa_registry = (\<lambda>fr. map_option (apply_registry fr)),
     sa_gameplay = (\<lambda>fr w. Option.bind w (world_frame env fr)),
     sa_advance = map_option (\<lambda>w. w\<lparr>
       cw_server_time := advance_server_time (ce_floats env) dt (cw_server_time w),
       cw_block_damage := advance_damage (ce_floats env) dt (cw_block_damage w)\<rparr>)\<rparr>"

end
