(* ===== verification/Client_Prediction.thy ===== *)
theory Client_Prediction
  imports Client_World
begin

text \<open>
  What the client's predictions come to: rejected block edits are rolled back, with the two orders of
  events in which they are not, and a snapshot replays exactly the commands the server has not seen.
\<close>

section \<open>Blocks under predicted edits\<close>

abbreviation shown :: "client_world \<Rightarrow> ivec3 \<Rightarrow> block_id" where
  "shown w v \<equiv> client_block_at (cw_chunks w) v"

definition store_ok :: "client_world \<Rightarrow> bool" where
  "store_ok w \<longleftrightarrow> chunks_ok (cst_chunks (cw_chunks w))"

definition loaded_at :: "client_world \<Rightarrow> ivec3 \<Rightarrow> bool" where
  "loaded_at w v \<longleftrightarrow> cst_chunks (cw_chunks w) (chunk_of v) \<noteq> None"

definition applied_block :: "c2s_block_edit \<Rightarrow> block_id" where
  "applied_block e = (if edit_action e = kBreak then kAir else c2s_block_edit.edit_block e)"

definition push_edit :: "client_env \<Rightarrow> c2s_block_edit \<Rightarrow> client_world \<Rightarrow> client_world" where
  "push_edit env e w = snd (push_block_edit env True e w)"

definition rejected :: "u32 \<Rightarrow> s2c_block_edit_result" where
  "rejected n = \<lparr>eres_predicted_seq = n, eres_accepted = False, eres_pos = \<lparr>iv_x = 0, iv_y = 0, iv_z = 0\<rparr>\<rparr>"

lemma edit_block_loaded:
  assumes "chunks_ok (cst_chunks st)" and "Client_Chunks.edit_block v b st = (prev, st')"
  shows "(cst_chunks st' c = None) = (cst_chunks st c = None)"
proof (cases "cst_chunks st (chunk_of v)")
  case None
  with assms show ?thesis by (simp add: edit_block_def)
next
  case (Some ch)
  obtain ok ch1 where ch1: "chunk_set (va_index (address_of v)) b ch = (ok, ch1)" by fastforce
  let ?cs1 = "(cst_chunks st)(chunk_of v \<mapsto> ch1)"
  obtain cs2 evs where relight: "relight_column (new_light_engine (cst_registry st)) (chunk_of v) ?cs1 = (cs2, evs)"
    by fastforce
  have dom2: "(cs2 c = None) = (?cs1 c = None)" for c
    using arg_cong [OF reported_blocks [OF relight_column_reported(1) [OF relight], of c], of "\<lambda>x. x = None"]
    by (simp only: option.map_disc_iff)
  have dom3: "(fold (\<lambda>(dx, dy, dz). bump_at (offset_coord (chunk_of v) dx dy dz)) ds cs2 c = None) = (cs2 c = None)" for ds c
    using same_showD [OF fold_bump_show [of cs2 "chunk_of v" ds], of c] by (cases "cs2 c") auto
  show ?thesis
    using assms(2) Some relight ch1 dom2 dom3 by (auto simp: edit_block_def Let_def split: if_splits)
qed

lemma push_edit_spec:
  assumes "store_ok w"
  shows "store_ok (push_edit env e w)"
    and "loaded_at (push_edit env e w) u = loaded_at w u"
    and "shown (push_edit env e w) u = (if u = edit_pos e \<and> loaded_at w u then applied_block e else shown w u)"
    and "cw_pending_edits (push_edit env e w) = cw_pending_edits w @ [\<lparr>pe_seq = edit_predicted_seq e,
      pe_pos = edit_pos e, pe_prev = shown w (edit_pos e), pe_coord = chunk_of (edit_pos e)\<rparr>]"
proof -
  obtain prev st where r: "Client_Chunks.edit_block (edit_pos e) (applied_block e) (cw_chunks w) = (prev, st)" by fastforce
  have p: "push_edit env e w = w\<lparr>cw_chunks := st, cw_pending_edits := cw_pending_edits w @
      [\<lparr>pe_seq = edit_predicted_seq e, pe_pos = edit_pos e, pe_prev = prev, pe_coord = chunk_of (edit_pos e)\<rparr>]\<rparr>"
    using r by (simp add: push_edit_def push_block_edit_def applied_block_def Let_def)
  note spec = edit_block_spec [OF assms [unfolded store_ok_def] r]
  show "store_ok (push_edit env e w)" using spec(2) by (simp add: p store_ok_def)
  show "loaded_at (push_edit env e w) u = loaded_at w u"
    using edit_block_loaded [OF assms [unfolded store_ok_def] r] by (simp add: p loaded_at_def)
  show "shown (push_edit env e w) u = (if u = edit_pos e \<and> loaded_at w u then applied_block e else shown w u)"
    using spec(3) [of u] by (auto simp: p loaded_at_def)
  show "cw_pending_edits (push_edit env e w) = cw_pending_edits w @ [\<lparr>pe_seq = edit_predicted_seq e,
      pe_pos = edit_pos e, pe_prev = shown w (edit_pos e), pe_coord = chunk_of (edit_pos e)\<rparr>]"
    using spec(1) by (simp add: p)
qed

lemma reject_spec:
  assumes "store_ok w" and "find (\<lambda>e. pe_seq e = n) (cw_pending_edits w) = Some p"
  shows "store_ok (handle_block_edit_result (rejected n) w)"
    and "loaded_at (handle_block_edit_result (rejected n) w) u = loaded_at w u"
    and "shown (handle_block_edit_result (rejected n) w) u = (if u = pe_pos p \<and> loaded_at w u then pe_prev p else shown w u)"
    and "cw_pending_edits (handle_block_edit_result (rejected n) w) = remove1 p (cw_pending_edits w)"
proof -
  obtain prev st where r: "Client_Chunks.edit_block (pe_pos p) (pe_prev p) (cw_chunks w) = (prev, st)" by fastforce
  have h: "handle_block_edit_result (rejected n) w = w\<lparr>cw_chunks := st, cw_pending_edits := remove1 p (cw_pending_edits w)\<rparr>"
    using assms(2) r by (simp add: handle_block_edit_result_def rejected_def)
  note spec = edit_block_spec [OF assms(1) [unfolded store_ok_def] r]
  show "store_ok (handle_block_edit_result (rejected n) w)" using spec(2) by (simp add: h store_ok_def)
  show "loaded_at (handle_block_edit_result (rejected n) w) u = loaded_at w u"
    using edit_block_loaded [OF assms(1) [unfolded store_ok_def] r] by (simp add: h loaded_at_def)
  show "shown (handle_block_edit_result (rejected n) w) u = (if u = pe_pos p \<and> loaded_at w u then pe_prev p else shown w u)"
    using spec(3) [of u] by (auto simp: h loaded_at_def)
  show "cw_pending_edits (handle_block_edit_result (rejected n) w) = remove1 p (cw_pending_edits w)" by (simp add: h)
qed

text \<open>
  The world is one whose pending edits lead back to \<open>orig\<close>: away from them it shows \<open>orig\<close>, and each
  remembers what \<open>orig\<close> has at its place.
\<close>

definition undoable :: "(ivec3 \<Rightarrow> block_id) \<Rightarrow> client_world \<Rightarrow> bool" where
  "undoable orig w \<longleftrightarrow> store_ok w \<and> distinct (map pe_seq (cw_pending_edits w)) \<and> distinct (map pe_pos (cw_pending_edits w)) \<and>
     (\<forall>p \<in> set (cw_pending_edits w). pe_prev p = orig (pe_pos p)) \<and>
     (\<forall>u. u \<notin> pe_pos ` set (cw_pending_edits w) \<or> \<not> loaded_at w u \<longrightarrow> shown w u = orig u)"

lemma undoable_push:
  assumes "undoable orig w" and "edit_predicted_seq e \<notin> pe_seq ` set (cw_pending_edits w)"
    and "edit_pos e \<notin> pe_pos ` set (cw_pending_edits w)"
  shows "undoable orig (push_edit env e w)"
  using assms push_edit_spec [of w env e] by (auto simp: undoable_def)

lemma undoable_reject:
  assumes "undoable orig w" and "p \<in> set (cw_pending_edits w)"
  shows "undoable orig (handle_block_edit_result (rejected (pe_seq p)) w)"
    and "cw_pending_edits (handle_block_edit_result (rejected (pe_seq p)) w) = remove1 p (cw_pending_edits w)"
proof -
  have d: "distinct (map pe_seq (cw_pending_edits w))" "distinct (map pe_pos (cw_pending_edits w))"
    using assms(1) by (simp_all add: undoable_def)
  obtain q where q: "find (\<lambda>e. pe_seq e = pe_seq p) (cw_pending_edits w) = Some q"
    using assms(2) by (metis (mono_tags, lifting) find_None_iff not_Some_eq)
  then have "q \<in> set (cw_pending_edits w)" "pe_seq q = pe_seq p" by (auto simp: find_Some_iff)
  with d(1) assms(2) have "q = p" by (metis distinct_map inj_onD)
  with q have f: "find (\<lambda>e. pe_seq e = pe_seq p) (cw_pending_edits w) = Some p" by simp
  note spec = reject_spec [OF _ f]
  have ok: "store_ok w" using assms(1) by (simp add: undoable_def)
  show "cw_pending_edits (handle_block_edit_result (rejected (pe_seq p)) w) = remove1 p (cw_pending_edits w)"
    by (rule spec(4) [OF ok])
  have dist: "distinct (cw_pending_edits w)" using d(1) by (simp add: distinct_map)
  have pos: "pe_pos ` set (remove1 p (cw_pending_edits w)) = pe_pos ` set (cw_pending_edits w) - {pe_pos p}"
    using d(2) assms(2) dist by (auto simp: distinct_map inj_on_def)
  show "undoable orig (handle_block_edit_result (rejected (pe_seq p)) w)"
    unfolding undoable_def spec(4) [OF ok] spec(2) [OF ok] spec(3) [OF ok] pos
    using assms d dist spec(1) [OF ok]
    by (auto simp: undoable_def distinct_map intro: inj_on_subset dest: notin_set_remove1)
qed

lemma undoable_empty: "undoable orig w \<Longrightarrow> cw_pending_edits w = [] \<Longrightarrow> shown w = orig"
  by (auto simp: undoable_def)

lemma undoable_pushes:
  assumes "undoable orig w" and "distinct (map edit_predicted_seq es)" and "distinct (map edit_pos es)"
    and "\<forall>e \<in> set es. edit_predicted_seq e \<notin> pe_seq ` set (cw_pending_edits w) \<and> edit_pos e \<notin> pe_pos ` set (cw_pending_edits w)"
  shows "undoable orig (fold (push_edit env) es w) \<and>
    pe_seq ` set (cw_pending_edits (fold (push_edit env) es w)) =
      pe_seq ` set (cw_pending_edits w) \<union> edit_predicted_seq ` set es"
  using assms
proof (induction es arbitrary: w)
  case (Cons e es)
  have ok: "store_ok w" using Cons.prems(1) by (simp add: undoable_def)
  have "undoable orig (push_edit env e w)" using undoable_push Cons.prems by simp
  note IH = Cons.IH [OF this]
  have sets: "pe_seq ` set (cw_pending_edits (push_edit env e w)) = insert (edit_predicted_seq e) (pe_seq ` set (cw_pending_edits w))"
    "pe_pos ` set (cw_pending_edits (push_edit env e w)) = insert (edit_pos e) (pe_pos ` set (cw_pending_edits w))"
    by (simp_all add: push_edit_spec(4) [OF ok])
  have "\<forall>e' \<in> set es. edit_predicted_seq e' \<notin> pe_seq ` set (cw_pending_edits (push_edit env e w)) \<and>
      edit_pos e' \<notin> pe_pos ` set (cw_pending_edits (push_edit env e w))"
    unfolding sets using Cons.prems(2-4) by (metis image_eqI insert_iff list.set_intros(2) list.simps(9) distinct.simps(2) set_map)
  with IH Cons.prems(2, 3) show ?case by (simp add: sets)
qed simp

lemma undoable_rejects:
  assumes "undoable orig w" and "distinct ns" and "set ns = pe_seq ` set (cw_pending_edits w)"
  shows "shown (fold (\<lambda>n. handle_block_edit_result (rejected n)) ns w) = orig"
  using assms
proof (induction ns arbitrary: w)
  case Nil
  then show ?case using undoable_empty by simp
next
  case (Cons n ns)
  have "n \<in> pe_seq ` set (cw_pending_edits w)" using Cons.prems(3) by (metis list.set_intros(1))
  then obtain p where p: "p \<in> set (cw_pending_edits w)" "n = pe_seq p" by blast
  have d: "distinct (map pe_seq (cw_pending_edits w))" using Cons.prems(1) by (simp add: undoable_def)
  then have "pe_seq ` set (remove1 p (cw_pending_edits w)) = pe_seq ` set (cw_pending_edits w) - {n}"
    using p by (auto simp: distinct_map inj_on_def)
  moreover have "set ns = pe_seq ` set (cw_pending_edits w) - {n}" using Cons.prems(2, 3) by auto
  ultimately show ?case
    using Cons.IH undoable_reject [OF Cons.prems(1) p(1)] Cons.prems(2) p(2) by simp
qed

text \<open>Rejected edits of different voxels leave no trace, in whatever order the results arrive.\<close>

theorem rejected_restore:
  assumes "store_ok w" and "cw_pending_edits w = []"
    and "distinct (map edit_predicted_seq es)" and "distinct (map edit_pos es)"
    and "distinct ns" and "set ns = edit_predicted_seq ` set es"
  shows "shown (fold (\<lambda>n. handle_block_edit_result (rejected n)) ns (fold (push_edit env) es w)) = shown w"
proof -
  have u: "undoable (shown w) w" using assms(1, 2) by (simp add: undoable_def)
  from undoable_pushes [OF u assms(3, 4), of env] undoable_rejects [OF _ assms(5)] assms(2, 6)
  show ?thesis by simp
qed

section \<open>Where the rollback goes wrong\<close>

text \<open>
  Two edits of one voxel, both rejected: the second result puts back what the first edit had
  predicted, not what the server has.
\<close>

theorem second_rejection_desyncs:
  assumes "store_ok w" and "cw_pending_edits w = []" and "loaded_at w v"
    and "edit_pos e1 = v" and "edit_pos e2 = v" and "edit_predicted_seq e1 \<noteq> edit_predicted_seq e2"
  shows "shown (handle_block_edit_result (rejected (edit_predicted_seq e2))
      (handle_block_edit_result (rejected (edit_predicted_seq e1)) (push_edit env e2 (push_edit env e1 w)))) v =
    applied_block e1"
proof -
  let ?w1 = "push_edit env e1 w" and ?w2 = "push_edit env e2 (push_edit env e1 w)"
  let ?w3 = "handle_block_edit_result (rejected (edit_predicted_seq e1)) ?w2"
  note p1 = push_edit_spec [OF assms(1), of env e1]
  note p2 = push_edit_spec [OF p1(1), of env e2]
  have pend: "cw_pending_edits ?w2 = [\<lparr>pe_seq = edit_predicted_seq e1, pe_pos = v, pe_prev = shown w v, pe_coord = chunk_of v\<rparr>,
      \<lparr>pe_seq = edit_predicted_seq e2, pe_pos = v, pe_prev = applied_block e1, pe_coord = chunk_of v\<rparr>]"
    using assms by (simp add: p1(3, 4) p2(4))
  have f1: "find (\<lambda>e. pe_seq e = edit_predicted_seq e1) (cw_pending_edits ?w2) =
      Some \<lparr>pe_seq = edit_predicted_seq e1, pe_pos = v, pe_prev = shown w v, pe_coord = chunk_of v\<rparr>"
    by (simp add: pend)
  note r1 = reject_spec [OF p2(1) f1]
  have f2: "find (\<lambda>e. pe_seq e = edit_predicted_seq e2) (cw_pending_edits ?w3) =
      Some \<lparr>pe_seq = edit_predicted_seq e2, pe_pos = v, pe_prev = applied_block e1, pe_coord = chunk_of v\<rparr>"
    using assms(6) by (simp add: r1(4) pend)
  show ?thesis using reject_spec(3) [OF r1(1) f2, of v] assms(3) by (simp add: r1(2) p1(2) p2(2))
qed

text \<open>
  A delta for the chunk of a pending edit, about other voxels or light only, drops the record of the
  edit; when the edit is then rejected, nothing puts the block back.
\<close>

lemma delta_shown:
  assumes "store_ok w" and "valid_S2CChunkDelta m" and "loaded_at w v" and "delta_coord m = chunk_of v"
    and "\<forall>c \<in> set (delta_blocks m). unat (bc_local_index c) \<noteq> va_index (address_of v)"
  shows "shown (on_chunk_delta m w) v = shown w v"
    and "cw_pending_edits (on_chunk_delta m w) = filter (\<lambda>e. pe_coord e \<noteq> chunk_of v) (cw_pending_edits w)"
proof -
  obtain ch where ch: "cst_chunks (cw_chunks w) (delta_coord m) = Some ch" "chunk_inv ch"
    using assms(1, 3, 4) by (auto simp: loaded_at_def store_ok_def chunks_ok_def)
  obtain st b where st: "apply_delta m (cw_chunks w) = (None, st)" "chunk_inv b"
    "voxels (ch_blocks b) = put_blocks (delta_blocks m) (voxels (ch_blocks ch))"
    "same_show ((cst_chunks (cw_chunks w))(delta_coord m \<mapsto> b)) (cst_chunks st)"
    using apply_delta_shows [OF ch assms(2)] by blast
  have keep: "put_blocks cs bs ! i = bs ! i" if "\<forall>c \<in> set cs. unat (bc_local_index c) \<noteq> i" for cs bs i
    using that by (induction cs arbitrary: bs) (simp_all add: put_blocks_def)
  obtain b' where b': "cst_chunks st (chunk_of v) = Some b'" "voxels (ch_blocks b') = voxels (ch_blocks b)"
    using same_showD(2) [OF st(4), of "chunk_of v" b] assms(4) by (auto simp: same_content_def)
  have "voxels (ch_blocks b') ! va_index (address_of v) = voxels (ch_blocks ch) ! va_index (address_of v)"
    by (simp add: b'(2) st(3) keep [OF assms(5)])
  then show "shown (on_chunk_delta m w) v = shown w v"
    using st(1) ch b'(1) assms(4)
    by (simp add: on_chunk_delta_def forget_pending_edits_for_def client_block_at_def chunk_get_def voxels_nth)
  show "cw_pending_edits (on_chunk_delta m w) = filter (\<lambda>e. pe_coord e \<noteq> chunk_of v) (cw_pending_edits w)"
    using st(1) assms(4) by (simp add: on_chunk_delta_def forget_pending_edits_for_def)
qed

theorem delta_strands_prediction:
  assumes "store_ok w" and "cw_pending_edits w = []" and "loaded_at w (edit_pos e)"
    and "valid_S2CChunkDelta m" and "delta_coord m = chunk_of (edit_pos e)"
    and "\<forall>c \<in> set (delta_blocks m). unat (bc_local_index c) \<noteq> va_index (address_of (edit_pos e))"
  shows "shown (handle_block_edit_result (rejected (edit_predicted_seq e)) (on_chunk_delta m (push_edit env e w))) (edit_pos e) =
    applied_block e"
proof -
  note p = push_edit_spec [OF assms(1), of env e]
  have l: "loaded_at (push_edit env e w) (edit_pos e)" using assms(3) by (simp add: p(2))
  note d = delta_shown [OF p(1) assms(4) l assms(5, 6)]
  have "cw_pending_edits (on_chunk_delta m (push_edit env e w)) = []" using assms(2) by (simp add: d(2) p(4))
  then show ?thesis using d(1) assms(3) by (simp add: handle_block_edit_result_def p(3))
qed

end
