(* ===== verification/Chunk_Interest.thy ===== *)
theory Chunk_Interest
  imports Core_Types "HOL-Library.Product_Lexorder"
begin

text \<open>
  \<open>world/chunk_interest.hpp\<close>: the box of chunks around a player and the difference of two such sets,
  and the order of \<open>ChunkCoord\<close> (\<open>core/ids.hpp\<close>, x before y before z, signed) they are sorted by. The
  order makes coordinates a linear order, so that sorting and the merges are the library's.
\<close>

instantiation chunk_coord_ext :: (linorder) linorder
begin

definition less_eq_chunk_coord_ext :: "'a chunk_coord_ext \<Rightarrow> 'a chunk_coord_ext \<Rightarrow> bool" where
  "less_eq_chunk_coord_ext a b \<longleftrightarrow>
     (sint (cc_x a), sint (cc_y a), sint (cc_z a), chunk_coord.more a) \<le>
     (sint (cc_x b), sint (cc_y b), sint (cc_z b), chunk_coord.more b)"

definition less_chunk_coord_ext :: "'a chunk_coord_ext \<Rightarrow> 'a chunk_coord_ext \<Rightarrow> bool" where
  "less_chunk_coord_ext a b \<longleftrightarrow>
     (sint (cc_x a), sint (cc_y a), sint (cc_z a), chunk_coord.more a) <
     (sint (cc_x b), sint (cc_y b), sint (cc_z b), chunk_coord.more b)"

instance
proof
  fix a b c :: "'a chunk_coord_ext"
  show "a < b \<longleftrightarrow> a \<le> b \<and> \<not> b \<le> a"
    unfolding less_chunk_coord_ext_def less_eq_chunk_coord_ext_def by (rule less_le_not_le)
  show "a \<le> a" by (simp add: less_eq_chunk_coord_ext_def)
  show "a \<le> c" if "a \<le> b" "b \<le> c"
    using that unfolding less_eq_chunk_coord_ext_def by (rule order_trans)
  show "a \<le> b \<or> b \<le> a" unfolding less_eq_chunk_coord_ext_def by (rule linear)
  show "a = b" if "a \<le> b" "b \<le> a"
  proof -
    have "(sint (cc_x a), sint (cc_y a), sint (cc_z a), chunk_coord.more a) =
        (sint (cc_x b), sint (cc_y b), sint (cc_z b), chunk_coord.more b)"
      using that unfolding less_eq_chunk_coord_ext_def by (rule order_antisym)
    then show ?thesis by (cases a; cases b) (auto intro: signed_word_eqI)
  qed
qed

end

section \<open>The view box\<close>

definition chunks_in_view :: "chunk_coord \<Rightarrow> int \<Rightarrow> int \<Rightarrow> chunk_coord list" where
  "chunks_in_view center radius vertical_radius = (
     let r = (if radius < 0 then 0 else radius);
         vr = (if vertical_radius < 0 then 0 else vertical_radius) in
     sort (map (\<lambda>(dy, dz, dx). \<lparr>cc_x = cc_x center + word_of_int dx, cc_y = cc_y center + word_of_int dy,
                                cc_z = cc_z center + word_of_int dz\<rparr>)
       (List.product [-vr..vr] (List.product [-r..r] [-r..r]))))"

section \<open>Merging sorted lists\<close>

text \<open>\<open>std::set_difference\<close>, \<open>std::unique\<close> after \<open>std::sort\<close>, and \<open>std::binary_search\<close>.\<close>

fun set_difference :: "'a :: linorder list \<Rightarrow> 'a list \<Rightarrow> 'a list" where
  "set_difference [] ys = []"
| "set_difference xs [] = xs"
| "set_difference (x # xs) (y # ys) = (
     if x < y then x # set_difference xs (y # ys)
     else if \<not> y < x then set_difference xs ys
     else set_difference (x # xs) ys)"

definition sort_unique :: "'a :: linorder list \<Rightarrow> 'a list" where
  "sort_unique v = remdups_adj (sort v)"

definition binary_search :: "'a :: linorder list \<Rightarrow> 'a \<Rightarrow> bool" where
  "binary_search xs x = (case dropWhile (\<lambda>y. y < x) xs of [] \<Rightarrow> False | y # _ \<Rightarrow> \<not> x < y)"

record chunk_set_diff =
  csd_entered :: "chunk_coord list"
  csd_left :: "chunk_coord list"

definition diff_chunk_sets :: "chunk_coord list \<Rightarrow> chunk_coord list \<Rightarrow> chunk_set_diff" where
  "diff_chunk_sets prev cur = \<lparr>csd_entered = set_difference cur prev, csd_left = set_difference prev cur\<rparr>"

section \<open>What they compute\<close>

lemma set_difference_spec:
  assumes "sorted_wrt (<) xs" and "sorted_wrt (<) ys"
  shows "set (set_difference xs ys) = set xs - set ys" and "sorted_wrt (<) (set_difference xs ys)"
proof -
  have "set (set_difference xs ys) = set xs - set ys \<and> sorted_wrt (<) (set_difference xs ys)"
    using assms
  proof (induction xs ys rule: set_difference.induct)
    case (3 x xs y ys)
    consider "x < y" | "x = y" | "y < x" by fastforce
    then show ?case
    proof cases
      case 1
      then have "x \<notin> set (y # ys)" using 3(5) by (auto dest: order_less_trans)
      with 1 3 show ?thesis by auto
    next
      case 2
      then have "y \<notin> set xs" using 3(4) by auto
      with 2 3 show ?thesis by auto
    next
      case gt: 3
      then have "y \<notin> set (x # xs)" using 3(4) by (auto dest: order_less_trans)
      with gt 3 show ?thesis by auto
    qed
  qed auto
  then show "set (set_difference xs ys) = set xs - set ys" "sorted_wrt (<) (set_difference xs ys)" by blast+
qed

lemma binary_search_member:
  assumes "sorted xs"
  shows "binary_search xs x \<longleftrightarrow> x \<in> set xs"
  using assms
proof (induction xs)
  case (Cons y ys)
  consider "y < x" | "y = x" | "x < y" by fastforce
  then show ?case
    by cases (use Cons in \<open>auto simp: binary_search_def\<close>)
qed (simp add: binary_search_def)

lemma remdups_adj_strict: "sorted xs \<Longrightarrow> sorted_wrt (<) (remdups_adj xs)"
  by (induction xs rule: remdups_adj.induct) (auto simp: order_less_le)

lemma sort_unique_spec: "set (sort_unique v) = set v" "sorted (sort_unique v)" "distinct (sort_unique v)"
proof -
  show "set (sort_unique v) = set v" by (simp add: sort_unique_def)
  show sorted: "sorted (sort_unique v)" by (simp add: sort_unique_def sorted_remdups_adj)
  show "distinct (sort_unique v)" using remdups_adj_strict [of "sort v"] by (simp add: sort_unique_def strict_sorted_iff)
qed

lemma set_chunks_in_view:
  "set (chunks_in_view c r vr) = {\<lparr>cc_x = cc_x c + word_of_int dx, cc_y = cc_y c + word_of_int dy,
     cc_z = cc_z c + word_of_int dz\<rparr> | dx dy dz. \<bar>dx\<bar> \<le> max 0 r \<and> \<bar>dy\<bar> \<le> max 0 vr \<and> \<bar>dz\<bar> \<le> max 0 r}"
  by (fastforce simp: chunks_in_view_def Let_def image_iff abs_le_iff max_def)

lemma sorted_chunks_in_view: "sorted (chunks_in_view c r vr)"
  by (simp add: chunks_in_view_def Let_def)

text \<open>A view box holds no chunk twice, as long as its sides do not reach around the integers.\<close>

lemma word_of_int_inject:
  fixes a b :: int
  assumes "(word_of_int a :: i32) = word_of_int b" and "\<bar>a - b\<bar> < 2 ^ 32"
  shows "a = b"
proof -
  from assms(1) have "a mod 2 ^ 32 = b mod 2 ^ 32" by (simp add: word_of_int_eq_iff take_bit_eq_mod)
  then have "2 ^ 32 dvd a - b" by (simp add: mod_eq_dvd_iff)
  with assms(2) show ?thesis by (metis dvd_imp_le_int eq_iff_diff_eq_0 linorder_not_less zdvd_not_zless abs_ge_zero abs_dvd_iff dvd_abs_iff zero_less_abs_iff)
qed

lemma distinct_chunks_in_view:
  assumes "r < 2 ^ 31" and "vr < 2 ^ 31"
  shows "distinct (chunks_in_view c r vr)"
proof -
  let ?f = "\<lambda>(dy, dz, dx). \<lparr>cc_x = cc_x c + word_of_int dx, cc_y = cc_y c + word_of_int dy, cc_z = cc_z c + word_of_int dz\<rparr> :: chunk_coord"
  let ?r = "if r < 0 then 0 else r" and ?vr = "if vr < 0 then 0 else vr"
  have "inj_on ?f (set (List.product [-?vr..?vr] (List.product [-?r..?r] [-?r..?r])))"
    using assms by (intro inj_onI) (auto intro!: word_of_int_inject split: if_splits)
  then show ?thesis
    by (simp add: chunks_in_view_def Let_def distinct_map distinct_product)
qed

end
