(* ===== verification/World_Replicator.thy ===== *)
theory World_Replicator
  imports Chunk_Interest Lifecycle_Laws Float_Math Compression World_Messages
begin

text \<open>
  \<open>WorldReplicator\<close> of \<open>net/world_replicator.hpp\<close> and \<open>.cpp\<close>: the tick that sends each player the
  chunks of its view box, and the validated block edit with its deltas. The hash maps by player are
  lists here, in the order the program lists them; no result depends on that order. The hooks of a
  script host are arguments; \<open>after_edit\<close> may leave another world.
\<close>

record 'h block_edit_hooks =
  beh_before_edit :: "'h \<Rightarrow> net_id \<Rightarrow> ivec3 \<Rightarrow> block_id \<Rightarrow> block_id \<Rightarrow> bool \<Rightarrow> bool"
  beh_after_edit :: "'h \<Rightarrow> net_id \<Rightarrow> ivec3 \<Rightarrow> block_id \<Rightarrow> block_id \<Rightarrow> bool \<Rightarrow> world \<Rightarrow> world"
  beh_state :: 'h

record replicator =
  rep_world :: world
  rep_pool :: worker_pool
  rep_lifecycle :: lifecycle
  rep_view_distance :: int
  rep_vertical_view :: int
  rep_reach :: f64
  rep_send_budget_bytes :: nat
  rep_last_sent :: "(net_id \<times> chunk_coord list) list"
  rep_last_sent_revision :: "net_id \<Rightarrow> chunk_coord \<rightharpoonup> u64"

definition new_replicator :: "world \<Rightarrow> worker_pool \<Rightarrow> block_registry \<Rightarrow> int \<Rightarrow> int \<Rightarrow> replicator" where
  "new_replicator w p r view vertical = \<lparr>rep_world = w, rep_pool = p, rep_lifecycle = new_lifecycle r,
     rep_view_distance = view, rep_vertical_view = vertical, rep_reach = 0x4016000000000000,
     rep_send_budget_bytes = 0, rep_last_sent = [], rep_last_sent_revision = (\<lambda>_. Map.empty)\<rparr>"

record player_frames =
  pf_id :: net_id
  pf_frames :: "outgoing_frame list"

section \<open>What was sent\<close>

definition sent_to :: "replicator \<Rightarrow> net_id \<Rightarrow> chunk_coord list" where
  "sent_to rp pid = (case map_of (rep_last_sent rp) pid of None \<Rightarrow> [] | Some cs \<Rightarrow> cs)"

definition set_sent :: "net_id \<Rightarrow> chunk_coord list \<Rightarrow> replicator \<Rightarrow> replicator" where
  "set_sent pid cs rp = rp\<lparr>rep_last_sent := AList.update pid cs (rep_last_sent rp)\<rparr>"

definition set_revs :: "net_id \<Rightarrow> (chunk_coord \<rightharpoonup> u64) \<Rightarrow> replicator \<Rightarrow> replicator" where
  "set_revs pid revs rp = rp\<lparr>rep_last_sent_revision := (rep_last_sent_revision rp)(pid := revs)\<rparr>"

definition forget_player :: "net_id \<Rightarrow> replicator \<Rightarrow> replicator" where
  "forget_player pid rp = rp\<lparr>rep_last_sent := AList.delete pid (rep_last_sent rp),
     rep_last_sent_revision := (rep_last_sent_revision rp)(pid := Map.empty)\<rparr>"

definition player_has_chunk :: "replicator \<Rightarrow> net_id \<Rightarrow> chunk_coord \<Rightarrow> bool" where
  "player_has_chunk rp pid c = (case map_of (rep_last_sent rp) pid of
       None \<Rightarrow> False
     | Some sent \<Rightarrow> binary_search sent c)"

section \<open>The tick\<close>

definition chunk_of_pos :: "float_ops \<Rightarrow> vec3d \<Rightarrow> chunk_coord" where
  "chunk_of_pos F p = chunk_of (voxel_of F p)"

definition add_frame :: "lz4_api option \<Rightarrow> s2c_chunk_add \<Rightarrow> outgoing_frame" where
  "add_frame lz m = frame_message lz kS2CChunkAdd (encode_S2CChunkAdd m) 0"

definition remove_frame :: "lz4_api option \<Rightarrow> s2c_chunk_remove \<Rightarrow> outgoing_frame" where
  "remove_frame lz m = frame_message lz kS2CChunkRemove (encode_S2CChunkRemove m) 0"

definition delta_frame :: "lz4_api option \<Rightarrow> s2c_chunk_delta \<Rightarrow> outgoing_frame" where
  "delta_frame lz m = frame_message lz kS2CChunkDelta (encode_S2CChunkDelta m) 0"

definition add_message :: "chunk_coord \<Rightarrow> chunk \<Rightarrow> s2c_chunk_add" where
  "add_message c ch = \<lparr>add_coord = c, add_revision = ch_revision ch, add_payload = encode_chunk_payload ch\<rparr>"

text \<open>
  The loop over the visible chunks: the messages, the revisions recorded and the chunks that turned
  out not to be there.
\<close>

fun send_visible :: "world \<Rightarrow> nat \<Rightarrow> chunk_coord list \<Rightarrow> nat \<Rightarrow> (chunk_coord \<rightharpoonup> u64) \<Rightarrow>
    s2c_chunk_add list \<times> (chunk_coord \<rightharpoonup> u64) \<times> chunk_coord list" where
  "send_visible w budget [] send_bytes revs = ([], revs, [])"
| "send_visible w budget (c # cs) send_bytes revs = (case find_chunk w c of
       None \<Rightarrow> (let (ms, revs, unreachable) = send_visible w budget cs send_bytes revs in (ms, revs, c # unreachable))
     | Some ch \<Rightarrow>
         if revs c = Some (ch_revision ch) then send_visible w budget cs send_bytes revs
         else
           let m = add_message c ch; frame_bytes = length (add_payload m) in
           if 0 < budget \<and> 0 < send_bytes \<and> budget < send_bytes + frame_bytes then ([], revs, [])
           else
             let revs = revs(c \<mapsto> ch_revision ch); send_bytes = send_bytes + frame_bytes in
             if 0 < budget \<and> budget \<le> send_bytes then ([m], revs, [])
             else let (ms, revs, unreachable) = send_visible w budget cs send_bytes revs in (m # ms, revs, unreachable))"

text \<open>One player: its new view, and the messages in the order they are framed.\<close>

definition player_view :: "lz4_api option \<Rightarrow> world \<Rightarrow> nat \<Rightarrow> chunk_coord list \<Rightarrow> chunk_coord list \<Rightarrow> (chunk_coord \<rightharpoonup> u64) \<Rightarrow>
    outgoing_frame list \<times> chunk_coord list \<times> (chunk_coord \<rightharpoonup> u64)" where
  "player_view lz w budget view sent revs = (
     let visible = filter (has_chunk w) view;
         diff = diff_chunk_sets sent visible;
         (ms, revs, unreachable) = send_visible w budget visible 0 revs;
         visible = fold remove1 unreachable visible;
         revs = fold (\<lambda>c revs. revs(c := None)) unreachable revs;
         revs = fold (\<lambda>c revs. revs(c := None)) (csd_left diff) revs in
     (map (add_frame lz) ms @ map (\<lambda>c. remove_frame lz \<lparr>remove_coord = c\<rparr>) (csd_left diff), visible, revs))"

definition tick_player :: "lz4_api option \<Rightarrow> net_id \<times> chunk_coord list \<Rightarrow> replicator \<Rightarrow> player_frames list \<times> replicator" where
  "tick_player lz idv rp = (case idv of (pid, view) \<Rightarrow>
     let (frames, visible, revs) = player_view lz (rep_world rp) (rep_send_budget_bytes rp) view (sent_to rp pid)
           (rep_last_sent_revision rp pid) in
     (if frames = [] then [] else [\<lparr>pf_id = pid, pf_frames = frames\<rparr>], set_sent pid visible (set_revs pid revs rp)))"

primrec tick_players :: "lz4_api option \<Rightarrow> (net_id \<times> chunk_coord list) list \<Rightarrow> replicator \<Rightarrow>
    player_frames list \<times> replicator" where
  "tick_players lz [] rp = ([], rp)"
| "tick_players lz (p # ps) rp = (
     let (out, rp) = tick_player lz p rp; (rest, rp) = tick_players lz ps rp in (out @ rest, rp))"

definition replicator_tick :: "float_ops \<Rightarrow> lz4_api option \<Rightarrow> (nat \<Rightarrow> bool) \<Rightarrow> (world \<Rightarrow> chunk_coord list) \<Rightarrow>
    (net_id \<times> vec3d) list \<Rightarrow> replicator \<Rightarrow> (player_frames list \<times> replicator) option" where
  "replicator_tick F lz late order players rp = (
     let per_player = map (\<lambda>(pid, pos). (pid, chunks_in_view (chunk_of_pos F pos) (rep_view_distance rp) (rep_vertical_view rp))) players;
         desired = sort_unique (concat (map snd per_player)) in
     (case update_world late order desired (rep_lifecycle rp, rep_world rp, rep_pool rp) of
        None \<Rightarrow> None
      | Some (life, w, p) \<Rightarrow>
          Some (tick_players lz per_player (rp\<lparr>rep_lifecycle := life, rep_world := w, rep_pool := p\<rparr>))))"

section \<open>The block edit\<close>

definition in_reach :: "float_ops \<Rightarrow> f64 \<Rightarrow> vec3d \<Rightarrow> ivec3 \<Rightarrow> bool" where
  "in_reach F reach eye_pos pos \<longleftrightarrow> fo_le F (vd_length F (vd_sub F (voxel_centre F pos) eye_pos)) reach"

definition face_offsets :: "(i32 \<times> i32 \<times> i32) list" where
  "face_offsets = [(1, 0, 0), (-1, 0, 0), (0, 1, 0), (0, -1, 0), (0, 0, 1), (0, 0, -1)]"

definition touches_solid :: "world \<Rightarrow> ivec3 \<Rightarrow> bool" where
  "touches_solid w p = list_ex (\<lambda>(dx, dy, dz). is_solid (wo_registry w)
     (get_block w \<lparr>iv_x = iv_x p + dx, iv_y = iv_y p + dy, iv_z = iv_z p + dz\<rparr>)) face_offsets"

text \<open>What the edit puts there, or \<open>None\<close> when it is refused before the hook.\<close>

definition edit_target :: "float_ops \<Rightarrow> f64 \<Rightarrow> vec3d \<Rightarrow> c2s_block_edit \<Rightarrow> world \<Rightarrow> block_id option" where
  "edit_target F reach eye_pos edit w = (
     let p = edit_pos edit; existing = get_block w p in
     if fo_lt F reach (vd_length F (vd_sub F (voxel_centre F p) eye_pos)) then None
     else if \<not> has_chunk w (chunk_of p) then None
     else if edit_action edit = kBreak then (if existing = kAir then None else Some kAir)
     else if existing \<noteq> kAir then None
     else if edit_block edit = kAir \<or> \<not> br_contains (edit_block edit) (wo_registry w) then None
     else if \<not> touches_solid w p then None
     else Some (edit_block edit))"

text \<open>The delta of one report of the relight.\<close>

definition local_index_of_world :: "ivec3 \<Rightarrow> u32" where
  "local_index_of_world p = of_nat (va_index (address_of p))"

definition changed_light :: "u8 list \<Rightarrow> u8 list \<Rightarrow> light_change list" where
  "changed_light before after = map (\<lambda>i. \<lparr>lc_local_index = of_nat i, lc_packed = after ! i\<rparr>)
     (filter (\<lambda>i. after ! i \<noteq> before ! i) [0..<kChunkVolume])"

definition delta_of :: "ivec3 \<Rightarrow> block_id \<Rightarrow> relit_event \<Rightarrow> s2c_chunk_delta" where
  "delta_of p new_block ev = (case ev of (c, before, after) \<Rightarrow> \<lparr>
     delta_coord = c,
     delta_base_revision = (if ch_revision after > 0 then ch_revision after - 1 else 0),
     delta_new_revision = ch_revision after,
     delta_blocks = (if c = chunk_of p then [\<lparr>bc_local_index = local_index_of_world p, bc_block = new_block\<rparr>] else []),
     delta_light = changed_light before (ch_light after)\<rparr>)"

text \<open>\<open>fan_out\<close>: to every player that mirrors the chunk, and to the editor in any case.\<close>

type_synonym by_player = "(net_id \<times> s2c_chunk_delta list) list"

definition push_delta :: "s2c_chunk_delta \<Rightarrow> net_id \<Rightarrow> by_player \<times> replicator \<Rightarrow> by_player \<times> replicator" where
  "push_delta d pid acc = (case acc of (by, rp) \<Rightarrow>
     (AList.update pid ((case map_of by pid of None \<Rightarrow> [] | Some ds \<Rightarrow> ds) @ [d]) by,
      set_revs pid ((rep_last_sent_revision rp pid)(delta_coord d \<mapsto> delta_new_revision d)) rp))"

definition fan_out :: "net_id \<Rightarrow> s2c_chunk_delta \<Rightarrow> by_player \<times> replicator \<Rightarrow> by_player \<times> replicator" where
  "fan_out editor d acc = (
     let watchers = map fst (filter (\<lambda>(pid, sent). binary_search sent (delta_coord d)) (rep_last_sent (snd acc)));
         acc = fold (push_delta d) watchers acc in
     if editor \<in> set watchers then acc else push_delta d editor acc)"

definition apply_block_edit :: "float_ops \<Rightarrow> 'h block_edit_hooks \<Rightarrow> net_id \<Rightarrow> vec3d \<Rightarrow> c2s_block_edit \<Rightarrow> replicator \<Rightarrow>
    by_player \<times> s2c_block_edit_result \<times> replicator" where
  "apply_block_edit F hooks editor eye_pos edit rp = (
     let p = edit_pos edit; w = rep_world rp;
         result = \<lparr>eres_predicted_seq = edit_predicted_seq edit, eres_accepted = False, eres_pos = p\<rparr>;
         existing = get_block w p; is_break = (edit_action edit = kBreak) in
     case edit_target F (rep_reach rp) eye_pos edit w of
       None \<Rightarrow> ([], result, rp)
     | Some new_block \<Rightarrow>
         if \<not> beh_before_edit hooks (beh_state hooks) editor p existing new_block is_break then ([], result, rp)
         else
           let w = snd (world_set_block p new_block w);
               w = beh_after_edit hooks (beh_state hooks) editor p existing new_block is_break w;
               (chunks, evs) = relight_column (new_light_engine (wo_registry w)) (chunk_of p) (wo_chunks w);
               rp = rp\<lparr>rep_world := w\<lparr>wo_chunks := chunks\<rparr>\<rparr>;
               (by, rp) = fold (fan_out editor) (map (delta_of p new_block) evs) ([], rp) in
           (by, result\<lparr>eres_accepted := True\<rparr>, rp))"

definition edit_frames :: "lz4_api option \<Rightarrow> by_player \<Rightarrow> player_frames list" where
  "edit_frames lz by = map (\<lambda>(pid, ds). \<lparr>pf_id = pid, pf_frames = map (delta_frame lz) ds\<rparr>) by"

end
