(* ===== verification/Replication_Mirror.thy ===== *)
theory Replication_Mirror
  imports World_Replicator Client_World
begin

text \<open>
  The server's replication and the client's chunk store together: the frames of a tick, sent over the
  wire, opened and applied, leave the client showing what the replicator believes it shows.
\<close>

section \<open>Frames from the server to the client\<close>

text \<open>The joined session's turn for each received frame (\<open>ClientSession::tick\<close>).\<close>

primrec receive :: "client_env \<Rightarrow> outgoing_frame list \<Rightarrow> client_world \<Rightarrow> client_world option" where
  "receive env [] w = Some w"
| "receive env (f # fs) w = (case opened (ce_lz4 env) (of_bytes f) of
       None \<Rightarrow> None
     | Some fr \<Rightarrow> Option.bind (world_frame env fr w) (receive env fs))"

lemma receive_append: "receive env (fs @ gs) w = Option.bind (receive env fs w) (receive env gs)"
  by (induction fs arbitrary: w) (auto split: option.splits bind_splits)

definition wire_ok :: "client_env \<Rightarrow> bool" where
  "wire_ok env \<longleftrightarrow> (\<forall>l. ce_lz4 env = Some l \<longrightarrow> lz4_ok l)"

lemma opened_frame:
  assumes "wire_ok env" and "length (run_writer encode) \<le> kMaxPayloadBytes" and "t = message_type_of v"
  shows "\<exists>fr. opened (ce_lz4 env) (of_bytes (frame_message (ce_lz4 env) t encode 0)) = Some fr \<and>
    ftype fr = t \<and> fr_payload fr = run_writer encode"
  using frame_delivered [of "ce_lz4 env" encode t v "[]"] assms
  by (fastforce simp: opened_def wire_ok_def ftype_def)

lemma coord_bytes [simp]: "length (run_writer (write_coord c)) = 12"
  by (simp add: write_coord_def w_i32_def w_u32_def run_writer_put_le)

lemma receive_add:
  assumes "wire_ok env" and "chunk_inv ch"
  shows "receive env (add_frame (ce_lz4 env) (add_message c ch) # fs) w =
    Option.bind (on_chunk_add (add_message c ch) w) (receive env fs)"
proof -
  let ?m = "add_message c ch"
  have len: "length (add_payload ?m) \<le> 1200000"
    using length_chunk_payload [OF assms(2)] by (simp add: add_message_def)
  have "length (run_writer (encode_S2CChunkAdd ?m)) \<le> kMaxPayloadBytes"
    using len length_varint_le_10 [of "of_nat (length (add_payload ?m))"]
    by (simp add: encode_S2CChunkAdd_def w_u64_def run_writer_put_le kMaxPayloadBytes_def)
  moreover have "kS2CChunkAdd = message_type_of 41" by (simp add: message_type_of_def message_table_def)
  ultimately obtain fr where fr: "opened (ce_lz4 env) (of_bytes (add_frame (ce_lz4 env) ?m)) = Some fr"
    "ftype fr = kS2CChunkAdd" "fr_payload fr = run_writer (encode_S2CChunkAdd ?m)"
    using opened_frame [OF assms(1)] unfolding add_frame_def by blast
  have "decode_S2CChunkAdd (run_writer (encode_S2CChunkAdd ?m)) = Inr ?m"
    using len by (intro chunk_add_codec.decode_encode) (simp add: valid_S2CChunkAdd_def kMaxChunkBytes_def)
  with fr show ?thesis by (simp add: world_frame_def)
qed

lemma receive_remove:
  assumes "wire_ok env"
  shows "receive env (remove_frame (ce_lz4 env) m # fs) w = receive env fs (on_chunk_remove m w)"
proof -
  have "length (run_writer (encode_S2CChunkRemove m)) \<le> kMaxPayloadBytes"
    by (simp add: encode_S2CChunkRemove_def kMaxPayloadBytes_def)
  moreover have "kS2CChunkRemove = message_type_of 43" by (simp add: message_type_of_def message_table_def)
  ultimately obtain fr where fr: "opened (ce_lz4 env) (of_bytes (remove_frame (ce_lz4 env) m)) = Some fr"
    "ftype fr = kS2CChunkRemove" "fr_payload fr = run_writer (encode_S2CChunkRemove m)"
    using opened_frame [OF assms(1)] unfolding remove_frame_def by blast
  have "decode_S2CChunkRemove (run_writer (encode_S2CChunkRemove m)) = Inr m"
    by (rule remove_codec.decode_encode) (simp add: valid_S2CChunkRemove_def)
  with fr show ?thesis by (simp add: world_frame_def)
qed

lemma length_writes:
  assumes "\<And>x. appends (f x)" and "\<And>x. length (run_writer (f x)) \<le> k"
  shows "length (run_writer (write_each f xs)) \<le> k * length xs"
proof (induction xs)
  case (Cons x xs)
  with assms(2) [of x] show ?case by (simp add: assms(1))
qed simp

lemma receive_delta:
  assumes "wire_ok env" and "valid_S2CChunkDelta m"
  shows "receive env (delta_frame (ce_lz4 env) m # fs) w = receive env fs (on_chunk_delta m w)"
proof -
  have b: "length (run_writer (write_block_change c)) \<le> 12" for c
    using length_varint_le_10 [of "ucast (bc_local_index c)"]
    by (simp add: write_block_change_def w_u16_def run_writer_put_le)
  have l: "length (run_writer (write_light_change c)) \<le> 12" for c
    using length_varint_le_10 [of "ucast (lc_local_index c)"] by (simp add: write_light_change_def run_writer_u8)
  have "length (run_writer (encode_S2CChunkDelta m)) \<le> kMaxPayloadBytes"
    using length_writes [of write_block_change, OF _ b, of "delta_blocks m"]
      length_writes [of write_light_change, OF _ l, of "delta_light m"] assms(2)
      length_varint_le_10 [of "of_nat (length (delta_blocks m))"] length_varint_le_10 [of "of_nat (length (delta_light m))"]
    by (simp add: encode_S2CChunkDelta_def w_u64_def run_writer_put_le kMaxPayloadBytes_def
        valid_S2CChunkDelta_def chunk_volume_def)
  moreover have "kS2CChunkDelta = message_type_of 42" by (simp add: message_type_of_def message_table_def)
  ultimately obtain fr where fr: "opened (ce_lz4 env) (of_bytes (delta_frame (ce_lz4 env) m)) = Some fr"
    "ftype fr = kS2CChunkDelta" "fr_payload fr = run_writer (encode_S2CChunkDelta m)"
    using opened_frame [OF assms(1)] unfolding delta_frame_def by blast
  have "decode_S2CChunkDelta (run_writer (encode_S2CChunkDelta m)) = Inr m"
    by (rule delta_codec.decode_encode [OF assms(2)])
  with fr show ?thesis by (simp add: world_frame_def)
qed

section \<open>What a store shows\<close>

type_synonym shown_chunk = "block_id list \<times> u8 list"

definition cont :: "chunk \<Rightarrow> shown_chunk" where
  "cont ch = (voxels (ch_blocks ch), ch_light ch)"

definition content :: "chunk_map \<Rightarrow> chunk_coord \<rightharpoonup> shown_chunk" where
  "content cs c = map_option cont (cs c)"

lemma content_same_show:
  assumes "same_show cs cs'"
  shows "content cs' = content cs"
proof
  fix c
  show "content cs' c = content cs c"
    using same_showD [OF assms, of c] by (cases "cs c") (auto simp: content_def cont_def same_content_def)
qed

lemma content_upd [simp]:
  "content (cs(c \<mapsto> ch)) = (content cs)(c \<mapsto> cont ch)"
  "content (cs(c := None)) = (content cs)(c := None)"
  by (auto simp: content_def)

lemma content_None [simp]: "(content cs c = None) = (cs c = None)"
  by (simp add: content_def)

abbreviation client_content :: "client_world \<Rightarrow> chunk_coord \<rightharpoonup> shown_chunk" where
  "client_content w \<equiv> content (cst_chunks (cw_chunks w))"

abbreviation client_ok :: "client_world \<Rightarrow> bool" where
  "client_ok w \<equiv> chunks_ok (cst_chunks (cw_chunks w))"

lemma on_chunk_add_content:
  assumes "chunk_inv ch" and "client_ok w"
  shows "\<exists>w'. on_chunk_add (add_message c ch) w = Some w' \<and> client_ok w' \<and>
    client_content w' = (client_content w)(c \<mapsto> cont ch)"
proof -
  obtain st b where st: "apply_add (add_message c ch) (cw_chunks w) = Some (None, st)"
    "chunk_inv b" "same_content ch b" "same_show ((cst_chunks (cw_chunks w))(c \<mapsto> b)) (cst_chunks st)"
    using apply_add_shows [OF assms(1), of c "ch_revision ch" "cw_chunks w"] by (auto simp: add_message_def)
  have "client_ok (w\<lparr>cw_chunks := st\<rparr>)" using apply_add_ok [OF assms(2) st(1)] by simp
  moreover have "content (cst_chunks st) = (client_content w)(c \<mapsto> cont ch)"
    using content_same_show [OF st(4)] st(3) by (simp add: cont_def same_content_def)
  ultimately show ?thesis using st(1) by (simp add: on_chunk_add_def add_message_def)
qed

lemma on_chunk_remove_content:
  "client_content (on_chunk_remove m w) = (client_content w)(remove_coord m := None)"
  "client_ok w \<Longrightarrow> client_ok (on_chunk_remove m w)"
  using content_same_show [OF bump_all_show [of "(cst_chunks (cw_chunks w))(remove_coord m := None)"]]
  by (simp_all add: on_chunk_remove_def apply_remove_def apply_remove_ok [unfolded apply_remove_def, simplified])

lemma on_chunk_delta_content:
  assumes "valid_S2CChunkDelta m" and "client_ok w"
  shows "client_content (on_chunk_delta m w) = (case client_content w (delta_coord m) of
      None \<Rightarrow> client_content w
    | Some (bs, ls) \<Rightarrow> (client_content w)(delta_coord m \<mapsto> (put_blocks (delta_blocks m) bs, put_lights (delta_light m) ls)))"
    and "client_ok (on_chunk_delta m w)"
proof -
  have chunks: "cw_chunks (on_chunk_delta m w) = snd (apply_delta m (cw_chunks w))"
    by (simp add: on_chunk_delta_def forget_pending_edits_for_def Let_def case_prod_unfold)
  show "client_ok (on_chunk_delta m w)" using apply_delta_ok [OF assms(2)] by (simp add: chunks)
  show "client_content (on_chunk_delta m w) = (case client_content w (delta_coord m) of
      None \<Rightarrow> client_content w
    | Some (bs, ls) \<Rightarrow> (client_content w)(delta_coord m \<mapsto> (put_blocks (delta_blocks m) bs, put_lights (delta_light m) ls)))"
  proof (cases "cst_chunks (cw_chunks w) (delta_coord m)")
    case None
    then show ?thesis by (simp add: chunks apply_delta_missing content_def)
  next
    case (Some ch)
    then have inv: "chunk_inv ch" using assms(2) by (simp add: chunks_ok_def)
    obtain st b where st: "apply_delta m (cw_chunks w) = (None, st)"
      "voxels (ch_blocks b) = put_blocks (delta_blocks m) (voxels (ch_blocks ch))"
      "ch_light b = put_lights (delta_light m) (ch_light ch)"
      "same_show ((cst_chunks (cw_chunks w))(delta_coord m \<mapsto> b)) (cst_chunks st)"
      using apply_delta_shows [OF Some inv assms(1)] by blast
    then show ?thesis
      using content_same_show [OF st(4)] Some by (simp add: chunks content_def [of _ "delta_coord m"] cont_def)
  qed
qed

section \<open>The chunks a tick sends\<close>

text \<open>Still to be sent: visible, and not sent at its current revision.\<close>

definition pending :: "world \<Rightarrow> (chunk_coord \<rightharpoonup> u64) \<Rightarrow> chunk_coord \<Rightarrow> bool" where
  "pending w revs c \<longleftrightarrow> (case wo_chunks w c of None \<Rightarrow> False | Some ch \<Rightarrow> revs c \<noteq> Some (ch_revision ch))"

definition record_sent :: "world \<Rightarrow> chunk_coord set \<Rightarrow> (chunk_coord \<rightharpoonup> u64) \<Rightarrow> (chunk_coord \<rightharpoonup> u64)" where
  "record_sent w S revs = (\<lambda>c. if c \<in> S then map_option ch_revision (wo_chunks w c) else revs c)"

abbreviation adds :: "world \<Rightarrow> chunk_coord list \<Rightarrow> s2c_chunk_add list" where
  "adds w cs \<equiv> map (\<lambda>c. add_message c (the (wo_chunks w c))) cs"

lemma send_visible_spec:
  assumes "\<forall>c \<in> set cs. has_chunk w c" and "distinct cs"
  shows "\<exists>k. send_visible w budget cs n revs =
      (adds w (take k (filter (pending w revs) cs)), record_sent w (set (take k (filter (pending w revs) cs))) revs, []) \<and>
    (budget = 0 \<longrightarrow> length (filter (pending w revs) cs) \<le> k) \<and> (n = 0 \<longrightarrow> 0 < k)"
  using assms
proof (induction cs arbitrary: n revs)
  case Nil
  then show ?case by (intro exI [of _ 1]) (simp add: record_sent_def)
next
  case (Cons c cs)
  then obtain ch where ch: "wo_chunks w c = Some ch" by (auto simp: has_chunk_def)
  have others: "\<forall>c \<in> set cs. has_chunk w c" "distinct cs" "c \<notin> set cs" using Cons.prems by auto
  show ?case
  proof (cases "revs c = Some (ch_revision ch)")
    case True
    obtain k where "send_visible w budget cs n revs =
        (adds w (take k (filter (pending w revs) cs)), record_sent w (set (take k (filter (pending w revs) cs))) revs, [])"
      "budget = 0 \<longrightarrow> length (filter (pending w revs) cs) \<le> k" "n = 0 \<longrightarrow> 0 < k" using Cons.IH [OF others(1, 2)] by blast
    moreover have "\<not> pending w revs c" using True ch by (simp add: pending_def)
    ultimately show ?thesis
      using True ch by (intro exI [of _ k]) (simp add: find_chunk_def)
  next
    case False
    define m where "m = length (add_payload (add_message c ch))"
    have pend: "pending w revs c" using False ch by (simp add: pending_def)
    have rs: "record_sent w {c} revs = revs(c \<mapsto> ch_revision ch)" using ch by (auto simp: record_sent_def)
    show ?thesis
    proof (cases "0 < budget \<and> 0 < n \<and> budget < n + m")
      case True
      then show ?thesis using False ch
        by (intro exI [of _ 0]) (simp add: find_chunk_def m_def Let_def record_sent_def)
    next
      case fits: False
      show ?thesis
      proof (cases "0 < budget \<and> budget \<le> n + m")
        case True
        with fits False ch pend rs show ?thesis
          by (intro exI [of _ 1]) (auto simp: find_chunk_def m_def Let_def)
      next
        case more: False
        have same: "filter (pending w (revs(c \<mapsto> ch_revision ch))) cs = filter (pending w revs) cs"
        proof (rule filter_cong [OF refl])
          fix x assume "x \<in> set cs"
          with others(3) have "x \<noteq> c" by blast
          then show "pending w (revs(c \<mapsto> ch_revision ch)) x = pending w revs x" by (simp add: pending_def cong: option.case_cong)
        qed
        obtain k where k: "send_visible w budget cs (n + m) (revs(c \<mapsto> ch_revision ch)) =
            (adds w (take k (filter (pending w revs) cs)),
             record_sent w (set (take k (filter (pending w revs) cs))) (revs(c \<mapsto> ch_revision ch)), [])"
          "budget = 0 \<longrightarrow> length (filter (pending w revs) cs) \<le> k"
          using Cons.IH [OF others(1, 2), of "n + m" "revs(c \<mapsto> ch_revision ch)"] unfolding same by blast
        have "record_sent w S (revs(c \<mapsto> ch_revision ch)) = record_sent w (insert c S) revs" for S
          using ch by (auto simp: record_sent_def)
        with k fits more False ch pend show ?thesis
          by (intro exI [of _ "Suc k"]) (auto simp: find_chunk_def m_def Let_def)
      qed
    qed
  qed
qed

section \<open>A tick keeps the mirror\<close>

text \<open>
  What the replicator believes of a player and what the player's client shows: the client has exactly
  the chunks with a recorded revision, all of them in the list last sent, and a chunk recorded at its
  current revision is shown as it is.
\<close>

definition mirror :: "world \<Rightarrow> chunk_coord list \<Rightarrow> (chunk_coord \<rightharpoonup> u64) \<Rightarrow> (chunk_coord \<rightharpoonup> shown_chunk) \<Rightarrow> bool" where
  "mirror w sent revs shown \<longleftrightarrow> dom shown = dom revs \<and> dom revs \<subseteq> set sent \<and>
     (\<forall>c ch. wo_chunks w c = Some ch \<and> revs c = Some (ch_revision ch) \<longrightarrow> shown c = Some (cont ch))"

lemma receive_adds:
  assumes "wire_ok env" and "\<forall>c \<in> set cs. \<exists>ch. wo_chunks w c = Some ch \<and> chunk_inv ch" and "client_ok cw"
  shows "\<exists>cw'. receive env (map (add_frame (ce_lz4 env)) (adds w cs)) cw = Some cw' \<and> client_ok cw' \<and>
    client_content cw' = (\<lambda>c. if c \<in> set cs then content (wo_chunks w) c else client_content cw c)"
  using assms(2, 3)
proof (induction cs arbitrary: cw)
  case (Cons c cs)
  then obtain ch where ch: "wo_chunks w c = Some ch" "chunk_inv ch" by auto
  obtain cw1 where cw1: "on_chunk_add (add_message c ch) cw = Some cw1" "client_ok cw1"
    "client_content cw1 = (client_content cw)(c \<mapsto> cont ch)"
    using on_chunk_add_content [OF ch(2) Cons.prems(2)] by blast
  obtain cw' where cw': "receive env (map (add_frame (ce_lz4 env)) (adds w cs)) cw1 = Some cw'" "client_ok cw'"
    "client_content cw' = (\<lambda>c. if c \<in> set cs then content (wo_chunks w) c else client_content cw1 c)"
    using Cons.IH [OF _ cw1(2)] Cons.prems(1) by auto
  show ?case
  proof (intro exI conjI)
    show "receive env (map (add_frame (ce_lz4 env)) (adds w (c # cs))) cw = Some cw'"
      using cw' cw1(1) ch(1) receive_add [OF assms(1) ch(2)] by simp
    show "client_content cw' = (\<lambda>d. if d \<in> set (c # cs) then content (wo_chunks w) d else client_content cw d)"
      using ch(1) by (auto simp: cw'(3) cw1(3) content_def)
  qed (rule cw'(2))
qed simp

lemma receive_removes:
  assumes "wire_ok env" and "client_ok cw"
  shows "\<exists>cw'. receive env (map (\<lambda>c. remove_frame (ce_lz4 env) \<lparr>remove_coord = c\<rparr>) cs) cw = Some cw' \<and> client_ok cw' \<and>
    client_content cw' = (\<lambda>c. if c \<in> set cs then None else client_content cw c)"
  using assms(2)
proof (induction cs arbitrary: cw)
  case (Cons c cs)
  let ?cw = "on_chunk_remove \<lparr>remove_coord = c\<rparr> cw"
  have "client_ok ?cw" "client_content ?cw = (client_content cw)(c := None)"
    using on_chunk_remove_content Cons.prems by simp_all
  note cw = this
  obtain cw' where "receive env (map (\<lambda>c. remove_frame (ce_lz4 env) \<lparr>remove_coord = c\<rparr>) cs) ?cw = Some cw'" "client_ok cw'"
    "client_content cw' = (\<lambda>d. if d \<in> set cs then None else client_content ?cw d)"
    using Cons.IH [OF cw(1)] by blast
  then show ?case
    by (intro exI [of _ cw']) (auto simp: receive_remove [OF assms(1)] cw(2) simp del: receive.simps(2))
qed simp

lemma forget_left: "fold (\<lambda>c revs. revs(c := None)) cs revs = (\<lambda>c. if c \<in> set cs then None else revs c)"
  by (induction cs arbitrary: revs) auto

text \<open>The tick of one player, whatever the budget.\<close>

lemma player_view_spec:
  assumes "wire_ok env" and "chunks_ok (wo_chunks w)" and "client_ok cw"
    and "sorted view" and "distinct view" and "sorted sent" and "distinct sent"
    and "player_view (ce_lz4 env) w budget view sent revs = (frames, visible, revs')"
  shows "\<exists>S cw'. receive env frames cw = Some cw' \<and> client_ok cw' \<and>
    visible = filter (has_chunk w) view \<and>
    set S \<subseteq> set (filter (pending w revs) visible) \<and>
    (budget = 0 \<longrightarrow> S = filter (pending w revs) visible) \<and>
    (filter (pending w revs) visible \<noteq> [] \<longrightarrow> S \<noteq> []) \<and>
    client_content cw' = (\<lambda>c. if c \<in> set sent - set visible then None
      else if c \<in> set S then content (wo_chunks w) c else client_content cw c) \<and>
    revs' = (\<lambda>c. if c \<in> set sent - set visible then None else record_sent w (set S) revs c)"
proof -
  let ?vis = "filter (has_chunk w) view"
  let ?left = "csd_left (diff_chunk_sets sent ?vis)"
  let ?todo = "filter (pending w revs) ?vis"
  obtain k where k: "send_visible w budget ?vis 0 revs = (adds w (take k ?todo), record_sent w (set (take k ?todo)) revs, [])"
    "budget = 0 \<longrightarrow> length ?todo \<le> k" "0 < k"
    using send_visible_spec [of ?vis w budget 0 revs] assms(5) by auto
  let ?S = "take k ?todo"
  have left: "set ?left = set sent - set ?vis"
    using set_difference_spec(1) [of sent ?vis] assms(4-7)
    by (simp add: diff_chunk_sets_def sorted_wrt_filter strict_sorted_iff)
  have S_ok: "\<forall>c \<in> set ?S. \<exists>ch. wo_chunks w c = Some ch \<and> chunk_inv ch"
    using assms(2) by (auto simp: has_chunk_def chunks_ok_def dest!: in_set_takeD)
  obtain cw1 where cw1: "receive env (map (add_frame (ce_lz4 env)) (adds w ?S)) cw = Some cw1" "client_ok cw1"
    "client_content cw1 = (\<lambda>c. if c \<in> set ?S then content (wo_chunks w) c else client_content cw c)"
    using receive_adds [OF assms(1) S_ok assms(3)] by blast
  obtain cw2 where cw2: "receive env (map (\<lambda>c. remove_frame (ce_lz4 env) \<lparr>remove_coord = c\<rparr>) ?left) cw1 = Some cw2" "client_ok cw2"
    "client_content cw2 = (\<lambda>c. if c \<in> set ?left then None else client_content cw1 c)"
    using receive_removes [OF assms(1) cw1(2)] by blast
  have pv: "frames = map (add_frame (ce_lz4 env)) (adds w ?S) @ map (\<lambda>c. remove_frame (ce_lz4 env) \<lparr>remove_coord = c\<rparr>) ?left"
    "visible = ?vis" "revs' = (\<lambda>c. if c \<in> set sent - set ?vis then None else record_sent w (set ?S) revs c)"
    using assms(8) unfolding player_view_def Let_def k(1)
    by (auto simp: forget_left left simp del: filter_filter filter_set)
  show ?thesis
  proof (intro exI conjI)
    show "receive env frames cw = Some cw2" using cw1(1) cw2(1) by (simp add: pv(1) receive_append)
    show "client_content cw2 = (\<lambda>c. if c \<in> set sent - set visible then None
        else if c \<in> set ?S then content (wo_chunks w) c else client_content cw c)"
      unfolding cw2(3) cw1(3) left pv(2) ..
    show "budget = 0 \<longrightarrow> ?S = filter (pending w revs) visible" using k(2) by (simp add: pv(2))
    show "filter (pending w revs) visible \<noteq> [] \<longrightarrow> ?S \<noteq> []" using k(3) by (simp add: pv(2))
    show "set ?S \<subseteq> set (filter (pending w revs) visible)" unfolding pv(2) by (rule set_take_subset)
  qed (simp_all add: pv cw2(2))
qed

text \<open>Whatever the budget, the mirror is kept, in the player's new view.\<close>

lemma mirrorD:
  assumes "mirror w sent revs shown"
  shows "shown c = None \<longleftrightarrow> revs c = None" and "revs c \<noteq> None \<Longrightarrow> c \<in> set sent"
    and "wo_chunks w c = Some ch \<Longrightarrow> revs c = Some (ch_revision ch) \<Longrightarrow> shown c = Some (cont ch)"
proof -
  show "shown c = None \<longleftrightarrow> revs c = None" using assms by (metis domIff mirror_def)
qed (use assms in \<open>auto simp: mirror_def\<close>)

lemma mirrorI:
  assumes "\<And>c. shown c = None \<longleftrightarrow> revs c = None" and "\<And>c. revs c \<noteq> None \<Longrightarrow> c \<in> set sent"
    and "\<And>c ch. wo_chunks w c = Some ch \<Longrightarrow> revs c = Some (ch_revision ch) \<Longrightarrow> shown c = Some (cont ch)"
  shows "mirror w sent revs shown"
proof -
  have "dom shown = dom revs" by (simp add: set_eq_iff domIff assms(1))
  with assms(2, 3) show ?thesis by (auto simp: mirror_def)
qed

lemma tick_keeps_mirror:
  assumes "wire_ok env" and "chunks_ok (wo_chunks w)" and "client_ok cw"
    and "sorted view" and "distinct view" and "sorted sent" and "distinct sent"
    and "mirror w sent revs (client_content cw)"
    and "player_view (ce_lz4 env) w budget view sent revs = (frames, visible, revs')"
  shows "\<exists>cw'. receive env frames cw = Some cw' \<and> client_ok cw' \<and> visible = filter (has_chunk w) view \<and>
    mirror w visible revs' (client_content cw')"
proof -
  obtain S cw' where r: "receive env frames cw = Some cw'" "client_ok cw'" "visible = filter (has_chunk w) view"
    "set S \<subseteq> set (filter (pending w revs) visible)"
    "client_content cw' = (\<lambda>c. if c \<in> set sent - set visible then None
      else if c \<in> set S then content (wo_chunks w) c else client_content cw c)"
    "revs' = (\<lambda>c. if c \<in> set sent - set visible then None else record_sent w (set S) revs c)"
    using player_view_spec [OF assms(1-7, 9)] by blast
  have S: "c \<in> set visible" if "c \<in> set S" for c using r(4) that by auto
  note m = mirrorD [OF assms(8)]
  have "mirror w visible revs' (client_content cw')"
  proof (rule mirrorI)
    show "client_content cw' c = None \<longleftrightarrow> revs' c = None" for c
      unfolding r(5, 6) record_sent_def using m(1) [of c] by simp
    show "c \<in> set visible" if "revs' c \<noteq> None" for c
      using that m(2) [of c] S [of c] unfolding r(6) record_sent_def by (auto split: if_splits)
    show "client_content cw' c = Some (cont ch)" if "wo_chunks w c = Some ch" "revs' c = Some (ch_revision ch)" for c ch
      using that m(3) [of c ch] unfolding r(5, 6) record_sent_def by (auto simp: content_def split: if_splits)
  qed
  with r(1-3) show ?thesis by blast
qed

text \<open>Without a budget one tick is enough: the client shows exactly the loaded chunks of its view.\<close>

lemma tick_shows_view:
  assumes "wire_ok env" and "chunks_ok (wo_chunks w)" and "client_ok cw"
    and "sorted view" and "distinct view" and "sorted sent" and "distinct sent"
    and "mirror w sent revs (client_content cw)"
    and "player_view (ce_lz4 env) w 0 view sent revs = (frames, visible, revs')"
  shows "\<exists>cw'. receive env frames cw = Some cw' \<and>
    client_content cw' = (\<lambda>c. if c \<in> set view then content (wo_chunks w) c else None)"
proof -
  obtain S cw' where r: "receive env frames cw = Some cw'" "visible = filter (has_chunk w) view"
    "S = filter (pending w revs) visible"
    "client_content cw' = (\<lambda>c. if c \<in> set sent - set visible then None
      else if c \<in> set S then content (wo_chunks w) c else client_content cw c)"
    using player_view_spec [OF assms(1-7, 9)] by blast
  note m = mirrorD [OF assms(8)]
  have "client_content cw' c = (if c \<in> set view then content (wo_chunks w) c else None)" for c
  proof (cases "wo_chunks w c")
    case None
    then have "c \<notin> set visible" by (simp add: r(2) has_chunk_def)
    with None m(1, 2) [of c] show ?thesis by (auto simp: r(3, 4) content_def)
  next
    case (Some ch)
    then have v: "c \<in> set visible \<longleftrightarrow> c \<in> set view" by (simp add: r(2) has_chunk_def)
    show ?thesis
    proof (cases "c \<in> set visible")
      case True
      then have "c \<in> set S \<or> revs c = Some (ch_revision ch)" using Some by (auto simp: r(3) pending_def)
      with True v Some m(3) [OF Some] show ?thesis by (auto simp: r(4) content_def)
    next
      case False
      then have "c \<notin> set S" by (simp add: r(3))
      with False v m(1, 2) [of c] show ?thesis by (auto simp: r(4))
    qed
  qed
  with r(1) show ?thesis by auto
qed

section \<open>Ticks under a budget\<close>

text \<open>The mirror is complete once nothing visible is left to send.\<close>

lemma mirror_complete:
  assumes "mirror w (filter (has_chunk w) view) revs shown"
    and "filter (pending w revs) (filter (has_chunk w) view) = []"
  shows "shown = (\<lambda>c. if c \<in> set view then content (wo_chunks w) c else None)"
proof
  fix c
  note m = mirrorD [OF assms(1)]
  show "shown c = (if c \<in> set view then content (wo_chunks w) c else None)"
  proof (cases "wo_chunks w c")
    case None
    with m(1, 2) [of c] show ?thesis by (auto simp: has_chunk_def content_def)
  next
    case (Some ch)
    with assms(2) have "c \<in> set view \<Longrightarrow> revs c = Some (ch_revision ch)"
      by (auto simp: filter_empty_conv has_chunk_def pending_def)
    with Some m(1, 2) [of c] m(3) [OF Some] show ?thesis by (auto simp: content_def)
  qed
qed

text \<open>Ticks of one player over a world at rest, each received before the next.\<close>

primrec view_ticks :: "client_env \<Rightarrow> world \<Rightarrow> nat \<Rightarrow> chunk_coord list \<Rightarrow> nat \<Rightarrow>
    chunk_coord list \<times> (chunk_coord \<rightharpoonup> u64) \<times> client_world \<Rightarrow>
    (chunk_coord list \<times> (chunk_coord \<rightharpoonup> u64) \<times> client_world) option" where
  "view_ticks env w budget view 0 st = Some st"
| "view_ticks env w budget view (Suc n) st = (case st of (sent, revs, cw) \<Rightarrow>
     let (frames, visible, revs') = player_view (ce_lz4 env) w budget view sent revs in
     Option.bind (receive env frames cw) (\<lambda>cw'. view_ticks env w budget view n (visible, revs', cw')))"

abbreviation todo :: "world \<Rightarrow> chunk_coord list \<Rightarrow> (chunk_coord \<rightharpoonup> u64) \<Rightarrow> chunk_coord list" where
  "todo w view revs \<equiv> filter (pending w revs) (filter (has_chunk w) view)"

text \<open>A tick sends something as long as something is left.\<close>

lemma tick_progress:
  assumes "wire_ok env" and "chunks_ok (wo_chunks w)" and "client_ok cw"
    and "sorted view" and "distinct view" and "sorted sent" and "distinct sent"
    and "player_view (ce_lz4 env) w budget view sent revs = (frames, visible, revs')"
  shows "length (todo w view revs') \<le> length (todo w view revs) - 1"
proof -
  obtain S where r: "visible = filter (has_chunk w) view" "set S \<subseteq> set (filter (pending w revs) visible)"
    "filter (pending w revs) visible \<noteq> [] \<longrightarrow> S \<noteq> []"
    "revs' = (\<lambda>c. if c \<in> set sent - set visible then None else record_sent w (set S) revs c)"
    using player_view_spec [OF assms(1-8)] by blast
  have p: "pending w revs' c \<longleftrightarrow> pending w revs c \<and> c \<notin> set S" if "c \<in> set visible" for c
    using that r(2) by (auto simp: pending_def r(4) record_sent_def split: option.splits)
  have sub: "set (todo w view revs') = set (todo w view revs) - set S"
    using p by (auto simp: r(1))
  have len: "length (todo w view f) = card (set (todo w view f))" for f
    using assms(5) by (simp add: distinct_card del: filter_filter set_filter)
  show ?thesis
  proof (cases "todo w view revs = []")
    case True
    then have "set (todo w view revs') = {}" unfolding sub by simp
    then show ?thesis by (simp del: filter_filter set_filter)
  next
    case False
    with r(1, 3) obtain c where "c \<in> set S" by (cases S) (auto simp del: filter_filter)
    moreover from this r(1, 2) have "c \<in> set (todo w view revs)" by blast
    ultimately have "set (todo w view revs') \<subset> set (todo w view revs)" unfolding sub by blast
    then have "card (set (todo w view revs')) < card (set (todo w view revs))" by (intro psubset_card_mono finite_set)
    then show ?thesis unfolding len by linarith
  qed
qed

lemma view_ticks_complete:
  assumes "wire_ok env" and "chunks_ok (wo_chunks w)" and "sorted view" and "distinct view"
    and "client_ok cw" and "sorted sent" and "distinct sent" and "mirror w sent revs (client_content cw)"
    and "length (todo w view revs) \<le> n"
  shows "\<exists>sent' revs' cw'. view_ticks env w budget view (Suc n) (sent, revs, cw) = Some (sent', revs', cw') \<and>
    client_content cw' = (\<lambda>c. if c \<in> set view then content (wo_chunks w) c else None)"
  using assms(5-9)
proof (induction n arbitrary: sent revs cw)
  case (Suc n)
  obtain frames visible revs' where pv: "player_view (ce_lz4 env) w budget view sent revs = (frames, visible, revs')"
    using prod_cases3 by blast
  obtain cw' where cw': "receive env frames cw = Some cw'" "client_ok cw'" "visible = filter (has_chunk w) view"
    "mirror w visible revs' (client_content cw')"
    using tick_keeps_mirror [OF assms(1, 2) Suc.prems(1) assms(3, 4) Suc.prems(2-4) pv] by blast
  have "length (todo w view revs') \<le> n"
    using tick_progress [OF assms(1, 2) Suc.prems(1) assms(3, 4) Suc.prems(2, 3) pv] Suc.prems(5) by simp
  moreover have "sorted visible" "distinct visible" using assms(3, 4) cw'(3) by (simp_all add: sorted_wrt_filter)
  ultimately show ?case using Suc.IH [OF cw'(2) _ _ cw'(4)] by (simp add: pv cw'(1))
next
  case 0
  obtain frames visible revs' where pv: "player_view (ce_lz4 env) w budget view sent revs = (frames, visible, revs')"
    using prod_cases3 by blast
  obtain cw' where cw': "receive env frames cw = Some cw'" "visible = filter (has_chunk w) view"
    "mirror w visible revs' (client_content cw')"
    using tick_keeps_mirror [OF assms(1, 2) 0(1) assms(3, 4) 0(2-4) pv] by blast
  have "length (todo w view revs') \<le> 0"
    using tick_progress [OF assms(1, 2) 0(1) assms(3, 4) 0(2, 3) pv] 0(5) by simp
  then have "todo w view revs' = []" by (simp del: filter_filter)
  from mirror_complete [OF cw'(3) [unfolded cw'(2)] this] show ?case by (simp add: pv cw'(1))
qed

end
