(* ===== verification/Edit_Replication.thy ===== *)
theory Edit_Replication
  imports Replication_Mirror
begin

text \<open>
  Block edits from the replicator to its clients: who gets which delta, what the deltas do to a client
  that is up to date, and what becomes of a chunk whose first delta arrives before the chunk.
\<close>

section \<open>Who gets a delta\<close>

definition deltas_to :: "net_id \<Rightarrow> by_player \<Rightarrow> s2c_chunk_delta list" where
  "deltas_to pid by = (case map_of by pid of None \<Rightarrow> [] | Some ds \<Rightarrow> ds)"

definition gets :: "replicator \<Rightarrow> net_id \<Rightarrow> net_id \<Rightarrow> chunk_coord \<Rightarrow> bool" where
  "gets rp editor pid c \<longleftrightarrow> pid = editor \<or> player_has_chunk rp pid c"

definition noted :: "s2c_chunk_delta list \<Rightarrow> (chunk_coord \<rightharpoonup> u64) \<Rightarrow> (chunk_coord \<rightharpoonup> u64)" where
  "noted ds revs = fold (\<lambda>d revs. revs(delta_coord d \<mapsto> delta_new_revision d)) ds revs"

abbreviation revs_of :: "replicator \<Rightarrow> net_id \<Rightarrow> (chunk_coord \<rightharpoonup> u64)" where
  "revs_of \<equiv> rep_last_sent_revision"

lemma push_delta_effect:
  "deltas_to q (fst (push_delta d pid acc)) = deltas_to q (fst acc) @ (if q = pid then [d] else [])"
  "revs_of (snd (push_delta d pid acc)) q = noted (if q = pid then [d] else []) (revs_of (snd acc) q)"
  "rep_last_sent (snd (push_delta d pid acc)) = rep_last_sent (snd acc)"
  "rep_world (snd (push_delta d pid acc)) = rep_world (snd acc)"
  "distinct (map fst (fst acc)) \<Longrightarrow> distinct (map fst (fst (push_delta d pid acc)))"
  by (cases acc; simp add: push_delta_def deltas_to_def update_conv set_revs_def noted_def distinct_update
      split: option.split)+

lemma push_deltas_effect:
  assumes "distinct pids"
  shows "deltas_to q (fst (fold (push_delta d) pids acc)) = deltas_to q (fst acc) @ (if q \<in> set pids then [d] else []) \<and>
    revs_of (snd (fold (push_delta d) pids acc)) q = noted (if q \<in> set pids then [d] else []) (revs_of (snd acc) q) \<and>
    rep_last_sent (snd (fold (push_delta d) pids acc)) = rep_last_sent (snd acc) \<and>
    rep_world (snd (fold (push_delta d) pids acc)) = rep_world (snd acc) \<and>
    (distinct (map fst (fst acc)) \<longrightarrow> distinct (map fst (fst (fold (push_delta d) pids acc))))"
  using assms
proof (induction pids arbitrary: acc)
  case (Cons pid pids)
  then show ?case by (auto simp: push_delta_effect noted_def)
qed (simp add: noted_def)

lemma watchers:
  assumes "distinct (map fst (rep_last_sent rp))"
  shows "pid \<in> fst ` set (filter (\<lambda>(pid, sent). binary_search sent c) (rep_last_sent rp)) \<longleftrightarrow> player_has_chunk rp pid c"
proof -
  have "pid \<in> fst ` set (filter (\<lambda>(pid, sent). binary_search sent c) (rep_last_sent rp)) \<longleftrightarrow>
      (\<exists>sent. map_of (rep_last_sent rp) pid = Some sent \<and> binary_search sent c)"
    using map_of_eq_Some_iff [OF assms, of pid] by (auto simp: image_iff)
  then show ?thesis by (auto simp: player_has_chunk_def split: option.split)
qed

lemma fan_out_effect:
  assumes "distinct (map fst (rep_last_sent (snd acc)))"
  shows "deltas_to q (fst (fan_out editor d acc)) =
      deltas_to q (fst acc) @ (if gets (snd acc) editor q (delta_coord d) then [d] else [])"
    and "revs_of (snd (fan_out editor d acc)) q =
      noted (if gets (snd acc) editor q (delta_coord d) then [d] else []) (revs_of (snd acc) q)"
    and "rep_last_sent (snd (fan_out editor d acc)) = rep_last_sent (snd acc)"
    and "rep_world (snd (fan_out editor d acc)) = rep_world (snd acc)"
    and "distinct (map fst (fst acc)) \<Longrightarrow> distinct (map fst (fst (fan_out editor d acc)))"
proof -
  define ws where "ws = map fst (filter (\<lambda>(pid, sent). binary_search sent (delta_coord d)) (rep_last_sent (snd acc)))"
  have dist: "distinct ws" using assms by (simp add: ws_def distinct_map_filter)
  have mem: "q \<in> set ws \<longleftrightarrow> player_has_chunk (snd acc) q (delta_coord d)" for q
    using watchers [OF assms] by (simp add: ws_def)
  have f: "fan_out editor d acc = (if editor \<in> set ws then fold (push_delta d) ws acc
      else push_delta d editor (fold (push_delta d) ws acc))"
    by (simp add: fan_out_def ws_def [symmetric] Let_def)
  note all = push_deltas_effect [OF dist, of _ d acc]
  have ds: "deltas_to q (fst (fold (push_delta d) ws acc)) = deltas_to q (fst acc) @ (if q \<in> set ws then [d] else [])"
    and rs: "revs_of (snd (fold (push_delta d) ws acc)) q = noted (if q \<in> set ws then [d] else []) (revs_of (snd acc) q)" for q
    using all [of q] by blast+
  have g: "gets (snd acc) editor q (delta_coord d) \<longleftrightarrow> q = editor \<or> q \<in> set ws" for q by (simp add: gets_def mem)
  show "deltas_to q (fst (fan_out editor d acc)) =
      deltas_to q (fst acc) @ (if gets (snd acc) editor q (delta_coord d) then [d] else [])"
    unfolding g f by (simp add: push_delta_effect(1) ds)
  show "revs_of (snd (fan_out editor d acc)) q =
      noted (if gets (snd acc) editor q (delta_coord d) then [d] else []) (revs_of (snd acc) q)"
    unfolding g f by (simp add: push_delta_effect(2) rs noted_def)
  show "rep_last_sent (snd (fan_out editor d acc)) = rep_last_sent (snd acc)"
    "rep_world (snd (fan_out editor d acc)) = rep_world (snd acc)"
    "distinct (map fst (fst acc)) \<Longrightarrow> distinct (map fst (fst (fan_out editor d acc)))"
    unfolding f using all by (simp_all add: push_delta_effect)
qed

lemma gets_cong: "rep_last_sent rp' = rep_last_sent rp \<Longrightarrow> gets rp' editor pid c = gets rp editor pid c"
  by (simp add: gets_def player_has_chunk_def)

lemma fan_outs_effect:
  assumes "distinct (map fst (rep_last_sent (snd acc)))" and "distinct (map fst (fst acc))"
  shows "deltas_to q (fst (fold (fan_out editor) ds acc)) =
      deltas_to q (fst acc) @ filter (\<lambda>d. gets (snd acc) editor q (delta_coord d)) ds \<and>
    revs_of (snd (fold (fan_out editor) ds acc)) q =
      noted (filter (\<lambda>d. gets (snd acc) editor q (delta_coord d)) ds) (revs_of (snd acc) q) \<and>
    rep_last_sent (snd (fold (fan_out editor) ds acc)) = rep_last_sent (snd acc) \<and>
    rep_world (snd (fold (fan_out editor) ds acc)) = rep_world (snd acc) \<and>
    distinct (map fst (fst (fold (fan_out editor) ds acc)))"
  using assms
proof (induction ds arbitrary: acc)
  case (Cons d ds)
  note f = fan_out_effect [OF Cons.prems(1), where editor = editor and d = d]
  have g: "gets (snd (fan_out editor d acc)) editor q c = gets (snd acc) editor q c" for c
    by (rule gets_cong) (rule f(3))
  let ?acc = "fan_out editor d acc"
  have "distinct (map fst (rep_last_sent (snd ?acc)))" "distinct (map fst (fst ?acc))"
    unfolding f(3) by (rule Cons.prems(1), rule f(5) [OF Cons.prems(2)])
  note IH = Cons.IH [OF this, unfolded f(3, 4) g]
  show ?case
  proof (intro conjI)
    show "deltas_to q (fst (fold (fan_out editor) (d # ds) acc)) =
        deltas_to q (fst acc) @ filter (\<lambda>d. gets (snd acc) editor q (delta_coord d)) (d # ds)"
      using conjunct1 [OF IH] by (simp add: f(1))
    show "revs_of (snd (fold (fan_out editor) (d # ds) acc)) q =
        noted (filter (\<lambda>d. gets (snd acc) editor q (delta_coord d)) (d # ds)) (revs_of (snd acc) q)"
      using conjunct1 [OF conjunct2 [OF IH]] by (simp add: f(2) noted_def)
    note rest = conjunct2 [OF conjunct2 [OF IH]]
    show "rep_last_sent (snd (fold (fan_out editor) (d # ds) acc)) = rep_last_sent (snd acc)"
      using conjunct1 [OF rest] by simp
    show "rep_world (snd (fold (fan_out editor) (d # ds) acc)) = rep_world (snd acc)"
      using conjunct1 [OF conjunct2 [OF rest]] by simp
    show "distinct (map fst (fst (fold (fan_out editor) (d # ds) acc)))"
      using conjunct2 [OF conjunct2 [OF rest]] by simp
  qed
qed (simp add: noted_def)

section \<open>The frames of a player\<close>

definition frames_to :: "net_id \<Rightarrow> player_frames list \<Rightarrow> outgoing_frame list" where
  "frames_to pid out = concat (map pf_frames (filter (\<lambda>pf. pf_id pf = pid) out))"

lemma edit_frames_Cons:
  "frames_to pid (edit_frames lz ((q, ds) # bs)) = (if q = pid then map (delta_frame lz) ds else []) @ frames_to pid (edit_frames lz bs)"
  by (simp add: frames_to_def edit_frames_def)

lemma frames_to_none: "pid \<notin> fst ` set bs \<Longrightarrow> frames_to pid (edit_frames lz bs) = []"
proof (induction bs)
  case (Cons b bs)
  then show ?case by (cases b) (auto simp: edit_frames_Cons)
qed (simp add: frames_to_def edit_frames_def)

lemma frames_to_edit:
  "distinct (map fst by) \<Longrightarrow> frames_to pid (edit_frames lz by) = map (delta_frame lz) (deltas_to pid by)"
proof (induction "by")
  case (Cons b bs)
  obtain q ds where b: "b = (q, ds)" by fastforce
  have new: "q \<notin> fst ` set bs" and dist: "distinct (map fst bs)" using Cons.prems by (simp_all add: b)
  show ?case
  proof (cases "q = pid")
    case True
    then show ?thesis using frames_to_none [OF new] by (simp add: b edit_frames_Cons deltas_to_def)
  next
    case False
    then show ?thesis using Cons.IH [OF dist] by (simp add: b edit_frames_Cons deltas_to_def)
  qed
qed (simp add: frames_to_def edit_frames_def deltas_to_def)

section \<open>What the deltas do to a client\<close>

lemma changed_light_puts:
  assumes "length before = kChunkVolume" and "length after = kChunkVolume"
  shows "put_lights (changed_light before after) before = after"
proof -
  have unat: "unat (of_nat i :: u32) = i" if "i < kChunkVolume" for i
    using that by (simp add: unat_of_nat kChunkVolume_def)
  have "put_lights (map (\<lambda>i. \<lparr>lc_local_index = of_nat i, lc_packed = after ! i\<rparr>) js) ls ! k =
      (if k \<in> set js then after ! k else ls ! k)"
    if "set js \<subseteq> {..<kChunkVolume}" "length ls = kChunkVolume" for js ls k
    using that
  proof (induction js arbitrary: ls)
    case (Cons j js)
    then show ?case by (auto simp: put_lights_def unat)
  qed (simp add: put_lights_def)
  note at = this
  have len: "length (put_lights cs ls) = length ls" for cs ls
    by (induction cs arbitrary: ls) (simp_all add: put_lights_def)
  show ?thesis
  proof (rule nth_equalityI)
    fix k assume "k < length (put_lights (changed_light before after) before)"
    then have "k < kChunkVolume" by (simp add: len assms(1))
    then show "put_lights (changed_light before after) before ! k = after ! k"
      unfolding changed_light_def using assms(1) by (subst at) auto
  qed (simp add: len assms)
qed

lemma delta_of_valid: "valid_S2CChunkDelta (delta_of p b (c, before, after))"
proof -
  have vol: "chunk_volume = kChunkVolume" by (simp add: chunk_volume_def kChunkVolume_def)
  have small: "unat (of_nat i :: u32) < kChunkVolume" if "i < kChunkVolume" for i
    using that by (simp add: unat_of_nat kChunkVolume_def)
  let ?m = "delta_of p b (c, before, after)"
  have "length (changed_light before (ch_light after)) \<le> kChunkVolume"
    unfolding changed_light_def length_map using length_filter_le by (metis diff_zero length_upt)
  moreover have "\<forall>x \<in> set (changed_light before (ch_light after)). unat (lc_local_index x) < kChunkVolume"
    unfolding changed_light_def using small by fastforce
  moreover have "length (delta_blocks ?m) \<le> 1" by (simp add: delta_of_def)
  then have "length (delta_blocks ?m) \<le> kChunkVolume" by (rule order_trans) (simp add: kChunkVolume_def)
  moreover have "\<forall>x \<in> set (delta_blocks ?m). unat (bc_local_index x) < kChunkVolume"
    by (simp add: delta_of_def local_index_of_world_def small)
  moreover have "delta_light ?m = changed_light before (ch_light after)" by (simp add: delta_of_def)
  ultimately show ?thesis unfolding valid_S2CChunkDelta_def vol by metis
qed

text \<open>The chunk the editor changed, and the chunks the relight reported, as the deltas tell them.\<close>

lemma delta_content:
  assumes "K c = Some (bs, ch_light old)" and "length (ch_light old) = kChunkVolume" and "relit_from old after"
    and "voxels (ch_blocks after) = (if c = chunk_of p then bs[va_index (address_of p) := b] else bs)"
  shows "(case K c of None \<Rightarrow> K | Some (bs, ls) \<Rightarrow>
      K(c \<mapsto> (put_blocks (delta_blocks (delta_of p b (c, ch_light old, after))) bs,
              put_lights (delta_light (delta_of p b (c, ch_light old, after))) ls))) = K(c \<mapsto> cont after)"
proof -
  have "unat (of_nat (va_index (address_of p)) :: u32) = va_index (address_of p)"
    using va_index_bound [of p] by (simp add: unat_of_nat kChunkVolume_def)
  then have "put_blocks (delta_blocks (delta_of p b (c, ch_light old, after))) bs = voxels (ch_blocks after)"
    using assms(4) by (simp add: delta_of_def put_blocks_def local_index_of_world_def)
  moreover have "put_lights (delta_light (delta_of p b (c, ch_light old, after))) (ch_light old) = ch_light after"
    using changed_light_puts [OF assms(2)] assms(3) by (simp add: delta_of_def relit_from_def)
  ultimately show ?thesis by (simp add: assms(1) cont_def)
qed

lemma receive_deltas:
  assumes "wire_ok env" and "distinct (map fst evs)" and "client_ok cw"
    and "\<forall>c before after. (c, before, after) \<in> set evs \<longrightarrow> (\<exists>old bs. client_content cw c = Some (bs, ch_light old) \<and>
      before = ch_light old \<and> length (ch_light old) = kChunkVolume \<and> relit_from old after \<and>
      voxels (ch_blocks after) = (if c = chunk_of p then bs[va_index (address_of p) := b] else bs))"
  shows "\<exists>cw'. receive env (map (delta_frame (ce_lz4 env)) (map (delta_of p b) evs)) cw = Some cw' \<and> client_ok cw' \<and>
    client_content cw' = (\<lambda>c. case map_of evs c of None \<Rightarrow> client_content cw c | Some (_, after) \<Rightarrow> Some (cont after))"
  using assms(2-4)
proof (induction evs arbitrary: cw)
  case (Cons ev evs)
  obtain c before after where ev: "ev = (c, before, after)" using prod_cases3 by blast
  then have "(c, before, after) \<in> set (ev # evs)" by simp
  with Cons.prems(3) obtain old bs where old: "client_content cw c = Some (bs, ch_light old)" "before = ch_light old"
    "length (ch_light old) = kChunkVolume" "relit_from old after"
    "voxels (ch_blocks after) = (if c = chunk_of p then bs[va_index (address_of p) := b] else bs)" by blast
  let ?d = "delta_of p b ev"
  let ?cw = "on_chunk_delta ?d cw"
  have valid: "valid_S2CChunkDelta ?d" unfolding ev by (rule delta_of_valid)
  have coord: "delta_coord ?d = c" by (simp add: delta_of_def ev)
  have "client_content ?cw = (client_content cw)(c \<mapsto> cont after)"
    unfolding on_chunk_delta_content(1) [OF valid Cons.prems(2)] coord unfolding ev old(2)
    by (rule delta_content [of "client_content cw", OF old(1) old(3-5)])
  note content' = this
  have ok: "client_ok ?cw" by (rule on_chunk_delta_content(2) [OF valid Cons.prems(2)])
  have fresh: "c \<notin> fst ` set evs" "distinct (map fst evs)" using Cons.prems(1) by (simp_all add: ev)
  have rest: "\<exists>old bs. client_content ?cw c' = Some (bs, ch_light old) \<and> before' = ch_light old \<and>
      length (ch_light old) = kChunkVolume \<and> relit_from old after' \<and>
      voxels (ch_blocks after') = (if c' = chunk_of p then bs[va_index (address_of p) := b] else bs)"
    if "(c', before', after') \<in> set evs" for c' before' after'
  proof -
    have "c' \<noteq> c" using that fresh(1) by force
    then show ?thesis using Cons.prems(3) that by (simp add: content')
  qed
  obtain cw' where cw': "receive env (map (delta_frame (ce_lz4 env)) (map (delta_of p b) evs)) ?cw = Some cw'" "client_ok cw'"
    "client_content cw' = (\<lambda>c. case map_of evs c of None \<Rightarrow> client_content ?cw c | Some (_, after) \<Rightarrow> Some (cont after))"
    using Cons.IH [OF fresh(2) ok] rest by blast
  show ?case
  proof (intro exI conjI)
    show "receive env (map (delta_frame (ce_lz4 env)) (map (delta_of p b) (ev # evs))) cw = Some cw'"
      using cw'(1) by (simp add: receive_delta [OF assms(1) valid] del: receive.simps(2))
    have "map_of evs c = None" using fresh(1) by (simp add: map_of_eq_None_iff)
    then show "client_content cw' = (\<lambda>c. case map_of (ev # evs) c of None \<Rightarrow> client_content cw c | Some (_, after) \<Rightarrow> Some (cont after))"
      unfolding cw'(3) content' by (auto simp: ev fun_eq_iff split: option.splits)
  qed (rule cw'(2))
qed simp

section \<open>An accepted edit\<close>

text \<open>Hooks that leave the world alone after the edit; \<open>before_edit\<close> may veto it.\<close>

definition quiet_hooks :: "'h block_edit_hooks \<Rightarrow> bool" where
  "quiet_hooks hooks \<longleftrightarrow> (\<forall>s editor p b1 b2 br w. beh_after_edit hooks s editor p b1 b2 br w = w)"

lemma edit_target_loaded:
  "edit_target F reach eye e w = Some b \<Longrightarrow> \<exists>ch. wo_chunks w (chunk_of (edit_pos e)) = Some ch"
  by (auto simp: edit_target_def Let_def has_chunk_def split: if_splits)

text \<open>An edit that is accepted: the block is set, the light spreads, the deltas go out.\<close>

lemma accepted_edit:
  assumes "quiet_hooks hooks" and "apply_block_edit F hooks editor eye e rp = (by, res, rp')" and "eres_accepted res"
    and "distinct (map fst (rep_last_sent rp))"
  obtains b ch ch1 evs where "wo_chunks (rep_world rp) (chunk_of (edit_pos e)) = Some ch"
    and "ch1 = snd (chunk_set (va_index (address_of (edit_pos e))) b ch)"
    and "reported ((wo_chunks (rep_world rp))(chunk_of (edit_pos e) \<mapsto> ch1)) (wo_chunks (rep_world rp')) evs"
    and "\<exists>after rest. evs = (chunk_of (edit_pos e), ch_light ch1, after) # rest"
    and "\<And>pid. deltas_to pid by = map (delta_of (edit_pos e) b) (filter (\<lambda>ev. gets rp editor pid (fst ev)) evs)"
    and "\<And>pid. revs_of rp' pid = noted (deltas_to pid by) (revs_of rp pid)"
    and "rep_last_sent rp' = rep_last_sent rp" and "distinct (map fst by)"
proof -
  let ?c = "chunk_of (edit_pos e)" and ?i = "va_index (address_of (edit_pos e))"
  obtain b where b: "edit_target F (rep_reach rp) eye e (rep_world rp) = Some b"
    using assms(2, 3) by (auto simp: apply_block_edit_def Let_def split: option.splits)
  obtain ch where ch: "wo_chunks (rep_world rp) ?c = Some ch" using edit_target_loaded [OF b] by blast
  define ch1 where "ch1 = snd (chunk_set ?i b ch)"
  define cs where "cs = (wo_chunks (rep_world rp))(?c \<mapsto> ch1)"
  have set: "wo_chunks (snd (world_set_block (edit_pos e) b (rep_world rp))) = cs"
    by (simp add: world_set_block_chunks get_or_create_chunk_def ch ch1_def cs_def)
  define w1 where "w1 = snd (world_set_block (edit_pos e) b (rep_world rp))"
  obtain chunks evs where relight: "relight_column (new_light_engine (wo_registry w1)) ?c cs = (chunks, evs)" by fastforce
  define rp1 where "rp1 = rp\<lparr>rep_world := w1\<lparr>wo_chunks := chunks\<rparr>\<rparr>"
  have out: "(by, rp') = fold (fan_out editor) (map (delta_of (edit_pos e) b) evs) ([], rp1)"
    using assms(1-3) b relight set
    by (auto simp: apply_block_edit_def quiet_hooks_def Let_def w1_def [symmetric] rp1_def case_prod_unfold split: if_splits)
  have coord: "delta_coord (delta_of (edit_pos e) b ev) = fst ev" for ev
    by (cases ev rule: prod_cases3) (simp add: delta_of_def)
  have g: "gets rp1 editor pid c = gets rp editor pid c" for pid c by (rule gets_cong) (simp add: rp1_def)
  have fan: "deltas_to pid by = filter (\<lambda>d. gets rp1 editor pid (delta_coord d)) (map (delta_of (edit_pos e) b) evs) \<and>
      revs_of rp' pid = noted (filter (\<lambda>d. gets rp1 editor pid (delta_coord d)) (map (delta_of (edit_pos e) b) evs)) (revs_of rp1 pid) \<and>
      rep_last_sent rp' = rep_last_sent rp1 \<and> rep_world rp' = rep_world rp1 \<and> distinct (map fst by)" for pid
    using fan_outs_effect [of "([], rp1)" pid editor "map (delta_of (edit_pos e) b) evs"] assms(4) out [symmetric]
    by (simp add: rp1_def deltas_to_def)
  have ds: "deltas_to pid by = map (delta_of (edit_pos e) b) (filter (\<lambda>ev. gets rp editor pid (fst ev)) evs)" for pid
    using fan [of pid] by (simp add: filter_map o_def coord g)
  show ?thesis
  proof (rule that [OF ch ch1_def, of evs])
    show "reported ((wo_chunks (rep_world rp))(?c \<mapsto> ch1)) (wo_chunks (rep_world rp')) evs"
      using relight_column_reported(1) [OF relight] fan by (simp add: cs_def rp1_def)
    show "\<exists>after rest. evs = (?c, ch_light ch1, after) # rest"
      using relight_column_reported(2) [OF relight, of ch1] by (simp add: cs_def)
    show "deltas_to pid by = map (delta_of (edit_pos e) b) (filter (\<lambda>ev. gets rp editor pid (fst ev)) evs)" for pid
      by (rule ds)
    show "revs_of rp' pid = noted (deltas_to pid by) (revs_of rp pid)" for pid
      using fan [of pid] by (simp add: rp1_def)
    show "rep_last_sent rp' = rep_last_sent rp" "distinct (map fst by)" using fan by (simp_all add: rp1_def)
  qed
qed

text \<open>
  A player whose client shows the current state of every chunk it mirrors, and who is sent deltas only
  for those, shows the edited world on every one of them.
\<close>

lemma edit_reaches:
  assumes "wire_ok env" and "quiet_hooks hooks" and "chunks_ok (wo_chunks (rep_world rp))"
    and "distinct (map fst (rep_last_sent rp))" and "client_ok cw"
    and "\<forall>c \<in> set (sent_to rp pid). client_content cw c = content (wo_chunks (rep_world rp)) c"
    and "apply_block_edit F hooks editor eye e rp = (by, res, rp')" and "eres_accepted res"
    and "delta_coord ` set (deltas_to pid by) \<subseteq> set (sent_to rp pid)"
    and "sorted (sent_to rp pid)" and "distinct (sent_to rp pid)"
  shows "\<exists>cw'. receive env (frames_to pid (edit_frames (ce_lz4 env) by)) cw = Some cw' \<and> client_ok cw' \<and>
    (\<forall>c \<in> set (sent_to rp' pid). client_content cw' c = content (wo_chunks (rep_world rp')) c)"
proof -
  let ?p = "edit_pos e" and ?cs = "wo_chunks (rep_world rp)" and ?cs' = "wo_chunks (rep_world rp')"
  obtain b ch ch1 evs where r: "?cs (chunk_of ?p) = Some ch" "ch1 = snd (chunk_set (va_index (address_of ?p)) b ch)"
    "reported (?cs(chunk_of ?p \<mapsto> ch1)) ?cs' evs"
    "\<exists>after rest. evs = (chunk_of ?p, ch_light ch1, after) # rest"
    "deltas_to pid by = map (delta_of ?p b) (filter (\<lambda>ev. gets rp editor pid (fst ev)) evs)"
    "rep_last_sent rp' = rep_last_sent rp" "distinct (map fst by)"
    using accepted_edit [OF assms(2, 7, 8, 4)] by metis
  let ?mine = "filter (\<lambda>ev. gets rp editor pid (fst ev)) evs"
  have inv: "chunk_inv ch" using assms(3) r(1) by (simp add: chunks_ok_def)
  have ch1: "chunk_inv ch1" "ch_light ch1 = ch_light ch" "voxels (ch_blocks ch1) = (voxels (ch_blocks ch))[va_index (address_of ?p) := b]"
    using chunk.put_inv [OF inv] inv by (simp_all add: r(2) chunk_set_simps voxels_set chunk_inv_def)
  have coords: "fst ev \<in> set (sent_to rp pid)" if "ev \<in> set ?mine" for ev
  proof -
    have "delta_coord (delta_of ?p b ev) = fst ev" by (cases ev rule: prod_cases3) (simp add: delta_of_def)
    with assms(9) that show ?thesis by (force simp: r(5))
  qed
  have each: "\<exists>old bs. client_content cw c = Some (bs, ch_light old) \<and> before = ch_light old \<and>
      length (ch_light old) = kChunkVolume \<and> relit_from old after \<and>
      voxels (ch_blocks after) = (if c = chunk_of ?p then bs[va_index (address_of ?p) := b] else bs)"
    if ev: "(c, before, after) \<in> set ?mine" for c before after
  proof -
    have "(c, before, after) \<in> set evs" using ev by simp
    from reportedD [OF r(3) this] obtain old where old: "(?cs(chunk_of ?p \<mapsto> ch1)) c = Some old" "before = ch_light old"
      "relit_from old after" by blast
    have show_c: "client_content cw c = content ?cs c" using assms(6) coords [OF ev] by simp
    show ?thesis
    proof (cases "c = chunk_of ?p")
      case True
      then have "old = ch1" using old(1) by simp
      with True show ?thesis using old(2, 3) show_c r(1) ch1
        by (intro exI [of _ old] exI [of _ "voxels (ch_blocks ch)"]) (simp add: content_def cont_def chunk_inv_def relit_from_def)
    next
      case False
      then have c: "?cs c = Some old" using old(1) by simp
      then have "chunk_inv old" using assms(3) by (simp add: chunks_ok_def)
      with False c show ?thesis using old(2, 3) show_c
        by (intro exI [of _ old] exI [of _ "voxels (ch_blocks old)"]) (simp add: content_def cont_def chunk_inv_def relit_from_def)
    qed
  qed
  have "distinct (map fst ?mine)" using r(3) by (simp add: reported_def distinct_map_filter)
  then obtain cw' where cw': "receive env (map (delta_frame (ce_lz4 env)) (map (delta_of ?p b) ?mine)) cw = Some cw'" "client_ok cw'"
    "client_content cw' = (\<lambda>c. case map_of ?mine c of None \<Rightarrow> client_content cw c | Some (_, after) \<Rightarrow> Some (cont after))"
    using receive_deltas [OF assms(1) _ assms(5), of ?mine ?p b] each by blast
  have "client_content cw' c = content ?cs' c" if c: "c \<in> set (sent_to rp pid)" for c
  proof (cases "c \<in> fst ` set evs")
    case True
    then obtain before after where ev: "(c, before, after) \<in> set evs" by force
    have "gets rp editor pid c"
      using c assms(10) by (auto simp: gets_def player_has_chunk_def sent_to_def binary_search_member split: option.splits)
    with ev have "(c, before, after) \<in> set ?mine" by simp
    with \<open>distinct (map fst ?mine)\<close> have "map_of ?mine c = Some (before, after)" by simp
    with reportedD [OF r(3) ev] show ?thesis by (auto simp: cw'(3) content_def)
  next
    case False
    then have "c \<noteq> chunk_of ?p" "map_of ?mine c = None" "?cs' c = (?cs(chunk_of ?p \<mapsto> ch1)) c"
      using r(3, 4) by (force simp: reported_def map_of_eq_None_iff)+
    with assms(6) c show ?thesis by (simp add: cw'(3) content_def)
  qed
  moreover have "sent_to rp' pid = sent_to rp pid" by (simp add: sent_to_def r(6))
  ultimately show ?thesis using cw'(1, 2) frames_to_edit [OF r(7)] by (simp add: r(5))
qed

section \<open>A chunk whose delta comes first\<close>

text \<open>A chunk recorded at its current revision is not sent, whatever the client has.\<close>

lemma stale_tick:
  assumes "wire_ok env" and "chunks_ok (wo_chunks w)" and "client_ok cw"
    and "sorted view" and "distinct view" and "sorted sent" and "distinct sent"
    and "player_view (ce_lz4 env) w budget view sent revs = (frames, visible, revs')"
    and "wo_chunks w c = Some ch" and "revs c = Some (ch_revision ch)" and "c \<in> set view" and "client_content cw c = None"
  shows "\<exists>cw'. receive env frames cw = Some cw' \<and> client_ok cw' \<and> visible = filter (has_chunk w) view \<and>
    revs' c = Some (ch_revision ch) \<and> client_content cw' c = None"
proof -
  obtain S cw' where r: "receive env frames cw = Some cw'" "client_ok cw'" "visible = filter (has_chunk w) view"
    "set S \<subseteq> set (filter (pending w revs) visible)"
    "client_content cw' = (\<lambda>c. if c \<in> set sent - set visible then None
      else if c \<in> set S then content (wo_chunks w) c else client_content cw c)"
    "revs' = (\<lambda>c. if c \<in> set sent - set visible then None else record_sent w (set S) revs c)"
    using player_view_spec [OF assms(1-8)] by blast
  have "c \<in> set visible" using assms(9, 11) by (simp add: r(3) has_chunk_def)
  moreover have "c \<notin> set S" using r(4) assms(9, 10) by (auto simp: pending_def)
  ultimately have "revs' c = Some (ch_revision ch)" "client_content cw' c = None"
    using assms(10, 12) by (simp_all add: r(5, 6) record_sent_def)
  with r(1-3) show ?thesis by blast
qed

lemma stale_ticks:
  assumes "wire_ok env" and "chunks_ok (wo_chunks w)" and "sorted view" and "distinct view"
    and "wo_chunks w c = Some ch" and "c \<in> set view"
    and "client_ok cw" and "sorted sent" and "distinct sent" and "revs c = Some (ch_revision ch)" and "client_content cw c = None"
  shows "\<exists>sent' revs' cw'. view_ticks env w budget view n (sent, revs, cw) = Some (sent', revs', cw') \<and> client_content cw' c = None"
  using assms(7-11)
proof (induction n arbitrary: sent revs cw)
  case (Suc n)
  obtain frames visible revs' where pv: "player_view (ce_lz4 env) w budget view sent revs = (frames, visible, revs')"
    using prod_cases3 by blast
  obtain cw' where cw': "receive env frames cw = Some cw'" "client_ok cw'" "visible = filter (has_chunk w) view"
    "revs' c = Some (ch_revision ch)" "client_content cw' c = None"
    using stale_tick [OF assms(1, 2) Suc.prems(1) assms(3, 4) Suc.prems(2, 3) pv assms(5) Suc.prems(4) assms(6) Suc.prems(5)]
    by blast
  have "sorted visible" "distinct visible" using assms(3, 4) cw'(3) by (simp_all add: sorted_wrt_filter)
  from Suc.IH [of cw' visible revs', OF cw'(2) this cw'(4, 5)] show ?case by (simp add: pv cw'(1))
qed simp

text \<open>The deltas a client cannot apply leave it as it is.\<close>

lemma receive_missing:
  assumes "wire_ok env" and "client_ok cw" and "client_content cw c = None"
    and "\<forall>m \<in> set ms. valid_S2CChunkDelta m"
  shows "\<exists>cw'. receive env (map (delta_frame (ce_lz4 env)) ms) cw = Some cw' \<and> client_ok cw' \<and> client_content cw' c = None"
  using assms(2-4)
proof (induction ms arbitrary: cw)
  case (Cons m ms)
  have valid: "valid_S2CChunkDelta m" using Cons.prems(3) by simp
  have "client_content (on_chunk_delta m cw) c = None"
    using Cons.prems(2) unfolding on_chunk_delta_content(1) [OF valid Cons.prems(1)]
    by (cases "client_content cw (delta_coord m)") (auto simp del: content_None)
  with Cons.IH [OF on_chunk_delta_content(2) [OF valid Cons.prems(1)]] Cons.prems(3)
  show ?case by (simp add: receive_delta [OF assms(1) valid] del: receive.simps(2))
qed simp

text \<open>
  The send budget put a chunk off, so the client does not have it; then somebody edits the chunk. The
  delta is lost on the client, but the replicator has recorded the chunk as sent: no later tick sends it.
\<close>

lemma noted_last: "distinct (map delta_coord ds) \<Longrightarrow> d \<in> set ds \<Longrightarrow> noted ds revs (delta_coord d) = Some (delta_new_revision d)"
proof (induction ds arbitrary: revs)
  case (Cons d' ds)
  have keep: "c \<notin> delta_coord ` set ds \<Longrightarrow> noted ds revs c = revs c" for revs c
    by (induction ds arbitrary: revs) (simp_all add: noted_def)
  show ?case
  proof (cases "d = d'")
    case True
    with Cons.prems keep show ?thesis by (simp add: noted_def)
  next
    case False
    with Cons show ?thesis by (simp add: noted_def)
  qed
qed simp

lemma edited_before_sent:
  assumes "wire_ok env" and "quiet_hooks hooks" and "chunks_ok (wo_chunks (rep_world rp))"
    and "distinct (map fst (rep_last_sent rp))" and "sorted (sent_to rp pid)" and "distinct (sent_to rp pid)" and "client_ok cw"
    and "chunk_of (edit_pos e) \<in> set (sent_to rp pid)" and "client_content cw (chunk_of (edit_pos e)) = None"
    and "apply_block_edit F hooks editor eye e rp = (by, res, rp')" and "eres_accepted res"
    and "sorted view" and "distinct view" and "chunk_of (edit_pos e) \<in> set view"
  shows "\<exists>cw1 sent' revs' cw'. receive env (frames_to pid (edit_frames (ce_lz4 env) by)) cw = Some cw1 \<and>
    view_ticks env (rep_world rp') budget view n (sent_to rp' pid, revs_of rp' pid, cw1) = Some (sent', revs', cw') \<and>
    has_chunk (rep_world rp') (chunk_of (edit_pos e)) \<and> client_content cw' (chunk_of (edit_pos e)) = None"
proof -
  let ?p = "edit_pos e" and ?c = "chunk_of (edit_pos e)" and ?cs = "wo_chunks (rep_world rp)" and ?cs' = "wo_chunks (rep_world rp')"
  obtain b ch ch1 evs where r: "?cs ?c = Some ch" "ch1 = snd (chunk_set (va_index (address_of ?p)) b ch)"
    "reported (?cs(?c \<mapsto> ch1)) ?cs' evs" "\<exists>after rest. evs = (?c, ch_light ch1, after) # rest"
    "deltas_to pid by = map (delta_of ?p b) (filter (\<lambda>ev. gets rp editor pid (fst ev)) evs)"
    "revs_of rp' pid = noted (deltas_to pid by) (revs_of rp pid)"
    "rep_last_sent rp' = rep_last_sent rp" "distinct (map fst by)"
    using accepted_edit [OF assms(2, 10, 11, 4)] by metis
  obtain after where ev: "(?c, ch_light ch1, after) \<in> set evs" using r(4) by (metis list.set_intros(1))
  have gets: "gets rp editor pid ?c"
    using assms(5, 8) by (auto simp: gets_def player_has_chunk_def sent_to_def binary_search_member split: option.splits)
  have after: "?cs' ?c = Some after" using reportedD [OF r(3) ev] by blast
  have coord: "delta_coord \<circ> delta_of ?p b = fst" by (auto simp: delta_of_def)
  let ?d = "delta_of ?p b (?c, ch_light ch1, after)"
  have "?d \<in> set (deltas_to pid by)" using ev gets by (auto simp: r(5))
  moreover have "distinct (map delta_coord (deltas_to pid by))"
    using r(3) by (simp add: r(5) coord reported_def distinct_map_filter)
  ultimately have "noted (deltas_to pid by) (revs_of rp pid) (delta_coord ?d) = Some (delta_new_revision ?d)"
    by (rule noted_last [rotated])
  then have rev: "revs_of rp' pid ?c = Some (ch_revision after)" by (simp add: r(6) delta_of_def)
  have "\<forall>m \<in> set (deltas_to pid by). valid_S2CChunkDelta m"
    unfolding r(5) using delta_of_valid by (auto simp: split_paired_all)
  then obtain cw1 where cw1: "receive env (frames_to pid (edit_frames (ce_lz4 env) by)) cw = Some cw1" "client_ok cw1"
    "client_content cw1 ?c = None"
    using receive_missing [OF assms(1, 7, 9)] unfolding frames_to_edit [OF r(8)] by blast
  have "chunks_ok (?cs(?c \<mapsto> ch1))"
    using assms(3) r(1) chunk.put_inv by (auto simp: r(2) chunks_ok_def)
  then have ok': "chunks_ok ?cs'" by (rule reported_ok [OF r(3)])
  have sent: "sent_to rp' pid = sent_to rp pid" by (simp add: sent_to_def r(7))
  obtain sent' revs' cw' where "view_ticks env (rep_world rp') budget view n (sent_to rp pid, revs_of rp' pid, cw1) = Some (sent', revs', cw')"
    "client_content cw' ?c = None"
    using stale_ticks [OF assms(1) ok' assms(12, 13) after assms(14) cw1(2) assms(5, 6), of "revs_of rp' pid"] rev cw1(3) by blast
  with cw1(1) after show ?thesis unfolding sent has_chunk_def by blast
qed

section \<open>The tick of all players\<close>

lemma update_distinct_frames:
  "frames_to q (if fs = [] then [] else [\<lparr>pf_id = pid, pf_frames = fs\<rparr>]) = (if q = pid then fs else [])"
  by (simp add: frames_to_def)

lemma tick_player_effect:
  assumes "tick_player lz (pid, view) rp = (out, rp')"
    and "player_view lz (rep_world rp) (rep_send_budget_bytes rp) view (sent_to rp pid) (revs_of rp pid) = (fs, visible, revs)"
  shows "frames_to q out = (if q = pid then fs else [])"
    and "sent_to rp' q = (if q = pid then visible else sent_to rp q)"
    and "revs_of rp' q = (if q = pid then revs else revs_of rp q)"
    and "rep_world rp' = rep_world rp" and "rep_send_budget_bytes rp' = rep_send_budget_bytes rp"
proof -
  have out: "out = (if fs = [] then [] else [\<lparr>pf_id = pid, pf_frames = fs\<rparr>])" and rp': "rp' = set_sent pid visible (set_revs pid revs rp)"
    using assms by (simp_all add: tick_player_def)
  show "frames_to q out = (if q = pid then fs else [])" unfolding out by (rule update_distinct_frames)
  show "sent_to rp' q = (if q = pid then visible else sent_to rp q)"
    by (simp add: rp' sent_to_def set_sent_def set_revs_def update_conv)
  show "revs_of rp' q = (if q = pid then revs else revs_of rp q)" "rep_world rp' = rep_world rp"
    "rep_send_budget_bytes rp' = rep_send_budget_bytes rp"
    by (simp_all add: rp' set_sent_def set_revs_def)
qed

lemma frames_to_append [simp]: "frames_to q (a @ b) = frames_to q a @ frames_to q b"
  by (simp add: frames_to_def)

lemma tick_players_effect:
  assumes "tick_players lz ps rp = (out, rp')" and "distinct (map fst ps)"
  shows "rep_world rp' = rep_world rp"
    and "q \<notin> fst ` set ps \<Longrightarrow> frames_to q out = [] \<and> sent_to rp' q = sent_to rp q \<and> revs_of rp' q = revs_of rp q"
    and "(q, view) \<in> set ps \<Longrightarrow> player_view lz (rep_world rp) (rep_send_budget_bytes rp) view (sent_to rp q) (revs_of rp q) =
      (frames_to q out, sent_to rp' q, revs_of rp' q)"
proof -
  have "rep_world rp' = rep_world rp \<and>
    (q \<notin> fst ` set ps \<longrightarrow> frames_to q out = [] \<and> sent_to rp' q = sent_to rp q \<and> revs_of rp' q = revs_of rp q) \<and>
    ((q, view) \<in> set ps \<longrightarrow> player_view lz (rep_world rp) (rep_send_budget_bytes rp) view (sent_to rp q) (revs_of rp q) =
      (frames_to q out, sent_to rp' q, revs_of rp' q))"
    using assms
  proof (induction ps arbitrary: rp out)
    case (Cons p ps)
    obtain pid v where p: "p = (pid, v)" by fastforce
    obtain fs vis revs where pv: "player_view lz (rep_world rp) (rep_send_budget_bytes rp) v (sent_to rp pid) (revs_of rp pid) = (fs, vis, revs)"
      using prod_cases3 by blast
    obtain out1 rp1 where t1: "tick_player lz (pid, v) rp = (out1, rp1)" by fastforce
    obtain out2 rp2 where t2: "tick_players lz ps rp1 = (out2, rp2)" by fastforce
    have out: "out = out1 @ out2" "rp' = rp2" using Cons.prems(1) by (simp_all add: p t1 t2)
    have new: "pid \<notin> fst ` set ps" and dist: "distinct (map fst ps)" using Cons.prems(2) by (simp_all add: p)
    note one = tick_player_effect [OF t1 pv]
    have t2': "tick_players lz ps rp1 = (out2, rp')" using t2 out(2) by simp
    note IH = Cons.IH [OF t2' dist, unfolded one(4, 5)]
    show ?case
    proof (cases "q = pid")
      case True
      with IH new have "frames_to q out2 = []" "sent_to rp' q = sent_to rp1 q" "revs_of rp' q = revs_of rp1 q" by blast+
      moreover have "(pid, view) \<notin> set ps" using new by force
      ultimately show ?thesis using True IH pv by (simp add: out(1) one(1-3) p)
    next
      case False
      with IH show ?thesis by (simp add: out(1) one(1-3) p)
    qed
  qed (simp add: frames_to_def)
  then show "rep_world rp' = rep_world rp"
    and "q \<notin> fst ` set ps \<Longrightarrow> frames_to q out = [] \<and> sent_to rp' q = sent_to rp q \<and> revs_of rp' q = revs_of rp q"
    and "(q, view) \<in> set ps \<Longrightarrow> player_view lz (rep_world rp) (rep_send_budget_bytes rp) view (sent_to rp q) (revs_of rp q) =
      (frames_to q out, sent_to rp' q, revs_of rp' q)" by blast+
qed

abbreviation view_of :: "float_ops \<Rightarrow> replicator \<Rightarrow> vec3d \<Rightarrow> chunk_coord list" where
  "view_of F rp pos \<equiv> chunks_in_view (chunk_of_pos F pos) (rep_view_distance rp) (rep_vertical_view rp)"

lemma replicator_tick_views:
  assumes "replicator_tick F lz late order players rp = Some (out, rp')" and "distinct (map fst players)"
    and "(pid, pos) \<in> set players"
  shows "player_view lz (rep_world rp') (rep_send_budget_bytes rp) (view_of F rp pos) (sent_to rp pid) (revs_of rp pid) =
    (frames_to pid out, sent_to rp' pid, revs_of rp' pid)"
proof -
  define views where "views = map (\<lambda>(pid, pos). (pid, view_of F rp pos)) players"
  obtain life w p where u: "tick_players lz views (rp\<lparr>rep_lifecycle := life, rep_world := w, rep_pool := p\<rparr>) = (out, rp')"
    using assms(1) by (auto simp: replicator_tick_def Let_def views_def split: option.splits)
  have "map fst views = map fst players" by (auto simp: views_def)
  then have dist: "distinct (map fst views)" using assms(2) by simp
  have mem: "(pid, view_of F rp pos) \<in> set views" using assms(3) by (force simp: views_def)
  from tick_players_effect(1) [OF u dist] tick_players_effect(3) [OF u dist mem]
  show ?thesis by (simp add: sent_to_def)
qed

section \<open>What is accepted, and which chunks are told of\<close>

lemma accepted_iff:
  "eres_accepted (fst (snd (apply_block_edit F hooks editor eye e rp))) \<longleftrightarrow>
    (case edit_target F (rep_reach rp) eye e (rep_world rp) of
       None \<Rightarrow> False
     | Some b \<Rightarrow> beh_before_edit hooks (beh_state hooks) editor (edit_pos e) (get_block (rep_world rp) (edit_pos e)) b
         (edit_action e = kBreak))"
  by (simp add: apply_block_edit_def Let_def case_prod_unfold split: option.split)

lemma deltas_loaded:
  assumes "quiet_hooks hooks" and "apply_block_edit F hooks editor eye e rp = (by, res, rp')" and "eres_accepted res"
    and "distinct (map fst (rep_last_sent rp))"
  shows "delta_coord ` set (deltas_to pid by) \<subseteq> dom (wo_chunks (rep_world rp))"
proof -
  obtain b ch ch1 evs where r: "wo_chunks (rep_world rp) (chunk_of (edit_pos e)) = Some ch"
    "reported ((wo_chunks (rep_world rp))(chunk_of (edit_pos e) \<mapsto> ch1)) (wo_chunks (rep_world rp')) evs"
    "deltas_to pid by = map (delta_of (edit_pos e) b) (filter (\<lambda>ev. gets rp editor pid (fst ev)) evs)"
    using accepted_edit [OF assms] by metis
  have "delta_coord (delta_of (edit_pos e) b ev) \<in> dom (wo_chunks (rep_world rp))" if "ev \<in> set evs" for ev
  proof -
    obtain c before after where ev: "ev = (c, before, after)" using prod_cases3 by blast
    from reportedD [OF r(2)] that obtain old where "((wo_chunks (rep_world rp))(chunk_of (edit_pos e) \<mapsto> ch1)) c = Some old"
      unfolding ev by blast
    with r(1) show ?thesis by (auto simp: ev delta_of_def split: if_splits)
  qed
  then show ?thesis by (auto simp: r(3))
qed

end
