(* ===== verification/Replication_Examples.thy ===== *)
theory Replication_Examples
  imports Edit_Replication
begin

text \<open>
  A small server and client to apply the replication theorems to: one chunk of stone at the origin,
  one player near it, who has been sent nothing, or everything.
\<close>

lemma tick_world_ok:
  assumes "replicator_tick F lz late order players rp = Some (out, rp')" and "distinct (map fst players)"
    and "state_ok (at_start (rep_lifecycle rp, rep_world rp, rep_pool rp))"
  shows "chunks_ok (wo_chunks (rep_world rp'))"
proof -
  define views where "views = map (\<lambda>(pid, pos). (pid, view_of F rp pos)) players"
  obtain desired life w p where u: "update_world late order desired (rep_lifecycle rp, rep_world rp, rep_pool rp) = Some (life, w, p)"
    "tick_players lz views (rp\<lparr>rep_lifecycle := life, rep_world := w, rep_pool := p\<rparr>) = (out, rp')"
    using assms(1) by (auto simp: replicator_tick_def Let_def views_def split: option.splits)
  have "map fst views = map fst players" by (auto simp: views_def)
  then have "rep_world rp' = w" using tick_players_effect(1) [OF u(2)] assms(2) by simp
  moreover have "state_ok (at_start (life, w, p))" using keepsD [OF update_keeps [OF u(1)] assms(3)] by blast
  then have "world_ok w" by (simp add: state_ok_def at_start_def)
  ultimately show ?thesis by (simp add: chunks_ok_def world_ok_def)
qed

definition origin_chunk :: chunk_coord where
  "origin_chunk = \<lparr>cc_x = 0, cc_y = 0, cc_z = 0\<rparr>"

definition origin_voxel :: ivec3 where
  "origin_voxel = \<lparr>iv_x = 0, iv_y = 0, iv_z = 0\<rparr>"

definition stone_chunk :: chunk where
  "stone_chunk = (new_chunk origin_chunk)\<lparr>ch_blocks := ps_fill 1 (ch_blocks (new_chunk origin_chunk))\<rparr>"

definition stone_world :: world where
  "stone_world = \<lparr>wo_registry = base_registry, wo_chunks = [origin_chunk \<mapsto> stone_chunk]\<rparr>"

definition idle_pool :: worker_pool where
  "idle_pool = \<lparr>wp_generate = (\<lambda>c. c), wp_synchronous = False, wp_queue = [], wp_in_flight = [], wp_completed = []\<rparr>"

definition stone_server :: replicator where
  "stone_server = new_replicator stone_world idle_pool base_registry 1 1"

definition break_origin :: c2s_block_edit where
  "break_origin = \<lparr>edit_predicted_seq = 1, edit_action = kBreak, edit_pos = origin_voxel, edit_block = 0\<rparr>"

definition no_hooks :: "unit block_edit_hooks" where
  "no_hooks = \<lparr>beh_before_edit = (\<lambda>_ _ _ _ _ _. True), beh_after_edit = (\<lambda>_ _ _ _ _ _ w. w), beh_state = ()\<rparr>"

definition plain_env :: client_env where
  "plain_env = \<lparr>ce_floats = integer_ops, ce_lz4 = None, ce_server_info = None, ce_round_trip = None\<rparr>"

definition stone_client :: client_world where
  "stone_client = new_client_world\<lparr>cw_chunks := \<lparr>cst_registry = base_registry, cst_chunks = [origin_chunk \<mapsto> stone_chunk]\<rparr>\<rparr>"

lemma stone_inv: "chunk_inv stone_chunk" "ch_coord stone_chunk = origin_chunk"
  using new_chunk_inv [of origin_chunk] by (simp_all add: stone_chunk_def chunk_inv_def fill_ok) (simp add: new_chunk_def)

lemma stone_world_ok: "chunks_ok (wo_chunks stone_world)" "world_ok stone_world"
  using stone_inv by (simp_all add: stone_world_def chunks_ok_def world_ok_def)

lemma stone_start: "state_ok (at_start (rep_lifecycle stone_server, rep_world stone_server, rep_pool stone_server))"
proof -
  have "streaming_ok (new_lifecycle base_registry, stone_world, idle_pool)"
    by (rule fresh_streaming_ok) (simp_all add: stone_world_ok gen_ok_id idle_pool_def, simp add: stone_world_def)
  then show ?thesis by (simp add: streaming_ok_def stone_server_def new_replicator_def)
qed

lemma plain_wire: "wire_ok plain_env"
  by (simp add: wire_ok_def plain_env_def)

lemma fresh_client: "client_ok new_client_world" "client_content new_client_world = Map.empty"
  by (auto simp: new_client_world_def chunks_ok_def content_def)

lemma stone_client_ok: "client_ok stone_client" "client_content stone_client = content (wo_chunks stone_world)"
  using stone_inv by (simp_all add: stone_client_def chunks_ok_def stone_world_def)

lemma quiet: "quiet_hooks no_hooks"
  by (simp add: quiet_hooks_def no_hooks_def)

lemma chunk_of_origin: "chunk_of origin_voxel = origin_chunk"
  by (simp add: chunk_of_def floor_div_def kChunkDim_def origin_voxel_def origin_chunk_def)

lemma origin_is_stone: "get_block stone_world origin_voxel = 1"
  by (simp add: get_block_def find_chunk_def stone_world_def chunk_of_origin chunk_get_def stone_chunk_def fill_ok)

lemma origin_accepted:
  "eres_accepted (fst (snd (apply_block_edit integer_ops no_hooks 1 (voxel_centre integer_ops origin_voxel) break_origin
     (stone_server\<lparr>rep_last_sent := sent, rep_last_sent_revision := revs\<rparr>))))"
proof -
  have "edit_target integer_ops (rep_reach stone_server) (voxel_centre integer_ops origin_voxel) break_origin stone_world = Some kAir"
    using origin_is_stone chunk_of_origin
    by (simp add: edit_target_def break_origin_def Let_def has_chunk_def stone_world_def kAir_def
        vd_length_def vd_sub_def vd_dot_def integer_ops_def stone_server_def new_replicator_def)
  then show ?thesis by (simp add: accepted_iff no_hooks_def stone_server_def new_replicator_def)
qed

end
