(* ===== verification/Raycast.thy ===== *)
theory Raycast
  imports Float_Math
begin

text \<open>
  \<open>world/raycast.hpp\<close> and \<open>.cpp\<close>: the walk of a ray through the voxel grid, over any arithmetic. The
  walk takes at most 512 steps, which is the program's own bound. It reports the first solid voxel of
  the voxels it crosses, and these are face neighbours one of the other.
\<close>

record voxel_ray_hit =
  vrh_hit :: bool
  vrh_voxel :: ivec3
  vrh_normal :: ivec3

definition no_hit :: voxel_ray_hit where
  "no_hit = \<lparr>vrh_hit = False, vrh_voxel = \<lparr>iv_x = 0, iv_y = 0, iv_z = 0\<rparr>, vrh_normal = \<lparr>iv_x = 0, iv_y = 0, iv_z = 0\<rparr>\<rparr>"

record ray_state =
  rs_voxel :: ivec3
  rs_normal :: ivec3
  rs_t :: f64
  rs_t_max :: vec3d

definition step_of :: "float_ops \<Rightarrow> f64 \<Rightarrow> i32" where
  "step_of F v = (if fo_lt F f_zero v then 1 else if fo_lt F v f_zero then -1 else 0)"

definition t_first :: "float_ops \<Rightarrow> f64 \<Rightarrow> f64 \<Rightarrow> i32 \<Rightarrow> f64" where
  "t_first F o' d s = (if s = 0 then f_inf
     else fo_div F (if sint s > 0 then fo_sub F (fo_add F (fo_floor F o') f_one) o' else fo_sub F o' (fo_floor F o')) (fo_abs F d))"

definition t_delta :: "float_ops \<Rightarrow> f64 \<Rightarrow> f64" where
  "t_delta F d = (if step_of F d = 0 then f_inf else fo_div F f_one (fo_abs F d))"

text \<open>One crossing: into the next voxel along the axis whose boundary is nearest.\<close>

definition ray_step :: "float_ops \<Rightarrow> vec3d \<Rightarrow> ray_state \<Rightarrow> ray_state" where
  "ray_step F dir r = (
     let v = rs_voxel r; m = rs_t_max r;
         sx = step_of F (vd_x dir); sy = step_of F (vd_y dir); sz = step_of F (vd_z dir) in
     if fo_lt F (vd_x m) (vd_y m) \<and> fo_lt F (vd_x m) (vd_z m)
     then \<lparr>rs_voxel = v\<lparr>iv_x := iv_x v + sx\<rparr>, rs_normal = \<lparr>iv_x = - sx, iv_y = 0, iv_z = 0\<rparr>,
           rs_t = vd_x m, rs_t_max = m\<lparr>vd_x := fo_add F (vd_x m) (t_delta F (vd_x dir))\<rparr>\<rparr>
     else if fo_lt F (vd_y m) (vd_z m)
     then \<lparr>rs_voxel = v\<lparr>iv_y := iv_y v + sy\<rparr>, rs_normal = \<lparr>iv_x = 0, iv_y = - sy, iv_z = 0\<rparr>,
           rs_t = vd_y m, rs_t_max = m\<lparr>vd_y := fo_add F (vd_y m) (t_delta F (vd_y dir))\<rparr>\<rparr>
     else \<lparr>rs_voxel = v\<lparr>iv_z := iv_z v + sz\<rparr>, rs_normal = \<lparr>iv_x = 0, iv_y = 0, iv_z = - sz\<rparr>,
           rs_t = vd_z m, rs_t_max = m\<lparr>vd_z := fo_add F (vd_z m) (t_delta F (vd_z dir))\<rparr>\<rparr>)"

primrec ray_walk :: "float_ops \<Rightarrow> (ivec3 \<Rightarrow> bool) \<Rightarrow> vec3d \<Rightarrow> f64 \<Rightarrow> nat \<Rightarrow> ray_state \<Rightarrow> voxel_ray_hit" where
  "ray_walk F solid dir max_dist 0 r = no_hit"
| "ray_walk F solid dir max_dist (Suc k) r = (
     if \<not> fo_le F (rs_t r) max_dist then no_hit
     else if solid (rs_voxel r) then \<lparr>vrh_hit = True, vrh_voxel = rs_voxel r, vrh_normal = rs_normal r\<rparr>
     else ray_walk F solid dir max_dist k (ray_step F dir r))"

definition ray_start :: "float_ops \<Rightarrow> vec3d \<Rightarrow> vec3d \<Rightarrow> ray_state" where
  "ray_start F origin dir = \<lparr>rs_voxel = voxel_of F origin, rs_normal = \<lparr>iv_x = 0, iv_y = 0, iv_z = 0\<rparr>, rs_t = f_zero,
     rs_t_max = \<lparr>vd_x = t_first F (vd_x origin) (vd_x dir) (step_of F (vd_x dir)),
                 vd_y = t_first F (vd_y origin) (vd_y dir) (step_of F (vd_y dir)),
                 vd_z = t_first F (vd_z origin) (vd_z dir) (step_of F (vd_z dir))\<rparr>\<rparr>"

definition raycast_voxel :: "float_ops \<Rightarrow> (ivec3 \<Rightarrow> bool) \<Rightarrow> vec3d \<Rightarrow> vec3d \<Rightarrow> f64 \<Rightarrow> voxel_ray_hit" where
  "raycast_voxel F solid origin dir max_dist = ray_walk F solid dir max_dist 512 (ray_start F origin dir)"

section \<open>What the walk reports\<close>

text \<open>The states of the walk while the distance lasts.\<close>

primrec ray_states :: "float_ops \<Rightarrow> vec3d \<Rightarrow> f64 \<Rightarrow> nat \<Rightarrow> ray_state \<Rightarrow> ray_state list" where
  "ray_states F dir max_dist 0 r = []"
| "ray_states F dir max_dist (Suc k) r =
     (if fo_le F (rs_t r) max_dist then r # ray_states F dir max_dist k (ray_step F dir r) else [])"

lemma ray_walk_first:
  "ray_walk F solid dir max_dist k r = (case find (\<lambda>s. solid (rs_voxel s)) (ray_states F dir max_dist k r) of
     None \<Rightarrow> no_hit | Some s \<Rightarrow> \<lparr>vrh_hit = True, vrh_voxel = rs_voxel s, vrh_normal = rs_normal s\<rparr>)"
  by (induction k arbitrary: r) simp_all

definition face_neighbour :: "ivec3 \<Rightarrow> ivec3 \<Rightarrow> ivec3 \<Rightarrow> bool" where
  "face_neighbour n v w \<longleftrightarrow> v = \<lparr>iv_x = iv_x w + iv_x n, iv_y = iv_y w + iv_y n, iv_z = iv_z w + iv_z n\<rparr> \<and>
     n \<in> {\<lparr>iv_x = a, iv_y = b, iv_z = c\<rparr> | a b c. (a, b, c) \<in> {(1, 0, 0), (-1, 0, 0), (0, 1, 0), (0, -1, 0), (0, 0, 1), (0, 0, -1), (0, 0, 0)}}"

lemma step_of_values: "step_of F v \<in> {1, -1, 0}"
  by (simp add: step_of_def)

text \<open>A step goes to the voxel on the other side of the face whose normal it reports.\<close>

lemma ray_step_neighbour: "face_neighbour (rs_normal (ray_step F dir r)) (rs_voxel r) (rs_voxel (ray_step F dir r))"
  using step_of_values [of F "vd_x dir"] step_of_values [of F "vd_y dir"] step_of_values [of F "vd_z dir"]
  by (auto simp: ray_step_def face_neighbour_def Let_def)

lemma ray_states_start: "ray_states F dir max_dist k r = [] \<or> hd (ray_states F dir max_dist k r) = r"
  by (cases k) simp_all

lemma ray_states_adjacent:
  "successively (\<lambda>r s. face_neighbour (rs_normal s) (rs_voxel r) (rs_voxel s)) (ray_states F dir max_dist k r)"
proof (induction k arbitrary: r)
  case (Suc k)
  then show ?case
    using ray_states_start [of F dir max_dist k "ray_step F dir r"]
    by (auto simp: ray_step_neighbour successively_Cons)
qed simp

lemma ray_states_length: "length (ray_states F dir max_dist k r) \<le> k"
  by (induction k arbitrary: r) simp_all

lemma ray_states_near: "s \<in> set (ray_states F dir max_dist k r) \<Longrightarrow> fo_le F (rs_t s) max_dist"
  by (induction k arbitrary: r) (auto split: if_splits)

text \<open>
  The path of a cast: at most 512 voxels, the first one the origin's, each the neighbour of the one
  before across the face with the reported normal. What is hit is the first solid one.
\<close>

lemma raycast_spec:
  fixes F solid origin dir max_dist
  defines "path \<equiv> ray_states F dir max_dist 512 (ray_start F origin dir)"
  shows "vrh_hit (raycast_voxel F solid origin dir max_dist) \<longleftrightarrow> (\<exists>s \<in> set path. solid (rs_voxel s))"
    and "vrh_hit (raycast_voxel F solid origin dir max_dist) \<Longrightarrow> \<exists>i < length path.
      vrh_voxel (raycast_voxel F solid origin dir max_dist) = rs_voxel (path ! i) \<and> solid (rs_voxel (path ! i)) \<and>
      vrh_normal (raycast_voxel F solid origin dir max_dist) = rs_normal (path ! i) \<and>
      (\<forall>j < i. \<not> solid (rs_voxel (path ! j)))"
proof -
  have w: "raycast_voxel F solid origin dir max_dist = (case find (\<lambda>s. solid (rs_voxel s)) path of
     None \<Rightarrow> no_hit | Some s \<Rightarrow> \<lparr>vrh_hit = True, vrh_voxel = rs_voxel s, vrh_normal = rs_normal s\<rparr>)"
    unfolding raycast_voxel_def path_def by (rule ray_walk_first)
  show "vrh_hit (raycast_voxel F solid origin dir max_dist) \<longleftrightarrow> (\<exists>s \<in> set path. solid (rs_voxel s))"
    by (auto simp: w no_hit_def find_None_iff find_Some_iff split: option.splits dest: nth_mem)
  assume "vrh_hit (raycast_voxel F solid origin dir max_dist)"
  then show "\<exists>i < length path. vrh_voxel (raycast_voxel F solid origin dir max_dist) = rs_voxel (path ! i) \<and>
      solid (rs_voxel (path ! i)) \<and> vrh_normal (raycast_voxel F solid origin dir max_dist) = rs_normal (path ! i) \<and>
      (\<forall>j < i. \<not> solid (rs_voxel (path ! j)))"
  proof (cases "find (\<lambda>s. solid (rs_voxel s)) path")
    case None
    then show ?thesis using \<open>vrh_hit _\<close> by (simp add: w no_hit_def)
  next
    case (Some s)
    then show ?thesis using Some [unfolded find_Some_iff] by (auto simp: w)
  qed
qed

end
