(* ===== verification/Day_Night.thy ===== *)
theory Day_Night
  imports Float_Math
begin

text \<open>
  The clock of the day and the colours of the sky, \<open>world/daynight.hpp\<close> and \<open>.cpp\<close>, over any
  arithmetic of doubles.
\<close>

definition kTicksPerDay :: u32 where "kTicksPerDay = 24000"
definition f_ticks_per_day :: f64 where "f_ticks_per_day = 0x40D7700000000000"

definition advance_time_of_day :: "float_ops \<Rightarrow> f64 \<Rightarrow> f64 \<Rightarrow> f64 \<Rightarrow> f64" where
  "advance_time_of_day F current_ticks dt_seconds day_length_seconds = (
     if fo_le F day_length_seconds f_zero then current_ticks
     else
       let per_second = fo_div F f_ticks_per_day day_length_seconds;
           next_ticks = fo_mod F (fo_add F current_ticks (fo_mul F per_second dt_seconds)) f_ticks_per_day in
       if fo_lt F next_ticks f_zero then fo_add F next_ticks f_ticks_per_day else next_ticks)"

record sky_color =
  sky_r :: u8
  sky_g :: u8
  sky_b :: u8

record day_night_keyframe =
  kf_tick :: u32
  kf_brightness :: f64
  kf_color :: sky_color

definition default_day_night_curve :: "day_night_keyframe list" where
  "default_day_night_curve =
    [\<lparr>kf_tick = 0, kf_brightness = 0x3FE199999999999A, kf_color = \<lparr>sky_r = 255, sky_g = 170, sky_b = 120\<rparr>\<rparr>,
     \<lparr>kf_tick = kTicksPerDay div 4, kf_brightness = f_one, kf_color = \<lparr>sky_r = 135, sky_g = 206, sky_b = 235\<rparr>\<rparr>,
     \<lparr>kf_tick = kTicksPerDay div 2, kf_brightness = 0x3FE199999999999A, kf_color = \<lparr>sky_r = 255, sky_g = 130, sky_b = 90\<rparr>\<rparr>,
     \<lparr>kf_tick = kTicksPerDay * 3 div 4, kf_brightness = 0x3FB47AE147AE147B, kf_color = \<lparr>sky_r = 12, sky_g = 14, sky_b = 34\<rparr>\<rparr>]"

definition lerp :: "float_ops \<Rightarrow> f64 \<Rightarrow> f64 \<Rightarrow> f64 \<Rightarrow> f64" where
  "lerp F a b t = fo_add F a (fo_mul F (fo_sub F b a) t)"

definition lerp_u8 :: "float_ops \<Rightarrow> u8 \<Rightarrow> u8 \<Rightarrow> f64 \<Rightarrow> u8" where
  "lerp_u8 F a b t = fo_to_u8 F (lerp F (fo_of_u32 F (ucast a)) (fo_of_u32 F (ucast b)) t)"

text \<open>\<open>bracket_for\<close>: the loop from keyframe \<open>i\<close> on; the keyframes around a tick and the fraction between them.\<close>

primrec bracket_loop :: "float_ops \<Rightarrow> day_night_keyframe list \<Rightarrow> u32 \<Rightarrow> nat list \<Rightarrow>
    (day_night_keyframe \<times> day_night_keyframe \<times> f64) option" where
  "bracket_loop F kf ticks [] = None"
| "bracket_loop F kf ticks (i # is) = (
     let cur = kf ! i; nxt = kf ! ((i + 1) mod length kf);
         next_tick = (if i + 1 = length kf then kTicksPerDay else kf_tick nxt) in
     if ticks \<ge> kf_tick cur \<and> ticks < next_tick
     then Some (cur, nxt, if next_tick = kf_tick cur then f_zero
       else fo_div F (fo_of_u32 F (ticks - kf_tick cur)) (fo_of_u32 F (next_tick - kf_tick cur)))
     else bracket_loop F kf ticks is)"

definition bracket_for :: "float_ops \<Rightarrow> day_night_keyframe list \<Rightarrow> u32 \<Rightarrow>
    day_night_keyframe \<times> day_night_keyframe \<times> f64" where
  "bracket_for F kf ticks = (case bracket_loop F kf (ticks mod kTicksPerDay) [0..<length kf] of
       None \<Rightarrow> (hd kf, hd kf, f_zero)
     | Some b \<Rightarrow> b)"

definition sky_brightness :: "float_ops \<Rightarrow> u32 \<Rightarrow> day_night_keyframe list \<Rightarrow> f64" where
  "sky_brightness F ticks curve = (
     let (a, b, t) = bracket_for F (if curve = [] then default_day_night_curve else curve) ticks in
     lerp F (kf_brightness a) (kf_brightness b) t)"

definition sky_color_for_time :: "float_ops \<Rightarrow> u32 \<Rightarrow> day_night_keyframe list \<Rightarrow> sky_color" where
  "sky_color_for_time F ticks curve = (
     let (a, b, t) = bracket_for F (if curve = [] then default_day_night_curve else curve) ticks in
     \<lparr>sky_r = lerp_u8 F (sky_r (kf_color a)) (sky_r (kf_color b)) t,
      sky_g = lerp_u8 F (sky_g (kf_color a)) (sky_g (kf_color b)) t,
      sky_b = lerp_u8 F (sky_b (kf_color a)) (sky_b (kf_color b)) t\<rparr>)"

section \<open>Brackets\<close>

definition next_tick :: "day_night_keyframe list \<Rightarrow> nat \<Rightarrow> u32" where
  "next_tick kf i = (if i + 1 = length kf then kTicksPerDay else kf_tick (kf ! ((i + 1) mod length kf)))"

lemma bracket_loop_miss:
  "\<not> (kf_tick (kf ! i) \<le> ticks \<and> ticks < next_tick kf i) \<Longrightarrow> bracket_loop F kf ticks (i # is) = bracket_loop F kf ticks is"
  unfolding next_tick_def bracket_loop.simps Let_def by (rule if_not_P) simp

lemma bracket_loop_hit:
  "kf_tick (kf ! i) \<le> ticks \<and> ticks < next_tick kf i \<Longrightarrow>
   \<exists>t. bracket_loop F kf ticks (i # is) = Some (kf ! i, kf ! ((i + 1) mod length kf), t)"
  unfolding next_tick_def bracket_loop.simps Let_def by simp

declare bracket_loop.simps(2) [simp del]

lemma bracket_loop_skip:
  "(\<forall>i \<in> set is. ticks < kf_tick (kf ! i)) \<Longrightarrow> bracket_loop F kf ticks is = None"
proof (induction "is")
  case (Cons i "is")
  then have "\<not> (kf_tick (kf ! i) \<le> ticks \<and> ticks < next_tick kf i)" by (simp add: not_le)
  with Cons show ?case by (simp add: bracket_loop_miss)
qed simp

text \<open>The last keyframe of a sorted curve that is not after the tick, with the one that follows it.\<close>

lemma bracket_loop_finds:
  assumes "sorted (map kf_tick kf)" and "k < length kf" and "kf_tick (kf ! k) \<le> ticks"
    and "ticks < next_tick kf k" and "m \<le> k"
  shows "\<exists>t. bracket_loop F kf ticks [m..<length kf] = Some (kf ! k, kf ! ((k + 1) mod length kf), t)"
  using assms(5)
proof (induction rule: inc_induct)
  case base
  have "[k..<length kf] = k # [Suc k..<length kf]" using assms(2) by (rule upt_conv_Cons)
  then show ?case using bracket_loop_hit assms(3, 4) by metis
next
  case (step n)
  have n: "n + 1 < length kf" using step(2) assms(2) by simp
  have "kf_tick (kf ! (n + 1)) \<le> kf_tick (kf ! k)"
    using sorted_nth_mono [OF assms(1), of "n + 1" k] step(2) assms(2) by simp
  then have "\<not> ticks < next_tick kf n" using assms(3) n by (simp add: next_tick_def)
  then have "bracket_loop F kf ticks (n # [Suc n..<length kf]) = bracket_loop F kf ticks [Suc n..<length kf]"
    by (intro bracket_loop_miss) simp
  moreover have "[n..<length kf] = n # [Suc n..<length kf]" using n by (intro upt_conv_Cons) simp
  ultimately show ?case using step(3) by simp
qed

text \<open>
  A sorted curve that starts at tick 0 brackets every time of the day; one that starts later shows its
  first keyframe all the time before it, the branch the code calls unreachable.
\<close>

lemma bracket_total:
  assumes "sorted (map kf_tick kf)" and "kf \<noteq> []" and "kf_tick (hd kf) = 0"
  obtains k t where "k < length kf" and "bracket_for F kf ticks = (kf ! k, kf ! ((k + 1) mod length kf), t)"
    and "kf_tick (kf ! k) \<le> ticks mod kTicksPerDay"
    and "ticks mod kTicksPerDay < next_tick kf k"
proof -
  let ?now = "ticks mod kTicksPerDay"
  define k where "k = Max {i. i < length kf \<and> kf_tick (kf ! i) \<le> ?now}"
  have "0 \<in> {i. i < length kf \<and> kf_tick (kf ! i) \<le> ?now}" using assms by (simp add: hd_conv_nth)
  then have "k \<in> {i. i < length kf \<and> kf_tick (kf ! i) \<le> ?now}" unfolding k_def by (intro Max_in) auto
  then have k: "k < length kf" "kf_tick (kf ! k) \<le> ?now" by simp_all
  have "?now < next_tick kf k"
  proof (cases "k + 1 = length kf")
    case True
    have "?now < kTicksPerDay" unfolding kTicksPerDay_def by (rule word_mod_less_divisor) simp
    with True show ?thesis by (simp add: next_tick_def)
  next
    case False
    have "\<not> kf_tick (kf ! (k + 1)) \<le> ?now"
    proof
      assume "kf_tick (kf ! (k + 1)) \<le> ?now"
      then have "k + 1 \<le> k" unfolding k_def by (intro Max_ge) (use False k(1) in \<open>simp_all add: k_def\<close>)
      then show False by simp
    qed
    with False k(1) show ?thesis by (simp add: next_tick_def)
  qed
  moreover from bracket_loop_finds [OF assms(1) k this, of 0 F]
  obtain t where "bracket_for F kf ticks = (kf ! k, kf ! ((k + 1) mod length kf), t)"
    by (auto simp: bracket_for_def)
  ultimately show ?thesis using that k by blast
qed

lemma bracket_before_first:
  assumes "sorted (map kf_tick kf)" and "ticks mod kTicksPerDay < kf_tick (hd kf)" and "kf \<noteq> []"
  shows "bracket_for F kf ticks = (hd kf, hd kf, f_zero)"
proof -
  have "ticks mod kTicksPerDay < kf_tick (kf ! i)" if "i < length kf" for i
    using sorted_nth_mono [OF assms(1), of 0 i] that assms(2, 3) by (simp add: hd_conv_nth)
  then have "bracket_loop F kf (ticks mod kTicksPerDay) [0..<length kf] = None"
    by (intro bracket_loop_skip) simp
  then show ?thesis by (simp add: bracket_for_def)
qed

end
