(* ===== verification/Interest_Grid.thy ===== *)
theory Interest_Grid
  imports Chunk_Interest Float_Math "HOL-Library.AList"
begin

text \<open>
  \<open>replication/interest.hpp\<close> and \<open>.cpp\<close>: the entities a server replicates, which of them a player
  sees, and the difference of two such sets. Both backends of \<open>visible_from\<close> are here: the scan over
  the cells, and the one over librg, whose query is a parameter of the tracked positions. The hash map
  of entities is an association list; the results are sorted, so its order does not show.
\<close>

record entity_state =
  es_net_id :: net_id
  es_kind :: entity_kind_id
  es_pos :: vec3d
  es_rot :: vec2f
  es_vel :: vec3f

definition vf_zero :: vec3f where "vf_zero = \<lparr>vf_x = 0, vf_y = 0, vf_z = 0\<rparr>"
definition v2_zero :: vec2f where "v2_zero = \<lparr>v2_x = 0, v2_y = 0\<rparr>"

definition default_entity_state :: entity_state where
  "default_entity_state = \<lparr>es_net_id = 0, es_kind = 0, es_pos = vd_zero, es_rot = v2_zero, es_vel = vf_zero\<rparr>"

record interest_grid =
  ig_cell_size :: f64
  ig_entities :: "(net_id \<times> entity_state) list"

definition kDefaultCellSize :: f64 where "kDefaultCellSize = 0x4040000000000000"

definition new_interest_grid :: "float_ops \<Rightarrow> f64 \<Rightarrow> interest_grid" where
  "new_interest_grid F cell_size = \<lparr>ig_cell_size = (if fo_lt F f_zero cell_size then cell_size else kDefaultCellSize),
     ig_entities = []\<rparr>"

definition grid_upsert :: "entity_state \<Rightarrow> interest_grid \<Rightarrow> interest_grid" where
  "grid_upsert s g = g\<lparr>ig_entities := AList.update (es_net_id s) s (ig_entities g)\<rparr>"

definition grid_remove :: "net_id \<Rightarrow> interest_grid \<Rightarrow> interest_grid" where
  "grid_remove n g = g\<lparr>ig_entities := AList.delete n (ig_entities g)\<rparr>"

definition grid_clear :: "interest_grid \<Rightarrow> interest_grid" where
  "grid_clear g = g\<lparr>ig_entities := []\<rparr>"

definition grid_get :: "interest_grid \<Rightarrow> net_id \<Rightarrow> entity_state option" where
  "grid_get g n = map_of (ig_entities g) n"

section \<open>The scan\<close>

definition cell_of :: "float_ops \<Rightarrow> interest_grid \<Rightarrow> f64 \<Rightarrow> int" where
  "cell_of F g v = sint (fo_floor_i64 F (fo_div F v (ig_cell_size g)))"

definition visible_scan :: "float_ops \<Rightarrow> interest_grid \<Rightarrow> vec3d \<Rightarrow> int \<Rightarrow> net_id \<Rightarrow> net_id list" where
  "visible_scan F g eye radius_cells self = (
     let near = (\<lambda>a b. \<bar>cell_of F g a - cell_of F g b\<bar> \<le> (if radius_cells < 0 then 0 else radius_cells)) in
     sort (map fst (filter (\<lambda>(n, s). n \<noteq> self \<and> near (vd_x (es_pos s)) (vd_x eye) \<and>
       near (vd_y (es_pos s)) (vd_y eye) \<and> near (vd_z (es_pos s)) (vd_z eye)) (ig_entities g))))"

section \<open>The librg backend\<close>

text \<open>
  librg as the code uses it: what a query returns for the size of a chunk, the tracked entities with
  the positions they were placed at, a radius in chunks and the asking entity, into a buffer that is
  large enough. The code grows the buffer until it is.
\<close>

type_synonym librg_query = "u16 \<Rightarrow> (net_id \<rightharpoonup> vec3d) \<Rightarrow> u8 \<Rightarrow> net_id \<Rightarrow> net_id list"

definition librg_chunk_size :: "float_ops \<Rightarrow> interest_grid \<Rightarrow> u16" where
  "librg_chunk_size F g = ucast (fo_to_u32 F (f_clamp F (ig_cell_size g) f_one 0x40EFFFE000000000))"

definition visible_librg :: "librg_query \<Rightarrow> float_ops \<Rightarrow> interest_grid \<Rightarrow> vec3d \<Rightarrow> int \<Rightarrow> net_id \<Rightarrow> net_id list" where
  "visible_librg query F g eye radius_cells self = (
     if grid_get g self = None then []
     else sort_unique (filter (\<lambda>n. n \<noteq> self) (query (librg_chunk_size F g)
       (\<lambda>n. map_option es_pos (grid_get g n)) (word_of_int (max 0 (min 255 radius_cells))) self)))"

section \<open>Differences\<close>

fun set_intersection :: "'a :: linorder list \<Rightarrow> 'a list \<Rightarrow> 'a list" where
  "set_intersection [] ys = []"
| "set_intersection xs [] = []"
| "set_intersection (x # xs) (y # ys) = (
     if x < y then set_intersection xs (y # ys)
     else if y < x then set_intersection (x # xs) ys
     else x # set_intersection xs ys)"

record interest_diff =
  id_entered :: "net_id list"
  id_stayed :: "net_id list"
  id_left :: "net_id list"

definition diff_interest :: "net_id list \<Rightarrow> net_id list \<Rightarrow> interest_diff" where
  "diff_interest prev cur = \<lparr>id_entered = set_difference cur prev, id_stayed = set_intersection cur prev,
     id_left = set_difference prev cur\<rparr>"

section \<open>What they compute\<close>

lemma set_set_intersection:
  assumes "sorted_wrt (<) xs" and "sorted_wrt (<) ys"
  shows "set (set_intersection xs ys) = set xs \<inter> set ys"
  using assms
proof (induction xs ys rule: set_intersection.induct)
  case (3 x xs y ys)
  consider "x < y" | "x = y" | "y < x" by fastforce
  then show ?case by cases (use 3 in \<open>auto dest: order_less_trans\<close>)
qed auto

lemma grid_get_upsert [simp]: "grid_get (grid_upsert s g) n = (if n = es_net_id s then Some s else grid_get g n)"
  by (simp add: grid_get_def grid_upsert_def update_conv')

lemma grid_get_remove [simp]: "grid_get (grid_remove m g) n = (if n = m then None else grid_get g n)"
  by (simp add: grid_get_def grid_remove_def delete_conv')

lemma grid_get_clear [simp]: "grid_get (grid_clear g) n = None"
  by (simp add: grid_get_def grid_clear_def)

lemma grid_get_new [simp]: "grid_get (new_interest_grid F s) n = None"
  by (simp add: grid_get_def new_interest_grid_def)

definition grid_ok :: "interest_grid \<Rightarrow> bool" where
  "grid_ok g \<longleftrightarrow> distinct (map fst (ig_entities g)) \<and> (\<forall>n s. grid_get g n = Some s \<longrightarrow> es_net_id s = n)"

lemma new_grid_ok [simp]: "grid_ok (new_interest_grid F s)"
  by (simp add: grid_ok_def) (simp add: new_interest_grid_def)

lemma upsert_ok [simp]: "grid_ok g \<Longrightarrow> grid_ok (grid_upsert s g)"
  by (simp add: grid_ok_def) (simp add: grid_upsert_def distinct_update)

lemma remove_ok [simp]: "grid_ok g \<Longrightarrow> grid_ok (grid_remove n g)"
  by (simp add: grid_ok_def) (simp add: grid_remove_def distinct_delete)

section \<open>The backends\<close>

text \<open>What the session relies on, whichever backend the build has.\<close>

locale interest_backend =
  fixes visible :: "interest_grid \<Rightarrow> vec3d \<Rightarrow> int \<Rightarrow> net_id \<Rightarrow> net_id list"
  assumes visible_sorted: "grid_ok g \<Longrightarrow> sorted_wrt (<) (visible g eye r self)"
    and visible_others: "self \<notin> set (visible g eye r self)"
begin

text \<open>The difference of what is visible now and what was: nothing is lost and nothing told twice.\<close>

lemma diff_sets:
  assumes "grid_ok g" and "grid_ok g'"
    and d: "d = diff_interest (visible g eye r self) (visible g' eye' r' self')"
  shows "set (id_entered d) = set (visible g' eye' r' self') - set (visible g eye r self)"
    and "set (id_stayed d) = set (visible g' eye' r' self') \<inter> set (visible g eye r self)"
    and "set (id_left d) = set (visible g eye r self) - set (visible g' eye' r' self')"
  using visible_sorted [OF assms(1), of eye r self] visible_sorted [OF assms(2), of eye' r' self']
  by (simp_all add: d diff_interest_def set_set_intersection set_difference_spec)

end

lemma visible_scan_spec:
  assumes "grid_ok g"
  shows "sorted_wrt (<) (visible_scan F g eye r self)"
    and "n \<in> set (visible_scan F g eye r self) \<longleftrightarrow> n \<noteq> self \<and> (\<exists>s. grid_get g n = Some s \<and>
      \<bar>cell_of F g (vd_x (es_pos s)) - cell_of F g (vd_x eye)\<bar> \<le> max 0 r \<and>
      \<bar>cell_of F g (vd_y (es_pos s)) - cell_of F g (vd_y eye)\<bar> \<le> max 0 r \<and>
      \<bar>cell_of F g (vd_z (es_pos s)) - cell_of F g (vd_z eye)\<bar> \<le> max 0 r)"
proof -
  have d: "distinct (map fst (ig_entities g))" using assms by (simp add: grid_ok_def)
  show "sorted_wrt (<) (visible_scan F g eye r self)"
    using d by (simp add: visible_scan_def Let_def strict_sorted_iff distinct_map_filter)
  show "n \<in> set (visible_scan F g eye r self) \<longleftrightarrow> n \<noteq> self \<and> (\<exists>s. grid_get g n = Some s \<and>
      \<bar>cell_of F g (vd_x (es_pos s)) - cell_of F g (vd_x eye)\<bar> \<le> max 0 r \<and>
      \<bar>cell_of F g (vd_y (es_pos s)) - cell_of F g (vd_y eye)\<bar> \<le> max 0 r \<and>
      \<bar>cell_of F g (vd_z (es_pos s)) - cell_of F g (vd_z eye)\<bar> \<le> max 0 r)"
    using d by (auto simp: visible_scan_def Let_def grid_get_def max_def image_iff)
qed

lemma visible_librg_spec:
  "sorted_wrt (<) (visible_librg q F g eye r self)" "self \<notin> set (visible_librg q F g eye r self)"
  using sort_unique_spec [of "filter (\<lambda>n. n \<noteq> self) (q (librg_chunk_size F g)
       (\<lambda>n. map_option es_pos (grid_get g n)) (word_of_int (max 0 (min 255 r))) self)"]
  by (simp_all add: visible_librg_def strict_sorted_iff)

interpretation scan: interest_backend "visible_scan F"
  by unfold_locales (simp_all add: visible_scan_spec(1), auto simp: visible_scan_def Let_def)

interpretation librg: interest_backend "visible_librg q F"
  by unfold_locales (simp_all add: visible_librg_spec)

text \<open>With the scan, who is seen sees: two entities are visible from each other's place or neither is.\<close>

lemma scan_symmetric:
  assumes "grid_ok g" and "grid_get g a = Some s" and "grid_get g b = Some t"
  shows "b \<in> set (visible_scan F g (es_pos s) r a) \<longleftrightarrow> a \<in> set (visible_scan F g (es_pos t) r b)"
  using assms by (auto simp: visible_scan_spec(2) abs_minus_commute)

end
