(* ===== verification/Item_Drops.thy ===== *)
theory Item_Drops
  imports Float_Math "HOL-Library.Multiset"
begin

text \<open>
  Dropped items, \<open>world/item_drops.hpp\<close> and \<open>.cpp\<close>: they fall, are collected by the first player in
  reach, and expire. The hash map is a list in the order of its iteration; \<open>solid\<close> is
  \<open>BlockSolidQuery::solid_at\<close>, \<open>None\<close> where the tick gets no world.
\<close>

definition kItemDropKind :: entity_kind_id where "kItemDropKind = 0xFFFF"

record item_drop =
  dr_id :: net_id
  dr_item :: block_id
  dr_count :: u16
  dr_pos :: vec3d
  dr_age :: f64
  dr_pickup_radius :: f64
  dr_lifetime_seconds :: f64
  dr_vel_y :: f64

record item_pickup =
  ipk_player :: net_id
  ipk_item :: block_id
  ipk_count :: u16

record drop_tick_result =
  itr_pickups :: "item_pickup list"
  itr_removed :: "net_id list"
  itr_moved :: "net_id list"

record item_drop_system =
  ids_pickup_radius :: f64
  ids_lifetime_seconds :: f64
  ids_drops :: "item_drop list"
  ids_next_id :: u32

definition new_item_drops :: item_drop_system where
  "new_item_drops = \<lparr>ids_pickup_radius = 0x3FF8000000000000, ids_lifetime_seconds = 0x405E000000000000, ids_drops = [],
     ids_next_id = 0x80000000\<rparr>"

definition find_drop :: "net_id \<Rightarrow> item_drop_system \<Rightarrow> item_drop option" where
  "find_drop n sys = find (\<lambda>d. dr_id d = n) (ids_drops sys)"

definition drop_spawn :: "vec3d \<Rightarrow> block_id \<Rightarrow> u16 \<Rightarrow> f64 option \<Rightarrow> f64 option \<Rightarrow> item_drop_system \<Rightarrow> net_id \<times> item_drop_system" where
  "drop_spawn pos item cnt radius lifetime sys = (
     let n = ids_next_id sys;
         d = \<lparr>dr_id = n, dr_item = item, dr_count = cnt, dr_pos = pos, dr_age = f_zero,
              dr_pickup_radius = (case radius of None \<Rightarrow> ids_pickup_radius sys | Some r \<Rightarrow> r),
              dr_lifetime_seconds = (case lifetime of None \<Rightarrow> ids_lifetime_seconds sys | Some l \<Rightarrow> l), dr_vel_y = f_zero\<rparr> in
     (n, sys\<lparr>ids_drops := filter (\<lambda>d. dr_id d \<noteq> n) (ids_drops sys) @ [d], ids_next_id := n + 1\<rparr>))"

section \<open>Falling\<close>

definition kDropGravity :: f64 where "kDropGravity = 0x4034000000000000"
definition kDropTerminal :: f64 where "kDropTerminal = 0x403E000000000000"
definition kDropHalfSize :: f64 where "kDropHalfSize = 0x3FC3333333333333"

definition solid_below :: "float_ops \<Rightarrow> (ivec3 \<Rightarrow> bool) \<Rightarrow> item_drop \<Rightarrow> f64 \<Rightarrow> bool" where
  "solid_below F solid d y = solid \<lparr>iv_x = fo_floor_int F (vd_x (dr_pos d)),
     iv_y = fo_floor_int F (fo_sub F y kDropHalfSize), iv_z = fo_floor_int F (vd_z (dr_pos d))\<rparr>"

definition fall :: "float_ops \<Rightarrow> f64 \<Rightarrow> (ivec3 \<Rightarrow> bool) \<Rightarrow> item_drop \<Rightarrow> bool \<times> item_drop" where
  "fall F dt solid d = (
     if fo_eq F (dr_vel_y d) f_zero \<and> solid_below F solid d (fo_sub F (vd_y (dr_pos d)) 0x3F947AE147AE147B)
     then (False, d)
     else
       let v = f_max2 F (fo_sub F (dr_vel_y d) (fo_mul F kDropGravity dt)) (fo_neg F kDropTerminal);
           ny = fo_add F (vd_y (dr_pos d)) (fo_mul F v dt) in
       if solid_below F solid d ny
       then (True, d\<lparr>dr_pos := (dr_pos d)\<lparr>vd_y := fo_add F (fo_add F (fo_floor F (fo_sub F ny kDropHalfSize)) f_one) kDropHalfSize\<rparr>,
                     dr_vel_y := f_zero\<rparr>)
       else (True, d\<lparr>dr_pos := (dr_pos d)\<lparr>vd_y := ny\<rparr>, dr_vel_y := v\<rparr>))"

definition distance_to_body :: "float_ops \<Rightarrow> vec3d \<Rightarrow> vec3d \<Rightarrow> f64 \<Rightarrow> f64" where
  "distance_to_body F p feet height = (
     let top = fo_add F (vd_y feet) height;
         dy = (if fo_lt F (vd_y p) (vd_y feet) then fo_sub F (vd_y feet) (vd_y p)
               else if fo_lt F top (vd_y p) then fo_sub F (vd_y p) top else f_zero);
         dx = fo_sub F (vd_x p) (vd_x feet); dz = fo_sub F (vd_z p) (vd_z feet) in
     fo_sqrt F (fo_add F (fo_add F (fo_mul F dx dx) (fo_mul F dy dy)) (fo_mul F dz dz)))"

section \<open>The tick\<close>

definition collector :: "float_ops \<Rightarrow> (net_id \<times> vec3d) list \<Rightarrow> f64 \<Rightarrow> item_drop \<Rightarrow> net_id option" where
  "collector F players height d = map_option fst (find (\<lambda>(n, pos).
     fo_le F (distance_to_body F (dr_pos d) pos height) (dr_pickup_radius d)) players)"

primrec drop_tick :: "float_ops \<Rightarrow> f64 \<Rightarrow> (net_id \<times> vec3d) list \<Rightarrow> f64 \<Rightarrow> (ivec3 \<Rightarrow> bool) option \<Rightarrow> item_drop list \<Rightarrow>
    drop_tick_result \<times> item_drop list" where
  "drop_tick F dt players height world [] = (\<lparr>itr_pickups = [], itr_removed = [], itr_moved = []\<rparr>, [])"
| "drop_tick F dt players height world (d # ds) = (
     let d = d\<lparr>dr_age := fo_add F (dr_age d) dt\<rparr>;
         (moved, d) = (case world of None \<Rightarrow> (False, d) | Some solid \<Rightarrow> fall F dt solid d);
         (r, ds) = drop_tick F dt players height world ds;
         r = (if moved then r\<lparr>itr_moved := dr_id d # itr_moved r\<rparr> else r) in
     case collector F players height d of
       Some n \<Rightarrow> (r\<lparr>itr_pickups := \<lparr>ipk_player = n, ipk_item = dr_item d, ipk_count = dr_count d\<rparr> # itr_pickups r,
                   itr_removed := dr_id d # itr_removed r\<rparr>, ds)
     | None \<Rightarrow> if fo_le F (dr_lifetime_seconds d) (dr_age d) then (r\<lparr>itr_removed := dr_id d # itr_removed r\<rparr>, ds)
               else (r, d # ds))"

definition item_drops_tick :: "float_ops \<Rightarrow> f64 \<Rightarrow> (net_id \<times> vec3d) list \<Rightarrow> f64 \<Rightarrow> (ivec3 \<Rightarrow> bool) option \<Rightarrow>
    item_drop_system \<Rightarrow> drop_tick_result \<times> item_drop_system" where
  "item_drops_tick F dt players height world sys = (
     let (r, ds) = drop_tick F dt players height world (ids_drops sys) in (r, sys\<lparr>ids_drops := ds\<rparr>))"

section \<open>Nothing is lost and nothing is doubled\<close>

definition drops_ok :: "item_drop_system \<Rightarrow> bool" where
  "drops_ok sys \<longleftrightarrow> distinct (map dr_id (ids_drops sys))"

lemma new_drops_ok [simp]: "drops_ok new_item_drops"
  by (simp add: drops_ok_def new_item_drops_def)

lemma spawn_ok [simp]: "drops_ok sys \<Longrightarrow> drops_ok (snd (drop_spawn pos item cnt r l sys))"
  by (auto simp: drops_ok_def drop_spawn_def Let_def distinct_map_filter)

lemma find_spawned: "find_drop (fst (drop_spawn pos item cnt r l sys)) (snd (drop_spawn pos item cnt r l sys)) \<noteq> None"
  unfolding find_drop_def find_None_iff drop_spawn_def Let_def
  by simp (rule exI, rule conjI, rule disjI1, rule refl, simp)

lemma fall_keeps:
  "dr_id (snd (fall F dt solid d)) = dr_id d \<and> dr_item (snd (fall F dt solid d)) = dr_item d \<and>
   dr_count (snd (fall F dt solid d)) = dr_count d \<and> dr_age (snd (fall F dt solid d)) = dr_age d"
  by (simp add: fall_def Let_def)

text \<open>The drop as it is after ageing and falling, and what then becomes of it.\<close>

definition fallen :: "float_ops \<Rightarrow> f64 \<Rightarrow> (ivec3 \<Rightarrow> bool) option \<Rightarrow> item_drop \<Rightarrow> bool \<times> item_drop" where
  "fallen F dt world d = (let d = d\<lparr>dr_age := fo_add F (dr_age d) dt\<rparr> in
     case world of None \<Rightarrow> (False, d) | Some solid \<Rightarrow> fall F dt solid d)"

lemma fallen_keeps [simp]:
  "dr_id (snd (fallen F dt world d)) = dr_id d" "dr_item (snd (fallen F dt world d)) = dr_item d"
  "dr_count (snd (fallen F dt world d)) = dr_count d" "dr_age (snd (fallen F dt world d)) = fo_add F (dr_age d) dt"
  by (simp_all add: fallen_def Let_def fall_keeps split: option.split)

definition expired :: "float_ops \<Rightarrow> (net_id \<times> vec3d) list \<Rightarrow> f64 \<Rightarrow> item_drop \<Rightarrow> bool" where
  "expired F players height d \<longleftrightarrow> collector F players height d = None \<and> fo_le F (dr_lifetime_seconds d) (dr_age d)"

definition pickup_of :: "float_ops \<Rightarrow> (net_id \<times> vec3d) list \<Rightarrow> f64 \<Rightarrow> item_drop \<Rightarrow> item_pickup option" where
  "pickup_of F players height d = map_option (\<lambda>n. \<lparr>ipk_player = n, ipk_item = dr_item d, ipk_count = dr_count d\<rparr>)
     (collector F players height d)"

definition stays :: "float_ops \<Rightarrow> (net_id \<times> vec3d) list \<Rightarrow> f64 \<Rightarrow> item_drop \<Rightarrow> bool" where
  "stays F players height d \<longleftrightarrow> collector F players height d = None \<and> \<not> fo_le F (dr_lifetime_seconds d) (dr_age d)"

lemma drop_tick_spec:
  fixes F dt players height world ds
  defines "now \<equiv> map (\<lambda>d. snd (fallen F dt world d)) ds"
  shows "itr_pickups (fst (drop_tick F dt players height world ds)) = List.map_filter (pickup_of F players height) now"
    and "itr_removed (fst (drop_tick F dt players height world ds)) = map dr_id (filter (\<lambda>d. \<not> stays F players height d) now)"
    and "itr_moved (fst (drop_tick F dt players height world ds)) = map dr_id (filter (\<lambda>d. fst (fallen F dt world d)) ds)"
    and "snd (drop_tick F dt players height world ds) = filter (stays F players height) now"
proof -
  have "itr_pickups (fst (drop_tick F dt players height world ds)) = List.map_filter (pickup_of F players height) now \<and>
    itr_removed (fst (drop_tick F dt players height world ds)) = map dr_id (filter (\<lambda>d. \<not> stays F players height d) now) \<and>
    itr_moved (fst (drop_tick F dt players height world ds)) = map dr_id (filter (\<lambda>d. fst (fallen F dt world d)) ds) \<and>
    snd (drop_tick F dt players height world ds) = filter (stays F players height) now"
    unfolding now_def
  proof (induction ds)
    case (Cons d ds)
    obtain r ds1 where t: "drop_tick F dt players height world ds = (r, ds1)" by fastforce
    obtain m d1 where f: "fallen F dt world d = (m, d1)" by fastforce
    then have f': "(case world of None \<Rightarrow> (False, d\<lparr>dr_age := fo_add F (dr_age d) dt\<rparr>)
        | Some solid \<Rightarrow> fall F dt solid (d\<lparr>dr_age := fo_add F (dr_age d) dt\<rparr>)) = (m, d1)"
      by (simp add: fallen_def Let_def)
    have n: "dr_id d1 = dr_id d" using fallen_keeps(1) [of F dt world d] by (simp add: f)
    show ?case
      using Cons by (cases "collector F players height d1")
        (simp_all add: t f f' n Let_def stays_def pickup_of_def map_filter_simps)
  qed (simp add: map_filter_simps)
  then show "itr_pickups (fst (drop_tick F dt players height world ds)) = List.map_filter (pickup_of F players height) now"
    "itr_removed (fst (drop_tick F dt players height world ds)) = map dr_id (filter (\<lambda>d. \<not> stays F players height d) now)"
    "itr_moved (fst (drop_tick F dt players height world ds)) = map dr_id (filter (\<lambda>d. fst (fallen F dt world d)) ds)"
    "snd (drop_tick F dt players height world ds) = filter (stays F players height) now" by blast+
qed

text \<open>
  Conservation: the items on the ground before a tick are those left after it, those collected, each by
  one player, and those that expired.
\<close>

definition stock :: "item_drop list \<Rightarrow> (block_id \<times> u16) multiset" where
  "stock ds = mset (map (\<lambda>d. (dr_item d, dr_count d)) ds)"

lemma stock_partition:
  "stock ds = stock (filter (stays F players height) ds) +
     mset (map (\<lambda>p. (ipk_item p, ipk_count p)) (List.map_filter (pickup_of F players height) ds)) +
     stock (filter (expired F players height) ds)"
  by (induction ds)
    (auto simp: stock_def stays_def expired_def pickup_of_def map_filter_simps split: option.splits)

lemma items_conserved:
  assumes "drop_tick F dt players height world ds = (r, ds')"
  shows "stock ds = stock ds' + mset (map (\<lambda>p. (ipk_item p, ipk_count p)) (itr_pickups r)) +
    stock (filter (expired F players height) (map (\<lambda>d. snd (fallen F dt world d)) ds))"
proof -
  have "stock ds = stock (map (\<lambda>d. snd (fallen F dt world d)) ds)" by (simp add: stock_def comp_def)
  also have "\<dots> = stock ds' + mset (map (\<lambda>p. (ipk_item p, ipk_count p)) (itr_pickups r)) +
    stock (filter (expired F players height) (map (\<lambda>d. snd (fallen F dt world d)) ds))"
    using drop_tick_spec [of F dt players height world ds] assms
      stock_partition [of "map (\<lambda>d. snd (fallen F dt world d)) ds" F players height] by simp
  finally show ?thesis .
qed

lemma drop_tick_ok: "drops_ok sys \<Longrightarrow> drops_ok (snd (item_drops_tick F dt players height world sys))"
proof -
  assume "drops_ok sys"
  then have "distinct (map dr_id (map (\<lambda>d. snd (fallen F dt world d)) (ids_drops sys)))"
    by (simp add: drops_ok_def comp_def)
  then have "distinct (map dr_id (snd (drop_tick F dt players height world (ids_drops sys))))"
    unfolding drop_tick_spec(4) by (rule distinct_map_filter)
  then show ?thesis unfolding drops_ok_def item_drops_tick_def by (simp add: case_prod_unfold Let_def)
qed

text \<open>The identities reported as removed are exactly those that are no longer there.\<close>

lemma removed_iff_gone:
  assumes "drops_ok sys" and "item_drops_tick F dt players height world sys = (r, sys')" and "find_drop n sys \<noteq> None"
  shows "n \<in> set (itr_removed r) \<longleftrightarrow> find_drop n sys' = None"
proof -
  let ?now = "map (\<lambda>d. snd (fallen F dt world d)) (ids_drops sys)"
  have d: "distinct (map dr_id ?now)" using assms(1) by (simp add: drops_ok_def comp_def)
  obtain x where "x \<in> set (ids_drops sys)" "dr_id x = n"
    using assms(3) unfolding find_drop_def find_None_iff by auto
  then have "snd (fallen F dt world x) \<in> set ?now" "dr_id (snd (fallen F dt world x)) = n" by simp_all
  then obtain d where d0: "d \<in> set ?now" "dr_id d = n" by blast
  have r: "itr_removed r = map dr_id (filter (\<lambda>d. \<not> stays F players height d) ?now)"
    "ids_drops sys' = filter (stays F players height) ?now"
    using assms(2) drop_tick_spec(2, 4) [of F dt players height world "ids_drops sys"]
    by (auto simp: item_drops_tick_def split: prod.splits)
  have inj: "inj_on dr_id (set ?now)" using d unfolding distinct_map by (rule conjunct2)
  have same: "x = d" if "x \<in> set ?now" "dr_id x = n" for x
    by (rule inj_onD [OF inj _ that(1) d0(1)]) (simp add: that(2) d0(2))
  have removed: "n \<in> set (itr_removed r) \<longleftrightarrow> (\<exists>x \<in> set ?now. dr_id x = n \<and> \<not> stays F players height x)"
    unfolding r by (simp only: set_map set_filter image_iff) blast
  have found: "find_drop n sys' = None \<longleftrightarrow> (\<forall>x \<in> set ?now. dr_id x = n \<longrightarrow> \<not> stays F players height x)"
    unfolding find_drop_def find_None_iff r set_filter by blast
  show ?thesis unfolding removed found using d0 same by metis
qed

end
