(* ===== verification/Block_Damage_System.thy ===== *)
theory Block_Damage_System
  imports Float_Math "HOL-Library.AList"
begin

text \<open>
  Breaking a block together, \<open>world/block_damage.hpp\<close> and \<open>.cpp\<close>. The hash map of damaged positions
  is an association list, in the order its iteration has. The two callbacks of \<open>tick\<close> may change what
  they close over: they take and return a state; an empty \<open>std::function\<close> is \<open>None\<close>.
\<close>

record block_damage_state =
  bds_damage :: f32
  bds_max_damage :: u16
  bds_last_touched_tick :: u64
  bds_contributors :: "net_id list"

type_synonym block_damages = "(ivec3 \<times> block_damage_state) list"

definition new_block_damage :: block_damage_state where
  "new_block_damage = \<lparr>bds_damage = 0, bds_max_damage = 0, bds_last_touched_tick = 0, bds_contributors = []\<rparr>"

definition damage_begin :: "ivec3 \<Rightarrow> net_id \<Rightarrow> u16 \<Rightarrow> u64 \<Rightarrow> block_damages \<Rightarrow> block_damages" where
  "damage_begin pos player max_damage tick ds = (
     let s = (case map_of ds pos of None \<Rightarrow> new_block_damage | Some s \<Rightarrow> s);
         s = (if bds_max_damage s = 0 then s\<lparr>bds_max_damage := max_damage\<rparr> else s);
         s = s\<lparr>bds_last_touched_tick := tick\<rparr>;
         s = (if player \<in> set (bds_contributors s) then s else s\<lparr>bds_contributors := bds_contributors s @ [player]\<rparr>) in
     AList.update pos s ds)"

definition damage_stop :: "ivec3 \<Rightarrow> net_id \<Rightarrow> block_damages \<Rightarrow> block_damages" where
  "damage_stop pos player ds = (case map_of ds pos of
       None \<Rightarrow> ds
     | Some s \<Rightarrow> AList.update pos (s\<lparr>bds_contributors := remove1 player (bds_contributors s)\<rparr>) ds)"

definition damage_remove_player :: "net_id \<Rightarrow> block_damages \<Rightarrow> block_damages" where
  "damage_remove_player player ds =
     map (\<lambda>(pos, s). (pos, s\<lparr>bds_contributors := filter (\<lambda>n. n \<noteq> player) (bds_contributors s)\<rparr>)) ds"

section \<open>The tick\<close>

type_synonym 's damage_fn = "ivec3 \<Rightarrow> net_id \<Rightarrow> u16 \<Rightarrow> 's \<Rightarrow> f32 \<times> 's"
type_synonym 's health_fn = "ivec3 \<Rightarrow> f32 \<Rightarrow> u16 \<Rightarrow> u64 \<Rightarrow> 's \<Rightarrow> f32 option \<times> 's"

record damage_tick_result =
  dtr_completed :: "(ivec3 \<times> net_id) list"
  dtr_changed :: "ivec3 list"
  dtr_cleared :: "ivec3 list"

text \<open>What the contributors of one position add.\<close>

definition damage_accrual :: "float_ops \<Rightarrow> 's damage_fn \<Rightarrow> ivec3 \<Rightarrow> block_damage_state \<Rightarrow> 's \<Rightarrow> f32 \<times> 's" where
  "damage_accrual F fn pos s e = fold (\<lambda>n (delta, e). let (d, e) = fn pos n (bds_max_damage s) e in (fs_add F delta d, e))
     (bds_contributors s) (0, e)"

definition accrue :: "float_ops \<Rightarrow> u64 \<Rightarrow> 's damage_fn option \<Rightarrow> ivec3 \<Rightarrow> block_damage_state \<times> 's \<Rightarrow> block_damage_state \<times> 's" where
  "accrue F tick fn pos se = (case se of (s, e) \<Rightarrow> (case fn of
       None \<Rightarrow> (s, e)
     | Some fn \<Rightarrow> let (delta, e) = damage_accrual F fn pos s e in
         (if fs_eq F delta 0 then s
          else s\<lparr>bds_damage := fs_clamp F (fs_add F (bds_damage s) delta) 0 (fs_of_u16 F (bds_max_damage s)),
                 bds_last_touched_tick := tick\<rparr>, e)))"

definition heal :: "float_ops \<Rightarrow> u64 \<Rightarrow> 's health_fn option \<Rightarrow> ivec3 \<Rightarrow> block_damage_state \<times> 's \<Rightarrow> block_damage_state \<times> 's" where
  "heal F tick fn pos se = (case se of (s, e) \<Rightarrow> (case fn of
       None \<Rightarrow> (s, e)
     | Some fn \<Rightarrow> let (r, e) = fn pos (bds_damage s) (bds_max_damage s) (tick - bds_last_touched_tick s) e in
         (case r of None \<Rightarrow> s
          | Some d \<Rightarrow> s\<lparr>bds_damage := fs_clamp F d 0 (fs_of_u16 F (bds_max_damage s))\<rparr>, e)))"

definition damage_full :: "float_ops \<Rightarrow> block_damage_state \<Rightarrow> bool" where
  "damage_full F s \<longleftrightarrow> bds_max_damage s > 0 \<and> fs_le F (fs_of_u16 F (bds_max_damage s)) (bds_damage s)"

definition damage_gone :: "float_ops \<Rightarrow> block_damage_state \<Rightarrow> bool" where
  "damage_gone F s \<longleftrightarrow> fs_le F (bds_damage s) 0 \<and> bds_contributors s = []"

primrec damage_tick :: "float_ops \<Rightarrow> u64 \<Rightarrow> 's damage_fn option \<Rightarrow> 's health_fn option \<Rightarrow> block_damages \<Rightarrow> 's \<Rightarrow>
    damage_tick_result \<times> block_damages \<times> 's" where
  "damage_tick F tick dfn hfn [] e = (\<lparr>dtr_completed = [], dtr_changed = [], dtr_cleared = []\<rparr>, [], e)"
| "damage_tick F tick dfn hfn (d # ds) e = (
     let pos = fst d; prior = bds_damage (snd d);
         (s, e) = heal F tick hfn pos (accrue F tick dfn pos (snd d, e));
         (r, ds, e) = damage_tick F tick dfn hfn ds e in
     if damage_full F s
     then (r\<lparr>dtr_completed := (pos, case bds_contributors s of [] \<Rightarrow> 0 | n # _ \<Rightarrow> n) # dtr_completed r\<rparr>, ds, e)
     else if damage_gone F s
     then (if fs_eq F prior 0 then r else r\<lparr>dtr_cleared := pos # dtr_cleared r\<rparr>, ds, e)
     else (if fs_eq F (bds_damage s) prior then r else r\<lparr>dtr_changed := pos # dtr_changed r\<rparr>, (pos, s) # ds, e))"

section \<open>Laws\<close>

definition damages_ok :: "block_damages \<Rightarrow> bool" where
  "damages_ok ds \<longleftrightarrow> distinct (map fst ds) \<and> (\<forall>(p, s) \<in> set ds. distinct (bds_contributors s))"

definition contributing :: "block_damages \<Rightarrow> ivec3 \<Rightarrow> net_id \<Rightarrow> bool" where
  "contributing ds pos player \<longleftrightarrow> (\<exists>s. map_of ds pos = Some s \<and> player \<in> set (bds_contributors s))"

lemma damages_ok_map_of: "damages_ok ds \<Longrightarrow> map_of ds pos = Some s \<Longrightarrow> distinct (bds_contributors s)"
  unfolding damages_ok_def by (auto dest: map_of_SomeD)

lemma damages_ok_iff:
  "damages_ok ds \<longleftrightarrow> distinct (map fst ds) \<and> (\<forall>pos s. map_of ds pos = Some s \<longrightarrow> distinct (bds_contributors s))"
  unfolding damages_ok_def using map_of_eq_Some_iff [of ds] by (auto dest: map_of_SomeD)

lemma update_ok [intro]: "damages_ok ds \<Longrightarrow> distinct (bds_contributors s) \<Longrightarrow> damages_ok (AList.update pos s ds)"
  unfolding damages_ok_iff by (simp add: distinct_update update_conv' del: map_of_eq_Some_iff)

lemma begin_ok: "damages_ok ds \<Longrightarrow> damages_ok (damage_begin pos player m t ds)"
  unfolding damage_begin_def Let_def
  by (rule update_ok) (auto simp: new_block_damage_def dest: damages_ok_map_of split: option.splits)

lemma stop_ok: "damages_ok ds \<Longrightarrow> damages_ok (damage_stop pos player ds)"
  unfolding damage_stop_def
  by (auto dest: damages_ok_map_of intro!: update_ok distinct_remove1 split: option.splits)

lemma begin_contributes: "contributing (damage_begin pos player m t ds) p n \<longleftrightarrow> (p = pos \<and> n = player) \<or> contributing ds p n"
  by (auto simp: contributing_def damage_begin_def Let_def update_conv' new_block_damage_def split: option.splits)

lemma stop_contributes:
  assumes "damages_ok ds"
  shows "contributing (damage_stop pos player ds) p n \<longleftrightarrow> contributing ds p n \<and> \<not> (p = pos \<and> n = player)"
  using damages_ok_map_of [OF assms]
  by (auto simp: contributing_def damage_stop_def update_conv' split: option.splits)

lemma map_of_remove_player:
  "map_of (damage_remove_player player ds) p =
     map_option (\<lambda>s. s\<lparr>bds_contributors := filter (\<lambda>n. n \<noteq> player) (bds_contributors s)\<rparr>) (map_of ds p)"
  unfolding damage_remove_player_def by (induction ds) (auto split: prod.splits)

lemma remove_player_contributes: "contributing (damage_remove_player player ds) p n \<longleftrightarrow> contributing ds p n \<and> n \<noteq> player"
  by (auto simp: contributing_def map_of_remove_player)

lemma remove_player_ok: "damages_ok ds \<Longrightarrow> damages_ok (damage_remove_player player ds)"
  by (auto simp: damages_ok_iff map_of_remove_player) (auto simp: damage_remove_player_def comp_def case_prod_unfold)

text \<open>
  A tick leaves only positions that are neither broken nor healed away, completes each position at
  most once, and forgets what it completes.
\<close>

lemma accrue_contributors [simp]: "bds_contributors (fst (accrue F t fn pos se)) = bds_contributors (fst se)"
  by (auto simp: accrue_def split: prod.splits option.splits)

lemma heal_contributors [simp]: "bds_contributors (fst (heal F t fn pos se)) = bds_contributors (fst se)"
  by (auto simp: heal_def split: prod.splits option.splits)

lemma damage_tick_cases:
  assumes "damage_tick F t dfn hfn (d # ds) e = (r, ds', e')"
  obtains s e1 r1 ds1 n where "heal F t hfn (fst d) (accrue F t dfn (fst d) (snd d, e)) = (s, e1)"
    and "damage_tick F t dfn hfn ds e1 = (r1, ds1, e')"
    and "dtr_completed r = (fst d, n) # dtr_completed r1 \<and> ds' = ds1 \<or>
      dtr_completed r = dtr_completed r1 \<and> ds' = ds1 \<or>
      dtr_completed r = dtr_completed r1 \<and> ds' = (fst d, s) # ds1 \<and> \<not> damage_full F s \<and> \<not> damage_gone F s"
proof -
  obtain s e1 where s: "heal F t hfn (fst d) (accrue F t dfn (fst d) (snd d, e)) = (s, e1)" by fastforce
  obtain r1 ds1 e2 where t: "damage_tick F t dfn hfn ds e1 = (r1, ds1, e2)" using prod_cases3 by blast
  show ?thesis
    using assms that [OF s, of r1 ds1] by (auto simp: s t Let_def split: if_splits)
qed

lemma damage_tick_positions:
  assumes "damage_tick F t dfn hfn ds e = (r, ds', e')"
  shows "set (map fst ds') \<union> set (map fst (dtr_completed r)) \<subseteq> set (map fst ds) \<and>
    (\<forall>(p, s) \<in> set ds'. \<not> damage_full F s \<and> \<not> damage_gone F s)"
  using assms
proof (induction ds arbitrary: e r ds' e')
  case (Cons d ds)
  from Cons.prems show ?case
  proof (rule damage_tick_cases)
    fix s e1 r1 ds1 n
    assume t: "damage_tick F t dfn hfn ds e1 = (r1, ds1, e')"
      and c: "dtr_completed r = (fst d, n) # dtr_completed r1 \<and> ds' = ds1 \<or>
        dtr_completed r = dtr_completed r1 \<and> ds' = ds1 \<or>
        dtr_completed r = dtr_completed r1 \<and> ds' = (fst d, s) # ds1 \<and> \<not> damage_full F s \<and> \<not> damage_gone F s"
    from c show ?thesis using Cons.IH [OF t] by (elim disjE conjE) (simp_all add: subset_insertI2)
  qed
qed simp

lemma damage_tick_forgets:
  assumes "damage_tick F t dfn hfn ds e = (r, ds', e')" and "distinct (map fst ds)"
  shows "distinct (map fst ds' @ map fst (dtr_completed r))"
  using assms
proof (induction ds arbitrary: e r ds' e')
  case (Cons d ds)
  from Cons.prems(1) show ?case
  proof (rule damage_tick_cases)
    fix s e1 r1 ds1 n
    assume t: "damage_tick F t dfn hfn ds e1 = (r1, ds1, e')"
      and c: "dtr_completed r = (fst d, n) # dtr_completed r1 \<and> ds' = ds1 \<or>
        dtr_completed r = dtr_completed r1 \<and> ds' = ds1 \<or>
        dtr_completed r = dtr_completed r1 \<and> ds' = (fst d, s) # ds1 \<and> \<not> damage_full F s \<and> \<not> damage_gone F s"
    have "distinct (map fst ds1 @ map fst (dtr_completed r1))" using Cons.IH [OF t] Cons.prems(2) by simp
    moreover have "fst d \<notin> set (map fst ds1)" "fst d \<notin> set (map fst (dtr_completed r1))"
      using damage_tick_positions [OF t] Cons.prems(2) by auto
    ultimately show ?thesis using c by (elim disjE conjE) (simp_all del: set_map)
  qed
qed simp

text \<open>Without a script's callbacks no damage accrues and none heals.\<close>

lemma damage_tick_no_policy:
  assumes "damage_tick F t None None ds e = (r, ds', e')"
  shows "e' = e" and "set ds' \<subseteq> set ds"
proof -
  have "e' = e \<and> set ds' \<subseteq> set ds"
    using assms
  proof (induction ds arbitrary: r ds' e')
    case (Cons d ds)
    from Cons.prems show ?case
    proof (rule damage_tick_cases)
      fix s e1 r1 ds1 n
      assume h: "heal F t None (fst d) (accrue F t None (fst d) (snd d, e)) = (s, e1)"
        and t: "damage_tick F t None None ds e1 = (r1, ds1, e')"
        and c: "dtr_completed r = (fst d, n) # dtr_completed r1 \<and> ds' = ds1 \<or>
          dtr_completed r = dtr_completed r1 \<and> ds' = ds1 \<or>
          dtr_completed r = dtr_completed r1 \<and> ds' = (fst d, s) # ds1 \<and> \<not> damage_full F s \<and> \<not> damage_gone F s"
      have "s = snd d" "e1 = e" using h by (simp_all add: accrue_def heal_def)
      with c Cons.IH t show ?thesis by (cases d) auto
    qed
  qed simp
  then show "e' = e" "set ds' \<subseteq> set ds" by simp_all
qed

end
