(* ===== verification/Server_Session.thy ===== *)
theory Server_Session
  imports Server_Handshake World_Replicator Movement Interest_Grid Item_Drops Block_Damage_System Day_Night Raycast
begin

text \<open>
  The state of \<open>ServerSession\<close> (\<open>net/session.hpp\<close>, \<open>net/session.cpp\<close>) and what a script host may ask
  of it. The connections are a list in the order of \<open>std::map\<close>; the components of a player's entity
  are part of its connection, where they are meaningful once it plays. What the session tells its
  transport is appended to \<open>sn_out\<close>. The script's own state is \<open>sn_script\<close>; its callbacks are an argument
  of the operations that call them and take and return the whole session, which they may change as any
  caller of its public methods can. A type \<open>'t\<close> of sign-in tickets comes from the host.
\<close>

type_synonym conn_id = u64

datatype server_output = Sent conn_id lane "byte list" | Closed conn_id bstring

record player_entity =
  pl_pos :: vec3d
  pl_vel :: vec3d
  pl_yaw :: f32
  pl_pitch :: f32
  pl_on_ground :: bool
  pl_last_seq :: u32
  pl_selected_slot :: u8
  pl_health :: f32
  pl_max_health :: f32
  pl_hunger :: f32
  pl_max_hunger :: f32
  pl_name :: bstring

record 't reauth =
  ra_timer :: f64
  ra_pending :: bool
  ra_remaining :: f64
  ra_nonce :: bstring
  ra_sent_at :: i64
  ra_ticket :: "'t option"

record 't conn =
  cn_handshake :: "'t server_handshake"
  cn_remote_address :: "bstring option"
  cn_msg_tokens :: f64
  cn_age :: f64
  cn_punch_cooldown :: f64
  cn_playing :: bool
  cn_input_driven :: bool
  cn_net_id :: net_id
  cn_entity :: player_entity
  cn_last_visible :: "net_id list"
  cn_spawn_pos :: vec3d
  cn_death_cause :: bstring
  cn_death_health_before :: f32
  cn_last_status :: "s2c_player_status option"
  cn_login :: "login_data option"
  cn_reauth :: "'t reauth"

record script_entity =
  sce_pos :: vec3d
  sce_kind :: entity_kind_id
  sce_rot :: "vec2f option"
  sce_vel :: "vec3d option"

record punch_state =
  pst_punches :: u16
  pst_idle_seconds :: f64
  pst_heal_progress :: f64

record punch_params =
  pp_hit_radius :: f32
  pp_player_damage :: f32
  pp_heal_after_seconds :: f64
  pp_heal_interval_seconds :: f64
  pp_punch_cooldown_seconds :: f64

definition default_punch_params :: punch_params where
  "default_punch_params = \<lparr>pp_hit_radius = 0x3F19999A, pp_player_damage = 0x3F800000,
     pp_heal_after_seconds = 0x4010000000000000, pp_heal_interval_seconds = 0x3FF8000000000000,
     pp_punch_cooldown_seconds = f_zero\<rparr>"

record hunger_params =
  hp_decay_per_second :: f32
  hp_starvation_damage_per_second :: f32

record joined_player =
  jp_conn :: conn_id
  jp_net_id :: net_id
  jp_name :: bstring
  jp_login :: "login_data option"

record left_player =
  lp_conn :: conn_id
  lp_net_id :: net_id
  lp_reason :: bstring
  lp_name :: bstring
  lp_last_state :: "move_state option"

record ('t, 'h) server_session =
  sn_config :: server_config
  sn_conns :: "(conn_id \<times> 't conn) list"
  sn_script_entities :: "(net_id \<times> script_entity) list"
  sn_visual_overrides :: "net_id \<rightharpoonup> entity_visual_override"
  sn_interest :: interest_grid
  sn_replicator :: "replicator option"
  sn_item_drops :: item_drop_system
  sn_block_damage :: block_damages
  sn_region_occupancy :: "net_id \<rightharpoonup> ivec3 \<times> block_id"
  sn_player_visual_kind :: "entity_kind_id option"
  sn_item_drop_visual_kind :: "entity_kind_id option"
  sn_punch_counts :: "(ivec3 \<times> punch_state) list"
  sn_punch_params :: punch_params
  sn_hunger_params :: hunger_params
  sn_move_params :: move_params
  sn_interest_radius :: int
  sn_time_of_day_ticks :: f64
  sn_day_length_seconds :: f64
  sn_time_of_day_accum :: f64
  sn_void_kill_y :: f64
  sn_max_connections_per_ip :: int
  sn_max_auth_attempts :: int
  sn_uptime_seconds :: f64
  sn_auth_attempts :: "(bstring \<times> f64 list) list"
  sn_max_messages_per_second :: f64
  sn_server_tick :: u32
  sn_playing :: nat
  sn_next_net_id :: u32
  sn_next_script_entity_id :: u32
  sn_joins :: "joined_player list"
  sn_leaves :: "left_player list"
  sn_login_changes :: "(net_id \<times> login_data) list"
  sn_out :: "server_output list"
  sn_script :: 'h

text \<open>The constructor and the member initialisers.\<close>

definition new_server_session :: "float_ops \<Rightarrow> server_config \<Rightarrow> replicator option \<Rightarrow> 'h \<Rightarrow> ('t, 'h) server_session" where
  "new_server_session F cfg rep script = \<lparr>sn_config = cfg, sn_conns = [], sn_script_entities = [], sn_visual_overrides = Map.empty,
     sn_interest = new_interest_grid F kDefaultCellSize, sn_replicator = rep, sn_item_drops = new_item_drops,
     sn_block_damage = [], sn_region_occupancy = Map.empty, sn_player_visual_kind = None, sn_item_drop_visual_kind = None,
     sn_punch_counts = [], sn_punch_params = default_punch_params,
     sn_hunger_params = \<lparr>hp_decay_per_second = 0, hp_starvation_damage_per_second = 0\<rparr>,
     sn_move_params = default_move_params, sn_interest_radius = 2, sn_time_of_day_ticks = f_zero,
     sn_day_length_seconds = 0x4092C00000000000, sn_time_of_day_accum = f_zero, sn_void_kill_y = 0xC050000000000000,
     sn_max_connections_per_ip = 0, sn_max_auth_attempts = 30, sn_uptime_seconds = f_zero, sn_auth_attempts = [],
     sn_max_messages_per_second = f_zero, sn_server_tick = 0, sn_playing = 0, sn_next_net_id = 1,
     sn_next_script_entity_id = 0x40000000, sn_joins = [], sn_leaves = [], sn_login_changes = [], sn_out = [],
     sn_script = script\<rparr>"

section \<open>Connections and the transport\<close>

definition find_conn :: "conn_id \<Rightarrow> ('t, 'h) server_session \<Rightarrow> 't conn option" where
  "find_conn c s = map_of (sn_conns s) c"

definition update_conn :: "conn_id \<Rightarrow> ('t conn \<Rightarrow> 't conn) \<Rightarrow> ('t, 'h) server_session \<Rightarrow> ('t, 'h) server_session" where
  "update_conn c f s = s\<lparr>sn_conns := map (\<lambda>(k, cn). (k, if k = c then f cn else cn)) (sn_conns s)\<rparr>"

definition update_entity :: "conn_id \<Rightarrow> (player_entity \<Rightarrow> player_entity) \<Rightarrow> ('t, 'h) server_session \<Rightarrow> ('t, 'h) server_session" where
  "update_entity c f = update_conn c (\<lambda>cn. cn\<lparr>cn_entity := f (cn_entity cn)\<rparr>)"

text \<open>\<open>std::map::try_emplace\<close>, at the connection's place in the order.\<close>

fun insert_conn :: "conn_id \<Rightarrow> 'c \<Rightarrow> (conn_id \<times> 'c) list \<Rightarrow> (conn_id \<times> 'c) list" where
  "insert_conn c cn [] = [(c, cn)]"
| "insert_conn c cn ((k, v) # cs) = (if c < k then (c, cn) # (k, v) # cs
     else if c = k then (k, v) # cs else (k, v) # insert_conn c cn cs)"

definition playing_conn :: "net_id \<Rightarrow> ('t, 'h) server_session \<Rightarrow> (conn_id \<times> 't conn) option" where
  "playing_conn n s = find (\<lambda>(c, cn). cn_playing cn \<and> cn_net_id cn = n) (sn_conns s)"

definition send :: "conn_id \<Rightarrow> outgoing_frame \<Rightarrow> ('t, 'h) server_session \<Rightarrow> ('t, 'h) server_session" where
  "send c f s = s\<lparr>sn_out := sn_out s @ [Sent c (of_lane f) (of_bytes f)]\<rparr>"

definition send_frames :: "conn_id \<Rightarrow> outgoing_frame list \<Rightarrow> ('t, 'h) server_session \<Rightarrow> ('t, 'h) server_session" where
  "send_frames c fs = fold (send c) fs"

definition send_message :: "conn_id \<Rightarrow> message_type \<Rightarrow> writer \<Rightarrow> ('t, 'h) server_session \<Rightarrow> ('t, 'h) server_session" where
  "send_message c type encode = send c (frame_message None type encode 0)"

definition drop_conn :: "conn_id \<Rightarrow> bstring \<Rightarrow> ('t, 'h) server_session \<Rightarrow> ('t, 'h) server_session" where
  "drop_conn c reason s = (case find_conn c s of None \<Rightarrow> s | Some _ \<Rightarrow> s\<lparr>sn_out := sn_out s @ [Closed c reason]\<rparr>)"

text \<open>A loop over the connections; its body may change them, but none goes or comes meanwhile.\<close>

definition for_conns :: "(conn_id \<Rightarrow> 't conn \<Rightarrow> ('t, 'h) server_session \<Rightarrow> ('t, 'h) server_session) \<Rightarrow>
    ('t, 'h) server_session \<Rightarrow> ('t, 'h) server_session" where
  "for_conns f s = fold (\<lambda>c s. case find_conn c s of None \<Rightarrow> s | Some cn \<Rightarrow> f c cn s) (map fst (sn_conns s)) s"

definition for_playing :: "(conn_id \<Rightarrow> 't conn \<Rightarrow> ('t, 'h) server_session \<Rightarrow> ('t, 'h) server_session) \<Rightarrow>
    ('t, 'h) server_session \<Rightarrow> ('t, 'h) server_session" where
  "for_playing f = for_conns (\<lambda>c cn s. if cn_playing cn then f c cn s else s)"

text \<open>A message to every playing connection that qualifies.\<close>

definition broadcast :: "(conn_id \<Rightarrow> 't conn \<Rightarrow> bool) \<Rightarrow> message_type \<Rightarrow> writer \<Rightarrow> ('t, 'h) server_session \<Rightarrow> ('t, 'h) server_session" where
  "broadcast P type encode = for_playing (\<lambda>c cn s. if P c cn then send_message c type encode s else s)"

text \<open>The frames of the replicator, each player's to its connection.\<close>

definition deliver :: "player_frames list \<Rightarrow> ('t, 'h) server_session \<Rightarrow> ('t, 'h) server_session" where
  "deliver fs = fold (\<lambda>pf s. case playing_conn (pf_id pf) s of
       None \<Rightarrow> s
     | Some (c, cn) \<Rightarrow> send_frames c (pf_frames pf) s) fs"

section \<open>What a script sees\<close>

definition entity_move_state :: "player_entity \<Rightarrow> move_state" where
  "entity_move_state p = \<lparr>ms_position = pl_pos p, ms_velocity = pl_vel p, ms_on_ground = pl_on_ground p\<rparr>"

definition player_move_state :: "net_id \<Rightarrow> ('t, 'h) server_session \<Rightarrow> move_state option" where
  "player_move_state n s = map_option (\<lambda>(c, cn). entity_move_state (cn_entity cn)) (playing_conn n s)"

definition player_health :: "net_id \<Rightarrow> ('t, 'h) server_session \<Rightarrow> (f32 \<times> f32) option" where
  "player_health n s = map_option (\<lambda>(c, cn). (pl_health (cn_entity cn), pl_max_health (cn_entity cn))) (playing_conn n s)"

definition player_hunger :: "net_id \<Rightarrow> ('t, 'h) server_session \<Rightarrow> f32 option" where
  "player_hunger n s = map_option (\<lambda>(c, cn). pl_hunger (cn_entity cn)) (playing_conn n s)"

definition selected_slot :: "net_id \<Rightarrow> ('t, 'h) server_session \<Rightarrow> u8" where
  "selected_slot n s = (case playing_conn n s of None \<Rightarrow> 0 | Some (c, cn) \<Rightarrow> pl_selected_slot (cn_entity cn))"

definition conn_for_player :: "net_id \<Rightarrow> ('t, 'h) server_session \<Rightarrow> conn_id" where
  "conn_for_player n s = (case playing_conn n s of None \<Rightarrow> 0 | Some (c, cn) \<Rightarrow> c)"

definition player_login :: "net_id \<Rightarrow> ('t, 'h) server_session \<Rightarrow> login_data option" where
  "player_login n s = (case playing_conn n s of None \<Rightarrow> None
     | Some (c, cn) \<Rightarrow> (case cn_login cn of None \<Rightarrow> sv_login (cn_handshake cn) | Some l \<Rightarrow> Some l))"

definition player_name :: "net_id \<Rightarrow> ('t, 'h) server_session \<Rightarrow> bstring" where
  "player_name n s = (case playing_conn n s of None \<Rightarrow> [] | Some (c, cn) \<Rightarrow> pl_name (cn_entity cn))"

definition spawn_point :: "net_id \<Rightarrow> ('t, 'h) server_session \<Rightarrow> vec3d" where
  "spawn_point n s = (case playing_conn n s of None \<Rightarrow> vd_zero | Some (c, cn) \<Rightarrow> cn_spawn_pos cn)"

section \<open>Moving players and entities\<close>

definition vf_of_vd :: "float_ops \<Rightarrow> vec3d \<Rightarrow> vec3f" where
  "vf_of_vd F v = \<lparr>vf_x = fo_to_f32 F (vd_x v), vf_y = fo_to_f32 F (vd_y v), vf_z = fo_to_f32 F (vd_z v)\<rparr>"

definition vd_of_vf :: "float_ops \<Rightarrow> vec3f \<Rightarrow> vec3d" where
  "vd_of_vf F v = \<lparr>vd_x = fo_of_f32 F (vf_x v), vd_y = fo_of_f32 F (vf_y v), vd_z = fo_of_f32 F (vf_z v)\<rparr>"

text \<open>The entity of a net id in the interest grid, a fresh one where there is none, changed.\<close>

definition upsert_entity :: "net_id \<Rightarrow> (entity_state \<Rightarrow> entity_state) \<Rightarrow> ('t, 'h) server_session \<Rightarrow> ('t, 'h) server_session" where
  "upsert_entity n f s = (
     let e = (case grid_get (sn_interest s) n of None \<Rightarrow> default_entity_state | Some e \<Rightarrow> e) in
     s\<lparr>sn_interest := grid_upsert (f (e\<lparr>es_net_id := n\<rparr>)) (sn_interest s)\<rparr>)"

definition set_player_state :: "float_ops \<Rightarrow> net_id \<Rightarrow> vec3d \<Rightarrow> vec2f \<Rightarrow> vec3f \<Rightarrow> ('t, 'h) server_session \<Rightarrow> ('t, 'h) server_session" where
  "set_player_state F n pos rot vel s = (case playing_conn n s of
       None \<Rightarrow> s
     | Some (c, cn) \<Rightarrow> upsert_entity n (\<lambda>e. e\<lparr>es_pos := pos, es_rot := rot, es_vel := vel\<rparr>)
         (update_entity c (\<lambda>p. p\<lparr>pl_pos := pos, pl_yaw := v2_x rot, pl_pitch := v2_y rot, pl_vel := vd_of_vf F vel\<rparr>) s))"

definition teleport_player :: "float_ops \<Rightarrow> net_id \<Rightarrow> vec3d \<Rightarrow> ('t, 'h) server_session \<Rightarrow> bool \<times> ('t, 'h) server_session" where
  "teleport_player F n pos s = (case playing_conn n s of
       None \<Rightarrow> (False, s)
     | Some (c, cn) \<Rightarrow>
         let s = set_player_state F n pos \<lparr>v2_x = pl_yaw (cn_entity cn), v2_y = pl_pitch (cn_entity cn)\<rparr> vf_zero s in
         (True, update_entity c (\<lambda>p. p\<lparr>pl_on_ground := False\<rparr>) s))"

definition set_player_velocity :: "net_id \<Rightarrow> vec3d \<Rightarrow> ('t, 'h) server_session \<Rightarrow> ('t, 'h) server_session" where
  "set_player_velocity n vel s = (case playing_conn n s of
       None \<Rightarrow> s
     | Some (c, cn) \<Rightarrow> update_entity c (\<lambda>p. p\<lparr>pl_vel := vel\<rparr>) s)"

definition spawn_item_drop :: "float_ops \<Rightarrow> vec3d \<Rightarrow> block_id \<Rightarrow> u16 \<Rightarrow> ('t, 'h) server_session \<Rightarrow> net_id \<times> ('t, 'h) server_session" where
  "spawn_item_drop F pos item cnt s = (
     let type = (case sn_replicator s of
           None \<Rightarrow> None
         | Some rp \<Rightarrow> let r = wo_registry (rep_world rp) in if br_contains item r then Some (type_of_block r item) else None);
         own = (\<lambda>field. case type of None \<Rightarrow> None | Some t \<Rightarrow> if fo_le F f_zero (field t) then Some (field t) else None);
         (n, sys) = drop_spawn pos item cnt (own bt_pickup_radius) (own bt_drop_lifetime_seconds) (sn_item_drops s) in
     (n, s\<lparr>sn_item_drops := sys, sn_interest := grid_upsert \<lparr>es_net_id = n,
        es_kind = (case sn_item_drop_visual_kind s of None \<Rightarrow> kItemDropKind | Some k \<Rightarrow> k), es_pos = pos,
        es_rot = v2_zero, es_vel = vf_zero\<rparr> (sn_interest s)\<rparr>))"

definition spawn_script_entity :: "entity_kind_id \<Rightarrow> vec3d \<Rightarrow> ('t, 'h) server_session \<Rightarrow> net_id \<times> ('t, 'h) server_session" where
  "spawn_script_entity kind pos s = (
     let n = sn_next_script_entity_id s in
     (n, s\<lparr>sn_next_script_entity_id := n + 1, sn_script_entities := AList.update n
        \<lparr>sce_pos = pos, sce_kind = kind, sce_rot = None, sce_vel = None\<rparr> (sn_script_entities s)\<rparr>))"

definition set_script_entity_state :: "float_ops \<Rightarrow> net_id \<Rightarrow> vec3d \<Rightarrow> vec2f \<Rightarrow> vec3f \<Rightarrow> ('t, 'h) server_session \<Rightarrow>
    ('t, 'h) server_session" where
  "set_script_entity_state F n pos rot vel s = (case map_of (sn_script_entities s) n of
       None \<Rightarrow> s
     | Some e \<Rightarrow> s\<lparr>sn_script_entities := AList.update n
         (e\<lparr>sce_pos := pos, sce_rot := Some rot, sce_vel := Some (vd_of_vf F vel)\<rparr>) (sn_script_entities s)\<rparr>)"

definition remove_script_entity :: "net_id \<Rightarrow> ('t, 'h) server_session \<Rightarrow> ('t, 'h) server_session" where
  "remove_script_entity n s = s\<lparr>sn_script_entities := AList.delete n (sn_script_entities s),
     sn_interest := grid_remove n (sn_interest s), sn_visual_overrides := (sn_visual_overrides s)(n := None)\<rparr>"

definition set_script_entity_visual_override :: "net_id \<Rightarrow> entity_visual_override option \<Rightarrow> ('t, 'h) server_session \<Rightarrow>
    ('t, 'h) server_session" where
  "set_script_entity_visual_override n ov s = s\<lparr>sn_visual_overrides := (sn_visual_overrides s)(n := ov)\<rparr>"

section \<open>Health and hunger\<close>

definition apply_damage :: "float_ops \<Rightarrow> f32 \<Rightarrow> bstring \<Rightarrow> 't conn \<Rightarrow> 't conn" where
  "apply_damage F amount cause cn = (
     let prior = pl_health (cn_entity cn) in
     if fs_le F prior 0 then cn
     else
       let now = fs_max F 0 (fs_sub F prior amount);
           cn = cn\<lparr>cn_entity := (cn_entity cn)\<lparr>pl_health := now\<rparr>\<rparr> in
       if fs_le F now 0 then cn\<lparr>cn_death_cause := cause, cn_death_health_before := prior\<rparr> else cn)"

definition damage_player :: "float_ops \<Rightarrow> net_id \<Rightarrow> f32 \<Rightarrow> bstring \<Rightarrow> ('t, 'h) server_session \<Rightarrow> ('t, 'h) server_session" where
  "damage_player F n amount cause s = (case playing_conn n s of
       None \<Rightarrow> s
     | Some (c, cn) \<Rightarrow> update_conn c (apply_damage F amount cause) s)"

definition add_player_hunger :: "float_ops \<Rightarrow> net_id \<Rightarrow> f32 \<Rightarrow> ('t, 'h) server_session \<Rightarrow> ('t, 'h) server_session" where
  "add_player_hunger F n amount s = (case playing_conn n s of
       None \<Rightarrow> s
     | Some (c, cn) \<Rightarrow> update_entity c (\<lambda>p. p\<lparr>pl_hunger := fs_clamp F (fs_add F (pl_hunger p) amount) 0 (pl_max_hunger p)\<rparr>) s)"

definition set_player_health :: "float_ops \<Rightarrow> net_id \<Rightarrow> f32 \<Rightarrow> ('t, 'h) server_session \<Rightarrow> bool \<times> ('t, 'h) server_session" where
  "set_player_health F n value s = (case playing_conn n s of
       None \<Rightarrow> (False, s)
     | Some (c, cn) \<Rightarrow>
         let now = pl_health (cn_entity cn); target = fs_clamp F value 0 (pl_max_health (cn_entity cn)) in
         (True, if fs_lt F target now then update_conn c (apply_damage F (fs_sub F now target) (lit ''automation'')) s
                else update_entity c (\<lambda>p. p\<lparr>pl_health := target\<rparr>) s))"

definition kick_player :: "net_id \<Rightarrow> bstring \<Rightarrow> ('t, 'h) server_session \<Rightarrow> bool \<times> ('t, 'h) server_session" where
  "kick_player n reason s = (
     let c = conn_for_player n s in if c = 0 then (False, s) else (True, drop_conn c reason s))"

definition advance_reauth :: "float_ops \<Rightarrow> net_id \<Rightarrow> f64 \<Rightarrow> ('t, 'h) server_session \<Rightarrow> bool \<times> ('t, 'h) server_session" where
  "advance_reauth F n seconds s = (
     let c = conn_for_player n s in
     if c = 0 \<or> fo_lt F seconds f_zero then (False, s)
     else case find_conn c s of
       None \<Rightarrow> (False, s)
     | Some cn \<Rightarrow>
         if cn_login cn = None then (False, s)
         else (True, update_conn c (\<lambda>cn. let r = cn_reauth cn in cn\<lparr>cn_reauth :=
           (if ra_pending r then r\<lparr>ra_remaining := fo_sub F (ra_remaining r) seconds\<rparr>
            else r\<lparr>ra_timer := fo_sub F (ra_timer r) seconds\<rparr>)\<rparr>) s))"

definition broadcast_time_of_day :: "float_ops \<Rightarrow> ('t, 'h) server_session \<Rightarrow> ('t, 'h) server_session" where
  "broadcast_time_of_day F s = broadcast (\<lambda>c cn. True) kS2CTimeOfDay
     (encode_S2CTimeOfDay \<lparr>tod_time_of_day = fo_to_u32 F (sn_time_of_day_ticks s)\<rparr>) s"

definition set_time_of_day :: "float_ops \<Rightarrow> u32 \<Rightarrow> ('t, 'h) server_session \<Rightarrow> ('t, 'h) server_session" where
  "set_time_of_day F ticks s = broadcast_time_of_day F (s\<lparr>sn_time_of_day_ticks := fo_of_u32 F ticks\<rparr>)"

definition take_joins :: "('t, 'h) server_session \<Rightarrow> joined_player list \<times> ('t, 'h) server_session" where
  "take_joins s = (sn_joins s, s\<lparr>sn_joins := []\<rparr>)"

definition take_leaves :: "('t, 'h) server_session \<Rightarrow> left_player list \<times> ('t, 'h) server_session" where
  "take_leaves s = (sn_leaves s, s\<lparr>sn_leaves := []\<rparr>)"

definition take_login_changes :: "('t, 'h) server_session \<Rightarrow> (net_id \<times> login_data) list \<times> ('t, 'h) server_session" where
  "take_login_changes s = (sn_login_changes s, s\<lparr>sn_login_changes := []\<rparr>)"

end
