(* ===== verification/Session_Actions.thy ===== *)
theory Session_Actions
  imports Server_Session Client_World
begin

text \<open>
  What the messages of a playing connection and a script do to a \<open>ServerSession\<close> (\<open>net/session.cpp\<close>):
  input batches, block edits, punches, chat, breaking a block together. The callbacks a script host may
  set are the fields of \<open>session_hooks\<close>, an empty \<open>std::function\<close> being \<open>None\<close>. The hooks of a block
  edit may change the session as they like but, of its replicator, only the world.
\<close>

record input_override =
  iov_move :: vec3f
  iov_yaw :: f32
  iov_pitch :: f32
  iov_buttons :: u8
  iov_keybinds :: u32
  iov_selected_slot :: u8

record input_hook_result =
  ihr_veto :: bool
  ihr_replacement :: "input_override option"

record chat_hook_result =
  chr_veto :: bool
  chr_replacement_text :: "bstring option"

record respawn_decision =
  rd_heal_to :: f32
  rd_pos :: vec3d
  rd_message :: bstring

record ('t, 'h) session_hooks =
  hk_ui_event :: "(net_id \<Rightarrow> c2s_ui_event \<Rightarrow> ('t, 'h) server_session \<Rightarrow> ('t, 'h) server_session) option"
  hk_chat :: "(net_id \<Rightarrow> bstring \<Rightarrow> ('t, 'h) server_session \<Rightarrow> chat_hook_result \<times> ('t, 'h) server_session) option"
  hk_input :: "(net_id \<Rightarrow> input_cmd \<Rightarrow> ('t, 'h) server_session \<Rightarrow> input_hook_result \<times> ('t, 'h) server_session) option"
  hk_item_pickup :: "(net_id \<Rightarrow> block_id \<Rightarrow> u16 \<Rightarrow> ('t, 'h) server_session \<Rightarrow> ('t, 'h) server_session) option"
  hk_break_begin :: "(net_id \<Rightarrow> ivec3 \<Rightarrow> block_id \<Rightarrow> ('t, 'h) server_session \<Rightarrow> bool \<times> ('t, 'h) server_session) option"
  hk_tick_damage :: "(net_id \<Rightarrow> ivec3 \<Rightarrow> block_id \<Rightarrow> u16 \<Rightarrow> ('t, 'h) server_session \<Rightarrow> f32 \<times> ('t, 'h) server_session) option"
  hk_health_tick :: "(ivec3 \<Rightarrow> block_id \<Rightarrow> f32 \<Rightarrow> u16 \<Rightarrow> u64 \<Rightarrow> ('t, 'h) server_session \<Rightarrow> f32 option \<times> ('t, 'h) server_session) option"
  hk_region_enter :: "(net_id \<Rightarrow> ivec3 \<Rightarrow> block_id \<Rightarrow> ('t, 'h) server_session \<Rightarrow> ('t, 'h) server_session) option"
  hk_region_exit :: "(net_id \<Rightarrow> ivec3 \<Rightarrow> block_id \<Rightarrow> ('t, 'h) server_session \<Rightarrow> ('t, 'h) server_session) option"
  hk_landed :: "(net_id \<Rightarrow> f64 \<Rightarrow> ('t, 'h) server_session \<Rightarrow> ('t, 'h) server_session) option"
  hk_script_tick :: "(f64 \<Rightarrow> ('t, 'h) server_session \<Rightarrow> ('t, 'h) server_session) option"
  hk_respawn :: "(net_id \<Rightarrow> bstring \<Rightarrow> f32 \<Rightarrow> ('t, 'h) server_session \<Rightarrow> respawn_decision \<times> ('t, 'h) server_session) option"
  hk_before_edit :: "(net_id \<Rightarrow> ivec3 \<Rightarrow> block_id \<Rightarrow> block_id \<Rightarrow> bool \<Rightarrow> ('t, 'h) server_session \<Rightarrow> bool \<times> ('t, 'h) server_session) option"
  hk_after_edit :: "(net_id \<Rightarrow> ivec3 \<Rightarrow> block_id \<Rightarrow> block_id \<Rightarrow> bool \<Rightarrow> ('t, 'h) server_session \<Rightarrow> ('t, 'h) server_session) option"

definition no_session_hooks :: "('t, 'h) session_hooks" where
  "no_session_hooks = \<lparr>hk_ui_event = None, hk_chat = None, hk_input = None, hk_item_pickup = None, hk_break_begin = None,
     hk_tick_damage = None, hk_health_tick = None, hk_region_enter = None, hk_region_exit = None, hk_landed = None,
     hk_script_tick = None, hk_respawn = None, hk_before_edit = None, hk_after_edit = None\<rparr>"

text \<open>\<open>world_query\<close>: solid voxels, none without a world.\<close>

definition world_query :: "('t, 'h) server_session \<Rightarrow> ivec3 \<Rightarrow> bool" where
  "world_query s v = (case sn_replicator s of None \<Rightarrow> False | Some rp \<Rightarrow> solid_at (rep_world rp) v)"

section \<open>Input\<close>

definition effective_cmd :: "input_cmd \<Rightarrow> input_override option \<Rightarrow> input_cmd" where
  "effective_cmd cmd r = (case r of None \<Rightarrow> cmd
     | Some o' \<Rightarrow> cmd\<lparr>cmd_move := iov_move o', cmd_yaw := iov_yaw o', cmd_pitch := iov_pitch o', cmd_buttons := iov_buttons o',
         cmd_keybinds := iov_keybinds o', cmd_selected_slot := iov_selected_slot o'\<rparr>)"

text \<open>Without terrain under the player the command is acknowledged but does not move it.\<close>

definition ground_ready :: "float_ops \<Rightarrow> vec3d \<Rightarrow> ('t, 'h) server_session \<Rightarrow> bool" where
  "ground_ready F pos s = (case sn_replicator s of None \<Rightarrow> True
     | Some rp \<Rightarrow> ground_area_loaded F pos (has_chunk (rep_world rp)))"

definition simulate_cmd :: "float_ops \<Rightarrow> ('t, 'h) session_hooks \<Rightarrow> net_id \<Rightarrow> input_cmd \<Rightarrow> move_state \<times> ('t, 'h) server_session \<Rightarrow>
    move_state \<times> ('t, 'h) server_session" where
  "simulate_cmd F hk n cmd ms = (case ms of (move, s) \<Rightarrow>
     if \<not> ground_ready F (ms_position move) s then (move, s)
     else
       let fall_speed = fo_neg F (vd_y (ms_velocity move));
           after = step_movement F (sn_move_params s) (world_query s) (to_move_input F cmd) move in
       (after, case hk_landed hk of None \<Rightarrow> s
         | Some landed \<Rightarrow> if \<not> ms_on_ground move \<and> ms_on_ground after \<and> fo_lt F f_zero fall_speed
             then landed n fall_speed s else s))"

definition input_step :: "float_ops \<Rightarrow> ('t, 'h) session_hooks \<Rightarrow> conn_id \<Rightarrow> net_id \<Rightarrow> input_cmd \<Rightarrow>
    move_state \<times> ('t, 'h) server_session \<Rightarrow> move_state \<times> ('t, 'h) server_session" where
  "input_step F hk c n cmd ms = (case ms of (move, s) \<Rightarrow> (case find_conn c s of
       None \<Rightarrow> (move, s)
     | Some cn \<Rightarrow>
         if cmd_seq cmd \<le> pl_last_seq (cn_entity cn) then (move, s)
         else
           let (r, s) = (case hk_input hk of None \<Rightarrow> (\<lparr>ihr_veto = False, ihr_replacement = None\<rparr>, s) | Some f \<Rightarrow> f n cmd s) in
           if ihr_veto r then (move, update_entity c (\<lambda>p. p\<lparr>pl_last_seq := cmd_seq cmd\<rparr>) s)
           else
             let cmd = effective_cmd cmd (ihr_replacement r);
                 (move, s) = simulate_cmd F hk n cmd (move, s) in
             (move, update_entity c (\<lambda>p. p\<lparr>pl_last_seq := cmd_seq cmd, pl_selected_slot := cmd_selected_slot cmd,
                pl_yaw := cmd_yaw cmd, pl_pitch := cmd_pitch cmd\<rparr>) s)))"

definition store_move :: "float_ops \<Rightarrow> conn_id \<Rightarrow> net_id \<Rightarrow> move_state \<Rightarrow> ('t, 'h) server_session \<Rightarrow> ('t, 'h) server_session" where
  "store_move F c n move s = (
     let s = update_entity c (\<lambda>p. p\<lparr>pl_pos := ms_position move, pl_vel := ms_velocity move, pl_on_ground := ms_on_ground move\<rparr>) s;
         s = update_conn c (\<lambda>cn. cn\<lparr>cn_input_driven := True\<rparr>) s in
     case find_conn c s of None \<Rightarrow> s
     | Some cn \<Rightarrow> upsert_entity n (\<lambda>e. e\<lparr>es_pos := pl_pos (cn_entity cn),
         es_rot := \<lparr>v2_x = pl_yaw (cn_entity cn), v2_y = pl_pitch (cn_entity cn)\<rparr>,
         es_vel := vf_of_vd F (pl_vel (cn_entity cn))\<rparr>) s)"

definition handle_input_batch :: "float_ops \<Rightarrow> ('t, 'h) session_hooks \<Rightarrow> conn_id \<Rightarrow> c2s_input_batch \<Rightarrow> ('t, 'h) server_session \<Rightarrow>
    ('t, 'h) server_session" where
  "handle_input_batch F hk c batch s = (case find_conn c s of
       None \<Rightarrow> s
     | Some cn \<Rightarrow>
         let (move, s) = fold (input_step F hk c (cn_net_id cn)) (batch_cmds batch) (entity_move_state (cn_entity cn), s) in
         store_move F c (cn_net_id cn) move s)"

section \<open>Block edits\<close>

definition with_world :: "world \<Rightarrow> ('t, 'h) server_session \<Rightarrow> ('t, 'h) server_session" where
  "with_world w s = s\<lparr>sn_replicator := map_option (\<lambda>rp. rp\<lparr>rep_world := w\<rparr>) (sn_replicator s)\<rparr>"

definition session_world :: "('t, 'h) server_session \<Rightarrow> world \<Rightarrow> world" where
  "session_world s w = (case sn_replicator s of None \<Rightarrow> w | Some rp \<Rightarrow> rep_world rp)"

definition before_edit :: "('t, 'h) session_hooks \<Rightarrow> net_id \<Rightarrow> ivec3 \<Rightarrow> block_id \<Rightarrow> block_id \<Rightarrow> bool \<Rightarrow> ('t, 'h) server_session \<Rightarrow>
    bool \<times> ('t, 'h) server_session" where
  "before_edit hk n p old new brk s = (case hk_before_edit hk of None \<Rightarrow> (True, s) | Some f \<Rightarrow> f n p old new brk s)"

definition after_edit :: "('t, 'h) session_hooks \<Rightarrow> net_id \<Rightarrow> ivec3 \<Rightarrow> block_id \<Rightarrow> block_id \<Rightarrow> bool \<Rightarrow> world \<Rightarrow> ('t, 'h) server_session \<Rightarrow>
    ('t, 'h) server_session" where
  "after_edit hk n p old new brk w s = (case hk_after_edit hk of None \<Rightarrow> with_world w s
     | Some f \<Rightarrow> f n p old new brk (with_world w s))"

text \<open>The hooks as the replicator calls them, on a session that is theirs to read.\<close>

definition edit_hooks :: "('t, 'h) session_hooks \<Rightarrow> ('t, 'h) server_session \<Rightarrow> ('t, 'h) server_session block_edit_hooks" where
  "edit_hooks hk s = \<lparr>
     beh_before_edit = (\<lambda>s n p old new brk. fst (before_edit hk n p old new brk s)),
     beh_after_edit = (\<lambda>s n p old new brk w.
       session_world (after_edit hk n p old new brk w (snd (before_edit hk n p old new brk s))) w),
     beh_state = s\<rparr>"

text \<open>What the hooks of an edit leave of the session.\<close>

definition edit_effects :: "float_ops \<Rightarrow> ('t, 'h) session_hooks \<Rightarrow> net_id \<Rightarrow> vec3d \<Rightarrow> c2s_block_edit \<Rightarrow> replicator \<Rightarrow>
    ('t, 'h) server_session \<Rightarrow> ('t, 'h) server_session" where
  "edit_effects F hk editor eye e rp s = (
     let p = edit_pos e; old = get_block (rep_world rp) p; brk = (edit_action e = kBreak) in
     case edit_target F (rep_reach rp) eye e (rep_world rp) of
       None \<Rightarrow> s
     | Some new \<Rightarrow>
         let (ok, s) = before_edit hk editor p old new brk s in
         if \<not> ok then s
         else after_edit hk editor p old new brk (snd (world_set_block p new (rep_world rp))) s)"

definition session_edit :: "float_ops \<Rightarrow> ('t, 'h) session_hooks \<Rightarrow> net_id \<Rightarrow> vec3d \<Rightarrow> c2s_block_edit \<Rightarrow> replicator \<Rightarrow>
    ('t, 'h) server_session \<Rightarrow> by_player \<times> s2c_block_edit_result \<times> ('t, 'h) server_session" where
  "session_edit F hk editor eye e rp s = (
     let (by, res, rp') = apply_block_edit F (edit_hooks hk s) editor eye e rp in
     (by, res, (edit_effects F hk editor eye e rp s)\<lparr>sn_replicator := Some rp'\<rparr>))"

definition eye_at :: "float_ops \<Rightarrow> ('t, 'h) server_session \<Rightarrow> vec3d \<Rightarrow> vec3d" where
  "eye_at F s feet = feet\<lparr>vd_y := fo_add F (vd_y feet) (mp_eye_height (sn_move_params s))\<rparr>"

definition handle_block_edit :: "float_ops \<Rightarrow> lz4_api option \<Rightarrow> ('t, 'h) session_hooks \<Rightarrow> conn_id \<Rightarrow> frame \<Rightarrow> ('t, 'h) server_session \<Rightarrow>
    ('t, 'h) server_session" where
  "handle_block_edit F lz hk c fr s = (case sn_replicator s of
       None \<Rightarrow> s
     | Some rp \<Rightarrow> (case (decode_C2SBlockEdit (fr_payload fr), find_conn c s) of
           (Inr e, Some cn) \<Rightarrow>
             let (by, res, s) = session_edit F hk (cn_net_id cn) (eye_at F s (pl_pos (cn_entity cn))) e rp s;
                 s = send_message c kS2CBlockEditResult (encode_S2CBlockEditResult res) s in
             deliver (edit_frames lz by) s
         | _ \<Rightarrow> s))"

definition apply_script_block_edit :: "float_ops \<Rightarrow> lz4_api option \<Rightarrow> ('t, 'h) session_hooks \<Rightarrow> net_id \<Rightarrow> block_edit_action \<Rightarrow> ivec3 \<Rightarrow>
    block_id \<Rightarrow> ('t, 'h) server_session \<Rightarrow> bool \<times> ('t, 'h) server_session" where
  "apply_script_block_edit F lz hk editor action pos block s = (case sn_replicator s of
       None \<Rightarrow> (False, s)
     | Some rp \<Rightarrow>
         let feet = (case playing_conn editor s of
               Some (c, cn) \<Rightarrow> pl_pos (cn_entity cn)
             | None \<Rightarrow> (case grid_get (sn_interest s) editor of None \<Rightarrow> vd_zero | Some e \<Rightarrow> es_pos e));
             e = \<lparr>edit_predicted_seq = 0, edit_action = action, edit_pos = pos, edit_block = block\<rparr>;
             (by, res, s) = session_edit F hk editor (eye_at F s feet) e rp s;
             s = (case playing_conn editor s of None \<Rightarrow> s
               | Some (c, cn) \<Rightarrow> send_message c kS2CBlockEditResult (encode_S2CBlockEditResult res) s) in
         (eres_accepted res, deliver (edit_frames lz by) s))"

section \<open>Punches\<close>

definition broadcast_block_damage :: "ivec3 \<Rightarrow> u16 \<Rightarrow> ('t, 'h) server_session \<Rightarrow> ('t, 'h) server_session" where
  "broadcast_block_damage pos punches s = (case sn_replicator s of
       None \<Rightarrow> s
     | Some rp \<Rightarrow>
         let cc = chunk_of pos;
             revision = (case find_chunk (rep_world rp) cc of None \<Rightarrow> 0 | Some ch \<Rightarrow> ch_revision ch) in
         broadcast (\<lambda>c cn. player_has_chunk rp (cn_net_id cn) cc) kS2CBlockDamage
           (encode_S2CBlockDamage \<lparr>bdmg_pos = pos, bdmg_punches = punches, bdmg_revision = revision\<rparr>) s)"

text \<open>How far along the look ray another player is struck, \<open>None\<close> for a miss.\<close>

definition strike_distance :: "float_ops \<Rightarrow> f64 \<Rightarrow> f64 \<Rightarrow> f64 \<Rightarrow> vec3d \<Rightarrow> vec3d \<Rightarrow> vec3d \<Rightarrow> f64 option" where
  "strike_distance F reach radius height eye dir other = (
     let denom = fo_add F (fo_mul F (vd_x dir) (vd_x dir)) (fo_mul F (vd_z dir) (vd_z dir));
         t = (if fo_lt F 0x3E112E0BE826D695 denom
              then fo_div F (fo_add F (fo_mul F (fo_sub F (vd_x other) (vd_x eye)) (vd_x dir))
                (fo_mul F (fo_sub F (vd_z other) (vd_z eye)) (vd_z dir))) denom else f_zero);
         t = f_clamp F t f_zero reach;
         px = fo_add F (vd_x eye) (fo_mul F (vd_x dir) t);
         py = fo_add F (vd_y eye) (fo_mul F (vd_y dir) t);
         pz = fo_add F (vd_z eye) (fo_mul F (vd_z dir) t);
         dx = fo_sub F px (vd_x other); dz = fo_sub F pz (vd_z other);
         dist = fo_sqrt F (fo_add F (fo_mul F dx dx) (fo_mul F dz dz)) in
     if fo_le F dist radius \<and> fo_le F (fo_sub F (vd_y other) radius) py \<and>
        fo_le F py (fo_add F (fo_add F (vd_y other) height) radius) then Some t else None)"

definition struck_player :: "float_ops \<Rightarrow> f64 \<Rightarrow> net_id \<Rightarrow> vec3d \<Rightarrow> vec3d \<Rightarrow> ('t, 'h) server_session \<Rightarrow> f64 \<times> net_id" where
  "struck_player F reach puncher eye dir s = fold (\<lambda>(c, cn) (best_t, best).
     if \<not> cn_playing cn \<or> cn_net_id cn = puncher then (best_t, best)
     else case strike_distance F reach (fo_of_f32 F (pp_hit_radius (sn_punch_params s))) (mp_height (sn_move_params s)) eye dir
         (pl_pos (cn_entity cn)) of
       None \<Rightarrow> (best_t, best)
     | Some t \<Rightarrow> if fo_lt F t best_t then (t, cn_net_id cn) else (best_t, best)) (sn_conns s) (reach, 0)"

record punch_result =
  pr_hit_player :: bool
  pr_target :: net_id
  pr_hit_block :: bool
  pr_block_pos :: ivec3
  pr_block_punches :: u16
  pr_block_broken :: bool

definition no_punch :: punch_result where
  "no_punch = \<lparr>pr_hit_player = False, pr_target = 0, pr_hit_block = False, pr_block_pos = \<lparr>iv_x = 0, iv_y = 0, iv_z = 0\<rparr>, pr_block_punches = 0,
     pr_block_broken = False\<rparr>"

definition punch_block :: "float_ops \<Rightarrow> lz4_api option \<Rightarrow> ('t, 'h) session_hooks \<Rightarrow> net_id \<Rightarrow> u16 \<Rightarrow> ivec3 \<Rightarrow> replicator \<Rightarrow>
    ('t, 'h) server_session \<Rightarrow> punch_result \<times> ('t, 'h) server_session" where
  "punch_block F lz hk puncher block_damage v rp s = (
     let reg = wo_registry (rep_world rp); existing = get_block (rep_world rp) v;
         max_damage = (if br_contains existing reg then bt_max_damage (type_of_block reg existing) else 0);
         result = no_punch\<lparr>pr_hit_block := True, pr_block_pos := v\<rparr> in
     if max_damage = 0
     then let (broken, s) = apply_script_block_edit F lz hk puncher kBreak v 0 s in
       (result\<lparr>pr_block_punches := block_damage, pr_block_broken := broken\<rparr>, s)
     else
       let prior = (case map_of (sn_punch_counts s) v of None \<Rightarrow> 0 | Some st \<Rightarrow> pst_punches st);
           punches = prior + block_damage;
           s = s\<lparr>sn_punch_counts := AList.update v \<lparr>pst_punches = punches, pst_idle_seconds = f_zero, pst_heal_progress = f_zero\<rparr>
             (sn_punch_counts s)\<rparr>;
           result = result\<lparr>pr_block_punches := punches\<rparr> in
       if punches \<ge> max_damage
       then let (broken, s) = apply_script_block_edit F lz hk puncher kBreak v 0 s in
         if broken then (result\<lparr>pr_block_broken := True\<rparr>,
           broadcast_block_damage v 0 (s\<lparr>sn_punch_counts := AList.delete v (sn_punch_counts s)\<rparr>))
         else (result, broadcast_block_damage v punches s)
       else (result, broadcast_block_damage v punches s))"

definition punch :: "float_ops \<Rightarrow> lz4_api option \<Rightarrow> ('t, 'h) session_hooks \<Rightarrow> net_id \<Rightarrow> u16 \<Rightarrow> ('t, 'h) server_session \<Rightarrow>
    punch_result \<times> ('t, 'h) server_session" where
  "punch F lz hk puncher block_damage s = (case playing_conn puncher s of
       None \<Rightarrow> (no_punch, s)
     | Some (c, cn) \<Rightarrow>
         let cooldown = pp_punch_cooldown_seconds (sn_punch_params s); limited = fo_lt F f_zero cooldown in
         if limited \<and> fo_lt F f_zero (cn_punch_cooldown cn) then (no_punch, s)
         else
           let s = (if limited then update_conn c (\<lambda>cn. cn\<lparr>cn_punch_cooldown := cooldown\<rparr>) s else s);
               eye = eye_at F s (pl_pos (cn_entity cn));
               dir = forward_from_yaw_pitch F (fo_of_f32 F (pl_yaw (cn_entity cn))) (fo_of_f32 F (pl_pitch (cn_entity cn)));
               reach = (case sn_replicator s of None \<Rightarrow> 0x4016000000000000 | Some rp \<Rightarrow> rep_reach rp);
               (player_t, target) = struck_player F reach puncher eye dir s;
               hit = (if sn_replicator s = None then no_hit else raycast_voxel F (world_query s) eye dir reach);
               block_t = (if vrh_hit hit then vd_length F (vd_sub F (voxel_centre F (vrh_voxel hit)) eye) else reach) in
           if target \<noteq> 0 \<and> (\<not> vrh_hit hit \<or> fo_le F player_t block_t)
           then (no_punch\<lparr>pr_hit_player := True, pr_target := target\<rparr>,
                 damage_player F target (pp_player_damage (sn_punch_params s)) (lit ''pvp'') s)
           else case sn_replicator s of
               None \<Rightarrow> (no_punch, s)
             | Some rp \<Rightarrow> if vrh_hit hit then punch_block F lz hk puncher block_damage (vrh_voxel hit) rp s else (no_punch, s))"

section \<open>Breaking together, chat\<close>

definition handle_block_break_begin :: "float_ops \<Rightarrow> ('t, 'h) session_hooks \<Rightarrow> conn_id \<Rightarrow> frame \<Rightarrow> ('t, 'h) server_session \<Rightarrow>
    ('t, 'h) server_session" where
  "handle_block_break_begin F hk c fr s = (case (sn_replicator s, decode_C2SBlockBreakBegin (fr_payload fr), find_conn c s) of
       (Some rp, Inr m, Some cn) \<Rightarrow>
         let n = cn_net_id cn; w = rep_world rp; p = bbeg_pos m;
             feet = (case grid_get (sn_interest s) n of None \<Rightarrow> vd_zero | Some e \<Rightarrow> es_pos e);
             block = get_block w p in
         if \<not> in_reach F (rep_reach rp) (eye_at F s feet) p then s
         else if block = kAir \<or> \<not> br_contains block (wo_registry w) then s
         else
           let max_damage = bt_max_damage (type_of_block (wo_registry w) block) in
           if max_damage = 0 then s
           else (case hk_break_begin hk of
               None \<Rightarrow> s
             | Some f \<Rightarrow> let (ok, s) = f n p block s in
                 if \<not> ok then s
                 else s\<lparr>sn_block_damage := damage_begin p n max_damage (ucast (sn_server_tick s)) (sn_block_damage s)\<rparr>)
     | _ \<Rightarrow> s)"

definition handle_block_break_stop :: "conn_id \<Rightarrow> frame \<Rightarrow> ('t, 'h) server_session \<Rightarrow> ('t, 'h) server_session" where
  "handle_block_break_stop c fr s = (case (decode_C2SBlockBreakStop (fr_payload fr), find_conn c s) of
       (Inr m, Some cn) \<Rightarrow> s\<lparr>sn_block_damage := damage_stop (bstop_pos m) (cn_net_id cn) (sn_block_damage s)\<rparr>
     | _ \<Rightarrow> s)"

definition handle_chat :: "('t, 'h) session_hooks \<Rightarrow> conn_id \<Rightarrow> frame \<Rightarrow> ('t, 'h) server_session \<Rightarrow> ('t, 'h) server_session" where
  "handle_chat hk c fr s = (case (decode_C2SChat (fr_payload fr), find_conn c s) of
       (Inr m, Some cn) \<Rightarrow>
         if cchat_text m = [] then s
         else
           let (r, s) = (case hk_chat hk of None \<Rightarrow> (\<lparr>chr_veto = False, chr_replacement_text = None\<rparr>, s)
                 | Some f \<Rightarrow> f (cn_net_id cn) (cchat_text m) s) in
           if chr_veto r then s
           else
             let text = (case chr_replacement_text r of None \<Rightarrow> cchat_text m | Some t \<Rightarrow> t) in
             broadcast (\<lambda>_ _. True) kS2CChat (encode_S2CChat \<lparr>schat_text = pl_name (cn_entity cn) @ lit '': '' @ text\<rparr>) s
     | _ \<Rightarrow> s)"

end
