(* ===== verification/Session_Network.thy ===== *)
theory Session_Network
  imports Session_Actions
begin

text \<open>
  The part of \<open>ServerSession::tick\<close> that talks to the transport (\<open>net/session.cpp\<close>): events and
  messages, connection and rate limits, joining and leaving, handshake timeouts, signing in again. What
  the handshake asks its host is the caller's answers of this tick, wrapped as the constructor wraps them.
\<close>

datatype net_event = Peer_Connected conn_id | Peer_Message conn_id "byte list" | Peer_Disconnected conn_id bstring

record 't server_env =
  sve_floats :: float_ops
  sve_lz4 :: "lz4_api option"
  sve_host :: "'t server_host"
  sve_unix_time :: i64
  sve_remote_address :: "conn_id \<Rightarrow> bstring option"
  sve_visible :: "interest_grid \<Rightarrow> vec3d \<Rightarrow> int \<Rightarrow> net_id \<Rightarrow> net_id list"
  sve_late :: "nat \<Rightarrow> bool"
  sve_order :: "world \<Rightarrow> chunk_coord list"

section \<open>The host of the handshakes\<close>

definition same_identity :: "login_data \<Rightarrow> login_data \<Rightarrow> bool" where
  "same_identity a b \<longleftrightarrow> ld_issuer a = ld_issuer b \<and> ld_subject a = ld_subject b"

definition name_taken :: "('t, 'h) server_session \<Rightarrow> login_data \<Rightarrow> bstring \<Rightarrow> bool" where
  "name_taken s login candidate \<longleftrightarrow> list_ex (\<lambda>(c, other).
     \<not> (case sv_login (cn_handshake other) of None \<Rightarrow> False | Some l \<Rightarrow> same_identity l login) \<and>
     sv_player_name (cn_handshake other) \<noteq> [] \<and> sv_player_name (cn_handshake other) = candidate) (sn_conns s)"

fun to_decimal :: "nat \<Rightarrow> bstring" where
  "to_decimal n = (if n < 10 then [of_nat (48 + n)] else to_decimal (n div 10) @ [of_nat (48 + n mod 10)])"

definition numbered_name :: "bstring \<Rightarrow> nat \<Rightarrow> bstring" where
  "numbered_name base n = (let suffix = lit ''#'' @ to_decimal n in
     (if length base + length suffix > 32 then take (32 - length suffix) base else base) @ suffix)"

primrec first_free :: "(bstring \<Rightarrow> bool) \<Rightarrow> bstring \<Rightarrow> nat \<Rightarrow> nat \<Rightarrow> bstring" where
  "first_free taken base n 0 = base"
| "first_free taken base n (Suc k) = (let candidate = numbered_name base n in
     if taken candidate then first_free taken base (Suc n) k else candidate)"

definition unique_name :: "('t, 'h) server_session \<Rightarrow> login_data \<Rightarrow> bstring \<Rightarrow> bstring" where
  "unique_name s login base = (if \<not> name_taken s login base then base
     else first_free (name_taken s login) base 2 9998)"

definition session_grant :: "float_ops \<Rightarrow> ('t, 'h) server_session \<Rightarrow> join_grant \<Rightarrow> join_grant" where
  "session_grant F s g = (
     let g = (if jg_net_id g = 0 then g\<lparr>jg_net_id := sn_next_net_id s\<rparr> else g);
         g = (if jg_world_seed g = 0 then g\<lparr>jg_world_seed := sc_world_seed (sn_config s)\<rparr> else g) in
     g\<lparr>jg_time_of_day := fo_to_u32 F (sn_time_of_day_ticks s)\<rparr>)"

definition session_host :: "float_ops \<Rightarrow> 't server_host \<Rightarrow> ('t, 'h) server_session \<Rightarrow> 't server_host" where
  "session_host F host s = host\<lparr>sh_current_player_count := of_nat (sn_playing s),
     sh_resolve_name := (\<lambda>name login. unique_name s login (sh_resolve_name host name login)),
     sh_on_ready := (\<lambda>name. session_grant F s (sh_on_ready host name))\<rparr>"

section \<open>Kicking\<close>

definition kick_with_message :: "conn_id \<Rightarrow> disconnect_reason \<Rightarrow> bstring \<Rightarrow> ('t, 'h) server_session \<Rightarrow> ('t, 'h) server_session" where
  "kick_with_message c reason message s = drop_conn c message
     (send_message c kS2CDisconnect (encode_S2CDisconnect \<lparr>disc_reason = reason, disc_message = message\<rparr>) s)"

definition kick_duplicate_login :: "conn_id \<Rightarrow> ('t, 'h) server_session \<Rightarrow> ('t, 'h) server_session" where
  "kick_duplicate_login newcomer s = (case find_conn newcomer s of
       None \<Rightarrow> s
     | Some ncn \<Rightarrow> (case sv_login (cn_handshake ncn) of
           None \<Rightarrow> s
         | Some login \<Rightarrow> for_conns (\<lambda>c other s.
             if c = newcomer then s
             else case sv_login (cn_handshake other) of
               None \<Rightarrow> s
             | Some l \<Rightarrow> if same_identity l login then drop_conn c (lit ''signed in elsewhere'') s else s) s))"

section \<open>Joining\<close>

definition reauth_interval_for :: "float_ops \<Rightarrow> server_config \<Rightarrow> net_id \<Rightarrow> f64" where
  "reauth_interval_for F cfg n = (
     if sc_reauth_interval_seconds cfg = 0 then f_zero
     else
       let h = n * 2654435761;
           j = fo_add F 0x3FECCCCCCCCCCCCD (fo_mul F 0x3FC999999999999A
             (fo_div F (fo_of_u32 F (h mod 1000)) 0x408F400000000000)) in
       fo_mul F (fo_of_u32 F (sc_reauth_interval_seconds cfg)) j)"

definition new_entity :: "vec3d \<Rightarrow> bstring \<Rightarrow> player_entity" where
  "new_entity spawn name = \<lparr>pl_pos = spawn, pl_vel = vd_zero, pl_yaw = 0, pl_pitch = 0, pl_on_ground = False, pl_last_seq = 0,
     pl_selected_slot = 0, pl_health = 0x41A00000, pl_max_health = 0x41A00000, pl_hunger = 0x42C80000,
     pl_max_hunger = 0x42C80000, pl_name = name\<rparr>"

definition new_reauth :: "'t reauth" where
  "new_reauth = \<lparr>ra_timer = f_zero, ra_pending = False, ra_remaining = f_zero, ra_nonce = [], ra_sent_at = 0, ra_ticket = None\<rparr>"

definition new_conn :: "bstring option \<Rightarrow> f64 \<Rightarrow> 't conn" where
  "new_conn addr tokens = \<lparr>cn_handshake = new_server, cn_remote_address = addr, cn_msg_tokens = tokens, cn_age = f_zero,
     cn_punch_cooldown = f_zero, cn_playing = False, cn_input_driven = False, cn_net_id = 0,
     cn_entity = new_entity vd_zero [], cn_last_visible = [], cn_spawn_pos = vd_zero, cn_death_cause = [],
     cn_death_health_before = 0, cn_last_status = None, cn_login = None, cn_reauth = new_reauth\<rparr>"

definition complete_join :: "float_ops \<Rightarrow> conn_id \<Rightarrow> bstring \<Rightarrow> ('t, 'h) server_session \<Rightarrow> ('t, 'h) server_session" where
  "complete_join F c name s = (case find_conn c s of
       None \<Rightarrow> s
     | Some cn \<Rightarrow>
         let g = sv_grant (cn_handshake cn); n = jg_net_id g;
             s = update_conn c (\<lambda>cn. cn\<lparr>cn_playing := True, cn_net_id := n, cn_spawn_pos := jg_spawn_pos g,
               cn_login := sv_login (cn_handshake cn), cn_entity := new_entity (jg_spawn_pos g) name,
               cn_reauth := (cn_reauth cn)\<lparr>ra_timer := reauth_interval_for F (sn_config s) n\<rparr>\<rparr>) s;
             s = s\<lparr>sn_playing := sn_playing s + 1,
               sn_interest := grid_upsert \<lparr>es_net_id = n,
                 es_kind = (case sn_player_visual_kind s of None \<Rightarrow> 0 | Some k \<Rightarrow> k),
                 es_pos = jg_spawn_pos g, es_rot = v2_zero, es_vel = vf_zero\<rparr> (sn_interest s),
               sn_joins := sn_joins s @ [\<lparr>jp_conn = c, jp_net_id = n, jp_name = name, jp_login = sv_login (cn_handshake cn)\<rparr>]\<rparr>;
             others = filter (\<lambda>(k, o'). cn_playing o' \<and> k \<noteq> c) (sn_conns s);
             s = send_message c kS2CPlayerList (encode_S2CPlayerList \<lparr>plist_players =
               map (\<lambda>(k, o'). \<lparr>ple_net_id = cn_net_id o', ple_name = pl_name (cn_entity o')\<rparr>) others\<rparr>) s in
         broadcast (\<lambda>k _. k \<noteq> c) kS2CPlayerJoin (encode_S2CPlayerJoin \<lparr>pjoin_net_id = n, pjoin_name = name\<rparr>) s)"

section \<open>Messages\<close>

definition on_reauth_message :: "'t server_host \<Rightarrow> conn_id \<Rightarrow> frame \<Rightarrow> 't conn \<Rightarrow> ('t, 'h) server_session \<Rightarrow> ('t, 'h) server_session" where
  "on_reauth_message host c fr cn s = (
     let r = cn_reauth cn in
     if \<not> (ra_pending r \<and> ra_ticket r = None) then s
     else case (sh_begin_authenticate host, decode_C2SReauth (fr_payload fr)) of
       (Some begin_auth, Inr m) \<Rightarrow> update_conn c (\<lambda>cn. cn\<lparr>cn_reauth :=
         (cn_reauth cn)\<lparr>ra_ticket := begin_auth (reauth_token m) (ra_nonce r)\<rparr>\<rparr>) s
     | _ \<Rightarrow> s)"

definition on_playing_message :: "'t server_env \<Rightarrow> ('t, 'h) session_hooks \<Rightarrow> conn_id \<Rightarrow> frame \<Rightarrow> 't conn \<Rightarrow>
    ('t, 'h) server_session \<Rightarrow> ('t, 'h) server_session" where
  "on_playing_message env hk c fr cn s = (
     let F = sve_floats env; type = mh_type (fr_header fr); limited = fo_lt F f_zero (sn_max_messages_per_second s) in
     if limited \<and> fo_lt F (cn_msg_tokens cn) f_one then s
     else
       let s = (if limited then update_conn c (\<lambda>cn. cn\<lparr>cn_msg_tokens := fo_sub F (cn_msg_tokens cn) f_one\<rparr>) s else s) in
       if type = kC2SInputBatch
       then (case decode_C2SInputBatch (fr_payload fr) of Inl _ \<Rightarrow> s | Inr b \<Rightarrow> handle_input_batch F hk c b s)
       else if type = kC2SBlockEdit then handle_block_edit F (sve_lz4 env) hk c fr s
       else if type = kC2SUiEvent
       then (case (decode_C2SUiEvent (fr_payload fr), hk_ui_event hk) of (Inr e, Some f) \<Rightarrow> f (cn_net_id cn) e s | _ \<Rightarrow> s)
       else if type = kC2SChat then handle_chat hk c fr s
       else if type = kC2SReauth then on_reauth_message (sve_host env) c fr cn s
       else if type = kC2SBlockBreakBegin then handle_block_break_begin F hk c fr s
       else if type = kC2SBlockBreakStop then handle_block_break_stop c fr s
       else s)"

text \<open>
  The limit on sign-in attempts of one address: whether the attempt is refused, and the attempts
  remembered.
\<close>

definition auth_limited :: "('t, 'h) server_session \<Rightarrow> frame \<Rightarrow> 't conn \<Rightarrow> bool" where
  "auth_limited s fr cn \<longleftrightarrow> sn_max_auth_attempts s > 0 \<and> cn_remote_address cn \<noteq> None \<and>
     sc_auth_mode (sn_config s) = kAuthExternal \<and> sv_state (cn_handshake cn) = kAwaitingAuth \<and>
     mh_type (fr_header fr) = kC2SAuth"

definition count_attempt :: "float_ops \<Rightarrow> bstring \<Rightarrow> ('t, 'h) server_session \<Rightarrow> bool \<times> ('t, 'h) server_session" where
  "count_attempt F addr s = (
     let old = (case map_of (sn_auth_attempts s) addr of None \<Rightarrow> [] | Some ts \<Rightarrow> ts);
         recent = dropWhile (\<lambda>t. fo_lt F t (fo_sub F (sn_uptime_seconds s) 0x404E000000000000)) old in
     if int (length recent) \<ge> sn_max_auth_attempts s
     then (True, s\<lparr>sn_auth_attempts := AList.update addr recent (sn_auth_attempts s)\<rparr>)
     else (False, s\<lparr>sn_auth_attempts := AList.update addr (recent @ [sn_uptime_seconds s]) (sn_auth_attempts s)\<rparr>))"

definition on_handshake_message :: "'t server_env \<Rightarrow> conn_id \<Rightarrow> frame \<Rightarrow> 't conn \<Rightarrow> ('t, 'h) server_session \<Rightarrow>
    ('t, 'h) server_session" where
  "on_handshake_message env c fr cn s = (
     let F = sve_floats env; prior = cn_handshake cn;
         (step, hs) = srv_on_frame (sn_config s) (sve_lz4 env) (session_host F (sve_host env) s) fr prior;
         s = update_conn c (\<lambda>cn. cn\<lparr>cn_handshake := hs\<rparr>) s;
         s = send_frames c (ss_send step) s;
         s = (if sv_state prior = kAwaitingAuth \<and> sv_state hs = kAwaitingAssetManifestRequest
              then kick_duplicate_login c (update_conn c (\<lambda>cn. cn\<lparr>cn_age := f_zero\<rparr>) s) else s);
         s = (if ss_completed step \<and> jg_net_id (sh_on_ready (sve_host env) (sv_player_name prior)) = 0
              then s\<lparr>sn_next_net_id := sn_next_net_id s + 1\<rparr> else s);
         s = (if ss_completed step then complete_join F c (ss_player_name step) s else s) in
     if ss_disconnect step then drop_conn c (lit ''handshake rejected'') s else s)"

definition on_message :: "'t server_env \<Rightarrow> ('t, 'h) session_hooks \<Rightarrow> conn_id \<Rightarrow> byte list \<Rightarrow> ('t, 'h) server_session \<Rightarrow>
    ('t, 'h) server_session" where
  "on_message env hk c bytes s = (case find_conn c s of
       None \<Rightarrow> s
     | Some cn \<Rightarrow> (case fst (read_frame bytes) of
           Inl _ \<Rightarrow> drop_conn c (lit ''malformed frame'') s
         | Inr fr \<Rightarrow> (case decompress_frame_payload (sve_lz4 env) fr of
               None \<Rightarrow> drop_conn c (if sve_lz4 env = None
                   then lit ''received a compressed frame but built without VB_WITH_COMPRESSION''
                   else lit ''malformed compressed frame'') s
             | Some payload \<Rightarrow>
                 let fr = fr\<lparr>fr_payload := payload\<rparr> in
                 if cn_playing cn then on_playing_message env hk c fr cn s
                 else if auth_limited s fr cn
                 then (let (refused, s) = count_attempt (sve_floats env) (the (cn_remote_address cn)) s in
                   if refused then kick_with_message c kAuthFailed (lit ''too many sign-in attempts, try again later'') s
                   else on_handshake_message env c fr cn s)
                 else on_handshake_message env c fr cn s)))"

section \<open>Connections come and go\<close>

definition on_connected :: "'t server_env \<Rightarrow> conn_id \<Rightarrow> ('t, 'h) server_session \<Rightarrow> ('t, 'h) server_session" where
  "on_connected env c s = (
     let addr = sve_remote_address env c in
     if sn_max_connections_per_ip s > 0 \<and> addr \<noteq> None \<and>
        int (length (filter (\<lambda>(k, cn). cn_remote_address cn = addr) (sn_conns s))) \<ge> sn_max_connections_per_ip s
     then s\<lparr>sn_out := sn_out s @ [Closed c (lit ''too many connections from this address'')]\<rparr>
     else update_conn c (\<lambda>cn. cn\<lparr>cn_remote_address := addr, cn_msg_tokens := sn_max_messages_per_second s\<rparr>)
       (s\<lparr>sn_conns := insert_conn c (new_conn addr (sn_max_messages_per_second s)) (sn_conns s)\<rparr>))"

definition on_disconnected :: "conn_id \<Rightarrow> bstring \<Rightarrow> ('t, 'h) server_session \<Rightarrow> ('t, 'h) server_session" where
  "on_disconnected c reason s = (case find_conn c s of
       None \<Rightarrow> s
     | Some cn \<Rightarrow>
         let n = cn_net_id cn;
             s = (if \<not> cn_playing cn then s
               else broadcast (\<lambda>k _. k \<noteq> c) kS2CPlayerLeave (encode_S2CPlayerLeave \<lparr>pleave_net_id = n\<rparr>)
                 (s\<lparr>sn_playing := sn_playing s - 1, sn_interest := grid_remove n (sn_interest s),
                    sn_block_damage := damage_remove_player n (sn_block_damage s),
                    sn_region_occupancy := (sn_region_occupancy s)(n := None),
                    sn_replicator := map_option (forget_player n) (sn_replicator s),
                    sn_leaves := sn_leaves s @ [\<lparr>lp_conn = c, lp_net_id = n, lp_reason = reason,
                      lp_name = pl_name (cn_entity cn), lp_last_state = Some (entity_move_state (cn_entity cn))\<rparr>]\<rparr>)) in
         s\<lparr>sn_conns := AList.delete c (sn_conns s)\<rparr>)"

primrec on_event :: "'t server_env \<Rightarrow> ('t, 'h) session_hooks \<Rightarrow> net_event \<Rightarrow> ('t, 'h) server_session \<Rightarrow> ('t, 'h) server_session" where
  "on_event env hk (Peer_Connected c) = on_connected env c"
| "on_event env hk (Peer_Message c bytes) = on_message env hk c bytes"
| "on_event env hk (Peer_Disconnected c reason) = on_disconnected c reason"

definition refill_tokens :: "float_ops \<Rightarrow> f64 \<Rightarrow> ('t, 'h) server_session \<Rightarrow> ('t, 'h) server_session" where
  "refill_tokens F dt s = (
     let rate = sn_max_messages_per_second s in
     if \<not> fo_lt F f_zero rate then s
     else s\<lparr>sn_conns := map (\<lambda>(c, cn). (c, cn\<lparr>cn_msg_tokens := f_min2 F rate (fo_add F (cn_msg_tokens cn) (fo_mul F rate dt))\<rparr>))
       (sn_conns s)\<rparr>)"

definition run_cooldowns :: "float_ops \<Rightarrow> f64 \<Rightarrow> ('t, 'h) server_session \<Rightarrow> ('t, 'h) server_session" where
  "run_cooldowns F dt s = (
     if \<not> fo_lt F f_zero (pp_punch_cooldown_seconds (sn_punch_params s)) then s
     else s\<lparr>sn_conns := map (\<lambda>(c, cn). (c, if fo_lt F f_zero (cn_punch_cooldown cn)
       then cn\<lparr>cn_punch_cooldown := f_max2 F f_zero (fo_sub F (cn_punch_cooldown cn) dt)\<rparr> else cn)) (sn_conns s)\<rparr>)"

definition system_network_io :: "'t server_env \<Rightarrow> ('t, 'h) session_hooks \<Rightarrow> f64 \<Rightarrow> net_event list \<Rightarrow> ('t, 'h) server_session \<Rightarrow>
    ('t, 'h) server_session" where
  "system_network_io env hk dt evs s =
     fold (on_event env hk) evs (run_cooldowns (sve_floats env) dt (refill_tokens (sve_floats env) dt s))"

section \<open>Handshake timeouts\<close>

text \<open>One connection's turn: what goes out, and whether it is dropped or has just been verified.\<close>

definition kAssetSendBudgetPerTick :: int where "kAssetSendBudgetPerTick = 4"

definition set_handshake :: "conn_id \<Rightarrow> server_step \<times> 't server_handshake \<Rightarrow> ('t, 'h) server_session \<Rightarrow> ('t, 'h) server_session" where
  "set_handshake c r s = send_frames c (ss_send (fst r)) (update_conn c (\<lambda>cn. cn\<lparr>cn_handshake := snd r\<rparr>) s)"

definition timeout_turn :: "'t server_env \<Rightarrow> f64 \<Rightarrow> conn_id \<Rightarrow>
    (conn_id \<times> bstring) list \<times> conn_id list \<times> ('t, 'h) server_session \<Rightarrow> (conn_id \<times> bstring) list \<times> conn_id list \<times> ('t, 'h) server_session" where
  "timeout_turn env dt c acc = (case acc of (drops, verified, s) \<Rightarrow> (case find_conn c s of
       None \<Rightarrow> acc
     | Some cn \<Rightarrow>
         if cn_playing cn then acc
         else
           let F = sve_floats env; lz = sve_lz4 env; host = session_host F (sve_host env) s;
               hs = cn_handshake cn; streaming = (sv_state hs = kStreamingAssets);
               r1 = pump_assets kAssetSendBudgetPerTick lz host hs;
               s = (if streaming then set_handshake c r1 s else s);
               hs = (if streaming then snd r1 else hs) in
           if streaming \<and> ss_disconnect (fst r1) then (drops @ [(c, lit ''asset streaming protocol error'')], verified, s)
           else
             let verifying = (sv_state hs = kVerifyingAuth);
                 r2 = poll_auth lz host hs;
                 s = (if verifying then set_handshake c r2 s else s);
                 hs = (if verifying then snd r2 else hs) in
             if verifying \<and> ss_disconnect (fst r2) then (drops @ [(c, lit ''sign-in rejected'')], verified, s)
             else
               let done' = (verifying \<and> sv_state hs = kAwaitingAssetManifestRequest);
                   age = fo_add F (if done' then f_zero else cn_age cn) dt;
                   s = update_conn c (\<lambda>cn. cn\<lparr>cn_age := age\<rparr>) s;
                   verified = (if done' then verified @ [c] else verified) in
               if fo_lt F (timeout_seconds (sn_config s) hs) age
               then (drops @ [(c, lit ''handshake timeout'')], verified, set_handshake c (on_timeout lz hs) s)
               else (drops, verified, s)))"

definition forget_old_attempts :: "float_ops \<Rightarrow> ('t, 'h) server_session \<Rightarrow> ('t, 'h) server_session" where
  "forget_old_attempts F s = s\<lparr>sn_auth_attempts := filter (\<lambda>(addr, ts). \<not> (ts = [] \<or>
     fo_lt F (last ts) (fo_sub F (sn_uptime_seconds s) 0x404E000000000000))) (sn_auth_attempts s)\<rparr>"

definition system_handshake_timeouts :: "'t server_env \<Rightarrow> f64 \<Rightarrow> ('t, 'h) server_session \<Rightarrow> ('t, 'h) server_session" where
  "system_handshake_timeouts env dt s = (
     let s = s\<lparr>sn_uptime_seconds := fo_add (sve_floats env) (sn_uptime_seconds s) dt\<rparr>;
         s = forget_old_attempts (sve_floats env) s;
         (drops, verified, s) = fold (timeout_turn env dt) (map fst (sn_conns s)) ([], [], s);
         s = fold kick_duplicate_login verified s in
     fold (\<lambda>(c, reason). drop_conn c reason) drops s)"

section \<open>Signing in again\<close>

definition finish_reauth :: "float_ops \<Rightarrow> conn_id \<Rightarrow> 't conn \<Rightarrow> auth_outcome \<Rightarrow> ('t, 'h) server_session \<Rightarrow> ('t, 'h) server_session" where
  "finish_reauth F c cn outcome s = (
     let kick = kick_with_message c kAuthFailed (lit ''sign-in expired or revoked'') s in
     case (ao_login outcome, cn_login cn) of
       (Some l, Some old) \<Rightarrow>
         if \<not> ao_ok outcome then kick
         else if \<not> same_identity l old then kick
         else if sint (ld_issued_at l) < sint (ra_sent_at (cn_reauth cn)) - 60 then kick
         else
           let fresh = l\<lparr>ld_name := ld_name old\<rparr>; changed = (ld_claims_json fresh \<noteq> ld_claims_json old);
               s = update_conn c (\<lambda>cn. cn\<lparr>cn_login := Some fresh, cn_reauth := (cn_reauth cn)
                 \<lparr>ra_pending := False, ra_ticket := None, ra_nonce := [],
                  ra_timer := reauth_interval_for F (sn_config s) (cn_net_id cn)\<rparr>\<rparr>) s in
           if changed then s\<lparr>sn_login_changes := sn_login_changes s @ [(cn_net_id cn, fresh)]\<rparr> else s
     | _ \<Rightarrow> kick)"

definition request_reauth :: "'t server_env \<Rightarrow> f64 \<Rightarrow> conn_id \<Rightarrow> 't conn \<Rightarrow> ('t, 'h) server_session \<Rightarrow> ('t, 'h) server_session" where
  "request_reauth env dt c cn s = (
     let F = sve_floats env; cfg = sn_config s; timer = fo_sub F (ra_timer (cn_reauth cn)) dt;
         set_reauth = (\<lambda>f. update_conn c (\<lambda>cn. cn\<lparr>cn_reauth := f (cn_reauth cn)\<rparr>) s) in
     if fo_lt F f_zero timer then set_reauth (\<lambda>r. r\<lparr>ra_timer := timer\<rparr>)
     else case sh_auth_challenge (sve_host env) of
       None \<Rightarrow> set_reauth (\<lambda>r. r\<lparr>ra_timer := 0x4024000000000000\<rparr>)
     | Some challenge \<Rightarrow>
         if chal_nonce challenge = [] then set_reauth (\<lambda>r. r\<lparr>ra_timer := 0x4024000000000000\<rparr>)
         else send_message c kS2CReauthRequest (encode_S2CReauthRequest \<lparr>reauth_request_nonce = chal_nonce challenge,
             reauth_request_grace_seconds = ucast (min (sc_reauth_grace_seconds cfg) 65535)\<rparr>)
           (set_reauth (\<lambda>r. r\<lparr>ra_timer := timer, ra_nonce := chal_nonce challenge, ra_pending := True,
             ra_remaining := fo_of_u32 F (sc_reauth_grace_seconds cfg), ra_sent_at := sve_unix_time env, ra_ticket := None\<rparr>)))"

definition reauth_turn :: "'t server_env \<Rightarrow> f64 \<Rightarrow> conn_id \<Rightarrow> conn_id list \<times> ('t, 'h) server_session \<Rightarrow>
    conn_id list \<times> ('t, 'h) server_session" where
  "reauth_turn env dt c acc = (case acc of (kicks, s) \<Rightarrow> (case find_conn c s of
       None \<Rightarrow> acc
     | Some cn \<Rightarrow>
         if \<not> cn_playing cn \<or> cn_login cn = None then acc
         else if \<not> ra_pending (cn_reauth cn) then (kicks, request_reauth env dt c cn s)
         else
           let F = sve_floats env; remaining = fo_sub F (ra_remaining (cn_reauth cn)) dt;
               s = update_conn c (\<lambda>cn. cn\<lparr>cn_reauth := (cn_reauth cn)\<lparr>ra_remaining := remaining\<rparr>\<rparr>) s in
           case (case ra_ticket (cn_reauth cn) of None \<Rightarrow> None | Some t \<Rightarrow> sh_poll (sve_host env) t) of
             Some outcome \<Rightarrow> (kicks, finish_reauth F c cn outcome s)
           | None \<Rightarrow> if fo_le F remaining f_zero then (kicks @ [c], s) else (kicks, s)))"

definition system_reauth :: "'t server_env \<Rightarrow> f64 \<Rightarrow> ('t, 'h) server_session \<Rightarrow> ('t, 'h) server_session" where
  "system_reauth env dt s = (
     if sc_reauth_interval_seconds (sn_config s) = 0 \<or> sc_auth_mode (sn_config s) \<noteq> kAuthExternal then s
     else
       let (kicks, s) = fold (reauth_turn env dt) (map fst (sn_conns s)) ([], s) in
       fold (\<lambda>c. kick_with_message c kAuthFailed (lit ''sign-in expired or revoked'')) kicks s)"

end
