(* ===== verification/Session_Tick.thy ===== *)
theory Session_Tick
  imports Session_Network
begin

text \<open>
  The systems of \<open>ServerSession::tick\<close> after the network's, in their order, and the tick itself
  (\<open>net/session.cpp\<close>; \<open>ecs/system_runner.cpp\<close> runs them in the order they were added). \<open>None\<close> is a
  tick that does not return, which only the streaming of chunks could cause.
\<close>

section \<open>Time of day, hunger, health\<close>

definition system_advance_time_of_day :: "float_ops \<Rightarrow> f64 \<Rightarrow> ('t, 'h) server_session \<Rightarrow> ('t, 'h) server_session" where
  "system_advance_time_of_day F dt s = (
     let accum = fo_add F (sn_time_of_day_accum s) dt;
         s = s\<lparr>sn_time_of_day_ticks := advance_time_of_day F (sn_time_of_day_ticks s) dt (sn_day_length_seconds s),
               sn_time_of_day_accum := accum\<rparr> in
     if fo_le F f_one accum then broadcast_time_of_day F (s\<lparr>sn_time_of_day_accum := f_zero\<rparr>) else s)"

definition update_hunger :: "float_ops \<Rightarrow> f64 \<Rightarrow> ('t, 'h) server_session \<Rightarrow> ('t, 'h) server_session" where
  "update_hunger F dt s = (
     let decay = hp_decay_per_second (sn_hunger_params s); starve = hp_starvation_damage_per_second (sn_hunger_params s);
         dt = fo_to_f32 F dt in
     if fs_le F decay 0 then s
     else for_playing (\<lambda>c cn s.
       let hunger = fs_max F 0 (fs_sub F (pl_hunger (cn_entity cn)) (fs_mul F decay dt));
           s = update_entity c (\<lambda>p. p\<lparr>pl_hunger := hunger\<rparr>) s in
       if fs_le F hunger 0 \<and> fs_lt F 0 starve
       then update_conn c (apply_damage F (fs_mul F starve dt) (lit ''hunger'')) s else s) s)"

definition respawn :: "float_ops \<Rightarrow> ('t, 'h) session_hooks \<Rightarrow> conn_id \<Rightarrow> 't conn \<Rightarrow> ('t, 'h) server_session \<Rightarrow> ('t, 'h) server_session" where
  "respawn F hk c cn s = (
     let n = cn_net_id cn;
         (d, s) = (case hk_respawn hk of
             None \<Rightarrow> (\<lparr>rd_heal_to = pl_max_health (cn_entity cn), rd_pos = cn_spawn_pos cn,
               rd_message = lit ''* you died and respawned''\<rparr>, s)
           | Some f \<Rightarrow> f n (cn_death_cause cn) (cn_death_health_before cn) s);
         s = update_entity c (\<lambda>p. p\<lparr>pl_health := rd_heal_to d, pl_hunger := pl_max_hunger p, pl_pos := rd_pos d,
           pl_vel := vd_zero, pl_on_ground := False\<rparr>) s;
         s = upsert_entity n (\<lambda>e. e\<lparr>es_pos := rd_pos d, es_vel := vf_zero\<rparr>) s;
         s = (if rd_message d = [] then s else send_message c kS2CChat (encode_S2CChat \<lparr>schat_text = rd_message d\<rparr>) s) in
     update_conn c (\<lambda>cn. cn\<lparr>cn_death_cause := [], cn_death_health_before := 0\<rparr>) s)"

definition check_respawns :: "float_ops \<Rightarrow> ('t, 'h) session_hooks \<Rightarrow> ('t, 'h) server_session \<Rightarrow> ('t, 'h) server_session" where
  "check_respawns F hk = for_playing (\<lambda>c cn s.
     let fell = fo_lt F (vd_y (pl_pos (cn_entity cn))) (sn_void_kill_y s) \<and> fs_lt F 0 (pl_health (cn_entity cn));
         cn = (if fell then apply_damage F (pl_health (cn_entity cn)) (lit ''void'') cn else cn);
         s = update_conn c (\<lambda>_. cn) s in
     if fs_lt F 0 (pl_health (cn_entity cn)) then s else respawn F hk c cn s)"

definition status_of :: "player_entity \<Rightarrow> s2c_player_status" where
  "status_of p = \<lparr>stat_health = pl_health p, stat_max_health = pl_max_health p, stat_hunger = pl_hunger p,
     stat_max_hunger = pl_max_hunger p\<rparr>"

definition same_status :: "float_ops \<Rightarrow> s2c_player_status \<Rightarrow> s2c_player_status \<Rightarrow> bool" where
  "same_status F a b \<longleftrightarrow> fs_eq F (stat_health a) (stat_health b) \<and> fs_eq F (stat_max_health a) (stat_max_health b) \<and>
     fs_eq F (stat_hunger a) (stat_hunger b) \<and> fs_eq F (stat_max_hunger a) (stat_max_hunger b)"

definition sync_player_status :: "float_ops \<Rightarrow> ('t, 'h) server_session \<Rightarrow> ('t, 'h) server_session" where
  "sync_player_status F = for_playing (\<lambda>c cn s.
     let m = status_of (cn_entity cn) in
     if (case cn_last_status cn of None \<Rightarrow> False | Some sent \<Rightarrow> same_status F sent m) then s
     else update_conn c (\<lambda>cn. cn\<lparr>cn_last_status := Some m\<rparr>) (send_message c kS2CPlayerStatus (encode_S2CPlayerStatus m) s))"

section \<open>Drops, damage, regions\<close>

definition player_positions :: "('t, 'h) server_session \<Rightarrow> (net_id \<times> vec3d) list" where
  "player_positions s = List.map_filter (\<lambda>(c, cn). if \<not> cn_playing cn then None
     else map_option (\<lambda>e. (cn_net_id cn, es_pos e)) (grid_get (sn_interest s) (cn_net_id cn))) (sn_conns s)"

definition publish_drop :: "net_id \<Rightarrow> ('t, 'h) server_session \<Rightarrow> ('t, 'h) server_session" where
  "publish_drop n s = (case (find_drop n (sn_item_drops s), grid_get (sn_interest s) n) of
       (Some d, Some e) \<Rightarrow> s\<lparr>sn_interest := grid_upsert (e\<lparr>es_pos := dr_pos d\<rparr>) (sn_interest s)\<rparr>
     | _ \<Rightarrow> s)"

definition update_item_drops :: "float_ops \<Rightarrow> ('t, 'h) session_hooks \<Rightarrow> f64 \<Rightarrow> ('t, 'h) server_session \<Rightarrow> ('t, 'h) server_session" where
  "update_item_drops F hk dt s = (
     let (r, sys) = item_drops_tick F dt (player_positions s) (mp_height (sn_move_params s))
           (if sn_replicator s = None then None else Some (world_query s)) (sn_item_drops s);
         s = s\<lparr>sn_item_drops := sys\<rparr>;
         s = fold publish_drop (itr_moved r) s;
         s = s\<lparr>sn_interest := fold grid_remove (itr_removed r) (sn_interest s)\<rparr> in
     fold (\<lambda>p s. case hk_item_pickup hk of None \<Rightarrow> s | Some f \<Rightarrow> f (ipk_player p) (ipk_item p) (ipk_count p) s) (itr_pickups r) s)"

definition block_at_session :: "('t, 'h) server_session \<Rightarrow> ivec3 \<Rightarrow> block_id" where
  "block_at_session s p = (case sn_replicator s of None \<Rightarrow> kAir | Some rp \<Rightarrow> get_block (rep_world rp) p)"

definition commit_break :: "float_ops \<Rightarrow> lz4_api option \<Rightarrow> ('t, 'h) session_hooks \<Rightarrow> ivec3 \<times> net_id \<Rightarrow> ('t, 'h) server_session \<Rightarrow>
    ('t, 'h) server_session" where
  "commit_break F lz hk b s = (case sn_replicator s of
       None \<Rightarrow> s
     | Some rp \<Rightarrow>
         let (pos, n) = b;
             eye = (case grid_get (sn_interest s) n of None \<Rightarrow> vd_zero | Some e \<Rightarrow> eye_at F s (es_pos e));
             (by, _, s) = session_edit F hk n eye \<lparr>edit_predicted_seq = 0, edit_action = kBreak, edit_pos = pos, edit_block = 0\<rparr> rp s in
         deliver (edit_frames lz by) s)"

definition update_block_damage :: "float_ops \<Rightarrow> lz4_api option \<Rightarrow> ('t, 'h) session_hooks \<Rightarrow> ('t, 'h) server_session \<Rightarrow>
    ('t, 'h) server_session" where
  "update_block_damage F lz hk s = (
     if sn_replicator s = None then s
     else
       let dfn = (\<lambda>pos n max_damage s. case hk_tick_damage hk of None \<Rightarrow> (0, s) | Some f \<Rightarrow> f n pos (block_at_session s pos) max_damage s);
           hfn = (\<lambda>pos damage max_damage idle s. case hk_health_tick hk of None \<Rightarrow> (None, s)
             | Some f \<Rightarrow> f pos (block_at_session s pos) damage max_damage idle s);
           (r, ds, s) = damage_tick F (ucast (sn_server_tick s)) (Some dfn) (Some hfn) (sn_block_damage s) s in
       fold (commit_break F lz hk) (dtr_completed r) (s\<lparr>sn_block_damage := ds\<rparr>))"

text \<open>The healing loop of a punched block.\<close>

function heal_loop :: "float_ops \<Rightarrow> f64 \<Rightarrow> f64 \<Rightarrow> u16 \<Rightarrow> f64 \<times> u16" where
  "heal_loop F interval progress punches = (
     if fo_le F interval progress \<and> punches > 0
     then heal_loop F interval (fo_sub F progress interval) (punches - 1)
     else (progress, punches))"
  by pat_completeness auto

termination heal_loop
  by (relation "measure (\<lambda>(F, interval, progress, punches). unat punches)") (auto intro: measure_unat)

declare heal_loop.simps [simp del]

definition heal_turn :: "float_ops \<Rightarrow> f64 \<Rightarrow> ivec3 \<Rightarrow> ('t, 'h) server_session \<Rightarrow> ('t, 'h) server_session" where
  "heal_turn F dt pos s = (case map_of (sn_punch_counts s) pos of
       None \<Rightarrow> s
     | Some st \<Rightarrow>
         let p = sn_punch_params s; idle = fo_add F (pst_idle_seconds st) dt;
             (progress, punches) = (if fo_le F (pp_heal_after_seconds p) idle
               then heal_loop F (pp_heal_interval_seconds p) (fo_add F (pst_heal_progress st) dt) (pst_punches st)
               else (pst_heal_progress st, pst_punches st)) in
         if punches = 0
         then (let s = broadcast_block_damage pos 0 s in s\<lparr>sn_punch_counts := AList.delete pos (sn_punch_counts s)\<rparr>)
         else
           let s = s\<lparr>sn_punch_counts := AList.update pos
                 \<lparr>pst_punches = punches, pst_idle_seconds = idle, pst_heal_progress = progress\<rparr> (sn_punch_counts s)\<rparr> in
           if punches \<noteq> pst_punches st then broadcast_block_damage pos punches s else s)"

definition update_block_punch_healing :: "float_ops \<Rightarrow> f64 \<Rightarrow> ('t, 'h) server_session \<Rightarrow> ('t, 'h) server_session" where
  "update_block_punch_healing F dt s = (
     if fo_lt F (pp_heal_after_seconds (sn_punch_params s)) f_zero then s
     else fold (heal_turn F dt) (map fst (sn_punch_counts s)) s)"

definition occupancy_turn :: "float_ops \<Rightarrow> ('t, 'h) session_hooks \<Rightarrow> conn_id \<Rightarrow> 't conn \<Rightarrow> ('t, 'h) server_session \<Rightarrow>
    ('t, 'h) server_session" where
  "occupancy_turn F hk c cn s = (let n = cn_net_id cn in
     case (sn_replicator s, grid_get (sn_interest s) n) of
       (Some rp, Some e) \<Rightarrow>
         let voxel = voxel_of F (es_pos e); block = get_block (rep_world rp) voxel; reg = wo_registry (rep_world rp);
             inside = (br_contains block reg \<and> is_region reg block) in
         (case sn_region_occupancy s n of
            None \<Rightarrow> if \<not> inside then s
              else let s = s\<lparr>sn_region_occupancy := (sn_region_occupancy s)(n \<mapsto> (voxel, block))\<rparr> in
                (case hk_region_enter hk of None \<Rightarrow> s | Some f \<Rightarrow> f n voxel block s)
          | Some (last_voxel, last_block) \<Rightarrow> if inside
              then s\<lparr>sn_region_occupancy := (sn_region_occupancy s)(n \<mapsto> (voxel, block))\<rparr>
              else let s = s\<lparr>sn_region_occupancy := (sn_region_occupancy s)(n := None)\<rparr> in
                (case hk_region_exit hk of None \<Rightarrow> s | Some f \<Rightarrow> f n last_voxel last_block s))
     | _ \<Rightarrow> s)"

definition update_region_occupancy :: "float_ops \<Rightarrow> ('t, 'h) session_hooks \<Rightarrow> ('t, 'h) server_session \<Rightarrow> ('t, 'h) server_session" where
  "update_region_occupancy F hk s = (
     if sn_replicator s = None \<or> (hk_region_enter hk = None \<and> hk_region_exit hk = None) then s
     else for_playing (occupancy_turn F hk) s)"

section \<open>Replication\<close>

definition script_entity_state :: "float_ops \<Rightarrow> net_id \<Rightarrow> script_entity \<Rightarrow> entity_state" where
  "script_entity_state F n e = \<lparr>es_net_id = n, es_kind = sce_kind e, es_pos = sce_pos e,
     es_rot = (case sce_rot e of None \<Rightarrow> v2_zero | Some r \<Rightarrow> r),
     es_vel = (case sce_vel e of None \<Rightarrow> vf_zero | Some v \<Rightarrow> vf_of_vd F v)\<rparr>"

definition system_sync_interest :: "float_ops \<Rightarrow> ('t, 'h) server_session \<Rightarrow> ('t, 'h) server_session" where
  "system_sync_interest F s = s\<lparr>sn_interest :=
     fold (\<lambda>(n, e). grid_upsert (script_entity_state F n e)) (sn_script_entities s) (sn_interest s)\<rparr>"

definition to_record :: "entity_state \<Rightarrow> entity_visual_override option \<Rightarrow> u16 option \<Rightarrow> entity_record" where
  "to_record e ov item = \<lparr>er_net_id = es_net_id e, er_kind = es_kind e, er_pos = es_pos e, er_rot = es_rot e, er_vel = es_vel e,
     er_flags = 0, er_visual_override = ov, er_item = item\<rparr>"

definition pack_flags :: "bool \<Rightarrow> u8" where
  "pack_flags on_ground = (if on_ground then 1 else 0)"

definition entered_record :: "('t, 'h) server_session \<Rightarrow> net_id \<Rightarrow> entity_record option" where
  "entered_record s n = map_option (\<lambda>e. to_record e (sn_visual_overrides s n) (map_option dr_item (find_drop n (sn_item_drops s))))
     (grid_get (sn_interest s) n)"

definition updated_record :: "('t, 'h) server_session \<Rightarrow> net_id \<Rightarrow> entity_record option" where
  "updated_record s n = map_option (\<lambda>e. to_record e None None) (grid_get (sn_interest s) n)"

definition local_record :: "float_ops \<Rightarrow> 't conn \<Rightarrow> ('t, 'h) server_session \<Rightarrow> entity_record" where
  "local_record F cn s = (
     let p = cn_entity cn;
         r = to_record (case grid_get (sn_interest s) (cn_net_id cn) of None \<Rightarrow> default_entity_state | Some e \<Rightarrow> e) None None in
     r\<lparr>er_net_id := cn_net_id cn, er_pos := pl_pos p, er_vel := vf_of_vd F (pl_vel p),
       er_rot := \<lparr>v2_x = pl_yaw p, v2_y = pl_pitch p\<rparr>, er_flags := pack_flags (pl_on_ground p)\<rparr>)"

definition snapshot_for :: "'t server_env \<Rightarrow> 't conn \<Rightarrow> ('t, 'h) server_session \<Rightarrow> net_id list \<times> s2c_entity_snapshot" where
  "snapshot_for env cn s = (
     let n = cn_net_id cn;
         eye = (case grid_get (sn_interest s) n of None \<Rightarrow> vd_zero | Some e \<Rightarrow> es_pos e);
         visible = sve_visible env (sn_interest s) eye (sn_interest_radius s) n;
         d = diff_interest (cn_last_visible cn) visible in
     (visible, \<lparr>snap_server_tick = sn_server_tick s, snap_last_acked_input_seq = pl_last_seq (cn_entity cn),
        snap_entered = List.map_filter (entered_record s) (id_entered d),
        snap_updated = List.map_filter (updated_record s) (id_stayed d), snap_removed = id_left d,
        snap_has_local = cn_input_driven cn,
        snap_local = (if cn_input_driven cn then local_record (sve_floats env) cn s
                      else to_record default_entity_state None None)\<rparr>))"

definition snapshot_empty :: "s2c_entity_snapshot \<Rightarrow> bool" where
  "snapshot_empty snap \<longleftrightarrow> \<not> snap_has_local snap \<and> snap_entered snap = [] \<and> snap_updated snap = [] \<and> snap_removed snap = []"

definition broadcast_snapshots :: "'t server_env \<Rightarrow> ('t, 'h) server_session \<Rightarrow> ('t, 'h) server_session" where
  "broadcast_snapshots env = for_playing (\<lambda>c cn s.
     let (visible, snap) = snapshot_for env cn s;
         s = update_conn c (\<lambda>cn. cn\<lparr>cn_last_visible := visible\<rparr>) s in
     if snapshot_empty snap then s else send_message c kS2CEntitySnapshot (encode_S2CEntitySnapshot snap) s)"

definition broadcast_world :: "'t server_env \<Rightarrow> ('t, 'h) server_session \<Rightarrow> ('t, 'h) server_session option" where
  "broadcast_world env s = (case sn_replicator s of
       None \<Rightarrow> Some s
     | Some rp \<Rightarrow>
         let players = map (\<lambda>(c, cn). (cn_net_id cn, case grid_get (sn_interest s) (cn_net_id cn) of
               None \<Rightarrow> vd_zero | Some e \<Rightarrow> es_pos e)) (filter (\<lambda>(c, cn). cn_playing cn) (sn_conns s)) in
         map_option (\<lambda>(frames, rp). deliver frames (s\<lparr>sn_replicator := Some rp\<rparr>))
           (replicator_tick (sve_floats env) (sve_lz4 env) (sve_late env) (sve_order env) players rp))"

section \<open>The tick\<close>

text \<open>\<open>build_systems\<close>: every system but the last, which alone may not return.\<close>

definition systems :: "'t server_env \<Rightarrow> ('t, 'h) session_hooks \<Rightarrow> f64 \<Rightarrow> net_event list \<Rightarrow>
    (('t, 'h) server_session \<Rightarrow> ('t, 'h) server_session) list" where
  "systems env hk dt evs = (let F = sve_floats env; lz = sve_lz4 env in [
     system_network_io env hk dt evs, system_handshake_timeouts env dt, system_reauth env dt,
     system_advance_time_of_day F dt, update_hunger F dt, check_respawns F hk,
     (\<lambda>s. case hk_script_tick hk of None \<Rightarrow> s | Some f \<Rightarrow> f dt s),
     update_item_drops F hk dt, update_block_damage F lz hk, update_block_punch_healing F dt,
     update_region_occupancy F hk, sync_player_status F, system_sync_interest F,
     (\<lambda>s. s\<lparr>sn_server_tick := sn_server_tick s + 1\<rparr>), broadcast_snapshots env])"

definition run_systems :: "(('t, 'h) server_session \<Rightarrow> ('t, 'h) server_session) list \<Rightarrow> ('t, 'h) server_session \<Rightarrow> ('t, 'h) server_session" where
  "run_systems = fold (\<lambda>f s. f s)"

definition session_step :: "'t server_env \<Rightarrow> ('t, 'h) session_hooks \<Rightarrow> f64 \<Rightarrow> net_event list \<Rightarrow> ('t, 'h) server_session \<Rightarrow>
    ('t, 'h) server_session option" where
  "session_step env hk dt evs s = broadcast_world env (run_systems (systems env hk dt evs) s)"

end
