(* ===== verification/Session_Frame.thy ===== *)
theory Session_Frame
  imports Session_Tick
begin

text \<open>
  What most of a session's tick leaves alone: which connections there are, where each is in its
  handshake, who plays and under which login. The public methods a script may call keep this frame, so
  do hooks that are made of such calls, and so do all systems but the network's, the handshake timeouts'
  and the renewal of sign-ins.
\<close>

definition skeleton :: "('t, 'h) server_session \<Rightarrow> server_config \<times> nat \<times>
    (conn_id \<times> 't server_handshake \<times> bool \<times> net_id \<times> login_data option) list" where
  "skeleton s = (sn_config s, sn_playing s,
     map (\<lambda>(c, cn). (c, cn_handshake cn, cn_playing cn, cn_net_id cn, cn_login cn)) (sn_conns s))"

text \<open>A change of the session that keeps the frame, as long as the connections have distinct ids.\<close>

definition keeps_frame :: "('t, 'h) server_session \<Rightarrow> ('t, 'h) server_session \<Rightarrow> bool" where
  "keeps_frame s s' \<longleftrightarrow> (distinct (map fst (sn_conns s)) \<longrightarrow> skeleton s' = skeleton s)"

named_theorems frame_rules \<open>operations that keep the frame\<close>

lemma skeleton_ids: "skeleton s' = skeleton s \<Longrightarrow> map fst (sn_conns s') = map fst (sn_conns s)"
proof -
  assume "skeleton s' = skeleton s"
  then have "map fst (snd (snd (skeleton s'))) = map fst (snd (snd (skeleton s)))" by simp
  then show ?thesis by (simp add: skeleton_def comp_def case_prod_unfold)
qed

lemma keeps_frame_refl [frame_rules]: "keeps_frame s s"
  by (simp add: keeps_frame_def)

lemma keeps_frame_trans: "keeps_frame s s' \<Longrightarrow> keeps_frame s' s'' \<Longrightarrow> keeps_frame s s''"
  unfolding keeps_frame_def by (metis skeleton_ids)

lemma keeps_ids: "keeps_frame s s' \<Longrightarrow> distinct (map fst (sn_conns s)) \<Longrightarrow> distinct (map fst (sn_conns s'))"
  unfolding keeps_frame_def by (metis skeleton_ids)

lemma keeps_same: "skeleton s'' = skeleton s' \<Longrightarrow> keeps_frame s s'' \<longleftrightarrow> keeps_frame s s'"
  by (simp add: keeps_frame_def)

text \<open>The fields outside the frame.\<close>

lemma keeps_fields [simp]:
  "keeps_frame s (x\<lparr>sn_interest := a1\<rparr>) = keeps_frame s x" "keeps_frame s (x\<lparr>sn_replicator := a2\<rparr>) = keeps_frame s x"
  "keeps_frame s (x\<lparr>sn_item_drops := a3\<rparr>) = keeps_frame s x" "keeps_frame s (x\<lparr>sn_block_damage := a4\<rparr>) = keeps_frame s x"
  "keeps_frame s (x\<lparr>sn_region_occupancy := a5\<rparr>) = keeps_frame s x" "keeps_frame s (x\<lparr>sn_punch_counts := a6\<rparr>) = keeps_frame s x"
  "keeps_frame s (x\<lparr>sn_script_entities := a7\<rparr>) = keeps_frame s x" "keeps_frame s (x\<lparr>sn_visual_overrides := a8\<rparr>) = keeps_frame s x"
  "keeps_frame s (x\<lparr>sn_time_of_day_ticks := a9\<rparr>) = keeps_frame s x" "keeps_frame s (x\<lparr>sn_time_of_day_accum := a10\<rparr>) = keeps_frame s x"
  "keeps_frame s (x\<lparr>sn_uptime_seconds := a11\<rparr>) = keeps_frame s x" "keeps_frame s (x\<lparr>sn_auth_attempts := a12\<rparr>) = keeps_frame s x"
  "keeps_frame s (x\<lparr>sn_server_tick := a13\<rparr>) = keeps_frame s x" "keeps_frame s (x\<lparr>sn_next_net_id := a14\<rparr>) = keeps_frame s x"
  "keeps_frame s (x\<lparr>sn_next_script_entity_id := a15\<rparr>) = keeps_frame s x" "keeps_frame s (x\<lparr>sn_joins := a16\<rparr>) = keeps_frame s x"
  "keeps_frame s (x\<lparr>sn_leaves := a17\<rparr>) = keeps_frame s x" "keeps_frame s (x\<lparr>sn_login_changes := a18\<rparr>) = keeps_frame s x"
  "keeps_frame s (x\<lparr>sn_out := a19\<rparr>) = keeps_frame s x" "keeps_frame s (x\<lparr>sn_script := a20\<rparr>) = keeps_frame s x"
  by (simp_all add: keeps_frame_def skeleton_def)

definition same_frame :: "'t conn \<Rightarrow> 't conn \<Rightarrow> bool" where
  "same_frame cn cn' \<longleftrightarrow> cn_handshake cn' = cn_handshake cn \<and> cn_playing cn' = cn_playing cn \<and>
     cn_net_id cn' = cn_net_id cn \<and> cn_login cn' = cn_login cn"

lemma same_frame_refl [simp]: "same_frame cn cn"
  by (simp add: same_frame_def)

lemma same_frame_if: "(P \<Longrightarrow> same_frame a b) \<Longrightarrow> (\<not> P \<Longrightarrow> same_frame a c) \<Longrightarrow> same_frame a (if P then b else c)"
  by simp

lemma skeleton_map:
  "(\<And>c cn. (c, cn) \<in> set (sn_conns s) \<Longrightarrow> same_frame cn (f c cn)) \<Longrightarrow>
   skeleton (s\<lparr>sn_conns := map (\<lambda>(c, cn). (c, f c cn)) (sn_conns s)\<rparr>) = skeleton s"
  by (auto simp: skeleton_def same_frame_def)

lemma keeps_update_conn:
  assumes "keeps_frame s x" and "\<And>cn. same_frame cn (f cn)"
  shows "keeps_frame s (update_conn c f x)"
proof -
  have "skeleton (update_conn c f x) = skeleton x"
    unfolding update_conn_def
    by (rule skeleton_map [where f = "\<lambda>k cn. if k = c then f cn else cn"]) (rule same_frame_if [OF assms(2) same_frame_refl])
  from keeps_same [OF this] show ?thesis using assms(1) by simp
qed

text \<open>A connection that was looked up and is put back changed.\<close>

lemma keeps_put_conn:
  assumes "keeps_frame s x" and "find_conn c x = Some cn" and "same_frame cn cn'"
  shows "keeps_frame s (update_conn c (\<lambda>_. cn') x)"
proof (cases "distinct (map fst (sn_conns s))")
  case True
  then have d: "distinct (map fst (sn_conns x))" using assms(1) keeps_ids by blast
  have found: "b = cn" if "(c, b) \<in> set (sn_conns x)" for b
    using assms(2) map_of_is_SomeI [OF d that] unfolding find_conn_def by simp
  have "skeleton (update_conn c (\<lambda>_. cn') x) = skeleton x"
    unfolding update_conn_def
  proof (rule skeleton_map [where f = "\<lambda>k cn. if k = c then cn' else cn"])
    fix k b
    assume m: "(k, b) \<in> set (sn_conns x)"
    show "same_frame b (if k = c then cn' else b)"
    proof (rule same_frame_if [OF _ same_frame_refl])
      assume "k = c"
      with m have "b = cn" by (simp only: found)
      then show "same_frame b cn'" by (simp only: assms(3))
    qed
  qed
  from keeps_same [OF this] show ?thesis using assms(1) by simp
qed (simp add: keeps_frame_def)

lemma keeps_update_entity [frame_rules]: "keeps_frame s x \<Longrightarrow> keeps_frame s (update_entity c f x)"
  unfolding update_entity_def by (erule keeps_update_conn) (simp add: same_frame_def)

lemma keeps_fold:
  assumes "keeps_frame s x" and "\<And>a y. keeps_frame s y \<Longrightarrow> keeps_frame s (f a y)"
  shows "keeps_frame s (fold f xs x)"
  using assms(1) by (induction xs arbitrary: x) (simp_all add: assms(2))

lemma keeps_fold_snd:
  assumes "keeps_frame s (snd x)" and "\<And>a y. keeps_frame s (snd y) \<Longrightarrow> keeps_frame s (snd (f a y))"
  shows "keeps_frame s (snd (fold f xs x))"
  using assms(1) by (induction xs arbitrary: x) (simp_all add: assms(2))

lemma keeps_for_conns:
  assumes "keeps_frame s x" and "\<And>c cn y. keeps_frame s y \<Longrightarrow> find_conn c y = Some cn \<Longrightarrow> keeps_frame s (f c cn y)"
  shows "keeps_frame s (for_conns f x)"
  unfolding for_conns_def by (rule keeps_fold [OF assms(1)]) (auto split: option.split intro: assms(2))

lemma keeps_for_playing:
  assumes "keeps_frame s x" and "\<And>c cn y. keeps_frame s y \<Longrightarrow> find_conn c y = Some cn \<Longrightarrow> keeps_frame s (f c cn y)"
  shows "keeps_frame s (for_playing f x)"
  unfolding for_playing_def by (rule keeps_for_conns [OF assms(1)]) (simp add: assms(2))

section \<open>Sending\<close>

lemma keeps_send [frame_rules]: "keeps_frame s x \<Longrightarrow> keeps_frame s (send c f x)"
  by (simp add: send_def)

lemma keeps_send_frames [frame_rules]: "keeps_frame s x \<Longrightarrow> keeps_frame s (send_frames c fs x)"
  unfolding send_frames_def by (erule keeps_fold) (rule keeps_send)

lemma keeps_send_message [frame_rules]: "keeps_frame s x \<Longrightarrow> keeps_frame s (send_message c t e x)"
  unfolding send_message_def by (rule keeps_send)

lemma keeps_drop_conn [frame_rules]: "keeps_frame s x \<Longrightarrow> keeps_frame s (drop_conn c r x)"
  by (simp add: drop_conn_def split: option.split)

lemma keeps_broadcast [frame_rules]: "keeps_frame s x \<Longrightarrow> keeps_frame s (broadcast P t e x)"
  unfolding broadcast_def by (erule keeps_for_playing) (simp add: frame_rules)

lemma keeps_deliver [frame_rules]: "keeps_frame s x \<Longrightarrow> keeps_frame s (deliver fs x)"
  unfolding deliver_def by (erule keeps_fold) (simp add: frame_rules split: option.split prod.split)

lemma keeps_kick [frame_rules]: "keeps_frame s x \<Longrightarrow> keeps_frame s (kick_with_message c r m x)"
  unfolding kick_with_message_def by (intro frame_rules)

lemma keeps_kick_duplicate [frame_rules]: "keeps_frame s x \<Longrightarrow> keeps_frame s (kick_duplicate_login c x)"
  unfolding kick_duplicate_login_def
  by (auto split: option.split intro!: keeps_for_conns frame_rules)

section \<open>The scripting interface\<close>

lemma keeps_upsert [frame_rules]: "keeps_frame s x \<Longrightarrow> keeps_frame s (upsert_entity n f x)"
  by (simp add: upsert_entity_def)

lemma keeps_set_player_state [frame_rules]: "keeps_frame s x \<Longrightarrow> keeps_frame s (set_player_state F n p r v x)"
  by (auto simp: set_player_state_def split: option.split intro: frame_rules)

lemma keeps_teleport [frame_rules]: "keeps_frame s x \<Longrightarrow> keeps_frame s (snd (teleport_player F n p x))"
  by (auto simp: teleport_player_def Let_def split: option.split intro: frame_rules)

lemma keeps_set_velocity [frame_rules]: "keeps_frame s x \<Longrightarrow> keeps_frame s (set_player_velocity n v x)"
  by (auto simp: set_player_velocity_def split: option.split intro: frame_rules)

lemma keeps_spawn_drop [frame_rules]: "keeps_frame s x \<Longrightarrow> keeps_frame s (snd (spawn_item_drop F p i k x))"
  by (simp add: spawn_item_drop_def Let_def split: prod.split)

lemma keeps_script_entities [frame_rules]:
  "keeps_frame s x \<Longrightarrow> keeps_frame s (snd (spawn_script_entity kind p x))"
  "keeps_frame s x \<Longrightarrow> keeps_frame s (set_script_entity_state F n p r v x)"
  "keeps_frame s x \<Longrightarrow> keeps_frame s (remove_script_entity n x)"
  "keeps_frame s x \<Longrightarrow> keeps_frame s (set_script_entity_visual_override n ov x)"
  by (simp_all add: spawn_script_entity_def set_script_entity_state_def remove_script_entity_def
      set_script_entity_visual_override_def Let_def split: option.split)

lemma apply_damage_frame: "same_frame cn (apply_damage F a cause cn)"
  by (simp add: apply_damage_def same_frame_def Let_def)

lemma keeps_damage_player [frame_rules]: "keeps_frame s x \<Longrightarrow> keeps_frame s (damage_player F n a cause x)"
  by (auto simp: damage_player_def apply_damage_frame split: option.split intro!: keeps_update_conn)

lemma keeps_hunger [frame_rules]: "keeps_frame s x \<Longrightarrow> keeps_frame s (add_player_hunger F n a x)"
  by (auto simp: add_player_hunger_def split: option.split intro: frame_rules)

lemma keeps_set_health [frame_rules]: "keeps_frame s x \<Longrightarrow> keeps_frame s (snd (set_player_health F n v x))"
  by (auto simp: set_player_health_def Let_def apply_damage_frame split: option.split
      intro!: keeps_update_conn [OF _ apply_damage_frame] keeps_update_entity)

lemma keeps_kick_player [frame_rules]: "keeps_frame s x \<Longrightarrow> keeps_frame s (snd (kick_player n r x))"
  by (auto simp: kick_player_def Let_def intro: frame_rules)

lemma keeps_advance_reauth [frame_rules]: "keeps_frame s x \<Longrightarrow> keeps_frame s (snd (advance_reauth F n t x))"
  by (auto simp: advance_reauth_def Let_def split: option.split intro!: keeps_update_conn)
    (auto simp: same_frame_def)

lemma keeps_set_time [frame_rules]:
  "keeps_frame s x \<Longrightarrow> keeps_frame s (broadcast_time_of_day F x)" "keeps_frame s x \<Longrightarrow> keeps_frame s (set_time_of_day F t x)"
  by (simp_all add: broadcast_time_of_day_def set_time_of_day_def frame_rules)

lemma keeps_with_world [frame_rules]: "keeps_frame s x \<Longrightarrow> keeps_frame s (with_world w x)"
  by (simp add: with_world_def)

section \<open>Hooks\<close>

text \<open>What is asked of the hooks: like any caller of the public methods they keep the frame.\<close>

definition hooks_keep :: "('t, 'h) session_hooks \<Rightarrow> bool" where
  "hooks_keep hk \<longleftrightarrow>
     pred_option (\<lambda>f. \<forall>n e s. keeps_frame s (f n e s)) (hk_ui_event hk) \<and>
     pred_option (\<lambda>f. \<forall>n t s. keeps_frame s (snd (f n t s))) (hk_chat hk) \<and>
     pred_option (\<lambda>f. \<forall>n c s. keeps_frame s (snd (f n c s))) (hk_input hk) \<and>
     pred_option (\<lambda>f. \<forall>n b k s. keeps_frame s (f n b k s)) (hk_item_pickup hk) \<and>
     pred_option (\<lambda>f. \<forall>n p b s. keeps_frame s (snd (f n p b s))) (hk_break_begin hk) \<and>
     pred_option (\<lambda>f. \<forall>n p b m s. keeps_frame s (snd (f n p b m s))) (hk_tick_damage hk) \<and>
     pred_option (\<lambda>f. \<forall>p b d m i s. keeps_frame s (snd (f p b d m i s))) (hk_health_tick hk) \<and>
     pred_option (\<lambda>f. \<forall>n p b s. keeps_frame s (f n p b s)) (hk_region_enter hk) \<and>
     pred_option (\<lambda>f. \<forall>n p b s. keeps_frame s (f n p b s)) (hk_region_exit hk) \<and>
     pred_option (\<lambda>f. \<forall>n v s. keeps_frame s (f n v s)) (hk_landed hk) \<and>
     pred_option (\<lambda>f. \<forall>dt s. keeps_frame s (f dt s)) (hk_script_tick hk) \<and>
     pred_option (\<lambda>f. \<forall>n c h s. keeps_frame s (snd (f n c h s))) (hk_respawn hk) \<and>
     pred_option (\<lambda>f. \<forall>n p a b k s. keeps_frame s (snd (f n p a b k s))) (hk_before_edit hk) \<and>
     pred_option (\<lambda>f. \<forall>n p a b k s. keeps_frame s (f n p a b k s)) (hk_after_edit hk)"

lemma no_hooks_keep: "hooks_keep no_session_hooks"
  by (simp add: hooks_keep_def no_session_hooks_def)

lemma hook_keeps:
  assumes "hooks_keep hk" and "keeps_frame s x"
  shows "hk_ui_event hk = Some f1 \<Longrightarrow> keeps_frame s (f1 n e x)"
    and "hk_chat hk = Some f2 \<Longrightarrow> keeps_frame s (snd (f2 n t x))"
    and "hk_input hk = Some f3 \<Longrightarrow> keeps_frame s (snd (f3 n cmd x))"
    and "hk_item_pickup hk = Some f4 \<Longrightarrow> keeps_frame s (f4 n b k x)"
    and "hk_break_begin hk = Some f5 \<Longrightarrow> keeps_frame s (snd (f5 n p b x))"
    and "hk_tick_damage hk = Some f6 \<Longrightarrow> keeps_frame s (snd (f6 n p b m x))"
    and "hk_health_tick hk = Some f7 \<Longrightarrow> keeps_frame s (snd (f7 p b d m i x))"
    and "hk_region_enter hk = Some f8 \<Longrightarrow> keeps_frame s (f8 n p b x)"
    and "hk_region_exit hk = Some f9 \<Longrightarrow> keeps_frame s (f9 n p b x)"
    and "hk_landed hk = Some f10 \<Longrightarrow> keeps_frame s (f10 n v x)"
    and "hk_script_tick hk = Some f11 \<Longrightarrow> keeps_frame s (f11 dt x)"
    and "hk_respawn hk = Some f12 \<Longrightarrow> keeps_frame s (snd (f12 n ca h x))"
    and "hk_before_edit hk = Some f13 \<Longrightarrow> keeps_frame s (snd (f13 n p old new brk x))"
    and "hk_after_edit hk = Some f14 \<Longrightarrow> keeps_frame s (f14 n p old new brk x)"
  by (rule keeps_frame_trans [OF assms(2)], use assms(1) in \<open>simp add: hooks_keep_def\<close>)+

section \<open>Player actions\<close>

lemma keeps_simulate [frame_rules]:
  "hooks_keep hk \<Longrightarrow> keeps_frame s (snd ms) \<Longrightarrow> keeps_frame s (snd (simulate_cmd F hk n cmd ms))"
  by (auto simp: simulate_cmd_def Let_def intro: hook_keeps split: prod.split option.split)

lemma keeps_input_step [frame_rules]:
  assumes "hooks_keep hk" and "keeps_frame s (snd ms)"
  shows "keeps_frame s (snd (input_step F hk c n cmd ms))"
proof (cases "find_conn c (snd ms)")
  case None
  then show ?thesis using assms(2) by (simp add: input_step_def case_prod_unfold)
next
  case (Some cn)
  define h where "h = (case hk_input hk of None \<Rightarrow> (\<lparr>ihr_veto = False, ihr_replacement = None\<rparr>, snd ms) | Some f \<Rightarrow> f n cmd (snd ms))"
  have h: "keeps_frame s (snd h)" using assms by (auto simp: h_def intro: hook_keeps split: option.split)
  have sim: "keeps_frame s (snd (simulate_cmd F hk n cmd' (fst ms, snd h)))" for cmd'
    using h assms(1) by (intro frame_rules) simp_all
  show ?thesis using Some h assms(2) sim
    by (auto simp: input_step_def h_def [symmetric] case_prod_unfold Let_def intro: frame_rules)
qed

lemma keeps_store_move [frame_rules]: "keeps_frame s x \<Longrightarrow> keeps_frame s (store_move F c n move x)"
  unfolding store_move_def Let_def
  by (auto split: option.split intro!: frame_rules keeps_update_conn simp: same_frame_def)

lemma keeps_input_batch [frame_rules]:
  assumes "hooks_keep hk" and "keeps_frame s x"
  shows "keeps_frame s (handle_input_batch F hk c batch x)"
proof -
  have "keeps_frame s (snd (fold (input_step F hk c n) cmds (m, x)))" for n cmds m
    by (rule keeps_fold_snd) (simp_all add: assms frame_rules)
  then show ?thesis using assms(2)
    by (auto simp: handle_input_batch_def case_prod_unfold Let_def intro: frame_rules split: option.split)
qed

lemma keeps_edit_effects [frame_rules]:
  assumes "hooks_keep hk" and "keeps_frame s x"
  shows "keeps_frame s (edit_effects F hk editor eye e rp x)"
proof -
  have b: "keeps_frame s (snd (before_edit hk editor p old new brk x))" for p old new brk
    using assms by (auto simp: before_edit_def intro: hook_keeps split: option.split)
  have a: "keeps_frame s (after_edit hk editor p old new brk w y)" if "keeps_frame s y" for p old new brk w y
    using assms that by (auto simp: after_edit_def intro: hook_keeps frame_rules split: option.split)
  show ?thesis using assms(2) a b
    by (auto simp: edit_effects_def case_prod_unfold Let_def split: option.split)
qed

lemma keeps_session_edit [frame_rules]:
  "hooks_keep hk \<Longrightarrow> keeps_frame s x \<Longrightarrow> keeps_frame s (snd (snd (session_edit F hk editor eye e rp x)))"
  by (simp add: session_edit_def case_prod_unfold Let_def frame_rules)

lemma keeps_block_edit [frame_rules]:
  "hooks_keep hk \<Longrightarrow> keeps_frame s x \<Longrightarrow> keeps_frame s (handle_block_edit F lz hk c fr x)"
  by (auto simp: handle_block_edit_def case_prod_unfold Let_def intro!: frame_rules split: option.split sum.split)

lemma keeps_script_edit [frame_rules]:
  "hooks_keep hk \<Longrightarrow> keeps_frame s x \<Longrightarrow> keeps_frame s (snd (apply_script_block_edit F lz hk editor action pos block x))"
  by (auto simp: apply_script_block_edit_def case_prod_unfold Let_def intro!: frame_rules split: option.split)

lemma keeps_block_damage [frame_rules]: "keeps_frame s x \<Longrightarrow> keeps_frame s (broadcast_block_damage pos k x)"
  by (auto simp: broadcast_block_damage_def Let_def intro!: frame_rules split: option.split)

lemma keeps_punch_block [frame_rules]:
  assumes "hooks_keep hk" and "keeps_frame s x"
  shows "keeps_frame s (snd (punch_block F lz hk puncher d v rp x))"
proof -
  have "keeps_frame s (snd (apply_script_block_edit F lz hk puncher action v b y))" if "keeps_frame s y" for action b y
    using assms(1) that by (rule frame_rules)
  then show ?thesis using assms(2)
    by (simp add: punch_block_def case_prod_unfold Let_def frame_rules)
qed

lemma keeps_punch [frame_rules]:
  assumes "hooks_keep hk" and "keeps_frame s x"
  shows "keeps_frame s (snd (punch F lz hk puncher d x))"
proof -
  have "keeps_frame s (update_conn c (\<lambda>cn. cn\<lparr>cn_punch_cooldown := t\<rparr>) x)" for c t
    using assms(2) by (rule keeps_update_conn) (simp add: same_frame_def)
  then show ?thesis using assms
    by (auto simp: punch_def case_prod_unfold Let_def intro!: frame_rules split: option.split)
qed

lemma keeps_break_begin [frame_rules]:
  "hooks_keep hk \<Longrightarrow> keeps_frame s x \<Longrightarrow> keeps_frame s (handle_block_break_begin F hk c fr x)"
  by (auto simp: handle_block_break_begin_def case_prod_unfold Let_def intro: hook_keeps split: option.split sum.split)

lemma keeps_break_stop [frame_rules]: "keeps_frame s x \<Longrightarrow> keeps_frame s (handle_block_break_stop c fr x)"
  by (simp add: handle_block_break_stop_def split: option.split sum.split)

lemma keeps_chat [frame_rules]: "hooks_keep hk \<Longrightarrow> keeps_frame s x \<Longrightarrow> keeps_frame s (handle_chat hk c fr x)"
  by (auto simp: handle_chat_def case_prod_unfold Let_def intro!: frame_rules intro: hook_keeps split: option.split sum.split)

section \<open>Systems\<close>

lemma keeps_reauth_message [frame_rules]: "keeps_frame s x \<Longrightarrow> keeps_frame s (on_reauth_message host c fr cn x)"
  by (auto simp: on_reauth_message_def Let_def same_frame_def intro!: keeps_update_conn split: option.split sum.split)

lemma keeps_playing_message [frame_rules]:
  assumes "hooks_keep hk" and "keeps_frame s x"
  shows "keeps_frame s (on_playing_message env hk c fr cn x)"
proof -
  have t: "keeps_frame s (update_conn c (\<lambda>cn. cn\<lparr>cn_msg_tokens := t cn\<rparr>) x)" for t
    using assms(2) by (rule keeps_update_conn) (simp add: same_frame_def)
  have u: "keeps_frame s (case (d, hk_ui_event hk) of (Inr e, Some f) \<Rightarrow> f (cn_net_id cn) e y | _ \<Rightarrow> y)" if "keeps_frame s y" for d :: "protocol_error + c2s_ui_event" and y
    using assms(1) that by (auto intro: hook_keeps split: sum.split option.split)
  have "keeps_frame s (if a1 then case d of Inl _ \<Rightarrow> y | Inr b \<Rightarrow> handle_input_batch F hk c b y
      else if a2 then handle_block_edit F lz hk c fr y else if a3 then (case (d', hk_ui_event hk) of (Inr e, Some f) \<Rightarrow> f (cn_net_id cn) e y | _ \<Rightarrow> y)
      else if a4 then handle_chat hk c fr y else if a5 then on_reauth_message host c fr cn y
      else if a6 then handle_block_break_begin F hk c fr y else if a7 then handle_block_break_stop c fr y else y)"
    if "keeps_frame s y" for a1 a2 a3 a4 a5 a6 a7 F lz host y and d :: "protocol_error + c2s_input_batch" and d' :: "protocol_error + c2s_ui_event"
    using assms(1) that u by (simp add: frame_rules split: sum.split)
  with assms(2) t show ?thesis by (simp add: on_playing_message_def Let_def)
qed

lemma keeps_refill [frame_rules]: "keeps_frame s x \<Longrightarrow> keeps_frame s (refill_tokens F dt x)"
proof -
  assume k: "keeps_frame s x"
  have "skeleton (x\<lparr>sn_conns := map (\<lambda>(c, cn). (c, cn\<lparr>cn_msg_tokens := t cn\<rparr>)) (sn_conns x)\<rparr>) = skeleton x" for t
    by (rule skeleton_map) (simp add: same_frame_def)
  from keeps_same [OF this] k show ?thesis by (simp add: refill_tokens_def Let_def)
qed

lemma keeps_cooldowns [frame_rules]: "keeps_frame s x \<Longrightarrow> keeps_frame s (run_cooldowns F dt x)"
proof -
  assume k: "keeps_frame s x"
  have "skeleton (x\<lparr>sn_conns := map (\<lambda>(c, cn). (c, if P cn then cn\<lparr>cn_punch_cooldown := t cn\<rparr> else cn)) (sn_conns x)\<rparr>) = skeleton x" for P t
    by (rule skeleton_map) (simp add: same_frame_def)
  from keeps_same [OF this] k show ?thesis by (simp add: run_cooldowns_def)
qed

lemma keeps_time_of_day [frame_rules]: "keeps_frame s x \<Longrightarrow> keeps_frame s (system_advance_time_of_day F dt x)"
  by (simp add: system_advance_time_of_day_def Let_def frame_rules)

lemma keeps_update_hunger [frame_rules]: "keeps_frame s x \<Longrightarrow> keeps_frame s (update_hunger F dt x)"
  by (auto simp: update_hunger_def Let_def apply_damage_frame intro!: keeps_for_playing keeps_update_conn frame_rules)

lemma keeps_respawn [frame_rules]:
  assumes "hooks_keep hk" and "keeps_frame s x"
  shows "keeps_frame s (respawn F hk c cn x)"
proof -
  have h: "keeps_frame s (snd (case hk_respawn hk of None \<Rightarrow> (d, x) | Some f \<Rightarrow> f n ca b x))" for d n ca b
    using assms by (auto intro: hook_keeps split: option.split)
  show ?thesis unfolding respawn_def Let_def case_prod_unfold
    by (rule keeps_update_conn) (auto intro!: frame_rules h simp: same_frame_def)
qed

lemma keeps_check_respawns [frame_rules]:
  assumes "hooks_keep hk" and "keeps_frame s x"
  shows "keeps_frame s (check_respawns F hk x)"
  unfolding check_respawns_def Let_def
  by (rule keeps_for_playing [OF assms(2)])
    (auto simp: apply_damage_frame intro!: keeps_respawn assms(1) keeps_put_conn)

lemma keeps_sync_status [frame_rules]: "keeps_frame s x \<Longrightarrow> keeps_frame s (sync_player_status F x)"
  by (auto simp: sync_player_status_def Let_def same_frame_def
      intro!: keeps_for_playing keeps_update_conn frame_rules split: option.split)

lemma keeps_item_drops [frame_rules]:
  assumes "hooks_keep hk" and "keeps_frame s x"
  shows "keeps_frame s (update_item_drops F hk dt x)"
proof -
  have publish: "keeps_frame s (publish_drop n y)" if "keeps_frame s y" for n y
    using that by (simp add: publish_drop_def split: option.split)
  have "keeps_frame s (fold publish_drop ns (x\<lparr>sn_item_drops := d\<rparr>))" for ns d
    by (rule keeps_fold) (simp_all add: assms(2) publish)
  then show ?thesis unfolding update_item_drops_def Let_def case_prod_unfold
    by (intro keeps_fold) (auto intro: hook_keeps assms(1) split: option.split)
qed

lemma keeps_damage_tick:
  assumes "keeps_frame s x" and "\<And>pos n m y. keeps_frame s y \<Longrightarrow> keeps_frame s (snd (dfn pos n m y))"
    and "\<And>pos d m i y. keeps_frame s y \<Longrightarrow> keeps_frame s (snd (hfn pos d m i y))"
  shows "keeps_frame s (snd (snd (damage_tick F t (Some dfn) (Some hfn) ds x)))"
  using assms(1)
proof (induction ds arbitrary: x)
  case (Cons d ds)
  have "keeps_frame s (snd (fold (\<lambda>n (delta, e). let (d, e) = dfn pos n m e in (fs_add F delta d, e)) ns (f, x)))" for pos m ns f
    by (rule keeps_fold_snd) (auto simp: Cons.prems case_prod_unfold Let_def assms(2))
  then have a: "keeps_frame s (snd (accrue F t (Some dfn) pos (b, x)))" for pos b
    by (simp add: accrue_def damage_accrual_def case_prod_unfold Let_def)
  have h: "keeps_frame s (snd (heal F t (Some hfn) pos se))" if "keeps_frame s (snd se)" for pos se
    using that by (simp add: heal_def case_prod_unfold Let_def assms(3))
  show ?case using Cons.IH [OF h [OF a]]
    by (simp add: case_prod_unfold Let_def)
qed simp

lemma keeps_commit_break [frame_rules]:
  "hooks_keep hk \<Longrightarrow> keeps_frame s x \<Longrightarrow> keeps_frame s (commit_break F lz hk b x)"
  by (auto simp: commit_break_def case_prod_unfold Let_def intro!: frame_rules split: option.split)

lemma keeps_update_block_damage [frame_rules]:
  assumes "hooks_keep hk" and "keeps_frame s x"
  shows "keeps_frame s (update_block_damage F lz hk x)"
proof -
  have "keeps_frame s (snd (snd (damage_tick F t
      (Some (\<lambda>pos n m y. case hk_tick_damage hk of None \<Rightarrow> (0, y) | Some f \<Rightarrow> f n pos (block_at_session y pos) m y))
      (Some (\<lambda>pos d m i y. case hk_health_tick hk of None \<Rightarrow> (None, y) | Some f \<Rightarrow> f pos (block_at_session y pos) d m i y)) ds x)))" for t ds
    by (rule keeps_damage_tick [OF assms(2)]) (auto intro: hook_keeps assms(1) split: option.split)
  then show ?thesis using assms(2) unfolding update_block_damage_def Let_def case_prod_unfold
    by (auto intro!: keeps_fold frame_rules assms(1))
qed

lemma keeps_heal_turn [frame_rules]: "keeps_frame s x \<Longrightarrow> keeps_frame s (heal_turn F dt pos x)"
  by (simp add: heal_turn_def case_prod_unfold Let_def frame_rules split: option.split)

lemma keeps_healing [frame_rules]: "keeps_frame s x \<Longrightarrow> keeps_frame s (update_block_punch_healing F dt x)"
  by (simp add: update_block_punch_healing_def keeps_fold frame_rules)

lemma keeps_region [frame_rules]:
  assumes "hooks_keep hk" and "keeps_frame s x"
  shows "keeps_frame s (update_region_occupancy F hk x)"
proof -
  have "keeps_frame s (case hk_region_enter hk of None \<Rightarrow> y | Some f \<Rightarrow> f n p b y)"
    and "keeps_frame s (case hk_region_exit hk of None \<Rightarrow> y | Some f \<Rightarrow> f n p b y)" if "keeps_frame s y" for n p b y
    using assms(1) that by (auto intro: hook_keeps split: option.split)
  then have "keeps_frame s (occupancy_turn F hk c cn y)" if "keeps_frame s y" for c cn y
    using that by (simp add: occupancy_turn_def Let_def split: option.split prod.split)
  then show ?thesis using assms(2)
    by (simp add: update_region_occupancy_def keeps_for_playing)
qed

lemma keeps_sync_interest [frame_rules]: "keeps_frame s x \<Longrightarrow> keeps_frame s (system_sync_interest F x)"
  by (simp add: system_sync_interest_def)

lemma keeps_snapshots [frame_rules]: "keeps_frame s x \<Longrightarrow> keeps_frame s (broadcast_snapshots env x)"
  unfolding broadcast_snapshots_def case_prod_unfold Let_def
  by (erule keeps_for_playing) (auto simp: same_frame_def intro!: keeps_update_conn frame_rules)

lemma keeps_broadcast_world: "keeps_frame s x \<Longrightarrow> broadcast_world env x = Some y \<Longrightarrow> keeps_frame s y"
  by (auto simp: broadcast_world_def Let_def split: option.splits intro!: frame_rules)

text \<open>Every system from the clock on.\<close>

lemma keeps_late_systems:
  assumes "hooks_keep hk" and "keeps_frame s x"
  shows "keeps_frame s (run_systems (drop 3 (systems env hk dt evs)) x)"
proof -
  have "keeps_frame s (case hk_script_tick hk of None \<Rightarrow> y | Some f \<Rightarrow> f dt y)" if "keeps_frame s y" for y
    using assms(1) that by (auto intro: hook_keeps split: option.split)
  then show ?thesis using assms by (simp add: run_systems_def systems_def Let_def frame_rules)
qed

end
