(* ===== verification/Session_Safety.thy ===== *)
theory Session_Safety
  imports Session_Frame
begin

text \<open>
  The invariant of \<open>ServerSession\<close>: its connections are in the order of their ids, \<open>playing_\<close> counts
  those that play, each handshake is in a state its machine reaches, who plays has completed it, and with
  external authentication plays under a login of the identity its handshake verified, renewed or not. It
  holds in every state the session's ticks and the public methods lead to.
\<close>

definition conn_ok :: "server_config \<Rightarrow> 't conn \<Rightarrow> bool" where
  "conn_ok cfg cn \<longleftrightarrow> srv_inv cfg (cn_handshake cn) \<and>
     (cn_playing cn \<longrightarrow> sv_state (cn_handshake cn) = kPlaying \<and>
       (sc_auth_mode cfg = kAuthExternal \<longrightarrow> (\<exists>l v. cn_login cn = Some l \<and> sv_login (cn_handshake cn) = Some v \<and>
          same_identity l v \<and> ld_name l = ld_name v)))"

definition session_ok :: "server_config \<Rightarrow> ('t, 'h) server_session \<Rightarrow> bool" where
  "session_ok cfg s \<longleftrightarrow> sn_config s = cfg \<and> sorted_wrt (<) (map fst (sn_conns s)) \<and>
     sn_playing s = length (filter (\<lambda>(c, cn). cn_playing cn) (sn_conns s)) \<and>
     (\<forall>(c, cn) \<in> set (sn_conns s). conn_ok cfg cn)"

lemma ok_distinct: "session_ok cfg s \<Longrightarrow> distinct (map fst (sn_conns s))"
  by (simp add: session_ok_def strict_sorted_iff)

lemma ok_found: "session_ok cfg s \<Longrightarrow> find_conn c s = Some cn \<Longrightarrow> conn_ok cfg cn"
  by (auto simp: session_ok_def find_conn_def dest: map_of_SomeD)

text \<open>The invariant is one of the frame.\<close>

lemma skeleton_ok: "skeleton s' = skeleton s \<Longrightarrow> session_ok cfg s' = session_ok cfg s"
proof -
  let ?ok = "\<lambda>(cfg', n, cs). cfg' = cfg \<and> sorted_wrt (<) (map fst cs) \<and> n = length (filter (\<lambda>(c, h, p, i, l). p) cs) \<and>
    (\<forall>(c, h, p, i, l) \<in> set cs. srv_inv cfg h \<and> (p \<longrightarrow> sv_state h = kPlaying \<and>
       (sc_auth_mode cfg = kAuthExternal \<longrightarrow> (\<exists>l' v. l = Some l' \<and> sv_login h = Some v \<and> same_identity l' v \<and> ld_name l' = ld_name v))))"
  have "session_ok cfg s = ?ok (skeleton s)" for s
    by (simp add: session_ok_def conn_ok_def skeleton_def comp_def case_prod_unfold filter_map)
  note eq = this
  show "skeleton s' = skeleton s \<Longrightarrow> session_ok cfg s' = session_ok cfg s" unfolding eq [of s] eq [of s'] by (rule arg_cong)
qed

lemma keeps_ok: "keeps_frame s s' \<Longrightarrow> session_ok cfg s \<Longrightarrow> session_ok cfg s'"
  by (metis keeps_frame_def ok_distinct skeleton_ok)

lemma keeps_found:
  fixes s s' :: "('t, 'h) server_session"
  assumes "keeps_frame s s'" and "distinct (map fst (sn_conns s))" and "find_conn c s = Some cn"
  shows "\<exists>cn'. find_conn c s' = Some cn' \<and> same_frame cn cn'"
proof -
  let ?f = "\<lambda>cn. (cn_handshake cn, cn_playing cn, cn_net_id cn, cn_login cn)"
  have m: "map_of (map (\<lambda>(c, cn). (c, ?f cn)) l) k = map_option ?f (map_of l k)" for l :: "(conn_id \<times> 't conn) list" and k
    by (induction l) auto
  have "map (\<lambda>(c, cn). (c, ?f cn)) (sn_conns s') = map (\<lambda>(c, cn). (c, ?f cn)) (sn_conns s)"
    using assms(1, 2) by (simp add: keeps_frame_def skeleton_def)
  then have "map_option ?f (find_conn c s') = map_option ?f (find_conn c s)"
    unfolding find_conn_def by (simp only: m [symmetric])
  then show ?thesis using assms(3) by (auto simp: same_frame_def)
qed

section \<open>One connection\<close>

lemma session_update_ok:
  assumes "session_ok cfg s" and "find_conn c s = Some cn" and "conn_ok cfg (f cn)" and "cn_playing (f cn) = cn_playing cn"
  shows "session_ok cfg (update_conn c f s)"
proof -
  have one: "b = cn" if "(c, b) \<in> set (sn_conns s)" for b
    using assms(2) map_of_is_SomeI [OF ok_distinct [OF assms(1)] that] by (simp add: find_conn_def)
  have conns: "sn_conns (update_conn c f s) = map (\<lambda>(k, b). (k, if k = c then f b else b)) (sn_conns s)"
    "sn_playing (update_conn c f s) = sn_playing s" "sn_config (update_conn c f s) = sn_config s"
    by (simp_all add: update_conn_def)
  have ids: "map fst (map (\<lambda>(k, b). (k, if k = c then f b else b)) (sn_conns s)) = map fst (sn_conns s)"
    by (simp add: comp_def case_prod_unfold)
  have playing: "filter (\<lambda>(k, b). cn_playing b) (map (\<lambda>(k, b). (k, if k = c then f b else b)) l) =
      map (\<lambda>(k, b). (k, if k = c then f b else b)) (filter (\<lambda>(k, b). cn_playing b) l)" if "set l \<subseteq> set (sn_conns s)" for l
    using that
  proof (induction l)
    case (Cons x l)
    moreover have "cn_playing (if fst x = c then f (snd x) else snd x) = cn_playing (snd x)"
      using Cons.prems one [of "snd x"] assms(4) by (cases x) auto
    ultimately show ?case by (simp add: case_prod_unfold)
  qed simp
  have each: "conn_ok cfg (if k = c then f b else b)" if "(k, b) \<in> set (sn_conns s)" for k b
    using that assms(1, 3) one by (auto simp: session_ok_def)
  show ?thesis unfolding session_ok_def conns ids playing [OF subset_refl] length_map
    using assms(1) each by (fastforce simp: session_ok_def)
qed

lemma ok_send [simp]:
  "session_ok cfg (send_frames c fs s) = session_ok cfg s" "session_ok cfg (send_message c t e s) = session_ok cfg s"
  "session_ok cfg (s\<lparr>sn_out := out\<rparr>) = session_ok cfg s"
proof -
  have out: "skeleton (s\<lparr>sn_out := out\<rparr>) = skeleton s" for out and s :: "('a, 'b) server_session"
    by (simp add: skeleton_def)
  have "skeleton (send_frames c fs s) = skeleton s"
    by (induction fs arbitrary: s) (simp_all add: send_frames_def send_def out)
  from skeleton_ok [OF this] show "session_ok cfg (send_frames c fs s) = session_ok cfg s" .
  show "session_ok cfg (s\<lparr>sn_out := out\<rparr>) = session_ok cfg s" by (rule skeleton_ok [OF out])
  show "session_ok cfg (send_message c t e s) = session_ok cfg s"
    unfolding send_message_def send_def by (rule skeleton_ok [OF out])
qed

lemma ok_fields [simp]:
  "session_ok cfg (x\<lparr>sn_interest := a1\<rparr>) = session_ok cfg x" "session_ok cfg (x\<lparr>sn_joins := a2\<rparr>) = session_ok cfg x"
  "session_ok cfg (x\<lparr>sn_leaves := a3\<rparr>) = session_ok cfg x" "session_ok cfg (x\<lparr>sn_block_damage := a4\<rparr>) = session_ok cfg x"
  "session_ok cfg (x\<lparr>sn_region_occupancy := a5\<rparr>) = session_ok cfg x" "session_ok cfg (x\<lparr>sn_replicator := a6\<rparr>) = session_ok cfg x"
  "session_ok cfg (x\<lparr>sn_login_changes := a7\<rparr>) = session_ok cfg x" "session_ok cfg (x\<lparr>sn_next_net_id := a8\<rparr>) = session_ok cfg x"
  "session_ok cfg (x\<lparr>sn_auth_attempts := a9\<rparr>) = session_ok cfg x" "session_ok cfg (x\<lparr>sn_uptime_seconds := a10\<rparr>) = session_ok cfg x"
  by (simp_all add: session_ok_def)

section \<open>Connections come, join and go\<close>

lemma playing_joins:
  assumes "distinct (map fst l)" and "map_of l c = Some cn" and "\<not> cn_playing cn" and "cn_playing (f cn)"
  shows "length (filter (\<lambda>(k, b). cn_playing b) (map (\<lambda>(k, b). (k, if k = c then f b else b)) l)) =
    length (filter (\<lambda>(k, b). cn_playing b) l) + 1"
  using assms
proof (induction l)
  case (Cons x l)
  obtain k b where x: "x = (k, b)" by (cases x)
  show ?case
  proof (cases "k = c")
    case True
    then have "map (\<lambda>(k, b). (k, if k = c then f b else b)) l = l"
      using Cons.prems(1) x by (force intro!: map_idI)
    then show ?thesis using Cons.prems True x by simp
  next
    case False
    then show ?thesis using Cons x by simp
  qed
qed simp

lemma join_ok:
  assumes ok: "session_ok cfg s" and found: "find_conn c s = Some cn" and "\<not> cn_playing cn"
    and "cn_playing (f cn)" and "conn_ok cfg (f cn)"
  shows "session_ok cfg ((update_conn c f s)\<lparr>sn_playing := sn_playing s + 1\<rparr>)"
proof -
  have one: "b = cn" if "(c, b) \<in> set (sn_conns s)" for b
    using found map_of_is_SomeI [OF ok_distinct [OF ok] that] by (simp add: find_conn_def)
  have conns: "sn_conns ((update_conn c f s)\<lparr>sn_playing := sn_playing s + 1\<rparr>) =
      map (\<lambda>(k, b). (k, if k = c then f b else b)) (sn_conns s)"
    "sn_playing ((update_conn c f s)\<lparr>sn_playing := sn_playing s + 1\<rparr>) = sn_playing s + 1"
    "sn_config ((update_conn c f s)\<lparr>sn_playing := sn_playing s + 1\<rparr>) = sn_config s"
    by (simp_all add: update_conn_def)
  have ids: "map fst (map (\<lambda>(k, b). (k, if k = c then f b else b)) (sn_conns s)) = map fst (sn_conns s)"
    by (simp add: comp_def case_prod_unfold)
  have playing: "length (filter (\<lambda>(k, b). cn_playing b) (map (\<lambda>(k, b). (k, if k = c then f b else b)) (sn_conns s))) =
    length (filter (\<lambda>(k, b). cn_playing b) (sn_conns s)) + 1"
    using ok_distinct [OF ok] found assms(3, 4) unfolding find_conn_def by (rule playing_joins)
  have each: "conn_ok cfg (if k = c then f b else b)" if "(k, b) \<in> set (sn_conns s)" for k b
    using that ok assms(5) one by (auto simp: session_ok_def)
  show ?thesis unfolding session_ok_def conns ids playing
    using ok each by (fastforce simp: session_ok_def)
qed

lemma complete_join_ok:
  assumes "session_ok cfg s" and "find_conn c s = Some cn" and "\<not> cn_playing cn"
    and "sv_state (cn_handshake cn) = kPlaying"
  shows "session_ok cfg (complete_join F c name s)"
proof -
  let ?f = "\<lambda>g cn. cn\<lparr>cn_playing := True, cn_net_id := jg_net_id g, cn_spawn_pos := jg_spawn_pos g,
     cn_login := sv_login (cn_handshake cn), cn_entity := new_entity (jg_spawn_pos g) name,
     cn_reauth := (cn_reauth cn)\<lparr>ra_timer := reauth_interval_for F (sn_config s) (jg_net_id g)\<rparr>\<rparr>"
  have inv: "srv_inv cfg (cn_handshake cn)" using ok_found [OF assms(1, 2)] by (simp add: conn_ok_def)
  have "conn_ok cfg (?f g cn)" for g
    using inv assms(4) by (auto simp: conn_ok_def srv_inv_def admitted_def same_identity_def)
  then have joined: "session_ok cfg ((update_conn c (?f g) s)\<lparr>sn_playing := sn_playing s + 1\<rparr>)" for g
    by (intro join_ok [OF assms(1-3)]) simp_all
  have bc: "session_ok cfg (broadcast P t e y)" if "session_ok cfg y" for P t e and y :: "('a, 'b) server_session"
    by (rule keeps_ok [OF keeps_broadcast [OF keeps_frame_refl] that])
  have up: "sn_playing (update_conn c f s) = sn_playing s" for f by (simp add: update_conn_def)
  show ?thesis unfolding complete_join_def Let_def assms(2) option.case up
    by (rule bc) (simp only: ok_fields ok_send joined)
qed

lemma insert_conn_spec:
  "set (insert_conn c cn l) \<subseteq> insert (c, cn) (set l)" "fst ` set (insert_conn c cn l) = insert c (fst ` set l)"
  by (induction c cn l rule: insert_conn.induct) auto

lemma insert_conn_sorted: "sorted_wrt (<) (map fst l) \<Longrightarrow> sorted_wrt (<) (map fst (insert_conn c cn l))"
proof (induction c cn l rule: insert_conn.induct)
  case (2 c cn k v cs)
  then show ?case
    by (auto simp: insert_conn_spec(2))
qed simp

lemma insert_conn_count:
  "\<not> cn_playing cn \<Longrightarrow> length (filter (\<lambda>(k, b). cn_playing b) (insert_conn c cn l)) = length (filter (\<lambda>(k, b). cn_playing b) l)"
  by (induction c cn l rule: insert_conn.induct) auto

lemma new_conn_ok: "conn_ok cfg (new_conn addr t)"
  by (simp add: conn_ok_def new_conn_def inv_new)

lemma insert_ok:
  assumes "session_ok cfg s" and "conn_ok cfg cn" and "\<not> cn_playing cn"
  shows "session_ok cfg (s\<lparr>sn_conns := insert_conn c cn (sn_conns s)\<rparr>)"
proof -
  have each: "conn_ok cfg b" if "(k, b) \<in> set (insert_conn c cn (sn_conns s))" for k b
  proof -
    from that consider "b = cn" | "(k, b) \<in> set (sn_conns s)" using insert_conn_spec(1) [of c cn "sn_conns s"] by auto
    then show ?thesis by cases (use assms in \<open>auto simp: session_ok_def\<close>)
  qed
  have "sorted_wrt (<) (map fst (insert_conn c cn (sn_conns s)))"
    using assms(1) by (intro insert_conn_sorted) (simp add: session_ok_def)
  with assms(1) each insert_conn_count [OF assms(3), of c "sn_conns s"] show ?thesis by (auto simp: session_ok_def)
qed

lemma on_connected_ok:
  assumes "session_ok cfg s"
  shows "session_ok cfg (on_connected env c s)"
proof -
  have new: "session_ok cfg (s\<lparr>sn_conns := insert_conn c (new_conn addr t) (sn_conns s)\<rparr>)" for addr t
    using assms new_conn_ok by (rule insert_ok) (simp add: new_conn_def)
  have "session_ok cfg (update_conn c (\<lambda>cn. cn\<lparr>cn_remote_address := a, cn_msg_tokens := t'\<rparr>)
      (s\<lparr>sn_conns := insert_conn c (new_conn addr t) (sn_conns s)\<rparr>))" for a t' addr t
    by (rule keeps_ok [OF keeps_update_conn [OF keeps_frame_refl] new]) (simp add: same_frame_def)
  then show ?thesis using assms by (simp add: on_connected_def Let_def)
qed

lemma delete_count:
  assumes "distinct (map fst l)" and "map_of l c = Some cn"
  shows "length (filter (\<lambda>(k, b). cn_playing b) l) =
    length (filter (\<lambda>(k, b). cn_playing b) (AList.delete c l)) + (if cn_playing cn then 1 else 0)"
  using assms
proof (induction l)
  case (Cons x l)
  obtain k b where x: "x = (k, b)" by (cases x)
  show ?case
  proof (cases "k = c")
    case True
    then have "AList.delete c l = l" using Cons.prems(1) x
      by (force simp: AList.delete_eq intro!: filter_True)
    then show ?thesis using Cons.prems True x by simp
  next
    case False
    then show ?thesis using Cons x by simp
  qed
qed simp

lemma sorted_delete: "sorted_wrt (<) (map fst l) \<Longrightarrow> sorted_wrt (<) (map fst (AList.delete c l))"
  by (induction l) (auto simp: AList.delete_eq)

lemma delete_ok:
  assumes "session_ok cfg s" and "find_conn c s = Some cn"
  shows "session_ok cfg (s\<lparr>sn_playing := sn_playing s - (if cn_playing cn then 1 else 0), sn_conns := AList.delete c (sn_conns s)\<rparr>)"
proof -
  have "map_of (sn_conns s) c = Some cn" using assms(2) by (simp add: find_conn_def)
  from delete_count [OF ok_distinct [OF assms(1)] this]
  have n: "sn_playing s - (if cn_playing cn then 1 else 0) = length (filter (\<lambda>(k, b). cn_playing b) (AList.delete c (sn_conns s)))"
    using assms(1) by (simp add: session_ok_def)
  have "sorted_wrt (<) (map fst (AList.delete c (sn_conns s)))"
    using assms(1) by (intro sorted_delete) (simp add: session_ok_def)
  moreover have "conn_ok cfg b" if "(k, b) \<in> set (AList.delete c (sn_conns s))" for k b
    using that assms(1) by (auto simp: session_ok_def AList.delete_eq)
  ultimately show ?thesis using assms(1) n by (auto simp: session_ok_def)
qed

lemma on_disconnected_ok:
  assumes "session_ok cfg s"
  shows "session_ok cfg (on_disconnected c reason s)"
proof (cases "find_conn c s")
  case None
  then show ?thesis using assms by (simp add: on_disconnected_def)
next
  case (Some cn)
  let ?d = "if cn_playing cn then 1 else 0 :: nat"
  have gone: "session_ok cfg (y\<lparr>sn_conns := AList.delete c (sn_conns y)\<rparr>)"
    if y: "skeleton y = skeleton (s\<lparr>sn_playing := sn_playing s - ?d\<rparr>)" for y :: "('a, 'b) server_session"
  proof -
    let ?y = "y\<lparr>sn_playing := sn_playing s\<rparr>"
    have k: "skeleton ?y = skeleton s" and n: "sn_playing y = sn_playing s - ?d" using y by (simp_all add: skeleton_def)
    have "session_ok cfg ?y" unfolding skeleton_ok [OF k] by (rule assms)
    moreover have "keeps_frame s ?y" using k by (simp add: keeps_frame_def)
    from keeps_found [OF this ok_distinct [OF assms] Some] obtain cn' where
      "find_conn c ?y = Some cn'" "same_frame cn cn'" by blast
    ultimately have "session_ok cfg (?y\<lparr>sn_playing := sn_playing ?y - (if cn_playing cn' then 1 else 0), sn_conns := AList.delete c (sn_conns ?y)\<rparr>)"
      by (intro delete_ok)
    moreover have "?y\<lparr>sn_playing := sn_playing ?y - (if cn_playing cn' then 1 else 0), sn_conns := AList.delete c (sn_conns ?y)\<rparr> =
        y\<lparr>sn_conns := AList.delete c (sn_conns y)\<rparr>"
      using \<open>same_frame cn cn'\<close> n by (simp add: same_frame_def)
    ultimately show ?thesis by simp
  qed
  have bc: "skeleton (broadcast P t e y) = skeleton y" if "distinct (map fst (sn_conns y))" for P t e and y :: "('a, 'b) server_session"
  proof -
    have "keeps_frame y (broadcast P t e y)" by (rule keeps_broadcast [OF keeps_frame_refl])
    then show ?thesis using that by (simp add: keeps_frame_def)
  qed
  show ?thesis
  proof (cases "cn_playing cn")
    case True
    have "skeleton (broadcast P t e (s\<lparr>sn_playing := sn_playing s - 1, sn_interest := a1, sn_block_damage := a2,
        sn_region_occupancy := a3, sn_replicator := a4, sn_leaves := a5\<rparr>)) = skeleton (s\<lparr>sn_playing := sn_playing s - ?d\<rparr>)" for P t e a1 a2 a3 a4 a5
      using True ok_distinct [OF assms] by (subst bc) (simp_all add: skeleton_def)
    note left = this
    have playing: "(if \<not> cn_playing cn then a else b) = b" for a b :: "('a, 'b) server_session" using True by simp
    show ?thesis unfolding on_disconnected_def Some option.case Let_def playing by (rule gone) (rule left)
  next
    case False
    then have "skeleton s = skeleton (s\<lparr>sn_playing := sn_playing s - ?d\<rparr>)" by (simp add: skeleton_def)
    from gone [OF this] show ?thesis unfolding on_disconnected_def Some option.case Let_def if_P [OF False] .
  qed
qed

section \<open>Handshake steps\<close>

lemma handshake_ok:
  assumes "session_ok cfg s" and "find_conn c s = Some cn" and "\<not> cn_playing cn" and "srv_inv cfg hs"
  shows "session_ok cfg (update_conn c (\<lambda>cn. cn\<lparr>cn_handshake := hs\<rparr>) s)"
  using assms(1, 2) by (rule session_update_ok) (simp_all add: conn_ok_def assms(3, 4))

lemma find_update: "find_conn c (update_conn c f s) = map_option f (find_conn c s)"
proof -
  have "map_of (map (\<lambda>(k, b). (k, if k = c then f b else b)) l) c = map_option f (map_of l c)" for l
    by (induction l) auto
  then show ?thesis by (simp add: find_conn_def update_conn_def)
qed

lemma ok_if: "(P \<Longrightarrow> session_ok cfg x) \<Longrightarrow> session_ok cfg y \<Longrightarrow> session_ok cfg (if P then x else y)"
  by simp

lemma on_handshake_ok:
  assumes "session_ok cfg s" and "find_conn c s = Some cn" and "\<not> cn_playing cn"
  shows "session_ok cfg (on_handshake_message env c fr cn s)"
proof -
  let ?r = "srv_on_frame (sn_config s) (sve_lz4 env) (session_host (sve_floats env) (sve_host env) s) fr (cn_handshake cn)"
  let ?s1 = "send_frames c (ss_send (fst ?r)) (update_conn c (\<lambda>cn. cn\<lparr>cn_handshake := snd ?r\<rparr>) s)"
  let ?s2 = "if sv_state (cn_handshake cn) = kAwaitingAuth \<and> sv_state (snd ?r) = kAwaitingAssetManifestRequest
     then kick_duplicate_login c (update_conn c (\<lambda>cn. cn\<lparr>cn_age := f_zero\<rparr>) ?s1) else ?s1"
  let ?s3 = "if ss_completed (fst ?r) \<and> jg_net_id (sh_on_ready (sve_host env) (sv_player_name (cn_handshake cn))) = 0
     then ?s2\<lparr>sn_next_net_id := sn_next_net_id ?s2 + 1\<rparr> else ?s2"
  have inv: "srv_inv cfg (snd ?r)"
    using ok_found [OF assms(1, 2)] assms(1) by (simp add: conn_ok_def session_ok_def inv_on_frame)
  let ?u = "update_conn c (\<lambda>cn. cn\<lparr>cn_handshake := snd ?r\<rparr>) s"
  have ok: "session_ok cfg ?u" using assms inv by (rule handshake_ok)
  have found: "find_conn c ?u = Some (cn\<lparr>cn_handshake := snd ?r\<rparr>)" by (simp add: find_update assms(2))
  have age: "keeps_frame ?u (update_conn c (\<lambda>cn. cn\<lparr>cn_age := f_zero\<rparr>) ?s1)"
    by (rule keeps_update_conn) (intro frame_rules, simp add: same_frame_def)
  have s1: "keeps_frame ?u ?s1" by (intro frame_rules)
  have s3: "keeps_frame ?u ?s3" using keeps_kick_duplicate [OF age] s1 by simp
  from keeps_found [OF s3 ok_distinct [OF ok] found] obtain cn' where
    cn': "find_conn c ?s3 = Some cn'" "cn_handshake cn' = snd ?r" "\<not> cn_playing cn'"
    by (auto simp: same_frame_def assms(3))
  have ok3: "session_ok cfg ?s3" using keeps_ok [OF s3 ok] .
  have "session_ok cfg (complete_join F c name ?s3)" if "ss_completed (fst ?r)" for F name
  proof -
    have "good_step (sve_lz4 env) (cn_handshake cn) ?r" by (rule good_on_frame)
    then have "sv_state (cn_handshake cn') = kPlaying" using that cn'(2) by (simp add: good_step_def)
    with ok3 cn'(1, 3) show ?thesis by (rule complete_join_ok)
  qed
  note completed = this
  have joined: "session_ok cfg (if ss_completed (fst ?r) then complete_join F c name ?s3 else ?s3)" for F name
    by (rule ok_if) (rule completed, assumption, rule ok3)
  have "session_ok cfg (if d then drop_conn c r y else y)" if "session_ok cfg y" for d r and y :: "('a, 'b) server_session"
    using that by (simp add: drop_conn_def split: option.split)
  from this [OF joined] show ?thesis
    unfolding on_handshake_message_def Let_def case_prod_unfold .
qed

lemma count_attempt_ok: "session_ok cfg (snd (count_attempt F addr s)) = session_ok cfg s"
  by (simp add: count_attempt_def Let_def)

lemma count_attempt_found: "find_conn c (snd (count_attempt F addr s)) = find_conn c s"
  by (simp add: count_attempt_def Let_def find_conn_def)

lemma drop_ok [simp]: "session_ok cfg s \<Longrightarrow> session_ok cfg (drop_conn c r s)"
  by (simp add: drop_conn_def split: option.split)

lemma on_message_ok:
  assumes "hooks_keep hk" and "session_ok cfg s"
  shows "session_ok cfg (on_message env hk c bytes s)"
proof (cases "find_conn c s")
  case None
  then show ?thesis using assms(2) by (simp add: on_message_def)
next
  case (Some cn)
  have play: "session_ok cfg (on_playing_message env hk c fr cn s)" for fr
    by (rule keeps_ok [OF keeps_playing_message [OF assms(1) keeps_frame_refl] assms(2)])
  have auth: "session_ok cfg (on_handshake_message env c fr cn s)" if "\<not> cn_playing cn" for fr
    using assms(2) Some that by (rule on_handshake_ok)
  have counted: "session_ok cfg (on_handshake_message env c fr cn (snd (count_attempt F addr s)))" if "\<not> cn_playing cn" for fr F addr
    by (rule on_handshake_ok) (simp_all add: count_attempt_ok count_attempt_found assms(2) Some that)
  have kick: "session_ok cfg (kick_with_message c r m (snd (count_attempt F addr s)))" for r m F addr
    by (rule keeps_ok [OF keeps_kick [OF keeps_frame_refl]]) (simp add: count_attempt_ok assms(2))
  show ?thesis
    unfolding on_message_def Some option.case
    using assms(2) play auth counted kick
    by (simp add: case_prod_unfold Let_def split: sum.split option.split)
qed

lemma on_event_ok: "hooks_keep hk \<Longrightarrow> session_ok cfg s \<Longrightarrow> session_ok cfg (on_event env hk e s)"
  by (cases e) (simp_all add: on_connected_ok on_message_ok on_disconnected_ok)

lemma network_ok:
  assumes "hooks_keep hk" and "session_ok cfg s"
  shows "session_ok cfg (system_network_io env hk dt evs s)"
proof -
  have "session_ok cfg (fold (on_event env hk) evs x)" if "session_ok cfg x" for x
    using that by (induction evs arbitrary: x) (simp_all add: on_event_ok assms(1))
  moreover have "keeps_frame s (run_cooldowns F dt (refill_tokens F dt s))" for F by (intro frame_rules)
  ultimately show ?thesis using keeps_ok assms(2) unfolding system_network_io_def by blast
qed

section \<open>Timeouts\<close>

definition waiting :: "server_config \<Rightarrow> conn_id \<Rightarrow> 't server_handshake \<Rightarrow> ('t, 'h) server_session \<Rightarrow> bool" where
  "waiting cfg c hs s \<longleftrightarrow> session_ok cfg s \<and>
     (\<exists>cn. find_conn c s = Some cn \<and> \<not> cn_playing cn \<and> cn_handshake cn = hs)"

lemma waiting_inv: "waiting cfg c hs s \<Longrightarrow> srv_inv cfg hs"
  by (auto simp: waiting_def conn_ok_def dest: ok_found)

lemma waiting_ok: "waiting cfg c hs s \<Longrightarrow> session_ok cfg s"
  by (simp add: waiting_def)

lemma find_send_frames: "find_conn c (send_frames c' fs s) = find_conn c s"
  by (induction fs arbitrary: s) (simp_all add: send_frames_def send_def find_conn_def)

lemma waiting_step:
  assumes "waiting cfg c hs s" and "srv_inv cfg (snd r)"
  shows "waiting cfg c (snd r) (set_handshake c r s)"
  using assms handshake_ok [of cfg s c _ "snd r"]
  by (auto simp: waiting_def set_handshake_def find_send_frames find_update)

lemma waiting_age: "waiting cfg c hs s \<Longrightarrow> waiting cfg c hs (update_conn c (\<lambda>cn. cn\<lparr>cn_age := t\<rparr>) s)"
proof -
  assume w: "waiting cfg c hs s"
  have "keeps_frame s (update_conn c (\<lambda>cn. cn\<lparr>cn_age := t\<rparr>) s)"
    by (rule keeps_update_conn [OF keeps_frame_refl]) (simp add: same_frame_def)
  then show ?thesis using w by (auto simp: waiting_def find_update intro: keeps_ok)
qed

lemma waiting_if:
  "(b \<Longrightarrow> waiting cfg c h s) \<Longrightarrow> waiting cfg c h' s' \<Longrightarrow> waiting cfg c (if b then h else h') (if b then s else s')"
  by simp

lemma inv_timeout: "srv_inv cfg hs \<Longrightarrow> srv_inv cfg (snd (on_timeout lz hs))"
  by (simp add: on_timeout_def inv_fail)

lemma inv_pumps: "srv_inv cfg hs \<Longrightarrow> srv_inv cfg (snd (pump_assets n lz host hs))"
  by (simp add: pump_assets_def inv_pump)

lemma timeout_turn_ok:
  assumes "session_ok cfg (snd (snd acc))"
  shows "session_ok cfg (snd (snd (timeout_turn env dt c acc)))"
proof -
  obtain drops verified s where acc: "acc = (drops, verified, s)" by (cases acc)
  show ?thesis
  proof (cases "find_conn c s")
    case None
    then show ?thesis using assms acc by (simp add: timeout_turn_def)
  next
    case (Some cn)
    show ?thesis
    proof (cases "cn_playing cn")
      case True
      then show ?thesis using Some assms acc by (simp add: timeout_turn_def)
    next
      case False
      let ?hs = "cn_handshake cn" and ?lz = "sve_lz4 env"
      let ?host = "session_host (sve_floats env) (sve_host env) s"
      let ?streaming = "sv_state ?hs = kStreamingAssets"
      let ?r1 = "pump_assets kAssetSendBudgetPerTick ?lz ?host ?hs"
      let ?s1 = "if ?streaming then set_handshake c ?r1 s else s"
      let ?h1 = "if ?streaming then snd ?r1 else ?hs"
      have w0: "waiting cfg c ?hs s" using Some False assms acc by (simp add: waiting_def)
      have w1: "waiting cfg c ?h1 ?s1"
        by (rule waiting_if) (rule waiting_step [OF w0 inv_pumps [OF waiting_inv [OF w0]]], rule w0)
      let ?r2 = "poll_auth ?lz ?host ?h1"
      let ?verifying = "sv_state ?h1 = kVerifyingAuth"
      let ?s2 = "if ?verifying then set_handshake c ?r2 ?s1 else ?s1"
      let ?h2 = "if ?verifying then snd ?r2 else ?h1"
      have w2: "waiting cfg c ?h2 ?s2"
        by (rule waiting_if) (rule waiting_step [OF w1 inv_poll [OF waiting_inv [OF w1]]], rule w1)
      have w3: "waiting cfg c ?h2 (update_conn c (\<lambda>cn. cn\<lparr>cn_age := t\<rparr>) ?s2)" for t by (rule waiting_age [OF w2])
      have w4: "waiting cfg c (snd (on_timeout ?lz ?h2)) (set_handshake c (on_timeout ?lz ?h2) (update_conn c (\<lambda>cn. cn\<lparr>cn_age := t\<rparr>) ?s2))" for t
        by (rule waiting_step [OF w3 inv_timeout [OF waiting_inv [OF w2]]])
      show ?thesis
        unfolding timeout_turn_def acc prod.case Some option.case Let_def if_not_P [OF False]
        using waiting_ok [OF w1] waiting_ok [OF w2] waiting_ok [OF w3] waiting_ok [OF w4]
        by (simp only: if_distrib [of snd] snd_conv if_cancel simp_thms split: if_split)
    qed
  qed
qed

lemma forget_ok: "session_ok cfg (forget_old_attempts F s) = session_ok cfg s"
  by (simp add: forget_old_attempts_def)

lemma timeouts_ok:
  fixes s :: "('t, 'h) server_session"
  assumes "session_ok cfg s"
  shows "session_ok cfg (system_handshake_timeouts env dt s)"
proof -
  let ?s = "forget_old_attempts (sve_floats env) (s\<lparr>sn_uptime_seconds := t\<rparr>)"
  have turns: "session_ok cfg (snd (snd (fold (timeout_turn env dt) cs acc)))" if "session_ok cfg (snd (snd acc))" for cs and acc :: "(conn_id \<times> bstring) list \<times> conn_id list \<times> ('t, 'h) server_session"
    using that by (induction cs arbitrary: acc) (simp_all add: timeout_turn_ok)
  have drops: "session_ok cfg (fold (\<lambda>(c, reason). drop_conn c reason) ds y)" if "session_ok cfg y" for ds and y :: "('t, 'h) server_session"
    using that by (induction ds arbitrary: y) (simp_all add: case_prod_unfold)
  have kicks: "session_ok cfg (fold kick_duplicate_login cs y)" if "session_ok cfg y" for cs and y :: "('t, 'h) server_session"
    by (rule keeps_ok [OF keeps_fold [OF keeps_frame_refl] that]) (rule keeps_kick_duplicate)
  show ?thesis unfolding system_handshake_timeouts_def Let_def
    using drops kicks turns by (simp add: case_prod_unfold forget_ok assms)
qed

section \<open>Signing in again\<close>

lemma finish_reauth_ok:
  assumes "session_ok cfg s" and "find_conn c s = Some cn'" and "cn_login cn' = cn_login cn"
  shows "session_ok cfg (finish_reauth F c cn outcome s)"
proof -
  have kick: "session_ok cfg (kick_with_message c r m s)" for r m
    by (rule keeps_ok [OF keeps_kick [OF keeps_frame_refl] assms(1)])
  have renewed: "session_ok cfg (update_conn c (\<lambda>cn. cn\<lparr>cn_login := Some (l\<lparr>ld_name := ld_name old\<rparr>), cn_reauth := g cn\<rparr>) s)"
    if "same_identity l old" "cn_login cn = Some old" for l old g
    using assms(1, 2)
  proof (rule session_update_ok)
    show "conn_ok cfg (cn'\<lparr>cn_login := Some (l\<lparr>ld_name := ld_name old\<rparr>), cn_reauth := g cn'\<rparr>)"
      using ok_found [OF assms(1, 2)] that assms(3) by (auto simp: conn_ok_def same_identity_def)
  qed simp
  show ?thesis
    unfolding finish_reauth_def Let_def using kick renewed by (simp split: option.split)
qed

lemma request_reauth_keeps: "keeps_frame s (request_reauth env dt c cn s)"
  by (auto simp: request_reauth_def Let_def same_frame_def intro!: keeps_send_message keeps_update_conn keeps_frame_refl
      split: option.split)

lemma reauth_turn_ok:
  assumes "session_ok cfg (snd acc)"
  shows "session_ok cfg (snd (reauth_turn env dt c acc))"
proof -
  obtain kicks s where acc: "acc = (kicks, s)" by (cases acc)
  have ok: "session_ok cfg s" using assms acc by simp
  show ?thesis
  proof (cases "find_conn c s")
    case None
    then show ?thesis using ok acc by (simp add: reauth_turn_def)
  next
    case (Some cn)
    have asked: "session_ok cfg (request_reauth env dt c cn s)" by (rule keeps_ok [OF request_reauth_keeps ok])
    have "keeps_frame s (update_conn c (\<lambda>cn. cn\<lparr>cn_reauth := f (cn_reauth cn)\<rparr>) s)" for f
      by (rule keeps_update_conn [OF keeps_frame_refl]) (simp add: same_frame_def)
    from keeps_ok [OF this ok] have aged: "session_ok cfg (update_conn c (\<lambda>cn. cn\<lparr>cn_reauth := f (cn_reauth cn)\<rparr>) s)" for f .
    have finished: "session_ok cfg (finish_reauth F c cn outcome (update_conn c (\<lambda>cn. cn\<lparr>cn_reauth := f (cn_reauth cn)\<rparr>) s))" for F outcome f
      by (rule finish_reauth_ok [OF aged, of c f "cn\<lparr>cn_reauth := f (cn_reauth cn)\<rparr>"]) (simp_all add: find_update Some)
    show ?thesis
      using ok asked aged [of "\<lambda>r. r\<lparr>ra_remaining := t\<rparr>" for t] finished [where f = "\<lambda>r. r\<lparr>ra_remaining := t\<rparr>" for t]
      by (simp add: reauth_turn_def acc Some Let_def split: option.split)
  qed
qed

lemma reauth_ok:
  fixes s :: "('t, 'h) server_session"
  assumes "session_ok cfg s"
  shows "session_ok cfg (system_reauth env dt s)"
proof -
  have turns: "session_ok cfg (snd (fold (reauth_turn env dt) cs acc))" if "session_ok cfg (snd acc)" for cs and acc :: "conn_id list \<times> ('t, 'h) server_session"
    using that by (induction cs arbitrary: acc) (simp_all add: reauth_turn_ok)
  have kicks: "session_ok cfg (fold (\<lambda>c. kick_with_message c r m) cs y)" if "session_ok cfg y" for cs r m and y :: "('t, 'h) server_session"
    by (rule keeps_ok [OF keeps_fold [OF keeps_frame_refl] that]) (rule keeps_kick)
  show ?thesis using assms by (simp add: system_reauth_def case_prod_unfold Let_def kicks turns)
qed

section \<open>Every reachable session\<close>

lemma new_session_ok: "session_ok cfg (new_server_session F cfg rep script)"
  by (simp add: session_ok_def new_server_session_def)

lemma step_ok:
  assumes "hooks_keep hk" and "session_ok cfg s" and "session_step env hk dt evs s = Some s'"
  shows "session_ok cfg s'"
proof -
  let ?s3 = "system_reauth env dt (system_handshake_timeouts env dt (system_network_io env hk dt evs s))"
  have "session_ok cfg ?s3" by (intro reauth_ok timeouts_ok network_ok assms(1, 2))
  moreover have "keeps_frame ?s3 (run_systems (drop 3 (systems env hk dt evs)) ?s3)"
    by (rule keeps_late_systems [OF assms(1) keeps_frame_refl])
  moreover have "run_systems (drop 3 (systems env hk dt evs)) ?s3 = run_systems (systems env hk dt evs) s"
    by (simp add: run_systems_def systems_def Let_def)
  ultimately have ok: "session_ok cfg (run_systems (systems env hk dt evs) s)" by (simp add: keeps_ok)
  have "keeps_frame (run_systems (systems env hk dt evs) s) s'"
    by (rule keeps_broadcast_world [OF keeps_frame_refl]) (use assms(3) in \<open>simp add: session_step_def\<close>)
  then show ?thesis using ok by (rule keeps_ok)
qed

text \<open>
  The states a session gets to: ticks with any events, any host and any arithmetic, and in between
  whatever its owner does through the public methods, which keep the frame.
\<close>

inductive session_reachable :: "server_config \<Rightarrow> ('t, 'h) server_session \<Rightarrow> bool" for cfg where
  begins: "session_reachable cfg (new_server_session F cfg rep script)"
| ticks: "session_reachable cfg s \<Longrightarrow> hooks_keep hk \<Longrightarrow> session_step env hk dt evs s = Some s' \<Longrightarrow> session_reachable cfg s'"
| called: "session_reachable cfg s \<Longrightarrow> keeps_frame s s' \<Longrightarrow> session_reachable cfg s'"

lemma reachable_ok: "session_reachable cfg s \<Longrightarrow> session_ok cfg s"
  by (induction rule: session_reachable.induct) (auto intro: new_session_ok step_ok keeps_ok)

text \<open>Who plays under external authentication.\<close>

lemma reachable_login:
  assumes "session_reachable cfg s" and "sc_auth_mode cfg = kAuthExternal" and "find_conn c s = Some cn" and "cn_playing cn"
  shows "\<exists>l v. cn_login cn = Some l \<and> sv_login (cn_handshake cn) = Some v \<and> same_identity l v \<and>
    ld_name l = ld_name v \<and> (ld_name v = sv_player_name (cn_handshake cn) \<or> ld_name v = [])"
proof -
  have "conn_ok cfg cn" using ok_found [OF reachable_ok [OF assms(1)] assms(3)] .
  then obtain l v where lv: "cn_login cn = Some l" "sv_login (cn_handshake cn) = Some v" "same_identity l v" "ld_name l = ld_name v"
    and inv: "srv_inv cfg (cn_handshake cn)" and "sv_state (cn_handshake cn) = kPlaying"
    using assms(2, 4) unfolding conn_ok_def by blast
  then have "ld_name v = sv_player_name (cn_handshake cn) \<or> ld_name v = []"
    using assms(2) by (simp add: srv_inv_def admitted_def)
  with lv show ?thesis by blast
qed

end
