(* ===== verification/Session_Guards.thy ===== *)
theory Session_Guards
  imports Session_Safety Handshake_Defaults
begin

text \<open>
  What a connection that has not joined can do, and the guards of the handshake that the session adds:
  names no two identities share, and the cap on players, which is checked when a connection signs in but
  not when it joins.
\<close>

section \<open>A connection that waits\<close>

text \<open>Everything but the one connection, the bookkeeping of joins and what is sent.\<close>

definition outside :: "conn_id \<Rightarrow> ('t, 'h) server_session \<Rightarrow> replicator option \<times> 'h \<times> (net_id \<times> script_entity) list \<times>
    (net_id \<rightharpoonup> entity_visual_override) \<times> item_drop_system \<times> block_damages \<times> (net_id \<rightharpoonup> ivec3 \<times> block_id) \<times>
    (ivec3 \<times> punch_state) list \<times> f64 \<times> left_player list \<times> (net_id \<times> login_data) list \<times> (conn_id \<times> 't conn) list" where
  "outside c s = (sn_replicator s, sn_script s, sn_script_entities s, sn_visual_overrides s, sn_item_drops s,
     sn_block_damage s, sn_region_occupancy s, sn_punch_counts s, sn_time_of_day_ticks s, sn_leaves s,
     sn_login_changes s, filter (\<lambda>(k, cn). k \<noteq> c) (sn_conns s))"

lemma outside_fields [simp]:
  "outside c (s\<lparr>sn_out := a1\<rparr>) = outside c s" "outside c (s\<lparr>sn_interest := a2\<rparr>) = outside c s"
  "outside c (s\<lparr>sn_joins := a3\<rparr>) = outside c s" "outside c (s\<lparr>sn_playing := a4\<rparr>) = outside c s"
  "outside c (s\<lparr>sn_next_net_id := a5\<rparr>) = outside c s" "outside c (s\<lparr>sn_auth_attempts := a6\<rparr>) = outside c s"
  by (simp_all add: outside_def)

lemma outside_update [simp]: "outside c (update_conn c f s) = outside c s"
proof -
  have "filter (\<lambda>(k, cn). k \<noteq> c) (map (\<lambda>(k, b). (k, if k = c then f b else b)) l) = filter (\<lambda>(k, cn). k \<noteq> c) l" for l
    by (induction l) auto
  then show ?thesis by (simp add: outside_def update_conn_def)
qed

text \<open>Operations that only send or close.\<close>

definition sends :: "('t, 'h) server_session \<Rightarrow> ('t, 'h) server_session \<Rightarrow> bool" where
  "sends s s' \<longleftrightarrow> (\<exists>out. s' = s\<lparr>sn_out := out\<rparr>)"

lemma sends_refl: "sends s s"
  unfolding sends_def by (rule exI [of _ "sn_out s"]) simp

lemma sends_trans: "sends s x \<Longrightarrow> sends x y \<Longrightarrow> sends s y"
  unfolding sends_def by auto

lemma sends_outside: "sends s x \<Longrightarrow> outside c x = outside c s"
  by (auto simp: sends_def)

lemma sends_interest: "sends s x \<Longrightarrow> sn_interest x = sn_interest s"
  by (auto simp: sends_def)

lemma sends_fold: "(\<And>a y. sends y (f a y)) \<Longrightarrow> sends s (fold f xs s)"
  by (induction xs arbitrary: s) (auto simp: sends_refl intro: sends_trans)

lemma sends_send: "sends s (send c f s)"
  by (auto simp: sends_def send_def)

lemma sends_frames: "sends s (send_frames c fs s)"
  unfolding send_frames_def by (rule sends_fold [OF sends_send])

lemma sends_message: "sends s (send_message c t e s)"
  unfolding send_message_def by (rule sends_send)

lemma sends_drop: "sends s (drop_conn c r s)"
  by (auto simp: drop_conn_def sends_def sends_refl [unfolded sends_def] split: option.split)

lemma sends_for_conns: "(\<And>c cn y. sends y (f c cn y)) \<Longrightarrow> sends s (for_conns f s)"
  unfolding for_conns_def by (rule sends_fold) (simp add: sends_refl split: option.split)

lemma sends_broadcast: "sends s (broadcast P t e s)"
  unfolding broadcast_def for_playing_def by (rule sends_for_conns) (simp add: sends_message sends_refl)

lemma sends_kick: "sends s (kick_with_message c r m s)"
  unfolding kick_with_message_def by (rule sends_trans [OF sends_message sends_drop])

lemma sends_kick_duplicate: "sends s (kick_duplicate_login c s)"
  unfolding kick_duplicate_login_def
  by (auto simp: sends_refl sends_drop split: option.split intro!: sends_for_conns)

lemma send_field:
  assumes "sends s x"
  shows "sn_conns x = sn_conns s" "sn_playing x = sn_playing s" "find_conn c x = find_conn c s" "sn_config x = sn_config s"
  using assms by (auto simp: sends_def find_conn_def)

lemma outside_join: "outside c (complete_join F c name s) = outside c s"
proof (cases "find_conn c s")
  case (Some cn)
  show ?thesis unfolding complete_join_def Some option.case Let_def sends_outside [OF sends_broadcast] sends_outside [OF sends_message]
    by simp
qed (simp add: complete_join_def)

lemma outside_handshake:
  fixes s :: "('t, 'h) server_session"
  shows "outside c (on_handshake_message env c fr cn s) = outside c s"
proof -
  have d: "outside c (if b then drop_conn k r x else x) = outside c x" for b k r and x :: "('t, 'h) server_session"
    by (simp add: sends_outside [OF sends_drop])
  have j: "outside c (if b then complete_join F c name x else x) = outside c x" for b F name and x :: "('t, 'h) server_session"
    by (simp add: outside_join)
  have n: "outside c (if b then x\<lparr>sn_next_net_id := v\<rparr> else x) = outside c x" for b v and x :: "('t, 'h) server_session"
    by simp
  have k: "outside c (if b then kick_duplicate_login c (update_conn c f x) else x) = outside c x" for b f and x :: "('t, 'h) server_session"
    by (simp add: sends_outside [OF sends_kick_duplicate])
  show ?thesis unfolding on_handshake_message_def Let_def case_prod_unfold d j n k sends_outside [OF sends_frames] by simp
qed

text \<open>No message of a connection that does not play reaches the world, a script, or another connection's state.\<close>

lemma waiting_harmless:
  fixes s :: "('t, 'h) server_session"
  assumes "find_conn c s = Some cn" and "\<not> cn_playing cn"
  shows "outside c (on_message env hk c bytes s) = outside c s"
proof -
  have counted: "outside c (snd (count_attempt F addr s)) = outside c s" for F addr
    by (simp add: count_attempt_def Let_def)
  have kicked: "outside c (kick_with_message c r m x) = outside c x" for r m and x :: "('t, 'h) server_session"
    by (rule sends_outside [OF sends_kick])
  have dropped: "outside c (drop_conn c r x) = outside c x" for r and x :: "('t, 'h) server_session"
    by (rule sends_outside [OF sends_drop])
  show ?thesis unfolding on_message_def assms(1) option.case
    using assms(2) by (simp add: case_prod_unfold Let_def outside_handshake counted kicked dropped split: sum.split option.split)
qed

section \<open>Names\<close>

lemma to_decimal_step: "\<not> n < 10 \<Longrightarrow> to_decimal n = to_decimal (n div 10) @ [of_nat (48 + n mod 10)]"
  by (subst to_decimal.simps) simp

lemma to_decimal_digit: "n < 10 \<Longrightarrow> to_decimal n = [of_nat (48 + n)]"
  by (subst to_decimal.simps) simp

declare to_decimal.simps [simp del]

lemma digit_value: "d < 10 \<Longrightarrow> unat (of_nat (48 + d) :: byte) = 48 + d"
  by (simp add: unsigned_of_nat take_bit_nat_eq_self del: of_nat_add)

definition decimal_value :: "bstring \<Rightarrow> nat" where
  "decimal_value ds = foldl (\<lambda>a d. 10 * a + (unat d - 48)) 0 ds"

lemma decimal_value_to_decimal: "decimal_value (to_decimal n) = n"
proof (induction n rule: less_induct)
  case (less n)
  show ?case
  proof (cases "n < 10")
    case True
    then show ?thesis by (simp add: to_decimal_digit decimal_value_def digit_value del: of_nat_add)
  next
    case False
    then have "decimal_value (to_decimal (n div 10)) = n div 10" by (intro less) simp
    moreover have "unat (of_nat (48 + n mod 10) :: byte) = 48 + n mod 10" by (rule digit_value) simp
    ultimately show ?thesis using False by (simp add: to_decimal_step decimal_value_def del: of_nat_add)
  qed
qed

lemma to_decimal_no_hash: "35 \<notin> set (to_decimal n)"
proof (induction n rule: less_induct)
  case (less n)
  have digit: "(35 :: byte) \<noteq> of_nat (48 + d)" if "d < 10" for d
  proof
    assume "(35 :: byte) = of_nat (48 + d)"
    then have "unat (35 :: byte) = 48 + d" using digit_value [OF that] by (simp only:)
    then show False by simp
  qed
  show ?case
  proof (cases "n < 10")
    case True
    then show ?thesis using digit [OF True] by (simp add: to_decimal_digit del: of_nat_add)
  next
    case False
    then have "35 \<notin> set (to_decimal (n div 10))" by (intro less) simp
    then show ?thesis using False digit [of "n mod 10"] by (simp add: to_decimal_step del: of_nat_add)
  qed
qed

lemma to_decimal_length: "n < 10 ^ Suc k \<Longrightarrow> length (to_decimal n) \<le> Suc k"
proof (induction k arbitrary: n)
  case 0
  then show ?case by (simp add: to_decimal_digit)
next
  case (Suc k)
  show ?case
  proof (cases "n < 10")
    case True
    then show ?thesis by (simp add: to_decimal_digit)
  next
    case False
    have "n div 10 < 10 ^ Suc k" using Suc.prems by (simp add: less_mult_imp_div_less)
    from Suc.IH [OF this] False show ?thesis by (simp add: to_decimal_step)
  qed
qed

text \<open>The suffix can be read back, whatever was cut off the name.\<close>

lemma numbered_name_shape: "\<exists>stem. numbered_name base n = stem @ 35 # to_decimal n"
  unfolding numbered_name_def Let_def lit_def by (intro exI) simp

lemma numbered_name_inj: "numbered_name a n = numbered_name b m \<Longrightarrow> n = m"
proof -
  assume eq: "numbered_name a n = numbered_name b m"
  have suffix: "takeWhile (\<lambda>x. x \<noteq> 35) (rev (numbered_name a n)) = rev (to_decimal n)" for a n
  proof -
    obtain stem where "numbered_name a n = stem @ 35 # to_decimal n" using numbered_name_shape by blast
    moreover have "\<forall>x \<in> set (rev (to_decimal n)). x \<noteq> 35" using to_decimal_no_hash [of n] by auto
    ultimately show ?thesis by (simp add: takeWhile_append)
  qed
  from suffix [of a n] suffix [of b m] eq have "to_decimal n = to_decimal m" by simp
  then show "n = m" by (metis decimal_value_to_decimal)
qed

lemma first_free_spec:
  "\<not> taken (first_free taken base n k) \<or> first_free taken base n k = base \<and> (\<forall>i < k. taken (numbered_name base (n + i)))"
proof (induction k arbitrary: n)
  case (Suc k)
  show ?case
  proof (cases "taken (numbered_name base n)")
    case True
    have "\<forall>i < Suc k. taken (numbered_name base (n + i))" if "\<forall>i < k. taken (numbered_name base (Suc n + i))"
      using that True by (auto simp: less_Suc_eq_0_disj)
    then show ?thesis using Suc.IH [of "Suc n"] True by (auto simp: Let_def)
  qed simp
qed simp

text \<open>A taken name is that of one of the connections, so fewer connections than numbers leave one free.\<close>

lemma unique_name_free:
  assumes "length (sn_conns s) < 9998"
  shows "\<not> name_taken s login (unique_name s login base)"
proof (cases "name_taken s login base")
  case True
  let ?names = "set (map (\<lambda>(c, cn). sv_player_name (cn_handshake cn)) (sn_conns s))"
  have taken: "n \<in> ?names" if "name_taken s login n" for n
    using that by (auto simp: name_taken_def list_ex_iff)
  have "\<not> (\<forall>i < 9998. name_taken s login (numbered_name base (2 + i)))"
  proof
    assume all: "\<forall>i < 9998. name_taken s login (numbered_name base (2 + i))"
    have "(\<lambda>i. numbered_name base (2 + i)) ` {..<9998} \<subseteq> ?names" using all taken by auto
    moreover have "inj_on (\<lambda>i. numbered_name base (2 + i)) {..<9998 :: nat}"
      by (auto simp: inj_on_def dest: numbered_name_inj)
    ultimately have "9998 \<le> card ?names" by (metis card_inj_on_le card_lessThan finite_set)
    also have "card ?names \<le> length (sn_conns s)" by (metis card_length length_map)
    finally show False using assms by simp
  qed
  then show ?thesis using True first_free_spec [of "name_taken s login" base 2 9998]
    unfolding unique_name_def if_not_P [of "\<not> name_taken s login base", simplified] by auto
qed (simp add: unique_name_def)

lemma unique_name_length:
  assumes "length base \<le> 32"
  shows "length (unique_name s login base) \<le> 32"
proof -
  have n: "length (numbered_name base n) \<le> 32" if "n < 10 ^ Suc 3" for n
    using to_decimal_length [OF that] assms by (simp add: numbered_name_def Let_def lit_def min_def) linarith
  have "length (first_free t base k m) \<le> 32" if "k + m \<le> 10 ^ Suc 3" for t k m
    using that assms by (induction m arbitrary: k) (auto simp: Let_def n)
  then show ?thesis using assms by (simp add: unique_name_def)
qed

section \<open>The cap on players\<close>

lemma full_refused:
  assumes "sv_state hs = kAwaitingAuth" and "mh_type (fr_header fr) = kC2SAuth"
    and "sc_max_players (sn_config s) \<le> of_nat (sn_playing s)"
  shows "\<not> ss_completed (fst (srv_on_frame (sn_config s) lz (session_host F host s) fr hs))"
    and "sv_state (snd (srv_on_frame (sn_config s) lz (session_host F host s) fr hs)) = kClosed"
  using assms by (auto simp: srv_on_frame_def on_auth_def session_host_def srv_fail_def empty_step_def split: sum.split)

definition ready_bytes :: "byte list" where
  "ready_bytes = of_bytes (frame_message None kC2SReady (encode_C2SReady ()) 0)"

definition awaits_ready :: "conn_id \<Rightarrow> ('t, 'h) server_session \<Rightarrow> bool" where
  "awaits_ready c s \<longleftrightarrow> (\<exists>cn. find_conn c s = Some cn \<and> \<not> cn_playing cn \<and> sv_state (cn_handshake cn) = kAwaitingReady)"

lemma ready_frame_read:
  "\<exists>fr. read_frame ready_bytes = (Inr fr, length ready_bytes) \<and> mh_type (fr_header fr) = kC2SReady \<and>
     decompress_frame_payload lz fr = Some []"
proof -
  have "length (run_writer (encode_C2SReady ())) \<le> kMaxPayloadBytes"
    by (simp add: encode_C2SReady_def kMaxPayloadBytes_def)
  moreover have "kC2SReady = message_type_of (message_value kC2SReady)" by (simp add: message_type_of_def message_table_def)
  ultimately obtain fr where fr: "read_frame (ready_bytes @ []) = (Inr fr, length ready_bytes)"
    "mh_type (fr_header fr) = kC2SReady" "decompress_frame_payload None fr = Some (run_writer (encode_C2SReady ()))"
    using frame_delivered [of None "encode_C2SReady ()" kC2SReady "message_value kC2SReady" "[]"] unfolding ready_bytes_def by auto
  have "decompress_frame_payload lz fr = Some []"
    using fr(3) by (auto simp: decompress_frame_payload_def encode_C2SReady_def split: if_splits)
  with fr show ?thesis by auto
qed

lemma found_outside:
  fixes s :: "('t, 'h) server_session"
  shows "outside c s' = outside c s \<Longrightarrow> k \<noteq> c \<Longrightarrow> find_conn k s' = find_conn k s"
proof -
  have "map_of (filter (\<lambda>(k, cn). k \<noteq> c) l) k = map_of l k" if "k \<noteq> c" for k and l :: "(conn_id \<times> 't conn) list"
    using that by (induction l) auto
  note other = this
  assume "outside c s' = outside c s" and "k \<noteq> c"
  then have "filter (\<lambda>(k, cn). k \<noteq> c) (sn_conns s') = filter (\<lambda>(k, cn). k \<noteq> c) (sn_conns s)"
    unfolding outside_def prod.inject by blast
  then show "find_conn k s' = find_conn k s"
    unfolding find_conn_def using other [OF \<open>k \<noteq> c\<close>, of "sn_conns s'"] other [OF \<open>k \<noteq> c\<close>, of "sn_conns s"] by simp
qed

lemma join_counts: "find_conn c s = Some cn \<Longrightarrow> sn_playing (complete_join F c name s) = sn_playing s + 1"
  by (simp add: complete_join_def Let_def send_field [OF sends_broadcast] send_field [OF sends_message])
    (simp add: update_conn_def)

lemma ready_joins:
  assumes "awaits_ready c s"
  shows "sn_playing (on_message env hk c ready_bytes s) = sn_playing s + 1"
proof -
  obtain cn where cn: "find_conn c s = Some cn" "\<not> cn_playing cn" "sv_state (cn_handshake cn) = kAwaitingReady"
    using assms by (auto simp: awaits_ready_def)
  obtain fr where fr: "read_frame ready_bytes = (Inr fr, length ready_bytes)" "mh_type (fr_header fr) = kC2SReady"
    "decompress_frame_payload (sve_lz4 env) fr = Some []" using ready_frame_read by blast
  let ?fr = "fr\<lparr>fr_payload := []\<rparr>"
  have "decode_C2SReady [] = Inr ()"
    using ready_codec.decode_encode [of "()"] by (simp add: encode_C2SReady_def valid_C2SReady_def)
  then have step: "srv_on_frame cfg lz host ?fr (cn_handshake cn) = on_ready lz host ?fr (cn_handshake cn)"
    "ss_completed (fst (on_ready lz host ?fr (cn_handshake cn)))" "\<not> ss_disconnect (fst (on_ready lz host ?fr (cn_handshake cn)))"
    for cfg lz and host :: "'a server_host"
    using cn(3) fr(2) by (simp_all add: srv_on_frame_def on_ready_def Let_def empty_step_def)
  have m: "on_message env hk c ready_bytes s = on_handshake_message env c ?fr cn s"
    using cn fr by (simp add: on_message_def auth_limited_def Let_def)
  have bumped: "sn_playing (if b then x\<lparr>sn_next_net_id := v\<rparr> else x) = sn_playing x"
    "find_conn c (if b then x\<lparr>sn_next_net_id := v\<rparr> else x) = find_conn c x" for b v and x :: "('a, 'b) server_session"
    by (simp_all add: find_conn_def)
  show ?thesis unfolding m on_handshake_message_def Let_def case_prod_unfold step(1)
    using step(2, 3) cn(3) cn(1)
    by (simp add: join_counts bumped find_update send_field [OF sends_frames]) (simp add: update_conn_def)
qed

text \<open>The cap is not looked at again: everyone who waits for its Ready joins, however many play already.\<close>

lemma all_ready_join:
  assumes "distinct cs" and "\<forall>c \<in> set cs. awaits_ready c s"
  shows "sn_playing (fold (\<lambda>c. on_event env hk (Peer_Message c ready_bytes)) cs s) = sn_playing s + length cs"
  using assms
proof (induction cs arbitrary: s)
  case (Cons c cs)
  let ?s = "on_message env hk c ready_bytes s"
  obtain cn where "find_conn c s = Some cn" "\<not> cn_playing cn" using Cons.prems(2) by (auto simp: awaits_ready_def)
  from waiting_harmless [OF this] have "outside c ?s = outside c s" .
  then have same: "find_conn k ?s = find_conn k s" if "k \<noteq> c" for k using that by (rule found_outside)
  have "\<forall>k \<in> set cs. awaits_ready k ?s"
  proof
    fix k assume "k \<in> set cs"
    with Cons.prems have "k \<noteq> c" "awaits_ready k s" by auto
    then show "awaits_ready k ?s" by (simp add: awaits_ready_def same)
  qed
  with Cons show ?case using ready_joins [of c s env hk] by simp
qed simp

section \<open>Instances\<close>

text \<open>A server for one player, and a handshake that has signed in while nobody plays and is about to be ready.\<close>

definition crowd_config :: server_config where
  "crowd_config = default_server_config\<lparr>sc_max_players := 1\<rparr>"

definition demo_auth :: c2s_auth where
  "demo_auth = \<lparr>auth_player_name = lit ''a'', auth_token = []\<rparr>"

definition no_manifest :: c2s_asset_manifest_request where
  "no_manifest = \<lparr>amreq_known_manifest_hash = \<lparr>ah_lo = 0, ah_hi = 0\<rparr>\<rparr>"

definition joining_frames :: "frame list" where
  "joining_frames = [frame_of kC2SHello (encode_C2SHello demo_hello), frame_of kC2SAuth (encode_C2SAuth demo_auth),
     frame_of kC2SAssetManifestRequest (encode_C2SAssetManifestRequest no_manifest),
     frame_of kC2SAssetRequest (encode_C2SAssetRequest \<lparr>areq_missing = []\<rparr>)]"

definition at_ready :: "unit server_handshake" where
  "at_ready = fold (\<lambda>fr hs. snd (srv_on_frame crowd_config None default_server_host fr hs)) joining_frames new_server"

lemma at_ready_state: "sv_state at_ready = kAwaitingReady"
proof -
  have 1: "valid_C2SHello demo_hello" by (simp add: codec_defs demo_hello_def lit_def)
  have 2: "valid_C2SAuth demo_auth" by (simp add: codec_defs demo_auth_def lit_def)
  have 3: "valid_C2SAssetManifestRequest no_manifest" by (simp add: codec_defs)
  have 4: "valid_C2SAssetRequest \<lparr>areq_missing = []\<rparr>" by (simp add: codec_defs)
  show ?thesis
    using hello_codec.decode_encode [OF 1] auth_codec.decode_encode [OF 2] amreq_codec.decode_encode [OF 3]
      areq_codec.decode_encode [OF 4]
    by (simp add: at_ready_def joining_frames_def frame_of_def srv_on_frame_def on_hello_def on_auth_def
        on_manifest_request_def on_asset_request_def crowd_config_def default_server_config_def default_server_host_def
        default_authenticate_def finish_auth_def demo_hello_def demo_auth_def new_server_def Let_def lit_def)
qed

lemma at_ready_reachable: "srv_reachable crowd_config None at_ready"
proof -
  have "srv_reachable crowd_config None (snd (srv_on_frame crowd_config None default_server_host fr st))"
    if "srv_reachable crowd_config None st" for fr and st :: "unit server_handshake"
    using reach_step [OF that, of default_server_host "Got_Frame fr"] by simp
  then show ?thesis unfolding at_ready_def joining_frames_def by (simp add: reach_new)
qed

definition crowd :: "(unit, unit) server_session" where
  "crowd = (new_server_session integer_ops crowd_config None ())
     \<lparr>sn_conns := [(1, (new_conn None 0)\<lparr>cn_handshake := at_ready\<rparr>), (2, (new_conn None 0)\<lparr>cn_handshake := at_ready\<rparr>)]\<rparr>"

lemma crowd_awaits: "\<forall>c \<in> {1, 2}. awaits_ready c crowd" "sn_playing crowd = 0"
  by (simp_all add: awaits_ready_def crowd_def find_conn_def new_conn_def new_server_session_def at_ready_state)

end
