(* ===== verification/Session_Inputs.thy ===== *)
theory Session_Inputs
  imports Session_Safety
begin

text \<open>
  What becomes of a client's commands: batches that overlap, repeat, arrive late or not at all act as the
  one stream of commands they are cut from, each command once and in order; and the client's prediction,
  replayed from a snapshot, is the state the server will have. Also what does not survive a batch: a
  place a hook puts the player at while it runs.
\<close>

section \<open>A batch as a function of the player\<close>

text \<open>One command, as it acts on the movement and on the player's own components.\<close>

definition pilot :: "float_ops \<Rightarrow> ('t, 'h) server_session \<Rightarrow> input_cmd \<Rightarrow> move_state \<times> player_entity \<Rightarrow> move_state \<times> player_entity" where
  "pilot F s cmd mp = (case mp of (m, p) \<Rightarrow>
     if cmd_seq cmd \<le> pl_last_seq p then (m, p)
     else (if ground_ready F (ms_position m) s then step_movement F (sn_move_params s) (world_query s) (to_move_input F cmd) m else m,
           p\<lparr>pl_last_seq := cmd_seq cmd, pl_selected_slot := cmd_selected_slot cmd, pl_yaw := cmd_yaw cmd, pl_pitch := cmd_pitch cmd\<rparr>))"

definition no_input_hooks :: "('t, 'h) session_hooks \<Rightarrow> bool" where
  "no_input_hooks hk \<longleftrightarrow> hk_input hk = None \<and> hk_landed hk = None"

lemma update_conn_twice: "update_conn c g (update_conn c f s) = update_conn c (\<lambda>cn. g (f cn)) s"
  by (simp add: update_conn_def) (rule arg_cong [where f = "\<lambda>l. s\<lparr>sn_conns := l\<rparr>"], auto)

lemma found_unique:
  assumes "distinct (map fst (sn_conns s))" and "find_conn c s = Some cn" and "(c, b) \<in> set (sn_conns s)"
  shows "b = cn"
  using map_of_is_SomeI [OF assms(1, 3)] assms(2) by (simp add: find_conn_def)

lemma update_conn_same:
  assumes "distinct (map fst (sn_conns s))" and "find_conn c s = Some cn" and "f cn = cn"
  shows "update_conn c f s = s"
proof -
  have "(if k = c then f b else b) = b" if "(k, b) \<in> set (sn_conns s)" for k b
    using found_unique [OF assms(1, 2)] that assms(3) by auto
  then have "map (\<lambda>(k, b). (k, if k = c then f b else b)) (sn_conns s) = sn_conns s"
    by (auto intro!: map_idI)
  then show ?thesis by (simp add: update_conn_def)
qed

lemma update_conn_cong:
  assumes "distinct (map fst (sn_conns s))" and "find_conn c s = Some cn" and "f cn = g cn"
  shows "update_conn c f s = update_conn c g s"
proof -
  have "(if k = c then f b else b) = (if k = c then g b else b)" if "(k, b) \<in> set (sn_conns s)" for k b
    using found_unique [OF assms(1, 2)] that assms(3) by auto
  then have "map (\<lambda>(k, b). (k, if k = c then f b else b)) (sn_conns s) = map (\<lambda>(k, b). (k, if k = c then g b else b)) (sn_conns s)"
    by auto
  then show ?thesis by (simp add: update_conn_def)
qed

lemma update_conn_fields [simp]:
  "sn_replicator (update_conn c f s) = sn_replicator s" "sn_move_params (update_conn c f s) = sn_move_params s"
  "sn_interest (update_conn c f s) = sn_interest s" "map fst (sn_conns (update_conn c f s)) = map fst (sn_conns s)"
  by (simp_all add: update_conn_def comp_def case_prod_unfold)

lemma pilot_session:
  "sn_replicator s' = sn_replicator s \<Longrightarrow> sn_move_params s' = sn_move_params s \<Longrightarrow> pilot F s' = pilot F s"
proof -
  assume same: "sn_replicator s' = sn_replicator s" "sn_move_params s' = sn_move_params s"
  have "world_query s' = world_query s" by (rule ext) (simp add: world_query_def same)
  moreover have "ground_ready F p s' = ground_ready F p s" for p by (simp add: ground_ready_def same)
  ultimately show ?thesis by (intro ext) (simp only: pilot_def same)
qed

lemma input_step_pilot:
  assumes "no_input_hooks hk" and "find_conn c s = Some cn"
  shows "input_step F hk c n cmd (m, s) =
    (fst (pilot F s cmd (m, cn_entity cn)), if cmd_seq cmd \<le> pl_last_seq (cn_entity cn) then s
       else update_entity c (\<lambda>p. p\<lparr>pl_last_seq := cmd_seq cmd, pl_selected_slot := cmd_selected_slot cmd,
         pl_yaw := cmd_yaw cmd, pl_pitch := cmd_pitch cmd\<rparr>) s)"
  using assms by (simp add: input_step_def pilot_def no_input_hooks_def simulate_cmd_def effective_cmd_def Let_def)

lemma fold_pilot:
  assumes "no_input_hooks hk" and "distinct (map fst (sn_conns s))" and "find_conn c s = Some cn"
  shows "fold (input_step F hk c n) cmds (m, s) = (let (m', p') = fold (pilot F s) cmds (m, cn_entity cn) in
    (m', update_entity c (\<lambda>_. p') s))"
  using assms(2, 3)
proof (induction cmds arbitrary: m s cn)
  case Nil
  have "update_entity c (\<lambda>_. cn_entity cn) s = s"
    unfolding update_entity_def by (rule update_conn_same [OF Nil]) simp
  then show ?case by simp
next
  case (Cons cmd cmds)
  let ?p = "snd (pilot F s cmd (m, cn_entity cn))"
  let ?s = "if cmd_seq cmd \<le> pl_last_seq (cn_entity cn) then s else update_entity c (\<lambda>p. p\<lparr>pl_last_seq := cmd_seq cmd,
    pl_selected_slot := cmd_selected_slot cmd, pl_yaw := cmd_yaw cmd, pl_pitch := cmd_pitch cmd\<rparr>) s"
  have s: "?s = update_entity c (\<lambda>_. ?p) s"
  proof (cases "cmd_seq cmd \<le> pl_last_seq (cn_entity cn)")
    case True
    then have "update_entity c (\<lambda>_. ?p) s = s"
      unfolding update_entity_def by (intro update_conn_same [OF Cons.prems]) (simp add: pilot_def)
    then show ?thesis using True by simp
  next
    case False
    then show ?thesis unfolding if_not_P [OF False] update_entity_def
      by (intro update_conn_cong [OF Cons.prems]) (simp add: pilot_def)
  qed
  have d: "distinct (map fst (sn_conns ?s))" "find_conn c ?s = Some (cn\<lparr>cn_entity := ?p\<rparr>)"
    using Cons.prems unfolding s unfolding update_entity_def by (simp_all add: find_update)
  have same: "pilot F ?s = pilot F s" unfolding s by (rule pilot_session) (simp_all add: update_entity_def)
  have upd: "update_entity c (\<lambda>_. p') ?s = update_entity c (\<lambda>_. p') s" for p'
    unfolding s unfolding update_entity_def update_conn_twice by simp
  show ?case
    using Cons.IH [OF d, of "fst (pilot F s cmd (m, cn_entity cn))"]
    by (simp add: input_step_pilot [OF assms(1) Cons.prems(2)] same upd)
qed

text \<open>The player's components with a movement stored.\<close>

definition placed :: "move_state \<Rightarrow> player_entity \<Rightarrow> player_entity" where
  "placed m p = p\<lparr>pl_pos := ms_position m, pl_vel := ms_velocity m, pl_on_ground := ms_on_ground m\<rparr>"

definition settle :: "float_ops \<Rightarrow> conn_id \<Rightarrow> net_id \<Rightarrow> player_entity \<Rightarrow> ('t, 'h) server_session \<Rightarrow> ('t, 'h) server_session" where
  "settle F c n p s = upsert_entity n (\<lambda>e. e\<lparr>es_pos := pl_pos p, es_rot := \<lparr>v2_x = pl_yaw p, v2_y = pl_pitch p\<rparr>,
       es_vel := vf_of_vd F (pl_vel p)\<rparr>) (update_conn c (\<lambda>cn. cn\<lparr>cn_entity := p, cn_input_driven := True\<rparr>) s)"

lemma batch_settles:
  assumes "no_input_hooks hk" and "distinct (map fst (sn_conns s))" and "find_conn c s = Some cn"
  shows "handle_input_batch F hk c batch s = (let (m, p) = fold (pilot F s) (batch_cmds batch) (entity_move_state (cn_entity cn), cn_entity cn) in
    settle F c (cn_net_id cn) (placed m p) s)"
proof -
  obtain m p where mp: "fold (pilot F s) (batch_cmds batch) (entity_move_state (cn_entity cn), cn_entity cn) = (m, p)"
    using prod.exhaust by blast
  have f: "find_conn c (update_conn c f s) = Some (f cn)" for f by (simp add: find_update assms(3))
  show ?thesis
    unfolding handle_input_batch_def assms(3) option.case fold_pilot [OF assms] mp Let_def prod.case store_move_def
      update_entity_def update_conn_twice f settle_def placed_def
    by simp
qed

section \<open>Batches in sequence\<close>

lemma placed_facts [simp]:
  "entity_move_state (placed m p) = m" "placed m (placed m' p) = placed m p" "pl_last_seq (placed m p) = pl_last_seq p"
  by (simp_all add: entity_move_state_def placed_def)

lemma fold_pilot_placed:
  "fold (pilot F s) cmds (m, placed k p) = (fst (fold (pilot F s) cmds (m, p)), placed k (snd (fold (pilot F s) cmds (m, p))))"
proof (induction cmds arbitrary: m p)
  case (Cons cmd cmds)
  have "pilot F s cmd (m, placed k p) = (fst (pilot F s cmd (m, p)), placed k (snd (pilot F s cmd (m, p))))"
    by (simp add: pilot_def placed_def)
  then show ?case using Cons.IH [of "fst (pilot F s cmd (m, p))" "snd (pilot F s cmd (m, p))"] by simp
qed simp

lemma grid_upsert_twice: "es_net_id e = es_net_id e' \<Longrightarrow> grid_upsert e (grid_upsert e' g) = grid_upsert e g"
  by (simp add: grid_upsert_def)

lemma settle_twice: "settle F c n q (settle F c n p s) = settle F c n q s"
proof -
  have commute: "update_conn c f (x\<lparr>sn_interest := g\<rparr>) = (update_conn c f x)\<lparr>sn_interest := g\<rparr>" for f g and x :: "('a, 'b) server_session"
    by (simp add: update_conn_def)
  show ?thesis
    by (simp add: settle_def upsert_entity_def Let_def commute update_conn_twice grid_upsert_twice)
qed

lemma find_settle: "find_conn c s = Some cn \<Longrightarrow> find_conn c (settle F c n p s) = Some (cn\<lparr>cn_entity := p, cn_input_driven := True\<rparr>)"
proof -
  have "find_conn c (x\<lparr>sn_interest := g\<rparr>) = find_conn c x" for g and x :: "('a, 'b) server_session" by (simp add: find_conn_def)
  then show "find_conn c s = Some cn \<Longrightarrow> find_conn c (settle F c n p s) = Some (cn\<lparr>cn_entity := p, cn_input_driven := True\<rparr>)"
    by (simp add: settle_def upsert_entity_def Let_def find_update)
qed

lemma settle_fields [simp]:
  "sn_replicator (settle F c n p s) = sn_replicator s" "sn_move_params (settle F c n p s) = sn_move_params s"
  "map fst (sn_conns (settle F c n p s)) = map fst (sn_conns s)"
  unfolding settle_def upsert_entity_def Let_def by simp_all

text \<open>Two batches in sequence are one batch.\<close>

lemma batch_append:
  assumes "no_input_hooks hk" and "distinct (map fst (sn_conns s))" and "find_conn c s = Some cn"
  shows "handle_input_batch F hk c \<lparr>batch_cmds = ys\<rparr> (handle_input_batch F hk c \<lparr>batch_cmds = xs\<rparr> s) =
    handle_input_batch F hk c \<lparr>batch_cmds = xs @ ys\<rparr> s"
proof -
  obtain m p where mp: "fold (pilot F s) xs (entity_move_state (cn_entity cn), cn_entity cn) = (m, p)" using prod.exhaust by blast
  let ?s = "settle F c (cn_net_id cn) (placed m p) s"
  have same: "pilot F ?s = pilot F s" by (rule pilot_session) simp_all
  have first: "handle_input_batch F hk c \<lparr>batch_cmds = xs\<rparr> s = ?s"
    by (simp add: batch_settles [OF assms] mp)
  have d: "distinct (map fst (sn_conns ?s))" using assms(2) by simp
  show ?thesis
    unfolding first unfolding batch_settles [OF assms(1) d find_settle [OF assms(3)]] unfolding batch_settles [OF assms]
    by (simp add: same mp fold_pilot_placed settle_twice case_prod_unfold Let_def)
qed

lemma pilot_seq: "pl_last_seq (snd (pilot F s cmd (m, p))) = max (cmd_seq cmd) (pl_last_seq p)"
  by (simp add: pilot_def max_def)

lemma fold_pilot_old: "\<forall>x \<in> set cmds. cmd_seq x \<le> pl_last_seq p \<Longrightarrow> fold (pilot F s) cmds (m, p) = (m, p)"
  by (induction cmds) (simp_all add: pilot_def)

lemma fold_pilot_seq:
  "pl_last_seq p \<le> pl_last_seq (snd (fold (pilot F s) cmds (m, p))) \<and>
   (\<forall>x \<in> set cmds. cmd_seq x \<le> pl_last_seq (snd (fold (pilot F s) cmds (m, p))))"
proof (induction cmds arbitrary: m p)
  case (Cons cmd cmds)
  let ?r = "pilot F s cmd (m, p)"
  have "max (cmd_seq cmd) (pl_last_seq p) \<le> pl_last_seq (snd (fold (pilot F s) cmds (fst ?r, snd ?r)))"
    using Cons.IH [where m = "fst ?r" and p = "snd ?r"] pilot_seq [of F s cmd m p] by simp
  then show ?case using Cons.IH [where m = "fst ?r" and p = "snd ?r"] by simp
qed simp

text \<open>Commands whose effect is already in the state change nothing.\<close>

lemma batch_skips:
  assumes "no_input_hooks hk" and "distinct (map fst (sn_conns s))" and "find_conn c s = Some cn"
    and "set old \<subseteq> set xs"
  shows "handle_input_batch F hk c \<lparr>batch_cmds = xs @ old @ ys\<rparr> s = handle_input_batch F hk c \<lparr>batch_cmds = xs @ ys\<rparr> s"
proof -
  obtain m p where mp: "fold (pilot F s) xs (entity_move_state (cn_entity cn), cn_entity cn) = (m, p)" using prod.exhaust by blast
  have old: "\<forall>x \<in> set old. cmd_seq x \<le> pl_last_seq p"
    using fold_pilot_seq [of "cn_entity cn" F s xs "entity_move_state (cn_entity cn)"] assms(4) mp by auto
  show ?thesis by (simp add: batch_settles [OF assms(1-3)] mp fold_pilot_old [OF old])
qed

section \<open>Windows of one stream\<close>

text \<open>
  A batch carries the commands from \<open>i\<close> up to \<open>j\<close> of the stream; nothing is skipped as long as each
  batch begins within what has arrived.
\<close>

primrec no_gap :: "nat \<Rightarrow> (nat \<times> nat) list \<Rightarrow> bool" where
  "no_gap k [] \<longleftrightarrow> True"
| "no_gap k (w # ws) \<longleftrightarrow> fst w \<le> k \<and> no_gap (max k (snd w)) ws"

definition window :: "input_cmd list \<Rightarrow> nat \<times> nat \<Rightarrow> c2s_input_batch" where
  "window stream w = \<lparr>batch_cmds = drop (fst w) (take (snd w) stream)\<rparr>"

lemma window_step:
  assumes "no_input_hooks hk" and "distinct (map fst (sn_conns s))" and "find_conn c s = Some cn" and "fst w \<le> k"
  shows "handle_input_batch F hk c (window stream w) (handle_input_batch F hk c \<lparr>batch_cmds = take k stream\<rparr> s) =
    handle_input_batch F hk c \<lparr>batch_cmds = take (max k (snd w)) stream\<rparr> s"
proof -
  let ?i = "fst w" and ?j = "snd w"
  have new: "take k stream @ drop k (take ?j stream) = take (max k ?j) stream"
  proof (cases "k \<le> ?j")
    case True
    then show ?thesis using append_take_drop_id [of k "take ?j stream"] by (simp add: min_def max_def)
  qed (simp add: max_def)
  have "drop ?i (take ?j stream) = take (k - ?i) (drop ?i (take ?j stream)) @ drop k (take ?j stream)"
    using assms(4) by (metis append_take_drop_id drop_drop le_add_diff_inverse2)
  moreover have "set (take (k - ?i) (drop ?i (take ?j stream))) \<subseteq> set (take k stream)"
  proof
    fix x assume x: "x \<in> set (take (k - ?i) (drop ?i (take ?j stream)))"
    have "take (k - ?i) (drop ?i (take ?j stream)) = drop ?i (take k (take ?j stream))" using assms(4) by (simp add: take_drop)
    then have "x \<in> set (take k (take ?j stream))" using x by (metis in_set_dropD)
    then show "x \<in> set (take k stream)" using set_take_subset_set_take [of "min k ?j" k stream] by auto
  qed
  ultimately show ?thesis
    using batch_skips [OF assms(1-3), of "take (k - ?i) (drop ?i (take ?j stream))" "take k stream" F "drop k (take ?j stream)"] new
    by (simp add: window_def batch_append [OF assms(1-3)])
qed

lemma windows_once:
  assumes "no_input_hooks hk" and "distinct (map fst (sn_conns s))" and "find_conn c s = Some cn" and "no_gap k ws"
  shows "fold (\<lambda>w. handle_input_batch F hk c (window stream w)) ws (handle_input_batch F hk c \<lparr>batch_cmds = take k stream\<rparr> s) =
    handle_input_batch F hk c \<lparr>batch_cmds = take (fold max (map snd ws) k) stream\<rparr> s"
  using assms(4)
proof (induction ws arbitrary: k)
  case (Cons w ws)
  then have "fst w \<le> k" "no_gap (max k (snd w)) ws" by simp_all
  then show ?case using Cons.IH [of "max k (snd w)"] by (simp add: window_step [OF assms(1-3)] max.commute)
qed simp

text \<open>From the state the stream begins in.\<close>

lemma inputs_once:
  assumes "no_input_hooks hk" and "distinct (map fst (sn_conns s))" and "find_conn c s = Some cn" and "no_gap 0 ws" and "ws \<noteq> []"
  shows "fold (\<lambda>w. handle_input_batch F hk c (window stream w)) ws s =
    handle_input_batch F hk c \<lparr>batch_cmds = take (fold max (map snd ws) 0) stream\<rparr> s"
proof -
  obtain w rest where ws: "ws = w # rest" using assms(5) by (cases ws) auto
  have w: "fst w = 0" using assms(4) ws by simp
  have "handle_input_batch F hk c (window stream w) s = handle_input_batch F hk c \<lparr>batch_cmds = take (snd w) stream\<rparr> s"
    by (simp add: window_def w)
  then show ?thesis using windows_once [OF assms(1-3), of "snd w" rest F stream] assms(4) ws w by simp
qed

section \<open>Prediction\<close>

text \<open>What a double keeps when it goes over the wire as a float.\<close>

definition fits_f32 :: "float_ops \<Rightarrow> f64 \<Rightarrow> bool" where
  "fits_f32 F x \<longleftrightarrow> fo_of_f32 F (fo_to_f32 F x) = x"

lemma pack_flags_ground: "pack_flags g AND 1 \<noteq> 0 \<longleftrightarrow> g"
  by (simp add: pack_flags_def)

text \<open>The snapshot's record of the player, read back by the client, is the movement the server has.\<close>

lemma local_record_move:
  assumes "fits_f32 F (vd_x (pl_vel (cn_entity cn)))" and "fits_f32 F (vd_y (pl_vel (cn_entity cn)))"
    and "fits_f32 F (vd_z (pl_vel (cn_entity cn)))"
  shows "\<lparr>ms_position = er_pos (local_record F cn s),
     ms_velocity = \<lparr>vd_x = fo_of_f32 F (vf_x (er_vel (local_record F cn s))), vd_y = fo_of_f32 F (vf_y (er_vel (local_record F cn s))),
       vd_z = fo_of_f32 F (vf_z (er_vel (local_record F cn s)))\<rparr>,
     ms_on_ground = er_flags (local_record F cn s) AND 1 \<noteq> 0\<rparr> = entity_move_state (cn_entity cn)"
  using assms by (simp add: local_record_def Let_def vf_of_vd_def fits_f32_def entity_move_state_def pack_flags_ground)

lemma pilot_predict:
  assumes "\<And>v. world_query s v = client_solid_at (cw_chunks w) v" and "cw_move_params w = sn_move_params s"
    and "\<And>pos. ground_ready F pos s" and "sorted_wrt (<) (map cmd_seq cmds)"
  shows "fst (fold (pilot F s) cmds (m, p)) = fold (predict F w) (filter (\<lambda>c. \<not> cmd_seq c \<le> pl_last_seq p) cmds) m"
  using assms(4)
proof (induction cmds arbitrary: m p)
  case (Cons cmd cmds)
  have q: "world_query s = client_solid_at (cw_chunks w)" using assms(1) by (rule ext)
  show ?case
  proof (cases "cmd_seq cmd \<le> pl_last_seq p")
    case True
    then show ?thesis using Cons by (simp add: pilot_def)
  next
    case False
    let ?r = "pilot F s cmd (m, p)"
    have "fst ?r = predict F w cmd m" "pl_last_seq (snd ?r) = cmd_seq cmd"
      using False by (simp_all add: pilot_def predict_def assms(2, 3) q)
    moreover have "filter (\<lambda>c. \<not> cmd_seq c \<le> cmd_seq cmd) cmds = cmds" "filter (\<lambda>c. \<not> cmd_seq c \<le> pl_last_seq p) cmds = cmds"
      using Cons.prems False by (auto intro!: filter_True)
    moreover obtain m' p' where "?r = (m', p')" using prod.exhaust by blast
    ultimately show ?thesis using Cons.IH [of m' p'] Cons.prems False by simp
  qed
qed simp

text \<open>
  The client replays what the snapshot has not acknowledged; the server, once it has received the same
  commands, has the player where the client shows it.
\<close>

lemma reconciled:
  assumes "no_input_hooks hk" and "distinct (map fst (sn_conns s))" and "find_conn c s = Some cn"
    and "\<And>v. world_query s v = client_solid_at (cw_chunks w) v" and "cw_move_params w = sn_move_params s"
    and "\<And>pos. ground_ready F pos s" and "sorted_wrt (<) (map cmd_seq (cw_history w))"
    and "fits_f32 F (vd_x (pl_vel (cn_entity cn)))" and "fits_f32 F (vd_y (pl_vel (cn_entity cn)))"
    and "fits_f32 F (vd_z (pl_vel (cn_entity cn)))"
  shows "\<exists>cn'. find_conn c (handle_input_batch F hk c \<lparr>batch_cmds = cw_history w\<rparr> s) = Some cn' \<and>
    entity_move_state (cn_entity cn') = cw_predicted (reconcile F (local_record F cn s) (pl_last_seq (cn_entity cn)) w)"
proof -
  let ?e = "cn_entity cn"
  let ?r = "fold (pilot F s) (cw_history w) (entity_move_state ?e, ?e)"
  let ?h = "filter (\<lambda>c. \<not> cmd_seq c \<le> pl_last_seq ?e) (cw_history w)"
  have "cw_predicted (reconcile F (local_record F cn s) (pl_last_seq ?e) w) = fold (predict F w) ?h (entity_move_state ?e)"
    unfolding reconcile_def Let_def local_record_move [OF assms(8-10)] by simp
  also have "\<dots> = fst ?r"
    by (rule pilot_predict [OF assms(4-7), symmetric])
  finally have p: "cw_predicted (reconcile F (local_record F cn s) (pl_last_seq ?e) w) = fst ?r" .
  show ?thesis unfolding p
    by (simp add: batch_settles [OF assms(1-3)] case_prod_unfold Let_def find_settle [OF assms(3)])
qed

section \<open>A place set during a batch\<close>

text \<open>A hook that teleports the player and lets the command through.\<close>

definition teleporting :: "float_ops \<Rightarrow> vec3d \<Rightarrow> ('t, 'h) session_hooks" where
  "teleporting F to = no_session_hooks\<lparr>hk_input :=
     Some (\<lambda>n cmd s. (\<lparr>ihr_veto = False, ihr_replacement = None\<rparr>, snd (teleport_player F n to s)))\<rparr>"

text \<open>What a batch reads of the session.\<close>

definition read_alike :: "conn_id \<Rightarrow> ('t, 'h) server_session \<Rightarrow> ('t, 'h) server_session \<Rightarrow> bool" where
  "read_alike c s s' \<longleftrightarrow> sn_replicator s' = sn_replicator s \<and> sn_move_params s' = sn_move_params s \<and>
     map_option (\<lambda>cn. pl_last_seq (cn_entity cn)) (find_conn c s') = map_option (\<lambda>cn. pl_last_seq (cn_entity cn)) (find_conn c s)"

lemma find_update_any: "find_conn k (update_conn c f s) = map_option (if k = c then f else id) (find_conn k s)"
proof -
  have "map_of (map (\<lambda>(j, b). (j, if j = c then f b else b)) l) k = map_option (if k = c then f else id) (map_of l k)" for l
    by (induction l) auto
  then show ?thesis by (simp add: find_conn_def update_conn_def)
qed

lemma alike_refl: "read_alike c s s"
  by (simp add: read_alike_def)

lemma alike_entity:
  assumes "read_alike c s s'" and "\<And>p. pl_last_seq (f p) = pl_last_seq p"
  shows "read_alike c s (update_entity k f s')"
  using assms(1) by (cases "find_conn c s'") (auto simp: read_alike_def update_entity_def find_update_any assms(2))

lemma alike_interest: "read_alike c s (s'\<lparr>sn_interest := g\<rparr>) = read_alike c s s'"
  by (simp add: read_alike_def find_conn_def)

lemma alike_teleport: "read_alike c s s' \<Longrightarrow> read_alike c s (snd (teleport_player F n to s'))"
  by (auto simp: teleport_player_def set_player_state_def upsert_entity_def Let_def alike_interest
      intro!: alike_entity split: option.split)

lemma alike_step:
  assumes "read_alike c s1 s2"
  shows "fst (input_step F (teleporting F to) c n cmd (m, s2)) = fst (input_step F no_session_hooks c n cmd (m, s1)) \<and>
    read_alike c (snd (input_step F no_session_hooks c n cmd (m, s1))) (snd (input_step F (teleporting F to) c n cmd (m, s2)))"
proof (cases "find_conn c s1")
  case None
  then have "find_conn c s2 = None" using assms by (simp add: read_alike_def)
  then show ?thesis using None assms by (simp add: input_step_def)
next
  case (Some c1)
  then obtain c2 where c2: "find_conn c s2 = Some c2" "pl_last_seq (cn_entity c2) = pl_last_seq (cn_entity c1)"
    using assms by (auto simp: read_alike_def)
  let ?s2 = "snd (teleport_player F n to s2)"
  have t: "read_alike c s1 ?s2" using assms by (rule alike_teleport)
  have w: "world_query ?s2 = world_query s1" using t by (intro ext) (simp add: world_query_def read_alike_def)
  have g: "ground_ready F p ?s2 = ground_ready F p s1" for p using t by (simp add: ground_ready_def read_alike_def)
  let ?f = "\<lambda>p. p\<lparr>pl_last_seq := cmd_seq cmd, pl_selected_slot := cmd_selected_slot cmd, pl_yaw := cmd_yaw cmd, pl_pitch := cmd_pitch cmd\<rparr>"
  have after: "read_alike c (update_entity c ?f s1) (update_entity c ?f ?s2)"
    using t Some by (cases "find_conn c ?s2") (auto simp: read_alike_def update_entity_def find_update_any)
  show ?thesis
    using Some c2 assms after t
    by (simp add: input_step_def no_session_hooks_def teleporting_def simulate_cmd_def effective_cmd_def Let_def g w case_prod_unfold)
      (simp add: read_alike_def)
qed

lemma alike_fold:
  "read_alike c s1 s2 \<Longrightarrow>
   fst (fold (input_step F (teleporting F to) c n) cmds (m, s2)) = fst (fold (input_step F no_session_hooks c n) cmds (m, s1)) \<and>
   read_alike c (snd (fold (input_step F no_session_hooks c n) cmds (m, s1))) (snd (fold (input_step F (teleporting F to) c n) cmds (m, s2)))"
proof (induction cmds arbitrary: m s1 s2)
  case (Cons cmd cmds)
  let ?a = "input_step F no_session_hooks c n cmd (m, s1)" and ?b = "input_step F (teleporting F to) c n cmd (m, s2)"
  obtain m' sa sb where ab: "?a = (m', sa)" "?b = (m', sb)" "read_alike c sa sb"
    using alike_step [OF Cons.prems, of F to n cmd m] by (metis prod.collapse)
  then show ?case using Cons.IH [OF ab(3), of m'] by simp
qed simp

lemma stored_move:
  assumes "find_conn c s = Some cn"
  shows "\<exists>cn'. find_conn c (store_move F c n m s) = Some cn' \<and> entity_move_state (cn_entity cn') = m"
proof -
  have "find_conn c (x\<lparr>sn_interest := g\<rparr>) = find_conn c x" for g and x :: "('a, 'b) server_session" by (simp add: find_conn_def)
  then show ?thesis
    by (simp add: store_move_def Let_def update_entity_def find_update assms upsert_entity_def entity_move_state_def)
qed

lemma teleport_lost:
  assumes "find_conn c s = Some cn"
  shows "\<exists>a b. find_conn c (handle_input_batch F (teleporting F to) c batch s) = Some a \<and>
    find_conn c (handle_input_batch F no_session_hooks c batch s) = Some b \<and>
    entity_move_state (cn_entity a) = entity_move_state (cn_entity b)"
proof -
  let ?a = "fold (input_step F (teleporting F to) c (cn_net_id cn)) (batch_cmds batch) (entity_move_state (cn_entity cn), s)"
  let ?b = "fold (input_step F no_session_hooks c (cn_net_id cn)) (batch_cmds batch) (entity_move_state (cn_entity cn), s)"
  have same: "fst ?a = fst ?b" "read_alike c (snd ?b) (snd ?a)" using alike_fold [OF alike_refl] by blast+
  have "\<exists>cn. find_conn c (snd ?b) = Some cn"
  proof -
    have "find_conn c (snd (input_step F no_session_hooks c n cmd ms)) = None \<longleftrightarrow> find_conn c (snd ms) = None" for n cmd and ms :: "move_state \<times> ('a, 'b) server_session"
      by (cases ms) (simp add: input_step_def no_session_hooks_def simulate_cmd_def update_entity_def find_update_any Let_def split: option.split)
    then have "find_conn c (snd (fold (input_step F no_session_hooks c n) cmds ms)) = None \<longleftrightarrow> find_conn c (snd ms) = None" for n cmds and ms :: "move_state \<times> ('a, 'b) server_session"
      by (induction cmds arbitrary: ms) simp_all
    then show ?thesis using assms by (metis not_None_eq snd_conv)
  qed
  then obtain cb where b: "find_conn c (snd ?b) = Some cb" ..
  then obtain ca where a: "find_conn c (snd ?a) = Some ca" using same(2) by (auto simp: read_alike_def)
  show ?thesis
    using stored_move [OF a, of F "cn_net_id cn" "fst ?a"] stored_move [OF b, of F "cn_net_id cn" "fst ?b"] same(1)
    by (auto simp: handle_input_batch_def assms case_prod_unfold Let_def)
qed

lemma teleport_moves:
  assumes "playing_conn n s = Some (c, cn)" and "find_conn c s = Some cn"
  shows "\<exists>cn'. find_conn c (snd (teleport_player F n to s)) = Some cn' \<and> pl_pos (cn_entity cn') = to"
proof -
  have "find_conn c (x\<lparr>sn_interest := g\<rparr>) = find_conn c x" for g and x :: "('a, 'b) server_session" by (simp add: find_conn_def)
  then show ?thesis using assms
    by (simp add: teleport_player_def set_player_state_def upsert_entity_def Let_def update_entity_def find_update)
qed

end
