(* ===== verification/Session_Snapshots.thy ===== *)
theory Session_Snapshots
  imports Session_Safety
begin

text \<open>
  Entity snapshots from the server's view to the client's (\<open>ServerSession::broadcast_snapshots\<close>,
  \<open>ClientSession::apply_snapshot\<close>): as long as every snapshot arrives the client shows exactly what is
  visible; but they travel unreliably (\<open>net/transport.hpp\<close>), and what a lost one said of entities that
  enter or leave is not said again. Also the healing of punched blocks.
\<close>

section \<open>Delivery\<close>

datatype send_mode = kReliableOrdered | kUnreliable

fun send_mode_for_lane :: "lane \<Rightarrow> send_mode" where
  "send_mode_for_lane kControl = kReliableOrdered"
| "send_mode_for_lane kWorld = kReliableOrdered"
| "send_mode_for_lane kAssets = kReliableOrdered"
| "send_mode_for_lane kFeedback = kReliableOrdered"
| "send_mode_for_lane kSnapshot = kUnreliable"
| "send_mode_for_lane kInput = kUnreliable"

definition gns_lane_index :: "lane \<Rightarrow> nat" where
  "gns_lane_index l = (if l = kFeedback then 1 else 0)"

definition lane_skips_nagle :: "lane \<Rightarrow> bool" where
  "lane_skips_nagle l \<longleftrightarrow> l = kFeedback"

section \<open>What a snapshot does to the table of entities\<close>

lemma ingest_remote: "cw_remote (ingest_record t r w) = (cw_remote w)(er_net_id r \<mapsto> r)"
  by (simp add: ingest_record_def Let_def)

lemma remove_remote: "cw_remote (remove_entity n w) = (cw_remote w)(n := None)"
  by (simp add: remove_entity_def)

lemma fold_ingest_remote:
  assumes "\<forall>r \<in> set rs. f (er_net_id r) = r"
  shows "cw_remote (fold (ingest_record t) rs w) n = (if n \<in> er_net_id ` set rs then Some (f n) else cw_remote w n)"
  using assms by (induction rs arbitrary: w) (auto simp: ingest_remote)

lemma fold_remove_remote: "cw_remote (fold remove_entity ns w) n = (if n \<in> set ns then None else cw_remote w n)"
  by (induction ns arbitrary: w) (auto simp: remove_remote)

lemma reconcile_remote [simp]: "cw_remote (reconcile F r a w) = cw_remote w"
  by (simp add: reconcile_def Let_def)

lemma snapshot_remote:
  assumes "\<forall>r \<in> set (snap_entered snap). f (er_net_id r) = r" and "\<forall>r \<in> set (snap_updated snap). g (er_net_id r) = r"
  shows "cw_remote (apply_snapshot env snap w) n = (if n \<in> set (snap_removed snap) then None
     else if n \<in> er_net_id ` set (snap_updated snap) then Some (g n)
     else if n \<in> er_net_id ` set (snap_entered snap) then Some (f n) else cw_remote w n)"
  by (simp add: apply_snapshot_def Let_def fold_remove_remote fold_ingest_remote [OF assms(2)] fold_ingest_remote [OF assms(1)])

text \<open>The records of a snapshot, by the entity they are of.\<close>

lemma record_of:
  assumes "grid_ok (sn_interest s)"
  shows "r \<in> set (List.map_filter (entered_record s) ns) \<Longrightarrow> er_net_id r \<in> set ns \<and> entered_record s (er_net_id r) = Some r"
    and "r \<in> set (List.map_filter (updated_record s) ns) \<Longrightarrow> er_net_id r \<in> set ns \<and> updated_record s (er_net_id r) = Some r"
proof -
  have "es_net_id e = n" if "grid_get (sn_interest s) n = Some e" for n e
    using that assms by (auto simp: grid_ok_def)
  then show "r \<in> set (List.map_filter (entered_record s) ns) \<Longrightarrow> er_net_id r \<in> set ns \<and> entered_record s (er_net_id r) = Some r"
    and "r \<in> set (List.map_filter (updated_record s) ns) \<Longrightarrow> er_net_id r \<in> set ns \<and> updated_record s (er_net_id r) = Some r"
    by (force simp: map_filter_def entered_record_def updated_record_def to_record_def)+
qed

lemma recorded:
  assumes "grid_ok (sn_interest s)" and "grid_get (sn_interest s) n = Some e" and "n \<in> set ns"
  shows "n \<in> er_net_id ` set (List.map_filter (entered_record s) ns)" and "n \<in> er_net_id ` set (List.map_filter (updated_record s) ns)"
proof -
  have "es_net_id e = n" using assms(1, 2) by (auto simp: grid_ok_def)
  then show "n \<in> er_net_id ` set (List.map_filter (entered_record s) ns)" and "n \<in> er_net_id ` set (List.map_filter (updated_record s) ns)"
    using assms(2, 3) by (force simp: map_filter_def entered_record_def updated_record_def to_record_def image_iff)+
qed

section \<open>A client that misses nothing\<close>

definition receive_snapshot :: "client_env \<Rightarrow> s2c_entity_snapshot \<Rightarrow> client_world \<Rightarrow> client_world" where
  "receive_snapshot cenv snap w = (if snapshot_empty snap then w else apply_snapshot cenv snap w)"

text \<open>The client's table is the visible entities, each where the server has it.\<close>

definition shows_view :: "client_world \<Rightarrow> ('t, 'h) server_session \<Rightarrow> net_id list \<Rightarrow> bool" where
  "shows_view w s visible \<longleftrightarrow> dom (cw_remote w) = set visible \<and>
     (\<forall>n \<in> set visible. \<exists>e r. grid_get (sn_interest s) n = Some e \<and> cw_remote w n = Some r \<and>
        er_net_id r = n \<and> er_kind r = es_kind e \<and> er_pos r = es_pos e \<and> er_rot r = es_rot e \<and> er_vel r = es_vel e)"

text \<open>What the session relies on of its interest backend here; the scan and librg provide it over entities they hold.\<close>

definition sees_only :: "'t server_env \<Rightarrow> bool" where
  "sees_only env \<longleftrightarrow> (\<forall>g eye r n. grid_ok g \<longrightarrow> sorted_wrt (<) (sve_visible env g eye r n) \<and>
     (\<forall>k \<in> set (sve_visible env g eye r n). grid_get g k \<noteq> None))"

lemma scan_sees_only: "sve_visible env = visible_scan F \<Longrightarrow> sees_only env"
  by (auto simp: sees_only_def visible_scan_spec)

lemma diff_sets_of:
  assumes "sorted_wrt (<) prev" and "sorted_wrt (<) cur"
  shows "set (id_entered (diff_interest prev cur)) = set cur - set prev" "set (id_stayed (diff_interest prev cur)) = set cur \<inter> set prev"
    "set (id_left (diff_interest prev cur)) = set prev - set cur"
  using assms by (simp_all add: diff_interest_def set_set_intersection set_difference_spec)

lemma snapshot_fields:
  "snap_entered (snd (snapshot_for env cn s)) = List.map_filter (entered_record s) (id_entered (diff_interest (cn_last_visible cn) (fst (snapshot_for env cn s))))"
  "snap_updated (snd (snapshot_for env cn s)) = List.map_filter (updated_record s) (id_stayed (diff_interest (cn_last_visible cn) (fst (snapshot_for env cn s))))"
  "snap_removed (snd (snapshot_for env cn s)) = id_left (diff_interest (cn_last_visible cn) (fst (snapshot_for env cn s)))"
  by (simp_all add: snapshot_for_def Let_def)

lemma snapshot_shows:
  assumes "sees_only env" and "grid_ok (sn_interest s)" and "sorted_wrt (<) (cn_last_visible cn)"
    and "dom (cw_remote w) = set (cn_last_visible cn)"
  shows "shows_view (receive_snapshot cenv (snd (snapshot_for env cn s)) w) s (fst (snapshot_for env cn s)) \<and>
    sorted_wrt (<) (fst (snapshot_for env cn s))"
proof -
  let ?vis = "fst (snapshot_for env cn s)" and ?snap = "snd (snapshot_for env cn s)" and ?prev = "cn_last_visible cn"
  have vis: "sorted_wrt (<) ?vis" "\<forall>k \<in> set ?vis. grid_get (sn_interest s) k \<noteq> None"
    using assms(1, 2) by (simp_all add: sees_only_def snapshot_for_def Let_def)
  note d = diff_sets_of [OF assms(3) vis(1)]
  have e: "\<forall>r \<in> set (snap_entered ?snap). the (entered_record s (er_net_id r)) = r"
    and u: "\<forall>r \<in> set (snap_updated ?snap). the (updated_record s (er_net_id r)) = r"
    using record_of [OF assms(2)] unfolding snapshot_fields by force+
  have entered: "er_net_id ` set (snap_entered ?snap) = set ?vis - set ?prev"
  proof -
    have "er_net_id ` set (snap_entered ?snap) \<subseteq> set ?vis - set ?prev"
      using record_of(1) [OF assms(2)] unfolding snapshot_fields d(1) [symmetric] by blast
    moreover have "n \<in> er_net_id ` set (snap_entered ?snap)" if "n \<in> set ?vis - set ?prev" for n
      using that vis(2) recorded(1) [OF assms(2)] unfolding snapshot_fields d(1) [symmetric] by (metis DiffD1 d(1) not_None_eq)
    ultimately show ?thesis by blast
  qed
  have updated: "er_net_id ` set (snap_updated ?snap) = set ?vis \<inter> set ?prev"
  proof -
    have "er_net_id ` set (snap_updated ?snap) \<subseteq> set ?vis \<inter> set ?prev"
      using record_of(2) [OF assms(2)] unfolding snapshot_fields d(2) [symmetric] by blast
    moreover have "n \<in> er_net_id ` set (snap_updated ?snap)" if "n \<in> set ?vis \<inter> set ?prev" for n
      using that vis(2) recorded(2) [OF assms(2)] unfolding snapshot_fields d(2) [symmetric] by (metis IntD1 d(2) not_None_eq)
    ultimately show ?thesis by blast
  qed
  have removed: "set (snap_removed ?snap) = set ?prev - set ?vis" by (simp add: snapshot_fields d)
  have table: "cw_remote (apply_snapshot cenv ?snap w) n = (if n \<in> set ?vis
      then (if n \<in> set ?prev then updated_record s n else entered_record s n) else None)" for n
  proof -
    have some: "n \<in> set ?vis \<Longrightarrow> updated_record s n = Some (the (updated_record s n)) \<and> entered_record s n = Some (the (entered_record s n))"
      using vis(2) by (auto simp: updated_record_def entered_record_def)
    have "n \<notin> set ?vis \<Longrightarrow> n \<notin> set ?prev \<Longrightarrow> cw_remote w n = None" using assms(4) by blast
    then show ?thesis using some unfolding snapshot_remote [OF e u] entered updated removed by auto
  qed
  have shown: "shows_view (apply_snapshot cenv ?snap w) s ?vis"
  proof -
    have r: "\<exists>e r. grid_get (sn_interest s) n = Some e \<and> cw_remote (apply_snapshot cenv ?snap w) n = Some r \<and>
        er_net_id r = n \<and> er_kind r = es_kind e \<and> er_pos r = es_pos e \<and> er_rot r = es_rot e \<and> er_vel r = es_vel e" if n: "n \<in> set ?vis" for n
    proof -
      obtain e where e: "grid_get (sn_interest s) n = Some e" using n vis(2) by blast
      then have "es_net_id e = n" using assms(2) by (simp add: grid_ok_def)
      then show ?thesis using e n by (simp add: table updated_record_def entered_record_def to_record_def)
    qed
    have "n \<in> dom (cw_remote (apply_snapshot cenv ?snap w)) \<longleftrightarrow> n \<in> set ?vis" for n
      using r [of n] by (cases "n \<in> set ?vis") (auto simp: table)
    with r show ?thesis unfolding shows_view_def by blast
  qed
  show ?thesis
  proof (cases "snapshot_empty ?snap")
    case True
    then have "set ?vis = {}" "set ?prev = {}"
      using entered updated removed by (auto simp: snapshot_empty_def)
    then show ?thesis using True assms(4) vis(1) by (simp add: receive_snapshot_def shows_view_def)
  next
    case False
    then show ?thesis using shown vis(1) by (simp add: receive_snapshot_def)
  qed
qed

section \<open>Ticks\<close>

text \<open>
  A player's connection in the states of successive ticks, as the snapshots find it: what was visible to
  it is what the snapshot before looked at. In between the session may change in any way.
\<close>

fun chained :: "'t server_env \<Rightarrow> net_id list \<Rightarrow> ('t conn \<times> ('t, 'h) server_session) list \<Rightarrow> bool" where
  "chained env prev [] \<longleftrightarrow> True"
| "chained env prev ((cn, s) # ticks) \<longleftrightarrow> cn_last_visible cn = prev \<and> grid_ok (sn_interest s) \<and>
     chained env (fst (snapshot_for env cn s)) ticks"

definition watch :: "client_env \<Rightarrow> 't server_env \<Rightarrow> ('t conn \<times> ('t, 'h) server_session) list \<Rightarrow> client_world \<Rightarrow> client_world" where
  "watch cenv env ticks w = fold (\<lambda>(cn, s). receive_snapshot cenv (snd (snapshot_for env cn s))) ticks w"

lemma watched:
  assumes "sees_only env" and "chained env prev ticks" and "sorted_wrt (<) prev" and "dom (cw_remote w) = set prev" and "ticks \<noteq> []"
  shows "shows_view (watch cenv env ticks w) (snd (last ticks)) (fst (snapshot_for env (fst (last ticks)) (snd (last ticks))))"
  using assms(2-5)
proof (induction ticks arbitrary: prev w)
  case (Cons t ticks)
  obtain cn s where t: "t = (cn, s)" by (cases t)
  let ?vis = "fst (snapshot_for env cn s)" and ?w = "receive_snapshot cenv (snd (snapshot_for env cn s)) w"
  have now: "shows_view ?w s ?vis" "sorted_wrt (<) ?vis"
    using snapshot_shows [OF assms(1), of s cn w cenv] Cons.prems by (auto simp: t)
  show ?case
  proof (cases ticks)
    case Nil
    then show ?thesis using now by (simp add: t watch_def)
  next
    case (Cons t' rest)
    then have "ticks \<noteq> []" by simp
    moreover have "dom (cw_remote ?w) = set ?vis" using now(1) by (simp add: shows_view_def)
    ultimately show ?thesis using Cons.IH [of ?vis ?w] now(2) Cons.prems(1) by (simp add: t watch_def)
  qed
qed simp

text \<open>An entity that is not visible and was not is in no part of a snapshot.\<close>

lemma unseen_untouched:
  assumes "sees_only env" and "grid_ok (sn_interest s)" and "sorted_wrt (<) (cn_last_visible cn)"
    and "n \<notin> set (cn_last_visible cn)" and "n \<notin> set (fst (snapshot_for env cn s))"
  shows "cw_remote (receive_snapshot cenv (snd (snapshot_for env cn s)) w) n = cw_remote w n"
proof -
  let ?vis = "fst (snapshot_for env cn s)" and ?snap = "snd (snapshot_for env cn s)" and ?prev = "cn_last_visible cn"
  have vis: "sorted_wrt (<) ?vis" using assms(1, 2) by (simp add: sees_only_def snapshot_for_def Let_def)
  note d = diff_sets_of [OF assms(3) vis]
  have e: "\<forall>r \<in> set (snap_entered ?snap). the (entered_record s (er_net_id r)) = r"
    and u: "\<forall>r \<in> set (snap_updated ?snap). the (updated_record s (er_net_id r)) = r"
    using record_of [OF assms(2)] unfolding snapshot_fields by force+
  have "n \<notin> er_net_id ` set (snap_entered ?snap)" "n \<notin> er_net_id ` set (snap_updated ?snap)"
    using record_of [OF assms(2)] assms(4, 5) d unfolding snapshot_fields by blast+
  moreover have "n \<notin> set (snap_removed ?snap)" using assms(4) d(3) by (simp add: snapshot_fields)
  ultimately show ?thesis by (simp add: receive_snapshot_def snapshot_remote [OF e u])
qed

text \<open>
  An entity leaves a player's view in a tick whose snapshot is lost. The server counts the snapshot as
  sent, so as long as the entity stays out of view the client keeps showing it, where it last was.
\<close>

lemma ghost:
  assumes "sees_only env" and "chained env prev ((cn, s) # ticks)" and "sorted_wrt (<) prev"
    and "n \<notin> set (fst (snapshot_for env cn s))" and "\<forall>(cn, s) \<in> set ticks. n \<notin> set (fst (snapshot_for env cn s))"
  shows "cw_remote (watch cenv env ticks w) n = cw_remote w n"
proof -
  have rest: "cw_remote (watch cenv env ticks w) n = cw_remote w n"
    if "chained env vis ticks" "sorted_wrt (<) vis" "n \<notin> set vis" for vis
    using that assms(5)
  proof (induction ticks arbitrary: vis w)
    case (Cons t ticks)
    obtain cn s where t: "t = (cn, s)" by (cases t)
    have "cw_remote (receive_snapshot cenv (snd (snapshot_for env cn s)) w) n = cw_remote w n"
      using unseen_untouched [OF assms(1), of s cn n cenv w] Cons.prems by (simp add: t)
    moreover have "sorted_wrt (<) (fst (snapshot_for env cn s))"
      using assms(1) Cons.prems(1) by (simp add: t sees_only_def snapshot_for_def Let_def)
    ultimately show ?case using Cons.IH [of "fst (snapshot_for env cn s)"] Cons.prems by (simp add: t watch_def)
  qed (simp add: watch_def)
  have "sorted_wrt (<) (fst (snapshot_for env cn s))"
    using assms(1, 2) by (simp add: sees_only_def snapshot_for_def Let_def)
  with rest [of "fst (snapshot_for env cn s)"] assms(2, 4) show ?thesis by simp
qed

section \<open>Healing\<close>

text \<open>
  The healing loop returns, whatever the arithmetic, and even where the interval is zero or not a number:
  it makes at most as many rounds as the block has punches, each taking one off and one interval of the
  progress, and ends at the first where no punch is left or the progress falls short.
\<close>

lemma heal_loop_rounds:
  "\<exists>k \<le> unat punches. heal_loop F interval progress punches =
     (((\<lambda>p. fo_sub F p interval) ^^ k) progress, punches - of_nat k) \<and>
   (\<forall>j < k. fo_le F interval (((\<lambda>p. fo_sub F p interval) ^^ j) progress)) \<and>
   (k = unat punches \<or> \<not> fo_le F interval (((\<lambda>p. fo_sub F p interval) ^^ k) progress))"
proof (induction F interval progress punches rule: heal_loop.induct)
  case (1 F interval progress punches)
  let ?sub = "\<lambda>p. fo_sub F p interval"
  show ?case
  proof (cases "fo_le F interval progress \<and> punches > 0")
    case True
    then have "punches \<noteq> 0" by auto
    then have u: "unat punches = Suc (unat (punches - 1))"
      using unat_eq_zero [of punches] by (simp add: unat_minus_one)
    obtain k where k: "k \<le> unat (punches - 1)"
      "heal_loop F interval (?sub progress) (punches - 1) = ((?sub ^^ k) (?sub progress), punches - 1 - of_nat k)"
      "\<forall>j < k. fo_le F interval ((?sub ^^ j) (?sub progress))"
      "k = unat (punches - 1) \<or> \<not> fo_le F interval ((?sub ^^ k) (?sub progress))"
      using 1 [OF True] by blast
    have shift: "(?sub ^^ j) (?sub progress) = (?sub ^^ Suc j) progress" for j
      by (simp only: funpow.simps comp_apply funpow_swap1 [of ?sub])
    have "heal_loop F interval progress punches = ((?sub ^^ Suc k) progress, punches - of_nat (Suc k))"
      by (subst heal_loop.simps) (use True k(2) shift in \<open>simp add: algebra_simps\<close>)
    moreover have "\<forall>j < Suc k. fo_le F interval ((?sub ^^ j) progress)"
      using True k(3) shift by (auto simp: less_Suc_eq_0_disj)
    moreover have "Suc k = unat punches \<or> \<not> fo_le F interval ((?sub ^^ Suc k) progress)"
      using k(4) shift u by metis
    ultimately show ?thesis using k(1) u by (intro exI [of _ "Suc k"]) simp
  next
    case False
    then have "heal_loop F interval progress punches = (progress, punches)" by (subst heal_loop.simps) (rule if_not_P)
    moreover have "unat punches = 0 \<or> \<not> fo_le F interval progress" using False by (metis unat_eq_zero word_gt_0)
    ultimately show ?thesis by (intro exI [of _ 0]) auto
  qed
qed

end
