(* ===== verification/Session_Examples.thy ===== *)
theory Session_Examples
  imports Session_Guards Session_Inputs Session_Snapshots
begin

text \<open>
  A session a player joins, message by message from its connection on: the instances of the properties
  about the server session run on it.
\<close>

section \<open>Messages of the handshake\<close>

lemma handshake_delivered:
  assumes "find_conn c s = Some cn" and "\<not> cn_playing cn" and "\<not> auth_limited s (frame_of type encode) cn"
    and "length (run_writer encode) \<le> kMaxPayloadBytes" and "type = message_type_of v" and "sve_lz4 env = None"
  shows "\<exists>fr. mh_type (fr_header fr) = type \<and> fr_payload fr = run_writer encode \<and>
    on_message env hk c (of_bytes (frame_message None type encode 0)) s = on_handshake_message env c fr cn s"
proof -
  obtain fr where fr: "read_frame (of_bytes (frame_message None type encode 0) @ []) =
      (Inr fr, length (of_bytes (frame_message None type encode 0)))" "mh_type (fr_header fr) = type"
      "decompress_frame_payload None fr = Some (run_writer encode)"
    using frame_delivered [OF _ assms(4, 5), of None "[]"] by auto
  have "\<not> auth_limited s (fr\<lparr>fr_payload := run_writer encode\<rparr>) cn"
    using assms(3) fr(2) by (simp add: auth_limited_def frame_of_def)
  then have "on_message env hk c (of_bytes (frame_message None type encode 0)) s =
      on_handshake_message env c (fr\<lparr>fr_payload := run_writer encode\<rparr>) cn s"
    using assms(1, 2, 6) fr by (simp add: on_message_def)
  then show ?thesis using fr(2) by (intro exI [of _ "fr\<lparr>fr_payload := run_writer encode\<rparr>"]) simp
qed

text \<open>A session of one connection, in a given state of its handshake.\<close>

definition alone :: "server_config \<Rightarrow> conn_id \<Rightarrow> 't server_handshake \<Rightarrow> ('t, 'h) server_session \<Rightarrow> bool" where
  "alone cfg c hs s \<longleftrightarrow> (\<exists>cn. sn_conns s = [(c, cn)] \<and> cn_handshake cn = hs \<and> \<not> cn_playing cn \<and>
       cn_remote_address cn = None) \<and> sn_config s = cfg \<and> sn_playing s = 0 \<and> sn_replicator s = None"

lemma alone_found: "alone cfg c hs s \<Longrightarrow> \<exists>cn. find_conn c s = Some cn \<and> \<not> cn_playing cn \<and> cn_handshake cn = hs \<and> cn_remote_address cn = None"
  by (auto simp: alone_def find_conn_def)

lemma alone_sends: "alone cfg c hs s \<Longrightarrow> sends s s' \<Longrightarrow> alone cfg c hs s'"
  by (auto simp: alone_def sends_def)

lemma alone_update:
  "alone cfg c hs s \<Longrightarrow> (\<And>cn. cn_playing (f cn) = cn_playing cn \<and> cn_remote_address (f cn) = cn_remote_address cn) \<Longrightarrow> (\<And>cn. cn_handshake (f cn) = g (cn_handshake cn)) \<Longrightarrow>
   alone cfg c (g hs) (update_conn c f s)"
  by (auto simp: alone_def update_conn_def)

lemma alone_step:
  assumes "alone cfg c hs s" and "find_conn c s = Some cn"
    and r: "srv_on_frame cfg (sve_lz4 env) (session_host (sve_floats env) (sve_host env) s) fr hs = r"
    and "\<not> ss_completed (fst r)" and "\<not> ss_disconnect (fst r)"
  shows "alone cfg c (snd r) (on_handshake_message env c fr cn s)"
proof -
  have cn: "cn_handshake cn = hs" "sn_config s = cfg" using assms(1, 2) by (auto simp: alone_def find_conn_def)
  let ?s1 = "send_frames c (ss_send (fst r)) (update_conn c (\<lambda>cn. cn\<lparr>cn_handshake := snd r\<rparr>) s)"
  have "alone cfg c (snd r) (update_conn c (\<lambda>cn. cn\<lparr>cn_handshake := snd r\<rparr>) s)"
    using alone_update [OF assms(1), of "\<lambda>cn. cn\<lparr>cn_handshake := snd r\<rparr>" "\<lambda>_. snd r"] by simp
  then have s1: "alone cfg c (snd r) ?s1" by (rule alone_sends) (rule sends_frames)
  have "alone cfg c (snd r) (update_conn c (\<lambda>cn. cn\<lparr>cn_age := f_zero\<rparr>) ?s1)"
    using alone_update [OF s1, of "\<lambda>cn. cn\<lparr>cn_age := f_zero\<rparr>" "\<lambda>h. h"] by simp
  then have s2: "alone cfg c (snd r) (kick_duplicate_login c (update_conn c (\<lambda>cn. cn\<lparr>cn_age := f_zero\<rparr>) ?s1))"
    by (rule alone_sends) (rule sends_kick_duplicate)
  show ?thesis
    using s1 s2 assms(4, 5) by (simp add: on_handshake_message_def cn r case_prod_unfold Let_def)
qed

lemma alone_message:
  assumes "alone cfg c hs s" and "length (run_writer encode) \<le> kMaxPayloadBytes" and "type = message_type_of v"
    and "sve_lz4 env = None"
    and r: "\<And>fr. mh_type (fr_header fr) = type \<Longrightarrow> fr_payload fr = run_writer encode \<Longrightarrow>
      snd (srv_on_frame cfg None (session_host (sve_floats env) (sve_host env) s) fr hs) = hs' \<and>
      \<not> ss_completed (fst (srv_on_frame cfg None (session_host (sve_floats env) (sve_host env) s) fr hs)) \<and>
      \<not> ss_disconnect (fst (srv_on_frame cfg None (session_host (sve_floats env) (sve_host env) s) fr hs))"
  shows "alone cfg c hs' (on_message env hk c (of_bytes (frame_message None type encode 0)) s)"
proof -
  obtain cn where cn: "find_conn c s = Some cn" "\<not> cn_playing cn" "cn_handshake cn = hs" "cn_remote_address cn = None"
    using alone_found [OF assms(1)] by blast
  have "\<not> auth_limited s (frame_of type encode) cn" by (simp add: auth_limited_def cn(4))
  from handshake_delivered [OF cn(1, 2) this assms(2, 3, 4)] obtain fr where fr: "mh_type (fr_header fr) = type"
    "fr_payload fr = run_writer encode" "on_message env hk c (of_bytes (frame_message None type encode 0)) s = on_handshake_message env c fr cn s"
    by blast
  have "srv_on_frame cfg (sve_lz4 env) (session_host (sve_floats env) (sve_host env) s) fr hs =
      srv_on_frame cfg None (session_host (sve_floats env) (sve_host env) s) fr hs" by (simp add: assms(4))
  from alone_step [OF assms(1) cn(1) this] r [OF fr(1, 2)] show ?thesis by (simp add: fr(3))
qed

section \<open>A player signs in\<close>

definition demo_env :: "unit server_env" where
  "demo_env = \<lparr>sve_floats = integer_ops, sve_lz4 = None, sve_host = accepting_host, sve_unix_time = 0,
     sve_remote_address = (\<lambda>c. None), sve_visible = visible_scan integer_ops, sve_late = (\<lambda>n. False), sve_order = (\<lambda>w. [])\<rparr>"

definition demo_message :: "message_type \<Rightarrow> writer \<Rightarrow> net_event" where
  "demo_message type encode = Peer_Message 7 (of_bytes (frame_message None type encode 0))"

definition demo_events :: "net_event list" where
  "demo_events = [Peer_Connected 7, demo_message kC2SHello (encode_C2SHello demo_hello),
     demo_message kC2SAuth (encode_C2SAuth demo_auth),
     demo_message kC2SAssetManifestRequest (encode_C2SAssetManifestRequest no_manifest),
     demo_message kC2SAssetRequest (encode_C2SAssetRequest \<lparr>areq_missing = []\<rparr>), Peer_Message 7 ready_bytes]"

definition after_hello :: "unit server_handshake" where
  "after_hello = new_server\<lparr>sv_auth_nonce := lit ''n'', sv_state := kAwaitingAuth\<rparr>"

definition after_auth :: "unit server_handshake" where
  "after_auth = after_hello\<lparr>sv_requested_name := lit ''a'', sv_auth_ticket := None, sv_login := Some demo_login,
     sv_player_name := lit ''alex'', sv_state := kAwaitingAssetManifestRequest\<rparr>"

definition after_manifest :: "unit server_handshake" where
  "after_manifest = after_auth\<lparr>sv_manifest := None, sv_state := kAwaitingAssetRequest\<rparr>"

definition after_request :: "unit server_handshake" where
  "after_request = after_manifest\<lparr>sv_asset_stream := new_stream [], sv_state := kAwaitingReady\<rparr>"

lemma alone_name: "alone cfg c hs s \<Longrightarrow> sv_player_name hs = [] \<Longrightarrow> unique_name s l base = base"
  by (auto simp: alone_def unique_name_def name_taken_def)

lemma demo_hello_step:
  assumes "mh_type (fr_header fr) = kC2SHello" and "fr_payload fr = run_writer (encode_C2SHello demo_hello)"
  shows "snd (srv_on_frame external_config None (session_host F accepting_host s) fr new_server) = after_hello \<and>
    \<not> ss_completed (fst (srv_on_frame external_config None (session_host F accepting_host s) fr new_server)) \<and>
    \<not> ss_disconnect (fst (srv_on_frame external_config None (session_host F accepting_host s) fr new_server))"
proof -
  have "valid_C2SHello demo_hello" by (simp add: codec_defs demo_hello_def lit_def)
  from hello_codec.decode_encode [OF this] show ?thesis
    by (simp add: assms srv_on_frame_def on_hello_def demo_hello_def external_config_def default_server_config_def
        session_host_def accepting_host_def new_server_def after_hello_def empty_step_def Let_def lit_def send_step_def)
qed

lemma demo_auth_step:
  assumes "mh_type (fr_header fr) = kC2SAuth" and "fr_payload fr = run_writer (encode_C2SAuth demo_auth)"
    and "alone external_config c after_hello s"
  shows "snd (srv_on_frame external_config None (session_host F accepting_host s) fr after_hello) = after_auth \<and>
    \<not> ss_completed (fst (srv_on_frame external_config None (session_host F accepting_host s) fr after_hello)) \<and>
    \<not> ss_disconnect (fst (srv_on_frame external_config None (session_host F accepting_host s) fr after_hello))"
proof -
  have v: "valid_C2SAuth demo_auth" by (simp add: codec_defs demo_auth_def lit_def)
  have n: "unique_name s l base = base" for l base
    by (rule alone_name [OF assms(3)]) (simp add: after_hello_def new_server_def)
  have "sn_playing s = 0" using assms(3) by (simp add: alone_def)
  then show ?thesis using auth_codec.decode_encode [OF v]
    by (simp add: assms(1, 2) srv_on_frame_def on_auth_def demo_auth_def external_config_def default_server_config_def poll_auth_def
        session_host_def accepting_host_def new_server_def after_hello_def after_auth_def empty_step_def Let_def lit_def send_step_def
        finish_external_auth_def finish_auth_def default_server_host_def n demo_login_def)
qed

lemma demo_manifest_step:
  assumes "mh_type (fr_header fr) = kC2SAssetManifestRequest" and "fr_payload fr = run_writer (encode_C2SAssetManifestRequest no_manifest)"
  shows "snd (srv_on_frame external_config None (session_host F accepting_host s) fr after_auth) = after_manifest \<and>
    \<not> ss_completed (fst (srv_on_frame external_config None (session_host F accepting_host s) fr after_auth)) \<and>
    \<not> ss_disconnect (fst (srv_on_frame external_config None (session_host F accepting_host s) fr after_auth))"
proof -
  have v: "valid_C2SAssetManifestRequest no_manifest" by (simp add: codec_defs)
  show ?thesis using amreq_codec.decode_encode [OF v]
    by (simp add: assms srv_on_frame_def on_manifest_request_def session_host_def accepting_host_def after_auth_def
        after_manifest_def empty_step_def Let_def send_step_def default_server_host_def)
qed

lemma demo_request_step:
  assumes "mh_type (fr_header fr) = kC2SAssetRequest" and "fr_payload fr = run_writer (encode_C2SAssetRequest \<lparr>areq_missing = []\<rparr>)"
  shows "snd (srv_on_frame external_config None (session_host F accepting_host s) fr after_manifest) = after_request \<and>
    \<not> ss_completed (fst (srv_on_frame external_config None (session_host F accepting_host s) fr after_manifest)) \<and>
    \<not> ss_disconnect (fst (srv_on_frame external_config None (session_host F accepting_host s) fr after_manifest))"
proof -
  have v: "valid_C2SAssetRequest \<lparr>areq_missing = []\<rparr>" by (simp add: codec_defs)
  show ?thesis using areq_codec.decode_encode [OF v]
    by (simp add: assms srv_on_frame_def on_asset_request_def after_manifest_def after_request_def empty_step_def)
qed

section \<open>The tick in which it joins\<close>

definition demo_start :: "(unit, unit) server_session" where
  "demo_start = new_server_session integer_ops external_config None ()"

definition demo_joined :: "(unit, unit) server_session" where
  "demo_joined = fold (on_event demo_env no_session_hooks) demo_events demo_start"

lemmas written = appends_intros run_writer_string run_writer_u8 w_u16_def w_u64_def run_writer_put_le kMaxPayloadBytes_def
  lit_def run_writer_varint

lemma demo_ready: "\<exists>s. alone external_config 7 after_request s \<and> session_ok external_config s \<and>
    demo_joined = on_message demo_env no_session_hooks 7 ready_bytes s"
proof -
  let ?m = "\<lambda>type encode. on_message demo_env no_session_hooks 7 (of_bytes (frame_message None type encode 0))"
  let ?s0 = "on_connected demo_env 7 demo_start"
  let ?s1 = "?m kC2SHello (encode_C2SHello demo_hello) ?s0"
  let ?s2 = "?m kC2SAuth (encode_C2SAuth demo_auth) ?s1"
  let ?s3 = "?m kC2SAssetManifestRequest (encode_C2SAssetManifestRequest no_manifest) ?s2"
  let ?s4 = "?m kC2SAssetRequest (encode_C2SAssetRequest \<lparr>areq_missing = []\<rparr>) ?s3"
  have env: "sve_lz4 demo_env = None" "sve_host demo_env = accepting_host" by (simp_all add: demo_env_def)
  have a0: "alone external_config 7 new_server ?s0"
    by (simp add: alone_def on_connected_def demo_start_def new_server_session_def demo_env_def update_conn_def new_conn_def Let_def)
  have t: "kC2SHello = message_type_of (message_value kC2SHello)" "kC2SAuth = message_type_of (message_value kC2SAuth)"
    "kC2SAssetManifestRequest = message_type_of (message_value kC2SAssetManifestRequest)"
    "kC2SAssetRequest = message_type_of (message_value kC2SAssetRequest)"
    by (simp_all add: message_type_of_def message_table_def)
  have l: "length (run_writer (encode_C2SHello demo_hello)) \<le> kMaxPayloadBytes"
    "length (run_writer (encode_C2SAuth demo_auth)) \<le> kMaxPayloadBytes"
    "length (run_writer (encode_C2SAssetManifestRequest no_manifest)) \<le> kMaxPayloadBytes"
    "length (run_writer (encode_C2SAssetRequest \<lparr>areq_missing = []\<rparr>)) \<le> kMaxPayloadBytes"
    by (simp_all add: encode_C2SHello_def demo_hello_def encode_C2SAuth_def demo_auth_def encode_C2SAssetManifestRequest_def
        no_manifest_def write_hash_def encode_C2SAssetRequest_def run_writer_each written)
  have a1: "alone external_config 7 after_hello ?s1"
    by (rule alone_message [OF a0 l(1) t(1) env(1)]) (simp only: env, rule demo_hello_step, assumption+)
  have a2: "alone external_config 7 after_auth ?s2"
    by (rule alone_message [OF a1 l(2) t(2) env(1)]) (simp only: env, rule demo_auth_step [OF _ _ a1], assumption+)
  have a3: "alone external_config 7 after_manifest ?s3"
    by (rule alone_message [OF a2 l(3) t(3) env(1)]) (simp only: env, rule demo_manifest_step, assumption+)
  have a4: "alone external_config 7 after_request ?s4"
    by (rule alone_message [OF a3 l(4) t(4) env(1)]) (simp only: env, rule demo_request_step, assumption+)
  have "session_ok external_config ?s4"
    by (intro on_message_ok on_connected_ok no_hooks_keep) (simp add: demo_start_def new_session_ok)
  then show ?thesis using a4 by (intro exI [of _ ?s4]) (simp add: demo_joined_def demo_events_def demo_message_def)
qed

lemma demo_joined_conns: "\<exists>cn. sn_conns demo_joined = [(7, cn)] \<and> cn_playing cn \<and> sn_playing demo_joined = 1 \<and>
    session_ok external_config demo_joined"
proof -
  obtain s where s: "alone external_config 7 after_request s" "session_ok external_config s"
    "demo_joined = on_message demo_env no_session_hooks 7 ready_bytes s" using demo_ready by blast
  obtain cn where cn: "find_conn 7 s = Some cn" "\<not> cn_playing cn" "cn_handshake cn = after_request"
    using alone_found [OF s(1)] by blast
  have "awaits_ready 7 s" using cn by (simp add: awaits_ready_def after_request_def)
  from ready_joins [OF this] have n: "sn_playing demo_joined = 1" using s(1) by (simp add: s(3) alone_def)
  have "outside 7 demo_joined = outside 7 s" unfolding s(3) by (rule waiting_harmless [OF cn(1, 2)])
  then have "filter (\<lambda>(k, cn). k \<noteq> 7) (sn_conns demo_joined) = filter (\<lambda>(k, cn). k \<noteq> 7) (sn_conns s)"
    unfolding outside_def prod.inject by blast
  then have "\<forall>x \<in> set (sn_conns demo_joined). fst x = 7" using s(1) by (auto simp: alone_def filter_empty_conv)
  moreover have ok: "session_ok external_config demo_joined" unfolding s(3) by (rule on_message_ok [OF no_hooks_keep s(2)])
  moreover have "length (filter (\<lambda>(c, cn). cn_playing cn) (sn_conns demo_joined)) = 1" using ok n by (simp add: session_ok_def)
  ultimately show ?thesis using ok_distinct [OF ok] n
    by (cases "sn_conns demo_joined"; cases "tl (sn_conns demo_joined)") (auto split: if_splits)
qed

section \<open>The rest of that tick\<close>

text \<open>Without a world and without hooks no system makes one.\<close>

lemma no_world_fold: "(\<And>a y. sn_replicator y = None \<Longrightarrow> sn_replicator (f a y) = None) \<Longrightarrow> sn_replicator s = None \<Longrightarrow> sn_replicator (fold f xs s) = None"
  by (induction xs arbitrary: s) auto

lemma no_world_for_playing:
  "(\<And>c cn y. sn_replicator y = None \<Longrightarrow> sn_replicator (f c cn y) = None) \<Longrightarrow> sn_replicator s = None \<Longrightarrow> sn_replicator (for_playing f s) = None"
  unfolding for_playing_def for_conns_def by (rule no_world_fold) (auto split: option.split)

lemma sends_replicator: "sends s s' \<Longrightarrow> sn_replicator s' = sn_replicator s"
  by (auto simp: sends_def)

lemmas sends_world = sends_replicator [OF sends_message] sends_replicator [OF sends_broadcast] sends_replicator [OF sends_frames]

lemma upsert_world: "sn_replicator (upsert_entity n f s) = sn_replicator s"
  by (simp add: upsert_entity_def Let_def)

lemma no_world_systems:
  assumes "sn_replicator s = None"
  shows "sn_replicator (run_systems (drop 3 (systems env no_session_hooks dt evs)) s) = None"
proof -
  let ?F = "sve_floats env" and ?hk = "no_session_hooks :: ('a, 'b) session_hooks"
  have time: "sn_replicator y = None \<Longrightarrow> sn_replicator (system_advance_time_of_day ?F dt y) = None" for y :: "('a, 'b) server_session"
    by (simp add: system_advance_time_of_day_def Let_def broadcast_time_of_day_def sends_world)
  have hunger: "sn_replicator y = None \<Longrightarrow> sn_replicator (update_hunger ?F dt y) = None" for y :: "('a, 'b) server_session"
    unfolding update_hunger_def Let_def by (auto intro!: no_world_for_playing simp: update_entity_def)
  have respawn: "sn_replicator y = None \<Longrightarrow> sn_replicator (respawn ?F ?hk c cn y) = None" for c cn and y :: "('a, 'b) server_session"
    by (simp add: respawn_def no_session_hooks_def Let_def sends_world upsert_world update_entity_def)
  have respawns: "sn_replicator y = None \<Longrightarrow> sn_replicator (check_respawns ?F ?hk y) = None" for y :: "('a, 'b) server_session"
    unfolding check_respawns_def Let_def by (erule no_world_for_playing [rotated]) (simp add: respawn)
  have publish: "sn_replicator (publish_drop n y) = sn_replicator y" for n and y :: "('a, 'b) server_session"
    by (simp add: publish_drop_def split: option.split)
  have published: "sn_replicator y = None \<Longrightarrow> sn_replicator (fold publish_drop ns y) = None" for ns and y :: "('a, 'b) server_session"
    by (rule no_world_fold) (simp_all add: publish)
  have "fold (\<lambda>p s. s) ps y = y" for ps :: "item_pickup list" and y :: "('a, 'b) server_session" by (induction ps) auto
  then have drops: "sn_replicator y = None \<Longrightarrow> sn_replicator (update_item_drops ?F ?hk dt y) = None" for y :: "('a, 'b) server_session"
    unfolding update_item_drops_def Let_def by (auto simp: no_session_hooks_def published split: prod.split)
  have damage: "sn_replicator y = None \<Longrightarrow> update_block_damage ?F lz ?hk y = y" for lz and y :: "('a, 'b) server_session"
    by (simp add: update_block_damage_def)
  have heal: "sn_replicator y = None \<Longrightarrow> sn_replicator (heal_turn ?F dt p y) = None" for p and y :: "('a, 'b) server_session"
    by (simp add: heal_turn_def Let_def broadcast_block_damage_def split: option.split prod.split)
  have heals: "sn_replicator y = None \<Longrightarrow> sn_replicator (update_block_punch_healing ?F dt y) = None" for y :: "('a, 'b) server_session"
    by (simp add: update_block_punch_healing_def no_world_fold heal)
  have region: "sn_replicator y = None \<Longrightarrow> update_region_occupancy ?F ?hk y = y" for y :: "('a, 'b) server_session"
    by (simp add: update_region_occupancy_def)
  have status: "sn_replicator y = None \<Longrightarrow> sn_replicator (sync_player_status ?F y) = None" for y :: "('a, 'b) server_session"
    unfolding sync_player_status_def Let_def by (erule no_world_for_playing [rotated]) (simp add: sends_world split: option.split)
  have interest: "sn_replicator (system_sync_interest ?F y) = sn_replicator y" for y :: "('a, 'b) server_session"
    by (simp add: system_sync_interest_def)
  have snapshots: "sn_replicator y = None \<Longrightarrow> sn_replicator (broadcast_snapshots env y) = None" for y :: "('a, 'b) server_session"
    unfolding broadcast_snapshots_def Let_def case_prod_unfold by (erule no_world_for_playing [rotated]) (simp add: sends_world)
  have script: "(case hk_script_tick ?hk of None \<Rightarrow> y | Some f \<Rightarrow> f dt y) = y" for y :: "('a, 'b) server_session"
    by (simp add: no_session_hooks_def)
  show ?thesis using assms
    by (simp add: run_systems_def systems_def Let_def time hunger respawns drops damage heals region status interest snapshots script)
qed

definition demo_session :: "(unit, unit) server_session" where
  "demo_session = run_systems (systems demo_env no_session_hooks 0 demo_events) demo_start"

lemma demo_network: "system_network_io demo_env no_session_hooks 0 demo_events demo_start = demo_joined"
proof -
  have "refill_tokens integer_ops 0 demo_start = demo_start" "run_cooldowns integer_ops 0 demo_start = demo_start"
    by (simp_all add: refill_tokens_def run_cooldowns_def demo_start_def new_server_session_def integer_ops_def f_zero_def
        default_punch_params_def)
  then show ?thesis by (simp add: system_network_io_def demo_joined_def demo_env_def)
qed

lemma playing_times_out_not:
  assumes "sn_conns s = [(c, cn)]" and "cn_playing cn"
  shows "system_handshake_timeouts env dt s = forget_old_attempts (sve_floats env)
    (s\<lparr>sn_uptime_seconds := fo_add (sve_floats env) (sn_uptime_seconds s) dt\<rparr>)"
proof -
  let ?s = "forget_old_attempts (sve_floats env) (s\<lparr>sn_uptime_seconds := fo_add (sve_floats env) (sn_uptime_seconds s) dt\<rparr>)"
  have "sn_conns ?s = [(c, cn)]" by (simp add: forget_old_attempts_def assms(1))
  moreover from this have "timeout_turn env dt c ([], [], ?s) = ([], [], ?s)"
    using assms(2) by (simp add: timeout_turn_def find_conn_def)
  ultimately show ?thesis by (simp add: system_handshake_timeouts_def Let_def)
qed

text \<open>The whole tick runs, and the player plays in the session it leaves.\<close>

lemma demo_plays:
  "session_reachable external_config demo_session \<and> (\<exists>cn. find_conn 7 demo_session = Some cn \<and> cn_playing cn)"
proof -
  obtain cn where cn: "sn_conns demo_joined = [(7, cn)]" "cn_playing cn" and ok: "session_ok external_config demo_joined"
    using demo_joined_conns by blast
  let ?t = "system_handshake_timeouts demo_env 0 demo_joined"
  have t: "sn_conns ?t = [(7, cn)]" "sn_config ?t = external_config" "sn_replicator ?t = sn_replicator demo_joined"
    using ok by (simp_all add: playing_times_out_not [OF cn] forget_old_attempts_def cn(1) session_ok_def)
  have r: "system_reauth demo_env 0 ?t = ?t"
    by (simp add: system_reauth_def t(2) external_config_def default_server_config_def)
  have s: "demo_session = run_systems (drop 3 (systems demo_env no_session_hooks 0 demo_events)) ?t"
    using r by (simp add: demo_session_def run_systems_def systems_def Let_def demo_network)
  have world: "sn_replicator demo_joined = None"
  proof -
    obtain s where "alone external_config 7 after_request s" and j: "demo_joined = on_message demo_env no_session_hooks 7 ready_bytes s"
      using demo_ready by blast
    then obtain cn where cn: "find_conn 7 s = Some cn" "\<not> cn_playing cn" "sn_replicator s = None"
      using alone_found by (auto simp: alone_def find_conn_def)
    have "outside 7 demo_joined = outside 7 s" unfolding j by (rule waiting_harmless [OF cn(1, 2)])
    then show ?thesis using cn(3) by (simp add: outside_def)
  qed
  have "sn_replicator demo_session = None" unfolding s by (rule no_world_systems) (simp add: t(3) world)
  then have step: "session_step demo_env no_session_hooks 0 demo_events demo_start = Some demo_session"
    by (simp add: session_step_def broadcast_world_def demo_session_def [symmetric])
  have "session_reachable external_config demo_session"
    by (rule session_reachable.ticks [OF _ no_hooks_keep step]) (simp add: demo_start_def session_reachable.begins)
  moreover have "keeps_frame ?t demo_session" unfolding s by (rule keeps_late_systems [OF no_hooks_keep keeps_frame_refl])
  from keeps_found [OF this, of 7 cn] t(1) cn(2) have "\<exists>cn'. find_conn 7 demo_session = Some cn' \<and> cn_playing cn'"
    by (auto simp: find_conn_def same_frame_def)
  ultimately show ?thesis by blast
qed

section \<open>One player, and what it sees\<close>

definition solo_conn :: "unit conn" where
  "solo_conn = (new_conn None 0)\<lparr>cn_playing := True, cn_net_id := 5\<rparr>"

definition solo :: "(unit, unit) server_session" where
  "solo = (new_server_session integer_ops default_server_config None ())\<lparr>sn_conns := [(1, solo_conn)], sn_playing := 1\<rparr>"

lemma solo_facts: "distinct (map fst (sn_conns solo))" "find_conn 1 solo = Some solo_conn" "playing_conn 5 solo = Some (1, solo_conn)"
  by (simp_all add: solo_def find_conn_def playing_conn_def solo_conn_def)

definition demo_cmd :: "u32 \<Rightarrow> input_cmd" where
  "demo_cmd n = \<lparr>cmd_seq = n, cmd_dt = 1, cmd_move = \<lparr>vf_x = 1, vf_y = 0, vf_z = 0\<rparr>, cmd_yaw = 0, cmd_pitch = 0,
     cmd_buttons = 0, cmd_keybinds = 0, cmd_selected_slot = 2\<rparr>"

text \<open>A session with one entity in it, and the same player looking at it before and after.\<close>

definition sheep :: entity_state where
  "sheep = default_entity_state\<lparr>es_net_id := 9, es_kind := 2\<rparr>"

definition pasture :: "(unit, unit) server_session" where
  "pasture = solo\<lparr>sn_interest := \<lparr>ig_cell_size = 1, ig_entities = [(9, sheep)]\<rparr>\<rparr>"

definition empty_pasture :: "(unit, unit) server_session" where
  "empty_pasture = solo\<lparr>sn_interest := \<lparr>ig_cell_size = 1, ig_entities = []\<rparr>\<rparr>"

lemma pasture_grids [simp]: "grid_ok (sn_interest pasture)" "grid_ok (sn_interest empty_pasture)"
  by (simp_all add: pasture_def empty_pasture_def grid_ok_def grid_get_def sheep_def)

lemma pasture_view: "fst (snapshot_for demo_env cn empty_pasture) = []"
  "cn_net_id cn \<noteq> 9 \<Longrightarrow> fst (snapshot_for demo_env cn pasture) = [9]"
  by (simp_all add: snapshot_for_def Let_def demo_env_def visible_scan_def empty_pasture_def pasture_def sheep_def
      default_entity_state_def grid_get_def cell_of_def integer_ops_def)

definition demo_client :: client_env where
  "demo_client = \<lparr>ce_floats = integer_ops, ce_lz4 = None, ce_server_info = None, ce_round_trip = None\<rparr>"

lemma demo_sees: "sees_only demo_env"
  by (rule scan_sees_only [of _ integer_ops]) (simp add: demo_env_def)

end
