(* ===== verification/Loopback_Transport.thy ===== *)
theory Loopback_Transport
  imports Server_Session
begin

text \<open>
  \<open>net/loopback.hpp\<close> and \<open>net/loopback.cpp\<close>, the transport inside one process: a hub of links with a
  queue each way, which the server's and the clients' endpoints share. It is proved to be what
  \<open>net/transport.hpp\<close> promises and more: every event goes over once, in order, and none is lost.
\<close>

section \<open>Events and links\<close>

datatype event_kind = kConnected | kDisconnected | kMessage

record loop_event =
  tev_kind :: event_kind
  tev_conn :: conn_id
  tev_lane :: lane
  tev_frame :: "byte list"
  tev_reason :: bstring

datatype net_error = kNetNone | kAlreadyListening | kNotListening | kBindFailed | kConnectFailed | kUnknownConnection
  | kBackendUnavailable | kNetHandshakeTimeout | kHandshakeProtocol | kNetServerFull | kAuthRejected | kNetDisconnected

definition make_event :: "event_kind \<Rightarrow> conn_id \<Rightarrow> loop_event" where
  "make_event k c = \<lparr>tev_kind = k, tev_conn = c, tev_lane = kControl, tev_frame = [], tev_reason = []\<rparr>"

record hub_link =
  hl_id :: conn_id
  hl_to_server :: "loop_event list"
  hl_to_client :: "loop_event list"
  hl_closed :: bool

record hub =
  hub_listening :: bool
  hub_next_id :: u64
  hub_links :: "hub_link list"

text \<open>The network: its hub and, for each client's endpoint, the connections it has opened.\<close>

record loopback =
  lb_hub :: hub
  lb_owned :: "conn_id list list"

datatype endpoint = The_Server | The_Client nat

definition new_loopback :: loopback where
  "new_loopback = \<lparr>lb_hub = \<lparr>hub_listening = False, hub_next_id = 1, hub_links = []\<rparr>, lb_owned = []\<rparr>"

definition create_client :: "loopback \<Rightarrow> loopback" where
  "create_client lb = lb\<lparr>lb_owned := lb_owned lb @ [[]]\<rparr>"

definition hub_find :: "conn_id \<Rightarrow> hub \<Rightarrow> hub_link option" where
  "hub_find c h = find (\<lambda>l. hl_id l = c) (hub_links h)"

primrec update_first :: "('a \<Rightarrow> bool) \<Rightarrow> ('a \<Rightarrow> 'a) \<Rightarrow> 'a list \<Rightarrow> 'a list" where
  "update_first P f [] = []"
| "update_first P f (x # xs) = (if P x then f x # xs else x # update_first P f xs)"

definition update_link :: "conn_id \<Rightarrow> (hub_link \<Rightarrow> hub_link) \<Rightarrow> loopback \<Rightarrow> loopback" where
  "update_link c f lb = lb\<lparr>lb_hub := (lb_hub lb)\<lparr>hub_links := update_first (\<lambda>l. hl_id l = c) f (hub_links (lb_hub lb))\<rparr>\<rparr>"

section \<open>The operations of an endpoint\<close>

definition loop_listen :: "endpoint \<Rightarrow> loopback \<Rightarrow> net_error option \<times> loopback" where
  "loop_listen e lb = (
     if e \<noteq> The_Server then (Some kConnectFailed, lb)
     else if hub_listening (lb_hub lb) then (Some kAlreadyListening, lb)
     else (None, lb\<lparr>lb_hub := (lb_hub lb)\<lparr>hub_listening := True\<rparr>\<rparr>))"

definition loop_connect :: "endpoint \<Rightarrow> loopback \<Rightarrow> (net_error + conn_id) \<times> loopback" where
  "loop_connect e lb = (case e of
       The_Server \<Rightarrow> (Inl kConnectFailed, lb)
     | The_Client i \<Rightarrow>
         if \<not> hub_listening (lb_hub lb) then (Inl kConnectFailed, lb)
         else
           let h = lb_hub lb; c = hub_next_id h;
               link = \<lparr>hl_id = c, hl_to_server = [make_event kConnected c], hl_to_client = [make_event kConnected c],
                       hl_closed = False\<rparr> in
           (Inr c, \<lparr>lb_hub = h\<lparr>hub_next_id := c + 1, hub_links := hub_links h @ [link]\<rparr>,
                    lb_owned = (lb_owned lb)[i := lb_owned lb ! i @ [c]]\<rparr>))"

definition loop_send :: "endpoint \<Rightarrow> conn_id \<Rightarrow> lane \<Rightarrow> byte list \<Rightarrow> loopback \<Rightarrow> loopback" where
  "loop_send e c l frame lb = (case hub_find c (lb_hub lb) of
       None \<Rightarrow> lb
     | Some link \<Rightarrow>
         if hl_closed link then lb
         else
           let ev = (make_event kMessage c)\<lparr>tev_lane := l, tev_frame := frame\<rparr> in
           update_link c (\<lambda>link. if e = The_Server then link\<lparr>hl_to_client := hl_to_client link @ [ev]\<rparr>
                                 else link\<lparr>hl_to_server := hl_to_server link @ [ev]\<rparr>) lb)"

definition loop_close :: "conn_id \<Rightarrow> bstring \<Rightarrow> loopback \<Rightarrow> loopback" where
  "loop_close c reason lb = (case hub_find c (lb_hub lb) of
       None \<Rightarrow> lb
     | Some link \<Rightarrow>
         if hl_closed link then lb
         else
           let ev = (make_event kDisconnected c)\<lparr>tev_reason := reason\<rparr> in
           update_link c (\<lambda>link. link\<lparr>hl_closed := True, hl_to_server := hl_to_server link @ [ev],
                                      hl_to_client := hl_to_client link @ [ev]\<rparr>) lb)"

definition polls :: "endpoint \<Rightarrow> loopback \<Rightarrow> hub_link \<Rightarrow> bool" where
  "polls e lb link \<longleftrightarrow> (case e of The_Server \<Rightarrow> True | The_Client i \<Rightarrow> hl_id link \<in> set (lb_owned lb ! i))"

definition loop_poll :: "endpoint \<Rightarrow> loopback \<Rightarrow> loop_event list \<times> loopback" where
  "loop_poll e lb = (
     let links = hub_links (lb_hub lb);
         queue = (\<lambda>link. if e = The_Server then hl_to_server link else hl_to_client link);
         emptied = (\<lambda>link. if e = The_Server then link\<lparr>hl_to_server := []\<rparr> else link\<lparr>hl_to_client := []\<rparr>) in
     (concat (map queue (filter (polls e lb) links)),
      lb\<lparr>lb_hub := (lb_hub lb)\<lparr>hub_links := map (\<lambda>link. if polls e lb link then emptied link else link) links\<rparr>\<rparr>))"

definition connection_count :: "endpoint \<Rightarrow> loopback \<Rightarrow> nat" where
  "connection_count e lb = length (filter (\<lambda>link. \<not> hl_closed link \<and> polls e lb link) (hub_links (lb_hub lb)))"

section \<open>Runs\<close>

text \<open>What the two programs do with the network, one call at a time.\<close>

datatype loop_op = Op_Client | Op_Listen endpoint | Op_Connect endpoint | Op_Send endpoint conn_id lane "byte list"
  | Op_Close conn_id bstring | Op_Poll endpoint

fun loop_step :: "loop_op \<Rightarrow> loopback \<Rightarrow> loop_event list \<times> loopback" where
  "loop_step Op_Client lb = ([], create_client lb)"
| "loop_step (Op_Listen e) lb = ([], snd (loop_listen e lb))"
| "loop_step (Op_Connect e) lb = ([], snd (loop_connect e lb))"
| "loop_step (Op_Send e c l frame) lb = ([], loop_send e c l frame lb)"
| "loop_step (Op_Close c reason) lb = ([], loop_close c reason lb)"
| "loop_step (Op_Poll e) lb = loop_poll e lb"

text \<open>The queue of a connection towards the server, or towards its client, and whether it is open.\<close>

definition in_queue :: "bool \<Rightarrow> conn_id \<Rightarrow> loopback \<Rightarrow> loop_event list" where
  "in_queue to_server c lb = (case hub_find c (lb_hub lb) of None \<Rightarrow> []
     | Some link \<Rightarrow> if to_server then hl_to_server link else hl_to_client link)"

definition link_open :: "conn_id \<Rightarrow> loopback \<Rightarrow> bool" where
  "link_open c lb \<longleftrightarrow> (case hub_find c (lb_hub lb) of None \<Rightarrow> False | Some link \<Rightarrow> \<not> hl_closed link)"

text \<open>What a call puts in at one end of a connection, and what it takes out at the other.\<close>

fun entered :: "bool \<Rightarrow> conn_id \<Rightarrow> loop_op \<Rightarrow> loopback \<Rightarrow> loop_event list" where
  "entered to_server c (Op_Connect e) lb = (if fst (loop_connect e lb) = Inr c then [make_event kConnected c] else [])"
| "entered to_server c (Op_Send e k l frame) lb = (if k = c \<and> link_open c lb \<and> to_server = (e \<noteq> The_Server)
     then [(make_event kMessage c)\<lparr>tev_lane := l, tev_frame := frame\<rparr>] else [])"
| "entered to_server c (Op_Close k reason) lb = (if k = c \<and> link_open c lb
     then [(make_event kDisconnected c)\<lparr>tev_reason := reason\<rparr>] else [])"
| "entered to_server c _ lb = []"

fun taken :: "bool \<Rightarrow> conn_id \<Rightarrow> loop_op \<Rightarrow> loopback \<Rightarrow> loop_event list" where
  "taken to_server c (Op_Poll e) lb = (if to_server = (e = The_Server)
     then filter (\<lambda>ev. tev_conn ev = c) (fst (loop_poll e lb)) else [])"
| "taken to_server c _ lb = []"

primrec loop_run :: "bool \<Rightarrow> conn_id \<Rightarrow> loop_op list \<Rightarrow> loopback \<Rightarrow> loop_event list \<times> loop_event list \<times> loopback" where
  "loop_run to_server c [] lb = ([], [], lb)"
| "loop_run to_server c (op # ops) lb = (
     let (ins, outs, lb') = loop_run to_server c ops (snd (loop_step op lb)) in
     (entered to_server c op lb @ ins, taken to_server c op lb @ outs, lb'))"

section \<open>Once and in order\<close>

definition hub_ok :: "loopback \<Rightarrow> bool" where
  "hub_ok lb \<longleftrightarrow> (let ls = hub_links (lb_hub lb) in
     distinct (map hl_id ls) \<and> (\<forall>l \<in> set ls. unat (hl_id l) \<le> length ls) \<and>
     unat (hub_next_id (lb_hub lb)) = Suc (length ls) \<and>
     (\<forall>l \<in> set ls. \<forall>ev \<in> set (hl_to_server l) \<union> set (hl_to_client l). tev_conn ev = hl_id l))"

lemma ids_distinct: "hub_ok lb \<Longrightarrow> distinct (map hl_id (hub_links (lb_hub lb)))"
  by (simp add: hub_ok_def Let_def)

lemma find_in: "hub_find c h = Some l \<Longrightarrow> l \<in> set (hub_links h) \<and> hl_id l = c"
  by (auto simp: hub_find_def find_Some_iff)

lemma find_update_first:
  assumes "\<And>l. hl_id (f l) = hl_id l"
  shows "find (\<lambda>l. hl_id l = k) (update_first (\<lambda>l. hl_id l = c) f ls) =
    (if k = c then map_option f (find (\<lambda>l. hl_id l = k) ls) else find (\<lambda>l. hl_id l = k) ls)"
  by (induction ls) (auto simp: assms)

lemma update_first_ids: "(\<And>l. hl_id (f l) = hl_id l) \<Longrightarrow> map hl_id (update_first P f ls) = map hl_id ls"
  by (induction ls) auto

lemma update_first_length [simp]: "length (update_first P f ls) = length ls"
  by (induction ls) auto

lemma update_first_set: "l \<in> set (update_first P f ls) \<Longrightarrow> l \<in> set ls \<or> (\<exists>k \<in> set ls. P k \<and> l = f k)"
  by (induction ls) (auto split: if_splits)

lemma update_link_ok:
  assumes "hub_ok lb" and "\<And>l. hl_id (f l) = hl_id l"
    and "\<And>l ev. hl_id l = c \<Longrightarrow> ev \<in> set (hl_to_server (f l)) \<union> set (hl_to_client (f l)) \<Longrightarrow>
      ev \<in> set (hl_to_server l) \<union> set (hl_to_client l) \<or> tev_conn ev = c"
  shows "hub_ok (update_link c f lb)"
proof -
  let ?ls = "update_first (\<lambda>l. hl_id l = c) f (hub_links (lb_hub lb))"
  have "tev_conn ev = hl_id l" if l: "l \<in> set ?ls" and ev: "ev \<in> set (hl_to_server l) \<union> set (hl_to_client l)" for l ev
    using update_first_set [OF l]
  proof
    assume "l \<in> set (hub_links (lb_hub lb))"
    then show ?thesis using assms(1) ev by (auto simp: hub_ok_def Let_def)
  next
    assume "\<exists>k \<in> set (hub_links (lb_hub lb)). hl_id k = c \<and> l = f k"
    then obtain k where k: "k \<in> set (hub_links (lb_hub lb))" "hl_id k = c" "l = f k" by blast
    show ?thesis using assms(3) [OF k(2), of ev] ev k assms(1) by (auto simp: assms(2) hub_ok_def Let_def)
  qed
  moreover have "unat (hl_id l) \<le> length (hub_links (lb_hub lb))" if "l \<in> set ?ls" for l
    using update_first_set [OF that] assms(1, 2) by (auto simp: hub_ok_def Let_def)
  ultimately show ?thesis using assms(1) by (auto simp: hub_ok_def update_link_def Let_def update_first_ids [OF assms(2)])
qed

lemma find_update_link:
  "(\<And>l. hl_id (f l) = hl_id l) \<Longrightarrow> hub_find k (lb_hub (update_link c f lb)) =
    (if k = c then map_option f (hub_find k (lb_hub lb)) else hub_find k (lb_hub lb))"
  by (simp add: hub_find_def update_link_def find_update_first)

lemma polled_of:
  assumes "distinct (map hl_id ls)" and "\<forall>l \<in> set ls. \<forall>ev \<in> set (q l). tev_conn ev = hl_id l"
  shows "filter (\<lambda>ev. tev_conn ev = c) (concat (map q (filter P ls))) =
    (case find (\<lambda>l. hl_id l = c) ls of None \<Rightarrow> [] | Some l \<Rightarrow> if P l then q l else [])"
  using assms
proof (induction ls)
  case (Cons l ls)
  have other: "filter (\<lambda>ev. tev_conn ev = c) (q k) = (if hl_id k = c then q k else [])" if "k \<in> set (l # ls)" for k
    using Cons.prems(2) that by (auto simp: filter_empty_conv intro: filter_True)
  show ?case
  proof (cases "hl_id l = c")
    case True
    then have "find (\<lambda>l. hl_id l = c) ls = None" using Cons.prems(1)
      by (auto simp: find_None_iff) (metis image_eqI)
    then show ?thesis using Cons other [of l] True by auto
  next
    case False
    then show ?thesis using Cons other [of l] by auto
  qed
qed simp

lemma find_map: "(\<And>l. hl_id (f l) = hl_id l) \<Longrightarrow> find (\<lambda>l. hl_id l = c) (map f ls) = map_option f (find (\<lambda>l. hl_id l = c) ls)"
  by (induction ls) auto

text \<open>One call: what was in a queue and what is put in is what is taken out and what stays.\<close>

lemma step_accounts:
  assumes "hub_ok lb"
  shows "taken d c op lb @ in_queue d c (snd (loop_step op lb)) = in_queue d c lb @ entered d c op lb"
proof (cases op)
  case (Op_Connect e)
  have new: "hub_find (hub_next_id (lb_hub lb)) (lb_hub lb) = None"
  proof -
    have "hl_id l \<noteq> hub_next_id (lb_hub lb)" if "l \<in> set (hub_links (lb_hub lb))" for l
      using assms that by (fastforce simp: hub_ok_def Let_def)
    then show ?thesis by (auto simp: hub_find_def find_None_iff)
  qed
  have app: "find P (xs @ [x]) = (case find P xs of None \<Rightarrow> if P x then Some x else None | Some y \<Rightarrow> Some y)" for P and xs :: "hub_link list" and x
    by (induction xs) auto
  show ?thesis using new unfolding Op_Connect
    by (auto simp: loop_connect_def Let_def in_queue_def hub_find_def app split: endpoint.split option.split)
next
  case (Op_Send e k l frame)
  have id: "hl_id (if e = The_Server then x\<lparr>hl_to_client := a\<rparr> else x\<lparr>hl_to_server := b\<rparr>) = hl_id x" for x a b by simp
  show ?thesis unfolding Op_Send
    by (auto simp: loop_send_def Let_def in_queue_def link_open_def find_update_link split: option.split)
next
  case (Op_Close k reason)
  then show ?thesis
    by (auto simp: loop_close_def Let_def in_queue_def link_open_def find_update_link split: option.split)
next
  case (Op_Poll e)
  have q: "\<forall>l \<in> set (hub_links (lb_hub lb)). \<forall>ev \<in> set (if e = The_Server then hl_to_server l else hl_to_client l). tev_conn ev = hl_id l"
    using assms by (auto simp: hub_ok_def Let_def)
  show ?thesis unfolding Op_Poll
    by (auto simp: loop_poll_def Let_def in_queue_def hub_find_def find_map polled_of [OF ids_distinct [OF assms] q] polls_def
        split: option.split if_splits endpoint.split)
qed (auto simp: in_queue_def hub_find_def create_client_def loop_listen_def)

lemma step_hub_ok:
  assumes "hub_ok lb" and "Suc (Suc (length (hub_links (lb_hub lb)))) < 2 ^ 64"
  shows "hub_ok (snd (loop_step op lb)) \<and>
    length (hub_links (lb_hub (snd (loop_step op lb)))) \<le> Suc (length (hub_links (lb_hub lb)))"
proof (cases op)
  case (Op_Send e k l frame)
  have "hub_ok (update_link k (\<lambda>link. if e = The_Server then link\<lparr>hl_to_client := hl_to_client link @ [ev]\<rparr>
      else link\<lparr>hl_to_server := hl_to_server link @ [ev]\<rparr>) lb)" if "tev_conn ev = k" for ev
    by (rule update_link_ok [OF assms(1)]) (auto simp: that split: if_splits)
  then show ?thesis using assms(1) unfolding Op_Send
    by (auto simp: loop_send_def Let_def make_event_def update_link_def split: option.split)
next
  case (Op_Close k reason)
  have "hub_ok (update_link k (\<lambda>link. link\<lparr>hl_closed := True, hl_to_server := hl_to_server link @ [ev],
      hl_to_client := hl_to_client link @ [ev]\<rparr>) lb)" if "tev_conn ev = k" for ev
    by (rule update_link_ok [OF assms(1)]) (auto simp: that)
  then show ?thesis using assms(1) unfolding Op_Close
    by (auto simp: loop_close_def Let_def make_event_def update_link_def split: option.split)
next
  case (Op_Connect e)
  have "unat (hub_next_id (lb_hub lb) + 1) = Suc (Suc (length (hub_links (lb_hub lb))))"
    using assms by (simp add: hub_ok_def Let_def unat_word_ariths)
  moreover have "hub_next_id (lb_hub lb) \<notin> hl_id ` set (hub_links (lb_hub lb))"
    using assms(1) by (fastforce simp: hub_ok_def Let_def)
  ultimately show ?thesis using assms unfolding Op_Connect
    by (auto simp: loop_connect_def Let_def hub_ok_def make_event_def split: endpoint.split)
next
  case (Op_Poll e)
  have m: "hub_ok (lb\<lparr>lb_hub := (lb_hub lb)\<lparr>hub_links := map g (hub_links (lb_hub lb))\<rparr>\<rparr>)"
    if g: "\<And>l. hl_id (g l) = hl_id l" "\<And>l. set (hl_to_server (g l)) \<subseteq> set (hl_to_server l)"
      "\<And>l. set (hl_to_client (g l)) \<subseteq> set (hl_to_client l)" for g
  proof -
    have "hl_id \<circ> g = hl_id" by (simp add: fun_eq_iff g)
    moreover have "tev_conn ev = hl_id l" if "l \<in> set (hub_links (lb_hub lb))"
        "ev \<in> set (hl_to_server (g l)) \<union> set (hl_to_client (g l))" for l ev
      using assms(1) that g(2, 3) [of l] unfolding hub_ok_def Let_def by blast
    ultimately show ?thesis using assms(1) unfolding hub_ok_def Let_def by (auto simp: g(1))
  qed
  show ?thesis unfolding Op_Poll by (simp add: loop_poll_def Let_def) (rule m, auto)
qed (use assms in \<open>auto simp: create_client_def loop_listen_def hub_ok_def Let_def\<close>)

lemma run_accounts:
  assumes "hub_ok lb" and "length (hub_links (lb_hub lb)) + Suc (length ops) < 2 ^ 64" and "loop_run d c ops lb = (ins, outs, lb')"
  shows "outs @ in_queue d c lb' = in_queue d c lb @ ins"
  using assms
proof (induction ops arbitrary: lb ins outs)
  case (Cons op ops)
  obtain i o' where r: "loop_run d c ops (snd (loop_step op lb)) = (i, o', lb')" "ins = entered d c op lb @ i" "outs = taken d c op lb @ o'"
    using Cons.prems(3) by (auto split: prod.splits)
  have ok: "hub_ok (snd (loop_step op lb))" "length (hub_links (lb_hub (snd (loop_step op lb)))) \<le> Suc (length (hub_links (lb_hub lb)))"
    using step_hub_ok [OF Cons.prems(1), of op] Cons.prems(2) by auto
  have "o' @ in_queue d c lb' = in_queue d c (snd (loop_step op lb)) @ i"
    by (rule Cons.IH [OF ok(1) _ r(1)]) (use ok(2) Cons.prems(2) in simp)
  with step_accounts [OF Cons.prems(1), of d c op] r show ?case by (metis append.assoc)
qed auto

lemma new_loopback_ok: "hub_ok new_loopback" "in_queue d c new_loopback = []"
  by (simp_all add: hub_ok_def new_loopback_def in_queue_def hub_find_def)

text \<open>A poll leaves nothing of what it polls.\<close>

lemma poll_drains: "in_queue True c (snd (loop_poll The_Server lb)) = []"
  by (auto simp: in_queue_def loop_poll_def Let_def hub_find_def find_map polls_def split: option.split)

end
