(* ===== verification/World_Noise.thy ===== *)
theory World_Noise
  imports Float_Math
begin

text \<open>
  \<open>core/noise.hpp\<close>, \<open>worldgen/det_rng.hpp\<close> and \<open>worldgen/noise_graph.cpp\<close>: integer hashing, value,
  cellular and fractal noise over any arithmetic, the counter-based random numbers, and the graph of noise
  nodes with its evaluators in two and three dimensions.
\<close>

section \<open>Arithmetic\<close>

text \<open>What noise needs beyond \<open>float_ops\<close>: a 64-bit integer as a \<open>double\<close>, and a \<open>double\<close> cut to an \<open>int\<close>.\<close>

record noise_ops =
  no_floats :: float_ops
  no_of_u64 :: "u64 \<Rightarrow> f64"
  no_of_i64 :: "i64 \<Rightarrow> f64"
  no_trunc_int :: "f64 \<Rightarrow> i32"

text \<open>An instance over \<open>integer_ops\<close>: every hash is read as zero.\<close>

definition integer_noise :: noise_ops where
  "integer_noise = \<lparr>no_floats = integer_ops, no_of_u64 = (\<lambda>_. 0), no_of_i64 = (\<lambda>a. a), no_trunc_int = ucast\<rparr>"

definition f_two :: f64 where "f_two = 0x4000000000000000"

section \<open>Hashing\<close>

definition kMixA :: u64 where "kMixA = 0xff51afd7ed558ccd"
definition kMixB :: u64 where "kMixB = 0xc4ceb9fe1a85ec53"
definition kHashX :: u64 where "kHashX = 0x9E3779B97F4A7C15"
definition kHashY :: u64 where "kHashY = 0xC2B2AE3D27D4EB4F"
definition kHashZ :: u64 where "kHashZ = 0x165667B19E3779F9"
definition kOctaveSalt :: u64 where "kOctaveSalt = 0x9E3779B97F4A7C15"

definition mix64 :: "u64 \<Rightarrow> u64" where
  "mix64 x = (
     let x = x XOR drop_bit 33 x; x = x * kMixA;
         x = x XOR drop_bit 33 x; x = x * kMixB in
     x XOR drop_bit 33 x)"

definition hash2 :: "u64 \<Rightarrow> i64 \<Rightarrow> i64 \<Rightarrow> u64" where
  "hash2 seed x y = mix64 (seed XOR mix64 (x * kHashX) XOR mix64 (y * kHashY))"

definition hash3 :: "u64 \<Rightarrow> i64 \<Rightarrow> i64 \<Rightarrow> i64 \<Rightarrow> u64" where
  "hash3 seed x y z = mix64 (seed XOR mix64 (x * kHashX) XOR mix64 (y * kHashY) XOR mix64 (z * kHashZ))"

definition to_unit :: "noise_ops \<Rightarrow> u64 \<Rightarrow> f64" where
  "to_unit N h = fo_mul (no_floats N) (no_of_u64 N (drop_bit 11 h)) 0x3CA0000000000000"

section \<open>Noise\<close>

definition smoothstep5 :: "float_ops \<Rightarrow> f64 \<Rightarrow> f64" where
  "smoothstep5 F t = fo_mul F (fo_mul F (fo_mul F t t) t)
     (fo_add F (fo_mul F t (fo_sub F (fo_mul F t 0x4018000000000000) 0x402E000000000000)) 0x4024000000000000)"

definition noise_lerp :: "float_ops \<Rightarrow> f64 \<Rightarrow> f64 \<Rightarrow> f64 \<Rightarrow> f64" where
  "noise_lerp F a b t = fo_add F a (fo_mul F (fo_sub F b a) t)"

definition value2 :: "noise_ops \<Rightarrow> u64 \<Rightarrow> f64 \<Rightarrow> f64 \<Rightarrow> f64" where
  "value2 N seed x y = (
     let F = no_floats N; fx = fo_floor F x; fy = fo_floor F y; ix = fo_floor_i64 F x; iy = fo_floor_i64 F y;
         tx = smoothstep5 F (fo_sub F x fx); ty = smoothstep5 F (fo_sub F y fy);
         v = (\<lambda>a b. to_unit N (hash2 seed (ix + a) (iy + b))) in
     noise_lerp F (noise_lerp F (v 0 0) (v 1 0) tx) (noise_lerp F (v 0 1) (v 1 1) tx) ty)"

definition value3 :: "noise_ops \<Rightarrow> u64 \<Rightarrow> f64 \<Rightarrow> f64 \<Rightarrow> f64 \<Rightarrow> f64" where
  "value3 N seed x y z = (
     let F = no_floats N; ix = fo_floor_i64 F x; iy = fo_floor_i64 F y; iz = fo_floor_i64 F z;
         tx = smoothstep5 F (fo_sub F x (fo_floor F x)); ty = smoothstep5 F (fo_sub F y (fo_floor F y));
         tz = smoothstep5 F (fo_sub F z (fo_floor F z));
         v = (\<lambda>a b c. to_unit N (hash3 seed (ix + a) (iy + b) (iz + c)));
         x00 = noise_lerp F (v 0 0 0) (v 1 0 0) tx; x10 = noise_lerp F (v 0 1 0) (v 1 1 0) tx;
         x01 = noise_lerp F (v 0 0 1) (v 1 0 1) tx; x11 = noise_lerp F (v 0 1 1) (v 1 1 1) tx in
     noise_lerp F (noise_lerp F x00 x10 ty) (noise_lerp F x01 x11 ty) tz)"

record cellular_result =
  cell_distance :: f64
  cell_x :: i64
  cell_y :: i64

text \<open>The nine cells around one, row by row.\<close>

definition around :: "(i64 \<times> i64) list" where
  "around = [(-1, -1), (0, -1), (1, -1), (-1, 0), (0, 0), (1, 0), (-1, 1), (0, 1), (1, 1)]"

definition cellular2 :: "noise_ops \<Rightarrow> u64 \<Rightarrow> f64 \<Rightarrow> f64 \<Rightarrow> cellular_result" where
  "cellular2 N seed x y = (
     let F = no_floats N; cx = fo_floor_i64 F x; cy = fo_floor_i64 F y in
     fold (\<lambda>(ox, oy) best.
       let nx = cx + ox; ny = cy + oy; h = hash2 seed nx ny;
           jx = to_unit N h; jy = to_unit N (mix64 h);
           dx = fo_sub F (fo_add F (no_of_i64 N nx) jx) x; dy = fo_sub F (fo_add F (no_of_i64 N ny) jy) y;
           d = fo_sqrt F (fo_add F (fo_mul F dx dx) (fo_mul F dy dy)) in
       if fo_lt F d (cell_distance best) then \<lparr>cell_distance = d, cell_x = nx, cell_y = ny\<rparr> else best)
     around \<lparr>cell_distance = 0x43ABC16D674EC800, cell_x = cx, cell_y = cy\<rparr>)"

record fbm_params =
  fb_octaves :: nat
  fb_frequency :: f64
  fb_lacunarity :: f64
  fb_gain :: f64

text \<open>The octaves from number \<open>o\<close> on, over any source of noise.\<close>

primrec fbm_loop :: "float_ops \<Rightarrow> (u64 \<Rightarrow> f64 \<Rightarrow> f64) \<Rightarrow> u64 \<Rightarrow> f64 \<Rightarrow> f64 \<Rightarrow> nat \<Rightarrow> u64 \<Rightarrow> f64 \<Rightarrow> f64 \<Rightarrow> f64 \<Rightarrow> f64 \<Rightarrow> f64 \<times> f64" where
  "fbm_loop F source seed lac gn 0 o' amp freq sm norm = (sm, norm)"
| "fbm_loop F source seed lac gn (Suc k) o' amp freq sm norm =
     fbm_loop F source seed lac gn k (o' + 1) (fo_mul F amp gn) (fo_mul F freq lac)
       (fo_add F sm (fo_mul F amp (source (seed + o' * kOctaveSalt) freq))) (fo_add F norm amp)"

definition fbm_sum :: "float_ops \<Rightarrow> (u64 \<Rightarrow> f64 \<Rightarrow> f64) \<Rightarrow> u64 \<Rightarrow> nat \<Rightarrow> f64 \<Rightarrow> f64 \<Rightarrow> f64 \<Rightarrow> f64" where
  "fbm_sum F source seed octaves frequency lac gn = (
     let (sm, norm) = fbm_loop F source seed lac gn octaves 0 f_one frequency f_zero f_zero in
     if fo_lt F f_zero norm then fo_div F sm norm else f_zero)"

definition fbm2 :: "noise_ops \<Rightarrow> u64 \<Rightarrow> f64 \<Rightarrow> f64 \<Rightarrow> fbm_params \<Rightarrow> f64" where
  "fbm2 N seed x y p = (let F = no_floats N in
     fbm_sum F (\<lambda>s freq. value2 N s (fo_mul F x freq) (fo_mul F y freq)) seed (fb_octaves p) (fb_frequency p)
       (fb_lacunarity p) (fb_gain p))"

section \<open>Random numbers\<close>

definition next01 :: "noise_ops \<Rightarrow> u64 \<Rightarrow> f64 \<times> u64" where
  "next01 N st = (let st = mix64 st in (to_unit N st, st))"

text \<open>Uniform below \<open>n\<close>, which must not be zero.\<close>

definition next_index :: "nat \<Rightarrow> u64 \<Rightarrow> nat \<times> u64" where
  "next_index n st = (let st = mix64 st in (unat (st mod of_nat n), st))"

lemma next_index_less: "0 < n \<Longrightarrow> n < 2 ^ 64 \<Longrightarrow> fst (next_index n st) < n"
  by (simp add: next_index_def Let_def unat_mod unat_of_nat take_bit_nat_def)

section \<open>The noise graph\<close>

datatype noise_type = kConstant | kValue | kCellular | kFbm | kRemap | kCombine

datatype noise_combine = kCombineAdd | kCombineMultiply | kCombineMin | kCombineMax

record noise_fields =
  nf_type :: noise_type
  nf_salt :: u64
  nf_constant :: f64
  nf_frequency :: f64
  nf_octaves :: nat
  nf_lacunarity :: f64
  nf_gain :: f64
  nf_in_min :: f64
  nf_in_max :: f64
  nf_out_min :: f64
  nf_out_max :: f64
  nf_op :: noise_combine

text \<open>A node, with its \<open>source\<close> and the operands \<open>a\<close> and \<open>b\<close>.\<close>

datatype noise_node = Noise_Node noise_fields "noise_node option" "noise_node option" "noise_node option"

definition noise_clamp01 :: "float_ops \<Rightarrow> f64 \<Rightarrow> f64" where
  "noise_clamp01 F v = f_clamp F v f_zero f_one"

definition noise_remap :: "float_ops \<Rightarrow> noise_fields \<Rightarrow> f64 \<Rightarrow> f64" where
  "noise_remap F n v = (
     let span = fo_sub F (nf_in_max n) (nf_in_min n);
         t = (if \<not> fo_eq F span f_zero then fo_div F (fo_sub F v (nf_in_min n)) span else f_zero) in
     fo_add F (nf_out_min n) (fo_mul F t (fo_sub F (nf_out_max n) (nf_out_min n))))"

fun noise_combine_with :: "float_ops \<Rightarrow> noise_combine \<Rightarrow> f64 \<Rightarrow> f64 \<Rightarrow> f64" where
  "noise_combine_with F kCombineAdd a b = fo_add F a b"
| "noise_combine_with F kCombineMultiply a b = fo_mul F a b"
| "noise_combine_with F kCombineMin a b = f_min2 F a b"
| "noise_combine_with F kCombineMax a b = f_max2 F a b"

fun eval2 :: "noise_ops \<Rightarrow> noise_node \<Rightarrow> u64 \<Rightarrow> f64 \<Rightarrow> f64 \<Rightarrow> f64" where
  "eval2 N (Noise_Node n source a b) seed x y = (
     let F = no_floats N; node_seed = seed + nf_salt n * kOctaveSalt; freq = nf_frequency n in
     case nf_type n of
       kConstant \<Rightarrow> nf_constant n
     | kValue \<Rightarrow> value2 N node_seed (fo_mul F x freq) (fo_mul F y freq)
     | kCellular \<Rightarrow> noise_clamp01 F (fo_div F (cell_distance (cellular2 N node_seed (fo_mul F x freq) (fo_mul F y freq)))
         0x3FF8000000000000)
     | kFbm \<Rightarrow> (case source of None \<Rightarrow> f_zero
         | Some s \<Rightarrow> fbm_sum F (\<lambda>sd f. eval2 N s sd (fo_mul F x f) (fo_mul F y f)) node_seed (nf_octaves n) freq
             (nf_lacunarity n) (nf_gain n))
     | kRemap \<Rightarrow> (case source of None \<Rightarrow> f_zero | Some s \<Rightarrow> noise_remap F n (eval2 N s seed x y))
     | kCombine \<Rightarrow> noise_combine_with F (nf_op n) (case a of None \<Rightarrow> f_zero | Some s \<Rightarrow> eval2 N s seed x y)
         (case b of None \<Rightarrow> f_zero | Some s \<Rightarrow> eval2 N s seed x y))"

fun eval3 :: "noise_ops \<Rightarrow> noise_node \<Rightarrow> u64 \<Rightarrow> f64 \<Rightarrow> f64 \<Rightarrow> f64 \<Rightarrow> f64" where
  "eval3 N (Noise_Node n source a b) seed x y z = (
     let F = no_floats N; node_seed = seed + nf_salt n * kOctaveSalt; freq = nf_frequency n in
     case nf_type n of
       kConstant \<Rightarrow> nf_constant n
     | kValue \<Rightarrow> value3 N node_seed (fo_mul F x freq) (fo_mul F y freq) (fo_mul F z freq)
     | kCellular \<Rightarrow> noise_clamp01 F (fo_div F (cell_distance (cellular2 N node_seed (fo_mul F x freq) (fo_mul F z freq)))
         0x3FF8000000000000)
     | kFbm \<Rightarrow> (case source of None \<Rightarrow> f_zero
         | Some s \<Rightarrow> fbm_sum F (\<lambda>sd f. eval3 N s sd (fo_mul F x f) (fo_mul F y f) (fo_mul F z f)) node_seed (nf_octaves n) freq
             (nf_lacunarity n) (nf_gain n))
     | kRemap \<Rightarrow> (case source of None \<Rightarrow> f_zero | Some s \<Rightarrow> noise_remap F n (eval3 N s seed x y z))
     | kCombine \<Rightarrow> noise_combine_with F (nf_op n) (case a of None \<Rightarrow> f_zero | Some s \<Rightarrow> eval3 N s seed x y z)
         (case b of None \<Rightarrow> f_zero | Some s \<Rightarrow> eval3 N s seed x y z))"

end
