(* ===== verification/Biome_Selector.thy ===== *)
theory Biome_Selector
  imports World_Noise Core_Types
begin

text \<open>
  \<open>worldgen/biome_selector.hpp\<close> and \<open>.cpp\<close>: the biome of a cell is a weighted draw that depends on the
  biomes of those neighbours that come before it in an order given by a hash. The code resolves the
  neighbours first, with a memo and a guard against cycles. It is proved to compute the function this
  defines, whatever was resolved before, and the guard never to be needed.
\<close>

section \<open>Biomes\<close>

record biome_entry =
  be_name :: bstring
  be_probability :: f64
  be_surface :: block_id
  be_filler :: block_id
  be_stone :: block_id
  be_adjacency :: "f64 list"

definition kAdjacencyFloor :: f64 where "kAdjacencyFloor = 0x3F50624DD2F1A9FC"

type_synonym cell_key = "i64 \<times> i64"

definition order_key :: "u64 \<Rightarrow> cell_key \<Rightarrow> u64" where
  "order_key seed c = hash2 (seed XOR 0xB10E5E1EC7100001) (fst c) (snd c)"

text \<open>The eight cells around one, row by row.\<close>

definition neighbours_of :: "cell_key \<Rightarrow> cell_key list" where
  "neighbours_of c = map (\<lambda>(ox, oy). (fst c + ox, snd c + oy))
     [(-1, -1), (0, -1), (1, -1), (-1, 0), (1, 0), (-1, 1), (0, 1), (1, 1)]"

section \<open>The draw\<close>

definition biome_weight :: "float_ops \<Rightarrow> nat list \<Rightarrow> biome_entry \<Rightarrow> f64" where
  "biome_weight F resolved b = f_max2 F
     (fold (\<lambda>n w. fo_mul F w (f_max2 F (if n < length (be_adjacency b) then be_adjacency b ! n else f_one) kAdjacencyFloor))
        resolved (f_max2 F (be_probability b) f_zero))
     kAdjacencyFloor"

primrec pick_weighted :: "float_ops \<Rightarrow> f64 \<Rightarrow> f64 \<Rightarrow> nat \<Rightarrow> f64 list \<Rightarrow> nat option" where
  "pick_weighted F pick cursor i [] = None"
| "pick_weighted F pick cursor i (w # ws) = (let cursor = fo_add F cursor w in
     if fo_lt F pick cursor then Some i else pick_weighted F pick cursor (Suc i) ws)"

definition choose_biome :: "noise_ops \<Rightarrow> u64 \<Rightarrow> biome_entry list \<Rightarrow> cell_key \<Rightarrow> nat list \<Rightarrow> nat" where
  "choose_biome N seed biomes c resolved = (
     let F = no_floats N;
         weights = map (biome_weight F resolved) biomes;
         total = fold (\<lambda>w t. fo_add F t w) weights f_zero;
         pick = fo_mul F (to_unit N (hash2 (seed XOR 0xB10E5E1EC7100002) (fst c) (snd c))) total in
     case pick_weighted F pick f_zero 0 weights of None \<Rightarrow> length biomes - 1 | Some i \<Rightarrow> i)"

section \<open>Resolution with a memo\<close>

function resolve_cell :: "noise_ops \<Rightarrow> u64 \<Rightarrow> biome_entry list \<Rightarrow> cell_key \<Rightarrow> (cell_key \<rightharpoonup> nat) \<Rightarrow> cell_key list \<Rightarrow>
    nat \<times> (cell_key \<rightharpoonup> nat)" where
  "resolve_cell N seed biomes c memo in_progress = (case memo c of
       Some b \<Rightarrow> (b, memo)
     | None \<Rightarrow>
         if c \<in> set in_progress then (0, memo)
         else
           let (resolved, memo) = fold (\<lambda>n (resolved, memo).
                 if order_key seed n < order_key seed c
                 then let (b, memo) = resolve_cell N seed biomes n memo (in_progress @ [c]) in (resolved @ [b], memo)
                 else (resolved, memo)) (neighbours_of c) ([], memo);
               chosen = choose_biome N seed biomes c resolved in
           (chosen, memo(c \<mapsto> chosen)))"
  by pat_completeness auto

termination resolve_cell
  by (relation "measure (\<lambda>(N, seed, biomes, c, memo, in_progress). unat (order_key seed c))") (auto simp: word_less_nat_alt)

declare resolve_cell.simps [simp del]

record biome_selector =
  bs_seed :: u64
  bs_cell_size :: f64
  bs_biomes :: "biome_entry list"

definition new_selector :: "float_ops \<Rightarrow> u64 \<Rightarrow> f64 \<Rightarrow> biome_entry list \<Rightarrow> biome_selector" where
  "new_selector F seed cell_size biomes = \<lparr>bs_seed = seed,
     bs_cell_size = (if fo_lt F f_zero cell_size then cell_size else 0x4070000000000000), bs_biomes = biomes\<rparr>"

definition resolve_biome :: "noise_ops \<Rightarrow> biome_selector \<Rightarrow> f64 \<Rightarrow> f64 \<Rightarrow> nat" where
  "resolve_biome N sel x z = (
     if bs_biomes sel = [] then 0
     else
       let F = no_floats N; c = (fo_floor_i64 F (fo_div F x (bs_cell_size sel)), fo_floor_i64 F (fo_div F z (bs_cell_size sel))) in
       fst (resolve_cell N (bs_seed sel) (bs_biomes sel) c Map.empty []))"

section \<open>What it computes\<close>

text \<open>The biome of a cell, by recursion over the order alone.\<close>

function biome_of :: "noise_ops \<Rightarrow> u64 \<Rightarrow> biome_entry list \<Rightarrow> cell_key \<Rightarrow> nat" where
  "biome_of N seed biomes c = choose_biome N seed biomes c
     (map (\<lambda>n. if order_key seed n < order_key seed c then biome_of N seed biomes n else 0)
        (filter (\<lambda>n. order_key seed n < order_key seed c) (neighbours_of c)))"
  by pat_completeness auto

termination biome_of
  by (relation "measure (\<lambda>(N, seed, biomes, c). unat (order_key seed c))") (auto simp: word_less_nat_alt)

declare biome_of.simps [simp del]

lemma biome_of_neighbours:
  "biome_of N seed biomes c = choose_biome N seed biomes c
     (map (biome_of N seed biomes) (filter (\<lambda>n. order_key seed n < order_key seed c) (neighbours_of c)))"
  by (subst biome_of.simps) (auto intro!: arg_cong [where f = "choose_biome N seed biomes c"])

definition memo_ok :: "noise_ops \<Rightarrow> u64 \<Rightarrow> biome_entry list \<Rightarrow> (cell_key \<rightharpoonup> nat) \<Rightarrow> bool" where
  "memo_ok N seed biomes memo \<longleftrightarrow> (\<forall>c b. memo c = Some b \<longrightarrow> b = biome_of N seed biomes c)"

text \<open>The cells under way all come after the one that is resolved, so it is never among them.\<close>

lemma resolve_cell_is:
  assumes "memo_ok N seed biomes memo" and "\<forall>k \<in> set in_progress. order_key seed c < order_key seed k"
  shows "fst (resolve_cell N seed biomes c memo in_progress) = biome_of N seed biomes c \<and>
    memo_ok N seed biomes (snd (resolve_cell N seed biomes c memo in_progress))"
  using assms
proof (induction N seed biomes c memo in_progress rule: resolve_cell.induct)
  case (1 N seed biomes c memo in_progress)
  let ?before = "\<lambda>n. order_key seed n < order_key seed c"
  let ?step = "\<lambda>n (resolved, memo). if ?before n
     then let (b, memo) = resolve_cell N seed biomes n memo (in_progress @ [c]) in (resolved @ [b], memo) else (resolved, memo)"
  show ?case
  proof (cases "memo c")
    case (Some b)
    then show ?thesis using 1(2) by (cases c) (simp add: resolve_cell.simps memo_ok_def)
  next
    case None
    have fresh: "c \<notin> set in_progress" using 1(3) by auto
    have later: "\<forall>k \<in> set (in_progress @ [c]). order_key seed n < order_key seed k" if "?before n" for n
      using 1(3) that by (auto intro: order.strict_trans)
    have loop: "fst (fold ?step ns (rs, m)) = rs @ map (biome_of N seed biomes) (filter ?before ns) \<and>
        memo_ok N seed biomes (snd (fold ?step ns (rs, m)))"
      if "memo_ok N seed biomes m" "set ns \<subseteq> set (neighbours_of c)" for ns rs m
      using that
    proof (induction ns arbitrary: rs m)
      case (Cons n ns)
      show ?case
      proof (cases "?before n")
        case True
        have "fst (resolve_cell N seed biomes n m (in_progress @ [c])) = biome_of N seed biomes n \<and>
            memo_ok N seed biomes (snd (resolve_cell N seed biomes n m (in_progress @ [c])))"
          by (rule 1(1) [OF None fresh _ True Cons.prems(1) later [OF True]]) (use Cons.prems(2) in auto)
        then show ?thesis using Cons.IH [of "snd (resolve_cell N seed biomes n m (in_progress @ [c]))"] Cons.prems(2) True
          by (simp add: case_prod_unfold Let_def)
      next
        case False
        then show ?thesis using Cons by simp
      qed
    qed simp
    have "fst (fold ?step (neighbours_of c) ([], memo)) = map (biome_of N seed biomes) (filter ?before (neighbours_of c))"
      "memo_ok N seed biomes (snd (fold ?step (neighbours_of c) ([], memo)))"
      using loop [OF 1(2) order_refl, of "[]"] by simp_all
    then show ?thesis using None fresh
      by (subst (1 2) resolve_cell.simps) (auto simp: case_prod_unfold Let_def memo_ok_def biome_of_neighbours [symmetric])
  qed
qed

theorem biome_resolved:
  assumes "bs_biomes sel \<noteq> []"
  shows "resolve_biome N sel x z = biome_of N (bs_seed sel) (bs_biomes sel)
    (fo_floor_i64 (no_floats N) (fo_div (no_floats N) x (bs_cell_size sel)), fo_floor_i64 (no_floats N) (fo_div (no_floats N) z (bs_cell_size sel)))"
  using resolve_cell_is [of N "bs_seed sel" "bs_biomes sel" Map.empty "[]"] assms
  by (simp add: resolve_biome_def Let_def memo_ok_def)

lemma pick_weighted_less: "pick_weighted F pick cursor i ws = Some k \<Longrightarrow> k < i + length ws"
  by (induction ws arbitrary: cursor i) (force simp: Let_def split: if_splits)+

lemma choose_biome_less: "biomes \<noteq> [] \<Longrightarrow> choose_biome N seed biomes c resolved < length biomes"
  by (auto simp: choose_biome_def Let_def split: option.split dest: pick_weighted_less)

lemma biome_of_less: "biomes \<noteq> [] \<Longrightarrow> biome_of N seed biomes c < length biomes"
  by (subst biome_of.simps) (rule choose_biome_less)

end
