(* ===== verification/Structure_Defs.thy ===== *)
theory Structure_Defs
  imports Block_Registry Float_Math
begin

text \<open>
  \<open>worldgen/structure.hpp\<close> and \<open>worldgen/structure.cpp\<close>: decorative structures as they are written, by block
  name and rows of palette characters, and as they are placed, by block id and cell. An error is a value
  that says which check failed; the code turns it into a sentence.
\<close>

section \<open>The authoring form\<close>

definition kMaxStructureDim :: int where "kMaxStructureDim = 64"
definition kKeepBlock :: block_id where "kKeepBlock = 0xFFFF"

datatype replace_policy = kReplaceAir | kReplaceAirAndPlants | kReplaceAll

fun replace_policy_name :: "replace_policy \<Rightarrow> bstring" where
  "replace_policy_name kReplaceAir = lit ''air''"
| "replace_policy_name kReplaceAirAndPlants = lit ''air_and_plants''"
| "replace_policy_name kReplaceAll = lit ''all''"

definition parse_replace_policy :: "bstring \<Rightarrow> replace_policy option" where
  "parse_replace_policy name = (
     if name = lit ''air'' then Some kReplaceAir
     else if name = lit ''air_and_plants'' then Some kReplaceAirAndPlants
     else if name = lit ''all'' then Some kReplaceAll
     else None)"

record placement_spec =
  pls_on :: "bstring list option"
  pls_replace :: "replace_policy option"
  pls_rotate :: "bool option"
  pls_mirror :: "bool option"
  pls_min_spacing :: "int option"
  pls_max_slope :: "int option"
  pls_y_min :: "int option"
  pls_y_max :: "int option"
  pls_cluster :: "f64 option"

definition empty_placement :: placement_spec where
  "empty_placement = \<lparr>pls_on = None, pls_replace = None, pls_rotate = None, pls_mirror = None, pls_min_spacing = None,
     pls_max_slope = None, pls_y_min = None, pls_y_max = None, pls_cluster = None\<rparr>"

record variant_spec =
  vsp_weight :: f64
  vsp_layers :: "bstring list list"

text \<open>The palette lists the entries of the map in the order of their characters.\<close>

record structure_spec =
  ssp_name :: bstring
  ssp_size :: ivec3
  ssp_anchor :: ivec3
  ssp_palette :: "(byte \<times> bstring option) list"
  ssp_variants :: "variant_spec list"
  ssp_placement :: placement_spec

definition or_else :: "'a option \<Rightarrow> 'a option \<Rightarrow> 'a option" where
  "or_else new old = (case new of None \<Rightarrow> old | Some x \<Rightarrow> Some x)"

definition merge_placement :: "placement_spec \<Rightarrow> placement_spec \<Rightarrow> placement_spec" where
  "merge_placement base over = \<lparr>pls_on = or_else (pls_on over) (pls_on base),
     pls_replace = or_else (pls_replace over) (pls_replace base), pls_rotate = or_else (pls_rotate over) (pls_rotate base),
     pls_mirror = or_else (pls_mirror over) (pls_mirror base),
     pls_min_spacing = or_else (pls_min_spacing over) (pls_min_spacing base),
     pls_max_slope = or_else (pls_max_slope over) (pls_max_slope base), pls_y_min = or_else (pls_y_min over) (pls_y_min base),
     pls_y_max = or_else (pls_y_max over) (pls_y_max base), pls_cluster = or_else (pls_cluster over) (pls_cluster base)\<rparr>"

section \<open>Validation\<close>

datatype structure_error = Name_Required | Bad_Size | Anchor_Outside | No_Variant | Bad_Weight nat | Bad_Layers nat
  | Bad_Rows nat nat | Bad_Row nat nat nat | Unknown_Key nat nat nat byte | Bad_Spacing | Bad_Slope | Bad_Cluster | Bad_Range
  | Unknown_Block byte bstring | Unknown_On bstring

definition validate_placement_spec :: "float_ops \<Rightarrow> placement_spec \<Rightarrow> structure_error option" where
  "validate_placement_spec F sp = (
     if case pls_min_spacing sp of None \<Rightarrow> False | Some s \<Rightarrow> s < 1 then Some Bad_Spacing
     else if case pls_max_slope sp of None \<Rightarrow> False | Some s \<Rightarrow> s < 0 then Some Bad_Slope
     else if case pls_cluster sp of None \<Rightarrow> False | Some c \<Rightarrow> \<not> (fo_le F f_zero c \<and> fo_le F c f_one) then Some Bad_Cluster
     else if case (pls_y_min sp, pls_y_max sp) of (Some a, Some b) \<Rightarrow> a > b | _ \<Rightarrow> False then Some Bad_Range
     else None)"

definition f_isfinite :: "f64 \<Rightarrow> bool" where
  "f_isfinite x \<longleftrightarrow> x AND 0x7FF0000000000000 \<noteq> 0x7FF0000000000000"

definition dim_ok :: "i32 \<Rightarrow> bool" where
  "dim_ok v \<longleftrightarrow> 1 \<le> sint v \<and> sint v \<le> kMaxStructureDim"

text \<open>The first failure of a check over a list, with the position in front.\<close>

primrec first_error :: "nat \<Rightarrow> (nat \<Rightarrow> 'a \<Rightarrow> 'e option) \<Rightarrow> 'a list \<Rightarrow> 'e option" where
  "first_error i check [] = None"
| "first_error i check (x # xs) = (case check i x of None \<Rightarrow> first_error (Suc i) check xs | Some e \<Rightarrow> Some e)"

definition check_row :: "structure_spec \<Rightarrow> nat \<Rightarrow> nat \<Rightarrow> nat \<Rightarrow> bstring \<Rightarrow> structure_error option" where
  "check_row sp vi y z row = (
     if length row \<noteq> nat (sint (iv_x (ssp_size sp))) then Some (Bad_Row vi y z)
     else first_error 0 (\<lambda>_ c. if c \<in> fst ` set (ssp_palette sp) then None else Some (Unknown_Key vi y z c)) row)"

definition check_layer :: "structure_spec \<Rightarrow> nat \<Rightarrow> nat \<Rightarrow> bstring list \<Rightarrow> structure_error option" where
  "check_layer sp vi y rows = (
     if length rows \<noteq> nat (sint (iv_z (ssp_size sp))) then Some (Bad_Rows vi y)
     else first_error 0 (check_row sp vi y) rows)"

definition check_variant :: "float_ops \<Rightarrow> structure_spec \<Rightarrow> nat \<Rightarrow> variant_spec \<Rightarrow> structure_error option" where
  "check_variant F sp vi v = (
     if \<not> fo_lt F f_zero (vsp_weight v) \<or> \<not> f_isfinite (vsp_weight v) then Some (Bad_Weight vi)
     else if length (vsp_layers v) \<noteq> nat (sint (iv_y (ssp_size sp))) then Some (Bad_Layers vi)
     else first_error 0 (check_layer sp vi) (vsp_layers v))"

definition validate_structure_spec :: "float_ops \<Rightarrow> structure_spec \<Rightarrow> structure_error option" where
  "validate_structure_spec F sp = (
     let sz = ssp_size sp; anchor = ssp_anchor sp in
     if ssp_name sp = [] then Some Name_Required
     else if \<not> (dim_ok (iv_x sz) \<and> dim_ok (iv_y sz) \<and> dim_ok (iv_z sz)) then Some Bad_Size
     else if sint (iv_x anchor) < 0 \<or> sint (iv_x anchor) \<ge> sint (iv_x sz) \<or> sint (iv_y anchor) < 0 \<or>
       sint (iv_y anchor) \<ge> sint (iv_y sz) \<or> sint (iv_z anchor) < 0 \<or> sint (iv_z anchor) \<ge> sint (iv_z sz)
     then Some Anchor_Outside
     else if ssp_variants sp = [] then Some No_Variant
     else case first_error 0 (check_variant F sp) (ssp_variants sp) of
         Some e \<Rightarrow> Some e
       | None \<Rightarrow> validate_placement_spec F (ssp_placement sp))"

section \<open>The resolved form\<close>

record structure_variant =
  stv_size :: ivec3
  stv_cells :: "block_id list"
  stv_weight :: f64

record structure_def =
  sdf_name :: bstring
  sdf_anchor :: ivec3
  sdf_variants :: "structure_variant list"
  sdf_radius_xz :: int

record placement_rule =
  plr_structure :: u32
  plr_spawn_rate :: f64
  plr_on :: "block_id list"
  plr_replace :: replace_policy
  plr_rotate :: bool
  plr_mirror :: bool
  plr_min_spacing :: int
  plr_max_slope :: int
  plr_y_min :: int
  plr_y_max :: int
  plr_cluster :: f64

definition cell_at :: "structure_variant \<Rightarrow> int \<Rightarrow> int \<Rightarrow> int \<Rightarrow> block_id" where
  "cell_at v x y z = stv_cells v ! nat ((y * sint (iv_z (stv_size v)) + z) * sint (iv_x (stv_size v)) + x)"

text \<open>A mirror image first, then quarter turns about the vertical.\<close>

definition transform_offset :: "int \<Rightarrow> int \<Rightarrow> nat \<Rightarrow> bool \<Rightarrow> int \<times> int" where
  "transform_offset dx dz rotation mirror = (
     let dx = (if mirror then - dx else dx); r = rotation mod 4 in
     if r = 0 then (dx, dz) else if r = 1 then (- dz, dx) else if r = 2 then (- dx, - dz) else (dz, - dx))"

definition resolve_block_name :: "block_registry \<Rightarrow> bstring \<Rightarrow> block_id option" where
  "resolve_block_name reg name = (let b = br_find name reg in
     if b = kAir \<and> bt_name (type_of_block reg kAir) \<noteq> name then None else Some b)"

fun resolve_palette :: "block_registry \<Rightarrow> (byte \<times> bstring option) list \<Rightarrow> structure_error + (byte \<times> block_id) list" where
  "resolve_palette reg [] = Inr []"
| "resolve_palette reg ((key, name) # rest) = (
     case (case name of None \<Rightarrow> Inr kKeepBlock
             | Some n \<Rightarrow> (case resolve_block_name reg n of None \<Rightarrow> Inl (Unknown_Block key n) | Some b \<Rightarrow> Inr b)) of
       Inl e \<Rightarrow> Inl e
     | Inr b \<Rightarrow> (case resolve_palette reg rest of Inl e \<Rightarrow> Inl e | Inr ids \<Rightarrow> Inr ((key, b) # ids)))"

definition resolve_variant :: "(byte \<times> block_id) list \<Rightarrow> ivec3 \<Rightarrow> variant_spec \<Rightarrow> structure_variant" where
  "resolve_variant ids sz v = \<lparr>stv_size = sz,
     stv_cells = map (\<lambda>c. the (map_of ids c)) (concat (concat (vsp_layers v))), stv_weight = vsp_weight v\<rparr>"

definition structure_radius :: "ivec3 \<Rightarrow> ivec3 \<Rightarrow> int" where
  "structure_radius sz anchor = max (max (sint (iv_x anchor)) (sint (iv_x sz) - 1 - sint (iv_x anchor)))
     (max (sint (iv_z anchor)) (sint (iv_z sz) - 1 - sint (iv_z anchor)))"

definition resolve_structure :: "float_ops \<Rightarrow> structure_spec \<Rightarrow> block_registry \<Rightarrow> structure_error + structure_def" where
  "resolve_structure F sp reg = (case validate_structure_spec F sp of
       Some e \<Rightarrow> Inl e
     | None \<Rightarrow> (case resolve_palette reg (ssp_palette sp) of
           Inl e \<Rightarrow> Inl e
         | Inr ids \<Rightarrow> Inr \<lparr>sdf_name = ssp_name sp, sdf_anchor = ssp_anchor sp,
             sdf_variants = map (resolve_variant ids (ssp_size sp)) (ssp_variants sp),
             sdf_radius_xz = structure_radius (ssp_size sp) (ssp_anchor sp)\<rparr>))"

fun resolve_on :: "block_registry \<Rightarrow> bstring list \<Rightarrow> structure_error + block_id list" where
  "resolve_on reg [] = Inr []"
| "resolve_on reg (n # ns) = (case resolve_block_name reg n of
       None \<Rightarrow> Inl (Unknown_On n)
     | Some b \<Rightarrow> (case resolve_on reg ns of Inl e \<Rightarrow> Inl e | Inr bs \<Rightarrow> Inr (b # bs)))"

definition value_or :: "'a \<Rightarrow> 'a option \<Rightarrow> 'a" where
  "value_or d x = (case x of None \<Rightarrow> d | Some v \<Rightarrow> v)"

definition resolve_placement :: "float_ops \<Rightarrow> u32 \<Rightarrow> f64 \<Rightarrow> placement_spec \<Rightarrow> block_registry \<Rightarrow> structure_error + placement_rule" where
  "resolve_placement F index spawn_rate sp reg = (case validate_placement_spec F sp of
       Some e \<Rightarrow> Inl e
     | None \<Rightarrow> (case (case pls_on sp of None \<Rightarrow> Inr [] | Some names \<Rightarrow> resolve_on reg names) of
           Inl e \<Rightarrow> Inl e
         | Inr on \<Rightarrow>
             let rule = \<lparr>plr_structure = index, plr_spawn_rate = spawn_rate, plr_on = on,
                   plr_replace = value_or kReplaceAir (pls_replace sp), plr_rotate = value_or False (pls_rotate sp),
                   plr_mirror = value_or False (pls_mirror sp), plr_min_spacing = value_or 4 (pls_min_spacing sp),
                   plr_max_slope = value_or 2 (pls_max_slope sp), plr_y_min = value_or 0 (pls_y_min sp),
                   plr_y_max = value_or 255 (pls_y_max sp), plr_cluster = value_or f_zero (pls_cluster sp)\<rparr> in
             if plr_y_min rule > plr_y_max rule then Inl Bad_Range else Inr rule))"

section \<open>What a resolved structure holds\<close>

lemma transform_offset_near:
  assumes "\<bar>dx\<bar> \<le> r" and "\<bar>dz\<bar> \<le> r"
  shows "\<bar>fst (transform_offset dx dz rotation mirror)\<bar> \<le> r \<and> \<bar>snd (transform_offset dx dz rotation mirror)\<bar> \<le> r"
  using assms by (auto simp: transform_offset_def Let_def)

lemma first_error_none: "first_error i check xs = None \<longleftrightarrow> (\<forall>k < length xs. check (i + k) (xs ! k) = None)"
  by (induction xs arbitrary: i) (auto simp: All_less_Suc2 split: option.split)

text \<open>Every variant is a full grid of the structure's size, with the anchor inside it.\<close>

definition structure_ok :: "structure_def \<Rightarrow> bool" where
  "structure_ok d \<longleftrightarrow> (\<exists>sz. dim_ok (iv_x sz) \<and> dim_ok (iv_y sz) \<and> dim_ok (iv_z sz) \<and>
     sdf_radius_xz d = structure_radius sz (sdf_anchor d) \<and>
     0 \<le> sint (iv_x (sdf_anchor d)) \<and> sint (iv_x (sdf_anchor d)) < sint (iv_x sz) \<and>
     0 \<le> sint (iv_z (sdf_anchor d)) \<and> sint (iv_z (sdf_anchor d)) < sint (iv_z sz) \<and>
     (\<forall>v \<in> set (sdf_variants d). stv_size v = sz \<and>
        length (stv_cells v) = nat (sint (iv_y sz)) * (nat (sint (iv_z sz)) * nat (sint (iv_x sz)))))"

lemma length_concat_same: "\<forall>x \<in> set xs. length x = n \<Longrightarrow> length (concat xs) = length xs * n"
  by (induction xs) auto

lemma checked_variant:
  assumes "check_variant F sp vi v = None"
  shows "length (concat (concat (vsp_layers v))) =
    nat (sint (iv_y (ssp_size sp))) * (nat (sint (iv_z (ssp_size sp))) * nat (sint (iv_x (ssp_size sp))))"
proof -
  have layers: "length (vsp_layers v) = nat (sint (iv_y (ssp_size sp)))"
    and each: "\<And>y. y < length (vsp_layers v) \<Longrightarrow> check_layer sp vi y (vsp_layers v ! y) = None"
    using assms by (auto simp: check_variant_def first_error_none split: if_splits)
  have rows: "length rows = nat (sint (iv_z (ssp_size sp)))" "\<forall>row \<in> set rows. length row = nat (sint (iv_x (ssp_size sp)))"
    if r: "rows \<in> set (vsp_layers v)" for rows
  proof -
    obtain y where y: "y < length (vsp_layers v)" "vsp_layers v ! y = rows" using r unfolding in_set_conv_nth by blast
    have c: "check_layer sp vi y rows = None" using each [OF y(1)] unfolding y(2) .
    then show "length rows = nat (sint (iv_z (ssp_size sp)))" by (auto simp: check_layer_def split: if_splits)
    from c have "\<forall>z < length rows. check_row sp vi y z (rows ! z) = None"
      by (auto simp: check_layer_def first_error_none split: if_splits)
    then show "\<forall>row \<in> set rows. length row = nat (sint (iv_x (ssp_size sp)))"
      by (fastforce simp: check_row_def in_set_conv_nth split: if_splits)
  qed
  have all: "\<forall>row \<in> set (concat (vsp_layers v)). length row = nat (sint (iv_x (ssp_size sp)))" using rows(2) by auto
  have "length (concat (vsp_layers v)) = length (vsp_layers v) * nat (sint (iv_z (ssp_size sp)))"
    by (rule length_concat_same) (use rows(1) in blast)
  then show ?thesis unfolding length_concat_same [OF all] by (simp add: layers)
qed

lemma resolved_ok:
  assumes "resolve_structure F sp reg = Inr d"
  shows "structure_ok d"
proof -
  obtain ids where v: "validate_structure_spec F sp = None" and d: "d = \<lparr>sdf_name = ssp_name sp, sdf_anchor = ssp_anchor sp,
      sdf_variants = map (resolve_variant ids (ssp_size sp)) (ssp_variants sp), sdf_radius_xz = structure_radius (ssp_size sp) (ssp_anchor sp)\<rparr>"
    using assms by (auto simp: resolve_structure_def split: option.splits sum.splits)
  have "\<forall>k < length (ssp_variants sp). check_variant F sp k (ssp_variants sp ! k) = None"
    using v by (auto simp: validate_structure_spec_def Let_def first_error_none split: if_splits option.splits)
  then have "\<forall>w \<in> set (ssp_variants sp). length (concat (concat (vsp_layers w))) =
      nat (sint (iv_y (ssp_size sp))) * (nat (sint (iv_z (ssp_size sp))) * nat (sint (iv_x (ssp_size sp))))"
    using checked_variant by (fastforce simp: in_set_conv_nth)
  then show ?thesis
    using v unfolding structure_ok_def d
    by (intro exI [of _ "ssp_size sp"]) (auto simp: validate_structure_spec_def Let_def resolve_variant_def split: if_splits)
qed

text \<open>No turn and no mirror image takes a cell further from the anchor than the radius.\<close>

lemma cell_within_radius:
  assumes "structure_ok d" and "v \<in> set (sdf_variants d)"
    and "0 \<le> x" and "x < sint (iv_x (stv_size v))" and "0 \<le> z" and "z < sint (iv_z (stv_size v))"
  shows "\<bar>fst (transform_offset (x - sint (iv_x (sdf_anchor d))) (z - sint (iv_z (sdf_anchor d))) rotation mirror)\<bar> \<le> sdf_radius_xz d"
    and "\<bar>snd (transform_offset (x - sint (iv_x (sdf_anchor d))) (z - sint (iv_z (sdf_anchor d))) rotation mirror)\<bar> \<le> sdf_radius_xz d"
proof -
  obtain sz where sz: "sdf_radius_xz d = structure_radius sz (sdf_anchor d)" "stv_size v = sz"
    "0 \<le> sint (iv_x (sdf_anchor d))" "sint (iv_x (sdf_anchor d)) < sint (iv_x sz)"
    "0 \<le> sint (iv_z (sdf_anchor d))" "sint (iv_z (sdf_anchor d)) < sint (iv_z sz)"
    using assms(1, 2) unfolding structure_ok_def by blast
  have "\<bar>x - sint (iv_x (sdf_anchor d))\<bar> \<le> sdf_radius_xz d" "\<bar>z - sint (iv_z (sdf_anchor d))\<bar> \<le> sdf_radius_xz d"
    using assms(3-6) sz by (auto simp: structure_radius_def)
  from transform_offset_near [OF this, of rotation mirror]
  show "\<bar>fst (transform_offset (x - sint (iv_x (sdf_anchor d))) (z - sint (iv_z (sdf_anchor d))) rotation mirror)\<bar> \<le> sdf_radius_xz d"
    and "\<bar>snd (transform_offset (x - sint (iv_x (sdf_anchor d))) (z - sint (iv_z (sdf_anchor d))) rotation mirror)\<bar> \<le> sdf_radius_xz d"
    by blast+
qed

end
