(* ===== verification/World_Generator.thy ===== *)
theory World_Generator
  imports Biome_Selector Structure_Defs Chunk_Model "HOL-Library.Product_Lexorder"
begin

text \<open>
  \<open>worldgen/generator.hpp\<close>, \<open>generator.cpp\<close>, \<open>structure_placement.cpp\<close> and \<open>pipeline.hpp\<close>: the terrain of
  a chunk, its carvers, veins and structures, and where a player first stands. World coordinates are
  unbounded here, the \<open>int\<close> of the code as far as it does not overflow.
\<close>

section \<open>The pipeline\<close>

record carver_def =
  crv_density :: "f64 \<Rightarrow> f64 \<Rightarrow> f64 \<Rightarrow> f64"
  crv_threshold :: f64
  crv_y_min :: int
  crv_y_max :: int

record vein_def =
  vn_block :: block_id
  vn_target_rock :: block_id
  vn_height_min :: int
  vn_height_max :: int
  vn_vein_size :: int
  vn_spawn_rate :: f64

record gen_pipeline =
  pp_height_field :: "f64 \<Rightarrow> f64 \<Rightarrow> f64"
  pp_sea_level :: int
  pp_soil_depth :: int
  pp_beach :: block_id
  pp_biomes :: biome_selector
  pp_carvers :: "carver_def list"
  pp_veins :: "vein_def list"
  pp_structures :: "structure_def list"
  pp_decoration :: "placement_rule list list"
  pp_replaceable :: "u8 list"

definition is_replaceable :: "gen_pipeline \<Rightarrow> block_id \<Rightarrow> bool" where
  "is_replaceable pipe b \<longleftrightarrow> unat b < length (pp_replaceable pipe) \<and> pp_replaceable pipe ! unat b \<noteq> 0"

record gen_params =
  gp_seed :: u64
  gp_sea_level :: int
  gp_base_height :: f64
  gp_amplitude :: f64
  gp_height_noise :: fbm_params
  gp_soil_depth :: int

definition default_gen_params :: gen_params where
  "default_gen_params = \<lparr>gp_seed = 0, gp_sea_level = 62, gp_base_height = 0x4050000000000000, gp_amplitude = 0x403C000000000000,
     gp_height_noise = \<lparr>fb_octaves = 5, fb_frequency = 0x3F85555555555555, fb_lacunarity = f_two, fb_gain = f_half\<rparr>,
     gp_soil_depth = 4\<rparr>"

record world_generator =
  wg_params :: gen_params
  wg_stone :: block_id
  wg_dirt :: block_id
  wg_grass :: block_id
  wg_sand :: block_id
  wg_water :: block_id
  wg_pipeline :: "gen_pipeline option"

definition new_generator :: "gen_params \<Rightarrow> block_registry \<Rightarrow> gen_pipeline option \<Rightarrow> world_generator" where
  "new_generator params reg pipe = \<lparr>wg_params = params, wg_stone = br_find (lit ''base:stone'') reg,
     wg_dirt = br_find (lit ''base:dirt'') reg, wg_grass = br_find (lit ''base:grass'') reg,
     wg_sand = br_find (lit ''base:sand'') reg, wg_water = br_find (lit ''base:water'') reg, wg_pipeline = pipe\<rparr>"

definition f_of_int :: "noise_ops \<Rightarrow> int \<Rightarrow> f64" where
  "f_of_int N x = fo_of_int (no_floats N) (word_of_int x)"

section \<open>Terrain\<close>

definition surface_height :: "noise_ops \<Rightarrow> world_generator \<Rightarrow> int \<Rightarrow> int \<Rightarrow> int" where
  "surface_height N g x z = (let F = no_floats N in
     case wg_pipeline g of
       Some pipe \<Rightarrow> sint (fo_floor_int F (pp_height_field pipe (f_of_int N x) (f_of_int N z)))
     | None \<Rightarrow>
         let p = wg_params g; n = fbm2 N (gp_seed p) (f_of_int N x) (f_of_int N z) (gp_height_noise p) in
         sint (fo_floor_int F (fo_add F (gp_base_height p)
           (fo_mul F (fo_sub F (fo_mul F n f_two) f_one) (gp_amplitude p)))))"

definition gen_sea_level :: "world_generator \<Rightarrow> int" where
  "gen_sea_level g = (case wg_pipeline g of Some pipe \<Rightarrow> pp_sea_level pipe | None \<Rightarrow> gp_sea_level (wg_params g))"

record gen_column =
  gc_height :: int
  gc_biome :: nat
  gc_surface :: block_id
  gc_filler :: block_id
  gc_stone :: block_id

definition column_at :: "noise_ops \<Rightarrow> world_generator \<Rightarrow> gen_pipeline \<Rightarrow> int \<Rightarrow> int \<Rightarrow> gen_column" where
  "column_at N g pipe x z = (
     let F = no_floats N; pick = (\<lambda>b d. if b \<noteq> kAir then b else d);
         col = \<lparr>gc_height = sint (fo_floor_int F (pp_height_field pipe (f_of_int N x) (f_of_int N z))), gc_biome = 0,
                gc_surface = wg_grass g, gc_filler = wg_dirt g, gc_stone = wg_stone g\<rparr>;
         col = (if bs_biomes (pp_biomes pipe) = [] then col
                else let i = resolve_biome N (pp_biomes pipe) (f_of_int N x) (f_of_int N z); b = bs_biomes (pp_biomes pipe) ! i in
                  col\<lparr>gc_biome := i, gc_surface := pick (be_surface b) (gc_surface col),
                      gc_filler := pick (be_filler b) (gc_filler col), gc_stone := pick (be_stone b) (gc_stone col)\<rparr>) in
     if pp_beach pipe \<noteq> kAir \<and> gc_height col \<le> pp_sea_level pipe + 1
     then col\<lparr>gc_surface := pp_beach pipe, gc_filler := pp_beach pipe\<rparr> else col)"

definition pregen_block :: "noise_ops \<Rightarrow> world_generator \<Rightarrow> gen_pipeline \<Rightarrow> gen_column \<Rightarrow> int \<Rightarrow> int \<Rightarrow> int \<Rightarrow> block_id" where
  "pregen_block N g pipe col x y z = (
     let b = (if y > gc_height col then if y \<le> pp_sea_level pipe then wg_water g else kAir
              else if y = gc_height col then gc_surface col
              else if y \<ge> gc_height col - pp_soil_depth pipe then gc_filler col
              else gc_stone col) in
     if b \<noteq> kAir \<and> b \<noteq> wg_water g \<and> list_ex (\<lambda>c. \<not> (y < crv_y_min c \<or> y > crv_y_max c) \<and>
       fo_le (no_floats N) (crv_threshold c) (crv_density c (f_of_int N x) (f_of_int N y) (f_of_int N z))) (pp_carvers pipe)
     then kAir else b)"

text \<open>The block of the fixed pipeline, for a column of known height.\<close>

definition fixed_block :: "world_generator \<Rightarrow> int \<Rightarrow> int \<Rightarrow> block_id" where
  "fixed_block g height y = (
     let p = wg_params g; beach = height \<le> gp_sea_level p + 1 in
     if y > height then if y \<le> gp_sea_level p then wg_water g else kAir
     else if y = height then if beach then wg_sand g else wg_grass g
     else if y \<ge> height - gp_soil_depth p then if beach then wg_sand g else wg_dirt g
     else wg_stone g)"

definition block_at_pregen :: "noise_ops \<Rightarrow> world_generator \<Rightarrow> int \<Rightarrow> int \<Rightarrow> int \<Rightarrow> block_id" where
  "block_at_pregen N g x y z = (case wg_pipeline g of
       Some pipe \<Rightarrow> pregen_block N g pipe (column_at N g pipe x z) x y z
     | None \<Rightarrow> fixed_block g (surface_height N g x z) y)"

definition origin_of :: "chunk_coord \<Rightarrow> int \<times> int \<times> int" where
  "origin_of c = (let o' = chunk_origin c in (sint (iv_x o'), sint (iv_y o'), sint (iv_z o')))"

text \<open>One column of a chunk, and all of them: \<open>blocks\<close> gives the block of a height in a column.\<close>

definition fill_column :: "(int \<Rightarrow> block_id) \<Rightarrow> int \<Rightarrow> nat \<Rightarrow> nat \<Rightarrow> paletted_store \<Rightarrow> paletted_store" where
  "fill_column block oy lx lz st = fold (\<lambda>ly st. let b = block (oy + int ly) in
     if b \<noteq> kAir then snd (ps_set (index_of lx ly lz) b st) else st) [0..<32] st"

definition terrain_pass :: "noise_ops \<Rightarrow> world_generator \<Rightarrow> chunk_coord \<Rightarrow> paletted_store \<Rightarrow> paletted_store" where
  "terrain_pass N g c st = (case origin_of c of (ox, oy, oz) \<Rightarrow>
     fold (\<lambda>(lz, lx) st.
       let x = ox + int lx; z = oz + int lz in
       case wg_pipeline g of
         None \<Rightarrow> let height = surface_height N g x z in fill_column (fixed_block g height) oy lx lz st
       | Some pipe \<Rightarrow> let col = column_at N g pipe x z in fill_column (\<lambda>y. pregen_block N g pipe col x y z) oy lx lz st)
     (List.product [0..<32] [0..<32]) st)"

section \<open>Veins\<close>

definition in_axis :: "int \<Rightarrow> bool" where
  "in_axis v \<longleftrightarrow> 0 \<le> v \<and> v < kChunkDim"

primrec vein_walk :: "vein_def \<Rightarrow> nat \<Rightarrow> int \<Rightarrow> int \<Rightarrow> int \<Rightarrow> u64 \<times> paletted_store \<Rightarrow> u64 \<times> paletted_store" where
  "vein_walk v 0 x y z st = st"
| "vein_walk v (Suc k) x y z st = (
     let (rng, blocks) = st;
         i = index_of (nat x) (nat y) (nat z);
         blocks = (if in_axis x \<and> in_axis y \<and> in_axis z \<and> ps_get blocks i = vn_target_rock v
                   then snd (ps_set i (vn_block v) blocks) else blocks);
         (dx, rng) = next_index 3 rng; (dy, rng) = next_index 3 rng; (dz, rng) = next_index 3 rng in
     vein_walk v k (x + int dx - 1) (y + int dy - 1) (z + int dz - 1) (rng, blocks))"

definition vein_once :: "vein_def \<Rightarrow> int \<Rightarrow> u64 \<times> paletted_store \<Rightarrow> u64 \<times> paletted_store" where
  "vein_once v oy st = (
     let (rng, blocks) = st; (ax, rng) = next_index 32 rng; (az, rng) = next_index 32 rng;
         (dy, rng) = next_index (nat (max 1 (vn_height_max v - vn_height_min v + 1))) rng in
     vein_walk v (nat (vn_vein_size v)) (int ax) (vn_height_min v + int dy - oy) (int az) (rng, blocks))"

definition vein_pass :: "noise_ops \<Rightarrow> u64 \<Rightarrow> int \<Rightarrow> nat \<times> vein_def \<Rightarrow> paletted_store \<Rightarrow> paletted_store" where
  "vein_pass N chunk_seed oy iv blocks = (case iv of (vi, v) \<Rightarrow>
     let F = no_floats N; rng = chunk_seed XOR (0xF00D000000000000 + of_nat vi);
         n = sint (no_trunc_int N (vn_spawn_rate v));
         (roll, rng) = next01 N rng;
         n = (if fo_lt F roll (fo_sub F (vn_spawn_rate v) (f_of_int N n)) then n + 1 else n) in
     snd ((vein_once v oy ^^ nat n) (rng, blocks)))"

end
