(* ===== verification/Structure_Placement.thy ===== *)
theory Structure_Placement
  imports World_Generator
begin

text \<open>
  \<open>worldgen/structure_placement.cpp\<close>: which structures stand where, and what of them a chunk gets. Anchors
  come from a jittered grid that only the seed, the cell and the rule decide, so a chunk can compute by
  itself every placement that reaches into it. It is proved that a smaller window sees exactly the
  placements of a larger one that lie in it, in the same order, and that a chunk is stamped the same
  whichever window it asks for.
\<close>

section \<open>Placements\<close>

record structure_placement =
  spl_x :: int
  spl_z :: int
  spl_ground_y :: int
  spl_biome :: nat
  spl_rule :: nat
  spl_variant :: nat
  spl_rotation :: nat
  spl_mirror :: bool

definition cpp_floor_div :: "int \<Rightarrow> int \<Rightarrow> int" where
  "cpp_floor_div a b = (let q = a sdiv b in if a smod b \<noteq> 0 \<and> ((a < 0) \<noteq> (b < 0)) then q - 1 else q)"

definition kRuleSalt :: u64 where "kRuleSalt = 0xDEC0000000000000"
definition kClusterScale :: f64 where "kClusterScale = 0x3F95555555555555"
definition kMaxSlopeSamples :: nat where "kMaxSlopeSamples = 32"
definition kNoSlopeLimit :: int where "kNoSlopeLimit = 2 ^ 19"

text \<open>A rule with its biome, its place in the biome's list and its number among all rules.\<close>

record placed_rule =
  pru_biome :: nat
  pru_index :: nat
  pru_flat :: nat
  pru_rule :: placement_rule
  pru_def :: structure_def

definition rule_spacing :: "placement_rule \<Rightarrow> int" where
  "rule_spacing r = max 1 (plr_min_spacing r)"

text \<open>What the random numbers of a grid cell decide, before the terrain is looked at.\<close>

record anchor_roll =
  ar_x :: int
  ar_z :: int
  ar_keep :: f64
  ar_variant :: f64
  ar_rotation :: nat
  ar_mirror :: bool

definition roll_anchor :: "noise_ops \<Rightarrow> u64 \<Rightarrow> placed_rule \<Rightarrow> int \<Rightarrow> int \<Rightarrow> anchor_roll" where
  "roll_anchor N seed pr gx gz = (
     let r = pru_rule pr; spacing = rule_spacing r; cell = 2 * spacing;
         rng = hash3 seed (word_of_int gx) (word_of_int gz) (kRuleSalt + of_nat (pru_flat pr));
         (jx, rng) = next_index (nat (spacing + 1)) rng; (jz, rng) = next_index (nat (spacing + 1)) rng;
         (keep_roll, rng) = next01 N rng; (variant_roll, rng) = next01 N rng;
         (rotation, rng) = (if plr_rotate r then next_index 4 rng else (0, rng)) in
     \<lparr>ar_x = gx * cell + int jx, ar_z = gz * cell + int jz, ar_keep = keep_roll, ar_variant = variant_roll,
      ar_rotation = rotation, ar_mirror = (plr_mirror r \<and> fst (next_index 2 rng) = 1)\<rparr>)"

definition keep_chance :: "noise_ops \<Rightarrow> u64 \<Rightarrow> placed_rule \<Rightarrow> int \<Rightarrow> int \<Rightarrow> f64" where
  "keep_chance N seed pr ax az = (
     let F = no_floats N; r = pru_rule pr; cell = f_of_int N (2 * rule_spacing r);
         keep = fo_div F (fo_mul F (fo_mul F (plr_spawn_rate r) cell) cell) (f_of_int N 1024);
         n = value2 N (seed XOR (kRuleSalt + of_nat (pru_flat pr))) (fo_mul F (f_of_int N ax) kClusterScale)
               (fo_mul F (f_of_int N az) kClusterScale) in
     if fo_lt F f_zero (plr_cluster r)
     then fo_mul F keep (fo_add F (fo_sub F f_one (plr_cluster r)) (fo_mul F (fo_mul F (plr_cluster r) f_two) n))
     else keep)"

fun pick_variant :: "float_ops \<Rightarrow> f64 \<Rightarrow> nat \<Rightarrow> structure_variant list \<Rightarrow> nat" where
  "pick_variant F target i [] = 0"
| "pick_variant F target i [v] = i"
| "pick_variant F target i (v # w # vs) = (let target = fo_sub F target (stv_weight v) in
     if fo_lt F target f_zero then i else pick_variant F target (Suc i) (w # vs))"

text \<open>The columns a variant has a cell in, as offsets from the anchor.\<close>

definition footprint :: "structure_def \<Rightarrow> structure_variant \<Rightarrow> (int \<times> int) list" where
  "footprint d v = (let sx = sint (iv_x (stv_size v)); sy = sint (iv_y (stv_size v)); sz = sint (iv_z (stv_size v)) in
     concat (map (\<lambda>cz. map (\<lambda>cx. (cx - sint (iv_x (sdf_anchor d)), cz - sint (iv_z (sdf_anchor d))))
       (filter (\<lambda>cx. list_ex (\<lambda>cy. cell_at v cx cy cz \<noteq> kKeepBlock) [0..sy - 1]) [0..sx - 1])) [0..sz - 1]))"

definition slope_ok :: "noise_ops \<Rightarrow> world_generator \<Rightarrow> placement_rule \<Rightarrow> structure_def \<Rightarrow> structure_variant \<Rightarrow> anchor_roll \<Rightarrow> int \<Rightarrow> bool" where
  "slope_ok N g r d v a height = (
     plr_max_slope r \<ge> kNoSlopeLimit \<or>
     (let fp = footprint d v; stride = max 1 ((length fp + kMaxSlopeSamples - 1) div kMaxSlopeSamples);
          hs = map (\<lambda>i. let (tx, tz) = transform_offset (fst (fp ! i)) (snd (fp ! i)) (ar_rotation a) (ar_mirror a) in
                 surface_height N g (ar_x a + tx) (ar_z a + tz)) (filter (\<lambda>i. i mod stride = 0) [0..<length fp]);
          (lo, hi) = fold (\<lambda>h (lo, hi). (min lo h, max hi h)) hs (height, height) in
      hi - lo \<le> plr_max_slope r))"

text \<open>Whether a structure stands on the anchor, and which.\<close>

definition place_anchor :: "noise_ops \<Rightarrow> world_generator \<Rightarrow> gen_pipeline \<Rightarrow> placed_rule \<Rightarrow> anchor_roll \<Rightarrow> structure_placement option" where
  "place_anchor N g pipe pr a = (
     let F = no_floats N; r = pru_rule pr; d = pru_def pr; ax = ar_x a; az = ar_z a;
         col = column_at N g pipe ax az; height = gc_height col; ground = pregen_block N g pipe col ax height az;
         total = fold (\<lambda>v t. fo_add F t (stv_weight v)) (sdf_variants d) f_zero;
         variant = pick_variant F (fo_mul F (ar_variant a) total) 0 (sdf_variants d) in
     if fo_le F (keep_chance N (gp_seed (wg_params g)) pr ax az) (ar_keep a) then None
     else if gc_biome col \<noteq> pru_biome pr then None
     else if height < pp_sea_level pipe \<or> height < plr_y_min r \<or> height > plr_y_max r then None
     else if (if plr_on r = [] then ground = kAir \<or> ground = wg_water g else ground \<notin> set (plr_on r)) then None
     else if pregen_block N g pipe col ax (height + 1) az \<noteq> kAir then None
     else if \<not> slope_ok N g r d (sdf_variants d ! variant) a height then None
     else Some \<lparr>spl_x = ax, spl_z = az, spl_ground_y = height, spl_biome = pru_biome pr, spl_rule = pru_index pr,
       spl_variant = variant, spl_rotation = ar_rotation a, spl_mirror = ar_mirror a\<rparr>)"

type_synonym area = "int \<times> int \<times> int \<times> int"

fun in_window :: "area \<Rightarrow> int \<Rightarrow> int \<Rightarrow> bool" where
  "in_window (x0, z0, x1, z1) x z \<longleftrightarrow> \<not> (x < x0 \<or> x > x1 \<or> z < z0 \<or> z > z1)"

definition place_cell :: "noise_ops \<Rightarrow> world_generator \<Rightarrow> gen_pipeline \<Rightarrow> area \<Rightarrow> placed_rule \<Rightarrow> int \<Rightarrow> int \<Rightarrow> structure_placement list" where
  "place_cell N g pipe w pr gz gx = (let a = roll_anchor N (gp_seed (wg_params g)) pr gx gz in
     if \<not> in_window w (ar_x a) (ar_z a) then []
     else case place_anchor N g pipe pr a of None \<Rightarrow> [] | Some p \<Rightarrow> [p])"

text \<open>The rules that can place anything.\<close>

definition placed_rules :: "noise_ops \<Rightarrow> gen_pipeline \<Rightarrow> placed_rule list" where
  "placed_rules N pipe = (
     let biomes = min (length (pp_decoration pipe)) (length (bs_biomes (pp_biomes pipe)));
         all = concat (map (\<lambda>b. map (\<lambda>ri. (b, ri, pp_decoration pipe ! b ! ri)) [0..<length (pp_decoration pipe ! b)]) [0..<biomes]) in
     List.map_filter (\<lambda>(flat, b, ri, r).
       if unat (plr_structure r) \<ge> length (pp_structures pipe) \<or> fo_le (no_floats N) (plr_spawn_rate r) f_zero then None
       else let d = pp_structures pipe ! unat (plr_structure r) in
         if sdf_variants d = [] then None
         else Some \<lparr>pru_biome = b, pru_index = ri, pru_flat = flat, pru_rule = r, pru_def = d\<rparr>)
       (zip [0..<length all] all))"

definition placement_key :: "structure_placement \<Rightarrow> int \<times> int \<times> nat \<times> nat" where
  "placement_key p = (spl_x p, spl_z p, spl_biome p, spl_rule p)"

text \<open>The placements of one rule, row by row of the grid.\<close>

definition rule_placements :: "noise_ops \<Rightarrow> world_generator \<Rightarrow> gen_pipeline \<Rightarrow> area \<Rightarrow> placed_rule \<Rightarrow> structure_placement list" where
  "rule_placements N g pipe w pr = (case w of (x0, z0, x1, z1) \<Rightarrow>
     let spacing = rule_spacing (pru_rule pr); cell = 2 * spacing in
     concat (map (\<lambda>gz. concat (map (place_cell N g pipe w pr gz) [cpp_floor_div (x0 - spacing) cell..cpp_floor_div x1 cell]))
       [cpp_floor_div (z0 - spacing) cell..cpp_floor_div z1 cell]))"

definition structure_placements :: "noise_ops \<Rightarrow> world_generator \<Rightarrow> area \<Rightarrow> structure_placement list" where
  "structure_placements N g w = (case (wg_pipeline g, w) of
       (None, _) \<Rightarrow> []
     | (Some pipe, x0, z0, x1, z1) \<Rightarrow>
         if bs_biomes (pp_biomes pipe) = [] \<or> x0 > x1 \<or> z0 > z1 then []
         else sort_key placement_key (concat (map (rule_placements N g pipe w) (placed_rules N pipe))))"

section \<open>Stamping\<close>

text \<open>The cells of a variant, layer by layer.\<close>

definition cells_of :: "structure_variant \<Rightarrow> (int \<times> int \<times> int) list" where
  "cells_of v = concat (map (\<lambda>cy. concat (map (\<lambda>cz. map (\<lambda>cx. (cx, cy, cz)) [0..sint (iv_x (stv_size v)) - 1])
     [0..sint (iv_z (stv_size v)) - 1])) [0..sint (iv_y (stv_size v)) - 1])"

definition stamp_cell :: "gen_pipeline \<Rightarrow> int \<times> int \<times> int \<Rightarrow> placement_rule \<Rightarrow> structure_def \<Rightarrow> structure_variant \<Rightarrow>
    structure_placement \<Rightarrow> int \<times> int \<times> int \<Rightarrow> paletted_store \<Rightarrow> paletted_store" where
  "stamp_cell pipe o' r d v p c blocks = (case (o', c) of ((ox, oy, oz), (cx, cy, cz)) \<Rightarrow>
     let ly = spl_ground_y p + 1 - sint (iv_y (sdf_anchor d)) + cy - oy; cell = cell_at v cx cy cz;
         (tx, tz) = transform_offset (cx - sint (iv_x (sdf_anchor d))) (cz - sint (iv_z (sdf_anchor d))) (spl_rotation p) (spl_mirror p);
         lx = spl_x p + tx - ox; lz = spl_z p + tz - oz; i = index_of (nat lx) (nat ly) (nat lz) in
     if \<not> in_axis ly \<or> cell = kKeepBlock \<or> \<not> in_axis lx \<or> \<not> in_axis lz then blocks
     else if cell \<noteq> kAir \<and> \<not> (plr_replace r = kReplaceAll \<or> ps_get blocks i = kAir \<or>
         (plr_replace r = kReplaceAirAndPlants \<and> is_replaceable pipe (ps_get blocks i))) then blocks
     else snd (ps_set i cell blocks))"

definition stamp_placement :: "gen_pipeline \<Rightarrow> int \<times> int \<times> int \<Rightarrow> structure_placement \<Rightarrow> paletted_store \<Rightarrow> paletted_store" where
  "stamp_placement pipe o' p blocks = (
     let r = pp_decoration pipe ! spl_biome p ! spl_rule p; d = pp_structures pipe ! unat (plr_structure r);
         v = sdf_variants d ! spl_variant p; base_y = spl_ground_y p + 1 - sint (iv_y (sdf_anchor d)); oy = fst (snd o') in
     if base_y + sint (iv_y (stv_size v)) - 1 < oy \<or> base_y > oy + kChunkDim - 1 then blocks
     else fold (stamp_cell pipe o' r d v p) (cells_of v) blocks)"

definition max_radius :: "gen_pipeline \<Rightarrow> int" where
  "max_radius pipe = fold (\<lambda>r m. if unat (plr_structure r) < length (pp_structures pipe)
       then max m (sdf_radius_xz (pp_structures pipe ! unat (plr_structure r))) else m) (concat (pp_decoration pipe)) 0"

text \<open>The window of a chunk, widened on every side.\<close>

definition reach_window :: "int \<times> int \<times> int \<Rightarrow> int \<Rightarrow> area" where
  "reach_window o' r = (case o' of (ox, oy, oz) \<Rightarrow> (ox - r, oz - r, ox + kChunkDim - 1 + r, oz + kChunkDim - 1 + r))"

definition stamp_structures :: "noise_ops \<Rightarrow> world_generator \<Rightarrow> chunk_coord \<Rightarrow> paletted_store \<Rightarrow> paletted_store" where
  "stamp_structures N g c blocks = (case wg_pipeline g of
       None \<Rightarrow> blocks
     | Some pipe \<Rightarrow>
         if bs_biomes (pp_biomes pipe) = [] then blocks
         else fold (stamp_placement pipe (origin_of c)) (structure_placements N g (reach_window (origin_of c) (max_radius pipe))) blocks)"

section \<open>A generated chunk\<close>

definition generate_chunk :: "noise_ops \<Rightarrow> world_generator \<Rightarrow> chunk \<Rightarrow> chunk" where
  "generate_chunk N g ch = (
     let c = ch_coord ch; blocks = terrain_pass N g c (ch_blocks ch);
         blocks = (case wg_pipeline g of
             None \<Rightarrow> blocks
           | Some pipe \<Rightarrow>
               let seed = hash3 (gp_seed (wg_params g)) (scast (cc_x c)) (scast (cc_y c)) (scast (cc_z c)) in
               stamp_structures N g c
                 (fold (vein_pass N seed (fst (snd (origin_of c)))) (zip [0..<length (pp_veins pipe)] (pp_veins pipe)) blocks)) in
     ch\<lparr>ch_blocks := blocks, ch_dirty := \<lparr>df_terrain = True, df_light = True, df_mesh = True\<rparr>, ch_gen_state := kGenerated\<rparr>)"

section \<open>Where a player first stands\<close>

text \<open>The chunks are generated once each and kept, which changes nothing of what they hold.\<close>

definition generated_at :: "noise_ops \<Rightarrow> world_generator \<Rightarrow> int \<Rightarrow> int \<Rightarrow> int \<Rightarrow> block_id" where
  "generated_at N g x y z = (
     let v = \<lparr>iv_x = word_of_int x, iv_y = word_of_int y, iv_z = word_of_int z\<rparr>; l = local_of v in
     chunk_get (generate_chunk N g (new_chunk (chunk_of v))) (index_of (unat (iv_x l)) (unat (iv_y l)) (unat (iv_z l))))"

definition standable :: "noise_ops \<Rightarrow> world_generator \<Rightarrow> int \<Rightarrow> int \<Rightarrow> int \<Rightarrow> bool" where
  "standable N g x z surface \<longleftrightarrow> generated_at N g x surface z \<noteq> kAir \<and>
     generated_at N g x (surface + 1) z = kAir \<and> generated_at N g x (surface + 2) z = kAir"

primrec search_columns :: "noise_ops \<Rightarrow> world_generator \<Rightarrow> (int \<times> int) list \<Rightarrow> (int \<times> int \<times> int) option \<Rightarrow>
    (int \<times> int \<times> int) option \<times> (int \<times> int \<times> int) option" where
  "search_columns N g [] dry_land = (None, dry_land)"
| "search_columns N g (c # cs) dry_land = (case c of (x, z) \<Rightarrow>
     let surface = surface_height N g x z in
     if surface \<le> gen_sea_level g then search_columns N g cs dry_land
     else
       let dry_land = (case dry_land of None \<Rightarrow> Some (x, surface, z) | Some d \<Rightarrow> Some d) in
       if standable N g x z surface then (Some (x, surface, z), dry_land) else search_columns N g cs dry_land)"

definition ring :: "int \<Rightarrow> int \<Rightarrow> int \<Rightarrow> (int \<times> int) list" where
  "ring sx sz r = filter (\<lambda>(x, z). \<not> (x \<noteq> sx - r \<and> x \<noteq> sx + r \<and> z \<noteq> sz - r \<and> z \<noteq> sz + r))
     (List.product [sx - r..sx + r] [sz - r..sz + r])"

definition kMaxRing :: int where "kMaxRing = 256"

definition spawn_spot :: "noise_ops \<Rightarrow> world_generator \<Rightarrow> int \<Rightarrow> int \<Rightarrow> int \<times> int \<times> int" where
  "spawn_spot N g sx sz = (case search_columns N g ((sx, sz) # concat (map (ring sx sz) [1..kMaxRing])) None of
       (Some spot, _) \<Rightarrow> spot
     | (None, Some dry_land) \<Rightarrow> dry_land
     | (None, None) \<Rightarrow> (sx, surface_height N g sx sz, sz))"

definition default_spawn_position :: "noise_ops \<Rightarrow> world_generator \<Rightarrow> int \<Rightarrow> int \<Rightarrow> vec3d" where
  "default_spawn_position N g sx sz = (let F = no_floats N in case spawn_spot N g sx sz of (x, y, z) \<Rightarrow>
     \<lparr>vd_x = fo_add F (f_of_int N x) f_half, vd_y = fo_add F (f_of_int N y) f_one, vd_z = fo_add F (f_of_int N z) f_half\<rparr>)"

section \<open>The terrain is what anchors are checked against\<close>

lemma fill_column_is:
  assumes "store_inv st" and "lx < 32" and "lz < 32"
  shows "store_inv (fill_column block oy lx lz st)"
    and "x < 32 \<Longrightarrow> y < 32 \<Longrightarrow> z < 32 \<Longrightarrow> ps_get (fill_column block oy lx lz st) (index_of x y z) =
      (if x = lx \<and> z = lz \<and> block (oy + int y) \<noteq> kAir then block (oy + int y) else ps_get st (index_of x y z))"
proof -
  have *: "store_inv (fold (\<lambda>ly st. let b = block (oy + int ly) in
       if b \<noteq> kAir then snd (ps_set (index_of lx ly lz) b st) else st) ys st) \<and>
     (\<forall>x y z. x < 32 \<longrightarrow> y < 32 \<longrightarrow> z < 32 \<longrightarrow> ps_get (fold (\<lambda>ly st. let b = block (oy + int ly) in
       if b \<noteq> kAir then snd (ps_set (index_of lx ly lz) b st) else st) ys st) (index_of x y z) =
      (if x = lx \<and> z = lz \<and> y \<in> set ys \<and> block (oy + int y) \<noteq> kAir then block (oy + int y) else ps_get st (index_of x y z)))"
    if "store_inv st" "\<forall>y \<in> set ys. y < 32" for ys st
    using that
  proof (induction ys arbitrary: st)
    case (Cons ly ys)
    let ?b = "block (oy + int ly)"
    let ?st = "if ?b \<noteq> kAir then snd (ps_set (index_of lx ly lz) ?b st) else st"
    have i: "index_of lx ly lz < kChunkVolume" using Cons.prems(2) assms(2, 3) by (intro index_of_bound) auto
    have inv: "store_inv ?st" using Cons.prems(1) set_ok(1) [OF Cons.prems(1) i] by simp
    have one: "ps_get ?st (index_of x y z) = (if x = lx \<and> z = lz \<and> y = ly \<and> ?b \<noteq> kAir then ?b else ps_get st (index_of x y z))"
      if "x < 32" "y < 32" "z < 32" for x y z
      using set_ok(2) [OF Cons.prems(1) i index_of_bound [OF that], of ?b] index_of_inject [of x z lx lz y ly] that assms(2, 3)
      by auto
    show ?case using Cons.IH [OF inv] Cons.prems(2) one by (auto simp: Let_def)
  qed simp
  show "store_inv (fill_column block oy lx lz st)" unfolding fill_column_def using * [OF assms(1), of "[0..<32]"] by auto
  show "ps_get (fill_column block oy lx lz st) (index_of x y z) =
      (if x = lx \<and> z = lz \<and> block (oy + int y) \<noteq> kAir then block (oy + int y) else ps_get st (index_of x y z))"
    if "x < 32" "y < 32" "z < 32"
    unfolding fill_column_def using * [OF assms(1), of "[0..<32]"] that by auto
qed

lemma terrain_is_pregen:
  assumes "x < 32" and "y < 32" and "z < 32" and o': "origin_of c = (ox, oy, oz)"
  shows "ps_get (terrain_pass N g c (new_store kAir)) (index_of x y z) = block_at_pregen N g (ox + int x) (oy + int y) (oz + int z)"
proof -
  let ?col = "\<lambda>lz lx. case wg_pipeline g of None \<Rightarrow> fixed_block g (surface_height N g (ox + int lx) (oz + int lz))
    | Some pipe \<Rightarrow> \<lambda>y. pregen_block N g pipe (column_at N g pipe (ox + int lx) (oz + int lz)) (ox + int lx) y (oz + int lz)"
  let ?step = "\<lambda>(lz, lx) st. fill_column (?col lz lx) oy lx lz st"
  have *: "store_inv (fold ?step ps st) \<and> (\<forall>x y z. x < 32 \<longrightarrow> y < 32 \<longrightarrow> z < 32 \<longrightarrow>
      ps_get (fold ?step ps st) (index_of x y z) =
      (if (z, x) \<in> set ps \<and> ?col z x (oy + int y) \<noteq> kAir then ?col z x (oy + int y) else ps_get st (index_of x y z)))"
    if "store_inv st" "\<forall>(lz, lx) \<in> set ps. lz < 32 \<and> lx < 32" for ps st
    using that
  proof (induction ps arbitrary: st)
    case (Cons p ps)
    obtain lz lx where p: "p = (lz, lx)" by (cases p)
    have b: "lz < 32" "lx < 32" using Cons.prems(2) p by auto
    note fc = fill_column_is [OF Cons.prems(1) b(2, 1), where block = "?col lz lx" and oy = oy]
    show ?case using Cons.IH [OF fc(1)] Cons.prems(2) fc(2) by (auto simp: p)
  qed simp
  have "terrain_pass N g c (new_store kAir) = fold ?step (List.product [0..<32] [0..<32]) (new_store kAir)"
    by (cases "wg_pipeline g") (simp_all add: terrain_pass_def o' Let_def)
  moreover have "\<forall>(lz, lx) \<in> set (List.product [0..<32] [0..<32 :: nat]). lz < (32 :: nat) \<and> lx < 32" by auto
  moreover have "?col z x (oy + int y) = block_at_pregen N g (ox + int x) (oy + int y) (oz + int z)"
    by (simp add: block_at_pregen_def split: option.split)
  ultimately show ?thesis using * [OF new_store_ok(1), of "List.product [0..<32] [0..<32]"] assms(1-3)
      new_store_ok(2) [OF index_of_bound [OF assms(1-3)], of kAir]
    by auto
qed

section \<open>A window sees what a larger one sees\<close>

definition rules_ok :: "gen_pipeline \<Rightarrow> bool" where
  "rules_ok pipe \<longleftrightarrow> (\<forall>rs \<in> set (pp_decoration pipe). \<forall>r \<in> set rs. plr_min_spacing r < 2 ^ 31)"

lemma cpp_floor_div_pos: "0 < b \<Longrightarrow> cpp_floor_div a b = a div b"
proof -
  assume b: "0 < b"
  have "(a smod b < 0) = (a < 0)" if "a smod b \<noteq> 0"
  proof (cases "a < 0")
    case True
    have "0 \<le> (- a) mod b" using b by (rule pos_mod_sign)
    then show ?thesis using True b that by (simp add: signed_modulo_int_def less_le)
  next
    case False
    have "0 \<le> a mod b" using b by (rule pos_mod_sign)
    then show ?thesis using False b that by (auto simp: signed_modulo_int_def sgn_if not_less)
  qed
  then have "cpp_floor_div a b = floor_div a b"
    using b by (auto simp: cpp_floor_div_def floor_div_def Let_def)
  then show ?thesis by (simp add: floor_div_pos b)
qed

lemma anchor_in_cell:
  assumes "plr_min_spacing (pru_rule pr) < 2 ^ 31"
  shows "gx * (2 * rule_spacing (pru_rule pr)) \<le> ar_x (roll_anchor N seed pr gx gz)"
    and "ar_x (roll_anchor N seed pr gx gz) \<le> gx * (2 * rule_spacing (pru_rule pr)) + rule_spacing (pru_rule pr)"
    and "gz * (2 * rule_spacing (pru_rule pr)) \<le> ar_z (roll_anchor N seed pr gx gz)"
    and "ar_z (roll_anchor N seed pr gx gz) \<le> gz * (2 * rule_spacing (pru_rule pr)) + rule_spacing (pru_rule pr)"
proof -
  have n: "0 < nat (rule_spacing (pru_rule pr) + 1)" "nat (rule_spacing (pru_rule pr) + 1) < 2 ^ 64"
    using assms by (auto simp: rule_spacing_def)
  have j: "int (fst (next_index (nat (rule_spacing (pru_rule pr) + 1)) st)) \<le> rule_spacing (pru_rule pr)" for st
    using next_index_less [OF n, of st] by linarith
  show "gx * (2 * rule_spacing (pru_rule pr)) \<le> ar_x (roll_anchor N seed pr gx gz)"
    and "ar_x (roll_anchor N seed pr gx gz) \<le> gx * (2 * rule_spacing (pru_rule pr)) + rule_spacing (pru_rule pr)"
    and "gz * (2 * rule_spacing (pru_rule pr)) \<le> ar_z (roll_anchor N seed pr gx gz)"
    and "ar_z (roll_anchor N seed pr gx gz) \<le> gz * (2 * rule_spacing (pru_rule pr)) + rule_spacing (pru_rule pr)"
    using j by (simp_all add: roll_anchor_def Let_def case_prod_unfold)
qed

lemma spacing_pos: "0 < rule_spacing r"
  by (simp add: rule_spacing_def)

lemma cell_range:
  assumes "0 < (s :: int)" and "x0 \<le> a" and "a \<le> x1" and "k * (2 * s) \<le> a" and "a \<le> k * (2 * s) + s"
  shows "(x0 - s) div (2 * s) \<le> k" and "k \<le> x1 div (2 * s)"
proof -
  have "(x0 - s) div (2 * s) \<le> (k * (2 * s)) div (2 * s)" using assms by (intro zdiv_mono1) auto
  then show "(x0 - s) div (2 * s) \<le> k" using assms(1) by simp
  have "(k * (2 * s)) div (2 * s) \<le> x1 div (2 * s)" using assms by (intro zdiv_mono1) auto
  then show "k \<le> x1 div (2 * s)" using assms(1) by simp
qed

lemma place_anchor_at:
  "place_anchor N g pipe pr a = Some p \<Longrightarrow> spl_x p = ar_x a \<and> spl_z p = ar_z a \<and> spl_biome p = pru_biome pr \<and>
    spl_rule p = pru_index pr"
  by (auto simp: place_anchor_def Let_def split: if_splits)

definition inside :: "area \<Rightarrow> area \<Rightarrow> bool" where
  "inside w w' \<longleftrightarrow> (case (w, w') of ((x0, z0, x1, z1), (x0', z0', x1', z1')) \<Rightarrow> x0' \<le> x0 \<and> z0' \<le> z0 \<and> x1 \<le> x1' \<and> z1 \<le> z1')"

lemma inside_window: "inside w w' \<Longrightarrow> in_window w x z \<Longrightarrow> in_window w' x z"
  by (cases w; cases w') (auto simp: inside_def)

lemma place_cell_filter:
  "inside w w' \<Longrightarrow> filter (\<lambda>p. in_window w (spl_x p) (spl_z p)) (place_cell N g pipe w' pr gz gx) = place_cell N g pipe w pr gz gx"
  by (auto simp: place_cell_def Let_def place_anchor_at dest: inside_window split: option.split)

lemma filter_upto: "a' \<le> a \<Longrightarrow> b \<le> b' \<Longrightarrow> filter (\<lambda>k. a \<le> k \<and> k \<le> b) [a'..b'] = [a..b :: int]"
  by (intro sorted_distinct_set_unique) (auto simp: sorted_wrt_filter)

lemma concat_map_filter: "(\<And>k. k \<in> set ks \<Longrightarrow> \<not> P k \<Longrightarrow> f k = []) \<Longrightarrow> concat (map f ks) = concat (map f (filter P ks))"
  by (induction ks) auto

lemma concat_map_upto:
  assumes "a' \<le> a" and "b \<le> b'" and "\<And>k. k < a \<or> b < k \<Longrightarrow> f k = []"
  shows "concat (map f [a'..b']) = concat (map f [a..b :: int])"
  unfolding filter_upto [OF assms(1, 2), symmetric] by (rule concat_map_filter) (use assms(3) in auto)

lemma filter_concat_map: "filter P (concat (map f ks)) = concat (map (\<lambda>k. filter P (f k)) ks)"
  by (simp add: filter_concat comp_def)

lemma rule_window:
  assumes "plr_min_spacing (pru_rule pr) < 2 ^ 31" and "inside w w'"
  shows "filter (\<lambda>p. in_window w (spl_x p) (spl_z p)) (rule_placements N g pipe w' pr) = rule_placements N g pipe w pr"
proof -
  obtain x0 z0 x1 z1 x0' z0' x1' z1' where w: "w = (x0, z0, x1, z1)" "w' = (x0', z0', x1', z1')" by (cases w; cases w') blast
  let ?s = "rule_spacing (pru_rule pr)"
  have b: "x0' \<le> x0" "z0' \<le> z0" "x1 \<le> x1'" "z1 \<le> z1'" using assms(2) by (auto simp: inside_def w)
  have d: "cpp_floor_div k (2 * ?s) = k div (2 * ?s)" for k using spacing_pos by (intro cpp_floor_div_pos) auto
  note a = anchor_in_cell [OF assms(1)]
  have x: "place_cell N g pipe w pr gz gx = []" if out: "gx < (x0 - ?s) div (2 * ?s) \<or> x1 div (2 * ?s) < gx" for gx gz
  proof -
    let ?a = "ar_x (roll_anchor N (gp_seed (wg_params g)) pr gx gz)"
    have "\<not> (x0 \<le> ?a \<and> ?a \<le> x1)"
      using cell_range [OF spacing_pos _ _ a(1, 2) [where N = N and seed = "gp_seed (wg_params g)" and gx = gx and gz = gz], of x0 x1] out by linarith
    then show ?thesis by (auto simp: place_cell_def Let_def w)
  qed
  have z: "place_cell N g pipe w pr gz gx = []" if out: "gz < (z0 - ?s) div (2 * ?s) \<or> z1 div (2 * ?s) < gz" for gx gz
  proof -
    let ?a = "ar_z (roll_anchor N (gp_seed (wg_params g)) pr gx gz)"
    have "\<not> (z0 \<le> ?a \<and> ?a \<le> z1)"
      using cell_range [OF spacing_pos _ _ a(3, 4) [where N = N and seed = "gp_seed (wg_params g)" and gx = gx and gz = gz], of z0 z1] out by linarith
    then show ?thesis by (auto simp: place_cell_def Let_def w)
  qed
  have mono: "(k - ?s) div (2 * ?s) \<le> (l - ?s) div (2 * ?s)" "k div (2 * ?s) \<le> l div (2 * ?s)" if "k \<le> l" for k l
    using that spacing_pos [of "pru_rule pr"] by (auto intro: zdiv_mono1)
  have row: "concat (map (place_cell N g pipe w pr gz) [(x0' - ?s) div (2 * ?s)..x1' div (2 * ?s)]) =
      concat (map (place_cell N g pipe w pr gz) [(x0 - ?s) div (2 * ?s)..x1 div (2 * ?s)])" for gz
    by (rule concat_map_upto) (use mono b x in auto)
  have "concat (map (\<lambda>gz. concat (map (place_cell N g pipe w pr gz) [(x0 - ?s) div (2 * ?s)..x1 div (2 * ?s)]))
      [(z0' - ?s) div (2 * ?s)..z1' div (2 * ?s)]) =
    concat (map (\<lambda>gz. concat (map (place_cell N g pipe w pr gz) [(x0 - ?s) div (2 * ?s)..x1 div (2 * ?s)]))
      [(z0 - ?s) div (2 * ?s)..z1 div (2 * ?s)])"
    by (rule concat_map_upto) (use mono b z in auto)
  then show ?thesis
    unfolding rule_placements_def Let_def d w prod.case filter_concat_map place_cell_filter [OF assms(2) [unfolded w]]
    by (simp only: w [symmetric] row)
qed

lemma placed_rule_from:
  assumes "pr \<in> set (placed_rules N pipe)"
  shows "pru_biome pr < length (pp_decoration pipe)" "pru_index pr < length (pp_decoration pipe ! pru_biome pr)"
    and "pru_rule pr = pp_decoration pipe ! pru_biome pr ! pru_index pr"
    and "unat (plr_structure (pru_rule pr)) < length (pp_structures pipe)"
    and "pru_def pr = pp_structures pipe ! unat (plr_structure (pru_rule pr))" "sdf_variants (pru_def pr) \<noteq> []"
  using assms by (auto simp: placed_rules_def Let_def map_filter_def split: if_splits dest!: set_zip_rightD)

text \<open>A narrower window has exactly the placements of a wider one that lie in it, in the same order.\<close>

lemma placements_window:
  assumes "\<And>pipe. wg_pipeline g = Some pipe \<Longrightarrow> rules_ok pipe" and "x0' \<le> x0" and "z0' \<le> z0" and "x1 \<le> x1'" and "z1 \<le> z1'"
    and "x0 \<le> x1" and "z0 \<le> z1"
  shows "structure_placements N g (x0, z0, x1, z1) =
    filter (\<lambda>p. in_window (x0, z0, x1, z1) (spl_x p) (spl_z p)) (structure_placements N g (x0', z0', x1', z1'))"
proof (cases "wg_pipeline g")
  case (Some pipe)
  let ?w = "(x0, z0, x1, z1)" and ?w' = "(x0', z0', x1', z1')"
  have i: "inside ?w ?w'" using assms(2-5) by (simp add: inside_def)
  have r: "filter (\<lambda>p. in_window ?w (spl_x p) (spl_z p)) (rule_placements N g pipe ?w' pr) = rule_placements N g pipe ?w pr"
    if "pr \<in> set (placed_rules N pipe)" for pr
  proof (rule rule_window [OF _ i])
    show "plr_min_spacing (pru_rule pr) < 2 ^ 31"
      using assms(1) [OF Some, unfolded rules_ok_def, rule_format, OF nth_mem nth_mem, OF placed_rule_from(1, 2) [OF that]]
        placed_rule_from(3) [OF that] by simp
  qed
  show ?thesis using assms(2-7) r
    by (auto simp: structure_placements_def Some filter_sort filter_concat_map intro!: arg_cong [where f = "sort_key placement_key"]
        arg_cong [where f = concat])
qed (simp add: structure_placements_def)

section \<open>A chunk needs no neighbour\<close>

definition structures_ok :: "gen_pipeline \<Rightarrow> bool" where
  "structures_ok pipe \<longleftrightarrow> (\<forall>d \<in> set (pp_structures pipe). structure_ok d)"

lemma pick_variant_less: "vs \<noteq> [] \<Longrightarrow> pick_variant F t i vs < i + length vs"
  by (induction F t i vs rule: pick_variant.induct) (auto simp: Let_def)

lemma placed_in_cell:
  assumes "p \<in> set (structure_placements N g w)" and "wg_pipeline g = Some pipe"
  shows "\<exists>pr \<in> set (placed_rules N pipe). \<exists>gx gz. place_anchor N g pipe pr (roll_anchor N (gp_seed (wg_params g)) pr gx gz) = Some p"
proof -
  obtain x0 z0 x1 z1 where w: "w = (x0, z0, x1, z1)" by (cases w) blast
  obtain pr gz gx where pr: "pr \<in> set (placed_rules N pipe)" and p: "p \<in> set (place_cell N g pipe w pr gz gx)"
    using assms by (auto simp: structure_placements_def rule_placements_def Let_def w split: if_splits)
  then have "place_anchor N g pipe pr (roll_anchor N (gp_seed (wg_params g)) pr gx gz) = Some p"
    by (auto simp: place_cell_def Let_def split: if_splits option.splits)
  then show ?thesis using pr by blast
qed

lemma placed_by:
  assumes "p \<in> set (structure_placements N g w)" and "wg_pipeline g = Some pipe"
  shows "\<exists>pr \<in> set (placed_rules N pipe). \<exists>a. place_anchor N g pipe pr a = Some p"
  using placed_in_cell [OF assms] by blast

lemma place_anchor_variant:
  "place_anchor N g pipe pr a = Some p \<Longrightarrow> sdf_variants (pru_def pr) \<noteq> [] \<Longrightarrow> spl_variant p < length (sdf_variants (pru_def pr))"
  using pick_variant_less [of "sdf_variants (pru_def pr)" _ _ 0] by (auto simp: place_anchor_def Let_def split: if_splits)

lemma max_radius_step:
  "(m :: int) \<le> fold (\<lambda>r m. if P r then max m (f r) else m) rs m \<and> (\<forall>r \<in> set rs. P r \<longrightarrow> f r \<le> fold (\<lambda>r m. if P r then max m (f r) else m) rs m)"
proof (induction rs arbitrary: m)
  case (Cons r rs)
  show ?case using Cons [of "if P r then max m (f r) else m"] by (auto split: if_splits)
qed simp

lemma radius_le_max:
  assumes "b < length (pp_decoration pipe)" and "i < length (pp_decoration pipe ! b)"
    and "unat (plr_structure (pp_decoration pipe ! b ! i)) < length (pp_structures pipe)"
  shows "sdf_radius_xz (pp_structures pipe ! unat (plr_structure (pp_decoration pipe ! b ! i))) \<le> max_radius pipe"
proof -
  have "pp_decoration pipe ! b ! i \<in> set (concat (pp_decoration pipe))"
    using assms(1, 2) by (auto intro!: bexI [of _ "pp_decoration pipe ! b"])
  then show ?thesis
    using max_radius_step [of 0 "\<lambda>r. unat (plr_structure r) < length (pp_structures pipe)"
        "\<lambda>r. sdf_radius_xz (pp_structures pipe ! unat (plr_structure r))" "concat (pp_decoration pipe)"] assms(3)
    unfolding max_radius_def by blast
qed

lemma stamp_far:
  assumes "p \<in> set (structure_placements N g w)" and "wg_pipeline g = Some pipe" and "structures_ok pipe"
    and "\<not> in_window (reach_window o' (max_radius pipe)) (spl_x p) (spl_z p)"
  shows "stamp_placement pipe o' p blocks = blocks"
proof -
  obtain pr a where pr: "pr \<in> set (placed_rules N pipe)" and a: "place_anchor N g pipe pr a = Some p" using placed_by [OF assms(1, 2)] by blast
  note pfr = placed_rule_from [OF pr]
  note at = place_anchor_at [OF a]
  let ?d = "pru_def pr"
  let ?v = "sdf_variants ?d ! spl_variant p"
  obtain ox oy oz where o': "o' = (ox, oy, oz)" by (cases o') blast
  have v: "?v \<in> set (sdf_variants ?d)" using place_anchor_variant [OF a pfr(6)] by simp
  have ok: "structure_ok ?d" using assms(3) pfr(4, 5) by (simp add: structures_ok_def)
  have radius: "sdf_radius_xz ?d \<le> max_radius pipe" using radius_le_max [OF pfr(1, 2)] pfr(3-5) by simp
  have cell: "stamp_cell pipe o' r ?d ?v p c b = b" if cin: "c \<in> set (cells_of ?v)" for r c b
  proof -
    obtain cx cy cz where c: "c = (cx, cy, cz)" "0 \<le> cx" "cx < sint (iv_x (stv_size ?v))" "0 \<le> cz" "cz < sint (iv_z (stv_size ?v))"
      using cin by (auto simp: cells_of_def)
    let ?t = "transform_offset (cx - sint (iv_x (sdf_anchor ?d))) (cz - sint (iv_z (sdf_anchor ?d))) (spl_rotation p) (spl_mirror p)"
    have near: "\<bar>fst ?t\<bar> \<le> max_radius pipe" "\<bar>snd ?t\<bar> \<le> max_radius pipe"
      using cell_within_radius [OF ok v c(2-5), of "spl_rotation p" "spl_mirror p"] radius by linarith+
    have "\<not> in_axis (spl_x p + fst ?t - ox) \<or> \<not> in_axis (spl_z p + snd ?t - oz)"
      using near assms(4) unfolding o' reach_window_def in_axis_def prod.case in_window.simps by arith
    then show ?thesis by (auto simp: stamp_cell_def c(1) o' Let_def case_prod_unfold)
  qed
  have "fold (stamp_cell pipe o' r ?d ?v p) cs b = b" if "set cs \<subseteq> set (cells_of ?v)" for r cs b
    using that by (induction cs) (auto simp: cell)
  then show ?thesis using at pfr(3, 5) by (simp add: stamp_placement_def Let_def)
qed

text \<open>However wide the window a chunk looks at beyond the reach of its structures, it is stamped the same.\<close>

lemma stamp_any_window:
  assumes pipe: "wg_pipeline g = Some pipe" and "structures_ok pipe" and "rules_ok pipe" and "bs_biomes (pp_biomes pipe) \<noteq> []"
    and "max_radius pipe \<le> r"
  shows "fold (stamp_placement pipe (origin_of c)) (structure_placements N g (reach_window (origin_of c) r)) blocks =
    stamp_structures N g c blocks"
proof -
  obtain ox oy oz where o': "origin_of c = (ox, oy, oz)" by (cases "origin_of c") blast
  let ?R = "max_radius pipe"
  have "0 \<le> ?R" unfolding max_radius_def by (rule max_radius_step [THEN conjunct1])
  have "structure_placements N g (reach_window (ox, oy, oz) ?R) =
      filter (\<lambda>p. in_window (reach_window (ox, oy, oz) ?R) (spl_x p) (spl_z p)) (structure_placements N g (reach_window (ox, oy, oz) r))"
    unfolding reach_window_def prod.case
  proof (rule placements_window)
    show "rules_ok pipe'" if "wg_pipeline g = Some pipe'" for pipe' using that pipe assms(3) by simp
  qed (use \<open>0 \<le> ?R\<close> assms(5) in \<open>simp_all add: kChunkDim_def\<close>)
  moreover have "fold (stamp_placement pipe (ox, oy, oz)) (filter (\<lambda>p. in_window (reach_window (ox, oy, oz) ?R) (spl_x p) (spl_z p)) ps) b =
      fold (stamp_placement pipe (ox, oy, oz)) ps b" if "set ps \<subseteq> set (structure_placements N g (reach_window (ox, oy, oz) r))" for ps b
    using that
  proof (induction ps arbitrary: b)
    case (Cons p ps)
    have "stamp_placement pipe (ox, oy, oz) p b = b" if "\<not> in_window (reach_window (ox, oy, oz) ?R) (spl_x p) (spl_z p)" for b
    proof (rule stamp_far [OF _ pipe assms(2) that])
      show "p \<in> set (structure_placements N g (reach_window (ox, oy, oz) r))" using Cons.prems by simp
    qed
    then show ?case using Cons by auto
  qed simp
  ultimately show ?thesis using pipe assms(4) by (simp add: stamp_structures_def o')
qed

section \<open>A player starts on land\<close>

definition dry :: "noise_ops \<Rightarrow> world_generator \<Rightarrow> int \<times> int \<Rightarrow> bool" where
  "dry N g c \<longleftrightarrow> gen_sea_level g < surface_height N g (fst c) (snd c)"

definition spot_of :: "noise_ops \<Rightarrow> world_generator \<Rightarrow> int \<times> int \<Rightarrow> int \<times> int \<times> int" where
  "spot_of N g c = (fst c, surface_height N g (fst c) (snd c), snd c)"

definition good_column :: "noise_ops \<Rightarrow> world_generator \<Rightarrow> int \<times> int \<Rightarrow> bool" where
  "good_column N g c \<longleftrightarrow> dry N g c \<and> standable N g (fst c) (snd c) (surface_height N g (fst c) (snd c))"

lemma search_columns_is:
  "fst (search_columns N g cs d) = map_option (spot_of N g) (find (good_column N g) cs) \<and>
   (find (good_column N g) cs = None \<longrightarrow> snd (search_columns N g cs d) =
      (case d of Some x \<Rightarrow> Some x | None \<Rightarrow> map_option (spot_of N g) (find (dry N g) cs)))"
  by (induction cs arbitrary: d)
    (auto simp: Let_def good_column_def dry_def spot_of_def split: option.splits prod.splits)

text \<open>The columns that are looked at: the starting one and everything around it up to the widest ring.\<close>

definition spawn_columns :: "int \<Rightarrow> int \<Rightarrow> (int \<times> int) list" where
  "spawn_columns sx sz = (sx, sz) # concat (map (ring sx sz) [1..kMaxRing])"

lemma spawn_columns_square:
  "set (spawn_columns sx sz) = {sx - kMaxRing..sx + kMaxRing} \<times> {sz - kMaxRing..sz + kMaxRing}"
proof -
  have in_ring: "(x, z) \<in> set (ring sx sz r) \<longleftrightarrow> max \<bar>x - sx\<bar> \<bar>z - sz\<bar> = r" if "0 < r" for x z r
    using that by (simp add: ring_def) arith
  have "(x, z) \<in> set (spawn_columns sx sz) \<longleftrightarrow> max \<bar>x - sx\<bar> \<bar>z - sz\<bar> \<le> kMaxRing" for x z
  proof -
    have "(x, z) \<in> set (spawn_columns sx sz) \<longleftrightarrow> (x, z) = (sx, sz) \<or> (\<exists>r \<in> {1..kMaxRing}. (x, z) \<in> set (ring sx sz r))"
      by (simp add: spawn_columns_def)
    also have "\<dots> \<longleftrightarrow> (x, z) = (sx, sz) \<or> (\<exists>r \<in> {1..kMaxRing}. max \<bar>x - sx\<bar> \<bar>z - sz\<bar> = r)"
      by (auto simp: in_ring)
    also have "\<dots> \<longleftrightarrow> max \<bar>x - sx\<bar> \<bar>z - sz\<bar> \<le> kMaxRing" by (auto simp: kMaxRing_def)
    finally show ?thesis .
  qed
  then show ?thesis by (auto simp: set_eq_iff)
qed

lemma spawn_spot_is:
  "spawn_spot N g sx sz = spot_of N g (case find (good_column N g) (spawn_columns sx sz) of
     Some c \<Rightarrow> c
   | None \<Rightarrow> (case find (dry N g) (spawn_columns sx sz) of Some c \<Rightarrow> c | None \<Rightarrow> (sx, sz)))"
proof -
  let ?r = "search_columns N g (spawn_columns sx sz) None"
  have r: "spawn_spot N g sx sz = (case ?r of (Some spot, _) \<Rightarrow> spot | (None, Some dry_land) \<Rightarrow> dry_land
     | (None, None) \<Rightarrow> (sx, surface_height N g sx sz, sz))"
    unfolding spawn_spot_def spawn_columns_def by (rule refl)
  obtain a b where ab: "?r = (a, b)" by (cases ?r)
  then show ?thesis using search_columns_is [of N g "spawn_columns sx sz" None]
    unfolding r by (auto simp: spot_of_def split: option.splits)
qed

text \<open>Rings come in order of their distance, so what is found first is nearest.\<close>

definition far :: "int \<Rightarrow> int \<Rightarrow> int \<times> int \<Rightarrow> int" where
  "far sx sz c = max \<bar>fst c - sx\<bar> \<bar>snd c - sz\<bar>"

lemma ring_far: "0 < r \<Longrightarrow> c \<in> set (ring sx sz r) \<longleftrightarrow> far sx sz c = r"
  by (cases c; simp add: ring_def far_def) arith

lemma rings_sorted: "0 < a \<Longrightarrow> sorted (map (far sx sz) (concat (map (ring sx sz) [a..b])))"
proof (induction "nat (b + 1 - a)" arbitrary: a)
  case (Suc n)
  have split: "[a..b] = a # [a + 1..b]" using Suc.hyps(2) by (intro upto_rec1) simp
  have first: "map (far sx sz) (ring sx sz a) = replicate (length (ring sx sz a)) a"
    using ring_far [OF Suc.prems] by (intro replicate_eqI) auto
  have "\<forall>x \<in> set (concat (map (ring sx sz) [a + 1..b])). a \<le> far sx sz x" using Suc.prems by (auto simp: ring_far)
  moreover have "sorted (map (far sx sz) (concat (map (ring sx sz) [a + 1..b])))" using Suc by simp
  ultimately show ?case unfolding split by (simp add: sorted_append first)
qed simp

lemma spawn_columns_sorted: "sorted (map (far sx sz) (spawn_columns sx sz))"
  using rings_sorted [of 1 sx sz kMaxRing] by (auto simp: spawn_columns_def far_def)

lemma find_first: "find P xs = Some x \<Longrightarrow> sorted (map f xs) \<Longrightarrow> x \<in> set xs \<and> P x \<and> (\<forall>y \<in> set xs. P y \<longrightarrow> f x \<le> f y)"
  by (induction xs) (auto split: if_splits)

lemma spawn_found:
  assumes "spawn_spot N g sx sz = (x, y, z)"
  shows "y = surface_height N g x z" and "far sx sz (x, z) \<le> kMaxRing"
    and "far sx sz c \<le> kMaxRing \<Longrightarrow> good_column N g c \<Longrightarrow> good_column N g (x, z) \<and> far sx sz (x, z) \<le> far sx sz c"
    and "far sx sz c \<le> kMaxRing \<Longrightarrow> dry N g c \<Longrightarrow> dry N g (x, z)"
proof -
  let ?cs = "spawn_columns sx sz"
  have inn: "c \<in> set ?cs \<longleftrightarrow> far sx sz c \<le> kMaxRing" for c
    unfolding spawn_columns_square by (cases c) (auto simp: far_def)
  have start: "(sx, sz) \<in> set ?cs" by (simp add: spawn_columns_def)
  note good = find_first [where f = "far sx sz", OF _ spawn_columns_sorted]
  obtain c' where c': "(x, y, z) = spot_of N g c'" "c' = (case find (good_column N g) ?cs of Some c \<Rightarrow> c
     | None \<Rightarrow> (case find (dry N g) ?cs of Some c \<Rightarrow> c | None \<Rightarrow> (sx, sz)))"
    using spawn_spot_is [of N g sx sz] assms by simp
  have xz: "c' = (x, z)" and y: "y = surface_height N g x z" using c'(1) by (cases c'; simp add: spot_of_def)+
  show "y = surface_height N g x z" by (rule y)
  have "c' \<in> set ?cs" using start unfolding c'(2) by (auto split: option.split dest: good)
  then show "far sx sz (x, z) \<le> kMaxRing" by (simp add: inn xz)
  show "good_column N g (x, z) \<and> far sx sz (x, z) \<le> far sx sz c" if near: "far sx sz c \<le> kMaxRing" and gc: "good_column N g c"
  proof -
    have "c \<in> set ?cs" using near inn by blast
    then obtain d where d: "find (good_column N g) ?cs = Some d" using gc by (cases "find (good_column N g) ?cs") (metis find_None_iff, metis)
    then have "d = (x, z)" using c'(2) xz by simp
    then show ?thesis using good [OF d] gc \<open>c \<in> set ?cs\<close> by blast
  qed
  show "dry N g (x, z)" if near: "far sx sz c \<le> kMaxRing" and dc: "dry N g c"
  proof (cases "find (good_column N g) ?cs")
    case None
    have "c \<in> set ?cs" using near inn by blast
    then obtain d where d: "find (dry N g) ?cs = Some d" using dc by (cases "find (dry N g) ?cs") (metis find_None_iff, metis)
    then have "d = (x, z)" using None c'(2) xz by simp
    then show ?thesis using good [OF d] by blast
  next
    case (Some d)
    then have "d = (x, z)" using c'(2) xz by simp
    then show ?thesis using good [OF Some] by (simp add: good_column_def)
  qed
qed

section \<open>Structures keep their distance\<close>

lemma placed_rule_inject:
  assumes "pr \<in> set (placed_rules N pipe)" and "pr' \<in> set (placed_rules N pipe)"
    and "pru_biome pr = pru_biome pr'" and "pru_index pr = pru_index pr'"
  shows "pr = pr'"
proof -
  let ?f = "\<lambda>b. map (\<lambda>ri. (b, ri, pp_decoration pipe ! b ! ri)) [0..<length (pp_decoration pipe ! b)]"
  define al where "al = concat (map ?f [0..<min (length (pp_decoration pipe)) (length (bs_biomes (pp_biomes pipe)))])"
  have all: "snd (snd x) = pp_decoration pipe ! fst x ! fst (snd x)" if "x \<in> set al" for x using that by (auto simp: al_def)
  have "distinct (concat (map ?f ks))" if "distinct ks" for ks
    using that by (induction ks) (auto simp: distinct_map inj_on_def)
  then have d: "distinct al" by (simp add: al_def)
  have from_all: "\<exists>i < length al. al ! i = (pru_biome q, pru_index q, pru_rule q) \<and> pru_flat q = i \<and>
      pru_def q = pp_structures pipe ! unat (plr_structure (pru_rule q))" if "q \<in> set (placed_rules N pipe)" for q
    using that unfolding placed_rules_def Let_def al_def [symmetric]
    by (auto simp: map_filter_def set_zip split: if_splits)
  obtain i where i: "i < length al" "al ! i = (pru_biome pr, pru_index pr, pru_rule pr)" "pru_flat pr = i"
    "pru_def pr = pp_structures pipe ! unat (plr_structure (pru_rule pr))" using from_all [OF assms(1)] by blast
  obtain j where j: "j < length al" "al ! j = (pru_biome pr', pru_index pr', pru_rule pr')" "pru_flat pr' = j"
    "pru_def pr' = pp_structures pipe ! unat (plr_structure (pru_rule pr'))" using from_all [OF assms(2)] by blast
  have "pru_rule pr = pru_rule pr'" using all [OF nth_mem [OF i(1)]] all [OF nth_mem [OF j(1)]] assms(3, 4) unfolding i(2) j(2) by simp
  then have "al ! i = al ! j" using i(2) j(2) assms(3, 4) by simp
  then have "i = j" using nth_eq_iff_index_eq [OF d i(1) j(1)] by blast
  then show ?thesis using i j assms(3, 4) by simp
qed

lemma cells_apart:
  assumes "g \<noteq> (g' :: int)" and "0 < s" and "g * (2 * s) \<le> a" and "a \<le> g * (2 * s) + s"
    and "g' * (2 * s) \<le> a'" and "a' \<le> g' * (2 * s) + s"
  shows "s \<le> \<bar>a - a'\<bar>"
proof (cases "g < g'")
  case True
  then have "(g + 1) * (2 * s) \<le> g' * (2 * s)" using assms(2) by (intro mult_right_mono) auto
  then show ?thesis using assms by (simp add: algebra_simps)
next
  case False
  then have "(g' + 1) * (2 * s) \<le> g * (2 * s)" using assms(1, 2) by (intro mult_right_mono) auto
  then show ?thesis using assms by (simp add: algebra_simps)
qed

lemma placements_spaced:
  assumes "wg_pipeline g = Some pipe" and "rules_ok pipe"
    and "p \<in> set (structure_placements N g w)" and "q \<in> set (structure_placements N g w)" and "p \<noteq> q"
    and "spl_biome p = spl_biome q" and "spl_rule p = spl_rule q"
  shows "rule_spacing (pp_decoration pipe ! spl_biome p ! spl_rule p) \<le> max \<bar>spl_x p - spl_x q\<bar> \<bar>spl_z p - spl_z q\<bar>"
proof -
  let ?a = "roll_anchor N (gp_seed (wg_params g))"
  obtain pr gx gz where pr: "pr \<in> set (placed_rules N pipe)" and p: "place_anchor N g pipe pr (?a pr gx gz) = Some p"
    using placed_in_cell [OF assms(3, 1)] by blast
  obtain pr' hx hz where pr': "pr' \<in> set (placed_rules N pipe)" and q: "place_anchor N g pipe pr' (?a pr' hx hz) = Some q"
    using placed_in_cell [OF assms(4, 1)] by blast
  note at = place_anchor_at [OF p] and at' = place_anchor_at [OF q]
  have same: "pr' = pr" using placed_rule_inject [OF pr' pr] at at' assms(6, 7) by simp
  have rule: "pru_rule pr = pp_decoration pipe ! spl_biome p ! spl_rule p" using placed_rule_from(3) [OF pr] at by simp
  have "plr_min_spacing (pru_rule pr) < 2 ^ 31"
    using assms(2) [unfolded rules_ok_def, rule_format, OF nth_mem nth_mem, OF placed_rule_from(1, 2) [OF pr]]
      placed_rule_from(3) [OF pr] by simp
  note b = anchor_in_cell [OF this, where N = N and seed = "gp_seed (wg_params g)"]
  consider "gx \<noteq> hx" | "gz \<noteq> hz" using p q assms(5) unfolding same by fastforce
  then show ?thesis
  proof cases
    case 1
    show ?thesis using cells_apart [OF 1 spacing_pos b(1, 2) b(1, 2), of gz hz] at at' unfolding same rule [symmetric] by auto
  next
    case 2
    show ?thesis using cells_apart [OF 2 spacing_pos b(3, 4) b(3, 4), of gx hx] at at' unfolding same rule [symmetric] by auto
  qed
qed

section \<open>Without a pack the terrain is all there is\<close>

lemma generated_blocks:
  assumes "x < 32" and "y < 32" and "z < 32" and "origin_of c = (ox, oy, oz)" and "wg_pipeline g = None"
  shows "chunk_get (generate_chunk N g (new_chunk c)) (index_of x y z) = block_at_pregen N g (ox + int x) (oy + int y) (oz + int z)"
  using terrain_is_pregen [OF assms(1-4), of N g] assms(5)
  by (simp add: generate_chunk_def Let_def chunk_get_def new_chunk_def)

end
