(* ===== verification/Generation_Examples.thy ===== *)
theory Generation_Examples
  imports Structure_Placement
begin

text \<open>
  Two generators to try the theorems of world generation on: one without a pack, whose ground is flat at
  height 100, and one with a pack of a single biome and a single structure of one block.
\<close>

section \<open>Flat ground without a pack\<close>

definition plain_generator :: world_generator where
  "plain_generator = \<lparr>wg_params = default_gen_params\<lparr>gp_base_height := 100, gp_amplitude := 0\<rparr>, wg_stone = 11, wg_dirt = 12,
     wg_grass = 13, wg_sand = 14, wg_water = 15, wg_pipeline = None\<rparr>"

lemma plain_no_pack: "wg_pipeline plain_generator = None"
  by (simp add: plain_generator_def)

lemma plain_height: "surface_height integer_noise plain_generator x z = 100"
  by (simp add: surface_height_def plain_generator_def Let_def integer_noise_def integer_ops_def)

lemma plain_block: "y \<in> {100, 101, 102} \<Longrightarrow> generated_at integer_noise plain_generator 0 y 0 = (if y = 100 then 13 else kAir)"
proof -
  assume y: "y \<in> {100, 101, 102}"
  have "chunk_get (generate_chunk integer_noise plain_generator (new_chunk \<lparr>cc_x = 0, cc_y = 3, cc_z = 0\<rparr>)) (index_of 0 k 0) =
      block_at_pregen integer_noise plain_generator (0 + int 0) (96 + int k) (0 + int 0)" if "k < 32" for k
    by (rule generated_blocks) (use that in \<open>simp_all add: origin_of_def chunk_origin_def kChunkDim_def plain_generator_def\<close>)
  moreover have "block_at_pregen integer_noise plain_generator a h c =
      fixed_block plain_generator 100 h" for a h c
    by (simp add: block_at_pregen_def plain_height plain_no_pack)
  ultimately have b: "chunk_get (generate_chunk integer_noise plain_generator (new_chunk \<lparr>cc_x = 0, cc_y = 3, cc_z = 0\<rparr>)) (index_of 0 k 0) =
      fixed_block plain_generator 100 (96 + int k)" if "k < 32" for k using that by simp
  have at: "generated_at integer_noise plain_generator 0 y 0 =
      chunk_get (generate_chunk integer_noise plain_generator (new_chunk \<lparr>cc_x = 0, cc_y = 3, cc_z = 0\<rparr>)) (index_of 0 (nat (y - 96)) 0)"
    using y by (auto simp: generated_at_def Let_def chunk_of_def local_of_def floor_div_def floor_mod_def kChunkDim_def)
  have "fixed_block plain_generator 100 y = (if y = 100 then 13 else kAir)"
    using y by (auto simp: fixed_block_def plain_generator_def default_gen_params_def)
  then show ?thesis using y unfolding at by (auto simp: b)
qed

lemma plain_good: "good_column integer_noise plain_generator (0, 0)"
  by (simp add: good_column_def dry_def standable_def plain_height plain_block gen_sea_level_def)
    (simp add: plain_generator_def default_gen_params_def kAir_def)

section \<open>A pack with a structure\<close>

definition demo_structure :: structure_def where
  "demo_structure = \<lparr>sdf_name = [], sdf_anchor = \<lparr>iv_x = 0, iv_y = 0, iv_z = 0\<rparr>,
     sdf_variants = [\<lparr>stv_size = \<lparr>iv_x = 1, iv_y = 1, iv_z = 1\<rparr>, stv_cells = [9], stv_weight = 1\<rparr>], sdf_radius_xz = 0\<rparr>"

definition demo_rule :: placement_rule where
  "demo_rule = \<lparr>plr_structure = 0, plr_spawn_rate = 1024, plr_on = [], plr_replace = kReplaceAll, plr_rotate = True, plr_mirror = True,
     plr_min_spacing = 4, plr_max_slope = kNoSlopeLimit, plr_y_min = 0, plr_y_max = 255, plr_cluster = 0\<rparr>"

definition demo_biomes :: biome_selector where
  "demo_biomes = \<lparr>bs_seed = 0, bs_cell_size = 100, bs_biomes = [\<lparr>be_name = [], be_probability = 1, be_surface = 3, be_filler = 4,
     be_stone = 5, be_adjacency = []\<rparr>]\<rparr>"

definition demo_pipeline :: gen_pipeline where
  "demo_pipeline = \<lparr>pp_height_field = (\<lambda>_ _. 100), pp_sea_level = 62, pp_soil_depth = 4, pp_beach = kAir, pp_biomes = demo_biomes,
     pp_carvers = [], pp_veins = [], pp_structures = [demo_structure], pp_decoration = [[demo_rule]], pp_replaceable = []\<rparr>"

definition demo_generator :: world_generator where
  "demo_generator = plain_generator\<lparr>wg_pipeline := Some demo_pipeline\<rparr>"

lemma demo_generator_pipeline: "wg_pipeline demo_generator = Some demo_pipeline"
  by (simp add: demo_generator_def)

lemma demo_structures_ok: "structures_ok demo_pipeline"
  by (auto simp: structures_ok_def demo_pipeline_def demo_structure_def structure_ok_def structure_radius_def dim_ok_def
    kMaxStructureDim_def intro!: exI [of _ "\<lparr>iv_x = 1, iv_y = 1, iv_z = 1\<rparr>"])

lemma demo_rules_ok: "rules_ok demo_pipeline"
  by (simp add: rules_ok_def demo_pipeline_def demo_rule_def)

definition demo_placed :: placed_rule where
  "demo_placed = \<lparr>pru_biome = 0, pru_index = 0, pru_flat = 0, pru_rule = demo_rule, pru_def = demo_structure\<rparr>"

lemma demo_placed_rules: "placed_rules integer_noise demo_pipeline = [demo_placed]"
  by (simp add: placed_rules_def Let_def demo_pipeline_def demo_biomes_def map_filter_def demo_rule_def demo_structure_def
    demo_placed_def integer_noise_def integer_ops_def f_zero_def)

lemma demo_biome: "resolve_biome integer_noise demo_biomes x z = 0"
proof -
  have "bs_biomes demo_biomes \<noteq> []" by (simp add: demo_biomes_def)
  from biome_resolved [OF this, of integer_noise x z] biome_of_less [OF this, of integer_noise "bs_seed demo_biomes"]
  show ?thesis by (simp add: demo_biomes_def)
qed

text \<open>A structure stands in every cell of the grid.\<close>

lemma demo_roll: "ar_keep (roll_anchor integer_noise s demo_placed gx gz) = 0"
  by (simp add: roll_anchor_def Let_def case_prod_unfold next01_def to_unit_def integer_noise_def integer_ops_def)

lemma demo_place:
  "\<exists>p. place_anchor integer_noise demo_generator demo_pipeline demo_placed (roll_anchor integer_noise s demo_placed gx gz) = Some p \<and>
    spl_biome p = 0 \<and> spl_rule p = 0"
proof -
  let ?a = "roll_anchor integer_noise s demo_placed gx gz"
  have keep: "\<not> fo_le (no_floats integer_noise) (keep_chance integer_noise t demo_placed x z) (ar_keep ?a)" for t x z
    unfolding demo_roll
    by (simp add: keep_chance_def Let_def demo_placed_def demo_rule_def rule_spacing_def integer_noise_def integer_ops_def
      f_of_int_def f_zero_def signed_divide_int_def)
  have col: "column_at integer_noise demo_generator demo_pipeline x z =
      \<lparr>gc_height = 100, gc_biome = 0, gc_surface = 3, gc_filler = 4, gc_stone = 5\<rparr>" for x z
    by (simp add: column_at_def Let_def demo_biome demo_pipeline_def)
      (simp add: demo_biomes_def kAir_def integer_noise_def integer_ops_def)
  show ?thesis
    by (simp add: place_anchor_def Let_def keep col)
      (simp add: demo_placed_def demo_rule_def demo_pipeline_def pregen_block_def Let_def kAir_def slope_ok_def
        demo_generator_def plain_generator_def)
qed

lemma demo_placements:
  "\<exists>p q. p \<in> set (structure_placements integer_noise demo_generator (0, 0, 30, 30)) \<and>
     q \<in> set (structure_placements integer_noise demo_generator (0, 0, 30, 30)) \<and> p \<noteq> q \<and>
     spl_biome p = 0 \<and> spl_biome q = 0 \<and> spl_rule p = 0 \<and> spl_rule q = 0"
proof -
  let ?roll = "roll_anchor integer_noise (gp_seed (wg_params demo_generator)) demo_placed"
  have s: "rule_spacing (pru_rule demo_placed) = 4" "plr_min_spacing (pru_rule demo_placed) < 2 ^ 31"
    by (simp_all add: demo_placed_def demo_rule_def rule_spacing_def)
  note b = anchor_in_cell [OF s(2), where N = integer_noise and seed = "gp_seed (wg_params demo_generator)", unfolded s(1)]
  have inside: "p \<in> set (structure_placements integer_noise demo_generator (0, 0, 30, 30))"
    if p: "place_anchor integer_noise demo_generator demo_pipeline demo_placed (?roll k 0) = Some p" and k: "k \<in> {0, 1}" for p k
  proof -
    have w: "in_window (0, 0, 30, 30) (ar_x (?roll k 0)) (ar_z (?roll k 0))" using b [of k 0] b [of 0 k] k by auto
    have "p \<in> set (place_cell integer_noise demo_generator demo_pipeline (0, 0, 30, 30) demo_placed 0 k)"
      using w p by (simp add: place_cell_def Let_def)
    moreover have "k \<in> {cpp_floor_div (0 - 4) 8..cpp_floor_div 30 8}" "0 \<in> {cpp_floor_div (0 - 4) 8..cpp_floor_div 30 8}"
      using k by (auto simp: cpp_floor_div_pos)
    ultimately have "p \<in> set (rule_placements integer_noise demo_generator demo_pipeline (0, 0, 30, 30) demo_placed)"
      unfolding rule_placements_def Let_def s(1) prod.case by (simp only: set_concat set_map set_upto UN_iff bex_simps mult_2 numeral_plus_numeral add_num_simps) blast
    then show ?thesis by (simp add: structure_placements_def demo_generator_pipeline demo_placed_rules)
      (simp add: demo_pipeline_def demo_biomes_def)
  qed
  obtain p where p: "place_anchor integer_noise demo_generator demo_pipeline demo_placed (?roll 0 0) = Some p" "spl_biome p = 0" "spl_rule p = 0"
    using demo_place by blast
  obtain q where q: "place_anchor integer_noise demo_generator demo_pipeline demo_placed (?roll 1 0) = Some q" "spl_biome q = 0" "spl_rule q = 0"
    using demo_place by blast
  have "spl_x p \<noteq> spl_x q" using place_anchor_at [OF p(1)] place_anchor_at [OF q(1)] b(2) [of 0 0] b(1) [of 1 0] by auto
  then show ?thesis using inside [OF p(1)] inside [OF q(1)] p q by blast
qed

end
