(* ===== verification/Editor_Document.thy ===== *)
theory Editor_Document
  imports Structure_Defs World_Noise
begin

text \<open>
  \<open>editor/volume.hpp\<close>, \<open>structure_doc.hpp\<close>, \<open>commands.hpp\<close>, \<open>commands.cpp\<close> and \<open>shapes.hpp\<close>: the
  structure that is edited, the commands that change it, the stack that undoes them, and the shapes the tools
  share. Cell positions are unbounded integers, the \<open>int\<close> of the code as far as it does not overflow.
\<close>

section \<open>Volumes\<close>

type_synonym cell_pos = "int \<times> int \<times> int"

definition kKeepCell :: u16 where "kKeepCell = 0"

record volume =
  vol_size :: cell_pos
  vol_cells :: "u16 list"

definition volume_of :: "cell_pos \<Rightarrow> nat" where
  "volume_of s = (case s of (x, y, z) \<Rightarrow> if x \<le> 0 \<or> y \<le> 0 \<or> z \<le> 0 then 0 else nat x * nat y * nat z)"

definition new_volume :: "cell_pos \<Rightarrow> volume" where
  "new_volume s = \<lparr>vol_size = s, vol_cells = replicate (volume_of s) kKeepCell\<rparr>"

definition vol_inside :: "volume \<Rightarrow> cell_pos \<Rightarrow> bool" where
  "vol_inside v p \<longleftrightarrow> (case (p, vol_size v) of ((x, y, z), (sx, sy, sz)) \<Rightarrow> x \<ge> 0 \<and> y \<ge> 0 \<and> z \<ge> 0 \<and> x < sx \<and> y < sy \<and> z < sz)"

definition vol_index :: "volume \<Rightarrow> cell_pos \<Rightarrow> nat" where
  "vol_index v p = (case (p, vol_size v) of ((x, y, z), (sx, sy, sz)) \<Rightarrow> nat ((y * sz + z) * sx + x))"

definition vol_get :: "volume \<Rightarrow> cell_pos \<Rightarrow> u16" where
  "vol_get v p = (if vol_inside v p then vol_cells v ! vol_index v p else kKeepCell)"

definition vol_set :: "cell_pos \<Rightarrow> u16 \<Rightarrow> volume \<Rightarrow> bool \<times> volume" where
  "vol_set p c v = (if \<not> vol_inside v p then (False, v) else (True, v\<lparr>vol_cells := (vol_cells v)[vol_index v p := c]\<rparr>))"

text \<open>Every position of a box between two corners, the first axis fastest.\<close>

definition grid_positions :: "cell_pos \<Rightarrow> cell_pos \<Rightarrow> cell_pos list" where
  "grid_positions lo hi = (case (lo, hi) of ((x0, y0, z0), (x1, y1, z1)) \<Rightarrow>
     concat (map (\<lambda>y. concat (map (\<lambda>z. map (\<lambda>x. (x, y, z)) [x0..x1]) [z0..z1])) [y0..y1]))"

definition all_cells :: "volume \<Rightarrow> cell_pos list" where
  "all_cells v = (case vol_size v of (sx, sy, sz) \<Rightarrow> grid_positions (0, 0, 0) (sx - 1, sy - 1, sz - 1))"

definition shifted :: "cell_pos \<Rightarrow> cell_pos \<Rightarrow> cell_pos" where
  "shifted d p = (case (d, p) of ((dx, dy, dz), (x, y, z)) \<Rightarrow> (x + dx, y + dy, z + dz))"

definition resized :: "cell_pos \<Rightarrow> cell_pos \<Rightarrow> volume \<Rightarrow> volume" where
  "resized new_size shift v = fold (\<lambda>p out. snd (vol_set (shifted shift p) (vol_get v p) out)) (all_cells v) (new_volume new_size)"

section \<open>The document\<close>

record name_entry =
  ne_name :: bstring
  ne_key :: byte
  ne_keep_unused :: bool

fun name_find :: "bstring \<Rightarrow> nat \<Rightarrow> name_entry list \<Rightarrow> nat option" where
  "name_find n i [] = None"
| "name_find n i (e # es) = (if ne_name e = n then Some (Suc i) else name_find n (Suc i) es)"

definition intern_name :: "bstring \<Rightarrow> name_entry list \<Rightarrow> u16 \<times> name_entry list" where
  "intern_name n es = (case name_find n 0 es of
       Some c \<Rightarrow> (of_nat c, es)
     | None \<Rightarrow> (of_nat (Suc (length es)), es @ [\<lparr>ne_name = n, ne_key = 0, ne_keep_unused = False\<rparr>]))"

definition name_of :: "u16 \<Rightarrow> name_entry list \<Rightarrow> bstring" where
  "name_of c es = ne_name (es ! (unat c - 1))"

record doc_variant =
  dv_volume :: volume
  dv_weight :: f64

record structure_doc =
  doc_name :: bstring
  doc_anchor :: cell_pos
  doc_placement :: placement_spec
  doc_variants :: "doc_variant list"
  doc_names :: "name_entry list"
  doc_keep_key :: byte

definition create_doc :: "bstring \<Rightarrow> cell_pos \<Rightarrow> cell_pos \<Rightarrow> structure_doc" where
  "create_doc n s anchor = \<lparr>doc_name = n, doc_anchor = anchor, doc_placement = empty_placement,
     doc_variants = [\<lparr>dv_volume = new_volume s, dv_weight = f_one\<rparr>], doc_names = [], doc_keep_key = 46\<rparr>"

definition doc_size :: "structure_doc \<Rightarrow> cell_pos" where
  "doc_size doc = (case doc_variants doc of [] \<Rightarrow> (0, 0, 0) | v # _ \<Rightarrow> vol_size (dv_volume v))"

section \<open>Commands\<close>

record cell_change =
  chg_variant :: nat
  chg_pos :: cell_pos
  chg_before :: u16
  chg_after :: u16

datatype edit_command =
  Cell_Edits bstring "cell_change list"
| Volume_Replace bstring "volume list" cell_pos "volume list" cell_pos
| Variants_Replace bstring "doc_variant list" "doc_variant list"
| Placement_Replace placement_spec placement_spec

fun command_label :: "edit_command \<Rightarrow> bstring" where
  "command_label (Cell_Edits l _) = l"
| "command_label (Volume_Replace l _ _ _ _) = l"
| "command_label (Variants_Replace l _ _) = l"
| "command_label (Placement_Replace _ _) = lit ''placement''"

definition set_cell :: "nat \<Rightarrow> cell_pos \<Rightarrow> u16 \<Rightarrow> structure_doc \<Rightarrow> structure_doc" where
  "set_cell i p c doc = (if i < length (doc_variants doc)
     then doc\<lparr>doc_variants := (doc_variants doc)[i := (doc_variants doc ! i)\<lparr>dv_volume := snd (vol_set p c (dv_volume (doc_variants doc ! i)))\<rparr>]\<rparr>
     else doc)"

text \<open>As many volumes as there are of both.\<close>

fun replace_volumes :: "volume list \<Rightarrow> doc_variant list \<Rightarrow> doc_variant list" where
  "replace_volumes (v # vs) (d # ds) = d\<lparr>dv_volume := v\<rparr> # replace_volumes vs ds"
| "replace_volumes _ ds = ds"

definition set_volumes :: "volume list \<Rightarrow> cell_pos \<Rightarrow> structure_doc \<Rightarrow> structure_doc" where
  "set_volumes vs anchor doc = doc\<lparr>doc_variants := replace_volumes vs (doc_variants doc), doc_anchor := anchor\<rparr>"

fun apply_command :: "edit_command \<Rightarrow> structure_doc \<Rightarrow> structure_doc" where
  "apply_command (Cell_Edits _ cs) doc = fold (\<lambda>c. set_cell (chg_variant c) (chg_pos c) (chg_after c)) cs doc"
| "apply_command (Volume_Replace _ _ _ after anchor) doc = set_volumes after anchor doc"
| "apply_command (Variants_Replace _ _ after) doc = doc\<lparr>doc_variants := after\<rparr>"
| "apply_command (Placement_Replace _ after) doc = doc\<lparr>doc_placement := after\<rparr>"

fun revert_command :: "edit_command \<Rightarrow> structure_doc \<Rightarrow> structure_doc" where
  "revert_command (Cell_Edits _ cs) doc = fold (\<lambda>c. set_cell (chg_variant c) (chg_pos c) (chg_before c)) (rev cs) doc"
| "revert_command (Volume_Replace _ before anchor _ _) doc = set_volumes before anchor doc"
| "revert_command (Variants_Replace _ before _) doc = doc\<lparr>doc_variants := before\<rparr>"
| "revert_command (Placement_Replace before _) doc = doc\<lparr>doc_placement := before\<rparr>"

section \<open>The undo stack\<close>

record undo_stack =
  us_commands :: "edit_command list"
  us_next :: nat
  us_saved :: nat
  us_saved_valid :: bool

definition new_stack :: undo_stack where
  "new_stack = \<lparr>us_commands = [], us_next = 0, us_saved = 0, us_saved_valid = True\<rparr>"

definition us_push :: "edit_command \<Rightarrow> undo_stack \<Rightarrow> structure_doc \<Rightarrow> undo_stack \<times> structure_doc" where
  "us_push c st doc = (
     \<lparr>us_commands = take (us_next st) (us_commands st) @ [c], us_next = us_next st + 1, us_saved = us_saved st,
      us_saved_valid = (us_saved_valid st \<and> \<not> us_saved st > us_next st)\<rparr>,
     apply_command c doc)"

definition can_undo :: "undo_stack \<Rightarrow> bool" where
  "can_undo st \<longleftrightarrow> us_next st > 0"

definition can_redo :: "undo_stack \<Rightarrow> bool" where
  "can_redo st \<longleftrightarrow> us_next st < length (us_commands st)"

definition us_undo :: "undo_stack \<Rightarrow> structure_doc \<Rightarrow> bool \<times> undo_stack \<times> structure_doc" where
  "us_undo st doc = (
     if \<not> can_undo st then (False, st, doc)
     else (True, st\<lparr>us_next := us_next st - 1\<rparr>, revert_command (us_commands st ! (us_next st - 1)) doc))"

definition us_redo :: "undo_stack \<Rightarrow> structure_doc \<Rightarrow> bool \<times> undo_stack \<times> structure_doc" where
  "us_redo st doc = (
     if \<not> can_redo st then (False, st, doc)
     else (True, st\<lparr>us_next := us_next st + 1\<rparr>, apply_command (us_commands st ! us_next st) doc))"

definition undo_label :: "undo_stack \<Rightarrow> bstring" where
  "undo_label st = (if can_undo st then command_label (us_commands st ! (us_next st - 1)) else [])"

definition redo_label :: "undo_stack \<Rightarrow> bstring" where
  "redo_label st = (if can_redo st then command_label (us_commands st ! us_next st) else [])"

definition us_mark_saved :: "undo_stack \<Rightarrow> undo_stack" where
  "us_mark_saved st = st\<lparr>us_saved := us_next st, us_saved_valid := True\<rparr>"

definition us_dirty :: "undo_stack \<Rightarrow> bool" where
  "us_dirty st = (if \<not> us_saved_valid st then us_next st \<noteq> 0 else us_next st \<noteq> us_saved st)"

section \<open>Shapes\<close>

record edit_box =
  box_min :: cell_pos
  box_max :: cell_pos

definition box_size :: "edit_box \<Rightarrow> cell_pos" where
  "box_size b = (case (box_min b, box_max b) of ((x0, y0, z0), (x1, y1, z1)) \<Rightarrow> (x1 - x0 + 1, y1 - y0 + 1, z1 - z0 + 1))"

definition box_between :: "cell_pos \<Rightarrow> cell_pos \<Rightarrow> edit_box" where
  "box_between a b = (case (a, b) of ((ax, ay, az), (bx, by', bz)) \<Rightarrow>
     \<lparr>box_min = (min ax bx, min ay by', min az bz), box_max = (max ax bx, max ay by', max az bz)\<rparr>)"

text \<open>Clipped to the volume; nothing when nothing is left.\<close>

definition clip_box :: "edit_box \<Rightarrow> cell_pos \<Rightarrow> edit_box option" where
  "clip_box b s = (case (box_min b, box_max b, s) of ((x0, y0, z0), (x1, y1, z1), (sx, sy, sz)) \<Rightarrow>
     let x0 = max x0 0; y0 = max y0 0; z0 = max z0 0; x1 = min x1 (sx - 1); y1 = min y1 (sy - 1); z1 = min z1 (sz - 1) in
     if x0 \<le> x1 \<and> y0 \<le> y1 \<and> z0 \<le> z1 then Some \<lparr>box_min = (x0, y0, z0), box_max = (x1, y1, z1)\<rparr> else None)"

definition box_positions :: "edit_box \<Rightarrow> cell_pos list" where
  "box_positions b = grid_positions (box_min b) (box_max b)"

text \<open>The line of Bresenham: the error terms of the three axes and the point, for so many steps.\<close>

primrec line_loop :: "nat \<Rightarrow> int \<Rightarrow> cell_pos \<Rightarrow> cell_pos \<Rightarrow> cell_pos \<Rightarrow> cell_pos \<Rightarrow> cell_pos list" where
  "line_loop 0 dm d s e p = []"
| "line_loop (Suc n) dm d s e p = (case (d, s, e, p) of ((dx, dy, dz), (sx, sy, sz), (ex, ey, ez), (x, y, z)) \<Rightarrow>
     let ex = ex - dx; ey = ey - dy; ez = ez - dz;
         (ex, x) = (if ex < 0 then (ex + dm, x + sx) else (ex, x));
         (ey, y) = (if ey < 0 then (ey + dm, y + sy) else (ey, y));
         (ez, z) = (if ez < 0 then (ez + dm, z + sz) else (ez, z)) in
     p # line_loop n dm d s (ex, ey, ez) (x, y, z))"

definition line_positions :: "cell_pos \<Rightarrow> cell_pos \<Rightarrow> cell_pos list" where
  "line_positions a b = (case (a, b) of ((ax, ay, az), (bx, by', bz)) \<Rightarrow>
     let dx = \<bar>bx - ax\<bar>; dy = \<bar>by' - ay\<bar>; dz = \<bar>bz - az\<bar>; dm = max dx (max dy dz);
         sgn_of = (\<lambda>u w. if u < (w :: int) then 1 else - 1) in
     line_loop (Suc (nat dm)) dm (dx, dy, dz) (sgn_of ax bx, sgn_of ay by', sgn_of az bz) (dm div 2, dm div 2, dm div 2) a)"

record edit_symmetry =
  mirror_x :: bool
  mirror_z :: bool

definition mirror_positions :: "cell_pos \<Rightarrow> cell_pos \<Rightarrow> edit_symmetry \<Rightarrow> cell_pos list" where
  "mirror_positions p s symm = (case (p, s) of ((x, y, z), (sx, _, sz)) \<Rightarrow>
     let add = (\<lambda>on q ps. if on \<and> q \<notin> set ps then ps @ [q] else ps) in
     add (mirror_x symm \<and> mirror_z symm) (sx - 1 - x, y, sz - 1 - z)
       (add (mirror_z symm) (x, y, sz - 1 - z) (add (mirror_x symm) (sx - 1 - x, y, z) [p])))"

definition kDirs :: "cell_pos list" where
  "kDirs = [(1, 0, 0), (-1, 0, 0), (0, 1, 0), (0, -1, 0), (0, 0, 1), (0, 0, -1)]"

text \<open>
  One cell's neighbours, put on the stack, the top of which is the head of the list. An index is always in
  the range of \<open>seen\<close> when the volume is well formed.
\<close>

definition flood_dir :: "volume \<Rightarrow> u16 \<Rightarrow> cell_pos \<Rightarrow> cell_pos \<Rightarrow> bool list \<times> cell_pos list \<Rightarrow> bool list \<times> cell_pos list" where
  "flood_dir v target p d st = (case st of (seen, stack) \<Rightarrow>
     let n = shifted d p; i = vol_index v n in
     if \<not> vol_inside v n \<or> vol_get v n \<noteq> target then (seen, stack)
     else if i < length seen \<and> \<not> seen ! i then (seen[i := True], n # stack)
     else (seen, stack))"

lemma count_update: "i < length xs \<Longrightarrow> \<not> xs ! i \<Longrightarrow> count_list xs False = Suc (count_list (xs[i := True]) False)"
  by (induction xs arbitrary: i) (auto simp: nth_Cons split: nat.splits)

lemma flood_dir_measure:
  "2 * count_list (fst (flood_dir v target p d st)) False + length (snd (flood_dir v target p d st)) \<le>
    2 * count_list (fst st) False + length (snd st)"
  by (auto simp: flood_dir_def Let_def count_update split: prod.split)

lemma flood_dirs_measure:
  "2 * count_list (fst (fold (flood_dir v target p) ds st)) False + length (snd (fold (flood_dir v target p) ds st)) \<le>
    2 * count_list (fst st) False + length (snd st)"
proof (induction ds arbitrary: st)
  case (Cons d ds)
  show ?case using Cons [of "flood_dir v target p d st"] flood_dir_measure [of v target p d st] by simp
qed simp

function region_loop :: "volume \<Rightarrow> u16 \<Rightarrow> bool list \<Rightarrow> cell_pos list \<Rightarrow> cell_pos list" where
  "region_loop v target seen [] = []"
| "region_loop v target seen (p # stack) = (let (seen, stack) = fold (flood_dir v target p) kDirs (seen, stack) in
     p # region_loop v target seen stack)"
  by pat_completeness auto

termination region_loop
proof (relation "measure (\<lambda>(v, target, seen, stack). 2 * count_list seen False + length stack)", goal_cases)
  case (2 v target seen p stack s seen' stack')
  then show ?case using flood_dirs_measure [of v target p kDirs "(seen, stack)"] by (simp add: case_prod_unfold)
qed simp

declare region_loop.simps [simp del]

definition flood_region :: "volume \<Rightarrow> cell_pos \<Rightarrow> cell_pos list" where
  "flood_region v start = (
     if \<not> vol_inside v start then []
     else region_loop v (vol_get v start) ((replicate (length (vol_cells v)) False)[vol_index v start := True]) [start])"

end
