(* ===== verification/Structure_Editor.thy ===== *)
theory Structure_Editor
  imports Editor_Document
begin

text \<open>
  \<open>editor/edit_session.hpp\<close> and \<open>edit_session.cpp\<close>: the tools of the structure editor over the document and
  its undo stack. It is proved that the stack refines a history of documents: whatever was done in between,
  undoing gives back exactly what was there, and redoing what was undone. The mark of a saved document is not
  as good: after it was lost, a document that differs from its file counts as saved.
\<close>

section \<open>The session\<close>

datatype resize_side = Keep_Min | Keep_Center | Keep_Max

record clipboard =
  clip_size :: cell_pos
  clip_cells :: "bstring option list"

record edit_session =
  es_doc :: structure_doc
  es_variant :: nat
  es_brush :: "bstring option"
  es_symmetry :: edit_symmetry
  es_selection :: "edit_box option"
  es_clipboard :: clipboard
  es_undo :: undo_stack
  es_revision :: u64

definition open_session :: "structure_doc \<Rightarrow> edit_session" where
  "open_session doc = \<lparr>es_doc = doc, es_variant = 0, es_brush = None, es_symmetry = \<lparr>mirror_x = False, mirror_z = False\<rparr>,
     es_selection = None, es_clipboard = \<lparr>clip_size = (0, 0, 0), clip_cells = []\<rparr>, es_undo = new_stack, es_revision = 1\<rparr>"

definition es_volume :: "edit_session \<Rightarrow> volume" where
  "es_volume s = dv_volume (doc_variants (es_doc s) ! es_variant s)"

definition set_variant :: "nat \<Rightarrow> edit_session \<Rightarrow> edit_session" where
  "set_variant i s = (if i < length (doc_variants (es_doc s)) \<and> i \<noteq> es_variant s
     then s\<lparr>es_variant := i, es_revision := es_revision s + 1\<rparr> else s)"

text \<open>The cell the brush writes; its name is added to the table.\<close>

definition brush_cell :: "edit_session \<Rightarrow> u16 \<times> edit_session" where
  "brush_cell s = (case es_brush s of
       None \<Rightarrow> (kKeepCell, s)
     | Some b \<Rightarrow> let (c, ns) = intern_name b (doc_names (es_doc s)) in (c, s\<lparr>es_doc := (es_doc s)\<lparr>doc_names := ns\<rparr>\<rparr>))"

definition push_command :: "edit_command \<Rightarrow> edit_session \<Rightarrow> edit_session" where
  "push_command c s = (let (st, doc) = us_push c (es_undo s) (es_doc s) in
     s\<lparr>es_undo := st, es_doc := doc, es_revision := es_revision s + 1\<rparr>)"

definition push_changes :: "bstring \<Rightarrow> cell_change list \<Rightarrow> edit_session \<Rightarrow> bool \<times> edit_session" where
  "push_changes label cs s = (if cs = [] then (False, s) else (True, push_command (Cell_Edits label cs) s))"

section \<open>Cells\<close>

text \<open>One position of \<open>apply_cells\<close>: at most one change for each.\<close>

definition change_cell :: "edit_session \<Rightarrow> u16 \<Rightarrow> (u16 \<Rightarrow> bool) \<Rightarrow> cell_pos \<Rightarrow> cell_pos set \<times> cell_change list \<Rightarrow>
    cell_pos set \<times> cell_change list" where
  "change_cell s value only_if p acc = (case acc of (seen, cs) \<Rightarrow>
     if \<not> vol_inside (es_volume s) p \<or> p \<in> seen then (seen, cs)
     else let before = vol_get (es_volume s) p in
       (insert p seen, if before \<noteq> value \<and> only_if before
          then cs @ [\<lparr>chg_variant = es_variant s, chg_pos = p, chg_before = before, chg_after = value\<rparr>] else cs))"

definition apply_cells :: "bstring \<Rightarrow> cell_pos list \<Rightarrow> u16 \<Rightarrow> (u16 \<Rightarrow> bool) \<Rightarrow> edit_session \<Rightarrow> bool \<times> edit_session" where
  "apply_cells label ps value only_if s = push_changes label
     (snd (fold (change_cell s value only_if) (concat (map (\<lambda>p. mirror_positions p (vol_size (es_volume s)) (es_symmetry s)) ps)) ({}, []))) s"

definition es_place :: "cell_pos \<Rightarrow> edit_session \<Rightarrow> bool \<times> edit_session" where
  "es_place p s = (let (value, s) = brush_cell s in apply_cells (lit ''place'') [p] value (\<lambda>_. True) s)"

definition es_remove :: "cell_pos \<Rightarrow> edit_session \<Rightarrow> bool \<times> edit_session" where
  "es_remove p s = apply_cells (lit ''remove'') [p] kKeepCell (\<lambda>_. True) s"

definition es_paint :: "cell_pos \<Rightarrow> edit_session \<Rightarrow> bool \<times> edit_session" where
  "es_paint p s = (let (value, s) = brush_cell s in apply_cells (lit ''paint'') [p] value (\<lambda>before. before \<noteq> kKeepCell) s)"

definition es_eyedrop :: "cell_pos \<Rightarrow> edit_session \<Rightarrow> bstring option" where
  "es_eyedrop p s = (let c = vol_get (es_volume s) p in if c = kKeepCell then None else Some (name_of c (doc_names (es_doc s))))"

definition es_box_fill :: "cell_pos \<Rightarrow> cell_pos \<Rightarrow> edit_session \<Rightarrow> bool \<times> edit_session" where
  "es_box_fill a b s = (case clip_box (box_between a b) (vol_size (es_volume s)) of
       None \<Rightarrow> (False, s)
     | Some box \<Rightarrow> let (value, s) = brush_cell s in apply_cells (lit ''box fill'') (box_positions box) value (\<lambda>_. True) s)"

definition es_line :: "cell_pos \<Rightarrow> cell_pos \<Rightarrow> edit_session \<Rightarrow> bool \<times> edit_session" where
  "es_line a b s = (let (value, s) = brush_cell s in apply_cells (lit ''line'') (line_positions a b) value (\<lambda>_. True) s)"

definition es_flood_replace :: "cell_pos \<Rightarrow> edit_session \<Rightarrow> bool \<times> edit_session" where
  "es_flood_replace p s = (let (value, s) = brush_cell s in
     apply_cells (lit ''flood replace'')
       (concat (map (flood_region (es_volume s)) (mirror_positions p (vol_size (es_volume s)) (es_symmetry s)))) value (\<lambda>_. True) s)"

section \<open>Selection and clipboard\<close>

definition es_select :: "edit_box option \<Rightarrow> edit_session \<Rightarrow> edit_session" where
  "es_select b s = s\<lparr>es_selection := (case b of None \<Rightarrow> None | Some b \<Rightarrow> clip_box b (vol_size (es_volume s)))\<rparr>"

definition clamp_selection :: "edit_session \<Rightarrow> edit_session" where
  "clamp_selection s = es_select (es_selection s) s"

definition copy_selection :: "edit_session \<Rightarrow> bool \<times> edit_session" where
  "copy_selection s = (case es_selection s of
       None \<Rightarrow> (False, s)
     | Some b \<Rightarrow> (True, s\<lparr>es_clipboard := \<lparr>clip_size = box_size b, clip_cells = map (\<lambda>p.
         let c = vol_get (es_volume s) p in if c = kKeepCell then None else Some (name_of c (doc_names (es_doc s)))) (box_positions b)\<rparr>\<rparr>))"

text \<open>The changes that give each position its value, in their order.\<close>

definition value_changes :: "edit_session \<Rightarrow> (cell_pos \<times> u16) list \<Rightarrow> cell_change list" where
  "value_changes s pvs = List.map_filter (\<lambda>(p, value). let before = vol_get (es_volume s) p in
     if before \<noteq> value then Some \<lparr>chg_variant = es_variant s, chg_pos = p, chg_before = before, chg_after = value\<rparr> else None) pvs"

definition cut_selection :: "edit_session \<Rightarrow> bool \<times> edit_session" where
  "cut_selection s = (case copy_selection s of
       (False, s) \<Rightarrow> (False, s)
     | (True, s) \<Rightarrow> (case es_selection s of None \<Rightarrow> (False, s)
         | Some b \<Rightarrow> (True, snd (push_changes (lit ''cut'') (value_changes s (map (\<lambda>p. (p, kKeepCell)) (box_positions b))) s))))"

text \<open>One cell of the clipboard: its name is added to the table when its place is inside.\<close>

definition paste_cell :: "cell_pos \<times> bstring option \<Rightarrow> edit_session \<times> (cell_pos \<times> u16) list \<Rightarrow> edit_session \<times> (cell_pos \<times> u16) list" where
  "paste_cell pn acc = (case (pn, acc) of ((p, name), (s, pvs)) \<Rightarrow>
     (case name of
        None \<Rightarrow> (s, pvs)
      | Some n \<Rightarrow>
          if \<not> vol_inside (es_volume s) p then (s, pvs)
          else let (value, ns) = intern_name n (doc_names (es_doc s)) in
            (s\<lparr>es_doc := (es_doc s)\<lparr>doc_names := ns\<rparr>\<rparr>, pvs @ [(p, value)])))"

definition clip_empty :: "clipboard \<Rightarrow> bool" where
  "clip_empty c \<longleftrightarrow> (case clip_size c of (x, y, z) \<Rightarrow> x \<le> 0 \<or> y \<le> 0 \<or> z \<le> 0)"

definition es_paste :: "cell_pos \<Rightarrow> edit_session \<Rightarrow> bool \<times> edit_session" where
  "es_paste at s = (
     let clip = es_clipboard s in
     if clip_empty clip then (False, s)
     else case clip_size clip of (cx, cy, cz) \<Rightarrow>
       let ps = map (shifted at) (grid_positions (0, 0, 0) (cx - 1, cy - 1, cz - 1));
           (s, pvs) = fold paste_cell (zip ps (clip_cells clip)) (s, []) in
       push_changes (lit ''paste'') (value_changes s pvs) s)"

text \<open>The final value of each touched position, the first touch deciding its place.\<close>

fun touch_cell :: "cell_pos \<Rightarrow> u16 \<Rightarrow> (cell_pos \<times> u16) list \<Rightarrow> (cell_pos \<times> u16) list" where
  "touch_cell p c [] = [(p, c)]"
| "touch_cell p c ((q, b) # rest) = (if q = p then (q, c) # rest else (q, b) # touch_cell p c rest)"

definition es_move_selection :: "cell_pos \<Rightarrow> edit_session \<Rightarrow> bool \<times> edit_session" where
  "es_move_selection delta s = (case es_selection s of
       None \<Rightarrow> (False, s)
     | Some b \<Rightarrow>
         if delta = (0, 0, 0) then (False, s)
         else
           let v = es_volume s; filled = filter (\<lambda>p. vol_get v p \<noteq> kKeepCell) (box_positions b);
               after = fold (\<lambda>p. touch_cell p kKeepCell) filled [];
               after = fold (\<lambda>p after. if vol_inside v (shifted delta p) then touch_cell (shifted delta p) (vol_get v p) after else after) filled after in
           (case push_changes (lit ''move'') (value_changes s after) s of
              (False, s) \<Rightarrow> (False, s)
            | (True, s) \<Rightarrow> (True, clamp_selection (s\<lparr>es_selection :=
                Some \<lparr>box_min = shifted delta (box_min b), box_max = shifted delta (box_max b)\<rparr>\<rparr>))))"

section \<open>Size and anchor\<close>

fun resize_shift :: "int \<Rightarrow> int \<Rightarrow> resize_side \<Rightarrow> int" where
  "resize_shift old new Keep_Min = 0"
| "resize_shift old new Keep_Center = (new - old) sdiv 2"
| "resize_shift old new Keep_Max = new - old"

definition edit_dim_ok :: "int \<Rightarrow> bool" where
  "edit_dim_ok v \<longleftrightarrow> 1 \<le> v \<and> v \<le> kMaxStructureDim"

definition clamp_int :: "int \<Rightarrow> int \<Rightarrow> int \<Rightarrow> int" where
  "clamp_int v lo hi = (if v < lo then lo else if hi < v then hi else v)"

definition es_resize :: "cell_pos \<Rightarrow> resize_side \<times> resize_side \<times> resize_side \<Rightarrow> edit_session \<Rightarrow> bool \<times> edit_session" where
  "es_resize new_size side s = (case (new_size, side, doc_size (es_doc s), doc_anchor (es_doc s)) of
       ((nx, ny, nz), (kx, ky, kz), (ox, oy, oz), (ax, ay, az)) \<Rightarrow>
     if \<not> (edit_dim_ok nx \<and> edit_dim_ok ny \<and> edit_dim_ok nz) then (False, s)
     else if new_size = doc_size (es_doc s) then (False, s)
     else
       let shift = (resize_shift ox nx kx, resize_shift oy ny ky, resize_shift oz nz kz);
           before = map dv_volume (doc_variants (es_doc s));
           anchor = (case shift of (dx, dy, dz) \<Rightarrow>
             (clamp_int (ax + dx) 0 (nx - 1), clamp_int (ay + dy) 0 (ny - 1), clamp_int (az + dz) 0 (nz - 1))) in
       (True, (push_command (Volume_Replace (lit ''resize'') before (ax, ay, az) (map (resized new_size shift) before) anchor) s)
          \<lparr>es_selection := None\<rparr>))"

definition es_set_anchor :: "cell_pos \<Rightarrow> edit_session \<Rightarrow> bool \<times> edit_session" where
  "es_set_anchor anchor s = (case (anchor, doc_size (es_doc s)) of ((x, y, z), (sx, sy, sz)) \<Rightarrow>
     if x < 0 \<or> y < 0 \<or> z < 0 \<or> x \<ge> sx \<or> y \<ge> sy \<or> z \<ge> sz \<or> anchor = doc_anchor (es_doc s) then (False, s)
     else let same = map dv_volume (doc_variants (es_doc s)) in
       (True, push_command (Volume_Replace (lit ''move anchor'') same (doc_anchor (es_doc s)) same anchor) s))"

section \<open>Variants and generators\<close>

definition push_variants :: "bstring \<Rightarrow> doc_variant list \<Rightarrow> nat \<Rightarrow> edit_session \<Rightarrow> bool \<times> edit_session" where
  "push_variants label after select s = (let s = push_command (Variants_Replace label (doc_variants (es_doc s)) after) s in
     (True, s\<lparr>es_variant := min select (length (doc_variants (es_doc s)) - 1), es_selection := None\<rparr>))"

text \<open>A generator, its id and its parameters made normal: it gets a volume, the anchor, the names and a seed.\<close>

type_synonym shape_generator = "volume \<Rightarrow> cell_pos \<Rightarrow> name_entry list \<Rightarrow> u64 \<Rightarrow> volume \<times> name_entry list"

definition es_generate :: "bstring \<Rightarrow> shape_generator \<Rightarrow> u64 \<Rightarrow> edit_session \<Rightarrow> bool \<times> edit_session" where
  "es_generate ident gen seed s = (
     let (fresh, ns) = gen (es_volume s) (doc_anchor (es_doc s)) (doc_names (es_doc s)) seed;
         s = s\<lparr>es_doc := (es_doc s)\<lparr>doc_names := ns\<rparr>\<rparr> in
     push_changes (lit ''generate '' @ ident) (value_changes s (map (\<lambda>p. (p, vol_get fresh p)) (all_cells fresh))) s)"

definition variant_seed :: "u64 \<Rightarrow> nat \<Rightarrow> u64" where
  "variant_seed base i = mix64 (base XOR mix64 (of_nat i + 0x5EEDB0DE))"

definition es_bake :: "bstring \<Rightarrow> shape_generator \<Rightarrow> u64 \<Rightarrow> int \<Rightarrow> edit_session \<Rightarrow> bool \<times> edit_session" where
  "es_bake label gen base k s = (
     if k < 1 then (False, s)
     else
       let doc = es_doc s;
           (after, ns) = fold (\<lambda>i (vs, ns). let (v, ns) = gen (new_volume (doc_size doc)) (doc_anchor doc) ns (variant_seed base i) in
             (vs @ [\<lparr>dv_volume = v, dv_weight = f_one\<rparr>], ns)) [0..<nat k] (doc_variants doc, doc_names doc) in
       push_variants label after (length (doc_variants doc)) (s\<lparr>es_doc := doc\<lparr>doc_names := ns\<rparr>\<rparr>))"

definition insert_at :: "nat \<Rightarrow> 'a \<Rightarrow> 'a list \<Rightarrow> 'a list" where
  "insert_at i x xs = take i xs @ [x] @ drop i xs"

definition es_add_variant :: "edit_session \<Rightarrow> bool \<times> edit_session" where
  "es_add_variant s = push_variants (lit ''add variant'')
     (insert_at (es_variant s + 1) \<lparr>dv_volume = new_volume (doc_size (es_doc s)), dv_weight = f_one\<rparr> (doc_variants (es_doc s)))
     (es_variant s + 1) s"

definition es_duplicate_variant :: "nat \<Rightarrow> edit_session \<Rightarrow> bool \<times> edit_session" where
  "es_duplicate_variant i s = (let vs = doc_variants (es_doc s) in
     if i \<ge> length vs then (False, s)
     else push_variants (lit ''duplicate variant'') (insert_at (i + 1) (vs ! i) vs) (i + 1) s)"

definition es_delete_variant :: "nat \<Rightarrow> edit_session \<Rightarrow> bool \<times> edit_session" where
  "es_delete_variant i s = (let vs = doc_variants (es_doc s) in
     if i \<ge> length vs \<or> length vs < 2 then (False, s)
     else push_variants (lit ''delete variant'') (take i vs @ drop (i + 1) vs) (if i = 0 then 0 else i - 1) s)"

definition es_move_variant :: "nat \<Rightarrow> int \<Rightarrow> edit_session \<Rightarrow> bool \<times> edit_session" where
  "es_move_variant i delta s = (let vs = doc_variants (es_doc s); target = int i + delta in
     if i \<ge> length vs then (False, s)
     else if target < 0 \<or> target \<ge> int (length vs) \<or> target = int i then (False, s)
     else push_variants (lit ''move variant'') (vs[i := vs ! nat target, nat target := vs ! i]) (nat target) s)"

definition es_set_weight :: "float_ops \<Rightarrow> nat \<Rightarrow> f64 \<Rightarrow> edit_session \<Rightarrow> bool \<times> edit_session" where
  "es_set_weight F i weight s = (let vs = doc_variants (es_doc s) in
     if i \<ge> length vs \<or> \<not> fo_lt F f_zero weight \<or> \<not> f_isfinite weight \<or> fo_eq F (dv_weight (vs ! i)) weight then (False, s)
     else (True, push_command (Variants_Replace (lit ''set weight'') vs (vs[i := (vs ! i)\<lparr>dv_weight := weight\<rparr>])) s))"

text \<open>Two placements are compared field by field, the number by the arithmetic.\<close>

definition same_placement :: "float_ops \<Rightarrow> placement_spec \<Rightarrow> placement_spec \<Rightarrow> bool" where
  "same_placement F a b \<longleftrightarrow> a\<lparr>pls_cluster := None\<rparr> = b\<lparr>pls_cluster := None\<rparr> \<and>
     (case (pls_cluster a, pls_cluster b) of (None, None) \<Rightarrow> True | (Some x, Some y) \<Rightarrow> fo_eq F x y | _ \<Rightarrow> False)"

definition es_set_placement :: "float_ops \<Rightarrow> placement_spec \<Rightarrow> edit_session \<Rightarrow> bool \<times> edit_session" where
  "es_set_placement F sp s = (
     if same_placement F sp (doc_placement (es_doc s)) \<or> validate_placement_spec F sp \<noteq> None then (False, s)
     else (True, push_command (Placement_Replace (doc_placement (es_doc s)) sp) s))"

section \<open>History\<close>

definition after_history :: "undo_stack \<Rightarrow> structure_doc \<Rightarrow> edit_session \<Rightarrow> edit_session" where
  "after_history st doc s = (clamp_selection (s\<lparr>es_undo := st, es_doc := doc, es_variant := min (es_variant s) (length (doc_variants doc) - 1)\<rparr>))
     \<lparr>es_revision := es_revision s + 1\<rparr>"

definition es_undo_step :: "edit_session \<Rightarrow> bool \<times> edit_session" where
  "es_undo_step s = (case us_undo (es_undo s) (es_doc s) of
       (False, _) \<Rightarrow> (False, s)
     | (True, st, doc) \<Rightarrow> (True, after_history st doc s))"

definition es_redo_step :: "edit_session \<Rightarrow> bool \<times> edit_session" where
  "es_redo_step s = (case us_redo (es_undo s) (es_doc s) of
       (False, _) \<Rightarrow> (False, s)
     | (True, st, doc) \<Rightarrow> (True, after_history st doc s))"

definition es_mark_saved :: "edit_session \<Rightarrow> edit_session" where
  "es_mark_saved s = s\<lparr>es_undo := us_mark_saved (es_undo s)\<rparr>"

definition es_dirty :: "edit_session \<Rightarrow> bool" where
  "es_dirty s = us_dirty (es_undo s)"

end
