(* ===== verification/Editor_History.thy ===== *)
theory Editor_History
  imports Structure_Editor
begin

text \<open>
  What the structure editor's undo stack promises: a history of documents with a position in it. The names
  of blocks only ever grow and are left out of it. Every tool either leaves the document alone or records one
  command that can be taken back, and the stack of commands refines the history.
\<close>

section \<open>The specification\<close>

type_synonym doc_body = "cell_pos \<times> placement_spec \<times> doc_variant list"

definition body_of :: "structure_doc \<Rightarrow> doc_body" where
  "body_of doc = (doc_anchor doc, doc_placement doc, doc_variants doc)"

record edit_history =
  eh_past :: "doc_body list"
  eh_present :: doc_body
  eh_future :: "doc_body list"

definition start_history :: "doc_body \<Rightarrow> edit_history" where
  "start_history b = \<lparr>eh_past = [], eh_present = b, eh_future = []\<rparr>"

definition eh_push :: "doc_body \<Rightarrow> edit_history \<Rightarrow> edit_history" where
  "eh_push b h = \<lparr>eh_past = eh_past h @ [eh_present h], eh_present = b, eh_future = []\<rparr>"

definition eh_undo :: "edit_history \<Rightarrow> edit_history" where
  "eh_undo h = (if eh_past h = [] then h
     else \<lparr>eh_past = butlast (eh_past h), eh_present = last (eh_past h), eh_future = eh_present h # eh_future h\<rparr>)"

definition eh_redo :: "edit_history \<Rightarrow> edit_history" where
  "eh_redo h = (case eh_future h of [] \<Rightarrow> h
     | b # bs \<Rightarrow> \<lparr>eh_past = eh_past h @ [eh_present h], eh_present = b, eh_future = bs\<rparr>)"

section \<open>Runs of the editor\<close>

datatype edit_op = Op_Set_Brush "bstring option" | Op_Set_Symmetry edit_symmetry | Op_Set_Variant nat
  | Op_Place cell_pos | Op_Remove cell_pos | Op_Paint cell_pos | Op_Box_Fill cell_pos cell_pos | Op_Line cell_pos cell_pos
  | Op_Flood cell_pos | Op_Select "edit_box option" | Op_Copy | Op_Cut | Op_Paste cell_pos | Op_Move cell_pos
  | Op_Resize cell_pos "resize_side \<times> resize_side \<times> resize_side" | Op_Anchor cell_pos
  | Op_Generate bstring shape_generator u64 | Op_Bake bstring shape_generator u64 int
  | Op_Add | Op_Duplicate nat | Op_Delete nat | Op_Move_Variant nat int | Op_Weight nat f64 | Op_Placement placement_spec
  | Op_Mark_Saved | Op_Undo | Op_Redo

fun edit_step :: "float_ops \<Rightarrow> edit_op \<Rightarrow> edit_session \<Rightarrow> edit_session" where
  "edit_step F (Op_Set_Brush b) s = s\<lparr>es_brush := b\<rparr>"
| "edit_step F (Op_Set_Symmetry y) s = s\<lparr>es_symmetry := y\<rparr>"
| "edit_step F (Op_Set_Variant i) s = set_variant i s"
| "edit_step F (Op_Place p) s = snd (es_place p s)"
| "edit_step F (Op_Remove p) s = snd (es_remove p s)"
| "edit_step F (Op_Paint p) s = snd (es_paint p s)"
| "edit_step F (Op_Box_Fill a b) s = snd (es_box_fill a b s)"
| "edit_step F (Op_Line a b) s = snd (es_line a b s)"
| "edit_step F (Op_Flood p) s = snd (es_flood_replace p s)"
| "edit_step F (Op_Select b) s = es_select b s"
| "edit_step F Op_Copy s = snd (copy_selection s)"
| "edit_step F Op_Cut s = snd (cut_selection s)"
| "edit_step F (Op_Paste p) s = snd (es_paste p s)"
| "edit_step F (Op_Move d) s = snd (es_move_selection d s)"
| "edit_step F (Op_Resize n side) s = snd (es_resize n side s)"
| "edit_step F (Op_Anchor p) s = snd (es_set_anchor p s)"
| "edit_step F (Op_Generate l g seed) s = snd (es_generate l g seed s)"
| "edit_step F (Op_Bake l g seed k) s = snd (es_bake l g seed k s)"
| "edit_step F Op_Add s = snd (es_add_variant s)"
| "edit_step F (Op_Duplicate i) s = snd (es_duplicate_variant i s)"
| "edit_step F (Op_Delete i) s = snd (es_delete_variant i s)"
| "edit_step F (Op_Move_Variant i d) s = snd (es_move_variant i d s)"
| "edit_step F (Op_Weight i w) s = snd (es_set_weight F i w s)"
| "edit_step F (Op_Placement sp) s = snd (es_set_placement F sp s)"
| "edit_step F Op_Mark_Saved s = es_mark_saved s"
| "edit_step F Op_Undo s = snd (es_undo_step s)"
| "edit_step F Op_Redo s = snd (es_redo_step s)"

definition records :: "edit_session \<Rightarrow> edit_session \<Rightarrow> bool" where
  "records s s' \<longleftrightarrow> us_next (es_undo s') \<noteq> us_next (es_undo s)"

text \<open>The history beside the editor: an edit that was recorded is pushed.\<close>

definition history_step :: "edit_op \<Rightarrow> edit_session \<Rightarrow> edit_session \<Rightarrow> edit_history \<Rightarrow> edit_history" where
  "history_step op s s' h = (case op of Op_Undo \<Rightarrow> eh_undo h | Op_Redo \<Rightarrow> eh_redo h
     | _ \<Rightarrow> if records s s' then eh_push (body_of (es_doc s')) h else h)"

text \<open>A run: the editor, the history beside it, and what was last saved or opened.\<close>

primrec edit_run :: "float_ops \<Rightarrow> edit_op list \<Rightarrow> edit_session \<times> edit_history \<times> doc_body \<Rightarrow> edit_session \<times> edit_history \<times> doc_body" where
  "edit_run F [] st = st"
| "edit_run F (op # ops) st = (case st of (s, h, saved) \<Rightarrow> let s' = edit_step F op s in
     edit_run F ops (s', history_step op s s' h, if op = Op_Mark_Saved then body_of (es_doc s) else saved))"

section \<open>Cells\<close>

lemma index_injective:
  assumes "vol_inside v p" and "vol_inside v q" and "vol_index v p = vol_index v q"
  shows "p = q"
proof -
  obtain x y z x' y' z' sx sy sz where s: "p = (x, y, z)" "q = (x', y', z')" "vol_size v = (sx, sy, sz)"
    by (metis prod.exhaust)
  have b: "0 \<le> x" "x < sx" "0 \<le> z" "z < sz" "0 \<le> y" "0 \<le> x'" "x' < sx" "0 \<le> z'" "z' < sz" "0 \<le> y'"
    using assms(1, 2) by (auto simp: vol_inside_def s)
  have "0 \<le> (y * sz + z) * sx + x" "0 \<le> (y' * sz + z') * sx + x'" using b by auto
  then have e: "(y * sz + z) * sx + x = (y' * sz + z') * sx + x'" using assms(3) by (simp add: vol_index_def s eq_nat_nat_iff)
  have "((y * sz + z) * sx + x) div sx = y * sz + z" "((y' * sz + z') * sx + x') div sx = y' * sz + z'" using b by simp_all
  then have r: "y * sz + z = y' * sz + z'" using e by simp
  then have "x = x'" using e by simp
  have "(y * sz + z) div sz = y" "(y' * sz + z') div sz = y'" using b by simp_all
  then have "y = y'" using r by simp
  then show ?thesis using r \<open>x = x'\<close> by (simp add: s)
qed

lemma cells_only [simp]: "vol_inside (v\<lparr>vol_cells := cs\<rparr>) q = vol_inside v q" "vol_index (v\<lparr>vol_cells := cs\<rparr>) q = vol_index v q"
  by (simp_all add: vol_inside_def vol_index_def)

lemma set_size [simp]: "vol_size (snd (vol_set p c v)) = vol_size v"
  by (simp add: vol_set_def)

lemma set_inside [simp]: "vol_inside (snd (vol_set p c v)) q = vol_inside v q"
  by (simp add: vol_set_def)

lemma set_other: "p \<noteq> q \<Longrightarrow> vol_get (snd (vol_set p c v)) q = vol_get v q"
proof (cases "vol_inside v p \<and> vol_inside v q")
  case True
  assume "p \<noteq> q"
  then have "vol_index v p \<noteq> vol_index v q" using index_injective [of v p q] True by blast
  then show ?thesis using True by (simp add: vol_get_def vol_set_def)
qed (auto simp: vol_get_def vol_set_def)

lemma set_back: "vol_get v p = b \<Longrightarrow> snd (vol_set p b (snd (vol_set p c v))) = v"
  by (auto simp: vol_get_def vol_set_def)

section \<open>Commands that can be taken back\<close>

lemma set_cell_same [simp]: "doc_anchor (set_cell i p c d) = doc_anchor d" "doc_placement (set_cell i p c d) = doc_placement d"
  by (simp_all add: set_cell_def)

lemma set_cell_length [simp]: "length (doc_variants (set_cell i p c d)) = length (doc_variants d)"
  by (simp add: set_cell_def)

lemma set_cell_body: "body_of d = body_of d' \<Longrightarrow> body_of (set_cell i p c d) = body_of (set_cell i p c d')"
  by (auto simp: body_of_def set_cell_def)

definition doc_cell :: "nat \<Rightarrow> cell_pos \<Rightarrow> structure_doc \<Rightarrow> u16" where
  "doc_cell i p d = vol_get (dv_volume (doc_variants d ! i)) p"

lemma set_cell_back: "i < length (doc_variants d) \<Longrightarrow> doc_cell i p d = b \<Longrightarrow> body_of (set_cell i p b (set_cell i p c d)) = body_of d"
  by (auto simp: body_of_def set_cell_def doc_cell_def set_back)

lemma set_cell_other: "i < length (doc_variants d) \<Longrightarrow> p \<noteq> q \<Longrightarrow> doc_cell i q (set_cell i p c d) = doc_cell i q d"
  by (auto simp: set_cell_def doc_cell_def set_other)

definition changes_ok :: "nat \<Rightarrow> structure_doc \<Rightarrow> cell_change list \<Rightarrow> bool" where
  "changes_ok i d cs \<longleftrightarrow> i < length (doc_variants d) \<and> distinct (map chg_pos cs) \<and>
     (\<forall>c \<in> set cs. chg_variant c = i \<and> chg_before c = doc_cell i (chg_pos c) d)"

lemma changes_back:
  "changes_ok i d cs \<Longrightarrow> body_of (revert_command (Cell_Edits l cs) (apply_command (Cell_Edits l cs) d)) = body_of d"
proof (induction cs arbitrary: d)
  case (Cons c cs)
  let ?d = "set_cell i (chg_pos c) (chg_after c) d"
  have i: "i < length (doc_variants d)" "chg_variant c = i" "doc_cell i (chg_pos c) d = chg_before c"
    using Cons.prems by (auto simp: changes_ok_def)
  have "doc_cell i (chg_pos x) ?d = doc_cell i (chg_pos x) d" if x: "x \<in> set cs" for x
    by (rule set_cell_other [OF i(1)]) (use Cons.prems x in \<open>force simp: changes_ok_def\<close>)
  then have "changes_ok i ?d cs" using Cons.prems by (simp add: changes_ok_def)
  from Cons.IH [OF this] have "body_of (set_cell i (chg_pos c) (chg_before c)
      (revert_command (Cell_Edits l cs) (apply_command (Cell_Edits l cs) ?d))) = body_of (set_cell i (chg_pos c) (chg_before c) ?d)"
    by (rule set_cell_body)
  then show ?case using set_cell_back [OF i(1, 3)] by (simp add: i(2))
qed simp

text \<open>A command leads from one body to another and back, whatever the names are.\<close>

definition leads :: "edit_command \<Rightarrow> doc_body \<Rightarrow> doc_body \<Rightarrow> bool" where
  "leads c b b' \<longleftrightarrow> (\<forall>d. (body_of d = b \<longrightarrow> body_of (apply_command c d) = b') \<and> (body_of d = b' \<longrightarrow> body_of (revert_command c d) = b))"

lemma fold_body:
  assumes f: "\<And>x d d'. body_of d = body_of d' \<Longrightarrow> body_of (f x d) = body_of (f x d')" and "body_of d = body_of d'"
  shows "body_of (fold f xs d) = body_of (fold f xs d')"
  using assms(2)
proof (induction xs arbitrary: d d')
  case (Cons x xs)
  show ?case using Cons.IH [OF f [OF Cons.prems]] by simp
qed simp

lemma apply_body:
  assumes "body_of d = body_of d'"
  shows "body_of (apply_command c d) = body_of (apply_command c d')"
proof (cases c)
  case (Cell_Edits l cs)
  show ?thesis unfolding Cell_Edits apply_command.simps by (rule fold_body [OF set_cell_body assms])
qed (use assms in \<open>auto simp: body_of_def set_volumes_def\<close>)

lemma revert_body:
  assumes "body_of d = body_of d'"
  shows "body_of (revert_command c d) = body_of (revert_command c d')"
proof (cases c)
  case (Cell_Edits l cs)
  show ?thesis unfolding Cell_Edits revert_command.simps by (rule fold_body [OF set_cell_body assms])
qed (use assms in \<open>auto simp: body_of_def set_volumes_def\<close>)

lemma leads_back:
  assumes "body_of (revert_command c (apply_command c d)) = body_of d"
  shows "leads c (body_of d) (body_of (apply_command c d))"
proof -
  have "body_of (revert_command c e) = body_of d" if "body_of e = body_of (apply_command c d)" for e
    using revert_body [OF that] assms by (rule trans)
  then show ?thesis unfolding leads_def using apply_body by blast
qed

lemma replace_back: "length vs = length ds \<Longrightarrow> replace_volumes (map dv_volume ds) (replace_volumes vs ds) = ds"
  by (induction vs ds rule: replace_volumes.induct) auto

definition goes_back :: "edit_command \<Rightarrow> structure_doc \<Rightarrow> bool" where
  "goes_back c d \<longleftrightarrow> body_of (revert_command c (apply_command c d)) = body_of d"

lemma goes_back_changes: "changes_ok i d cs \<Longrightarrow> goes_back (Cell_Edits l cs) d"
  unfolding goes_back_def by (rule changes_back)

lemma goes_back_volumes:
  "length vs = length (doc_variants d) \<Longrightarrow> goes_back (Volume_Replace l (map dv_volume (doc_variants d)) (doc_anchor d) vs a) d"
  by (simp add: goes_back_def body_of_def set_volumes_def replace_back)

lemma goes_back_variants: "goes_back (Variants_Replace l (doc_variants d) vs) d"
  by (simp add: goes_back_def body_of_def)

lemma goes_back_placement: "goes_back (Placement_Replace (doc_placement d) sp) d"
  by (simp add: goes_back_def body_of_def)

section \<open>Every tool records one command or leaves the document alone\<close>

definition es_ok :: "edit_session \<Rightarrow> bool" where
  "es_ok s \<longleftrightarrow> es_variant s < length (doc_variants (es_doc s))"

definition edits_to :: "edit_session \<Rightarrow> edit_session \<Rightarrow> bool" where
  "edits_to s s' \<longleftrightarrow> es_ok s' \<and>
     ((es_undo s' = es_undo s \<and> body_of (es_doc s') = body_of (es_doc s)) \<or>
      (\<exists>c d. goes_back c d \<and> body_of d = body_of (es_doc s) \<and> es_undo s' = fst (us_push c (es_undo s) d) \<and>
         body_of (es_doc s') = body_of (apply_command c d)))"

lemma edits_same: "es_ok s' \<Longrightarrow> es_undo s' = es_undo s \<Longrightarrow> body_of (es_doc s') = body_of (es_doc s) \<Longrightarrow> edits_to s s'"
  by (simp add: edits_to_def)

lemma edits_from: "es_undo t = es_undo s \<Longrightarrow> body_of (es_doc t) = body_of (es_doc s) \<Longrightarrow> edits_to t u \<Longrightarrow> edits_to s u"
  by (simp add: edits_to_def)

lemma ok_from: "es_variant t = es_variant s \<Longrightarrow> body_of (es_doc t) = body_of (es_doc s) \<Longrightarrow> es_ok s \<Longrightarrow> es_ok t"
  by (simp add: es_ok_def body_of_def)

lemma push_command_fields [simp]: "es_variant (push_command c s) = es_variant s" "es_doc (push_command c s) = apply_command c (es_doc s)"
    "es_undo (push_command c s) = fst (us_push c (es_undo s) (es_doc s))"
  by (simp_all add: push_command_def us_push_def)

lemma edits_push:
  assumes "goes_back c (es_doc s)" and "es_ok t" and "es_undo t = es_undo (push_command c s)" and "es_doc t = es_doc (push_command c s)"
  shows "edits_to s t"
  using assms unfolding edits_to_def by auto

lemma fold_set_cell_length: "length (doc_variants (fold (\<lambda>c. set_cell (v c) (p c) (b c)) cs d)) = length (doc_variants d)"
  by (induction cs arbitrary: d) auto

lemma push_changes_edits:
  assumes "es_ok s" and "changes_ok (es_variant s) (es_doc s) cs"
  shows "edits_to s (snd (push_changes l cs s))"
proof (cases "cs = []")
  case False
  have "es_ok (push_command (Cell_Edits l cs) s)" using assms(1) by (simp add: es_ok_def fold_set_cell_length)
  then show ?thesis using False edits_push [OF goes_back_changes [OF assms(2)]] by (simp add: push_changes_def)
qed (use assms(1) in \<open>simp add: push_changes_def edits_same\<close>)

lemma changes_ok_snoc: "changes_ok i d (cs @ [c]) \<longleftrightarrow> changes_ok i d cs \<and> chg_pos c \<notin> chg_pos ` set cs \<and> chg_variant c = i \<and>
    chg_before c = doc_cell i (chg_pos c) d"
  by (auto simp: changes_ok_def)

lemma change_cells_ok:
  assumes "es_ok s"
  shows "changes_ok (es_variant s) (es_doc s) (snd (fold (change_cell s value only_if) ps ({}, [])))"
proof -
  have "changes_ok (es_variant s) (es_doc s) (snd (fold (change_cell s value only_if) ps (seen, cs)))"
    if "changes_ok (es_variant s) (es_doc s) cs" "chg_pos ` set cs \<subseteq> seen" for seen cs
    using that
  proof (induction ps arbitrary: seen cs)
    case (Cons p ps)
    obtain seen' cs' where c: "change_cell s value only_if p (seen, cs) = (seen', cs')" by (cases "change_cell s value only_if p (seen, cs)")
    have "p \<notin> chg_pos ` set cs" if "p \<notin> seen" using Cons.prems(2) that by blast
    then have "changes_ok (es_variant s) (es_doc s) cs' \<and> chg_pos ` set cs' \<subseteq> seen'"
      using c [symmetric] Cons.prems
      by (simp add: change_cell_def Let_def changes_ok_snoc subset_insertI2 doc_cell_def es_volume_def split: if_splits)
    then show ?case using Cons.IH c by simp
  qed simp
  from this [of "[]" "{}"] show ?thesis using assms by (simp add: changes_ok_def es_ok_def)
qed

lemma apply_cells_edits: "es_ok s \<Longrightarrow> edits_to s (snd (apply_cells l ps value only_if s))"
  unfolding apply_cells_def by (intro push_changes_edits change_cells_ok)

lemma brush_cell_same: "es_variant (snd (brush_cell s)) = es_variant s" "es_undo (snd (brush_cell s)) = es_undo s"
    "body_of (es_doc (snd (brush_cell s))) = body_of (es_doc s)"
  by (simp_all add: brush_cell_def body_of_def split: option.split prod.split)

lemma brush_edits:
  assumes "es_ok s"
  shows "edits_to s (snd (apply_cells l ps (fst (brush_cell s)) only_if (snd (brush_cell s))))"
  using edits_from [OF brush_cell_same(2, 3) apply_cells_edits] ok_from [OF brush_cell_same(1, 3) assms] by blast

lemma value_changes_rec [simp]: "value_changes s [] = []"
    "value_changes s ((p, b) # pvs) = (if vol_get (es_volume s) p \<noteq> b
       then \<lparr>chg_variant = es_variant s, chg_pos = p, chg_before = vol_get (es_volume s) p, chg_after = b\<rparr> # value_changes s pvs
       else value_changes s pvs)"
  by (simp_all add: value_changes_def map_filter_def Let_def)

lemma value_changes_ok:
  assumes "es_ok s" and "distinct (map fst pvs)"
  shows "changes_ok (es_variant s) (es_doc s) (value_changes s pvs)"
proof -
  have "distinct (map chg_pos (value_changes s pvs)) \<and> set (map chg_pos (value_changes s pvs)) \<subseteq> set (map fst pvs)"
    using assms(2)
  proof (induction pvs)
    case (Cons pv pvs)
    obtain p b where pv: "pv = (p, b)" by (cases pv)
    show ?case using Cons unfolding pv by (simp del: set_map) blast
  qed simp
  moreover have "\<forall>c \<in> set (value_changes s pvs). chg_variant c = es_variant s \<and> chg_before c = doc_cell (es_variant s) (chg_pos c) (es_doc s)"
    by (induction pvs) (auto simp: doc_cell_def es_volume_def split: if_splits)
  ultimately show ?thesis using assms(1) by (simp add: changes_ok_def es_ok_def)
qed

lemma value_changes_edits: "es_ok s \<Longrightarrow> distinct (map fst pvs) \<Longrightarrow> edits_to s (snd (push_changes l (value_changes s pvs) s))"
  by (intro push_changes_edits value_changes_ok)

lemma grid_distinct: "distinct (grid_positions lo hi)"
proof -
  have "distinct (concat (map (\<lambda>z. map (\<lambda>x. (x, y, z)) xs) zs))" if "distinct xs" "distinct zs" for xs zs and y :: int
    using that(2) that(1) by (induction zs) (auto simp: distinct_map inj_on_def)
  then have "distinct (concat (map (\<lambda>y. concat (map (\<lambda>z. map (\<lambda>x. (x, y, z)) xs) zs)) ys))" if "distinct xs" "distinct zs" "distinct ys" for xs ys zs :: "int list"
    using that(3) that(1, 2) by (induction ys) auto
  then show ?thesis by (auto simp: grid_positions_def split: prod.split)
qed

lemma touch_fst: "set (map fst (touch_cell p c ps)) = insert p (set (map fst ps))"
  by (induction p c ps rule: touch_cell.induct) auto

lemma touch_distinct: "distinct (map fst ps) \<Longrightarrow> distinct (map fst (touch_cell p c ps))"
proof (induction p c ps rule: touch_cell.induct)
  case (2 p c q b rest)
  then show ?case using touch_fst [of p c rest] by (cases "q = p") (simp_all del: set_map)
qed simp

lemma shifted_inj: "shifted d p = shifted d q \<longleftrightarrow> p = q"
  by (cases d; cases p; cases q) (auto simp: shifted_def)

section \<open>The tools\<close>

lemma place_edits: "es_ok s \<Longrightarrow> edits_to s (snd (es_place p s))"
  by (simp add: es_place_def case_prod_unfold Let_def brush_edits)

lemma remove_edits: "es_ok s \<Longrightarrow> edits_to s (snd (es_remove p s))"
  by (simp add: es_remove_def apply_cells_edits)

lemma paint_edits: "es_ok s \<Longrightarrow> edits_to s (snd (es_paint p s))"
  by (simp add: es_paint_def case_prod_unfold Let_def brush_edits)

lemma box_fill_edits: "es_ok s \<Longrightarrow> edits_to s (snd (es_box_fill a b s))"
  by (simp add: es_box_fill_def case_prod_unfold Let_def brush_edits edits_same split: option.split)

lemma line_edits: "es_ok s \<Longrightarrow> edits_to s (snd (es_line a b s))"
  by (simp add: es_line_def case_prod_unfold Let_def brush_edits)

lemma flood_edits: "es_ok s \<Longrightarrow> edits_to s (snd (es_flood_replace p s))"
  by (simp add: es_flood_replace_def case_prod_unfold Let_def brush_edits)

lemma cut_edits:
  assumes "es_ok s"
  shows "edits_to s (snd (cut_selection s))"
proof (cases "es_selection s")
  case (Some b)
  obtain t where c: "copy_selection s = (True, t)" by (simp add: copy_selection_def Some)
  then have t: "es_variant t = es_variant s" "es_undo t = es_undo s" "es_doc t = es_doc s" "es_selection t = Some b"
    by (auto simp: copy_selection_def Some)
  have "es_ok t" using t assms by (simp add: es_ok_def)
  then have "edits_to t (snd (push_changes (lit ''cut'') (value_changes t (map (\<lambda>p. (p, kKeepCell)) (box_positions b))) t))"
    by (rule value_changes_edits) (simp add: box_positions_def grid_distinct comp_def)
  then have "edits_to s (snd (push_changes (lit ''cut'') (value_changes t (map (\<lambda>p. (p, kKeepCell)) (box_positions b))) t))"
    by (rule edits_from [rotated 2]) (simp_all add: t)
  then show ?thesis using t(4) by (simp add: cut_selection_def c)
qed (use assms in \<open>simp add: cut_selection_def copy_selection_def edits_same\<close>)

lemma paste_cell_same:
  "es_variant (fst (paste_cell pn acc)) = es_variant (fst acc) \<and> es_undo (fst (paste_cell pn acc)) = es_undo (fst acc) \<and>
    body_of (es_doc (fst (paste_cell pn acc))) = body_of (es_doc (fst acc))"
  by (cases pn; cases acc) (simp add: paste_cell_def body_of_def split: option.split prod.split)

lemma paste_cells_same:
  "es_variant (fst (fold paste_cell pns acc)) = es_variant (fst acc) \<and> es_undo (fst (fold paste_cell pns acc)) = es_undo (fst acc) \<and>
    body_of (es_doc (fst (fold paste_cell pns acc))) = body_of (es_doc (fst acc))"
  using paste_cell_same by (induction pns arbitrary: acc) auto

lemma paste_cells_distinct:
  assumes "distinct (map fst pns)" and "distinct (map fst (snd acc))" and "set (map fst (snd acc)) \<inter> set (map fst pns) = {}"
  shows "distinct (map fst (snd (fold paste_cell pns acc)))"
  using assms
proof (induction pns arbitrary: acc)
  case (Cons pn pns)
  have "distinct (map fst (snd (paste_cell pn acc))) \<and> set (map fst (snd (paste_cell pn acc))) \<subseteq> insert (fst pn) (set (map fst (snd acc)))"
    using Cons.prems(2, 3) by (cases pn; cases acc) (auto simp: paste_cell_def split: option.split prod.split)
  moreover have "fst pn \<notin> set (map fst pns)" "set (map fst (snd acc)) \<inter> set (map fst pns) = {}" using Cons.prems(1, 3) by auto
  ultimately have "distinct (map fst (snd (paste_cell pn acc)))" "set (map fst (snd (paste_cell pn acc))) \<inter> set (map fst pns) = {}"
    by blast+
  then show ?case using Cons.IH [of "paste_cell pn acc"] Cons.prems(1) by simp
qed simp

lemma distinct_zip: "distinct xs \<Longrightarrow> distinct (map fst (zip xs ys))"
  by (simp add: map_fst_zip_take)

lemma paste_edits:
  assumes "es_ok s"
  shows "edits_to s (snd (es_paste at s))"
proof (cases "clip_empty (es_clipboard s)")
  case False
  obtain cx cy cz where c: "clip_size (es_clipboard s) = (cx, cy, cz)" by (cases "clip_size (es_clipboard s)") blast
  let ?ps = "map (shifted at) (grid_positions (0, 0, 0) (cx - 1, cy - 1, cz - 1))"
  let ?f = "fold paste_cell (zip ?ps (clip_cells (es_clipboard s))) (s, [])"
  have "distinct ?ps" by (simp add: distinct_map grid_distinct inj_on_def shifted_inj)
  then have d: "distinct (map fst (snd ?f))" by (intro paste_cells_distinct distinct_zip) auto
  note same = paste_cells_same [of "zip ?ps (clip_cells (es_clipboard s))" "(s, [])"]
  have "es_ok (fst ?f)" by (rule ok_from [OF _ _ assms]) (use same in simp_all)
  from value_changes_edits [OF this d] have "edits_to s (snd (push_changes (lit ''paste'') (value_changes (fst ?f) (snd ?f)) (fst ?f)))"
    by (rule edits_from [rotated 2]) (use same in simp_all)
  then show ?thesis using False by (simp add: es_paste_def c case_prod_unfold Let_def)
qed (use assms in \<open>simp add: es_paste_def edits_same\<close>)

lemma edits_only: "edits_to s t \<Longrightarrow> es_undo u = es_undo t \<Longrightarrow> es_doc u = es_doc t \<Longrightarrow> es_variant u = es_variant t \<Longrightarrow> edits_to s u"
  by (simp add: edits_to_def es_ok_def)

lemma clamp_selection_same [simp]: "es_undo (clamp_selection s) = es_undo s" "es_doc (clamp_selection s) = es_doc s"
    "es_variant (clamp_selection s) = es_variant s"
  by (simp_all add: clamp_selection_def es_select_def)

lemma touches_distinct: "distinct (map fst acc) \<Longrightarrow> distinct (map fst (fold (\<lambda>p acc. if P p then touch_cell (g p) (b p) acc else acc) ps acc))"
  by (induction ps arbitrary: acc) (auto simp: touch_distinct simp del: set_map)

lemma move_edits:
  assumes "es_ok s"
  shows "edits_to s (snd (es_move_selection d s))"
proof (cases "es_selection s = None \<or> d = (0, 0, 0)")
  case False
  then obtain b where b: "es_selection s = Some b" by auto
  let ?v = "es_volume s"
  let ?filled = "filter (\<lambda>p. vol_get ?v p \<noteq> kKeepCell) (box_positions b)"
  let ?a = "fold (\<lambda>p a. if vol_inside ?v (shifted d p) then touch_cell (shifted d p) (vol_get ?v p) a else a) ?filled
    (fold (\<lambda>p. touch_cell p kKeepCell) ?filled [])"
  have "distinct (map fst (fold (\<lambda>p. touch_cell p kKeepCell) ?filled []))"
    using touches_distinct [of "[]" "\<lambda>_. True" "\<lambda>p. p" "\<lambda>_. kKeepCell" ?filled] by simp
  then have "distinct (map fst ?a)" by (rule touches_distinct)
  note e = value_changes_edits [OF assms this, of "lit ''move''"]
  show ?thesis
    using e False b
    by (cases "push_changes (lit ''move'') (value_changes s ?a) s")
      (auto simp: es_move_selection_def Let_def assms edits_same intro: edits_only split: bool.split)
qed (use assms in \<open>auto simp: es_move_selection_def edits_same split: option.split\<close>)

lemma length_replace: "length (replace_volumes vs ds) = length ds"
  by (induction vs ds rule: replace_volumes.induct) auto

lemma resize_edits:
  assumes "es_ok s"
  shows "edits_to s (snd (es_resize n side s))"
proof -
  have v: "edits_to s t" if "es_undo t = es_undo (push_command (Volume_Replace l (map dv_volume (doc_variants (es_doc s))) (doc_anchor (es_doc s)) (map f (map dv_volume (doc_variants (es_doc s)))) a) s)"
      "es_doc t = es_doc (push_command (Volume_Replace l (map dv_volume (doc_variants (es_doc s))) (doc_anchor (es_doc s)) (map f (map dv_volume (doc_variants (es_doc s)))) a) s)"
      "es_variant t = es_variant s" for t l f a
    by (rule edits_push [OF goes_back_volumes _ that(1, 2)]) (use assms that(3) in \<open>simp_all add: es_ok_def that(2) set_volumes_def length_replace\<close>)
  show ?thesis
    unfolding es_resize_def
    by (cases n; cases side; cases "doc_size (es_doc s)"; cases "doc_anchor (es_doc s)")
      (auto simp: Let_def assms edits_same intro!: v)
qed

lemma anchor_edits:
  assumes "es_ok s"
  shows "edits_to s (snd (es_set_anchor p s))"
proof -
  let ?c = "Volume_Replace (lit ''move anchor'') (map dv_volume (doc_variants (es_doc s))) (doc_anchor (es_doc s)) (map dv_volume (doc_variants (es_doc s))) p"
  have "edits_to s (push_command ?c s)"
    by (rule edits_push [OF goes_back_volumes]) (use assms in \<open>simp_all add: es_ok_def set_volumes_def length_replace\<close>)
  then show ?thesis unfolding es_set_anchor_def by (cases p; cases "doc_size (es_doc s)") (auto simp: Let_def assms edits_same)
qed

lemma push_variants_edits:
  assumes "es_undo t = es_undo s" and "body_of (es_doc t) = body_of (es_doc s)" and "after \<noteq> []"
  shows "edits_to s (snd (push_variants l after k t))"
proof -
  have "edits_to t (snd (push_variants l after k t))"
    by (rule edits_push [OF goes_back_variants]) (use assms(3) in \<open>simp_all add: push_variants_def Let_def es_ok_def min_def, auto simp: less_eq_iff_succ_less\<close>)
  then show ?thesis by (rule edits_from [OF assms(1, 2)])
qed

lemma variants_nonempty: "es_ok s \<Longrightarrow> doc_variants (es_doc s) \<noteq> []"
  by (auto simp: es_ok_def)

lemma generate_edits:
  assumes "es_ok s"
  shows "edits_to s (snd (es_generate l gen seed s))"
proof -
  obtain fresh ns where g: "gen (es_volume s) (doc_anchor (es_doc s)) (doc_names (es_doc s)) seed = (fresh, ns)"
    by (cases "gen (es_volume s) (doc_anchor (es_doc s)) (doc_names (es_doc s)) seed")
  let ?t = "s\<lparr>es_doc := (es_doc s)\<lparr>doc_names := ns\<rparr>\<rparr>"
  have "es_ok ?t" using assms by (simp add: es_ok_def)
  moreover have "distinct (map fst (map (\<lambda>p. (p, vol_get fresh p)) (all_cells fresh)))"
    by (auto simp: comp_def all_cells_def grid_distinct split: prod.split)
  ultimately have "edits_to ?t (snd (push_changes (lit ''generate '' @ l) (value_changes ?t (map (\<lambda>p. (p, vol_get fresh p)) (all_cells fresh))) ?t))"
    by (rule value_changes_edits)
  then have "edits_to s (snd (push_changes (lit ''generate '' @ l) (value_changes ?t (map (\<lambda>p. (p, vol_get fresh p)) (all_cells fresh))) ?t))"
    by (rule edits_from [rotated 2]) (simp_all add: body_of_def)
  then show ?thesis by (simp add: es_generate_def g Let_def)
qed

lemma baked_nonempty: "fst p \<noteq> [] \<Longrightarrow> fst (fold (\<lambda>i p. (fst p @ [h i p], k i p)) is p) \<noteq> []"
  by (induction "is" arbitrary: p) auto

lemma bake_edits:
  assumes "es_ok s"
  shows "edits_to s (snd (es_bake l gen base k s))"
proof (cases "k < 1")
  case False
  show ?thesis
    by (simp add: es_bake_def Let_def case_prod_unfold False)
      (rule push_variants_edits, simp_all add: body_of_def baked_nonempty variants_nonempty [OF assms])
qed (simp add: es_bake_def assms edits_same)

lemma add_edits: "es_ok s \<Longrightarrow> edits_to s (snd (es_add_variant s))"
  by (simp add: es_add_variant_def push_variants_edits insert_at_def)

lemma duplicate_edits: "es_ok s \<Longrightarrow> edits_to s (snd (es_duplicate_variant i s))"
  by (simp add: es_duplicate_variant_def Let_def push_variants_edits insert_at_def edits_same)

lemma delete_edits: "es_ok s \<Longrightarrow> edits_to s (snd (es_delete_variant i s))"
  by (auto simp: es_delete_variant_def Let_def edits_same intro!: push_variants_edits)

lemma move_variant_edits: "es_ok s \<Longrightarrow> edits_to s (snd (es_move_variant i d s))"
  by (auto simp: es_move_variant_def Let_def edits_same dest: variants_nonempty intro!: push_variants_edits)

lemma weight_edits:
  assumes "es_ok s"
  shows "edits_to s (snd (es_set_weight F i w s))"
proof -
  have "edits_to s (push_command (Variants_Replace l (doc_variants (es_doc s)) ((doc_variants (es_doc s))[i := x])) s)" for l x
    by (rule edits_push [OF goes_back_variants]) (use assms in \<open>simp_all add: es_ok_def\<close>)
  then show ?thesis by (simp add: es_set_weight_def Let_def assms edits_same)
qed

lemma placement_edits:
  assumes "es_ok s"
  shows "edits_to s (snd (es_set_placement F sp s))"
proof -
  have "edits_to s (push_command (Placement_Replace (doc_placement (es_doc s)) sp) s)"
    by (rule edits_push [OF goes_back_placement]) (use assms in \<open>simp_all add: es_ok_def\<close>)
  then show ?thesis by (simp add: es_set_placement_def assms edits_same)
qed

lemma step_edits:
  assumes "es_ok s" and "op \<notin> {Op_Mark_Saved, Op_Undo, Op_Redo}"
  shows "edits_to s (edit_step F op s)"
  using assms
  by (cases op)
    (simp_all add: place_edits remove_edits paint_edits box_fill_edits line_edits flood_edits cut_edits paste_edits move_edits resize_edits
      anchor_edits generate_edits bake_edits add_edits duplicate_edits delete_edits move_variant_edits weight_edits placement_edits,
     auto simp: es_ok_def set_variant_def es_select_def copy_selection_def intro!: edits_same split: option.split)

section \<open>The stack refines the history\<close>

definition stack_holds :: "edit_session \<Rightarrow> doc_body list \<Rightarrow> bool" where
  "stack_holds s bs \<longleftrightarrow> (let st = es_undo s in
     es_ok s \<and> length bs = Suc (length (us_commands st)) \<and> us_next st \<le> length (us_commands st) \<and>
     bs ! us_next st = body_of (es_doc s) \<and> (\<forall>b \<in> set bs. snd (snd b) \<noteq> []) \<and>
     (\<forall>i < length (us_commands st). leads (us_commands st ! i) (bs ! i) (bs ! Suc i)))"

definition history_at :: "doc_body list \<Rightarrow> nat \<Rightarrow> edit_history" where
  "history_at bs k = \<lparr>eh_past = take k bs, eh_present = bs ! k, eh_future = drop (Suc k) bs\<rparr>"

lemma history_undo: "k < length bs \<Longrightarrow> eh_undo (history_at bs k) = history_at bs (k - 1)"
  by (cases k) (auto simp: eh_undo_def history_at_def take_Suc_conv_app_nth Cons_nth_drop_Suc)

lemma history_redo: "eh_redo (history_at bs k) = (if Suc k < length bs then history_at bs (Suc k) else history_at bs k)" if "k < length bs"
proof (cases "Suc k < length bs")
  case True
  then have "drop (Suc k) bs = bs ! Suc k # drop (Suc (Suc k)) bs" by (simp add: Cons_nth_drop_Suc)
  then show ?thesis using True that by (simp add: eh_redo_def history_at_def take_Suc_conv_app_nth)
qed (simp add: eh_redo_def history_at_def)

lemma history_push: "k < length bs \<Longrightarrow> eh_push b (history_at bs k) = history_at (take (Suc k) bs @ [b]) (Suc k)"
  by (auto simp: eh_push_def history_at_def nth_append take_Suc_conv_app_nth)

lemma holds_push:
  assumes "stack_holds s bs" and "edits_to s s'" and "records s s'"
  shows "stack_holds s' (take (Suc (us_next (es_undo s))) bs @ [body_of (es_doc s')])" and "us_next (es_undo s') = Suc (us_next (es_undo s))"
proof -
  obtain c d where c: "goes_back c d" "body_of d = body_of (es_doc s)" "es_undo s' = fst (us_push c (es_undo s) d)"
    "body_of (es_doc s') = body_of (apply_command c d)" "es_ok s'"
    using assms(2, 3) by (auto simp: edits_to_def records_def)
  show n: "us_next (es_undo s') = Suc (us_next (es_undo s))" by (simp add: c(3) us_push_def)
  have l: "leads c (bs ! us_next (es_undo s)) (body_of (es_doc s'))"
    using leads_back [OF c(1) [unfolded goes_back_def]] assms(1) by (simp add: c(2, 4) stack_holds_def Let_def)
  have "snd (snd (body_of (es_doc s'))) \<noteq> []" using c(5) by (auto simp: es_ok_def body_of_def)
  then show "stack_holds s' (take (Suc (us_next (es_undo s))) bs @ [body_of (es_doc s')])"
    using assms(1) c(5) l unfolding stack_holds_def Let_def n c(3)
    by (auto simp: us_push_def nth_append less_Suc_eq min_def dest: in_set_takeD)
qed

lemma holds_at:
  assumes "stack_holds s bs" and "k \<le> length (us_commands (es_undo s))" and "body_of doc = bs ! k"
  shows "stack_holds (after_history ((es_undo s)\<lparr>us_next := k\<rparr>) doc s) bs"
    and "es_undo (after_history ((es_undo s)\<lparr>us_next := k\<rparr>) doc s) = (es_undo s)\<lparr>us_next := k\<rparr>"
    and "body_of (es_doc (after_history ((es_undo s)\<lparr>us_next := k\<rparr>) doc s)) = bs ! k"
proof -
  have "bs ! k \<in> set bs" using assms(1, 2) by (simp add: stack_holds_def Let_def)
  then have "doc_variants doc \<noteq> []" using assms(1) by (auto simp: stack_holds_def Let_def assms(3) [symmetric] body_of_def)
  then show "stack_holds (after_history ((es_undo s)\<lparr>us_next := k\<rparr>) doc s) bs"
    using assms by (cases "doc_variants doc") (auto simp: stack_holds_def Let_def after_history_def es_ok_def min_def)
qed (simp_all add: after_history_def assms(3))

lemma holds_mark: "stack_holds s bs \<Longrightarrow> stack_holds (es_mark_saved s) bs"
  by (simp add: stack_holds_def Let_def es_mark_saved_def us_mark_saved_def es_ok_def)

lemma holds_undo:
  assumes "stack_holds s bs"
  shows "stack_holds (edit_step F Op_Undo s) bs" and "us_next (es_undo (edit_step F Op_Undo s)) = us_next (es_undo s) - 1"
    and "es_undo (edit_step F Op_Undo s) = (es_undo s)\<lparr>us_next := us_next (es_undo s) - 1\<rparr>"
proof -
  let ?k = "us_next (es_undo s) - 1"
  have "stack_holds (edit_step F Op_Undo s) bs \<and> es_undo (edit_step F Op_Undo s) = (es_undo s)\<lparr>us_next := ?k\<rparr>"
  proof (cases "us_next (es_undo s) = 0")
    case True
    then have "edit_step F Op_Undo s = s" by (simp add: es_undo_step_def us_undo_def can_undo_def)
    then show ?thesis using assms True by simp
  next
    case False
    let ?doc = "revert_command (us_commands (es_undo s) ! ?k) (es_doc s)"
    have l: "leads (us_commands (es_undo s) ! ?k) (bs ! ?k) (bs ! us_next (es_undo s))" "?k \<le> length (us_commands (es_undo s))"
      "bs ! us_next (es_undo s) = body_of (es_doc s)"
      using assms False by (auto simp: stack_holds_def Let_def dest: spec [of _ ?k])
    then have "body_of ?doc = bs ! ?k" by (simp add: leads_def)
    note h = holds_at [OF assms l(2) this]
    have "edit_step F Op_Undo s = after_history ((es_undo s)\<lparr>us_next := ?k\<rparr>) ?doc s"
      using False by (simp add: es_undo_step_def us_undo_def can_undo_def)
    then show ?thesis using h by simp
  qed
  then show "stack_holds (edit_step F Op_Undo s) bs" and "us_next (es_undo (edit_step F Op_Undo s)) = ?k"
    and "es_undo (edit_step F Op_Undo s) = (es_undo s)\<lparr>us_next := ?k\<rparr>" by simp_all
qed

lemma holds_redo:
  assumes "stack_holds s bs"
  shows "stack_holds (edit_step F Op_Redo s) bs"
    and "es_undo (edit_step F Op_Redo s) = (if can_redo (es_undo s) then (es_undo s)\<lparr>us_next := Suc (us_next (es_undo s))\<rparr> else es_undo s)"
proof -
  let ?k = "us_next (es_undo s)"
  have "stack_holds (edit_step F Op_Redo s) bs \<and>
      es_undo (edit_step F Op_Redo s) = (if can_redo (es_undo s) then (es_undo s)\<lparr>us_next := Suc ?k\<rparr> else es_undo s)"
  proof (cases "can_redo (es_undo s)")
    case False
    then have "edit_step F Op_Redo s = s" by (simp add: es_redo_step_def us_redo_def)
    then show ?thesis using assms False by simp
  next
    case True
    let ?doc = "apply_command (us_commands (es_undo s) ! ?k) (es_doc s)"
    have l: "leads (us_commands (es_undo s) ! ?k) (bs ! ?k) (bs ! Suc ?k)" "Suc ?k \<le> length (us_commands (es_undo s))"
      "bs ! ?k = body_of (es_doc s)"
      using assms True by (auto simp: stack_holds_def Let_def can_redo_def)
    then have "body_of ?doc = bs ! Suc ?k" by (simp add: leads_def)
    note h = holds_at [OF assms l(2) this]
    have "edit_step F Op_Redo s = after_history ((es_undo s)\<lparr>us_next := Suc ?k\<rparr>) ?doc s"
      using True by (simp add: es_redo_step_def us_redo_def)
    then show ?thesis using h True by simp
  qed
  then show "stack_holds (edit_step F Op_Redo s) bs"
    and "es_undo (edit_step F Op_Redo s) = (if can_redo (es_undo s) then (es_undo s)\<lparr>us_next := Suc ?k\<rparr> else es_undo s)" by simp_all
qed

lemma holds_same:
  assumes "stack_holds s bs" and "edits_to s s'" and "\<not> records s s'"
  shows "stack_holds s' bs" and "es_undo s' = es_undo s"
proof -
  have same: "es_undo s' = es_undo s" "body_of (es_doc s') = body_of (es_doc s)" "es_ok s'"
    using assms(2, 3) by (auto simp: edits_to_def records_def us_push_def)
  show "es_undo s' = es_undo s" by (rule same(1))
  show "stack_holds s' bs" using assms(1) same by (simp add: stack_holds_def Let_def)
qed

definition saved_holds :: "edit_session \<Rightarrow> doc_body list \<Rightarrow> doc_body \<Rightarrow> bool" where
  "saved_holds s bs saved \<longleftrightarrow> (us_saved_valid (es_undo s) \<longrightarrow> us_saved (es_undo s) < length bs \<and> bs ! us_saved (es_undo s) = saved)"

definition run_ok :: "edit_session \<times> edit_history \<times> doc_body \<Rightarrow> bool" where
  "run_ok st \<longleftrightarrow> (case st of (s, h, saved) \<Rightarrow> \<exists>bs. stack_holds s bs \<and> h = history_at bs (us_next (es_undo s)) \<and> saved_holds s bs saved)"

lemma edit_step_ok:
  assumes "stack_holds s bs" and "h = history_at bs (us_next (es_undo s))" and "saved_holds s bs saved"
  shows "run_ok (edit_step F op s, history_step op s (edit_step F op s) h, if op = Op_Mark_Saved then body_of (es_doc s) else saved)"
proof -
  let ?s = "edit_step F op s"
  have k: "us_next (es_undo s) < length bs" "length bs = Suc (length (us_commands (es_undo s)))" "es_ok s"
    "bs ! us_next (es_undo s) = body_of (es_doc s)" using assms(1) by (auto simp: stack_holds_def Let_def)
  consider "op = Op_Undo" | "op = Op_Redo" | "op = Op_Mark_Saved" | "op \<notin> {Op_Mark_Saved, Op_Undo, Op_Redo}" by blast
  then show ?thesis
  proof cases
    case 1
    show ?thesis using holds_undo [OF assms(1), of F] assms(2, 3) history_undo [OF k(1)]
      unfolding run_ok_def 1 by (auto simp: history_step_def saved_holds_def intro!: exI [of _ bs] simp del: edit_step.simps)
  next
    case 2
    show ?thesis using holds_redo [OF assms(1), of F] assms(2, 3) history_redo [OF k(1)] k(2)
      unfolding run_ok_def 2 by (auto simp: history_step_def saved_holds_def can_redo_def intro!: exI [of _ bs] simp del: edit_step.simps)
  next
    case 3
    show ?thesis using holds_mark [OF assms(1)] assms(2) k unfolding run_ok_def 3
      by (auto simp: history_step_def records_def saved_holds_def es_mark_saved_def us_mark_saved_def intro!: exI [of _ bs])
  next
    case 4
    note e = step_edits [OF k(3) 4, of F]
    have h: "history_step op s ?s h = (if records s ?s then eh_push (body_of (es_doc ?s)) h else h)"
      using 4 by (cases op) (simp_all add: history_step_def)
    show ?thesis
    proof (cases "records s ?s")
      case False
      show ?thesis using holds_same [OF assms(1) e False] assms(2, 3) False 4
        unfolding run_ok_def h by (auto simp: saved_holds_def intro!: exI [of _ bs] simp del: edit_step.simps)
    next
      case True
      note p = holds_push [OF assms(1) e True]
      have "us_saved_valid (es_undo ?s) \<Longrightarrow> us_saved_valid (es_undo s) \<and> us_saved (es_undo s) \<le> us_next (es_undo s)"
        "us_saved (es_undo ?s) = us_saved (es_undo s)"
        using e True by (auto simp: edits_to_def records_def us_push_def simp del: edit_step.simps)
      then have "saved_holds ?s (take (Suc (us_next (es_undo s))) bs @ [body_of (es_doc ?s)]) saved"
        using assms(3) k(1) by (auto simp: saved_holds_def nth_append)
      then show ?thesis using p history_push [OF k(1)] True assms(2) 4
        unfolding run_ok_def h by (auto simp del: edit_step.simps)
    qed
  qed
qed

lemma run_stays_ok: "run_ok st \<Longrightarrow> run_ok (edit_run F ops st)"
proof (induction ops arbitrary: st)
  case (Cons op ops)
  obtain s h saved where st: "st = (s, h, saved)" by (cases st)
  obtain bs where bs: "stack_holds s bs" "h = history_at bs (us_next (es_undo s))" "saved_holds s bs saved"
    using Cons.prems by (auto simp: run_ok_def st)
  show ?case using Cons.IH [OF edit_step_ok [OF bs, of F op]] by (simp add: st Let_def)
qed simp

lemma open_ok: "doc_variants doc \<noteq> [] \<Longrightarrow> run_ok (open_session doc, start_history (body_of doc), body_of doc)"
  unfolding run_ok_def
  by (auto simp: open_session_def new_stack_def stack_holds_def es_ok_def history_at_def start_history_def saved_holds_def body_of_def
    intro!: exI [of _ "[body_of doc]"])

text \<open>The history is what the editor shows, and a document that counts as saved, with its mark alive, is the saved one.\<close>

lemma run_shows:
  assumes "doc_variants doc \<noteq> []" and "edit_run F ops (open_session doc, start_history (body_of doc), body_of doc) = (s, h, saved)"
  shows "eh_present h = body_of (es_doc s)" and "can_undo (es_undo s) \<longleftrightarrow> eh_past h \<noteq> []" and "can_redo (es_undo s) \<longleftrightarrow> eh_future h \<noteq> []"
    and "us_saved_valid (es_undo s) \<Longrightarrow> \<not> es_dirty s \<Longrightarrow> body_of (es_doc s) = saved"
proof -
  obtain bs where bs: "stack_holds s bs" "h = history_at bs (us_next (es_undo s))" "saved_holds s bs saved"
    using run_stays_ok [OF open_ok [OF assms(1)], of F ops] unfolding assms(2) run_ok_def by blast
  then show "eh_present h = body_of (es_doc s)" by (simp add: history_at_def stack_holds_def Let_def)
  show "can_undo (es_undo s) \<longleftrightarrow> eh_past h \<noteq> []" using bs by (auto simp: history_at_def stack_holds_def Let_def can_undo_def)
  show "can_redo (es_undo s) \<longleftrightarrow> eh_future h \<noteq> []" using bs by (auto simp: history_at_def stack_holds_def Let_def can_redo_def)
  show "body_of (es_doc s) = saved" if "us_saved_valid (es_undo s)" "\<not> es_dirty s"
    using bs that by (auto simp: saved_holds_def es_dirty_def us_dirty_def stack_holds_def Let_def)
qed

section \<open>A lost mark\<close>

text \<open>Save after the first edit, take it back, edit anew and take that back: the editor calls the document saved.\<close>

lemma lost_mark:
  assumes "doc_variants doc \<noteq> []" and "op1 \<notin> {Op_Mark_Saved, Op_Undo, Op_Redo}" and "op2 \<notin> {Op_Mark_Saved, Op_Undo, Op_Redo}"
    and s1: "s1 = edit_step F op1 (open_session doc)" and "records (open_session doc) s1"
    and s2: "s2 = edit_step F Op_Undo (edit_step F Op_Mark_Saved s1)" and s3: "s3 = edit_step F op2 s2" and "records s2 s3"
  shows "\<not> es_dirty (edit_step F Op_Undo s3) \<and> body_of (es_doc (edit_step F Op_Undo s3)) = body_of doc"
proof -
  have o': "stack_holds (open_session doc) [body_of doc]" "us_next (es_undo (open_session doc)) = 0" "es_ok (open_session doc)"
    using assms(1) by (auto simp: open_session_def new_stack_def stack_holds_def es_ok_def body_of_def)
  note p1 = holds_push [OF o'(1) step_edits [OF o'(3) assms(2), of F, folded s1] assms(5)]
  let ?bs = "[body_of doc, body_of (es_doc s1)]"
  have h1: "stack_holds s1 ?bs" "us_next (es_undo s1) = 1" using p1 o'(2) by simp_all
  have "stack_holds (edit_step F Op_Mark_Saved s1) ?bs" "us_saved (es_undo (edit_step F Op_Mark_Saved s1)) = 1"
    "us_next (es_undo (edit_step F Op_Mark_Saved s1)) = 1"
    using holds_mark [OF h1(1)] h1(2) by (simp_all add: es_mark_saved_def us_mark_saved_def)
  then have h2: "stack_holds s2 ?bs" "us_next (es_undo s2) = 0" "us_saved (es_undo s2) = 1"
    using holds_undo [of "edit_step F Op_Mark_Saved s1" ?bs F] unfolding s2 by simp_all
  then have "es_ok s2" by (simp add: stack_holds_def Let_def)
  note e = step_edits [OF this assms(3), of F, folded s3]
  note p3 = holds_push [OF h2(1) e assms(8)]
  have "\<not> us_saved_valid (es_undo s3)" using e assms(8) h2(2, 3) by (auto simp: edits_to_def records_def us_push_def)
  then have "\<not> es_dirty (edit_step F Op_Undo s3)"
    using holds_undo(3) [OF p3(1), of F] p3(2) h2(2) by (simp add: es_dirty_def us_dirty_def)
  moreover have "body_of (es_doc (edit_step F Op_Undo s3)) = body_of doc"
    using holds_undo(1, 2) [OF p3(1), of F] p3(2) h2(2) by (simp add: stack_holds_def Let_def)
  ultimately show ?thesis by blast
qed

end
