(* ===== verification/Spec2Isabelle.thy ===== *)
theory Spec2Isabelle
  imports Decoder_Bounds Handshake_Defaults Client_Session Client_Chunks Lifecycle_Laws Client_Prediction Replication_Examples Raycast Day_Night Session_Examples Loopback_Transport Generation_Examples Editor_History
begin

text \<open>
  Verification library of the voxel browser's core: the protocol, the two ends of a connection, the
  world with its light, its storage and its replication, the movement of players and the session that
  drives them all, the generation of the world and the editor of its structures. Paths below
  are under \<open>src/src/\<close>, with the headers of the same name under
  \<open>src/inc/vb/\<close>.

  The program. A server generates and lights chunks of 32 x 32 x 32 voxels, keeps them in memory while a
  player is near and saves edited ones; a client joins by a handshake, syncs the pack's assets, mirrors
  the chunks and entities it is sent, predicts its own movement and block edits and is corrected by the
  server. Both talk in framed messages over a transport with lanes.

  Theories, with what each models and proves.

  \<^item> Wire. \<open>Byte_Buffer\<close> has the writer and the reader with its sticky error
    (\<open>protocol/byte_buffer.hpp\<close>); \<open>Wire_Laws\<close> the law that what is written is read back,
    \<open>Reader_Safety\<close> that no reader leaves its input, \<open>Decoder_Bounds\<close> what an accepted message can
    hold. \<open>Message_Frame\<close> is the envelope, \<open>Handshake_Messages\<close>, \<open>World_Messages\<close>,
    \<open>Entity_Messages\<close> and \<open>Session_Messages\<close> the messages of \<open>protocol/\<close>, each an interpretation
    of the locale \<open>message_codec\<close>; \<open>Compression\<close> the LZ4 framing, \<open>Run_Length\<close> and
    \<open>Chunk_Codec\<close> the chunk payload (\<open>world/chunk_codec.cpp\<close>).
  \<^item> World. \<open>Paletted_Store\<close> refines a map from voxels to blocks, \<open>Chunk_Model\<close>,
    \<open>Block_Registry\<close> and \<open>World_Store\<close> are \<open>world/chunk.hpp\<close>, \<open>block.cpp\<close>, \<open>world.cpp\<close>;
    \<open>Light_Flood\<close>, \<open>Lighting\<close> and \<open>Light_Column\<close> are \<open>world/lighting.cpp\<close>, the flood proved
    to give the least light that obeys the rules of spreading. \<open>Region_Store\<close> and
    \<open>Chunk_Lifecycle\<close> with \<open>Lifecycle_Laws\<close> are saving, loading, generating and unloading.
    \<open>Raycast\<close>, \<open>Day_Night\<close>, \<open>Block_Damage_System\<close> and \<open>Item_Drops\<close> are the files of
    those names, \<open>Movement\<close> is \<open>physics/movement.cpp\<close> over \<open>Float_Math\<close>.
  \<^item> Joining. \<open>Server_Handshake\<close> and \<open>Client_Handshake\<close> are the machines of
    \<open>net/handshake.cpp\<close>, with \<open>Handshake_Defaults\<close>; \<open>Asset_Stream\<close> shows that the paced chunks
    are the files that were asked for, \<open>Asset_Cache\<close> is \<open>assetsync/cache.cpp\<close>, \<open>Version_Req\<close> the
    requirement language of \<open>core/version_req.cpp\<close>.
  \<^item> Client. \<open>Client_Session\<close> and \<open>Client_World\<close> are \<open>ClientSession\<close> (\<open>net/session.cpp\<close>)
    before and after it has joined, \<open>Client_Chunks\<close> and \<open>Block_Damage_Tracker\<close> what it mirrors;
    \<open>Client_Prediction\<close> is about its predictions.
  \<^item> Replication. \<open>Chunk_Interest\<close>, \<open>World_Replicator\<close> and \<open>Interest_Grid\<close> decide who is sent
    what; \<open>Replication_Mirror\<close> and \<open>Edit_Replication\<close> put them together with the wire and the
    client, \<open>Replication_Examples\<close> holds instances.
  \<^item> Server session. \<open>Server_Session\<close>, \<open>Session_Actions\<close>, \<open>Session_Network\<close> and
    \<open>Session_Tick\<close> are \<open>ServerSession\<close> (\<open>net/session.cpp\<close>): the state and what scripts may call,
    what players do, the transport's events with the handshake inside, and the systems of a tick.
    \<open>Session_Frame\<close> shows what a tick leaves alone, \<open>Session_Safety\<close> the invariant of every
    reachable session, \<open>Session_Guards\<close> what strangers cannot do, \<open>Session_Inputs\<close> that inputs
    count once and predictions agree, \<open>Session_Snapshots\<close> how the client's entities follow the
    server's; \<open>Session_Examples\<close> joins a player message by message.
  \<^item> Generation. \<open>World_Noise\<close> is \<open>core/noise.hpp\<close>, \<open>worldgen/det_rng.hpp\<close> and
    \<open>worldgen/noise_graph.cpp\<close>, \<open>Biome_Selector\<close> the draw of biomes with its memo,
    \<open>Structure_Defs\<close> the structures as written and as resolved, \<open>World_Generator\<close> terrain, carvers
    and veins, \<open>Structure_Placement\<close> the placements, the stamping, the whole chunk and the first spawn
    position (\<open>worldgen/generator.cpp\<close>, \<open>structure_placement.cpp\<close>): a chunk needs no neighbour to be
    generated. \<open>Generation_Examples\<close> holds two generators to try it on.
  \<^item> Structure editor. \<open>Editor_Document\<close> is the document, its commands and the undo stack
    (\<open>editor/volume.hpp\<close>, \<open>structure_doc.hpp\<close>, \<open>commands.hpp\<close>, \<open>shapes.hpp\<close>),
    \<open>Structure_Editor\<close> the tools (\<open>editor/edit_session.hpp\<close>), \<open>Editor_History\<close> the history the
    stack refines, and where the mark of a saved document is lost.
  \<^item> Transport. \<open>Loopback_Transport\<close> is \<open>net/loopback.cpp\<close>, refined to a pair of lossless queues
    per connection.

  Conventions. A class is a record of its fields, a method a function to the new state; an error is a
  \<open>sum\<close> or \<open>option\<close>; machine integers are words of their width, so arithmetic wraps where the code's
  does; a hash map that is iterated is a list in the iterated order, otherwise a map. A \<open>double\<close> is its 64
  bits and arithmetic on it is the record \<open>float_ops\<close> of unspecified functions: theorems hold for every
  arithmetic unless they name a hypothesis, and \<open>integer_ops\<close> instantiates it in the witnesses. Hooks and
  callbacks are function parameters, and so is what is not in the repository: LZ4, the platform's
  clocks, librg's query, the asset hash. Interfaces are locales, interpreted in the theory of the provider.

  Termination. Loops are structural recursion or have a measure (\<open>heal_loop\<close>, the floods, the eviction of
  the cache); a ray walks at most 512 voxels as the code bounds it, and no definition needs fuel beyond the
  bounds the code has.

  World generation. Columns and heights are unbounded integers, the \<open>int\<close> of the code as far as it does
  not overflow, which \<open>rules_ok\<close> states where a spacing enters. Placements are sorted by a key that two
  placements never share, so the unstable sort of the code and the stable one of the model agree.

  Not modelled:
  \<^item> the GameNetworkingSockets transport (\<open>net/gns_transport.cpp\<close>), a binding of a library that is
    not in the repository; its events are the input of \<open>session_step\<close>;
  \<^item> sign-in (\<open>auth/\<close>): HTTP, JSON and signatures of libraries; the handshake takes the verdict;
  \<^item> the Lua runtime (\<open>script/\<close>), whose hooks are function parameters, and the server program;
  \<^item> meshing, rendering, the user interface and the client's main loop (\<open>render/\<close>, \<open>client/\<close>);
  \<^item> the structure editor's files, built-in generators (a parameter) and window, the command line tools
    and the test automation, which are programs of their own around files, processes and sockets;
  \<^item> configuration, logging, paths and the hash of assets (\<open>core/\<close>), and the FastNoise2 backend.

\<close>

section \<open>Properties\<close>

text \<open>
  C1. In every session a server can reach, by ticks under any transport events and any hooks that
  keep to their interface and by calls of its scripting interface: the connections are listed
  once each in the order of their ids, the count of players is the number of connections that
  play, and a connection plays only when its handshake has reached kPlaying; under external
  authentication it then plays under the identity and the name its handshake verified.
\<close>

theorem session_invariant:
  assumes "session_reachable cfg s"
  shows "sorted_wrt (<) (map fst (sn_conns s)) \<and> sn_playing s = length (filter (\<lambda>(c, cn). cn_playing cn) (sn_conns s)) \<and>
    (\<forall>c cn. find_conn c s = Some cn \<longrightarrow> cn_playing cn \<longrightarrow> sv_state (cn_handshake cn) = kPlaying \<and>
      (sc_auth_mode cfg = kAuthExternal \<longrightarrow> (\<exists>l v. cn_login cn = Some l \<and> sv_login (cn_handshake cn) = Some v \<and>
         same_identity l v \<and> ld_name l = ld_name v)))"
  using reachable_ok [OF assms] ok_found [of cfg s] unfolding session_ok_def conn_ok_def by blast

theorem session_invariant_witness:
  "sn_playing demo_session = length (filter (\<lambda>(c, cn). cn_playing cn) (sn_conns demo_session)) \<and>
   (\<exists>cn l v. find_conn 7 demo_session = Some cn \<and> cn_playing cn \<and> cn_login cn = Some l \<and>
     sv_login (cn_handshake cn) = Some v \<and> same_identity l v \<and> ld_name l = ld_name v)"
proof -
  obtain cn where cn: "find_conn 7 demo_session = Some cn" "cn_playing cn" using demo_plays by blast
  have "sc_auth_mode external_config = kAuthExternal" by (simp add: external_config_def)
  with cn session_invariant [OF conjunct1 [OF demo_plays]] show ?thesis by blast
qed

text \<open>
  C2. After a tick of the replicator without a send budget, a player whose client mirrors what the
  server believes receives frames, compressed or not, that leave the client showing exactly the
  loaded chunks of the player's view box, blocks and light alike, and the mirror holds again.
\<close>

theorem replication_shows_view:
  assumes "replicator_tick F (ce_lz4 env) late order players rp = Some (out, rp')"
    and "state_ok (at_start (rep_lifecycle rp, rep_world rp, rep_pool rp))"
    and "distinct (map fst players)" and "(pid, pos) \<in> set players" and "rep_send_budget_bytes rp = 0"
    and "rep_view_distance rp < 2 ^ 31" and "rep_vertical_view rp < 2 ^ 31"
    and "wire_ok env" and "client_ok cw" and "sorted (sent_to rp pid)" and "distinct (sent_to rp pid)"
    and "mirror (rep_world rp') (sent_to rp pid) (rep_last_sent_revision rp pid) (client_content cw)"
  shows "\<exists>cw'. receive env (frames_to pid out) cw = Some cw' \<and>
    client_content cw' = (\<lambda>c. if c \<in> set (chunks_in_view (chunk_of_pos F pos) (rep_view_distance rp) (rep_vertical_view rp))
      then content (wo_chunks (rep_world rp')) c else None) \<and>
    mirror (rep_world rp') (sent_to rp' pid) (rep_last_sent_revision rp' pid) (client_content cw')"
proof -
  note ok = tick_world_ok [OF assms(1, 3, 2)]
  note view = sorted_chunks_in_view [of "chunk_of_pos F pos"] distinct_chunks_in_view [OF assms(6, 7)]
  note pv = replicator_tick_views [OF assms(1, 3, 4)]
  from tick_shows_view [OF assms(8) ok assms(9) view assms(10-12) pv [unfolded assms(5)]]
    tick_keeps_mirror [OF assms(8) ok assms(9) view assms(10-12) pv]
  show ?thesis by auto
qed

theorem replication_shows_view_witness:
  "\<exists>order out rp' cw'. replicator_tick integer_ops None (\<lambda>n. False) order [(7, vd_zero)] stone_server = Some (out, rp') \<and>
    receive plain_env (frames_to 7 out) new_client_world = Some cw' \<and>
    client_content cw' = (\<lambda>c. if c \<in> set (chunks_in_view (chunk_of_pos integer_ops vd_zero) 1 1)
      then content (wo_chunks (rep_world rp')) c else None)"
proof -
  let ?d = "sort_unique (chunks_in_view (chunk_of_pos integer_ops vd_zero) 1 1)"
  have store: "lc_region_store (rep_lifecycle stone_server) = None"
    by (simp add: stone_server_def new_replicator_def new_lifecycle_def)
  obtain life w p where u: "update_world (\<lambda>n. False) (\<lambda>_. []) ?d
      (rep_lifecycle stone_server, rep_world stone_server, rep_pool stone_server) = Some (life, w, p)"
    using update_returns [OF store, of "\<lambda>n. False" "\<lambda>_. []" ?d "rep_world stone_server" "rep_pool stone_server"] prod_cases3 by metis
  have vd: "rep_view_distance stone_server = 1" "rep_vertical_view stone_server = 1" by (simp_all add: stone_server_def new_replicator_def)
  have "\<exists>out rp'. replicator_tick integer_ops None (\<lambda>n. False) (\<lambda>_. []) [(7, vd_zero)] stone_server = Some (out, rp')"
    using u by (simp add: replicator_tick_def Let_def vd)
  then obtain out rp' where r: "replicator_tick integer_ops (ce_lz4 plain_env) (\<lambda>n. False) (\<lambda>_. []) [(7, vd_zero)] stone_server = Some (out, rp')"
    by (auto simp: plain_env_def)
  have start: "sent_to stone_server 7 = []" "rep_last_sent_revision stone_server 7 = Map.empty" "rep_send_budget_bytes stone_server = 0"
      "rep_view_distance stone_server = 1" "rep_vertical_view stone_server = 1"
    by (simp_all add: stone_server_def new_replicator_def sent_to_def)
  have "mirror (rep_world rp') [] Map.empty (client_content new_client_world)"
    by (simp add: fresh_client mirror_def)
  with replication_shows_view [OF r stone_start, of 7 vd_zero new_client_world]
  obtain cw' where "receive plain_env (frames_to 7 out) new_client_world = Some cw'"
      "client_content cw' = (\<lambda>c. if c \<in> set (chunks_in_view (chunk_of_pos integer_ops vd_zero) 1 1)
        then content (wo_chunks (rep_world rp')) c else None)"
    by (auto simp: start plain_wire fresh_client)
  moreover have "replicator_tick integer_ops None (\<lambda>n. False) (\<lambda>_. []) [(7, vd_zero)] stone_server = Some (out, rp')"
    using r by (simp add: plain_env_def)
  ultimately show ?thesis by (intro exI conjI)
qed



text \<open>
  C4. Relighting a chunk, by the closed forms for a uniform chunk or by the two floods, gives the
  least light that holds what enters from above, from the sides and from the emitters and that
  has spread by the attenuation of every step; it is the only light of that description, and
  blocks, coordinate and revision stay.
\<close>

theorem relight_is_least_light:
  assumes "chunk_inv c"
  shows "relit e nb c (relight_chunk e nb c) \<and> (\<forall>c'. relit e nb c c' \<longrightarrow> ch_light c' = ch_light (relight_chunk e nb c)) \<and>
    chunk_inv (relight_chunk e nb c) \<and> ch_blocks (relight_chunk e nb c) = ch_blocks c \<and>
    ch_coord (relight_chunk e nb c) = ch_coord c \<and> ch_revision (relight_chunk e nb c) = ch_revision c"
  using relight_is_relit [OF assms] relit_unique relight_inv [OF assms] relight_keeps by blast

theorem relight_is_least_light_witness:
  "relit (new_light_engine base_registry) no_neighbours (new_chunk \<lparr>cc_x = 0, cc_y = -1, cc_z = 2\<rparr>)
     (relight_chunk (new_light_engine base_registry) no_neighbours (new_chunk \<lparr>cc_x = 0, cc_y = -1, cc_z = 2\<rparr>))"
  using relight_is_least_light [OF new_chunk_inv] by blast

text \<open>
  C5. A chunk that is saved, with whatever chunks are in its region, flushed, and asked for by a
  store opened afresh on the same files, loads with its blocks, its light and its revision.
\<close>

theorem saved_chunk_survives_restart:
  assumes "region_store_ok st" and "chunk_inv ch" and "ch_revision ch \<noteq> 0"
    and "\<And>en. saved st (ch_coord ch) = Some en \<Longrightarrow> ren_revision en \<noteq> ch_revision ch"
    and "entries_ok (region_view st (region_key (ch_coord ch)))"
    and "length (region_view st (region_key (ch_coord ch))) + 1 < 2 ^ 64"
  shows "\<exists>d st'. rs_load (ch_coord ch) (new_region_store (rst_lz4 (save_if_dirty ch st))
      (rst_disk (rs_flush (save_if_dirty ch st)))) = Some (Some d, st') \<and> ch_coord d = ch_coord ch \<and>
    voxels (ch_blocks d) = voxels (ch_blocks ch) \<and> ch_light d = ch_light ch \<and> ch_revision d = ch_revision ch"
  using load_saved [OF _ assms(2)] saved_save [OF assms(3,4)] reopen_after_flush [OF save_ok [OF assms(1,2,5,6)]]
  by (metis fun_upd_same)

theorem saved_chunk_survives_restart_witness:
  "let ch = (new_chunk \<lparr>cc_x = -5, cc_y = 0, cc_z = 17\<rparr>)\<lparr>ch_revision := 1\<rparr>;
       st = save_if_dirty ch (new_region_store None Map.empty) in
   \<exists>d st'. rs_load (ch_coord ch) (new_region_store (rst_lz4 st) (rst_disk (rs_flush st))) = Some (Some d, st') \<and>
     ch_revision d = 1"
proof -
  let ?ch = "(new_chunk \<lparr>cc_x = -5, cc_y = 0, cc_z = 17\<rparr>)\<lparr>ch_revision := 1\<rparr>"
  have "chunk_inv ?ch" using new_chunk_inv by (simp add: chunk_inv_def)
  then show ?thesis
    using saved_chunk_survives_restart [of "new_region_store None Map.empty" ?ch]
      new_region_store_ok [of None Map.empty]
    by (auto simp: Let_def saved_def region_view_def new_region_store_def on_disk_def entries_ok_def lz_trusted_def)
qed



text \<open>
  C7. Input batches that overlap, are repeated or arrive out of date do to the session exactly what
  the commands do once each and in order: a sequence of windows of one stream of commands
  without a gap equals the single batch up to the furthest window, when no hook intercepts
  inputs.
\<close>

theorem inputs_exactly_once:
  assumes "no_input_hooks hk" and "distinct (map fst (sn_conns s))" and "find_conn c s = Some cn" and "no_gap 0 ws" and "ws \<noteq> []"
  shows "fold (\<lambda>w. handle_input_batch F hk c (window stream w)) ws s =
    handle_input_batch F hk c \<lparr>batch_cmds = take (fold max (map snd ws) 0) stream\<rparr> s"
  by (rule inputs_once [OF assms])

theorem inputs_exactly_once_witness:
  "fold (\<lambda>w. handle_input_batch integer_ops no_session_hooks 1 (window [demo_cmd 1, demo_cmd 2, demo_cmd 3] w)) [(0, 2), (1, 3), (0, 1)] solo =
   handle_input_batch integer_ops no_session_hooks 1 \<lparr>batch_cmds = [demo_cmd 1, demo_cmd 2, demo_cmd 3]\<rparr> solo"
proof -
  have "no_input_hooks (no_session_hooks :: (unit, unit) session_hooks)" "no_gap 0 [(0, 2), (1, 3), (0, 1)]"
    by (simp_all add: no_input_hooks_def no_session_hooks_def)
  from inputs_exactly_once [OF this(1) solo_facts(1, 2) this(2), of integer_ops "[demo_cmd 1, demo_cmd 2, demo_cmd 3]"]
  show ?thesis by simp
qed





text \<open>
  C10. While a server asks for a sign-in, a client step sends either nothing, and then keeps waiting
  or fails, or one Auth frame whose token is neither empty nor over the cap.
\<close>

theorem token_discipline:
  assumes "cl_status cl \<in> asked"
  shows "guarded bld cfg (cl_handle bld cfg host ev cl)"
  using assms by (rule guarded_handle)

theorem token_discipline_witness:
  "guarded demo_build default_client_config (cl_handle demo_build default_client_config default_client_host Sign_In_Tick
     ((new_client :: unit client_handshake)\<lparr>cl_status := cSigningIn\<rparr>))"
  by (rule token_discipline) (simp add: asked_def)

text \<open>
  C11. Paced asset streaming refines the canonical chunk list: after an AssetRequest any run of ticks
  sends, in order, exactly as many chunks of the requested files as the budgets add up to, and
  the machine waits for Ready exactly when all are sent.
\<close>

theorem asset_stream_refines:
  assumes "missing \<noteq> []" and "serves host files missing"
    and "sv_asset_stream st = new_stream missing" and "sv_state st = kStreamingAssets"
  shows "fst (pump_ticks lz host budgets st) =
      map (data_frame lz) (take (sum_list (map nat budgets)) (all_chunks files missing)) \<and>
    sv_state (snd (pump_ticks lz host budgets st)) =
      (if length (all_chunks files missing) \<le> sum_list (map nat budgets) then kAwaitingReady
       else kStreamingAssets)"
proof -
  have "stream_ok files (sv_asset_stream st)" "serves host files (as_pending (sv_asset_stream st))"
    using assms new_stream_ok [of missing files] by (simp_all add: new_stream_def)
  from pump_ticks_refines [OF this assms(4)] show ?thesis
    by (simp add: assms(3) new_stream_remaining)
qed

theorem asset_stream_refines_witness:
  "fst (pump_ticks None accepting_host [1, 4] streaming) =
    map (data_frame None) (all_chunks (\<lambda>h. [1, 2, 3]) [\<lparr>ah_lo = 5, ah_hi = 6\<rparr>])"
  using asset_stream_refines [of "[\<lparr>ah_lo = 5, ah_hi = 6\<rparr>]" "accepting_host" "\<lambda>h. [1, 2, 3]" "streaming" None "[1, 4]"]
  by (simp add: serves_def accepting_host_def streaming_def chunk_count_def kAssetChunkBytes_def
      all_chunks_def file_chunks_def)

text \<open>
  C12. A chunk is stamped with its structures as if it had seen the placements of the whole world:
  however far around the chunk placements are looked for, beyond the largest reach of a
  structure, the blocks come out the same, so chunks can be generated alone and in any order and
  still agree on what stands across their borders.
\<close>

theorem chunk_needs_no_neighbour:
  assumes "wg_pipeline g = Some pipe" and "structures_ok pipe" and "rules_ok pipe" and "bs_biomes (pp_biomes pipe) \<noteq> []"
    and "max_radius pipe \<le> r"
  shows "fold (stamp_placement pipe (origin_of c)) (structure_placements N g (reach_window (origin_of c) r)) blocks =
    stamp_structures N g c blocks"
  by (rule stamp_any_window [OF assms])

theorem chunk_needs_no_neighbour_witness:
  "fold (stamp_placement demo_pipeline (origin_of \<lparr>cc_x = 0, cc_y = 0, cc_z = 0\<rparr>))
     (structure_placements integer_noise demo_generator (reach_window (origin_of \<lparr>cc_x = 0, cc_y = 0, cc_z = 0\<rparr>) 64)) (new_store kAir) =
   stamp_structures integer_noise demo_generator \<lparr>cc_x = 0, cc_y = 0, cc_z = 0\<rparr> (new_store kAir)"
  by (rule chunk_needs_no_neighbour [OF demo_generator_pipeline demo_structures_ok demo_rules_ok])
    (simp_all add: demo_pipeline_def demo_biomes_def demo_rule_def demo_structure_def max_radius_def)

text \<open>
  C13. The biome of a place, found by resolving the neighbours of its cell first with a memo and a
  guard against cycles, is the one the rule of the draw defines: the weighted draw of the cell,
  given the biomes of just those neighbours that come before it in the order of a hash. The
  guard is never needed, what was resolved before has no influence, and the result is one of the
  biomes.
\<close>

theorem biome_resolution:
  assumes "bs_biomes sel \<noteq> []"
  shows "resolve_biome N sel x z = biome_of N (bs_seed sel) (bs_biomes sel)
      (fo_floor_i64 (no_floats N) (fo_div (no_floats N) x (bs_cell_size sel)),
       fo_floor_i64 (no_floats N) (fo_div (no_floats N) z (bs_cell_size sel))) \<and>
    biome_of N seed (bs_biomes sel) c = choose_biome N seed (bs_biomes sel) c
      (map (biome_of N seed (bs_biomes sel)) (filter (\<lambda>n. order_key seed n < order_key seed c) (neighbours_of c))) \<and>
    resolve_biome N sel x z < length (bs_biomes sel)"
  using biome_resolved [OF assms, of N x z] biome_of_less [OF assms] biome_of_neighbours by simp

theorem biome_resolution_witness:
  "let b = \<lparr>be_name = [], be_probability = 1, be_surface = 1, be_filler = 2, be_stone = 3, be_adjacency = [1, 0]\<rparr>;
       sel = new_selector integer_ops 5 100 [b, b] in
   resolve_biome integer_noise sel 250 (- 30) = biome_of integer_noise 5 [b, b] (2, 0) \<and> resolve_biome integer_noise sel 250 (- 30) < 2"
proof -
  let ?b = "\<lparr>be_name = [], be_probability = 1, be_surface = 1, be_filler = 2, be_stone = 3, be_adjacency = [1, 0]\<rparr>"
  define sel where "sel = new_selector integer_ops 5 100 [?b, ?b]"
  have sel: "bs_seed sel = 5" "bs_biomes sel = [?b, ?b]" "bs_cell_size sel = 100"
    by (simp_all add: sel_def new_selector_def integer_ops_def f_zero_def)
  then have "bs_biomes sel \<noteq> []" by simp
  note r = biome_resolution [OF this, of integer_noise 250 "- 30" 0 "(0, 0)"]
  have "fo_floor_i64 (no_floats integer_noise) (fo_div (no_floats integer_noise) 250 100) = 2"
    "fo_floor_i64 (no_floats integer_noise) (fo_div (no_floats integer_noise) (- 30) 100) = 0"
    by (simp_all add: integer_noise_def integer_ops_def signed_divide_int_def)
  with conjunct1 [OF r] conjunct2 [OF conjunct2 [OF r]] show ?thesis unfolding Let_def sel_def [symmetric] sel by simp
qed

text \<open>
  C14. Chunk streaming finishes: from any well-formed state, with any clock and any saved chunks,
  once the rounds outnumber the work left every wanted chunk is loaded, a round being an update
  after the workers finished a step or had nothing to do; and without a region store there are
  always such rounds.
\<close>

theorem streaming_completes:
  assumes "streaming_ok t" and "work_left desired t < n"
  shows "(\<forall>t'. (fair_round order desired ^^ n) t t' \<longrightarrow> all_loaded desired t') \<and>
    (lc_region_store (fst t) = None \<longrightarrow> (\<exists>t'. (fair_round order desired ^^ n) t t'))"
  using rounds_complete [OF _ assms] rounds_exist [of t] by blast

theorem streaming_completes_witness:
  "\<exists>t. (fair_round (\<lambda>w. []) [\<lparr>cc_x = 0, cc_y = 0, cc_z = 0\<rparr>] ^^ 5) (new_lifecycle base_registry,
      \<lparr>wo_registry = base_registry, wo_chunks = Map.empty\<rparr>,
      \<lparr>wp_generate = (\<lambda>c. c), wp_synchronous = False, wp_queue = [], wp_in_flight = [], wp_completed = []\<rparr>) t \<and>
    all_loaded [\<lparr>cc_x = 0, cc_y = 0, cc_z = 0\<rparr>] t"
proof -
  let ?t = "(new_lifecycle base_registry, \<lparr>wo_registry = base_registry, wo_chunks = Map.empty\<rparr>,
      \<lparr>wp_generate = (\<lambda>c. c), wp_synchronous = False, wp_queue = [], wp_in_flight = [], wp_completed = []\<rparr>)"
  have "streaming_ok ?t" by (rule fresh_streaming_ok) (simp_all add: world_ok_def gen_ok_id)
  moreover have "work_left [\<lparr>cc_x = 0, cc_y = 0, cc_z = 0\<rparr>] ?t < 5"
    by (simp add: work_left_def work_def at_start_def new_lifecycle_def made_def unasked_def is_loaded_def has_chunk_def)
  moreover have "lc_region_store (fst ?t) = None" by (simp add: lifecycle_without_store)
  ultimately show ?thesis using streaming_completes by blast
qed



text \<open>
  C16. A client in any reachable state past the first has seen a ServerInfo with its own protocol
  version and a pack requirement that parses and admits its engine version; it signs in only to
  a server that asked for it, and has a JoinAccept when joined.
\<close>

theorem client_trusts_checked_server:
  assumes "cl_reachable bld cfg cl" and "cl_status cl \<notin> {cConnecting, cFailed}"
  shows "\<exists>info. cl_server_info cl = Some info \<and> server_ok bld info \<and>
    (cl_status cl \<in> {cAwaitingChallenge, cSigningIn} \<longrightarrow> info_auth_mode info = kAuthExternal) \<and>
    (cl_status cl = cJoined \<longrightarrow> cl_join_accept cl \<noteq> None)"
  using cl_reachable_inv [OF assms(1)] assms(2) unfolding cl_inv_def by blast

theorem client_trusts_checked_server_witness:
  "\<exists>info. cl_server_info greeted = Some info \<and> server_ok demo_build info"
  using client_trusts_checked_server [OF greeted_reachable] by (auto simp: greeted_status)

text \<open>
  C17. The undo stack of the structure editor refines a history of documents: after any run of its
  tools, with undo and redo anywhere between, the document shown (anchor, placement and
  variants) is the present of the history in which every recorded edit was pushed, undo steps
  back and redo forward; there is something to undo or redo exactly when the history says so;
  and as long as the mark of the last save is alive, a document that counts as clean is the one
  last saved or opened.
\<close>

theorem undo_refines_history:
  assumes "doc_variants doc \<noteq> []"
    and "edit_run F ops (open_session doc, start_history (body_of doc), body_of doc) = (s, h, kept)"
  shows "eh_present h = body_of (es_doc s) \<and> (can_undo (es_undo s) \<longleftrightarrow> eh_past h \<noteq> []) \<and>
    (can_redo (es_undo s) \<longleftrightarrow> eh_future h \<noteq> []) \<and>
    (us_saved_valid (es_undo s) \<and> \<not> es_dirty s \<longrightarrow> body_of (es_doc s) = kept)"
  using run_shows [OF assms] by blast

theorem undo_refines_history_witness:
  "let doc = create_doc [] (2, 1, 1) (0, 0, 0);
       r = edit_run integer_ops [Op_Set_Brush (Some (lit ''base:stone'')), Op_Place (0, 0, 0), Op_Place (1, 0, 0), Op_Undo, Op_Mark_Saved]
         (open_session doc, start_history (body_of doc), body_of doc) in
   eh_present (fst (snd r)) = body_of (es_doc (fst r)) \<and> can_undo (es_undo (fst r)) = (eh_past (fst (snd r)) \<noteq> [])"
proof -
  let ?doc = "create_doc [] (2, 1, 1) (0, 0, 0)"
  let ?r = "edit_run integer_ops [Op_Set_Brush (Some (lit ''base:stone'')), Op_Place (0, 0, 0), Op_Place (1, 0, 0), Op_Undo, Op_Mark_Saved]
         (open_session ?doc, start_history (body_of ?doc), body_of ?doc)"
  obtain s h kept where r: "?r = (s, h, kept)" by (cases ?r) blast
  have "doc_variants ?doc \<noteq> []" by (simp add: create_doc_def)
  from undo_refines_history [OF this r] show ?thesis unfolding Let_def r by simp
qed

text \<open>
  C18. The in-process network is a pair of lossless queues per connection: in any run of calls of its
  ends, what has been taken out of a connection in one direction followed by what still waits
  there is exactly what was put in, in order, with the sign of life it begins with and the
  farewell of a close.
\<close>

theorem loopback_fifo:
  assumes "loop_run to_server c ops new_loopback = (ins, outs, lb)" and "length ops < 2 ^ 63"
  shows "outs @ in_queue to_server c lb = ins"
proof -
  have "length (hub_links (lb_hub new_loopback)) + Suc (length ops) < 2 ^ 64"
    using assms(2) by (simp add: new_loopback_def)
  from run_accounts [OF new_loopback_ok(1) this assms(1)] show ?thesis by (simp add: new_loopback_ok(2))
qed

theorem loopback_fifo_witness:
  "\<exists>ins outs lb. loop_run True 1 [Op_Listen The_Server, Op_Client, Op_Connect (The_Client 0),
       Op_Send (The_Client 0) 1 kInput [7], Op_Poll The_Server, Op_Close 1 []] new_loopback = (ins, outs, lb) \<and>
     outs @ in_queue True 1 lb = ins \<and> length outs = 2 \<and> length ins = 3"
proof -
  let ?ops = "[Op_Listen The_Server, Op_Client, Op_Connect (The_Client 0),
       Op_Send (The_Client 0) 1 kInput [7], Op_Poll The_Server, Op_Close 1 []]"
  obtain ins outs lb where r: "loop_run True 1 ?ops new_loopback = (ins, outs, lb)" by (cases "loop_run True 1 ?ops new_loopback") blast
  have "outs @ in_queue True 1 lb = ins" by (rule loopback_fifo [OF r]) simp
  moreover have "length outs = 2 \<and> length ins = 3"
    using r by (auto simp: new_loopback_def create_client_def loop_listen_def loop_connect_def loop_send_def loop_close_def
      loop_poll_def polls_def hub_find_def update_link_def make_event_def link_open_def Let_def)
  ultimately show ?thesis using r by blast
qed

text \<open>
  C19. Where a player first stands: on the surface, within 256 columns of the wanted one. If any
  column in that square is dry and has its surface standing in the generated world with two free
  voxels above, the chosen one is such a column, none nearer; failing that, a dry column is
  chosen if there is one.
\<close>

theorem spawn_on_land:
  assumes "spawn_spot N g sx sz = (x, y, z)"
  shows "y = surface_height N g x z \<and> far sx sz (x, z) \<le> kMaxRing \<and>
    (\<forall>c. far sx sz c \<le> kMaxRing \<and> good_column N g c \<longrightarrow> good_column N g (x, z) \<and> far sx sz (x, z) \<le> far sx sz c) \<and>
    (\<forall>c. far sx sz c \<le> kMaxRing \<and> dry N g c \<longrightarrow> dry N g (x, z))"
  using spawn_found [OF assms] by blast

theorem spawn_on_land_witness:
  "spawn_spot integer_noise plain_generator 0 0 = (0, 100, 0) \<and> good_column integer_noise plain_generator (0, 0)"
proof -
  obtain x y z where s: "spawn_spot integer_noise plain_generator 0 0 = (x, y, z)" by (cases "spawn_spot integer_noise plain_generator 0 0") blast
  have "far 0 0 (0, 0) \<le> kMaxRing" by (simp add: far_def kMaxRing_def)
  then have "far 0 0 (x, z) \<le> far 0 0 (0, 0)" "y = 100"
    using spawn_on_land [OF s] plain_good by (auto simp: plain_height)
  then show ?thesis using s plain_good by (simp add: far_def)
qed



text \<open>
  C21. Whatever the arithmetic, the input and the world, a movement step that starts with the player
  box clear of solid voxels ends with it clear: sweeping, stepping up and sliding never push a
  player into terrain.
\<close>

theorem movement_no_penetration:
  assumes "\<not> box_hits_solid F (player_box F (ms_position s) p) solid"
  shows "\<not> box_hits_solid F (player_box F (ms_position (step_movement F p solid i s)) p) solid"
  using step_movement_free [of F p solid s i] assms by (simp add: hits_def)

theorem movement_no_penetration_witness:
  "\<not> box_hits_solid integer_ops (player_box integer_ops (ms_position (step_movement integer_ops default_move_params (\<lambda>v. iv_y v = -7)
     \<lparr>mi_wish_dir = vd_zero, mi_jump = True, mi_sprint = False, mi_fly_up = False, mi_fly_down = False, mi_dt = 5\<rparr>
     default_move_state)) default_move_params) (\<lambda>v. iv_y v = -7)"
  by (rule movement_no_penetration)
    (simp add: box_hits_solid_def player_box_def integer_ops_def default_move_state_def default_move_params_def vd_zero_def f_zero_def kSkin_def)

text \<open>
  C22. Whatever the payload, a chunk payload decoder that returns leaves a well-formed store and a
  light volume of the right size, on errors too.
\<close>

theorem hostile_payload_keeps_invariant:
  assumes "chunk_inv out" and "decode_chunk_payload payload out = Some (res, c')"
  shows "chunk_inv c'"
  using assms by (rule decode_chunk_inv)

theorem hostile_payload_keeps_invariant_witness:
  "chunk_inv (snd (the (decode_chunk_payload [] (new_chunk \<lparr>cc_x = 0, cc_y = 0, cc_z = 0\<rparr>))))"
proof -
  have "decode_chunk_payload [] out = Some (Some kMalformed, out)" for out
    by (simp add: decode_chunk_payload_def reader_on_def r_varint_def run_varint_loop [of 0 0])
  from hostile_payload_keeps_invariant [OF new_chunk_inv this] this show ?thesis by simp
qed

text \<open>
  C23. PalettedChunkStore::set is a point update of the list of voxels, keeps the store invariant
  through palette growth and repacking, and reports whether the voxel changed.
\<close>

theorem paletted_set_refines:
  assumes "store_inv st" and "i < kChunkVolume"
  shows "store_inv (snd (ps_set i b st)) \<and>
    voxels (snd (ps_set i b st)) = (voxels st)[i := b] \<and>
    (fst (ps_set i b st) \<longleftrightarrow> voxels st ! i \<noteq> b)"
  using assms set_ok(1,3) [OF assms] paletted.view_put [OF assms]
  by (simp add: voxels_view [symmetric] voxels_nth)

theorem paletted_set_refines_witness:
  "voxels (snd (ps_set 5 7 (new_store 0))) = (voxels (new_store 0))[5 := 7] \<and>
   fst (ps_set 5 7 (new_store 0))"
  using paletted_set_refines [of "new_store 0" 5 7]
  by (simp add: new_store_ok voxels_nth kChunkVolume_def)

text \<open>
  C24. A chunk payload decodes, into any chunk, to the voxels and the light it was encoded from,
  leaving the coordinate and the revision of the target.
\<close>

theorem chunk_payload_decodes:
  assumes "chunk_inv c"
  shows "\<exists>c'. decode_chunk_payload (encode_chunk_payload c) out = Some (None, c') \<and> chunk_inv c' \<and>
    voxels (ch_blocks c') = voxels (ch_blocks c) \<and> ch_light c' = ch_light c \<and>
    ch_coord c' = ch_coord out \<and> ch_revision c' = ch_revision out"
  using assms by (rule chunk_payload_roundtrip)

theorem chunk_payload_decodes_witness:
  "\<exists>c'. decode_chunk_payload (encode_chunk_payload (new_chunk \<lparr>cc_x = 0, cc_y = 0, cc_z = 0\<rparr>))
      (new_chunk \<lparr>cc_x = 1, cc_y = 2, cc_z = 3\<rparr>) = Some (None, c') \<and> chunk_inv c'"
  using chunk_payload_decodes [OF new_chunk_inv] by blast

text \<open>
  C25. Every message of the handshake, the input, the snapshots, the chat, the inventory and the
  asset sync (protocol/handshake.cpp, input.cpp, snapshot.cpp, chat.cpp, inventory.cpp,
  assetsync.cpp) decodes what it encodes, every strict prefix of an accepted payload is
  kShortBuffer and every extension kTrailingBytes.
\<close>

theorem session_wire_contract:
  "wire_contract encode_C2SHello decode_C2SHello valid_C2SHello \<and>
   wire_contract encode_S2CServerInfo decode_S2CServerInfo valid_S2CServerInfo \<and>
   wire_contract encode_C2SAuth decode_C2SAuth valid_C2SAuth \<and>
   wire_contract encode_S2CAuthChallenge decode_S2CAuthChallenge valid_S2CAuthChallenge \<and>
   wire_contract encode_S2CReauthRequest decode_S2CReauthRequest valid_S2CReauthRequest \<and>
   wire_contract encode_C2SReauth decode_C2SReauth valid_C2SReauth \<and>
   wire_contract encode_S2CAuthResult decode_S2CAuthResult valid_S2CAuthResult \<and>
   wire_contract encode_C2SReady decode_C2SReady valid_C2SReady \<and>
   wire_contract encode_S2CJoinAccept decode_S2CJoinAccept valid_S2CJoinAccept \<and>
   wire_contract encode_S2CDisconnect decode_S2CDisconnect valid_S2CDisconnect \<and>
   wire_contract encode_C2SInputBatch decode_C2SInputBatch valid_C2SInputBatch \<and>
   wire_contract encode_S2CKeybindRegistry decode_S2CKeybindRegistry valid_S2CKeybindRegistry \<and>
   wire_contract encode_S2CEntitySnapshot decode_S2CEntitySnapshot valid_S2CEntitySnapshot \<and>
   wire_contract encode_C2SChat decode_C2SChat valid_C2SChat \<and>
   wire_contract encode_S2CChat decode_S2CChat valid_S2CChat \<and>
   wire_contract encode_S2COpenUi decode_S2COpenUi valid_S2COpenUi \<and>
   wire_contract encode_C2SUiEvent decode_C2SUiEvent valid_C2SUiEvent \<and>
   wire_contract encode_S2CPlayerJoin decode_S2CPlayerJoin valid_S2CPlayerJoin \<and>
   wire_contract encode_S2CPlayerLeave decode_S2CPlayerLeave valid_S2CPlayerLeave \<and>
   wire_contract encode_S2CPlayerList decode_S2CPlayerList valid_S2CPlayerList \<and>
   wire_contract encode_S2CInventory decode_S2CInventory valid_S2CInventory \<and>
   wire_contract encode_S2CPlayerStatus decode_S2CPlayerStatus valid_S2CPlayerStatus \<and>
   wire_contract encode_C2SAssetManifestRequest decode_C2SAssetManifestRequest valid_C2SAssetManifestRequest \<and>
   wire_contract encode_S2CAssetManifest decode_S2CAssetManifest valid_S2CAssetManifest \<and>
   wire_contract encode_C2SAssetRequest decode_C2SAssetRequest valid_C2SAssetRequest \<and>
   wire_contract encode_S2CAssetData decode_S2CAssetData valid_S2CAssetData"
  using
    hello_codec.contract info_codec.contract auth_codec.contract challenge_codec.contract
    reauth_request_codec.contract reauth_codec.contract auth_result_codec.contract
    ready_codec.contract join_codec.contract disconnect_codec.contract batch_codec.contract
    keys_codec.contract snapshot_codec.contract cchat_codec.contract schat_codec.contract
    oui_codec.contract uie_codec.contract pjoin_codec.contract pleave_codec.contract
    plist_codec.contract inv_codec.contract stat_codec.contract amreq_codec.contract
    aman_codec.contract areq_codec.contract adat_codec.contract
  by (intro conjI)

text \<open>
  C26. The same contract for the world messages (protocol/world.cpp): registries, parameters, chunks,
  deltas, edits, damage and the clock.
\<close>

theorem world_wire_contract:
  "wire_contract encode_S2CBlockRegistry decode_S2CBlockRegistry valid_S2CBlockRegistry \<and>
   wire_contract encode_S2CMoveParams decode_S2CMoveParams valid_S2CMoveParams \<and>
   wire_contract encode_S2CDayNightCurve decode_S2CDayNightCurve valid_S2CDayNightCurve \<and>
   wire_contract encode_S2CFogParams decode_S2CFogParams valid_S2CFogParams \<and>
   wire_contract encode_S2CEntityKindRegistry decode_S2CEntityKindRegistry valid_S2CEntityKindRegistry \<and>
   wire_contract encode_S2CChunkAdd decode_S2CChunkAdd valid_S2CChunkAdd \<and>
   wire_contract encode_S2CChunkDelta decode_S2CChunkDelta valid_S2CChunkDelta \<and>
   wire_contract encode_S2CChunkRemove decode_S2CChunkRemove valid_S2CChunkRemove \<and>
   wire_contract encode_C2SBlockEdit decode_C2SBlockEdit valid_C2SBlockEdit \<and>
   wire_contract encode_S2CBlockEditResult decode_S2CBlockEditResult valid_S2CBlockEditResult \<and>
   wire_contract encode_S2CBlockDamage decode_S2CBlockDamage valid_S2CBlockDamage \<and>
   wire_contract encode_C2SBlockBreakBegin decode_C2SBlockBreakBegin valid_C2SBlockBreakBegin \<and>
   wire_contract encode_C2SBlockBreakStop decode_C2SBlockBreakStop valid_C2SBlockBreakStop \<and>
   wire_contract encode_S2CTimeOfDay decode_S2CTimeOfDay valid_S2CTimeOfDay"
  using
    breg_codec.contract move_codec.contract curve_codec.contract fog_codec.contract
    kinds_codec.contract chunk_add_codec.contract delta_codec.contract remove_codec.contract
    edit_codec.contract eres_codec.contract bdmg_codec.contract bbeg_codec.contract
    bstop_codec.contract tod_codec.contract
  by (intro conjI)

text \<open>
  C27. The world of chunks behaves as one map from voxels to blocks: after any sequence of edits,
  over any chunks and with negative coordinates, a voxel reads its last edit and otherwise what
  it read before.
\<close>

theorem world_edits_last_wins:
  assumes "world_ok w"
  shows "get_block (fold (\<lambda>(v, b) s. snd (world_set_block v b s)) edits w) u =
    (case map_of (rev edits) u of Some b \<Rightarrow> b | None \<Rightarrow> get_block w u)"
  using ws.put_all_block [OF assms, of edits u] by (simp add: ws.put_all_def)

theorem world_edits_last_wins_witness:
  "get_block (fold (\<lambda>(v, b) s. snd (world_set_block v b s))
     [(\<lparr>iv_x = -1, iv_y = 0, iv_z = 31\<rparr>, 3), (\<lparr>iv_x = -1, iv_y = 0, iv_z = 32\<rparr>, 4)]
     \<lparr>wo_registry = base_registry, wo_chunks = Map.empty\<rparr>) \<lparr>iv_x = -1, iv_y = 0, iv_z = 31\<rparr> = 3"
proof -
  have "world_ok \<lparr>wo_registry = base_registry, wo_chunks = Map.empty\<rparr>" by (simp add: world_ok_def)
  then show ?thesis by (subst world_edits_last_wins) simp_all
qed

text \<open>
  C28. A tick of the dropped items loses and doubles nothing: every stack that was on the ground is
  still there, has been picked up by a player with its item and count, or has outlived its
  lifetime with nobody to collect it; and the identities reported as removed are those that are
  no longer there.
\<close>

theorem drops_accounted:
  assumes "drops_ok sys" and "item_drops_tick F dt players height world sys = (r, sys')"
  shows "drops_ok sys' \<and>
    stock (ids_drops sys) = stock (ids_drops sys') + mset (map (\<lambda>p. (ipk_item p, ipk_count p)) (itr_pickups r)) +
      stock (filter (expired F players height) (map (\<lambda>d. snd (fallen F dt world d)) (ids_drops sys))) \<and>
    (\<forall>n. find_drop n sys \<noteq> None \<longrightarrow> (n \<in> set (itr_removed r) \<longleftrightarrow> find_drop n sys' = None))"
proof -
  have t: "drop_tick F dt players height world (ids_drops sys) = (r, ids_drops sys')"
    using assms(2) by (auto simp: item_drops_tick_def split: prod.splits)
  show ?thesis
    using drop_tick_ok [OF assms(1), of F dt players height world] items_conserved [OF t] removed_iff_gone [OF assms]
    unfolding assms(2) snd_conv by blast
qed

theorem drops_accounted_witness:
  "let sys = snd (drop_spawn vd_zero 3 5 None None new_item_drops);
       (r, sys') = item_drops_tick integer_ops 1 [(1, vd_zero)] 0 None sys in
   itr_pickups r = [\<lparr>ipk_player = 1, ipk_item = 3, ipk_count = 5\<rparr>] \<and> ids_drops sys' = [] \<and>
   stock (ids_drops sys) = stock (ids_drops sys') + mset (map (\<lambda>p. (ipk_item p, ipk_count p)) (itr_pickups r)) +
      stock (filter (expired integer_ops [(1, vd_zero)] 0) (map (\<lambda>d. snd (fallen integer_ops 1 None d)) (ids_drops sys)))"
proof -
  let ?sys = "snd (drop_spawn vd_zero 3 5 None None new_item_drops)"
  let ?t = "item_drops_tick integer_ops 1 [(1, vd_zero)] 0 None ?sys"
  have "drops_ok ?sys" by simp
  note a = drops_accounted [OF this prod.collapse [symmetric], of integer_ops 1 "[(1, vd_zero)]" 0 None]
  have "itr_pickups (fst ?t) = [\<lparr>ipk_player = 1, ipk_item = 3, ipk_count = 5\<rparr>]" "ids_drops (snd ?t) = []"
    by (simp_all add: item_drops_tick_def drop_spawn_def new_item_drops_def collector_def integer_ops_def vd_zero_def f_zero_def distance_to_body_def Let_def)
  with a show ?thesis by (simp add: case_prod_unfold Let_def)
qed



text \<open>
  C30. A chunk holds, before its veins and structures, exactly the blocks that are promised for its
  voxels, the ones anchors of structures are checked against from afar; without a pack pipeline
  this is the whole chunk.
\<close>

theorem generated_terrain:
  assumes "x < 32" and "y < 32" and "z < 32" and "origin_of c = (ox, oy, oz)"
  shows "ps_get (terrain_pass N g c (new_store kAir)) (index_of x y z) = block_at_pregen N g (ox + int x) (oy + int y) (oz + int z) \<and>
    (wg_pipeline g = None \<longrightarrow>
      chunk_get (generate_chunk N g (new_chunk c)) (index_of x y z) = block_at_pregen N g (ox + int x) (oy + int y) (oz + int z))"
  using terrain_is_pregen [OF assms] generated_blocks [OF assms] by blast

theorem generated_terrain_witness:
  "chunk_get (generate_chunk integer_noise plain_generator (new_chunk \<lparr>cc_x = 0, cc_y = 3, cc_z = 0\<rparr>)) (index_of 5 4 6) = 13"
proof -
  have "block_at_pregen integer_noise plain_generator 5 100 6 = fixed_block plain_generator 100 100"
    by (simp add: block_at_pregen_def plain_height plain_no_pack)
  moreover have "fixed_block plain_generator 100 100 = 13" by (simp add: fixed_block_def plain_generator_def default_gen_params_def)
  moreover have "origin_of \<lparr>cc_x = 0, cc_y = 3, cc_z = 0\<rparr> = (0, 96, 0)" by (simp add: origin_of_def chunk_origin_def kChunkDim_def)
  ultimately show ?thesis
    using generated_terrain [of 5 4 6 "\<lparr>cc_x = 0, cc_y = 3, cc_z = 0\<rparr>" 0 96 0 integer_noise plain_generator] plain_no_pack by simp
qed

text \<open>
  C31. Two placements of one rule, in whatever window, are at least the rule's spacing apart along
  one axis, though nothing compares them: the jittered grid sees to it, over all cells and with
  negative coordinates.
\<close>

theorem structures_spaced:
  assumes "wg_pipeline g = Some pipe" and "rules_ok pipe"
    and "p \<in> set (structure_placements N g w)" and "q \<in> set (structure_placements N g w)" and "p \<noteq> q"
    and "spl_biome p = spl_biome q" and "spl_rule p = spl_rule q"
  shows "max 1 (plr_min_spacing (pp_decoration pipe ! spl_biome p ! spl_rule p)) \<le>
    max \<bar>spl_x p - spl_x q\<bar> \<bar>spl_z p - spl_z q\<bar>"
  using placements_spaced [OF assms] by (simp only: rule_spacing_def)

theorem structures_spaced_witness:
  "\<exists>p q. p \<in> set (structure_placements integer_noise demo_generator (0, 0, 30, 30)) \<and>
     q \<in> set (structure_placements integer_noise demo_generator (0, 0, 30, 30)) \<and> p \<noteq> q \<and>
     4 \<le> max \<bar>spl_x p - spl_x q\<bar> \<bar>spl_z p - spl_z q\<bar>"
proof -
  obtain p q where pq: "p \<in> set (structure_placements integer_noise demo_generator (0, 0, 30, 30))"
    "q \<in> set (structure_placements integer_noise demo_generator (0, 0, 30, 30))" "p \<noteq> q"
    "spl_biome p = 0" "spl_biome q = 0" "spl_rule p = 0" "spl_rule q = 0" using demo_placements by blast
  have "4 \<le> max \<bar>spl_x p - spl_x q\<bar> \<bar>spl_z p - spl_z q\<bar>"
    using structures_spaced [OF demo_generator_pipeline demo_rules_ok pq(1-3)] pq(4-7) by (simp add: demo_pipeline_def demo_rule_def)
  then show ?thesis using pq(1-3) by blast
qed

text \<open>
  C32. Every step of the server handshake, on any frame, tick or timeout: a step that disconnects
  closes the machine and ends with the disconnect frame of the reported reason, a step that
  closes it disconnects, and a step completes only from kAwaitingReady into kPlaying, ending
  with the JoinAccept of the grant.
\<close>

theorem server_step_contract:
  "good_step lz st (srv_handle cfg lz host ev st)"
  by (rule good_handle)

text \<open>
  C33. The loop that heals a punched block returns for every progress and interval, zero and
  not-a-number included: it makes at most as many rounds as the block has punches, each takes
  one punch and one interval away, and it ends at the first round where no punch is left or the
  progress falls short of the interval.
\<close>

theorem healing_returns:
  "\<exists>k \<le> unat punches. heal_loop F interval progress punches =
     (((\<lambda>p. fo_sub F p interval) ^^ k) progress, punches - of_nat k) \<and>
   (\<forall>j < k. fo_le F interval (((\<lambda>p. fo_sub F p interval) ^^ j) progress)) \<and>
   (k = unat punches \<or> \<not> fo_le F interval (((\<lambda>p. fo_sub F p interval) ^^ k) progress))"
  by (rule heal_loop_rounds)

theorem healing_returns_witness:
  "heal_loop integer_ops 2 7 10 = (1, 7) \<and>
   (\<exists>k \<le> 10. heal_loop integer_ops 2 7 10 = (((\<lambda>p. fo_sub integer_ops p 2) ^^ k) 7, 10 - of_nat k))"
proof -
  have "fo_le integer_ops 2 7" "fo_le integer_ops 2 5" "fo_le integer_ops 2 3" "\<not> fo_le integer_ops 2 1"
    "fo_sub integer_ops 7 2 = 5" "fo_sub integer_ops 5 2 = 3" "fo_sub integer_ops 3 2 = 1"
    by (simp_all add: integer_ops_def)
  then have "heal_loop integer_ops 2 7 10 = (1, 7)"
    by (simp add: heal_loop.simps [of integer_ops 2 7 10] heal_loop.simps [of integer_ops 2 5 9] heal_loop.simps [of integer_ops 2 3 8]
        heal_loop.simps [of integer_ops 2 1 7])
  then show ?thesis using healing_returns [of 10 integer_ops 2 7] by auto
qed

text \<open>
  C34. The cap on players is only looked at when a sign-in arrives, where a full server closes the
  handshake: everyone who has signed in before joins with its Ready however many play by then,
  so a server for one player can end up with two.
\<close>

theorem player_cap_race:
  assumes "distinct cs" and "\<forall>c \<in> set cs. awaits_ready c s"
  shows "sn_playing (fold (\<lambda>c. on_event env hk (Peer_Message c ready_bytes)) cs s) = sn_playing s + length cs \<and>
    (\<forall>fr hs. sv_state hs = kAwaitingAuth \<longrightarrow> mh_type (fr_header fr) = kC2SAuth \<longrightarrow>
      sc_max_players (sn_config s) \<le> of_nat (sn_playing s) \<longrightarrow>
      sv_state (snd (srv_on_frame (sn_config s) lz (session_host F host s) fr hs)) = kClosed)"
  using all_ready_join [OF assms] full_refused(2) [of _ _ s] by blast

theorem player_cap_race_witness:
  "sn_playing (fold (\<lambda>c. on_event demo_env no_session_hooks (Peer_Message c ready_bytes)) [1, 2] crowd) = 2 \<and>
   sc_max_players (sn_config crowd) = 1"
proof -
  have "distinct [1, 2 :: conn_id]" "\<forall>c \<in> set [1, 2]. awaits_ready c crowd" using crowd_awaits(1) by simp_all
  from player_cap_race [OF this, of demo_env no_session_hooks None integer_ops default_server_host] crowd_awaits(2) show ?thesis
    by (simp add: crowd_def new_server_session_def crowd_config_def)
qed





text \<open>
  C37. Where the structure editor loses track of what is saved: save after the first edit, undo it,
  make another edit and undo that. The editor then calls the document clean, so it closes
  without asking, though it shows the document as it was opened, which is not the one in the
  file whenever the first edit changed anything.
\<close>

theorem saved_mark_lost:
  assumes "doc_variants doc \<noteq> []" and "op1 \<notin> {Op_Mark_Saved, Op_Undo, Op_Redo}" and "op2 \<notin> {Op_Mark_Saved, Op_Undo, Op_Redo}"
    and "s1 = edit_step F op1 (open_session doc)" and "records (open_session doc) s1" and "body_of (es_doc s1) \<noteq> body_of doc"
    and "s2 = edit_step F Op_Undo (edit_step F Op_Mark_Saved s1)" and "s3 = edit_step F op2 s2" and "records s2 s3"
  shows "\<not> es_dirty (edit_step F Op_Undo s3) \<and> body_of (es_doc (edit_step F Op_Undo s3)) \<noteq> body_of (es_doc s1)"
  using lost_mark [OF assms(1-5, 7-9)] assms(6) by simp

theorem saved_mark_lost_witness:
  "let doc = create_doc [] (1, 1, 1) (0, 0, 0); s1 = edit_step integer_ops Op_Add (open_session doc);
       s2 = edit_step integer_ops Op_Undo (edit_step integer_ops Op_Mark_Saved s1);
       s4 = edit_step integer_ops Op_Undo (edit_step integer_ops Op_Add s2) in
   \<not> es_dirty s4 \<and> body_of (es_doc s4) \<noteq> body_of (es_doc s1)"
  unfolding Let_def
  by (rule saved_mark_lost [OF _ _ _ refl _ _ refl refl])
    (simp_all add: create_doc_def open_session_def new_stack_def records_def body_of_def es_add_variant_def push_variants_def
      push_command_def us_push_def insert_at_def Let_def es_mark_saved_def us_mark_saved_def es_undo_step_def us_undo_def can_undo_def
      after_history_def clamp_selection_def es_select_def)

text \<open>
  C38. Where the rollback of predicted edits fails: after two rejected edits of one voxel it shows
  what the first edit had predicted, and a delta for the chunk that does not touch the voxel
  makes the later rejection leave the predicted block standing.
\<close>

theorem rollback_limits:
  assumes "store_ok w" and "cw_pending_edits w = []" and "loaded_at w (edit_pos e1)"
    and "edit_pos e2 = edit_pos e1" and "edit_predicted_seq e1 \<noteq> edit_predicted_seq e2"
    and "valid_S2CChunkDelta m" and "delta_coord m = chunk_of (edit_pos e1)"
    and "\<forall>c \<in> set (delta_blocks m). unat (bc_local_index c) \<noteq> va_index (address_of (edit_pos e1))"
  shows "client_block_at (cw_chunks (handle_block_edit_result (rejected (edit_predicted_seq e2))
      (handle_block_edit_result (rejected (edit_predicted_seq e1))
        (snd (push_block_edit env True e2 (snd (push_block_edit env True e1 w))))))) (edit_pos e1) = applied_block e1 \<and>
    client_block_at (cw_chunks (handle_block_edit_result (rejected (edit_predicted_seq e1))
      (on_chunk_delta m (snd (push_block_edit env True e1 w))))) (edit_pos e1) = applied_block e1"
  using second_rejection_desyncs [OF assms(1-3) refl assms(4, 5), of env]
    delta_strands_prediction [OF assms(1-3, 6-8), of env] unfolding push_edit_def by blast

theorem rollback_limits_witness:
  "let w = new_client_world\<lparr>cw_chunks := \<lparr>cst_registry = base_registry, cst_chunks = [\<lparr>cc_x = 0, cc_y = 0, cc_z = 0\<rparr> \<mapsto> new_chunk \<lparr>cc_x = 0, cc_y = 0, cc_z = 0\<rparr>]\<rparr>\<rparr>; env = \<lparr>ce_floats = integer_ops, ce_lz4 = None, ce_server_info = None, ce_round_trip = None\<rparr>; v = \<lparr>iv_x = 0, iv_y = 0, iv_z = 0\<rparr>;
       e1 = \<lparr>edit_predicted_seq = 1, edit_action = kPlace, edit_pos = \<lparr>iv_x = 0, iv_y = 0, iv_z = 0\<rparr>, edit_block = 1\<rparr>; e2 = \<lparr>edit_predicted_seq = 2, edit_action = kBreak, edit_pos = \<lparr>iv_x = 0, iv_y = 0, iv_z = 0\<rparr>, edit_block = 0\<rparr>;
       m = \<lparr>delta_coord = \<lparr>cc_x = 0, cc_y = 0, cc_z = 0\<rparr>, delta_base_revision = 0, delta_new_revision = 1, delta_blocks = [], delta_light = []\<rparr> in
   client_block_at (cw_chunks w) v = 0 \<and>
   client_block_at (cw_chunks (handle_block_edit_result (rejected 2) (handle_block_edit_result (rejected 1)
     (snd (push_block_edit env True e2 (snd (push_block_edit env True e1 w))))))) v = 1 \<and>
   client_block_at (cw_chunks (handle_block_edit_result (rejected 1)
      (on_chunk_delta m (snd (push_block_edit env True e1 w))))) v = 1"
proof -
  let ?w = "new_client_world\<lparr>cw_chunks := \<lparr>cst_registry = base_registry, cst_chunks = [\<lparr>cc_x = 0, cc_y = 0, cc_z = 0\<rparr> \<mapsto> new_chunk \<lparr>cc_x = 0, cc_y = 0, cc_z = 0\<rparr>]\<rparr>\<rparr>"
  let ?m = "\<lparr>delta_coord = \<lparr>cc_x = 0, cc_y = 0, cc_z = 0\<rparr>, delta_base_revision = 0, delta_new_revision = 1, delta_blocks = [], delta_light = []\<rparr>"
  let ?e1 = "\<lparr>edit_predicted_seq = 1, edit_action = kPlace, edit_pos = \<lparr>iv_x = 0, iv_y = 0, iv_z = 0\<rparr>, edit_block = 1\<rparr>" and ?e2 = "\<lparr>edit_predicted_seq = 2, edit_action = kBreak, edit_pos = \<lparr>iv_x = 0, iv_y = 0, iv_z = 0\<rparr>, edit_block = 0\<rparr>"
  have v: "chunk_of \<lparr>iv_x = 0, iv_y = 0, iv_z = 0\<rparr> = \<lparr>cc_x = 0, cc_y = 0, cc_z = 0\<rparr>" by (simp add: chunk_of_def floor_div_def kChunkDim_def)
  have "store_ok ?w" "cw_pending_edits ?w = []" "loaded_at ?w (edit_pos ?e1)" "valid_S2CChunkDelta ?m"
    by (simp_all add: store_ok_def chunks_ok_def new_chunk_inv new_client_world_def loaded_at_def v valid_S2CChunkDelta_def)
  note r = rollback_limits [OF this(1-3), of ?e2 ?m "\<lparr>ce_floats = integer_ops, ce_lz4 = None, ce_server_info = None, ce_round_trip = None\<rparr>"]
  have "client_block_at (cw_chunks ?w) \<lparr>iv_x = 0, iv_y = 0, iv_z = 0\<rparr> = 0"
    using get_new_chunk [OF va_index_bound] by (simp add: client_block_at_def v kAir_def new_client_world_def)
  with r \<open>valid_S2CChunkDelta ?m\<close> show ?thesis by (simp add: v applied_block_def)
qed

text \<open>
  C39. A script that teleports a player moves it there, but a teleport made by the hook that sees its
  input is lost: the batch ends with the position, velocity and ground flag it would have had
  without the hook.
\<close>

theorem input_teleport_lost:
  assumes "playing_conn n s = Some (c, cn)" and "find_conn c s = Some cn"
  shows "(\<exists>a. find_conn c (snd (teleport_player F n to s)) = Some a \<and> pl_pos (cn_entity a) = to) \<and>
    (\<exists>a b. find_conn c (handle_input_batch F (teleporting F to) c batch s) = Some a \<and>
      find_conn c (handle_input_batch F no_session_hooks c batch s) = Some b \<and>
      entity_move_state (cn_entity a) = entity_move_state (cn_entity b))"
  by (intro conjI teleport_moves [OF assms] teleport_lost [OF assms(2)])

theorem input_teleport_lost_witness:
  "let to = \<lparr>vd_x = 100, vd_y = 0, vd_z = 0\<rparr> in
   \<exists>a b. find_conn 1 (handle_input_batch integer_ops (teleporting integer_ops to) 1 \<lparr>batch_cmds = [demo_cmd 1]\<rparr> solo) = Some a \<and>
     find_conn 1 (handle_input_batch integer_ops no_session_hooks 1 \<lparr>batch_cmds = [demo_cmd 1]\<rparr> solo) = Some b \<and>
     entity_move_state (cn_entity a) = entity_move_state (cn_entity b)"
  unfolding Let_def by (rule conjunct2 [OF input_teleport_lost [OF solo_facts(3, 2)]])


end
